(* ===== verification/Prelude.thy ===== *)
theory Prelude
  imports Complex_Main "HOL-Library.AList" "HOL-Library.Multiset"
begin

text \<open>
  The vocabulary the component theories share.
  \<^item> JavaScript data: \<open>js\<close> is a value of static type \<open>unknown\<close>; \<open>jmap_get\<close>, \<open>jmap_set\<close>
    and \<open>jmap_delete\<close> are \<open>Map.get\<close>, \<open>Map.set\<close> and \<open>Map.delete\<close> on the association list of a
    map's entries in insertion order (setting a present key keeps its place).
  \<^item> \<open>js_sort\<close> is \<open>Array.prototype.sort\<close> for a comparator: stable, and a permutation.
  \<^item> Four interfaces as locales: \<open>keyed_store\<close> (what a lookup returns after an update),
    \<open>comparator\<close> (a total preorder), \<open>classifier\<close> (every element falls in exactly one class, so
    per-class totals add up) and \<open>machine\<close> with its extensions \<open>absorbing_machine\<close> and
    \<open>monotone_machine\<close> (what one step keeps, every run keeps), with \<open>step_system\<close> for step relations.
  A JavaScript number that the code only uses as an integer is an \<open>int\<close>; one it divides is a
  \<open>rat\<close>, so arithmetic is exact where the code rounds to a double.
\<close>

section \<open>Option and boolean helpers\<close>

text \<open>The operator \<open>??\<close>: the right operand where the left is null or undefined.\<close>

definition coalesce :: "'a option \<Rightarrow> 'a \<Rightarrow> 'a" where
  "coalesce x d = (case x of None \<Rightarrow> d | Some v \<Rightarrow> v)"

definition coalesce_opt :: "'a option \<Rightarrow> 'a option \<Rightarrow> 'a option" where
  "coalesce_opt x y = (case x of None \<Rightarrow> y | Some v \<Rightarrow> Some v)"

lemma coalesce_simps [simp]: "coalesce None d = d" "coalesce (Some v) d = v"
  by (simp_all add: coalesce_def)

lemma coalesce_opt_simps [simp]: "coalesce_opt None y = y" "coalesce_opt (Some v) y = Some v"
  by (simp_all add: coalesce_opt_def)

lemma coalesce_opt_eq_None [simp]: "coalesce_opt x y = None \<longleftrightarrow> x = None \<and> y = None"
  by (cases x) simp_all

text \<open>A string option is truthy when it is present and not empty.\<close>

definition truthy :: "string option \<Rightarrow> bool" where
  "truthy x = (case x of None \<Rightarrow> False | Some s \<Rightarrow> s \<noteq> [])"

lemma truthy_simps [simp]: "\<not> truthy None" "truthy (Some s) \<longleftrightarrow> s \<noteq> []"
  by (simp_all add: truthy_def)

section \<open>Values of type unknown\<close>

datatype js =
    JUndefined
  | JNull
  | JBool bool
  | JNum rat
  | JStr string
  | JArr "js list"
  | JObj "(string \<times> js) list"

text \<open>Reading a property of an object; the property of any other value is undefined here,
  because the code tests for a plain object first.\<close>

fun js_prop :: "js \<Rightarrow> string \<Rightarrow> js" where
  "js_prop (JObj fs) k = coalesce (map_of fs k) JUndefined"
| "js_prop _ k = JUndefined"

fun js_string :: "js \<Rightarrow> string option" where
  "js_string (JStr s) = Some s"
| "js_string _ = None"

fun js_is_object :: "js \<Rightarrow> bool" where
  "js_is_object (JObj fs) = True"
| "js_is_object _ = False"

text \<open>Truthiness, nullishness, and \<open>===\<close> of two values read from different JSON documents: two
  objects or arrays are then different references.\<close>

fun js_truthy :: "js \<Rightarrow> bool" where
  "js_truthy JUndefined \<longleftrightarrow> False"
| "js_truthy JNull \<longleftrightarrow> False"
| "js_truthy (JBool b) \<longleftrightarrow> b"
| "js_truthy (JNum n) \<longleftrightarrow> n \<noteq> 0"
| "js_truthy (JStr s) \<longleftrightarrow> s \<noteq> []"
| "js_truthy _ \<longleftrightarrow> True"

definition js_nullish :: "js \<Rightarrow> bool" where
  "js_nullish v \<longleftrightarrow> v = JUndefined \<or> v = JNull"

definition js_coalesce :: "js \<Rightarrow> js \<Rightarrow> js" where
  "js_coalesce v w = (if js_nullish v then w else v)"

fun js_strict_eq :: "js \<Rightarrow> js \<Rightarrow> bool" where
  "js_strict_eq (JArr xs) v \<longleftrightarrow> False"
| "js_strict_eq (JObj fs) v \<longleftrightarrow> False"
| "js_strict_eq v w \<longleftrightarrow> v = w"

text \<open>\<open>obj\<close> and \<open>rows\<close>: the value if it is a plain object, else an empty one; the elements of an
  array, each read as an object.\<close>

fun js_obj :: "js \<Rightarrow> js" where
  "js_obj (JObj fs) = JObj fs"
| "js_obj _ = JObj []"

fun js_rows :: "js \<Rightarrow> js list" where
  "js_rows (JArr vs) = map js_obj vs"
| "js_rows _ = []"

fun js_strings :: "js \<Rightarrow> string list" where
  "js_strings (JArr vs) = List.map_filter js_string vs"
| "js_strings _ = []"

text \<open>Setting a property of a copy of an object, \<open>{...v, k: x}\<close>.\<close>

fun js_with :: "js \<Rightarrow> string \<Rightarrow> js \<Rightarrow> js" where
  "js_with (JObj fs) k x = JObj (AList.update k x fs)"
| "js_with v k x = JObj [(k, x)]"

text \<open>The white space that \<open>trim\<close> removes, among the characters of a string.\<close>

definition js_blank :: "string \<Rightarrow> bool" where
  "js_blank s \<longleftrightarrow> list_all (\<lambda>c. of_char c \<in> {9, 10, 11, 12, 13, 32, 160 :: nat}) s"

text \<open>\<open>a || b\<close> on strings, and \<open>[...new Set(xs)]\<close>, which keeps first occurrences.\<close>

definition str_or :: "string \<Rightarrow> string \<Rightarrow> string" where
  "str_or a b = (if a = [] then b else a)"

definition js_uniq :: "'a list \<Rightarrow> 'a list" where
  "js_uniq xs = rev (remdups (rev xs))"

lemma set_js_uniq [simp]: "set (js_uniq xs) = set xs"
  by (simp add: js_uniq_def)

lemma distinct_js_uniq [simp]: "distinct (js_uniq xs)"
  by (simp add: js_uniq_def)

section \<open>Maps with insertion order\<close>

definition jmap_get :: "('k \<times> 'v) list \<Rightarrow> 'k \<Rightarrow> 'v option" where
  "jmap_get m k = map_of m k"

definition jmap_set :: "('k \<times> 'v) list \<Rightarrow> 'k \<Rightarrow> 'v \<Rightarrow> ('k \<times> 'v) list" where
  "jmap_set m k v = AList.update k v m"

definition jmap_delete :: "('k \<times> 'v) list \<Rightarrow> 'k \<Rightarrow> ('k \<times> 'v) list" where
  "jmap_delete m k = AList.delete k m"

locale keyed_store =
  fixes get :: "'m \<Rightarrow> 'k \<Rightarrow> 'v option"
    and put :: "'m \<Rightarrow> 'k \<Rightarrow> 'v \<Rightarrow> 'm"
    and del :: "'m \<Rightarrow> 'k \<Rightarrow> 'm"
  assumes get_put: "get (put m k v) j = (if j = k then Some v else get m j)"
    and get_del: "get (del m k) j = (if j = k then None else get m j)"
begin

lemma get_put_same: "get (put m k v) k = Some v"
  by (simp add: get_put)

lemma get_put_other: "j \<noteq> k \<Longrightarrow> get (put m k v) j = get m j"
  by (simp add: get_put)

lemma get_del_same: "get (del m k) k = None"
  by (simp add: get_del)

lemma get_del_other: "j \<noteq> k \<Longrightarrow> get (del m k) j = get m j"
  by (simp add: get_del)

lemma get_del_SomeD: "get (del m k) j = Some v \<Longrightarrow> j \<noteq> k \<and> get m j = Some v"
  by (simp add: get_del split: if_splits)

end

interpretation jmap: keyed_store jmap_get jmap_set jmap_delete
  by unfold_locales
    (simp_all add: jmap_get_def jmap_set_def jmap_delete_def AList.update_conv'
      AList.delete_conv' fun_upd_def restrict_map_def)

lemma jmap_get_empty [simp]: "jmap_get [] k = None"
  by (simp add: jmap_get_def)

lemma jmap_get_put [simp]: "jmap_get (jmap_set m k v) j = (if j = k then Some v else jmap_get m j)"
  by (rule jmap.get_put)

lemma jmap_get_del [simp]: "jmap_get (jmap_delete m k) j = (if j = k then None else jmap_get m j)"
  by (rule jmap.get_del)

text \<open>What holds of every entry still does after one is set.\<close>

lemma set_update_subset: "set (AList.update k v m) \<subseteq> insert (k, v) (set m)"
  by (induction m) auto

lemma list_all_update: "list_all P m \<Longrightarrow> P (k, v) \<Longrightarrow> list_all P (AList.update k v m)"
  using set_update_subset [of k v m] by (auto simp: list_all_iff)

lemma foldl_keeps: "P s \<Longrightarrow> (\<And>s x. P s \<Longrightarrow> P (f s x)) \<Longrightarrow> P (foldl f s xs)"
  by (induction xs arbitrary: s) auto

section \<open>Sorting with a comparator\<close>

text \<open>
  \<open>le x y\<close> stands for \<open>compare(x, y) <= 0\<close>. Insertion from the right keeps equal elements in
  their order, as the language requires of \<open>Array.prototype.sort\<close>.
\<close>

fun insert_by :: "('a \<Rightarrow> 'a \<Rightarrow> bool) \<Rightarrow> 'a \<Rightarrow> 'a list \<Rightarrow> 'a list" where
  "insert_by le x [] = [x]"
| "insert_by le x (y # ys) = (if le x y then x # y # ys else y # insert_by le x ys)"

definition js_sort :: "('a \<Rightarrow> 'a \<Rightarrow> bool) \<Rightarrow> 'a list \<Rightarrow> 'a list" where
  "js_sort le xs = foldr (insert_by le) xs []"

lemma js_sort_simps [simp]:
  "js_sort le [] = []"
  "js_sort le (x # xs) = insert_by le x (js_sort le xs)"
  by (simp_all add: js_sort_def)

lemma mset_insert_by [simp]: "mset (insert_by le x xs) = add_mset x (mset xs)"
  by (induction xs) auto

lemma set_insert_by [simp]: "set (insert_by le x xs) = insert x (set xs)"
  by (induction xs) auto

lemma mset_js_sort [simp]: "mset (js_sort le xs) = mset xs"
  by (induction xs) auto

lemma set_js_sort [simp]: "set (js_sort le xs) = set xs"
  by (induction xs) auto

lemma length_js_sort [simp]: "length (js_sort le xs) = length xs"
  by (metis mset_js_sort size_mset)

lemma js_sort_Nil_iff [simp]: "js_sort le xs = [] \<longleftrightarrow> xs = []"
  by (metis length_0_conv length_js_sort)

locale comparator =
  fixes le :: "'a \<Rightarrow> 'a \<Rightarrow> bool"
  assumes total: "le x y \<or> le y x"
    and trans: "le x y \<Longrightarrow> le y z \<Longrightarrow> le x z"
begin

lemma refl: "le x x"
  using total by blast

lemma sorted_insert_by: "sorted_wrt le xs \<Longrightarrow> sorted_wrt le (insert_by le x xs)"
proof (induction xs)
  case Nil
  then show ?case by simp
next
  case (Cons y ys)
  show ?case
  proof (cases "le x y")
    case True
    with Cons.prems show ?thesis by (auto intro: trans)
  next
    case False
    then have "le y x" using total by blast
    with False Cons show ?thesis by auto
  qed
qed

lemma sorted_js_sort: "sorted_wrt le (js_sort le xs)"
  by (induction xs) (auto intro: sorted_insert_by)

lemma hd_js_sort_least: "x \<in> set xs \<Longrightarrow> le (hd (js_sort le xs)) x"
proof -
  assume x: "x \<in> set xs"
  then obtain y ys where s: "js_sort le xs = y # ys"
    by (cases "js_sort le xs") auto
  have "sorted_wrt le (y # ys)" using sorted_js_sort [of xs] s by simp
  moreover have "x \<in> set (y # ys)" using x s set_js_sort [of le xs] by simp
  ultimately show ?thesis using s refl by auto
qed

lemma insert_by_stable:
  "filter (\<lambda>z. le a z \<and> le z a) (insert_by le x xs)
     = (if le a x \<and> le x a then x # filter (\<lambda>z. le a z \<and> le z a) xs
        else filter (\<lambda>z. le a z \<and> le z a) xs)"
proof (induction xs)
  case Nil
  show ?case by simp
next
  case (Cons y ys)
  have "le x y" if "le a x" "le x a" "le a y" "le y a"
    using that by (blast intro: trans)
  with Cons show ?case by auto
qed

lemma js_sort_stable:
  "filter (\<lambda>z. le a z \<and> le z a) (js_sort le xs) = filter (\<lambda>z. le a z \<and> le z a) xs"
  by (induction xs) (simp_all add: insert_by_stable)

end

text \<open>The order of code units, which any collation agrees with on ISO timestamps.\<close>

fun code_compare :: "nat list \<Rightarrow> nat list \<Rightarrow> int" where
  "code_compare [] [] = 0"
| "code_compare [] (y # ys) = -1"
| "code_compare (x # xs) [] = 1"
| "code_compare (x # xs) (y # ys) =
     (if x < y then -1 else if y < x then 1 else code_compare xs ys)"

definition code_unit_compare :: "string \<Rightarrow> string \<Rightarrow> int" where
  "code_unit_compare xs ys = code_compare (map of_char xs) (map of_char ys)"

lemma code_compare_total: "code_compare xs ys \<le> 0 \<or> code_compare ys xs \<le> 0"
  by (induction xs ys rule: code_compare.induct) auto

lemma code_compare_trans:
  "code_compare xs ys \<le> 0 \<Longrightarrow> code_compare ys zs \<le> 0 \<Longrightarrow> code_compare xs zs \<le> 0"
proof (induction xs arbitrary: ys zs)
  case Nil
  then show ?case by (cases zs) simp_all
next
  case (Cons x xs)
  then obtain y ys' where ys: "ys = y # ys'"
    by (cases ys) simp_all
  with Cons.prems(2) obtain z zs' where zs: "zs = z # zs'"
    by (cases zs) simp_all
  from Cons.prems ys zs have "x \<le> y" "y \<le> z"
    by (simp_all split: if_splits)
  show ?case
  proof (cases "x = z")
    case True
    with \<open>x \<le> y\<close> \<open>y \<le> z\<close> have "y = z" by simp
    with True Cons.prems ys zs Cons.IH [of ys' zs'] show ?thesis by simp
  next
    case False
    with \<open>x \<le> y\<close> \<open>y \<le> z\<close> show ?thesis by (simp add: zs)
  qed
qed

interpretation code_units: comparator "\<lambda>x y. code_unit_compare x y \<le> 0"
  unfolding code_unit_compare_def
  by unfold_locales (use code_compare_total code_compare_trans in blast)+

text \<open>Comparing by a key is again a total preorder.\<close>

lemma comparator_key: "comparator le \<Longrightarrow> comparator (\<lambda>x y. le (f x) (f y))"
  unfolding comparator_def by blast

interpretation int_order: comparator "\<lambda>x y. (x :: int) \<le> y"
  by unfold_locales auto

section \<open>Totals per class\<close>

text \<open>
  The code keeps one counter per class (phase, verdict, activity) and adds each element to one
  of them. The counters then add up to the total, whatever is counted.
\<close>

definition class_sum :: "('a \<Rightarrow> 'c) \<Rightarrow> ('a \<Rightarrow> int) \<Rightarrow> 'c \<Rightarrow> 'a list \<Rightarrow> int" where
  "class_sum cls w c xs = (\<Sum>x\<leftarrow>xs. if cls x = c then w x else 0)"

lemma class_sum_simps [simp]:
  "class_sum cls w c [] = 0"
  "class_sum cls w c (x # xs) = (if cls x = c then w x else 0) + class_sum cls w c xs"
  by (simp_all add: class_sum_def)

lemma class_sum_append [simp]:
  "class_sum cls w c (xs @ ys) = class_sum cls w c xs + class_sum cls w c ys"
  by (induction xs) auto

lemma class_sum_nonneg: "(\<And>x. x \<in> set xs \<Longrightarrow> 0 \<le> w x) \<Longrightarrow> 0 \<le> class_sum cls w c xs"
  by (induction xs) auto

lemma class_sum_filter: "class_sum cls (\<lambda>_. 1) c xs = int (length (filter (\<lambda>x. cls x = c) xs))"
  by (induction xs) auto

locale classifier =
  fixes cls :: "'a \<Rightarrow> 'c" and classes :: "'c list"
  assumes classes_distinct: "distinct classes"
    and classified: "cls x \<in> set classes"
begin

lemma one_class: "(\<Sum>c\<leftarrow>classes. if cls x = c then w else (0::int)) = w"
proof -
  have "(\<Sum>c\<leftarrow>classes. if cls x = c then w else 0) = (\<Sum>c\<in>set classes. if cls x = c then w else 0)"
    by (rule sum_list_distinct_conv_sum_set [OF classes_distinct])
  also have "\<dots> = w" using classified by simp
  finally show ?thesis .
qed

lemma sum_classes: "(\<Sum>c\<leftarrow>classes. class_sum cls w c xs) = (\<Sum>x\<leftarrow>xs. w x)"
proof (induction xs)
  case Nil
  show ?case by (simp add: class_sum_def)
next
  case (Cons x xs)
  then show ?case by (simp add: sum_list_addf one_class)
qed

lemma count_classes: "(\<Sum>c\<leftarrow>classes. class_sum cls (\<lambda>_. 1) c xs) = int (length xs)"
  using sum_classes [of "\<lambda>_. 1" xs] by (simp add: sum_list_triv)

end

section \<open>Step machines\<close>

text \<open>
  A component that is a state and operations on it: what one operation keeps, every sequence
  of operations keeps.
\<close>

locale machine =
  fixes step :: "'s \<Rightarrow> 'e \<Rightarrow> 's" and inv :: "'s \<Rightarrow> bool"
  assumes step_inv: "inv s \<Longrightarrow> inv (step s e)"
begin

lemma run_inv: "inv s \<Longrightarrow> inv (foldl step s es)"
  by (induction es arbitrary: s) (auto intro: step_inv)

end

locale absorbing_machine = machine +
  fixes good :: "'s \<Rightarrow> bool"
  assumes step_good: "inv s \<Longrightarrow> good s \<Longrightarrow> good (step s e)"
begin

lemma run_good: "inv s \<Longrightarrow> good s \<Longrightarrow> good (foldl step s es)"
  by (induction es arbitrary: s) (auto intro: step_inv step_good)

end

locale monotone_machine = machine +
  fixes level :: "'s \<Rightarrow> 'l :: order"
  assumes step_level: "inv s \<Longrightarrow> level s \<le> level (step s e)"
begin

lemma run_level: "inv s \<Longrightarrow> level s \<le> level (foldl step s es)"
proof (induction es arbitrary: s)
  case Nil
  show ?case by simp
next
  case (Cons e es)
  then have "level (step s e) \<le> level (foldl step (step s e) es)" by (blast intro: step_inv)
  with step_level [OF Cons.prems, of e] show ?case by simp
qed

end

text \<open>The same for a step relation, with an order in which every step moves forward.\<close>

locale step_system =
  fixes step :: "'s \<Rightarrow> 's \<Rightarrow> bool" and inv :: "'s \<Rightarrow> bool" and before :: "'s \<Rightarrow> 's \<Rightarrow> bool"
  assumes before_refl: "before s s"
    and before_trans: "before s t \<Longrightarrow> before t u \<Longrightarrow> before s u"
    and step_forward: "inv s \<Longrightarrow> step s t \<Longrightarrow> inv t \<and> before s t"
begin

lemma run_forward: "step\<^sup>*\<^sup>* s t \<Longrightarrow> inv s \<Longrightarrow> inv t \<and> before s t"
proof (induction rule: rtranclp_induct)
  case base
  then show ?case by (simp add: before_refl)
next
  case (step t u)
  then show ?case using step_forward [of t u] before_trans by blast
qed

end

end
