(* ===== verification/Scheduling.thy ===== *)
theory Scheduling
  imports Prelude
begin

text \<open>
  Case scheduling of \<open>packages/test-domain/src/task-scheduling.ts\<close>: reading a stored scheduling
  decision from an untyped row (\<open>readCaseScheduling\<close>), the phase of one case execution
  (\<open>caseExecutionPhase\<close>), the counters of a task (\<open>countCaseExecutions\<close>) and the summary shown
  for it (\<open>summarizeCaseScheduling\<close>). The code types lifecycles, verdicts and dispatch states of
  this module as plain strings, so they are strings here. \<open>localeCompare\<close> is the collation of the
  host and is the parameter \<open>locale_compare\<close>.
\<close>

section \<open>Data\<close>

datatype case_scheduling_state =
    SReady | SWaiting | SAdmitted | SRunning | SRecovering | STerminal

record case_scheduling_decision =
  sd_state :: case_scheduling_state
  sd_reason :: "string option"
  sd_waitingSince :: "string option"
  sd_evaluatedAt :: string
  sd_blockedBy :: "js option"
  sd_queue :: "js option"
  sd_nextRetryAt :: "string option"

record progress_run =
  pr_executionDisposition :: "string option"
  pr_lifecycle :: string
  pr_verdict :: "string option"
  pr_tasks :: "string option list option"

record case_execution_progress =
  cp_dispatchStatus :: string
  cp_dispatchAttempts :: "int option"
  cp_dispatchMaxAttempts :: "int option"
  cp_scheduling :: js
  cp_run :: "progress_run option"

definition terminal_lifecycle :: "string \<Rightarrow> bool" where
  "terminal_lifecycle s \<longleftrightarrow> s \<in> {''COMPLETED'', ''CANCELLED'', ''TIMED_OUT''}"

section \<open>Reading a stored decision\<close>

fun scheduling_state_of :: "js \<Rightarrow> case_scheduling_state option" where
  "scheduling_state_of (JStr s) =
     (if s = ''READY'' then Some SReady
      else if s = ''WAITING'' then Some SWaiting
      else if s = ''ADMITTED'' then Some SAdmitted
      else if s = ''RUNNING'' then Some SRunning
      else if s = ''RECOVERING'' then Some SRecovering
      else if s = ''TERMINAL'' then Some STerminal
      else None)"
| "scheduling_state_of _ = None"

text \<open>A nested object is kept, unread, when its discriminating field is a string.\<close>

definition nested_object :: "js \<Rightarrow> string \<Rightarrow> js option" where
  "nested_object v field =
     (if js_is_object v \<and> js_string (js_prop v field) \<noteq> None then Some v else None)"

fun readCaseScheduling :: "js \<Rightarrow> case_scheduling_decision option" where
  "readCaseScheduling (JObj fs) =
     (let row = JObj fs; text = (\<lambda>key. js_string (js_prop row key)) in
      case scheduling_state_of (js_prop row ''state'') of
        None \<Rightarrow> None
      | Some st \<Rightarrow> Some
         \<lparr>sd_state = st,
          sd_reason = text ''reason'',
          sd_waitingSince = text ''waitingSince'',
          sd_evaluatedAt = coalesce (text ''evaluatedAt'') [],
          sd_blockedBy = nested_object (js_prop row ''blockedBy'') ''resourceType'',
          sd_queue = nested_object (js_prop row ''queue'') ''scope'',
          sd_nextRetryAt = text ''nextRetryAt''\<rparr>)"
| "readCaseScheduling _ = None"

section \<open>The phase of one case execution\<close>

datatype case_execution_phase = PQueued | PRunning | PRecovering | PWaitingHuman | PTerminal

definition recovering_task :: "string option \<Rightarrow> bool" where
  "recovering_task st \<longleftrightarrow> coalesce st [] \<in> {''PENDING'', ''CLOSING'', ''HITL_CLOSING''}"

definition caseExecutionPhase :: "case_execution_progress \<Rightarrow> case_execution_phase" where
  "caseExecutionPhase item =
     (let run = cp_run item;
          scheduling = readCaseScheduling (cp_scheduling item);
          state = map_option sd_state scheduling;
          reason = Option.bind scheduling sd_reason in
      if (\<exists>r \<in> set_option run. terminal_lifecycle (pr_lifecycle r)) then PTerminal
      else if map_option pr_lifecycle run = Some ''WAITING_HUMAN'' then PWaitingHuman
      else if (\<exists>r \<in> set_option run. \<exists>ts \<in> set_option (pr_tasks r). list_ex recovering_task ts)
        then PRecovering
      else if run = None \<and> reason = Some ''TEST_ACCOUNTS_REQUIRED'' then PWaitingHuman
      else if state = Some SRecovering then PRecovering
      else case run of
        Some r \<Rightarrow>
          if state = Some SAdmitted then PQueued
          else if pr_lifecycle r = ''RUNNING'' then PRunning else PQueued
      | None \<Rightarrow>
          if cp_dispatchStatus item = ''CANCELLED'' \<or> cp_dispatchStatus item = ''LINKED''
             \<or> (cp_dispatchStatus item = ''FAILED''
                \<and> coalesce (cp_dispatchAttempts item) 0 \<ge> coalesce (cp_dispatchMaxAttempts item) 3)
             \<or> state = Some STerminal
          then PTerminal else PQueued)"

section \<open>Counters of a task\<close>

record case_counts =
  ct_blocked :: int
  ct_failed :: int
  ct_inconclusive :: int
  ct_passed :: int
  ct_queued :: int
  ct_running :: int
  ct_recovering :: int
  ct_waitingHuman :: int
  ct_terminal :: int
  ct_timedOut :: int
  ct_cancelled :: int
  ct_dispatchFailed :: int
  ct_total :: int
  ct_waiting :: int

definition zero_counts :: "int \<Rightarrow> case_counts" where
  "zero_counts tot =
     \<lparr>ct_blocked = 0, ct_failed = 0, ct_inconclusive = 0, ct_passed = 0, ct_queued = 0,
      ct_running = 0, ct_recovering = 0, ct_waitingHuman = 0, ct_terminal = 0, ct_timedOut = 0,
      ct_cancelled = 0, ct_dispatchFailed = 0, ct_total = tot, ct_waiting = 0\<rparr>"

fun bump_phase :: "case_execution_phase \<Rightarrow> case_counts \<Rightarrow> case_counts" where
  "bump_phase PQueued c = c\<lparr>ct_queued := ct_queued c + 1\<rparr>"
| "bump_phase PRunning c = c\<lparr>ct_running := ct_running c + 1\<rparr>"
| "bump_phase PRecovering c = c\<lparr>ct_recovering := ct_recovering c + 1\<rparr>"
| "bump_phase PWaitingHuman c = c\<lparr>ct_waitingHuman := ct_waitingHuman c + 1\<rparr>"
| "bump_phase PTerminal c = c\<lparr>ct_terminal := ct_terminal c + 1\<rparr>"

definition parent_terminal :: "string option \<Rightarrow> bool" where
  "parent_terminal p \<longleftrightarrow> (case p of None \<Rightarrow> False | Some l \<Rightarrow> terminal_lifecycle l)"

definition counted_phase ::
  "string option \<Rightarrow> case_execution_progress \<Rightarrow> case_execution_phase" where
  "counted_phase parentLifecycle item =
     (if cp_run item = None \<and> parent_terminal parentLifecycle then PTerminal
      else caseExecutionPhase item)"

definition count_item ::
  "string option \<Rightarrow> case_counts \<Rightarrow> case_execution_progress \<Rightarrow> case_counts" where
  "count_item parentLifecycle counts item =
     (let run = cp_run item;
          verdict = Option.bind run pr_verdict;
          lifecycle = map_option pr_lifecycle run;
          disposition = Option.bind run pr_executionDisposition;
          c0 = bump_phase (counted_phase parentLifecycle item) counts;
          c1 = c0\<lparr>ct_blocked := ct_blocked c0
                 + of_bool (truthy disposition \<and> disposition \<noteq> Some ''EXECUTED'')\<rparr>;
          c2 = c1\<lparr>ct_failed := ct_failed c1 + of_bool (verdict = Some ''FAILED'')\<rparr>;
          c3 = c2\<lparr>ct_inconclusive := ct_inconclusive c2 + of_bool (verdict = Some ''INCONCLUSIVE'')\<rparr>;
          c4 = c3\<lparr>ct_passed := ct_passed c3 + of_bool (verdict = Some ''PASSED'')\<rparr>;
          c5 = c4\<lparr>ct_timedOut := ct_timedOut c4 + of_bool (lifecycle = Some ''TIMED_OUT'')\<rparr>;
          c6 = c5\<lparr>ct_cancelled := ct_cancelled c5
                 + of_bool (lifecycle = Some ''CANCELLED''
                     \<or> (run = None \<and> cp_dispatchStatus item = ''CANCELLED''))\<rparr>
      in c6\<lparr>ct_dispatchFailed := ct_dispatchFailed c6
           + of_bool (run = None \<and> caseExecutionPhase item = PTerminal
               \<and> cp_dispatchStatus item \<noteq> ''CANCELLED'')\<rparr>)"

definition countCaseExecutions ::
  "case_execution_progress list \<Rightarrow> int \<Rightarrow> string option \<Rightarrow> case_counts" where
  "countCaseExecutions executions plannedTotal parentLifecycle =
     (let tot = max plannedTotal (int (length executions));
          counts = foldl (count_item parentLifecycle) (zero_counts tot) executions;
          missing = tot - int (length executions);
          counts' = (if parent_terminal parentLifecycle
                     then counts\<lparr>ct_terminal := ct_terminal counts + missing\<rparr>
                     else counts\<lparr>ct_queued := ct_queued counts + missing\<rparr>)
      in counts'\<lparr>ct_waiting := ct_queued counts'\<rparr>)"

section \<open>The summary of a task's scheduling\<close>

datatype summary_state = MTerminal | MRunning | MRecovering | MWaitingHuman | MWaiting

record scheduling_summary =
  ss_state :: summary_state
  ss_reason :: "string option"
  ss_waitingSince :: "string option"
  ss_blockedBy :: "js option"
  ss_reasons :: "(string \<times> int) list"

definition live_decisions :: "case_execution_progress list \<Rightarrow> case_scheduling_decision list" where
  "live_decisions executions =
     List.concat (map (\<lambda>item.
       if caseExecutionPhase item = PTerminal then []
       else case readCaseScheduling (cp_scheduling item) of None \<Rightarrow> [] | Some d \<Rightarrow> [d]) executions)"

definition waiting_decisions :: "case_execution_progress list \<Rightarrow> case_scheduling_decision list" where
  "waiting_decisions executions =
     filter (\<lambda>d. sd_state d = SWaiting \<or> sd_state d = SAdmitted \<or> sd_state d = SRecovering)
       (live_decisions executions)"

definition count_reason ::
  "(string \<times> int) list \<Rightarrow> case_scheduling_decision \<Rightarrow> (string \<times> int) list" where
  "count_reason reasons d =
     (case sd_reason d of
        None \<Rightarrow> reasons
      | Some r \<Rightarrow> if r = [] then reasons
                 else jmap_set reasons r (coalesce (jmap_get reasons r) 0 + 1))"

definition waiting_key :: "case_scheduling_decision \<Rightarrow> string" where
  "waiting_key d = coalesce (sd_waitingSince d) (sd_evaluatedAt d)"

definition waiting_le ::
  "(string \<Rightarrow> string \<Rightarrow> int) \<Rightarrow> case_scheduling_decision \<Rightarrow> case_scheduling_decision \<Rightarrow> bool" where
  "waiting_le locale_compare l r \<longleftrightarrow> locale_compare (waiting_key l) (waiting_key r) \<le> 0"

definition oldest_waiting ::
  "(string \<Rightarrow> string \<Rightarrow> int) \<Rightarrow> case_execution_progress list \<Rightarrow> case_scheduling_decision option" where
  "oldest_waiting locale_compare executions =
     (case js_sort (waiting_le locale_compare) (waiting_decisions executions) of
        [] \<Rightarrow> None | d # _ \<Rightarrow> Some d)"

definition summarizeCaseScheduling ::
  "(string \<Rightarrow> string \<Rightarrow> int) \<Rightarrow> case_execution_progress list \<Rightarrow> string option \<Rightarrow> scheduling_summary" where
  "summarizeCaseScheduling locale_compare executions parentLifecycle =
     (let counts = countCaseExecutions executions (int (length executions)) parentLifecycle;
          oldest = oldest_waiting locale_compare executions
      in \<lparr>ss_state =
            (if parent_terminal parentLifecycle then MTerminal
             else if ct_running counts \<noteq> 0 then MRunning
             else if ct_recovering counts \<noteq> 0 then MRecovering
             else if ct_waitingHuman counts \<noteq> 0 then MWaitingHuman
             else if ct_queued counts \<noteq> 0 then MWaiting
             else MTerminal),
          ss_reason =
            (if ct_running counts \<noteq> 0 then None
             else if ct_recovering counts \<noteq> 0 then Some ''LEASE_RECOVERY''
             else coalesce_opt (Option.bind oldest sd_reason)
                    (if ct_queued counts \<noteq> 0 then Some ''SCHEDULER_PENDING'' else None)),
          ss_waitingSince = Option.bind oldest sd_waitingSince,
          ss_blockedBy = (if ct_running counts \<noteq> 0 then None else Option.bind oldest sd_blockedBy),
          ss_reasons = foldl count_reason [] (waiting_decisions executions)\<rparr>)"

section \<open>Lemmas: the loop computes the declarative counts\<close>

definition run_verdict :: "case_execution_progress \<Rightarrow> string option" where
  "run_verdict item = Option.bind (cp_run item) pr_verdict"

definition run_lifecycle_of :: "case_execution_progress \<Rightarrow> string option" where
  "run_lifecycle_of item = map_option pr_lifecycle (cp_run item)"

definition run_blocked :: "case_execution_progress \<Rightarrow> bool" where
  "run_blocked item \<longleftrightarrow>
     (let d = Option.bind (cp_run item) pr_executionDisposition in
      truthy d \<and> d \<noteq> Some ''EXECUTED'')"

definition counts_cancelled :: "case_execution_progress \<Rightarrow> bool" where
  "counts_cancelled item \<longleftrightarrow> run_lifecycle_of item = Some ''CANCELLED''
     \<or> (cp_run item = None \<and> cp_dispatchStatus item = ''CANCELLED'')"

definition counts_dispatch_failed :: "case_execution_progress \<Rightarrow> bool" where
  "counts_dispatch_failed item \<longleftrightarrow> cp_run item = None \<and> caseExecutionPhase item = PTerminal
     \<and> cp_dispatchStatus item \<noteq> ''CANCELLED''"

definition count_where :: "('a \<Rightarrow> bool) \<Rightarrow> 'a list \<Rightarrow> int" where
  "count_where P xs = int (length (filter P xs))"

lemma count_where_simps [simp]:
  "count_where P [] = 0"
  "count_where P (x # xs) = (if P x then 1 else 0) + count_where P xs"
  by (simp_all add: count_where_def)

lemma count_where_nonneg [simp]: "0 \<le> count_where P xs"
  by (simp add: count_where_def)

lemma count_where_eq_0: "count_where P xs = 0 \<longleftrightarrow> (\<forall>x \<in> set xs. \<not> P x)"
  by (simp add: count_where_def filter_empty_conv)

lemma count_where_le_length: "count_where P xs \<le> int (length xs)"
  by (simp add: count_where_def)

lemma class_sum_count_where: "class_sum cls (\<lambda>_. 1) c xs = count_where (\<lambda>x. cls x = c) xs"
  by (simp add: class_sum_filter count_where_def)

lemma bump_phase_simps:
  "ct_queued (bump_phase p c) = ct_queued c + (if p = PQueued then 1 else 0)"
  "ct_running (bump_phase p c) = ct_running c + (if p = PRunning then 1 else 0)"
  "ct_recovering (bump_phase p c) = ct_recovering c + (if p = PRecovering then 1 else 0)"
  "ct_waitingHuman (bump_phase p c) = ct_waitingHuman c + (if p = PWaitingHuman then 1 else 0)"
  "ct_terminal (bump_phase p c) = ct_terminal c + (if p = PTerminal then 1 else 0)"
  "ct_blocked (bump_phase p c) = ct_blocked c" "ct_failed (bump_phase p c) = ct_failed c"
  "ct_inconclusive (bump_phase p c) = ct_inconclusive c" "ct_passed (bump_phase p c) = ct_passed c"
  "ct_timedOut (bump_phase p c) = ct_timedOut c" "ct_cancelled (bump_phase p c) = ct_cancelled c"
  "ct_dispatchFailed (bump_phase p c) = ct_dispatchFailed c"
  "ct_total (bump_phase p c) = ct_total c" "ct_waiting (bump_phase p c) = ct_waiting c"
  by (cases p; simp)+

lemmas item_views = run_verdict_def run_lifecycle_of_def run_blocked_def counts_cancelled_def
  counts_dispatch_failed_def

lemma count_item_phases:
  "ct_queued (count_item pl c x) = ct_queued c + (if counted_phase pl x = PQueued then 1 else 0)"
  "ct_running (count_item pl c x) = ct_running c + (if counted_phase pl x = PRunning then 1 else 0)"
  "ct_recovering (count_item pl c x) =
     ct_recovering c + (if counted_phase pl x = PRecovering then 1 else 0)"
  "ct_waitingHuman (count_item pl c x) =
     ct_waitingHuman c + (if counted_phase pl x = PWaitingHuman then 1 else 0)"
  "ct_terminal (count_item pl c x) = ct_terminal c + (if counted_phase pl x = PTerminal then 1 else 0)"
  by (simp_all add: count_item_def Let_def bump_phase_simps)

lemma count_item_outcomes:
  "ct_failed (count_item pl c x) = ct_failed c + (if run_verdict x = Some ''FAILED'' then 1 else 0)"
  "ct_inconclusive (count_item pl c x) =
     ct_inconclusive c + (if run_verdict x = Some ''INCONCLUSIVE'' then 1 else 0)"
  "ct_passed (count_item pl c x) = ct_passed c + (if run_verdict x = Some ''PASSED'' then 1 else 0)"
  "ct_blocked (count_item pl c x) = ct_blocked c + (if run_blocked x then 1 else 0)"
  "ct_timedOut (count_item pl c x) =
     ct_timedOut c + (if run_lifecycle_of x = Some ''TIMED_OUT'' then 1 else 0)"
  "ct_cancelled (count_item pl c x) = ct_cancelled c + (if counts_cancelled x then 1 else 0)"
  "ct_dispatchFailed (count_item pl c x) =
     ct_dispatchFailed c + (if counts_dispatch_failed x then 1 else 0)"
  "ct_total (count_item pl c x) = ct_total c"
  by (simp_all add: count_item_def Let_def bump_phase_simps item_views)

lemma foldl_counter:
  assumes "\<And>c x. f (step c x) = f c + (if P x then 1 else (0::int))"
  shows "f (foldl step c xs) = f c + count_where P xs"
  by (induction xs arbitrary: c) (simp_all add: assms)

lemmas foldl_count_item =
  count_item_phases [THEN foldl_counter [where step = "count_item pl" for pl]]
  count_item_outcomes(1-7) [THEN foldl_counter [where step = "count_item pl" for pl]]

lemma foldl_count_item_total: "ct_total (foldl (count_item pl) c xs) = ct_total c"
  by (induction xs arbitrary: c) (simp_all add: count_item_outcomes)

interpretation phases: classifier "counted_phase pl"
  "[PQueued, PRunning, PRecovering, PWaitingHuman, PTerminal]" for pl
proof
  fix x
  show "counted_phase pl x \<in> set [PQueued, PRunning, PRecovering, PWaitingHuman, PTerminal]"
    by (cases "counted_phase pl x") simp_all
qed simp

lemma phase_counts_sum:
  "count_where (\<lambda>x. counted_phase pl x = PQueued) xs
   + count_where (\<lambda>x. counted_phase pl x = PRunning) xs
   + count_where (\<lambda>x. counted_phase pl x = PRecovering) xs
   + count_where (\<lambda>x. counted_phase pl x = PWaitingHuman) xs
   + count_where (\<lambda>x. counted_phase pl x = PTerminal) xs = int (length xs)"
  using phases.count_classes [of pl xs] by (simp add: class_sum_count_where)

lemma countCaseExecutions_running:
  "ct_running (countCaseExecutions xs n pl) = count_where (\<lambda>x. counted_phase pl x = PRunning) xs"
  by (simp add: countCaseExecutions_def Let_def foldl_count_item zero_counts_def)

lemma countCaseExecutions_recovering:
  "ct_recovering (countCaseExecutions xs n pl) =
     count_where (\<lambda>x. counted_phase pl x = PRecovering) xs"
  by (simp add: countCaseExecutions_def Let_def foldl_count_item zero_counts_def)

lemma countCaseExecutions_waitingHuman:
  "ct_waitingHuman (countCaseExecutions xs n pl) =
     count_where (\<lambda>x. counted_phase pl x = PWaitingHuman) xs"
  by (simp add: countCaseExecutions_def Let_def foldl_count_item zero_counts_def)

lemma countCaseExecutions_queued:
  "ct_queued (countCaseExecutions xs n pl) = count_where (\<lambda>x. counted_phase pl x = PQueued) xs
     + (if parent_terminal pl then 0 else max n (int (length xs)) - int (length xs))"
  by (simp add: countCaseExecutions_def Let_def foldl_count_item zero_counts_def)

lemmas countCaseExecutions_counters = countCaseExecutions_running countCaseExecutions_recovering
  countCaseExecutions_waitingHuman countCaseExecutions_queued

lemma counted_phase_live [simp]: "\<not> parent_terminal pl \<Longrightarrow> counted_phase pl x = caseExecutionPhase x"
  by (simp add: counted_phase_def)

lemma count_where_pos_iff: "count_where P xs \<noteq> 0 \<longleftrightarrow> list_ex P xs"
  by (auto simp: count_where_eq_0 list_ex_iff)

lemma jmap_get_count_reason:
  "r \<noteq> [] \<Longrightarrow> jmap_get (count_reason m d) r =
     (if sd_reason d = Some r then Some (coalesce (jmap_get m r) 0 + 1) else jmap_get m r)"
  by (auto simp: count_reason_def split: option.splits)

lemma jmap_get_count_reason_empty: "jmap_get (count_reason m d) [] = jmap_get m []"
  by (auto simp: count_reason_def split: option.splits)

lemma foldl_count_reason:
  "r \<noteq> [] \<Longrightarrow> jmap_get (foldl count_reason m ds) r =
     (let n = count_where (\<lambda>d. sd_reason d = Some r) ds in
      if n = 0 then jmap_get m r else Some (coalesce (jmap_get m r) 0 + n))"
proof (induction ds arbitrary: m)
  case Nil
  then show ?case by simp
next
  case (Cons d ds)
  have "1 + count_where (\<lambda>d. sd_reason d = Some r) ds \<noteq> 0"
    using count_where_nonneg [of "\<lambda>d. sd_reason d = Some r" ds] by linarith
  with Cons show ?case by (auto simp: jmap_get_count_reason Let_def)
qed

lemma foldl_count_reason_empty: "jmap_get (foldl count_reason m ds) [] = jmap_get m []"
  by (induction ds arbitrary: m) (simp_all add: jmap_get_count_reason_empty)

lemma oldest_waiting_least:
  assumes "comparator (waiting_le lc)" and "d \<in> set (waiting_decisions xs)"
  obtains e where "oldest_waiting lc xs = Some e" "e \<in> set (waiting_decisions xs)" "waiting_le lc e d"
proof -
  obtain e es where s: "js_sort (waiting_le lc) (waiting_decisions xs) = e # es"
    using assms(2) by (cases "js_sort (waiting_le lc) (waiting_decisions xs)") auto
  have "waiting_le lc e d"
    using comparator.hd_js_sort_least [OF assms] s by simp
  moreover have "e \<in> set (waiting_decisions xs)"
    using s set_js_sort [of "waiting_le lc" "waiting_decisions xs"] by auto
  ultimately show thesis using that s by (simp add: oldest_waiting_def)
qed

lemma summary_state_live:
  assumes "\<not> parent_terminal pl"
  shows "ss_state (summarizeCaseScheduling lc xs pl) =
     (if list_ex (\<lambda>x. caseExecutionPhase x = PRunning) xs then MRunning
      else if list_ex (\<lambda>x. caseExecutionPhase x = PRecovering) xs then MRecovering
      else if list_ex (\<lambda>x. caseExecutionPhase x = PWaitingHuman) xs then MWaitingHuman
      else if list_ex (\<lambda>x. caseExecutionPhase x = PQueued) xs then MWaiting
      else MTerminal)"
  using assms
  by (simp add: summarizeCaseScheduling_def Let_def countCaseExecutions_counters count_where_pos_iff)

lemma phase_terminal_iff:
  "p = PTerminal \<longleftrightarrow> p \<noteq> PRunning \<and> p \<noteq> PRecovering \<and> p \<noteq> PWaitingHuman \<and> p \<noteq> PQueued"
  by (cases p) simp_all

lemma all_terminal_iff:
  "list_all (\<lambda>x. caseExecutionPhase x = PTerminal) xs \<longleftrightarrow>
      \<not> list_ex (\<lambda>x. caseExecutionPhase x = PRunning) xs
      \<and> \<not> list_ex (\<lambda>x. caseExecutionPhase x = PRecovering) xs
      \<and> \<not> list_ex (\<lambda>x. caseExecutionPhase x = PWaitingHuman) xs
      \<and> \<not> list_ex (\<lambda>x. caseExecutionPhase x = PQueued) xs"
  unfolding phase_terminal_iff list_all_iff list_ex_iff by blast

section \<open>Properties\<close>

text \<open>The phase counters of a task are disjoint and complete: queued, running, recovering,
  waiting for a human and terminal add up to the total, which is the larger of the planned
  number and the number of rows; \<open>waiting\<close> repeats the queued counter; and every verdict and
  outcome counter equals the number of case executions with that outcome.\<close>

theorem case_counts_partition:
  "let c = countCaseExecutions xs n pl in
     ct_queued c + ct_running c + ct_recovering c + ct_waitingHuman c + ct_terminal c = ct_total c
     \<and> ct_total c = max n (int (length xs)) \<and> ct_waiting c = ct_queued c
     \<and> ct_passed c = count_where (\<lambda>x. run_verdict x = Some ''PASSED'') xs
     \<and> ct_failed c = count_where (\<lambda>x. run_verdict x = Some ''FAILED'') xs
     \<and> ct_inconclusive c = count_where (\<lambda>x. run_verdict x = Some ''INCONCLUSIVE'') xs
     \<and> ct_blocked c = count_where run_blocked xs
     \<and> ct_timedOut c = count_where (\<lambda>x. run_lifecycle_of x = Some ''TIMED_OUT'') xs
     \<and> ct_cancelled c = count_where counts_cancelled xs
     \<and> ct_dispatchFailed c = count_where counts_dispatch_failed xs"
  using phase_counts_sum [of pl xs]
  by (cases "parent_terminal pl")
    (simp_all add: countCaseExecutions_def Let_def foldl_count_item foldl_count_item_total
      zero_counts_def)

text \<open>The state shown for a task is the most urgent phase among its case executions:
  terminal exactly when the parent task is terminal or no case execution is left in a live
  phase, otherwise running before recovering before waiting for a human before waiting.\<close>

theorem scheduling_summary_state:
  "ss_state (summarizeCaseScheduling lc xs pl) =
     (let some_in = (\<lambda>p. list_ex (\<lambda>x. caseExecutionPhase x = p) xs) in
      if parent_terminal pl \<or> list_all (\<lambda>x. caseExecutionPhase x = PTerminal) xs then MTerminal
      else if some_in PRunning then MRunning
      else if some_in PRecovering then MRecovering
      else if some_in PWaitingHuman then MWaitingHuman
      else MWaiting)"
proof (cases "parent_terminal pl")
  case True
  then show ?thesis by (simp add: summarizeCaseScheduling_def Let_def)
next
  case False
  then show ?thesis
    unfolding summary_state_live [OF False] all_terminal_iff Let_def by argo
qed

text \<open>The reasons listed with a task count the live waiting decisions: a non-empty reason is
  listed exactly when some waiting, admitted or recovering decision of a case execution that is
  not terminal carries it, with the number of such decisions; the empty reason is never listed.\<close>

theorem scheduling_summary_reasons:
  "jmap_get (ss_reasons (summarizeCaseScheduling lc xs pl)) r =
     (let n = count_where (\<lambda>d. sd_reason d = Some r) (waiting_decisions xs) in
      if r = [] \<or> n = 0 then None else Some n)"
  by (cases "r = []")
    (simp_all add: summarizeCaseScheduling_def Let_def foldl_count_reason foldl_count_reason_empty)

text \<open>For a collation that orders strings totally, the waiting time shown is that of a
  longest waiting decision: every live waiting decision is at or after it.\<close>

theorem scheduling_summary_oldest:
  assumes "comparator (waiting_le lc)" and "d \<in> set (waiting_decisions xs)"
  shows "\<exists>e \<in> set (waiting_decisions xs).
     ss_waitingSince (summarizeCaseScheduling lc xs pl) = sd_waitingSince e \<and> waiting_le lc e d"
  by (rule oldest_waiting_least [OF assms])
    (auto simp: summarizeCaseScheduling_def Let_def)

lemma waiting_le_code_units: "comparator (waiting_le code_unit_compare)"
  using comparator_key [OF code_units.comparator_axioms, of waiting_key]
  by (simp add: waiting_le_def [abs_def])

definition sample_waiting_item :: "string \<Rightarrow> case_execution_progress" where
  "sample_waiting_item since =
     \<lparr>cp_dispatchStatus = ''PENDING'', cp_dispatchAttempts = None, cp_dispatchMaxAttempts = None,
      cp_scheduling = JObj [(''state'', JStr ''WAITING''), (''waitingSince'', JStr since)],
      cp_run = None\<rparr>"

lemma scheduling_summary_oldest_witness:
  "\<exists>e. e \<in> set (waiting_decisions [sample_waiting_item ''2026-02'', sample_waiting_item ''2026-01''])
     \<and> sd_waitingSince e = Some ''2026-01''"
proof -
  let ?xs = "[sample_waiting_item ''2026-02'', sample_waiting_item ''2026-01'']"
  have "\<exists>d \<in> set (waiting_decisions ?xs). sd_waitingSince d = Some ''2026-01''"
    by (simp add: waiting_decisions_def live_decisions_def sample_waiting_item_def
        caseExecutionPhase_def terminal_lifecycle_def)
  then obtain d where d: "d \<in> set (waiting_decisions ?xs)" "sd_waitingSince d = Some ''2026-01''"
    by blast
  from scheduling_summary_oldest [OF waiting_le_code_units d(1), of None] d show ?thesis by blast
qed

end
