(* ===== verification/TaskProjection.thy ===== *)
theory TaskProjection
  imports Scheduling
begin

text \<open>
  The pure task logic of \<open>packages/test-domain/src/index.ts\<close>: the retry policy in force
  (\<open>effectiveRetryPolicy\<close>), what one outcome of the Agent Runtime does to its attempt, task and
  run (\<open>projectRuntimeOutcome\<close>), and the projection of a user-visible task from its stages and
  child runs (\<open>projectTaskExecution\<close>). The enumerations are those of
  \<open>packages/agent-runtime-protocol/src/index.ts\<close>; the names they have as strings are
  \<open>lifecycle_name\<close>, \<open>disposition_name\<close>, \<open>verdict_name\<close> and \<open>dispatch_name\<close>, which the summary of
  theory Scheduling reads.
\<close>

section \<open>Enumerations\<close>

datatype run_lifecycle =
    L_QUEUED | L_PREPARING | L_RUNNING | L_WAITING_HUMAN | L_COMPLETED | L_CANCELLED | L_TIMED_OUT

datatype execution_disposition =
    D_EXECUTED | D_NOT_RUN | D_BLOCKED | D_AGENT_ERROR | D_PROVIDER_ERROR
  | D_BROWSER_UNAVAILABLE | D_RUNTIME_LOST

datatype product_verdict = V_PASSED | V_FAILED | V_INCONCLUSIVE

datatype failure_class =
    F_TOOL_EXECUTION | F_PROVIDER | F_LIFECYCLE_PROTOCOL | F_BROWSER_RUNTIME | F_TIMEOUT
  | F_RUNTIME_LOST | F_UNKNOWN

datatype attempt_status =
    A_PENDING | A_RUNNING | A_WAITING_HUMAN | A_SUCCEEDED | A_FAILED | A_CANCELLED | A_TIMED_OUT

fun lifecycle_name :: "run_lifecycle \<Rightarrow> string" where
  "lifecycle_name L_QUEUED = ''QUEUED''"
| "lifecycle_name L_PREPARING = ''PREPARING''"
| "lifecycle_name L_RUNNING = ''RUNNING''"
| "lifecycle_name L_WAITING_HUMAN = ''WAITING_HUMAN''"
| "lifecycle_name L_COMPLETED = ''COMPLETED''"
| "lifecycle_name L_CANCELLED = ''CANCELLED''"
| "lifecycle_name L_TIMED_OUT = ''TIMED_OUT''"

fun disposition_name :: "execution_disposition \<Rightarrow> string" where
  "disposition_name D_EXECUTED = ''EXECUTED''"
| "disposition_name D_NOT_RUN = ''NOT_RUN''"
| "disposition_name D_BLOCKED = ''BLOCKED''"
| "disposition_name D_AGENT_ERROR = ''AGENT_ERROR''"
| "disposition_name D_PROVIDER_ERROR = ''PROVIDER_ERROR''"
| "disposition_name D_BROWSER_UNAVAILABLE = ''BROWSER_UNAVAILABLE''"
| "disposition_name D_RUNTIME_LOST = ''RUNTIME_LOST''"

fun verdict_name :: "product_verdict \<Rightarrow> string" where
  "verdict_name V_PASSED = ''PASSED''"
| "verdict_name V_FAILED = ''FAILED''"
| "verdict_name V_INCONCLUSIVE = ''INCONCLUSIVE''"

section \<open>One runtime outcome\<close>

text \<open>The fields of an outcome that the projection reads; a failure carries its class and the
  disposition it reports.\<close>

datatype runtime_outcome =
    VerificationCompleted product_verdict
  | WaitingHuman
  | RetryableFailure failure_class execution_disposition
  | FatalFailure failure_class execution_disposition

datatype browser_availability_policy = WAIT | FAIL_FAST

record retry_policy =
  rp_maxAttempts :: int
  rp_retryOn :: "failure_class list"

record outcome_projection =
  op_attemptStatus :: attempt_status
  op_executionDisposition :: "execution_disposition option"
  op_lifecycle :: run_lifecycle
  op_nextAttemptScheduled :: bool
  op_taskStatus :: attempt_status
  op_verdict :: "product_verdict option"

fun outcome_failure :: "runtime_outcome \<Rightarrow> failure_class option" where
  "outcome_failure (RetryableFailure fc d) = Some fc"
| "outcome_failure (FatalFailure fc d) = Some fc"
| "outcome_failure _ = None"

definition effectiveRetryPolicy ::
  "browser_availability_policy option \<Rightarrow> runtime_outcome \<Rightarrow> retry_policy \<Rightarrow> retry_policy" where
  "effectiveRetryPolicy policy oc rp =
     (if policy = Some FAIL_FAST \<and> outcome_failure oc = Some F_BROWSER_RUNTIME
      then rp\<lparr>rp_retryOn := filter (\<lambda>fc. fc \<noteq> F_BROWSER_RUNTIME) (rp_retryOn rp)\<rparr>
      else rp)"

definition project_failure ::
  "bool \<Rightarrow> failure_class \<Rightarrow> execution_disposition \<Rightarrow> outcome_projection" where
  "project_failure shouldRetry fc disposition =
     \<lparr>op_attemptStatus = (if fc = F_TIMEOUT then A_TIMED_OUT else A_FAILED),
      op_executionDisposition = (if shouldRetry then None else Some disposition),
      op_lifecycle = (if shouldRetry then L_QUEUED
                      else if fc = F_TIMEOUT then L_TIMED_OUT else L_COMPLETED),
      op_nextAttemptScheduled = shouldRetry,
      op_taskStatus = (if fc = F_TIMEOUT then A_TIMED_OUT else A_FAILED),
      op_verdict = None\<rparr>"

fun projectRuntimeOutcome :: "int \<Rightarrow> runtime_outcome \<Rightarrow> retry_policy \<Rightarrow> outcome_projection" where
  "projectRuntimeOutcome attemptNumber (VerificationCompleted v) rp =
     \<lparr>op_attemptStatus = A_SUCCEEDED, op_executionDisposition = Some D_EXECUTED,
      op_lifecycle = L_COMPLETED, op_nextAttemptScheduled = False,
      op_taskStatus = A_SUCCEEDED, op_verdict = Some v\<rparr>"
| "projectRuntimeOutcome attemptNumber WaitingHuman rp =
     \<lparr>op_attemptStatus = A_WAITING_HUMAN, op_executionDisposition = Some D_BLOCKED,
      op_lifecycle = L_WAITING_HUMAN, op_nextAttemptScheduled = False,
      op_taskStatus = A_WAITING_HUMAN, op_verdict = None\<rparr>"
| "projectRuntimeOutcome attemptNumber (RetryableFailure fc d) rp =
     project_failure (attemptNumber < rp_maxAttempts rp \<and> fc \<in> set (rp_retryOn rp)) fc d"
| "projectRuntimeOutcome attemptNumber (FatalFailure fc d) rp = project_failure False fc d"

section \<open>One task from its stages and runs\<close>

definition terminal_run_lifecycle :: "run_lifecycle \<Rightarrow> bool" where
  "terminal_run_lifecycle l \<longleftrightarrow> l \<in> {L_COMPLETED, L_CANCELLED, L_TIMED_OUT}"

datatype stage_status =
    T_PENDING | T_RUNNING | T_WAITING_INPUT | T_SUCCEEDED | T_FAILED | T_CANCELLED | T_SKIPPED

datatype dispatch_status = X_PENDING | X_DISPATCHING | X_LINKED | X_FAILED | X_CANCELLED

fun dispatch_name :: "dispatch_status \<Rightarrow> string" where
  "dispatch_name X_PENDING = ''PENDING''"
| "dispatch_name X_DISPATCHING = ''DISPATCHING''"
| "dispatch_name X_LINKED = ''LINKED''"
| "dispatch_name X_FAILED = ''FAILED''"
| "dispatch_name X_CANCELLED = ''CANCELLED''"

record child_run =
  cr_executionDisposition :: "execution_disposition option"
  cr_lifecycle :: run_lifecycle
  cr_verdict :: "product_verdict option"

record case_execution =
  ce_dispatchAttempts :: int
  ce_dispatchMaxAttempts :: int
  ce_scheduling :: js
  ce_dispatchStatus :: dispatch_status
  ce_run :: "child_run option"

record task_projection_input =
  ti_analysisStatus :: stage_status
  ti_cancelRequested :: bool
  ti_caseExecutions :: "case_execution list"
  ti_executionStatus :: stage_status
  ti_targetAvailable :: bool
  ti_timedOut :: bool

datatype current_stage = SPEC_ANALYSIS | SPEC_EXECUTION

datatype task_lifecycle =
    K_QUEUED | K_RUNNING | K_WAITING_INPUT | K_WAITING_HUMAN | K_COMPLETED | K_CANCELLED
  | K_TIMED_OUT

record task_projection =
  tp_currentStage :: current_stage
  tp_executionDisposition :: "execution_disposition option"
  tp_executionStageStatus :: stage_status
  tp_lifecycle :: task_lifecycle
  tp_verdict :: "product_verdict option"
  tp_waitingReason :: "string option"

definition taskProjection ::
  "current_stage \<Rightarrow> task_lifecycle \<Rightarrow> stage_status \<Rightarrow> execution_disposition option
   \<Rightarrow> product_verdict option \<Rightarrow> task_projection" where
  "taskProjection stage lifecycle stageStatus disposition verdict =
     \<lparr>tp_currentStage = stage, tp_executionDisposition = disposition,
      tp_executionStageStatus = stageStatus, tp_lifecycle = lifecycle,
      tp_verdict = verdict, tp_waitingReason = None\<rparr>"

text \<open>The view of a case execution that \<open>summarizeCaseScheduling\<close> takes.\<close>

definition to_progress :: "case_execution \<Rightarrow> case_execution_progress" where
  "to_progress item =
     \<lparr>cp_dispatchStatus = dispatch_name (ce_dispatchStatus item),
      cp_dispatchAttempts = Some (ce_dispatchAttempts item),
      cp_dispatchMaxAttempts = Some (ce_dispatchMaxAttempts item),
      cp_scheduling = ce_scheduling item,
      cp_run = map_option (\<lambda>r.
        \<lparr>pr_executionDisposition = map_option disposition_name (cr_executionDisposition r),
         pr_lifecycle = lifecycle_name (cr_lifecycle r),
         pr_verdict = map_option verdict_name (cr_verdict r),
         pr_tasks = None\<rparr>) (ce_run item)\<rparr>"

definition linked_runs :: "case_execution list \<Rightarrow> child_run list" where
  "linked_runs items =
     List.concat (map (\<lambda>item. if ce_dispatchStatus item = X_LINKED
       then (case ce_run item of None \<Rightarrow> [] | Some r \<Rightarrow> [r]) else []) items)"

definition linked :: "case_execution \<Rightarrow> bool" where
  "linked item \<longleftrightarrow> ce_dispatchStatus item = X_LINKED \<and> ce_run item \<noteq> None"

definition waits_for_accounts :: "case_execution \<Rightarrow> bool" where
  "waits_for_accounts item \<longleftrightarrow>
     Option.bind (readCaseScheduling (ce_scheduling item)) sd_reason = Some ''TEST_ACCOUNTS_REQUIRED''"

definition dispatch_active :: "case_execution \<Rightarrow> bool" where
  "dispatch_active item \<longleftrightarrow> ce_dispatchStatus item = X_PENDING \<or> ce_dispatchStatus item = X_DISPATCHING
     \<or> (ce_dispatchStatus item = X_FAILED \<and> ce_dispatchAttempts item < ce_dispatchMaxAttempts item)"

definition run_active :: "child_run \<Rightarrow> bool" where
  "run_active r \<longleftrightarrow> \<not> terminal_run_lifecycle (cr_lifecycle r)"

text \<open>The part of \<open>projectTaskExecution\<close> after analysis, with a deployment target available.\<close>

definition project_execution ::
  "(string \<Rightarrow> string \<Rightarrow> int) \<Rightarrow> case_execution list \<Rightarrow> task_projection" where
  "project_execution locale_compare items =
     (let runs = linked_runs items in
      if list_ex (\<lambda>r. cr_lifecycle r = L_WAITING_HUMAN) runs
      then taskProjection SPEC_EXECUTION K_WAITING_HUMAN T_RUNNING None None
      else if list_ex waits_for_accounts items \<and> \<not> list_ex run_active runs
      then (taskProjection SPEC_EXECUTION K_WAITING_HUMAN T_RUNNING None None)
             \<lparr>tp_waitingReason := Some ''TEST_ACCOUNTS_REQUIRED''\<rparr>
      else if items = [] \<or> list_ex dispatch_active items \<or> list_ex run_active runs
      then (taskProjection SPEC_EXECUTION K_RUNNING T_RUNNING None None)
             \<lparr>tp_waitingReason :=
                ss_reason (summarizeCaseScheduling locale_compare (map to_progress items) None)\<rparr>
      else
        let fullyLinked = list_all linked items;
            fullyExecuted = fullyLinked \<and> length runs = length items
              \<and> list_all (\<lambda>r. cr_executionDisposition r = Some D_EXECUTED) runs;
            anyFailed = list_ex (\<lambda>r. cr_verdict r = Some V_FAILED) runs
        in if \<not> fullyExecuted
           then taskProjection SPEC_EXECUTION K_COMPLETED T_FAILED
                  (Some (if runs \<noteq> [] then D_BLOCKED else D_NOT_RUN))
                  (if anyFailed then Some V_FAILED else None)
           else taskProjection SPEC_EXECUTION K_COMPLETED T_SUCCEEDED (Some D_EXECUTED)
                  (Some (if anyFailed then V_FAILED
                         else if list_ex (\<lambda>r. cr_verdict r = Some V_INCONCLUSIVE
                                              \<or> cr_verdict r = None) runs
                         then V_INCONCLUSIVE else V_PASSED)))"

definition projectTaskExecution ::
  "(string \<Rightarrow> string \<Rightarrow> int) \<Rightarrow> task_projection_input \<Rightarrow> task_projection" where
  "projectTaskExecution locale_compare input =
     (if ti_cancelRequested input
      then taskProjection SPEC_EXECUTION K_CANCELLED T_CANCELLED None None
      else if ti_timedOut input
      then taskProjection SPEC_EXECUTION K_TIMED_OUT T_FAILED None None
      else if ti_analysisStatus input = T_PENDING
      then taskProjection SPEC_ANALYSIS K_QUEUED (ti_executionStatus input) None None
      else if ti_analysisStatus input = T_RUNNING
      then taskProjection SPEC_ANALYSIS K_RUNNING (ti_executionStatus input) None None
      else if ti_analysisStatus input = T_WAITING_INPUT
      then (taskProjection SPEC_ANALYSIS K_WAITING_INPUT (ti_executionStatus input) None None)
             \<lparr>tp_waitingReason := Some ''ANALYSIS_INPUT_REQUIRED''\<rparr>
      else if ti_analysisStatus input = T_FAILED
      then taskProjection SPEC_ANALYSIS K_COMPLETED (ti_executionStatus input) (Some D_NOT_RUN) None
      else if ti_analysisStatus input = T_CANCELLED
      then taskProjection SPEC_ANALYSIS K_CANCELLED T_CANCELLED None None
      else if \<not> ti_targetAvailable input \<or> ti_executionStatus input = T_WAITING_INPUT
      then (taskProjection SPEC_EXECUTION K_WAITING_INPUT T_WAITING_INPUT None None)
             \<lparr>tp_waitingReason := Some ''DEPLOYMENT_TARGET_REQUIRED''\<rparr>
      else project_execution locale_compare (ti_caseExecutions input))"

section \<open>Lemmas\<close>

lemma linked_runs_simps [simp]:
  "linked_runs [] = []"
  "linked_runs (item # items) =
     (if ce_dispatchStatus item = X_LINKED
      then (case ce_run item of None \<Rightarrow> [] | Some r \<Rightarrow> [r]) else []) @ linked_runs items"
  by (simp_all add: linked_runs_def)

lemma length_linked_runs: "list_all linked items \<Longrightarrow> length (linked_runs items) = length items"
  by (induction items) (auto simp: linked_def)

definition case_passed :: "case_execution \<Rightarrow> bool" where
  "case_passed item \<longleftrightarrow> ce_dispatchStatus item = X_LINKED \<and>
     (\<exists>r \<in> set_option (ce_run item). terminal_run_lifecycle (cr_lifecycle r)
        \<and> cr_executionDisposition r = Some D_EXECUTED \<and> cr_verdict r = Some V_PASSED)"

definition run_passed :: "child_run \<Rightarrow> bool" where
  "run_passed r \<longleftrightarrow> \<not> run_active r \<and> cr_executionDisposition r = Some D_EXECUTED
     \<and> cr_verdict r = Some V_PASSED"

lemma all_case_passed:
  "list_all case_passed items \<longleftrightarrow> list_all linked items \<and> list_all run_passed (linked_runs items)"
  by (induction items) (auto simp: case_passed_def linked_def run_passed_def run_active_def)

lemma linked_not_dispatch_active: "list_all linked items \<Longrightarrow> \<not> list_ex dispatch_active items"
  by (induction items) (auto simp: linked_def dispatch_active_def)

lemma run_passed_facts:
  assumes "list_all run_passed runs"
  shows "\<not> list_ex run_active runs" "list_all (\<lambda>r. cr_executionDisposition r = Some D_EXECUTED) runs"
    "\<not> list_ex (\<lambda>r. cr_verdict r = Some V_FAILED) runs"
    "\<not> list_ex (\<lambda>r. cr_verdict r = Some V_INCONCLUSIVE \<or> cr_verdict r = None) runs"
    "\<not> list_ex (\<lambda>r. cr_lifecycle r = L_WAITING_HUMAN) runs"
  using assms
  by (induction runs) (auto simp: run_passed_def run_active_def terminal_run_lifecycle_def)

lemma run_passedI:
  assumes "\<not> list_ex run_active runs" "list_all (\<lambda>r. cr_executionDisposition r = Some D_EXECUTED) runs"
    "\<not> list_ex (\<lambda>r. cr_verdict r = Some V_FAILED) runs"
    "\<not> list_ex (\<lambda>r. cr_verdict r = Some V_INCONCLUSIVE \<or> cr_verdict r = None) runs"
  shows "list_all run_passed runs"
  using assms
proof (induction runs)
  case (Cons r rs)
  have "cr_verdict r = Some V_PASSED"
    using Cons.prems by (cases "cr_verdict r"; cases "the (cr_verdict r)") auto
  with Cons show ?case by (simp add: run_passed_def)
qed simp

lemma project_execution_passed:
  "tp_verdict (project_execution lc items) = Some V_PASSED \<longleftrightarrow>
     items \<noteq> [] \<and> list_all case_passed items \<and> \<not> list_ex waits_for_accounts items"
proof
  assume "tp_verdict (project_execution lc items) = Some V_PASSED"
  then show "items \<noteq> [] \<and> list_all case_passed items \<and> \<not> list_ex waits_for_accounts items"
    using run_passedI [of "linked_runs items"]
    by (auto simp: project_execution_def taskProjection_def Let_def all_case_passed split: if_splits)
next
  assume *: "items \<noteq> [] \<and> list_all case_passed items \<and> \<not> list_ex waits_for_accounts items"
  then have "list_all linked items" and p: "list_all run_passed (linked_runs items)"
    by (simp_all add: all_case_passed)
  with * run_passed_facts [OF p] show "tp_verdict (project_execution lc items) = Some V_PASSED"
    by (simp add: project_execution_def taskProjection_def Let_def
        length_linked_runs linked_not_dispatch_active)
qed

lemma project_execution_completed:
  "tp_lifecycle (project_execution lc items) = K_COMPLETED \<longleftrightarrow>
     items \<noteq> [] \<and> \<not> list_ex waits_for_accounts items \<and> \<not> list_ex dispatch_active items
     \<and> \<not> list_ex run_active (linked_runs items)"
proof -
  have "list_ex run_active runs" if "list_ex (\<lambda>r. cr_lifecycle r = L_WAITING_HUMAN) runs" for runs
    using that by (induction runs) (auto simp: run_active_def terminal_run_lifecycle_def)
  then show ?thesis by (auto simp: project_execution_def taskProjection_def Let_def)
qed

lemma project_execution_stage [simp]:
  "tp_currentStage (project_execution lc items) = SPEC_EXECUTION"
  by (simp add: project_execution_def taskProjection_def Let_def)

lemma project_execution_verdict:
  "tp_verdict (project_execution lc items) \<noteq> None \<Longrightarrow>
     tp_lifecycle (project_execution lc items) = K_COMPLETED"
  by (auto simp: project_execution_def taskProjection_def Let_def split: if_splits)

lemma project_execution_failed:
  "tp_lifecycle (project_execution lc items) = K_COMPLETED \<Longrightarrow>
     list_ex (\<lambda>r. cr_verdict r = Some V_FAILED) (linked_runs items) \<Longrightarrow>
     tp_verdict (project_execution lc items) = Some V_FAILED"
  by (auto simp: project_execution_def taskProjection_def Let_def split: if_splits)

text \<open>The task has left analysis and can execute.\<close>

definition executing :: "task_projection_input \<Rightarrow> bool" where
  "executing input \<longleftrightarrow> \<not> ti_cancelRequested input \<and> \<not> ti_timedOut input
     \<and> (ti_analysisStatus input = T_SUCCEEDED \<or> ti_analysisStatus input = T_SKIPPED)
     \<and> ti_targetAvailable input \<and> ti_executionStatus input \<noteq> T_WAITING_INPUT"

lemma projectTaskExecution_executing:
  "executing input \<Longrightarrow> projectTaskExecution lc input = project_execution lc (ti_caseExecutions input)"
  by (auto simp: projectTaskExecution_def executing_def)

lemma projectTaskExecution_not_executing:
  assumes "\<not> executing input"
  shows "tp_verdict (projectTaskExecution lc input) = None"
    and "tp_lifecycle (projectTaskExecution lc input) = K_COMPLETED \<longleftrightarrow>
      \<not> ti_cancelRequested input \<and> \<not> ti_timedOut input \<and> ti_analysisStatus input = T_FAILED"
    and "tp_currentStage (projectTaskExecution lc input) = SPEC_EXECUTION \<longrightarrow>
      tp_lifecycle (projectTaskExecution lc input) \<noteq> K_COMPLETED"
  using assms
  by (cases "ti_analysisStatus input";
      auto simp: projectTaskExecution_def executing_def taskProjection_def)+

section \<open>Properties\<close>

text \<open>Under the policy in force, another attempt is scheduled exactly for a retryable failure
  of a class the policy retries, before the last attempt, and never for a browser failure when
  the caller asked to fail fast. The run goes back to the queue exactly then, and only then its
  disposition stays open; a verdict is recorded exactly for a completed verification; and an
  outcome that neither schedules an attempt nor waits for a human ends the run.\<close>

theorem runtime_outcome_projection:
  "let p = projectRuntimeOutcome n oc (effectiveRetryPolicy policy oc rp) in
     (op_nextAttemptScheduled p \<longleftrightarrow>
        (\<exists>fc d. oc = RetryableFailure fc d \<and> n < rp_maxAttempts rp \<and> fc \<in> set (rp_retryOn rp)
           \<and> \<not> (policy = Some FAIL_FAST \<and> fc = F_BROWSER_RUNTIME)))
     \<and> (op_lifecycle p = L_QUEUED \<longleftrightarrow> op_nextAttemptScheduled p)
     \<and> (op_executionDisposition p = None \<longleftrightarrow> op_nextAttemptScheduled p)
     \<and> (\<forall>v. op_verdict p = Some v \<longleftrightarrow> oc = VerificationCompleted v)
     \<and> (terminal_run_lifecycle (op_lifecycle p) \<longleftrightarrow> \<not> op_nextAttemptScheduled p \<and> oc \<noteq> WaitingHuman)
     \<and> (op_lifecycle p = L_TIMED_OUT \<longleftrightarrow>
          \<not> op_nextAttemptScheduled p \<and> outcome_failure oc = Some F_TIMEOUT)"
  by (cases oc) (auto simp: effectiveRetryPolicy_def project_failure_def terminal_run_lifecycle_def)

text \<open>A task passes exactly when it was neither cancelled nor timed out, its analysis
  succeeded or was skipped, a deployment target is available, there is at least one case
  execution, none of them still waits for test accounts, and each is linked to a terminal run
  that executed and passed.\<close>

theorem task_passed_iff:
  "tp_verdict (projectTaskExecution lc input) = Some V_PASSED \<longleftrightarrow>
     executing input \<and> ti_caseExecutions input \<noteq> []
     \<and> list_all case_passed (ti_caseExecutions input)
     \<and> \<not> list_ex waits_for_accounts (ti_caseExecutions input)"
  by (cases "executing input")
    (simp_all add: projectTaskExecution_executing projectTaskExecution_not_executing
      project_execution_passed)

text \<open>The execution stage completes the task exactly when there are case executions, none
  waits for accounts, none can still be dispatched and no linked run is live; any verdict implies
  that, and a failed run among the linked ones is then reported as a failed verdict.\<close>

theorem task_completed_iff:
  "let p = projectTaskExecution lc input; items = ti_caseExecutions input in
     (tp_lifecycle p = K_COMPLETED \<and> tp_currentStage p = SPEC_EXECUTION \<longleftrightarrow>
        executing input \<and> items \<noteq> [] \<and> \<not> list_ex waits_for_accounts items
        \<and> \<not> list_ex dispatch_active items \<and> \<not> list_ex run_active (linked_runs items))
     \<and> (tp_verdict p \<noteq> None \<longrightarrow> tp_lifecycle p = K_COMPLETED \<and> tp_currentStage p = SPEC_EXECUTION)
     \<and> (tp_lifecycle p = K_COMPLETED \<and> tp_currentStage p = SPEC_EXECUTION
        \<and> list_ex (\<lambda>r. cr_verdict r = Some V_FAILED) (linked_runs items)
        \<longrightarrow> tp_verdict p = Some V_FAILED)"
proof (cases "executing input")
  case False
  then show ?thesis
    using projectTaskExecution_not_executing [OF False, of lc] by (auto simp: Let_def)
next
  case True
  let ?items = "ti_caseExecutions input"
  show ?thesis
    unfolding Let_def projectTaskExecution_executing [OF True] project_execution_stage
    using True project_execution_completed [of lc ?items] project_execution_verdict [of lc ?items]
      project_execution_failed [of lc ?items]
    by blast
qed

definition sample_failed_task :: task_projection_input where
  "sample_failed_task =
     \<lparr>ti_analysisStatus = T_SUCCEEDED, ti_cancelRequested = False,
      ti_caseExecutions = [\<lparr>ce_dispatchAttempts = 1, ce_dispatchMaxAttempts = 3,
        ce_scheduling = JNull, ce_dispatchStatus = X_LINKED,
        ce_run = Some \<lparr>cr_executionDisposition = Some D_EXECUTED, cr_lifecycle = L_COMPLETED,
          cr_verdict = Some V_FAILED\<rparr>\<rparr>],
      ti_executionStatus = T_RUNNING, ti_targetAvailable = True, ti_timedOut = False\<rparr>"

theorem task_completed_iff_witness:
  "tp_lifecycle (projectTaskExecution code_unit_compare sample_failed_task) = K_COMPLETED
   \<and> tp_verdict (projectTaskExecution code_unit_compare sample_failed_task) = Some V_FAILED"
  using task_completed_iff [of code_unit_compare sample_failed_task]
  by (simp add: Let_def sample_failed_task_def executing_def waits_for_accounts_def
      dispatch_active_def run_active_def terminal_run_lifecycle_def)

end
