(* ===== verification/SessionPermits.thy ===== *)
theory SessionPermits
  imports Prelude
begin

text \<open>
  The browser runtime's registry of execution permits, class \<open>SessionPermits\<close> of
  \<open>apps/browser-runtime/src/session-permits.ts\<close>.

  A method that can throw returns the new state and a sum: \<open>Inl\<close> is the error thrown, and the
  state is what the method left behind, because \<open>accept\<close> and \<open>assert\<close> revoke a session before
  they throw. The clocks are arguments: one reading of \<open>monotonicNow()\<close> per call of it, in the
  order of the calls. A timestamp is what \<open>Date.parse\<close> reads of it, \<open>None\<close> for \<open>NaN\<close>; a comparison
  with \<open>NaN\<close> is false. \<open>BigInt\<close> of a fencing token, a string of digits by its schema, is
  \<open>big_int\<close>.
\<close>

section \<open>Data\<close>

datatype owner_kind = STARTUP | AGENT | HUMAN | SYSTEM

record session_identity =
  si_sessionId :: string
  si_leaseToken :: string
  si_fencingToken :: string

record session_permit =
  pm_sessionId :: string
  pm_fencingToken :: string
  pm_leaseToken :: string
  pm_ownerKind :: owner_kind
  pm_ownerTaskId :: "string option"
  pm_ownerFencingToken :: "string option"
  pm_controlGeneration :: "int option"
  pm_expiresAt :: "int option"

record registered_permit =
  rg_value :: session_permit
  rg_deadline :: rat

record executor_epoch =
  ee_taskId :: string
  ee_token :: nat

record permits_state =
  ps_permits :: "(string \<times> registered_permit) list"
  ps_revoked :: "string set"
  ps_executorEpochs :: "(string \<times> executor_epoch) list"
  ps_connected :: bool
  ps_clockTimestamp :: rat
  ps_clockMonotonicAt :: rat

datatype permit_error =
    Revived | OtherLease | StaleOwner | RenewalTooLate | StaleGeneration | NeedsNewEpoch
  | DowngradeToStartup | PermitExpired | NoPermit | Disconnected | StaleSession
  | WaitingForOwner | StaleExecutor
  | BigIntOfUndefined

record command_owner =
  co_ownerKind :: "owner_kind option"
  co_ownerTaskId :: "string option"
  co_ownerFencingToken :: "string option"
  co_controlGeneration :: "int option"

definition big_int :: "string \<Rightarrow> nat" where
  "big_int s = foldl (\<lambda>n c. 10 * n + (of_char c - 48)) 0 s"

section \<open>Operations\<close>

definition initial_permits :: "rat \<Rightarrow> rat \<Rightarrow> permits_state" where
  "initial_permits wallNow monotonicNow =
     \<lparr>ps_permits = [], ps_revoked = {}, ps_executorEpochs = [], ps_connected = True,
      ps_clockTimestamp = wallNow, ps_clockMonotonicAt = monotonicNow\<rparr>"

definition synchronizeClock :: "permits_state \<Rightarrow> int option \<Rightarrow> rat \<Rightarrow> rat \<Rightarrow> permits_state" where
  "synchronizeClock st serverTime roundTripMs monotonicNow =
     (case serverTime of
        None \<Rightarrow> st
      | Some server \<Rightarrow> st\<lparr>ps_clockTimestamp := of_int server + max 0 roundTripMs,
                        ps_clockMonotonicAt := monotonicNow\<rparr>)"

definition setConnected :: "permits_state \<Rightarrow> bool \<Rightarrow> permits_state" where
  "setConnected st value = st\<lparr>ps_connected := value\<rparr>"

definition isRevoked :: "permits_state \<Rightarrow> string \<Rightarrow> bool" where
  "isRevoked st sessionId \<longleftrightarrow> sessionId \<in> ps_revoked st"

definition revoke :: "permits_state \<Rightarrow> string \<Rightarrow> permits_state" where
  "revoke st sessionId =
     st\<lparr>ps_revoked := insert sessionId (ps_revoked st),
        ps_permits := jmap_delete (ps_permits st) sessionId\<rparr>"

definition get_permit :: "permits_state \<Rightarrow> string \<Rightarrow> session_permit option" where
  "get_permit st sessionId = map_option rg_value (jmap_get (ps_permits st) sessionId)"

definition has_owner :: "session_permit \<Rightarrow> bool" where
  "has_owner p \<longleftrightarrow> truthy (pm_ownerTaskId p) \<and> truthy (pm_ownerFencingToken p)"

definition owner_token :: "session_permit \<Rightarrow> nat" where
  "owner_token p = big_int (coalesce (pm_ownerFencingToken p) [])"

definition generation :: "session_permit \<Rightarrow> int" where
  "generation p = coalesce (pm_controlGeneration p) 0"

text \<open>\<open>Date.parse(a) <= Date.parse(b)\<close>.\<close>

definition instant_le :: "int option \<Rightarrow> int option \<Rightarrow> bool" where
  "instant_le a b \<longleftrightarrow> (case (a, b) of (Some x, Some y) \<Rightarrow> x \<le> y | _ \<Rightarrow> False)"

text \<open>The guards of \<open>accept\<close> on the executor epoch and the registered permit, in order.\<close>

definition accept_guard ::
  "executor_epoch option \<Rightarrow> session_permit option \<Rightarrow> session_permit \<Rightarrow> permit_error option" where
  "accept_guard executor existing permit =
     (let previousGeneration = coalesce (map_option generation existing) 0;
          kind = map_option pm_ownerKind existing in
      if existing \<noteq> None \<and> generation permit < previousGeneration then Some StaleGeneration
      else if kind = Some HUMAN \<and> pm_ownerKind permit = AGENT \<and> executor \<noteq> None
           \<and> pm_ownerFencingToken permit = None then Some BigIntOfUndefined
      else if kind = Some HUMAN \<and> pm_ownerKind permit = AGENT
           \<and> (\<exists>e \<in> set_option executor. owner_token permit \<le> ee_token e)
           \<and> generation permit \<le> previousGeneration then Some NeedsNewEpoch
      else if kind = Some AGENT \<and> pm_ownerKind permit = STARTUP then Some DowngradeToStartup
      else if (\<exists>old \<in> set_option existing. truthy (pm_ownerFencingToken old)
                 \<and> truthy (pm_ownerFencingToken permit)
                 \<and> (pm_ownerTaskId old \<noteq> pm_ownerTaskId permit
                    \<or> owner_token permit < owner_token old)) then Some StaleOwner
      else None)"

definition same_owner :: "session_permit \<Rightarrow> session_permit \<Rightarrow> bool" where
  "same_owner old permit \<longleftrightarrow> pm_ownerKind old = pm_ownerKind permit
     \<and> pm_ownerTaskId old = pm_ownerTaskId permit
     \<and> pm_ownerFencingToken old = pm_ownerFencingToken permit
     \<and> generation old = generation permit"

text \<open>The time left, \<open>None\<close> where the subtraction gives \<open>NaN\<close>. \<open>serverTime\<close> is absent or what it
  parses to.\<close>

definition remaining_time ::
  "permits_state \<Rightarrow> session_permit \<Rightarrow> int option option \<Rightarrow> rat \<Rightarrow> rat \<Rightarrow> rat option" where
  "remaining_time st permit serverTime roundTripMs monotonicNow =
     (case pm_expiresAt permit of
        None \<Rightarrow> None
      | Some expires \<Rightarrow>
          (case serverTime of
             Some None \<Rightarrow> None
           | Some (Some server) \<Rightarrow> Some (of_int expires - (of_int server + max 0 roundTripMs))
           | None \<Rightarrow> Some (of_int expires
                       - (ps_clockTimestamp st + monotonicNow - ps_clockMonotonicAt st))))"

definition register_permit ::
  "permits_state \<Rightarrow> string \<Rightarrow> session_permit \<Rightarrow> rat \<Rightarrow> permits_state" where
  "register_permit st sid permit deadline =
     (let st' = (if has_owner permit
                 then st\<lparr>ps_executorEpochs := jmap_set (ps_executorEpochs st) sid
                        \<lparr>ee_taskId = coalesce (pm_ownerTaskId permit) [],
                         ee_token = owner_token permit\<rparr>\<rparr>
                 else st)
      in st'\<lparr>ps_permits := jmap_set (ps_permits st') sid
               \<lparr>rg_value = permit, rg_deadline = deadline\<rparr>\<rparr>)"

text \<open>The first three guards of \<open>accept\<close>: the session, the lease and the executor epoch.\<close>

definition accept_precheck ::
  "permits_state \<Rightarrow> session_identity \<Rightarrow> session_permit \<Rightarrow> permit_error option" where
  "accept_precheck st identity permit =
     (let sid = si_sessionId identity; executor = jmap_get (ps_executorEpochs st) sid in
      if sid \<in> ps_revoked st then Some Revived
      else if sid \<noteq> pm_sessionId permit \<or> si_fencingToken identity \<noteq> pm_fencingToken permit
              \<or> si_leaseToken identity \<noteq> pm_leaseToken permit then Some OtherLease
      else if has_owner permit
              \<and> (\<exists>e \<in> set_option executor. Some (ee_taskId e) \<noteq> pm_ownerTaskId permit
                    \<or> owner_token permit < ee_token e) then Some StaleOwner
      else None)"

definition stale_snapshot :: "session_permit option \<Rightarrow> session_permit \<Rightarrow> bool" where
  "stale_snapshot existing permit \<longleftrightarrow> (\<exists>old \<in> set_option existing. same_owner old permit
     \<and> instant_le (pm_expiresAt permit) (pm_expiresAt old))"

definition accept_permit ::
  "permits_state \<Rightarrow> session_identity \<Rightarrow> session_permit \<Rightarrow> int option option \<Rightarrow> rat
   \<Rightarrow> rat \<Rightarrow> rat \<Rightarrow> rat \<Rightarrow> permits_state \<times> (permit_error + bool)" where
  "accept_permit st identity permit serverTime roundTripMs now1 now2 now3 =
     (let sid = si_sessionId identity;
          existing = jmap_get (ps_permits st) sid in
      case accept_precheck st identity permit of
        Some e \<Rightarrow> (st, Inl e)
      | None \<Rightarrow>
          if (\<exists>r \<in> set_option existing. rg_deadline r \<le> now1)
          then (revoke st sid, Inl RenewalTooLate)
          else case accept_guard (jmap_get (ps_executorEpochs st) sid)
                      (map_option rg_value existing) permit of
            Some e \<Rightarrow> (st, Inl e)
          | None \<Rightarrow>
              if stale_snapshot (map_option rg_value existing) permit then (st, Inr False)
              else case remaining_time st permit serverTime roundTripMs now2 of
                None \<Rightarrow> (revoke st sid, Inl PermitExpired)
              | Some left \<Rightarrow>
                  if left \<le> 0 then (revoke st sid, Inl PermitExpired)
                  else (register_permit st sid permit (now3 + left), Inr True))"

text \<open>The checks of \<open>assert\<close> against the registered permit, in order.\<close>

definition assert_guard ::
  "session_identity \<Rightarrow> command_owner option \<Rightarrow> bool \<Rightarrow> session_permit \<Rightarrow> permit_error option" where
  "assert_guard identity owner allowStartup permit =
     (if (\<exists>o' \<in> set_option owner. coalesce (co_controlGeneration o') 0 \<noteq> generation permit)
      then Some StaleGeneration
      else if pm_leaseToken permit \<noteq> si_leaseToken identity
              \<or> pm_fencingToken permit \<noteq> si_fencingToken identity then Some StaleSession
      else if pm_ownerKind permit = STARTUP \<and> \<not> allowStartup then Some WaitingForOwner
      else if pm_ownerKind permit \<in> {HUMAN, SYSTEM}
              \<and> (\<exists>o' \<in> set_option owner. co_ownerKind o' = Some AGENT
                    \<or> (co_ownerKind o' = None
                       \<and> (truthy (co_ownerTaskId o') \<or> truthy (co_ownerFencingToken o'))))
        then Some StaleExecutor
      else if pm_ownerKind permit = AGENT
              \<and> (\<exists>o' \<in> set_option owner. co_ownerTaskId o' \<noteq> pm_ownerTaskId permit
                    \<or> co_ownerFencingToken o' \<noteq> pm_ownerFencingToken permit)
        then Some StaleExecutor
      else None)"

definition assert_permit ::
  "permits_state \<Rightarrow> session_identity \<Rightarrow> command_owner option \<Rightarrow> bool \<Rightarrow> rat
   \<Rightarrow> permits_state \<times> (permit_error + session_permit)" where
  "assert_permit st identity owner allowStartup monotonicNow =
     (let sid = si_sessionId identity in
      case jmap_get (ps_permits st) sid of
        None \<Rightarrow> (st, Inl NoPermit)
      | Some registered \<Rightarrow>
          if sid \<in> ps_revoked st then (st, Inl NoPermit)
          else if rg_deadline registered \<le> monotonicNow
            then (revoke st sid, Inl PermitExpired)
          else if \<not> ps_connected st then (st, Inl Disconnected)
          else case assert_guard identity owner allowStartup (rg_value registered) of
            Some e \<Rightarrow> (st, Inl e)
          | None \<Rightarrow> (st, Inr (rg_value registered)))"

definition networkAllowed ::
  "permits_state \<Rightarrow> session_identity \<Rightarrow> rat \<Rightarrow> permits_state \<times> bool" where
  "networkAllowed st identity monotonicNow =
     (case assert_permit st identity None False monotonicNow of
        (st', Inr _) \<Rightarrow> (st', True) | (st', Inl _) \<Rightarrow> (st', False))"

text \<open>\<open>expired\<close> reads the clock once per entry; \<open>now sid\<close> is the reading at that entry.\<close>

definition expired_permits :: "permits_state \<Rightarrow> (string \<Rightarrow> rat) \<Rightarrow> string list" where
  "expired_permits st now =
     map fst (filter (\<lambda>(sid, r). rg_deadline r \<le> now sid) (ps_permits st))"

section \<open>The registry as a machine\<close>

text \<open>One event per call of a method that can change the registry.\<close>

datatype permit_event =
    SynchronizeClock "int option" rat rat
  | SetConnected bool
  | Revoke string
  | Accept session_identity session_permit "int option option" rat rat rat rat
  | Assert session_identity "command_owner option" bool rat
  | NetworkAllowed session_identity rat

fun permit_step :: "permits_state \<Rightarrow> permit_event \<Rightarrow> permits_state" where
  "permit_step st (SynchronizeClock server rtt now) = synchronizeClock st server rtt now"
| "permit_step st (SetConnected b) = setConnected st b"
| "permit_step st (Revoke sid) = revoke st sid"
| "permit_step st (Accept identity permit server rtt n1 n2 n3) =
     fst (accept_permit st identity permit server rtt n1 n2 n3)"
| "permit_step st (Assert identity owner startup now) =
     fst (assert_permit st identity owner startup now)"
| "permit_step st (NetworkAllowed identity now) = fst (networkAllowed st identity now)"

text \<open>
  A revoked session has no permit, a permit is filed under its own session, and a permit that
  names an owner is that of the recorded executor epoch.
\<close>

definition permits_inv :: "permits_state \<Rightarrow> bool" where
  "permits_inv st \<longleftrightarrow> (\<forall>sid r. jmap_get (ps_permits st) sid = Some r \<longrightarrow>
     sid \<notin> ps_revoked st \<and> pm_sessionId (rg_value r) = sid
     \<and> (has_owner (rg_value r) \<longrightarrow>
          (\<exists>e. jmap_get (ps_executorEpochs st) sid = Some e
             \<and> Some (ee_taskId e) = pm_ownerTaskId (rg_value r)
             \<and> ee_token e = owner_token (rg_value r))))"

lemma permits_invD:
  assumes "permits_inv st" and "jmap_get (ps_permits st) sid = Some r"
  shows "sid \<notin> ps_revoked st" "pm_sessionId (rg_value r) = sid"
    "has_owner (rg_value r) \<Longrightarrow> \<exists>e. jmap_get (ps_executorEpochs st) sid = Some e
       \<and> Some (ee_taskId e) = pm_ownerTaskId (rg_value r) \<and> ee_token e = owner_token (rg_value r)"
  using assms unfolding permits_inv_def by blast+

text \<open>What each state transformer does to the three tables.\<close>

lemma revoke_simps [simp]:
  "ps_revoked (revoke st sid) = insert sid (ps_revoked st)"
  "jmap_get (ps_permits (revoke st sid)) j = (if j = sid then None else jmap_get (ps_permits st) j)"
  "ps_executorEpochs (revoke st sid) = ps_executorEpochs st"
  "ps_connected (revoke st sid) = ps_connected st"
  by (simp_all add: revoke_def)

lemma register_permit_simps [simp]:
  "ps_revoked (register_permit st sid p d) = ps_revoked st"
  "jmap_get (ps_permits (register_permit st sid p d)) j =
     (if j = sid then Some \<lparr>rg_value = p, rg_deadline = d\<rparr> else jmap_get (ps_permits st) j)"
  "jmap_get (ps_executorEpochs (register_permit st sid p d)) j =
     (if j = sid \<and> has_owner p
      then Some \<lparr>ee_taskId = coalesce (pm_ownerTaskId p) [], ee_token = owner_token p\<rparr>
      else jmap_get (ps_executorEpochs st) j)"
  by (simp_all add: register_permit_def Let_def)

lemma quiet_steps [simp]:
  "ps_revoked (synchronizeClock st s r n) = ps_revoked st"
  "ps_permits (synchronizeClock st s r n) = ps_permits st"
  "ps_executorEpochs (synchronizeClock st s r n) = ps_executorEpochs st"
  "ps_revoked (setConnected st b) = ps_revoked st"
  "ps_permits (setConnected st b) = ps_permits st"
  "ps_executorEpochs (setConnected st b) = ps_executorEpochs st"
  by (simp_all add: synchronizeClock_def setConnected_def split: option.splits)

text \<open>The states \<open>accept\<close> can leave: unchanged, the session revoked, or the permit registered,
  the last only for a permit that passed every guard.\<close>

lemma accept_precheck_None:
  assumes "accept_precheck st identity permit = None"
  shows "si_sessionId identity \<notin> ps_revoked st" "pm_sessionId permit = si_sessionId identity"
    "pm_leaseToken permit = si_leaseToken identity"
    "pm_fencingToken permit = si_fencingToken identity"
    "has_owner permit \<Longrightarrow> jmap_get (ps_executorEpochs st) (si_sessionId identity) = Some e \<Longrightarrow>
       Some (ee_taskId e) = pm_ownerTaskId permit \<and> ee_token e \<le> owner_token permit"
  using assms by (auto simp: accept_precheck_def Let_def not_less split: if_splits)

lemma accept_permit_cases:
  assumes "accept_permit st identity permit server rtt n1 n2 n3 = (st', res)"
  obtains (same) "st' = st" "res \<noteq> Inr True"
  | (revoked) e where "st' = revoke st (si_sessionId identity)" "res = Inl e"
  | (registered) left where
      "st' = register_permit st (si_sessionId identity) permit (n3 + left)" "res = Inr True"
      "accept_precheck st identity permit = None"
      "accept_guard (jmap_get (ps_executorEpochs st) (si_sessionId identity))
         (map_option rg_value (jmap_get (ps_permits st) (si_sessionId identity))) permit = None"
      "remaining_time st permit server rtt n2 = Some left" "0 < left"
  using assms
  by (auto simp: accept_permit_def Let_def not_le split: option.splits if_splits)

lemma assert_permit_cases:
  assumes "assert_permit st identity owner startup now = (st', res)"
  obtains (same) "st' = st" | (revoked) "st' = revoke st (si_sessionId identity)" "res = Inl PermitExpired"
  using assms by (auto simp: assert_permit_def Let_def split: option.splits if_splits)

lemma networkAllowed_state:
  "fst (networkAllowed st identity now) = fst (assert_permit st identity None False now)"
  by (simp add: networkAllowed_def split: prod.split sum.split)

lemma permits_inv_revoke: "permits_inv st \<Longrightarrow> permits_inv (revoke st sid)"
  by (auto simp: permits_inv_def split: if_splits)

lemma permits_inv_register:
  assumes "permits_inv st" "accept_precheck st identity permit = None"
  shows "permits_inv (register_permit st (si_sessionId identity) permit d)"
proof -
  have "truthy (pm_ownerTaskId permit) \<Longrightarrow>
      Some (coalesce (pm_ownerTaskId permit) []) = pm_ownerTaskId permit"
    by (cases "pm_ownerTaskId permit") simp_all
  then show ?thesis
    using assms(1) accept_precheck_None(1,2) [OF assms(2)]
    by (auto simp: permits_inv_def has_owner_def split: if_splits)
qed

lemma permits_inv_accept:
  assumes "permits_inv st"
  shows "permits_inv (fst (accept_permit st identity permit server rtt n1 n2 n3))"
proof -
  obtain st' res where r: "accept_permit st identity permit server rtt n1 n2 n3 = (st', res)"
    by (cases "accept_permit st identity permit server rtt n1 n2 n3")
  from r show ?thesis
    by (cases rule: accept_permit_cases)
      (use assms r permits_inv_revoke permits_inv_register in auto)
qed

lemma permits_inv_assert:
  assumes "permits_inv st"
  shows "permits_inv (fst (assert_permit st identity owner startup now))"
proof -
  obtain st' res where r: "assert_permit st identity owner startup now = (st', res)"
    by (cases "assert_permit st identity owner startup now")
  from r show ?thesis
    by (cases rule: assert_permit_cases) (use assms r permits_inv_revoke in auto)
qed

lemma permits_inv_initial: "permits_inv (initial_permits w m)"
  by (simp add: permits_inv_def initial_permits_def)

lemma permits_inv_quiet:
  "permits_inv st \<Longrightarrow> permits_inv (synchronizeClock st s r n)"
  "permits_inv st \<Longrightarrow> permits_inv (setConnected st b)"
  by (simp_all add: permits_inv_def)

lemma permits_inv_step: "permits_inv st \<Longrightarrow> permits_inv (permit_step st e)"
  by (cases e) (simp_all add: permits_inv_quiet permits_inv_revoke permits_inv_accept
      permits_inv_assert networkAllowed_state)

text \<open>A step only adds revoked sessions and only moves a session's epoch forward.\<close>

lemma accept_permit_revoked:
  "ps_revoked st \<subseteq> ps_revoked (fst (accept_permit st identity permit server rtt n1 n2 n3))"
proof -
  obtain st' res where r: "accept_permit st identity permit server rtt n1 n2 n3 = (st', res)"
    by (cases "accept_permit st identity permit server rtt n1 n2 n3")
  from r show ?thesis by (cases rule: accept_permit_cases) (use r in auto)
qed

lemma assert_permit_revoked:
  "ps_revoked st \<subseteq> ps_revoked (fst (assert_permit st identity owner startup now))"
proof -
  obtain st' res where r: "assert_permit st identity owner startup now = (st', res)"
    by (cases "assert_permit st identity owner startup now")
  from r show ?thesis by (cases rule: assert_permit_cases) (use r in auto)
qed

lemma permit_step_revoked: "ps_revoked st \<subseteq> ps_revoked (permit_step st e)"
  by (cases e) (auto simp: networkAllowed_state
      dest: accept_permit_revoked [THEN subsetD] assert_permit_revoked [THEN subsetD])

definition epoch_at_least :: "string \<Rightarrow> string \<Rightarrow> nat \<Rightarrow> permits_state \<Rightarrow> bool" where
  "epoch_at_least sid task n st \<longleftrightarrow>
     (\<exists>e. jmap_get (ps_executorEpochs st) sid = Some e \<and> ee_taskId e = task \<and> n \<le> ee_token e)"

lemma accept_permit_epoch:
  assumes "epoch_at_least sid task n st"
  shows "epoch_at_least sid task n (fst (accept_permit st identity permit server rtt n1 n2 n3))"
proof -
  obtain st' res where r: "accept_permit st identity permit server rtt n1 n2 n3 = (st', res)"
    by (cases "accept_permit st identity permit server rtt n1 n2 n3")
  from r show ?thesis
  proof (cases rule: accept_permit_cases)
    case (registered left)
    from assms obtain e where e: "jmap_get (ps_executorEpochs st) sid = Some e"
      "ee_taskId e = task" "n \<le> ee_token e" by (auto simp: epoch_at_least_def)
    have "Some task = pm_ownerTaskId permit \<and> n \<le> owner_token permit"
      if "sid = si_sessionId identity" "has_owner permit"
      using accept_precheck_None(5) [OF registered(3) that(2)] e that by fastforce
    then show ?thesis
      using r registered e by (cases "pm_ownerTaskId permit") (auto simp: epoch_at_least_def)
  qed (use assms r in \<open>auto simp: epoch_at_least_def\<close>)
qed

lemma assert_permit_epochs:
  "ps_executorEpochs (fst (assert_permit st identity owner startup now)) = ps_executorEpochs st"
proof -
  obtain st' res where r: "assert_permit st identity owner startup now = (st', res)"
    by (cases "assert_permit st identity owner startup now")
  from r show ?thesis by (cases rule: assert_permit_cases) (use r in auto)
qed

lemma permit_step_epoch: "epoch_at_least sid task n st \<Longrightarrow> epoch_at_least sid task n (permit_step st e)"
proof (cases e)
  case (Accept identity permit server rtt n1 n2 n3)
  then show "epoch_at_least sid task n st \<Longrightarrow> ?thesis" by (simp add: accept_permit_epoch)
qed (simp_all add: epoch_at_least_def networkAllowed_state assert_permit_epochs)

interpretation permits: machine permit_step permits_inv
  by unfold_locales (rule permits_inv_step)

interpretation permit_revocation: absorbing_machine permit_step permits_inv "\<lambda>st. sid \<in> ps_revoked st"
  for sid
  by unfold_locales (use permit_step_revoked in blast)

interpretation permit_epochs: absorbing_machine permit_step permits_inv "epoch_at_least sid task n"
  for sid task n
  by unfold_locales (rule permit_step_epoch)

interpretation permit_revoked_grows: monotone_machine permit_step permits_inv ps_revoked
  by unfold_locales (rule permit_step_revoked)

section \<open>Properties\<close>

definition permits_after :: "rat \<Rightarrow> rat \<Rightarrow> permit_event list \<Rightarrow> permits_state" where
  "permits_after wallNow monotonicNow es = foldl permit_step (initial_permits wallNow monotonicNow) es"

lemma permits_inv_after: "permits_inv (permits_after w m es)"
  unfolding permits_after_def by (rule permits.run_inv [OF permits_inv_initial])

lemma permits_after_append: "permits_after w m (es @ fs) = foldl permit_step (permits_after w m es) fs"
  by (simp add: permits_after_def)

lemma revoked_denied:
  assumes "permits_inv st" "si_sessionId identity \<in> ps_revoked st"
  shows "accept_permit st identity permit server rtt n1 n2 n3 = (st, Inl Revived)"
    "assert_permit st identity owner startup now = (st, Inl NoPermit)"
    "get_permit st (si_sessionId identity) = None"
proof -
  have "jmap_get (ps_permits st) (si_sessionId identity) = None"
    using permits_invD(1) [OF assms(1)] assms(2) by (cases "jmap_get (ps_permits st) (si_sessionId identity)") auto
  then show "assert_permit st identity owner startup now = (st, Inl NoPermit)"
    "get_permit st (si_sessionId identity) = None"
    by (simp_all add: assert_permit_def get_permit_def)
  show "accept_permit st identity permit server rtt n1 n2 n3 = (st, Inl Revived)"
    using assms(2) by (simp add: accept_permit_def accept_precheck_def Let_def)
qed

lemma assert_permit_Inr:
  assumes "assert_permit st identity owner startup now = (st', Inr p)"
  obtains r where "st' = st" "jmap_get (ps_permits st) (si_sessionId identity) = Some r"
    "rg_value r = p" "now < rg_deadline r" "ps_connected st"
    "si_sessionId identity \<notin> ps_revoked st" "assert_guard identity owner startup p = None"
  using assms by (auto simp: assert_permit_def Let_def not_le split: option.splits if_splits)

lemma accept_permit_Inr_True:
  assumes "snd (accept_permit st identity permit server rtt n1 n2 n3) = Inr True"
  obtains left where
    "fst (accept_permit st identity permit server rtt n1 n2 n3)
       = register_permit st (si_sessionId identity) permit (n3 + left)"
    "accept_precheck st identity permit = None"
    "accept_guard (jmap_get (ps_executorEpochs st) (si_sessionId identity))
       (map_option rg_value (jmap_get (ps_permits st) (si_sessionId identity))) permit = None"
    "remaining_time st permit server rtt n2 = Some left" "0 < left"
proof -
  obtain st' res where r: "accept_permit st identity permit server rtt n1 n2 n3 = (st', res)"
    by (cases "accept_permit st identity permit server rtt n1 n2 n3")
  from r show ?thesis
    by (cases rule: accept_permit_cases) (use assms r that in auto)
qed

text \<open>C17: After a session is revoked, whatever calls follow, its permit is gone, every new permit
  for it is refused and every command on it is refused, and neither refusal changes the registry.\<close>

theorem revoked_session_never_revived:
  "let st = permits_after w m (es @ Revoke (si_sessionId identity) # fs) in
     get_permit st (si_sessionId identity) = None
     \<and> accept_permit st identity permit server rtt n1 n2 n3 = (st, Inl Revived)
     \<and> assert_permit st identity owner startup now = (st, Inl NoPermit)
     \<and> snd (networkAllowed st identity now) = False"
proof -
  let ?st = "permits_after w m (es @ Revoke (si_sessionId identity) # fs)"
  have "si_sessionId identity \<in> ps_revoked (foldl permit_step
      (permits_after w m (es @ [Revoke (si_sessionId identity)])) fs)"
    by (rule permit_revocation.run_good [OF permits_inv_after]) (simp add: permits_after_append)
  then have "si_sessionId identity \<in> ps_revoked ?st" by (simp add: permits_after_def)
  then show ?thesis
    using revoked_denied [OF permits_inv_after] by (simp add: networkAllowed_def Let_def)
qed

text \<open>C18: Fencing of executors. Once a permit naming a task and a fencing token has been
  registered for a session, then after any further calls a command is only ever authorised under
  an owner of the same task with a token at least as large.\<close>

theorem executor_fencing:
  assumes "has_owner permit"
    and "snd (accept_permit (permits_after w m es) identity permit server rtt n1 n2 n3) = Inr True"
    and "assert_permit (permits_after w m (es @ Accept identity permit server rtt n1 n2 n3 # fs))
           identity' owner startup now = (st, Inr p)"
    and "si_sessionId identity' = si_sessionId identity" "has_owner p"
  shows "pm_ownerTaskId p = pm_ownerTaskId permit \<and> owner_token permit \<le> owner_token p"
proof -
  let ?sid = "si_sessionId identity"
  let ?st = "permits_after w m (es @ Accept identity permit server rtt n1 n2 n3 # fs)"
  obtain task where task: "pm_ownerTaskId permit = Some task"
    using assms(1) by (cases "pm_ownerTaskId permit") (simp_all add: has_owner_def)
  have "epoch_at_least ?sid task (owner_token permit)
      (permits_after w m (es @ [Accept identity permit server rtt n1 n2 n3]))"
    by (rule accept_permit_Inr_True [OF assms(2)])
      (simp add: epoch_at_least_def permits_after_append assms(1) task)
  then have "epoch_at_least ?sid task (owner_token permit) (foldl permit_step
      (permits_after w m (es @ [Accept identity permit server rtt n1 n2 n3])) fs)"
    by (rule permit_epochs.run_good [OF permits_inv_after])
  then have "epoch_at_least ?sid task (owner_token permit) ?st" by (simp add: permits_after_def)
  then obtain e where e: "jmap_get (ps_executorEpochs ?st) ?sid = Some e"
    "ee_taskId e = task" "owner_token permit \<le> ee_token e"
    by (auto simp: epoch_at_least_def)
  obtain r where r: "jmap_get (ps_permits ?st) ?sid = Some r" "rg_value r = p"
    using assms(3,4) by (auto elim: assert_permit_Inr)
  show ?thesis
    using permits_invD(3) [OF permits_inv_after r(1)] r(2) e assms(5) task by auto
qed

definition sample_identity :: session_identity where
  "sample_identity = \<lparr>si_sessionId = ''s'', si_leaseToken = ''l'', si_fencingToken = ''4''\<rparr>"

definition sample_permit :: "string \<Rightarrow> int \<Rightarrow> session_permit" where
  "sample_permit token expires =
     \<lparr>pm_sessionId = ''s'', pm_fencingToken = ''4'', pm_leaseToken = ''l'', pm_ownerKind = AGENT,
      pm_ownerTaskId = Some ''task'', pm_ownerFencingToken = Some token,
      pm_controlGeneration = None, pm_expiresAt = Some expires\<rparr>"

definition sample_owner :: "string \<Rightarrow> command_owner" where
  "sample_owner token = \<lparr>co_ownerKind = Some AGENT, co_ownerTaskId = Some ''task'',
     co_ownerFencingToken = Some token, co_controlGeneration = None\<rparr>"

lemmas sample_permit_defs = sample_identity_def sample_permit_def sample_owner_def

theorem executor_fencing_witness:
  "pm_ownerTaskId (sample_permit ''10'' 90) = pm_ownerTaskId (sample_permit ''9'' 50)
     \<and> owner_token (sample_permit ''9'' 50) \<le> owner_token (sample_permit ''10'' 90)"
proof (rule executor_fencing)
  show "has_owner (sample_permit ''9'' 50)" "has_owner (sample_permit ''10'' 90)" by code_simp+
  show "snd (accept_permit (permits_after 0 0 []) sample_identity (sample_permit ''9'' 50)
      None 0 1 1 1) = Inr True" by code_simp
  let ?es = "[] @ Accept sample_identity (sample_permit ''9'' 50) None 0 1 1 1
     # [Accept sample_identity (sample_permit ''10'' 90) None 0 2 2 2]"
  have "snd (assert_permit (permits_after 0 0 ?es) sample_identity (Some (sample_owner ''10''))
      False 3) = Inr (sample_permit ''10'' 90)" by code_simp
  then show "assert_permit (permits_after 0 0 ?es) sample_identity (Some (sample_owner ''10''))
      False 3 = (fst (assert_permit (permits_after 0 0 ?es) sample_identity
        (Some (sample_owner ''10'')) False 3), Inr (sample_permit ''10'' 90))"
    by (simp add: prod_eq_iff)
qed simp

text \<open>A command is authorised only while the Runtime is connected, before the deadline and
  under the registered, unrevoked permit of its own lease; the command's control generation is the
  permit's; a startup permit serves startup commands only; under an agent's permit the command's
  owner is the permit's; and under human or system control no agent's command passes.\<close>

theorem authorised_command:
  assumes "assert_permit st identity owner startup now = (st', Inr p)"
  shows "st' = st \<and> ps_connected st \<and> get_permit st (si_sessionId identity) = Some p
    \<and> (\<exists>r. jmap_get (ps_permits st) (si_sessionId identity) = Some r \<and> now < rg_deadline r)
    \<and> si_sessionId identity \<notin> ps_revoked st
    \<and> pm_leaseToken p = si_leaseToken identity \<and> pm_fencingToken p = si_fencingToken identity
    \<and> (pm_ownerKind p = STARTUP \<longrightarrow> startup)
    \<and> (\<forall>c \<in> set_option owner. coalesce (co_controlGeneration c) 0 = generation p
         \<and> (pm_ownerKind p = AGENT \<longrightarrow> co_ownerTaskId c = pm_ownerTaskId p
              \<and> co_ownerFencingToken c = pm_ownerFencingToken p)
         \<and> (pm_ownerKind p \<in> {HUMAN, SYSTEM} \<longrightarrow> co_ownerKind c \<noteq> Some AGENT))"
proof -
  from assms obtain r where r: "st' = st" "jmap_get (ps_permits st) (si_sessionId identity) = Some r"
    "rg_value r = p" "now < rg_deadline r" "ps_connected st"
    "si_sessionId identity \<notin> ps_revoked st" and g: "assert_guard identity owner startup p = None"
    by (rule assert_permit_Inr)
  show ?thesis
    using r g by (auto simp: assert_guard_def get_permit_def split: if_splits)
qed

theorem authorised_command_witness:
  "let st = permits_after 0 0 [Accept sample_identity (sample_permit ''9'' 50) None 0 1 1 1] in
   get_permit st ''s'' = Some (sample_permit ''9'' 50)"
proof -
  let ?st = "permits_after 0 0 [Accept sample_identity (sample_permit ''9'' 50) None 0 1 1 1]"
  have "snd (assert_permit ?st sample_identity (Some (sample_owner ''9'')) False 40)
      = Inr (sample_permit ''9'' 50)" by code_simp
  then have "assert_permit ?st sample_identity (Some (sample_owner ''9'')) False 40
      = (fst (assert_permit ?st sample_identity (Some (sample_owner ''9'')) False 40),
         Inr (sample_permit ''9'' 50))"
    by (simp add: prod_eq_iff)
  from authorised_command [OF this] show ?thesis
    by (simp add: sample_identity_def)
qed

text \<open>Registering a permit over one already held moves authority forward only: the control
  generation does not fall, an agent is not downgraded to startup, the same task's token does not
  fall, and control goes back from a human to an agent only under a new executor epoch or a new
  control generation. The deadline is what is left of the permit by the server's clock, so when the
  server's time is given it never outlives the permit's expiry on it.\<close>

theorem renewal_moves_forward:
  assumes "snd (accept_permit st identity permit server rtt n1 n2 n3) = Inr True"
    and "get_permit st (si_sessionId identity) = Some old"
    and "jmap_get (ps_executorEpochs st) (si_sessionId identity) = Some e"
  shows "generation old \<le> generation permit
    \<and> \<not> (pm_ownerKind old = AGENT \<and> pm_ownerKind permit = STARTUP)
    \<and> (truthy (pm_ownerFencingToken old) \<and> truthy (pm_ownerFencingToken permit) \<longrightarrow>
         pm_ownerTaskId permit = pm_ownerTaskId old \<and> owner_token old \<le> owner_token permit)
    \<and> (pm_ownerKind old = HUMAN \<and> pm_ownerKind permit = AGENT \<longrightarrow>
         ee_token e < owner_token permit \<or> generation old < generation permit)
    \<and> (\<forall>t. server = Some (Some t) \<longrightarrow>
         (\<exists>expires r. pm_expiresAt permit = Some expires
            \<and> jmap_get (ps_permits (fst (accept_permit st identity permit server rtt n1 n2 n3)))
                (si_sessionId identity) = Some r
            \<and> rg_value r = permit \<and> n3 < rg_deadline r \<and> rg_deadline r - n3 \<le> of_int (expires - t)))"
proof -
  from assms(1) obtain left where
    st': "fst (accept_permit st identity permit server rtt n1 n2 n3)
       = register_permit st (si_sessionId identity) permit (n3 + left)" and
    g: "accept_guard (jmap_get (ps_executorEpochs st) (si_sessionId identity))
       (map_option rg_value (jmap_get (ps_permits st) (si_sessionId identity))) permit = None" and
    left: "remaining_time st permit server rtt n2 = Some left" "0 < left"
    by (rule accept_permit_Inr_True)
  have "accept_guard (Some e) (Some old) permit = None"
    using g assms(2,3) unfolding get_permit_def by simp
  then have forward: "generation old \<le> generation permit
    \<and> \<not> (pm_ownerKind old = AGENT \<and> pm_ownerKind permit = STARTUP)
    \<and> (truthy (pm_ownerFencingToken old) \<and> truthy (pm_ownerFencingToken permit) \<longrightarrow>
         pm_ownerTaskId permit = pm_ownerTaskId old \<and> owner_token old \<le> owner_token permit)
    \<and> (pm_ownerKind old = HUMAN \<and> pm_ownerKind permit = AGENT \<longrightarrow>
         ee_token e < owner_token permit \<or> generation old < generation permit)"
    by (auto simp: accept_guard_def Let_def not_less not_le split: if_splits)
  have "\<exists>expires. pm_expiresAt permit = Some expires \<and> left \<le> of_int (expires - t)"
    if "server = Some (Some t)" for t
    using left(1) that by (auto simp: remaining_time_def split: option.splits)
  then show ?thesis
    using forward st' left(2) by auto
qed

theorem renewal_moves_forward_witness:
  "let st = permits_after 0 0 [Accept sample_identity (sample_permit ''9'' 50) None 0 1 1 1];
       st' = fst (accept_permit st sample_identity (sample_permit ''10'' 90) (Some (Some 20)) 3 2 2 2)
   in \<exists>r. jmap_get (ps_permits st') ''s'' = Some r \<and> rg_deadline r - 2 \<le> 70"
proof -
  let ?st = "permits_after 0 0 [Accept sample_identity (sample_permit ''9'' 50) None 0 1 1 1]"
  have "snd (accept_permit ?st sample_identity (sample_permit ''10'' 90) (Some (Some 20)) 3 2 2 2) = Inr True"
    by code_simp
  moreover have "get_permit ?st (si_sessionId sample_identity) = Some (sample_permit ''9'' 50)" by code_simp
  moreover have "jmap_get (ps_executorEpochs ?st) (si_sessionId sample_identity)
      = Some \<lparr>ee_taskId = ''task'', ee_token = 9\<rparr>" by code_simp
  ultimately show ?thesis
    using renewal_moves_forward [of ?st sample_identity "sample_permit ''10'' 90" "Some (Some 20)" 3 2 2 2
        "sample_permit ''9'' 50"]
    by (simp add: sample_permit_defs) (metis of_int_numeral)
qed

end
