(* ===== verification/Acceptance.thy ===== *)
theory Acceptance
  imports JsStrings
begin

text \<open>
  The acceptance report's types (\<open>packages/contracts/src/task-acceptance-report.ts\<close>) and its
  release assessment (\<open>packages/contracts/src/acceptance-assessment.ts\<close>): which criteria leave the
  score because the environment blocked them (\<open>criterionScoringExclusion\<close>), and the score,
  recommendation, exclusions and findings of a report (\<open>assessAcceptance\<close>).

  The prose of the code is Chinese. A fixed sentence is \<open>Fixed\<close> with an ASCII key, text taken
  from data is \<open>Given\<close>, and the sentence that states a recommendation is a constructor of
  \<open>assessment_reason\<close> that carries the numbers the sentence prints.
\<close>

section \<open>Data\<close>

datatype message = Given string | Fixed string | Joined "message list" | Labelled string message

datatype acceptance_verdict = AV_PASSED | AV_FAILED | AV_INCONCLUSIVE | AV_PENDING

datatype issue_category =
    IC_CONTEXT | IC_PRODUCT | IC_EVIDENCE | IC_UNDETERMINED | IC_COVERAGE | IC_PRECONDITION
  | IC_EXECUTION | IC_CANCELLED | IC_TIMEOUT

record acceptance_issue =
  is_category :: issue_category
  is_code :: string
  is_message :: message
  is_nextStep :: message

record acceptance_evidence =
  ae_id :: string
  ae_ref :: string
  ae_kind :: string
  ae_downloadPath :: "string option"

record acceptance_criterion =
  ac_id :: string
  ac_requirementId :: "string option"
  ac_description :: string
  ac_required :: bool
  ac_verdict :: acceptance_verdict
  ac_recordedVerdict :: "string option"
  ac_summary :: message
  ac_evidence :: "acceptance_evidence list"
  ac_issues :: "acceptance_issue list"

record acceptance_case =
  ak_cleanup :: "message option"
  ak_caseId :: string
  ak_name :: string
  ak_deployment :: string
  ak_targetUrl :: "string option"
  ak_runId :: "string option"
  ak_attemptNumber :: "int option"
  ak_executionOrdinal :: int
  ak_lifecycle :: string
  ak_executionDisposition :: "string option"
  ak_verdict :: acceptance_verdict
  ak_criteria :: "acceptance_criterion list"
  ak_issues :: "acceptance_issue list"

record acceptance_requirement =
  aq_id :: string
  aq_description :: string
  aq_sourceRef :: "string option"
  aq_verdict :: acceptance_verdict
  aq_caseIds :: "string list"
  aq_reason :: "message option"

datatype report_scope = REQUIREMENT_SCOPE | CASE_SCOPE | DIRECT_SCOPE

text \<open>The fields of a report that the assessment reads.\<close>

record report_view =
  rv_cases :: "acceptance_case list"
  rv_requirements :: "acceptance_requirement list"
  rv_final :: bool
  rv_verdict :: acceptance_verdict
  rv_aiAccepted :: bool
  rv_scope :: report_scope
  rv_coverageComplete :: bool
  rv_lifecycle :: string

datatype release_recommendation =
    RR_RECOMMENDED | RR_NEEDS_VALIDATION | RR_NOT_RECOMMENDED | RR_SCOPED_ONLY | RR_PENDING

datatype assessment_reason =
    StillRunning
  | ConfirmedFailures int
  | AllProven
  | ScopePassed
  | BlockedByEnvironment int
  | NothingToScore
  | PartlyProven int int int
  | CoverageGap
  | ResultsDisagree

record acceptance_exclusion =
  ax_caseId :: string
  ax_caseName :: string
  ax_deployment :: string
  ax_runId :: "string option"
  ax_criterionId :: string
  ax_required :: bool
  ax_reason :: message
  ax_code :: string
  ax_nextStep :: message
  ax_evidence :: "acceptance_evidence list"

datatype finding_kind = FK_PRODUCT | FK_VALIDATION_GAP

record acceptance_finding =
  fd_key :: string
  fd_caseId :: string
  fd_caseName :: string
  fd_runId :: "string option"
  fd_criterionId :: string
  fd_requirement :: string
  fd_expected :: string
  fd_observed :: message
  fd_required :: bool
  fd_kind :: finding_kind
  fd_evidence :: "acceptance_evidence list"
  fd_nextStep :: message

record acceptance_assessment =
  as_score :: "int option"
  as_passed :: int
  as_failed :: int
  as_unknown :: int
  as_pending :: int
  as_total :: int
  as_excluded :: int
  as_exclusions :: "acceptance_exclusion list"
  as_recommendation :: release_recommendation
  as_reason :: assessment_reason
  as_findings :: "acceptance_finding list"

section \<open>Exclusion from the score\<close>

definition isAcceptanceEnvironmentBlocker :: "acceptance_issue \<Rightarrow> bool" where
  "isAcceptanceEnvironmentBlocker i \<longleftrightarrow>
     is_category i = IC_PRECONDITION
     \<or> (is_category i = IC_EXECUTION
        \<and> (starts_with (is_code i) ''RUNTIME_'' \<or> is_code i = ''BROWSER_UNAVAILABLE''
           \<or> is_code i = ''SESSION_OPEN_FAILED'' \<or> starts_with (is_code i) ''PROVIDER_''
           \<or> is_code i = ''WRITE_OUTCOME_UNKNOWN''))"

definition criterionScoringExclusion ::
  "acceptance_case \<Rightarrow> acceptance_criterion \<Rightarrow> acceptance_issue option" where
  "criterionScoringExclusion c k =
     (if ac_verdict k \<noteq> AV_INCONCLUSIVE
         \<or> ak_lifecycle c \<notin> {''COMPLETED'', ''TIMED_OUT'', ''CANCELLED''} then None
      else if coalesce (ac_recordedVerdict k) [] \<in> {''PASSED'', ''FAILED''} then None
      else case List.find isAcceptanceEnvironmentBlocker (ac_issues k) of
        Some own \<Rightarrow> Some own
      | None \<Rightarrow> if truthy (ac_recordedVerdict k) then None
                else List.find isAcceptanceEnvironmentBlocker (ak_issues c))"

section \<open>The assessment\<close>

definition scored_criteria :: "acceptance_case list \<Rightarrow> acceptance_criterion list" where
  "scored_criteria cases =
     filter ac_required (List.concat (map (\<lambda>c.
       filter (\<lambda>k. criterionScoringExclusion c k = None) (ak_criteria c)) cases))"

definition count_verdict :: "acceptance_verdict \<Rightarrow> acceptance_criterion list \<Rightarrow> int" where
  "count_verdict v ks = int (length (filter (\<lambda>k. ac_verdict k = v) ks))"

definition exclusion_of ::
  "acceptance_case \<Rightarrow> acceptance_criterion \<Rightarrow> acceptance_issue \<Rightarrow> acceptance_exclusion" where
  "exclusion_of c k blocker =
     \<lparr>ax_caseId = ak_caseId c, ax_caseName = ak_name c, ax_deployment = ak_deployment c,
      ax_runId = ak_runId c, ax_criterionId = ac_id k, ax_required = ac_required k,
      ax_reason = is_message blocker, ax_code = is_code blocker,
      ax_nextStep = is_nextStep blocker, ax_evidence = ac_evidence k\<rparr>"

definition case_exclusions :: "acceptance_case \<Rightarrow> acceptance_exclusion list" where
  "case_exclusions c =
     List.concat (map (\<lambda>k. case criterionScoringExclusion c k of
         Some blocker \<Rightarrow> [exclusion_of c k blocker] | None \<Rightarrow> []) (ak_criteria c))"

definition is_finding :: "acceptance_case \<Rightarrow> acceptance_criterion \<Rightarrow> bool" where
  "is_finding c k \<longleftrightarrow> (ac_verdict k = AV_FAILED \<or> ac_verdict k = AV_INCONCLUSIVE)
     \<and> criterionScoringExclusion c k = None"

definition finding_of ::
  "acceptance_requirement list \<Rightarrow> acceptance_case \<Rightarrow> acceptance_criterion \<Rightarrow> acceptance_finding" where
  "finding_of requirements c k =
     \<lparr>fd_key = coalesce (ak_runId c) (ak_caseId c) @ ''/'' @ ak_deployment c @ ''/'' @ ac_id k,
      fd_caseId = ak_caseId c, fd_caseName = ak_name c, fd_runId = ak_runId c,
      fd_criterionId = ac_id k,
      fd_requirement =
        (case List.find (\<lambda>r. Some (aq_id r) = ac_requirementId k) requirements of
           Some r \<Rightarrow> aq_description r | None \<Rightarrow> ac_description k),
      fd_expected = ac_description k, fd_observed = ac_summary k, fd_required = ac_required k,
      fd_kind = (if ac_verdict k = AV_FAILED then FK_PRODUCT else FK_VALIDATION_GAP),
      fd_evidence = ac_evidence k,
      fd_nextStep =
        (case ac_issues k of
           i # _ \<Rightarrow> is_nextStep i
         | [] \<Rightarrow> if ac_verdict k = AV_FAILED then Fixed ''fix and verify again''
                 else Fixed ''complete the evidence and verify again'')\<rparr>"

definition recommend :: "report_view \<Rightarrow> int \<Rightarrow> int \<Rightarrow> release_recommendation" where
  "recommend report failed excluded =
     (if \<not> rv_final report then RR_PENDING
      else if failed \<noteq> 0 then RR_NOT_RECOMMENDED
      else if excluded \<noteq> 0 then RR_NEEDS_VALIDATION
      else if rv_aiAccepted report then RR_RECOMMENDED
      else if rv_verdict report = AV_PASSED \<and> rv_scope report \<noteq> REQUIREMENT_SCOPE
        then RR_SCOPED_ONLY
      else RR_NEEDS_VALIDATION)"

definition explain ::
  "report_view \<Rightarrow> release_recommendation \<Rightarrow> int \<Rightarrow> int \<Rightarrow> int \<Rightarrow> int \<Rightarrow> int \<Rightarrow> int
   \<Rightarrow> assessment_reason" where
  "explain report recommendation passed failed unknown pending tot excluded =
     (if recommendation = RR_PENDING then StillRunning
      else if recommendation = RR_NOT_RECOMMENDED then ConfirmedFailures failed
      else if recommendation = RR_RECOMMENDED then AllProven
      else if recommendation = RR_SCOPED_ONLY then ScopePassed
      else if excluded \<noteq> 0 then BlockedByEnvironment excluded
      else if tot = 0 then NothingToScore
      else if unknown \<noteq> 0 \<or> pending \<noteq> 0 then PartlyProven passed tot (unknown + pending)
      else if \<not> rv_coverageComplete report then CoverageGap
      else ResultsDisagree)"

definition assessAcceptance :: "report_view \<Rightarrow> acceptance_assessment" where
  "assessAcceptance report =
     (let criteria = scored_criteria (rv_cases report);
          passed = count_verdict AV_PASSED criteria;
          failed = count_verdict AV_FAILED criteria;
          unknown = count_verdict AV_INCONCLUSIVE criteria;
          pending = count_verdict AV_PENDING criteria;
          tot = int (length criteria);
          exclusions = List.concat (map case_exclusions (rv_cases report));
          excluded = int (length (filter ax_required exclusions));
          recommendation = recommend report failed excluded
      in \<lparr>as_score = (if tot \<noteq> 0 \<and> passed + failed > 0
                      then Some (passed * 100 div tot) else None),
          as_passed = passed, as_failed = failed, as_unknown = unknown, as_pending = pending,
          as_total = tot, as_excluded = excluded, as_exclusions = exclusions,
          as_recommendation = recommendation,
          as_reason = explain report recommendation passed failed unknown pending tot excluded,
          as_findings = List.concat (map (\<lambda>c.
            map (finding_of (rv_requirements report) c) (filter (is_finding c) (ak_criteria c)))
            (rv_cases report))\<rparr>)"

section \<open>Lemmas\<close>

interpretation criterion_verdicts:
  classifier ac_verdict "[AV_PASSED, AV_FAILED, AV_INCONCLUSIVE, AV_PENDING]"
proof
  show "ac_verdict k \<in> set [AV_PASSED, AV_FAILED, AV_INCONCLUSIVE, AV_PENDING]" for k
    by (cases "ac_verdict k") simp_all
qed simp

lemma count_verdict_nonneg [simp]: "0 \<le> count_verdict v ks"
  by (simp add: count_verdict_def)

lemma count_verdict_sum:
  "count_verdict AV_PASSED ks + count_verdict AV_FAILED ks + count_verdict AV_INCONCLUSIVE ks
     + count_verdict AV_PENDING ks = int (length ks)"
  using criterion_verdicts.count_classes [of ks] by (simp add: class_sum_filter count_verdict_def)

lemma count_verdict_0: "count_verdict v ks = 0 \<longleftrightarrow> (\<forall>k \<in> set ks. ac_verdict k \<noteq> v)"
  by (simp add: count_verdict_def filter_empty_conv)

lemma count_verdict_all: "count_verdict v ks = int (length ks) \<longleftrightarrow> (\<forall>k \<in> set ks. ac_verdict k = v)"
proof (induction ks)
  case (Cons k ks)
  have "int (length (filter (\<lambda>k. ac_verdict k = v) ks)) \<noteq> 1 + int (length ks)"
    using length_filter_le [of "\<lambda>k. ac_verdict k = v" ks] by linarith
  with Cons show ?case by (auto simp: count_verdict_def)
qed (simp add: count_verdict_def)

lemma set_scored: "k \<in> set (scored_criteria cases) \<longleftrightarrow>
   ac_required k \<and> (\<exists>c \<in> set cases. k \<in> set (ak_criteria c) \<and> criterionScoringExclusion c k = None)"
  by (auto simp: scored_criteria_def)

lemma exclusion_inconclusive:
  "criterionScoringExclusion c k = Some i \<Longrightarrow> ac_verdict k = AV_INCONCLUSIVE
     \<and> ak_lifecycle c \<in> {''COMPLETED'', ''TIMED_OUT'', ''CANCELLED''}
     \<and> ac_recordedVerdict k \<noteq> Some ''PASSED'' \<and> ac_recordedVerdict k \<noteq> Some ''FAILED''
     \<and> isAcceptanceEnvironmentBlocker i \<and> (i \<in> set (ac_issues k) \<or>
          (\<not> truthy (ac_recordedVerdict k) \<and> i \<in> set (ak_issues c)))"
  by (auto simp: criterionScoringExclusion_def find_Some_iff split: if_splits option.splits)

lemma case_exclusions_length:
  "length (filter (\<lambda>k. criterionScoringExclusion c k = None \<and> ac_required k) ks)
     + length (filter ax_required (List.concat (map (\<lambda>k. case criterionScoringExclusion c k of
         Some blocker \<Rightarrow> [exclusion_of c k blocker] | None \<Rightarrow> []) ks)))
   = length (filter ac_required ks)"
  by (induction ks) (auto simp: exclusion_of_def split: option.splits)

lemma scored_and_excluded:
  "length (scored_criteria cases) + length (filter ax_required (List.concat (map case_exclusions cases)))
     = length (filter ac_required (List.concat (map ak_criteria cases)))"
proof (induction cases)
  case (Cons c cases)
  from Cons case_exclusions_length [of c "ak_criteria c"] show ?case
    by (simp add: scored_criteria_def case_exclusions_def conj_commute)
qed (simp add: scored_criteria_def)

lemma excluded_count_0:
  "length (filter ax_required (List.concat (map case_exclusions cases))) = 0 \<longleftrightarrow>
     (\<forall>c \<in> set cases. \<forall>k \<in> set (ak_criteria c). ac_required k \<longrightarrow> criterionScoringExclusion c k = None)"
  by (force simp: filter_empty_conv case_exclusions_def exclusion_of_def split: option.splits)

lemma score_bounds:
  fixes p t :: int
  assumes "0 \<le> p" "p \<le> t" "0 < t"
  shows "0 \<le> p * 100 div t" "p * 100 div t \<le> 100" "p * 100 div t = 100 \<longleftrightarrow> p = t"
proof -
  show "0 \<le> p * 100 div t" using assms by (simp add: pos_imp_zdiv_nonneg_iff)
  have "p * 100 div t \<le> t * 100 div t" by (rule zdiv_mono1) (use assms in auto)
  then show "p * 100 div t \<le> 100" using assms by simp
  have "t * (p * 100 div t) \<le> p * 100"
    using assms by (metis mult_div_mod_eq pos_mod_sign le_add_same_cancel1)
  then show "p * 100 div t = 100 \<longleftrightarrow> p = t" using assms by auto
qed

section \<open>Properties\<close>

text \<open>Every required criterion is counted once: it is scored as passed, failed, unknown or
  pending, or it is excluded. What is excluded is inconclusive, on an ended case, has no recorded
  pass or failure, and is blocked by an explicit environment issue of its own or of its case.\<close>

theorem assessment_counts:
  "let a = assessAcceptance report in
     as_passed a + as_failed a + as_unknown a + as_pending a = as_total a
     \<and> as_total a + as_excluded a
         = int (length (filter ac_required (List.concat (map ak_criteria (rv_cases report)))))
     \<and> list_all (\<lambda>c. list_all (\<lambda>k. case criterionScoringExclusion c k of None \<Rightarrow> True
          | Some i \<Rightarrow> ac_verdict k = AV_INCONCLUSIVE \<and> isAcceptanceEnvironmentBlocker i
              \<and> ac_recordedVerdict k \<notin> {Some ''PASSED'', Some ''FAILED''}
              \<and> ak_lifecycle c \<in> {''COMPLETED'', ''TIMED_OUT'', ''CANCELLED''}
              \<and> i \<in> set (ac_issues k) \<union> set (ak_issues c)) (ak_criteria c)) (rv_cases report)"
  using scored_and_excluded [of "rv_cases report"]
  by (auto simp: assessAcceptance_def Let_def count_verdict_sum list_all_iff
      dest: exclusion_inconclusive split: option.split)

text \<open>The score is given exactly when some scored criterion is decided; it lies between 0 and
  100, and it is 100 only for the perfect result, every scored criterion passed: partial evidence
  is never rounded up.\<close>

theorem assessment_score:
  "let a = assessAcceptance report; ks = scored_criteria (rv_cases report) in
     (case as_score a of
        None \<Rightarrow> list_all (\<lambda>k. ac_verdict k \<noteq> AV_PASSED \<and> ac_verdict k \<noteq> AV_FAILED) ks
      | Some n \<Rightarrow> ks \<noteq> [] \<and> 0 \<le> n \<and> n \<le> 100
          \<and> (n = 100 \<longleftrightarrow> list_all (\<lambda>k. ac_verdict k = AV_PASSED) ks))"
proof -
  let ?ks = "scored_criteria (rv_cases report)"
  let ?p = "count_verdict AV_PASSED ?ks" and ?f = "count_verdict AV_FAILED ?ks"
  have le: "?p \<le> int (length ?ks)" by (simp add: count_verdict_def)
  have none: "?p + ?f \<le> 0 \<longleftrightarrow>
      list_all (\<lambda>k. ac_verdict k \<noteq> AV_PASSED \<and> ac_verdict k \<noteq> AV_FAILED) ?ks"
  proof -
    have "?p + ?f \<le> 0 \<longleftrightarrow> ?p = 0 \<and> ?f = 0"
      using count_verdict_nonneg [of AV_PASSED ?ks] count_verdict_nonneg [of AV_FAILED ?ks] by linarith
    then show ?thesis unfolding count_verdict_0 list_all_iff by blast
  qed
  show ?thesis
  proof (cases "?ks \<noteq> [] \<and> 0 < ?p + ?f")
    case True
    have "?p * 100 div int (length ?ks) = 100 \<longleftrightarrow> list_all (\<lambda>k. ac_verdict k = AV_PASSED) ?ks"
      using score_bounds(3) [OF count_verdict_nonneg le] True count_verdict_all [of AV_PASSED ?ks]
      by (auto simp: list_all_iff)
    then show ?thesis
      using True score_bounds(1,2) [OF count_verdict_nonneg le] by (simp add: assessAcceptance_def Let_def)
  next
    case False
    then show ?thesis using none by (auto simp: assessAcceptance_def Let_def)
  qed
qed

text \<open>The recommendation. A release is recommended exactly when the report is final, accepts
  the requirement, no required criterion failed and none was excluded; it is advised against
  exactly when the final report has a failed required criterion; it stays pending exactly while
  the report is not final; and an excluded required criterion never leaves a final report better
  than in need of validation.\<close>

theorem assessment_recommendation:
  "let a = assessAcceptance report; failing = list_ex (\<lambda>k. ac_verdict k = AV_FAILED)
         (scored_criteria (rv_cases report)) in
     (as_recommendation a = RR_RECOMMENDED \<longleftrightarrow>
        rv_final report \<and> rv_aiAccepted report \<and> \<not> failing \<and> as_excluded a = 0)
     \<and> (as_recommendation a = RR_NOT_RECOMMENDED \<longleftrightarrow> rv_final report \<and> failing)
     \<and> (as_recommendation a = RR_PENDING \<longleftrightarrow> \<not> rv_final report)
     \<and> as_recommendation a \<in> (if rv_final report \<and> as_excluded a \<noteq> 0
          then {RR_NEEDS_VALIDATION, RR_NOT_RECOMMENDED} else UNIV)
     \<and> (as_recommendation a = RR_RECOMMENDED \<longleftrightarrow> as_reason a = AllProven)
     \<and> (as_recommendation a = RR_PENDING \<longleftrightarrow> as_reason a = StillRunning)"
  using count_verdict_0 [of AV_FAILED "scored_criteria (rv_cases report)"]
  by (auto simp: assessAcceptance_def Let_def recommend_def explain_def list_ex_iff)

text \<open>The findings are the failed criteria, as product findings, and the inconclusive ones
  that stay in the score, as validation gaps, in the order of the report; nothing that is
  excluded is a finding, and nothing that passed or is pending.\<close>

theorem assessment_findings:
  "map (\<lambda>f. (fd_caseId f, fd_criterionId f, fd_kind f)) (as_findings (assessAcceptance report))
     = List.concat (map (\<lambda>c. List.concat (map (\<lambda>k.
         if ac_verdict k = AV_FAILED then [(ak_caseId c, ac_id k, FK_PRODUCT)]
         else if ac_verdict k = AV_INCONCLUSIVE \<and> criterionScoringExclusion c k = None
         then [(ak_caseId c, ac_id k, FK_VALIDATION_GAP)] else []) (ak_criteria c))) (rv_cases report))"
proof -
  have "map (\<lambda>f. (fd_caseId f, fd_criterionId f, fd_kind f))
        (map (finding_of rqs c) (filter (is_finding c) ks))
      = List.concat (map (\<lambda>k.
         if ac_verdict k = AV_FAILED then [(ak_caseId c, ac_id k, FK_PRODUCT)]
         else if ac_verdict k = AV_INCONCLUSIVE \<and> criterionScoringExclusion c k = None
         then [(ak_caseId c, ac_id k, FK_VALIDATION_GAP)] else []) ks)" for rqs c ks
  proof (induction ks)
    case (Cons k ks)
    have "ac_verdict k = AV_FAILED \<Longrightarrow> criterionScoringExclusion c k = None"
      by (simp add: criterionScoringExclusion_def)
    with Cons show ?case by (auto simp: is_finding_def finding_of_def)
  qed simp
  then show ?thesis
    by (simp add: assessAcceptance_def Let_def map_concat comp_def)
qed

end
