(* ===== verification/AcceptanceReport.thy ===== *)
theory AcceptanceReport
  imports Acceptance
begin

text \<open>
  The acceptance report of a task, \<open>apps/api/src/task-executions/task-acceptance-report.ts\<close>, with
  the projection of an old run's cleanup (\<open>apps/api/src/execution-runs/execution-cleanup.ts\<close>):
  one criterion against the evidence of the current attempt (\<open>criterionReport\<close>), a case
  (\<open>caseReport\<close>), and the task (\<open>buildTaskAcceptanceReport\<close>), assessed by theory Acceptance.

  Rows of the database are records with the columns the code reads; a JSON column is a \<open>js\<close>.
  \<open>redactText\<close>, a chain of regular expressions, is the parameter \<open>redact\<close>, and the schema check
  of a stored rerun source the parameter \<open>rerun_ok\<close>; every theorem holds for all of them. The
  timestamp and the hash the report ends with are left out. The literal name of the only
  deployment of a direct task is \<open>designated_environment\<close>.
\<close>

section \<open>Rows\<close>

record run_attempt =
  at_id :: string
  at_number :: int
  at_error :: js

record run_task =
  rt_attemptId :: string
  rt_error :: js
  rt_recoveryStatus :: "string option"
  rt_result :: js

record criterion_result =
  crr_attemptId :: string
  crr_criterionId :: string
  crr_status :: string
  crr_summary :: string
  crr_evidenceRefs :: "string list"
  crr_blockingReason :: "string option"

record stored_evidence =
  se_id :: string
  se_externalId :: string
  se_kind :: string
  se_attemptId :: string
  se_runtimeArtifactId :: "string option"

record report_run =
  rn_id :: string
  rn_goal :: string
  rn_lifecycle :: string
  rn_executionDisposition :: "string option"
  rn_verdict :: js
  rn_currentAttemptNumber :: int
  rn_criteriaSnapshot :: js
  rn_environmentSnapshot :: js
  rn_attempts :: "run_attempt list"
  rn_tasks :: "run_task list"
  rn_criterionResults :: "criterion_result list"
  rn_evidences :: "stored_evidence list"

record case_input =
  ci_caseId :: string
  ci_name :: string
  ci_deployment :: string
  ci_targetUrl :: "string option"
  ci_executionOrdinal :: int
  ci_run :: "report_run option"
  ci_definition :: js
  ci_dispatchError :: js

record spec_case =
  sc_id :: string
  sc_name :: string
  sc_definition :: js

record spec_snapshot =
  sn_id :: string
  sn_sourceHash :: string
  sn_primaryPullRequestUrl :: "string option"
  sn_context :: js
  sn_diagnostics :: js
  sn_completeness :: string
  sn_cases :: "spec_case list"

record report_deployment =
  dp_id :: string
  dp_name :: string
  dp_targetUrl :: "string option"

record case_execution_row =
  cx_caseId :: string
  cx_deploymentId :: string
  cx_executionOrdinal :: int
  cx_run :: "report_run option"
  cx_dispatchLastError :: js

record stage_row =
  sg_type :: string
  sg_status :: string
  sg_lastError :: js

record task_row =
  tr_id :: string
  tr_title :: string
  tr_kind :: string
  tr_sourceRef :: "string option"
  tr_lifecycle :: string
  tr_environmentSnapshot :: js
  tr_sourceSnapshotComplete :: bool
  tr_specificationSnapshots :: "spec_snapshot list"
  tr_deployments :: "report_deployment list"
  tr_caseExecutions :: "case_execution_row list"
  tr_executionRuns :: "report_run list"
  tr_stages :: "stage_row list"

section \<open>Text\<close>

text \<open>\<open>text\<close>: a string is redacted, anything else is the empty string. The empty message is the
  falsy one; \<open>a || b\<close> on messages is \<open>or_message\<close>, and \<open>filter(Boolean).join\<close> is
  \<open>join_messages\<close>.\<close>

definition js_text :: "(string \<Rightarrow> string) \<Rightarrow> js \<Rightarrow> string" where
  "js_text redact v = (case v of JStr s \<Rightarrow> redact s | _ \<Rightarrow> [])"

definition or_message :: "string \<Rightarrow> message \<Rightarrow> message" where
  "or_message s d = (if s = [] then d else Given s)"

definition join_messages :: "message list \<Rightarrow> message" where
  "join_messages ms =
     (case filter (\<lambda>m. m \<noteq> Given []) ms of
        [] \<Rightarrow> Given [] | [m] \<Rightarrow> m | m # n # rest \<Rightarrow> Joined (m # n # rest))"

definition report_terminal :: "string \<Rightarrow> bool" where
  "report_terminal s \<longleftrightarrow> s \<in> {''COMPLETED'', ''CANCELLED'', ''TIMED_OUT''}"

definition issue :: "issue_category \<Rightarrow> string \<Rightarrow> message \<Rightarrow> message \<Rightarrow> acceptance_issue" where
  "issue category code msg nextStep =
     \<lparr>is_category = category, is_code = code, is_message = msg, is_nextStep = nextStep\<rparr>"

section \<open>The cleanup of a completed run\<close>

definition executionCleanup :: "(string \<Rightarrow> string) \<Rightarrow> js \<Rightarrow> message option" where
  "executionCleanup redact result =
     (let cleanup = js_prop result ''cleanup'' in
      if \<not> js_is_object result then None
      else if js_prop result ''kind'' \<noteq> JStr ''VERIFICATION_COMPLETED'' then None
      else if js_prop cleanup ''status'' \<noteq> JStr ''BLOCKED'' then None
      else Some (case js_prop cleanup ''note'' of
          JStr note \<Rightarrow> if js_blank note then Fixed ''cleanup not verified'' else Given (redact note)
        | _ \<Rightarrow> Fixed ''cleanup not verified''))"

definition current_attempt :: "report_run \<Rightarrow> run_attempt option" where
  "current_attempt run = List.find (\<lambda>a. at_number a = rn_currentAttemptNumber run) (rn_attempts run)"

definition attempt_task :: "report_run \<Rightarrow> run_task option" where
  "attempt_task run =
     (case current_attempt run of
        None \<Rightarrow> None
      | Some a \<Rightarrow> List.find (\<lambda>t. rt_attemptId t = at_id a) (rn_tasks run))"

text \<open>\<open>String(v)\<close> where it can be one of the verdicts: a string, or an array of one such value.\<close>

fun verdict_string :: "js \<Rightarrow> string option" where
  "verdict_string (JStr s) = Some s"
| "verdict_string (JArr [v]) = verdict_string v"
| "verdict_string _ = None"

definition executionVerification ::
  "(string \<Rightarrow> string) \<Rightarrow> report_run \<Rightarrow> string option \<times> js" where
  "executionVerification redact run =
     (let current = (rn_executionDisposition run, rn_verdict run) in
      if rn_lifecycle run \<noteq> ''COMPLETED'' \<or> rn_executionDisposition run \<noteq> Some ''BLOCKED''
         \<or> rn_verdict run \<noteq> JNull then current
      else case (current_attempt run, attempt_task run) of
        (Some attempt, Some task) \<Rightarrow>
          if js_truthy (rt_error task) \<or> js_truthy (at_error attempt)
             \<or> executionCleanup redact (rt_result task) = None then current
          else if js_truthy (js_prop (rt_result task) ''termination'')
             \<or> js_prop (rt_result task) ''executionDisposition'' \<noteq> JStr ''EXECUTED''
             \<or> verdict_string (js_prop (rt_result task) ''verdict'')
                 \<notin> {Some ''PASSED'', Some ''FAILED'', Some ''INCONCLUSIVE''} then current
          else (Some ''EXECUTED'', js_prop (rt_result task) ''verdict'')
      | _ \<Rightarrow> current)"

section \<open>The issue of a run that did not execute\<close>

definition environment_message :: "string \<Rightarrow> message option" where
  "environment_message code =
     (if code = ''RUNTIME_LEASE_LOST'' then Some (Fixed ''runtime lease lost'')
      else if code = ''WRITE_OUTCOME_UNKNOWN'' then Some (Fixed ''write outcome unknown'')
      else None)"

definition is_prerequisite :: "string \<Rightarrow> bool" where
  "is_prerequisite code \<longleftrightarrow> list_ex (starts_with code)
     [''TEST_ACCOUNT'', ''AUTH_'', ''PROFILE_'', ''DEPLOYMENT_'', ''DATA_PRECONDITION'', ''ENVIRONMENT_'']"

definition write_recovery_resolved :: "report_run option \<Rightarrow> js \<Rightarrow> bool" where
  "write_recovery_resolved run storedFailure \<longleftrightarrow>
     js_prop storedFailure ''code'' = JStr ''WRITE_OUTCOME_UNKNOWN''
     \<and> (\<exists>r \<in> set_option run. list_ex (\<lambda>t.
          Some (rt_attemptId t) = map_option at_id (current_attempt r)
          \<and> rt_recoveryStatus t = Some ''RESOLVED'') (rn_tasks r))"

text \<open>The failure reported: its code, its message and the original error it carries.\<close>

definition reported_failure ::
  "(string \<Rightarrow> string) \<Rightarrow> bool \<Rightarrow> js \<Rightarrow> string \<times> message \<times> js" where
  "reported_failure redact recoveryResolved storedFailure =
     (let original_of = (\<lambda>f. js_obj (js_prop (js_obj (js_prop f ''details'')) ''originalError''));
          originalFailure = original_of storedFailure;
          view = (\<lambda>f. (js_text redact (js_prop f ''code''),
                        Given (js_text redact (js_prop f ''message'')), original_of f)) in
      if recoveryResolved
      then (if js_string (js_prop originalFailure ''code'') \<noteq> None then view originalFailure
            else (redact ''RUNTIME_EXECUTION_INTERRUPTED'',
                  Fixed ''interrupted, writes verified'', JObj []))
      else view storedFailure)"

definition executionIssue ::
  "(string \<Rightarrow> string) \<Rightarrow> report_run option \<Rightarrow> string \<Rightarrow> js \<Rightarrow> acceptance_issue option" where
  "executionIssue redact run lifecycle error =
     (let storedFailure = js_obj error;
          recoveryResolved = write_recovery_resolved run storedFailure;
          (code, failureMessage, original) = reported_failure redact recoveryResolved storedFailure;
          originalCode = js_text redact (js_prop original ''code'');
          msg = join_messages
            [coalesce (environment_message code) failureMessage,
             if originalCode = [] then Given []
             else Labelled originalCode (Given (js_text redact (js_prop original ''message'')))];
          or_msg = (\<lambda>d. if msg = Given [] then d else msg);
          disposition = Option.bind run rn_executionDisposition in
      if lifecycle = ''CANCELLED''
      then Some (issue IC_CANCELLED ''CANCELLED'' (Fixed ''cancelled'') (Fixed ''rerun what is left''))
      else if lifecycle = ''TIMED_OUT''
      then Some (issue IC_TIMEOUT (str_or code ''TIMEOUT'') (or_msg (Fixed ''timed out''))
                  (Fixed ''check slow steps''))
      else if disposition \<noteq> Some ''EXECUTED''
      then Some (issue (if is_prerequisite code then IC_PRECONDITION else IC_EXECUTION)
                  (str_or code (str_or (coalesce disposition []) ''NOT_RUN''))
                  (or_msg (Fixed ''execution incomplete''))
                  (if is_prerequisite code then Fixed ''complete the preconditions''
                   else if recoveryResolved then Fixed ''handle the original error''
                   else Fixed ''inspect the execution''))
      else None)"

section \<open>One criterion\<close>

definition criterion_result_of :: "report_run option \<Rightarrow> string \<Rightarrow> criterion_result option" where
  "criterion_result_of run cid =
     (case run of
        None \<Rightarrow> None
      | Some r \<Rightarrow>
          (case current_attempt r of
             None \<Rightarrow> None
           | Some a \<Rightarrow> List.find (\<lambda>c. crr_attemptId c = at_id a \<and> crr_criterionId c = cid)
                        (rn_criterionResults r)))"

definition download_path :: "string \<Rightarrow> stored_evidence \<Rightarrow> string option" where
  "download_path run e =
     (if truthy (se_runtimeArtifactId e)
      then Some (''/console/api/runs/'' @ run @ ''/evidences/'' @ se_id e @ ''/download'') else None)"

definition criterion_evidence ::
  "report_run option \<Rightarrow> criterion_result option \<Rightarrow> acceptance_evidence list" where
  "criterion_evidence run result =
     (case (run, result) of
        (Some r, Some res) \<Rightarrow>
          map (\<lambda>e. \<lparr>ae_id = se_id e, ae_ref = se_externalId e, ae_kind = se_kind e,
                    ae_downloadPath = download_path (rn_id r) e\<rparr>)
            (filter (\<lambda>e. Some (se_attemptId e) = map_option at_id (current_attempt r)
                       \<and> se_externalId e \<in> set (crr_evidenceRefs res)) (rn_evidences r))
      | _ \<Rightarrow> [])"

definition refs_resolved :: "criterion_result \<Rightarrow> acceptance_evidence list \<Rightarrow> bool" where
  "refs_resolved res evidence \<longleftrightarrow>
     list_all (\<lambda>ref. list_ex (\<lambda>e. ae_ref e = ref) evidence) (crr_evidenceRefs res)"

definition has_proof :: "criterion_result option \<Rightarrow> string list \<Rightarrow> acceptance_evidence list \<Rightarrow> bool" where
  "has_proof result requiredKinds evidence \<longleftrightarrow>
     (case result of
        None \<Rightarrow> False
      | Some res \<Rightarrow> crr_evidenceRefs res \<noteq> [] \<and> refs_resolved res evidence
          \<and> list_all (\<lambda>kind. list_ex (\<lambda>e. ae_kind e = kind) evidence) requiredKinds)"

fun verdict_of_status :: "string \<Rightarrow> acceptance_verdict" where
  "verdict_of_status s = (if s = ''PASSED'' then AV_PASSED
     else if s = ''FAILED'' then AV_FAILED else AV_INCONCLUSIVE)"

definition criterion_verdict ::
  "criterion_result option \<Rightarrow> bool \<Rightarrow> bool \<Rightarrow> acceptance_verdict" where
  "criterion_verdict result hasProof final =
     (if map_option crr_status result \<in> {Some ''PASSED'', Some ''FAILED''} \<and> hasProof
      then verdict_of_status (crr_status (the result))
      else if result \<noteq> None \<or> final then AV_INCONCLUSIVE
      else AV_PENDING)"

definition criterionReport ::
  "(string \<Rightarrow> string) \<Rightarrow> js \<Rightarrow> report_run option \<Rightarrow> bool \<Rightarrow> acceptance_criterion" where
  "criterionReport redact def run final =
     (let cid = js_text redact (js_prop def ''id'');
          result = criterion_result_of run cid;
          status = map_option crr_status result;
          summary = (case result of None \<Rightarrow> [] | Some res \<Rightarrow> redact (crr_summary res));
          evidence = criterion_evidence run result;
          hasProof = has_proof result (js_strings (js_prop def ''requiredEvidenceKinds'')) evidence;
          verdict = criterion_verdict result hasProof final;
          decided = status \<in> {Some ''PASSED'', Some ''FAILED''} \<and> hasProof;
          requirementId = js_text redact (js_prop def ''requirementId'');
          blocking = (case result of None \<Rightarrow> None | Some res \<Rightarrow> crr_blockingReason res)
      in \<lparr>ac_id = cid,
          ac_requirementId = (if requirementId = [] then None else Some requirementId),
          ac_description = str_or (js_text redact (js_prop def ''description'')) cid,
          ac_required = (js_prop def ''required'' \<noteq> JBool False),
          ac_verdict = verdict,
          ac_recordedVerdict = status,
          ac_summary = or_message summary (Fixed ''no verdict yet''),
          ac_evidence = evidence,
          ac_issues =
            (if \<not> decided \<and> (result \<noteq> None \<or> final)
             then [issue (if status = Some ''INCONCLUSIVE'' then IC_UNDETERMINED else IC_EVIDENCE)
                     (if status = Some ''INCONCLUSIVE'' then ''INCONCLUSIVE'' else ''EVIDENCE_INCOMPLETE'')
                     (or_message summary (Fixed ''no complete verdict and evidence''))
                     (Fixed ''complete preconditions or evidence'')] else [])
            @ (if verdict = AV_FAILED
               then [issue IC_PRODUCT ''CRITERION_FAILED''
                       (or_message summary (Fixed ''behaviour does not meet the criterion''))
                       (Fixed ''fix the product'')] else [])
            @ (if verdict = AV_INCONCLUSIVE \<and> status = Some ''INCONCLUSIVE''
                  \<and> coalesce blocking [] \<in> {''DATA_PRECONDITION'', ''ENVIRONMENT_UNAVAILABLE''}
                  \<and> evidence \<noteq> [] \<and> refs_resolved (the result) evidence
               then [issue IC_PRECONDITION (the blocking) (Given summary)
                       (Fixed ''prepare test data, permissions or environment'')] else [])\<rparr>)"

section \<open>One case\<close>

definition aggregate :: "acceptance_verdict list \<Rightarrow> bool \<Rightarrow> acceptance_verdict" where
  "aggregate verdicts final =
     (if AV_FAILED \<in> set verdicts then AV_FAILED
      else if \<not> final then AV_PENDING
      else if verdicts \<noteq> [] \<and> list_all (\<lambda>v. v = AV_PASSED) verdicts then AV_PASSED
      else AV_INCONCLUSIVE)"

text \<open>The criteria of a case: those of the run's own snapshot, each with the requirement the
  definition declares for it, then the declared ones the snapshot lacks.\<close>

definition snapshot_criterion :: "js list \<Rightarrow> js \<Rightarrow> js" where
  "snapshot_criterion declared d =
     js_with d ''requirementId''
       (case List.find (\<lambda>k. js_strict_eq (js_prop k ''id'') (js_prop d ''id'')) declared of
          None \<Rightarrow> JUndefined | Some k \<Rightarrow> js_prop k ''requirementId'')"

definition add_declared :: "js list \<Rightarrow> js \<Rightarrow> js list" where
  "add_declared definitions k =
     (if list_ex (\<lambda>d. js_strict_eq (js_prop d ''id'') (js_prop k ''id'')) definitions then definitions
      else definitions @ [k])"

definition case_definitions :: "report_run option \<Rightarrow> js \<Rightarrow> js list" where
  "case_definitions run definition =
     (let declared = js_rows (js_prop (js_obj definition) ''criteria'') in
      case run of
        None \<Rightarrow> declared
      | Some r \<Rightarrow> foldl add_declared
                   (map (snapshot_criterion declared) (js_rows (rn_criteriaSnapshot r))) declared)"

definition verified_run :: "(string \<Rightarrow> string) \<Rightarrow> report_run \<Rightarrow> report_run" where
  "verified_run redact r =
     (let (disposition, verdict) = executionVerification redact r in
      r\<lparr>rn_executionDisposition := disposition, rn_verdict := verdict\<rparr>)"

definition case_errors :: "report_run option \<Rightarrow> js \<Rightarrow> js" where
  "case_errors run dispatchError =
     (let task_error = (case Option.bind run attempt_task of None \<Rightarrow> JUndefined | Some t \<Rightarrow> rt_error t);
          attempt_error = (case Option.bind run current_attempt of
             None \<Rightarrow> JUndefined | Some a \<Rightarrow> at_error a)
      in js_coalesce task_error (js_coalesce attempt_error dispatchError))"

definition run_confirms :: "report_run option \<Rightarrow> string \<Rightarrow> bool" where
  "run_confirms run lifecycle \<longleftrightarrow> Option.bind run rn_executionDisposition = Some ''EXECUTED''
     \<and> map_option rn_verdict run = Some (JStr ''PASSED'') \<and> lifecycle = ''COMPLETED''"

definition caseReport :: "(string \<Rightarrow> string) \<Rightarrow> case_input \<Rightarrow> bool \<Rightarrow> acceptance_case" where
  "caseReport redact ci final =
     (let run = map_option (verified_run redact) (ci_run ci);
          lifecycle = (case run of None \<Rightarrow> if final then ''COMPLETED'' else ''QUEUED''
                                 | Some r \<Rightarrow> rn_lifecycle r);
          ended = (final \<or> report_terminal lifecycle);
          criteria = map (\<lambda>d. criterionReport redact d run ended)
            (case_definitions run (ci_definition ci));
          required = filter ac_required criteria;
          blocker = executionIssue redact run lifecycle (case_errors run (ci_dispatchError ci));
          aggregated = aggregate (map ac_verdict required) ended;
          unconfirmed = (aggregated = AV_PASSED \<and> \<not> run_confirms run lifecycle)
      in \<lparr>ak_cleanup = (case Option.bind run attempt_task of
             None \<Rightarrow> None | Some t \<Rightarrow> executionCleanup redact (rt_result t)),
          ak_caseId = ci_caseId ci, ak_name = ci_name ci, ak_deployment = ci_deployment ci,
          ak_targetUrl = ci_targetUrl ci, ak_runId = map_option rn_id run,
          ak_attemptNumber = map_option rn_currentAttemptNumber run,
          ak_executionOrdinal = ci_executionOrdinal ci, ak_lifecycle = lifecycle,
          ak_executionDisposition = Option.bind run rn_executionDisposition,
          ak_verdict = (if unconfirmed then AV_INCONCLUSIVE else aggregated),
          ak_criteria = criteria,
          ak_issues =
            (if ended then (case blocker of None \<Rightarrow> [] | Some b \<Rightarrow> [b]) else [])
            @ (if required = [] then [issue IC_COVERAGE ''NO_REQUIRED_CRITERIA''
                 (Fixed ''no required criteria'') (Fixed ''add acceptance criteria'')] else [])
            @ (if unconfirmed \<and> blocker = None then [issue IC_EVIDENCE ''VERDICT_NOT_CONFIRMED''
                 (Fixed ''verdict not confirmed'') (Fixed ''check the final result'')] else [])\<rparr>)"

section \<open>The task\<close>

definition isSpecTask :: "string \<Rightarrow> bool" where
  "isSpecTask kind \<longleftrightarrow> kind = ''ISSUE_SPEC'' \<or> kind = ''SPEC_TASK''"

definition designated_environment :: string where
  "designated_environment = ''DESIGNATED_ENVIRONMENT''"

definition caseRerunSource :: "(js \<Rightarrow> bool) \<Rightarrow> js \<Rightarrow> bool" where
  "caseRerunSource rerun_ok environment \<longleftrightarrow>
     rerun_ok (case js_prop environment ''caseRerunSource'' of JUndefined \<Rightarrow> JNull | v \<Rightarrow> v)"

definition report_scope_of :: "(js \<Rightarrow> bool) \<Rightarrow> task_row \<Rightarrow> report_scope" where
  "report_scope_of rerun_ok row =
     (if caseRerunSource rerun_ok (tr_environmentSnapshot row) then CASE_SCOPE
      else if isSpecTask (tr_kind row) then REQUIREMENT_SCOPE else DIRECT_SCOPE)"

definition latest_execution ::
  "task_row \<Rightarrow> spec_case \<Rightarrow> report_deployment \<Rightarrow> case_execution_row option" where
  "latest_execution row testCase deployment =
     (case js_sort (\<lambda>a b. cx_executionOrdinal b \<le> cx_executionOrdinal a)
        (filter (\<lambda>e. cx_caseId e = sc_id testCase \<and> cx_deploymentId e = dp_id deployment)
          (tr_caseExecutions row)) of [] \<Rightarrow> None | e # _ \<Rightarrow> Some e)"

definition spec_case_input :: "task_row \<Rightarrow> spec_case \<Rightarrow> report_deployment \<Rightarrow> case_input" where
  "spec_case_input row testCase deployment =
     (let execution = latest_execution row testCase deployment in
      \<lparr>ci_caseId = sc_id testCase, ci_name = sc_name testCase, ci_deployment = dp_name deployment,
       ci_targetUrl = dp_targetUrl deployment,
       ci_executionOrdinal = coalesce (map_option cx_executionOrdinal execution) 1,
       ci_run = Option.bind execution cx_run, ci_definition = sc_definition testCase,
       ci_dispatchError = coalesce (map_option cx_dispatchLastError execution) JUndefined\<rparr>)"

definition direct_case_input :: "(string \<Rightarrow> string) \<Rightarrow> task_row \<Rightarrow> report_run \<Rightarrow> case_input" where
  "direct_case_input redact row run =
     (let url = js_text redact (js_prop (js_obj (rn_environmentSnapshot run)) ''targetUrl'') in
      \<lparr>ci_caseId = rn_id run,
       ci_name = str_or (takeWhile (\<lambda>c. of_char c \<noteq> (10 :: nat)) (rn_goal run)) (tr_title row),
       ci_deployment = designated_environment,
       ci_targetUrl = (if url = [] then None else Some url),
       ci_executionOrdinal = 1, ci_run = Some run, ci_definition = JObj [],
       ci_dispatchError = JUndefined\<rparr>)"

definition report_snapshot :: "task_row \<Rightarrow> spec_snapshot option" where
  "report_snapshot row = (case tr_specificationSnapshots row of [] \<Rightarrow> None | sn # _ \<Rightarrow> Some sn)"

definition report_case_inputs :: "(string \<Rightarrow> string) \<Rightarrow> task_row \<Rightarrow> case_input list" where
  "report_case_inputs redact row =
     (if isSpecTask (tr_kind row)
      then List.concat (map (\<lambda>testCase. map (spec_case_input row testCase) (tr_deployments row))
             (case report_snapshot row of None \<Rightarrow> [] | Some sn \<Rightarrow> sn_cases sn))
      else map (direct_case_input redact row) (tr_executionRuns row))"

definition same_requirement :: "string option \<Rightarrow> js \<Rightarrow> bool" where
  "same_requirement x v \<longleftrightarrow> (case x of None \<Rightarrow> v = JNull | Some s \<Rightarrow> v = JStr s)"

definition requirementReport ::
  "(string \<Rightarrow> string) \<Rightarrow> acceptance_case list \<Rightarrow> js list \<Rightarrow> bool \<Rightarrow> js \<Rightarrow> acceptance_requirement" where
  "requirementReport redact cases uncovered final req =
     (let matches = List.concat (map (\<lambda>c. map (\<lambda>k. (ak_caseId c, ac_verdict k))
            (filter (\<lambda>k. ac_required k \<and> same_requirement (ac_requirementId k) (js_prop req ''id''))
              (ak_criteria c))) cases);
          missing = List.find (\<lambda>u. js_strict_eq (js_prop u ''requirementId'') (js_prop req ''id'')) uncovered;
          reason = (case missing of None \<Rightarrow> [] | Some u \<Rightarrow> js_text redact (js_prop u ''reason''));
          sourceRef = js_text redact (js_prop req ''sourceRef'')
      in \<lparr>aq_id = js_text redact (js_prop req ''id''),
          aq_description = js_text redact (js_prop req ''description''),
          aq_sourceRef = (if sourceRef = [] then None else Some sourceRef),
          aq_verdict = (if missing \<noteq> None then AV_INCONCLUSIVE else aggregate (map snd matches) final),
          aq_caseIds = js_uniq (map fst matches),
          aq_reason = (if reason \<noteq> [] then Some (Given reason)
                       else if matches \<noteq> [] then None else Some (Fixed ''no linked result''))\<rparr>)"

definition supplemental :: "js \<Rightarrow> bool" where
  "supplemental d \<longleftrightarrow> js_prop d ''code'' = JStr ''GITHUB_CHECKS_UNAVAILABLE''"

definition coverage :: "string \<Rightarrow> string \<Rightarrow> string \<Rightarrow> acceptance_issue" where
  "coverage code msg nextStep = issue IC_COVERAGE code (Fixed msg) (Fixed nextStep)"

definition coverage_issues ::
  "(string \<Rightarrow> string) \<Rightarrow> task_row \<Rightarrow> acceptance_requirement list \<Rightarrow> acceptance_case list
   \<Rightarrow> acceptance_issue list" where
  "coverage_issues redact row requirements cases =
     (let snapshot = report_snapshot row;
          diagnostics = filter (\<lambda>d. js_prop d ''level'' \<noteq> JStr ''INFO'')
            (js_rows (case snapshot of None \<Rightarrow> JUndefined | Some sn \<Rightarrow> sn_diagnostics sn));
          onlySupplementalGaps = (diagnostics \<noteq> [] \<and> list_all supplemental diagnostics);
          complete = (\<exists>sn \<in> set_option snapshot. sn_completeness sn = ''COMPLETE'' \<or> onlySupplementalGaps)
      in (if \<not> complete \<or> \<not> tr_sourceSnapshotComplete row
          then [coverage ''SOURCE_INCOMPLETE'' ''sources incomplete'' ''complete the sources''] else [])
         @ (if requirements = [] then [coverage ''REQUIREMENT_MAPPING_MISSING''
              ''no requirement mapping'' ''analyse the requirements again''] else [])
         @ (if list_ex (\<lambda>r. aq_reason r \<noteq> None) requirements
            then [coverage ''REQUIREMENT_UNCOVERED'' ''uncovered requirements'' ''add the missing cases''] else [])
         @ (if list_ex (\<lambda>c. list_ex (\<lambda>k. ac_required k
                 \<and> \<not> list_ex (\<lambda>r. Some (aq_id r) = ac_requirementId k) requirements) (ak_criteria c)) cases
            then [coverage ''CRITERION_REQUIREMENT_MISSING'' ''criteria without requirement''
                   ''check the mapping''] else [])
         @ map (\<lambda>d. issue (if supplemental d then IC_CONTEXT else IC_COVERAGE)
              (str_or (js_text redact (js_prop d ''code'')) ''SPEC_DIAGNOSTIC'')
              (Given (js_text redact (js_prop d ''message'')))
              (Fixed ''check the analysis sources'')) diagnostics)"

definition legacy_cleanup_projection :: "(string \<Rightarrow> string) \<Rightarrow> task_row \<Rightarrow> bool" where
  "legacy_cleanup_projection redact row \<longleftrightarrow>
     list_ex (\<lambda>run. rn_executionDisposition run = Some ''BLOCKED''
         \<and> fst (executionVerification redact run) = Some ''EXECUTED'')
       (tr_executionRuns row @ List.concat (map (\<lambda>c. case cx_run c of None \<Rightarrow> [] | Some r \<Rightarrow> [r])
          (tr_caseExecutions row)))"

definition executed_cases :: "acceptance_case list \<Rightarrow> bool" where
  "executed_cases cases \<longleftrightarrow> list_all (\<lambda>c. ak_lifecycle c = ''COMPLETED''
     \<and> ak_executionDisposition c = Some ''EXECUTED'') cases"

definition stage_issues ::
  "(string \<Rightarrow> string) \<Rightarrow> task_row \<Rightarrow> acceptance_case list \<Rightarrow> acceptance_issue list" where
  "stage_issues redact row cases =
     List.concat (map (\<lambda>stage.
       if sg_type stage = ''SPEC_EXECUTION'' \<and> \<not> js_truthy (sg_lastError stage)
          \<and> legacy_cleanup_projection redact row \<and> cases \<noteq> [] \<and> executed_cases cases then []
       else (let e = js_obj (sg_lastError stage); msg = js_text redact (js_prop e ''message'') in
         [issue IC_EXECUTION (str_or (js_text redact (js_prop e ''code'')) ''STAGE_FAILED'')
            (if msg = [] then Labelled (sg_type stage) (Fixed ''stage incomplete'') else Given msg)
            (Fixed ''check the task log'')]))
       (filter (\<lambda>s. sg_status s = ''FAILED'') (tr_stages row)))"

definition report_issues ::
  "(string \<Rightarrow> string) \<Rightarrow> (js \<Rightarrow> bool) \<Rightarrow> task_row \<Rightarrow> acceptance_requirement list
   \<Rightarrow> acceptance_case list \<Rightarrow> acceptance_issue list" where
  "report_issues redact rerun_ok row requirements cases =
     (if report_scope_of rerun_ok row = REQUIREMENT_SCOPE
      then coverage_issues redact row requirements cases else [])
     @ (if cases = [] then [coverage ''NO_EXECUTION_SCOPE'' ''no execution scope''
          ''finish the analysis and choose an environment''] else [])
     @ stage_issues redact row cases
     @ (if tr_lifecycle row \<in> {''CANCELLED'', ''TIMED_OUT''}
        then (case executionIssue redact None (tr_lifecycle row) JNull of
                None \<Rightarrow> [] | Some i \<Rightarrow> [i]) else [])"

record verdict_counts =
  vc_total :: int
  vc_PASSED :: int
  vc_FAILED :: int
  vc_INCONCLUSIVE :: int
  vc_PENDING :: int

definition count_verdicts :: "acceptance_verdict list \<Rightarrow> verdict_counts" where
  "count_verdicts values =
     (let n = (\<lambda>v. int (length (filter (\<lambda>x. x = v) values))) in
      \<lparr>vc_total = int (length values), vc_PASSED = n AV_PASSED, vc_FAILED = n AV_FAILED,
       vc_INCONCLUSIVE = n AV_INCONCLUSIVE, vc_PENDING = n AV_PENDING\<rparr>)"

datatype report_summary = NotEnded | ProductFails | RequirementAccepted | SelectionPassed | NotEnough

record acceptance_report =
  rp_taskId :: string
  rp_title :: string
  rp_sourceRef :: "string option"
  rp_scope :: report_scope
  rp_specificationId :: "string option"
  rp_sourceHash :: "string option"
  rp_pullRequestUrl :: "string option"
  rp_lifecycle :: string
  rp_final :: bool
  rp_verdict :: acceptance_verdict
  rp_aiAccepted :: bool
  rp_summary :: report_summary
  rp_coverageComplete :: bool
  rp_caseCounts :: verdict_counts
  rp_criteriaCounts :: verdict_counts
  rp_requiredCriteria :: int
  rp_requirements :: "acceptance_requirement list"
  rp_cases :: "acceptance_case list"
  rp_issues :: "acceptance_issue list"
  rp_assessment :: acceptance_assessment

definition task_verdict ::
  "acceptance_case list \<Rightarrow> acceptance_issue list \<Rightarrow> string \<Rightarrow> acceptance_verdict" where
  "task_verdict cases issues lifecycle =
     (let final = report_terminal lifecycle;
          coverageComplete = (cases \<noteq> [] \<and> \<not> list_ex (\<lambda>i. is_category i = IC_COVERAGE) issues);
          aggregated = aggregate (map ak_verdict cases) final in
      if \<not> final then AV_PENDING
      else if aggregated = AV_PASSED
           \<and> (\<not> coverageComplete \<or> lifecycle \<noteq> ''COMPLETED''
              \<or> list_ex (\<lambda>i. is_category i \<noteq> IC_CONTEXT) issues) then AV_INCONCLUSIVE
      else aggregated)"

definition report_requirements ::
  "(string \<Rightarrow> string) \<Rightarrow> task_row \<Rightarrow> acceptance_case list \<Rightarrow> acceptance_requirement list" where
  "report_requirements redact row cases =
     (let context = (case report_snapshot row of None \<Rightarrow> JUndefined | Some sn \<Rightarrow> sn_context sn);
          specification = js_obj (js_prop (js_obj context) ''specification'') in
      map (requirementReport redact cases (js_rows (js_prop specification ''uncoveredRequirements''))
            (report_terminal (tr_lifecycle row)))
        (js_rows (js_prop specification ''requirements'')))"

definition buildTaskAcceptanceReport ::
  "(string \<Rightarrow> string) \<Rightarrow> (js \<Rightarrow> bool) \<Rightarrow> task_row \<Rightarrow> acceptance_report" where
  "buildTaskAcceptanceReport redact rerun_ok row =
     (let final = report_terminal (tr_lifecycle row);
          snapshot = report_snapshot row;
          scope = report_scope_of rerun_ok row;
          cases = map (\<lambda>ci. caseReport redact ci final) (report_case_inputs redact row);
          requirements = report_requirements redact row cases;
          issues = report_issues redact rerun_ok row requirements cases;
          coverageComplete = (cases \<noteq> [] \<and> \<not> list_ex (\<lambda>i. is_category i = IC_COVERAGE) issues);
          verdict = task_verdict cases issues (tr_lifecycle row);
          aiAccepted = (verdict = AV_PASSED \<and> scope = REQUIREMENT_SCOPE);
          criteria = List.concat (map ak_criteria cases)
      in \<lparr>rp_taskId = tr_id row, rp_title = tr_title row, rp_sourceRef = tr_sourceRef row,
          rp_scope = scope, rp_specificationId = map_option sn_id snapshot,
          rp_sourceHash = map_option sn_sourceHash snapshot,
          rp_pullRequestUrl = Option.bind snapshot sn_primaryPullRequestUrl,
          rp_lifecycle = tr_lifecycle row, rp_final = final, rp_verdict = verdict,
          rp_aiAccepted = aiAccepted,
          rp_summary = (if \<not> final then NotEnded else if verdict = AV_FAILED then ProductFails
                        else if aiAccepted then RequirementAccepted
                        else if verdict = AV_PASSED then SelectionPassed else NotEnough),
          rp_coverageComplete = coverageComplete,
          rp_caseCounts = count_verdicts (map ak_verdict cases),
          rp_criteriaCounts = count_verdicts (map ac_verdict criteria),
          rp_requiredCriteria = int (length (filter ac_required criteria)),
          rp_requirements = requirements, rp_cases = cases, rp_issues = issues,
          rp_assessment = assessAcceptance
            \<lparr>rv_cases = cases, rv_requirements = requirements, rv_final = final,
             rv_verdict = verdict, rv_aiAccepted = aiAccepted, rv_scope = scope,
             rv_coverageComplete = coverageComplete, rv_lifecycle = tr_lifecycle row\<rparr>\<rparr>)"

section \<open>The presentation of a task beside its report\<close>

record task_counts =
  tc_passed :: int
  tc_failed :: int
  tc_inconclusive :: int
  tc_blocked :: int

record task_presentation =
  tv_lifecycle :: string
  tv_executionDisposition :: "string option"
  tv_verdict :: "acceptance_verdict option"
  tv_counts :: task_counts

definition taskVerificationPresentation ::
  "task_presentation \<Rightarrow> acceptance_report option \<Rightarrow> task_presentation \<times> bool" where
  "taskVerificationPresentation task report =
     (let cleanupPending = (\<exists>r \<in> set_option report. list_ex (\<lambda>c. ak_cleanup c \<noteq> None) (rp_cases r)) in
      case report of
        None \<Rightarrow> (task, False)
      | Some r \<Rightarrow>
          (if tv_lifecycle task = ''COMPLETED'' \<and> tv_executionDisposition task = Some ''BLOCKED''
              \<and> cleanupPending \<and> executed_cases (rp_cases r)
           then task\<lparr>tv_executionDisposition := Some ''EXECUTED'', tv_verdict := Some (rp_verdict r),
                  tv_counts := (tv_counts task)\<lparr>tc_passed := vc_PASSED (rp_caseCounts r),
                    tc_failed := vc_FAILED (rp_caseCounts r),
                    tc_inconclusive := vc_INCONCLUSIVE (rp_caseCounts r), tc_blocked := 0\<rparr>\<rparr>
           else task, cleanupPending))"

section \<open>Lemmas\<close>

lemma aggregate_iff:
  "aggregate vs final = AV_FAILED \<longleftrightarrow> AV_FAILED \<in> set vs"
  "aggregate vs final = AV_PASSED \<longleftrightarrow> final \<and> vs \<noteq> [] \<and> (\<forall>v \<in> set vs. v = AV_PASSED)"
  "aggregate vs final = AV_PENDING \<longleftrightarrow> AV_FAILED \<notin> set vs \<and> \<not> final"
  by (auto simp: aggregate_def list_all_iff)

text \<open>What it takes to prove a criterion: the current attempt recorded the status, with evidence,
  and every reference and every required kind is stored evidence of that attempt.\<close>

definition proven :: "report_run \<Rightarrow> string \<Rightarrow> string list \<Rightarrow> string \<Rightarrow> bool" where
  "proven run cid kinds status \<longleftrightarrow> (\<exists>a res. current_attempt run = Some a
     \<and> criterion_result_of (Some run) cid = Some res
     \<and> crr_attemptId res = at_id a \<and> crr_criterionId res = cid \<and> crr_status res = status
     \<and> crr_evidenceRefs res \<noteq> []
     \<and> (\<forall>ref \<in> set (crr_evidenceRefs res). \<exists>e \<in> set (rn_evidences run).
          se_attemptId e = at_id a \<and> se_externalId e = ref)
     \<and> (\<forall>kind \<in> set kinds. \<exists>e \<in> set (rn_evidences run).
          se_attemptId e = at_id a \<and> se_externalId e \<in> set (crr_evidenceRefs res) \<and> se_kind e = kind))"

lemma criterion_result_ofD:
  "criterion_result_of (Some run) cid = Some res \<Longrightarrow>
     \<exists>a. current_attempt run = Some a \<and> crr_attemptId res = at_id a \<and> crr_criterionId res = cid
       \<and> res \<in> set (rn_criterionResults run)"
  by (auto simp: criterion_result_of_def find_Some_iff split: option.splits)

lemma has_proof_iff:
  assumes "current_attempt run = Some a"
  shows "has_proof (Some res) kinds (criterion_evidence (Some run) (Some res)) \<longleftrightarrow>
     crr_evidenceRefs res \<noteq> []
     \<and> (\<forall>ref \<in> set (crr_evidenceRefs res). \<exists>e \<in> set (rn_evidences run).
          se_attemptId e = at_id a \<and> se_externalId e = ref)
     \<and> (\<forall>kind \<in> set kinds. \<exists>e \<in> set (rn_evidences run).
          se_attemptId e = at_id a \<and> se_externalId e \<in> set (crr_evidenceRefs res) \<and> se_kind e = kind)"
proof -
  have "list_ex (\<lambda>e. ae_ref e = ref) (criterion_evidence (Some run) (Some res))
      \<longleftrightarrow> (\<exists>e \<in> set (rn_evidences run). se_attemptId e = at_id a \<and> se_externalId e = ref)"
    if "ref \<in> set (crr_evidenceRefs res)" for ref
    using that by (fastforce simp: criterion_evidence_def list_ex_iff assms)
  then have refs: "refs_resolved res (criterion_evidence (Some run) (Some res)) \<longleftrightarrow>
      (\<forall>ref \<in> set (crr_evidenceRefs res). \<exists>e \<in> set (rn_evidences run).
          se_attemptId e = at_id a \<and> se_externalId e = ref)"
    unfolding refs_resolved_def list_all_iff by (rule ball_cong [OF refl])
  have kinds: "list_all (\<lambda>kind. list_ex (\<lambda>e. ae_kind e = kind) (criterion_evidence (Some run) (Some res))) kinds
      \<longleftrightarrow> (\<forall>kind \<in> set kinds. \<exists>e \<in> set (rn_evidences run).
          se_attemptId e = at_id a \<and> se_externalId e \<in> set (crr_evidenceRefs res) \<and> se_kind e = kind)"
    by (fastforce simp: criterion_evidence_def list_all_iff list_ex_iff assms)
  show ?thesis unfolding has_proof_def option.case refs kinds ..
qed

lemma proven_iff:
  "proven run cid kinds status \<longleftrightarrow> (\<exists>res. criterion_result_of (Some run) cid = Some res
     \<and> crr_status res = status \<and> has_proof (Some res) kinds (criterion_evidence (Some run) (Some res)))"
    (is "?l \<longleftrightarrow> ?r")
proof
  show "?l \<Longrightarrow> ?r" by (auto simp: proven_def has_proof_iff)
  assume ?r
  then obtain res where res: "criterion_result_of (Some run) cid = Some res" "crr_status res = status"
    and p: "has_proof (Some res) kinds (criterion_evidence (Some run) (Some res))" by blast
  from criterion_result_ofD [OF res(1)] obtain a where
    a: "current_attempt run = Some a" "crr_attemptId res = at_id a" "crr_criterionId res = cid" by blast
  show ?l unfolding proven_def using res a p [unfolded has_proof_iff [OF a(1)]] by blast
qed

lemma criterion_verdict_decided:
  "criterion_verdict result hasProof final = AV_PASSED \<longleftrightarrow>
     map_option crr_status result = Some ''PASSED'' \<and> hasProof"
  "criterion_verdict result hasProof final = AV_FAILED \<longleftrightarrow>
     map_option crr_status result = Some ''FAILED'' \<and> hasProof"
  "criterion_verdict result hasProof final = AV_PENDING \<longleftrightarrow> result = None \<and> \<not> final"
  by (cases result; simp add: criterion_verdict_def)+

lemma case_report_parts:
  fixes redact ci final
  defines "run \<equiv> map_option (verified_run redact) (ci_run ci)"
  defines "lifecycle \<equiv> (case run of None \<Rightarrow> if final then ''COMPLETED'' else ''QUEUED''
                                | Some r \<Rightarrow> rn_lifecycle r)"
  shows "ak_lifecycle (caseReport redact ci final) = lifecycle"
    "ak_executionDisposition (caseReport redact ci final) = Option.bind run rn_executionDisposition"
    "ak_criteria (caseReport redact ci final) =
       map (\<lambda>d. criterionReport redact d run (final \<or> report_terminal lifecycle))
         (case_definitions run (ci_definition ci))"
    "ak_verdict (caseReport redact ci final) =
       (let aggregated = aggregate (map ac_verdict (filter ac_required (ak_criteria (caseReport redact ci final))))
              (final \<or> report_terminal lifecycle)
        in if aggregated = AV_PASSED \<and> \<not> run_confirms run lifecycle then AV_INCONCLUSIVE else aggregated)"
  by (simp_all add: caseReport_def Let_def run_def lifecycle_def)

lemma failed_required:
  "AV_FAILED \<in> set (map ac_verdict (filter ac_required ks)) \<longleftrightarrow>
     (\<exists>k \<in> set ks. ac_required k \<and> ac_verdict k = AV_FAILED)"
  by (induction ks) auto

lemma case_verdict_passed:
  "ak_verdict (caseReport redact ci final) = AV_PASSED \<longleftrightarrow>
     (\<exists>r \<in> set_option (map_option (verified_run redact) (ci_run ci)).
        rn_lifecycle r = ''COMPLETED'' \<and> rn_executionDisposition r = Some ''EXECUTED''
        \<and> rn_verdict r = JStr ''PASSED'')
     \<and> filter ac_required (ak_criteria (caseReport redact ci final)) \<noteq> []
     \<and> (\<forall>k \<in> set (ak_criteria (caseReport redact ci final)). ac_required k \<longrightarrow> ac_verdict k = AV_PASSED)"
  by (auto simp: case_report_parts(4) Let_def aggregate_iff run_confirms_def report_terminal_def
      split: option.splits)

lemma case_verdict_failed:
  "ak_verdict (caseReport redact ci final) = AV_FAILED \<longleftrightarrow>
     (\<exists>k \<in> set (ak_criteria (caseReport redact ci final)). ac_required k \<and> ac_verdict k = AV_FAILED)"
  unfolding case_report_parts(4) [of redact ci final] Let_def failed_required [symmetric]
    aggregate_iff(1) [symmetric, of _ "final \<or> report_terminal (case map_option (verified_run redact) (ci_run ci) of
       None \<Rightarrow> if final then ''COMPLETED'' else ''QUEUED'' | Some r \<Rightarrow> rn_lifecycle r)"]
  by simp

lemma task_verdict_passed:
  "task_verdict cases issues lifecycle = AV_PASSED \<longleftrightarrow>
     lifecycle = ''COMPLETED'' \<and> cases \<noteq> [] \<and> (\<forall>c \<in> set cases. ak_verdict c = AV_PASSED)
     \<and> (\<forall>i \<in> set issues. is_category i = IC_CONTEXT)"
  by (force simp: task_verdict_def Let_def aggregate_iff report_terminal_def list_ex_iff)

definition required_definition :: "js \<Rightarrow> bool" where
  "required_definition d \<longleftrightarrow> js_prop d ''required'' \<noteq> JBool False"

definition proven_definition :: "(string \<Rightarrow> string) \<Rightarrow> report_run \<Rightarrow> string \<Rightarrow> js \<Rightarrow> bool" where
  "proven_definition redact r status d \<longleftrightarrow>
     proven r (js_text redact (js_prop d ''id'')) (js_strings (js_prop d ''requiredEvidenceKinds'')) status"

lemma criterionReport_decided:
  "ac_verdict (criterionReport redact d (Some r) final) = AV_PASSED \<longleftrightarrow> proven_definition redact r ''PASSED'' d"
  "ac_verdict (criterionReport redact d (Some r) final) = AV_FAILED \<longleftrightarrow> proven_definition redact r ''FAILED'' d"
  "ac_verdict (criterionReport redact d None final) \<noteq> AV_PASSED"
  "ac_verdict (criterionReport redact d None final) \<noteq> AV_FAILED"
  by (auto simp: criterionReport_def Let_def criterion_verdict_decided proven_definition_def proven_iff
      criterion_result_of_def [of None])

lemma criterionReport_required [simp]:
  "ac_required (criterionReport redact d run final) = required_definition d"
  by (simp add: criterionReport_def required_definition_def Let_def)

text \<open>A case that is proven: its run completed, executed and passed, and each of the required
  criteria it has, at least one, is proven by the current attempt.\<close>

definition case_proven :: "(string \<Rightarrow> string) \<Rightarrow> case_input \<Rightarrow> bool" where
  "case_proven redact ci \<longleftrightarrow>
     (case map_option (verified_run redact) (ci_run ci) of
        None \<Rightarrow> False
      | Some r \<Rightarrow> rn_lifecycle r = ''COMPLETED'' \<and> rn_executionDisposition r = Some ''EXECUTED''
          \<and> rn_verdict r = JStr ''PASSED''
          \<and> (let ds = filter required_definition (case_definitions (Some r) (ci_definition ci))
             in ds \<noteq> [] \<and> list_all (proven_definition redact r ''PASSED'') ds))"

lemma case_proven_iff: "ak_verdict (caseReport redact ci final) = AV_PASSED \<longleftrightarrow> case_proven redact ci"
proof (cases "map_option (verified_run redact) (ci_run ci)")
  case None
  then show ?thesis by (simp add: case_verdict_passed case_proven_def)
next
  case (Some r)
  let ?defs = "case_definitions (Some r) (ci_definition ci)"
  have ks: "ak_criteria (caseReport redact ci final)
      = map (\<lambda>d. criterionReport redact d (Some r) (final \<or> report_terminal (rn_lifecycle r))) ?defs"
    by (simp add: case_report_parts(3) Some)
  show ?thesis
    unfolding case_verdict_passed ks
    by (auto simp: case_proven_def Some Let_def list_all_iff filter_map comp_def criterionReport_decided)
qed

lemma report_parts:
  fixes redact rerun_ok row
  defines "r \<equiv> buildTaskAcceptanceReport redact rerun_ok row"
  shows "rp_cases r = map (\<lambda>ci. caseReport redact ci (report_terminal (tr_lifecycle row)))
           (report_case_inputs redact row)"
    "rp_requirements r = report_requirements redact row (rp_cases r)"
    "rp_issues r = report_issues redact rerun_ok row (rp_requirements r) (rp_cases r)"
    "rp_verdict r = task_verdict (rp_cases r) (rp_issues r) (tr_lifecycle row)"
    "rp_scope r = report_scope_of rerun_ok row"
    "rp_aiAccepted r \<longleftrightarrow> rp_verdict r = AV_PASSED \<and> rp_scope r = REQUIREMENT_SCOPE"
    "rp_final r \<longleftrightarrow> report_terminal (tr_lifecycle row)"
    "rp_assessment r = assessAcceptance
       \<lparr>rv_cases = rp_cases r, rv_requirements = rp_requirements r, rv_final = rp_final r,
        rv_verdict = rp_verdict r, rv_aiAccepted = rp_aiAccepted r, rv_scope = rp_scope r,
        rv_coverageComplete = rp_coverageComplete r, rv_lifecycle = tr_lifecycle row\<rparr>"
  by (simp_all add: r_def buildTaskAcceptanceReport_def Let_def)

lemma passed_report:
  assumes "rp_verdict (buildTaskAcceptanceReport redact rerun_ok row) = AV_PASSED"
  shows "tr_lifecycle row = ''COMPLETED''" "rp_cases (buildTaskAcceptanceReport redact rerun_ok row) \<noteq> []"
    "\<forall>c \<in> set (rp_cases (buildTaskAcceptanceReport redact rerun_ok row)).
       filter ac_required (ak_criteria c) \<noteq> []
       \<and> (\<forall>k \<in> set (ak_criteria c). ac_required k \<longrightarrow> ac_verdict k = AV_PASSED)"
    "\<forall>i \<in> set (rp_issues (buildTaskAcceptanceReport redact rerun_ok row)). is_category i = IC_CONTEXT"
  using assms unfolding report_parts(4) task_verdict_passed
  by (auto simp: report_parts(1) case_verdict_passed)

lemma not_excluded: "ac_verdict k = AV_PASSED \<Longrightarrow> criterionScoringExclusion c k = None"
  by (simp add: criterionScoringExclusion_def)

lemma passed_assessment:
  assumes "rv_cases v \<noteq> []"
    and "\<forall>c \<in> set (rv_cases v). filter ac_required (ak_criteria c) \<noteq> []
       \<and> (\<forall>k \<in> set (ak_criteria c). ac_required k \<longrightarrow> ac_verdict k = AV_PASSED)"
  shows "as_failed (assessAcceptance v) = 0" "as_excluded (assessAcceptance v) = 0"
    "as_score (assessAcceptance v) = Some 100"
proof -
  let ?ks = "scored_criteria (rv_cases v)"
  have all: "\<forall>k \<in> set ?ks. ac_verdict k = AV_PASSED"
    using assms(2) by (auto simp: set_scored)
  then have p: "count_verdict AV_PASSED ?ks = int (length ?ks)" "count_verdict AV_FAILED ?ks = 0"
    by (auto simp: count_verdict_all count_verdict_0)
  obtain c where c: "c \<in> set (rv_cases v)" using assms(1) by (cases "rv_cases v") auto
  then obtain k where "k \<in> set (filter ac_required (ak_criteria c))"
    using assms(2) by (cases "filter ac_required (ak_criteria c)") auto
  then have "k \<in> set ?ks" using c assms(2) not_excluded by (auto simp: set_scored)
  then have "?ks \<noteq> []" by auto
  then show "as_score (assessAcceptance v) = Some 100"
    by (simp add: assessAcceptance_def Let_def p)
  show "as_failed (assessAcceptance v) = 0" by (simp add: assessAcceptance_def Let_def p)
  have "length (filter ax_required (List.concat (map case_exclusions (rv_cases v)))) = 0"
    unfolding excluded_count_0 using assms(2) not_excluded by blast
  then show "as_excluded (assessAcceptance v) = 0" by (simp add: assessAcceptance_def Let_def)
qed

lemma flagged: "(\<forall>i \<in> set (if b then [x] else []). P i) \<longleftrightarrow> (b \<longrightarrow> P x)"
  by (cases b) simp_all

lemma flagged_list: "(\<forall>i \<in> set (if b then xs else []). P i) \<longleftrightarrow> (b \<longrightarrow> (\<forall>i \<in> set xs. P i))"
  by (cases b) simp_all

lemma coverage_category [simp]: "is_category (coverage code msg nextStep) = IC_COVERAGE"
  by (simp add: coverage_def issue_def)

lemma coverage_issues_context:
  assumes "\<forall>i \<in> set (coverage_issues redact row rqs cases). is_category i = IC_CONTEXT"
  shows "tr_sourceSnapshotComplete row" "rqs \<noteq> []" "\<forall>q \<in> set rqs. aq_reason q = None"
    "\<forall>c \<in> set cases. \<forall>k \<in> set (ak_criteria c). ac_required k \<longrightarrow>
       (\<exists>q \<in> set rqs. ac_requirementId k = Some (aq_id q))"
    "\<exists>sn. report_snapshot row = Some sn"
proof -
  note parts = assms [unfolded coverage_issues_def Let_def set_append ball_Un flagged]
  show "tr_sourceSnapshotComplete row" "rqs \<noteq> []" "\<exists>sn. report_snapshot row = Some sn"
    using parts by auto
  show "\<forall>q \<in> set rqs. aq_reason q = None" using parts by (auto simp: list_ex_iff)
  have "\<not> list_ex (\<lambda>c. list_ex (\<lambda>k. ac_required k
       \<and> \<not> list_ex (\<lambda>r. Some (aq_id r) = ac_requirementId k) rqs) (ak_criteria c)) cases"
    using parts by simp
  then show "\<forall>c \<in> set cases. \<forall>k \<in> set (ak_criteria c). ac_required k \<longrightarrow>
       (\<exists>q \<in> set rqs. ac_requirementId k = Some (aq_id q))"
    by (force simp: list_ex_iff)
qed

section \<open>Properties\<close>

text \<open>C25: A criterion is reported as passed, or as failed, exactly when the current attempt of the
  run recorded that status for it with at least one evidence reference, every reference is stored
  evidence of that same attempt, and every required kind is among the referenced evidence; without
  a run no criterion is decided.\<close>

theorem criterion_decided_by_evidence:
  "(ac_verdict (criterionReport redact d (Some run) final) = AV_PASSED \<longleftrightarrow>
      proven run (js_text redact (js_prop d ''id'')) (js_strings (js_prop d ''requiredEvidenceKinds'')) ''PASSED'')
   \<and> (ac_verdict (criterionReport redact d (Some run) final) = AV_FAILED \<longleftrightarrow>
      proven run (js_text redact (js_prop d ''id'')) (js_strings (js_prop d ''requiredEvidenceKinds'')) ''FAILED'')
   \<and> ac_verdict (criterionReport redact d None final) \<in> {AV_INCONCLUSIVE, AV_PENDING}"
  using criterionReport_decided(3,4) [of redact d final]
  by (cases "ac_verdict (criterionReport redact d None final)")
    (simp_all add: criterionReport_decided proven_definition_def)

text \<open>A case passes exactly when its run completed, executed and recorded a pass, the case has
  a required criterion, and the current attempt proves every required one; it fails exactly when
  some required criterion is reported as failed, however the run ended.\<close>

theorem case_verdict:
  "(ak_verdict (caseReport redact ci final) = AV_PASSED \<longleftrightarrow> case_proven redact ci)
   \<and> (ak_verdict (caseReport redact ci final) = AV_FAILED \<longleftrightarrow>
        list_ex (\<lambda>k. ac_required k \<and> ac_verdict k = AV_FAILED) (ak_criteria (caseReport redact ci final)))"
  unfolding case_proven_iff case_verdict_failed list_ex_iff by blast

text \<open>C23: A task's report passes exactly when the task completed, it has cases, every one of them is
  proven, and no issue beyond supplemental context was raised. The AI accepts exactly a passed
  report whose scope is the whole requirement, and its release is recommended exactly then.\<close>

theorem task_report_passed:
  "let r = buildTaskAcceptanceReport redact rerun_ok row in
     (rp_verdict r = AV_PASSED \<longleftrightarrow> tr_lifecycle row = ''COMPLETED'' \<and> report_case_inputs redact row \<noteq> []
        \<and> list_all (case_proven redact) (report_case_inputs redact row)
        \<and> list_all (\<lambda>i. is_category i = IC_CONTEXT) (rp_issues r))
     \<and> (rp_aiAccepted r \<longleftrightarrow> rp_verdict r = AV_PASSED \<and> isSpecTask (tr_kind row)
          \<and> \<not> caseRerunSource rerun_ok (tr_environmentSnapshot row))
     \<and> (as_recommendation (rp_assessment r) = RR_RECOMMENDED \<longleftrightarrow> rp_aiAccepted r)"
proof -
  let ?r = "buildTaskAcceptanceReport redact rerun_ok row"
  have 1: "rp_verdict ?r = AV_PASSED \<longleftrightarrow> tr_lifecycle row = ''COMPLETED'' \<and> report_case_inputs redact row \<noteq> []
        \<and> list_all (case_proven redact) (report_case_inputs redact row)
        \<and> list_all (\<lambda>i. is_category i = IC_CONTEXT) (rp_issues ?r)"
    unfolding report_parts(4) task_verdict_passed
    by (auto simp: report_parts(1) case_proven_iff list_all_iff)
  have 2: "rp_aiAccepted ?r \<longleftrightarrow> rp_verdict ?r = AV_PASSED \<and> isSpecTask (tr_kind row)
          \<and> \<not> caseRerunSource rerun_ok (tr_environmentSnapshot row)"
    by (simp add: report_parts(5,6) report_scope_of_def)
  have "as_recommendation (rp_assessment ?r) = RR_RECOMMENDED" if "rp_aiAccepted ?r"
  proof -
    have v: "rp_verdict ?r = AV_PASSED" using that 2 by simp
    have "as_failed (rp_assessment ?r) = 0" "as_excluded (rp_assessment ?r) = 0"
      unfolding report_parts(8) using passed_report(2,3) [OF v] by (simp_all add: passed_assessment)
    moreover have "rp_final ?r" using passed_report(1) [OF v] by (simp add: report_parts(7) report_terminal_def)
    ultimately show ?thesis
      using that by (simp add: report_parts(8) assessAcceptance_def Let_def recommend_def)
  qed
  moreover have "rp_aiAccepted ?r" if "as_recommendation (rp_assessment ?r) = RR_RECOMMENDED"
    using that by (auto simp: report_parts(8) assessAcceptance_def Let_def recommend_def split: if_splits)
  ultimately show ?thesis unfolding Let_def using 1 2 by blast
qed

text \<open>C24: What an AI-accepted requirement rests on: a specification snapshot with complete sources,
  at least one requirement, every requirement linked to results with no gap reported, every
  required criterion of every case traced to one of them and passed, and a score of 100 with
  nothing excluded.\<close>

theorem accepted_requirement:
  assumes "rp_aiAccepted (buildTaskAcceptanceReport redact rerun_ok row)"
  shows "let r = buildTaskAcceptanceReport redact rerun_ok row in
     (\<exists>sn. report_snapshot row = Some sn) \<and> tr_sourceSnapshotComplete row
     \<and> rp_requirements r \<noteq> [] \<and> (\<forall>q \<in> set (rp_requirements r). aq_reason q = None)
     \<and> (\<forall>c \<in> set (rp_cases r). \<forall>k \<in> set (ak_criteria c). ac_required k \<longrightarrow>
          ac_verdict k = AV_PASSED \<and> (\<exists>q \<in> set (rp_requirements r). ac_requirementId k = Some (aq_id q)))
     \<and> as_score (rp_assessment r) = Some 100 \<and> as_excluded (rp_assessment r) = 0"
proof -
  let ?r = "buildTaskAcceptanceReport redact rerun_ok row"
  have v: "rp_verdict ?r = AV_PASSED" and sc: "report_scope_of rerun_ok row = REQUIREMENT_SCOPE"
    using assms by (simp_all add: report_parts(5,6))
  have "\<forall>i \<in> set (coverage_issues redact row (rp_requirements ?r) (rp_cases ?r)). is_category i = IC_CONTEXT"
    using passed_report(4) [OF v]
    unfolding report_parts(3) report_issues_def set_append ball_Un flagged_list using sc by blast
  note cov = coverage_issues_context [OF this]
  have "as_excluded (rp_assessment ?r) = 0" "as_score (rp_assessment ?r) = Some 100"
    unfolding report_parts(8) using passed_report(2,3) [OF v] by (simp_all add: passed_assessment)
  moreover have "\<forall>c \<in> set (rp_cases ?r). \<forall>k \<in> set (ak_criteria c). ac_required k \<longrightarrow>
      ac_verdict k = AV_PASSED \<and> (\<exists>q \<in> set (rp_requirements ?r). ac_requirementId k = Some (aq_id q))"
    using cov(4) passed_report(3) [OF v] by simp
  ultimately show ?thesis unfolding Let_def using cov(1,2,3,5) by simp
qed

definition sample_report_run :: report_run where
  "sample_report_run =
     \<lparr>rn_id = ''run'', rn_goal = ''g'', rn_lifecycle = ''COMPLETED'',
      rn_executionDisposition = Some ''EXECUTED'', rn_verdict = JStr ''PASSED'',
      rn_currentAttemptNumber = 1,
      rn_criteriaSnapshot = JArr [JObj [(''id'', JStr ''k1'')]], rn_environmentSnapshot = JNull,
      rn_attempts = [\<lparr>at_id = ''a1'', at_number = 1, at_error = JNull\<rparr>], rn_tasks = [],
      rn_criterionResults = [\<lparr>crr_attemptId = ''a1'', crr_criterionId = ''k1'',
        crr_status = ''PASSED'', crr_summary = ''ok'', crr_evidenceRefs = [''e1''],
        crr_blockingReason = None\<rparr>],
      rn_evidences = [\<lparr>se_id = ''1'', se_externalId = ''e1'', se_kind = ''SCREENSHOT'',
        se_attemptId = ''a1'', se_runtimeArtifactId = None\<rparr>]\<rparr>"

definition sample_task_row :: task_row where
  "sample_task_row =
     \<lparr>tr_id = ''t'', tr_title = ''T'', tr_kind = ''SPEC_TASK'', tr_sourceRef = None,
      tr_lifecycle = ''COMPLETED'', tr_environmentSnapshot = JNull,
      tr_sourceSnapshotComplete = True,
      tr_specificationSnapshots = [\<lparr>sn_id = ''sn'', sn_sourceHash = ''h'',
        sn_primaryPullRequestUrl = None,
        sn_context = JObj [(''specification'', JObj [(''requirements'',
          JArr [JObj [(''id'', JStr ''R1'')]])])],
        sn_diagnostics = JArr [], sn_completeness = ''COMPLETE'',
        sn_cases = [\<lparr>sc_id = ''c1'', sc_name = ''C'', sc_definition = JObj [(''criteria'',
          JArr [JObj [(''id'', JStr ''k1''), (''requirementId'', JStr ''R1'')]])]\<rparr>]\<rparr>],
      tr_deployments = [\<lparr>dp_id = ''d'', dp_name = ''D'', dp_targetUrl = None\<rparr>],
      tr_caseExecutions = [\<lparr>cx_caseId = ''c1'', cx_deploymentId = ''d'', cx_executionOrdinal = 1,
        cx_run = Some sample_report_run, cx_dispatchLastError = JNull\<rparr>],
      tr_executionRuns = [], tr_stages = []\<rparr>"

theorem accepted_requirement_witness:
  "as_score (rp_assessment (buildTaskAcceptanceReport (\<lambda>s. s) (\<lambda>_. False) sample_task_row)) = Some 100"
proof -
  have "rp_aiAccepted (buildTaskAcceptanceReport (\<lambda>s. s) (\<lambda>_. False) sample_task_row)" by code_simp
  from accepted_requirement [OF this] show ?thesis unfolding Let_def by blast
qed

end
