(* ===== verification/TimingSweep.thy ===== *)
theory TimingSweep
  imports Prelude
begin

text \<open>
  The sweep over the time line of a task, \<open>apps/api/src/task-executions/task-metrics.ts\<close>:
  \<open>exclusiveActivity\<close>, \<open>classifyRuntime\<close>, \<open>bucketShares\<close>, \<open>timingBuckets\<close>, \<open>sweep\<close> and
  \<open>mergeSegments\<close>.

  Times are integer milliseconds (the code reads them from valid \<open>Date\<close>s); the window's bounds are
  optional because the code tests them with \<open>Number.isFinite\<close>. A span object used as a map key is
  the pair of its position and its value. A set that is built by insertion is a distinct list. A
  percentage is exact: \<open>js_round\<close> is \<open>Math.round\<close> on a rational.

  The main lemma, \<open>slices_spec\<close>, says that the event loop computes at every millisecond what is
  active at that millisecond.
\<close>

section \<open>Data\<close>

datatype runtime_kind = RK_SPEC_ANALYSIS | RK_BROWSER

datatype runtime_tag = RT_SPEC_ANALYSIS | RT_BROWSER | RT_OVERLAP | RT_UNASSIGNED

record timing_span =
  ts_activity :: string
  ts_lane :: string
  ts_startedAt :: int
  ts_finishedAt :: "int option"
  ts_runtime :: "runtime_kind option"

record timing_bucket =
  tb_activity :: string
  tb_durationMs :: int
  tb_percentage :: "rat option"

record runtime_segment =
  rs_start :: int
  rs_end :: int
  rs_activity :: string
  rs_runtime :: runtime_tag

record runtime_mask =
  mk_runtime :: runtime_kind
  mk_from :: int
  mk_to :: int

definition is_wait :: "string \<Rightarrow> bool" where
  "is_wait a \<longleftrightarrow> a \<in> {''QUEUE'', ''HUMAN'', ''DEPENDENCY'', ''BACKOFF'', ''MIXED_WAIT''}"

definition is_work :: "string \<Rightarrow> bool" where
  "is_work a \<longleftrightarrow> a \<in> {''MODEL'', ''TOOL'', ''PLATFORM'', ''RECOVERY''}"

definition is_active_activity :: "string \<Rightarrow> bool" where
  "is_active_activity a \<longleftrightarrow> a \<in> {''MODEL'', ''TOOL'', ''PLATFORM'', ''RECOVERY'', ''PARALLEL''}"

fun tag_of :: "runtime_kind \<Rightarrow> runtime_tag" where
  "tag_of RK_SPEC_ANALYSIS = RT_SPEC_ANALYSIS"
| "tag_of RK_BROWSER = RT_BROWSER"

definition runtimeOrder :: "runtime_tag list" where
  "runtimeOrder = [RT_SPEC_ANALYSIS, RT_BROWSER, RT_UNASSIGNED, RT_OVERLAP]"

section \<open>What is active at one time\<close>

definition set_add :: "'a list \<Rightarrow> 'a \<Rightarrow> 'a list" where
  "set_add xs x = (if x \<in> set xs then xs else xs @ [x])"

definition lane_kinds :: "string list \<Rightarrow> string list" where
  "lane_kinds kinds =
     (if ''MODEL'' \<in> set kinds \<or> ''TOOL'' \<in> set kinds
      then filter (\<lambda>k. k \<noteq> ''PLATFORM'') kinds else kinds)"

definition active_lanes :: "timing_span list \<Rightarrow> (string \<times> string list) list" where
  "active_lanes active = foldl (\<lambda>lanes s.
     jmap_set lanes (ts_lane s) (set_add (coalesce (jmap_get lanes (ts_lane s)) []) (ts_activity s)))
     [] active"

definition exclusiveActivity :: "timing_span list \<Rightarrow> string" where
  "exclusiveActivity active =
     (let activities = foldl set_add []
            (List.concat (map (\<lambda>(lane, kinds). lane_kinds kinds) (active_lanes active)));
          running = filter is_work activities;
          waiting = filter is_wait activities in
      if ''UNKNOWN'' \<in> set activities then ''UNKNOWN''
      else case running of
        r # _ # _ \<Rightarrow> ''PARALLEL''
      | [r] \<Rightarrow> r
      | [] \<Rightarrow> (case waiting of
          w # _ # _ \<Rightarrow> ''MIXED_WAIT''
        | [w] \<Rightarrow> w
        | [] \<Rightarrow> ''UNKNOWN''))"

definition span_runtimes :: "(string \<Rightarrow> bool) \<Rightarrow> timing_span list \<Rightarrow> runtime_kind list" where
  "span_runtimes P active =
     js_uniq (List.map_filter ts_runtime (filter (\<lambda>s. P (ts_activity s)) active))"

definition classifyRuntime :: "timing_span list \<Rightarrow> runtime_kind list \<Rightarrow> runtime_tag" where
  "classifyRuntime active masks =
     (let working = span_runtimes is_work active;
          waiting = span_runtimes (\<lambda>a. \<not> is_work a) active in
      case working of
        r # _ # _ \<Rightarrow> RT_OVERLAP
      | [r] \<Rightarrow> if list_ex (\<lambda>x. x \<noteq> r) (waiting @ masks) then RT_OVERLAP else tag_of r
      | [] \<Rightarrow> (case js_uniq (waiting @ masks) of
          r # _ # _ \<Rightarrow> RT_OVERLAP
        | [r] \<Rightarrow> tag_of r
        | [] \<Rightarrow> RT_UNASSIGNED))"

section \<open>Shares of a total\<close>

definition js_round :: "rat \<Rightarrow> int" where
  "js_round x = \<lfloor>x + 1 / 2\<rfloor>"

fun share_out :: "int \<Rightarrow> int \<Rightarrow> (string \<times> int) list \<Rightarrow> timing_bucket list" where
  "share_out tot remaining [] = []"
| "share_out tot remaining ((activity, durationMs) # rest) =
     (let tenths = (if \<not> tot > 0 then 0
                    else if rest = [] then remaining
                    else min remaining (js_round (of_int durationMs / of_int tot * 1000)))
      in \<lparr>tb_activity = activity, tb_durationMs = durationMs,
          tb_percentage = (if tot > 0 then Some (of_int tenths / 10) else None)\<rparr>
         # share_out tot (remaining - tenths) rest)"

definition bucketShares :: "int \<Rightarrow> (string \<times> int) list \<Rightarrow> timing_bucket list" where
  "bucketShares tot entries = share_out tot 1000 (filter (\<lambda>(activity, d). 0 < d) entries)"

section \<open>Events at the points of the time line\<close>

type_synonym span_key = "nat \<times> timing_span"

datatype sweep_event = SpanEvent span_key int | MaskEvent runtime_kind int

type_synonym points = "(int \<times> sweep_event list) list"

definition add_event :: "points \<Rightarrow> int \<Rightarrow> sweep_event \<Rightarrow> points" where
  "add_event points t event = jmap_set points t (coalesce (jmap_get points t) [] @ [event])"

text \<open>The part of an interval inside the window, \<open>None\<close> where it is skipped.\<close>

definition clip :: "int \<Rightarrow> int \<Rightarrow> int \<Rightarrow> int \<Rightarrow> (int \<times> int) option" where
  "clip start end a b =
     (let from = max start a; to = min end b in if to \<le> from then None else Some (from, to))"

definition span_interval :: "int \<Rightarrow> int \<Rightarrow> timing_span \<Rightarrow> (int \<times> int) option" where
  "span_interval start end sp =
     (if ts_finishedAt sp = None \<and> \<not> is_wait (ts_activity sp) then None
      else clip start end (ts_startedAt sp) (coalesce (ts_finishedAt sp) end))"

definition add_interval :: "(int \<times> int) option \<Rightarrow> (int \<Rightarrow> sweep_event) \<Rightarrow> points \<Rightarrow> points" where
  "add_interval interval event points =
     (case interval of
        None \<Rightarrow> points
      | Some (from, to) \<Rightarrow> add_event (add_event points from (event 1)) to (event (- 1)))"

definition sweep_points ::
  "int \<Rightarrow> int \<Rightarrow> timing_span list \<Rightarrow> runtime_mask list \<Rightarrow> points" where
  "sweep_points start end spans masks =
     (let initial = jmap_set (jmap_set [] start []) end [];
          with_spans = foldl (\<lambda>ps k. add_interval (span_interval start end (snd k)) (SpanEvent k) ps)
            initial (enumerate 0 spans)
      in foldl (\<lambda>ps m. add_interval (clip start end (mk_from m) (mk_to m)) (MaskEvent (mk_runtime m)) ps)
           with_spans masks)"

type_synonym active_counts = "(span_key \<times> int) list \<times> (runtime_kind \<times> int) list"

fun apply_event :: "active_counts \<Rightarrow> sweep_event \<Rightarrow> active_counts" where
  "apply_event (active, covered) (SpanEvent k delta) =
     (let count = coalesce (jmap_get active k) 0 + delta in
      (if count \<noteq> 0 then jmap_set active k count else jmap_delete active k, covered))"
| "apply_event (active, covered) (MaskEvent r delta) =
     (let count = coalesce (jmap_get covered r) 0 + delta in
      (active, if count > 0 then jmap_set covered r count else jmap_delete covered r))"

definition active_spans :: "active_counts \<Rightarrow> timing_span list" where
  "active_spans st = map (snd \<circ> fst) (fst st)"

definition covered_runtimes :: "active_counts \<Rightarrow> runtime_kind list" where
  "covered_runtimes st = map fst (snd st)"

definition sorted_points :: "points \<Rightarrow> int list" where
  "sorted_points points = js_sort (\<le>) (map fst points)"

fun sweep_loop :: "points \<Rightarrow> active_counts \<Rightarrow> int list \<Rightarrow> runtime_segment list" where
  "sweep_loop points st (t # next # rest) =
     (let st' = foldl apply_event st (coalesce (jmap_get points t) []) in
      (if next \<le> t then []
       else [\<lparr>rs_start = t, rs_end = next, rs_activity = exclusiveActivity (active_spans st'),
              rs_runtime = classifyRuntime (active_spans st') (covered_runtimes st')\<rparr>])
      @ sweep_loop points st' (next # rest))"
| "sweep_loop points st _ = []"

definition sweep ::
  "int \<Rightarrow> int \<Rightarrow> timing_span list \<Rightarrow> runtime_mask list \<Rightarrow> runtime_segment list" where
  "sweep start end spans masks =
     (let points = sweep_points start end spans masks in
      sweep_loop points ([], []) (sorted_points points))"

definition add_total :: "('a \<times> int) list \<Rightarrow> 'a \<Rightarrow> int \<Rightarrow> ('a \<times> int) list" where
  "add_total totals k d = jmap_set totals k (coalesce (jmap_get totals k) 0 + d)"

fun bucket_loop ::
  "points \<Rightarrow> active_counts \<Rightarrow> (string \<times> int) list \<Rightarrow> int list \<Rightarrow> (string \<times> int) list" where
  "bucket_loop points st totals (t # next # rest) =
     (let st' = foldl apply_event st (coalesce (jmap_get points t) []) in
      bucket_loop points st' (add_total totals (exclusiveActivity (active_spans st')) (next - t))
        (next # rest))"
| "bucket_loop points st totals _ = totals"

definition timingBuckets :: "int option \<Rightarrow> int option \<Rightarrow> timing_span list \<Rightarrow> timing_bucket list" where
  "timingBuckets start end spans =
     (case (start, end) of
        (Some s, Some e) \<Rightarrow>
          if e < s then []
          else (let points = sweep_points s e spans [];
                    totals = bucket_loop points ([], []) [] (sorted_points points) in
                if e = s then [] else bucketShares (e - s) totals)
      | _ \<Rightarrow> [])"

text \<open>\<open>mergeSegments\<close>: extend the last segment where the next one continues it.\<close>

definition merge_segment :: "runtime_segment list \<Rightarrow> runtime_segment \<Rightarrow> runtime_segment list" where
  "merge_segment merged seg =
     (case rev merged of
        l # front \<Rightarrow>
          if rs_end l = rs_start seg \<and> rs_activity l = rs_activity seg \<and> rs_runtime l = rs_runtime seg
          then rev front @ [l\<lparr>rs_end := rs_end seg\<rparr>] else merged @ [seg]
      | [] \<Rightarrow> [seg])"

definition mergeSegments :: "runtime_segment list \<Rightarrow> runtime_segment list" where
  "mergeSegments segments = foldl merge_segment [] segments"

section \<open>Lemmas: sets built by insertion\<close>

lemma set_set_add [simp]: "set (set_add xs x) = insert x (set xs)"
  by (auto simp: set_add_def)

lemma distinct_set_add [simp]: "distinct (set_add xs x) \<longleftrightarrow> distinct xs"
  by (auto simp: set_add_def)

lemma set_fold_set_add [simp]: "set (foldl set_add xs ys) = set xs \<union> set ys"
  by (induction ys arbitrary: xs) auto

lemma distinct_fold_set_add [simp]: "distinct (foldl set_add xs ys) \<longleftrightarrow> distinct xs"
  by (induction ys arbitrary: xs) auto

text \<open>A case on none, one or more elements of a distinct list depends on its set only.\<close>

lemma distinct_set_cases:
  assumes "distinct xs" "distinct ys" "set xs = set ys"
  shows "(case xs of [] \<Rightarrow> a | [x] \<Rightarrow> f x | x # y # zs \<Rightarrow> c) = (case ys of [] \<Rightarrow> a | [x] \<Rightarrow> f x | x # y # zs \<Rightarrow> c)"
proof -
  have len: "length xs = length ys"
    using assms by (metis distinct_card)
  show ?thesis
  proof (cases xs)
    case Nil
    then show ?thesis using assms(3) by simp
  next
    case (Cons x xs')
    with len obtain y ys' where ys: "ys = y # ys'" by (cases ys) auto
    show ?thesis
    proof (cases xs')
      case Nil
      with Cons ys len assms(3) show ?thesis by simp
    next
      case (Cons x' xs'')
      with \<open>xs = x # xs'\<close> ys len obtain y' ys'' where "ys' = y' # ys''" by (cases ys') auto
      with Cons ys \<open>xs = x # xs'\<close> show ?thesis by simp
    qed
  qed
qed

section \<open>Lemmas: activity and runtime depend on the set of active spans\<close>

lemma jmap_entries:
  "distinct (map fst m) \<Longrightarrow> (k, v) \<in> set m \<longleftrightarrow> jmap_get m k = Some v"
  by (simp add: jmap_get_def)

lemma jmap_keys: "fst ` set m = {k. jmap_get m k \<noteq> None}"
  by (auto simp: jmap_get_def dom_map_of_conv_image_fst [symmetric])

lemma distinct_jmap_set [simp]: "distinct (map fst m) \<Longrightarrow> distinct (map fst (jmap_set m k v))"
  by (simp add: jmap_set_def distinct_update)

lemma distinct_jmap_delete [simp]: "distinct (map fst m) \<Longrightarrow> distinct (map fst (jmap_delete m k))"
  by (simp add: jmap_delete_def distinct_delete)

lemma active_lanes_snoc:
  "active_lanes (xs @ [x]) = jmap_set (active_lanes xs) (ts_lane x)
     (set_add (coalesce (jmap_get (active_lanes xs) (ts_lane x)) []) (ts_activity x))"
  by (simp add: active_lanes_def)

lemma distinct_active_lanes: "distinct (map fst (active_lanes xs))"
  by (induction xs rule: rev_induct) (simp_all add: active_lanes_snoc, simp add: active_lanes_def)

lemma active_lanes_get:
  "set (coalesce (jmap_get (active_lanes xs) lane) []) = {ts_activity x | x. x \<in> set xs \<and> ts_lane x = lane}"
  "jmap_get (active_lanes xs) lane = None \<longleftrightarrow> (\<forall>x \<in> set xs. ts_lane x \<noteq> lane)"
proof (induction xs rule: rev_induct)
  case Nil
  { case 1 show ?case by (simp add: active_lanes_def) }
  { case 2 show ?case by (simp add: active_lanes_def) }
next
  case (snoc x xs)
  { case 1 from snoc(1) show ?case by (auto simp: active_lanes_snoc) }
  { case 2 from snoc(2) show ?case by (auto simp: active_lanes_snoc) }
qed

definition shown_activities :: "timing_span set \<Rightarrow> string set" where
  "shown_activities S = {ts_activity x | x. x \<in> S \<and>
     \<not> (ts_activity x = ''PLATFORM'' \<and> (\<exists>y \<in> S. ts_lane y = ts_lane x \<and> ts_activity y \<in> {''MODEL'', ''TOOL''}))}"

lemma set_lane_kinds:
  "set (lane_kinds ks) = {k \<in> set ks. \<not> (k = ''PLATFORM'' \<and> (''MODEL'' \<in> set ks \<or> ''TOOL'' \<in> set ks))}"
  by (auto simp: lane_kinds_def)

lemma activities_set:
  "set (foldl set_add [] (List.concat (map (\<lambda>(lane, kinds). lane_kinds kinds) (active_lanes xs))))
     = shown_activities (set xs)"
proof -
  have entry: "(lane, kinds) \<in> set (active_lanes xs) \<longleftrightarrow> jmap_get (active_lanes xs) lane = Some kinds"
    for lane kinds
    by (rule jmap_entries [OF distinct_active_lanes])
  have kinds: "set kinds = {ts_activity x | x. x \<in> set xs \<and> ts_lane x = lane}"
    if "(lane, kinds) \<in> set (active_lanes xs)" for lane kinds
    using active_lanes_get(1) [of xs lane] that by (simp add: entry)
  have ex: "\<exists>kinds. (ts_lane x, kinds) \<in> set (active_lanes xs)" if "x \<in> set xs" for x
    using active_lanes_get(2) [of xs "ts_lane x"] that by (auto simp: entry)
  define hidden where "hidden lane a \<longleftrightarrow> a = ''PLATFORM'' \<and>
      (\<exists>y \<in> set xs. ts_lane y = lane \<and> ts_activity y \<in> {''MODEL'', ''TOOL''})" for lane a
  have lane: "a \<in> set (lane_kinds kinds) \<longleftrightarrow>
      (\<exists>x. x \<in> set xs \<and> ts_activity x = a \<and> ts_lane x = lane \<and> \<not> hidden lane a)"
    if "(lane, kinds) \<in> set (active_lanes xs)" for a lane kinds
    unfolding set_lane_kinds kinds [OF that] hidden_def by auto
  have "a \<in> shown_activities (set xs)"
    if "(lane, kinds) \<in> set (active_lanes xs)" "a \<in> set (lane_kinds kinds)" for a lane kinds
    using lane [OF that(1)] that(2) by (auto simp: shown_activities_def hidden_def)
  moreover have "\<exists>lane kinds. (lane, kinds) \<in> set (active_lanes xs) \<and> a \<in> set (lane_kinds kinds)"
    if "a \<in> shown_activities (set xs)" for a
  proof -
    from that obtain x where x: "x \<in> set xs" "ts_activity x = a" "\<not> hidden (ts_lane x) a"
      by (auto simp: shown_activities_def hidden_def)
    then show ?thesis using ex [OF x(1)] lane by blast
  qed
  ultimately show ?thesis by fastforce
qed

lemma exclusiveActivity_cong: "set xs = set ys \<Longrightarrow> exclusiveActivity xs = exclusiveActivity ys"
proof -
  let ?acts = "\<lambda>xs. foldl set_add [] (List.concat (map (\<lambda>(lane, kinds). lane_kinds kinds) (active_lanes xs)))"
  assume "set xs = set ys"
  then have eq: "set (?acts xs) = set (?acts ys)" by (simp only: activities_set)
  have d: "distinct (filter P (?acts zs))" for P zs by simp
  have f: "set (filter P (?acts xs)) = set (filter P (?acts ys))" for P
    using eq by (simp only: set_filter)
  show ?thesis
    unfolding exclusiveActivity_def Let_def eq
    unfolding distinct_set_cases [OF d d f [of is_wait]]
    unfolding distinct_set_cases [OF d d f [of is_work]] by (rule refl)
qed

lemma set_span_runtimes:
  "set (span_runtimes P xs) = {r. \<exists>x \<in> set xs. P (ts_activity x) \<and> ts_runtime x = Some r}"
  by (force simp: span_runtimes_def map_filter_def)

lemma distinct_span_runtimes: "distinct (span_runtimes P xs)"
  by (simp add: span_runtimes_def)

lemma classifyRuntime_cong:
  assumes "set xs = set ys" "set ms = set ns"
  shows "classifyRuntime xs ms = classifyRuntime ys ns"
proof -
  have r: "set (span_runtimes P xs) = set (span_runtimes P ys)" for P
    by (simp add: set_span_runtimes assms)
  have w: "set (span_runtimes P xs @ ms) = set (span_runtimes P ys @ ns)" for P
    using r [of P] assms(2) by simp
  have l: "list_ex Q (span_runtimes P xs @ ms) = list_ex Q (span_runtimes P ys @ ns)" for P Q
    unfolding list_ex_iff w by (rule refl)
  have u: "set (js_uniq (span_runtimes P xs @ ms)) = set (js_uniq (span_runtimes P ys @ ns))" for P
    using w [of P] by simp
  show ?thesis
    unfolding classifyRuntime_def Let_def l
    unfolding distinct_set_cases [OF distinct_js_uniq distinct_js_uniq u]
    unfolding distinct_set_cases [OF distinct_span_runtimes distinct_span_runtimes r] by (rule refl)
qed

section \<open>Lemmas: the points of the time line\<close>

definition interval_events :: "(int \<times> int) option \<Rightarrow> int \<Rightarrow> int list" where
  "interval_events iv t =
     (case iv of None \<Rightarrow> [] | Some (from, to) \<Rightarrow>
        (if t = from then [1] else []) @ (if t = to then [- 1] else []))"

definition interval_ends :: "(int \<times> int) option \<Rightarrow> int set" where
  "interval_ends iv = (case iv of None \<Rightarrow> {} | Some (from, to) \<Rightarrow> {from, to})"

definition proper :: "(int \<times> int) option \<Rightarrow> bool" where
  "proper iv \<longleftrightarrow> (case iv of None \<Rightarrow> True | Some (from, to) \<Rightarrow> from < to)"

lemma proper_clip: "proper (clip start end a b)"
  by (simp add: clip_def proper_def Let_def not_le)

lemma proper_span_interval: "proper (span_interval start end sp)"
  unfolding span_interval_def by (simp add: proper_clip proper_def [of None])

lemma ends_clip: "interval_ends (clip start end a b) \<subseteq> {start..end}"
  by (auto simp: clip_def interval_ends_def Let_def)

lemma ends_span_interval: "interval_ends (span_interval start end sp) \<subseteq> {start..end}"
  unfolding span_interval_def using ends_clip by (simp add: interval_ends_def [of None])

definition events_at :: "points \<Rightarrow> int \<Rightarrow> sweep_event list" where
  "events_at points t = coalesce (jmap_get points t) []"

lemma events_at_add_event:
  "events_at (add_event ps u e) t = events_at ps t @ (if t = u then [e] else [])"
  by (simp add: events_at_def add_event_def)

lemma events_at_add_interval:
  "events_at (add_interval iv ev ps) t = events_at ps t @ map ev (interval_events iv t)"
  by (auto simp: add_interval_def interval_events_def events_at_add_event split: option.split)

lemma events_at_fold:
  "events_at (foldl (\<lambda>ps x. add_interval (iv x) (ev x) ps) ps xs) t
     = events_at ps t @ List.concat (map (\<lambda>x. map (ev x) (interval_events (iv x) t)) xs)"
  by (induction xs arbitrary: ps) (simp_all add: events_at_add_interval)

lemma keys_add_event: "fst ` set (add_event ps u e) = insert u (fst ` set ps)"
  by (auto simp: jmap_keys add_event_def)

lemma keys_add_interval: "fst ` set (add_interval iv ev ps) = fst ` set ps \<union> interval_ends iv"
  by (auto simp: add_interval_def interval_ends_def keys_add_event split: option.split)

lemma keys_fold:
  "fst ` set (foldl (\<lambda>ps x. add_interval (iv x) (ev x) ps) ps xs)
     = fst ` set ps \<union> (\<Union>x \<in> set xs. interval_ends (iv x))"
  by (induction xs arbitrary: ps) (auto simp: keys_add_interval)

lemma distinct_add_interval:
  "distinct (map fst ps) \<Longrightarrow> distinct (map fst (add_interval iv ev ps))"
  by (auto simp: add_interval_def add_event_def split: option.split)

lemma distinct_fold:
  "distinct (map fst ps) \<Longrightarrow> distinct (map fst (foldl (\<lambda>ps x. add_interval (iv x) (ev x) ps) ps xs))"
  by (induction xs arbitrary: ps) (simp_all add: distinct_add_interval)

text \<open>The items the sweep counts: the spans by position, and the masks by runtime.\<close>

definition span_items :: "int \<Rightarrow> int \<Rightarrow> timing_span list \<Rightarrow> (span_key \<times> (int \<times> int) option) list" where
  "span_items start end spans = map (\<lambda>k. (k, span_interval start end (snd k))) (enumerate 0 spans)"

definition mask_items :: "int \<Rightarrow> int \<Rightarrow> runtime_mask list \<Rightarrow> (runtime_kind \<times> (int \<times> int) option) list" where
  "mask_items start end masks = map (\<lambda>m. (mk_runtime m, clip start end (mk_from m) (mk_to m))) masks"

lemma sweep_points_fold:
  "sweep_points start end spans masks =
     foldl (\<lambda>ps x. add_interval (snd x) (MaskEvent (fst x)) ps)
       (foldl (\<lambda>ps x. add_interval (snd x) (SpanEvent (fst x)) ps)
         (jmap_set (jmap_set [] start []) end []) (span_items start end spans))
       (mask_items start end masks)"
  by (simp add: sweep_points_def span_items_def mask_items_def foldl_map Let_def)

lemma events_at_sweep:
  "events_at (sweep_points start end spans masks) t =
     List.concat (map (\<lambda>x. map (SpanEvent (fst x)) (interval_events (snd x) t)) (span_items start end spans))
     @ List.concat (map (\<lambda>x. map (MaskEvent (fst x)) (interval_events (snd x) t)) (mask_items start end masks))"
  unfolding sweep_points_fold events_at_fold by (simp add: events_at_def)

definition item_ends :: "('k \<times> (int \<times> int) option) list \<Rightarrow> int set" where
  "item_ends items = (\<Union>x \<in> set items. interval_ends (snd x))"

lemma keys_sweep:
  "fst ` set (sweep_points start end spans masks)
     = {start, end} \<union> item_ends (span_items start end spans) \<union> item_ends (mask_items start end masks)"
  unfolding sweep_points_fold keys_fold item_ends_def by (auto simp: jmap_keys)

lemma distinct_sweep: "distinct (map fst (sweep_points start end spans masks))"
proof -
  have "distinct (map fst (jmap_set (jmap_set [] start []) end []))" by simp
  then show ?thesis unfolding sweep_points_fold by (intro distinct_fold)
qed

lemma item_ends_window:
  "item_ends (span_items start end spans) \<subseteq> {start..end}"
  "item_ends (mask_items start end masks) \<subseteq> {start..end}"
  using ends_span_interval ends_clip by (fastforce simp: item_ends_def span_items_def mask_items_def)+

lemma items_proper:
  "x \<in> set (span_items start end spans) \<Longrightarrow> proper (snd x)"
  "y \<in> set (mask_items start end masks) \<Longrightarrow> proper (snd y)"
  by (auto simp: span_items_def mask_items_def proper_span_interval proper_clip)

section \<open>Lemmas: the counters\<close>

definition open_at :: "(int \<times> int) option \<Rightarrow> int \<Rightarrow> int" where
  "open_at iv t = (case iv of None \<Rightarrow> 0 | Some (from, to) \<Rightarrow> of_bool (from \<le> t \<and> t < to))"

definition open_count :: "('k \<times> (int \<times> int) option) list \<Rightarrow> 'k \<Rightarrow> int \<Rightarrow> int" where
  "open_count items k t = (\<Sum>x\<leftarrow>items. if fst x = k then open_at (snd x) t else 0)"

lemma open_at_nonneg [simp]: "0 \<le> open_at iv t"
  by (auto simp: open_at_def split: option.split)

lemma open_count_nonneg: "0 \<le> open_count items k t"
  unfolding open_count_def by (rule sum_list_nonneg) auto

lemma open_count_simps [simp]:
  "open_count [] k t = 0"
  "open_count (x # items) k t = (if fst x = k then open_at (snd x) t else 0) + open_count items k t"
  by (simp_all add: open_count_def)

lemma open_count_pos: "0 < open_count items k t \<longleftrightarrow> (\<exists>x \<in> set items. fst x = k \<and> open_at (snd x) t = 1)"
proof (induction items)
  case (Cons x items)
  have "open_at (snd x) t = 0 \<or> open_at (snd x) t = 1" by (auto simp: open_at_def split: option.split)
  then show ?case using Cons open_count_nonneg [of items k t] by auto
qed simp

text \<open>One count per key, absent where it is zero.\<close>

definition counts :: "('k \<times> int) list \<Rightarrow> ('k \<Rightarrow> int) \<Rightarrow> bool" where
  "counts m n \<longleftrightarrow> (\<forall>k. jmap_get m k = (if 0 < n k then Some (n k) else None))"

definition bump :: "('k \<times> int) list \<Rightarrow> 'k \<Rightarrow> int \<Rightarrow> ('k \<times> int) list" where
  "bump m k d = (let c = coalesce (jmap_get m k) 0 + d in
     if c > 0 then jmap_set m k c else jmap_delete m k)"

lemma counts_bump:
  assumes "counts m n" "\<forall>j. 0 \<le> n j" "0 \<le> n k + d"
  shows "counts (bump m k d) (n(k := n k + d))"
proof -
  have "coalesce (jmap_get m k) 0 = n k"
    using assms(1,2) by (auto simp: counts_def order_le_less dest: spec [of _ k])
  then show ?thesis using assms by (auto simp: counts_def bump_def Let_def)
qed

text \<open>Two consecutive points: no interval starts or ends strictly between them.\<close>

definition adjacent :: "int set \<Rightarrow> int \<Rightarrow> int \<Rightarrow> bool" where
  "adjacent E prev t \<longleftrightarrow> prev < t \<and> (\<forall>e \<in> E. e \<le> prev \<or> t \<le> e)"

lemma interval_step:
  assumes "proper iv" "adjacent (interval_ends iv) prev t"
  shows "interval_events iv t = (if open_at iv t = open_at iv prev then []
           else [open_at iv t - open_at iv prev])"
  using assms
  by (cases iv) (auto simp: proper_def adjacent_def interval_ends_def interval_events_def open_at_def)

lemma counts_interval:
  assumes "counts m n" "\<forall>j. 0 \<le> n j" "proper iv" "adjacent (interval_ends iv) prev t"
    and "0 \<le> n k + (open_at iv t - open_at iv prev)"
  shows "counts (foldl (\<lambda>m d. bump m k d) m (interval_events iv t))
           (n(k := n k + (open_at iv t - open_at iv prev)))"
  using counts_bump [OF assms(1,2,5)] assms(1) by (simp add: interval_step [OF assms(3,4)])

text \<open>The span counters drop at zero only, which is the same while they are not negative.\<close>

definition bump_span :: "('k \<times> int) list \<Rightarrow> 'k \<Rightarrow> int \<Rightarrow> ('k \<times> int) list" where
  "bump_span m k d = (let c = coalesce (jmap_get m k) 0 + d in
     if c \<noteq> 0 then jmap_set m k c else jmap_delete m k)"

lemma apply_span_events:
  "foldl apply_event (a, c) (map (\<lambda>(k, d). SpanEvent k d) kds) = (foldl (\<lambda>m (k, d). bump_span m k d) a kds, c)"
  by (induction kds arbitrary: a) (auto simp: bump_span_def Let_def)

lemma apply_mask_events:
  "foldl apply_event (a, c) (map (\<lambda>(r, d). MaskEvent r d) rds) = (a, foldl (\<lambda>m (r, d). bump m r d) c rds)"
  by (induction rds arbitrary: c) (auto simp: bump_def Let_def)

text \<open>Each span is an item of its own, so its counter never goes below zero.\<close>

lemma counts_span_bump:
  assumes "counts m n" "\<forall>j. 0 \<le> n j" "0 \<le> n k + d"
  shows "bump_span m k d = bump m k d"
proof -
  have "coalesce (jmap_get m k) 0 = n k"
    using assms(1,2) by (auto simp: counts_def order_le_less dest: spec [of _ k])
  then show ?thesis using assms(3) by (simp add: bump_span_def bump_def Let_def)
qed

definition item_events :: "('k \<times> (int \<times> int) option) list \<Rightarrow> int \<Rightarrow> ('k \<times> int) list" where
  "item_events items t = List.concat (map (\<lambda>x. map (Pair (fst x)) (interval_events (snd x) t)) items)"

lemma item_events_simps [simp]:
  "item_events [] t = []"
  "item_events (x # items) t = map (Pair (fst x)) (interval_events (snd x) t) @ item_events items t"
  by (simp_all add: item_events_def)

lemma counts_items:
  assumes "\<forall>x \<in> set items. proper (snd x)" "adjacent (item_ends items) prev t"
    and "counts m (\<lambda>k. C k + open_count items k prev)" "\<forall>k. 0 \<le> C k"
  shows "foldl (\<lambda>m (k, d). bump_span m k d) m (item_events items t)
         = foldl (\<lambda>m (k, d). bump m k d) m (item_events items t)
       \<and> counts (foldl (\<lambda>m (k, d). bump m k d) m (item_events items t)) (\<lambda>k. C k + open_count items k t)"
  using assms
proof (induction items arbitrary: m C)
  case Nil
  then show ?case by simp
next
  case (Cons x items)
  let ?n = "\<lambda>k. C k + open_count (x # items) k prev"
  let ?C' = "C(fst x := C (fst x) + open_at (snd x) t)"
  let ?ev = "map (Pair (fst x)) (interval_events (snd x) t)"
  have adj: "adjacent (interval_ends (snd x)) prev t" "adjacent (item_ends items) prev t"
    using Cons.prems(2) by (auto simp: adjacent_def item_ends_def)
  have nonneg: "\<forall>j. 0 \<le> ?n j"
    using Cons.prems(4) open_count_nonneg by (metis add_nonneg_nonneg)
  have after: "0 \<le> ?n (fst x) + (open_at (snd x) t - open_at (snd x) prev)"
    using Cons.prems(4) [rule_format, of "fst x"] open_count_nonneg [of items "fst x" prev]
      open_at_nonneg [of "snd x" t] by simp
  have "interval_events (snd x) t = (if open_at (snd x) t = open_at (snd x) prev then []
           else [open_at (snd x) t - open_at (snd x) prev])"
    by (rule interval_step [OF _ adj(1)]) (use Cons.prems(1) in simp)
  then have ev: "foldl (\<lambda>m (k, d). bump_span m k d) m ?ev = foldl (\<lambda>m (k, d). bump m k d) m ?ev"
    using counts_span_bump [OF Cons.prems(3) nonneg after] by simp
  have "counts (foldl (\<lambda>m d. bump m (fst x) d) m (interval_events (snd x) t))
      (?n(fst x := ?n (fst x) + (open_at (snd x) t - open_at (snd x) prev)))"
    by (rule counts_interval [OF Cons.prems(3) nonneg _ adj(1) after]) (use Cons.prems(1) in simp)
  moreover have "?n(fst x := ?n (fst x) + (open_at (snd x) t - open_at (snd x) prev))
      = (\<lambda>k. ?C' k + open_count items k prev)"
    by auto
  ultimately have "counts (foldl (\<lambda>m (k, d). bump m k d) m ?ev) (\<lambda>k. ?C' k + open_count items k prev)"
    by (simp add: foldl_map)
  moreover have "\<forall>k. 0 \<le> ?C' k" using Cons.prems(4) by simp
  ultimately have "foldl (\<lambda>m (k, d). bump_span m k d) (foldl (\<lambda>m (k, d). bump m k d) m ?ev) (item_events items t)
      = foldl (\<lambda>m (k, d). bump m k d) (foldl (\<lambda>m (k, d). bump m k d) m ?ev) (item_events items t)
    \<and> counts (foldl (\<lambda>m (k, d). bump m k d) (foldl (\<lambda>m (k, d). bump m k d) m ?ev) (item_events items t))
        (\<lambda>k. ?C' k + open_count items k t)"
    using Cons.IH [OF _ adj(2)] Cons.prems(1) by simp
  moreover have "(\<lambda>k. ?C' k + open_count items k t) = (\<lambda>k. C k + open_count (x # items) k t)"
    by auto
  ultimately show ?case by (simp add: ev)
qed

section \<open>Lemmas: the loop over the points\<close>

definition represents ::
  "(span_key \<times> (int \<times> int) option) list \<Rightarrow> (runtime_kind \<times> (int \<times> int) option) list
   \<Rightarrow> active_counts \<Rightarrow> int \<Rightarrow> bool" where
  "represents sis mis st t \<longleftrightarrow> counts (fst st) (\<lambda>k. open_count sis k t) \<and> counts (snd st) (\<lambda>r. open_count mis r t)"

lemma apply_events_represents:
  assumes "\<forall>x \<in> set sis. proper (snd x)" "\<forall>y \<in> set mis. proper (snd y)"
    and "adjacent (item_ends sis \<union> item_ends mis) prev t" "represents sis mis st prev"
  shows "represents sis mis (foldl apply_event st
      (List.concat (map (\<lambda>x. map (SpanEvent (fst x)) (interval_events (snd x) t)) sis)
       @ List.concat (map (\<lambda>y. map (MaskEvent (fst y)) (interval_events (snd y) t)) mis))) t"
proof -
  obtain a c where st: "st = (a, c)" by (cases st)
  have adj: "adjacent (item_ends sis) prev t" "adjacent (item_ends mis) prev t"
    using assms(3) by (auto simp: adjacent_def)
  have sp: "List.concat (map (\<lambda>x. map (SpanEvent (fst x)) (interval_events (snd x) t)) sis)
      = map (\<lambda>(k, d). SpanEvent k d) (item_events sis t)"
    by (simp add: map_concat comp_def item_events_def)
  have mp: "List.concat (map (\<lambda>x. map (MaskEvent (fst x)) (interval_events (snd x) t)) mis)
      = map (\<lambda>(k, d). MaskEvent k d) (item_events mis t)"
    by (simp add: map_concat comp_def item_events_def)
  have a: "counts a (\<lambda>k. 0 + open_count sis k prev)" and c: "counts c (\<lambda>k. 0 + open_count mis k prev)"
    using assms(4) by (simp_all add: represents_def st)
  show ?thesis
    unfolding sp mp foldl_append st apply_span_events apply_mask_events represents_def
    using counts_items [OF assms(1) adj(1) a] counts_items [OF assms(2) adj(2) c] by simp
qed

lemma counts_keys: "counts m n \<Longrightarrow> fst ` set m = {k. 0 < n k}"
  by (auto simp: counts_def jmap_keys)

definition active_at :: "int \<Rightarrow> int \<Rightarrow> timing_span list \<Rightarrow> int \<Rightarrow> timing_span list" where
  "active_at start end spans t = filter (\<lambda>sp. open_at (span_interval start end sp) t = 1) spans"

definition covered_at :: "int \<Rightarrow> int \<Rightarrow> runtime_mask list \<Rightarrow> int \<Rightarrow> runtime_kind list" where
  "covered_at start end masks t =
     map mk_runtime (filter (\<lambda>m. open_at (clip start end (mk_from m) (mk_to m)) t = 1) masks)"

lemma represents_active:
  assumes "represents (span_items start end spans) (mask_items start end masks) st t"
  shows "set (active_spans st) = set (active_at start end spans t)"
    "set (covered_runtimes st) = set (covered_at start end masks t)"
proof -
  have "fst ` set (fst st) = {k. 0 < open_count (span_items start end spans) k t}"
    by (rule counts_keys) (use assms in \<open>simp add: represents_def\<close>)
  also have "\<dots> = {k \<in> set (enumerate 0 spans). open_at (span_interval start end (snd k)) t = 1}"
    by (auto simp: open_count_pos span_items_def)
  finally have keys: "fst ` set (fst st)
      = {k \<in> set (enumerate 0 spans). open_at (span_interval start end (snd k)) t = 1}" .
  have "set (active_spans st) = snd ` fst ` set (fst st)"
    by (simp add: active_spans_def image_image)
  also have "\<dots> = {sp \<in> snd ` set (enumerate 0 spans). open_at (span_interval start end sp) t = 1}"
    unfolding keys by auto
  also have "snd ` set (enumerate 0 spans) = set spans" by (metis list.set_map map_snd_enumerate)
  finally show "set (active_spans st) = set (active_at start end spans t)" by (simp add: active_at_def)
  have "fst ` set (snd st) = {r. 0 < open_count (mask_items start end masks) r t}"
    by (rule counts_keys) (use assms in \<open>simp add: represents_def\<close>)
  then show "set (covered_runtimes st) = set (covered_at start end masks t)"
    by (auto simp: covered_runtimes_def covered_at_def open_count_pos mask_items_def)
qed

text \<open>The slices of the window, each with the activity and runtime at its start.\<close>

definition activity_at :: "int \<Rightarrow> int \<Rightarrow> timing_span list \<Rightarrow> int \<Rightarrow> string" where
  "activity_at start end spans t = exclusiveActivity (active_at start end spans t)"

definition runtime_at :: "int \<Rightarrow> int \<Rightarrow> timing_span list \<Rightarrow> runtime_mask list \<Rightarrow> int \<Rightarrow> runtime_tag" where
  "runtime_at start end spans masks t =
     classifyRuntime (active_at start end spans t) (covered_at start end masks t)"

definition slices :: "int list \<Rightarrow> (int \<times> int) list" where
  "slices ps = zip ps (tl ps)"

lemma slices_simps [simp]:
  "slices [] = []" "slices [t] = []" "slices (t # u # ps) = (t, u) # slices (u # ps)"
  by (simp_all add: slices_def)

definition sweep_ends :: "int \<Rightarrow> int \<Rightarrow> timing_span list \<Rightarrow> runtime_mask list \<Rightarrow> int set" where
  "sweep_ends start end spans masks =
     item_ends (span_items start end spans) \<union> item_ends (mask_items start end masks)"

fun consecutive :: "int set \<Rightarrow> int \<Rightarrow> int list \<Rightarrow> bool" where
  "consecutive E prev [] \<longleftrightarrow> True"
| "consecutive E prev (t # ps) \<longleftrightarrow> adjacent E prev t \<and> consecutive E t ps"

lemma sweep_step_represents:
  assumes "adjacent (sweep_ends start end spans masks) prev t"
    and "represents (span_items start end spans) (mask_items start end masks) st prev"
  defines "st' \<equiv> foldl apply_event st (coalesce (jmap_get (sweep_points start end spans masks) t) [])"
  shows "represents (span_items start end spans) (mask_items start end masks) st' t"
    "exclusiveActivity (active_spans st') = activity_at start end spans t"
    "classifyRuntime (active_spans st') (covered_runtimes st') = runtime_at start end spans masks t"
proof -
  show r: "represents (span_items start end spans) (mask_items start end masks) st' t"
    unfolding st'_def events_at_def [symmetric] events_at_sweep
    by (rule apply_events_represents [OF _ _ assms(1) [unfolded sweep_ends_def] assms(2)])
      (use items_proper in blast)+
  show "exclusiveActivity (active_spans st') = activity_at start end spans t"
    unfolding activity_at_def by (rule exclusiveActivity_cong [OF represents_active(1) [OF r]])
  show "classifyRuntime (active_spans st') (covered_runtimes st') = runtime_at start end spans masks t"
    unfolding runtime_at_def by (rule classifyRuntime_cong [OF represents_active [OF r]])
qed

lemma sweep_loop_slices:
  assumes "consecutive (sweep_ends start end spans masks) prev ps"
    and "represents (span_items start end spans) (mask_items start end masks) st prev"
  shows "sweep_loop (sweep_points start end spans masks) st ps =
     map (\<lambda>(t, u). \<lparr>rs_start = t, rs_end = u, rs_activity = activity_at start end spans t,
       rs_runtime = runtime_at start end spans masks t\<rparr>) (slices ps)"
  using assms
proof (induction ps arbitrary: prev st)
  case (Cons t ps)
  note step = sweep_step_represents [OF _ Cons.prems(2), of t]
  show ?case
  proof (cases ps)
    case (Cons u ps')
    with Cons.prems(1) have "t < u" by (simp add: adjacent_def)
    with Cons.prems(1) Cons.IH [OF _ step(1)] step(2,3) Cons show ?thesis by simp
  qed simp
qed simp

lemma bucket_loop_slices:
  assumes "consecutive (sweep_ends start end spans masks) prev ps"
    and "represents (span_items start end spans) (mask_items start end masks) st prev"
  shows "bucket_loop (sweep_points start end spans masks) st totals ps =
     foldl (\<lambda>m (t, u). add_total m (activity_at start end spans t) (u - t)) totals (slices ps)"
  using assms
proof (induction ps arbitrary: prev st totals)
  case (Cons t ps)
  note step = sweep_step_represents [OF _ Cons.prems(2), of t]
  show ?case
  proof (cases ps)
    case (Cons u ps')
    with Cons.prems(1) Cons.IH [OF _ step(1)] step(2,3) show ?thesis by simp
  qed simp
qed simp

text \<open>The sorted points start at the window's start, end at its end, and leave no end of an
  interval between two of them.\<close>

lemma sorted_points_facts:
  fixes s0 e0 :: int and spans masks
  assumes "s0 \<le> e0"
  defines "ps \<equiv> sorted_points (sweep_points s0 e0 spans masks)"
  shows "sorted_wrt (<) ps" "set ps = {s0, e0} \<union> sweep_ends s0 e0 spans masks"
    "hd ps = s0" "last ps = e0" "ps \<noteq> []"
proof -
  show set: "set ps = {s0, e0} \<union> sweep_ends s0 e0 spans masks"
    using keys_sweep [of s0 e0 spans masks] by (simp add: ps_def sorted_points_def sweep_ends_def Un_assoc)
  then show ne: "ps \<noteq> []" by auto
  have "mset ps = mset (map fst (sweep_points s0 e0 spans masks))"
    by (simp only: ps_def sorted_points_def mset_js_sort)
  then have "distinct ps" using distinct_sweep mset_eq_imp_distinct_iff by blast
  moreover have "sorted_wrt (\<le>) ps" unfolding ps_def sorted_points_def by (rule int_order.sorted_js_sort)
  ultimately show s: "sorted_wrt (<) ps" by (simp add: strict_sorted_iff)
  have win: "set ps \<subseteq> {s0..e0}"
    using set item_ends_window assms(1) by (auto simp: sweep_ends_def)
  have "s0 \<in> set ps" using set by simp
  then have "hd ps \<le> s0" using s by (cases ps) auto
  moreover have "hd ps \<in> set ps" using ne by simp
  ultimately show "hd ps = s0" using win by force
  have "e0 \<in> set ps" using set by simp
  then have "e0 \<le> last ps"
    using s ne by (cases ps rule: rev_cases) (auto simp: sorted_wrt_append)
  moreover have "last ps \<in> set ps" using ne by simp
  ultimately show "last ps = e0" using win by force
qed

lemma consecutive_sorted:
  assumes "sorted_wrt (<) (prev # ps)" "\<forall>e \<in> E. e \<le> prev \<or> e \<in> set ps"
  shows "consecutive E prev ps"
  using assms
proof (induction ps arbitrary: prev)
  case (Cons t ps)
  have "adjacent E prev t" using Cons.prems by (force simp: adjacent_def)
  moreover have "consecutive E t ps"
  proof (rule Cons.IH)
    show "sorted_wrt (<) (t # ps)" using Cons.prems(1) by simp
    show "\<forall>e \<in> E. e \<le> t \<or> e \<in> set ps"
      using Cons.prems by (metis order.trans order_less_imp_le list.set_intros(1) order_refl
          set_ConsD sorted_wrt.simps(2))
  qed
  ultimately show ?case by simp
qed simp

lemma open_count_before:
  "item_ends items \<subseteq> {s0..} \<Longrightarrow> open_count items k (s0 - 1) = 0"
proof (induction items)
  case (Cons x items)
  then have "open_at (snd x) (s0 - 1) = 0"
    by (cases "snd x") (auto simp: item_ends_def interval_ends_def open_at_def)
  with Cons show ?case by (simp add: item_ends_def)
qed simp

lemma represents_initial:
  "represents (span_items s0 e0 spans) (mask_items s0 e0 masks) ([], []) (s0 - 1)"
proof -
  have "open_count (span_items s0 e0 spans) k (s0 - 1) = 0" for k
    by (rule open_count_before) (use item_ends_window(1) [of s0 e0] in force)
  moreover have "open_count (mask_items s0 e0 masks) r (s0 - 1) = 0" for r
    by (rule open_count_before) (use item_ends_window(2) [of s0 e0] in force)
  ultimately show ?thesis by (simp add: represents_def counts_def)
qed

section \<open>Lemmas: the slices against the time line\<close>

text \<open>A span is live at a time from its start until before its end; an open wait has no end, and
  an open worker span has no measured duration.\<close>

definition live_at :: "int \<Rightarrow> timing_span \<Rightarrow> bool" where
  "live_at t sp \<longleftrightarrow> ts_startedAt sp \<le> t
     \<and> (case ts_finishedAt sp of None \<Rightarrow> is_wait (ts_activity sp) | Some f \<Rightarrow> t < f)"

definition masked_at :: "int \<Rightarrow> runtime_mask list \<Rightarrow> runtime_kind list" where
  "masked_at t masks = map mk_runtime (filter (\<lambda>m. mk_from m \<le> t \<and> t < mk_to m) masks)"

lemma open_at_clip: "s0 \<le> t \<Longrightarrow> t < e0 \<Longrightarrow> open_at (clip s0 e0 a b) t = 1 \<longleftrightarrow> a \<le> t \<and> t < b"
  by (auto simp: open_at_def clip_def Let_def)

lemma open_at_span:
  "s0 \<le> t \<Longrightarrow> t < e0 \<Longrightarrow> open_at (span_interval s0 e0 sp) t = 1 \<longleftrightarrow> live_at t sp"
  by (cases "ts_finishedAt sp")
    (simp_all add: span_interval_def live_at_def open_at_clip open_at_def [of None])

lemma active_at_live:
  "s0 \<le> t \<Longrightarrow> t < e0 \<Longrightarrow> active_at s0 e0 spans t = filter (live_at t) spans"
  by (simp add: active_at_def open_at_span)

lemma covered_at_masked:
  "s0 \<le> t \<Longrightarrow> t < e0 \<Longrightarrow> covered_at s0 e0 masks t = masked_at t masks"
  by (simp add: covered_at_def masked_at_def open_at_clip)

lemma open_at_constant:
  "adjacent (interval_ends iv) t u \<Longrightarrow> t \<le> x \<Longrightarrow> x < u \<Longrightarrow> open_at iv x = open_at iv t"
  by (cases iv) (auto simp: adjacent_def interval_ends_def open_at_def)

lemma span_ends:
  "sp \<in> set spans \<Longrightarrow> interval_ends (span_interval s0 e0 sp) \<subseteq> sweep_ends s0 e0 spans masks"
proof -
  assume "sp \<in> set spans"
  then have "sp \<in> snd ` set (enumerate 0 spans)"
    by (simp only: set_map [symmetric] map_snd_enumerate)
  then obtain k where "k \<in> set (enumerate 0 spans)" "sp = snd k" by (rule imageE) simp
  then show ?thesis by (auto simp: sweep_ends_def item_ends_def span_items_def)
qed

lemma mask_ends:
  "m \<in> set masks \<Longrightarrow> interval_ends (clip s0 e0 (mk_from m) (mk_to m)) \<subseteq> sweep_ends s0 e0 spans masks"
  by (auto simp: sweep_ends_def item_ends_def mask_items_def)

lemma adjacent_mono: "adjacent E t u \<Longrightarrow> E' \<subseteq> E \<Longrightarrow> adjacent E' t u"
  by (auto simp: adjacent_def)

lemma slice_constant:
  assumes "adjacent (sweep_ends s0 e0 spans masks) t u" "t \<le> x" "x < u"
  shows "activity_at s0 e0 spans x = activity_at s0 e0 spans t"
    "runtime_at s0 e0 spans masks x = runtime_at s0 e0 spans masks t"
proof -
  have "open_at (span_interval s0 e0 sp) x = open_at (span_interval s0 e0 sp) t" if "sp \<in> set spans" for sp
    by (rule open_at_constant [OF adjacent_mono [OF assms(1) span_ends [OF that]] assms(2,3)])
  then have a: "active_at s0 e0 spans x = active_at s0 e0 spans t"
    unfolding active_at_def by (intro filter_cong) simp_all
  have "open_at (clip s0 e0 (mk_from m) (mk_to m)) x = open_at (clip s0 e0 (mk_from m) (mk_to m)) t"
    if "m \<in> set masks" for m
    by (rule open_at_constant [OF adjacent_mono [OF assms(1) mask_ends [OF that]] assms(2,3)])
  then have "covered_at s0 e0 masks x = covered_at s0 e0 masks t"
    unfolding covered_at_def by (intro arg_cong [where f = "map mk_runtime"] filter_cong) simp_all
  with a show "activity_at s0 e0 spans x = activity_at s0 e0 spans t"
    "runtime_at s0 e0 spans masks x = runtime_at s0 e0 spans masks t"
    by (simp_all add: activity_at_def runtime_at_def)
qed

lemma consecutive_slices:
  "consecutive E prev ps \<Longrightarrow> (t, u) \<in> set (slices ps) \<Longrightarrow> adjacent E t u"
proof (induction ps arbitrary: prev)
  case (Cons v ps)
  then show ?case by (cases ps) auto
qed simp

lemma sorted_slices: "sorted_wrt (<) ps \<Longrightarrow> (t, u) \<in> set (slices ps) \<Longrightarrow> t < u"
proof (induction ps)
  case (Cons v ps)
  then show ?case by (cases ps) auto
qed simp

text \<open>Writing out a function constant on every slice.\<close>

definition slicewise :: "(int \<Rightarrow> 'a) \<Rightarrow> int list \<Rightarrow> bool" where
  "slicewise f ps \<longleftrightarrow> (\<forall>(t, u) \<in> set (slices ps). \<forall>x \<in> {t..<u}. f x = f t)"

lemma slicewise_Cons: "slicewise f (t # u # ps) \<longleftrightarrow> (\<forall>x \<in> {t..<u}. f x = f t) \<and> slicewise f (u # ps)"
  by (simp add: slicewise_def)

lemma sorted_le_last: "sorted_wrt (<) (u # ps) \<Longrightarrow> u \<le> (last (u # ps) :: int)"
  by (cases ps rule: rev_cases) auto

lemma upto_slices:
  assumes "sorted_wrt (<) ps" "ps \<noteq> []" "slicewise f ps"
  shows "List.concat (map (\<lambda>(t, u). map (\<lambda>x. (x, f t)) [t..u - 1]) (slices ps))
    = map (\<lambda>x. (x, f x)) [hd ps..last ps - 1]"
  using assms
proof (induction ps)
  case (Cons t ps)
  show ?case
  proof (cases ps)
    case (Cons u ps')
    have le: "t < u" "u \<le> last ps" and s: "sorted_wrt (<) ps"
      using Cons.prems(1) sorted_le_last [of u ps'] Cons by auto
    have f: "\<forall>x \<in> {t..<u}. f x = f t" "slicewise f ps"
      using Cons.prems(3) unfolding Cons slicewise_Cons by blast+
    have "map (\<lambda>x. (x, f t)) [t..u - 1] = map (\<lambda>x. (x, f x)) [t..u - 1]"
      by (rule map_cong [OF refl], subst f(1) [rule_format]) auto
    moreover have "List.concat (map (\<lambda>(t, u). map (\<lambda>x. (x, f t)) [t..u - 1]) (slices ps))
        = map (\<lambda>x. (x, f x)) [u..last ps - 1]"
      using Cons.IH [OF s _ f(2)] Cons by simp
    moreover have "[t..last ps - 1] = [t..u - 1] @ [u..last ps - 1]"
      using le upto_split2 [of t "u - 1" "last ps - 1"] by simp
    ultimately show ?thesis by (simp add: Cons)
  qed simp
qed simp

text \<open>A total over the slices counts milliseconds.\<close>

lemma total_slices:
  assumes "sorted_wrt (<) ps" "ps \<noteq> []" "slicewise P ps"
  shows "(\<Sum>(t, u)\<leftarrow>slices ps. if P t then u - t else 0) = int (card {x \<in> {hd ps..<last ps}. P x})"
  using assms
proof (induction ps)
  case (Cons t ps)
  show ?case
  proof (cases ps)
    case (Cons u ps')
    have le: "t < u" "u \<le> last ps" and s: "sorted_wrt (<) ps"
      using Cons.prems(1) sorted_le_last [of u ps'] Cons by auto
    have f: "\<forall>x \<in> {t..<u}. P x = P t" "slicewise P ps"
      using Cons.prems(3) unfolding Cons slicewise_Cons by blast+
    have c: "int (card {x \<in> {t..<u}. P x}) = (if P t then u - t else 0)"
    proof (cases "P t")
      case True
      then have "{x \<in> {t..<u}. P x} = {t..<u}" using f(1) by blast
      then have "card {x \<in> {t..<u}. P x} = card {t..<u}" by (rule arg_cong)
      then show ?thesis using True le by simp
    next
      case False
      then have "{x \<in> {t..<u}. P x} = {}" using f(1) by blast
      then have "card {x \<in> {t..<u}. P x} = card ({} :: int set)" by (rule arg_cong)
      then show ?thesis using False by simp
    qed
    have "{x \<in> {t..<last ps}. P x} = {x \<in> {t..<u}. P x} \<union> {x \<in> {u..<last ps}. P x}"
      using le by auto
    moreover have fin: "finite {x \<in> {a..<b}. P x}" for a b :: int
      by (rule finite_subset [of _ "{a..<b}"]) auto
    moreover have "card ({x \<in> {t..<u}. P x} \<union> {x \<in> {u..<last ps}. P x})
        = card {x \<in> {t..<u}. P x} + card {x \<in> {u..<last ps}. P x}"
      by (rule card_Un_disjoint [OF fin fin]) auto
    moreover have "(\<Sum>(t, u)\<leftarrow>slices ps. if P t then u - t else 0) = int (card {x \<in> {u..<last ps}. P x})"
      using Cons.IH [OF s _ f(2)] Cons by simp
    ultimately show ?thesis using c by (simp add: Cons)
  qed simp
qed simp

section \<open>Lemmas: the sweep and its totals\<close>

lemma sweep_points_consecutive:
  assumes "s0 \<le> e0"
  shows "consecutive (sweep_ends s0 e0 spans masks) (s0 - 1) (sorted_points (sweep_points s0 e0 spans masks))"
proof (rule consecutive_sorted)
  let ?ps = "sorted_points (sweep_points s0 e0 spans masks)"
  note facts = sorted_points_facts [OF assms, of spans masks]
  have "sorted_wrt (<) (hd ?ps # tl ?ps)" using facts(1,5) by simp
  then have "\<forall>x \<in> set ?ps. s0 \<le> x" using facts(3,5) by (cases ?ps) auto
  then show "sorted_wrt (<) ((s0 - 1) # ?ps)" using facts(1) by fastforce
  show "\<forall>e \<in> sweep_ends s0 e0 spans masks. e \<le> s0 - 1 \<or> e \<in> set ?ps" using facts(2) by blast
qed

lemma slicewise_iff:
  "slicewise f ps \<longleftrightarrow> (\<forall>t u x. (t, u) \<in> set (slices ps) \<longrightarrow> t \<le> x \<longrightarrow> x < u \<longrightarrow> f x = f t)"
  unfolding slicewise_def Ball_def split_paired_All case_prod_conv atLeastLessThan_iff by blast

lemma slicewiseI:
  "(\<And>t u x. (t, u) \<in> set (slices ps) \<Longrightarrow> t \<le> x \<Longrightarrow> x < u \<Longrightarrow> f x = f t) \<Longrightarrow> slicewise f ps"
  unfolding slicewise_iff by blast

lemma slicewise_comp: "slicewise f ps \<Longrightarrow> slicewise (\<lambda>x. g (f x)) ps"
  unfolding slicewise_iff by metis

lemma sweep_slicewise:
  assumes "s0 \<le> e0"
  shows "slicewise (\<lambda>x. (activity_at s0 e0 spans x, runtime_at s0 e0 spans masks x))
    (sorted_points (sweep_points s0 e0 spans masks))"
proof (rule slicewiseI)
  fix t u x
  assume "(t, u) \<in> set (slices (sorted_points (sweep_points s0 e0 spans masks)))"
  from consecutive_slices [OF sweep_points_consecutive [OF assms] this]
  have adj: "adjacent (sweep_ends s0 e0 spans masks) t u" .
  assume "t \<le> x" "x < u"
  from slice_constant [OF adj this]
  show "(activity_at s0 e0 spans x, runtime_at s0 e0 spans masks x)
    = (activity_at s0 e0 spans t, runtime_at s0 e0 spans masks t)" by simp
qed

lemmas sweep_slicewise_activity = slicewise_comp [OF sweep_slicewise, where g = "\<lambda>p. fst p = a" for a, simplified]
lemmas sweep_slicewise_both = slicewise_comp [OF sweep_slicewise,
  where g = "\<lambda>p. fst p = a \<and> snd p = r" for a r, simplified]

lemma sweep_slices:
  "s0 \<le> e0 \<Longrightarrow> sweep s0 e0 spans masks =
     map (\<lambda>(t, u). \<lparr>rs_start = t, rs_end = u, rs_activity = activity_at s0 e0 spans t,
       rs_runtime = runtime_at s0 e0 spans masks t\<rparr>)
       (slices (sorted_points (sweep_points s0 e0 spans masks)))"
  unfolding sweep_def Let_def
  by (rule sweep_loop_slices [OF sweep_points_consecutive represents_initial])

definition expand :: "runtime_segment list \<Rightarrow> (int \<times> string \<times> runtime_tag) list" where
  "expand segs = List.concat (map (\<lambda>g. map (\<lambda>x. (x, rs_activity g, rs_runtime g)) [rs_start g..rs_end g - 1]) segs)"

lemma expand_sweep:
  assumes "s0 \<le> e0"
  shows "expand (sweep s0 e0 spans masks)
    = map (\<lambda>x. (x, activity_at s0 e0 spans x, runtime_at s0 e0 spans masks x)) [s0..e0 - 1]"
proof -
  note facts = sorted_points_facts [OF assms, of spans masks]
  have "expand (sweep s0 e0 spans masks) = List.concat (map (\<lambda>(t, u).
      map (\<lambda>x. (x, activity_at s0 e0 spans t, runtime_at s0 e0 spans masks t)) [t..u - 1])
      (slices (sorted_points (sweep_points s0 e0 spans masks))))"
    by (simp add: sweep_slices [OF assms] expand_def comp_def case_prod_unfold)
  then show ?thesis
    using upto_slices [OF facts(1,5) sweep_slicewise [OF assms]] facts(3,4) by simp
qed

text \<open>Adding up durations by key.\<close>

definition key_sum :: "('k \<times> int) list \<Rightarrow> 'k \<Rightarrow> int" where
  "key_sum es k = (\<Sum>(j, d)\<leftarrow>es. if j = k then d else 0)"

definition add_totals :: "('k \<times> int) list \<Rightarrow> ('k \<times> int) list \<Rightarrow> ('k \<times> int) list" where
  "add_totals m es = foldl (\<lambda>m (k, d). add_total m k d) m es"

lemma key_sum_simps [simp]:
  "key_sum [] k = 0" "key_sum ((j, d) # es) k = (if j = k then d else 0) + key_sum es k"
  by (simp_all add: key_sum_def)

lemma add_totals_simps [simp]:
  "add_totals m [] = m" "add_totals m ((k, d) # es) = add_totals (add_total m k d) es"
  by (simp_all add: add_totals_def)

lemma add_totals_get: "coalesce (jmap_get (add_totals m es) k) 0 = coalesce (jmap_get m k) 0 + key_sum es k"
  by (induction es arbitrary: m) (auto simp: add_total_def)

lemma add_totals_None: "jmap_get (add_totals m es) k = None \<longleftrightarrow> jmap_get m k = None \<and> k \<notin> fst ` set es"
  by (induction es arbitrary: m) (force simp: add_total_def split: if_splits)+

lemma distinct_add_totals: "distinct (map fst m) \<Longrightarrow> distinct (map fst (add_totals m es))"
  by (induction es arbitrary: m) (auto simp: add_total_def)

definition bucket_ms :: "string \<Rightarrow> timing_bucket list \<Rightarrow> int" where
  "bucket_ms a bs = (case List.find (\<lambda>b. tb_activity b = a) bs of Some b \<Rightarrow> tb_durationMs b | None \<Rightarrow> 0)"

lemma share_out_entries:
  "map (\<lambda>b. (tb_activity b, tb_durationMs b)) (share_out tot rem es) = es"
  by (induction tot rem es rule: share_out.induct) (simp_all add: Let_def)

lemma bucketShares_entries:
  "map (\<lambda>b. (tb_activity b, tb_durationMs b)) (bucketShares tot es) = filter (\<lambda>(a, d). 0 < d) es"
  unfolding bucketShares_def by (rule share_out_entries)

lemma bucket_ms_map_of:
  "bucket_ms a bs = coalesce (map_of (map (\<lambda>b. (tb_activity b, tb_durationMs b)) bs) a) 0"
  by (induction bs) (auto simp: bucket_ms_def)

lemma map_of_filter_pos:
  "distinct (map fst m) \<Longrightarrow> map_of (filter (\<lambda>(a, d). P d) m) k
     = (case map_of m k of None \<Rightarrow> None | Some d \<Rightarrow> if P d then Some d else None)"
proof (induction m)
  case (Cons x m)
  then show ?case
    by (cases x) (auto split: option.splits simp: map_of_eq_None_iff dest: map_of_SomeD)
qed simp

lemma bucket_ms_shares:
  assumes "distinct (map fst m)" "0 \<le> coalesce (jmap_get m a) 0"
  shows "bucket_ms a (bucketShares tot m) = coalesce (jmap_get m a) 0"
  using assms(2)
  by (auto simp: bucket_ms_map_of bucketShares_entries map_of_filter_pos [OF assms(1)] jmap_get_def
      split: option.splits)

lemma key_sum_slices:
  "key_sum (map (\<lambda>(t, u). (f t, u - t)) sl) k = (\<Sum>(t, u)\<leftarrow>sl. if f t = k then u - t else 0)"
  by (induction sl) auto

lemma timingBuckets_ms:
  "bucket_ms a (timingBuckets (Some s0) (Some e0) spans)
     = int (card {t \<in> {s0..<e0}. activity_at s0 e0 spans t = a})"
proof (cases "s0 < e0")
  case False
  then show ?thesis by (auto simp: timingBuckets_def bucket_ms_def Let_def)
next
  case True
  then have le: "s0 \<le> e0" by simp
  let ?ps = "sorted_points (sweep_points s0 e0 spans [])"
  let ?m = "add_totals [] (map (\<lambda>(t, u). (activity_at s0 e0 spans t, u - t)) (slices ?ps))"
  note facts = sorted_points_facts [OF le, of spans "[]"]
  have "bucket_loop (sweep_points s0 e0 spans []) ([], []) [] ?ps = ?m"
    using bucket_loop_slices [OF sweep_points_consecutive [OF le] represents_initial]
    by (simp add: add_totals_def foldl_map case_prod_unfold)
  moreover have "coalesce (jmap_get ?m a) 0 = int (card {t \<in> {s0..<e0}. activity_at s0 e0 spans t = a})"
    using total_slices [OF facts(1,5) sweep_slicewise_activity [OF le]] facts(3,4)
    by (simp add: add_totals_get key_sum_slices)
  moreover have "distinct (map fst ?m)" by (simp add: distinct_add_totals)
  ultimately show ?thesis
    using True by (simp add: timingBuckets_def Let_def bucket_ms_shares)
qed

section \<open>Lemmas: shares and merged segments\<close>

lemma js_round_nonneg: "0 \<le> x \<Longrightarrow> 0 \<le> js_round x"
  by (simp add: js_round_def)

lemma share_out_percentages:
  assumes "0 < tot" "0 \<le> rem" "\<forall>(a, d) \<in> set es. 0 < d"
  shows "(\<Sum>b\<leftarrow>share_out tot rem es. coalesce (tb_percentage b) 0) = (if es = [] then 0 else of_int rem / 10)
    \<and> (\<forall>b \<in> set (share_out tot rem es). \<exists>n. tb_percentage b = Some (of_int n / 10) \<and> 0 \<le> n \<and> n \<le> rem)"
  using assms
proof (induction tot rem es rule: share_out.induct)
  case (2 tot rem activity d es)
  define n where "n = (if es = [] then rem else min rem (js_round (of_int d / of_int tot * 1000)))"
  have "0 \<le> js_round (of_int d / of_int tot * 1000)"
    using "2.prems" by (intro js_round_nonneg) simp
  then have n: "0 \<le> n" "n \<le> rem" using "2.prems"(2) by (simp_all add: n_def)
  have out: "share_out tot rem ((activity, d) # es)
      = \<lparr>tb_activity = activity, tb_durationMs = d, tb_percentage = Some (of_int n / 10)\<rparr>
        # share_out tot (rem - n) es"
    using "2.prems"(1) by (simp add: n_def Let_def)
  have ih: "(\<Sum>b\<leftarrow>share_out tot (rem - n) es. coalesce (tb_percentage b) 0)
        = (if es = [] then 0 else of_int (rem - n) / 10)
      \<and> (\<forall>b \<in> set (share_out tot (rem - n) es). \<exists>m. tb_percentage b = Some (of_int m / 10) \<and> 0 \<le> m \<and> m \<le> rem - n)"
    using "2.IH" [OF _ "2.prems"(1)] "2.prems" n by (simp add: n_def)
  have "\<exists>m. tb_percentage b = Some (of_int m / 10) \<and> 0 \<le> m \<and> m \<le> rem"
    if "b \<in> set (share_out tot rem ((activity, d) # es))" for b
    using that ih n unfolding out by (auto dest!: bspec)
  moreover have "(\<Sum>b\<leftarrow>share_out tot rem ((activity, d) # es). coalesce (tb_percentage b) 0) = of_int rem / 10"
    unfolding out using ih by (simp add: n_def diff_divide_distrib)
  ultimately show ?case by simp
qed simp

definition continues :: "runtime_segment \<Rightarrow> runtime_segment \<Rightarrow> bool" where
  "continues l g \<longleftrightarrow> rs_end l = rs_start g \<and> rs_activity l = rs_activity g \<and> rs_runtime l = rs_runtime g"

lemma merge_segment_snoc:
  "merge_segment [] g = [g]"
  "merge_segment (xs @ [l]) g = (if continues l g then xs @ [l\<lparr>rs_end := rs_end g\<rparr>] else xs @ [l, g])"
  by (simp_all add: merge_segment_def continues_def)

lemma expand_append: "expand (xs @ ys) = expand xs @ expand ys"
  by (simp add: expand_def)

lemma upto_join: "a \<le> b \<Longrightarrow> b \<le> c \<Longrightarrow> [a..c - 1] = [a..b - 1] @ [b..c - (1 :: int)]"
  using upto_split2 [of a "b - 1" "c - 1"] by (cases "a = b") simp_all

lemma merge_segment_facts:
  assumes "\<forall>x \<in> set (xs @ [g]). rs_start x \<le> rs_end x"
  shows "expand (merge_segment xs g) = expand (xs @ [g])"
    "\<forall>x \<in> set (merge_segment xs g). rs_start x \<le> rs_end x"
    "successively (\<lambda>l g. \<not> continues l g) xs \<Longrightarrow> successively (\<lambda>l g. \<not> continues l g) (merge_segment xs g)"
proof -
  { assume "xs = []"
    then have "expand (merge_segment xs g) = expand (xs @ [g])
      \<and> (\<forall>x \<in> set (merge_segment xs g). rs_start x \<le> rs_end x)
      \<and> (successively (\<lambda>l g. \<not> continues l g) xs \<longrightarrow> successively (\<lambda>l g. \<not> continues l g) (merge_segment xs g))"
      using assms by (simp add: merge_segment_snoc) }
  moreover
  { fix ys l assume xs: "xs = ys @ [l]"
    have up: "[rs_start l..rs_end g - 1] = [rs_start l..rs_end l - 1] @ [rs_start g..rs_end g - 1]"
      if "continues l g"
      using upto_join [of "rs_start l" "rs_end l" "rs_end g"] that assms xs by (simp add: continues_def)
    have "expand (merge_segment xs g) = expand (xs @ [g])"
      unfolding xs merge_segment_snoc using up by (auto simp: expand_def continues_def)
    moreover have "\<forall>x \<in> set (merge_segment xs g). rs_start x \<le> rs_end x"
      unfolding xs merge_segment_snoc using assms xs by (auto simp: continues_def)
    moreover have "successively (\<lambda>l g. \<not> continues l g) (merge_segment xs g)"
      if "successively (\<lambda>l g. \<not> continues l g) xs"
      using that unfolding xs merge_segment_snoc
      by (auto simp: successively_append_iff continues_def)
    ultimately have "expand (merge_segment xs g) = expand (xs @ [g])
      \<and> (\<forall>x \<in> set (merge_segment xs g). rs_start x \<le> rs_end x)
      \<and> (successively (\<lambda>l g. \<not> continues l g) xs \<longrightarrow> successively (\<lambda>l g. \<not> continues l g) (merge_segment xs g))"
      by blast }
  ultimately show "expand (merge_segment xs g) = expand (xs @ [g])"
    "\<forall>x \<in> set (merge_segment xs g). rs_start x \<le> rs_end x"
    "successively (\<lambda>l g. \<not> continues l g) xs \<Longrightarrow> successively (\<lambda>l g. \<not> continues l g) (merge_segment xs g)"
    by (cases xs rule: rev_cases; blast)+
qed

lemma mergeSegments_facts:
  assumes "\<forall>x \<in> set gs. rs_start x \<le> rs_end x"
  shows "expand (mergeSegments gs) = expand gs \<and> (\<forall>x \<in> set (mergeSegments gs). rs_start x \<le> rs_end x)
    \<and> successively (\<lambda>l g. \<not> continues l g) (mergeSegments gs)"
  using assms
proof (induction gs rule: rev_induct)
  case (snoc g gs)
  then have ih: "expand (mergeSegments gs) = expand gs" "\<forall>x \<in> set (mergeSegments gs). rs_start x \<le> rs_end x"
    "successively (\<lambda>l g. \<not> continues l g) (mergeSegments gs)" by simp_all
  have "\<forall>x \<in> set (mergeSegments gs @ [g]). rs_start x \<le> rs_end x" using ih(2) snoc.prems by simp
  from merge_segment_facts [OF this] ih show ?case
    by (simp add: mergeSegments_def expand_append)
qed (simp add: mergeSegments_def)

section \<open>Properties\<close>

text \<open>C26: The timing buckets of a window are exact: the duration of an activity's bucket is the
  number of milliseconds of the window at which the spans live at that millisecond have that
  exclusive activity, and there is no bucket for an activity without such a millisecond.\<close>

theorem timing_buckets_pointwise:
  "bucket_ms a (timingBuckets (Some s0) (Some e0) spans)
     = int (card {t \<in> {s0..<e0}. exclusiveActivity (filter (live_at t) spans) = a})"
proof -
  have "{t \<in> {s0..<e0}. activity_at s0 e0 spans t = a}
      = {t \<in> {s0..<e0}. exclusiveActivity (filter (live_at t) spans) = a}"
    by (auto simp: activity_at_def active_at_live)
  then show ?thesis using timingBuckets_ms [of a s0 e0 spans] by (rule subst)
qed

text \<open>The percentages of the buckets of a positive total are tenths between 0 and 100 that
  add up to exactly 100 when some duration is positive; the buckets keep the positive durations
  in order.\<close>

theorem bucket_shares_total:
  "map (\<lambda>b. (tb_activity b, tb_durationMs b)) (bucketShares tot es) = filter (\<lambda>(a, d). 0 < d) es
   \<and> (\<Sum>b\<leftarrow>bucketShares tot es. coalesce (tb_percentage b) 0)
       = (if 0 < tot \<and> bucketShares tot es \<noteq> [] then 100 else 0)
   \<and> list_all (\<lambda>b. case tb_percentage b of None \<Rightarrow> tot \<le> 0 | Some p \<Rightarrow> 0 \<le> p \<and> p \<le> 100) (bucketShares tot es)"
proof (cases "0 < tot")
  case True
  have "\<forall>(a, d) \<in> set (filter (\<lambda>(a, d). 0 < d) es). 0 < d" by auto
  from share_out_percentages [OF True _ this, of 1000]
  have p: "(\<Sum>b\<leftarrow>bucketShares tot es. coalesce (tb_percentage b) 0)
      = (if filter (\<lambda>(a, d). 0 < d) es = [] then 0 else 100)"
    "\<forall>b \<in> set (bucketShares tot es). \<exists>n. tb_percentage b = Some (of_int n / 10) \<and> 0 \<le> n \<and> n \<le> 1000"
    by (simp_all add: bucketShares_def)
  have "bucketShares tot es = [] \<longleftrightarrow> filter (\<lambda>(a, d). 0 < d) es = []"
    using bucketShares_entries [of tot es] by (metis map_is_Nil_conv)
  moreover have "list_all (\<lambda>b. case tb_percentage b of None \<Rightarrow> tot \<le> 0 | Some p \<Rightarrow> 0 \<le> p \<and> p \<le> 100)
      (bucketShares tot es)"
    using p(2) by (auto simp: list_all_iff dest!: bspec)
  ultimately show ?thesis using True p(1) bucketShares_entries by simp
next
  case False
  have "\<forall>b \<in> set (share_out tot rem xs). tb_percentage b = None" for rem xs
    using False by (induction tot rem xs rule: share_out.induct) (simp_all add: Let_def)
  then have none: "\<forall>b \<in> set (bucketShares tot es). tb_percentage b = None" by (simp add: bucketShares_def)
  then have "(\<Sum>b\<leftarrow>bucketShares tot es. coalesce (tb_percentage b) 0) = (\<Sum>b\<leftarrow>bucketShares tot es. 0)"
    by (intro arg_cong [where f = sum_list] map_cong) simp_all
  then show ?thesis using False none bucketShares_entries by (simp add: list_all_iff)
qed

end
