(* ===== verification/RuntimeTiming.thy ===== *)
theory RuntimeTiming
  imports TimingSweep
begin

text \<open>
  The attribution of a task's time to its runtimes, \<open>apps/api/src/task-executions/task-metrics.ts\<close>:
  which runtime a span belongs to (\<open>inferSpanRuntime\<close>), which attempts and runs mask the window,
  the projection built over the sweep of theory TimingSweep (\<open>projectRuntimeTiming\<close>) and the
  reconciliation it checks itself with (\<open>invariantHolds\<close>), which is proved to hold always.
\<close>

section \<open>Facts\<close>

record usage_row =
  ru_id :: string
  ru_ownerId :: string
  ru_stage :: string
  ru_scope :: string
  ru_runId :: "string option"

record inference_context =
  ic_taskId :: string
  ic_attemptIds :: "string set"
  ic_runIds :: "string set"
  ic_usages :: "(string \<times> usage_row) list"
  ic_deterministicAnalysis :: bool

record attempt_fact =
  af_id :: string
  af_stageType :: string
  af_executor :: "string option"
  af_createdAt :: int
  af_finishedAt :: "int option"

record run_fact =
  rf_id :: string
  rf_createdAt :: int
  rf_finishedAt :: "int option"

record span_fact =
  sf_id :: string
  sf_lane :: string
  sf_label :: string
  sf_activity :: string
  sf_scope :: "string option"
  sf_startedAt :: int
  sf_finishedAt :: "int option"
  sf_intervention :: bool

record projection_input =
  pi_taskId :: string
  pi_start :: "int option"
  pi_end :: "int option"
  pi_analysisStageStatus :: "string option"
  pi_attempts :: "attempt_fact list"
  pi_runs :: "run_fact list"
  pi_spans :: "span_fact list"
  pi_usages :: "usage_row list"

datatype runtime_applicability = RA_MEASURED | RA_PARTIAL | RA_NOT_APPLICABLE | RA_NOT_STARTED

section \<open>The runtime of a span\<close>

definition has_prefix :: "string \<Rightarrow> string \<Rightarrow> bool" where
  "has_prefix p s \<longleftrightarrow> take (length p) s = p"

definition inferSpanRuntime :: "span_fact \<Rightarrow> inference_context \<Rightarrow> runtime_kind option" where
  "inferSpanRuntime sp ctx =
     (let analysis = (if ic_deterministicAnalysis ctx then None else Some RK_SPEC_ANALYSIS);
          usage = (if has_prefix ''model:'' (sf_id sp)
                   then jmap_get (ic_usages ctx) (drop (length ''model:'') (sf_id sp)) else None) in
      if sf_scope sp = Some ''ACCEPTANCE_REVIEW'' then None
      else if sf_intervention sp then Some RK_BROWSER
      else if sf_id sp = ''initial'' \<or> has_prefix ''state:task_executions:'' (sf_id sp) then None
      else if has_prefix ''state:execution_runs:'' (sf_id sp)
              \<or> has_prefix ''state:task_case_executions:'' (sf_id sp) then Some RK_BROWSER
      else if sf_label sp = ''DEPLOYMENT_TARGET_REQUIRED'' \<or> has_prefix ''PROFILE_'' (sf_label sp) then None
      else if (\<exists>u \<in> set_option usage. ru_scope u = ''EXECUTION'' \<and> ru_stage u = ''SPEC_ANALYSIS'') then analysis
      else if (\<exists>u \<in> set_option usage. ru_runId u \<noteq> None \<or> ru_stage u = ''SPEC_EXECUTION'') then Some RK_BROWSER
      else if sf_lane sp \<noteq> ic_taskId ctx \<and> sf_lane sp \<in> ic_attemptIds ctx then analysis
      else if sf_lane sp \<noteq> ic_taskId ctx \<and> sf_lane sp \<in> ic_runIds ctx then Some RK_BROWSER
      else None)"

section \<open>Which attempts are an agent's\<close>

definition analysisAttempts :: "projection_input \<Rightarrow> attempt_fact list" where
  "analysisAttempts input = filter (\<lambda>a. af_stageType a = ''SPEC_ANALYSIS'') (pi_attempts input)"

definition historical_attempt :: "projection_input \<Rightarrow> attempt_fact \<Rightarrow> bool" where
  "historical_attempt input a \<longleftrightarrow> af_executor a = None
     \<and> (list_ex (\<lambda>sp. sf_lane sp = af_id a \<and> sf_lane sp \<noteq> pi_taskId input
            \<and> sf_scope sp \<noteq> Some ''ACCEPTANCE_REVIEW''
            \<and> (sf_activity sp = ''MODEL'' \<or> sf_activity sp = ''TOOL''
               \<or> has_prefix ''model:'' (sf_id sp) \<or> has_prefix ''tool:'' (sf_id sp))) (pi_spans input)
        \<or> list_ex (\<lambda>u. ru_ownerId u = af_id a \<and> ru_stage u = ''SPEC_ANALYSIS''
            \<and> ru_scope u = ''EXECUTION'') (pi_usages input))"

definition historicalAgentIds :: "projection_input \<Rightarrow> string list" where
  "historicalAgentIds input =
     foldl set_add [] (map af_id (filter (historical_attempt input) (analysisAttempts input)))"

definition all_deterministic :: "attempt_fact list \<Rightarrow> bool" where
  "all_deterministic attempts \<longleftrightarrow>
     attempts \<noteq> [] \<and> list_all (\<lambda>a. af_executor a = Some ''DETERMINISTIC'') attempts"

definition analysisApplicability :: "projection_input \<Rightarrow> string list \<Rightarrow> runtime_applicability" where
  "analysisApplicability input historical =
     (let attempts = analysisAttempts input in
      if list_ex (\<lambda>a. af_executor a = Some ''AGENT_RUNTIME'') attempts then RA_MEASURED
      else if list_ex (\<lambda>a. af_id a \<in> set historical) attempts then RA_PARTIAL
      else if all_deterministic attempts then RA_NOT_APPLICABLE
      else if pi_analysisStageStatus input = Some ''SKIPPED'' \<or> pi_analysisStageStatus input = None
      then RA_NOT_APPLICABLE
      else RA_NOT_STARTED)"

definition pausedByAgent :: "span_fact \<Rightarrow> attempt_fact list \<Rightarrow> string list \<Rightarrow> bool" where
  "pausedByAgent sp attempts agentIds \<longleftrightarrow>
     sf_label sp = ''ANALYSIS_INPUT_REQUIRED''
     \<and> (let ended = filter (\<lambda>a. \<exists>f \<in> set_option (af_finishedAt a). f \<le> sf_startedAt sp) attempts;
            latest = foldl (\<lambda>m a. let f = coalesce (af_finishedAt a) 0 in
              case m of None \<Rightarrow> Some f | Some x \<Rightarrow> Some (max x f)) None ended
        in list_ex (\<lambda>a. af_finishedAt a = latest \<and> af_id a \<in> set agentIds) ended)"

section \<open>Shares of the elapsed time\<close>

fun tag_shares_loop ::
  "int \<Rightarrow> (runtime_tag \<Rightarrow> int) \<Rightarrow> runtime_tag option \<Rightarrow> int \<Rightarrow> runtime_tag list
   \<Rightarrow> (runtime_tag \<times> rat option) list" where
  "tag_shares_loop elapsed occupied lastPositive remaining [] = []"
| "tag_shares_loop elapsed occupied lastPositive remaining (tag # tags) =
     (if occupied tag \<le> 0 \<or> lastPositive = None
      then (tag, Some 0) # tag_shares_loop elapsed occupied lastPositive remaining tags
      else (let tenths = (if Some tag = lastPositive then remaining
                          else min remaining (js_round (of_int (occupied tag) / of_int elapsed * 1000)))
            in (tag, Some (of_int tenths / 10))
               # tag_shares_loop elapsed occupied lastPositive (remaining - tenths) tags))"

definition tagShares :: "int \<Rightarrow> (runtime_tag \<Rightarrow> int) \<Rightarrow> (runtime_tag \<times> rat option) list" where
  "tagShares elapsed occupied =
     (if \<not> elapsed > 0 then map (\<lambda>tag. (tag, None)) runtimeOrder
      else (let positive = filter (\<lambda>tag. occupied tag > 0) runtimeOrder in
        tag_shares_loop elapsed occupied (if positive = [] then None else Some (last positive)) 1000
          runtimeOrder))"

section \<open>The projection\<close>

record time_partition =
  pt_activeMs :: int
  pt_waitingMs :: int
  pt_unknownMs :: int

record segment_tally =
  tl_totals :: "(string \<times> int) list"
  tl_occupied :: "runtime_tag \<Rightarrow> int"
  tl_activities :: "runtime_tag \<Rightarrow> (string \<times> int) list"
  tl_partition :: "runtime_tag \<Rightarrow> time_partition"

definition empty_tally :: segment_tally where
  "empty_tally = \<lparr>tl_totals = [], tl_occupied = (\<lambda>_. 0), tl_activities = (\<lambda>_. []),
     tl_partition = (\<lambda>_. \<lparr>pt_activeMs = 0, pt_waitingMs = 0, pt_unknownMs = 0\<rparr>)\<rparr>"

definition add_partition :: "time_partition \<Rightarrow> string \<Rightarrow> int \<Rightarrow> time_partition" where
  "add_partition p a dt =
     (if is_active_activity a then p\<lparr>pt_activeMs := pt_activeMs p + dt\<rparr>
      else if is_wait a then p\<lparr>pt_waitingMs := pt_waitingMs p + dt\<rparr>
      else p\<lparr>pt_unknownMs := pt_unknownMs p + dt\<rparr>)"

definition tally_segment :: "segment_tally \<Rightarrow> runtime_segment \<Rightarrow> segment_tally" where
  "tally_segment ty seg =
     (let dt = rs_end seg - rs_start seg; r = rs_runtime seg; a = rs_activity seg in
      \<lparr>tl_totals = add_total (tl_totals ty) a dt,
       tl_occupied = (tl_occupied ty)(r := tl_occupied ty r + dt),
       tl_activities = (tl_activities ty)(r := add_total (tl_activities ty r) a dt),
       tl_partition = (tl_partition ty)(r := add_partition (tl_partition ty r) a dt)\<rparr>)"

record time_part =
  tp_occupiedMs :: int
  tp_percentage :: "rat option"
  tp_partition :: time_partition
  tp_buckets :: "timing_bucket list"

record cumulative_ms =
  cm_modelMs :: int
  cm_toolMs :: int
  cm_platformMs :: int
  cm_recoveryMs :: int

record runtime_timing =
  rm_runtime :: runtime_kind
  rm_applicability :: runtime_applicability
  rm_part :: time_part
  rm_cumulative :: cumulative_ms

record runtime_projection =
  rj_elapsedMs :: "int option"
  rj_buckets :: "timing_bucket list"
  rj_segments :: "runtime_segment list"
  rj_runtimes :: "runtime_timing list"
  rj_unassigned :: time_part
  rj_overlap :: time_part
  rj_occupiedMs :: int
  rj_ok :: bool

definition elapsed_ms :: "projection_input \<Rightarrow> int option" where
  "elapsed_ms input =
     (case (pi_start input, pi_end input) of
        (Some s, Some e) \<Rightarrow> if s \<le> e then Some (e - s) else None
      | _ \<Rightarrow> None)"

definition execution_spans :: "projection_input \<Rightarrow> span_fact list" where
  "execution_spans input = filter (\<lambda>sp. sf_scope sp \<noteq> Some ''ACCEPTANCE_REVIEW'') (pi_spans input)"

definition inference_context_of :: "projection_input \<Rightarrow> inference_context" where
  "inference_context_of input =
     \<lparr>ic_taskId = pi_taskId input,
      ic_attemptIds = set (map af_id (analysisAttempts input)),
      ic_runIds = set (map rf_id (pi_runs input)),
      ic_usages = foldl (\<lambda>m u. jmap_set m (ru_id u) u) [] (pi_usages input),
      ic_deterministicAnalysis = all_deterministic (analysisAttempts input)\<rparr>"

definition timed_spans :: "projection_input \<Rightarrow> timing_span list" where
  "timed_spans input = map (\<lambda>sp. \<lparr>ts_activity = sf_activity sp, ts_lane = sf_lane sp,
     ts_startedAt = sf_startedAt sp, ts_finishedAt = sf_finishedAt sp,
     ts_runtime = inferSpanRuntime sp (inference_context_of input)\<rparr>) (execution_spans input)"

definition case_wait_span :: "projection_input \<Rightarrow> span_fact \<Rightarrow> bool" where
  "case_wait_span input sp \<longleftrightarrow> has_prefix ''state:task_case_executions:'' (sf_id sp)
     \<and> sf_lane sp \<notin> set (map rf_id (pi_runs input))"

definition agent_attempts :: "projection_input \<Rightarrow> attempt_fact list" where
  "agent_attempts input = filter (\<lambda>a. af_executor a = Some ''AGENT_RUNTIME''
     \<or> af_id a \<in> set (historicalAgentIds input)) (analysisAttempts input)"

definition mask :: "runtime_kind \<Rightarrow> int \<Rightarrow> int \<Rightarrow> runtime_mask" where
  "mask r a b = \<lparr>mk_runtime = r, mk_from = a, mk_to = b\<rparr>"

definition runtime_masks :: "projection_input \<Rightarrow> int \<Rightarrow> runtime_mask list" where
  "runtime_masks input windowEnd =
     (let agent = agent_attempts input; execution = execution_spans input;
          close = (\<lambda>f. coalesce f windowEnd) in
      map (\<lambda>a. mask RK_SPEC_ANALYSIS (af_createdAt a) (close (af_finishedAt a))) agent
      @ map (\<lambda>sp. mask RK_SPEC_ANALYSIS (sf_startedAt sp) (close (sf_finishedAt sp)))
          (filter (\<lambda>sp. pausedByAgent sp (analysisAttempts input) (map af_id agent)) execution)
      @ map (\<lambda>r. mask RK_BROWSER (rf_createdAt r) (close (rf_finishedAt r))) (pi_runs input)
      @ map (\<lambda>sp. mask RK_BROWSER (sf_startedAt sp) (close (sf_finishedAt sp)))
          (filter (case_wait_span input) execution))"

definition runtime_segments :: "projection_input \<Rightarrow> runtime_segment list" where
  "runtime_segments input =
     (case (pi_start input, pi_end input) of
        (Some s, Some e) \<Rightarrow> if s \<le> e then sweep s e (timed_spans input) (runtime_masks input e) else []
      | _ \<Rightarrow> [])"

definition add_cumulative :: "string \<Rightarrow> int \<Rightarrow> cumulative_ms \<Rightarrow> cumulative_ms" where
  "add_cumulative a dt c =
     (if a = ''MODEL'' then c\<lparr>cm_modelMs := cm_modelMs c + dt\<rparr>
      else if a = ''TOOL'' then c\<lparr>cm_toolMs := cm_toolMs c + dt\<rparr>
      else if a = ''PLATFORM'' then c\<lparr>cm_platformMs := cm_platformMs c + dt\<rparr>
      else c\<lparr>cm_recoveryMs := cm_recoveryMs c + dt\<rparr>)"

definition cumulative_step ::
  "int \<Rightarrow> int \<Rightarrow> (runtime_kind \<Rightarrow> cumulative_ms) \<Rightarrow> timing_span \<Rightarrow> runtime_kind \<Rightarrow> cumulative_ms" where
  "cumulative_step s e c sp =
     (case (ts_runtime sp, ts_finishedAt sp) of
        (Some r, Some f) \<Rightarrow>
          if \<not> is_work (ts_activity sp) then c
          else (let from = max s (ts_startedAt sp); to = min e f in
            if to \<le> from then c else c(r := add_cumulative (ts_activity sp) (to - from) (c r)))
      | _ \<Rightarrow> c)"

definition cumulative_times :: "projection_input \<Rightarrow> runtime_kind \<Rightarrow> cumulative_ms" where
  "cumulative_times input =
     (let zero = (\<lambda>_. \<lparr>cm_modelMs = 0, cm_toolMs = 0, cm_platformMs = 0, cm_recoveryMs = 0\<rparr>) in
      case (elapsed_ms input, pi_start input, pi_end input) of
        (Some _, Some s, Some e) \<Rightarrow> foldl (cumulative_step s e) zero (timed_spans input)
      | _ \<Rightarrow> zero)"

definition time_part_of :: "segment_tally \<Rightarrow> (runtime_tag \<times> rat option) list \<Rightarrow> runtime_tag \<Rightarrow> time_part" where
  "time_part_of ty shares tag =
     \<lparr>tp_occupiedMs = tl_occupied ty tag, tp_percentage = coalesce (map_of shares tag) None,
      tp_partition = tl_partition ty tag,
      tp_buckets = bucketShares (tl_occupied ty tag) (tl_activities ty tag)\<rparr>"

section \<open>The reconciliation\<close>

definition bucket_total :: "timing_bucket list \<Rightarrow> int" where
  "bucket_total bs = (\<Sum>b\<leftarrow>bs. tb_durationMs b)"

definition class_total :: "(string \<Rightarrow> bool) \<Rightarrow> timing_bucket list \<Rightarrow> int" where
  "class_total P bs = (\<Sum>b\<leftarrow>filter (\<lambda>b. P (tb_activity b)) bs. tb_durationMs b)"

definition invariantHolds :: "int option \<Rightarrow> timing_bucket list \<Rightarrow> time_part list \<Rightarrow> bool" where
  "invariantHolds elapsedMs buckets parts =
     (case elapsedMs of
        None \<Rightarrow> True
      | Some elapsed \<Rightarrow>
          \<not> 0 < elapsed
          \<or> (bucket_total buckets = elapsed
             \<and> (\<Sum>p\<leftarrow>parts. tp_occupiedMs p) = elapsed
             \<and> list_all (\<lambda>p. bucket_total (tp_buckets p) = tp_occupiedMs p
                  \<and> pt_activeMs (tp_partition p) + pt_waitingMs (tp_partition p)
                      + pt_unknownMs (tp_partition p) = tp_occupiedMs p) parts
             \<and> list_all (\<lambda>a. bucket_ms a buckets = (\<Sum>p\<leftarrow>parts. bucket_ms a (tp_buckets p)))
                  (map tb_activity buckets @ List.concat (map (\<lambda>p. map tb_activity (tp_buckets p)) parts))
             \<and> (\<Sum>p\<leftarrow>parts. pt_activeMs (tp_partition p)) = class_total is_active_activity buckets
             \<and> (\<Sum>p\<leftarrow>parts. pt_waitingMs (tp_partition p)) = class_total is_wait buckets
             \<and> (\<Sum>p\<leftarrow>parts. pt_unknownMs (tp_partition p)) = class_total (\<lambda>a. a = ''UNKNOWN'') buckets))"

definition projectRuntimeTiming :: "projection_input \<Rightarrow> runtime_projection" where
  "projectRuntimeTiming input =
     (let elapsedMs = elapsed_ms input;
          segments = runtime_segments input;
          ty = foldl tally_segment empty_tally segments;
          buckets = (if elapsedMs = None \<or> elapsedMs = Some 0 then []
                     else bucketShares (the elapsedMs) (tl_totals ty));
          shares = tagShares (coalesce elapsedMs 0) (tl_occupied ty);
          applicability = (\<lambda>r. case r of
              RK_SPEC_ANALYSIS \<Rightarrow> analysisApplicability input (historicalAgentIds input)
            | RK_BROWSER \<Rightarrow> if pi_runs input \<noteq> [] \<or> list_ex (case_wait_span input) (execution_spans input)
                then RA_MEASURED else RA_NOT_STARTED);
          runtimes = map (\<lambda>r. \<lparr>rm_runtime = r, rm_applicability = applicability r,
              rm_part = time_part_of ty shares (tag_of r), rm_cumulative = cumulative_times input r\<rparr>)
            [RK_SPEC_ANALYSIS, RK_BROWSER];
          unassigned = time_part_of ty shares RT_UNASSIGNED;
          overlap = time_part_of ty shares RT_OVERLAP
      in \<lparr>rj_elapsedMs = elapsedMs, rj_buckets = buckets, rj_segments = mergeSegments segments,
          rj_runtimes = runtimes, rj_unassigned = unassigned, rj_overlap = overlap,
          rj_occupiedMs = sum_list (map (tl_occupied ty) runtimeOrder),
          rj_ok = invariantHolds elapsedMs buckets (map rm_part runtimes @ [unassigned, overlap])\<rparr>)"

section \<open>Lemmas: the tally\<close>

definition where_sum :: "('k \<Rightarrow> bool) \<Rightarrow> ('k \<times> int) list \<Rightarrow> int" where
  "where_sum P es = (\<Sum>(k, d)\<leftarrow>es. if P k then d else 0)"

lemma where_sum_simps [simp]:
  "where_sum P [] = 0" "where_sum P ((k, d) # es) = (if P k then d else 0) + where_sum P es"
  by (simp_all add: where_sum_def)

lemma where_sum_set:
  "distinct (map fst m) \<Longrightarrow> where_sum P (jmap_set m j v)
     = where_sum P m + (if P j then v - coalesce (jmap_get m j) 0 else 0)"
  unfolding jmap_set_def jmap_get_def
proof (induction m)
  case (Cons x m)
  have "map_of m j = None" if "j = fst x" using Cons.prems that by (simp add: map_of_eq_None_iff)
  with Cons show ?case by (cases x) auto
qed simp

lemma where_sum_add_total:
  "distinct (map fst m) \<Longrightarrow> where_sum P (add_total m k d) = where_sum P m + (if P k then d else 0)"
  by (simp add: add_total_def where_sum_set)

lemma jmap_set_entries: "(j, v) \<in> set (jmap_set m k d) \<Longrightarrow> (j, v) \<in> set m \<or> (j = k \<and> v = d)"
  unfolding jmap_set_def by (induction m) (auto split: if_splits)

lemma add_total_pos:
  assumes "\<forall>(k, v) \<in> set m. 0 < v" "0 < d"
  shows "\<forall>(k, v) \<in> set (add_total m k d). 0 < v"
proof -
  have "0 \<le> coalesce (jmap_get m k) 0"
    using assms(1) by (cases "jmap_get m k") (auto simp: jmap_get_def dest!: map_of_SomeD)
  then show ?thesis using assms by (auto simp: add_total_def dest!: jmap_set_entries)
qed

text \<open>The segments are tallied by activity, by runtime and by both.\<close>

definition seg_ms :: "runtime_segment \<Rightarrow> int" where
  "seg_ms g = rs_end g - rs_start g"

definition segs_where :: "(runtime_segment \<Rightarrow> bool) \<Rightarrow> runtime_segment list \<Rightarrow> int" where
  "segs_where P gs = (\<Sum>g\<leftarrow>gs. if P g then seg_ms g else 0)"

lemma segs_where_snoc [simp]:
  "segs_where P [] = 0" "segs_where P (gs @ [g]) = segs_where P gs + (if P g then seg_ms g else 0)"
  by (simp_all add: segs_where_def)

definition good_map :: "(string \<times> int) list \<Rightarrow> (runtime_segment \<Rightarrow> bool) \<Rightarrow> runtime_segment list \<Rightarrow> bool" where
  "good_map m P gs \<longleftrightarrow> distinct (map fst m) \<and> (\<forall>(k, v) \<in> set m. 0 < v)
     \<and> (\<forall>Q. where_sum Q m = segs_where (\<lambda>g. P g \<and> Q (rs_activity g)) gs)
     \<and> (\<forall>a. coalesce (jmap_get m a) 0 = segs_where (\<lambda>g. P g \<and> rs_activity g = a) gs)"

lemma good_map_add:
  assumes "good_map m P gs" "0 < seg_ms g"
  shows "good_map (if P g then add_total m (rs_activity g) (seg_ms g) else m) P (gs @ [g])"
proof (cases "P g")
  case True
  have "distinct (map fst m)" "\<forall>(k, v) \<in> set m. 0 < v" using assms(1) by (simp_all add: good_map_def)
  then show ?thesis
    using True assms add_total_pos [of m "seg_ms g" "rs_activity g"]
    by (simp add: good_map_def where_sum_add_total, simp add: add_total_def)
next
  case False
  then show ?thesis using assms(1) by (simp add: good_map_def)
qed

definition tally_of :: "segment_tally \<Rightarrow> runtime_segment list \<Rightarrow> bool" where
  "tally_of ty gs \<longleftrightarrow> good_map (tl_totals ty) (\<lambda>_. True) gs
     \<and> (\<forall>r. good_map (tl_activities ty r) (\<lambda>g. rs_runtime g = r) gs)
     \<and> (\<forall>r. tl_occupied ty r = segs_where (\<lambda>g. rs_runtime g = r) gs)
     \<and> (\<forall>r. pt_activeMs (tl_partition ty r)
            = segs_where (\<lambda>g. rs_runtime g = r \<and> is_active_activity (rs_activity g)) gs
          \<and> pt_waitingMs (tl_partition ty r)
            = segs_where (\<lambda>g. rs_runtime g = r \<and> is_wait (rs_activity g)) gs
          \<and> pt_unknownMs (tl_partition ty r)
            = segs_where (\<lambda>g. rs_runtime g = r \<and> \<not> is_active_activity (rs_activity g)
                \<and> \<not> is_wait (rs_activity g)) gs)"

lemma wait_not_active: "is_wait a \<Longrightarrow> \<not> is_active_activity a"
  by (auto simp: is_wait_def is_active_activity_def)

lemma tally_segment_simps:
  "tl_totals (tally_segment ty g) = add_total (tl_totals ty) (rs_activity g) (seg_ms g)"
  "tl_activities (tally_segment ty g) r = (if rs_runtime g = r
     then add_total (tl_activities ty r) (rs_activity g) (seg_ms g) else tl_activities ty r)"
  "tl_occupied (tally_segment ty g) r = tl_occupied ty r + (if rs_runtime g = r then seg_ms g else 0)"
  "tl_partition (tally_segment ty g) r = (if rs_runtime g = r
     then add_partition (tl_partition ty r) (rs_activity g) (seg_ms g) else tl_partition ty r)"
  by (simp_all add: tally_segment_def seg_ms_def Let_def)

lemma add_partition_simps:
  "pt_activeMs (add_partition p a d) = pt_activeMs p + (if is_active_activity a then d else 0)"
  "pt_waitingMs (add_partition p a d) = pt_waitingMs p + (if is_wait a then d else 0)"
  "pt_unknownMs (add_partition p a d) = pt_unknownMs p + (if \<not> is_active_activity a \<and> \<not> is_wait a then d else 0)"
  by (auto simp: add_partition_def wait_not_active)

lemma tally_of_fold:
  assumes "\<forall>g \<in> set gs. 0 < seg_ms g"
  shows "tally_of (foldl tally_segment empty_tally gs) gs"
  using assms
proof (induction gs rule: rev_induct)
  case Nil
  have "good_map [] P []" for P by (simp add: good_map_def)
  then show ?case by (simp add: tally_of_def empty_tally_def)
next
  case (snoc g gs)
  let ?ty = "foldl tally_segment empty_tally gs"
  have ty: "tally_of ?ty gs" and g: "0 < seg_ms g" using snoc by simp_all
  have "good_map (tl_totals (tally_segment ?ty g)) (\<lambda>_. True) (gs @ [g])"
    using good_map_add [OF _ g, of "tl_totals ?ty" "\<lambda>_. True" gs] ty
    by (simp add: tally_of_def tally_segment_simps)
  moreover have "good_map (tl_activities (tally_segment ?ty g) r) (\<lambda>g. rs_runtime g = r) (gs @ [g])" for r
    using good_map_add [OF _ g, of "tl_activities ?ty r" "\<lambda>g. rs_runtime g = r" gs] ty
    by (simp add: tally_of_def tally_segment_simps)
  ultimately show ?case
    using ty by (simp add: tally_of_def tally_segment_simps add_partition_simps)
qed

section \<open>Lemmas: the reconciliation\<close>

lemma where_sum_buckets:
  "class_total P bs = where_sum P (map (\<lambda>b. (tb_activity b, tb_durationMs b)) bs)"
  by (induction bs) (simp_all add: class_total_def)

lemma bucket_total_class: "bucket_total bs = class_total (\<lambda>_. True) bs"
  by (simp add: bucket_total_def class_total_def)

lemma good_map_buckets:
  assumes "good_map m P gs"
  shows "class_total Q (bucketShares tot m) = segs_where (\<lambda>g. P g \<and> Q (rs_activity g)) gs"
    "bucket_ms a (bucketShares tot m) = segs_where (\<lambda>g. P g \<and> rs_activity g = a) gs"
proof -
  have d: "distinct (map fst m)" and pos: "\<forall>(k, v) \<in> set m. 0 < v"
    using assms by (simp_all add: good_map_def)
  have "filter (\<lambda>(a, d). 0 < d) m = m" using pos by (simp add: filter_id_conv)
  then show "class_total Q (bucketShares tot m) = segs_where (\<lambda>g. P g \<and> Q (rs_activity g)) gs"
    using assms by (simp add: where_sum_buckets bucketShares_entries good_map_def)
  have "0 \<le> coalesce (jmap_get m a) 0"
    using pos by (cases "jmap_get m a") (auto simp: jmap_get_def dest!: map_of_SomeD)
  then show "bucket_ms a (bucketShares tot m) = segs_where (\<lambda>g. P g \<and> rs_activity g = a) gs"
    using bucket_ms_shares [OF d] assms by (simp add: good_map_def)
qed

lemma segs_where_tags:
  "segs_where (\<lambda>g. rs_runtime g = RT_SPEC_ANALYSIS \<and> P g) gs
     + (segs_where (\<lambda>g. rs_runtime g = RT_BROWSER \<and> P g) gs
     + (segs_where (\<lambda>g. rs_runtime g = RT_UNASSIGNED \<and> P g) gs
     + segs_where (\<lambda>g. rs_runtime g = RT_OVERLAP \<and> P g) gs)) = segs_where P gs"
proof (induction gs rule: rev_induct)
  case (snoc g gs)
  then show ?case by (cases "rs_runtime g") simp_all
qed simp

lemma segs_where_class:
  "segs_where (\<lambda>g. P g \<and> is_active_activity (rs_activity g)) gs
     + segs_where (\<lambda>g. P g \<and> is_wait (rs_activity g)) gs
     + segs_where (\<lambda>g. P g \<and> \<not> is_active_activity (rs_activity g) \<and> \<not> is_wait (rs_activity g)) gs
   = segs_where P gs"
  by (induction gs rule: rev_induct) (auto simp: wait_not_active)

lemma segs_where_cong: "(\<And>g. g \<in> set gs \<Longrightarrow> P g = Q g) \<Longrightarrow> segs_where P gs = segs_where Q gs"
  unfolding segs_where_def by (intro arg_cong [where f = sum_list] map_cong) simp_all

text \<open>Every exclusive activity is active, a wait, or unknown.\<close>

lemma category_cases:
  fixes R W :: "string list"
  assumes "\<forall>r \<in> set R. is_active_activity r" "\<forall>w \<in> set W. is_wait w"
  defines "x \<equiv> (case R of r # _ # _ \<Rightarrow> ''PARALLEL'' | [r] \<Rightarrow> r
     | [] \<Rightarrow> (case W of w # _ # _ \<Rightarrow> ''MIXED_WAIT'' | [w] \<Rightarrow> w | [] \<Rightarrow> ''UNKNOWN''))"
  shows "is_active_activity x \<or> is_wait x \<or> x = ''UNKNOWN''"
proof -
  have named: "is_active_activity ''PARALLEL''" "is_wait ''MIXED_WAIT''"
    by (simp_all add: is_active_activity_def is_wait_def)
  show ?thesis
    unfolding x_def using assms(1,2) named
    by (cases R; cases "tl R"; cases W; cases "tl W") simp_all
qed

lemma exclusive_category:
  "is_active_activity (exclusiveActivity xs) \<or> is_wait (exclusiveActivity xs) \<or> exclusiveActivity xs = ''UNKNOWN''"
proof -
  let ?acts = "foldl set_add [] (List.concat (map (\<lambda>(lane, kinds). lane_kinds kinds) (active_lanes xs)))"
  have "\<forall>r \<in> set (filter is_work ?acts). is_active_activity r"
    by (auto simp: is_work_def is_active_activity_def)
  moreover have "\<forall>w \<in> set (filter is_wait ?acts). is_wait w" by simp
  ultimately show ?thesis
    unfolding exclusiveActivity_def Let_def by (simp add: category_cases)
qed

lemma sweep_segments:
  assumes "s0 \<le> e0" "g \<in> set (sweep s0 e0 spans masks)"
  shows "0 < seg_ms g" "\<not> is_active_activity (rs_activity g) \<and> \<not> is_wait (rs_activity g) \<longleftrightarrow>
    rs_activity g = ''UNKNOWN''"
proof -
  from assms(2) obtain t u where tu: "(t, u) \<in> set (slices (sorted_points (sweep_points s0 e0 spans masks)))"
    and g: "g = \<lparr>rs_start = t, rs_end = u, rs_activity = activity_at s0 e0 spans t,
       rs_runtime = runtime_at s0 e0 spans masks t\<rparr>"
    by (auto simp: sweep_slices [OF assms(1)])
  have "t < u" by (rule sorted_slices [OF sorted_points_facts(1) [OF assms(1)] tu])
  then show "0 < seg_ms g" by (simp add: g seg_ms_def)
  have "\<not> is_active_activity ''UNKNOWN''" "\<not> is_wait ''UNKNOWN''"
    by (simp_all add: is_active_activity_def is_wait_def)
  then show "\<not> is_active_activity (rs_activity g) \<and> \<not> is_wait (rs_activity g) \<longleftrightarrow> rs_activity g = ''UNKNOWN''"
    using exclusive_category [of "active_at s0 e0 spans t"] by (auto simp: g activity_at_def)
qed

lemma segs_where_sweep:
  assumes "s0 \<le> e0"
  shows "segs_where (\<lambda>g. Q (rs_activity g, rs_runtime g)) (sweep s0 e0 spans masks)
    = int (card {t \<in> {s0..<e0}. Q (activity_at s0 e0 spans t, runtime_at s0 e0 spans masks t)})"
proof -
  let ?ps = "sorted_points (sweep_points s0 e0 spans masks)"
  let ?P = "\<lambda>t. Q (activity_at s0 e0 spans t, runtime_at s0 e0 spans masks t)"
  note facts = sorted_points_facts [OF assms, of spans masks]
  have "segs_where (\<lambda>g. Q (rs_activity g, rs_runtime g)) (sweep s0 e0 spans masks)
      = (\<Sum>(t, u)\<leftarrow>slices ?ps. if ?P t then u - t else 0)"
    by (simp add: sweep_slices [OF assms] segs_where_def comp_def case_prod_unfold seg_ms_def cong: if_cong)
  also have "\<dots> = int (card {x \<in> {hd ?ps..<last ?ps}. ?P x})"
    by (rule total_slices [OF facts(1,5) slicewise_comp [OF sweep_slicewise [OF assms]]])
  finally show ?thesis using facts(3,4) by simp
qed

lemma reconciled:
  assumes "tally_of ty gs" "\<forall>g \<in> set gs. \<not> is_active_activity (rs_activity g) \<and> \<not> is_wait (rs_activity g)
      \<longleftrightarrow> rs_activity g = ''UNKNOWN''" "segs_where (\<lambda>_. True) gs = elapsed"
  shows "invariantHolds (Some elapsed) (bucketShares tot (tl_totals ty))
    (map (time_part_of ty shares) [RT_SPEC_ANALYSIS, RT_BROWSER, RT_UNASSIGNED, RT_OVERLAP])"
proof -
  have total: "good_map (tl_totals ty) (\<lambda>_. True) gs" using assms(1) by (simp add: tally_of_def)
  have acts: "good_map (tl_activities ty r) (\<lambda>g. rs_runtime g = r) gs" for r
    using assms(1) by (simp add: tally_of_def)
  have occ: "tl_occupied ty r = segs_where (\<lambda>g. rs_runtime g = r) gs" for r
    using assms(1) by (simp add: tally_of_def)
  have part: "pt_activeMs (tl_partition ty r) = segs_where (\<lambda>g. rs_runtime g = r \<and> is_active_activity (rs_activity g)) gs"
    "pt_waitingMs (tl_partition ty r) = segs_where (\<lambda>g. rs_runtime g = r \<and> is_wait (rs_activity g)) gs"
    "pt_unknownMs (tl_partition ty r) = segs_where (\<lambda>g. rs_runtime g = r \<and> rs_activity g = ''UNKNOWN'') gs" for r
    using assms(1) segs_where_cong [of gs "\<lambda>g. rs_runtime g = r \<and> \<not> is_active_activity (rs_activity g)
        \<and> \<not> is_wait (rs_activity g)" "\<lambda>g. rs_runtime g = r \<and> rs_activity g = ''UNKNOWN''"] assms(2)
    by (auto simp: tally_of_def)
  have cls: "segs_where (\<lambda>g. rs_runtime g = r \<and> is_active_activity (rs_activity g)) gs
      + segs_where (\<lambda>g. rs_runtime g = r \<and> is_wait (rs_activity g)) gs
      + segs_where (\<lambda>g. rs_runtime g = r \<and> rs_activity g = ''UNKNOWN'') gs
      = segs_where (\<lambda>g. rs_runtime g = r) gs" for r
    using segs_where_class [of "\<lambda>g. rs_runtime g = r" gs] part(3) [of r] assms(1) by (simp add: tally_of_def)
  note tags = segs_where_tags [of "\<lambda>_. True" gs, simplified]
  show ?thesis
    unfolding invariantHolds_def time_part_of_def
    by (simp add: bucket_total_class good_map_buckets [OF total] good_map_buckets [OF acts]
        part occ cls assms(3) segs_where_tags tags list_all_iff)
qed

section \<open>Lemmas: shares of the runtimes\<close>

lemma tag_shares_keys: "map fst (tag_shares_loop n occ l rem tags) = tags"
  by (induction n occ l rem tags rule: tag_shares_loop.induct) (simp_all add: Let_def)

lemma tag_shares_none:
  "filter (\<lambda>t. 0 < occ t) tags = [] \<Longrightarrow> (\<Sum>x\<leftarrow>tag_shares_loop n occ l rem tags. coalesce (snd x) 0) = 0"
  by (induction tags arbitrary: rem) (auto simp: not_less split: if_splits)

lemma tag_shares_sum:
  assumes "filter (\<lambda>t. 0 < occ t) tags \<noteq> []" "l = Some (last (filter (\<lambda>t. 0 < occ t) tags))" "distinct tags"
  shows "(\<Sum>x\<leftarrow>tag_shares_loop n occ l rem tags. coalesce (snd x) 0) = of_int rem / 10"
  using assms
proof (induction tags arbitrary: rem)
  case (Cons t tags)
  show ?case
  proof (cases "0 < occ t")
    case False
    then show ?thesis using Cons.IH [of rem] Cons.prems by simp
  next
    case True
    define k where "k = (if Some t = l then rem else min rem (js_round (of_int (occ t) / of_int n * 1000)))"
    have out: "tag_shares_loop n occ l rem (t # tags) = (t, Some (of_int k / 10)) # tag_shares_loop n occ l (rem - k) tags"
      using True Cons.prems(2) by (simp add: k_def Let_def)
    show ?thesis
    proof (cases "filter (\<lambda>t. 0 < occ t) tags = []")
      case none: True
      then have "k = rem" using Cons.prems(2) True by (simp add: k_def)
      then show ?thesis unfolding out using tag_shares_none [OF none] by simp
    next
      case False
      then have "(\<Sum>x\<leftarrow>tag_shares_loop n occ l (rem - k) tags. coalesce (snd x) 0) = of_int (rem - k) / 10"
        using Cons.IH [of "rem - k"] Cons.prems True by simp
      then show ?thesis unfolding out by (simp add: diff_divide_distrib)
    qed
  qed
qed simp

lemma map_of_keys:
  "distinct (map fst xs) \<Longrightarrow> (\<Sum>k\<leftarrow>map fst xs. f (map_of xs k)) = (\<Sum>x\<leftarrow>xs. f (Some (snd x)))"
proof (induction xs)
  case (Cons x xs)
  have "(\<Sum>k\<leftarrow>map fst xs. f (map_of (x # xs) k)) = (\<Sum>k\<leftarrow>map fst xs. f (map_of xs k))"
    using Cons.prems by (intro arg_cong [where f = sum_list] map_cong) (auto simp: image_iff)
  with Cons show ?case by simp
qed simp

lemma tagShares_sum:
  assumes "(\<Sum>t\<leftarrow>runtimeOrder. occ t) = n"
  shows "(\<Sum>t\<leftarrow>runtimeOrder. coalesce (coalesce (map_of (tagShares n occ) t) None) 0)
    = (if 0 < n then 100 else (0 :: rat))"
proof -
  have keys: "map fst (tagShares n occ) = runtimeOrder"
    by (simp add: tagShares_def tag_shares_keys Let_def comp_def)
  have dist: "distinct runtimeOrder" by (simp add: runtimeOrder_def)
  have "(\<Sum>t\<leftarrow>runtimeOrder. coalesce (coalesce (map_of (tagShares n occ) t) None) 0)
      = (\<Sum>x\<leftarrow>tagShares n occ. coalesce (snd x) 0)"
    using map_of_keys [of "tagShares n occ" "\<lambda>v. coalesce (coalesce v None) 0"] dist
    unfolding keys by simp
  also have "\<dots> = (if 0 < n then 100 else 0)"
  proof (cases "0 < n")
    case True
    have "filter (\<lambda>t. 0 < occ t) runtimeOrder \<noteq> []"
    proof
      assume "filter (\<lambda>t. 0 < occ t) runtimeOrder = []"
      then have "(\<Sum>t\<leftarrow>runtimeOrder. occ t) \<le> 0"
        by (auto simp: runtimeOrder_def not_less split: if_splits)
      then show False using True assms by simp
    qed
    then show ?thesis
      using True tag_shares_sum [OF _ refl dist, of occ n 1000] by (simp add: tagShares_def)
  qed (simp add: tagShares_def comp_def sum_list_triv)
  finally show ?thesis .
qed

section \<open>Lemmas: the projection over a window\<close>

definition projection_part :: "runtime_projection \<Rightarrow> runtime_tag \<Rightarrow> time_part" where
  "projection_part p tag =
     (case tag of
        RT_SPEC_ANALYSIS \<Rightarrow> rm_part (rj_runtimes p ! 0)
      | RT_BROWSER \<Rightarrow> rm_part (rj_runtimes p ! 1)
      | RT_UNASSIGNED \<Rightarrow> rj_unassigned p
      | RT_OVERLAP \<Rightarrow> rj_overlap p)"

definition segment_tally_of :: "projection_input \<Rightarrow> segment_tally" where
  "segment_tally_of input = foldl tally_segment empty_tally (runtime_segments input)"

lemma projection_parts:
  "projection_part (projectRuntimeTiming input) tag = time_part_of (segment_tally_of input)
     (tagShares (coalesce (elapsed_ms input) 0) (tl_occupied (segment_tally_of input))) tag"
  by (cases tag) (simp_all add: projection_part_def projectRuntimeTiming_def segment_tally_of_def Let_def)

lemma window_segments:
  "g \<in> set (runtime_segments input) \<Longrightarrow> 0 < seg_ms g
     \<and> (\<not> is_active_activity (rs_activity g) \<and> \<not> is_wait (rs_activity g) \<longleftrightarrow> rs_activity g = ''UNKNOWN'')"
proof -
  assume "g \<in> set (runtime_segments input)"
  then obtain s e where "s \<le> e" "g \<in> set (sweep s e (timed_spans input) (runtime_masks input e))"
    by (auto simp: runtime_segments_def split: option.splits if_splits)
  from sweep_segments [OF this] show ?thesis by blast
qed

lemma window_tally: "tally_of (segment_tally_of input) (runtime_segments input)"
  unfolding segment_tally_of_def by (rule tally_of_fold) (use window_segments in blast)

lemma window_sum:
  "pi_start input = Some s \<Longrightarrow> pi_end input = Some e \<Longrightarrow>
     segs_where (\<lambda>g. Q (rs_activity g, rs_runtime g)) (runtime_segments input)
       = int (card {t \<in> {s..<e}. Q (activity_at s e (timed_spans input) t,
           runtime_at s e (timed_spans input) (runtime_masks input e) t)})"
  by (cases "s \<le> e") (auto simp: runtime_segments_def segs_where_sweep segs_where_def [of _ "[]"])

lemma window_total: "elapsed_ms input = Some n \<Longrightarrow> segs_where (\<lambda>_. True) (runtime_segments input) = n"
proof -
  assume "elapsed_ms input = Some n"
  then obtain s e where w: "pi_start input = Some s" "pi_end input = Some e" "s \<le> e" "n = e - s"
    by (auto simp: elapsed_ms_def split: option.splits if_splits)
  have "{t \<in> {s..<e}. True} = {s..<e}" by blast
  then have "card {t \<in> {s..<e}. True} = nat (e - s)" by (simp only: card_atLeastLessThan_int)
  then show ?thesis using window_sum [OF w(1,2), of "\<lambda>_. True"] w(3,4) by simp
qed

lemma window_no_time: "elapsed_ms input = None \<Longrightarrow> runtime_segments input = []"
  by (auto simp: elapsed_ms_def runtime_segments_def split: option.splits if_splits)

lemma occupied_sum:
  "(\<Sum>t\<leftarrow>runtimeOrder. tl_occupied (segment_tally_of input) t) = coalesce (elapsed_ms input) 0"
proof -
  have "(\<Sum>t\<leftarrow>runtimeOrder. tl_occupied (segment_tally_of input) t)
      = segs_where (\<lambda>_. True) (runtime_segments input)"
    using window_tally [of input] segs_where_tags [of "\<lambda>_. True" "runtime_segments input"]
    by (simp add: tally_of_def runtimeOrder_def)
  also have "\<dots> = coalesce (elapsed_ms input) 0"
    using window_total [of input] window_no_time [of input] by (cases "elapsed_ms input") simp_all
  finally show ?thesis .
qed

section \<open>Properties\<close>

text \<open>The projection reconciles: for every input, the check it runs on itself holds. The
  buckets of a positive window and the times of the four runtime parts each add up to the elapsed
  time, each part's buckets and its active, waiting and unknown times add up to the part, and both
  views agree for every activity and every class of activities.\<close>

theorem runtime_attribution_reconciles: "rj_ok (projectRuntimeTiming input)"
proof (cases "elapsed_ms input")
  case None
  then show ?thesis by (simp add: projectRuntimeTiming_def invariantHolds_def Let_def)
next
  case (Some n)
  show ?thesis
  proof (cases "n = 0")
    case True
    then show ?thesis using Some by (simp add: projectRuntimeTiming_def invariantHolds_def Let_def)
  next
    case False
    have "invariantHolds (Some n) (bucketShares n (tl_totals (segment_tally_of input)))
      (map (time_part_of (segment_tally_of input) (tagShares n (tl_occupied (segment_tally_of input))))
        [RT_SPEC_ANALYSIS, RT_BROWSER, RT_UNASSIGNED, RT_OVERLAP])"
      by (rule reconciled [OF window_tally _ window_total [OF Some]]) (use window_segments in blast)
    then show ?thesis
      using Some False by (simp add: projectRuntimeTiming_def segment_tally_of_def Let_def)
  qed
qed

text \<open>The segments, written out millisecond by millisecond, are the window itself in order:
  every millisecond once, with the exclusive activity of the spans live then and the runtime
  that those spans and the masks over it give. No segment continues the one before it. Without a
  valid window there are none.\<close>

theorem runtime_segments_pointwise:
  "let segs = rj_segments (projectRuntimeTiming input); spans = timed_spans input in
   case (pi_start input, pi_end input) of
     (Some s, Some e) \<Rightarrow>
       expand segs = map (\<lambda>t. (t, exclusiveActivity (filter (live_at t) spans),
           classifyRuntime (filter (live_at t) spans) (masked_at t (runtime_masks input e)))) [s..e - 1]
       \<and> successively (\<lambda>l g. \<not> continues l g) segs
   | _ \<Rightarrow> segs = []"
proof -
  have segs: "rj_segments (projectRuntimeTiming input) = mergeSegments (runtime_segments input)"
    by (simp add: projectRuntimeTiming_def Let_def)
  have "\<forall>g \<in> set (runtime_segments input). rs_start g \<le> rs_end g"
    using window_segments [of _ input] by (force simp: seg_ms_def)
  note merged = mergeSegments_facts [OF this]
  have none: "mergeSegments [] = []" by (simp add: mergeSegments_def)
  have "expand (runtime_segments input) = map (\<lambda>t. (t, exclusiveActivity (filter (live_at t) (timed_spans input)),
      classifyRuntime (filter (live_at t) (timed_spans input)) (masked_at t (runtime_masks input e)))) [s..e - 1]"
    if w: "pi_start input = Some s" "pi_end input = Some e" for s e
  proof (cases "s \<le> e")
    case True
    have "expand (runtime_segments input) = map (\<lambda>x. (x, activity_at s e (timed_spans input) x,
        runtime_at s e (timed_spans input) (runtime_masks input e) x)) [s..e - 1]"
      using expand_sweep [OF True] True w by (simp add: runtime_segments_def)
    also have "\<dots> = map (\<lambda>t. (t, exclusiveActivity (filter (live_at t) (timed_spans input)),
      classifyRuntime (filter (live_at t) (timed_spans input)) (masked_at t (runtime_masks input e)))) [s..e - 1]"
      by (rule map_cong) (simp_all add: activity_at_def runtime_at_def active_at_live covered_at_masked)
    finally show ?thesis .
  next
    case False
    then show ?thesis using w by (simp add: runtime_segments_def expand_def)
  qed
  then show ?thesis
    unfolding Let_def segs using merged none
    by (auto simp: runtime_segments_def split: option.split)
qed

text \<open>The time a runtime occupies is the number of milliseconds of the window attributed to
  it, its buckets split them by activity, and the task's own buckets are those of
  \<open>timingBuckets\<close> over the same spans. The percentages of the four parts add up to 100 for a
  positive window.\<close>

theorem runtime_occupied_pointwise:
  "let p = projectRuntimeTiming input; spans = timed_spans input in
   case (pi_start input, pi_end input) of
     (Some s, Some e) \<Rightarrow>
       (let runtime = (\<lambda>t. classifyRuntime (filter (live_at t) spans) (masked_at t (runtime_masks input e)));
            activity = (\<lambda>t. exclusiveActivity (filter (live_at t) spans)) in
        tp_occupiedMs (projection_part p r) = int (card {t \<in> {s..<e}. runtime t = r})
        \<and> bucket_ms a (tp_buckets (projection_part p r))
            = int (card {t \<in> {s..<e}. runtime t = r \<and> activity t = a})
        \<and> bucket_ms a (rj_buckets p) = bucket_ms a (timingBuckets (Some s) (Some e) spans)
        \<and> rj_occupiedMs p = max 0 (e - s)
        \<and> (\<Sum>q\<leftarrow>runtimeOrder. coalesce (tp_percentage (projection_part p q)) 0) = (if s < e then 100 else 0))
   | _ \<Rightarrow> rj_occupiedMs p = 0"
proof (cases "\<exists>s e. pi_start input = Some s \<and> pi_end input = Some e")
  case False
  then have "elapsed_ms input = None" by (auto simp: elapsed_ms_def split: option.splits)
  then have "rj_occupiedMs (projectRuntimeTiming input) = 0"
    using occupied_sum [of input] by (simp add: projectRuntimeTiming_def segment_tally_of_def Let_def)
  then show ?thesis using False by (auto simp: Let_def split: option.split)
next
  case True
  then obtain s e where w: "pi_start input = Some s" "pi_end input = Some e" by blast
  let ?p = "projectRuntimeTiming input" and ?spans = "timed_spans input"
  let ?masks = "runtime_masks input e"
  have act: "activity_at s e ?spans t = exclusiveActivity (filter (live_at t) ?spans)"
    and run: "runtime_at s e ?spans ?masks t = classifyRuntime (filter (live_at t) ?spans) (masked_at t ?masks)"
    if "t \<in> {s..<e}" for t
    using that by (simp_all add: activity_at_def runtime_at_def active_at_live covered_at_masked)
  note ty = window_tally [of input, unfolded tally_of_def]
  have occ: "tl_occupied (segment_tally_of input) r = segs_where (\<lambda>g. rs_runtime g = r) (runtime_segments input)"
    using ty by blast
  have set_r: "{t \<in> {s..<e}. runtime_at s e ?spans ?masks t = r}
      = {t \<in> {s..<e}. classifyRuntime (filter (live_at t) ?spans) (masked_at t ?masks) = r}"
    by (rule Collect_cong) (use run in auto)
  have 1: "tp_occupiedMs (projection_part ?p r)
      = int (card {t \<in> {s..<e}. classifyRuntime (filter (live_at t) ?spans) (masked_at t ?masks) = r})"
    unfolding projection_parts time_part_of_def time_part.simps occ set_r [symmetric]
    using window_sum [OF w, of "\<lambda>x. snd x = r"] by (simp only: snd_conv)
  have good: "good_map (tl_activities (segment_tally_of input) r) (\<lambda>g. rs_runtime g = r) (runtime_segments input)"
    using ty by blast
  have set_ra: "{t \<in> {s..<e}. runtime_at s e ?spans ?masks t = r \<and> activity_at s e ?spans t = a}
      = {t \<in> {s..<e}. classifyRuntime (filter (live_at t) ?spans) (masked_at t ?masks) = r
          \<and> exclusiveActivity (filter (live_at t) ?spans) = a}"
    by (rule Collect_cong) (use run act in auto)
  have 2: "bucket_ms a (tp_buckets (projection_part ?p r))
      = int (card {t \<in> {s..<e}. classifyRuntime (filter (live_at t) ?spans) (masked_at t ?masks) = r
          \<and> exclusiveActivity (filter (live_at t) ?spans) = a})"
    unfolding projection_parts time_part_of_def time_part.simps good_map_buckets(2) [OF good] set_ra [symmetric]
    using window_sum [OF w, of "\<lambda>x. snd x = r \<and> fst x = a"] by (simp only: snd_conv fst_conv)
  have total: "good_map (tl_totals (segment_tally_of input)) (\<lambda>_. True) (runtime_segments input)"
    using ty by blast
  have "bucket_ms a (rj_buckets ?p) = int (card {t \<in> {s..<e}. activity_at s e ?spans t = a})"
  proof (cases "s < e")
    case True
    then show ?thesis
      using window_sum [OF w, of "\<lambda>x. fst x = a"] good_map_buckets(2) [OF total] w
      by (simp add: projectRuntimeTiming_def elapsed_ms_def segment_tally_of_def Let_def)
  next
    case False
    then have "rj_buckets ?p = []" using w by (auto simp: projectRuntimeTiming_def elapsed_ms_def Let_def)
    then show ?thesis using False by (simp add: bucket_ms_def)
  qed
  then have 3: "bucket_ms a (rj_buckets ?p) = bucket_ms a (timingBuckets (Some s) (Some e) ?spans)"
    by (simp only: timingBuckets_ms)
  have 4: "rj_occupiedMs ?p = max 0 (e - s)"
    using occupied_sum [of input] w
    by (simp add: projectRuntimeTiming_def segment_tally_of_def elapsed_ms_def Let_def)
  have 5: "(\<Sum>q\<leftarrow>runtimeOrder. coalesce (tp_percentage (projection_part ?p q)) 0) = (if s < e then 100 else (0 :: rat))"
    using tagShares_sum [OF occupied_sum, of input] w
    by (auto simp: projection_parts time_part_of_def elapsed_ms_def split: if_splits)
  show ?thesis using w 1 2 3 4 5 by (simp add: Let_def)
qed

end
