(* ===== verification/TokenUsage.thy ===== *)
theory TokenUsage
  imports Prelude
begin

text \<open>
  Token accounting of \<open>apps/api/src/task-executions/task-metrics.ts\<close>: reading a provider's usage
  object (\<open>normalizeUsage\<close>), the totals of a set of calls (\<open>tokenMetric\<close>, \<open>usageTotals\<close>) and the
  summary per model (\<open>summarizeModels\<close>).

  A \<open>bigint\<close> is an \<open>int\<close>; the decimal string the code prints of a total is the number itself. The
  key of a group, the JSON text of three strings, is the triple. The copy of the raw usage that
  \<open>normalizeUsage\<close> also returns is left out.
\<close>

section \<open>Reading a usage object\<close>

record normalized_usage =
  nu_inputTokens :: "int option"
  nu_outputTokens :: "int option"
  nu_cacheReadTokens :: "int option"
  nu_issues :: "string list"

definition max_safe_integer :: int where
  "max_safe_integer = 9007199254740991"

text \<open>\<open>number\<close>: a safe integer that is not negative.\<close>

definition safe_number :: "js \<Rightarrow> int option" where
  "safe_number v = (case v of
     JNum x \<Rightarrow> if of_int \<lfloor>x\<rfloor> = x \<and> 0 \<le> x \<and> \<lfloor>x\<rfloor> \<le> max_safe_integer then Some \<lfloor>x\<rfloor> else None
   | _ \<Rightarrow> None)"

text \<open>\<open>read\<close>: the number under a key, and the issue where something else is there.\<close>

definition read_issue :: "js \<Rightarrow> string \<Rightarrow> string list" where
  "read_issue raw key =
     (if js_prop raw key \<noteq> JUndefined \<and> safe_number (js_prop raw key) = None then [''INVALID_'' @ key] else [])"

definition differ :: "int option \<Rightarrow> int option \<Rightarrow> bool" where
  "differ a b \<longleftrightarrow> (case (a, b) of (Some x, Some y) \<Rightarrow> x \<noteq> y | _ \<Rightarrow> False)"

definition flag :: "bool \<Rightarrow> string \<Rightarrow> string list" where
  "flag b s = (if b then [s] else [])"

definition exceeds_input :: "int option \<Rightarrow> int option \<Rightarrow> bool" where
  "exceeds_input cache inputTokens \<longleftrightarrow>
     (case (cache, inputTokens) of (Some c, Some n) \<Rightarrow> c > n | _ \<Rightarrow> False)"

definition sum_differs :: "int option \<Rightarrow> int option \<Rightarrow> int option \<Rightarrow> bool" where
  "sum_differs a b tot \<longleftrightarrow>
     (case (a, b, tot) of (Some x, Some y, Some z) \<Rightarrow> z \<noteq> x + y | _ \<Rightarrow> False)"

text \<open>The cache reads that survive the checks against the other numbers.\<close>

definition settled_cache :: "int option \<Rightarrow> int option \<Rightarrow> int option \<Rightarrow> int option \<Rightarrow> int option" where
  "settled_cache hit nested miss inputTokens =
     (let cache1 = (if differ hit nested then None else coalesce_opt hit nested);
          cache2 = (if exceeds_input cache1 inputTokens then None else cache1)
      in if sum_differs hit miss inputTokens then None else cache2)"

definition normalizeUsage :: "js \<Rightarrow> normalized_usage" where
  "normalizeUsage value =
     (let raw = js_obj value; read = (\<lambda>key. safe_number (js_prop raw key));
          prompt = read ''prompt_tokens''; input = read ''input_tokens'';
          completion = read ''completion_tokens''; output = read ''output_tokens'';
          inputTokens = coalesce_opt prompt input; outputTokens = coalesce_opt completion output;
          nestedRaw = js_coalesce (js_prop (js_obj (js_prop raw ''prompt_tokens_details'')) ''cached_tokens'')
                        (js_prop (js_obj (js_prop raw ''input_tokens_details'')) ''cached_tokens'');
          nested = safe_number nestedRaw;
          hit = read ''prompt_cache_hit_tokens''; miss = read ''prompt_cache_miss_tokens'';
          cacheConflict = differ hit nested;
          cache1 = (if cacheConflict then None else coalesce_opt hit nested)
      in \<lparr>nu_inputTokens = (if differ prompt input then None else inputTokens),
          nu_outputTokens = (if differ completion output then None else outputTokens),
          nu_cacheReadTokens = settled_cache hit nested miss inputTokens,
          nu_issues =
            read_issue raw ''prompt_tokens'' @ read_issue raw ''input_tokens''
            @ read_issue raw ''completion_tokens'' @ read_issue raw ''output_tokens''
            @ flag (differ prompt input) ''INPUT_CONFLICT''
            @ flag (differ completion output) ''OUTPUT_CONFLICT''
            @ read_issue raw ''prompt_cache_hit_tokens'' @ read_issue raw ''prompt_cache_miss_tokens''
            @ flag (nestedRaw \<noteq> JUndefined \<and> nested = None) ''INVALID_CACHE''
            @ flag cacheConflict ''CACHE_CONFLICT'' @ flag (exceeds_input cache1 inputTokens) ''CACHE_EXCEEDS_INPUT''
            @ flag (sum_differs hit miss inputTokens) ''CACHE_SUM_CONFLICT''
            @ read_issue raw ''total_tokens'' @ flag (sum_differs inputTokens outputTokens (read ''total_tokens'')) ''TOTAL_CONFLICT''\<rparr>)"

section \<open>Totals\<close>

record usage_fact =
  uf_configurationId :: "string option"
  uf_configurationName :: "string option"
  uf_requestedModel :: string
  uf_responseModel :: "string option"
  uf_scope :: string
  uf_outcome :: string
  uf_inputTokens :: "int option"
  uf_outputTokens :: "int option"
  uf_cacheReadTokens :: "int option"
  uf_durationMs :: "int option"

record token_metric =
  tm_known :: "int option"
  tm_reportedCalls :: int
  tm_missingCalls :: int

definition known_values :: "'a option list \<Rightarrow> 'a list" where
  "known_values values = List.map_filter id values"

definition tokenMetric :: "int option list \<Rightarrow> token_metric" where
  "tokenMetric values =
     (let known = known_values values in
      \<lparr>tm_known = (if known \<noteq> [] then Some (sum_list known)
                   else if values \<noteq> [] then None else Some 0),
       tm_reportedCalls = int (length known),
       tm_missingCalls = int (length values) - int (length known)\<rparr>)"

datatype usage_coverage = UC_COMPLETE | UC_PARTIAL | UC_UNAVAILABLE

record usage_totals =
  ut_calls :: int
  ut_input :: token_metric
  ut_output :: token_metric
  ut_cacheRead :: token_metric
  ut_total :: token_metric
  ut_coverage :: usage_coverage

definition call_total :: "usage_fact \<Rightarrow> int option" where
  "call_total c = (case (uf_inputTokens c, uf_outputTokens c) of
     (Some i, Some k) \<Rightarrow> Some (i + k) | _ \<Rightarrow> None)"

definition usageTotals :: "usage_fact list \<Rightarrow> usage_totals" where
  "usageTotals calls =
     (let tot = tokenMetric (map call_total calls) in
      \<lparr>ut_calls = int (length calls), ut_input = tokenMetric (map uf_inputTokens calls),
       ut_output = tokenMetric (map uf_outputTokens calls),
       ut_cacheRead = tokenMetric (map uf_cacheReadTokens calls), ut_total = tot,
       ut_coverage = (if tm_missingCalls tot = 0 then UC_COMPLETE
                      else if tm_reportedCalls tot \<noteq> 0 then UC_PARTIAL else UC_UNAVAILABLE)\<rparr>)"

section \<open>The summary per model\<close>

type_synonym usage_key = "string \<times> string option \<times> string"

definition usage_key :: "usage_fact \<Rightarrow> usage_key" where
  "usage_key c = (uf_scope c, coalesce_opt (uf_configurationId c) (uf_configurationName c),
     coalesce (uf_responseModel c) (uf_requestedModel c))"

definition group_calls :: "usage_fact list \<Rightarrow> (usage_key \<times> usage_fact list) list" where
  "group_calls calls = foldl (\<lambda>groups c. jmap_set groups (usage_key c)
     (coalesce (jmap_get groups (usage_key c)) [] @ [c])) [] calls"

record model_summary =
  ms_key :: usage_key
  ms_model :: string
  ms_configurationName :: "string option"
  ms_scope :: string
  ms_totals :: usage_totals
  ms_failedCalls :: int
  ms_interruptedCalls :: int
  ms_runningCalls :: int
  ms_cacheHitRate :: "rat option"
  ms_cacheCoveredCalls :: int
  ms_requestDurationMs :: int

definition abandoned :: "bool \<Rightarrow> usage_fact \<Rightarrow> bool" where
  "abandoned terminal c \<longleftrightarrow> terminal \<and> uf_scope c = ''EXECUTION''"

definition count_calls :: "(usage_fact \<Rightarrow> bool) \<Rightarrow> usage_fact list \<Rightarrow> int" where
  "count_calls P rows = int (length (filter P rows))"

text \<open>Division of \<open>bigint\<close>s truncates towards zero.\<close>

definition bigint_div :: "int \<Rightarrow> int \<Rightarrow> int" where
  "bigint_div a b = sgn a * sgn b * (\<bar>a\<bar> div \<bar>b\<bar>)"

definition summarize_group :: "bool \<Rightarrow> usage_key \<times> usage_fact list \<Rightarrow> model_summary" where
  "summarize_group terminal entry =
     (let (key, rows) = entry; first = hd rows;
          covered = filter (\<lambda>c. uf_inputTokens c \<noteq> None \<and> uf_cacheReadTokens c \<noteq> None) rows;
          input = (\<Sum>c\<leftarrow>covered. coalesce (uf_inputTokens c) 0);
          cache = (\<Sum>c\<leftarrow>covered. coalesce (uf_cacheReadTokens c) 0) in
      \<lparr>ms_key = key, ms_model = coalesce (uf_responseModel first) (uf_requestedModel first),
       ms_configurationName = uf_configurationName first, ms_scope = uf_scope first,
       ms_totals = usageTotals rows,
       ms_failedCalls = count_calls (\<lambda>c. uf_outcome c = ''FAILED'') rows,
       ms_interruptedCalls = count_calls (\<lambda>c. uf_outcome c = ''INTERRUPTED''
          \<or> (abandoned terminal c \<and> uf_outcome c = ''RUNNING'')) rows,
       ms_runningCalls = count_calls (\<lambda>c. uf_outcome c = ''RUNNING'' \<and> \<not> abandoned terminal c) rows,
       ms_cacheHitRate = (if input \<noteq> 0 then Some (of_int (bigint_div (cache * 100000) input) / 1000) else None),
       ms_cacheCoveredCalls = int (length covered),
       ms_requestDurationMs = (\<Sum>c\<leftarrow>rows. coalesce (uf_durationMs c) 0)\<rparr>)"

definition summarizeModels :: "usage_fact list \<Rightarrow> bool \<Rightarrow> model_summary list" where
  "summarizeModels calls terminal =
     js_sort (\<lambda>a b. ms_requestDurationMs b \<le> ms_requestDurationMs a)
       (map (summarize_group terminal) (group_calls calls))"

section \<open>Lemmas\<close>

lemma group_calls_snoc:
  "group_calls (xs @ [c]) = jmap_set (group_calls xs) (usage_key c)
     (coalesce (jmap_get (group_calls xs) (usage_key c)) [] @ [c])"
  by (simp add: group_calls_def)

lemma group_calls_get:
  "jmap_get (group_calls xs) k =
     (let rows = filter (\<lambda>c. usage_key c = k) xs in if rows = [] then None else Some rows)"
proof (induction xs rule: rev_induct)
  case Nil
  show ?case by (simp add: group_calls_def)
next
  case (snoc c xs)
  then show ?case by (auto simp: group_calls_snoc Let_def)
qed

lemma distinct_group_calls: "distinct (map fst (group_calls xs))"
proof (induction xs rule: rev_induct)
  case (snoc c xs)
  then show ?case by (simp add: group_calls_snoc jmap_set_def distinct_update)
qed (simp add: group_calls_def)

lemma group_calls_entry:
  "(k, rows) \<in> set (group_calls xs) \<longleftrightarrow> rows \<noteq> [] \<and> rows = filter (\<lambda>c. usage_key c = k) xs"
proof -
  have "(k, rows) \<in> set (group_calls xs) \<longleftrightarrow> jmap_get (group_calls xs) k = Some rows"
    by (simp add: jmap_get_def distinct_group_calls)
  then show ?thesis by (auto simp: group_calls_get Let_def)
qed

lemma sum_groups:
  fixes f :: "usage_fact \<Rightarrow> int"
  shows "(\<Sum>(k, rows)\<leftarrow>group_calls xs. \<Sum>c\<leftarrow>rows. f c) = (\<Sum>c\<leftarrow>xs. f c)"
proof (induction xs rule: rev_induct)
  case Nil
  show ?case by (simp add: group_calls_def)
next
  case (snoc c xs)
  have "(\<Sum>(k, rows)\<leftarrow>jmap_set m k0 (coalesce (jmap_get m k0) [] @ [c]). \<Sum>c\<leftarrow>rows. f c)
      = (\<Sum>(k, rows)\<leftarrow>m. \<Sum>c\<leftarrow>rows. f c) + f c" if "distinct (map fst m)" for m and k0 :: usage_key
    using that unfolding jmap_set_def jmap_get_def
  proof (induction m)
    case (Cons x m)
    have "map_of m k0 = None" if "k0 = fst x" using Cons.prems that by (simp add: map_of_eq_None_iff)
    with Cons show ?case by (cases x) auto
  qed simp
  from this [OF distinct_group_calls] snoc show ?case by (simp add: group_calls_snoc)
qed

interpretation by_duration: comparator "\<lambda>a b. ms_requestDurationMs b \<le> ms_requestDurationMs a"
  by unfold_locales auto

lemma safe_number_range: "safe_number x = Some n \<Longrightarrow> 0 \<le> n \<and> n \<le> max_safe_integer"
  by (auto simp: safe_number_def split: js.splits if_splits)

lemma agreed_number:
  "(if differ (safe_number x) (safe_number y) then None else coalesce_opt (safe_number x) (safe_number y)) = Some n \<Longrightarrow>
     0 \<le> n \<and> n \<le> max_safe_integer \<and> safe_number x \<in> {None, Some n} \<and> safe_number y \<in> {None, Some n}
     \<and> coalesce_opt (safe_number x) (safe_number y) = Some n"
  using safe_number_range [of x] safe_number_range [of y]
  by (cases "safe_number x"; cases "safe_number y") (auto simp: differ_def split: if_splits)

lemma settled_cache_bound:
  "settled_cache (safe_number x) (safe_number y) miss inputTokens = Some c \<Longrightarrow>
     0 \<le> c \<and> (case inputTokens of None \<Rightarrow> True | Some n \<Rightarrow> c \<le> n)"
  using safe_number_range [of x] safe_number_range [of y]
  by (cases "safe_number x"; cases "safe_number y"; cases inputTokens)
    (auto simp: settled_cache_def exceeds_input_def Let_def split: if_splits)

section \<open>Properties\<close>

text \<open>What is kept of a usage object is consistent: every token number kept is a safe integer
  that is not negative, the cache reads never exceed the input, two spellings of the input or the
  output that disagree leave none, and a reported total that is not the sum of the input and the
  output it was read with is flagged.\<close>

theorem normalized_usage_consistent:
  "let u = normalizeUsage v; raw = js_obj v in
     (case nu_cacheReadTokens u of None \<Rightarrow> True | Some c \<Rightarrow> 0 \<le> c
        \<and> (case nu_inputTokens u of None \<Rightarrow> True | Some n \<Rightarrow> c \<le> n))
     \<and> (case nu_inputTokens u of None \<Rightarrow> True | Some n \<Rightarrow> 0 \<le> n \<and> n \<le> max_safe_integer
          \<and> safe_number (js_prop raw ''prompt_tokens'') \<in> {None, Some n}
          \<and> (safe_number (js_prop raw ''input_tokens'') \<in> {None, Some n}))
     \<and> (case nu_outputTokens u of None \<Rightarrow> True | Some n \<Rightarrow> 0 \<le> n \<and> n \<le> max_safe_integer
          \<and> safe_number (js_prop raw ''completion_tokens'') \<in> {None, Some n}
          \<and> (safe_number (js_prop raw ''output_tokens'') \<in> {None, Some n}))
     \<and> (case (nu_inputTokens u, nu_outputTokens u, safe_number (js_prop raw ''total_tokens'')) of
          (Some i, Some k, Some t) \<Rightarrow> t \<noteq> i + k \<longleftrightarrow> ''TOTAL_CONFLICT'' \<in> set (nu_issues u)
        | _ \<Rightarrow> True)"
proof -
  let ?n = "\<lambda>k. safe_number (js_prop (js_obj v) k)"
  let ?in = "coalesce_opt (?n ''prompt_tokens'') (?n ''input_tokens'')"
  let ?out = "coalesce_opt (?n ''completion_tokens'') (?n ''output_tokens'')"
  have parts: "nu_inputTokens (normalizeUsage v) = (if differ (?n ''prompt_tokens'') (?n ''input_tokens'') then None else ?in)"
    "nu_outputTokens (normalizeUsage v) = (if differ (?n ''completion_tokens'') (?n ''output_tokens'') then None else ?out)"
    "\<exists>nested. nu_cacheReadTokens (normalizeUsage v)
       = settled_cache (?n ''prompt_cache_hit_tokens'') (safe_number nested) (?n ''prompt_cache_miss_tokens'') ?in"
    "''TOTAL_CONFLICT'' \<in> set (nu_issues (normalizeUsage v)) \<longleftrightarrow> sum_differs ?in ?out (?n ''total_tokens'')"
    by (auto simp: normalizeUsage_def Let_def read_issue_def flag_def)
  note in_out = agreed_number [of "js_prop (js_obj v) ''prompt_tokens''" "js_prop (js_obj v) ''input_tokens''"]
    agreed_number [of "js_prop (js_obj v) ''completion_tokens''" "js_prop (js_obj v) ''output_tokens''"]
  obtain nested where cache: "nu_cacheReadTokens (normalizeUsage v)
       = settled_cache (?n ''prompt_cache_hit_tokens'') (safe_number nested) (?n ''prompt_cache_miss_tokens'') ?in"
    using parts(3) by blast
  show ?thesis
    unfolding Let_def cache parts(1,2,4)
    using in_out settled_cache_bound [of "js_prop (js_obj v) ''prompt_cache_hit_tokens''" nested
        "?n ''prompt_cache_miss_tokens''" ?in]
    by (auto simp: sum_differs_def split: option.split)
qed

lemma known_values_simps [simp]:
  "known_values [] = []" "known_values (None # xs) = known_values xs"
  "known_values (Some x # xs) = x # known_values xs"
  by (simp_all add: known_values_def map_filter_def)

lemma length_known_le: "length (known_values xs) \<le> length xs"
proof (induction xs)
  case (Cons x xs)
  then show ?case by (cases x) simp_all
qed simp

lemma length_known_all: "length (known_values xs) = length xs \<longleftrightarrow> None \<notin> set xs"
proof (induction xs)
  case (Cons x xs)
  then show ?case using length_known_le [of xs] by (cases x) auto
qed simp

text \<open>A token metric accounts for every call: the reported and the missing ones add up, the sum
  covers the reported ones and is present exactly when there is one or there is no call at all, and
  coverage is complete exactly when no call lacks its input or its output.\<close>

theorem token_metric_accounts:
  "let m = tokenMetric vs; u = usageTotals calls in
     tm_reportedCalls m + tm_missingCalls m = int (length vs) \<and> 0 \<le> tm_missingCalls m
     \<and> (tm_known m = None \<longleftrightarrow> vs \<noteq> [] \<and> tm_reportedCalls m = 0)
     \<and> coalesce (tm_known m) 0 = (\<Sum>v\<leftarrow>vs. coalesce v 0)
     \<and> (ut_coverage u = UC_COMPLETE \<longleftrightarrow>
          list_all (\<lambda>c. uf_inputTokens c \<noteq> None \<and> uf_outputTokens c \<noteq> None) calls)"
proof -
  have sum: "sum_list (known_values vs) = (\<Sum>v\<leftarrow>vs. coalesce v 0)"
  proof (induction vs)
    case (Cons x xs)
    then show ?case by (cases x) simp_all
  qed simp
  have none: "None \<in> set (map call_total calls) \<longleftrightarrow>
      \<not> list_all (\<lambda>c. uf_inputTokens c \<noteq> None \<and> uf_outputTokens c \<noteq> None) calls"
    by (induction calls) (auto simp: call_total_def split: option.splits)
  have "ut_coverage (usageTotals calls) = UC_COMPLETE \<longleftrightarrow>
      length (known_values (map call_total calls)) = length (map call_total calls)"
    by (simp add: usageTotals_def tokenMetric_def Let_def)
  also have "\<dots> \<longleftrightarrow> list_all (\<lambda>c. uf_inputTokens c \<noteq> None \<and> uf_outputTokens c \<noteq> None) calls"
    unfolding length_known_all using none by blast
  finally show ?thesis
    using length_known_le [of vs] sum by (auto simp: tokenMetric_def Let_def)
qed

lemma summarize_group_simps:
  "ms_key (summarize_group t (k, rows)) = k"
  "ut_calls (ms_totals (summarize_group t (k, rows))) = int (length rows)"
  "ms_requestDurationMs (summarize_group t (k, rows)) = (\<Sum>c\<leftarrow>rows. coalesce (uf_durationMs c) 0)"
  by (simp_all add: summarize_group_def usageTotals_def Let_def)

lemma outcomes_disjoint:
  "ms_failedCalls (summarize_group t (k, rows)) + ms_interruptedCalls (summarize_group t (k, rows))
     + ms_runningCalls (summarize_group t (k, rows)) \<le> int (length rows)"
proof -
  have "count_calls (\<lambda>c. uf_outcome c = ''FAILED'') rows
      + count_calls (\<lambda>c. uf_outcome c = ''INTERRUPTED'' \<or> (abandoned t c \<and> uf_outcome c = ''RUNNING'')) rows
      + count_calls (\<lambda>c. uf_outcome c = ''RUNNING'' \<and> \<not> abandoned t c) rows \<le> int (length rows)"
    by (induction rows) (auto simp: count_calls_def)
  then show ?thesis by (simp add: summarize_group_def Let_def)
qed

lemma sum_list_js_sort: "(\<Sum>x\<leftarrow>js_sort le xs. f x) = (\<Sum>x\<leftarrow>xs. f x :: int)"
  by (metis mset_js_sort mset_map sum_mset_sum_list)

text \<open>The summary per model is a partition of the calls: one row per scope, configuration and
  model, longest request time first, with exactly the calls of that key, none of them counted as
  failed, interrupted and running twice; calls and request times add up over the rows.\<close>

theorem model_summary_partition:
  "let ms = summarizeModels calls terminal in
     distinct (map ms_key ms) \<and> sorted_wrt (\<lambda>a b. ms_requestDurationMs b \<le> ms_requestDurationMs a) ms
     \<and> (\<Sum>m\<leftarrow>ms. ut_calls (ms_totals m)) = int (length calls)
     \<and> (\<Sum>m\<leftarrow>ms. ms_requestDurationMs m) = (\<Sum>c\<leftarrow>calls. coalesce (uf_durationMs c) 0)
     \<and> list_all (\<lambda>m. ut_calls (ms_totals m) = count_calls (\<lambda>c. usage_key c = ms_key m) calls
          \<and> 0 < ut_calls (ms_totals m)
          \<and> ms_failedCalls m + ms_interruptedCalls m + ms_runningCalls m \<le> ut_calls (ms_totals m)) ms"
proof -
  let ?ms = "summarizeModels calls terminal" and ?gs = "group_calls calls"
  have keys: "map ms_key (map (summarize_group terminal) gs) = map fst gs" for gs
    by (induction gs) (auto simp: summarize_group_simps)
  have "mset (map ms_key ?ms) = mset (map fst ?gs)"
    unfolding summarizeModels_def mset_map mset_js_sort by (simp only: mset_map [symmetric] keys)
  then have "distinct (map ms_key ?ms)" using distinct_group_calls mset_eq_imp_distinct_iff by blast
  moreover have "sorted_wrt (\<lambda>a b. ms_requestDurationMs b \<le> ms_requestDurationMs a) ?ms"
    unfolding summarizeModels_def by (rule by_duration.sorted_js_sort)
  moreover have "(\<Sum>m\<leftarrow>?ms. ut_calls (ms_totals m)) = int (length calls)"
    using sum_groups [of "\<lambda>_. 1" calls]
    by (simp add: summarizeModels_def sum_list_js_sort comp_def case_prod_unfold summarize_group_def
        usageTotals_def Let_def sum_list_triv)
  moreover have "(\<Sum>m\<leftarrow>?ms. ms_requestDurationMs m) = (\<Sum>c\<leftarrow>calls. coalesce (uf_durationMs c) 0)"
    using sum_groups [of "\<lambda>c. coalesce (uf_durationMs c) 0" calls]
    by (simp add: summarizeModels_def sum_list_js_sort comp_def case_prod_unfold summarize_group_def Let_def)
  moreover have "list_all (\<lambda>m. ut_calls (ms_totals m) = count_calls (\<lambda>c. usage_key c = ms_key m) calls
          \<and> 0 < ut_calls (ms_totals m)
          \<and> ms_failedCalls m + ms_interruptedCalls m + ms_runningCalls m \<le> ut_calls (ms_totals m)) ?ms"
    using outcomes_disjoint
    by (auto simp: list_all_iff summarizeModels_def summarize_group_simps group_calls_entry count_calls_def)
  ultimately show ?thesis by (simp add: Let_def)
qed

end
