(* ===== verification/ClosureJournal.thy ===== *)
theory ClosureJournal
  imports Prelude "HOL-Library.Sublist"
begin

text \<open>
  The browser runtime's durable closure journal, class \<open>SessionClosureJournal\<close> of
  \<open>apps/browser-runtime/src/closure-journal.ts\<close>, with the write audit that a closure seals
  (\<open>apps/browser-runtime/src/session-write-audit.ts\<close>).

  The state is what is on disk: one document per session, and the outbox. \<open>serialize\<close> runs one
  operation at a time and a write replaces a file by a rename, so an operation is one step, and a
  crash between steps loses nothing. A document that fails the checks of \<open>read\<close> is \<open>Invalid\<close>. The
  schema of a piece of evidence is the parameter \<open>ok\<close>; the clock and fresh identifiers are
  arguments, a time being the instant its ISO text names. Finding the identity of the process
  scope (boot id, PID namespace) is not modelled.
\<close>

section \<open>Data\<close>

record process_scope =
  ps_hostInstanceId :: string
  ps_daemonInstanceId :: string

record launch_identity =
  li_id :: string
  li_marker :: string
  li_scope :: process_scope

record session_epoch =
  ep_sessionId :: string
  ep_leaseToken :: string
  ep_fencingToken :: string

datatype closure_method = LIVE_SESSION_TERMINATED | IDENTIFIED_PROCESS_SET_TERMINATED | LAUNCH_PREVENTED

record closed_write_audit =
  wa_launchIdentityId :: "string option"
  wa_complete :: bool
  wa_requestCount :: int
  wa_potentialWrites :: int

record closed_state =
  cl_method :: closure_method
  cl_completedAt :: int
  cl_writeAudit :: "closed_write_audit option"

record closure_evidence =
  ce_evidenceId :: string
  ce_recoveryId :: string
  ce_requestId :: string
  ce_epoch :: session_epoch
  ce_scope :: process_scope
  ce_method :: closure_method
  ce_closureCompletedAt :: int

record closure_record =
  jr_epoch :: session_epoch
  jr_revokedAt :: "int option"
  jr_launch :: "launch_identity option"
  jr_processIdentity :: "string option"
  jr_closed :: "closed_state option"
  jr_evidence :: "closure_evidence list"

datatype stored_document = Document closure_record | Invalid

record command_result =
  cmd_commandId :: string
  cmd_closureEvidence :: "closure_evidence option"
  cmd_rest :: js

record journal =
  jn_sessions :: "(string \<times> stored_document) list"
  jn_outbox :: "(string \<times> command_result) list"

record closure_request =
  cq_recoveryId :: string
  cq_requestId :: string
  cq_epoch :: session_epoch
  cq_expectedLaunchIdentity :: "string option"

datatype closure_error = CLOSURE_UNVERIFIED | SESSION_LOST | SESSION_PERMIT_EXPIRED | SCHEMA_ERROR

section \<open>The write audit\<close>

record write_audit =
  au_requestCount :: int
  au_potentialWrites :: int
  au_complete :: bool

definition new_write_audit :: "bool \<Rightarrow> write_audit" where
  "new_write_audit freshIsolatedLaunch =
     \<lparr>au_requestCount = 0, au_potentialWrites = 0, au_complete = freshIsolatedLaunch\<rparr>"

text \<open>The method in upper case decides whether a request may write.\<close>

definition upper :: "string \<Rightarrow> string" where
  "upper s = map (\<lambda>c. if 97 \<le> (of_char c :: nat) \<and> (of_char c :: nat) \<le> 122
     then char_of ((of_char c :: nat) - 32) else c) s"

definition audit_request :: "write_audit \<Rightarrow> string \<Rightarrow> write_audit" where
  "audit_request au method =
     au\<lparr>au_requestCount := au_requestCount au + 1,
        au_potentialWrites := au_potentialWrites au
          + of_bool (upper method \<notin> {''GET'', ''HEAD'', ''OPTIONS''})\<rparr>"

definition audit_invalidate :: "write_audit \<Rightarrow> write_audit" where
  "audit_invalidate au = au\<lparr>au_complete := False\<rparr>"

definition audit_closed :: "write_audit \<Rightarrow> string option \<Rightarrow> closed_write_audit" where
  "audit_closed au launchIdentityId =
     \<lparr>wa_launchIdentityId = launchIdentityId,
      wa_complete = (au_complete au \<and> truthy launchIdentityId),
      wa_requestCount = au_requestCount au, wa_potentialWrites = au_potentialWrites au\<rparr>"

section \<open>Reading a document\<close>

text \<open>The pattern of a session or command identifier: 36 hexadecimal digits and hyphens.\<close>

definition uuid_char :: "char \<Rightarrow> bool" where
  "uuid_char c \<longleftrightarrow> (let n = (of_char c :: nat) in
     (48 \<le> n \<and> n \<le> 57) \<or> (97 \<le> n \<and> n \<le> 102) \<or> (65 \<le> n \<and> n \<le> 70) \<or> n = 45)"

definition valid_id :: "string \<Rightarrow> bool" where
  "valid_id s \<longleftrightarrow> length s = 36 \<and> list_all uuid_char s"

definition read_record ::
  "(closure_evidence \<Rightarrow> bool) \<Rightarrow> journal \<Rightarrow> string \<Rightarrow> closure_error + closure_record option" where
  "read_record ok st sessionId =
     (if \<not> valid_id sessionId then Inl CLOSURE_UNVERIFIED
      else case jmap_get (jn_sessions st) sessionId of
        None \<Rightarrow> Inr None
      | Some Invalid \<Rightarrow> Inl CLOSURE_UNVERIFIED
      | Some (Document r) \<Rightarrow>
          if ep_sessionId (jr_epoch r) \<noteq> sessionId then Inl CLOSURE_UNVERIFIED
          else if \<not> list_all ok (jr_evidence r) then Inl SCHEMA_ERROR
          else Inr (Some r))"

definition write_record :: "journal \<Rightarrow> string \<Rightarrow> closure_record \<Rightarrow> journal" where
  "write_record st sessionId r =
     st\<lparr>jn_sessions := jmap_set (jn_sessions st) sessionId (Document r)\<rparr>"

definition blank_record :: "session_epoch \<Rightarrow> closure_record" where
  "blank_record epoch = \<lparr>jr_epoch = epoch, jr_revokedAt = None, jr_launch = None,
     jr_processIdentity = None, jr_closed = None, jr_evidence = []\<rparr>"

section \<open>Operations\<close>

text \<open>The verdict of \<open>assertCanLaunch\<close>: the error it throws, if any.\<close>

definition assertCanLaunch ::
  "(closure_evidence \<Rightarrow> bool) \<Rightarrow> journal \<Rightarrow> session_epoch \<Rightarrow> closure_error option" where
  "assertCanLaunch ok st epoch =
     (case read_record ok st (ep_sessionId epoch) of
        Inl e \<Rightarrow> Some e
      | Inr None \<Rightarrow> None
      | Inr (Some r) \<Rightarrow>
          if jr_epoch r \<noteq> epoch then Some SESSION_LOST
          else if jr_revokedAt r \<noteq> None \<or> jr_closed r \<noteq> None then Some SESSION_PERMIT_EXPIRED
          else Some CLOSURE_UNVERIFIED)"

definition recordLaunch ::
  "(closure_evidence \<Rightarrow> bool) \<Rightarrow> journal \<Rightarrow> session_epoch \<Rightarrow> process_scope \<Rightarrow> string \<Rightarrow> string
   \<Rightarrow> journal \<times> (closure_error + launch_identity)" where
  "recordLaunch ok st epoch scope marker launchId =
     (case assertCanLaunch ok st epoch of
        Some e \<Rightarrow> (st, Inl e)
      | None \<Rightarrow>
          let launch = \<lparr>li_id = launchId, li_marker = marker, li_scope = scope\<rparr> in
          (write_record st (ep_sessionId epoch) ((blank_record epoch)\<lparr>jr_launch := Some launch\<rparr>), Inr launch))"

definition preventLaunch ::
  "(closure_evidence \<Rightarrow> bool) \<Rightarrow> journal \<Rightarrow> session_epoch \<Rightarrow> process_scope \<Rightarrow> string \<Rightarrow> int
   \<Rightarrow> journal \<times> (closure_error + unit)" where
  "preventLaunch ok st epoch scope launchIdentityId now =
     (let prevented = (blank_record epoch)
            \<lparr>jr_revokedAt := Some now,
             jr_launch := Some \<lparr>li_id = launchIdentityId, li_marker = ''unlaunched'', li_scope = scope\<rparr>,
             jr_closed := Some \<lparr>cl_method = LAUNCH_PREVENTED, cl_completedAt = now, cl_writeAudit = None\<rparr>\<rparr>;
          done = (write_record st (ep_sessionId epoch) prevented, Inr ()) in
      case read_record ok st (ep_sessionId epoch) of
        Inl e \<Rightarrow> (st, Inl e)
      | Inr None \<Rightarrow> done
      | Inr (Some r) \<Rightarrow>
          if jr_epoch r \<noteq> epoch then (st, Inl SESSION_LOST)
          else if jr_launch r \<noteq> None then (st, Inl CLOSURE_UNVERIFIED)
          else done)"

definition revoke_session ::
  "(closure_evidence \<Rightarrow> bool) \<Rightarrow> journal \<Rightarrow> session_epoch \<Rightarrow> int \<Rightarrow> journal \<times> (closure_error + unit)" where
  "revoke_session ok st epoch now =
     (case read_record ok st (ep_sessionId epoch) of
        Inl e \<Rightarrow> (st, Inl e)
      | Inr existing \<Rightarrow>
          let r = coalesce existing (blank_record epoch) in
          if jr_epoch r \<noteq> epoch then (st, Inl SESSION_LOST)
          else (write_record st (ep_sessionId epoch)
                  (r\<lparr>jr_revokedAt := Some (coalesce (jr_revokedAt r) now)\<rparr>), Inr ()))"

definition attachProcess ::
  "(closure_evidence \<Rightarrow> bool) \<Rightarrow> journal \<Rightarrow> session_epoch \<Rightarrow> string \<Rightarrow> journal \<times> (closure_error + unit)" where
  "attachProcess ok st epoch process =
     (case read_record ok st (ep_sessionId epoch) of
        Inl e \<Rightarrow> (st, Inl e)
      | Inr None \<Rightarrow> (st, Inl SESSION_PERMIT_EXPIRED)
      | Inr (Some r) \<Rightarrow>
          if jr_launch r = None \<or> jr_closed r \<noteq> None then (st, Inl SESSION_PERMIT_EXPIRED)
          else if jr_epoch r \<noteq> epoch then (st, Inl SESSION_LOST)
          else (write_record st (ep_sessionId epoch) (r\<lparr>jr_processIdentity := Some process\<rparr>), Inr ()))"

definition recordAbortedLaunch ::
  "(closure_evidence \<Rightarrow> bool) \<Rightarrow> journal \<Rightarrow> session_epoch \<Rightarrow> process_scope \<Rightarrow> string \<Rightarrow> string \<Rightarrow> int
   \<Rightarrow> journal \<times> (closure_error + unit)" where
  "recordAbortedLaunch ok st epoch scope marker launchId now =
     (case read_record ok st (ep_sessionId epoch) of
        Inl e \<Rightarrow> (st, Inl e)
      | Inr None \<Rightarrow> (st, Inr ())
      | Inr (Some r) \<Rightarrow>
          if jr_revokedAt r = None \<or> jr_launch r \<noteq> None then (st, Inr ())
          else if jr_epoch r \<noteq> epoch then (st, Inl SESSION_LOST)
          else (write_record st (ep_sessionId epoch)
                  (r\<lparr>jr_launch := Some \<lparr>li_id = launchId, li_marker = marker, li_scope = scope\<rparr>,
                     jr_closed := Some \<lparr>cl_method = IDENTIFIED_PROCESS_SET_TERMINATED,
                       cl_completedAt = now, cl_writeAudit = None\<rparr>\<rparr>), Inr ()))"

definition audit_mismatch :: "closed_write_audit option \<Rightarrow> closure_method \<Rightarrow> launch_identity \<Rightarrow> bool" where
  "audit_mismatch writeAudit method launch \<longleftrightarrow> (\<exists>a \<in> set_option writeAudit.
     method \<noteq> LIVE_SESSION_TERMINATED \<or> wa_launchIdentityId a \<noteq> Some (li_id launch))"

definition complete_closure ::
  "(closure_evidence \<Rightarrow> bool) \<Rightarrow> journal \<Rightarrow> session_epoch \<Rightarrow> process_scope \<Rightarrow> closure_method
   \<Rightarrow> closed_write_audit option \<Rightarrow> int \<Rightarrow> journal \<times> (closure_error + unit)" where
  "complete_closure ok st epoch scope method writeAudit now =
     (case read_record ok st (ep_sessionId epoch) of
        Inl e \<Rightarrow> (st, Inl e)
      | Inr None \<Rightarrow> (st, Inl CLOSURE_UNVERIFIED)
      | Inr (Some r) \<Rightarrow>
          (case jr_launch r of
             None \<Rightarrow> (st, Inl CLOSURE_UNVERIFIED)
           | Some launch \<Rightarrow>
               if ps_hostInstanceId (li_scope launch) \<noteq> ps_hostInstanceId scope \<or> jr_revokedAt r = None
               then (st, Inl CLOSURE_UNVERIFIED)
               else if jr_epoch r \<noteq> epoch then (st, Inl SESSION_LOST)
               else if audit_mismatch writeAudit method launch then (st, Inl CLOSURE_UNVERIFIED)
               else (write_record st (ep_sessionId epoch)
                       (r\<lparr>jr_closed := Some (coalesce (jr_closed r)
                            \<lparr>cl_method = method, cl_completedAt = now, cl_writeAudit = writeAudit\<rparr>)\<rparr>),
                     Inr ())))"

definition closure_proof ::
  "closure_record \<Rightarrow> closed_state \<Rightarrow> closure_request \<Rightarrow> process_scope \<Rightarrow> string \<Rightarrow> closure_evidence" where
  "closure_proof r cs request scope evidenceId =
     \<lparr>ce_evidenceId = evidenceId, ce_recoveryId = cq_recoveryId request,
      ce_requestId = cq_requestId request, ce_epoch = jr_epoch r, ce_scope = scope,
      ce_method = cl_method cs, ce_closureCompletedAt = cl_completedAt cs\<rparr>"

definition previous_proof :: "closure_record \<Rightarrow> string \<Rightarrow> string \<Rightarrow> closure_evidence option" where
  "previous_proof r requestId daemon = List.find (\<lambda>p. ce_requestId p = requestId
     \<and> ps_daemonInstanceId (ce_scope p) = daemon) (jr_evidence r)"

definition evidence ::
  "(closure_evidence \<Rightarrow> bool) \<Rightarrow> journal \<Rightarrow> closure_request \<Rightarrow> process_scope \<Rightarrow> string
   \<Rightarrow> journal \<times> (closure_error + closure_evidence)" where
  "evidence ok st request scope evidenceId =
     (let sid = ep_sessionId (cq_epoch request) in
      case read_record ok st sid of
        Inl e \<Rightarrow> (st, Inl e)
      | Inr None \<Rightarrow> (st, Inl CLOSURE_UNVERIFIED)
      | Inr (Some r) \<Rightarrow>
          (case (jr_closed r, jr_launch r) of
             (Some cs, Some launch) \<Rightarrow>
               if ps_hostInstanceId (li_scope launch) \<noteq> ps_hostInstanceId scope
               then (st, Inl CLOSURE_UNVERIFIED)
               else if jr_epoch r \<noteq> cq_epoch request then (st, Inl SESSION_LOST)
               else if truthy (cq_expectedLaunchIdentity request)
                       \<and> cq_expectedLaunchIdentity request \<noteq> Some (li_id launch)
               then (st, Inl SESSION_LOST)
               else (case previous_proof r (cq_requestId request) (ps_daemonInstanceId scope) of
                   Some p \<Rightarrow> if ce_recoveryId p \<noteq> cq_recoveryId request then (st, Inl SESSION_LOST)
                             else (st, Inr p)
                 | None \<Rightarrow>
                     let new = closure_proof r cs request scope evidenceId in
                     if \<not> ok new then (st, Inl SCHEMA_ERROR)
                     else (write_record st sid (r\<lparr>jr_evidence := jr_evidence r @ [new]\<rparr>), Inr new))
           | _ \<Rightarrow> (st, Inl CLOSURE_UNVERIFIED)))"

section \<open>The outbox\<close>

definition evidence_ok :: "(closure_evidence \<Rightarrow> bool) \<Rightarrow> closure_evidence option \<Rightarrow> bool" where
  "evidence_ok ok x \<longleftrightarrow> (case x of None \<Rightarrow> False | Some p \<Rightarrow> ok p)"

definition queueResult ::
  "(closure_evidence \<Rightarrow> bool) \<Rightarrow> journal \<Rightarrow> command_result \<Rightarrow> journal \<times> (closure_error + unit)" where
  "queueResult ok st result =
     (if \<not> evidence_ok ok (cmd_closureEvidence result) then (st, Inl SCHEMA_ERROR)
      else (st\<lparr>jn_outbox := jmap_set (jn_outbox st) (cmd_commandId result) result\<rparr>, Inr ()))"

definition pendingResults ::
  "(closure_evidence \<Rightarrow> bool) \<Rightarrow> journal \<Rightarrow> process_scope \<Rightarrow> closure_error + command_result list" where
  "pendingResults ok st scope =
     (let files = filter (\<lambda>(name, _). valid_id name) (jn_outbox st) in
      if \<not> list_all (\<lambda>(_, r). evidence_ok ok (cmd_closureEvidence r)) files then Inl SCHEMA_ERROR
      else Inr (filter (\<lambda>r. \<exists>p \<in> set_option (cmd_closureEvidence r). ce_scope p = scope)
                  (map snd files)))"

definition acknowledge :: "journal \<Rightarrow> string \<Rightarrow> journal" where
  "acknowledge st commandId =
     (if \<not> valid_id commandId then st
      else st\<lparr>jn_outbox := jmap_delete (jn_outbox st) commandId\<rparr>)"

section \<open>The journal as a machine\<close>

datatype journal_event =
    RecordLaunch session_epoch process_scope string string
  | PreventLaunch session_epoch process_scope string int
  | RevokeSession session_epoch int
  | AttachProcess session_epoch string
  | RecordAbortedLaunch session_epoch process_scope string string int
  | CompleteClosure session_epoch process_scope closure_method "closed_write_audit option" int
  | Evidence closure_request process_scope string
  | QueueResult command_result
  | Acknowledge string

fun journal_step :: "(closure_evidence \<Rightarrow> bool) \<Rightarrow> journal \<Rightarrow> journal_event \<Rightarrow> journal" where
  "journal_step ok st (RecordLaunch epoch scope marker i) = fst (recordLaunch ok st epoch scope marker i)"
| "journal_step ok st (PreventLaunch epoch scope i now) = fst (preventLaunch ok st epoch scope i now)"
| "journal_step ok st (RevokeSession epoch now) = fst (revoke_session ok st epoch now)"
| "journal_step ok st (AttachProcess epoch p) = fst (attachProcess ok st epoch p)"
| "journal_step ok st (RecordAbortedLaunch epoch scope marker i now) =
     fst (recordAbortedLaunch ok st epoch scope marker i now)"
| "journal_step ok st (CompleteClosure epoch scope method audit now) =
     fst (complete_closure ok st epoch scope method audit now)"
| "journal_step ok st (Evidence request scope i) = fst (evidence ok st request scope i)"
| "journal_step ok st (QueueResult r) = fst (queueResult ok st r)"
| "journal_step ok st (Acknowledge c) = acknowledge st c"

section \<open>The invariant and the order of documents\<close>

definition challenge :: "closure_evidence \<Rightarrow> string \<times> string" where
  "challenge p = (ce_requestId p, ps_daemonInstanceId (ce_scope p))"

definition proves_closure :: "closure_record \<Rightarrow> closed_state \<Rightarrow> launch_identity \<Rightarrow> closure_evidence \<Rightarrow> bool" where
  "proves_closure r cs launch p \<longleftrightarrow> ce_epoch p = jr_epoch r \<and> ce_method p = cl_method cs
     \<and> ce_closureCompletedAt p = cl_completedAt cs
     \<and> ps_hostInstanceId (ce_scope p) = ps_hostInstanceId (li_scope launch)"

text \<open>A closed session was launched (or its launch is a placeholder) and is revoked; only a
  closed session has evidence, which attests that closure; a challenge is answered once.\<close>

definition record_inv :: "(closure_evidence \<Rightarrow> bool) \<Rightarrow> string \<Rightarrow> closure_record \<Rightarrow> bool" where
  "record_inv ok sid r \<longleftrightarrow> ep_sessionId (jr_epoch r) = sid \<and> list_all ok (jr_evidence r)
     \<and> distinct (map challenge (jr_evidence r))
     \<and> (case jr_closed r of
          None \<Rightarrow> jr_evidence r = []
        | Some cs \<Rightarrow> (case jr_launch r of
              None \<Rightarrow> False
            | Some launch \<Rightarrow> jr_revokedAt r \<noteq> None
                \<and> list_all (proves_closure r cs launch) (jr_evidence r)))"

definition journal_inv :: "(closure_evidence \<Rightarrow> bool) \<Rightarrow> journal \<Rightarrow> bool" where
  "journal_inv ok st \<longleftrightarrow>
     (\<forall>sid r. jmap_get (jn_sessions st) sid = Some (Document r) \<longrightarrow> record_inv ok sid r)
     \<and> (\<forall>(c, res) \<in> set (jn_outbox st). cmd_commandId res = c \<and> evidence_ok ok (cmd_closureEvidence res))"

text \<open>How a record may develop.\<close>

definition record_le :: "closure_record \<Rightarrow> closure_record \<Rightarrow> bool" where
  "record_le r r' \<longleftrightarrow> jr_epoch r' = jr_epoch r
     \<and> (jr_revokedAt r \<noteq> None \<longrightarrow> jr_revokedAt r' \<noteq> None)
     \<and> (jr_launch r \<noteq> None \<longrightarrow> jr_launch r' = jr_launch r
          \<and> (jr_revokedAt r \<noteq> None \<longrightarrow> jr_revokedAt r' = jr_revokedAt r))
     \<and> (jr_closed r \<noteq> None \<longrightarrow> jr_closed r' = jr_closed r)
     \<and> prefix (jr_evidence r) (jr_evidence r')"

definition document_le :: "stored_document option \<Rightarrow> stored_document option \<Rightarrow> bool" where
  "document_le d d' \<longleftrightarrow> (case d of
     None \<Rightarrow> True
   | Some Invalid \<Rightarrow> d' = Some Invalid
   | Some (Document r) \<Rightarrow> (case d' of Some (Document r') \<Rightarrow> record_le r r' | _ \<Rightarrow> False))"

lemma record_le_refl [simp]: "record_le r r"
  by (simp add: record_le_def)

lemma record_le_trans: "record_le r s \<Longrightarrow> record_le s t \<Longrightarrow> record_le r t"
  by (auto simp: record_le_def)

lemma document_le_refl [simp]: "document_le d d"
  by (simp add: document_le_def split: option.splits stored_document.splits)

lemma document_le_trans: "document_le d e \<Longrightarrow> document_le e f \<Longrightarrow> document_le d f"
  by (auto simp: document_le_def split: option.splits stored_document.splits intro: record_le_trans)

lemma document_le_DocumentD:
  "document_le (Some (Document r)) d \<Longrightarrow> \<exists>r'. d = Some (Document r') \<and> record_le r r'"
  by (auto simp: document_le_def split: option.splits stored_document.splits)

lemma read_NoneD:
  "read_record ok st sid = Inr None \<Longrightarrow> valid_id sid \<and> jmap_get (jn_sessions st) sid = None"
  by (auto simp: read_record_def split: if_splits option.splits stored_document.splits)

lemma read_SomeD:
  "read_record ok st sid = Inr (Some r) \<Longrightarrow> valid_id sid
     \<and> jmap_get (jn_sessions st) sid = Some (Document r) \<and> list_all ok (jr_evidence r)"
  by (auto simp: read_record_def split: if_splits option.splits stored_document.splits)

lemma read_document:
  "journal_inv ok st \<Longrightarrow> valid_id sid \<Longrightarrow> jmap_get (jn_sessions st) sid = Some (Document r)
    \<Longrightarrow> read_record ok st sid = Inr (Some r)"
  by (auto simp: read_record_def journal_inv_def record_inv_def)

lemma read_inv:
  "journal_inv ok st \<Longrightarrow> read_record ok st sid = Inr (Some r) \<Longrightarrow> record_inv ok sid r"
  by (auto dest: read_SomeD simp: journal_inv_def)

section \<open>Every operation keeps the invariant and only moves documents upwards\<close>

definition journal_le :: "journal \<Rightarrow> journal \<Rightarrow> bool" where
  "journal_le st st' \<longleftrightarrow>
     (\<forall>sid. document_le (jmap_get (jn_sessions st) sid) (jmap_get (jn_sessions st') sid))"

definition journal_ok :: "(closure_evidence \<Rightarrow> bool) \<Rightarrow> journal \<Rightarrow> journal \<Rightarrow> bool" where
  "journal_ok ok st st' \<longleftrightarrow> journal_inv ok st' \<and> journal_le st st'"

lemma journal_ok_refl: "journal_inv ok st \<Longrightarrow> journal_ok ok st st"
  by (simp add: journal_ok_def journal_le_def)

lemma write_ok:
  assumes "journal_inv ok st" and "record_inv ok sid r"
    and "document_le (jmap_get (jn_sessions st) sid) (Some (Document r))"
  shows "journal_ok ok st (write_record st sid r)"
  using assms by (auto simp: journal_ok_def journal_le_def journal_inv_def write_record_def)

lemma create_ok:
  "journal_inv ok st \<Longrightarrow> read_record ok st sid = Inr None \<Longrightarrow> record_inv ok sid r
    \<Longrightarrow> journal_ok ok st (write_record st sid r)"
  by (rule write_ok) (auto dest: read_NoneD simp: document_le_def)

lemma update_ok:
  "journal_inv ok st \<Longrightarrow> read_record ok st sid = Inr (Some r)
    \<Longrightarrow> (record_inv ok sid r \<Longrightarrow> record_inv ok sid r' \<and> record_le r r')
    \<Longrightarrow> journal_ok ok st (write_record st sid r')"
  by (rule write_ok) (use read_inv read_SomeD in \<open>fastforce simp: document_le_def\<close>)+

lemma proves_closure_update [simp]:
  "proves_closure (r\<lparr>jr_revokedAt := x\<rparr>) = proves_closure r"
  "proves_closure (r\<lparr>jr_launch := y\<rparr>) = proves_closure r"
  "proves_closure (r\<lparr>jr_processIdentity := z\<rparr>) = proves_closure r"
  "proves_closure (r\<lparr>jr_closed := c\<rparr>) = proves_closure r"
  "proves_closure (r\<lparr>jr_evidence := ps\<rparr>) = proves_closure r"
  by (simp_all add: proves_closure_def fun_eq_iff)

lemmas record_change = record_inv_def record_le_def blank_record_def

text \<open>Case analysis on what an operation reads.\<close>

lemma read_cases:
  obtains (error) e where "read_record ok st sid = Inl e"
    | (absent) "read_record ok st sid = Inr None"
    | (present) r where "read_record ok st sid = Inr (Some r)"
  by (metis (no_types) not_None_eq sum.exhaust)

lemma recordLaunch_ok:
  assumes "journal_inv ok st"
  shows "journal_ok ok st (fst (recordLaunch ok st epoch scope marker i))"
proof (cases rule: read_cases [of ok st "ep_sessionId epoch"])
  case absent
  with assms show ?thesis
    by (simp add: recordLaunch_def assertCanLaunch_def create_ok record_change Let_def)
qed (use assms in \<open>auto simp: recordLaunch_def assertCanLaunch_def journal_ok_refl\<close>)

lemma preventLaunch_ok:
  assumes "journal_inv ok st"
  shows "journal_ok ok st (fst (preventLaunch ok st epoch scope i now))"
proof (cases rule: read_cases [of ok st "ep_sessionId epoch"])
  case absent
  with assms show ?thesis
    by (simp add: preventLaunch_def create_ok record_change)
next
  case (present r)
  with assms show ?thesis
    by (auto simp: preventLaunch_def journal_ok_refl record_change intro!: update_ok
        split: option.splits)
qed (use assms in \<open>auto simp: preventLaunch_def journal_ok_refl\<close>)

lemma revoke_ok:
  assumes "journal_inv ok st"
  shows "journal_ok ok st (fst (revoke_session ok st epoch now))"
proof (cases rule: read_cases [of ok st "ep_sessionId epoch"])
  case absent
  with assms show ?thesis
    by (simp add: revoke_session_def create_ok record_change Let_def)
next
  case (present r)
  with assms show ?thesis
    by (auto simp: revoke_session_def journal_ok_refl record_change Let_def coalesce_def
        intro!: update_ok split: option.splits)
qed (use assms in \<open>auto simp: revoke_session_def journal_ok_refl\<close>)

lemma attachProcess_ok:
  assumes "journal_inv ok st"
  shows "journal_ok ok st (fst (attachProcess ok st epoch p))"
proof (cases rule: read_cases [of ok st "ep_sessionId epoch"])
  case (present r)
  with assms show ?thesis
    by (auto simp: attachProcess_def journal_ok_refl record_change intro!: update_ok
        split: option.splits)
qed (use assms in \<open>auto simp: attachProcess_def journal_ok_refl\<close>)

lemma recordAbortedLaunch_ok:
  assumes "journal_inv ok st"
  shows "journal_ok ok st (fst (recordAbortedLaunch ok st epoch scope marker i now))"
proof (cases rule: read_cases [of ok st "ep_sessionId epoch"])
  case (present r)
  with assms show ?thesis
    by (auto simp: recordAbortedLaunch_def journal_ok_refl record_change intro!: update_ok
        split: option.splits)
qed (use assms in \<open>auto simp: recordAbortedLaunch_def journal_ok_refl\<close>)

lemma complete_ok:
  assumes "journal_inv ok st"
  shows "journal_ok ok st (fst (complete_closure ok st epoch scope method audit now))"
proof (cases rule: read_cases [of ok st "ep_sessionId epoch"])
  case (present r)
  with assms show ?thesis
    by (auto simp: complete_closure_def journal_ok_refl record_change coalesce_def
        intro!: update_ok split: option.splits)
qed (use assms in \<open>auto simp: complete_closure_def journal_ok_refl\<close>)

lemma previous_proof_None:
  "previous_proof r q d = None \<longleftrightarrow> (q, d) \<notin> challenge ` set (jr_evidence r)"
  by (auto simp: previous_proof_def find_None_iff challenge_def)

lemma evidence_journal_ok:
  assumes "journal_inv ok st"
  shows "journal_ok ok st (fst (evidence ok st request scope i))"
proof (cases rule: read_cases [of ok st "ep_sessionId (cq_epoch request)"])
  case (present r)
  with assms show ?thesis
    by (auto simp: evidence_def journal_ok_refl record_change Let_def closure_proof_def
        previous_proof_None challenge_def proves_closure_def intro!: update_ok split: option.splits)
qed (use assms in \<open>auto simp: evidence_def journal_ok_refl Let_def\<close>)

lemma queueResult_ok: "journal_inv ok st \<Longrightarrow> journal_ok ok st (fst (queueResult ok st res))"
  by (auto simp: queueResult_def journal_ok_def journal_le_def journal_inv_def jmap_set_def
      dest!: set_update_subset [THEN subsetD])

lemma acknowledge_ok: "journal_inv ok st \<Longrightarrow> journal_ok ok st (acknowledge st c)"
  by (auto simp: acknowledge_def journal_ok_def journal_le_def journal_inv_def jmap_delete_def
      AList.delete_eq)

lemma journal_le_trans: "journal_le st st' \<Longrightarrow> journal_le st' st'' \<Longrightarrow> journal_le st st''"
  unfolding journal_le_def by (blast intro: document_le_trans)

lemma journal_step_ok: "journal_inv ok st \<Longrightarrow> journal_ok ok st (journal_step ok st e)"
  by (cases e) (simp_all add: recordLaunch_ok preventLaunch_ok revoke_ok attachProcess_ok
      recordAbortedLaunch_ok complete_ok evidence_journal_ok queueResult_ok acknowledge_ok)

interpretation journal: absorbing_machine "journal_step ok" "journal_inv ok" "journal_le st0" for ok st0
  by unfold_locales (use journal_step_ok journal_le_trans in \<open>auto simp: journal_ok_def\<close>)

lemma journal_run_le: "journal_inv ok st \<Longrightarrow> journal_le st (foldl (journal_step ok) st es)"
  by (rule journal.run_good) (simp_all add: journal_le_def)

lemma journal_run_document:
  assumes "journal_inv ok st" and "jmap_get (jn_sessions st) sid = Some (Document r)"
  obtains r' where "jmap_get (jn_sessions (foldl (journal_step ok) st es)) sid = Some (Document r')"
    and "record_le r r'" and "record_inv ok sid r'"
  using journal_run_le [OF assms(1), of es] journal.run_inv [OF assms(1), of es] assms(2)
  unfolding journal_le_def journal_inv_def by (metis document_le_DocumentD)

section \<open>An answered challenge stays answered\<close>

lemma find_prefix: "prefix xs ys \<Longrightarrow> List.find P xs = Some x \<Longrightarrow> List.find P ys = Some x"
proof (induction xs arbitrary: ys)
  case (Cons y xs)
  then show ?case by (cases ys) (auto split: if_splits)
qed simp

definition answered ::
  "(closure_evidence \<Rightarrow> bool) \<Rightarrow> closure_record \<Rightarrow> closure_request \<Rightarrow> process_scope \<Rightarrow> closure_evidence \<Rightarrow> bool" where
  "answered ok r request scope p \<longleftrightarrow> (case (jr_closed r, jr_launch r) of
       (Some cs, Some launch) \<Rightarrow> ps_hostInstanceId (li_scope launch) = ps_hostInstanceId scope
         \<and> jr_epoch r = cq_epoch request
         \<and> \<not> (truthy (cq_expectedLaunchIdentity request)
              \<and> cq_expectedLaunchIdentity request \<noteq> Some (li_id launch))
         \<and> previous_proof r (cq_requestId request) (ps_daemonInstanceId scope) = Some p
         \<and> ce_recoveryId p = cq_recoveryId request
     | _ \<Rightarrow> False)"

lemma answered_le: "answered ok r request scope p \<Longrightarrow> record_le r r' \<Longrightarrow> answered ok r' request scope p"
  by (auto simp: answered_def record_le_def previous_proof_def split: option.splits intro: find_prefix)

lemma evidence_answered:
  "answered ok r request scope p
    \<Longrightarrow> read_record ok st (ep_sessionId (cq_epoch request)) = Inr (Some r)
    \<Longrightarrow> evidence ok st (request\<lparr>cq_recoveryId := recovery\<rparr>) scope j
      = (st, if recovery = cq_recoveryId request then Inr p else Inl SESSION_LOST)"
  by (auto simp: answered_def evidence_def Let_def split: option.splits)

lemma find_append_new: "List.find P xs = None \<Longrightarrow> P x \<Longrightarrow> List.find P (xs @ [x]) = Some x"
  by (induction xs) (auto split: if_splits)

lemma evidence_success:
  assumes "evidence ok st request scope i = (st1, Inr p)"
  obtains r r1 where "read_record ok st (ep_sessionId (cq_epoch request)) = Inr (Some r)"
    and "jmap_get (jn_sessions st1) (ep_sessionId (cq_epoch request)) = Some (Document r1)"
    and "record_le r r1" and "answered ok r1 request scope p"
proof (cases rule: read_cases [of ok st "ep_sessionId (cq_epoch request)"])
  case (present r)
  define new where "new = closure_proof r (the (jr_closed r)) request scope i"
  show ?thesis
  proof (cases "previous_proof r (cq_requestId request) (ps_daemonInstanceId scope)")
    case None
    with present assms have *: "jmap_get (jn_sessions st1) (ep_sessionId (cq_epoch request))
        = Some (Document (r\<lparr>jr_evidence := jr_evidence r @ [new]\<rparr>))"
      "answered ok (r\<lparr>jr_evidence := jr_evidence r @ [new]\<rparr>) request scope p"
      by (auto simp: evidence_def Let_def answered_def new_def write_record_def previous_proof_def
          closure_proof_def intro!: find_append_new split: option.splits if_splits)
    show ?thesis by (rule that [OF present *(1) _ *(2)]) (simp add: record_le_def)
  next
    case (Some q)
    with present assms have "jmap_get (jn_sessions st1) (ep_sessionId (cq_epoch request)) = Some (Document r)"
      "answered ok r request scope p"
      by (auto simp: evidence_def Let_def answered_def split: option.splits if_splits dest: read_SomeD)
    with present show ?thesis by (intro that) auto
  qed
qed (use assms in \<open>auto simp: evidence_def Let_def\<close>)

section \<open>The outbox between two operations\<close>

definition touches_command :: "string \<Rightarrow> journal_event \<Rightarrow> bool" where
  "touches_command c e = (case e of
     QueueResult res \<Rightarrow> cmd_commandId res = c | Acknowledge d \<Rightarrow> d = c | _ \<Rightarrow> False)"

lemma write_record_outbox [simp]: "jn_outbox (write_record st sid r) = jn_outbox st"
  by (simp add: write_record_def)

lemma session_operation_outbox:
  "jn_outbox (fst (recordLaunch ok st epoch scope marker i)) = jn_outbox st"
  "jn_outbox (fst (preventLaunch ok st epoch scope i now)) = jn_outbox st"
  "jn_outbox (fst (revoke_session ok st epoch now)) = jn_outbox st"
  "jn_outbox (fst (attachProcess ok st epoch process)) = jn_outbox st"
  "jn_outbox (fst (recordAbortedLaunch ok st epoch scope marker i now)) = jn_outbox st"
  "jn_outbox (fst (complete_closure ok st epoch scope method audit now)) = jn_outbox st"
  "jn_outbox (fst (evidence ok st request scope i)) = jn_outbox st"
  by (auto simp: recordLaunch_def preventLaunch_def revoke_session_def attachProcess_def
      recordAbortedLaunch_def complete_closure_def evidence_def Let_def
      split: sum.split option.split)

lemma update_other: "k \<noteq> c \<Longrightarrow> (c, v) \<in> set m \<Longrightarrow> (c, v) \<in> set (AList.update k w m)"
  by (induction m) auto

lemma update_same: "(c, v) \<in> set (AList.update c v m)"
  by (induction m) auto

lemma journal_step_outbox:
  "\<not> touches_command c e \<Longrightarrow> (c, res) \<in> set (jn_outbox st)
    \<Longrightarrow> (c, res) \<in> set (jn_outbox (journal_step ok st e))"
  by (cases e) (auto simp: touches_command_def session_operation_outbox queueResult_def
      acknowledge_def jmap_set_def jmap_delete_def AList.delete_eq intro: update_other)

lemma journal_run_outbox:
  "list_all (\<lambda>e. \<not> touches_command c e) es \<Longrightarrow> (c, res) \<in> set (jn_outbox st)
    \<Longrightarrow> (c, res) \<in> set (jn_outbox (foldl (journal_step ok) st es))"
  by (induction es arbitrary: st) (simp_all add: journal_step_outbox)

lemma pendingResults_ok:
  "journal_inv ok st \<Longrightarrow> pendingResults ok st scope
    = Inr (filter (\<lambda>r. \<exists>p \<in> set_option (cmd_closureEvidence r). ce_scope p = scope)
        (map snd (filter (\<lambda>(name, _). valid_id name) (jn_outbox st))))"
  by (auto simp: pendingResults_def journal_inv_def list_all_iff)

section \<open>Properties\<close>

text \<open>C27: A closure tombstone is permanent. Once a session is closed in the journal, then after any
  operations its record is still closed by the same method at the same time with the same sealed
  write audit, for the same epoch and launch and the same revocation, the evidence given for it
  has only been extended, and no epoch of the session can launch.\<close>

theorem closed_tombstone_permanent:
  assumes "journal_inv ok st"
    and "jmap_get (jn_sessions st) sid = Some (Document r)"
    and "jr_closed r = Some cs"
    and "ep_sessionId epoch = sid"
  shows "let st' = foldl (journal_step ok) st es in
    (case jmap_get (jn_sessions st') sid of
      Some (Document r') \<Rightarrow> jr_closed r' = Some cs \<and> jr_epoch r' = jr_epoch r
        \<and> jr_launch r' = jr_launch r \<and> jr_revokedAt r' = jr_revokedAt r
        \<and> prefix (jr_evidence r) (jr_evidence r')
    | _ \<Rightarrow> False)
    \<and> assertCanLaunch ok st' epoch \<noteq> None"
proof -
  obtain r' where r': "jmap_get (jn_sessions (foldl (journal_step ok) st es)) sid = Some (Document r')"
    "record_le r r'" "record_inv ok sid r'"
    using journal_run_document [OF assms(1,2)] by blast
  have "record_inv ok sid r" using assms(1,2) by (simp add: journal_inv_def)
  with assms(3,4) r' show ?thesis
    by (auto simp: Let_def record_inv_def record_le_def assertCanLaunch_def read_record_def
        split: option.splits)
qed

text \<open>C28: A session is launched at most once. After a launch was recorded, whatever operations
  follow, every further launch and every prevention of the launch is refused without changing
  the journal, and the record still names the launch that was recorded.\<close>

theorem launched_at_most_once:
  assumes "journal_inv ok st"
    and "recordLaunch ok st epoch scope marker i = (st1, Inr launch)"
    and "ep_sessionId epoch' = ep_sessionId epoch"
  shows "let st' = foldl (journal_step ok) st1 es in
    fst (recordLaunch ok st' epoch' scope' marker' i') = st'
    \<and> isl (snd (recordLaunch ok st' epoch' scope' marker' i'))
    \<and> fst (preventLaunch ok st' epoch' scope' i' now) = st'
    \<and> isl (snd (preventLaunch ok st' epoch' scope' i' now))
    \<and> (case read_record ok st' (ep_sessionId epoch) of
         Inr (Some r) \<Rightarrow> jr_epoch r = epoch \<and> jr_launch r = Some launch
           \<and> launch = \<lparr>li_id = i, li_marker = marker, li_scope = scope\<rparr>
       | _ \<Rightarrow> False)"
proof -
  let ?s = "ep_sessionId epoch" and ?st = "foldl (journal_step ok) st1 es"
  have inv1: "journal_inv ok st1"
    using recordLaunch_ok [OF assms(1), of epoch scope marker i] assms(2) by (simp add: journal_ok_def)
  have new: "valid_id ?s" "jmap_get (jn_sessions st1) ?s
      = Some (Document ((blank_record epoch)\<lparr>jr_launch := Some launch\<rparr>))"
    "launch = \<lparr>li_id = i, li_marker = marker, li_scope = scope\<rparr>"
    using assms(2) by (auto simp: recordLaunch_def assertCanLaunch_def write_record_def Let_def
        split: option.splits sum.splits if_splits dest: read_NoneD)
  obtain r where r: "jmap_get (jn_sessions ?st) ?s = Some (Document r)"
    "record_le ((blank_record epoch)\<lparr>jr_launch := Some launch\<rparr>) r"
    using journal_run_document [OF inv1 new(2)] by blast
  have rd: "read_record ok ?st ?s = Inr (Some r)"
    using read_document [OF journal.run_inv [OF inv1] new(1) r(1)] .
  have "jr_launch r = Some launch" "jr_epoch r = epoch"
    using r(2) by (simp_all add: record_le_def blank_record_def)
  with rd new(3) assms(3) show ?thesis
    by (auto simp: Let_def recordLaunch_def assertCanLaunch_def preventLaunch_def)
qed

text \<open>C29: Closure evidence is sound and stable. Evidence given for a challenge answers that
  challenge for that epoch on this host and daemon, and attests the closure the journal records
  for a revoked session. After any further operations the same challenge is answered by the same
  evidence and changes nothing, and the challenge reused for another recovery is refused.\<close>

theorem closure_evidence_sound:
  assumes "journal_inv ok st"
    and "evidence ok st request scope i = (st1, Inr p)"
  shows "ok p \<and> ce_recoveryId p = cq_recoveryId request
    \<and> challenge p = (cq_requestId request, ps_daemonInstanceId scope)
    \<and> ce_epoch p = cq_epoch request
    \<and> ps_hostInstanceId (ce_scope p) = ps_hostInstanceId scope
    \<and> (case jmap_get (jn_sessions st1) (ep_sessionId (cq_epoch request)) of
        Some (Document r) \<Rightarrow> (case jr_closed r of
            Some cs \<Rightarrow> jr_revokedAt r \<noteq> None \<and> ce_method p = cl_method cs
              \<and> ce_closureCompletedAt p = cl_completedAt cs
          | None \<Rightarrow> False)
      | _ \<Rightarrow> False)
    \<and> (let st' = foldl (journal_step ok) st1 es in
        evidence ok st' (request\<lparr>cq_recoveryId := recovery\<rparr>) scope j
          = (st', if recovery = cq_recoveryId request then Inr p else Inl SESSION_LOST))"
proof -
  let ?s = "ep_sessionId (cq_epoch request)" and ?st = "foldl (journal_step ok) st1 es"
  obtain r r1 where r: "read_record ok st ?s = Inr (Some r)"
    and r1: "jmap_get (jn_sessions st1) ?s = Some (Document r1)" "record_le r r1"
    and a: "answered ok r1 request scope p"
    using assms(2) by (rule evidence_success)
  have inv1: "journal_inv ok st1"
    using evidence_journal_ok [OF assms(1), of request scope i] assms(2) by (simp add: journal_ok_def)
  then have i1: "record_inv ok ?s r1" using r1 by (simp add: journal_inv_def)
  obtain r' where r': "jmap_get (jn_sessions ?st) ?s = Some (Document r')" "record_le r1 r'"
    using journal_run_document [OF inv1 r1(1)] by blast
  have "read_record ok ?st ?s = Inr (Some r')"
    using read_document [OF journal.run_inv [OF inv1]] r' r read_SomeD by blast
  then have later: "evidence ok ?st (request\<lparr>cq_recoveryId := recovery\<rparr>) scope j
      = (?st, if recovery = cq_recoveryId request then Inr p else Inl SESSION_LOST)"
    by (rule evidence_answered [OF answered_le [OF a r'(2)]])
  have p: "p \<in> set (jr_evidence r1)" "challenge p = (cq_requestId request, ps_daemonInstanceId scope)"
    using a by (auto simp: answered_def previous_proof_def challenge_def find_Some_iff in_set_conv_nth
        split: option.splits)
  show ?thesis
    using p a i1 r1(1) later
    by (auto simp: Let_def answered_def record_inv_def list_all_iff proves_closure_def
        split: option.splits)
qed

text \<open>C30: A queued result is delivered until it is acknowledged. After any operations that neither
  acknowledge the command nor queue another result for it, the result is among those pending for
  its process scope; its acknowledgement takes it out and leaves every session's record, and so
  every tombstone, as it was.\<close>

theorem result_pending_until_acknowledged:
  assumes "journal_inv ok st" and "queueResult ok st res = (st1, Inr ())"
    and "cmd_commandId res = c" and "valid_id c" and "cmd_closureEvidence res = Some p"
    and "list_all (\<lambda>e. \<not> touches_command c e) es"
  shows "let st' = foldl (journal_step ok) st1 es; st'' = acknowledge st' c in
    (case pendingResults ok st' (ce_scope p) of Inr rs \<Rightarrow> res \<in> set rs | Inl _ \<Rightarrow> False)
    \<and> jn_sessions st'' = jn_sessions st'
    \<and> (case pendingResults ok st'' scope of Inr rs \<Rightarrow> c \<notin> cmd_commandId ` set rs | Inl _ \<Rightarrow> False)"
proof -
  let ?st = "foldl (journal_step ok) st1 es"
  have inv1: "journal_inv ok st1"
    using queueResult_ok [OF assms(1), of res] assms(2) by (simp add: journal_ok_def)
  have "(c, res) \<in> set (jn_outbox st1)"
    using assms(2,3) by (auto simp: queueResult_def jmap_set_def update_same split: if_splits)
  then have member: "(c, res) \<in> set (jn_outbox ?st)"
    using assms(6) journal_run_outbox by blast
  have inv: "journal_inv ok ?st" by (rule journal.run_inv [OF inv1])
  then have inv': "journal_inv ok (acknowledge ?st c)"
    using acknowledge_ok journal_ok_def by blast
  have "res \<in> set (filter (\<lambda>r. \<exists>p' \<in> set_option (cmd_closureEvidence r). ce_scope p' = ce_scope p)
      (map snd (filter (\<lambda>(name, _). valid_id name) (jn_outbox ?st))))"
    using member assms(4,5) by force
  moreover have "cmd_commandId r \<noteq> c" if "(name, r) \<in> set (jn_outbox (acknowledge ?st c))" for name r
  proof -
    have "cmd_commandId r = name" using inv' that by (auto simp: journal_inv_def)
    moreover have "name \<noteq> c" using that assms(4) by (auto simp: acknowledge_def jmap_delete_def AList.delete_eq)
    ultimately show ?thesis by simp
  qed
  then have "c \<notin> cmd_commandId ` set (filter P (map snd (filter (\<lambda>(name, _). valid_id name)
      (jn_outbox (acknowledge ?st c)))))" for P
    by fastforce
  moreover have "jn_sessions (acknowledge ?st c) = jn_sessions ?st"
    by (simp add: acknowledge_def)
  ultimately show ?thesis
    unfolding Let_def pendingResults_ok [OF inv] pendingResults_ok [OF inv'] sum.case by blast
qed

section \<open>Witnesses\<close>

abbreviation sample_epoch :: session_epoch where
  "sample_epoch \<equiv> \<lparr>ep_sessionId = ''0123456789abcdef0123456789abcdef0123'',
     ep_leaseToken = ''lease'', ep_fencingToken = ''7''\<rparr>"

abbreviation sample_scope :: process_scope where
  "sample_scope \<equiv> \<lparr>ps_hostInstanceId = ''host'', ps_daemonInstanceId = ''daemon''\<rparr>"

abbreviation sample_request :: closure_request where
  "sample_request \<equiv> \<lparr>cq_recoveryId = ''recovery'', cq_requestId = ''request'',
     cq_epoch = sample_epoch, cq_expectedLaunchIdentity = Some ''launch''\<rparr>"

definition sample_closed :: closure_record where
  "sample_closed = \<lparr>jr_epoch = sample_epoch, jr_revokedAt = Some 5,
     jr_launch = Some \<lparr>li_id = ''launch'', li_marker = ''m'', li_scope = sample_scope\<rparr>,
     jr_processIdentity = None,
     jr_closed = Some \<lparr>cl_method = LIVE_SESSION_TERMINATED, cl_completedAt = 6, cl_writeAudit = None\<rparr>,
     jr_evidence = []\<rparr>"

definition sample_journal :: journal where
  "sample_journal = \<lparr>jn_sessions = [(ep_sessionId sample_epoch, Document sample_closed)], jn_outbox = []\<rparr>"

definition sample_proof_evidence :: closure_evidence where
  "sample_proof_evidence = \<lparr>ce_evidenceId = ''e'', ce_recoveryId = ''recovery'', ce_requestId = ''request'',
     ce_epoch = sample_epoch, ce_scope = sample_scope, ce_method = LIVE_SESSION_TERMINATED,
     ce_closureCompletedAt = 6\<rparr>"

definition sample_result :: command_result where
  "sample_result = \<lparr>cmd_commandId = ep_sessionId sample_epoch,
     cmd_closureEvidence = Some sample_proof_evidence, cmd_rest = JNull\<rparr>"

definition empty_journal :: journal where
  "empty_journal = \<lparr>jn_sessions = [], jn_outbox = []\<rparr>"

lemma sample_journal_inv: "journal_inv ok sample_journal"
  by (auto simp: journal_inv_def sample_journal_def jmap_get_def record_inv_def sample_closed_def)

lemma empty_journal_inv: "journal_inv ok empty_journal"
  by (simp add: journal_inv_def empty_journal_def)

lemma sample_valid_id: "valid_id (ep_sessionId sample_epoch)"
  by code_simp

lemma closed_tombstone_permanent_witness:
  "jr_closed sample_closed \<noteq> None \<and> assertCanLaunch (\<lambda>_. True)
    (foldl (journal_step (\<lambda>_. True)) sample_journal [RevokeSession sample_epoch 9]) sample_epoch \<noteq> None"
  using closed_tombstone_permanent [OF sample_journal_inv [of "\<lambda>_. True"],
      of "ep_sessionId sample_epoch" sample_closed _ sample_epoch "[RevokeSession sample_epoch 9]"]
  by (simp add: sample_journal_def jmap_get_def sample_closed_def Let_def)

lemma launched_at_most_once_witness:
  "\<exists>st1 launch. recordLaunch (\<lambda>_. True) empty_journal sample_epoch sample_scope ''m'' ''launch''
      = (st1, Inr launch)
    \<and> isl (snd (recordLaunch (\<lambda>_. True) st1 sample_epoch sample_scope ''m'' ''again''))"
proof -
  obtain st1 launch where l: "recordLaunch (\<lambda>_. True) empty_journal sample_epoch sample_scope ''m'' ''launch''
      = (st1, Inr launch)"
    using sample_valid_id
    by (simp add: recordLaunch_def assertCanLaunch_def read_record_def empty_journal_def Let_def)
  then show ?thesis
    using launched_at_most_once [OF empty_journal_inv l refl, of "[]" _ "''m''" "''again''"] by (simp add: Let_def)
qed

lemma closure_evidence_sound_witness:
  "evidence (\<lambda>_. True) sample_journal sample_request sample_scope ''e''
      = (write_record sample_journal (ep_sessionId sample_epoch)
           (sample_closed\<lparr>jr_evidence := [sample_proof_evidence]\<rparr>), Inr sample_proof_evidence)
    \<and> ce_epoch sample_proof_evidence = sample_epoch"
proof -
  have e: "evidence (\<lambda>_. True) sample_journal sample_request sample_scope ''e''
      = (write_record sample_journal (ep_sessionId sample_epoch)
           (sample_closed\<lparr>jr_evidence := [sample_proof_evidence]\<rparr>), Inr sample_proof_evidence)"
    using sample_valid_id
    by (simp add: evidence_def read_record_def sample_journal_def sample_closed_def jmap_get_def
        previous_proof_def closure_proof_def sample_proof_evidence_def Let_def)
  show ?thesis
    using closure_evidence_sound [OF sample_journal_inv e] e by simp
qed

lemma result_pending_until_acknowledged_witness:
  "case pendingResults (\<lambda>_. True) (fst (queueResult (\<lambda>_. True) empty_journal sample_result)) sample_scope of
     Inr rs \<Rightarrow> sample_result \<in> set rs | Inl _ \<Rightarrow> False"
proof -
  have q: "queueResult (\<lambda>_. True) empty_journal sample_result
      = (fst (queueResult (\<lambda>_. True) empty_journal sample_result), Inr ())"
    by (simp add: queueResult_def evidence_ok_def sample_result_def)
  show ?thesis
    using result_pending_until_acknowledged [OF empty_journal_inv q refl, of sample_proof_evidence "[]"]
      sample_valid_id
    by (simp add: sample_result_def sample_proof_evidence_def Let_def)
qed

end
