(* ===== verification/ExecutionConcurrency.thy ===== *)
theory ExecutionConcurrency
  imports JsStrings "HOL-Library.Sublist"
begin

text \<open>
  Coordination of executions that share a backend:
  \<open>apps/api/src/verification/execution-concurrency.ts\<close> (what an execution claims and when two
  claims conflict), \<open>account-coordination.ts\<close> (a resumed execution), the admission check in
  \<open>browser-execution-runner.service.ts\<close> and the release in
  \<open>apps/api/src/runtime/session-resource-cleanup.ts\<close>.

  Parameters: the target is the result of parsing its URL; \<open>collate\<close> is \<open>localeCompare\<close>;
  \<open>is_uuid\<close> is the schema library's test; \<open>hash\<close> is SHA-256 in hexadecimal; the account bindings
  are those their schema accepts. The lease table is a list of rows, and the advisory lock
  \<open>browser-execution-resources\<close>, which every caller holds, makes an operation one step.
\<close>

section \<open>Claims\<close>

datatype claim_mode = READ | WRITE

record resource_claim =
  rc_rootKey :: string
  rc_resourceKey :: string
  rc_mode :: claim_mode
  rc_origin :: string

text \<open>The target URL as parsed, \<open>None\<close> when it is absent, empty or not a URL; the text of the
  environment configuration as parsed.\<close>

record target_url =
  tu_protocol :: string
  tu_hostname :: string
  tu_origin :: string

datatype configuration = NoConfiguration | MalformedJson | Configuration js

datatype configuration_error = NotJson | NotArray | BadRule

definition environment_rule :: "js \<Rightarrow> (string \<times> string) option" where
  "environment_rule rule =
     (case (js_prop rule ''hostname'', js_prop rule ''key'') of
        (JStr h, JStr k) \<Rightarrow> if js_trim k = [] then None else Some (to_lower h, js_trim k)
      | _ \<Rightarrow> None)"

definition rule_matches :: "target_url \<Rightarrow> string \<times> string \<Rightarrow> bool" where
  "rule_matches target rule \<longleftrightarrow>
     fst rule = to_lower (tu_hostname target)
     \<or> (starts_with (fst rule) ''*.'' \<and> ends_with (to_lower (tu_hostname target)) (drop 1 (fst rule)))"

text \<open>Whether the comparator puts \<open>a\<close> before or level with \<open>b\<close>: an exact host first, then the
  longer pattern, then the key.\<close>

definition rule_le :: "(string \<Rightarrow> string \<Rightarrow> int) \<Rightarrow> target_url \<Rightarrow> string \<times> string \<Rightarrow> string \<times> string \<Rightarrow> bool" where
  "rule_le collate target a b =
     (let exact = (of_bool (fst b = tu_hostname target) :: int) - of_bool (fst a = tu_hostname target);
          longer = int (length (fst b)) - int (length (fst a)) in
      if exact \<noteq> 0 then exact \<le> 0
      else if longer \<noteq> 0 then longer \<le> 0
      else collate (snd a) (snd b) \<le> 0)"

definition businessEnvironmentKey ::
  "(string \<Rightarrow> string \<Rightarrow> int) \<Rightarrow> configuration \<Rightarrow> target_url option \<Rightarrow> configuration_error + string" where
  "businessEnvironmentKey collate config target =
     (case target of None \<Rightarrow> Inr ''*'' | Some t \<Rightarrow>
        if tu_protocol t \<notin> {''http:'', ''https:''} then Inr ''*''
        else let origin = Inr (''origin:'' @ to_lower (tu_origin t)) in
          case config of
            NoConfiguration \<Rightarrow> origin
          | MalformedJson \<Rightarrow> Inl NotJson
          | Configuration (JArr rules) \<Rightarrow>
              if list_ex (\<lambda>r. environment_rule r = None) rules then Inl BadRule
              else (case js_sort (rule_le collate t)
                        (filter (rule_matches t) (List.map_filter environment_rule rules)) of
                  r # _ \<Rightarrow> Inr (''environment:'' @ snd r)
                | [] \<Rightarrow> origin)
          | Configuration _ \<Rightarrow> Inl NotArray)"

section \<open>The concurrency policy\<close>

datatype access_mode = READ_ONLY | MUTATING | UNKNOWN

record concurrency_policy =
  cp_accessMode :: access_mode
  cp_resourceScopes :: "string list option"

definition access_mode_of :: "js \<Rightarrow> access_mode option" where
  "access_mode_of v = (case v of JStr s \<Rightarrow>
       if s = ''READ_ONLY'' then Some READ_ONLY
       else if s = ''MUTATING'' then Some MUTATING
       else if s = ''UNKNOWN'' then Some UNKNOWN else None
     | _ \<Rightarrow> None)"

definition alnum :: "char \<Rightarrow> bool" where
  "alnum c \<longleftrightarrow> (let n = (of_char c :: nat) in
     (48 \<le> n \<and> n \<le> 57) \<or> (65 \<le> n \<and> n \<le> 90) \<or> (97 \<le> n \<and> n \<le> 122))"

definition scope_syntax :: "string \<Rightarrow> bool" where
  "scope_syntax s \<longleftrightarrow> (case s of [] \<Rightarrow> False
     | c # cs \<Rightarrow> alnum c \<and> length s \<le> 300
         \<and> list_all (\<lambda>d. alnum d \<or> d \<in> set ''._:/-'') cs)"

definition scope_schema :: "js \<Rightarrow> string option" where
  "scope_schema v = (case v of
     JStr s \<Rightarrow> if scope_syntax (js_trim s) then Some (js_trim s) else None
   | _ \<Rightarrow> None)"

definition optional_field :: "(js \<Rightarrow> bool) \<Rightarrow> js \<Rightarrow> bool" where
  "optional_field valid v \<longleftrightarrow> v = JUndefined \<or> valid v"

definition policy_fields :: "(string \<Rightarrow> bool) \<Rightarrow> js \<Rightarrow> bool" where
  "policy_fields is_uuid v \<longleftrightarrow>
     optional_field (\<lambda>f. case f of JArr ids \<Rightarrow> length ids \<le> 100
         \<and> list_all (\<lambda>i. case i of JStr s \<Rightarrow> is_uuid s | _ \<Rightarrow> False) ids | _ \<Rightarrow> False)
       (js_prop v ''dependsOnCaseIds'')
     \<and> optional_field (\<lambda>f. case f of JStr s \<Rightarrow> js_trim s \<noteq> [] \<and> length (js_trim s) \<le> 200 | _ \<Rightarrow> False)
         (js_prop v ''provenance'')
     \<and> optional_field (\<lambda>f. case f of JNum n \<Rightarrow> 0 < n \<and> of_int \<lfloor>n\<rfloor> = n | _ \<Rightarrow> False) (js_prop v ''version'')"

definition policy_schema :: "(string \<Rightarrow> bool) \<Rightarrow> js \<Rightarrow> concurrency_policy option" where
  "policy_schema is_uuid v =
     (case v of JObj fs \<Rightarrow>
        if \<not> list_all (\<lambda>(k, _). k \<in> set [''accessMode'', ''resourceScopes'', ''dependsOnCaseIds'',
             ''provenance'', ''version'']) fs \<or> \<not> policy_fields is_uuid v then None
        else (case access_mode_of (js_prop v ''accessMode'') of
            None \<Rightarrow> None
          | Some mode \<Rightarrow> (case js_prop v ''resourceScopes'' of
                JUndefined \<Rightarrow> Some \<lparr>cp_accessMode = mode, cp_resourceScopes = None\<rparr>
              | JArr scopes \<Rightarrow>
                  if 50 < length scopes \<or> list_ex (\<lambda>s. scope_schema s = None) scopes then None
                  else Some \<lparr>cp_accessMode = mode,
                         cp_resourceScopes = Some (List.map_filter scope_schema scopes)\<rparr>
              | _ \<Rightarrow> None))
      | _ \<Rightarrow> None)"

definition concurrencyPolicy :: "(string \<Rightarrow> bool) \<Rightarrow> js \<Rightarrow> concurrency_policy" where
  "concurrencyPolicy is_uuid v =
     coalesce (policy_schema is_uuid v) \<lparr>cp_accessMode = UNKNOWN, cp_resourceScopes = None\<rparr>"

section \<open>What an execution claims\<close>

definition segments :: "string \<Rightarrow> string list" where
  "segments scope = filter (\<lambda>s. s \<noteq> []) (split_on CHR ''/'' scope)"

definition normalise_scope :: "string \<Rightarrow> string" where
  "normalise_scope scope = join_with CHR ''/'' (segments scope)"

definition resourceClaims :: "string \<Rightarrow> concurrency_policy \<Rightarrow> resource_claim list" where
  "resourceClaims rootKey policy =
     (if rootKey = ''*'' \<or> cp_accessMode policy = UNKNOWN
      then [\<lparr>rc_rootKey = rootKey, rc_resourceKey = [], rc_mode = WRITE, rc_origin = ''NORMAL''\<rparr>]
      else let declared = coalesce (cp_resourceScopes policy) [];
               scopes = js_sort (\<lambda>x y. code_unit_compare x y \<le> 0)
                 (js_uniq (map normalise_scope (if declared \<noteq> [] then declared else [[]]))) in
        map (\<lambda>resourceKey. \<lparr>rc_rootKey = rootKey, rc_resourceKey = resourceKey,
               rc_mode = (if cp_accessMode policy = READ_ONLY then READ else WRITE),
               rc_origin = ''NORMAL''\<rparr>) scopes)"

record account_binding =
  ab_account :: string
  ab_aliases :: "string list"
  ab_requiredTypes :: "string list"
  ab_readExisting :: bool

definition canonical_identity :: "string \<Rightarrow> string" where
  "canonical_identity s = to_lower (js_trim s)"

text \<open>\<open>declared\<close> is what the policy's \<open>testAccounts\<close> parses to, \<open>state\<close> the account and aliases of
  the execution state.\<close>

definition account_bindings ::
  "account_binding list \<Rightarrow> string option \<times> string list \<Rightarrow> account_binding list" where
  "account_bindings declared state =
     (if declared \<noteq> [] then declared
      else case fst state of
          None \<Rightarrow> []
        | Some account \<Rightarrow> [\<lparr>ab_account = account, ab_aliases = snd state, ab_requiredTypes = [],
            ab_readExisting = False\<rparr>])"

definition account_names :: "account_binding \<Rightarrow> string list" where
  "account_names b = js_uniq (ab_account b # ab_aliases b)"

definition account_types :: "account_binding \<Rightarrow> string list" where
  "account_types b = (if ab_requiredTypes b \<noteq> [] then ab_requiredTypes b else [[]])"

definition account_key :: "(string \<Rightarrow> string) \<Rightarrow> string \<Rightarrow> string \<Rightarrow> string" where
  "account_key hash account type = ''accounts/'' @ hash (canonical_identity account)
     @ (if type \<noteq> [] then CHR ''/'' # hash (canonical_identity type) else [])"

definition binding_claims ::
  "(string \<Rightarrow> string) \<Rightarrow> string \<Rightarrow> account_binding \<Rightarrow> resource_claim list" where
  "binding_claims hash rootKey b =
     [\<lparr>rc_rootKey = rootKey, rc_resourceKey = account_key hash account type,
        rc_mode = (if ab_readExisting b then READ else WRITE), rc_origin = ''ACCOUNT_COORDINATION''\<rparr>.
        account \<leftarrow> account_names b, type \<leftarrow> account_types b]"

definition claim_key :: "resource_claim \<Rightarrow> string \<times> string" where
  "claim_key c = (rc_rootKey c, rc_resourceKey c)"

definition unique_claims :: "resource_claim list \<Rightarrow> resource_claim list" where
  "unique_claims claims = map snd (foldl (\<lambda>m c.
     if map_option rc_mode (jmap_get m (claim_key c)) \<noteq> Some WRITE then jmap_set m (claim_key c) c else m)
     [] claims)"

definition executionResourceClaims ::
  "(string \<Rightarrow> string) \<Rightarrow> bool \<Rightarrow> string \<Rightarrow> concurrency_policy \<Rightarrow> account_binding list option
   \<Rightarrow> string option \<times> string list \<Rightarrow> resource_claim list" where
  "executionResourceClaims hash locksEnabled rootKey policy testAccounts state =
     (let claims = (if locksEnabled then resourceClaims rootKey policy else []) in
      case testAccounts of
        None \<Rightarrow> claims
      | Some declared \<Rightarrow> unique_claims
          (claims @ concat (map (binding_claims hash rootKey) (account_bindings declared state))))"

section \<open>Conflicts\<close>

definition resourcesConflict :: "resource_claim \<Rightarrow> resource_claim \<Rightarrow> bool" where
  "resourcesConflict l r \<longleftrightarrow>
     (if rc_rootKey l \<noteq> rc_rootKey r \<and> rc_rootKey l \<noteq> ''*'' \<and> rc_rootKey r \<noteq> ''*'' then False
      else if rc_mode l = READ \<and> rc_mode r = READ then False
      else if rc_rootKey l = ''*'' \<or> rc_rootKey r = ''*'' then True
      else rc_resourceKey l = [] \<or> rc_resourceKey r = [] \<or> rc_resourceKey l = rc_resourceKey r
        \<or> starts_with (rc_resourceKey l) (rc_resourceKey r @ ''/'')
        \<or> starts_with (rc_resourceKey r) (rc_resourceKey l @ ''/''))"

section \<open>The lease table\<close>

record lease =
  le_sessionId :: string
  le_claim :: resource_claim
  le_quarantined :: bool

definition lease_of :: "string \<Rightarrow> resource_claim \<Rightarrow> lease" where
  "lease_of sessionId c = \<lparr>le_sessionId = sessionId, le_claim = c, le_quarantined = False\<rparr>"

text \<open>The rows admission looks at, and how it reads a quarantined one.\<close>

definition admission_leases :: "bool \<Rightarrow> resource_claim list \<Rightarrow> lease list \<Rightarrow> lease list" where
  "admission_leases locksEnabled claims leases =
     (if claims = [] then []
      else filter (\<lambda>l. (locksEnabled \<or> rc_origin (le_claim l) = ''ACCOUNT_COORDINATION'')
             \<and> (''*'' \<in> rc_rootKey ` set claims
                \<or> rc_rootKey (le_claim l) \<in> rc_rootKey ` set claims \<or> rc_rootKey (le_claim l) = ''*''))
           leases)"

definition held_claim :: "lease \<Rightarrow> resource_claim" where
  "held_claim l = (if le_quarantined l then (le_claim l)\<lparr>rc_mode := WRITE\<rparr> else le_claim l)"

definition admission_blocker :: "bool \<Rightarrow> resource_claim list \<Rightarrow> lease list \<Rightarrow> lease option" where
  "admission_blocker locksEnabled claims leases =
     List.find (\<lambda>l. list_ex (\<lambda>c. resourcesConflict c (held_claim l)) claims)
       (admission_leases locksEnabled claims leases)"

definition admit_session :: "bool \<Rightarrow> lease list \<Rightarrow> string \<Rightarrow> resource_claim list \<Rightarrow> lease list" where
  "admit_session locksEnabled leases sessionId claims =
     (case admission_blocker locksEnabled claims leases of
        Some _ \<Rightarrow> leases
      | None \<Rightarrow> leases @ map (lease_of sessionId) claims)"

definition admit_manual :: "bool \<Rightarrow> lease list \<Rightarrow> string \<Rightarrow> lease list" where
  "admit_manual locksEnabled leases sessionId =
     (if \<not> locksEnabled \<or> leases \<noteq> [] then leases
      else [lease_of sessionId
        \<lparr>rc_rootKey = ''*'', rc_resourceKey = [], rc_mode = WRITE, rc_origin = ''NORMAL''\<rparr>])"

definition is_lease_of :: "string \<Rightarrow> string \<Rightarrow> lease \<Rightarrow> bool" where
  "is_lease_of sessionId resourceKey l \<longleftrightarrow>
     le_sessionId l = sessionId \<and> rc_resourceKey (le_claim l) = resourceKey"

definition upsert_lease :: "lease list \<Rightarrow> string \<Rightarrow> lease list \<Rightarrow> resource_claim \<Rightarrow> lease list" where
  "upsert_lease found sessionId leases c =
     (if list_ex (is_lease_of sessionId (rc_resourceKey c)) leases
      then map (\<lambda>l. if is_lease_of sessionId (rc_resourceKey c) l
          then l\<lparr>le_claim := (le_claim l)\<lparr>rc_mode :=
                 (if list_ex (\<lambda>f. is_lease_of sessionId (rc_resourceKey c) f
                      \<and> rc_mode (le_claim f) = WRITE) found then WRITE else rc_mode c)\<rparr>\<rparr>
          else l) leases
      else leases @ [lease_of sessionId c])"

text \<open>The new table, and the session that blocks the resumed one, if any.\<close>

definition coordinateResumedAccounts ::
  "lease list \<Rightarrow> string \<Rightarrow> resource_claim list \<Rightarrow> lease list \<times> string option" where
  "coordinateResumedAccounts leases sessionId claims =
     (if claims = [] then (leases, None)
      else let found = filter (\<lambda>l. rc_rootKey (le_claim l) \<in> rc_rootKey ` set claims
                 \<or> rc_rootKey (le_claim l) = ''*'') leases in
        case List.find (\<lambda>l. le_sessionId l \<noteq> sessionId
               \<and> list_ex (\<lambda>c. resourcesConflict c (le_claim l)) claims) found of
          Some l \<Rightarrow> (leases, Some (le_sessionId l))
        | None \<Rightarrow> (foldl (upsert_lease found sessionId) leases claims, None))"

text \<open>Releasing the resources of a session whose browser is verified closed.\<close>

definition quarantine_writes :: "string \<Rightarrow> 'a lease_scheme list \<Rightarrow> 'a lease_scheme list" where
  "quarantine_writes sessionId leases = map (\<lambda>l.
     if le_sessionId l = sessionId \<and> rc_mode (le_claim l) = WRITE then l\<lparr>le_quarantined := True\<rparr> else l) leases"

definition release_unsettled :: "string \<Rightarrow> 'a lease_scheme list \<Rightarrow> 'a lease_scheme list" where
  "release_unsettled sessionId leases =
     filter (\<lambda>l. \<not> (le_sessionId l = sessionId \<and> rc_mode (le_claim l) = READ
         \<and> rc_origin (le_claim l) = ''NORMAL'')) (quarantine_writes sessionId leases)"

text \<open>The rows only, with whatever further columns they have; the owning task and the session are part of
  the recovery of sessions.\<close>

definition release_leases :: "string \<Rightarrow> bool \<Rightarrow> 'a lease_scheme list \<Rightarrow> 'a lease_scheme list" where
  "release_leases sessionId settled leases =
     (let kept = filter (\<lambda>l. \<not> (le_sessionId l = sessionId
                   \<and> rc_origin (le_claim l) = ''ACCOUNT_COORDINATION'')) leases in
      if settled then filter (\<lambda>l. le_sessionId l \<noteq> sessionId) kept
      else release_unsettled sessionId kept)"

section \<open>Scopes as paths\<close>

definition path :: "string list \<Rightarrow> bool" where
  "path xs \<longleftrightarrow> (\<forall>x \<in> set xs. x \<noteq> [] \<and> CHR ''/'' \<notin> set x)"

lemma path_segments: "path (segments s)"
  by (auto simp: path_def segments_def dest: split_on_pieces)

lemma join_path_Nil: "path xs \<Longrightarrow> join_with CHR ''/'' xs = [] \<longleftrightarrow> xs = []"
  by (cases "(CHR ''/'', xs)" rule: join_with.cases) (auto simp: path_def)

lemma path_inside:
  assumes "path xs" "path ys" "xs \<noteq> []" "ys \<noteq> []"
  shows "(join_with CHR ''/'' xs = join_with CHR ''/'' ys
      \<or> starts_with (join_with CHR ''/'' ys) (join_with CHR ''/'' xs @ ''/'')) \<longleftrightarrow> prefix xs ys"
proof
  have sx: "split_on CHR ''/'' (join_with CHR ''/'' xs) = xs"
    and sy: "split_on CHR ''/'' (join_with CHR ''/'' ys) = ys"
    using assms by (auto intro!: split_join simp: path_def)
  assume "join_with CHR ''/'' xs = join_with CHR ''/'' ys
      \<or> starts_with (join_with CHR ''/'' ys) (join_with CHR ''/'' xs @ ''/'')"
  then show "prefix xs ys"
  proof
    assume "join_with CHR ''/'' xs = join_with CHR ''/'' ys"
    then have "xs = ys" by (metis sx sy)
    then show ?thesis by simp
  next
    assume "starts_with (join_with CHR ''/'' ys) (join_with CHR ''/'' xs @ ''/'')"
    then obtain t where t: "join_with CHR ''/'' ys = join_with CHR ''/'' xs @ CHR ''/'' # t"
      by (auto simp: starts_with_iff)
    have "ys = xs @ split_on CHR ''/'' t"
      using sy unfolding t split_on_sep sx by simp
    then show ?thesis by simp
  qed
next
  assume "prefix xs ys"
  then obtain zs where "ys = xs @ zs" by (auto simp: prefix_def)
  then show "join_with CHR ''/'' xs = join_with CHR ''/'' ys
      \<or> starts_with (join_with CHR ''/'' ys) (join_with CHR ''/'' xs @ ''/'')"
    using join_append [OF assms(3), of zs "CHR ''/''"] by (cases "zs = []") (simp_all add: starts_with_iff)
qed

lemma conflict_sym: "resourcesConflict l r \<longleftrightarrow> resourcesConflict r l"
  by (auto simp: resourcesConflict_def)

text \<open>C32: Two scoped claims conflict exactly when one of them writes and either root is unknown
  or they are in the same environment and one scope path is a prefix of the other, whatever
  separators are doubled or trailing in the scopes as declared.\<close>

theorem scopes_conflict:
  "resourcesConflict
     \<lparr>rc_rootKey = env, rc_resourceKey = normalise_scope a, rc_mode = m, rc_origin = u\<rparr>
     \<lparr>rc_rootKey = env', rc_resourceKey = normalise_scope b, rc_mode = m', rc_origin = u'\<rparr>
   \<longleftrightarrow> WRITE \<in> {m, m'} \<and>
     (''*'' \<in> {env, env'}
      \<or> env = env' \<and> (prefix (segments a) (segments b) \<or> prefix (segments b) (segments a)))"
proof -
  have mode: "(m = READ \<and> m' = READ) \<longleftrightarrow> WRITE \<notin> {m, m'}"
    by (cases m; cases m') auto
  have nil: "normalise_scope x = [] \<longleftrightarrow> segments x = []" for x
    by (simp add: normalise_scope_def join_path_Nil path_segments)
  have inside: "(normalise_scope x = normalise_scope y
      \<or> starts_with (normalise_scope y) (normalise_scope x @ ''/'')) \<longleftrightarrow> prefix (segments x) (segments y)"
    if "segments x \<noteq> []" "segments y \<noteq> []" for x y
    unfolding normalise_scope_def using that by (intro path_inside) (simp_all add: path_segments)
  show ?thesis
  proof (cases "segments a = [] \<or> segments b = []")
    case True
    then show ?thesis using mode by (auto simp: resourcesConflict_def nil)
  next
    case False
    then show ?thesis
      using mode inside [of a b] inside [of b a] by (auto simp: resourcesConflict_def nil)
  qed
qed

section \<open>One claim per key\<close>

definition claim_step :: "((string \<times> string) \<times> resource_claim) list \<Rightarrow> resource_claim
    \<Rightarrow> ((string \<times> string) \<times> resource_claim) list" where
  "claim_step m c = (if map_option rc_mode (jmap_get m (claim_key c)) \<noteq> Some WRITE
     then jmap_set m (claim_key c) c else m)"

definition represents :: "resource_claim list \<Rightarrow> ((string \<times> string) \<times> resource_claim) list \<Rightarrow> bool" where
  "represents cs m \<longleftrightarrow> distinct (map fst m)
     \<and> (\<forall>(k, c) \<in> set m. claim_key c = k \<and> c \<in> set cs)
     \<and> (\<forall>c \<in> set cs. \<exists>c'. jmap_get m (claim_key c) = Some c' \<and> (rc_mode c = WRITE \<longrightarrow> rc_mode c' = WRITE))"

lemma update_member: "x \<in> set (AList.update k v m) \<Longrightarrow> x = (k, v) \<or> x \<in> set m"
  by (induction m) (auto split: if_splits)

lemma represents_step: "represents cs m \<Longrightarrow> represents (cs @ [c]) (claim_step m c)"
proof (cases "map_option rc_mode (jmap_get m (claim_key c)) = Some WRITE")
  case True
  then obtain w where "jmap_get m (claim_key c) = Some w" "rc_mode w = WRITE" by auto
  moreover assume "represents cs m"
  ultimately show ?thesis by (fastforce simp: represents_def claim_step_def)
next
  case False
  assume r: "represents cs m"
  have "distinct (map fst (jmap_set m (claim_key c) c))"
    using r by (simp add: represents_def jmap_set_def distinct_update)
  moreover have "\<forall>(k, d) \<in> set (jmap_set m (claim_key c) c). claim_key d = k \<and> d \<in> set (cs @ [c])"
    using r unfolding represents_def jmap_set_def by (fastforce dest: update_member)
  moreover have "\<exists>c'. jmap_get (jmap_set m (claim_key c) c) (claim_key d) = Some c'
      \<and> (rc_mode d = WRITE \<longrightarrow> rc_mode c' = WRITE)" if d: "d \<in> set (cs @ [c])" for d
  proof (cases "d = c")
    case False
    with d have "d \<in> set cs" by simp
    with r obtain c' where c': "jmap_get m (claim_key d) = Some c'" "rc_mode d = WRITE \<longrightarrow> rc_mode c' = WRITE"
      by (auto simp: represents_def)
    show ?thesis
    proof (cases "claim_key d = claim_key c")
      case True
      with c' \<open>\<not> map_option rc_mode (jmap_get m (claim_key c)) = Some WRITE\<close> show ?thesis by simp
    qed (use c' in simp)
  qed simp
  ultimately show ?thesis using False by (simp add: represents_def claim_step_def)
qed

lemma represents_unique: "represents cs (foldl claim_step [] cs)"
  by (induction cs rule: rev_induct) (simp add: represents_def, simp add: represents_step)

lemma unique_claims_eq: "unique_claims cs = map snd (foldl claim_step [] cs)"
  by (simp add: unique_claims_def claim_step_def [abs_def])

lemma unique_claims_subset: "c \<in> set (unique_claims cs) \<Longrightarrow> c \<in> set cs"
  using represents_unique [of cs] unfolding represents_def unique_claims_eq by auto

lemma unique_claims_represent:
  assumes "c \<in> set cs"
  obtains c' where "c' \<in> set (unique_claims cs)" and "claim_key c' = claim_key c"
    and "rc_mode c = WRITE \<Longrightarrow> rc_mode c' = WRITE"
proof -
  from represents_unique [of cs] assms obtain c' where c': "jmap_get (foldl claim_step [] cs) (claim_key c) = Some c'"
    "rc_mode c = WRITE \<longrightarrow> rc_mode c' = WRITE"
    unfolding represents_def by blast
  then have mem: "(claim_key c, c') \<in> set (foldl claim_step [] cs)"
    by (auto simp: jmap_get_def dest: map_of_SomeD)
  with represents_unique [of cs] have "claim_key c' = claim_key c"
    unfolding represents_def by auto
  with that mem c' show ?thesis unfolding unique_claims_eq by force
qed

lemma unique_claims_distinct: "distinct (map claim_key (unique_claims cs))"
proof -
  have "map claim_key (unique_claims cs) = map fst (foldl claim_step [] cs)"
    using represents_unique [of cs] unfolding represents_def unique_claims_eq by auto
  then show ?thesis using represents_unique [of cs] by (simp add: represents_def)
qed

text \<open>A claim that asks for at least as much conflicts with at least as much.\<close>

lemma conflict_iff: "resourcesConflict l r \<longleftrightarrow>
    \<not> (rc_mode l = READ \<and> rc_mode r = READ)
    \<and> (rc_rootKey l = ''*'' \<or> rc_rootKey r = ''*'' \<or> rc_rootKey l = rc_rootKey r
        \<and> (rc_resourceKey l = [] \<or> rc_resourceKey r = [] \<or> rc_resourceKey l = rc_resourceKey r
           \<or> starts_with (rc_resourceKey l) (rc_resourceKey r @ ''/'')
           \<or> starts_with (rc_resourceKey r) (rc_resourceKey l @ ''/'')))"
  unfolding resourcesConflict_def by argo

lemma conflict_mono:
  assumes "resourcesConflict c d"
    and "claim_key c' = claim_key c" and "rc_mode c = WRITE \<longrightarrow> rc_mode c' = WRITE"
    and "claim_key d' = claim_key d" and "rc_mode d = WRITE \<longrightarrow> rc_mode d' = WRITE"
  shows "resourcesConflict c' d'"
proof -
  have k: "rc_rootKey c' = rc_rootKey c" "rc_resourceKey c' = rc_resourceKey c"
    "rc_rootKey d' = rc_rootKey d" "rc_resourceKey d' = rc_resourceKey d"
    using assms(2,4) by (simp_all add: claim_key_def)
  have "\<not> (rc_mode c' = READ \<and> rc_mode d' = READ)"
    using assms(1,3,5) unfolding conflict_iff by (metis (full_types) claim_mode.exhaust)
  with assms(1) show ?thesis unfolding conflict_iff k by blast
qed

section \<open>Accounts\<close>

definition types_overlap :: "string \<Rightarrow> string \<Rightarrow> bool" where
  "types_overlap t t' \<longleftrightarrow> [] \<in> {t, t'} \<or> canonical_identity t = canonical_identity t'"

definition account_claim :: "(string \<Rightarrow> string) \<Rightarrow> string \<Rightarrow> account_binding \<Rightarrow> string \<Rightarrow> string \<Rightarrow> resource_claim" where
  "account_claim hash env b n t = \<lparr>rc_rootKey = env, rc_resourceKey = account_key hash n t,
     rc_mode = (if ab_readExisting b then READ else WRITE), rc_origin = ''ACCOUNT_COORDINATION''\<rparr>"

lemma set_binding_claims:
  "set (binding_claims hash env b)
    = {account_claim hash env b n t | n t. n \<in> set (account_names b) \<and> t \<in> set (account_types b)}"
  by (auto simp: binding_claims_def account_claim_def)

lemma account_keys_overlap:
  assumes "canonical_identity n = canonical_identity n'" and "types_overlap t t'"
  shows "account_key hash n t = account_key hash n' t'
    \<or> starts_with (account_key hash n t) (account_key hash n' t' @ ''/'')
    \<or> starts_with (account_key hash n' t') (account_key hash n t @ ''/'')"
  using assms by (cases t; cases t') (auto simp: account_key_def types_overlap_def starts_with_def)

lemma account_claims_conflict:
  "canonical_identity n = canonical_identity n' \<Longrightarrow> types_overlap t t'
    \<Longrightarrow> \<not> (ab_readExisting b \<and> ab_readExisting b')
    \<Longrightarrow> resourcesConflict (account_claim hash env b n t) (account_claim hash env b' n' t')"
  using account_keys_overlap [of n n' t t' hash] by (auto simp: resourcesConflict_def account_claim_def)

lemma same_account_claims:
  assumes "b \<in> set (account_bindings declared state)" and "b' \<in> set (account_bindings declared' state')"
    and "n \<in> set (account_names b)" and "n' \<in> set (account_names b')"
    and "canonical_identity n = canonical_identity n'"
    and "t \<in> set (account_types b)" and "t' \<in> set (account_types b')" and "types_overlap t t'"
    and "\<not> (ab_readExisting b \<and> ab_readExisting b')"
  shows "\<exists>c \<in> set (executionResourceClaims hash locks env policy (Some declared) state).
    \<exists>c' \<in> set (executionResourceClaims hash locks' env policy' (Some declared') state').
      resourcesConflict c c'"
proof -
  let ?all = "\<lambda>locks policy declared state. (if locks then resourceClaims env policy else [])
      @ concat (map (binding_claims hash env) (account_bindings declared state))"
  have "account_claim hash env b n t \<in> set (?all locks policy declared state)"
    using assms(1,3,6) by (auto simp: set_binding_claims)
  then obtain c where c: "c \<in> set (unique_claims (?all locks policy declared state))"
    "claim_key c = claim_key (account_claim hash env b n t)"
    "rc_mode (account_claim hash env b n t) = WRITE \<Longrightarrow> rc_mode c = WRITE"
    using unique_claims_represent by blast
  have "account_claim hash env b' n' t' \<in> set (?all locks' policy' declared' state')"
    using assms(2,4,7) by (auto simp: set_binding_claims)
  then obtain c' where c': "c' \<in> set (unique_claims (?all locks' policy' declared' state'))"
    "claim_key c' = claim_key (account_claim hash env b' n' t')"
    "rc_mode (account_claim hash env b' n' t') = WRITE \<Longrightarrow> rc_mode c' = WRITE"
    using unique_claims_represent by blast
  have "resourcesConflict (account_claim hash env b n t) (account_claim hash env b' n' t')"
    using assms(5,8,9) by (rule account_claims_conflict)
  then have "resourcesConflict c c'"
    using c(2,3) c'(2,3) conflict_mono by blast
  with c(1) c'(1) show ?thesis
    unfolding executionResourceClaims_def Let_def option.case by blast
qed

text \<open>C31: Account exclusion. When two executions in the same environment are given accounts that are
  the same after trimming and lower-casing (the account or an alias), with overlapping types and
  at least one of them modifying the account, some of their claims conflict, whatever the
  concurrency policies say and whether or not business-data locks are enabled.\<close>

theorem same_account_conflicts:
  assumes "b \<in> set (account_bindings declared state)" and "b' \<in> set (account_bindings declared' state')"
    and "n \<in> set (account_names b)" and "n' \<in> set (account_names b')"
    and "canonical_identity n = canonical_identity n'"
    and "t \<in> set (account_types b)" and "t' \<in> set (account_types b')" and "types_overlap t t'"
    and "\<not> (ab_readExisting b \<and> ab_readExisting b')"
  shows "\<exists>c \<in> set (executionResourceClaims hash locks env policy (Some declared) state).
    \<exists>c' \<in> set (executionResourceClaims hash locks' env policy' (Some declared') state').
      resourcesConflict c c'"
  using assms by (rule same_account_claims)

text \<open>The names and types whose hashes tell the accounts of some bindings apart.\<close>

definition identities :: "account_binding list \<Rightarrow> string set" where
  "identities bs = canonical_identity ` (\<Union>b \<in> set bs. set (account_names b) \<union> set (account_types b))"

lemma key_segments:
  assumes "\<And>s. CHR ''/'' \<notin> set (hash s)"
  shows "split_on CHR ''/'' (account_key hash n t) = [''accounts'', hash (canonical_identity n)]
    @ (if t \<noteq> [] then [hash (canonical_identity t)] else [])"
  using split_on_append [of "CHR ''/''" "''accounts''"]
  by (auto simp: account_key_def split_on_free split_on_append assms)

lemma inside_segments:
  "k = k' \<or> starts_with k (k' @ ''/'') \<Longrightarrow> prefix (split_on CHR ''/'' k') (split_on CHR ''/'' k)"
  by (auto simp: starts_with_iff split_on_sep)

lemma account_keys_apart:
  assumes "\<And>s. CHR ''/'' \<notin> set (hash s)"
    and "account_key hash n t = account_key hash n' t'
      \<or> starts_with (account_key hash n t) (account_key hash n' t' @ ''/'')
      \<or> starts_with (account_key hash n' t') (account_key hash n t @ ''/'')"
  shows "hash (canonical_identity n) = hash (canonical_identity n')
    \<and> ([] \<in> {t, t'} \<or> hash (canonical_identity t) = hash (canonical_identity t'))"
proof -
  have "prefix (split_on CHR ''/'' (account_key hash n' t')) (split_on CHR ''/'' (account_key hash n t))
    \<or> prefix (split_on CHR ''/'' (account_key hash n t)) (split_on CHR ''/'' (account_key hash n' t'))"
    using assms(2) inside_segments by metis
  then show ?thesis unfolding key_segments [OF assms(1)] by (auto split: if_splits)
qed

text \<open>Account coordination waits only when it must. With business-data locks off, a known
  environment and a hash that does not confuse the identities involved, claims of two executions
  conflict exactly when they were given the same account with overlapping types and at least one
  of them modifies it.\<close>

theorem account_conflicts_exactly:
  assumes "env \<noteq> ''*''" and "\<And>s. CHR ''/'' \<notin> set (hash s)"
    and "inj_on hash (identities (account_bindings declared state) \<union> identities (account_bindings declared' state'))"
  shows "(\<exists>c \<in> set (executionResourceClaims hash False env policy (Some declared) state).
      \<exists>c' \<in> set (executionResourceClaims hash False env policy' (Some declared') state').
        resourcesConflict c c')
    \<longleftrightarrow> (\<exists>b \<in> set (account_bindings declared state). \<exists>b' \<in> set (account_bindings declared' state').
        \<exists>n \<in> set (account_names b). \<exists>n' \<in> set (account_names b').
        \<exists>t \<in> set (account_types b). \<exists>t' \<in> set (account_types b').
          canonical_identity n = canonical_identity n' \<and> types_overlap t t'
          \<and> \<not> (ab_readExisting b \<and> ab_readExisting b'))"
    (is "?conflict \<longleftrightarrow> ?shared")
proof
  assume ?shared
  then show ?conflict using same_account_claims by blast
next
  let ?bs = "account_bindings declared state" and ?bs' = "account_bindings declared' state'"
  assume ?conflict
  then obtain c c' where c: "c \<in> set (executionResourceClaims hash False env policy (Some declared) state)"
    and c': "c' \<in> set (executionResourceClaims hash False env policy' (Some declared') state')"
    and k: "resourcesConflict c c'" by blast
  from c obtain b n t where b: "b \<in> set ?bs" "n \<in> set (account_names b)" "t \<in> set (account_types b)"
    "c = account_claim hash env b n t"
    by (auto simp: executionResourceClaims_def set_binding_claims dest!: unique_claims_subset)
  from c' obtain b' n' t' where b': "b' \<in> set ?bs'" "n' \<in> set (account_names b')"
    "t' \<in> set (account_types b')" "c' = account_claim hash env b' n' t'"
    by (auto simp: executionResourceClaims_def set_binding_claims dest!: unique_claims_subset)
  have ids: "canonical_identity n \<in> identities ?bs" "canonical_identity t \<in> identities ?bs"
    "canonical_identity n' \<in> identities ?bs'" "canonical_identity t' \<in> identities ?bs'"
    using b b' by (auto simp: identities_def)
  have "account_key hash x y \<noteq> []" for x y by (simp add: account_key_def)
  then have modes: "\<not> (ab_readExisting b \<and> ab_readExisting b')"
    and overlap: "account_key hash n t = account_key hash n' t'
      \<or> starts_with (account_key hash n t) (account_key hash n' t' @ ''/'')
      \<or> starts_with (account_key hash n' t') (account_key hash n t @ ''/'')"
    using k assms(1) unfolding b(4) b'(4) account_claim_def conflict_iff resource_claim.select_convs by auto
  have h: "hash (canonical_identity n) = hash (canonical_identity n')
      \<and> ([] \<in> {t, t'} \<or> hash (canonical_identity t) = hash (canonical_identity t'))"
    by (rule account_keys_apart [OF assms(2) overlap])
  have same: "x = y" if "hash x = hash y" "x \<in> identities ?bs" "y \<in> identities ?bs'" for x y
    using inj_onD [OF assms(3) that(1)] that(2,3) by blast
  have "canonical_identity n = canonical_identity n' \<and> types_overlap t t'"
    using h same ids unfolding types_overlap_def by blast
  with b b' modes show ?shared by blast
qed

section \<open>The lease table over time\<close>

text \<open>\<open>reachable_leases\<close> are the tables that admissions, manual sessions, resumptions, quarantines and releases build.
  An admitted session is new and a claim list has one claim per key (the table's unique index);
  a resumed execution claims in the environment of its session, which is known. Left out are resumptions in an
  unknown environment (\<open>*\<close>, \<open>account-coordination.ts\<close>), which do conflict (\<open>resume_unknown_target\<close>), and the guard
  rows of origin \<open>LEGACY_RECOVERY\<close>, which recovery inserts unchecked (\<open>materializeRecoveryGuards\<close>).\<close>

definition one_claim_per_key :: "resource_claim list \<Rightarrow> bool" where
  "one_claim_per_key claims \<longleftrightarrow> distinct (map rc_resourceKey claims)"

inductive reachable_leases :: "bool \<Rightarrow> lease list \<Rightarrow> bool" for locks where
  empty: "reachable_leases locks []"
| admit: "reachable_leases locks ls \<Longrightarrow> sid \<notin> le_sessionId ` set ls \<Longrightarrow> one_claim_per_key claims
    \<Longrightarrow> reachable_leases locks (admit_session locks ls sid claims)"
| manual: "reachable_leases locks ls \<Longrightarrow> reachable_leases locks (admit_manual locks ls sid)"
| resume: "reachable_leases locks ls \<Longrightarrow> env \<noteq> ''*'' \<Longrightarrow> rc_rootKey ` set claims \<subseteq> {env}
    \<Longrightarrow> list_all (\<lambda>l. le_sessionId l = sid \<longrightarrow> rc_rootKey (le_claim l) = env) ls
    \<Longrightarrow> reachable_leases locks (fst (coordinateResumedAccounts ls sid claims))"
| quarantine: "reachable_leases locks ls \<Longrightarrow> reachable_leases locks (quarantine_writes sid ls)"
| release: "reachable_leases locks ls \<Longrightarrow> reachable_leases locks (release_leases sid settled ls)"

definition coordinated :: "bool \<Rightarrow> lease \<Rightarrow> lease \<Rightarrow> bool" where
  "coordinated locks l l' \<longleftrightarrow> le_sessionId l \<noteq> le_sessionId l' \<and>
     (locks \<or> rc_origin (le_claim l) = ''ACCOUNT_COORDINATION''
        \<and> rc_origin (le_claim l') = ''ACCOUNT_COORDINATION'')"

definition exclusive :: "bool \<Rightarrow> lease list \<Rightarrow> bool" where
  "exclusive locks ls \<longleftrightarrow> (\<forall>l \<in> set ls. \<forall>l' \<in> set ls.
     coordinated locks l l' \<longrightarrow> \<not> resourcesConflict (le_claim l) (le_claim l'))"

definition row_key :: "lease \<Rightarrow> string \<times> string" where
  "row_key l = (le_sessionId l, rc_resourceKey (le_claim l))"

definition lease_inv :: "bool \<Rightarrow> lease list \<Rightarrow> bool" where
  "lease_inv locks ls \<longleftrightarrow> exclusive locks ls \<and> distinct (map row_key ls)"

lemma coordinated_sym: "coordinated locks l l' \<longleftrightarrow> coordinated locks l' l"
  by (auto simp: coordinated_def)

lemma held_claim_mono:
  "resourcesConflict c (le_claim l) \<Longrightarrow> resourcesConflict c (held_claim l)"
  by (auto simp: held_claim_def conflict_iff)

text \<open>Rows that each correspond to an old row, with the same claim, keep exclusion.\<close>

lemma exclusive_image:
  assumes "exclusive locks ls" and "\<And>l. l \<in> set ls' \<Longrightarrow> \<exists>k \<in> set ls. le_sessionId k = le_sessionId l \<and> le_claim k = le_claim l"
  shows "exclusive locks ls'"
  unfolding exclusive_def
proof (intro ballI impI)
  fix l l'
  assume "l \<in> set ls'" "l' \<in> set ls'" and c: "coordinated locks l l'"
  then obtain k k' where "k \<in> set ls" "k' \<in> set ls" "le_sessionId k = le_sessionId l" "le_claim k = le_claim l"
    "le_sessionId k' = le_sessionId l'" "le_claim k' = le_claim l'"
    using assms(2) by meson
  with c assms(1) show "\<not> resourcesConflict (le_claim l) (le_claim l')"
    unfolding exclusive_def coordinated_def by metis
qed

text \<open>Admission looks at every row a claim could conflict with.\<close>

lemma admission_clear:
  assumes "admission_blocker locks claims ls = None" and "l \<in> set ls" and "c \<in> set claims"
    and "locks \<or> rc_origin (le_claim l) = ''ACCOUNT_COORDINATION''"
  shows "\<not> resourcesConflict c (le_claim l)"
proof
  assume k: "resourcesConflict c (le_claim l)"
  then have "rc_rootKey c = ''*'' \<or> rc_rootKey (le_claim l) = ''*'' \<or> rc_rootKey c = rc_rootKey (le_claim l)"
    unfolding conflict_iff by blast
  moreover have "rc_rootKey c \<in> rc_rootKey ` set claims" "claims \<noteq> []" using assms(3) by auto
  ultimately have "l \<in> set (admission_leases locks claims ls)"
    using assms(2,4) by (auto simp: admission_leases_def)
  with assms(1,3) have "\<not> resourcesConflict c (held_claim l)"
    by (auto simp: admission_blocker_def find_None_iff list_ex_iff)
  with k held_claim_mono show False by blast
qed

lemma admit_inv:
  assumes "lease_inv locks ls" and "sid \<notin> le_sessionId ` set ls" and "one_claim_per_key claims"
  shows "lease_inv locks (admit_session locks ls sid claims)"
proof (cases "admission_blocker locks claims ls")
  case (Some l)
  with assms show ?thesis by (simp add: admit_session_def)
next
  case None
  have new: "\<not> resourcesConflict c (le_claim l)"
    if "l \<in> set ls" "c \<in> set claims" "coordinated locks l (lease_of sid c)" for l c
    using admission_clear [OF None that(1,2)] that(3) by (auto simp: coordinated_def)
  have "exclusive locks (ls @ map (lease_of sid) claims)"
    unfolding exclusive_def
  proof (intro ballI impI)
    fix l l'
    assume l: "l \<in> set (ls @ map (lease_of sid) claims)" "l' \<in> set (ls @ map (lease_of sid) claims)"
      and c: "coordinated locks l l'"
    consider "l \<in> set ls" "l' \<in> set ls"
      | d where "l \<in> set ls" "d \<in> set claims" "l' = lease_of sid d"
      | d where "l' \<in> set ls" "d \<in> set claims" "l = lease_of sid d"
      | d d' where "l = lease_of sid d" "l' = lease_of sid d'"
      using l by auto
    then show "\<not> resourcesConflict (le_claim l) (le_claim l')"
    proof cases
      case 1
      with c assms(1) show ?thesis by (auto simp: lease_inv_def exclusive_def)
    next
      case 2
      with c new [of l d] show ?thesis by (simp add: lease_of_def conflict_sym)
    next
      case 3
      with c new [of l' d] show ?thesis by (simp add: lease_of_def coordinated_sym)
    next
      case 4
      with c show ?thesis by (simp add: coordinated_def lease_of_def)
    qed
  qed
  moreover have "distinct (map row_key (ls @ map (lease_of sid) claims))"
  proof -
    have "map row_key (map (lease_of sid) claims) = map (Pair sid) (map rc_resourceKey claims)"
      by (simp add: row_key_def lease_of_def)
    then have "distinct (map row_key (map (lease_of sid) claims))"
      using assms(3) by (simp add: one_claim_per_key_def distinct_map inj_on_def)
    moreover have "set (map row_key ls) \<inter> set (map row_key (map (lease_of sid) claims)) = {}"
      using assms(2) by (force simp: row_key_def lease_of_def)
    ultimately show ?thesis using assms(1) by (simp add: lease_inv_def)
  qed
  ultimately show ?thesis by (simp add: admit_session_def None lease_inv_def)
qed

text \<open>A row of the table a resumption builds: an old row, or one with the key and mode of a claim.\<close>

definition derived_row :: "lease list \<Rightarrow> string \<Rightarrow> resource_claim list \<Rightarrow> lease \<Rightarrow> bool" where
  "derived_row ls sid claims l \<longleftrightarrow>
     (\<exists>k \<in> set ls. le_sessionId k = le_sessionId l \<and> le_claim k = le_claim l)
     \<or> le_sessionId l = sid
        \<and> (\<exists>c \<in> set claims. claim_key (le_claim l) = claim_key c \<and> rc_mode (le_claim l) = rc_mode c)
        \<and> (\<forall>f \<in> set ls. row_key f = row_key l \<longrightarrow> rc_origin (le_claim f) = rc_origin (le_claim l))"

definition resuming :: "lease list \<Rightarrow> string \<Rightarrow> resource_claim list \<Rightarrow> lease list \<Rightarrow> bool" where
  "resuming ls sid claims t \<longleftrightarrow> (\<forall>l \<in> set t. derived_row ls sid claims l)
     \<and> distinct (map row_key t) \<and> row_key ` set ls \<subseteq> row_key ` set t"

lemma claim_eqI:
  "claim_key c = claim_key d \<Longrightarrow> rc_mode c = rc_mode d \<Longrightarrow> rc_origin c = rc_origin d \<Longrightarrow> c = d"
  for c d :: resource_claim
  by (cases c; cases d) (simp add: claim_key_def)

lemma updated_row:
  assumes d: "derived_row ls sid claims l" and l: "is_lease_of sid (rc_resourceKey c) l" and c: "c \<in> set claims"
    and roots: "rc_rootKey ` set claims \<subseteq> {env}" "\<forall>k \<in> set ls. le_sessionId k = sid \<longrightarrow> rc_rootKey (le_claim k) = env"
    and u: "distinct (map row_key ls)" and f: "set found \<subseteq> set ls"
    and l': "l' = l\<lparr>le_claim := (le_claim l)\<lparr>rc_mode := (if list_ex (\<lambda>f. is_lease_of sid (rc_resourceKey c) f
                      \<and> rc_mode (le_claim f) = WRITE) found then WRITE else rc_mode c)\<rparr>\<rparr>"
  shows "derived_row ls sid claims l'"
proof -
  have key: "rc_resourceKey (le_claim l) = rc_resourceKey c" "le_sessionId l = sid"
    using l by (simp_all add: is_lease_of_def)
  have env: "rc_rootKey (le_claim l) = env"
    using d roots key(2) by (auto simp: derived_row_def claim_key_def)
  have c_env: "rc_rootKey c = env" using c roots(1) by auto
  have origin: "rc_origin (le_claim g) = rc_origin (le_claim l)" if g: "g \<in> set ls" "row_key g = row_key l" for g
    using d unfolding derived_row_def
  proof (elim disjE conjE bexE)
    fix k assume "k \<in> set ls" "le_sessionId k = le_sessionId l" "le_claim k = le_claim l"
    moreover from this have "row_key k = row_key g" using g(2) by (simp add: row_key_def)
    then have "k = g" using \<open>k \<in> set ls\<close> g(1) u by (auto simp: distinct_map dest: inj_onD)
    ultimately show ?thesis by simp
  qed (use g in blast)
  show ?thesis
  proof (cases "list_ex (\<lambda>f. is_lease_of sid (rc_resourceKey c) f \<and> rc_mode (le_claim f) = WRITE) found")
    case True
    then obtain g where g: "g \<in> set ls" "is_lease_of sid (rc_resourceKey c) g" "rc_mode (le_claim g) = WRITE"
      using f by (auto simp: list_ex_iff)
    have "row_key g = row_key l" using g(2) key by (simp add: row_key_def is_lease_of_def)
    then have "rc_origin (le_claim g) = rc_origin (le_claim l)" using origin g(1) by blast
    then have "le_claim g = le_claim l'"
      using g roots(2) env key True by (intro claim_eqI) (simp_all add: l' claim_key_def is_lease_of_def)
    with g show ?thesis by (auto simp: derived_row_def is_lease_of_def l' key)
  next
    case False
    have m: "le_claim l' = (le_claim l)\<lparr>rc_mode := rc_mode c\<rparr>" "le_sessionId l' = sid" "row_key l' = row_key l"
      using False key by (simp_all add: l' row_key_def)
    show ?thesis unfolding derived_row_def
      using c env c_env key m origin by (intro disjI2 conjI bexI [of _ c]) (simp_all add: claim_key_def)
  qed
qed

lemma upsert_resuming:
  assumes t: "resuming ls sid claims t" and c: "c \<in> set claims"
    and roots: "rc_rootKey ` set claims \<subseteq> {env}" "\<forall>k \<in> set ls. le_sessionId k = sid \<longrightarrow> rc_rootKey (le_claim k) = env"
    and u: "distinct (map row_key ls)" and f: "set found \<subseteq> set ls"
  shows "resuming ls sid claims (upsert_lease found sid t c)"
proof (cases "list_ex (is_lease_of sid (rc_resourceKey c)) t")
  case True
  let ?t = "upsert_lease found sid t c"
  have keys: "map row_key ?t = map row_key t"
    using True by (simp add: upsert_lease_def row_key_def is_lease_of_def)
  have "derived_row ls sid claims l" if "l \<in> set ?t" for l
  proof -
    let ?u = "\<lambda>k. k\<lparr>le_claim := (le_claim k)\<lparr>rc_mode := (if list_ex (\<lambda>f. is_lease_of sid (rc_resourceKey c) f
                      \<and> rc_mode (le_claim f) = WRITE) found then WRITE else rc_mode c)\<rparr>\<rparr>"
    have "l \<in> set (map (\<lambda>k. if is_lease_of sid (rc_resourceKey c) k then ?u k else k) t)"
      using that True unfolding upsert_lease_def by simp
    then obtain k where "k \<in> set t" and "l = (if is_lease_of sid (rc_resourceKey c) k then ?u k else k)"
      unfolding set_map by blast
    then have "k \<in> set t" and "l = k \<or> is_lease_of sid (rc_resourceKey c) k \<and> l = ?u k"
      by argo+
    with t show ?thesis
      using updated_row [OF _ _ c roots u f, of k l] by (auto simp: resuming_def)
  qed
  with t keys show ?thesis unfolding resuming_def by (metis list.set_map)
next
  case False
  then have t': "upsert_lease found sid t c = t @ [lease_of sid c]"
    by (simp add: upsert_lease_def)
  have new: "row_key (lease_of sid c) \<notin> row_key ` set t"
    using False by (auto simp: row_key_def lease_of_def list_ex_iff is_lease_of_def)
  have "row_key f \<noteq> row_key (lease_of sid c)" if "f \<in> set ls" for f
  proof -
    have "row_key ` set ls \<subseteq> row_key ` set t" using t by (simp add: resuming_def)
    then have "row_key f \<in> row_key ` set t" using that by blast
    with new show ?thesis by metis
  qed
  then have "derived_row ls sid claims (lease_of sid c)"
    unfolding derived_row_def using c
    by (intro disjI2 conjI bexI [of _ c]) (simp_all add: lease_of_def)
  with t new show ?thesis
    unfolding t' resuming_def by auto
qed

lemma upserts_resuming:
  assumes "resuming ls sid claims t" and "set cs \<subseteq> set claims"
    and "rc_rootKey ` set claims \<subseteq> {env}" "\<forall>k \<in> set ls. le_sessionId k = sid \<longrightarrow> rc_rootKey (le_claim k) = env"
    and "distinct (map row_key ls)" and "set found \<subseteq> set ls"
  shows "resuming ls sid claims (foldl (upsert_lease found sid) t cs)"
  using assms(1,2)
proof (induction cs arbitrary: t)
  case (Cons c cs)
  then have "resuming ls sid claims (upsert_lease found sid t c)"
    using upsert_resuming [OF Cons.prems(1) _ assms(3-6)] by simp
  with Cons show ?case by simp
qed simp

lemma resumed_exclusive:
  assumes ex: "exclusive locks ls" and t: "resuming ls sid claims t"
    and free: "\<And>l c. l \<in> set ls \<Longrightarrow> le_sessionId l \<noteq> sid \<Longrightarrow> c \<in> set claims \<Longrightarrow> \<not> resourcesConflict c (le_claim l)"
  shows "exclusive locks t"
  unfolding exclusive_def
proof (intro ballI impI)
  have old: "\<exists>k \<in> set ls. le_sessionId k = le_sessionId l \<and> le_claim k = le_claim l"
    if "l \<in> set t" "le_sessionId l \<noteq> sid" for l
    using t that by (auto simp: resuming_def derived_row_def)
  have one: "\<not> resourcesConflict (le_claim l) (le_claim l')"
    if l: "l \<in> set t" "l' \<in> set t" "coordinated locks l l'" "le_sessionId l' \<noteq> sid" for l l'
  proof -
    obtain k' where k': "k' \<in> set ls" "le_sessionId k' = le_sessionId l'" "le_claim k' = le_claim l'"
      using old l by blast
    from t l(1) have "derived_row ls sid claims l" by (simp add: resuming_def)
    then consider k where "k \<in> set ls" "le_sessionId k = le_sessionId l" "le_claim k = le_claim l"
      | c where "c \<in> set claims" "claim_key (le_claim l) = claim_key c" "rc_mode (le_claim l) = rc_mode c"
      unfolding derived_row_def by blast
    then show ?thesis
    proof cases
      case 1
      with ex k' l(3) show ?thesis unfolding exclusive_def coordinated_def by metis
    next
      case 2
      with free [of k' c] k' l(4) show ?thesis
        using conflict_mono [of "le_claim l" "le_claim l'" c "le_claim l'"] by auto
    qed
  qed
  fix l l'
  assume "l \<in> set t" "l' \<in> set t" "coordinated locks l l'"
  then show "\<not> resourcesConflict (le_claim l) (le_claim l')"
    using one [of l l'] one [of l' l] by (metis conflict_sym coordinated_def coordinated_sym)
qed

lemma resume_inv:
  assumes inv: "lease_inv locks ls" and env: "env \<noteq> ''*''" and roots: "rc_rootKey ` set claims \<subseteq> {env}"
    and own: "list_all (\<lambda>l. le_sessionId l = sid \<longrightarrow> rc_rootKey (le_claim l) = env) ls"
  shows "lease_inv locks (fst (coordinateResumedAccounts ls sid claims))"
proof -
  define found where "found = filter (\<lambda>l. rc_rootKey (le_claim l) \<in> rc_rootKey ` set claims
      \<or> rc_rootKey (le_claim l) = ''*'') ls"
  define blocked where "blocked = List.find (\<lambda>l. le_sessionId l \<noteq> sid
      \<and> list_ex (\<lambda>c. resourcesConflict c (le_claim l)) claims) found"
  show ?thesis
  proof (cases "claims = [] \<or> blocked \<noteq> None")
    case True
    with inv show ?thesis by (auto simp: coordinateResumedAccounts_def Let_def found_def blocked_def)
  next
    case False
    then have t: "fst (coordinateResumedAccounts ls sid claims) = foldl (upsert_lease found sid) ls claims"
      by (simp add: coordinateResumedAccounts_def Let_def found_def blocked_def)
    have free: "\<not> resourcesConflict c (le_claim l)"
      if "l \<in> set ls" "le_sessionId l \<noteq> sid" "c \<in> set claims" for l c
    proof
      assume k: "resourcesConflict c (le_claim l)"
      have "rc_rootKey c = env" using roots that(3) by auto
      with k env have "rc_rootKey (le_claim l) = ''*'' \<or> rc_rootKey (le_claim l) = rc_rootKey c"
        unfolding conflict_iff by auto
      with that have "l \<in> set found" by (auto simp: found_def)
      with False k that show False by (auto simp: blocked_def find_None_iff list_ex_iff)
    qed
    have start: "resuming ls sid claims ls"
      using inv by (auto simp: resuming_def derived_row_def lease_inv_def)
    have r: "resuming ls sid claims (foldl (upsert_lease found sid) ls claims)"
      by (rule upserts_resuming [OF start _ roots])
        (use own inv in \<open>auto simp: list_all_iff lease_inv_def found_def\<close>)
    then show ?thesis
      using resumed_exclusive [OF _ r free] inv by (simp add: t lease_inv_def resuming_def)
  qed
qed

lemma quarantine_inv: "lease_inv locks ls \<Longrightarrow> lease_inv locks (quarantine_writes sid ls)"
proof -
  assume inv: "lease_inv locks ls"
  have "map row_key (quarantine_writes sid ls) = map row_key ls"
    by (simp add: quarantine_writes_def row_key_def)
  moreover have "exclusive locks (quarantine_writes sid ls)"
    by (rule exclusive_image [of locks ls]) (use inv in \<open>auto simp: lease_inv_def quarantine_writes_def\<close>)
  ultimately show ?thesis using inv unfolding lease_inv_def by metis
qed

lemma filter_inv: "lease_inv locks ls \<Longrightarrow> lease_inv locks (filter P ls)"
  by (auto simp: lease_inv_def exclusive_def distinct_map inj_on_def)

lemma release_inv: "lease_inv locks ls \<Longrightarrow> lease_inv locks (release_leases sid settled ls)"
  by (simp add: release_leases_def release_unsettled_def Let_def filter_inv quarantine_inv)

lemma manual_inv: "lease_inv locks ls \<Longrightarrow> lease_inv locks (admit_manual locks ls sid)"
  by (simp add: admit_manual_def lease_inv_def exclusive_def coordinated_def)

lemma reachable_inv: "reachable_leases locks ls \<Longrightarrow> lease_inv locks ls"
proof (induction rule: reachable_leases.induct)
  case empty
  show ?case by (simp add: lease_inv_def exclusive_def)
qed (simp_all add: admit_inv manual_inv resume_inv quarantine_inv release_inv)

section \<open>Exclusion\<close>

text \<open>C16: Exclusion. In every lease table that admissions, manual sessions, resumptions in a known
  environment, quarantine and release build, two rows of different sessions never conflict
  when business-data locks are enabled, and two account rows of different sessions never conflict
  in any case. Resumptions in an unknown environment (\<open>resume_unknown_target\<close> below) and the guard row
  recovery inserts unchecked (\<open>LEGACY_RECOVERY\<close>) are not among these steps.\<close>

theorem leases_exclusive:
  assumes "reachable_leases locks ls" and "l \<in> set ls" and "l' \<in> set ls"
    and "le_sessionId l \<noteq> le_sessionId l'"
    and "locks \<or> {rc_origin (le_claim l), rc_origin (le_claim l')} = {''ACCOUNT_COORDINATION''}"
  shows "\<not> resourcesConflict (le_claim l) (le_claim l')"
  using reachable_inv [OF assms(1)] assms(2-5)
  by (auto simp: lease_inv_def exclusive_def coordinated_def doubleton_eq_iff)

text \<open>A resumed execution whose environment is unknown claims the root \<open>*\<close>, which conflicts with
  every row, but only rows whose own root is \<open>*\<close> are looked at: with none, nothing blocks it.\<close>

lemma resume_unknown_target:
  assumes "list_all (\<lambda>c. rc_rootKey c = ''*'' \<and> rc_mode c = WRITE) claims" and "claims \<noteq> []"
    and "list_all (\<lambda>l. rc_rootKey (le_claim l) \<noteq> ''*'') ls"
  shows "snd (coordinateResumedAccounts ls sid claims) = None
    \<and> list_all (\<lambda>l. list_all (\<lambda>c. resourcesConflict c (le_claim l)) claims) ls"
proof -
  have "rc_rootKey ` set claims = {''*''}" using assms(1,2) by (cases claims) (auto simp: list_all_iff)
  then have "filter (\<lambda>l. rc_rootKey (le_claim l) \<in> rc_rootKey ` set claims
      \<or> rc_rootKey (le_claim l) = ''*'') ls = []"
    using assms(3) by (auto simp: filter_empty_conv list_all_iff)
  then show ?thesis
    using assms by (auto simp: coordinateResumedAccounts_def conflict_iff list_all_iff)
qed

text \<open>Admission, given the same claims, is blocked by every such row.\<close>

lemma admission_unknown_target:
  assumes "c \<in> set claims" and "rc_rootKey c = ''*''" and "rc_mode c = WRITE"
    and "l \<in> set ls" and "locks \<or> rc_origin (le_claim l) = ''ACCOUNT_COORDINATION''"
  shows "admission_blocker locks claims ls \<noteq> None"
  using admission_clear [of locks claims ls l c] assms by (auto simp: conflict_iff)

section \<open>Witnesses\<close>

abbreviation sample_binding :: account_binding where
  "sample_binding \<equiv> \<lparr>ab_account = ''User-1'', ab_aliases = [], ab_requiredTypes = [''T''], ab_readExisting = False\<rparr>"

abbreviation sample_binding' :: account_binding where
  "sample_binding' \<equiv> \<lparr>ab_account = ''id'', ab_aliases = ['' user-1''], ab_requiredTypes = [], ab_readExisting = True\<rparr>"

abbreviation sample_policy :: concurrency_policy where
  "sample_policy \<equiv> \<lparr>cp_accessMode = READ_ONLY, cp_resourceScopes = None\<rparr>"

definition sample_hash :: "string \<Rightarrow> string" where
  "sample_hash s = (if s = ''user-1'' then ''a'' else if s = ''id'' then ''b'' else if s = ''t'' then ''c'' else ''d'')"

lemma sample_canonical:
  "canonical_identity ''User-1'' = ''user-1''" "canonical_identity '' user-1'' = ''user-1''"
  "canonical_identity ''T'' = ''t''" "canonical_identity ''id'' = ''id''" "canonical_identity [] = []"
  by code_simp+

lemma same_account_conflicts_witness:
  "\<exists>c \<in> set (executionResourceClaims sample_hash True ''e'' sample_policy (Some [sample_binding]) (None, [])).
   \<exists>c' \<in> set (executionResourceClaims sample_hash False ''e'' sample_policy (Some [sample_binding']) (None, [])).
     resourcesConflict c c'"
  by (rule same_account_conflicts [where b = sample_binding and b' = sample_binding'
        and n = "''User-1''" and n' = "'' user-1''" and t = "''T''" and t' = "[]"])
    (simp_all add: account_bindings_def account_names_def account_types_def types_overlap_def sample_canonical)

lemma account_conflicts_exactly_witness:
  "(\<exists>c \<in> set (executionResourceClaims sample_hash False ''e'' sample_policy (Some [sample_binding]) (None, [])).
    \<exists>c' \<in> set (executionResourceClaims sample_hash False ''e'' sample_policy (Some [sample_binding']) (None, [])).
      resourcesConflict c c')"
proof -
  have ids: "identities (account_bindings [sample_binding] (None, [])) = {''user-1'', ''t''}"
    "identities (account_bindings [sample_binding'] (None, [])) = {''id'', ''user-1'', []}"
    by (auto simp: identities_def account_bindings_def account_names_def account_types_def sample_canonical)
  have "inj_on sample_hash (identities (account_bindings [sample_binding] (None, []))
      \<union> identities (account_bindings [sample_binding'] (None, [])))"
    unfolding ids by (auto simp: inj_on_def sample_hash_def)
  moreover have "CHR ''/'' \<notin> set (sample_hash s)" for s by (simp add: sample_hash_def)
  ultimately show ?thesis
    by (subst account_conflicts_exactly)
      (auto simp: account_bindings_def account_names_def account_types_def types_overlap_def sample_canonical)
qed

definition sample_claim :: "string \<Rightarrow> resource_claim" where
  "sample_claim key = \<lparr>rc_rootKey = ''e'', rc_resourceKey = key, rc_mode = WRITE, rc_origin = ''NORMAL''\<rparr>"

definition sample_leases :: "lease list" where
  "sample_leases = admit_session True (admit_session True [] ''s'' [sample_claim ''a'']) ''t'' [sample_claim ''b'']"

lemma sample_leases_eq:
  "sample_leases = [lease_of ''s'' (sample_claim ''a''), lease_of ''t'' (sample_claim ''b'')]"
  by (simp add: sample_leases_def admit_session_def admission_blocker_def admission_leases_def
      lease_of_def sample_claim_def held_claim_def resourcesConflict_def starts_with_def)

lemma leases_exclusive_witness:
  "reachable_leases True sample_leases
    \<and> \<not> resourcesConflict (sample_claim ''a'') (sample_claim ''b'')"
proof -
  have "reachable_leases True (admit_session True [] ''s'' [sample_claim ''a''])"
    by (rule reachable_leases.admit [OF reachable_leases.empty]) (simp_all add: one_claim_per_key_def)
  then have r: "reachable_leases True sample_leases" unfolding sample_leases_def
    by (rule reachable_leases.admit)
      (simp_all add: one_claim_per_key_def admit_session_def admission_blocker_def admission_leases_def lease_of_def)
  from leases_exclusive [OF r, of "lease_of ''s'' (sample_claim ''a'')" "lease_of ''t'' (sample_claim ''b'')"] r
  show ?thesis by (simp add: sample_leases_eq lease_of_def)
qed

end
