(* ===== verification/UText.thy ===== *)
theory UText
  imports JsStrings
begin

text \<open>
  Page text with all of Unicode. A \<open>utext\<close> is the list of its code points, as a regular expression
  with the \<open>u\<close> flag reads it; \<open>utf16_length\<close> is the length the language reports. The white-space
  and display normalisations of \<open>packages/agent-runtime-protocol/src/observed-value.ts\<close> and
  \<open>observation-evaluator.ts\<close>, and the decimal numerals that number generated identifiers.
\<close>

type_synonym utext = "nat list"

definition ascii :: "string \<Rightarrow> utext" where
  "ascii s = map of_char s"

definition utf16_length :: "utext \<Rightarrow> nat" where
  "utf16_length s = (\<Sum>c\<leftarrow>s. if 65536 \<le> c then 2 else 1)"

text \<open>The class \<open>\s\<close>, which is also what \<open>trim\<close> removes, and the blanks of the display rules.\<close>

definition u_space :: "nat \<Rightarrow> bool" where
  "u_space c \<longleftrightarrow> (9 \<le> c \<and> c \<le> 13) \<or> c = 32 \<or> c = 160 \<or> c = 5760 \<or> (8192 \<le> c \<and> c \<le> 8202)
     \<or> c = 8232 \<or> c = 8233 \<or> c = 8239 \<or> c = 8287 \<or> c = 12288 \<or> c = 65279"

definition u_blank :: "nat \<Rightarrow> bool" where
  "u_blank c \<longleftrightarrow> c = 32 \<or> c = 9 \<or> c = 160"

definition trim_by :: "('a \<Rightarrow> bool) \<Rightarrow> 'a list \<Rightarrow> 'a list" where
  "trim_by P s = rev (dropWhile P (rev (dropWhile P s)))"

definition u_trim :: "utext \<Rightarrow> utext" where
  "u_trim = trim_by u_space"

text \<open>\<open>replace(/P+/gu, " ")\<close>: each run becomes one space.\<close>

lemma length_dropWhile [termination_simp]: "length (dropWhile P xs) < Suc (length xs)"
  by (simp add: length_dropWhile_le le_imp_less_Suc)

fun collapse :: "(nat \<Rightarrow> bool) \<Rightarrow> utext \<Rightarrow> utext" where
  "collapse P [] = []"
| "collapse P (c # cs) =
     (if P c then 32 # collapse P (dropWhile P cs) else c # collapse P cs)"

definition normalize :: "utext \<Rightarrow> utext" where
  "normalize s = u_trim (collapse u_space s)"

definition same :: "utext option \<Rightarrow> utext \<Rightarrow> bool" where
  "same a b \<longleftrightarrow> (case a of None \<Rightarrow> False | Some x \<Rightarrow> normalize x = normalize b)"

section \<open>Display text\<close>

definition han_ranges :: "(nat \<times> nat) list" where
  "han_ranges = [(0x2E80, 0x2E99), (0x2E9B, 0x2EF3), (0x2F00, 0x2FD5), (0x3005, 0x3005),
     (0x3007, 0x3007), (0x3021, 0x3029), (0x3038, 0x303B), (0x3400, 0x4DBF), (0x4E00, 0x9FFF),
     (0xF900, 0xFA6D), (0xFA70, 0xFAD9), (0x16FE2, 0x16FE3), (0x16FF0, 0x16FF1),
     (0x20000, 0x2A6DF), (0x2A700, 0x2B739), (0x2B740, 0x2B81D), (0x2B820, 0x2CEA1),
     (0x2CEB0, 0x2EBE0), (0x2EBF0, 0x2EE5D), (0x2F800, 0x2FA1D), (0x30000, 0x3134A),
     (0x31350, 0x323AF)]"

definition han :: "nat \<Rightarrow> bool" where
  "han c \<longleftrightarrow> list_ex (\<lambda>(a, b). a \<le> c \<and> c \<le> b) han_ranges"

definition begins :: "(nat \<Rightarrow> bool) \<Rightarrow> utext \<Rightarrow> bool" where
  "begins P s \<longleftrightarrow> (case s of [] \<Rightarrow> False | c # _ \<Rightarrow> P c)"

text \<open>A run of blanks between two Han characters goes; \<open>prev\<close> tells whether the character before
  is one.\<close>

fun join_han :: "bool \<Rightarrow> utext \<Rightarrow> utext" where
  "join_han prev [] = []"
| "join_han prev (c # cs) =
     (if prev \<and> u_blank c \<and> begins han (dropWhile u_blank cs) then join_han False (dropWhile u_blank cs)
      else c # join_han (han c) cs)"

definition u_digit :: "nat \<Rightarrow> bool" where
  "u_digit c \<longleftrightarrow> 48 \<le> c \<and> c \<le> 57"

definition u_word :: "nat \<Rightarrow> bool" where
  "u_word c \<longleftrightarrow> u_digit c \<or> (65 \<le> c \<and> c \<le> 90) \<or> (97 \<le> c \<and> c \<le> 122) \<or> c = 95"

definition clock :: "utext \<Rightarrow> bool" where
  "clock s \<longleftrightarrow> (case s of a # b # c # d # e # _ \<Rightarrow>
       u_digit a \<and> u_digit b \<and> c = 58 \<and> u_digit d \<and> u_digit e | _ \<Rightarrow> False)"

definition dash :: "nat \<Rightarrow> bool" where
  "dash c \<longleftrightarrow> c = 0x2013 \<or> c = 0x2014 \<or> c = 45"

text \<open>After a time: the dash of a range and what follows it, when a time does.\<close>

definition range_tail :: "utext \<Rightarrow> (nat \<times> utext) option" where
  "range_tail s = (case dropWhile u_blank s of
     d # rest \<Rightarrow> let after = dropWhile u_blank rest in
       if dash d \<and> clock after \<and> \<not> begins u_word (drop 5 after) then Some (d, after) else None
   | [] \<Rightarrow> None)"

lemma range_tail_length [termination_simp]:
  "range_tail s = Some (d, after) \<Longrightarrow> length after < length s"
proof -
  assume "range_tail s = Some (d, after)"
  then obtain rest where "dropWhile u_blank s = d # rest" "after = dropWhile u_blank rest"
    by (auto simp: range_tail_def Let_def split: list.splits if_splits)
  moreover have "length (dropWhile u_blank s) \<le> length s" by (rule length_dropWhile_le)
  moreover have "length (dropWhile u_blank rest) \<le> length rest" by (rule length_dropWhile_le)
  ultimately show ?thesis by simp
qed

text \<open>\<open>prev\<close> tells whether the character before is a word character.\<close>

function join_ranges :: "bool \<Rightarrow> utext \<Rightarrow> utext" where
  "join_ranges prev [] = []"
| "join_ranges prev (c # cs) =
     (case (if \<not> prev \<and> clock (c # cs) then range_tail (drop 4 cs) else None) of
        Some (d, after) \<Rightarrow> take 5 (c # cs) @ d # join_ranges False after
      | None \<Rightarrow> c # join_ranges (u_word c) cs)"
  by pat_completeness auto

termination
proof (relation "measure (\<lambda>(_, s). length s)", goal_cases)
  case (3 prev c cs x d after)
  then have "range_tail (drop 4 cs) = Some (d, after)" by (simp split: if_splits)
  then have "length after < length (drop 4 cs)" by (rule range_tail_length)
  then show ?case by simp
qed simp_all

definition normalizeDisplayText :: "utext \<Rightarrow> utext" where
  "normalizeDisplayText s = u_trim (collapse u_blank (join_ranges False (join_han False s)))"

section \<open>Laws\<close>

lemma trim_by_idem [simp]: "trim_by P (trim_by P s) = trim_by P s"
proof -
  define t where "t = dropWhile P s"
  define u where "u = dropWhile P (rev t)"
  have "trim_by P s = rev u" by (simp add: trim_by_def t_def u_def)
  have "u = [] \<or> \<not> P (hd u)" unfolding u_def by (cases "dropWhile P (rev t) = []") (auto simp: hd_dropWhile)
  have "rev u = [] \<or> \<not> P (hd (rev u))"
  proof (cases "u = []")
    case False
    obtain v where v: "rev t = v @ u" unfolding u_def by (metis takeWhile_dropWhile_id)
    then have "t = rev u @ rev v" by (metis rev_append rev_rev_ident)
    with False have "hd t = hd (rev u)" "t \<noteq> []" by simp_all
    moreover have "\<not> P (hd t)" using \<open>t \<noteq> []\<close> hd_dropWhile [of P s] by (simp add: t_def)
    ultimately show ?thesis by simp
  qed simp
  then have "dropWhile P (rev u) = rev u" by (cases "rev u") auto
  moreover have "dropWhile P u = u" using \<open>u = [] \<or> \<not> P (hd u)\<close> by (cases u) auto
  ultimately show ?thesis by (simp add: \<open>trim_by P s = rev u\<close>) (simp add: trim_by_def)
qed

lemma u_trim_idem [simp]: "u_trim (u_trim s) = u_trim s"
  by (simp add: u_trim_def)

lemma js_trim_eq: "js_trim = trim_by js_space"
  by (simp add: fun_eq_iff js_trim_def trim_by_def)

lemma js_trim_idem [simp]: "js_trim (js_trim s) = js_trim s"
  by (simp add: js_trim_eq)

section \<open>Decimal numerals\<close>

definition digit_char :: "nat \<Rightarrow> char" where
  "digit_char d = char_of (48 + d)"

fun decimal :: "nat \<Rightarrow> string" where
  "decimal n = (if n < 10 then [digit_char n] else decimal (n div 10) @ [digit_char (n mod 10)])"

declare decimal.simps [simp del]

definition decimal_value :: "string \<Rightarrow> nat" where
  "decimal_value s = foldl (\<lambda>a c. 10 * a + (of_char c - 48)) 0 s"

lemma digit_char_value: "d < 10 \<Longrightarrow> of_char (digit_char d) - (48 :: nat) = d"
  by (simp add: digit_char_def)

lemma decimal_value_decimal: "decimal_value (decimal n) = n"
proof (induction n rule: decimal.induct)
  case (1 n)
  then show ?case
    by (subst decimal.simps) (auto simp: decimal_value_def digit_char_value)
qed

lemma decimal_inject [simp]: "decimal m = decimal n \<longleftrightarrow> m = n"
  by (metis decimal_value_decimal)

lemma decimal_digit: "c \<in> set (decimal n) \<Longrightarrow> 48 \<le> (of_char c :: nat) \<and> (of_char c :: nat) \<le> 57"
proof (induction n rule: decimal.induct)
  case (1 n)
  have d: "48 \<le> (of_char (digit_char k) :: nat) \<and> (of_char (digit_char k) :: nat) \<le> 57" if "k < 10" for k
    using that by (simp add: digit_char_def)
  show ?case
    using 1 d by (subst (asm) (2) decimal.simps) (auto split: if_splits)
qed

lemma decimal_not_Nil [simp]: "decimal n \<noteq> []"
  by (subst decimal.simps) simp

lemma length_decimal: "n < 100 \<Longrightarrow> length (decimal n) \<le> 2"
  by (subst decimal.simps, subst decimal.simps) (auto simp: less_mult_imp_div_less)

end
