(* ===== verification/ObservationContract.thy ===== *)
theory ObservationContract
  imports UText
begin

text \<open>
  Observation contracts, \<open>packages/agent-runtime-protocol/src/observation-contract.ts\<close>: what a
  criterion says must be seen of which business objects. The types of version 2 (a scope, an
  entity, assertions on named controls) and version 3 (an identity and labelled states), what
  their schemas accept, and the compiler from a business check to a version 3 contract.

  A schema is a function from a value of the right shape to an option: it trims what the schema
  trims and is \<open>None\<close> where the schema reports an issue. Values of another shape, which the
  schemas reject too, are not values of these types.
\<close>

section \<open>Types\<close>

datatype observation_phase = CURRENT | INITIAL_AFTER_OPEN | AFTER_ACTION | REOPENED
datatype evidence_kind = DOM | SCREENSHOT
datatype observed_property = P_CHECKED | P_VISIBLE | P_ENABLED | P_VALUE | P_TEXT | P_SELECTED_LABEL
datatype match_mode = EXACT | DISPLAY_TEXT
datatype expectation = Expect_Bool bool | Expect_Text utext | Expect_OneOf "utext list"

datatype subject_kind = SWITCH | FIELD_SUBJECT | CONTROL
datatype scope_kind = PAGE | DIALOG | FORM | TABLE_ROW | POPOVER
datatype control_kind = SELECT | FIELD | ROW

record assertion_v2 =
  a2_assertionId :: string
  a2_kind :: subject_kind
  a2_label :: utext
  a2_property :: observed_property
  a2_expected :: expectation

record target_v2 =
  t2_targetId :: string
  t2_label :: utext
  t2_scopeKind :: scope_kind
  t2_scopeNames :: "utext list"
  t2_controlKind :: control_kind
  t2_entityLabel :: utext
  t2_entityProperty :: observed_property
  t2_oneOf :: "utext list"
  t2_phase :: observation_phase
  t2_assertions :: "assertion_v2 list"
  t2_requiredEvidenceKinds :: "evidence_kind list"

record assertion_v3 =
  a3_assertionId :: string
  a3_property :: "observed_property option"
  a3_matchMode :: "match_mode option"
  a3_label :: utext
  a3_expected :: "expectation option"

record target_v3 =
  t3_targetId :: string
  t3_label :: utext
  t3_identity :: utext
  t3_matchMode :: "match_mode option"
  t3_phase :: observation_phase
  t3_assertions :: "assertion_v3 list"
  t3_requiredEvidenceKinds :: "evidence_kind list"

record comparison =
  cm_comparisonId :: string
  cm_subjectTargetId :: string
  cm_referenceTargetId :: string
  cm_dimensions :: "utext list"
  cm_sourceRef :: utext
  cm_quote :: utext

record contract_v2 =
  c2_targets :: "target_v2 list"
  c2_comparisons :: "comparison list"

record contract_v3 =
  c3_targets :: "target_v3 list"
  c3_comparisons :: "comparison list"

datatype observation_contract = Contract2 contract_v2 | Contract3 contract_v3

record business_state =
  bs_property :: "observed_property option"
  bs_matchMode :: "match_mode option"
  bs_label :: utext
  bs_equals :: expectation

record business_check =
  bc_subjects :: "utext list"
  bc_identityMatchMode :: "match_mode option"
  bc_state :: business_state
  bc_when :: observation_phase
  bc_compareWith :: "utext option"
  bc_dimensions :: "utext list"

section \<open>Schemas of the parts\<close>

definition id_schema :: "string \<Rightarrow> string option" where
  "id_schema s = (let t = js_trim s in if t \<noteq> [] \<and> length t \<le> 160 then Some t else None)"

definition text_schema :: "nat \<Rightarrow> utext \<Rightarrow> utext option" where
  "text_schema hi s = (let t = u_trim s in if t \<noteq> [] \<and> utf16_length t \<le> hi then Some t else None)"

definition label_schema :: "utext \<Rightarrow> utext option" where
  "label_schema = text_schema 500"

text \<open>An array schema: the length in bounds and every element accepted.\<close>

fun all_some :: "'a option list \<Rightarrow> 'a list option" where
  "all_some [] = Some []"
| "all_some (x # xs) = (case x of None \<Rightarrow> None | Some y \<Rightarrow> map_option (Cons y) (all_some xs))"

definition array_schema :: "nat \<Rightarrow> nat \<Rightarrow> ('a \<Rightarrow> 'b option) \<Rightarrow> 'a list \<Rightarrow> 'b list option" where
  "array_schema lo hi f xs =
     (if lo \<le> length xs \<and> length xs \<le> hi then all_some (map f xs) else None)"

definition expected_text :: "utext \<Rightarrow> bool" where
  "expected_text s \<longleftrightarrow> utf16_length s \<le> 500"

definition kinds_schema :: "evidence_kind list \<Rightarrow> bool" where
  "kinds_schema ks \<longleftrightarrow> 1 \<le> length ks \<and> length ks \<le> 2"

definition assertion_v2_schema :: "assertion_v2 \<Rightarrow> assertion_v2 option" where
  "assertion_v2_schema a =
     (case (id_schema (a2_assertionId a), label_schema (a2_label a)) of
        (Some i, Some l) \<Rightarrow>
          if (case a2_expected a of
                Expect_Bool _ \<Rightarrow> a2_property a \<in> {P_CHECKED, P_VISIBLE, P_ENABLED}
              | Expect_Text s \<Rightarrow> a2_property a \<in> {P_VALUE, P_TEXT} \<and> expected_text s
              | Expect_OneOf ss \<Rightarrow> a2_property a \<in> {P_VALUE, P_TEXT}
                  \<and> 1 \<le> length ss \<and> length ss \<le> 10 \<and> list_all expected_text ss)
          then Some (a\<lparr>a2_assertionId := i, a2_label := l\<rparr>) else None
      | _ \<Rightarrow> None)"

definition target_v2_schema :: "target_v2 \<Rightarrow> target_v2 option" where
  "target_v2_schema t =
     (case (id_schema (t2_targetId t), label_schema (t2_label t), label_schema (t2_entityLabel t)) of
        (Some i, Some l, Some e) \<Rightarrow>
          (case (array_schema 1 10 label_schema (t2_scopeNames t), array_schema 1 10 label_schema (t2_oneOf t),
                 array_schema 1 8 assertion_v2_schema (t2_assertions t)) of
             (Some names, Some one, Some as) \<Rightarrow>
               if t2_entityProperty t \<in> {P_SELECTED_LABEL, P_VALUE, P_TEXT}
                  \<and> kinds_schema (t2_requiredEvidenceKinds t)
               then Some (t\<lparr>t2_targetId := i, t2_label := l, t2_entityLabel := e, t2_scopeNames := names,
                      t2_oneOf := one, t2_assertions := as\<rparr>) else None
           | _ \<Rightarrow> None)
      | _ \<Rightarrow> None)"

definition comparison_schema :: "comparison \<Rightarrow> comparison option" where
  "comparison_schema c =
     (case (id_schema (cm_comparisonId c), id_schema (cm_subjectTargetId c), id_schema (cm_referenceTargetId c)) of
        (Some i, Some s, Some r) \<Rightarrow>
          (case (array_schema 1 8 label_schema (cm_dimensions c), label_schema (cm_sourceRef c),
                 text_schema 2000 (cm_quote c)) of
             (Some ds, Some src, Some q) \<Rightarrow>
               Some \<lparr>cm_comparisonId = i, cm_subjectTargetId = s, cm_referenceTargetId = r,
                 cm_dimensions = ds, cm_sourceRef = src, cm_quote = q\<rparr>
           | _ \<Rightarrow> None)
      | _ \<Rightarrow> None)"

definition assertion_v3_schema :: "assertion_v3 \<Rightarrow> assertion_v3 option" where
  "assertion_v3_schema a =
     (case (id_schema (a3_assertionId a), label_schema (a3_label a)) of
        (Some i, Some l) \<Rightarrow>
          if a3_property a \<in> {None, Some P_TEXT, Some P_CHECKED, Some P_VALUE, Some P_VISIBLE}
             \<and> (case a3_expected a of
                  Some (Expect_Text s) \<Rightarrow> expected_text s
                | Some (Expect_OneOf _) \<Rightarrow> False
                | _ \<Rightarrow> True)
          then Some (a\<lparr>a3_assertionId := i, a3_label := l\<rparr>) else None
      | _ \<Rightarrow> None)"

definition target_v3_schema :: "target_v3 \<Rightarrow> target_v3 option" where
  "target_v3_schema t =
     (case (id_schema (t3_targetId t), label_schema (t3_label t), label_schema (t3_identity t)) of
        (Some i, Some l, Some x) \<Rightarrow>
          (case array_schema 1 8 assertion_v3_schema (t3_assertions t) of
             Some as \<Rightarrow> if kinds_schema (t3_requiredEvidenceKinds t)
               then Some (t\<lparr>t3_targetId := i, t3_label := l, t3_identity := x, t3_assertions := as\<rparr>)
               else None
           | None \<Rightarrow> None)
      | _ \<Rightarrow> None)"

section \<open>Schemas of the contracts\<close>

text \<open>The target an id names is the last one with it.\<close>

definition needs_screenshot :: "(string \<times> evidence_kind list) list \<Rightarrow> string \<Rightarrow> bool" where
  "needs_screenshot targets i \<longleftrightarrow> (case map_of (rev targets) i of
       None \<Rightarrow> False | Some ks \<Rightarrow> SCREENSHOT \<in> set ks)"

definition comparisons_refine :: "(string \<times> evidence_kind list) list \<Rightarrow> comparison list \<Rightarrow> bool" where
  "comparisons_refine targets cs \<longleftrightarrow> distinct (map cm_comparisonId cs)
     \<and> list_all (\<lambda>c. cm_subjectTargetId c \<noteq> cm_referenceTargetId c
         \<and> needs_screenshot targets (cm_subjectTargetId c)
         \<and> needs_screenshot targets (cm_referenceTargetId c)) cs"

definition contract_v2_refine :: "contract_v2 \<Rightarrow> bool" where
  "contract_v2_refine c \<longleftrightarrow> distinct (map t2_targetId (c2_targets c))
     \<and> list_all (\<lambda>t. distinct (map a2_assertionId (t2_assertions t))
         \<and> \<not> (t2_entityProperty t = P_SELECTED_LABEL \<and> t2_controlKind t \<noteq> SELECT)
         \<and> DOM \<in> set (t2_requiredEvidenceKinds t)) (c2_targets c)
     \<and> comparisons_refine (map (\<lambda>t. (t2_targetId t, t2_requiredEvidenceKinds t)) (c2_targets c))
         (c2_comparisons c)"

definition contract_v3_refine :: "contract_v3 \<Rightarrow> bool" where
  "contract_v3_refine c \<longleftrightarrow> distinct (map t3_targetId (c3_targets c))
     \<and> length (remdups (map t3_identity (c3_targets c))) = length (remdups (map t3_targetId (c3_targets c)))
     \<and> list_all (\<lambda>t.
           list_all (\<lambda>a. \<not> (a3_matchMode a = Some DISPLAY_TEXT \<and> a3_property a \<noteq> Some P_TEXT)) (t3_assertions t)
         \<and> \<not> (list_ex (\<lambda>a. a3_expected a = None) (t3_assertions t)
              \<and> (\<not> list_ex (\<lambda>k. cm_referenceTargetId k = t3_targetId t) (c3_comparisons c)
                 \<or> list_ex (\<lambda>k. cm_subjectTargetId k = t3_targetId t) (c3_comparisons c)))
         \<and> DOM \<in> set (t3_requiredEvidenceKinds t)
         \<and> distinct (map a3_assertionId (t3_assertions t))) (c3_targets c)
     \<and> comparisons_refine (map (\<lambda>t. (t3_targetId t, t3_requiredEvidenceKinds t)) (c3_targets c))
         (c3_comparisons c)"

definition contract_v2_schema :: "contract_v2 \<Rightarrow> contract_v2 option" where
  "contract_v2_schema c =
     (case (array_schema 1 20 target_v2_schema (c2_targets c),
            array_schema 0 100 comparison_schema (c2_comparisons c)) of
        (Some ts, Some cs) \<Rightarrow>
          let parsed = \<lparr>c2_targets = ts, c2_comparisons = cs\<rparr> in
          if contract_v2_refine parsed then Some parsed else None
      | _ \<Rightarrow> None)"

definition contract_v3_schema :: "contract_v3 \<Rightarrow> contract_v3 option" where
  "contract_v3_schema c =
     (case (array_schema 1 21 target_v3_schema (c3_targets c),
            array_schema 0 100 comparison_schema (c3_comparisons c)) of
        (Some ts, Some cs) \<Rightarrow>
          let parsed = \<lparr>c3_targets = ts, c3_comparisons = cs\<rparr> in
          if contract_v3_refine parsed then Some parsed else None
      | _ \<Rightarrow> None)"

definition observation_contract_schema :: "observation_contract \<Rightarrow> observation_contract option" where
  "observation_contract_schema c = (case c of
     Contract2 k \<Rightarrow> map_option Contract2 (contract_v2_schema k)
   | Contract3 k \<Rightarrow> map_option Contract3 (contract_v3_schema k))"

section \<open>Business checks\<close>

definition business_state_schema :: "business_state \<Rightarrow> business_state option" where
  "business_state_schema s =
     (case text_schema 80 (bs_label s) of
        None \<Rightarrow> None
      | Some l \<Rightarrow>
          if bs_property s \<in> {None, Some P_TEXT, Some P_CHECKED, Some P_VALUE, Some P_VISIBLE}
             \<and> (case bs_equals s of Expect_Text t \<Rightarrow> expected_text t | Expect_Bool _ \<Rightarrow> True
                | Expect_OneOf _ \<Rightarrow> False)
          then Some (s\<lparr>bs_label := l\<rparr>) else None)"

definition is_bool :: "expectation \<Rightarrow> bool" where
  "is_bool e \<longleftrightarrow> (case e of Expect_Bool _ \<Rightarrow> True | _ \<Rightarrow> False)"

definition business_check_refine :: "business_check \<Rightarrow> bool" where
  "business_check_refine c \<longleftrightarrow>
     \<not> (bs_matchMode (bc_state c) = Some DISPLAY_TEXT \<and> bs_property (bc_state c) \<noteq> Some P_TEXT)
     \<and> (case bs_property (bc_state c) of None \<Rightarrow> True
        | Some p \<Rightarrow> (p \<in> {P_CHECKED, P_VISIBLE}) = is_bool (bs_equals (bc_state c)))
     \<and> distinct (bc_subjects c)
     \<and> (case bc_compareWith c of None \<Rightarrow> True | Some r \<Rightarrow> r \<notin> set (bc_subjects c))
     \<and> (bc_compareWith c \<noteq> None) = (bc_dimensions c \<noteq> [])"

definition business_check_schema :: "business_check \<Rightarrow> business_check option" where
  "business_check_schema c =
     (case (array_schema 1 20 (text_schema 120) (bc_subjects c), business_state_schema (bc_state c),
            array_schema 0 8 (text_schema 80) (bc_dimensions c)) of
        (Some ss, Some st, Some ds) \<Rightarrow>
          (case (case bc_compareWith c of None \<Rightarrow> Some None | Some r \<Rightarrow> map_option Some (text_schema 120 r)) of
             None \<Rightarrow> None
           | Some r \<Rightarrow>
               let parsed = c\<lparr>bc_subjects := ss, bc_state := st, bc_compareWith := r, bc_dimensions := ds\<rparr> in
               if business_check_refine parsed then Some parsed else None)
      | _ \<Rightarrow> None)"

section \<open>The compiler\<close>

definition subject_id :: "nat \<Rightarrow> string" where
  "subject_id n = ''subject-'' @ decimal n"

definition check_subjects :: "business_check \<Rightarrow> utext list" where
  "check_subjects check = bc_subjects check @ (case bc_compareWith check of None \<Rightarrow> [] | Some r \<Rightarrow> [r])"

definition compiled_target :: "business_check \<Rightarrow> string list \<Rightarrow> nat \<Rightarrow> utext \<Rightarrow> target_v3" where
  "compiled_target check kinds i subject =
     \<lparr>t3_targetId = subject_id (i + 1), t3_label = subject, t3_identity = subject,
      t3_matchMode = bc_identityMatchMode check,
      t3_phase = (if i < length (bc_subjects check) then bc_when check else CURRENT),
      t3_assertions = [\<lparr>a3_assertionId = ''state'', a3_property = bs_property (bc_state check),
        a3_matchMode = bs_matchMode (bc_state check), a3_label = bs_label (bc_state check),
        a3_expected = (if i < length (bc_subjects check) then Some (bs_equals (bc_state check)) else None)\<rparr>],
      t3_requiredEvidenceKinds = DOM #
        (if bc_compareWith check \<noteq> None \<or> ''SCREENSHOT'' \<in> set kinds then [SCREENSHOT] else [])\<rparr>"

definition compiled_comparison :: "business_check \<Rightarrow> utext \<Rightarrow> utext \<Rightarrow> nat \<Rightarrow> comparison" where
  "compiled_comparison check sourceRef quote i =
     \<lparr>cm_comparisonId = ''comparison-'' @ decimal (i + 1), cm_subjectTargetId = subject_id (i + 1),
      cm_referenceTargetId = subject_id (length (check_subjects check)),
      cm_dimensions = bc_dimensions check, cm_sourceRef = sourceRef, cm_quote = quote\<rparr>"

definition compileBusinessCheck ::
  "business_check \<Rightarrow> utext \<Rightarrow> utext \<Rightarrow> string list \<Rightarrow> contract_v3 option" where
  "compileBusinessCheck check sourceRef quote kinds =
     contract_v3_schema
       \<lparr>c3_targets = map (\<lambda>(i, subject). compiled_target check kinds i subject)
          (enumerate 0 (check_subjects check)),
        c3_comparisons = (if bc_compareWith check \<noteq> None
          then map (compiled_comparison check sourceRef quote) [0..<length (bc_subjects check)] else [])\<rparr>"

section \<open>Laws of the schemas\<close>

lemma all_some_iff: "all_some xs = Some ys \<longleftrightarrow> map Some ys = xs"
  by (induction xs arbitrary: ys) (auto split: option.splits simp: map_eq_Cons_conv)

lemma array_schema_iff:
  "array_schema lo hi f xs = Some ys \<longleftrightarrow> lo \<le> length xs \<and> length xs \<le> hi \<and> map f xs = map Some ys"
  by (auto simp: array_schema_def all_some_iff)

lemma text_schemaD: "text_schema hi s = Some t \<Longrightarrow> t \<noteq> [] \<and> u_trim t = t \<and> utf16_length t \<le> hi"
  by (auto simp: text_schema_def Let_def split: if_splits)

text \<open>What a schema accepts, any schema with a bound as large accepts unchanged.\<close>

lemma text_schema_again: "text_schema hi s = Some t \<Longrightarrow> hi \<le> hi' \<Longrightarrow> text_schema hi' t = Some t"
  by (drule text_schemaD) (simp add: text_schema_def Let_def)

lemma map_Some_preimage: "map f xs = map Some ys \<Longrightarrow> list_all (\<lambda>y. \<exists>x. f x = Some y) ys"
  by (induction ys arbitrary: xs) (auto simp: map_eq_Cons_conv)

lemma array_text_schemaD:
  assumes "array_schema lo hi (text_schema n) xs = Some ys"
  shows "lo \<le> length ys \<and> length ys \<le> hi \<and> list_all (\<lambda>y. text_schema n y = Some y) ys"
proof -
  have m: "map (text_schema n) xs = map Some ys" and l: "lo \<le> length xs" "length xs \<le> hi"
    using assms by (simp_all add: array_schema_iff)
  have "length xs = length ys" using arg_cong [OF m, of length] by simp
  with l map_Some_preimage [OF m] show ?thesis
    by (auto simp: list_all_iff intro: text_schema_again)
qed

lemma array_schema_fixed:
  "lo \<le> length xs \<Longrightarrow> length xs \<le> hi \<Longrightarrow> list_all (\<lambda>x. f x = Some x) xs \<Longrightarrow> array_schema lo hi f xs = Some xs"
  by (simp add: array_schema_iff list_all_iff)

lemma id_schema_plain: "s \<noteq> [] \<Longrightarrow> length s \<le> 160 \<Longrightarrow> \<not> js_space (hd s) \<Longrightarrow> \<not> js_space (last s)
    \<Longrightarrow> id_schema s = Some s"
proof -
  assume s: "s \<noteq> []" "length s \<le> 160" "\<not> js_space (hd s)" "\<not> js_space (last s)"
  then have "dropWhile js_space s = s" by (cases s) auto
  moreover have "dropWhile js_space (rev s) = rev s"
    using s by (cases "rev s") (auto simp: last_rev [symmetric] hd_rev)
  ultimately show ?thesis using s by (simp add: id_schema_def js_trim_def)
qed

lemma digit_not_space: "c \<in> set (decimal n) \<Longrightarrow> \<not> js_space c"
  by (drule decimal_digit) (auto simp: js_space_def)

lemma numbered_id: "n < 100 \<Longrightarrow> p \<noteq> [] \<Longrightarrow> length p \<le> 100 \<Longrightarrow> \<not> js_space (hd p)
    \<Longrightarrow> id_schema (p @ decimal n) = Some (p @ decimal n)"
  using length_decimal [of n] digit_not_space [of "last (decimal n)" n]
  by (intro id_schema_plain) (auto simp: last_append)

lemma subject_id_inject [simp]: "subject_id m = subject_id n \<longleftrightarrow> m = n"
  by (simp add: subject_id_def)

lemma subject_id_schema: "n < 100 \<Longrightarrow> id_schema (subject_id n) = Some (subject_id n)"
  unfolding subject_id_def by (rule numbered_id) (simp_all add: js_space_def)

section \<open>A checked business check\<close>

definition good_check :: "business_check \<Rightarrow> bool" where
  "good_check c \<longleftrightarrow> 1 \<le> length (bc_subjects c) \<and> length (bc_subjects c) \<le> 20
     \<and> list_all (\<lambda>s. text_schema 120 s = Some s) (check_subjects c)
     \<and> text_schema 80 (bs_label (bc_state c)) = Some (bs_label (bc_state c))
     \<and> bs_property (bc_state c) \<in> {None, Some P_TEXT, Some P_CHECKED, Some P_VALUE, Some P_VISIBLE}
     \<and> (case bs_equals (bc_state c) of Expect_Text t \<Rightarrow> expected_text t | Expect_Bool _ \<Rightarrow> True
        | Expect_OneOf _ \<Rightarrow> False)
     \<and> length (bc_dimensions c) \<le> 8 \<and> list_all (\<lambda>d. text_schema 80 d = Some d) (bc_dimensions c)
     \<and> business_check_refine c"

lemma business_state_schemaD:
  "business_state_schema s = Some st \<Longrightarrow> text_schema 80 (bs_label st) = Some (bs_label st)
     \<and> bs_property st \<in> {None, Some P_TEXT, Some P_CHECKED, Some P_VALUE, Some P_VISIBLE}
     \<and> (case bs_equals st of Expect_Text t \<Rightarrow> expected_text t | Expect_Bool _ \<Rightarrow> True
        | Expect_OneOf _ \<Rightarrow> False)"
  by (auto simp: business_state_schema_def split: option.splits if_splits intro: text_schema_again)

lemma business_check_schema_good:
  assumes "business_check_schema raw = Some c"
  shows "good_check c"
proof -
  obtain ss st ds r where p: "array_schema 1 20 (text_schema 120) (bc_subjects raw) = Some ss"
    "business_state_schema (bc_state raw) = Some st" "array_schema 0 8 (text_schema 80) (bc_dimensions raw) = Some ds"
    and r: "(case bc_compareWith raw of None \<Rightarrow> Some None | Some r \<Rightarrow> map_option Some (text_schema 120 r)) = Some r"
    and c: "c = raw\<lparr>bc_subjects := ss, bc_state := st, bc_compareWith := r, bc_dimensions := ds\<rparr>"
    and f: "business_check_refine c"
    using assms unfolding business_check_schema_def by (auto simp: Let_def split: option.splits if_splits)
  have "list_all (\<lambda>s. text_schema 120 s = Some s) (case r of None \<Rightarrow> [] | Some x \<Rightarrow> [x])"
    using r by (auto split: option.splits intro: text_schema_again)
  then show ?thesis
    using array_text_schemaD [OF p(1)] business_state_schemaD [OF p(2)] array_text_schemaD [OF p(3)] f
    by (simp add: good_check_def c check_subjects_def)
qed

lemma label_of_text: "text_schema n s = Some s \<Longrightarrow> n \<le> 500 \<Longrightarrow> label_schema s = Some s"
  unfolding label_schema_def by (rule text_schema_again)

lemma length_check_subjects:
  "good_check c \<Longrightarrow> 1 \<le> length (check_subjects c) \<and> length (check_subjects c) \<le> 21"
  by (auto simp: good_check_def check_subjects_def split: option.splits)

lemma distinct_check_subjects: "good_check c \<Longrightarrow> distinct (check_subjects c)"
  by (auto simp: good_check_def check_subjects_def business_check_refine_def split: option.splits)

lemma compiled_target_schema:
  assumes g: "good_check c" and i: "i < length (check_subjects c)"
  shows "target_v3_schema (compiled_target c kinds i (check_subjects c ! i))
    = Some (compiled_target c kinds i (check_subjects c ! i))"
proof -
  let ?t = "compiled_target c kinds i (check_subjects c ! i)" and ?x = "check_subjects c ! i"
  have l: "label_schema ?x = Some ?x"
    using g i by (auto simp: good_check_def list_all_length intro: label_of_text)
  have "label_schema (bs_label (bc_state c)) = Some (bs_label (bc_state c))"
    using g by (auto simp: good_check_def intro: label_of_text)
  moreover have "id_schema ''state'' = Some ''state''" by code_simp
  ultimately have "array_schema 1 8 assertion_v3_schema (t3_assertions ?t) = Some (t3_assertions ?t)"
    using g by (intro array_schema_fixed)
      (auto simp: compiled_target_def assertion_v3_schema_def good_check_def split: expectation.splits)
  moreover have "id_schema (subject_id (i + 1)) = Some (subject_id (i + 1))"
    using i length_check_subjects [OF g] by (intro subject_id_schema) simp
  ultimately show ?thesis
    using l by (simp add: target_v3_schema_def kinds_schema_def compiled_target_def)
qed

lemma compiled_comparison_schema:
  assumes g: "good_check c" and i: "i < length (bc_subjects c)" and r: "bc_compareWith c \<noteq> None"
    and b: "label_schema src = Some src" "text_schema 2000 q = Some q"
  shows "comparison_schema (compiled_comparison c src q i) = Some (compiled_comparison c src q i)"
proof -
  have n: "i + 1 < 100" "length (check_subjects c) < 100"
    using i g length_check_subjects [OF g] by (auto simp: good_check_def)
  have "id_schema (''comparison-'' @ decimal (i + 1)) = Some (''comparison-'' @ decimal (i + 1))"
    by (rule numbered_id) (use n in \<open>simp_all add: js_space_def\<close>)
  moreover have "bc_dimensions c \<noteq> []" using g r by (simp add: good_check_def business_check_refine_def)
  then have "array_schema 1 8 label_schema (bc_dimensions c) = Some (bc_dimensions c)"
    using g by (intro array_schema_fixed)
      (auto simp: good_check_def list_all_iff Suc_le_eq intro: label_of_text)
  ultimately show ?thesis
    using b n subject_id_schema [of "i + 1"] subject_id_schema [of "length (check_subjects c)"]
    by (simp add: comparison_schema_def compiled_comparison_def)
qed

definition compiled_targets :: "business_check \<Rightarrow> string list \<Rightarrow> target_v3 list" where
  "compiled_targets c kinds = map (\<lambda>(i, subject). compiled_target c kinds i subject)
     (enumerate 0 (check_subjects c))"

lemma compiled_targets_nth:
  "compiled_targets c kinds = map (\<lambda>i. compiled_target c kinds i (check_subjects c ! i)) [0..<length (check_subjects c)]"
  by (rule nth_equalityI) (simp_all add: compiled_targets_def nth_enumerate_eq)

lemma compiled_ids: "map t3_targetId (compiled_targets c kinds) = map (\<lambda>i. subject_id (i + 1)) [0..<length (check_subjects c)]"
  by (simp add: compiled_targets_nth compiled_target_def comp_def)

lemma compiled_ids_distinct: "distinct (map t3_targetId (compiled_targets c kinds))"
  unfolding compiled_ids by (simp add: distinct_map inj_on_def)

lemma compiled_identities: "map t3_identity (compiled_targets c kinds) = check_subjects c"
  by (simp add: compiled_targets_nth compiled_target_def comp_def map_nth)

lemma compiled_screenshot:
  assumes "bc_compareWith c \<noteq> None" and "i < length (check_subjects c)"
  shows "needs_screenshot (map (\<lambda>t. (t3_targetId t, t3_requiredEvidenceKinds t)) (compiled_targets c kinds))
    (subject_id (i + 1))"
proof -
  let ?m = "map (\<lambda>t. (t3_targetId t, t3_requiredEvidenceKinds t)) (compiled_targets c kinds)"
  have "distinct (map fst (rev ?m))"
    using compiled_ids_distinct by (simp add: rev_map [symmetric] comp_def)
  moreover have "(subject_id (i + 1), [DOM, SCREENSHOT]) \<in> set (rev ?m)"
    using assms by (auto simp: compiled_targets_nth compiled_target_def image_iff)
  ultimately have "map_of (rev ?m) (subject_id (i + 1)) = Some [DOM, SCREENSHOT]"
    by (rule map_of_is_SomeI)
  then show ?thesis by (simp add: needs_screenshot_def)
qed

lemma compiled_refine:
  assumes g: "good_check c"
  shows "contract_v3_refine \<lparr>c3_targets = compiled_targets c kinds,
    c3_comparisons = (if bc_compareWith c \<noteq> None
      then map (compiled_comparison c src q) [0..<length (bc_subjects c)] else [])\<rparr>"
    (is "contract_v3_refine \<lparr>c3_targets = ?ts, c3_comparisons = ?cs\<rparr>")
proof -
  have n: "length (check_subjects c) = (if bc_compareWith c \<noteq> None then Suc (length (bc_subjects c))
      else length (bc_subjects c))"
    by (auto simp: check_subjects_def split: option.splits)
  have ids: "distinct (map t3_targetId ?ts)"
    by (rule compiled_ids_distinct)
  have texts: "distinct (map t3_identity ?ts)"
    unfolding compiled_identities by (rule distinct_check_subjects [OF g])
  have "list_all (\<lambda>k. cm_subjectTargetId k \<noteq> cm_referenceTargetId k
      \<and> needs_screenshot (map (\<lambda>t. (t3_targetId t, t3_requiredEvidenceKinds t)) ?ts) (cm_subjectTargetId k)
      \<and> needs_screenshot (map (\<lambda>t. (t3_targetId t, t3_requiredEvidenceKinds t)) ?ts) (cm_referenceTargetId k)) ?cs"
  proof (cases "bc_compareWith c = None")
    case False
    have "needs_screenshot (map (\<lambda>t. (t3_targetId t, t3_requiredEvidenceKinds t)) ?ts) (subject_id (i + 1))"
      if "i \<le> length (bc_subjects c)" for i
      using compiled_screenshot [OF False] that n False by simp
    then show ?thesis
      using False n by (auto simp: list_all_iff compiled_comparison_def)
  qed simp
  moreover have "distinct (map cm_comparisonId ?cs)"
    by (auto simp: compiled_comparison_def comp_def distinct_map inj_on_def)
  ultimately have cs: "comparisons_refine (map (\<lambda>t. (t3_targetId t, t3_requiredEvidenceKinds t)) ?ts) ?cs"
    by (simp add: comparisons_refine_def)
  have "\<exists>k \<in> set ?cs. cm_referenceTargetId k = subject_id (i + 1)"
    and "\<forall>k \<in> set ?cs. cm_subjectTargetId k \<noteq> subject_id (i + 1)"
    if "i < length (check_subjects c)" "\<not> i < length (bc_subjects c)" for i
  proof -
    have r: "bc_compareWith c \<noteq> None" "i = length (bc_subjects c)" using that n by (auto split: if_splits)
    have "0 < length (bc_subjects c)" using g by (auto simp: good_check_def)
    then show "\<exists>k \<in> set ?cs. cm_referenceTargetId k = subject_id (i + 1)"
      using r n by (auto simp: compiled_comparison_def image_iff intro!: bexI [of _ 0])
    show "\<forall>k \<in> set ?cs. cm_subjectTargetId k \<noteq> subject_id (i + 1)"
      using r by (auto simp: compiled_comparison_def)
  qed
  then have "list_all (\<lambda>t. list_all (\<lambda>a. \<not> (a3_matchMode a = Some DISPLAY_TEXT \<and> a3_property a \<noteq> Some P_TEXT)) (t3_assertions t)
      \<and> \<not> (list_ex (\<lambda>a. a3_expected a = None) (t3_assertions t)
         \<and> (\<not> list_ex (\<lambda>k. cm_referenceTargetId k = t3_targetId t) ?cs
            \<or> list_ex (\<lambda>k. cm_subjectTargetId k = t3_targetId t) ?cs))
      \<and> DOM \<in> set (t3_requiredEvidenceKinds t) \<and> distinct (map a3_assertionId (t3_assertions t))) ?ts"
    using g by (auto simp: compiled_targets_nth list_all_iff list_ex_iff compiled_target_def good_check_def
        business_check_refine_def)
  with ids texts cs show ?thesis
    by (simp add: contract_v3_refine_def distinct_remdups_id)
qed

section \<open>The compiled contract\<close>

text \<open>C33: A business check that its schema accepts always compiles, given a source reference and a
  quote, and the contract is well formed: its own schema accepts it unchanged. It has one target
  per subject, in order, and one for the reference object if there is one; every subject's target
  expects the declared state in the declared phase, the reference is only captured, and each
  subject is compared with the reference in the declared dimensions.\<close>

theorem compiled_contract_valid:
  assumes "business_check_schema raw = Some check"
    and "label_schema src = Some src" and "text_schema 2000 q = Some q"
  shows "case compileBusinessCheck check src q kinds of
      None \<Rightarrow> False
    | Some c \<Rightarrow> contract_v3_schema c = Some c
        \<and> map t3_identity (c3_targets c) = check_subjects check
        \<and> map (\<lambda>t. (map a3_expected (t3_assertions t), t3_phase t)) (c3_targets c)
          = replicate (length (bc_subjects check)) ([Some (bs_equals (bc_state check))], bc_when check)
            @ (if bc_compareWith check \<noteq> None then [([None], CURRENT)] else [])
        \<and> map (\<lambda>k. (cm_subjectTargetId k, cm_referenceTargetId k, cm_dimensions k)) (c3_comparisons c)
          = (if bc_compareWith check \<noteq> None
             then map (\<lambda>t. (t3_targetId t, t3_targetId (last (c3_targets c)), bc_dimensions check))
                    (butlast (c3_targets c))
             else [])"
proof -
  define n where "n = length (check_subjects check)"
  define cs where "cs = (if bc_compareWith check \<noteq> None
      then map (compiled_comparison check src q) [0..<length (bc_subjects check)] else [])"
  define c where "c = \<lparr>c3_targets = compiled_targets check kinds, c3_comparisons = cs\<rparr>"
  have g: "good_check check" by (rule business_check_schema_good [OF assms(1)])
  have n: "n = (if bc_compareWith check \<noteq> None then Suc (length (bc_subjects check))
      else length (bc_subjects check))"
    by (auto simp: n_def check_subjects_def split: option.splits)
  have ts: "compiled_targets check kinds = map (\<lambda>i. compiled_target check kinds i (check_subjects check ! i)) [0..<n]"
    by (simp add: compiled_targets_nth n_def)
  have "array_schema 1 21 target_v3_schema (compiled_targets check kinds) = Some (compiled_targets check kinds)"
    using length_check_subjects [OF g] compiled_target_schema [OF g]
    by (intro array_schema_fixed) (auto simp: compiled_targets_nth list_all_iff)
  moreover have "array_schema 0 100 comparison_schema cs = Some cs"
    using compiled_comparison_schema [OF g _ _ assms(2,3)] g
    by (intro array_schema_fixed) (auto simp: cs_def list_all_iff good_check_def)
  moreover have "contract_v3_refine c"
    unfolding c_def cs_def by (rule compiled_refine [OF g])
  ultimately have ok: "contract_v3_schema c = Some c"
    by (simp add: contract_v3_schema_def c_def)
  have "compileBusinessCheck check src q kinds = contract_v3_schema c"
    by (simp add: compileBusinessCheck_def c_def cs_def compiled_targets_def)
  moreover have "map (\<lambda>t. (map a3_expected (t3_assertions t), t3_phase t)) (compiled_targets check kinds)
      = replicate (length (bc_subjects check)) ([Some (bs_equals (bc_state check))], bc_when check)
        @ (if bc_compareWith check \<noteq> None then [([None], CURRENT)] else [])"
    unfolding ts n by (rule nth_equalityI) (auto simp: compiled_target_def nth_append)
  moreover have "map (\<lambda>k. (cm_subjectTargetId k, cm_referenceTargetId k, cm_dimensions k)) cs
      = (if bc_compareWith check \<noteq> None
         then map (\<lambda>t. (t3_targetId t, t3_targetId (last (compiled_targets check kinds)), bc_dimensions check))
                (butlast (compiled_targets check kinds))
         else [])"
    unfolding ts n cs_def
    by (auto simp: compiled_comparison_def compiled_target_def n [unfolded n_def])
  ultimately show ?thesis
    by (simp add: ok compiled_identities) (auto simp: c_def compiled_identities cs_def)
qed

definition sample_check :: business_check where
  "sample_check = \<lparr>bc_subjects = [ascii '' Alpha '', ascii ''Beta''], bc_identityMatchMode = Some EXACT,
     bc_state = \<lparr>bs_property = Some P_CHECKED, bs_matchMode = None, bs_label = ascii ''Enabled'',
       bs_equals = Expect_Bool True\<rparr>,
     bc_when = INITIAL_AFTER_OPEN, bc_compareWith = Some (ascii ''Gamma''),
     bc_dimensions = [ascii ''colour'']\<rparr>"

definition trimmed_check :: business_check where
  "trimmed_check = sample_check\<lparr>bc_subjects := [ascii ''Alpha'', ascii ''Beta'']\<rparr>"

lemmas eval_text = text_schema_def Let_def u_trim_def trim_by_def u_space_def ascii_def utf16_length_def

lemma sample_texts:
  "text_schema 120 (ascii '' Alpha '') = Some (ascii ''Alpha'')" "text_schema 120 (ascii ''Beta'') = Some (ascii ''Beta'')"
  "text_schema 120 (ascii ''Gamma'') = Some (ascii ''Gamma'')" "text_schema 80 (ascii ''Enabled'') = Some (ascii ''Enabled'')"
  "text_schema 80 (ascii ''colour'') = Some (ascii ''colour'')" "text_schema 500 (ascii ''PRD'') = Some (ascii ''PRD'')"
  "text_schema 2000 (ascii ''quoted'') = Some (ascii ''quoted'')"
  by (simp_all add: eval_text)

lemma sample_check_accepted: "business_check_schema sample_check = Some trimmed_check"
proof -
  have "array_schema 1 20 (text_schema 120) (bc_subjects sample_check) = Some (bc_subjects trimmed_check)"
    by (simp add: array_schema_def sample_check_def trimmed_check_def sample_texts)
  moreover have "array_schema 0 8 (text_schema 80) (bc_dimensions sample_check) = Some (bc_dimensions sample_check)"
    by (simp add: array_schema_def sample_check_def sample_texts)
  moreover have "business_state_schema (bc_state sample_check) = Some (bc_state sample_check)"
    by (simp add: business_state_schema_def sample_check_def sample_texts)
  moreover have "business_check_refine trimmed_check"
    by (simp add: business_check_refine_def trimmed_check_def sample_check_def is_bool_def ascii_def)
  ultimately show ?thesis
    by (simp add: business_check_schema_def Let_def sample_texts)
      (simp add: trimmed_check_def sample_check_def sample_texts)
qed

lemma compiled_contract_valid_witness:
  "case compileBusinessCheck trimmed_check (ascii ''PRD'') (ascii ''quoted'') [] of
     None \<Rightarrow> False
   | Some c \<Rightarrow> map t3_identity (c3_targets c) = [ascii ''Alpha'', ascii ''Beta'', ascii ''Gamma'']"
proof -
  have "check_subjects trimmed_check = [ascii ''Alpha'', ascii ''Beta'', ascii ''Gamma'']"
    by (simp add: check_subjects_def trimmed_check_def sample_check_def)
  then show ?thesis
    using compiled_contract_valid [OF sample_check_accepted, of "ascii ''PRD''" "ascii ''quoted''" "[]"]
    by (simp add: label_schema_def sample_texts split: option.splits)
qed

end
