(* ===== verification/Observation.thy ===== *)
theory Observation
  imports ObservationContract
begin

text \<open>
  The evaluator of \<open>packages/agent-runtime-protocol/src/observation-evaluator.ts\<close>: it decides, in
  one capture of a page (\<open>packages/runtime-protocol/src/structured-observation.ts\<close>), which region
  and object a target of a contract means, reads the state of its controls, and says what that
  proves. The \<open>details\<close> of a failure, which only help the agent, are not modelled.

  The code compares nodes and regions by reference; a reference is modelled as the position in the
  capture together with the node there. \<open>business\<close> targets are those of version 3.
\<close>

section \<open>Captures\<close>

datatype truncated_property = T_NAME | T_TEXT | T_VALUE | T_SELECTED_LABEL
datatype name_source = ARIA | LABEL | TEXT_SOURCE | TITLE
datatype label_source = NATIVE_SELECT | DISPLAY_RELATION
datatype relation_kind = LABELLED_BY | SELECTED_DISPLAY
datatype consistency = DOM_ONLY | VERIFIED | DRIFTED

record observed_node =
  on_nodeId :: string
  on_ref :: "string option"
  on_parentId :: "string option"
  on_frameId :: string
  on_documentEpoch :: string
  on_tag :: string
  on_role :: "string option"
  on_name :: "utext option"
  on_nameSource :: "name_source option"
  on_text :: "utext option"
  on_value :: "utext option"
  on_selectedLabel :: "utext option"
  on_selectedLabelSource :: "label_source option"
  on_truncatedProperties :: "truncated_property list"
  on_checked :: "bool option"
  on_enabled :: "bool option"
  on_visible :: bool
  on_attributes :: "(string \<times> utext) list"
  on_relations :: "(relation_kind \<times> string) list"

record observed_region =
  rg_nodeId :: string
  rg_epoch :: string
  rg_phaseProven :: bool
  rg_reopened :: bool
  rg_modifiedNodeIds :: "string list"

record observation =
  ob_nodes :: "observed_node list"
  ob_regions :: "observed_region list"
  ob_sourceCommandId :: "string option"
  ob_consistency :: consistency
  ob_verifiedScopeNodeIds :: "string list option"
  ob_regionScope :: bool
  ob_rootNodeId :: "string option"
  ob_completeWithinScope :: bool
  ob_truncated :: bool
  ob_unavailableFrames :: "string list"

type_synonym node = "nat \<times> observed_node"

definition nodes :: "observation \<Rightarrow> node list" where
  "nodes ob = enumerate 0 (ob_nodes ob)"

definition nodeId :: "node \<Rightarrow> string" where
  "nodeId n = on_nodeId (snd n)"

text \<open>The map from node ids, in which the last of several nodes with an id wins.\<close>

definition by_id :: "observation \<Rightarrow> (string \<times> node) list" where
  "by_id ob = rev (map (\<lambda>n. (nodeId n, n)) (nodes ob))"

section \<open>Containment\<close>

text \<open>The loop over parents, which stops at a node it has seen.\<close>

function climb :: "(string \<times> node) list \<Rightarrow> string list \<Rightarrow> node option \<Rightarrow> string \<Rightarrow> bool" where
  "climb m seen None r = False"
| "climb m seen (Some n) r =
     (if nodeId n \<in> set seen then False
      else if nodeId n = r then True
      else climb m (nodeId n # seen) (map_of m (coalesce (on_parentId (snd n)) [])) r)"
  by pat_completeness auto

definition known_ids :: "(string \<times> node) list \<Rightarrow> string set" where
  "known_ids m = nodeId ` snd ` set m"

lemma finite_known_ids [simp]: "finite (known_ids m)"
  by (simp add: known_ids_def)

lemma map_of_known: "map_of m k = Some n \<Longrightarrow> nodeId n \<in> known_ids m"
  by (force simp: known_ids_def dest: map_of_SomeD)

definition climb_measure :: "(string \<times> node) list \<Rightarrow> string list \<Rightarrow> node option \<Rightarrow> nat" where
  "climb_measure m seen cur = (case cur of None \<Rightarrow> 0
     | Some n \<Rightarrow> 2 * card (known_ids m - set seen) + (if nodeId n \<in> known_ids m then 1 else 2))"

lemma climb_measure_decreases:
  assumes "nodeId n \<notin> set seen"
  shows "climb_measure m (nodeId n # seen) (map_of m k) < climb_measure m seen (Some n)"
proof (cases "map_of m k")
  case (Some p)
  then have p: "nodeId p \<in> known_ids m" by (rule map_of_known)
  show ?thesis
  proof (cases "nodeId n \<in> known_ids m")
    case True
    with assms have "known_ids m - set (nodeId n # seen) \<subset> known_ids m - set seen" by auto
    then have "card (known_ids m - set (nodeId n # seen)) < card (known_ids m - set seen)"
      by (rule psubset_card_mono [rotated]) simp
    with Some p True show ?thesis by (simp add: climb_measure_def del: list.set)
  next
    case False
    then have "known_ids m - set (nodeId n # seen) = known_ids m - set seen" by auto
    with Some p False show ?thesis by (simp add: climb_measure_def del: list.set)
  qed
qed (simp add: climb_measure_def)

termination climb
  by (relation "measure (\<lambda>(m, seen, cur, _). climb_measure m seen cur)")
    (simp_all add: climb_measure_decreases)

definition inside :: "observation \<Rightarrow> node \<Rightarrow> node \<Rightarrow> bool" where
  "inside ob n r \<longleftrightarrow> on_frameId (snd n) = on_frameId (snd r)
     \<and> on_documentEpoch (snd n) = on_documentEpoch (snd r)
     \<and> climb (by_id ob) [] (Some n) (nodeId r)"

section \<open>Names and kinds\<close>

definition directlyNamed :: "node option \<Rightarrow> utext \<Rightarrow> bool" where
  "directlyNamed n label \<longleftrightarrow> (case n of None \<Rightarrow> False | Some n \<Rightarrow>
     T_NAME \<notin> set (on_truncatedProperties (snd n)) \<and> same (on_name (snd n)) label
     \<or> T_TEXT \<notin> set (on_truncatedProperties (snd n)) \<and> same (on_text (snd n)) label)"

definition named :: "observation \<Rightarrow> node \<Rightarrow> utext \<Rightarrow> bool" where
  "named ob n label \<longleftrightarrow> directlyNamed (Some n) label
     \<or> list_ex (\<lambda>(kind, i). kind = LABELLED_BY \<and> directlyNamed (map_of (by_id ob) i) label)
         (on_relations (snd n))"

definition tag :: "node \<Rightarrow> string" where
  "tag n = on_tag (snd n)"

definition role :: "node \<Rightarrow> string" where
  "role n = coalesce (on_role (snd n)) []"

definition is_visible :: "node \<Rightarrow> bool" where
  "is_visible n = on_visible (snd n)"

definition has_attribute :: "node \<Rightarrow> string \<Rightarrow> string \<Rightarrow> bool" where
  "has_attribute n key v \<longleftrightarrow> map_of (on_attributes (snd n)) key = Some (ascii v)"

definition choice_input :: "node \<Rightarrow> bool" where
  "choice_input n \<longleftrightarrow> tag n = ''input'' \<and> (has_attribute n ''type'' ''checkbox'' \<or> has_attribute n ''type'' ''radio'')"

definition is_select :: "node \<Rightarrow> bool" where
  "is_select n \<longleftrightarrow> tag n = ''select'' \<or> role n = ''combobox''"

definition identityControl :: "node \<Rightarrow> bool" where
  "identityControl n \<longleftrightarrow> tag n = ''button''
     \<or> role n \<in> {''button'', ''switch'', ''checkbox'', ''radio''} \<or> choice_input n"

definition businessScope :: "node \<Rightarrow> bool" where
  "businessScope n \<longleftrightarrow> tag n \<in> {''tr'', ''form'', ''dialog''}
     \<or> role n \<in> {''row'', ''form'', ''dialog'', ''alertdialog''}"

definition heading :: "node \<Rightarrow> bool" where
  "heading n \<longleftrightarrow> tag n \<in> {''h1'', ''h2'', ''h3'', ''h4'', ''h5'', ''h6''} \<or> role n = ''heading''"

definition ref_of :: "node \<Rightarrow> string option" where
  "ref_of n = on_ref (snd n)"

definition refs :: "node list \<Rightarrow> string list" where
  "refs ns = List.map_filter (\<lambda>n. if truthy (ref_of n) then ref_of n else None) ns"

section \<open>Targets\<close>

datatype observation_target = Target2 target_v2 | Target3 target_v3

fun target_id :: "observation_target \<Rightarrow> string" where
  "target_id (Target2 t) = t2_targetId t"
| "target_id (Target3 t) = t3_targetId t"

fun target_phase :: "observation_target \<Rightarrow> observation_phase" where
  "target_phase (Target2 t) = t2_phase t"
| "target_phase (Target3 t) = t3_phase t"

fun required_kinds :: "observation_target \<Rightarrow> evidence_kind list" where
  "required_kinds (Target2 t) = t2_requiredEvidenceKinds t"
| "required_kinds (Target3 t) = t3_requiredEvidenceKinds t"

fun business :: "observation_target \<Rightarrow> bool" where
  "business (Target2 t) = False"
| "business (Target3 t) = True"

datatype assertion = Subject assertion_v2 | Labelled assertion_v3

fun assertions :: "observation_target \<Rightarrow> assertion list" where
  "assertions (Target2 t) = map Subject (t2_assertions t)"
| "assertions (Target3 t) = map Labelled (t3_assertions t)"

fun assertionId :: "assertion \<Rightarrow> string" where
  "assertionId (Subject a) = a2_assertionId a"
| "assertionId (Labelled a) = a3_assertionId a"

fun assertion_label :: "assertion \<Rightarrow> utext" where
  "assertion_label (Subject a) = a2_label a"
| "assertion_label (Labelled a) = a3_label a"

fun assertion_property :: "assertion \<Rightarrow> observed_property option" where
  "assertion_property (Subject a) = Some (a2_property a)"
| "assertion_property (Labelled a) = a3_property a"

fun expected :: "assertion \<Rightarrow> expectation option" where
  "expected (Subject a) = Some (a2_expected a)"
| "expected (Labelled a) = a3_expected a"

section \<open>Entities\<close>

definition sameIdentity :: "match_mode option \<Rightarrow> utext option \<Rightarrow> utext \<Rightarrow> bool" where
  "sameIdentity mode actual wanted \<longleftrightarrow> (case actual of None \<Rightarrow> False | Some a \<Rightarrow>
     (case mode of
        Some DISPLAY_TEXT \<Rightarrow> normalizeDisplayText a = normalizeDisplayText wanted
      | Some EXACT \<Rightarrow> a = wanted
      | None \<Rightarrow> same actual wanted))"

fun isEntity :: "observation \<Rightarrow> observation_target \<Rightarrow> node \<Rightarrow> bool" where
  "isEntity ob (Target3 t) n \<longleftrightarrow>
     role n \<notin> {''option'', ''menuitem'', ''listbox'', ''menu'', ''textbox'', ''searchbox''}
     \<and> (role n = ''combobox'' \<or> tag n \<notin> {''option'', ''input'', ''textarea''} \<or> choice_input n)
     \<and> \<not> list_ex (\<lambda>parent. fst parent \<noteq> fst n \<and> is_select parent \<and> inside ob n parent) (nodes ob)"
| "isEntity ob (Target2 t) n \<longleftrightarrow> (case t2_controlKind t of
       SELECT \<Rightarrow> is_select n
     | ROW \<Rightarrow> tag n = ''tr'' \<or> role n = ''row''
     | FIELD \<Rightarrow> tag n \<in> {''input'', ''textarea''} \<or> role n = ''textbox'')"

fun truncation :: "observed_property \<Rightarrow> truncated_property option" where
  "truncation P_VALUE = Some T_VALUE"
| "truncation P_TEXT = Some T_TEXT"
| "truncation P_SELECTED_LABEL = Some T_SELECTED_LABEL"
| "truncation _ = None"

definition is_truncated :: "observed_property \<Rightarrow> node \<Rightarrow> bool" where
  "is_truncated p n \<longleftrightarrow> (case truncation p of None \<Rightarrow> False
     | Some t \<Rightarrow> t \<in> set (on_truncatedProperties (snd n)))"

definition selected_label :: "node \<Rightarrow> utext option" where
  "selected_label n = (if on_selectedLabelSource (snd n) \<noteq> None then on_selectedLabel (snd n) else None)"

fun entityValue :: "observation_target \<Rightarrow> node \<Rightarrow> utext option" where
  "entityValue (Target3 t) n =
     (if is_select n
      then (if T_SELECTED_LABEL \<notin> set (on_truncatedProperties (snd n)) then selected_label n else None)
      else if identityControl n \<and> on_nameSource (snd n) \<noteq> None \<and> coalesce (on_name (snd n)) [] \<noteq> []
              \<and> T_NAME \<notin> set (on_truncatedProperties (snd n))
      then on_name (snd n)
      else if T_TEXT \<notin> set (on_truncatedProperties (snd n)) then on_text (snd n) else None)"
| "entityValue (Target2 t) n =
     (if is_truncated (t2_entityProperty t) n then None
      else if t2_entityProperty t = P_SELECTED_LABEL then selected_label n
      else if t2_entityProperty t = P_VALUE then on_value (snd n)
      else on_text (snd n))"

fun identifies :: "observation \<Rightarrow> observation_target \<Rightarrow> node \<Rightarrow> bool" where
  "identifies ob (Target3 t) n \<longleftrightarrow> sameIdentity (t3_matchMode t) (entityValue (Target3 t) n) (t3_identity t)"
| "identifies ob (Target2 t) n \<longleftrightarrow> named ob n (t2_entityLabel t)
     \<and> list_ex (\<lambda>v. if t2_entityProperty t = P_VALUE then entityValue (Target2 t) n = Some v
          else same (entityValue (Target2 t) n) v) (t2_oneOf t)"

definition entityCandidates :: "observation \<Rightarrow> observation_target \<Rightarrow> node list" where
  "entityCandidates ob t = filter (\<lambda>n. is_visible n \<and> isEntity ob t n \<and> identifies ob t n
     \<and> \<not> (business t \<and> list_ex (\<lambda>parent. role parent \<in> {''listbox'', ''menu''} \<and> inside ob n parent) (nodes ob)))
     (nodes ob)"

section \<open>Scopes\<close>

fun scopeKind :: "observation_target \<Rightarrow> node \<Rightarrow> bool" where
  "scopeKind (Target3 t) n = businessScope n"
| "scopeKind (Target2 t) n = (case t2_scopeKind t of
       PAGE \<Rightarrow> tag n = ''body''
     | DIALOG \<Rightarrow> role n \<in> {''dialog'', ''alertdialog''} \<or> tag n = ''dialog''
     | FORM \<Rightarrow> tag n = ''form'' \<or> role n = ''form''
     | TABLE_ROW \<Rightarrow> tag n = ''tr'' \<or> role n = ''row''
     | POPOVER \<Rightarrow> role n \<in> {''menu'', ''listbox'', ''tooltip''})"

fun hasTitle :: "observation \<Rightarrow> observation_target \<Rightarrow> node list \<Rightarrow> node \<Rightarrow> bool" where
  "hasTitle ob (Target3 t) entities n = list_ex (\<lambda>e. inside ob e n) entities"
| "hasTitle ob (Target2 t) entities n = list_ex (\<lambda>label. named ob n label
     \<or> list_ex (\<lambda>c. is_visible c \<and> inside ob c n
          \<and> (heading c \<or> on_nameSource (snd c) = Some TITLE \<or> on_text (snd c) = Some label)
          \<and> named ob c label) (nodes ob)) (t2_scopeNames t)"

text \<open>Those that contain no other.\<close>

definition innermost :: "observation \<Rightarrow> node list \<Rightarrow> node list" where
  "innermost ob ns = filter (\<lambda>n. \<not> list_ex (\<lambda>c. fst c \<noteq> fst n \<and> inside ob c n) ns) ns"

fun fallback_scopes :: "observation \<Rightarrow> observation_target \<Rightarrow> node list \<Rightarrow> node list" where
  "fallback_scopes ob (Target3 t) entities = filter (\<lambda>n. is_visible n \<and> tag n \<notin> {''body'', ''html''}
     \<and> list_ex (\<lambda>r. rg_nodeId r = nodeId n) (ob_regions ob)
     \<and> hasTitle ob (Target3 t) entities n
     \<and> list_ex (\<lambda>title. is_visible title \<and> heading title \<and> inside ob title n) (nodes ob)) (nodes ob)"
| "fallback_scopes ob (Target2 t) entities =
     (if t2_scopeKind t \<in> {DIALOG, FORM, POPOVER}
      then innermost ob (filter (\<lambda>n. is_visible n \<and> tag n \<notin> {''html'', ''body''}
        \<and> hasTitle ob (Target2 t) entities n \<and> list_ex (\<lambda>e. inside ob e n) entities) (nodes ob))
      else [])"

definition scopes :: "observation \<Rightarrow> observation_target \<Rightarrow> node list \<Rightarrow> node list" where
  "scopes ob t entities =
     (let direct = filter (\<lambda>n. is_visible n \<and> scopeKind t n \<and> hasTitle ob t entities n) (nodes ob);
          found = (if direct = [] then fallback_scopes ob t entities else direct) in
      if business t then innermost ob found else found)"

section \<open>The selection\<close>

record selection =
  sl_scopeRef :: string
  sl_entityRef :: string
  sl_assertionRefs :: "(string \<times> string) list"

definition selected_scopes ::
  "observation \<Rightarrow> observation_target \<Rightarrow> node list \<Rightarrow> selection option \<Rightarrow> node list \<Rightarrow> node list" where
  "selected_scopes ob t entities sel ns = (case sel of None \<Rightarrow> ns | Some s \<Rightarrow>
     (let requested = List.find (\<lambda>n. ref_of n = Some (sl_scopeRef s)) (nodes ob) in
      filter (\<lambda>n. ref_of n = Some (sl_scopeRef s)
        \<or> business t \<and> (case requested of None \<Rightarrow> False | Some q \<Rightarrow>
            is_visible q \<and> businessScope q \<and> inside ob n q
            \<and> list_ex (\<lambda>e. ref_of e = Some (sl_entityRef s) \<and> inside ob e n) entities
            \<and> list_all (\<lambda>(_, r). list_ex (\<lambda>st. ref_of st = Some r \<and> inside ob st n) (nodes ob))
                (sl_assertionRefs s))) ns))"

definition selects_entity :: "selection option \<Rightarrow> node \<Rightarrow> bool" where
  "selects_entity sel n \<longleftrightarrow> (case sel of None \<Rightarrow> True | Some s \<Rightarrow> ref_of n = Some (sl_entityRef s))"

definition selects_state :: "selection option \<Rightarrow> assertion \<Rightarrow> node \<Rightarrow> bool" where
  "selects_state sel a n \<longleftrightarrow> (case sel of None \<Rightarrow> True
     | Some s \<Rightarrow> ref_of n = map_of (sl_assertionRefs s) (assertionId a))"

section \<open>Assertions\<close>

datatype evaluation = MATCHED | MISMATCHED | UNKNOWN
datatype observed_value = Bool_Value bool | Text_Value utext

record fact =
  fa_assertionId :: string
  fa_nodeId :: string
  fa_property :: observed_property
  fa_actual :: "observed_value option"
  fa_evaluation :: evaluation

datatype reason =
    STATE_UNREADABLE_OF string | STATE_TYPE_MISMATCH string | PHASE_UNPROVEN
  | OBSERVATION_NOT_READY | OBSERVATION_SCOPE_INCOMPLETE | EVIDENCE_UNAVAILABLE
  | OBSERVATION_DRIFTED | STATE_UNREADABLE

definition expects_bool :: "assertion \<Rightarrow> bool" where
  "expects_bool a \<longleftrightarrow> (case expected a of Some (Expect_Bool _) \<Rightarrow> True | _ \<Rightarrow> False)"

definition expects_text :: "assertion \<Rightarrow> bool" where
  "expects_text a \<longleftrightarrow> (case expected a of Some (Expect_Text _) \<Rightarrow> True | _ \<Rightarrow> False)"

definition is_control :: "node \<Rightarrow> bool" where
  "is_control n \<longleftrightarrow> on_checked (snd n) \<noteq> None \<or> on_value (snd n) \<noteq> None \<or> on_selectedLabelSource (snd n) \<noteq> None"

definition labeledStateExists :: "observation \<Rightarrow> node \<Rightarrow> assertion \<Rightarrow> bool" where
  "labeledStateExists ob scope a = list_ex (\<lambda>n. is_visible n \<and> inside ob n scope
     \<and> named ob n (assertion_label a)
     \<and> (assertion_property a = Some P_VISIBLE \<or> \<not> expects_bool a \<or> on_checked (snd n) \<noteq> None)) (nodes ob)"

definition namedControlExists :: "observation \<Rightarrow> node \<Rightarrow> assertion \<Rightarrow> bool" where
  "namedControlExists ob scope a = list_ex (\<lambda>n. is_visible n \<and> inside ob n scope
     \<and> named ob n (assertion_label a) \<and> is_control n) (nodes ob)"

fun holds_state :: "observation \<Rightarrow> node \<Rightarrow> selection option \<Rightarrow> assertion \<Rightarrow> node \<Rightarrow> bool" where
  "holds_state ob scope sel (Labelled a) n \<longleftrightarrow>
     (if sel \<noteq> None \<and> \<not> labeledStateExists ob scope (Labelled a) \<and> a3_property a \<noteq> Some P_VISIBLE
      then truthy (ref_of n) else named ob n (a3_label a))
     \<and> (if expects_bool (Labelled a) \<and> a3_property a \<noteq> Some P_VISIBLE then on_checked (snd n) \<noteq> None
        else if a3_expected a = None \<and> namedControlExists ob scope (Labelled a) then is_control n
        else True)"
| "holds_state ob scope sel (Subject a) n \<longleftrightarrow> named ob n (a2_label a)
     \<and> (case a2_kind a of
          SWITCH \<Rightarrow> role n \<in> {''switch'', ''checkbox''} \<or> has_attribute n ''type'' ''checkbox''
        | FIELD_SUBJECT \<Rightarrow> tag n \<in> {''input'', ''textarea'', ''select''} \<or> role n = ''textbox''
        | CONTROL \<Rightarrow> truthy (ref_of n))"

definition state_candidates ::
  "observation \<Rightarrow> observation_target \<Rightarrow> node \<Rightarrow> node option \<Rightarrow> selection option \<Rightarrow> assertion \<Rightarrow> node list" where
  "state_candidates ob t scope owner sel a = filter (\<lambda>n. is_visible n \<and> inside ob n scope
     \<and> (\<not> business t \<or> (case owner of None \<Rightarrow> True | Some c \<Rightarrow> nodeId n = nodeId c \<or> inside ob n c))
     \<and> holds_state ob scope sel a n
     \<and> selects_state sel a n
     \<and> \<not> (business t \<and> list_ex (\<lambda>parent. fst parent \<noteq> fst scope \<and> businessScope parent
            \<and> inside ob parent scope \<and> inside ob n parent) (nodes ob))) (nodes ob)"

text \<open>Absence is only proved by a complete capture of the region.\<close>

definition absence_proven :: "observation \<Rightarrow> node \<Rightarrow> assertion \<Rightarrow> bool" where
  "absence_proven ob scope a \<longleftrightarrow> assertion_property a = Some P_VISIBLE
     \<and> expected a = Some (Expect_Bool False) \<and> ob_regionScope ob \<and> ob_rootNodeId ob = Some (nodeId scope)
     \<and> ob_completeWithinScope ob \<and> \<not> ob_truncated ob \<and> ob_unavailableFrames ob = []
     \<and> \<not> list_ex (\<lambda>n. is_visible n \<and> inside ob n scope \<and> named ob n (assertion_label a)) (nodes ob)
     \<and> \<not> list_ex (\<lambda>n. inside ob n scope \<and> (T_NAME \<in> set (on_truncatedProperties (snd n))
            \<or> T_TEXT \<in> set (on_truncatedProperties (snd n)))) (nodes ob)"

fun read_property :: "assertion \<Rightarrow> node \<Rightarrow> observed_property" where
  "read_property (Subject a) n = a2_property a"
| "read_property (Labelled a) n = (case a3_property a of
       Some p \<Rightarrow> p
     | None \<Rightarrow> if expects_bool (Labelled a) \<or> (a3_expected a = None \<and> on_checked (snd n) \<noteq> None) then P_CHECKED
         else if is_select n then P_SELECTED_LABEL
         else if tag n \<in> {''input'', ''textarea''} \<or> role n = ''textbox'' then P_VALUE
         else P_TEXT)"

definition actual_value :: "observed_property \<Rightarrow> node \<Rightarrow> observed_value option" where
  "actual_value p n =
     (if is_truncated p n then None
      else case p of
          P_CHECKED \<Rightarrow> map_option Bool_Value (on_checked (snd n))
        | P_VALUE \<Rightarrow> map_option Text_Value (on_value (snd n))
        | P_TEXT \<Rightarrow> map_option Text_Value (on_text (snd n))
        | P_SELECTED_LABEL \<Rightarrow> map_option Text_Value (selected_label n)
        | P_VISIBLE \<Rightarrow> Some (Bool_Value (on_visible (snd n)))
        | P_ENABLED \<Rightarrow> map_option Bool_Value (on_enabled (snd n)))"

fun assertion_mode :: "assertion \<Rightarrow> match_mode option" where
  "assertion_mode (Subject a) = None"
| "assertion_mode (Labelled a) = a3_matchMode a"

definition text_matches :: "assertion \<Rightarrow> observed_property \<Rightarrow> utext \<Rightarrow> utext \<Rightarrow> bool" where
  "text_matches a p actual v \<longleftrightarrow>
     (if p = P_VALUE \<or> assertion_mode a = Some EXACT then actual = v
      else if assertion_mode a = Some DISPLAY_TEXT then normalizeDisplayText actual = normalizeDisplayText v
      else same (Some actual) v)"

definition expected_texts :: "assertion \<Rightarrow> utext list" where
  "expected_texts a = (case expected a of
     Some (Expect_Text s) \<Rightarrow> [s] | Some (Expect_OneOf ss) \<Rightarrow> ss | _ \<Rightarrow> [])"

definition value_matches :: "assertion \<Rightarrow> observed_property \<Rightarrow> observed_value option \<Rightarrow> bool" where
  "value_matches a p actual \<longleftrightarrow>
     (case expected a of
        None \<Rightarrow> actual \<noteq> None
      | Some e \<Rightarrow> (case actual of
            Some (Text_Value s) \<Rightarrow> list_ex (text_matches a p s) (expected_texts a)
          | Some (Bool_Value b) \<Rightarrow> e = Expect_Bool b
          | None \<Rightarrow> False))"

definition read_fact :: "assertion \<Rightarrow> node \<Rightarrow> fact" where
  "read_fact a n =
     (let p = read_property a n; actual = actual_value p n in
      \<lparr>fa_assertionId = assertionId a, fa_nodeId = nodeId n, fa_property = p, fa_actual = actual,
       fa_evaluation = (if actual = None then UNKNOWN
         else if value_matches a p actual then MATCHED else MISMATCHED)\<rparr>)"

definition is_modern :: "assertion \<Rightarrow> bool" where
  "is_modern a \<longleftrightarrow> (case a of Labelled _ \<Rightarrow> True | Subject _ \<Rightarrow> False)"

datatype assertion_result = Ambiguous "string list" | Fact fact | Unread reason

definition evaluate_assertion ::
  "observation \<Rightarrow> observation_target \<Rightarrow> node \<Rightarrow> node option \<Rightarrow> selection option \<Rightarrow> assertion \<Rightarrow> assertion_result" where
  "evaluate_assertion ob t scope owner sel a =
     (case state_candidates ob t scope owner sel a of
        [] \<Rightarrow> if absence_proven ob scope a
          then Fact \<lparr>fa_assertionId = assertionId a, fa_nodeId = nodeId scope, fa_property = P_VISIBLE,
                 fa_actual = Some (Bool_Value False), fa_evaluation = MATCHED\<rparr>
          else Unread (STATE_UNREADABLE_OF (assertionId a))
      | [n] \<Rightarrow> if is_modern a \<and> expects_text a \<and> on_checked (snd n) \<noteq> None
          then Unread (STATE_TYPE_MISMATCH (assertionId a))
          else Fact (read_fact a n)
      | candidates \<Rightarrow> Ambiguous (refs candidates))"

text \<open>The loop over the assertions: it returns at the first ambiguous one.\<close>

fun evaluate_assertions ::
  "(assertion \<Rightarrow> assertion_result) \<Rightarrow> assertion list \<Rightarrow> (string \<times> string list) + fact list \<times> reason list" where
  "evaluate_assertions f [] = Inr ([], [])"
| "evaluate_assertions f (a # as) = (case f a of
     Ambiguous rs \<Rightarrow> Inl (assertionId a, rs)
   | Fact x \<Rightarrow> map_sum id (\<lambda>(facts, reasons). (x # facts, reasons)) (evaluate_assertions f as)
   | Unread r \<Rightarrow> map_sum id (\<lambda>(facts, reasons). (facts, r # reasons)) (evaluate_assertions f as))"

section \<open>The phase\<close>

definition region_of :: "observation \<Rightarrow> observation_target \<Rightarrow> node \<Rightarrow> observed_region option" where
  "region_of ob t scope =
     (case List.find (\<lambda>r. rg_nodeId r = nodeId scope) (ob_regions ob) of
        Some r \<Rightarrow> Some r
      | None \<Rightarrow> if \<not> business t then None
          else let regions = enumerate 0 (ob_regions ob); node_at = \<lambda>r. map_of (by_id ob) (rg_nodeId (snd r));
                   around = filter (\<lambda>r. case node_at r of None \<Rightarrow> False | Some n \<Rightarrow> inside ob scope n) regions in
            map_option snd (List.find (\<lambda>r. \<not> list_ex (\<lambda>other. fst other \<noteq> fst r
                \<and> (case (node_at other, node_at r) of
                     (Some n, Some outer) \<Rightarrow> inside ob scope n \<and> inside ob n outer
                   | _ \<Rightarrow> False)) regions) around))"

definition touches_fact :: "observation \<Rightarrow> string \<Rightarrow> fact \<Rightarrow> bool" where
  "touches_fact ob i f \<longleftrightarrow> i = fa_nodeId f
     \<or> (case (map_of (by_id ob) (fa_nodeId f), map_of (by_id ob) i) of
          (Some state, Some action) \<Rightarrow> inside ob state action \<or> inside ob action state
        | _ \<Rightarrow> False)"

definition mutated :: "observation \<Rightarrow> observed_region \<Rightarrow> fact list \<Rightarrow> bool" where
  "mutated ob region facts = list_ex (\<lambda>i. map_of (by_id ob) i = None \<or> list_ex (touches_fact ob i) facts)
     (rg_modifiedNodeIds region)"

definition phase_proven ::
  "observation \<Rightarrow> observation_phase \<Rightarrow> observed_region option \<Rightarrow> fact list \<Rightarrow> bool" where
  "phase_proven ob phase region facts =
     (case phase of
        CURRENT \<Rightarrow> True
      | AFTER_ACTION \<Rightarrow> truthy (ob_sourceCommandId ob)
      | _ \<Rightarrow> (case region of None \<Rightarrow> False
          | Some r \<Rightarrow> rg_phaseProven r \<and> \<not> mutated ob r facts \<and> (phase \<noteq> REOPENED \<or> rg_reopened r)))"

section \<open>The evaluation of a target\<close>

record binding_evaluation =
  be_targetId :: string
  be_scopeIdentity :: string
  be_entityKey :: utext
  be_phase :: observation_phase
  be_phaseProven :: bool
  be_regionEpoch :: "string option"
  be_facts :: "fact list"
  be_evaluation :: evaluation
  be_ready :: bool
  be_reasons :: "reason list"

datatype target_error = ENTITY_NOT_CONFIRMED | SCOPE_AMBIGUOUS | SCOPE_NOT_OBSERVED | STATE_AMBIGUOUS string

datatype target_outcome = Unbound target_error "string list" | Bound binding_evaluation

definition kind_name :: "evidence_kind \<Rightarrow> string" where
  "kind_name k = (case k of DOM \<Rightarrow> ''DOM'' | SCREENSHOT \<Rightarrow> ''SCREENSHOT'')"

definition is_busy :: "observation \<Rightarrow> node \<Rightarrow> bool" where
  "is_busy ob scope = list_ex (\<lambda>n. is_visible n \<and> inside ob n scope
     \<and> (has_attribute n ''aria-busy'' ''true'' \<or> role n = ''progressbar'')) (nodes ob)"

definition has_drifted :: "observation \<Rightarrow> node \<Rightarrow> bool" where
  "has_drifted ob scope \<longleftrightarrow> ob_consistency ob \<noteq> VERIFIED
     \<and> \<not> (ob_consistency ob = DRIFTED
          \<and> (case ob_verifiedScopeNodeIds ob of None \<Rightarrow> False | Some ids \<Rightarrow> nodeId scope \<in> set ids))"

definition reason_if :: "bool \<Rightarrow> 'a \<Rightarrow> 'a list" where
  "reason_if b x = (if b then [x] else [])"

definition binding_reasons ::
  "observation \<Rightarrow> observation_target \<Rightarrow> string list \<Rightarrow> node \<Rightarrow> bool \<Rightarrow> fact list \<Rightarrow> reason list" where
  "binding_reasons ob t kinds scope proven facts =
     reason_if (\<not> proven) PHASE_UNPROVEN
     @ reason_if (is_busy ob scope) OBSERVATION_NOT_READY
     @ reason_if (\<not> ob_completeWithinScope ob \<or> ob_truncated ob) OBSERVATION_SCOPE_INCOMPLETE
     @ reason_if (list_ex (\<lambda>k. kind_name k \<notin> set kinds) (required_kinds t)) EVIDENCE_UNAVAILABLE
     @ reason_if (SCREENSHOT \<in> set (required_kinds t) \<and> has_drifted ob scope) OBSERVATION_DRIFTED
     @ reason_if (list_ex (\<lambda>f. fa_evaluation f = UNKNOWN) facts) STATE_UNREADABLE"

definition overall_evaluation :: "nat \<Rightarrow> fact list \<Rightarrow> evaluation" where
  "overall_evaluation n facts =
     (if length facts \<noteq> n \<or> list_ex (\<lambda>f. fa_evaluation f = UNKNOWN) facts then UNKNOWN
      else if list_ex (\<lambda>f. fa_evaluation f = MISMATCHED) facts then MISMATCHED else MATCHED)"

definition bind_target ::
  "observation \<Rightarrow> observation_target \<Rightarrow> string list \<Rightarrow> node \<Rightarrow> node \<Rightarrow> fact list \<Rightarrow> reason list \<Rightarrow> binding_evaluation" where
  "bind_target ob t kinds scope entity facts unread =
     (let region = region_of ob t scope;
          proven = phase_proven ob (target_phase t) region facts;
          reasons = unread @ binding_reasons ob t kinds scope proven facts in
      \<lparr>be_targetId = target_id t, be_scopeIdentity = nodeId scope,
       be_entityKey = coalesce (entityValue t entity) [], be_phase = target_phase t,
       be_phaseProven = proven, be_regionEpoch = map_option rg_epoch region, be_facts = facts,
       be_evaluation = overall_evaluation (length (assertions t)) facts,
       be_ready = (reasons = []), be_reasons = reasons\<rparr>)"

definition identity_controls :: "observation \<Rightarrow> string list" where
  "identity_controls ob =
     map (\<lambda>n. the (ref_of n)) (take 20 (filter (\<lambda>n. is_visible n \<and> identityControl n \<and> truthy (ref_of n)) (nodes ob)))"

text \<open>An identity inside a toggle belongs to that toggle.\<close>

definition ownerControl :: "observation \<Rightarrow> node \<Rightarrow> node option" where
  "ownerControl ob entity = List.find (\<lambda>n. identityControl n \<and> inside ob entity n) (nodes ob)"

definition evaluateObservationTarget ::
  "observation_target \<Rightarrow> observation \<Rightarrow> string list \<Rightarrow> selection option \<Rightarrow> target_outcome" where
  "evaluateObservationTarget t ob kinds sel =
     (let candidates = entityCandidates ob t in
      if business t \<and> candidates = [] then Unbound ENTITY_NOT_CONFIRMED (identity_controls ob)
      else let all_scopes = scopes ob t candidates in
        (case selected_scopes ob t candidates sel all_scopes of
           [] \<Rightarrow> Unbound SCOPE_NOT_OBSERVED (refs all_scopes)
         | [scope] \<Rightarrow>
             (case filter (\<lambda>n. inside ob n scope \<and> selects_entity sel n) candidates of
                [entity] \<Rightarrow>
                  (case evaluate_assertions (evaluate_assertion ob t scope (ownerControl ob entity) sel)
                          (assertions t) of
                     Inl (i, rs) \<Rightarrow> Unbound (STATE_AMBIGUOUS i) rs
                   | Inr (facts, unread) \<Rightarrow> Bound (bind_target ob t kinds scope entity facts unread))
              | _ \<Rightarrow> Unbound ENTITY_NOT_CONFIRMED (refs (filter (\<lambda>n. inside ob n scope) candidates)))
         | _ \<Rightarrow> Unbound SCOPE_AMBIGUOUS (refs all_scopes)))"

section \<open>Containment is ancestry\<close>

inductive ancestor :: "(string \<times> node) list \<Rightarrow> node \<Rightarrow> string \<Rightarrow> bool" for m where
  self: "ancestor m n (nodeId n)"
| up: "map_of m (coalesce (on_parentId (snd n)) []) = Some p \<Longrightarrow> ancestor m p i \<Longrightarrow> ancestor m n i"

lemma climb_ancestor: "climb m seen cur r \<Longrightarrow> \<exists>n. cur = Some n \<and> ancestor m n r"
proof (induction m seen cur r rule: climb.induct)
  case (2 m seen n r)
  show ?case
  proof (cases "nodeId n = r")
    case True
    then show ?thesis using ancestor.self by metis
  next
    case False
    with 2 show ?thesis by (auto split: if_splits intro: ancestor.up)
  qed
qed simp

lemma climb_sound: "climb m seen (Some n) r \<Longrightarrow> ancestor m n r"
  by (drule climb_ancestor) simp

definition parent_in :: "(string \<times> node) list \<Rightarrow> string \<Rightarrow> string set \<Rightarrow> bool" where
  "parent_in m x S \<longleftrightarrow> (\<forall>n p. map_of m x = Some n \<longrightarrow>
     map_of m (coalesce (on_parentId (snd n)) []) = Some p \<longrightarrow> nodeId p \<in> S)"

definition keyed :: "(string \<times> node) list \<Rightarrow> bool" where
  "keyed m \<longleftrightarrow> (\<forall>k n. map_of m k = Some n \<longrightarrow> nodeId n = k)"

lemma parent_inD:
  "parent_in m (nodeId n) S \<Longrightarrow> map_of m (nodeId n) = Some n
    \<Longrightarrow> map_of m (coalesce (on_parentId (snd n)) []) = Some p \<Longrightarrow> nodeId p \<in> S"
  unfolding parent_in_def by blast

lemma keyedD: "keyed m \<Longrightarrow> map_of m k = Some n \<Longrightarrow> map_of m (nodeId n) = Some n"
  unfolding keyed_def by metis

definition cur_ids :: "node option \<Rightarrow> string set" where
  "cur_ids cur = nodeId ` set_option cur"

text \<open>When the loop fails, the ids it saw are closed under parents and do not contain the goal.\<close>

lemma climb_complete:
  assumes "keyed m" and "\<not> climb m seen cur r"
    and "r \<notin> set seen" and "\<forall>x \<in> set seen. parent_in m x (set seen \<union> cur_ids cur)"
    and "\<forall>n \<in> set_option cur. map_of m (nodeId n) = Some n"
  shows "\<exists>S. set seen \<union> cur_ids cur \<subseteq> S \<and> r \<notin> S \<and> (\<forall>x \<in> S. parent_in m x S)"
  using assms
proof (induction m seen cur r rule: climb.induct)
  case (1 m seen r)
  then show ?case by (intro exI [of _ "set seen"]) (simp add: cur_ids_def)
next
  case (2 m seen n r)
  show ?case
  proof (cases "nodeId n \<in> set seen")
    case True
    with 2 show ?thesis by (intro exI [of _ "set seen"]) (auto simp: cur_ids_def insert_absorb)
  next
    case False
    define p where "p = map_of m (coalesce (on_parentId (snd n)) [])"
    have r: "nodeId n \<noteq> r" and c: "\<not> climb m (nodeId n # seen) p r"
      using False "2.prems"(2) by (auto simp: p_def split: if_splits)
    have own: "parent_in m (nodeId n) (set (nodeId n # seen) \<union> cur_ids p)"
      using "2.prems"(5) by (auto simp: parent_in_def cur_ids_def p_def)
    have "parent_in m x (set (nodeId n # seen) \<union> cur_ids p)" if "x \<in> set seen" for x
      using "2.prems"(4) that by (fastforce simp: parent_in_def cur_ids_def)
    with own have "\<forall>x \<in> set (nodeId n # seen). parent_in m x (set (nodeId n # seen) \<union> cur_ids p)"
      by simp
    moreover have "map_of m (nodeId q) = Some q" if "q \<in> set_option p" for q
      using that unfolding p_def elem_set by (rule keyedD [OF "2.prems"(1)])
    ultimately obtain S where "set (nodeId n # seen) \<union> cur_ids p \<subseteq> S" "r \<notin> S" "\<forall>x \<in> S. parent_in m x S"
      using "2.IH" [OF False r "2.prems"(1) c [unfolded p_def]] r "2.prems"(3) unfolding p_def by auto
    then show ?thesis by (intro exI [of _ S]) (auto simp: cur_ids_def)
  qed
qed

lemma ancestor_closed:
  "ancestor m n i \<Longrightarrow> keyed m \<Longrightarrow> map_of m (nodeId n) = Some n \<Longrightarrow> nodeId n \<in> S
    \<Longrightarrow> (\<forall>x \<in> S. parent_in m x S) \<Longrightarrow> i \<in> S"
proof (induction rule: ancestor.induct)
  case (up n p i)
  then have "nodeId p \<in> S" using parent_inD by blast
  with up show ?case using keyedD by blast
qed simp

lemma keyed_by_id: "keyed (by_id ob)"
  by (auto simp: keyed_def by_id_def dest!: map_of_SomeD)

lemma by_id_distinct:
  assumes "distinct (map on_nodeId (ob_nodes ob))" and "n \<in> set (nodes ob)"
  shows "map_of (by_id ob) (nodeId n) = Some n"
proof (rule map_of_is_SomeI)
  have "map fst (by_id ob) = rev (map on_nodeId (ob_nodes ob))"
    by (simp add: by_id_def nodes_def nodeId_def rev_map [symmetric] comp_def)
      (simp add: map_snd_enumerate flip: list.map_comp [of _ snd, unfolded comp_def])
  with assms(1) show "distinct (map fst (by_id ob))" by simp
  show "(nodeId n, n) \<in> set (by_id ob)" using assms(2) by (simp add: by_id_def)
qed

text \<open>C34: Containment terminates and is ancestry. In a capture whose node ids are distinct a node is
  within another exactly when both are in the same document of the same frame and the chain of
  parents from the first reaches the second, even where the parents recorded form a cycle.\<close>

theorem inside_iff_ancestor:
  assumes "distinct (map on_nodeId (ob_nodes ob))" and "n \<in> set (nodes ob)"
  shows "inside ob n r \<longleftrightarrow> on_frameId (snd n) = on_frameId (snd r)
    \<and> on_documentEpoch (snd n) = on_documentEpoch (snd r) \<and> ancestor (by_id ob) n (nodeId r)"
proof -
  have k: "map_of (by_id ob) (nodeId n) = Some n" using assms by (rule by_id_distinct)
  have "climb (by_id ob) [] (Some n) (nodeId r)" if a: "ancestor (by_id ob) n (nodeId r)"
  proof (rule ccontr)
    assume "\<not> climb (by_id ob) [] (Some n) (nodeId r)"
    then obtain S where "nodeId n \<in> S" "nodeId r \<notin> S" "\<forall>x \<in> S. parent_in (by_id ob) x S"
      using climb_complete [OF keyed_by_id, of ob "[]" "Some n" "nodeId r"] k by (auto simp: cur_ids_def)
    with ancestor_closed [OF a keyed_by_id k] show False by blast
  qed
  then show ?thesis using climb_sound [of "by_id ob" "[]" n "nodeId r"] unfolding inside_def by blast
qed

section \<open>What a binding proves\<close>

text \<open>Where the fact of an assertion comes from: the only node of the scope that holds the state, or
  its proven absence.\<close>

definition read_from ::
  "observation \<Rightarrow> observation_target \<Rightarrow> selection option \<Rightarrow> node \<Rightarrow> node \<Rightarrow> assertion \<Rightarrow> fact \<Rightarrow> bool" where
  "read_from ob t sel scope entity a f \<longleftrightarrow>
     (\<exists>n. state_candidates ob t scope (ownerControl ob entity) sel a = [n]
        \<and> is_visible n \<and> inside ob n scope \<and> f = read_fact a n)
     \<or> absence_proven ob scope a \<and> fa_assertionId f = assertionId a \<and> fa_nodeId f = nodeId scope
        \<and> fa_actual f = Some (Bool_Value False) \<and> fa_evaluation f = MATCHED"

lemma evaluate_assertions_complete:
  "evaluate_assertions f as = Inr (facts, []) \<Longrightarrow> map Fact facts = map f as"
proof (induction as arbitrary: facts)
  case (Cons a as)
  then show ?case
    by (cases "evaluate_assertions f as") (auto split: assertion_result.splits)
qed simp

lemma state_candidate:
  "n \<in> set (state_candidates ob t scope owner sel a) \<Longrightarrow> is_visible n \<and> inside ob n scope"
  by (simp add: state_candidates_def)

lemma evaluate_assertion_fact:
  assumes "evaluate_assertion ob t scope (ownerControl ob entity) sel a = Fact x"
  shows "read_from ob t sel scope entity a x"
proof (cases "state_candidates ob t scope (ownerControl ob entity) sel a")
  case Nil
  with assms show ?thesis by (auto simp: evaluate_assertion_def read_from_def split: if_splits)
next
  case (Cons n ns)
  with assms have "ns = []" "x = read_fact a n"
    by (auto simp: evaluate_assertion_def split: if_splits list.splits)
  moreover have "is_visible n \<and> inside ob n scope"
    using state_candidate [of n ob t scope "ownerControl ob entity" sel a] Cons by simp
  ultimately show ?thesis using Cons unfolding read_from_def by blast
qed

lemma facts_read_from:
  "evaluate_assertions (evaluate_assertion ob t scope (ownerControl ob entity) sel) as = Inr (facts, [])
    \<Longrightarrow> list_all2 (read_from ob t sel scope entity) as facts"
  by (drule evaluate_assertions_complete)
    (auto simp: list_all2_conv_all_nth list_eq_iff_nth_eq intro: evaluate_assertion_fact)

text \<open>The parts of a binding, when there is one.\<close>

lemma evaluateObservationTarget_BoundE:
  assumes "evaluateObservationTarget t ob kinds sel = Bound b"
  obtains scope entity facts unread where
    "selected_scopes ob t (entityCandidates ob t) sel (scopes ob t (entityCandidates ob t)) = [scope]"
    "filter (\<lambda>n. inside ob n scope \<and> selects_entity sel n) (entityCandidates ob t) = [entity]"
    "evaluate_assertions (evaluate_assertion ob t scope (ownerControl ob entity) sel) (assertions t)
      = Inr (facts, unread)"
    "b = bind_target ob t kinds scope entity facts unread"
  using assms unfolding evaluateObservationTarget_def Let_def
  by (auto split: if_splits list.splits sum.splits prod.splits)

lemma scopes_visible: "n \<in> set (scopes ob t entities) \<Longrightarrow> n \<in> set (nodes ob) \<and> is_visible n"
  by (cases t) (auto simp: scopes_def innermost_def Let_def split: if_splits)

lemma selected_scopes_subset: "n \<in> set (selected_scopes ob t entities sel ns) \<Longrightarrow> n \<in> set ns"
  by (auto simp: selected_scopes_def Let_def split: option.splits)

lemma identifies_value: "identifies ob t n \<Longrightarrow> entityValue t n \<noteq> None"
  by (cases t) (auto simp: sameIdentity_def list_ex_iff same_def split: option.splits if_splits)

lemma reason_if_Nil [simp]: "reason_if b x = [] \<longleftrightarrow> \<not> b"
  by (simp add: reason_if_def)

text \<open>C35: A ready binding is evidence. It is bound to one visible region of the capture and one
  object in it that has the target's identity; it has exactly one fact for each assertion, in
  order, read from a visible node of that region or from the region's proven emptiness; its phase
  is proven, the capture is complete and not truncated, the required kinds of evidence are there
  and, if a screenshot is one of them, the region did not drift. It is never unknown: it matches
  exactly when every assertion's fact does.\<close>

theorem ready_binding_sound:
  assumes "evaluateObservationTarget t ob kinds sel = Bound b" and "be_ready b"
  shows "(\<exists>scope entity. {scope, entity} \<subseteq> set (nodes ob)
      \<and> is_visible scope \<and> is_visible entity \<and> inside ob entity scope \<and> identifies ob t entity
      \<and> be_scopeIdentity b = nodeId scope \<and> Some (be_entityKey b) = entityValue t entity
      \<and> list_all2 (read_from ob t sel scope entity) (assertions t) (be_facts b)
      \<and> phase_proven ob (target_phase t) (region_of ob t scope) (be_facts b)
      \<and> \<not> (SCREENSHOT \<in> set (required_kinds t) \<and> has_drifted ob scope))
    \<and> be_phase b = target_phase t
    \<and> ob_completeWithinScope ob \<and> \<not> ob_truncated ob
    \<and> kind_name ` set (required_kinds t) \<subseteq> set kinds
    \<and> be_evaluation b = (if list_all (\<lambda>f. fa_evaluation f = MATCHED) (be_facts b)
        then MATCHED else MISMATCHED)"
proof -
  obtain scope entity facts unread where
    s: "selected_scopes ob t (entityCandidates ob t) sel (scopes ob t (entityCandidates ob t)) = [scope]"
    and e: "filter (\<lambda>n. inside ob n scope \<and> selects_entity sel n) (entityCandidates ob t) = [entity]"
    and f: "evaluate_assertions (evaluate_assertion ob t scope (ownerControl ob entity) sel) (assertions t)
      = Inr (facts, unread)"
    and b: "b = bind_target ob t kinds scope entity facts unread"
    using assms(1) by (rule evaluateObservationTarget_BoundE)
  have "scope \<in> set (selected_scopes ob t (entityCandidates ob t) sel (scopes ob t (entityCandidates ob t)))"
    by (simp add: s)
  then have scope: "scope \<in> set (nodes ob)" "is_visible scope"
    using selected_scopes_subset scopes_visible by blast+
  have "entity \<in> set (filter (\<lambda>n. inside ob n scope \<and> selects_entity sel n) (entityCandidates ob t))"
    by (simp add: e)
  then have entity: "entity \<in> set (nodes ob)" "is_visible entity" "inside ob entity scope" "identifies ob t entity"
    by (simp_all add: entityCandidates_def)
  have reasons: "unread = []"
    "binding_reasons ob t kinds scope (phase_proven ob (target_phase t) (region_of ob t scope) facts) facts = []"
    using assms(2) by (simp_all add: b bind_target_def Let_def)
  have facts: "list_all2 (read_from ob t sel scope entity) (assertions t) facts"
    using f reasons(1) by (intro facts_read_from) simp
  have "Some (be_entityKey b) = entityValue t entity"
    using identifies_value [OF entity(4)] by (auto simp: b bind_target_def Let_def)
  moreover have "overall_evaluation (length (assertions t)) facts
      = (if list_all (\<lambda>f. fa_evaluation f = MATCHED) facts then MATCHED else MISMATCHED)"
    using reasons(2) list_all2_lengthD [OF facts]
    by (auto simp: overall_evaluation_def binding_reasons_def list_ex_iff list_all_iff)
      (metis evaluation.exhaust)+
  moreover have "kind_name ` set (required_kinds t) \<subseteq> set kinds"
    using reasons(2) by (auto simp: binding_reasons_def list_ex_iff)
  ultimately show ?thesis
    using scope entity facts reasons
    by (intro conjI exI [of _ scope] exI [of _ entity])
      (simp_all add: b bind_target_def Let_def binding_reasons_def)
qed

section \<open>A capture\<close>

text \<open>A form with a cell that names an object and a switch, whose parents form a cycle.\<close>

definition sample_node :: "string \<Rightarrow> string \<Rightarrow> string \<Rightarrow> observed_node" where
  "sample_node i parent tg = \<lparr>on_nodeId = i, on_ref = Some i, on_parentId = Some parent, on_frameId = ''f'',
     on_documentEpoch = ''d'', on_tag = tg, on_role = None, on_name = None, on_nameSource = None, on_text = None,
     on_value = None, on_selectedLabel = None, on_selectedLabelSource = None, on_truncatedProperties = [],
     on_checked = None, on_enabled = None, on_visible = True, on_attributes = [], on_relations = []\<rparr>"

definition sample_form :: node where
  "sample_form = (0, sample_node ''F'' ''S'' ''form'')"

definition sample_cell :: node where
  "sample_cell = (1, (sample_node ''C'' ''F'' ''td'')\<lparr>on_text := Some [66]\<rparr>)"

definition sample_switch :: node where
  "sample_switch = (2, (sample_node ''S'' ''F'' ''div'')\<lparr>on_role := Some ''switch'', on_name := Some [69],
     on_checked := Some True\<rparr>)"

definition sample_capture :: observation where
  "sample_capture = \<lparr>ob_nodes = [snd sample_form, snd sample_cell, snd sample_switch], ob_regions = [],
     ob_sourceCommandId = None, ob_consistency = VERIFIED, ob_verifiedScopeNodeIds = None, ob_regionScope = False,
     ob_rootNodeId = None, ob_completeWithinScope = True, ob_truncated = False, ob_unavailableFrames = []\<rparr>"

definition sample_target :: observation_target where
  "sample_target = Target3 \<lparr>t3_targetId = ''t'', t3_label = [66], t3_identity = [66], t3_matchMode = Some EXACT,
     t3_phase = CURRENT, t3_assertions = [\<lparr>a3_assertionId = ''a'', a3_property = Some P_CHECKED,
       a3_matchMode = None, a3_label = [69], a3_expected = Some (Expect_Bool True)\<rparr>],
     t3_requiredEvidenceKinds = [DOM, SCREENSHOT]\<rparr>"

lemmas sample_defs = sample_form_def sample_cell_def sample_switch_def sample_node_def

lemma sample_nodes: "nodes sample_capture = [sample_form, sample_cell, sample_switch]"
  by (simp add: nodes_def sample_capture_def sample_defs)

lemma sample_by_id:
  "by_id sample_capture = [(''S'', sample_switch), (''C'', sample_cell), (''F'', sample_form)]"
  by (simp add: by_id_def sample_nodes nodeId_def) (simp add: sample_defs)

lemma sample_inside [simp]:
  "inside sample_capture sample_form sample_form" "inside sample_capture sample_cell sample_form"
  "inside sample_capture sample_switch sample_form" "inside sample_capture sample_form sample_switch"
  "inside sample_capture sample_cell sample_switch" "inside sample_capture sample_switch sample_switch"
  "\<not> inside sample_capture sample_form sample_cell" "\<not> inside sample_capture sample_switch sample_cell"
  "inside sample_capture sample_cell sample_cell"
  by (simp_all add: inside_def sample_by_id nodeId_def) (simp_all add: sample_defs)

lemma inside_iff_ancestor_witness:
  "ancestor (by_id sample_capture) sample_cell ''S'' \<and> \<not> ancestor (by_id sample_capture) sample_switch ''C''"
proof -
  have d: "distinct (map on_nodeId (ob_nodes sample_capture))" by (simp add: sample_capture_def sample_defs)
  have m: "sample_cell \<in> set (nodes sample_capture)" "sample_switch \<in> set (nodes sample_capture)"
    by (simp_all add: sample_nodes)
  have i: "nodeId sample_switch = ''S''" "nodeId sample_cell = ''C''" by (simp_all add: nodeId_def sample_defs)
  have "on_frameId (snd sample_switch) = on_frameId (snd sample_cell)"
      "on_documentEpoch (snd sample_switch) = on_documentEpoch (snd sample_cell)"
    by (simp_all add: sample_defs)
  then show ?thesis
    using inside_iff_ancestor [OF d m(1), of sample_switch] inside_iff_ancestor [OF d m(2), of sample_cell]
    unfolding i by simp
qed

lemma sample_fields [simp]:
  "tag sample_form = ''form''" "tag sample_cell = ''td''" "tag sample_switch = ''div''"
  "role sample_form = []" "role sample_cell = []" "role sample_switch = ''switch''"
  "is_visible sample_form" "is_visible sample_cell" "is_visible sample_switch"
  "fst sample_form = 0" "fst sample_cell = 1" "fst sample_switch = 2"
  "on_attributes (snd sample_form) = []" "on_attributes (snd sample_cell) = []" "on_attributes (snd sample_switch) = []"
  "on_checked (snd sample_switch) = Some True" "nodeId sample_form = ''F''" "nodeId sample_switch = ''S''"
  by (simp_all add: tag_def role_def is_visible_def nodeId_def sample_defs)

lemma sample_values:
  "entityValue (Target3 t) sample_form = None" "entityValue (Target3 t) sample_cell = Some [66]"
  "entityValue (Target3 t) sample_switch = None"
  by (simp_all add: is_select_def identityControl_def choice_input_def has_attribute_def)
    (simp_all add: sample_defs)

lemma sample_entity: "isEntity sample_capture sample_target sample_cell"
  by (simp add: sample_target_def sample_nodes is_select_def choice_input_def)

lemma sample_identifies:
  "\<not> identifies sample_capture sample_target sample_form" "identifies sample_capture sample_target sample_cell"
  "\<not> identifies sample_capture sample_target sample_switch"
  by (simp_all add: sample_target_def sample_values sameIdentity_def del: entityValue.simps)

lemma sample_entities: "entityCandidates sample_capture sample_target = [sample_cell]"
  by (simp add: entityCandidates_def sample_nodes sample_entity sample_identifies
      del: isEntity.simps identifies.simps)

lemma sample_scopes: "scopes sample_capture sample_target [sample_cell] = [sample_form]"
  by (simp add: scopes_def sample_nodes sample_target_def businessScope_def innermost_def)

lemma sample_named:
  "\<not> named sample_capture sample_form [69]" "\<not> named sample_capture sample_cell [69]"
  "named sample_capture sample_switch [69]"
  by (simp_all add: named_def directlyNamed_def)
    (simp_all add: sample_defs same_def normalize_def u_trim_def trim_by_def u_space_def)

lemma sample_owner_control: "ownerControl sample_capture sample_cell = Some sample_switch"
  by (simp add: ownerControl_def sample_nodes identityControl_def choice_input_def has_attribute_def)

lemma ready_binding_sound_witness:
  "\<exists>b. evaluateObservationTarget sample_target sample_capture [''DOM'', ''SCREENSHOT''] None = Bound b
     \<and> be_evaluation b = MATCHED \<and> be_phase b = CURRENT"
proof -
  have r: "evaluate_assertions (evaluate_assertion sample_capture sample_target sample_form
      (ownerControl sample_capture sample_cell) None) (assertions sample_target)
      = Inr ([\<lparr>fa_assertionId = ''a'', fa_nodeId = ''S'', fa_property = P_CHECKED,
          fa_actual = Some (Bool_Value True), fa_evaluation = MATCHED\<rparr>], [])"
    by (simp add: sample_target_def evaluate_assertion_def state_candidates_def sample_nodes sample_owner_control
        sample_named selects_state_def expects_bool_def expects_text_def is_modern_def read_fact_def
        actual_value_def is_truncated_def value_matches_def businessScope_def) blast
  define b where "b = bind_target sample_capture sample_target [''DOM'', ''SCREENSHOT''] sample_form sample_cell
      [\<lparr>fa_assertionId = ''a'', fa_nodeId = ''S'', fa_property = P_CHECKED,
        fa_actual = Some (Bool_Value True), fa_evaluation = MATCHED\<rparr>] []"
  have out: "evaluateObservationTarget sample_target sample_capture [''DOM'', ''SCREENSHOT''] None = Bound b"
    by (simp add: evaluateObservationTarget_def sample_entities sample_scopes selected_scopes_def
        selects_entity_def r b_def)
  have not_busy: "\<not> is_busy sample_capture sample_form"
    by (simp add: is_busy_def sample_nodes has_attribute_def)
  have facts: "be_ready b" "be_facts b = [\<lparr>fa_assertionId = ''a'', fa_nodeId = ''S'', fa_property = P_CHECKED,
          fa_actual = Some (Bool_Value True), fa_evaluation = MATCHED\<rparr>]"
    using not_busy by (simp_all add: b_def bind_target_def Let_def)
      (simp add: sample_target_def phase_proven_def binding_reasons_def kind_name_def has_drifted_def
        sample_capture_def)
  have "target_phase sample_target = CURRENT" by (simp add: sample_target_def)
  then have "be_evaluation b = MATCHED" "be_phase b = CURRENT"
    using ready_binding_sound [OF out facts(1)] unfolding facts(2) by (elim conjE, simp)+
  with out show ?thesis by blast
qed

end
