(* ===== verification/BoundEvidence.thy ===== *)
theory BoundEvidence
  imports Observation
begin

text \<open>
  What a criterion may conclude from saved bindings: \<open>observationCoverage\<close> and
  \<open>boundCriterionError\<close> of \<open>packages/agent-runtime-protocol/src/observation-evaluator.ts\<close>, and the
  agent's evidence store, class \<open>BoundEvidence\<close> of \<open>apps/agent-runtime/src/bound-evidence.ts\<close>.

  Parameters: \<open>digest\<close> is the digest of a contract, \<open>parse\<close> is \<open>JSON.parse\<close>, \<open>as_binding\<close> accepts
  an unknown value as a binding with the same content as a saved one. Schemas of the server's
  replies are taken as passed: a reply is what they accept. The view that is rendered for the model
  within a byte budget is not modelled.
\<close>

section \<open>Bindings and reviews\<close>

record observation_binding =
  bd_id :: string
  bd_runId :: string
  bd_attemptId :: string
  bd_criterionId :: string
  bd_targetId :: string
  bd_contractDigest :: string
  bd_entityKey :: utext
  bd_phase :: observation_phase
  bd_evaluation :: evaluation
  bd_ready :: bool
  bd_evidenceRefs :: "string list"
  bd_reasons :: "string list"

datatype review_verdict = EQUIVALENT | DIFFERENT | VERDICT_UNKNOWN

record comparison_review =
  rw_id :: string
  rw_criterionId :: string
  rw_contractDigest :: string
  rw_comparisonId :: string
  rw_bindingIds :: "string list"
  rw_verdict :: review_verdict
  rw_supersedesReviewId :: "string option"

fun contract_targets :: "observation_contract \<Rightarrow> (string \<times> utext) list" where
  "contract_targets (Contract2 c) = map (\<lambda>t. (t2_targetId t, t2_label t)) (c2_targets c)"
| "contract_targets (Contract3 c) = map (\<lambda>t. (t3_targetId t, t3_label t)) (c3_targets c)"

fun contract_comparisons :: "observation_contract \<Rightarrow> comparison list" where
  "contract_comparisons (Contract2 c) = c2_comparisons c"
| "contract_comparisons (Contract3 c) = c3_comparisons c"

section \<open>Coverage\<close>

datatype coverage_readiness = COVERAGE_CONFLICT | COVERAGE_READY | COVERAGE_PARTIAL | COVERAGE_MISSING

record target_coverage =
  tc_targetId :: string
  tc_label :: utext
  tc_readiness :: coverage_readiness
  tc_evaluation :: evaluation
  tc_bindingIds :: "string list"
  tc_reasons :: "string list"

definition last_opt :: "'a list \<Rightarrow> 'a option" where
  "last_opt xs = (if xs = [] then None else Some (last xs))"

definition head_opt :: "'a list \<Rightarrow> 'a option" where
  "head_opt xs = (case xs of [] \<Rightarrow> None | x # _ \<Rightarrow> Some x)"

definition conflicting :: "observation_binding list \<Rightarrow> bool" where
  "conflicting ready \<longleftrightarrow> list_ex (\<lambda>a. list_ex (\<lambda>b. bd_entityKey a = bd_entityKey b
     \<and> bd_phase a = bd_phase b \<and> bd_evaluation a \<noteq> bd_evaluation b) ready) ready"

definition cited_bindings :: "observation_binding list \<Rightarrow> observation_binding list \<Rightarrow> string list" where
  "cited_bindings facts ready = js_uniq (filter (\<lambda>i. i \<noteq> []) (map bd_id
     (List.map_filter id [head_opt ready, last_opt ready]
      @ take 2 (filter (\<lambda>b. bd_evaluation b = MISMATCHED) ready)
      @ List.map_filter id [last_opt facts])))"

definition target_cover :: "observation_binding list \<Rightarrow> string \<times> utext \<Rightarrow> target_coverage" where
  "target_cover bindings target =
     (let facts = filter (\<lambda>b. bd_targetId b = fst target) bindings; ready = filter bd_ready facts in
      \<lparr>tc_targetId = fst target, tc_label = snd target,
       tc_readiness = (if conflicting ready then COVERAGE_CONFLICT
         else if ready \<noteq> [] then COVERAGE_READY else if facts \<noteq> [] then COVERAGE_PARTIAL else COVERAGE_MISSING),
       tc_evaluation = (if conflicting ready then UNKNOWN
         else case last_opt ready of None \<Rightarrow> UNKNOWN | Some b \<Rightarrow> bd_evaluation b),
       tc_bindingIds = cited_bindings facts ready,
       tc_reasons = js_uniq (case last_opt facts of None \<Rightarrow> [] | Some b \<Rightarrow> bd_reasons b)\<rparr>)"

definition observationCoverage :: "observation_contract \<Rightarrow> observation_binding list \<Rightarrow> target_coverage list" where
  "observationCoverage contract bindings = map (target_cover bindings) (contract_targets contract)"

section \<open>The verdict of a criterion\<close>

datatype criterion_error =
    BINDING_NOT_AVAILABLE | COMPARISON_NOT_REVIEWED | COUNTEREXAMPLE_REQUIRED
  | BINDING_CONFLICT string | TARGET_NOT_CONFIRMED string
  | COMPARISON_REVIEW_CONFLICT string | COMPARISON_UNREVIEWED string | COMPARISON_BINDING_REQUIRED string

record criterion_input =
  ci_contract :: observation_contract
  ci_contractDigest :: string
  ci_criterionId :: string
  ci_status :: string
  ci_bindingIds :: "string list"
  ci_comparisonReviewIds :: "string list"
  ci_bindings :: "observation_binding list"
  ci_reviews :: "comparison_review list"

definition own_bindings :: "criterion_input \<Rightarrow> observation_binding list" where
  "own_bindings ci = filter (\<lambda>b. bd_criterionId b = ci_criterionId ci
     \<and> bd_contractDigest b = ci_contractDigest ci) (ci_bindings ci)"

definition selected_bindings :: "criterion_input \<Rightarrow> observation_binding list" where
  "selected_bindings ci = filter (\<lambda>b. bd_id b \<in> set (ci_bindingIds ci)) (own_bindings ci)"

definition superseded :: "comparison_review list \<Rightarrow> string list" where
  "superseded reviews = List.map_filter
     (\<lambda>r. if truthy (rw_supersedesReviewId r) then rw_supersedesReviewId r else None) reviews"

definition active_reviews :: "criterion_input \<Rightarrow> comparison_review list" where
  "active_reviews ci = filter (\<lambda>r. rw_criterionId r = ci_criterionId ci
     \<and> rw_contractDigest r = ci_contractDigest ci \<and> rw_id r \<notin> set (superseded (ci_reviews ci)))
     (ci_reviews ci)"

definition cited_reviews :: "criterion_input \<Rightarrow> comparison_review list" where
  "cited_reviews ci = filter (\<lambda>r. rw_id r \<in> set (ci_comparisonReviewIds ci)) (active_reviews ci)"

definition confirms :: "criterion_input \<Rightarrow> string \<Rightarrow> evaluation \<Rightarrow> bool" where
  "confirms ci targetId e = list_ex (\<lambda>b. bd_targetId b = targetId \<and> bd_ready b \<and> bd_evaluation b = e)
     (selected_bindings ci)"

fun target_errors :: "criterion_input \<Rightarrow> target_coverage list \<Rightarrow> string list \<Rightarrow> criterion_error option" where
  "target_errors ci coverage [] = None"
| "target_errors ci coverage (i # is) =
     (if map_option tc_readiness (List.find (\<lambda>c. tc_targetId c = i) coverage) = Some COVERAGE_CONFLICT
      then Some (BINDING_CONFLICT i)
      else if \<not> confirms ci i MATCHED then Some (TARGET_NOT_CONFIRMED i)
      else target_errors ci coverage is)"

definition comparison_error :: "criterion_input \<Rightarrow> string \<Rightarrow> criterion_error option" where
  "comparison_error ci i =
     (let matching = filter (\<lambda>r. rw_comparisonId r = i) (cited_reviews ci) in
      if list_ex (\<lambda>a. rw_comparisonId a = i \<and> list_ex (\<lambda>b. rw_comparisonId b = rw_comparisonId a
            \<and> rw_verdict a \<noteq> rw_verdict b) (active_reviews ci)) (active_reviews ci)
      then Some (COMPARISON_REVIEW_CONFLICT i)
      else if matching = [] \<or> list_ex (\<lambda>r. rw_verdict r \<noteq> EQUIVALENT) matching
      then Some (COMPARISON_UNREVIEWED i)
      else if list_ex (\<lambda>r. list_ex (\<lambda>b. b \<notin> bd_id ` set (selected_bindings ci)) (rw_bindingIds r)) matching
      then Some (COMPARISON_BINDING_REQUIRED i) else None)"

fun comparison_errors :: "criterion_input \<Rightarrow> string list \<Rightarrow> criterion_error option" where
  "comparison_errors ci [] = None"
| "comparison_errors ci (i # is) =
     (case comparison_error ci i of Some e \<Rightarrow> Some e | None \<Rightarrow> comparison_errors ci is)"

definition boundCriterionError :: "criterion_input \<Rightarrow> criterion_error option" where
  "boundCriterionError ci =
     (if list_ex (\<lambda>i. i \<notin> bd_id ` set (selected_bindings ci)) (ci_bindingIds ci)
      then Some BINDING_NOT_AVAILABLE
      else if list_ex (\<lambda>i. i \<notin> rw_id ` set (cited_reviews ci)) (ci_comparisonReviewIds ci)
      then Some COMPARISON_NOT_REVIEWED
      else if ci_status ci = ''INCONCLUSIVE'' then None
      else if ci_status ci = ''FAILED''
      then (if list_ex (\<lambda>b. bd_ready b \<and> bd_evaluation b = MISMATCHED) (selected_bindings ci)
               \<or> list_ex (\<lambda>r. rw_verdict r = DIFFERENT) (cited_reviews ci)
            then None else Some COUNTEREXAMPLE_REQUIRED)
      else (case target_errors ci (observationCoverage (ci_contract ci) (own_bindings ci))
                   (map fst (contract_targets (ci_contract ci))) of
              Some e \<Rightarrow> Some e
            | None \<Rightarrow> comparison_errors ci (map cm_comparisonId (contract_comparisons (ci_contract ci)))))"

section \<open>The declarative reading\<close>

text \<open>Two ready bindings of a target that disagree about one object in one phase.\<close>

definition disputed :: "criterion_input \<Rightarrow> string \<Rightarrow> bool" where
  "disputed ci i \<longleftrightarrow> (\<exists>a b. {a, b} \<subseteq> {x \<in> set (own_bindings ci). bd_targetId x = i \<and> bd_ready x}
     \<and> bd_entityKey a = bd_entityKey b \<and> bd_phase a = bd_phase b \<and> bd_evaluation a \<noteq> bd_evaluation b)"

definition cited_for :: "criterion_input \<Rightarrow> string \<Rightarrow> comparison_review set" where
  "cited_for ci i = {r \<in> set (cited_reviews ci). rw_comparisonId r = i}"

definition compared :: "criterion_input \<Rightarrow> string \<Rightarrow> bool" where
  "compared ci i \<longleftrightarrow> cited_for ci i \<noteq> {}
     \<and> (\<forall>r \<in> set (active_reviews ci). rw_comparisonId r = i \<longrightarrow> rw_verdict r = EQUIVALENT)
     \<and> (\<forall>r \<in> cited_for ci i. set (rw_bindingIds r) \<subseteq> bd_id ` set (selected_bindings ci))"

definition pass_checked :: "criterion_input \<Rightarrow> bool" where
  "pass_checked ci \<longleftrightarrow>
     (\<forall>i \<in> fst ` set (contract_targets (ci_contract ci)). \<not> disputed ci i \<and> confirms ci i MATCHED)
     \<and> (\<forall>i \<in> cm_comparisonId ` set (contract_comparisons (ci_contract ci)). compared ci i)"

definition failure_checked :: "criterion_input \<Rightarrow> bool" where
  "failure_checked ci \<longleftrightarrow> (\<exists>b \<in> set (selected_bindings ci). bd_ready b \<and> bd_evaluation b = MISMATCHED)
     \<or> (\<exists>r \<in> set (cited_reviews ci). rw_verdict r = DIFFERENT)"

lemma conflicting_disputed:
  "conflicting (filter bd_ready (filter (\<lambda>b. bd_targetId b = i) (own_bindings ci))) \<longleftrightarrow> disputed ci i"
  unfolding conflicting_def disputed_def list_ex_iff by auto

lemma target_cover_simps:
  "tc_targetId (target_cover bs t) = fst t"
  "tc_readiness (target_cover bs t) = COVERAGE_CONFLICT
    \<longleftrightarrow> conflicting (filter bd_ready (filter (\<lambda>b. bd_targetId b = fst t) bs))"
  by (simp_all add: target_cover_def Let_def)

lemma find_coverage:
  "i \<in> fst ` set ts \<Longrightarrow> \<exists>t. fst t = i
    \<and> List.find (\<lambda>c. tc_targetId c = i) (map (target_cover bs) ts) = Some (target_cover bs t)"
  by (induction ts) (auto simp: target_cover_simps)

lemma conflict_covered:
  assumes "i \<in> fst ` set (contract_targets (ci_contract ci))"
  shows "map_option tc_readiness (List.find (\<lambda>c. tc_targetId c = i)
      (observationCoverage (ci_contract ci) (own_bindings ci))) = Some COVERAGE_CONFLICT \<longleftrightarrow> disputed ci i"
proof -
  obtain t where t: "fst t = i" "List.find (\<lambda>c. tc_targetId c = i)
      (map (target_cover (own_bindings ci)) (contract_targets (ci_contract ci)))
      = Some (target_cover (own_bindings ci) t)"
    using find_coverage [OF assms] by blast
  show ?thesis
    unfolding observationCoverage_def t(2) option.map option.inject target_cover_simps t(1)
    by (rule conflicting_disputed)
qed

lemma target_errors_None:
  "target_errors ci coverage is = None \<longleftrightarrow> (\<forall>i \<in> set is.
     map_option tc_readiness (List.find (\<lambda>c. tc_targetId c = i) coverage) \<noteq> Some COVERAGE_CONFLICT
     \<and> confirms ci i MATCHED)"
  by (induction "is") auto

lemma comparison_errors_None:
  "comparison_errors ci is = None \<longleftrightarrow> (\<forall>i \<in> set is. comparison_error ci i = None)"
  by (induction "is") (auto split: option.splits)

lemma cited_subset: "set (cited_reviews ci) \<subseteq> set (active_reviews ci)"
  by (auto simp: cited_reviews_def)

definition reviews_agree :: "criterion_input \<Rightarrow> string \<Rightarrow> bool" where
  "reviews_agree ci i \<longleftrightarrow> (\<forall>a \<in> set (active_reviews ci). \<forall>b \<in> set (active_reviews ci).
     rw_comparisonId a = i \<longrightarrow> rw_comparisonId b = i \<longrightarrow> rw_verdict a = rw_verdict b)"

lemma comparison_error_parts:
  "list_ex (\<lambda>a. rw_comparisonId a = i \<and> list_ex (\<lambda>b. rw_comparisonId b = rw_comparisonId a
      \<and> rw_verdict a \<noteq> rw_verdict b) rs) rs \<longleftrightarrow>
    \<not> (\<forall>a \<in> set rs. \<forall>b \<in> set rs. rw_comparisonId a = i \<longrightarrow> rw_comparisonId b = i \<longrightarrow> rw_verdict a = rw_verdict b)"
  unfolding list_ex_iff by metis

lemma comparison_error_iff:
  "comparison_error ci i = None \<longleftrightarrow> reviews_agree ci i \<and> cited_for ci i \<noteq> {}
     \<and> (\<forall>r \<in> cited_for ci i. rw_verdict r = EQUIVALENT)
     \<and> (\<forall>r \<in> cited_for ci i. set (rw_bindingIds r) \<subseteq> bd_id ` set (selected_bindings ci))"
proof -
  have c: "set (filter (\<lambda>r. rw_comparisonId r = i) (cited_reviews ci)) = cited_for ci i"
    by (auto simp: cited_for_def)
  have e: "filter (\<lambda>r. rw_comparisonId r = i) (cited_reviews ci) = [] \<longleftrightarrow> cited_for ci i = {}"
    by (auto simp: cited_for_def filter_empty_conv)
  have outside: "(\<exists>r \<in> R. \<exists>b \<in> set (rw_bindingIds r). b \<notin> X) \<longleftrightarrow> \<not> (\<forall>r \<in> R. set (rw_bindingIds r) \<subseteq> X)"
    for R :: "comparison_review set" and X
    by blast
  have parts: "(if A then Some u else if B then Some v else if C then Some w else None) = None
      \<longleftrightarrow> \<not> A \<and> \<not> B \<and> \<not> C" for A B C and u v w :: criterion_error
    by simp
  show ?thesis
    unfolding comparison_error_def Let_def comparison_error_parts reviews_agree_def parts e list_ex_iff c outside
    by simp
qed

lemma cited_for_active: "r \<in> cited_for ci i \<Longrightarrow> r \<in> set (active_reviews ci) \<and> rw_comparisonId r = i"
  using cited_subset by (auto simp: cited_for_def)

lemma comparison_error_None: "comparison_error ci i = None \<longleftrightarrow> compared ci i"
proof -
  have "(\<forall>r \<in> set (active_reviews ci). rw_comparisonId r = i \<longrightarrow> rw_verdict r = EQUIVALENT)
    \<longleftrightarrow> reviews_agree ci i \<and> (\<forall>r \<in> cited_for ci i. rw_verdict r = EQUIVALENT)"
    if some: "cited_for ci i \<noteq> {}"
  proof -
    obtain r where r: "r \<in> cited_for ci i" using some by blast
    with cited_for_active have "r \<in> set (active_reviews ci)" "rw_comparisonId r = i" by blast+
    with r show ?thesis unfolding reviews_agree_def by (metis cited_for_active)
  qed
  then show ?thesis unfolding comparison_error_iff compared_def by blast
qed

section \<open>The verdict, declaratively\<close>

text \<open>What the verdict cites exists.\<close>

definition cites_checked :: "criterion_input \<Rightarrow> bool" where
  "cites_checked ci \<longleftrightarrow> set (ci_bindingIds ci) \<subseteq> bd_id ` set (own_bindings ci)
     \<and> set (ci_comparisonReviewIds ci) \<subseteq> rw_id ` set (active_reviews ci)"

lemma unavailable_bindings:
  "list_ex (\<lambda>i. i \<notin> bd_id ` set (selected_bindings ci)) (ci_bindingIds ci)
    \<longleftrightarrow> \<not> set (ci_bindingIds ci) \<subseteq> bd_id ` set (own_bindings ci)"
  by (auto simp: list_ex_iff selected_bindings_def)

lemma unavailable_reviews:
  "list_ex (\<lambda>i. i \<notin> rw_id ` set (cited_reviews ci)) (ci_comparisonReviewIds ci)
    \<longleftrightarrow> \<not> set (ci_comparisonReviewIds ci) \<subseteq> rw_id ` set (active_reviews ci)"
  by (auto simp: list_ex_iff cited_reviews_def)

lemma failure_proved:
  "(list_ex (\<lambda>b. bd_ready b \<and> bd_evaluation b = MISMATCHED) (selected_bindings ci)
     \<or> list_ex (\<lambda>r. rw_verdict r = DIFFERENT) (cited_reviews ci)) \<longleftrightarrow> failure_checked ci"
  by (simp add: list_ex_iff failure_checked_def)

lemma accepted_pass:
  assumes "ci_status ci \<noteq> ''INCONCLUSIVE''" and "ci_status ci \<noteq> ''FAILED''"
  shows "boundCriterionError ci = None \<longleftrightarrow> cites_checked ci \<and> pass_checked ci"
proof -
  have t: "target_errors ci (observationCoverage (ci_contract ci) (own_bindings ci))
      (map fst (contract_targets (ci_contract ci))) = None
    \<longleftrightarrow> (\<forall>i \<in> fst ` set (contract_targets (ci_contract ci)). \<not> disputed ci i \<and> confirms ci i MATCHED)"
    unfolding target_errors_None set_map by (intro ball_cong refl) (simp only: conflict_covered)
  have c: "comparison_errors ci (map cm_comparisonId (contract_comparisons (ci_contract ci))) = None
    \<longleftrightarrow> (\<forall>i \<in> cm_comparisonId ` set (contract_comparisons (ci_contract ci)). compared ci i)"
    by (simp add: comparison_errors_None comparison_error_None)
  show ?thesis
    using t c assms unfolding boundCriterionError_def unavailable_bindings unavailable_reviews
    by (cases "target_errors ci (observationCoverage (ci_contract ci) (own_bindings ci))
        (map fst (contract_targets (ci_contract ci)))")
      (auto simp: pass_checked_def cites_checked_def)
qed

section \<open>The verdict on what is saved\<close>

text \<open>The same, without the steps of the code. A binding or a review is the criterion's own if it names the criterion and the
  digest of its contract; a review counts until another supersedes it.\<close>

definition saved_for :: "criterion_input \<Rightarrow> observation_binding \<Rightarrow> bool" where
  "saved_for ci b \<longleftrightarrow> b \<in> set (ci_bindings ci) \<and> bd_criterionId b = ci_criterionId ci \<and> bd_contractDigest b = ci_contractDigest ci"

definition standing :: "criterion_input \<Rightarrow> comparison_review \<Rightarrow> bool" where
  "standing ci r \<longleftrightarrow> r \<in> set (ci_reviews ci) \<and> rw_criterionId r = ci_criterionId ci \<and> rw_contractDigest r = ci_contractDigest ci
     \<and> \<not> (\<exists>s\<in>set (ci_reviews ci). truthy (rw_supersedesReviewId s) \<and> rw_supersedesReviewId s = Some (rw_id r))"

definition cites_binding :: "criterion_input \<Rightarrow> observation_binding \<Rightarrow> bool" where
  "cites_binding ci b \<longleftrightarrow> saved_for ci b \<and> bd_id b \<in> set (ci_bindingIds ci)"

definition cites_review :: "criterion_input \<Rightarrow> comparison_review \<Rightarrow> bool" where
  "cites_review ci r \<longleftrightarrow> standing ci r \<and> rw_id r \<in> set (ci_comparisonReviewIds ci)"

definition cites_available :: "criterion_input \<Rightarrow> bool" where
  "cites_available ci \<longleftrightarrow> (\<forall>i\<in>set (ci_bindingIds ci). \<exists>b. saved_for ci b \<and> bd_id b = i)
     \<and> (\<forall>i\<in>set (ci_comparisonReviewIds ci). \<exists>r. standing ci r \<and> rw_id r = i)"

definition proves_failure :: "criterion_input \<Rightarrow> bool" where
  "proves_failure ci \<longleftrightarrow> (\<exists>b. cites_binding ci b \<and> bd_ready b \<and> bd_evaluation b = MISMATCHED)
     \<or> (\<exists>r. cites_review ci r \<and> rw_verdict r = DIFFERENT)"

text \<open>A target is proved by a cited ready match, and no two ready bindings of it disagree about one object in one phase.\<close>

definition target_proved :: "criterion_input \<Rightarrow> string \<Rightarrow> bool" where
  "target_proved ci i \<longleftrightarrow> (\<exists>b. cites_binding ci b \<and> bd_targetId b = i \<and> bd_ready b \<and> bd_evaluation b = MATCHED)
     \<and> (\<forall>a b. saved_for ci a \<and> saved_for ci b \<and> bd_targetId a = i \<and> bd_targetId b = i \<and> bd_ready a \<and> bd_ready b
          \<and> bd_entityKey a = bd_entityKey b \<and> bd_phase a = bd_phase b \<longrightarrow> bd_evaluation a = bd_evaluation b)"

text \<open>A comparison is proved by a cited review; none that stands says anything but EQUIVALENT, and those cited reviewed cited bindings.\<close>

definition comparison_proved :: "criterion_input \<Rightarrow> string \<Rightarrow> bool" where
  "comparison_proved ci i \<longleftrightarrow> (\<exists>r. cites_review ci r \<and> rw_comparisonId r = i)
     \<and> (\<forall>r. standing ci r \<and> rw_comparisonId r = i \<longrightarrow> rw_verdict r = EQUIVALENT)
     \<and> (\<forall>r. cites_review ci r \<and> rw_comparisonId r = i \<longrightarrow> (\<forall>k\<in>set (rw_bindingIds r). \<exists>b. cites_binding ci b \<and> bd_id b = k))"

definition proves_pass :: "criterion_input \<Rightarrow> bool" where
  "proves_pass ci \<longleftrightarrow> (\<forall>t\<in>set (contract_targets (ci_contract ci)). target_proved ci (fst t))
     \<and> (\<forall>c\<in>set (contract_comparisons (ci_contract ci)). comparison_proved ci (cm_comparisonId c))"

lemma saved_sets:
  "b \<in> set (own_bindings ci) \<longleftrightarrow> saved_for ci b" "b \<in> set (selected_bindings ci) \<longleftrightarrow> cites_binding ci b"
  by (auto simp: own_bindings_def saved_for_def selected_bindings_def cites_binding_def)

lemma superseded_iff: "i \<in> set (superseded rs) \<longleftrightarrow> (\<exists>s\<in>set rs. truthy (rw_supersedesReviewId s) \<and> rw_supersedesReviewId s = Some i)"
  by (induction rs) (auto simp: superseded_def List.map_filter_def)

lemma standing_sets:
  "r \<in> set (active_reviews ci) \<longleftrightarrow> standing ci r" "r \<in> set (cited_reviews ci) \<longleftrightarrow> cites_review ci r"
  by (auto simp: active_reviews_def standing_def superseded_iff cited_reviews_def cites_review_def)

lemma checked_on_saved:
  "cites_checked ci \<longleftrightarrow> cites_available ci" "failure_checked ci \<longleftrightarrow> proves_failure ci"
  by (auto simp: cites_checked_def cites_available_def failure_checked_def proves_failure_def saved_sets standing_sets
      subset_iff image_iff Bex_def)

lemma target_on_saved: "\<not> disputed ci i \<and> confirms ci i MATCHED \<longleftrightarrow> target_proved ci i"
proof -
  have "\<not> disputed ci i \<longleftrightarrow> (\<forall>a b. saved_for ci a \<and> saved_for ci b \<and> bd_targetId a = i \<and> bd_targetId b = i \<and> bd_ready a \<and> bd_ready b
      \<and> bd_entityKey a = bd_entityKey b \<and> bd_phase a = bd_phase b \<longrightarrow> bd_evaluation a = bd_evaluation b)"
    by (auto simp: disputed_def saved_sets)
  moreover have "confirms ci i MATCHED \<longleftrightarrow> (\<exists>b. cites_binding ci b \<and> bd_targetId b = i \<and> bd_ready b \<and> bd_evaluation b = MATCHED)"
    by (auto simp: confirms_def list_ex_iff saved_sets Bex_def)
  ultimately show ?thesis by (simp only: target_proved_def conj_commute)
qed

lemma comparison_on_saved: "compared ci i \<longleftrightarrow> comparison_proved ci i"
proof -
  have "cited_for ci i = {r. cites_review ci r \<and> rw_comparisonId r = i}" by (auto simp: cited_for_def standing_sets)
  moreover have "set xs \<subseteq> bd_id ` set (selected_bindings ci) \<longleftrightarrow> (\<forall>k\<in>set xs. \<exists>b. cites_binding ci b \<and> bd_id b = k)" for xs
    by (force simp: saved_sets)
  ultimately show ?thesis by (simp add: compared_def comparison_proved_def standing_sets Ball_def Bex_def imp_conjL)
qed

lemma pass_on_saved: "pass_checked ci \<longleftrightarrow> proves_pass ci"
  by (simp add: pass_checked_def proves_pass_def target_on_saved comparison_on_saved)

text \<open>C36: A criterion's verdict is accepted exactly when what is saved proves it. The cited bindings are saved
  for this criterion and contract and the cited reviews stand; a failure cites a ready mismatch
  or a review that found a difference; a pass has, for every target, a cited ready match and no
  two ready bindings that disagree about one object in one phase, and for every comparison a cited
  review, no standing review that is not EQUIVALENT, and only cited bindings under review.\<close>

theorem criterion_accepted_iff:
  "boundCriterionError ci = None \<longleftrightarrow> cites_available ci
     \<and> (if ci_status ci = ''INCONCLUSIVE'' then True
        else if ci_status ci = ''FAILED'' then proves_failure ci else proves_pass ci)"
proof (cases "ci_status ci \<in> {''INCONCLUSIVE'', ''FAILED''}")
  case True
  then show ?thesis
    unfolding boundCriterionError_def unavailable_bindings unavailable_reviews failure_proved checked_on_saved [symmetric] cites_checked_def
    by auto
next
  case False
  then show ?thesis by (simp add: accepted_pass checked_on_saved pass_on_saved)
qed

section \<open>The evidence store\<close>

record evidence_criterion =
  ec_id :: string
  ec_observationContract :: "observation_contract option"

record binding_failure =
  bf_stateKey :: string
  bf_count :: nat

record evidence_diagnostic =
  dg_criterionId :: string
  dg_targetId :: string
  dg_observationId :: string
  dg_error :: string

record evidence_store =
  es_criteria :: "evidence_criterion list"
  es_runId :: string
  es_attemptId :: string
  es_bindingFailures :: "(string \<times> binding_failure) list"
  es_bindings :: "(string \<times> observation_binding) list"
  es_reviews :: "(string \<times> comparison_review) list"
  es_delivered :: "string set"
  es_diagnostics :: "(string \<times> evidence_diagnostic) list"
  es_imageRead :: "(string \<times> string list) option"
  es_currentImageDelivered :: bool

definition new_evidence_store :: "evidence_criterion list \<Rightarrow> string \<Rightarrow> string \<Rightarrow> evidence_store" where
  "new_evidence_store criteria runId attemptId =
     \<lparr>es_criteria = criteria, es_runId = runId, es_attemptId = attemptId, es_bindingFailures = [],
      es_bindings = [], es_reviews = [], es_delivered = {}, es_diagnostics = [], es_imageRead = None,
      es_currentImageDelivered = False\<rparr>"

definition evidence_enabled :: "evidence_store \<Rightarrow> bool" where
  "evidence_enabled st = list_ex (\<lambda>c. ec_observationContract c \<noteq> None) (es_criteria st)"

definition find_criterion :: "evidence_store \<Rightarrow> string \<Rightarrow> evidence_criterion option" where
  "find_criterion st i = List.find (\<lambda>c. ec_id c = i) (es_criteria st)"

text \<open>The contract of the first criterion with an id, if it has one.\<close>

definition contract_of :: "evidence_store \<Rightarrow> string \<Rightarrow> observation_contract option" where
  "contract_of st i = (case find_criterion st i of None \<Rightarrow> None | Some c \<Rightarrow> ec_observationContract c)"

section \<open>Binding results\<close>

record binding_reply =
  br_bindings :: "observation_binding list"
  br_notRetryable :: bool

record binding_verdict =
  bv_accepted :: bool
  bv_exhausted :: bool
  bv_attempts :: nat

fun target_phases :: "observation_contract \<Rightarrow> (string \<times> observation_phase) list" where
  "target_phases (Contract2 c) = map (\<lambda>t. (t2_targetId t, t2_phase t)) (c2_targets c)"
| "target_phases (Contract3 c) = map (\<lambda>t. (t3_targetId t, t3_phase t)) (c3_targets c)"

text \<open>The reply's flags; the Chinese advice it adds for the agent is not modelled.\<close>

definition bindingResult ::
  "evidence_store \<Rightarrow> string \<Rightarrow> string \<Rightarrow> binding_reply \<Rightarrow> evidence_store \<times> binding_verdict" where
  "bindingResult st targetId stateKey reply =
     (let bindings = filter (\<lambda>b. bd_targetId b = targetId) (br_bindings reply) in
      if list_ex bd_ready bindings
      then (st\<lparr>es_bindingFailures := jmap_delete (es_bindingFailures st) targetId\<rparr>,
            \<lparr>bv_accepted = True, bv_exhausted = False, bv_attempts = 0\<rparr>)
      else let previous = jmap_get (es_bindingFailures st) targetId;
               count = (case previous of
                   None \<Rightarrow> 1 | Some p \<Rightarrow> if bf_stateKey p = stateKey then bf_count p + 1 else 1);
               invalidStateType = list_ex (\<lambda>b. list_ex (\<lambda>r. starts_with r ''STATE_TYPE_MISMATCH'') (bd_reasons b))
                 bindings in
        (st\<lparr>es_bindingFailures :=
              jmap_set (es_bindingFailures st) targetId \<lparr>bf_stateKey = stateKey, bf_count = count\<rparr>\<rparr>,
         \<lparr>bv_accepted = False, bv_exhausted = (br_notRetryable reply \<or> invalidStateType \<or> 3 \<le> count),
          bv_attempts = count\<rparr>))"

section \<open>Taking in evidence\<close>

record evidence_reply =
  er_bindings :: "observation_binding list"
  er_coverage :: "evidence_diagnostic option list"
  er_reviews :: "comparison_review option list"

definition ingest_diagnostic :: "evidence_store \<Rightarrow> evidence_diagnostic option \<Rightarrow> evidence_store" where
  "ingest_diagnostic st item = (case item of None \<Rightarrow> st | Some d \<Rightarrow>
     if list_ex (\<lambda>c. ec_id c = dg_criterionId d
          \<and> (case ec_observationContract c of None \<Rightarrow> False
             | Some k \<Rightarrow> dg_targetId d \<in> fst ` set (contract_targets k))) (es_criteria st)
     then st\<lparr>es_diagnostics := jmap_set (es_diagnostics st) (dg_criterionId d @ '':'' @ dg_targetId d) d\<rparr> else st)"

definition ingest_binding ::
  "(observation_contract \<Rightarrow> string) \<Rightarrow> evidence_store \<Rightarrow> observation_binding \<Rightarrow> evidence_store" where
  "ingest_binding digest st b =
     (if bd_runId b = es_runId st \<and> bd_attemptId b = es_attemptId st
         \<and> (case contract_of st (bd_criterionId b) of None \<Rightarrow> False
            | Some k \<Rightarrow> bd_contractDigest b = digest k)
      then st\<lparr>es_bindings := jmap_set (es_bindings st) (bd_id b) b\<rparr> else st)"

definition ingest_review ::
  "(observation_contract \<Rightarrow> string) \<Rightarrow> evidence_store \<Rightarrow> comparison_review option \<Rightarrow> evidence_store" where
  "ingest_review digest st item = (case item of None \<Rightarrow> st | Some r \<Rightarrow>
     if (case contract_of st (rw_criterionId r) of None \<Rightarrow> False
         | Some k \<Rightarrow> rw_contractDigest r = digest k)
     then st\<lparr>es_reviews := jmap_set (es_reviews st) (rw_id r) r\<rparr> else st)"

text \<open>\<open>None\<close> is an item its schema rejects; a reply without bindings of the right shape is ignored
  before this.\<close>

definition ingest :: "(observation_contract \<Rightarrow> string) \<Rightarrow> evidence_store \<Rightarrow> evidence_reply \<Rightarrow> evidence_store" where
  "ingest digest st reply =
     foldl (ingest_review digest)
       (foldl (ingest_binding digest) (foldl ingest_diagnostic st (take 200 (er_coverage reply)))
          (er_bindings reply))
       (er_reviews reply)"

definition record_review :: "evidence_store \<Rightarrow> comparison_review \<Rightarrow> evidence_store" where
  "record_review st r = st\<lparr>es_reviews := jmap_set (es_reviews st) (rw_id r) r\<rparr>"

text \<open>\<open>ids\<close>: the bindings the coverage of the criteria cites.\<close>

definition evidence_ids :: "evidence_store \<Rightarrow> string list" where
  "evidence_ids st = js_uniq (concat (map (\<lambda>c. case ec_observationContract c of
       None \<Rightarrow> []
     | Some k \<Rightarrow> concat (map tc_bindingIds (observationCoverage k
         (filter (\<lambda>b. bd_criterionId b = ec_id c) (map snd (es_bindings st))))))
     (es_criteria st)))"

definition reviewIds :: "evidence_store \<Rightarrow> string list" where
  "reviewIds st = map fst (es_reviews st)"

section \<open>Images and delivery\<close>

definition imageResponse :: "evidence_store \<Rightarrow> string \<Rightarrow> string list \<Rightarrow> evidence_store" where
  "imageResponse st deliveryId images =
     st\<lparr>es_imageRead := Some (deliveryId, images), es_currentImageDelivered := False\<rparr>"

definition clearImages :: "evidence_store \<Rightarrow> evidence_store" where
  "clearImages st = st\<lparr>es_imageRead := None\<rparr>"

definition canUseCurrentImage :: "evidence_store \<Rightarrow> bool" where
  "canUseCurrentImage st \<longleftrightarrow> \<not> evidence_enabled st \<or> es_currentImageDelivered st"

definition hasDelivered :: "evidence_store \<Rightarrow> string list \<Rightarrow> bool" where
  "hasDelivered st ids = list_all (\<lambda>i. i \<in> es_delivered st \<and> jmap_get (es_bindings st) i \<noteq> None) ids"

text \<open>The saved bindings a value contains, looking into JSON texts, thirty levels deep at most.
  \<open>same_binding v b\<close> says that \<open>v\<close> is a binding with the content of \<open>b\<close>.\<close>

fun found_here :: "(js \<Rightarrow> observation_binding \<Rightarrow> bool) \<Rightarrow> evidence_store \<Rightarrow> js \<Rightarrow> string list" where
  "found_here same_binding st v = (case js_prop v ''id'' of
     JStr i \<Rightarrow> (case jmap_get (es_bindings st) i of
         None \<Rightarrow> [] | Some b \<Rightarrow> if same_binding v b then [i] else [])
   | _ \<Rightarrow> [])"

fun js_children :: "js \<Rightarrow> js list" where
  "js_children (JArr vs) = vs"
| "js_children (JObj fs) = map snd fs"
| "js_children _ = []"

definition is_json_text :: "string \<Rightarrow> bool" where
  "is_json_text s \<longleftrightarrow> starts_with s ''{'' \<or> starts_with s ''[''"

fun inspect ::
  "(string \<Rightarrow> js option) \<Rightarrow> (js \<Rightarrow> observation_binding \<Rightarrow> bool) \<Rightarrow> evidence_store \<Rightarrow> nat \<Rightarrow> js \<Rightarrow> string list" where
  "inspect parse same_binding st 0 v = []"
| "inspect parse same_binding st (Suc n) v =
     (case v of
        JStr s \<Rightarrow> if is_json_text s
          then (case parse s of None \<Rightarrow> [] | Some w \<Rightarrow> inspect parse same_binding st n w) else []
      | _ \<Rightarrow> found_here same_binding st v
          @ concat (map (inspect parse same_binding st n) (js_children v)))"

text \<open>\<open>has_image d\<close> says that the request's text contains the image data \<open>d\<close>.\<close>

definition deliveredRequest ::
  "(string \<Rightarrow> js option) \<Rightarrow> (js \<Rightarrow> observation_binding \<Rightarrow> bool) \<Rightarrow> evidence_store \<Rightarrow> js
   \<Rightarrow> (string \<Rightarrow> bool) \<Rightarrow> string option \<Rightarrow> evidence_store \<times> string list \<times> string option" where
  "deliveredRequest parse same_binding st messages has_image currentImage =
     (let found = js_uniq (inspect parse same_binding st 31 messages);
          imageDelivery = (case es_imageRead st of None \<Rightarrow> None
            | Some (i, images) \<Rightarrow> if list_all has_image images then Some i else None) in
      (st\<lparr>es_delivered := es_delivered st \<union> set found,
          es_currentImageDelivered := (case currentImage of None \<Rightarrow> False
            | Some d \<Rightarrow> imageDelivery = None \<and> has_image d)\<rparr>,
       found, imageDelivery))"

section \<open>Submitting a verdict\<close>

definition submissionRefs :: "evidence_store \<Rightarrow> string \<Rightarrow> (string list \<times> string list) option" where
  "submissionRefs st criterionId = (case contract_of st criterionId of
     Some (Contract3 _) \<Rightarrow>
       let bindingIds = map bd_id (filter (\<lambda>b. bd_criterionId b = criterionId \<and> bd_ready b
             \<and> bd_id b \<in> es_delivered st) (map snd (es_bindings st)));
           reviews = map snd (es_reviews st) in
       Some (bindingIds, map rw_id (filter (\<lambda>r. rw_criterionId r = criterionId
             \<and> rw_id r \<notin> set (superseded reviews) \<and> set (rw_bindingIds r) \<subseteq> set bindingIds) reviews))
   | _ \<Rightarrow> None)"

datatype resolve_error = BINDING_NOT_DELIVERED | Criterion_Error criterion_error

definition resolve_input ::
  "(observation_contract \<Rightarrow> string) \<Rightarrow> evidence_store \<Rightarrow> observation_contract \<Rightarrow> string \<Rightarrow> string
   \<Rightarrow> string list \<Rightarrow> string list \<Rightarrow> criterion_input" where
  "resolve_input digest st contract criterionId status bindingIds comparisonReviewIds =
     \<lparr>ci_contract = contract, ci_contractDigest = digest contract, ci_criterionId = criterionId,
      ci_status = status, ci_bindingIds = bindingIds, ci_comparisonReviewIds = comparisonReviewIds,
      ci_bindings = map snd (es_bindings st), ci_reviews = map snd (es_reviews st)\<rparr>"

definition saved_refs :: "evidence_store \<Rightarrow> string \<Rightarrow> string list" where
  "saved_refs st i = (case jmap_get (es_bindings st) i of None \<Rightarrow> [] | Some b \<Rightarrow> bd_evidenceRefs b)"

definition resolve ::
  "(observation_contract \<Rightarrow> string) \<Rightarrow> evidence_store \<Rightarrow> string \<Rightarrow> string \<Rightarrow> string list \<Rightarrow> string list
   \<Rightarrow> resolve_error + string list" where
  "resolve digest st criterionId status bindingIds comparisonReviewIds =
     (case contract_of st criterionId of
        None \<Rightarrow> Inr []
      | Some contract \<Rightarrow>
          if \<not> hasDelivered st bindingIds then Inl BINDING_NOT_DELIVERED
          else (case boundCriterionError
                       (resolve_input digest st contract criterionId status bindingIds comparisonReviewIds) of
              Some e \<Rightarrow> Inl (Criterion_Error e)
            | None \<Rightarrow> Inr (js_uniq (concat (map (saved_refs st) bindingIds)))))"

section \<open>The store as a machine\<close>

datatype evidence_event =
    Binding_Result string string binding_reply
  | Ingest evidence_reply
  | Review comparison_review
  | Image_Response string "string list"
  | Clear_Images
  | Delivered js "string \<Rightarrow> bool" "string option"

fun evidence_step ::
  "(observation_contract \<Rightarrow> string) \<Rightarrow> (string \<Rightarrow> js option) \<Rightarrow> (js \<Rightarrow> observation_binding \<Rightarrow> bool)
   \<Rightarrow> evidence_store \<Rightarrow> evidence_event \<Rightarrow> evidence_store" where
  "evidence_step digest parse same_binding st (Binding_Result i k r) = fst (bindingResult st i k r)"
| "evidence_step digest parse same_binding st (Ingest r) = ingest digest st r"
| "evidence_step digest parse same_binding st (Review r) = record_review st r"
| "evidence_step digest parse same_binding st (Image_Response i ds) = imageResponse st i ds"
| "evidence_step digest parse same_binding st Clear_Images = clearImages st"
| "evidence_step digest parse same_binding st (Delivered m img cur) =
     fst (deliveredRequest parse same_binding st m img cur)"

text \<open>Every saved binding is under its own id and belongs to this run and attempt and to the
  contract of its criterion.\<close>

definition binding_kept ::
  "(observation_contract \<Rightarrow> string) \<Rightarrow> evidence_store \<Rightarrow> string \<times> observation_binding \<Rightarrow> bool" where
  "binding_kept digest st e \<longleftrightarrow> bd_id (snd e) = fst e \<and> bd_runId (snd e) = es_runId st
     \<and> bd_attemptId (snd e) = es_attemptId st
     \<and> (case contract_of st (bd_criterionId (snd e)) of None \<Rightarrow> False
        | Some k \<Rightarrow> bd_contractDigest (snd e) = digest k)"

definition store_inv :: "(observation_contract \<Rightarrow> string) \<Rightarrow> evidence_store \<Rightarrow> evidence_store \<Rightarrow> bool" where
  "store_inv digest st0 st \<longleftrightarrow>
     es_criteria st = es_criteria st0 \<and> es_runId st = es_runId st0 \<and> es_attemptId st = es_attemptId st0
     \<and> distinct (map fst (es_bindings st)) \<and> list_all (binding_kept digest st0) (es_bindings st)"

lemma contract_of_cong: "es_criteria st = es_criteria st0 \<Longrightarrow> contract_of st = contract_of st0"
  by (simp add: fun_eq_iff contract_of_def find_criterion_def)

lemma store_inv_same:
  "store_inv digest st0 st \<Longrightarrow> es_criteria st' = es_criteria st \<Longrightarrow> es_runId st' = es_runId st
    \<Longrightarrow> es_attemptId st' = es_attemptId st \<Longrightarrow> es_bindings st' = es_bindings st
    \<Longrightarrow> store_inv digest st0 st'"
  by (simp add: store_inv_def)

lemma ingest_binding_inv:
  assumes "store_inv digest st0 st"
  shows "store_inv digest st0 (ingest_binding digest st b)"
proof (cases "ingest_binding digest st b = st")
  case True
  with assms show ?thesis by simp
next
  case False
  then have own: "bd_runId b = es_runId st" "bd_attemptId b = es_attemptId st"
      "case contract_of st (bd_criterionId b) of None \<Rightarrow> False | Some k \<Rightarrow> bd_contractDigest b = digest k"
    and eq: "ingest_binding digest st b = st\<lparr>es_bindings := jmap_set (es_bindings st) (bd_id b) b\<rparr>"
    by (simp_all add: ingest_binding_def split: if_splits)
  from assms have "es_criteria st = es_criteria st0" by (simp add: store_inv_def)
  then have "contract_of st = contract_of st0" by (rule contract_of_cong)
  with own assms have "binding_kept digest st0 (bd_id b, b)"
    unfolding binding_kept_def fst_conv snd_conv by (simp add: store_inv_def)
  with assms show ?thesis
    by (simp add: eq store_inv_def jmap_set_def distinct_update list_all_update)
qed

lemma ingest_diagnostic_frame:
  "es_criteria (ingest_diagnostic st d) = es_criteria st" "es_runId (ingest_diagnostic st d) = es_runId st"
  "es_attemptId (ingest_diagnostic st d) = es_attemptId st" "es_bindings (ingest_diagnostic st d) = es_bindings st"
  "es_delivered (ingest_diagnostic st d) = es_delivered st"
  by (simp_all add: ingest_diagnostic_def split: option.splits)

lemma ingest_review_frame:
  "es_criteria (ingest_review dg st r) = es_criteria st" "es_runId (ingest_review dg st r) = es_runId st"
  "es_attemptId (ingest_review dg st r) = es_attemptId st" "es_bindings (ingest_review dg st r) = es_bindings st"
  "es_delivered (ingest_review dg st r) = es_delivered st"
  by (simp_all add: ingest_review_def split: option.splits)

lemma ingest_inv:
  assumes "store_inv digest st0 st"
  shows "store_inv digest st0 (ingest digest st r)"
proof -
  have d: "store_inv digest st0 s \<Longrightarrow> store_inv digest st0 (ingest_diagnostic s x)" for s x
    by (erule store_inv_same) (simp_all add: ingest_diagnostic_frame)
  have w: "store_inv digest st0 s \<Longrightarrow> store_inv digest st0 (ingest_review digest s x)" for s x
    by (erule store_inv_same) (simp_all add: ingest_review_frame)
  show ?thesis
    unfolding ingest_def using assms
    by (intro foldl_keeps [where P = "store_inv digest st0"] ingest_binding_inv d w)
qed

lemma step_frame:
  assumes "\<And>r. e \<noteq> Ingest r"
  shows "es_criteria (evidence_step digest parse same_binding st e) = es_criteria st"
    and "es_runId (evidence_step digest parse same_binding st e) = es_runId st"
    and "es_attemptId (evidence_step digest parse same_binding st e) = es_attemptId st"
    and "es_bindings (evidence_step digest parse same_binding st e) = es_bindings st"
  using assms
  by (cases e; simp add: bindingResult_def record_review_def imageResponse_def clearImages_def
      deliveredRequest_def Let_def)+

lemma evidence_step_inv:
  assumes "store_inv digest st0 st"
  shows "store_inv digest st0 (evidence_step digest parse same_binding st e)"
proof (cases "\<exists>r. e = Ingest r")
  case True
  with assms show ?thesis by (auto intro: ingest_inv)
next
  case False
  with assms show ?thesis by (intro store_inv_same [OF assms] step_frame) auto
qed

interpretation evidence: machine "evidence_step digest parse same_binding" "store_inv digest st0"
  for digest parse same_binding st0
  by unfold_locales (rule evidence_step_inv)

lemma new_store_inv: "store_inv digest (new_evidence_store cs r a) (new_evidence_store cs r a)"
  by (simp add: store_inv_def new_evidence_store_def)

lemma run_store_inv:
  "store_inv digest (new_evidence_store cs r a)
     (foldl (evidence_step digest parse same_binding) (new_evidence_store cs r a) es)"
  by (rule evidence.run_inv [OF new_store_inv])

section \<open>What a resolved verdict rests on\<close>

lemma ingest_delivered: "es_delivered (ingest digest st r) = es_delivered st"
proof -
  have b: "es_delivered (ingest_binding digest s x) = es_delivered s" for s x
    by (simp add: ingest_binding_def)
  have f: "es_delivered (foldl f s xs) = es_delivered s" if "\<And>s x. es_delivered (f s x) = es_delivered s" for f s and xs :: "'a list"
    using that by (induction xs arbitrary: s) auto
  show ?thesis
    unfolding ingest_def by (simp add: f b ingest_diagnostic_frame ingest_review_frame)
qed

lemma step_delivered:
  assumes "x \<in> es_delivered (evidence_step digest parse same_binding st e)"
  shows "x \<in> es_delivered st \<or> (\<exists>m img cur. e = Delivered m img cur \<and> x \<in> set (inspect parse same_binding st 31 m))"
  using assms
  by (cases e; simp add: bindingResult_def record_review_def imageResponse_def clearImages_def
      deliveredRequest_def Let_def ingest_delivered split: if_splits)

text \<open>A delivered binding was found in the messages of some request that the run delivered.\<close>

definition delivered_in_run ::
  "(observation_contract \<Rightarrow> string) \<Rightarrow> (string \<Rightarrow> js option) \<Rightarrow> (js \<Rightarrow> observation_binding \<Rightarrow> bool)
   \<Rightarrow> evidence_store \<Rightarrow> evidence_event list \<Rightarrow> string \<Rightarrow> bool" where
  "delivered_in_run digest parse same_binding st0 es i \<longleftrightarrow>
     (\<exists>before messages img cur rest. es = before @ Delivered messages img cur # rest
        \<and> i \<in> set (inspect parse same_binding (foldl (evidence_step digest parse same_binding) st0 before) 31 messages))"

lemma delivered_history:
  assumes "es_delivered st0 = {}"
    and "i \<in> es_delivered (foldl (evidence_step digest parse same_binding) st0 es)"
  shows "delivered_in_run digest parse same_binding st0 es i"
  using assms(2)
proof (induction es rule: rev_induct)
  case Nil
  with assms(1) show ?case by simp
next
  case (snoc e es)
  let ?st = "foldl (evidence_step digest parse same_binding) st0 es"
  from snoc.prems have "i \<in> es_delivered (evidence_step digest parse same_binding ?st e)" by simp
  from step_delivered [OF this] show ?case
  proof
    assume "i \<in> es_delivered ?st"
    then have "delivered_in_run digest parse same_binding st0 es i" by (rule snoc.IH)
    then obtain before m img cur rest where
        "es @ [e] = before @ Delivered m img cur # (rest @ [e])"
        "i \<in> set (inspect parse same_binding (foldl (evidence_step digest parse same_binding) st0 before) 31 m)"
      unfolding delivered_in_run_def by auto
    then show ?thesis unfolding delivered_in_run_def by blast
  next
    assume "\<exists>m img cur. e = Delivered m img cur \<and> i \<in> set (inspect parse same_binding ?st 31 m)"
    then show ?thesis unfolding delivered_in_run_def by blast
  qed
qed

lemma found_here_saved:
  "i \<in> set (found_here same_binding st v) \<Longrightarrow> jmap_get (es_bindings st) i \<noteq> None"
  by (cases "js_prop v ''id''"; cases "jmap_get (es_bindings st) i") (auto split: option.splits if_splits)

declare found_here.simps [simp del]

lemma inspect_unfold:
  "\<nexists>s. v = JStr s \<Longrightarrow> inspect parse same_binding st (Suc n) v = found_here same_binding st v
     @ concat (map (inspect parse same_binding st n) (js_children v))"
  by (cases v) simp_all

lemma inspect_text:
  "i \<in> set (inspect parse same_binding st (Suc n) (JStr s))
     \<Longrightarrow> \<exists>w. i \<in> set (inspect parse same_binding st n w)"
  by (cases "is_json_text s"; cases "parse s"; simp; blast)

lemma inspect_saved: "i \<in> set (inspect parse same_binding st n v) \<Longrightarrow> jmap_get (es_bindings st) i \<noteq> None"
proof (induction n arbitrary: v)
  case 0
  then show ?case by simp
next
  case (Suc n)
  have "i \<in> set (found_here same_binding st v) \<or> (\<exists>w. i \<in> set (inspect parse same_binding st n w))"
  proof (cases "\<exists>s. v = JStr s")
    case True
    then show ?thesis using Suc.prems inspect_text by blast
  next
    case False
    with Suc.prems show ?thesis unfolding inspect_unfold [OF False] by auto
  qed
  then show ?case using Suc.IH found_here_saved by blast
qed

lemma saved_lookup:
  "distinct (map fst m) \<Longrightarrow> (i, b) \<in> set m \<Longrightarrow> jmap_get m i = Some b"
  by (simp add: jmap_get_def)

lemma resolve_accepted:
  assumes "resolve digest st criterionId status bindingIds rids = Inr cited"
    and "contract_of st criterionId = Some contract"
  shows "hasDelivered st bindingIds"
    and "boundCriterionError (resolve_input digest st contract criterionId status bindingIds rids) = None"
    and "set cited = (\<Union>i \<in> set bindingIds. set (saved_refs st i))"
  using assms by (simp_all add: resolve_def split: if_splits option.splits) auto

definition proving_binding ::
  "(observation_contract \<Rightarrow> string) \<Rightarrow> evidence_store \<Rightarrow> string \<Rightarrow> observation_contract \<Rightarrow> string
   \<Rightarrow> observation_binding \<Rightarrow> bool" where
  "proving_binding digest st criterionId contract targetId b \<longleftrightarrow>
     bd_targetId b = targetId \<and> bd_ready b \<and> bd_evaluation b = MATCHED \<and> bd_criterionId b = criterionId
     \<and> bd_contractDigest b = digest contract \<and> bd_runId b = es_runId st \<and> bd_attemptId b = es_attemptId st"

lemma kept_binding:
  assumes "store_inv digest st0 st" and "(i, x) \<in> set (es_bindings st)"
  shows "bd_id x = i" and "bd_runId x = es_runId st" and "bd_attemptId x = es_attemptId st"
    and "contract_of st0 (bd_criterionId x) = Some k \<Longrightarrow> bd_contractDigest x = digest k"
  using assms by (auto simp: store_inv_def list_all_iff binding_kept_def)

lemma own_saved:
  assumes inv: "store_inv digest st0 st" and k: "contract_of st0 c = Some k"
  shows "x \<in> set (own_bindings (resolve_input digest st k c status bs rids))
    \<longleftrightarrow> jmap_get (es_bindings st) (bd_id x) = Some x \<and> bd_criterionId x = c"
    (is "?own \<longleftrightarrow> ?saved")
proof
  assume ?own
  then obtain i where i: "(i, x) \<in> set (es_bindings st)" and c: "bd_criterionId x = c"
    by (auto simp: own_bindings_def resolve_input_def)
  from inv have "distinct (map fst (es_bindings st))" by (simp add: store_inv_def)
  from saved_lookup [OF this i] kept_binding(1) [OF inv i] c show ?saved by simp
next
  assume s: ?saved
  then have m: "(bd_id x, x) \<in> set (es_bindings st)" by (simp add: jmap_get_def map_of_SomeD)
  then have "x \<in> snd ` set (es_bindings st)" by (rule rev_image_eqI) simp
  moreover have "bd_contractDigest x = digest k"
    using kept_binding(4) [OF inv m] k s by simp
  ultimately show ?own using s by (simp add: own_bindings_def resolve_input_def)
qed

lemma pass_target:
  assumes "pass_checked ci" and "i \<in> fst ` set (contract_targets (ci_contract ci))"
  obtains b where "b \<in> set (own_bindings ci)" "bd_id b \<in> set (ci_bindingIds ci)" "bd_targetId b = i"
    "bd_ready b" "bd_evaluation b = MATCHED" "\<not> disputed ci i"
  using assms by (auto simp: pass_checked_def confirms_def selected_bindings_def list_ex_iff)

lemma undisputed:
  assumes "\<not> disputed ci i" and "a \<in> set (own_bindings ci)" "bd_targetId a = i" "bd_ready a"
    and "b \<in> set (own_bindings ci)" "bd_targetId b = i" "bd_ready b"
    and "bd_entityKey a = bd_entityKey b" "bd_phase a = bd_phase b"
  shows "bd_evaluation a = bd_evaluation b"
proof (rule ccontr)
  assume "bd_evaluation a \<noteq> bd_evaluation b"
  moreover have "{a, b} \<subseteq> {x \<in> set (own_bindings ci). bd_targetId x = i \<and> bd_ready x}"
    using assms by simp
  ultimately show False using assms unfolding disputed_def by blast
qed

text \<open>C37: A pass that the evidence store resolves rests on facts. After any sequence of the store's
  operations, if a pass of a criterion is resolved with some binding ids, then every target of the
  criterion's contract has one of these bindings, saved, ready and matched, of this run, attempt,
  criterion and contract, which a delivered request of the run contained and which no saved ready
  binding of the same object and phase contradicts; the evidence of the result is that of the
  cited bindings.\<close>

theorem resolve_passed_sound:
  fixes digest parse same_binding criteria runId attemptId es
  defines "st0 \<equiv> new_evidence_store criteria runId attemptId"
  defines "st \<equiv> foldl (evidence_step digest parse same_binding) st0 es"
  assumes ok: "resolve digest st criterionId ''PASSED'' bindingIds rids = Inr cited"
    and contract: "contract_of st0 criterionId = Some contract"
    and target: "targetId \<in> fst ` set (contract_targets contract)"
  shows "\<exists>b. jmap_get (es_bindings st) (bd_id b) = Some b \<and> bd_id b \<in> set bindingIds
      \<and> proving_binding digest st criterionId contract targetId b
      \<and> delivered_in_run digest parse same_binding st0 es (bd_id b)
      \<and> set (bd_evidenceRefs b) \<subseteq> set cited
      \<and> (\<forall>c. jmap_get (es_bindings st) (bd_id c) = Some c \<and> bd_targetId c = targetId \<and> bd_ready c
          \<and> bd_criterionId c = criterionId \<and> bd_entityKey c = bd_entityKey b \<and> bd_phase c = bd_phase b
          \<longrightarrow> bd_evaluation c = MATCHED)"
proof -
  let ?ci = "resolve_input digest st contract criterionId ''PASSED'' bindingIds rids"
  have inv: "store_inv digest st0 st" unfolding st_def st0_def by (rule run_store_inv)
  then have crit: "es_criteria st = es_criteria st0" and dist: "distinct (map fst (es_bindings st))"
    by (simp_all add: store_inv_def)
  from contract have k: "contract_of st criterionId = Some contract"
    unfolding contract_of_cong [OF crit] .
  note acc = resolve_accepted [OF ok k]
  have pass: "pass_checked ?ci"
    using acc(2) accepted_pass [of ?ci] by (simp add: resolve_input_def)
  have own: "x \<in> set (own_bindings ?ci) \<longleftrightarrow> jmap_get (es_bindings st) (bd_id x) = Some x
      \<and> bd_criterionId x = criterionId" for x
    by (rule own_saved [OF inv contract])
  obtain b where b: "b \<in> set (own_bindings ?ci)" and id: "bd_id b \<in> set bindingIds"
      and tm: "bd_targetId b = targetId" "bd_ready b" "bd_evaluation b = MATCHED"
      and nd: "\<not> disputed ?ci targetId"
    using pass_target [OF pass, of targetId] target by (auto simp: resolve_input_def)
  from b own have saved: "jmap_get (es_bindings st) (bd_id b) = Some b" "bd_criterionId b = criterionId" by auto
  then have m: "(bd_id b, b) \<in> set (es_bindings st)" by (simp add: jmap_get_def map_of_SomeD)
  have proving: "proving_binding digest st criterionId contract targetId b"
    using kept_binding(2,3) [OF inv m] kept_binding(4) [OF inv m, of contract] contract tm saved(2)
    by (simp add: proving_binding_def)
  have "bd_id b \<in> es_delivered st" using acc(1) id by (simp add: hasDelivered_def list_all_iff)
  then have deliv: "delivered_in_run digest parse same_binding st0 es (bd_id b)"
    unfolding st_def by (intro delivered_history) (simp_all add: st0_def new_evidence_store_def)
  have "saved_refs st (bd_id b) = bd_evidenceRefs b" by (simp add: saved_refs_def saved(1))
  then have "set (bd_evidenceRefs b) \<subseteq> set cited" using acc(3) id by auto
  moreover have "bd_evaluation c = MATCHED"
    if "jmap_get (es_bindings st) (bd_id c) = Some c \<and> bd_targetId c = targetId \<and> bd_ready c
      \<and> bd_criterionId c = criterionId \<and> bd_entityKey c = bd_entityKey b \<and> bd_phase c = bd_phase b" for c
    using undisputed [OF nd _ _ _ b tm(1,2), of c] own [of c] that tm(3) by simp
  ultimately show ?thesis using saved(1) id proving deliv by blast
qed

section \<open>A run\<close>

definition sample_contract :: observation_contract where
  "sample_contract = Contract3 \<lparr>c3_targets = [\<lparr>t3_targetId = ''t'', t3_label = [66], t3_identity = [66],
     t3_matchMode = None, t3_phase = CURRENT, t3_assertions = [], t3_requiredEvidenceKinds = [DOM]\<rparr>],
     c3_comparisons = []\<rparr>"

definition saved_sample :: observation_binding where
  "saved_sample = \<lparr>bd_id = ''b'', bd_runId = ''run'', bd_attemptId = ''try'', bd_criterionId = ''c'',
     bd_targetId = ''t'', bd_contractDigest = ''d'', bd_entityKey = [66], bd_phase = CURRENT,
     bd_evaluation = MATCHED, bd_ready = True, bd_evidenceRefs = [''e1''], bd_reasons = []\<rparr>"

definition sample_run :: "evidence_event list" where
  "sample_run = [Ingest \<lparr>er_bindings = [saved_sample], er_coverage = [], er_reviews = []\<rparr>,
     Delivered (JObj [(''id'', JStr ''b'')]) (\<lambda>_. False) None]"

definition sample_evidence :: "evidence_store" where
  "sample_evidence = new_evidence_store [\<lparr>ec_id = ''c'', ec_observationContract = Some sample_contract\<rparr>] ''run'' ''try''"

abbreviation sample_digest :: "observation_contract \<Rightarrow> string" where
  "sample_digest \<equiv> \<lambda>_. ''d''"

abbreviation sample_parse :: "string \<Rightarrow> js option" where
  "sample_parse \<equiv> \<lambda>_. None"

abbreviation sample_same :: "js \<Rightarrow> observation_binding \<Rightarrow> bool" where
  "sample_same \<equiv> \<lambda>v b. js_prop v ''id'' = JStr (bd_id b)"

lemma sample_run_state:
  "foldl (evidence_step sample_digest sample_parse sample_same) sample_evidence sample_run
     = sample_evidence\<lparr>es_bindings := [(''b'', saved_sample)], es_delivered := {''b''}\<rparr>"
proof -
  have i: "ingest sample_digest sample_evidence \<lparr>er_bindings = [saved_sample], er_coverage = [], er_reviews = []\<rparr>
      = sample_evidence\<lparr>es_bindings := [(''b'', saved_sample)]\<rparr>"
    by (simp add: ingest_def ingest_binding_def contract_of_def find_criterion_def sample_evidence_def
        new_evidence_store_def saved_sample_def jmap_set_def)
  have "inspect sample_parse sample_same (sample_evidence\<lparr>es_bindings := [(''b'', saved_sample)]\<rparr>) 31
      (JObj [(''id'', JStr ''b'')]) = [''b'']"
    by (simp add: numeral_eq_Suc found_here.simps jmap_get_def saved_sample_def is_json_text_def starts_with_def)
  then show ?thesis
    by (simp add: sample_run_def i deliveredRequest_def Let_def js_uniq_def)
      (simp add: sample_evidence_def new_evidence_store_def)
qed

lemma resolve_passed_sound_witness:
  "\<exists>b. jmap_get [(''b'', saved_sample)] (bd_id b) = Some b
     \<and> delivered_in_run sample_digest sample_parse sample_same sample_evidence sample_run (bd_id b)
     \<and> bd_evaluation b = MATCHED"
proof -
  let ?st = "foldl (evidence_step sample_digest sample_parse sample_same) sample_evidence sample_run"
  let ?final = "sample_evidence\<lparr>es_bindings := [(''b'', saved_sample)], es_delivered := {''b''}\<rparr>"
  have k: "contract_of sample_evidence ''c'' = Some sample_contract" "contract_of ?final ''c'' = Some sample_contract"
    by (simp_all add: contract_of_def find_criterion_def sample_evidence_def new_evidence_store_def)
  have "boundCriterionError (resolve_input sample_digest ?final sample_contract ''c'' ''PASSED'' [''b''] []) = None"
    by (simp add: accepted_pass cites_checked_def pass_checked_def disputed_def confirms_def selected_bindings_def
        own_bindings_def resolve_input_def sample_contract_def saved_sample_def)
  then have "resolve sample_digest ?final ''c'' ''PASSED'' [''b''] [] = Inr [''e1'']"
    unfolding resolve_def k(2)
    by (simp add: hasDelivered_def jmap_get_def saved_refs_def js_uniq_def) (simp add: saved_sample_def)
  then have ok: "resolve sample_digest ?st ''c'' ''PASSED'' [''b''] [] = Inr [''e1'']"
    unfolding sample_run_state .
  have t: "''t'' \<in> fst ` set (contract_targets sample_contract)" by (simp add: sample_contract_def)
  show ?thesis
    using resolve_passed_sound [OF ok [unfolded sample_evidence_def] k(1) [unfolded sample_evidence_def] t]
    unfolding sample_evidence_def [symmetric] sample_run_state proving_binding_def
    by auto
qed

end
