(* ===== verification/CleanupEvidence.thy ===== *)
theory CleanupEvidence
  imports UText
begin

text \<open>
  The proof that an execution undid what it wrote: \<open>completedCleanupEvidence\<close> of
  \<open>apps/api/src/runtime/session-cleanup-outcome.ts\<close>, with the matching of writes, reads and records
  of \<open>packages/agent-runtime-protocol/src/execution-cleanup.ts\<close>.

  Parameters: \<open>parse_url\<close> is \<open>new URL\<close>, \<open>json\<close> is \<open>JSON.parse\<close> and \<open>show\<close> is \<open>String\<close> on
  JSON values. An execution state is one its schema accepted; of it only the fields that are read
  here are kept.
\<close>

section \<open>The execution state\<close>

datatype record_ownership = CREATED_THIS_RUN | EXISTING | UNCONFIRMED
datatype cleanup_status = CLEANUP_PENDING | CLEANUP_COMPLETED | CLEANUP_BLOCKED | CLEANUP_RETAINED
datatype cleanup_resolution = DELETED | RESTORED
datatype write_method = POST | PUT | PATCH | DELETE
datatype confirmation_source = NETWORK_SOURCE | UI_SOURCE
datatype execution_phase = PREFLIGHT | EXECUTING | VERIFYING | CLEANUP_PHASE

record record_cleanup =
  rc_status :: cleanup_status
  rc_resolution :: "cleanup_resolution option"

record execution_record =
  er_id :: string
  er_type :: "string option"
  er_recordRef :: "string option"
  er_resourceUrl :: "string option"
  er_resourceName :: "string option"
  er_creationWriteKey :: "string option"
  er_account :: "string option"
  er_accountAliases :: "string list"
  er_ownership :: record_ownership
  er_evidenceRefs :: "string list"
  er_cleanup :: "record_cleanup option"

record write_receipt =
  wr_key :: string
  wr_sequence :: "int option"
  wr_method :: write_method
  wr_url :: string
  wr_status :: "int option"
  wr_confirmed :: bool
  wr_request :: "string option"
  wr_response :: "string option"
  wr_evidenceRefs :: "string list"

record read_receipt =
  re_key :: string
  re_url :: string
  re_sequence :: int
  re_complete :: bool
  re_identitiesComplete :: bool
  re_recordKeys :: "string list"
  re_evidenceRefs :: "string list"

record cleanup_confirmation =
  cc_recordRef :: string
  cc_writeKey :: string
  cc_readKey :: string
  cc_source :: "confirmation_source option"
  cc_evidenceRefs :: "string list"

text \<open>Of the records awaiting their receipt and of the cleanup review, the evidence they cite.\<close>

record execution_state =
  xs_phase :: execution_phase
  xs_writeHistoryTruncated :: bool
  xs_requestOrderTruncated :: bool
  xs_pendingRecords :: "string list list"
  xs_cleanupReview :: "string list option"
  xs_records :: "execution_record list"
  xs_writes :: "write_receipt list"
  xs_readReceipts :: "read_receipt list"
  xs_cleanupConfirmations :: "cleanup_confirmation list"

section \<open>Resources and identities\<close>

record url =
  url_origin :: string
  url_pathname :: string
  url_params :: "(string \<times> string) list"

type_synonym url_parser = "string \<Rightarrow> url option"
type_synonym json_parser = "string \<Rightarrow> js option"

definition digit :: "char \<Rightarrow> bool" where
  "digit c \<longleftrightarrow> 48 \<le> (of_char c :: nat) \<and> (of_char c :: nat) \<le> 57"

definition hex_digit :: "char \<Rightarrow> bool" where
  "hex_digit c \<longleftrightarrow> digit c \<or> (97 \<le> (of_char c :: nat) \<and> (of_char c :: nat) \<le> 102)
     \<or> (65 \<le> (of_char c :: nat) \<and> (of_char c :: nat) \<le> 70)"

text \<open>A run of digits, or hexadecimal groups of 8, 4, 4, 4 and 12 digits.\<close>

definition id_like :: "string \<Rightarrow> bool" where
  "id_like s \<longleftrightarrow> s \<noteq> [] \<and> list_all digit s
     \<or> map length (split_on (CHR ''-'') s) = [8, 4, 4, 4, 12]
       \<and> list_all (list_all hex_digit) (split_on (CHR ''-'') s)"

definition drop_suffix :: "string \<Rightarrow> string \<Rightarrow> string" where
  "drop_suffix p s = (if ends_with p s then take (length p - length s) p else p)"

definition drop_list :: "string \<Rightarrow> string" where
  "drop_list p = (if ends_with p ''/list/'' then drop_suffix p ''/list/'' else drop_suffix p ''/list'')"

definition last_segment :: "string \<Rightarrow> string" where
  "last_segment p = rev (takeWhile (\<lambda>c. c \<noteq> CHR ''/'') (rev p))"

definition drop_id :: "string \<Rightarrow> string" where
  "drop_id p = (if CHR ''/'' \<in> set p \<and> id_like (last_segment p)
     then drop_suffix p (CHR ''/'' # last_segment p) else p)"

definition executionResourceUrl :: "url_parser \<Rightarrow> string \<Rightarrow> string" where
  "executionResourceUrl parse_url s = (case parse_url s of
     None \<Rightarrow> s
   | Some u \<Rightarrow> url_origin u @ drop_suffix (drop_id (drop_list (url_pathname u))) ''/'')"

definition executionRecordKey :: "url_parser \<Rightarrow> 'r execution_record_scheme \<Rightarrow> string" where
  "executionRecordKey parse_url r =
     (case er_resourceUrl r of None \<Rightarrow> [] | Some u \<Rightarrow> if u = [] then [] else executionResourceUrl parse_url u)
     @ '':'' @ coalesce (er_type r) [] @ '':'' @ er_id r"

definition params_of :: "url \<Rightarrow> string \<Rightarrow> string list" where
  "params_of u k = map snd (filter (\<lambda>p. fst p = k) (url_params u))"

definition path_id :: "url \<Rightarrow> string list" where
  "path_id u = (case filter (\<lambda>s. s \<noteq> []) (split_on (CHR ''/'') (url_pathname u)) of
     [] \<Rightarrow> [] | segs \<Rightarrow> if id_like (last segs) then [last segs] else [])"

record requested_id =
  rq_id :: "string option"
  rq_conflict :: bool

definition requestedRecordId :: "url_parser \<Rightarrow> (js \<Rightarrow> string) \<Rightarrow> string \<Rightarrow> js \<Rightarrow> requested_id" where
  "requestedRecordId parse_url show s request = (case parse_url s of
     None \<Rightarrow> \<lparr>rq_id = None, rq_conflict = True\<rparr>
   | Some u \<Rightarrow>
       let own = js_prop request ''id'';
           ids = (if js_nullish own then [] else [show own]) @ params_of u ''id'' @ path_id u in
       \<lparr>rq_id = (case ids of [] \<Rightarrow> None | i # _ \<Rightarrow> Some i),
        rq_conflict = (1 < card (set ids) \<or> 1 < length (params_of u ''id''))\<rparr>)"

fun js_id_string :: "(js \<Rightarrow> string) \<Rightarrow> js \<Rightarrow> string option" where
  "js_id_string show (JStr s) = Some s"
| "js_id_string show (JNum n) = Some (show (JNum n))"
| "js_id_string show _ = None"

definition responseRecordId :: "(js \<Rightarrow> string) \<Rightarrow> js \<Rightarrow> string option" where
  "responseRecordId show response =
     (let body = js_obj response in
      js_id_string show (js_coalesce (js_prop body ''id'')
        (js_coalesce (js_prop (js_obj (js_prop body ''data'')) ''id'')
          (js_prop (js_obj (js_prop body ''result'')) ''id''))))"

section \<open>Matching\<close>

definition read_query_fields :: "string list" where
  "read_query_fields = [''account'', ''type'', ''page'', ''pageSize'', ''pageNum'', ''pageIndex'',
     ''page_size'', ''page_num'', ''page_index'', ''limit'', ''offset'']"

definition account_of :: "'r execution_record_scheme \<Rightarrow> string \<Rightarrow> bool" where
  "account_of r a \<longleftrightarrow> er_account r = Some a \<or> a \<in> set (er_accountAliases r)"

text \<open>A parameter given with this value, or not at all.\<close>

definition param_allows :: "url \<Rightarrow> string \<Rightarrow> (string \<Rightarrow> bool) \<Rightarrow> bool" where
  "param_allows u k P \<longleftrightarrow> (case params_of u k of [] \<Rightarrow> True | v # _ \<Rightarrow> P v)"

definition completeReadCoversRecord ::
  "url_parser \<Rightarrow> (js \<Rightarrow> string) \<Rightarrow> 'x read_receipt_scheme \<Rightarrow> 'r execution_record_scheme \<Rightarrow> bool" where
  "completeReadCoversRecord parse_url show read r \<longleftrightarrow>
     re_complete read \<and> re_identitiesComplete read
     \<and> (case er_resourceUrl r of None \<Rightarrow> False | Some base \<Rightarrow> base \<noteq> []
         \<and> executionResourceUrl parse_url (re_url read) = executionResourceUrl parse_url base)
     \<and> (let identity = requestedRecordId parse_url show (re_url read) (JObj []) in
        \<not> rq_conflict identity \<and> (rq_id identity = None \<or> rq_id identity = Some (er_id r)))
     \<and> (case parse_url (re_url read) of None \<Rightarrow> False | Some u \<Rightarrow>
          list_all (\<lambda>k. length (params_of u k) \<le> 1) [''id'', ''type'', ''account'']
          \<and> param_allows u ''id'' (\<lambda>v. v = er_id r)
          \<and> param_allows u ''name'' (\<lambda>v. length (params_of u ''name'') = 1 \<and> er_resourceName r = Some v)
          \<and> param_allows u ''type'' (\<lambda>v. er_type r = Some v)
          \<and> param_allows u ''account'' (account_of r)
          \<and> list_all (\<lambda>(k, _). k = ''id'' \<or> (k = ''name'' \<and> truthy (er_resourceName r))
              \<or> k \<in> set read_query_fields) (url_params u))"

definition parsed_text :: "json_parser \<Rightarrow> string option \<Rightarrow> js" where
  "parsed_text json s = (case s of None \<Rightarrow> JUndefined | Some t \<Rightarrow> coalesce (json t) JUndefined)"

definition opt_js :: "string option \<Rightarrow> js" where
  "opt_js s = (case s of None \<Rightarrow> JUndefined | Some t \<Rightarrow> JStr t)"

definition request_account_ok :: "(js \<Rightarrow> string) \<Rightarrow> js \<Rightarrow> 'r execution_record_scheme \<Rightarrow> bool" where
  "request_account_ok show request r \<longleftrightarrow>
     js_prop request ''account'' = JUndefined \<or> account_of r (show (js_prop request ''account''))"

definition writeMatchesRecord ::
  "url_parser \<Rightarrow> json_parser \<Rightarrow> (js \<Rightarrow> string) \<Rightarrow> 'w write_receipt_scheme \<Rightarrow> 'r execution_record_scheme \<Rightarrow> bool" where
  "writeMatchesRecord parse_url json show w r \<longleftrightarrow>
     (case er_resourceUrl r of None \<Rightarrow> False | Some base \<Rightarrow> base \<noteq> []
        \<and> executionResourceUrl parse_url (wr_url w) = executionResourceUrl parse_url base)
     \<and> (let request = js_obj (parsed_text json (wr_request w));
            identity = requestedRecordId parse_url show (wr_url w) request;
            created = responseRecordId show (parsed_text json (wr_response w)) in
        \<not> rq_conflict identity
        \<and> (if wr_method w = POST \<and> created \<noteq> None \<and> created \<noteq> Some (er_id r) then False
           else if wr_method w = POST \<and> truthy (er_creationWriteKey r) then er_creationWriteKey r = Some (wr_key w)
           else case rq_id identity of
               Some i \<Rightarrow> i = er_id r
                 \<and> (js_prop request ''type'' = JUndefined \<or> js_prop request ''type'' = opt_js (er_type r))
                 \<and> request_account_ok show request r
             | None \<Rightarrow> js_prop request ''type'' = opt_js (er_type r)
                 \<and> (case js_prop request ''account'' of JStr a \<Rightarrow> account_of r a | _ \<Rightarrow> False)))"

definition successfulExecutionWrite :: "int option \<Rightarrow> js \<Rightarrow> bool" where
  "successfulExecutionWrite status body \<longleftrightarrow>
     (case status of None \<Rightarrow> False | Some n \<Rightarrow> 200 \<le> n \<and> n < 300)
     \<and> js_prop (js_obj body) ''success'' \<noteq> JBool False
     \<and> js_prop (js_obj body) ''code'' \<in> {JUndefined, JNum 0, JNum 200, JStr ''0'', JStr ''200'', JStr ''OK'', JStr ''SUCCESS''}"

section \<open>The evidence of a completed cleanup\<close>

text \<open>A response that is a JSON object or array.\<close>

fun response_body :: "json_parser \<Rightarrow> string option \<Rightarrow> js option" where
  "response_body json None = None"
| "response_body json (Some s) =
     (if s = [] then None else case json s of
        Some (JObj fs) \<Rightarrow> Some (JObj fs) | Some (JArr vs) \<Rightarrow> Some (JArr vs) | _ \<Rightarrow> None)"

record cleanup_chain =
  ch_confirmation :: cleanup_confirmation
  ch_creation :: write_receipt
  ch_deletion :: write_receipt
  ch_read :: read_receipt

definition record_deleted :: "execution_record \<Rightarrow> bool" where
  "record_deleted r \<longleftrightarrow> er_ownership r = CREATED_THIS_RUN \<and> truthy (er_recordRef r) \<and> truthy (er_resourceUrl r)
     \<and> truthy (er_resourceName r) \<and> truthy (er_creationWriteKey r)
     \<and> (case er_cleanup r of None \<Rightarrow> False
        | Some c \<Rightarrow> rc_status c = CLEANUP_COMPLETED \<and> rc_resolution c = Some DELETED)"

definition find_chain :: "execution_state \<Rightarrow> execution_record \<Rightarrow> cleanup_chain option" where
  "find_chain st r =
     (case List.find (\<lambda>c. er_recordRef r = Some (cc_recordRef c) \<and> cc_source c \<noteq> Some UI_SOURCE)
             (xs_cleanupConfirmations st) of
        None \<Rightarrow> None
      | Some proof_of \<Rightarrow>
          (case (List.find (\<lambda>w. er_creationWriteKey r = Some (wr_key w)) (xs_writes st),
                 List.find (\<lambda>w. wr_key w = cc_writeKey proof_of) (xs_writes st),
                 List.find (\<lambda>x. re_key x = cc_readKey proof_of) (xs_readReceipts st)) of
             (Some c, Some d, Some x) \<Rightarrow>
               Some \<lparr>ch_confirmation = proof_of, ch_creation = c, ch_deletion = d, ch_read = x\<rparr>
           | _ \<Rightarrow> None))"

definition sequence_before :: "int option \<Rightarrow> int option \<Rightarrow> int \<Rightarrow> bool" where
  "sequence_before a b c = (case (a, b) of (Some x, Some y) \<Rightarrow> x < y \<and> y < c | _ \<Rightarrow> False)"

definition write_succeeded :: "json_parser \<Rightarrow> 'w write_receipt_scheme \<Rightarrow> bool" where
  "write_succeeded json w \<longleftrightarrow> wr_confirmed w
     \<and> (case response_body json (wr_response w) of None \<Rightarrow> False
        | Some b \<Rightarrow> successfulExecutionWrite (wr_status w) b)"

definition chain_proves ::
  "url_parser \<Rightarrow> json_parser \<Rightarrow> (js \<Rightarrow> string) \<Rightarrow> execution_state \<Rightarrow> execution_record \<Rightarrow> cleanup_chain \<Rightarrow> bool" where
  "chain_proves parse_url json show st r ch \<longleftrightarrow>
     wr_method (ch_creation ch) = POST \<and> wr_method (ch_deletion ch) = DELETE
     \<and> sequence_before (wr_sequence (ch_creation ch)) (wr_sequence (ch_deletion ch)) (re_sequence (ch_read ch))
     \<and> write_succeeded json (ch_creation ch) \<and> write_succeeded json (ch_deletion ch)
     \<and> writeMatchesRecord parse_url json show (ch_creation ch) r
     \<and> writeMatchesRecord parse_url json show (ch_deletion ch) r
     \<and> completeReadCoversRecord parse_url show (ch_read ch) r
     \<and> executionRecordKey parse_url r \<notin> set (re_recordKeys (ch_read ch))
     \<and> \<not> list_ex (\<lambda>later. re_sequence (ch_read ch) < re_sequence later
          \<and> (executionRecordKey parse_url r \<in> set (re_recordKeys later)
             \<or> completeReadCoversRecord parse_url show later r)) (xs_readReceipts st)"

text \<open>Using up the two writes of a chain: \<open>None\<close> when one was used before or has no evidence.\<close>

definition use_write :: "string list \<times> string list \<Rightarrow> write_receipt \<Rightarrow> (string list \<times> string list) option" where
  "use_write acc w = (if wr_key w \<in> set (fst acc) \<or> wr_evidenceRefs w = [] then None
     else Some (fst acc @ [wr_key w], js_uniq (snd acc @ wr_evidenceRefs w)))"

fun cleanup_loop ::
  "url_parser \<Rightarrow> json_parser \<Rightarrow> (js \<Rightarrow> string) \<Rightarrow> execution_state \<Rightarrow> execution_record list
   \<Rightarrow> string list \<times> string list \<Rightarrow> (string list \<times> string list) option" where
  "cleanup_loop parse_url json show st [] acc = Some acc"
| "cleanup_loop parse_url json show st (r # rs) acc =
     (if \<not> record_deleted r then None
      else case find_chain st r of
          None \<Rightarrow> None
        | Some ch \<Rightarrow>
            if \<not> chain_proves parse_url json show st r ch then None
            else case use_write acc (ch_creation ch) of
                None \<Rightarrow> None
              | Some acc1 \<Rightarrow> (case use_write acc1 (ch_deletion ch) of
                    None \<Rightarrow> None
                  | Some acc2 \<Rightarrow>
                      if re_evidenceRefs (ch_read ch) = [] \<or> cc_evidenceRefs (ch_confirmation ch) = [] then None
                      else cleanup_loop parse_url json show st rs (fst acc2,
                        js_uniq (snd acc2 @ re_evidenceRefs (ch_read ch) @ cc_evidenceRefs (ch_confirmation ch)))))"

definition completedCleanupEvidence ::
  "url_parser \<Rightarrow> json_parser \<Rightarrow> (js \<Rightarrow> string) \<Rightarrow> execution_state option \<Rightarrow> string list" where
  "completedCleanupEvidence parse_url json show value = (case value of
     None \<Rightarrow> []
   | Some st \<Rightarrow>
       if xs_phase st \<noteq> CLEANUP_PHASE \<or> xs_writeHistoryTruncated st \<or> xs_requestOrderTruncated st
          \<or> xs_pendingRecords st \<noteq> [] \<or> xs_cleanupReview st \<noteq> None \<or> xs_records st = []
          \<or> length (xs_writes st) \<noteq> length (xs_records st) * 2
       then []
       else case cleanup_loop parse_url json show st (xs_records st) ([], []) of
           None \<Rightarrow> []
         | Some (used, refs) \<Rightarrow> if length used = length (xs_writes st) then refs else [])"

section \<open>What the evidence proves\<close>

lemma find_SomeD: "List.find P xs = Some x \<Longrightarrow> x \<in> set xs \<and> P x"
  by (induction xs) (auto split: if_splits)

lemma find_chainD:
  assumes "find_chain st r = Some ch"
  shows "ch_creation ch \<in> set (xs_writes st)" and "er_creationWriteKey r = Some (wr_key (ch_creation ch))"
    and "ch_deletion ch \<in> set (xs_writes st)" and "ch_read ch \<in> set (xs_readReceipts st)"
    and "ch_confirmation ch \<in> set (xs_cleanupConfirmations st)"
  using assms by (auto simp: find_chain_def dest!: find_SomeD split: option.splits prod.splits)

text \<open>The writes that the records of a list account for.\<close>

definition accounted ::
  "url_parser \<Rightarrow> json_parser \<Rightarrow> (js \<Rightarrow> string) \<Rightarrow> execution_state \<Rightarrow> execution_record \<Rightarrow> write_receipt set" where
  "accounted parse_url json show st r = {w. \<exists>ch. find_chain st r = Some ch
     \<and> record_deleted r \<and> chain_proves parse_url json show st r ch \<and> (w = ch_creation ch \<or> w = ch_deletion ch)}"

lemma use_write_Some:
  assumes "use_write acc w = Some acc'"
  shows "fst acc' = fst acc @ [wr_key w]" and "wr_key w \<notin> set (fst acc)"
    and "set (snd acc') = set (snd acc) \<union> set (wr_evidenceRefs w)"
  using assms by (auto simp: use_write_def split: if_splits)

lemma cleanup_loop_ConsE:
  assumes "cleanup_loop parse_url json show st (r # rs) acc = Some out"
  obtains ch a1 a2 refs where "record_deleted r" "find_chain st r = Some ch" "chain_proves parse_url json show st r ch"
    "use_write acc (ch_creation ch) = Some a1" "use_write a1 (ch_deletion ch) = Some a2"
    "cleanup_loop parse_url json show st rs (fst a2, refs) = Some out" "set (snd a2) \<subseteq> set refs"
  using assms by (auto split: if_splits option.splits)

lemma cleanup_loop_used:
  assumes "cleanup_loop parse_url json show st rs acc = Some out" and "distinct (fst acc)"
  shows "distinct (fst out) \<and> length (fst out) = length (fst acc) + 2 * length rs
    \<and> set (snd acc) \<subseteq> set (snd out)
    \<and> set (fst out) \<subseteq> set (fst acc) \<union> wr_key ` (\<Union>r \<in> set rs. accounted parse_url json show st r)
    \<and> (\<forall>r \<in> set rs. \<exists>ch. find_chain st r = Some ch \<and> record_deleted r
         \<and> chain_proves parse_url json show st r ch
         \<and> set (wr_evidenceRefs (ch_creation ch)) \<union> set (wr_evidenceRefs (ch_deletion ch)) \<subseteq> set (snd out))"
  using assms
proof (induction rs arbitrary: acc)
  case Nil
  then show ?case by simp
next
  case (Cons r rs)
  from Cons.prems(1) obtain ch a1 a2 refs where
    r: "record_deleted r" "find_chain st r = Some ch" "chain_proves parse_url json show st r ch"
    and u1: "use_write acc (ch_creation ch) = Some a1" and u2: "use_write a1 (ch_deletion ch) = Some a2"
    and rest: "cleanup_loop parse_url json show st rs (fst a2, refs) = Some out" and sub: "set (snd a2) \<subseteq> set refs"
    by (rule cleanup_loop_ConsE)
  note w1 = use_write_Some [OF u1] and w2 = use_write_Some [OF u2]
  have f: "fst a2 = fst acc @ [wr_key (ch_creation ch), wr_key (ch_deletion ch)]"
    by (simp add: w1(1) w2(1))
  have d: "distinct (fst a2)" using Cons.prems(2) w1 w2 by auto
  have here: "{ch_creation ch, ch_deletion ch} \<subseteq> accounted parse_url json show st r"
    using r by (auto simp: accounted_def)
  have refs: "set (snd acc) \<union> set (wr_evidenceRefs (ch_creation ch)) \<union> set (wr_evidenceRefs (ch_deletion ch)) \<subseteq> set refs"
    using w1(3) w2(3) sub by auto
  from Cons.IH [OF rest] d
  have ih: "distinct (fst out)" "length (fst out) = length (fst a2) + 2 * length rs" "set refs \<subseteq> set (snd out)"
    "set (fst out) \<subseteq> set (fst a2) \<union> wr_key ` (\<Union>r \<in> set rs. accounted parse_url json show st r)"
    "\<forall>r \<in> set rs. \<exists>ch. find_chain st r = Some ch \<and> record_deleted r
         \<and> chain_proves parse_url json show st r ch
         \<and> set (wr_evidenceRefs (ch_creation ch)) \<union> set (wr_evidenceRefs (ch_deletion ch)) \<subseteq> set (snd out)"
    by simp_all
  have "set (fst out) \<subseteq> set (fst acc) \<union> wr_key ` (\<Union>r \<in> set (r # rs). accounted parse_url json show st r)"
    using ih(4) here unfolding f by auto
  with ih r refs show ?case unfolding f by (intro conjI) auto
qed

lemma distinct_covers:
  assumes "distinct xs" and "set xs \<subseteq> set ys" and "length xs = length ys"
  shows "distinct ys \<and> set xs = set ys"
proof -
  have "card (set xs) = length ys" using assms(1,3) distinct_card by fastforce
  moreover have "card (set xs) \<le> card (set ys)" using assms(2) by (simp add: card_mono)
  moreover have "card (set ys) \<le> length ys" by (rule card_length)
  ultimately have "card (set ys) = length ys" "card (set xs) = card (set ys)" by simp_all
  then show ?thesis using assms(2) by (simp add: card_distinct card_subset_eq)
qed

text \<open>A record that the run created, removed and then found missing, for good as far as was read.\<close>

definition undone ::
  "url_parser \<Rightarrow> json_parser \<Rightarrow> (js \<Rightarrow> string) \<Rightarrow> execution_state \<Rightarrow> execution_record \<Rightarrow> bool" where
  "undone parse_url json show st r \<longleftrightarrow> er_ownership r = CREATED_THIS_RUN
     \<and> (\<exists>c d x. {c, d} \<subseteq> set (xs_writes st) \<and> x \<in> set (xs_readReceipts st)
          \<and> wr_method c = POST \<and> er_creationWriteKey r = Some (wr_key c) \<and> wr_method d = DELETE
          \<and> write_succeeded json c \<and> write_succeeded json d
          \<and> writeMatchesRecord parse_url json show c r \<and> writeMatchesRecord parse_url json show d r
          \<and> sequence_before (wr_sequence c) (wr_sequence d) (re_sequence x)
          \<and> completeReadCoversRecord parse_url show x r
          \<and> (\<forall>y \<in> set (xs_readReceipts st). y = x \<or> re_sequence x < re_sequence y
              \<longrightarrow> executionRecordKey parse_url r \<notin> set (re_recordKeys y)))"

lemma chain_undone:
  assumes "find_chain st r = Some ch" and "record_deleted r" and "chain_proves parse_url json show st r ch"
  shows "undone parse_url json show st r"
proof -
  have "{ch_creation ch, ch_deletion ch} \<subseteq> set (xs_writes st)" "ch_read ch \<in> set (xs_readReceipts st)"
      "er_creationWriteKey r = Some (wr_key (ch_creation ch))"
    using find_chainD [OF assms(1)] by simp_all
  moreover have "\<forall>y \<in> set (xs_readReceipts st). y = ch_read ch \<or> re_sequence (ch_read ch) < re_sequence y
      \<longrightarrow> executionRecordKey parse_url r \<notin> set (re_recordKeys y)"
    using assms(3) by (auto simp: chain_proves_def list_ex_iff)
  ultimately show ?thesis
    using assms(2,3) unfolding undone_def chain_proves_def record_deleted_def by blast
qed

text \<open>C22: Cleanup evidence is complete. If the proof of a completed cleanup is not empty, every record of
  the journal was created by this run with a confirmed POST, then removed with a confirmed DELETE,
  then found missing by a complete read of its resource that no later read revises; and there
  is no other write: each write of the journal is the creation or the deletion of one of these
  records, no two writes have the same key, and the evidence of all of them is in the result.\<close>

theorem cleanup_evidence_complete:
  assumes "completedCleanupEvidence parse_url json show (Some st) \<noteq> []"
  shows "(\<forall>r \<in> set (xs_records st). undone parse_url json show st r)
    \<and> (\<forall>w \<in> set (xs_writes st). set (wr_evidenceRefs w) \<subseteq> set (completedCleanupEvidence parse_url json show (Some st))
        \<and> (\<exists>r \<in> set (xs_records st). \<exists>ch. find_chain st r = Some ch \<and> w \<in> {ch_creation ch, ch_deletion ch}))
    \<and> distinct (map wr_key (xs_writes st))"
proof -
  from assms obtain used refs where
    loop: "cleanup_loop parse_url json show st (xs_records st) ([], []) = Some (used, refs)"
    and len: "length used = length (xs_writes st)"
    and out: "completedCleanupEvidence parse_url json show (Some st) = refs"
    by (auto simp: completedCleanupEvidence_def split: if_splits option.splits)
  note all = cleanup_loop_used [OF loop, simplified]
  have acc: "accounted parse_url json show st r \<subseteq> set (xs_writes st)" for r
    using find_chainD(1,3) by (auto simp: accounted_def)
  have sub: "set used \<subseteq> set (map wr_key (xs_writes st))" using all acc by fastforce
  have keys: "distinct (map wr_key (xs_writes st))" "set used = wr_key ` set (xs_writes st)"
    using distinct_covers [OF _ sub] all len by simp_all
  have "set (wr_evidenceRefs w) \<subseteq> set refs
      \<and> (\<exists>r \<in> set (xs_records st). \<exists>ch. find_chain st r = Some ch \<and> w \<in> {ch_creation ch, ch_deletion ch})"
    if w: "w \<in> set (xs_writes st)" for w
  proof -
    have "wr_key w \<in> set used" using keys(2) w by simp
    then obtain r v where r: "r \<in> set (xs_records st)" "v \<in> accounted parse_url json show st r" "wr_key v = wr_key w"
      using all by fastforce
    then have "v = w" using acc w keys(1) by (metis distinct_map inj_onD subsetD)
    then obtain ch where ch: "find_chain st r = Some ch" "w = ch_creation ch \<or> w = ch_deletion ch"
      using r(2) by (auto simp: accounted_def)
    then show ?thesis using all r(1) by fastforce
  qed
  then show ?thesis using all keys(1) chain_undone out by blast
qed

section \<open>A journal\<close>

definition sample_parse_url :: url_parser where
  "sample_parse_url s = Some \<lparr>url_origin = [], url_pathname = s, url_params = []\<rparr>"

definition sample_json :: json_parser where
  "sample_json s = Some (JObj [(''id'', JStr ''7'')])"

definition sample_show :: "js \<Rightarrow> string" where
  "sample_show v = []"

definition sample_write :: "string \<Rightarrow> int \<Rightarrow> write_method \<Rightarrow> string \<Rightarrow> write_receipt" where
  "sample_write key n meth path = \<lparr>wr_key = key, wr_sequence = Some n, wr_method = meth, wr_url = path,
     wr_status = Some 200, wr_confirmed = True, wr_request = None, wr_response = Some ''r'',
     wr_evidenceRefs = [key]\<rparr>"

definition sample_read :: read_receipt where
  "sample_read = \<lparr>re_key = ''g'', re_url = ''/items'', re_sequence = 3, re_complete = True,
     re_identitiesComplete = True, re_recordKeys = [], re_evidenceRefs = [''e'']\<rparr>"

definition sample_record :: execution_record where
  "sample_record = \<lparr>er_id = ''7'', er_type = None, er_recordRef = Some ''r1'', er_resourceUrl = Some ''/items'',
     er_resourceName = Some ''n'', er_creationWriteKey = Some ''c'', er_account = None, er_accountAliases = [],
     er_ownership = CREATED_THIS_RUN, er_evidenceRefs = [],
     er_cleanup = Some \<lparr>rc_status = CLEANUP_COMPLETED, rc_resolution = Some DELETED\<rparr>\<rparr>"

definition sample_journal :: execution_state where
  "sample_journal = \<lparr>xs_phase = CLEANUP_PHASE, xs_writeHistoryTruncated = False, xs_requestOrderTruncated = False,
     xs_pendingRecords = [], xs_cleanupReview = None, xs_records = [sample_record],
     xs_writes = [sample_write ''c'' 1 POST ''/items'', sample_write ''d'' 2 DELETE ''/items/7''],
     xs_readReceipts = [sample_read],
     xs_cleanupConfirmations = [\<lparr>cc_recordRef = ''r1'', cc_writeKey = ''d'', cc_readKey = ''g'', cc_source = None,
       cc_evidenceRefs = [''f'']\<rparr>]\<rparr>"

lemmas eval_paths = executionResourceUrl_def drop_list_def drop_id_def drop_suffix_def last_segment_def ends_with_def
  starts_with_def id_like_def digit_def hex_digit_def path_id_def params_of_def sample_parse_url_def

lemma sample_resource:
  "executionResourceUrl sample_parse_url ''/items'' = ''/items''"
  "executionResourceUrl sample_parse_url ''/items/7'' = ''/items''"
  by (simp_all add: eval_paths)

lemma sample_requested:
  "requestedRecordId sample_parse_url sample_show ''/items'' (JObj []) = \<lparr>rq_id = None, rq_conflict = False\<rparr>"
  "requestedRecordId sample_parse_url sample_show ''/items/7'' (JObj []) = \<lparr>rq_id = Some ''7'', rq_conflict = False\<rparr>"
  by (simp_all add: requestedRecordId_def js_nullish_def eval_paths)

lemma sample_evidence_refs:
  "completedCleanupEvidence sample_parse_url sample_json sample_show (Some sample_journal) = [''c'', ''d'', ''e'', ''f'']"
proof -
  let ?c = "sample_write ''c'' 1 POST ''/items''" and ?d = "sample_write ''d'' 2 DELETE ''/items/7''"
  have m: "writeMatchesRecord sample_parse_url sample_json sample_show ?c sample_record"
      "writeMatchesRecord sample_parse_url sample_json sample_show ?d sample_record"
    by (simp_all add: writeMatchesRecord_def sample_write_def sample_record_def sample_resource sample_requested
        parsed_text_def responseRecordId_def sample_json_def js_coalesce_def js_nullish_def request_account_ok_def)
  have r: "completeReadCoversRecord sample_parse_url sample_show sample_read sample_record"
    by (simp add: completeReadCoversRecord_def sample_read_def sample_record_def sample_requested sample_resource)
      (simp add: sample_parse_url_def params_of_def param_allows_def)
  have s: "write_succeeded sample_json ?c" "write_succeeded sample_json ?d"
    by (simp_all add: write_succeeded_def sample_write_def sample_json_def successfulExecutionWrite_def)
  have f: "find_chain sample_journal sample_record = Some \<lparr>ch_confirmation = \<lparr>cc_recordRef = ''r1'', cc_writeKey = ''d'',
        cc_readKey = ''g'', cc_source = None, cc_evidenceRefs = [''f'']\<rparr>, ch_creation = ?c, ch_deletion = ?d, ch_read = sample_read\<rparr>"
    by (simp add: find_chain_def sample_journal_def sample_record_def sample_write_def sample_read_def)
  have p: "chain_proves sample_parse_url sample_json sample_show sample_journal sample_record
      \<lparr>ch_confirmation = \<lparr>cc_recordRef = ''r1'', cc_writeKey = ''d'', cc_readKey = ''g'', cc_source = None,
        cc_evidenceRefs = [''f'']\<rparr>, ch_creation = ?c, ch_deletion = ?d, ch_read = sample_read\<rparr>"
    using m r s by (simp add: chain_proves_def)
      (simp add: sample_journal_def sample_write_def sample_read_def sequence_before_def)
  have d: "record_deleted sample_record" by (simp add: record_deleted_def sample_record_def)
  have j: "xs_records sample_journal = [sample_record]" by (simp add: sample_journal_def)
  show ?thesis
    unfolding completedCleanupEvidence_def option.case j
    by (simp add: d f p use_write_def) (simp add: sample_journal_def sample_write_def sample_read_def js_uniq_def)
qed

lemma cleanup_evidence_complete_witness:
  "undone sample_parse_url sample_json sample_show sample_journal sample_record
    \<and> distinct (map wr_key (xs_writes sample_journal))"
proof -
  have "sample_record \<in> set (xs_records sample_journal)" by (simp add: sample_journal_def)
  then show ?thesis
    using cleanup_evidence_complete [of sample_parse_url sample_json sample_show sample_journal]
    unfolding sample_evidence_refs by blast
qed

end
