(* ===== verification/AgentOutcome.thy ===== *)
theory AgentOutcome
  imports TaskProjection
begin

text \<open>
  What an agent reports and how long it may work: the outcomes of
  \<open>packages/agent-runtime-protocol/src/index.ts\<close>, the check of the evidence they cite, the recovery
  decision and the deadlines of \<open>apps/api/src/agent-runtime/agent-runtime-task.service.ts\<close>, and the
  execution budget of \<open>apps/api/src/execution-runs/execution-budget.ts\<close>.

  Times are milliseconds. Of an outcome the fields are kept that the control plane decides on.
\<close>

section \<open>Evidence\<close>

datatype proof_kind =
    K_SCREENSHOT | K_DOM | K_NETWORK | K_CONSOLE | K_BUSINESS_REFERENCE | K_ARTIFACT

fun proof_kind_name :: "proof_kind \<Rightarrow> string" where
  "proof_kind_name K_SCREENSHOT = ''SCREENSHOT''"
| "proof_kind_name K_DOM = ''DOM''"
| "proof_kind_name K_NETWORK = ''NETWORK''"
| "proof_kind_name K_CONSOLE = ''CONSOLE''"
| "proof_kind_name K_BUSINESS_REFERENCE = ''BUSINESS_REFERENCE''"
| "proof_kind_name K_ARTIFACT = ''ARTIFACT''"

definition proof_kind_of :: "string \<Rightarrow> proof_kind option" where
  "proof_kind_of s = List.find (\<lambda>k. proof_kind_name k = s)
     [K_SCREENSHOT, K_DOM, K_NETWORK, K_CONSOLE, K_BUSINESS_REFERENCE, K_ARTIFACT]"

record evidence_ref =
  ef_externalId :: string
  ef_kind :: proof_kind

record task_criterion =
  kr_id :: string
  kr_required :: bool
  kr_requiredEvidenceKinds :: "proof_kind list"
  kr_observationTargets :: "string list"

record criterion_result =
  cx_criterionId :: string
  cx_status :: product_verdict
  cx_evidenceRefs :: "string list"

text \<open>A check that asks for business references only must still show the browser's side.\<close>

definition browserExecutionCriterion :: "task_criterion \<Rightarrow> task_criterion" where
  "browserExecutionCriterion c =
     (let observed = filter (\<lambda>k. k \<noteq> K_BUSINESS_REFERENCE) (kr_requiredEvidenceKinds c) in
      c\<lparr>kr_requiredEvidenceKinds :=
          (if observed = [] \<and> kr_requiredEvidenceKinds c \<noteq> [] then [K_DOM, K_SCREENSHOT] else observed)\<rparr>)"

type_synonym evidence_map = "(string \<times> proof_kind) list"

definition missingRequiredEvidenceKinds :: "task_criterion \<Rightarrow> string list \<Rightarrow> evidence_map \<Rightarrow> proof_kind list" where
  "missingRequiredEvidenceKinds c cited known =
     filter (\<lambda>k. k \<notin> snd ` set (filter (\<lambda>e. fst e \<in> set cited) known)) (kr_requiredEvidenceKinds c)"

section \<open>Outcomes\<close>

record verification =
  vf_verdict :: product_verdict
  vf_termination :: "string option"
  vf_criteria :: "criterion_result list"
  vf_evidence :: "evidence_ref list"
  vf_catalog :: "(string \<times> string) option"

record failure_info =
  fx_code :: string
  fx_failureClass :: failure_class
  fx_detailsReason :: "string option"

record intervention_request =
  ir_kind :: string
  ir_expiresAt :: "int option"

datatype agent_outcome =
    Verified verification
  | NeedsHuman intervention_request
  | Retryable failure_info execution_disposition
  | Fatal failure_info execution_disposition

fun runtime_outcome_of :: "agent_outcome \<Rightarrow> runtime_outcome" where
  "runtime_outcome_of (Verified v) = VerificationCompleted (vf_verdict v)"
| "runtime_outcome_of (NeedsHuman i) = WaitingHuman"
| "runtime_outcome_of (Retryable f d) = RetryableFailure (fx_failureClass f) d"
| "runtime_outcome_of (Fatal f d) = FatalFailure (fx_failureClass f) d"

text \<open>The stored result, with the fields that are read from it again.\<close>

fun outcome_js :: "agent_outcome \<Rightarrow> js" where
  "outcome_js (Verified v) = JObj [(''kind'', JStr ''VERIFICATION_COMPLETED''), (''verdict'', JStr (verdict_name (vf_verdict v)))]"
| "outcome_js (NeedsHuman i) = JObj [(''kind'', JStr ''WAITING_HUMAN'')]"
| "outcome_js (Retryable f d) = JObj [(''kind'', JStr ''RETRYABLE_FAILURE'')]"
| "outcome_js (Fatal f d) = JObj [(''kind'', JStr ''FATAL_FAILURE'')]"

fun outcome_error :: "agent_outcome \<Rightarrow> failure_info option" where
  "outcome_error (Retryable f d) = Some f"
| "outcome_error (Fatal f d) = Some f"
| "outcome_error _ = None"

section \<open>The evidence of a completed verification\<close>

text \<open>What the snapshot of a task holds, as parsed: the criteria and business references, what a worker must
  support to take it, and the flags of its execution policy.\<close>

record task_needs =
  nd_contractVersions :: "nat list"
  nd_accountRequirements :: bool
  nd_protocol26 :: bool
  nd_typedChecks :: bool

record cooldown =
  cl_until :: int
  cl_reason :: string
  cl_failures :: nat

record task_snapshot =
  sn_runId :: string
  sn_attemptId :: string
  sn_targetUrl :: "string option"
  sn_hasBrowser :: bool
  sn_modelCooldowns :: "(string \<times> cooldown) list"
  sn_criteria :: "task_criterion list"
  sn_businessReferences :: "evidence_ref list"
  sn_needs :: task_needs
  sn_coordinationPending :: bool

datatype evidence_error =
    Foreign_Catalog
  | Untrusted_Evidence string
  | Missing_Criterion string
  | Unknown_Criterion string
  | Unavailable_Evidence string "string list"
  | Missing_Kinds string "proof_kind list"

text \<open>The business references of the task and the stored evidence of the attempt, which prevails.\<close>

definition trusted_evidence :: "task_snapshot \<Rightarrow> (string \<times> string) list \<Rightarrow> evidence_map" where
  "trusted_evidence sn persisted =
     foldl (\<lambda>m (i, kind). case proof_kind_of kind of None \<Rightarrow> m | Some k \<Rightarrow> jmap_set m i k)
       (foldl (\<lambda>m r. jmap_set m (ef_externalId r) (ef_kind r)) [] (sn_businessReferences sn)) persisted"

definition snapshot_criteria :: "task_snapshot \<Rightarrow> (string \<times> task_criterion) list" where
  "snapshot_criteria sn = foldl (\<lambda>m c. jmap_set m (kr_id c) (browserExecutionCriterion c)) [] (sn_criteria sn)"

definition result_error :: "task_snapshot \<Rightarrow> evidence_map \<Rightarrow> criterion_result \<Rightarrow> evidence_error option" where
  "result_error sn known r =
     (case jmap_get (snapshot_criteria sn) (cx_criterionId r) of
        None \<Rightarrow> Some (Unknown_Criterion (cx_criterionId r))
      | Some c \<Rightarrow>
          let unavailable = filter (\<lambda>i. jmap_get known i = None) (cx_evidenceRefs r);
              missing = missingRequiredEvidenceKinds c (cx_evidenceRefs r) known in
          if unavailable \<noteq> [] then Some (Unavailable_Evidence (kr_id c) unavailable)
          else if cx_status r = V_PASSED \<and> missing \<noteq> [] then Some (Missing_Kinds (kr_id c) missing)
          else None)"

text \<open>The first error of a list of checks.\<close>

definition first_error :: "('x \<Rightarrow> 'e option) \<Rightarrow> 'x list \<Rightarrow> 'e option" where
  "first_error check xs = (case List.find (\<lambda>x. check x \<noteq> None) xs of None \<Rightarrow> None | Some x \<Rightarrow> check x)"

definition completedOutcomeEvidenceError ::
  "task_snapshot \<Rightarrow> verification \<Rightarrow> (string \<times> string) list \<Rightarrow> evidence_error option" where
  "completedOutcomeEvidenceError sn v persisted =
     (let known = trusted_evidence sn persisted in
      if vf_catalog v \<noteq> None \<and> vf_catalog v \<noteq> Some (sn_runId sn, sn_attemptId sn) then Some Foreign_Catalog
      else coalesce_opt
        (first_error (\<lambda>e. if jmap_get known (ef_externalId e) = Some (ef_kind e) then None
             else Some (Untrusted_Evidence (ef_externalId e))) (vf_evidence v))
        (coalesce_opt
          (first_error (\<lambda>c. if kr_required c \<and> kr_id c \<notin> cx_criterionId ` set (vf_criteria v)
               then Some (Missing_Criterion (kr_id c)) else None) (sn_criteria sn))
          (first_error (result_error sn known) (vf_criteria v))))"

section \<open>Deadlines\<close>

record adaptive_policy =
  ap_extensionStepSeconds :: int
  ap_finalizationReserveSeconds :: int
  ap_slowModelThresholdSeconds :: int
  ap_maxExtensionSeconds :: int
  ap_refundHumanWait :: bool

datatype deadline_policy = FixedDeadline | AdaptiveDeadline adaptive_policy

record hitl_policy =
  hp_enabled :: bool
  hp_timeoutSeconds :: int
  hp_cancelOnTimeout :: bool

record run_policy =
  py_browser :: "browser_availability_policy option"
  py_retry :: retry_policy
  py_deadline :: deadline_policy
  py_hitl :: hitl_policy

definition initializeExecutionBudget :: "int \<Rightarrow> int \<Rightarrow> int \<Rightarrow> int option \<Rightarrow> (int \<times> int) option" where
  "initializeExecutionBudget now seconds extensionSeconds parentDeadlineAt =
     (let cap = (\<lambda>t. case parentDeadlineAt of None \<Rightarrow> t | Some c \<Rightarrow> min c t);
          deadlineAt = cap (now + seconds * 1000);
          hardDeadlineAt = cap (deadlineAt + extensionSeconds * 1000) in
      if deadlineAt \<le> now then None else Some (deadlineAt, hardDeadlineAt))"

fun deadlinePolicyPausesHumanWait :: "deadline_policy \<Rightarrow> bool" where
  "deadlinePolicyPausesHumanWait FixedDeadline = True"
| "deadlinePolicyPausesHumanWait (AdaptiveDeadline p) = ap_refundHumanWait p"

definition hitlWaitDeadline :: "int \<Rightarrow> bool \<Rightarrow> int \<Rightarrow> int \<Rightarrow> int option \<Rightarrow> int" where
  "hitlWaitDeadline currentDeadlineAt pauseHumanWait policyTimeoutSeconds requestedAt requestedExpiresAt =
     (let policyExpiresAt = requestedAt + policyTimeoutSeconds * 1000;
          expires = min (coalesce requestedExpiresAt policyExpiresAt) policyExpiresAt in
      if pauseHumanWait then expires else min expires currentDeadlineAt)"

text \<open>The progress columns of a task.\<close>

record task_progress =
  pg_activeOperation :: "string option"
  pg_activeOperationKey :: "string option"
  pg_activeOperationStartedAt :: "int option"
  pg_lastModelCompletedAt :: "int option"
  pg_lastModelLatencyMs :: "int option"
  pg_lastModelOperationKey :: "string option"
  pg_modelLatencyEwmaMs :: "int option"
  pg_modelLatencyMaxMs :: int
  pg_lastMeaningfulProgressKey :: "string option"
  pg_lastDeadlineExtensionProgressKey :: "string option"
  pg_lastDeadlineExtensionOperationKey :: "string option"

definition no_progress :: task_progress where
  "no_progress = \<lparr>pg_activeOperation = None, pg_activeOperationKey = None, pg_activeOperationStartedAt = None,
     pg_lastModelCompletedAt = None, pg_lastModelLatencyMs = None, pg_lastModelOperationKey = None,
     pg_modelLatencyEwmaMs = None, pg_modelLatencyMaxMs = 0, pg_lastMeaningfulProgressKey = None,
     pg_lastDeadlineExtensionProgressKey = None, pg_lastDeadlineExtensionOperationKey = None\<rparr>"

datatype extension_trigger = ACTIVE_SLOW_MODEL | RECENT_MODEL_PROGRESS

record deadline_extension =
  dx_progressKey :: "string option"
  dx_activeModelElapsedMs :: int
  dx_deadlineAtMs :: int
  dx_extendedByMs :: int
  dx_observedModelLatencyMs :: int
  dx_operationKey :: string
  dx_reserveMs :: int
  dx_trigger :: extension_trigger

definition progress_key :: "task_progress \<Rightarrow> string" where
  "progress_key p = coalesce (pg_lastMeaningfulProgressKey p) ''INITIAL_OBSERVATION''"

definition active_model_elapsed :: "task_progress \<Rightarrow> int \<Rightarrow> int" where
  "active_model_elapsed p now = (if pg_activeOperation p = Some ''MODEL''
     then (case pg_activeOperationStartedAt p of None \<Rightarrow> 0 | Some t \<Rightarrow> max 0 (now - t)) else 0)"

definition active_model_slow :: "adaptive_policy \<Rightarrow> task_progress \<Rightarrow> int \<Rightarrow> bool" where
  "active_model_slow a p now \<longleftrightarrow> ap_slowModelThresholdSeconds a * 1000 \<le> active_model_elapsed p now
     \<and> truthy (pg_activeOperationKey p)"

definition completed_model_recent :: "adaptive_policy \<Rightarrow> task_progress \<Rightarrow> int \<Rightarrow> bool" where
  "completed_model_recent a p now \<longleftrightarrow>
     (case pg_lastModelCompletedAt p of None \<Rightarrow> False
      | Some t \<Rightarrow> now - t \<le> max 300000 (ap_slowModelThresholdSeconds a * 1000 * 4))
     \<and> pg_lastModelLatencyMs p \<noteq> None \<and> truthy (pg_lastModelOperationKey p)"

definition extension_operation :: "adaptive_policy \<Rightarrow> task_progress \<Rightarrow> int \<Rightarrow> string option" where
  "extension_operation a p now =
     (if active_model_slow a p now then pg_activeOperationKey p
      else if completed_model_recent a p now then pg_lastModelOperationKey p else None)"

definition observed_latency :: "adaptive_policy \<Rightarrow> task_progress \<Rightarrow> int \<Rightarrow> int" where
  "observed_latency a p now = max (ap_slowModelThresholdSeconds a * 1000) (max (active_model_elapsed p now)
     (max (coalesce (pg_lastModelLatencyMs p) 0) (coalesce (pg_modelLatencyEwmaMs p) 0)))"

text \<open>\<open>Math.round(x * 1.5)\<close> of an integer.\<close>

definition one_and_a_half :: "int \<Rightarrow> int" where
  "one_and_a_half x = (3 * x + 1) div 2"

definition reserve_ms :: "adaptive_policy \<Rightarrow> task_progress \<Rightarrow> int \<Rightarrow> int" where
  "reserve_ms a p now = min 300000 (max 120000
     (one_and_a_half (observed_latency a p now) + ap_finalizationReserveSeconds a * 1000))"

definition decideAdaptiveDeadlineExtension ::
  "bool \<Rightarrow> task_progress \<Rightarrow> int \<Rightarrow> int \<Rightarrow> int \<Rightarrow> deadline_policy \<Rightarrow> deadline_extension option" where
  "decideAdaptiveDeadlineExtension meaningful p deadlineAt hardDeadlineAt now policy = (case policy of
     FixedDeadline \<Rightarrow> None
   | AdaptiveDeadline a \<Rightarrow>
       if meaningful \<and> pg_lastDeadlineExtensionProgressKey p = Some (progress_key p) then None
       else if deadlineAt \<le> now \<or> hardDeadlineAt \<le> deadlineAt then None
       else (case extension_operation a p now of None \<Rightarrow> None
         | Some key \<Rightarrow>
             if key = [] \<or> pg_lastDeadlineExtensionOperationKey p = Some key then None
             else let reserve = reserve_ms a p now;
                 next_at = min (max (deadlineAt + ap_extensionStepSeconds a * 1000) (now + reserve)) hardDeadlineAt in
               if reserve < deadlineAt - now \<or> next_at \<le> deadlineAt then None
               else Some \<lparr>dx_progressKey = (if meaningful then Some (progress_key p) else None),
                 dx_activeModelElapsedMs = active_model_elapsed p now, dx_deadlineAtMs = next_at,
                 dx_extendedByMs = next_at - deadlineAt, dx_observedModelLatencyMs = observed_latency a p now,
                 dx_operationKey = key, dx_reserveMs = reserve,
                 dx_trigger = (if active_model_slow a p now then ACTIVE_SLOW_MODEL else RECENT_MODEL_PROGRESS)\<rparr>))"

section \<open>Recovering a lost lease\<close>

datatype recovery_decision = WRITE_OUTCOME_UNKNOWN | EXHAUSTED | RETRY_SCHEDULED

fun decision_name :: "recovery_decision \<Rightarrow> string" where
  "decision_name WRITE_OUTCOME_UNKNOWN = ''WRITE_OUTCOME_UNKNOWN''"
| "decision_name EXHAUSTED = ''EXHAUSTED''"
| "decision_name RETRY_SCHEDULED = ''RETRY_SCHEDULED''"

definition leaseRecoveryDecision :: "bool \<Rightarrow> bool \<Rightarrow> bool \<Rightarrow> nat \<Rightarrow> nat \<Rightarrow> nat \<Rightarrow> recovery_decision" where
  "leaseRecoveryDecision sessionClosed unknownWrite expired infrastructureRecoveries attemptNumber maxAttempts =
     (if unknownWrite then WRITE_OUTCOME_UNKNOWN
      else if \<not> sessionClosed \<or> expired \<or> 1 \<le> infrastructureRecoveries \<or> maxAttempts \<le> attemptNumber then EXHAUSTED
      else RETRY_SCHEDULED)"

text \<open>A finalization an executor stored before it lost its lease, as its payload parses.\<close>

record finalization =
  fz_fencingToken :: string
  fz_reason :: string
  fz_outcome :: agent_outcome

definition readFinalizationCheckpoint :: "finalization option \<Rightarrow> string \<Rightarrow> (agent_outcome \<times> string) option" where
  "readFinalizationCheckpoint payload lostFence = (case payload of
     None \<Rightarrow> None
   | Some z \<Rightarrow>
       if fz_fencingToken z \<noteq> lostFence then None
       else (case fz_outcome z of
         Verified v \<Rightarrow> if vf_termination v = Some (fz_reason z) then Some (fz_outcome z, fz_reason z) else None
       | Fatal f d \<Rightarrow> if fx_detailsReason f = Some (fz_reason z) then Some (fz_outcome z, fz_reason z) else None
       | _ \<Rightarrow> None))"

end
