(* ===== verification/WriteAssessment.thy ===== *)
theory WriteAssessment
  imports CleanupEvidence ExecutionConcurrency AgentOutcome
begin

text \<open>
  The rows of the control plane's database that the recovery of browser sessions works on, and its
  judgement of whether a session wrote anything: \<open>apps/api/src/runtime/session-write-audit.ts\<close>,
  \<open>session-navigation-outcome.ts\<close>, \<open>session-cleanup-outcome.ts\<close> and the reading functions of
  \<open>session-recovery.state.ts\<close>.

  A table is the list of its rows, with the columns that are read or that decide something. Times
  are milliseconds. With a run are kept the deadline of the task it belongs to and \<open>ru_request\<close>, the parts of the
  request that a repeated one is compared with; with an intervention, when the control of its browser ends. A JSON column is a \<open>js\<close> value, \<open>JNull\<close> where the column is null. The record
  \<open>recovery_env\<close> holds the parameters: the digest of a token, the parsers, and the configuration.
\<close>

section \<open>Rows\<close>

datatype closure_state =
    C_OBSERVED | C_REQUESTED | C_CLOSING | C_RETRY_WAIT | C_WAITING_RUNTIME | C_NEEDS_OPERATOR | C_VERIFIED

datatype write_state =
    W_UNASSESSED | W_UNKNOWN | W_NOT_APPLICABLE | W_NO_WRITE_VERIFIED | W_CONFIRMED | W_RESOLVED
  | W_RETRY_AUTHORIZED

record session_row =
  ss_id :: string
  ss_teamId :: string
  ss_runtimeId :: string
  ss_status :: string
  ss_profileMode :: string
  ss_ownerTaskId :: "string option"
  ss_ownerFencingToken :: "nat option"
  ss_controlGeneration :: nat
  ss_executionPermitExpiresAt :: "int option"
  ss_quarantinedAt :: "int option"
  ss_closureVerifiedAt :: "int option"
  ss_closureEvidenceId :: "string option"
  ss_launchIdentityVersion :: "nat option"
  ss_launchIdentity :: js
  ss_launchHostInstanceId :: "string option"
  ss_launchConnectionGeneration :: "nat option"
  ss_purpose :: string
  ss_leaseToken :: string
  ss_fencingToken :: nat
  ss_leaseExpiresAt :: int
  ss_protocolMinor :: nat
  ss_humanControllerUserId :: "string option"
  ss_humanControlExpiresAt :: "int option"
  ss_identityPermit :: "nat option"
  ss_lastError :: "string option"
  ss_openedAt :: "int option"
  ss_closedAt :: "int option"
  ss_createdAt :: int

record recovery_row =
  rv_id :: string
  rv_teamId :: string
  rv_runtimeId :: string
  rv_sessionId :: string
  rv_expectedSessionFence :: nat
  rv_expectedLeaseDigest :: string
  rv_reason :: string
  rv_sourceRunId :: "string option"
  rv_closureState :: closure_state
  rv_closureEvidenceId :: "string option"
  rv_closureVerifiedAt :: "int option"
  rv_writeOutcomeState :: write_state
  rv_attempts :: nat
  rv_nextAttemptAt :: "int option"
  rv_lastErrorCode :: "string option"
  rv_activeCommandId :: "string option"
  rv_claimToken :: "string option"
  rv_claimExpiresAt :: "int option"
  rv_version :: nat
  rv_resolvedBy :: "string option"
  rv_resolutionKey :: "string option"
  rv_resolutionDigest :: "string option"
  rv_writeResolvedAt :: "int option"
  rv_resolvedAt :: "int option"

record evidence_row =
  ev_id :: string
  ev_evidenceId :: string
  ev_recoveryId :: string
  ev_requestId :: string
  ev_sessionId :: string
  ev_sessionFence :: nat
  ev_leaseDigest :: string
  ev_method :: string
  ev_summary :: js
  ev_serverVerifiedAt :: int

record command_row =
  cd_id :: string
  cd_sessionId :: string
  cd_commandType :: string
  cd_source :: string
  cd_status :: string
  cd_leaseToken :: string
  cd_fencingToken :: nat
  cd_ownerTaskId :: "string option"
  cd_ownerFencingToken :: "nat option"
  cd_payload :: js
  cd_result :: js
  cd_createdAt :: int
  cd_deadlineAt :: int
  cd_completedAt :: "int option"

record guarded_lease = lease +
  gl_recoveryId :: "string option"

record run_row =
  ru_id :: string
  ru_teamId :: string
  ru_idempotencyKey :: string
  ru_taskExecutionId :: "string option"
  ru_sourceKind :: string
  ru_request :: js
  ru_lifecycle :: string
  ru_cancelRequestedAt :: "int option"
  ru_deadlineAt :: int
  ru_hardDeadlineAt :: int
  ru_environmentSnapshot :: js
  ru_requestedBy :: "string option"
  ru_executionPolicy :: run_policy
  ru_maxAttempts :: nat
  ru_currentAttemptNumber :: nat
  ru_infrastructureRecoveryCount :: nat
  ru_executionBudgetSeconds :: "int option"
  ru_executionMaxExtensionSeconds :: "int option"
  ru_executionBudgetStartedAt :: "int option"
  ru_parentDeadlineAt :: "int option"
  ru_deadlineExtendedMs :: int
  ru_deadlineExtensionCount :: nat
  ru_startedAt :: "int option"
  ru_finishedAt :: "int option"
  ru_verdict :: "product_verdict option"
  ru_executionDisposition :: "string option"

record attempt_row =
  at_id :: string
  at_runId :: string
  at_number :: nat
  at_status :: string
  at_failureClass :: "string option"

record agent_task =
  tk_id :: string
  tk_runId :: string
  tk_attemptId :: string
  tk_status :: string
  tk_fencingToken :: nat
  tk_completionId :: "string option"
  tk_recoveryStatus :: "string option"
  tk_result :: js
  tk_leaseExpiresAt :: "int option"
  tk_leaseLostAt :: "int option"
  tk_resume :: js
  tk_executionState :: "execution_state option"
  tk_capability :: string
  tk_createdAt :: int
  tk_deadlineAt :: int
  tk_startedAt :: "int option"
  tk_cancelRequestedAt :: "int option"
  tk_leaseOwner :: "string option"
  tk_leaseToken :: "string option"
  tk_recoveryNextAttemptAt :: "int option"
  tk_snapshot :: task_snapshot
  tk_progress :: task_progress

record browser_execution =
  bx_runId :: string
  bx_attemptId :: string
  bx_runtimeSessionId :: "string option"
  bx_status :: string
  bx_allocationToken :: "string option"
  bx_createdAt :: int
  bx_input :: js

record legacy_run =
  lr_runtimeSessionId :: "string option"
  lr_requestSnapshot :: js

record intervention_row =
  iv_id :: string
  iv_runId :: string
  iv_taskId :: string
  iv_attemptId :: string
  iv_kind :: string
  iv_status :: string
  iv_expiresAt :: "int option"
  iv_createdAt :: int
  iv_pausedExecutionRemainingMs :: "int option"
  iv_controlLeaseExpiresAt :: "int option"

text \<open>An event's place in its list is its sequence number; \<open>vt_id\<close> is the id an agent gave it, and an event of
  a run alone has no task and attempt.\<close>

record run_event =
  vt_id :: "string option"
  vt_teamId :: string
  vt_runId :: string
  vt_taskId :: string
  vt_attemptId :: string
  vt_actor :: string
  vt_kind :: string
  vt_payload :: js
  vt_finalization :: "finalization option"

record run_evidence =
  vd_runId :: string
  vd_attemptId :: string
  vd_externalId :: string
  vd_kind :: string

record result_row =
  cw_runId :: string
  cw_attemptId :: string
  cw_criterionId :: string
  cw_status :: product_verdict
  cw_evidenceRefs :: "string list"

record runtime_row =
  rt_id :: string
  rt_enabled :: bool
  rt_revoked :: bool
  rt_drainState :: string
  rt_status :: string
  rt_connectionId :: "string option"
  rt_connectionGeneration :: nat
  rt_hostInstanceId :: "string option"
  rt_daemonInstanceId :: "string option"
  rt_capabilities :: "string list"

text \<open>A runtime has one row of this: the closure it may work on now.\<close>

record permit_row =
  pt_runtimeId :: string
  pt_recoveryId :: string
  pt_activeCommandId :: "string option"
  pt_claimToken :: string
  pt_claimExpiresAt :: int

record epoch_row =
  ep_sessionId :: string
  ep_leaseToken :: string
  ep_fencingToken :: nat

record outbox_row =
  ox_recoveryId :: string
  ox_eventType :: string
  ox_version :: nat

record rdb =
  db_runtimes :: "runtime_row list"
  db_sessions :: "session_row list"
  db_recoveries :: "recovery_row list"
  db_evidence :: "evidence_row list"
  db_commands :: "command_row list"
  db_leases :: "guarded_lease list"
  db_tasks :: "agent_task list"
  db_runs :: "run_row list"
  db_attempts :: "attempt_row list"
  db_executions :: "browser_execution list"
  db_legacyRuns :: "legacy_run list"
  db_interventions :: "intervention_row list"
  db_runEvents :: "run_event list"
  db_runEvidence :: "run_evidence list"
  db_results :: "result_row list"
  db_permits :: "permit_row list"
  db_outbox :: "outbox_row list"
  db_slots :: "epoch_row list"
  db_profileLeases :: "epoch_row list"
  db_humanLeases :: "string list"
  db_members :: "((string \<times> string) \<times> string) list"

record recovery_env =
  rx_enabled :: bool
  rx_locks :: bool
  rx_digest :: "string \<Rightarrow> string"
  rx_parse_url :: url_parser
  rx_json :: json_parser
  rx_stringify :: "js \<Rightarrow> string"
  rx_show :: "js \<Rightarrow> string"
  rx_target :: "string \<Rightarrow> target_url option"
  rx_collate :: "string \<Rightarrow> string \<Rightarrow> int"
  rx_config :: configuration

section \<open>Reading tables\<close>

definition find_by :: "('r \<Rightarrow> 'k) \<Rightarrow> 'k \<Rightarrow> 'r list \<Rightarrow> 'r option" where
  "find_by key k rows = List.find (\<lambda>r. key r = k) rows"

text \<open>\<open>updateMany\<close>: the rows that satisfy a condition are changed.\<close>

definition update_where :: "('r \<Rightarrow> bool) \<Rightarrow> ('r \<Rightarrow> 'r) \<Rightarrow> 'r list \<Rightarrow> 'r list" where
  "update_where P f rows = map (\<lambda>r. if P r then f r else r) rows"

definition delete_where :: "('r \<Rightarrow> bool) \<Rightarrow> 'r list \<Rightarrow> 'r list" where
  "delete_where P rows = filter (\<lambda>r. \<not> P r) rows"

definition count_rows :: "('r \<Rightarrow> bool) \<Rightarrow> 'r list \<Rightarrow> nat" where
  "count_rows P rows = length (filter P rows)"

definition session_of :: "rdb \<Rightarrow> string \<Rightarrow> session_row option" where
  "session_of db i = find_by ss_id i (db_sessions db)"

definition recovery_of :: "rdb \<Rightarrow> string \<Rightarrow> recovery_row option" where
  "recovery_of db i = find_by rv_id i (db_recoveries db)"

definition task_of :: "rdb \<Rightarrow> string \<Rightarrow> agent_task option" where
  "task_of db i = find_by tk_id i (db_tasks db)"

definition command_of :: "rdb \<Rightarrow> string \<Rightarrow> command_row option" where
  "command_of db i = find_by cd_id i (db_commands db)"

definition lifecycle_of :: "rdb \<Rightarrow> string \<Rightarrow> string" where
  "lifecycle_of db i = (case find_by ru_id i (db_runs db) of None \<Rightarrow> [] | Some r \<Rightarrow> ru_lifecycle r)"

definition owner_of :: "rdb \<Rightarrow> session_row \<Rightarrow> agent_task option" where
  "owner_of db s = (case ss_ownerTaskId s of None \<Rightarrow> None | Some i \<Rightarrow> task_of db i)"

definition identity_id :: "session_row \<Rightarrow> string option" where
  "identity_id s = js_string (js_prop (ss_launchIdentity s) ''id'')"

definition is_verified :: "session_row \<Rightarrow> bool" where
  "is_verified s \<longleftrightarrow> ss_closureVerifiedAt s \<noteq> None \<and> truthy (ss_closureEvidenceId s)"

section \<open>Settled and terminal states\<close>

definition writeSettled :: "write_state \<Rightarrow> bool" where
  "writeSettled w \<longleftrightarrow> w \<in> {W_NOT_APPLICABLE, W_NO_WRITE_VERIFIED, W_CONFIRMED, W_RESOLVED, W_RETRY_AUTHORIZED}"

definition terminalRun :: "string \<Rightarrow> bool" where
  "terminalRun s \<longleftrightarrow> s \<in> {''COMPLETED'', ''CANCELLED'', ''TIMED_OUT''}"

definition terminalAgent :: "string \<Rightarrow> bool" where
  "terminalAgent s \<longleftrightarrow> s \<in> {''SUCCEEDED'', ''FAILED'', ''CANCELLED'', ''TIMED_OUT''}"

section \<open>Histories that cannot have written\<close>

definition safe_observation_commands :: "string list" where
  "safe_observation_commands = [''page.snapshot'', ''page.get_text'', ''page.get_url'', ''page.get_title'',
     ''page.errors'', ''page.screenshot'', ''page.dom'', ''page.console'', ''page.network'', ''tab.list'',
     ''frame.snapshot'', ''element.state'', ''locator.count'', ''network.status'']"

definition audited_commands :: "string list" where
  "audited_commands = safe_observation_commands @ [''session.open'', ''session.close'', ''human.takeover'',
     ''human.release'', ''page.navigate'', ''page.reload'', ''page.resize'', ''page.click'', ''page.fill'',
     ''page.type'', ''page.scroll'', ''page.wait'', ''page.press'', ''page.select'', ''page.check'', ''page.uncheck'']"

definition of_session :: "session_row \<Rightarrow> command_row \<Rightarrow> bool" where
  "of_session s c \<longleftrightarrow> cd_sessionId c = ss_id s"

definition of_epoch :: "session_row \<Rightarrow> command_row \<Rightarrow> bool" where
  "of_epoch s c \<longleftrightarrow> cd_leaseToken c = ss_leaseToken s \<and> cd_fencingToken c = ss_fencingToken s"

definition in_flight :: "command_row \<Rightarrow> bool" where
  "in_flight c \<longleftrightarrow> cd_status c \<in> {''PENDING'', ''DISPATCHED''}"

definition launch_command :: "session_row \<Rightarrow> command_row \<Rightarrow> bool" where
  "launch_command s c \<longleftrightarrow> of_session s c \<and> cd_commandType c = ''session.open'' \<and> cd_source c = ''SYSTEM''
     \<and> of_epoch s c \<and> js_prop (cd_payload c) ''launchIdentityId'' = js_prop (ss_launchIdentity s) ''id''"

definition hasVerifiedOfflineStartup :: "rdb \<Rightarrow> session_row \<Rightarrow> string option \<Rightarrow> bool" where
  "hasVerifiedOfflineStartup db s sourceRunId \<longleftrightarrow>
     truthy sourceRunId \<and> ss_purpose s = ''EXECUTION'' \<and> 14 \<le> ss_protocolMinor s
     \<and> ss_profileMode s = ''EPHEMERAL'' \<and> ss_ownerTaskId s = None \<and> ss_ownerFencingToken s = None
     \<and> ss_openedAt s = None \<and> ss_controlGeneration s = 0 \<and> ss_status s = ''CLOSED'' \<and> is_verified s
     \<and> ss_launchIdentityVersion s = Some 1 \<and> js_prop (ss_launchIdentity s) ''version'' = JNum 1
     \<and> truthy (identity_id s) \<and> truthy (ss_launchHostInstanceId s) \<and> ss_launchConnectionGeneration s \<noteq> None
     \<and> list_ex (\<lambda>x. Some (bx_runId x) = sourceRunId \<and> bx_createdAt x \<le> ss_createdAt s) (db_executions db)
     \<and> list_ex (\<lambda>c. launch_command s c \<and> js_prop (cd_payload c) ''profileMode'' = JStr ''EPHEMERAL''
          \<and> js_prop (cd_payload c) ''allowedOrigins'' = JArr []) (db_commands db)
     \<and> count_rows (\<lambda>c. of_session s c
          \<and> (cd_commandType c \<notin> {''session.open'', ''session.close''} \<or> cd_source c \<noteq> ''SYSTEM'' \<or> \<not> of_epoch s c
             \<or> cd_ownerTaskId c \<noteq> None \<or> cd_ownerFencingToken c \<noteq> None \<or> in_flight c)) (db_commands db) = 0"

definition potential_write :: "rdb \<Rightarrow> session_row \<Rightarrow> command_row \<Rightarrow> bool" where
  "potential_write db s c \<longleftrightarrow>
     cd_commandType c \<notin> set safe_observation_commands \<union> {''session.close''}
     \<and> \<not> (cd_commandType c = ''session.open'' \<and> cd_source c = ''SYSTEM'' \<and> 13 \<le> ss_protocolMinor s
          \<and> ss_purpose s = ''EXECUTION''
          \<and> list_ex (\<lambda>x. bx_runtimeSessionId x = Some (ss_id s)) (db_executions db))"

definition hasVerifiedObservationOnlyHistory :: "rdb \<Rightarrow> session_row \<Rightarrow> bool" where
  "hasVerifiedObservationOnlyHistory db s \<longleftrightarrow>
     ss_purpose s = ''EXECUTION'' \<and> 14 \<le> ss_protocolMinor s
     \<and> truthy (ss_ownerTaskId s) \<and> ss_ownerFencingToken s \<noteq> None
     \<and> ss_launchIdentityVersion s = Some 1 \<and> js_prop (ss_launchIdentity s) ''version'' = JNum 1
     \<and> truthy (identity_id s) \<and> truthy (ss_launchHostInstanceId s) \<and> ss_launchConnectionGeneration s \<noteq> None
     \<and> ss_controlGeneration s = 0 \<and> (ss_quarantinedAt s \<noteq> None \<or> ss_closureVerifiedAt s \<noteq> None)
     \<and> list_ex (\<lambda>x. bx_runtimeSessionId x = Some (ss_id s)
          \<and> list_ex (\<lambda>t. tk_attemptId t = bx_attemptId x \<and> Some (tk_id t) = ss_ownerTaskId s) (db_tasks db)) (db_executions db)
     \<and> list_ex (\<lambda>c. launch_command s c \<and> cd_status c = ''SUCCEEDED''
          \<and> js_prop (cd_result c) ''url'' = JStr ''about:blank'') (db_commands db)
     \<and> count_rows (\<lambda>c. of_session s c \<and> potential_write db s c) (db_commands db) = 0"

section \<open>The audit of a closed browser's requests\<close>

record network_audit =
  na_launchIdentityId :: string
  na_complete :: bool
  na_requestCount :: int
  na_potentialWrites :: int

fun js_count :: "js \<Rightarrow> int option" where
  "js_count (JNum n) = (if snd (quotient_of n) = 1 \<and> 0 \<le> n then Some (fst (quotient_of n)) else None)"
| "js_count _ = None"

definition closed_audit_schema :: "js \<Rightarrow> network_audit option" where
  "closed_audit_schema v =
     (case (js_prop v ''launchIdentityId'', js_prop v ''complete'', js_count (js_prop v ''requestCount''),
            js_count (js_prop v ''potentialWrites'')) of
        (JStr i, JBool b, Some n, Some w) \<Rightarrow>
          if js_prop v ''version'' = JNum 1 \<and> i \<noteq> []
             \<and> js_prop v ''coverage'' = JStr ''ISOLATED_CONTEXT_UNTIL_CLOSE''
          then Some \<lparr>na_launchIdentityId = i, na_complete = b, na_requestCount = n, na_potentialWrites = w\<rparr>
          else None
      | _ \<Rightarrow> None)"

definition last_close_result :: "rdb \<Rightarrow> session_row \<Rightarrow> js" where
  "last_close_result db s =
     (case js_sort (\<lambda>a b. cd_createdAt b \<le> cd_createdAt a)
             (filter (\<lambda>c. of_session s c \<and> cd_commandType c = ''session.close'' \<and> cd_status c = ''SUCCEEDED''
                \<and> of_epoch s c) (db_commands db)) of
        [] \<Rightarrow> JUndefined | c # _ \<Rightarrow> cd_result c)"

definition live_closure_summary :: "rdb \<Rightarrow> session_row \<Rightarrow> js" where
  "live_closure_summary db s =
     (case List.find (\<lambda>e. Some (ev_id e) = ss_closureEvidenceId s \<and> ev_sessionId e = ss_id s
             \<and> ev_sessionFence e = ss_fencingToken s \<and> ev_method e = ''LIVE_SESSION_TERMINATED'') (db_evidence db) of
        None \<Rightarrow> JUndefined | Some e \<Rightarrow> ev_summary e)"

definition max_safe_integer :: int where
  "max_safe_integer = 2 ^ 53 - 1"

definition hasVerifiedNoWriteNetworkAudit :: "rdb \<Rightarrow> session_row \<Rightarrow> bool" where
  "hasVerifiedNoWriteNetworkAudit db s \<longleftrightarrow>
     21 \<le> ss_protocolMinor s \<and> ss_purpose s = ''EXECUTION'' \<and> ss_status s = ''CLOSED'' \<and> is_verified s
     \<and> truthy (ss_ownerTaskId s) \<and> ss_ownerFencingToken s \<noteq> None \<and> ss_launchIdentityVersion s = Some 1
     \<and> truthy (identity_id s)
     \<and> (let summary = live_closure_summary db s; result = last_close_result db s in
        (js_truthy (js_prop summary ''writeAudit'') \<or> js_prop result ''closed'' = JBool True)
        \<and> (case closed_audit_schema (js_coalesce (js_prop summary ''writeAudit'') (js_prop result ''writeAudit'')) of
             None \<Rightarrow> False
           | Some audit \<Rightarrow> na_complete audit \<and> Some (na_launchIdentityId audit) = identity_id s
               \<and> na_potentialWrites audit = 0 \<and> na_requestCount audit \<le> max_safe_integer))
     \<and> count_rows (\<lambda>c. of_session s c
          \<and> (\<not> of_epoch s c \<or> cd_commandType c \<notin> set audited_commands \<or> in_flight c)) (db_commands db) = 0"

section \<open>Confirmed outcomes\<close>

definition command_le :: "command_row \<Rightarrow> command_row \<Rightarrow> bool" where
  "command_le a b \<longleftrightarrow> cd_createdAt a < cd_createdAt b
     \<or> cd_createdAt a = cd_createdAt b \<and> code_unit_compare (cd_id a) (cd_id b) \<le> 0"

definition hasObservedInitialNavigation :: "rdb \<Rightarrow> session_row \<Rightarrow> bool" where
  "hasObservedInitialNavigation db s \<longleftrightarrow> 14 \<le> ss_protocolMinor s \<and> ss_controlGeneration s = 0
     \<and> (case take 3 (js_sort command_le (filter (of_session s) (db_commands db))) of
          [opening, navigation, observed] \<Rightarrow>
            list_all (of_epoch s) [opening, navigation, observed]
            \<and> cd_commandType opening = ''session.open'' \<and> cd_source opening = ''SYSTEM''
            \<and> cd_status opening = ''SUCCEEDED'' \<and> js_prop (cd_result opening) ''url'' = JStr ''about:blank''
            \<and> cd_commandType navigation = ''page.navigate'' \<and> cd_status navigation = ''TIMED_OUT''
            \<and> cd_source navigation = ''AGENT'' \<and> cd_source observed = ''AGENT''
            \<and> cd_ownerTaskId navigation = ss_ownerTaskId s \<and> cd_ownerTaskId observed = ss_ownerTaskId s
            \<and> cd_ownerFencingToken navigation = ss_ownerFencingToken s
            \<and> cd_ownerFencingToken observed = ss_ownerFencingToken s
            \<and> cd_commandType observed = ''page.snapshot'' \<and> cd_status observed = ''SUCCEEDED''
            \<and> cd_deadlineAt navigation \<le> cd_createdAt observed
            \<and> (case cd_completedAt navigation of None \<Rightarrow> False | Some t \<Rightarrow> t \<le> cd_createdAt observed)
            \<and> (case js_prop (cd_payload navigation) ''url'' of
                 JStr u \<Rightarrow> (starts_with u ''http://'' \<or> starts_with u ''https://'')
                   \<and> js_prop (cd_result observed) ''url'' = JStr u
                   \<and> js_prop (js_prop (cd_result observed) ''structuredObservation'') ''consistency'' = JStr ''VERIFIED''
                   \<and> js_prop (js_prop (cd_result observed) ''structuredObservation'') ''pageIdentity'' = JStr u
               | _ \<Rightarrow> False)
        | _ \<Rightarrow> False)"

definition hasConfirmedCleanupOutcome :: "recovery_env \<Rightarrow> rdb \<Rightarrow> agent_task \<Rightarrow> bool" where
  "hasConfirmedCleanupOutcome env db t \<longleftrightarrow>
     (let refs = completedCleanupEvidence (rx_parse_url env) (rx_json env) (rx_show env) (tk_executionState t);
          found = filter (\<lambda>e. vd_runId e = tk_runId t \<and> vd_attemptId e = tk_attemptId t
            \<and> vd_externalId e \<in> set refs) (db_runEvidence db) in
      refs \<noteq> [] \<and> set refs \<subseteq> vd_externalId ` set found \<and> list_ex (\<lambda>e. vd_kind e = ''NETWORK'') found)"

definition harmless_commands :: "string list" where
  "harmless_commands = [''session.open'', ''session.close'', ''page.snapshot'', ''page.get_text'',
     ''page.get_url'', ''page.get_title'', ''page.screenshot'', ''page.wait'']"

definition unsettled_commands :: "rdb \<Rightarrow> session_row \<Rightarrow> nat" where
  "unsettled_commands db s = count_rows (\<lambda>c. of_session s c \<and> of_epoch s c \<and> cd_status c \<noteq> ''SUCCEEDED''
     \<and> cd_commandType c \<notin> set harmless_commands) (db_commands db)"

definition hasConfirmedWriteOutcome :: "recovery_env \<Rightarrow> rdb \<Rightarrow> session_row \<Rightarrow> bool" where
  "hasConfirmedWriteOutcome env db s \<longleftrightarrow>
     truthy (ss_ownerTaskId s) \<and> ss_ownerFencingToken s \<noteq> None
     \<and> (case owner_of db s of None \<Rightarrow> False
        | Some t \<Rightarrow> Some (tk_fencingToken t) = ss_ownerFencingToken s \<and> tk_status t = ''SUCCEEDED''
            \<and> truthy (tk_completionId t) \<and> tk_recoveryStatus t \<noteq> Some ''WRITE_OUTCOME_UNKNOWN''
            \<and> js_prop (tk_result t) ''kind'' = JStr ''VERIFICATION_COMPLETED''
            \<and> (js_prop (tk_result t) ''verdict'' \<in> {JStr ''PASSED'', JStr ''FAILED''}
               \<or> js_prop (tk_result t) ''verdict'' = JStr ''INCONCLUSIVE'' \<and> hasConfirmedCleanupOutcome env db t))
     \<and> (unsettled_commands db s = 0
        \<or> unsettled_commands db s = 1 \<and> hasObservedInitialNavigation db s
          \<and> count_rows (\<lambda>c. of_session s c \<and> of_epoch s c \<and> cd_commandType c = ''page.navigate''
              \<and> cd_status c = ''TIMED_OUT'') (db_commands db) = 1)"

section \<open>The initial judgement\<close>

definition leases_of :: "rdb \<Rightarrow> session_row \<Rightarrow> guarded_lease list" where
  "leases_of db s = filter (\<lambda>l. le_sessionId l = ss_id s) (db_leases db)"

definition no_write_verified :: "rdb \<Rightarrow> session_row \<Rightarrow> bool" where
  "no_write_verified db s \<longleftrightarrow> hasVerifiedObservationOnlyHistory db s \<or> hasVerifiedNoWriteNetworkAudit db s"

definition initialWriteState :: "recovery_env \<Rightarrow> rdb \<Rightarrow> session_row \<Rightarrow> write_state" where
  "initialWriteState env db s =
     (if ss_purpose s \<noteq> ''EXECUTION'' then W_NOT_APPLICABLE
      else if (case owner_of db s of None \<Rightarrow> False
          | Some t \<Rightarrow> Some (tk_fencingToken t) = ss_ownerFencingToken s \<and> tk_recoveryStatus t = Some ''RESOLVED'')
      then W_RESOLVED
      else if leases_of db s \<noteq> [] \<and> list_all (\<lambda>l. rc_mode (le_claim l) = READ) (leases_of db s)
      then W_NOT_APPLICABLE
      else if hasConfirmedWriteOutcome env db s then W_CONFIRMED
      else if no_write_verified db s then W_NO_WRITE_VERIFIED
      else W_UNKNOWN)"

end
