(* ===== verification/ExecutionPermit.thy ===== *)
theory ExecutionPermit
  imports SessionPermits WriteAssessment
begin

text \<open>
  The permits the control plane issues, \<open>sessionExecutionPermit\<close> of
  \<open>apps/api/src/runtime/session-permit.ts\<close>, what they say to the registry of the browser runtime
  (theory \<open>SessionPermits\<close>), and \<open>isHealthySession\<close> of \<open>session-recovery.state.ts\<close>.
\<close>

section \<open>Issuing a permit\<close>

definition run_of :: "rdb \<Rightarrow> agent_task \<Rightarrow> run_row option" where
  "run_of db t = find_by ru_id (tk_runId t) (db_runs db)"

definition owner_epoch :: "session_row \<Rightarrow> (string \<times> nat) option" where
  "owner_epoch s = (case (ss_ownerTaskId s, ss_ownerFencingToken s) of
     (Some i, Some f) \<Rightarrow> if i = [] then None else Some (i, f) | _ \<Rightarrow> None)"

definition issue :: "session_row \<Rightarrow> owner_kind \<Rightarrow> (string \<times> nat) option \<Rightarrow> int \<Rightarrow> session_permit" where
  "issue s kind owner expires =
     \<lparr>pm_sessionId = ss_id s, pm_fencingToken = decimal (ss_fencingToken s), pm_leaseToken = ss_leaseToken s,
      pm_ownerKind = kind, pm_ownerTaskId = map_option fst owner,
      pm_ownerFencingToken = map_option (\<lambda>o'. decimal (snd o')) owner,
      pm_controlGeneration = Some (int (ss_controlGeneration s)), pm_expiresAt = Some expires\<rparr>"

definition pending_intervention :: "rdb \<Rightarrow> agent_task \<Rightarrow> int \<Rightarrow> intervention_row option" where
  "pending_intervention db t now =
     (case js_sort (\<lambda>a b. iv_createdAt b \<le> iv_createdAt a)
             (filter (\<lambda>v. iv_taskId v = tk_id t \<and> iv_status v = ''PENDING''
                \<and> (case iv_expiresAt v of None \<Rightarrow> False | Some e \<Rightarrow> now < e)) (db_interventions db)) of
        [] \<Rightarrow> None | v # _ \<Rightarrow> Some v)"

definition agent_runs :: "session_row \<Rightarrow> agent_task \<Rightarrow> run_row \<Rightarrow> int \<Rightarrow> bool" where
  "agent_runs s t r now \<longleftrightarrow> Some (tk_fencingToken t) = ss_ownerFencingToken s \<and> tk_status t = ''RUNNING''
     \<and> (case tk_leaseExpiresAt t of None \<Rightarrow> False | Some e \<Rightarrow> now < e)
     \<and> ru_lifecycle r = ''RUNNING'' \<and> ru_cancelRequestedAt r = None \<and> now < ru_deadlineAt r"

definition owned_permit :: "rdb \<Rightarrow> session_row \<Rightarrow> agent_task \<Rightarrow> run_row \<Rightarrow> int \<Rightarrow> session_permit option" where
  "owned_permit db s t r now =
     (if tk_status t = ''WAITING_HUMAN'' \<and> ru_lifecycle r = ''WAITING_HUMAN''
      then (case pending_intervention db t now of
              None \<Rightarrow> None
            | Some v \<Rightarrow> (case iv_expiresAt v of
                  None \<Rightarrow> None
                | Some e \<Rightarrow> Some (issue s HUMAN (owner_epoch s) (min (ss_leaseExpiresAt s) e))))
      else if tk_status t = ''PENDING'' \<and> ru_lifecycle r = ''QUEUED''
              \<and> (case ss_executionPermitExpiresAt s of None \<Rightarrow> False | Some e \<Rightarrow> now < e)
              \<and> js_truthy (tk_resume t)
      then Some (issue s HUMAN (owner_epoch s)
             (min (ss_leaseExpiresAt s) (coalesce (ss_executionPermitExpiresAt s) 0)))
      else if \<not> agent_runs s t r now then None
      else Some (issue s AGENT (Some (tk_id t, tk_fencingToken t))
             (min (ss_leaseExpiresAt s) (min (coalesce (tk_leaseExpiresAt t) 0) (ru_deadlineAt r)))))"

definition bound_execution :: "rdb \<Rightarrow> session_row \<Rightarrow> bool" where
  "bound_execution db s = list_ex (\<lambda>x. bx_runtimeSessionId x = Some (ss_id s)) (db_executions db)"

definition unowned_permit :: "rdb \<Rightarrow> session_row \<Rightarrow> int \<Rightarrow> session_permit option" where
  "unowned_permit db s now =
     (let expires = min (ss_leaseExpiresAt s)
            (if bound_execution db s then coalesce (ss_executionPermitExpiresAt s) (ss_createdAt s + 120000)
             else ss_leaseExpiresAt s) in
      if expires \<le> now then None
      else Some (issue s (if bound_execution db s then STARTUP else SYSTEM) (owner_epoch s) expires))"

definition live_status :: "session_row \<Rightarrow> bool" where
  "live_status s \<longleftrightarrow> ss_status s \<in> {''OPENING'', ''ACTIVE'', ''HUMAN_CONTROL''}"

definition sessionExecutionPermit :: "rdb \<Rightarrow> session_row \<Rightarrow> int \<Rightarrow> session_permit option" where
  "sessionExecutionPermit db s now =
     (if ss_quarantinedAt s \<noteq> None \<or> ss_closedAt s \<noteq> None \<or> \<not> live_status s then None
      else if ss_status s = ''HUMAN_CONTROL''
      then (case ss_humanControlExpiresAt s of
              None \<Rightarrow> None
            | Some e \<Rightarrow> if e \<le> now then None
                else Some (issue s HUMAN (owner_epoch s) (min (ss_leaseExpiresAt s) e)))
      else if truthy (ss_ownerTaskId s)
      then (case owner_of db s of
              None \<Rightarrow> None
            | Some t \<Rightarrow> (case run_of db t of None \<Rightarrow> None | Some r \<Rightarrow> owned_permit db s t r now))
      else unowned_permit db s now)"

section \<open>Healthy sessions\<close>

definition isHealthySession :: "rdb \<Rightarrow> session_row \<Rightarrow> int \<Rightarrow> bool" where
  "isHealthySession db s now \<longleftrightarrow>
     ss_closureVerifiedAt s = None \<and> ss_quarantinedAt s = None \<and> ss_closedAt s = None
     \<and> now < ss_leaseExpiresAt s \<and> live_status s
     \<and> sessionExecutionPermit db s now \<noteq> None
     \<and> (truthy (ss_ownerTaskId s) \<longrightarrow> (case owner_of db s of
          None \<Rightarrow> False
        | Some t \<Rightarrow> \<not> terminalAgent (tk_status t) \<and> \<not> terminalRun (lifecycle_of db (tk_runId t))))
     \<and> (case filter (\<lambda>x. bx_runtimeSessionId x = Some (ss_id s)) (db_executions db) of
          [] \<Rightarrow> True | x # _ \<Rightarrow> \<not> terminalRun (lifecycle_of db (bx_runId x)))"

section \<open>A permit bounds the commands it authorises\<close>

definition agent_authority :: "rdb \<Rightarrow> session_row \<Rightarrow> session_permit \<Rightarrow> rat \<Rightarrow> bool" where
  "agent_authority db s p time \<longleftrightarrow> (\<exists>t r lease. owner_of db s = Some t \<and> run_of db t = Some r
     \<and> tk_status t = ''RUNNING'' \<and> ru_lifecycle r = ''RUNNING'' \<and> ru_cancelRequestedAt r = None
     \<and> pm_ownerTaskId p = Some (tk_id t) \<and> pm_ownerFencingToken p = Some (decimal (tk_fencingToken t))
     \<and> ss_ownerFencingToken s = Some (tk_fencingToken t)
     \<and> tk_leaseExpiresAt t = Some lease \<and> time < of_int lease \<and> time < of_int (ru_deadlineAt r))"

lemma issue_simps [simp]:
  "pm_ownerKind (issue s k owner e) = k" "pm_expiresAt (issue s k owner e) = Some e"
  "pm_ownerTaskId (issue s k owner e) = map_option fst owner"
  "pm_sessionId (issue s k owner e) = ss_id s" "pm_leaseToken (issue s k owner e) = ss_leaseToken s"
  "pm_fencingToken (issue s k owner e) = decimal (ss_fencingToken s)"
  "pm_ownerFencingToken (issue s k owner e) = map_option (\<lambda>o'. decimal (snd o')) owner"
  by (simp_all add: issue_def)

lemma owned_permit_expires:
  assumes "owned_permit db s t r now = Some p" and "owner_of db s = Some t" and "run_of db t = Some r"
  shows "\<exists>e. pm_expiresAt p = Some e \<and> e \<le> ss_leaseExpiresAt s
    \<and> (pm_ownerKind p = AGENT \<longrightarrow> (\<forall>time. time < of_int e \<longrightarrow> agent_authority db s p time))"
proof (cases "pm_ownerKind p = AGENT")
  case True
  with assms(1) have run: "agent_runs s t r now" and p: "p = issue s AGENT (Some (tk_id t, tk_fencingToken t))
      (min (ss_leaseExpiresAt s) (min (coalesce (tk_leaseExpiresAt t) 0) (ru_deadlineAt r)))"
    by (auto simp: owned_permit_def split: if_splits option.splits)
  from run obtain lease where l: "tk_leaseExpiresAt t = Some lease"
    by (auto simp: agent_runs_def split: option.splits)
  have "agent_authority db s p time" if "time < of_int (min (ss_leaseExpiresAt s) (min lease (ru_deadlineAt r)))" for time
  proof -
    have "time < of_int lease" "time < of_int (ru_deadlineAt r)"
      using that by (simp_all add: of_int_min)
    with run l assms(2,3) p show ?thesis by (simp add: agent_authority_def agent_runs_def)
  qed
  with p l show ?thesis by simp
next
  case False
  with assms(1) show ?thesis by (auto simp: owned_permit_def split: if_splits option.splits)
qed

lemma issued_expires:
  assumes "sessionExecutionPermit db s now = Some p"
  shows "\<exists>e. pm_expiresAt p = Some e \<and> e \<le> ss_leaseExpiresAt s
    \<and> (pm_ownerKind p = AGENT \<longrightarrow> (\<forall>time. time < of_int e \<longrightarrow> agent_authority db s p time))"
proof (cases "ss_status s \<noteq> ''HUMAN_CONTROL'' \<and> truthy (ss_ownerTaskId s)")
  case True
  with assms obtain t r where "owner_of db s = Some t" "run_of db t = Some r" "owned_permit db s t r now = Some p"
    by (auto simp: sessionExecutionPermit_def split: if_splits option.splits)
  then show ?thesis by (intro owned_permit_expires)
next
  case False
  with assms show ?thesis
    by (auto simp: sessionExecutionPermit_def unowned_permit_def Let_def split: if_splits option.splits)
qed

text \<open>What the runtime takes the server's clock to show at its monotonic time \<open>m\<close>, when it read
  \<open>server\<close> off a message at the time \<open>n\<close>.\<close>

definition server_clock :: "int \<Rightarrow> rat \<Rightarrow> rat \<Rightarrow> rat \<Rightarrow> rat" where
  "server_clock server rtt n m = of_int server + max 0 rtt + (m - n)"

text \<open>C19: Authority ends with its source. When the control plane issues a permit from its database, the
  runtime accepts it with the server's time, and some later command on the session is authorised
  while that permit is the registered one, then the session's lease had not run out by the server's
  clock at that moment; if the permit is an agent's, neither had the agent's lease nor the deadline
  of its run, and the command's authority is the fencing token that the running task and the session
  had when the permit was issued.\<close>

theorem issued_permit_bounds_commands:
  assumes issued: "sessionExecutionPermit db s now = Some p"
    and accepted: "accept_permit st identity p (Some (Some server)) rtt n1 n2 n3 = (st1, Inr True)"
    and held: "jmap_get (ps_permits st2) (si_sessionId identity) = jmap_get (ps_permits st1) (si_sessionId identity)"
    and command: "assert_permit st2 identity owner startup m = (st3, Inr q)"
  shows "q = p \<and> si_sessionId identity = ss_id s \<and> si_leaseToken identity = ss_leaseToken s
    \<and> server_clock server rtt n3 m < of_int (ss_leaseExpiresAt s)
    \<and> (pm_ownerKind p = AGENT \<longrightarrow> agent_authority db s p (server_clock server rtt n3 m))"
proof -
  obtain e where e: "pm_expiresAt p = Some e" "e \<le> ss_leaseExpiresAt s"
      "pm_ownerKind p = AGENT \<longrightarrow> (\<forall>time. time < of_int e \<longrightarrow> agent_authority db s p time)"
    using issued_expires [OF issued] by blast
  have "snd (accept_permit st identity p (Some (Some server)) rtt n1 n2 n3) = Inr True" by (simp add: accepted)
  then obtain left where st1: "st1 = register_permit st (si_sessionId identity) p (n3 + left)"
      and pre: "accept_precheck st identity p = None"
      and left: "remaining_time st p (Some (Some server)) rtt n2 = Some left"
    by (rule accept_permit_Inr_True) (simp add: accepted)
  from left e(1) have l: "left = of_int e - (of_int server + max 0 rtt)" by (simp add: remaining_time_def)
  from command obtain r where r: "jmap_get (ps_permits st2) (si_sessionId identity) = Some r" "rg_value r = q"
      "m < rg_deadline r"
    by (rule assert_permit_Inr)
  with held st1 have q: "q = p" "rg_deadline r = n3 + left" by auto
  with r(3) l have t: "server_clock server rtt n3 m < of_int e" by (simp add: server_clock_def)
  have "si_sessionId identity = pm_sessionId p" "si_leaseToken identity = pm_leaseToken p"
    using pre by (simp_all add: accept_precheck_def Let_def split: if_splits)
  moreover have "pm_sessionId p = ss_id s" "pm_leaseToken p = ss_leaseToken s"
    using issued by (auto simp: sessionExecutionPermit_def owned_permit_def unowned_permit_def Let_def
        split: if_splits option.splits)
  moreover have "server_clock server rtt n3 m < of_int (ss_leaseExpiresAt s)"
    using t e(2) by (meson less_le_trans of_int_le_iff)
  ultimately show ?thesis using q(1) e(3) t by simp
qed

section \<open>A session\<close>

definition sample_session :: session_row where
  "sample_session = \<lparr>ss_id = ''s'', ss_teamId = ''team'', ss_runtimeId = ''rt'', ss_status = ''ACTIVE'',
     ss_profileMode = ''EPHEMERAL'', ss_ownerTaskId = Some ''k'', ss_ownerFencingToken = Some 4,
     ss_controlGeneration = 0, ss_executionPermitExpiresAt = None, ss_quarantinedAt = None,
     ss_closureVerifiedAt = None, ss_closureEvidenceId = None, ss_launchIdentityVersion = Some 1,
     ss_launchIdentity = JObj [(''version'', JNum 1), (''id'', JStr ''l'')], ss_launchHostInstanceId = Some ''h'',
     ss_launchConnectionGeneration = Some 1, ss_purpose = ''EXECUTION'', ss_leaseToken = ''token'',
     ss_fencingToken = 7, ss_leaseExpiresAt = 100, ss_protocolMinor = 21, ss_humanControllerUserId = None,
     ss_humanControlExpiresAt = None, ss_identityPermit = None, ss_lastError = None, ss_openedAt = Some 1,
     ss_closedAt = None, ss_createdAt = 0\<rparr>"

definition sample_snapshot :: task_snapshot where
  "sample_snapshot = \<lparr>sn_runId = ''u'', sn_attemptId = ''a'', sn_targetUrl = None,
     sn_hasBrowser = True, sn_modelCooldowns = [], sn_criteria =
       [\<lparr>kr_id = ''c1'', kr_required = True, kr_requiredEvidenceKinds = [K_SCREENSHOT], kr_observationTargets = []\<rparr>], sn_businessReferences = [],
     sn_needs = \<lparr>nd_contractVersions = [], nd_accountRequirements = False, nd_protocol26 = False, nd_typedChecks = False\<rparr>,
     sn_coordinationPending = False\<rparr>"

definition sample_policy :: run_policy where
  "sample_policy = \<lparr>py_browser = Some WAIT,
     py_retry = \<lparr>rp_maxAttempts = 3, rp_retryOn = [F_BROWSER_RUNTIME]\<rparr>, py_deadline = FixedDeadline,
     py_hitl = \<lparr>hp_enabled = True, hp_timeoutSeconds = 3600, hp_cancelOnTimeout = False\<rparr>\<rparr>"

definition sample_task :: agent_task where
  "sample_task = \<lparr>tk_id = ''k'', tk_runId = ''u'', tk_attemptId = ''a'', tk_status = ''RUNNING'', tk_fencingToken = 4,
     tk_completionId = None, tk_recoveryStatus = None, tk_result = JNull, tk_leaseExpiresAt = Some 90,
     tk_leaseLostAt = None, tk_resume = JUndefined, tk_executionState = None, tk_capability = ''BROWSER_VERIFICATION'',
     tk_createdAt = 0, tk_deadlineAt = 80, tk_startedAt = Some 0, tk_cancelRequestedAt = None, tk_leaseOwner = Some ''worker'',
     tk_leaseToken = Some ''lease'', tk_recoveryNextAttemptAt = None, tk_snapshot = sample_snapshot, tk_progress = no_progress\<rparr>"

definition sample_run_row :: run_row where
  "sample_run_row = \<lparr>ru_id = ''u'', ru_teamId = ''team'', ru_idempotencyKey = ''key'',
     ru_taskExecutionId = None, ru_sourceKind = ''API'', ru_request = JNull, ru_lifecycle = ''RUNNING'', ru_cancelRequestedAt = None,
     ru_deadlineAt = 80, ru_hardDeadlineAt = 80, ru_environmentSnapshot = JNull, ru_requestedBy = Some ''user'',
     ru_executionPolicy = sample_policy, ru_maxAttempts = 3, ru_currentAttemptNumber = 1, ru_infrastructureRecoveryCount = 0,
     ru_executionBudgetSeconds = None, ru_executionMaxExtensionSeconds = None, ru_executionBudgetStartedAt = None,
     ru_parentDeadlineAt = None, ru_deadlineExtendedMs = 0, ru_deadlineExtensionCount = 0, ru_startedAt = Some 0,
     ru_finishedAt = None, ru_verdict = None, ru_executionDisposition = None\<rparr>"

definition sample_db :: rdb where
  "sample_db = \<lparr>db_runtimes = [], db_sessions = [sample_session], db_recoveries = [], db_evidence = [],
     db_commands = [], db_leases = [], db_tasks = [sample_task], db_runs = [sample_run_row], db_attempts = [],
     db_executions = [\<lparr>bx_runId = ''u'', bx_attemptId = ''a'', bx_runtimeSessionId = Some ''s'', bx_status = ''ACTIVE'',
       bx_allocationToken = None, bx_createdAt = 0, bx_input = JNull\<rparr>],
     db_legacyRuns = [], db_interventions = [], db_runEvents = [], db_runEvidence = [], db_results = [], db_permits = [],
     db_outbox = [], db_slots = [], db_profileLeases = [], db_humanLeases = [], db_members = []\<rparr>"

definition sample_issued :: session_permit where
  "sample_issued = \<lparr>pm_sessionId = ''s'', pm_fencingToken = ''7'', pm_leaseToken = ''token'', pm_ownerKind = AGENT,
     pm_ownerTaskId = Some ''k'', pm_ownerFencingToken = Some ''4'', pm_controlGeneration = Some 0,
     pm_expiresAt = Some 80\<rparr>"

lemma sample_permit_issued: "sessionExecutionPermit sample_db sample_session 10 = Some sample_issued"
proof -
  have "owner_of sample_db sample_session = Some sample_task"
    by (simp add: owner_of_def task_of_def find_by_def sample_db_def sample_session_def sample_task_def)
  moreover have "run_of sample_db sample_task = Some sample_run_row"
    by (simp add: run_of_def find_by_def sample_db_def sample_task_def sample_run_row_def)
  moreover have "decimal 7 = ''7''" "decimal 4 = ''4''"
    by code_simp+
  ultimately show ?thesis
    by (simp add: sessionExecutionPermit_def)
      (simp add: sample_session_def live_status_def owned_permit_def agent_runs_def sample_task_def
        sample_run_row_def issue_def sample_issued_def)
qed

lemma issued_permit_bounds_commands_witness:
  "let identity = \<lparr>si_sessionId = ''s'', si_leaseToken = ''token'', si_fencingToken = ''7''\<rparr>;
       st = initial_permits 0 0;
       st1 = fst (accept_permit st identity sample_issued (Some (Some 20)) 3 0 0 0) in
   snd (assert_permit st1 identity None False 50) = Inr sample_issued \<and> server_clock 20 3 0 50 < 100
     \<and> agent_authority sample_db sample_session sample_issued (server_clock 20 3 0 50)"
proof -
  let ?i = "\<lparr>si_sessionId = ''s'', si_leaseToken = ''token'', si_fencingToken = ''7''\<rparr>"
  let ?st1 = "fst (accept_permit (initial_permits 0 0) ?i sample_issued (Some (Some 20)) 3 0 0 0)"
  have a: "accept_permit (initial_permits 0 0) ?i sample_issued (Some (Some 20)) 3 0 0 0 = (?st1, Inr True)"
    by code_simp
  have b: "assert_permit ?st1 ?i None False 50 = (fst (assert_permit ?st1 ?i None False 50), Inr sample_issued)"
    by code_simp
  show ?thesis
    using issued_permit_bounds_commands [OF sample_permit_issued a refl b] b
    by (simp add: Let_def sample_issued_def) (simp add: sample_session_def prod_eq_iff)
qed

end
