(* ===== verification/SessionRecovery.thy ===== *)
theory SessionRecovery
  imports ExecutionPermit
begin

text \<open>
  The recovery of browser sessions: \<open>apps/api/src/runtime/session-recovery.state.ts\<close>,
  \<open>session-resource-cleanup.ts\<close>, \<open>session-recovery.service.ts\<close> and the claims of
  \<open>session-recovery.worker.ts\<close>. Every operation is one database transaction under the advisory lock
  \<open>browser-execution-resources\<close>: a function from a database to a new one, or an error, after which the
  database is as it was. \<open>now\<close> is the clock, \<open>newId\<close>, \<open>claimToken\<close> and the like are the random
  identifiers drawn. Audit events, notes and the texts of errors are not modelled.
\<close>

datatype recovery_error =
    Recovery_Disabled | Not_Found | Forbidden | Epoch_Reused | Epoch_Changed | Already_Closed
  | Recovery_Needs_Operator | Recovery_Backoff | Another_Closure | Still_Leased | Recovery_Changed
  | Idempotency_Reused | Not_Retryable | Closure_Required | Owner_Running | Owner_Recovery_Pending
  | Evidence_Refused | Superseded_Connection | No_Challenge | No_Launch_Identity | Launch_Not_Excluded
  | Evidence_Replayed | Bad_Environment configuration_error

definition max_closure_attempts :: nat where
  "max_closure_attempts = 6"

section \<open>Writing tables\<close>

definition set_sessions :: "rdb \<Rightarrow> (session_row \<Rightarrow> bool) \<Rightarrow> (session_row \<Rightarrow> session_row) \<Rightarrow> rdb" where
  "set_sessions db P f = db\<lparr>db_sessions := update_where P f (db_sessions db)\<rparr>"

definition set_recovery :: "rdb \<Rightarrow> string \<Rightarrow> (recovery_row \<Rightarrow> recovery_row) \<Rightarrow> rdb" where
  "set_recovery db i f = db\<lparr>db_recoveries := update_where (\<lambda>r. rv_id r = i) f (db_recoveries db)\<rparr>"

definition set_leases :: "rdb \<Rightarrow> (guarded_lease \<Rightarrow> bool) \<Rightarrow> (guarded_lease \<Rightarrow> guarded_lease) \<Rightarrow> rdb" where
  "set_leases db P f = db\<lparr>db_leases := update_where P f (db_leases db)\<rparr>"

definition set_tasks :: "rdb \<Rightarrow> (agent_task \<Rightarrow> bool) \<Rightarrow> (agent_task \<Rightarrow> agent_task) \<Rightarrow> rdb" where
  "set_tasks db P f = db\<lparr>db_tasks := update_where P f (db_tasks db)\<rparr>"

definition next_version :: "recovery_row \<Rightarrow> recovery_row" where
  "next_version r = r\<lparr>rv_version := rv_version r + 1\<rparr>"

definition emitRecoveryChanged :: "rdb \<Rightarrow> recovery_row \<Rightarrow> rdb" where
  "emitRecoveryChanged db r =
     (let row = \<lparr>ox_recoveryId = rv_id r, ox_eventType = ''RECOVERY_CHANGED'', ox_version = rv_version r\<rparr> in
      if row \<in> set (db_outbox db) then db else db\<lparr>db_outbox := db_outbox db @ [row]\<rparr>)"

text \<open>Update a recovery that the transaction has read, count its version up, and announce it.\<close>

definition change_recovery ::
  "rdb \<Rightarrow> recovery_row \<Rightarrow> (recovery_row \<Rightarrow> recovery_row) \<Rightarrow> rdb \<times> recovery_row" where
  "change_recovery db r f =
     (let db' = set_recovery db (rv_id r) (\<lambda>x. next_version (f x)); r' = coalesce (recovery_of db' (rv_id r)) r in
      (emitRecoveryChanged db' r', r'))"

definition same_epoch :: "session_row \<Rightarrow> session_row \<Rightarrow> bool" where
  "same_epoch s x \<longleftrightarrow> ss_id x = ss_id s \<and> ss_fencingToken x = ss_fencingToken s \<and> ss_leaseToken x = ss_leaseToken s"

section \<open>The write outcome and its guards\<close>

definition executionTarget :: "js list \<Rightarrow> string option" where
  "executionTarget vs = (case List.map_filter (\<lambda>v. js_string (js_prop v ''targetUrl'')) vs of
     [] \<Rightarrow> None | u # _ \<Rightarrow> Some u)"

definition first_execution :: "rdb \<Rightarrow> session_row \<Rightarrow> browser_execution option" where
  "first_execution db s =
     (case js_sort (\<lambda>a b. bx_createdAt a \<le> bx_createdAt b)
             (filter (\<lambda>x. bx_runtimeSessionId x = Some (ss_id s)) (db_executions db)) of
        [] \<Rightarrow> None | x # _ \<Rightarrow> Some x)"

definition recovery_target :: "rdb \<Rightarrow> session_row \<Rightarrow> string option" where
  "recovery_target db s = (case first_execution db s of
     Some x \<Rightarrow> executionTarget [bx_input x,
       (case find_by ru_id (bx_runId x) (db_runs db) of None \<Rightarrow> JNull | Some r \<Rightarrow> ru_environmentSnapshot r)]
   | None \<Rightarrow> (case List.find (\<lambda>l. lr_runtimeSessionId l = Some (ss_id s)) (db_legacyRuns db) of
       None \<Rightarrow> None | Some l \<Rightarrow> executionTarget [js_prop (lr_requestSnapshot l) ''execution'']))"

text \<open>The root key the session's writes fall under, and the run it belongs to.\<close>

definition inferRecoveryScope ::
  "recovery_env \<Rightarrow> rdb \<Rightarrow> session_row \<Rightarrow> recovery_error + string \<times> string option" where
  "inferRecoveryScope env db s =
     (case businessEnvironmentKey (rx_collate env) (rx_config env)
             (case recovery_target db s of None \<Rightarrow> None | Some u \<Rightarrow> if u = [] then None else rx_target env u) of
        Inl e \<Rightarrow> Inl (Bad_Environment e)
      | Inr rootKey \<Rightarrow> Inr (rootKey, map_option bx_runId (first_execution db s)))"

definition guard_lease :: "session_row \<Rightarrow> recovery_row \<Rightarrow> string \<Rightarrow> guarded_lease" where
  "guard_lease s r rootKey = \<lparr>le_sessionId = ss_id s,
     le_claim = \<lparr>rc_rootKey = rootKey, rc_resourceKey = [], rc_mode = WRITE, rc_origin = ''LEGACY_RECOVERY''\<rparr>,
     le_quarantined = True, gl_recoveryId = Some (rv_id r)\<rparr>"

text \<open>Adopting the leases of the session, and quarantining those that write.\<close>

definition adopt_leases :: "rdb \<Rightarrow> session_row \<Rightarrow> recovery_row \<Rightarrow> rdb" where
  "adopt_leases db s r = db\<lparr>db_leases := quarantine_writes (ss_id s)
     (update_where (\<lambda>l. le_sessionId l = ss_id s) (\<lambda>l. l\<lparr>gl_recoveryId := Some (rv_id r)\<rparr>) (db_leases db))\<rparr>"

definition materializeRecoveryGuards ::
  "recovery_env \<Rightarrow> rdb \<Rightarrow> session_row \<Rightarrow> recovery_row \<Rightarrow> recovery_error + rdb" where
  "materializeRecoveryGuards env db s r =
     (if writeSettled (rv_writeOutcomeState r) then Inr db
      else if leases_of db s = [] \<and> ss_purpose s = ''EXECUTION'' \<and> rx_locks env
      then (case inferRecoveryScope env db s of
              Inl e \<Rightarrow> Inl e
            | Inr (rootKey, _) \<Rightarrow>
                Inr (adopt_leases (db\<lparr>db_leases := db_leases db @ [guard_lease s r rootKey]\<rparr>) s r))
      else Inr (adopt_leases db s r))"

definition assessed_write :: "recovery_env \<Rightarrow> rdb \<Rightarrow> session_row \<Rightarrow> recovery_row \<Rightarrow> write_state option" where
  "assessed_write env db s r =
     (if hasConfirmedWriteOutcome env db s then Some W_CONFIRMED
      else if no_write_verified db s \<or> hasVerifiedOfflineStartup db s (rv_sourceRunId r)
      then Some W_NO_WRITE_VERIFIED else None)"

definition closure_proven :: "recovery_row \<Rightarrow> bool" where
  "closure_proven r \<longleftrightarrow> rv_closureState r = C_VERIFIED \<and> truthy (rv_closureEvidenceId r)
     \<and> rv_closureVerifiedAt r \<noteq> None"

definition refreshRecoveryWriteOutcome ::
  "recovery_env \<Rightarrow> rdb \<Rightarrow> session_row \<Rightarrow> recovery_row \<Rightarrow> int \<Rightarrow> rdb \<times> recovery_row" where
  "refreshRecoveryWriteOutcome env db s r now =
     (if writeSettled (rv_writeOutcomeState r) then (db, r)
      else case assessed_write env db s r of
          None \<Rightarrow> (db, r)
        | Some w \<Rightarrow>
            let matches = (\<lambda>x. rv_id x = rv_id r \<and> rv_version x = rv_version r
                  \<and> rv_writeOutcomeState x \<in> {W_UNKNOWN, W_UNASSESSED});
                db' = db\<lparr>db_recoveries := update_where matches
                  (\<lambda>x. next_version (x\<lparr>rv_writeOutcomeState := w,
                     rv_resolvedAt := (if closure_proven r then Some now else None)\<rparr>)) (db_recoveries db)\<rparr>;
                current = coalesce (recovery_of db' (rv_id r)) r in
            (if count_rows matches (db_recoveries db) = 1 then emitRecoveryChanged db' current else db', current))"

section \<open>Ensuring a recovery\<close>

definition recovery_for :: "rdb \<Rightarrow> session_row \<Rightarrow> recovery_row option" where
  "recovery_for db s = List.find (\<lambda>r. rv_sessionId r = ss_id s
     \<and> rv_expectedSessionFence r = ss_fencingToken s) (db_recoveries db)"

definition new_recovery ::
  "recovery_env \<Rightarrow> rdb \<Rightarrow> session_row \<Rightarrow> string \<Rightarrow> string option \<Rightarrow> bool \<Rightarrow> int \<Rightarrow> string \<Rightarrow> recovery_row" where
  "new_recovery env db s reason sourceRunId observed now newId =
     (let w = initialWriteState env db s in
      \<lparr>rv_id = newId, rv_teamId = ss_teamId s, rv_runtimeId = ss_runtimeId s, rv_sessionId = ss_id s,
       rv_expectedSessionFence = ss_fencingToken s, rv_expectedLeaseDigest = rx_digest env (ss_leaseToken s),
       rv_reason = reason, rv_sourceRunId = sourceRunId,
       rv_closureState = (if is_verified s then C_VERIFIED else if observed then C_OBSERVED else C_REQUESTED),
       rv_closureEvidenceId = ss_closureEvidenceId s,
       rv_closureVerifiedAt = (if truthy (ss_closureEvidenceId s) then ss_closureVerifiedAt s else None),
       rv_writeOutcomeState = w, rv_attempts = 0,
       rv_nextAttemptAt = (if is_verified s \<or> observed then None else Some now),
       rv_lastErrorCode = None, rv_activeCommandId = None, rv_claimToken = None, rv_claimExpiresAt = None,
       rv_version = 1, rv_resolvedBy = None, rv_resolutionKey = None, rv_resolutionDigest = None,
       rv_writeResolvedAt = None,
       rv_resolvedAt = (if is_verified s \<and> writeSettled w then Some now else None)\<rparr>)"

definition must_promote :: "recovery_row \<Rightarrow> bool \<Rightarrow> bool" where
  "must_promote r observed \<longleftrightarrow> (rv_closureState r = C_OBSERVED \<and> \<not> observed)
     \<or> (rv_closureState r = C_VERIFIED \<and> \<not> truthy (rv_closureEvidenceId r))"

definition guards_unless_observed ::
  "recovery_env \<Rightarrow> rdb \<Rightarrow> session_row \<Rightarrow> recovery_row \<Rightarrow> bool \<Rightarrow> recovery_error + rdb" where
  "guards_unless_observed env db s r observed =
     (if observed then Inr db else materializeRecoveryGuards env db s r)"

definition ensureRecovery ::
  "recovery_env \<Rightarrow> rdb \<Rightarrow> session_row \<Rightarrow> string \<Rightarrow> string option \<Rightarrow> bool \<Rightarrow> int \<Rightarrow> string
   \<Rightarrow> recovery_error + rdb \<times> recovery_row" where
  "ensureRecovery env db s reason sourceRunId observed now newId =
     (case recovery_for db s of
        Some r \<Rightarrow>
          if rv_expectedLeaseDigest r \<noteq> rx_digest env (ss_leaseToken s) then Inl Epoch_Reused
          else let (db1, r1) = refreshRecoveryWriteOutcome env db s r now in
            (case guards_unless_observed env db1 s r1 observed of
               Inl e \<Rightarrow> Inl e
             | Inr db2 \<Rightarrow>
                 if must_promote r1 observed
                 then Inr (change_recovery db2 r1 (\<lambda>x. x\<lparr>rv_closureState := C_REQUESTED,
                        rv_closureVerifiedAt := None, rv_reason := reason, rv_nextAttemptAt := Some now\<rparr>))
                 else Inr (db2, r1))
      | None \<Rightarrow>
          (case inferRecoveryScope env db s of
             Inl e \<Rightarrow> Inl e
           | Inr (_, boundRun) \<Rightarrow>
               let r = new_recovery env db s reason (coalesce_opt sourceRunId boundRun) observed now newId;
                   db1 = db\<lparr>db_recoveries := db_recoveries db @ [r]\<rparr> in
               (case guards_unless_observed env db1 s r observed of
                  Inl e \<Rightarrow> Inl e
                | Inr db2 \<Rightarrow> Inr (emitRecoveryChanged db2 r, r))))"

section \<open>Releasing resources\<close>

definition hasConfirmedBrowserOutcome :: "agent_task \<Rightarrow> bool" where
  "hasConfirmedBrowserOutcome t \<longleftrightarrow> truthy (tk_completionId t) \<and> tk_status t = ''SUCCEEDED''
     \<and> js_prop (tk_result t) ''kind'' = JStr ''VERIFICATION_COMPLETED''"

definition isRevokedSessionOwner :: "rdb \<Rightarrow> session_row \<Rightarrow> agent_task \<Rightarrow> bool" where
  "isRevokedSessionOwner db s t \<longleftrightarrow> tk_status t = ''FAILED'' \<and> tk_leaseLostAt t \<noteq> None
     \<and> tk_leaseExpiresAt t = None
     \<and> (case ss_ownerFencingToken s of None \<Rightarrow> False | Some f \<Rightarrow> tk_fencingToken t = f + 1
          \<and> list_ex (\<lambda>e. vt_teamId e = ss_teamId s \<and> vt_runId e = tk_runId t \<and> vt_taskId e = tk_id t
              \<and> vt_attemptId e = tk_attemptId t \<and> vt_actor e = ''CONTROL_PLANE'' \<and> vt_kind e = ''runtime.lease_lost''
              \<and> js_prop (vt_payload e) ''lostFencingToken'' = JStr (decimal f)) (db_runEvents db))"

text \<open>A closed epoch is absorbing: only a session whose closure is not verified is quarantined.\<close>

definition quarantineSession :: "rdb \<Rightarrow> string \<Rightarrow> string \<Rightarrow> int \<Rightarrow> rdb" where
  "quarantineSession db sid code now =
     (let open_session = (\<lambda>s. ss_id s = sid \<and> ss_closureVerifiedAt s = None \<and> ss_status s \<noteq> ''CLOSED'') in
      if list_ex open_session (db_sessions db)
      then (set_sessions db open_session (\<lambda>s. s\<lparr>ss_status := ''LOST'', ss_executionPermitExpiresAt := Some now,
              ss_humanControllerUserId := None, ss_humanControlExpiresAt := None, ss_lastError := Some code,
              ss_quarantinedAt := Some (coalesce (ss_quarantinedAt s) now)\<rparr>))
            \<lparr>db_leases := quarantine_writes sid (db_leases db)\<rparr>
      else db)"

definition verifiedRecovery :: "recovery_env \<Rightarrow> rdb \<Rightarrow> session_row \<Rightarrow> recovery_row option" where
  "verifiedRecovery env db s =
     (if ss_status s \<noteq> ''CLOSED'' \<or> \<not> is_verified s then None
      else case List.find (\<lambda>e. Some (ev_id e) = ss_closureEvidenceId s) (db_evidence db) of
          None \<Rightarrow> None
        | Some e \<Rightarrow>
            if ev_sessionId e \<noteq> ss_id s \<or> ev_sessionFence e \<noteq> ss_fencingToken s
               \<or> ev_leaseDigest e \<noteq> rx_digest env (ss_leaseToken s) then None
            else (case recovery_for db s of
                    None \<Rightarrow> None
                  | Some r \<Rightarrow> if rv_id r = ev_recoveryId e \<and> rv_closureState r = C_VERIFIED
                        \<and> rv_closureEvidenceId r = Some (ev_id e) \<and> rv_closureVerifiedAt r \<noteq> None
                      then Some r else None))"

definition delete_epoch :: "session_row \<Rightarrow> epoch_row list \<Rightarrow> epoch_row list" where
  "delete_epoch s = delete_where (\<lambda>e. ep_sessionId e = ss_id s \<and> ep_leaseToken e = ss_leaseToken s
     \<and> ep_fencingToken e = ss_fencingToken s)"

text \<open>The owner's recovery status after the release.\<close>

definition settle_owner :: "rdb \<Rightarrow> session_row \<Rightarrow> bool \<Rightarrow> rdb" where
  "settle_owner db s settled = (case owner_of db s of
     None \<Rightarrow> db
   | Some t \<Rightarrow>
       let this = (\<lambda>x. tk_id x = tk_id t \<and> tk_fencingToken x = tk_fencingToken t \<and> tk_status x = tk_status t
             \<and> tk_recoveryStatus x = tk_recoveryStatus t) in
       if settled
       then (if (Some (tk_fencingToken t) = ss_ownerFencingToken s \<or> isRevokedSessionOwner db s t)
                \<and> tk_recoveryStatus t = Some ''WRITE_OUTCOME_UNKNOWN'' \<and> terminalAgent (tk_status t)
             then set_tasks db this (\<lambda>x. x\<lparr>tk_recoveryStatus := Some ''RESOLVED''\<rparr>) else db)
       else (if \<not> hasConfirmedBrowserOutcome t \<and> Some (tk_fencingToken t) = ss_ownerFencingToken s
                \<and> terminalAgent (tk_status t) \<and> tk_recoveryStatus t \<noteq> Some ''RESOLVED''
             then set_tasks db this (\<lambda>x. x\<lparr>tk_recoveryStatus := Some ''WRITE_OUTCOME_UNKNOWN''\<rparr>) else db))"

definition releaseVerifiedSessionResources :: "recovery_env \<Rightarrow> rdb \<Rightarrow> string \<Rightarrow> int \<Rightarrow> rdb \<times> bool" where
  "releaseVerifiedSessionResources env db sid now =
     (case session_of db sid of
        None \<Rightarrow> (db, False)
      | Some s \<Rightarrow> (case verifiedRecovery env db s of
            None \<Rightarrow> (db, False)
          | Some r0 \<Rightarrow>
              let (db1, r) = refreshRecoveryWriteOutcome env db s r0 now;
                  settled = writeSettled (rv_writeOutcomeState r);
                  db2 = db1\<lparr>db_slots := delete_epoch s (db_slots db1),
                    db_profileLeases := delete_epoch s (db_profileLeases db1),
                    db_humanLeases := delete_where (\<lambda>i. i = sid) (db_humanLeases db1),
                    db_leases := release_leases sid settled (db_leases db1)\<rparr>;
                  db3 = settle_owner db2 s settled;
                  remaining = list_ex (\<lambda>l. le_sessionId l = sid \<and> le_quarantined l) (db_leases db3) in
              (set_sessions db3 (\<lambda>x. same_epoch s x \<and> ss_closureVerifiedAt x \<noteq> None)
                 (\<lambda>x. x\<lparr>ss_identityPermit := None, ss_executionPermitExpiresAt := Some now,
                   ss_humanControllerUserId := None, ss_humanControlExpiresAt := None,
                   ss_quarantinedAt := (if remaining then Some (coalesce (ss_quarantinedAt s) now) else None)\<rparr>),
               True)))"

definition releaseCompletedSessionData :: "recovery_env \<Rightarrow> rdb \<Rightarrow> string \<Rightarrow> int \<Rightarrow> rdb" where
  "releaseCompletedSessionData env db taskId now =
     (case task_of db taskId of
        None \<Rightarrow> db
      | Some t \<Rightarrow>
          if \<not> hasConfirmedBrowserOutcome t \<or> tk_recoveryStatus t = Some ''WRITE_OUTCOME_UNKNOWN'' then db
          else foldl (\<lambda>d s. case verifiedRecovery env d s of
                 None \<Rightarrow> d
               | Some r \<Rightarrow> fst (releaseVerifiedSessionResources env
                     (fst (refreshRecoveryWriteOutcome env d s r now)) (ss_id s) now)) db
             (filter (\<lambda>s. ss_ownerTaskId s = Some taskId \<and> ss_ownerFencingToken s = Some (tk_fencingToken t)
                \<and> ss_closureVerifiedAt s \<noteq> None \<and> ss_closureEvidenceId s \<noteq> None) (db_sessions db)))"

end
