(* ===== verification/SessionClosure.thy ===== *)
theory SessionClosure
  imports SessionRecovery
begin

text \<open>
  The transactions of session recovery: \<open>session-recovery.service.ts\<close> (request, prepare a close,
  wake, retry, settle a write outcome), \<open>session-closure.service.ts\<close> (accept the proof of a
  closure, record a failure) and \<open>session-recovery.worker.ts\<close> (discover, claim, renew, let go).

  A transaction takes one reading \<open>now\<close> of the clock where the code may take several. \<open>Inl\<close> is a
  thrown error: nothing is committed.
\<close>

section \<open>Requesting a recovery\<close>

definition suspend_session :: "rdb \<Rightarrow> session_row \<Rightarrow> int \<Rightarrow> rdb" where
  "suspend_session db s now =
     set_sessions db (\<lambda>x. same_epoch s x \<and> ss_closureVerifiedAt x = None)
       (\<lambda>x. x\<lparr>ss_status := ''LOST'', ss_executionPermitExpiresAt := Some now, ss_humanControlExpiresAt := None,
          ss_humanControllerUserId := None, ss_quarantinedAt := Some (coalesce (ss_quarantinedAt s) now)\<rparr>)"

definition request ::
  "recovery_env \<Rightarrow> rdb \<Rightarrow> string \<Rightarrow> string \<Rightarrow> string option \<Rightarrow> bool \<Rightarrow> int \<Rightarrow> string
   \<Rightarrow> recovery_error + rdb \<times> recovery_row" where
  "request env db sid reason sourceRunId explicitClose now newId =
     (if \<not> rx_enabled env then Inl Recovery_Disabled
      else case session_of db sid of
        None \<Rightarrow> Inl Not_Found
      | Some s0 \<Rightarrow>
          let healthy = (\<not> explicitClose \<and> isHealthySession db s0 now);
              db1 = (if \<not> healthy \<and> ss_closureVerifiedAt s0 = None then suspend_session db s0 now else db);
              s = coalesce (session_of db1 sid) s0 in
          (case ensureRecovery env db1 s reason (if truthy sourceRunId then sourceRunId else None) healthy now newId of
             Inl e \<Rightarrow> Inl e
           | Inr (db2, r) \<Rightarrow>
               Inr (if is_verified s then fst (releaseVerifiedSessionResources env db2 sid now) else db2, r)))"

section \<open>The permit of a runtime: one closure at a time\<close>

definition command_pending :: "rdb \<Rightarrow> string option \<Rightarrow> int \<Rightarrow> command_row option" where
  "command_pending db i now = (case i of None \<Rightarrow> None | Some c \<Rightarrow>
     if c = [] then None
     else (case command_of db c of
        Some row \<Rightarrow> if in_flight row \<and> now < cd_deadlineAt row then Some row else None | None \<Rightarrow> None))"

definition permit_busy :: "rdb \<Rightarrow> permit_row \<Rightarrow> int \<Rightarrow> bool" where
  "permit_busy db q now \<longleftrightarrow> list_ex (\<lambda>c. Some (cd_id c) = pt_activeCommandId q \<and> in_flight c
     \<and> now < cd_deadlineAt c) (db_commands db)"

text \<open>\<open>INSERT ... ON CONFLICT (runtime_id) DO UPDATE ... WHERE\<close>: \<open>None\<close> when the row stays with its holder.\<close>

definition take_permit ::
  "rdb \<Rightarrow> permit_row \<Rightarrow> (permit_row \<Rightarrow> bool) \<Rightarrow> (permit_row \<Rightarrow> permit_row) \<Rightarrow> rdb option" where
  "take_permit db p may_take f = (case find_by pt_runtimeId (pt_runtimeId p) (db_permits db) of
     None \<Rightarrow> Some (db\<lparr>db_permits := db_permits db @ [p]\<rparr>)
   | Some q \<Rightarrow> if may_take q
       then Some (db\<lparr>db_permits := update_where (\<lambda>x. pt_runtimeId x = pt_runtimeId p) f (db_permits db)\<rparr>)
       else None)"

definition close_permit :: "rdb \<Rightarrow> permit_row \<Rightarrow> int \<Rightarrow> rdb option" where
  "close_permit db p now = take_permit db p
     (\<lambda>q. pt_recoveryId q = pt_recoveryId p \<or> (pt_claimExpiresAt q \<le> now \<and> \<not> permit_busy db q now)) (\<lambda>_. p)"

definition claim_permit :: "rdb \<Rightarrow> permit_row \<Rightarrow> int \<Rightarrow> rdb option" where
  "claim_permit db p now = take_permit db p
     (\<lambda>q. pt_claimExpiresAt q \<le> now \<and> (pt_recoveryId q = pt_recoveryId p \<or> \<not> permit_busy db q now))
     (\<lambda>q. p\<lparr>pt_activeCommandId := pt_activeCommandId q\<rparr>)"

definition drop_permit :: "rdb \<Rightarrow> (permit_row \<Rightarrow> bool) \<Rightarrow> rdb" where
  "drop_permit db P = db\<lparr>db_permits := delete_where P (db_permits db)\<rparr>"

section \<open>Preparing a close\<close>

definition launch_id :: "js \<Rightarrow> string option" where
  "launch_id identity = (case identity of JStr i \<Rightarrow> Some i | _ \<Rightarrow> js_string (js_prop identity ''id''))"

definition closePayload :: "string \<Rightarrow> string \<Rightarrow> session_row \<Rightarrow> js" where
  "closePayload recoveryId requestId s =
     JObj ([(''recoveryId'', JStr recoveryId), (''requestId'', JStr requestId), (''sessionId'', JStr (ss_id s)),
            (''expectedLeaseToken'', JStr (ss_leaseToken s)),
            (''expectedFencingToken'', JStr (decimal (ss_fencingToken s)))]
       @ (case launch_id (ss_launchIdentity s) of None \<Rightarrow> []
          | Some i \<Rightarrow> if i = [] then [] else [(''expectedLaunchIdentity'', JStr i)])
       @ (case js_string (js_prop (ss_launchIdentity s) ''intentDaemonInstanceId'') of None \<Rightarrow> []
          | Some i \<Rightarrow> [(''expectedLaunchDaemonInstanceId'', JStr i)]))"

definition close_command :: "string \<Rightarrow> session_row \<Rightarrow> string \<Rightarrow> int \<Rightarrow> int \<Rightarrow> command_row" where
  "close_command commandId s recoveryId now deadline =
     \<lparr>cd_id = commandId, cd_sessionId = ss_id s, cd_commandType = ''session.close'', cd_source = ''SYSTEM'',
      cd_status = ''PENDING'', cd_leaseToken = ss_leaseToken s, cd_fencingToken = ss_fencingToken s,
      cd_ownerTaskId = None, cd_ownerFencingToken = None,
      cd_payload = JObj [(''recovery'', closePayload recoveryId commandId s)], cd_result = JNull,
      cd_createdAt = now, cd_deadlineAt = deadline, cd_completedAt = None\<rparr>"

definition add_command :: "rdb \<Rightarrow> command_row \<Rightarrow> rdb" where
  "add_command db c = db\<lparr>db_commands := db_commands db @ [c]\<rparr>"

definition claim_ttl :: int where
  "claim_ttl = 120000"

definition request_close :: "rdb \<Rightarrow> recovery_row \<Rightarrow> rdb" where
  "request_close db r = db\<lparr>db_outbox := db_outbox db
     @ [\<lparr>ox_recoveryId = rv_id r, ox_eventType = ''REQUEST_CLOSE'', ox_version = rv_version r\<rparr>]\<rparr>"

definition closing :: "string \<Rightarrow> string \<Rightarrow> int \<Rightarrow> bool \<Rightarrow> recovery_row \<Rightarrow> recovery_row" where
  "closing commandId token expires again r =
     r\<lparr>rv_closureState := C_CLOSING, rv_activeCommandId := Some commandId, rv_claimToken := Some token,
       rv_claimExpiresAt := Some expires, rv_attempts := (if again then rv_attempts r else rv_attempts r + 1),
       rv_nextAttemptAt := Some expires\<rparr>"

definition close_refused :: "recovery_env \<Rightarrow> session_row \<Rightarrow> recovery_row \<Rightarrow> bool \<Rightarrow> int \<Rightarrow> recovery_error option" where
  "close_refused env s r pending now =
     (if ss_fencingToken s \<noteq> rv_expectedSessionFence r \<or> rx_digest env (ss_leaseToken s) \<noteq> rv_expectedLeaseDigest r
      then Some Epoch_Changed
      else if is_verified s then Some Already_Closed
      else if rv_closureState r = C_NEEDS_OPERATOR \<or> (\<not> pending \<and> max_closure_attempts \<le> rv_attempts r)
      then Some Recovery_Needs_Operator
      else if \<not> pending \<and> (case rv_nextAttemptAt r of None \<Rightarrow> False | Some t \<Rightarrow> now < t)
      then Some Recovery_Backoff
      else None)"

text \<open>The second transaction of \<open>prepareClose\<close>, on the recovery the first one ensured.\<close>

definition begin_close ::
  "recovery_env \<Rightarrow> rdb \<Rightarrow> string \<Rightarrow> string \<Rightarrow> string \<Rightarrow> int \<Rightarrow> int \<Rightarrow> string
   \<Rightarrow> recovery_error + rdb \<times> js" where
  "begin_close env db rid sid proposedId timeoutSeconds now claimToken =
     (case (recovery_of db rid, session_of db sid) of
        (Some r, Some s) \<Rightarrow>
          let prior = command_pending db (rv_activeCommandId r) now in
          (case close_refused env s r (prior \<noteq> None) now of
             Some e \<Rightarrow> Inl e
           | None \<Rightarrow>
               let commandId = (case prior of None \<Rightarrow> proposedId | Some c \<Rightarrow> cd_id c); expires = now + claim_ttl in
               (case close_permit db \<lparr>pt_runtimeId = ss_runtimeId s, pt_recoveryId = rid,
                    pt_activeCommandId = Some commandId, pt_claimToken = claimToken, pt_claimExpiresAt = expires\<rparr> now of
                  None \<Rightarrow> Inl Another_Closure
                | Some db1 \<Rightarrow>
                    let db2 = (if prior \<noteq> None then db1 else add_command db1
                          (close_command commandId s rid now (now + max 1 (min timeoutSeconds 90) * 1000)));
                        (db3, r') = change_recovery db2 r (closing commandId claimToken expires (prior \<noteq> None)) in
                    Inr (request_close db3 r',
                      (case prior of None \<Rightarrow> closePayload rid commandId s
                       | Some c \<Rightarrow> js_prop (cd_payload c) ''recovery''))))
      | _ \<Rightarrow> Inl Not_Found)"

text \<open>Both transactions: what the first committed stays when the second fails.\<close>

definition prepareClose ::
  "recovery_env \<Rightarrow> rdb \<Rightarrow> string \<Rightarrow> string \<Rightarrow> int \<Rightarrow> int \<Rightarrow> string \<Rightarrow> string
   \<Rightarrow> rdb \<times> (recovery_error + js)" where
  "prepareClose env db sid proposedId timeoutSeconds now newId claimToken =
     (case request env db sid ''EXPLICIT_CLOSE'' None True now newId of
        Inl e \<Rightarrow> (db, Inl e)
      | Inr (db1, r) \<Rightarrow> (case begin_close env db1 (rv_id r) sid proposedId timeoutSeconds now claimToken of
            Inl e \<Rightarrow> (db1, Inl e) | Inr (db2, payload) \<Rightarrow> (db2, Inr payload)))"

section \<open>Waking and retrying\<close>

definition closure_capability :: string where
  "closure_capability = ''closure-evidence-v1''"

text \<open>\<open>updateMany\<close> on one recovery as it was read, announced when it applied.\<close>

definition change_if ::
  "rdb \<Rightarrow> recovery_row \<Rightarrow> (recovery_row \<Rightarrow> bool) \<Rightarrow> (recovery_row \<Rightarrow> recovery_row) \<Rightarrow> rdb \<times> bool" where
  "change_if db r P f =
     (let matches = (\<lambda>x. rv_id x = rv_id r \<and> P x) in
      if count_rows matches (db_recoveries db) = 1
      then (let db' = db\<lparr>db_recoveries := update_where matches (\<lambda>x. next_version (f x)) (db_recoveries db)\<rparr> in
            (emitRecoveryChanged db' (coalesce (recovery_of db' (rv_id r)) r), True))
      else (db, False))"

definition requested_again :: "int \<Rightarrow> recovery_row \<Rightarrow> recovery_row" where
  "requested_again now r = r\<lparr>rv_closureState := C_REQUESTED, rv_nextAttemptAt := Some now\<rparr>"

definition waits_for :: "string \<Rightarrow> recovery_row \<Rightarrow> bool" where
  "waits_for runtimeId r \<longleftrightarrow> rv_runtimeId r = runtimeId \<and> rv_closureEvidenceId r = None
     \<and> (rv_closureState r = C_WAITING_RUNTIME
        \<or> rv_closureState r = C_NEEDS_OPERATOR \<and> rv_lastErrorCode r = Some ''UNSUPPORTED_CLOSURE_EVIDENCE'')"

definition wakeRuntime :: "recovery_env \<Rightarrow> rdb \<Rightarrow> string \<Rightarrow> int \<Rightarrow> rdb \<times> nat" where
  "wakeRuntime env db runtimeId now =
     (if \<not> rx_enabled env then (db, 0)
      else case find_by rt_id runtimeId (db_runtimes db) of
        None \<Rightarrow> (db, 0)
      | Some rt \<Rightarrow>
          if \<not> rt_enabled rt \<or> rt_status rt \<noteq> ''ONLINE'' \<or> closure_capability \<notin> set (rt_capabilities rt) then (db, 0)
          else let waiting = take 100 (js_sort (\<lambda>a b. code_unit_compare (rv_id a) (rv_id b) \<le> 0)
                     (filter (waits_for runtimeId) (db_recoveries db))) in
            (foldl (\<lambda>d r. fst (change_if d r (\<lambda>x. rv_version x = rv_version r \<and> rv_closureEvidenceId x = None)
                (requested_again now))) db waiting, length waiting))"

record auth =
  au_teamId :: string
  au_userId :: string

definition role_of :: "rdb \<Rightarrow> auth \<Rightarrow> string option" where
  "role_of db who = map_of (db_members db) (au_teamId who, au_userId who)"

definition owned :: "rdb \<Rightarrow> auth \<Rightarrow> string \<Rightarrow> recovery_row option" where
  "owned db who i = List.find (\<lambda>r. rv_id r = i \<and> rv_teamId r = au_teamId who) (db_recoveries db)"

definition unclaimed :: "int \<Rightarrow> recovery_row \<Rightarrow> bool" where
  "unclaimed now r \<longleftrightarrow> (case rv_claimExpiresAt r of None \<Rightarrow> True | Some t \<Rightarrow> t \<le> now)"

definition retry :: "recovery_env \<Rightarrow> rdb \<Rightarrow> auth \<Rightarrow> string \<Rightarrow> nat \<Rightarrow> int \<Rightarrow> recovery_error + rdb" where
  "retry env db who i expectedVersion now =
     (if \<not> rx_enabled env then Inl Recovery_Disabled
      else if role_of db who = None then Inl Forbidden
      else case owned db who i of
        None \<Rightarrow> Inl Not_Found
      | Some r \<Rightarrow>
          if rv_closureState r = C_VERIFIED then Inr db
          else if rv_closureState r = C_OBSERVED then Inl Still_Leased
          else (case change_if db r (\<lambda>x. rv_version x = expectedVersion \<and> rv_closureVerifiedAt x = None \<and> unclaimed now x)
                  (\<lambda>x. (requested_again now x)\<lparr>rv_attempts := 0\<rparr>) of
             (db', True) \<Rightarrow> Inr db' | (_, False) \<Rightarrow> Inl Recovery_Changed))"

section \<open>Settling a write outcome\<close>

datatype finish_outcome = NO_WRITE | OUTCOME_VERIFIED | COMPENSATED | OUTCOME_RETRY_AUTHORIZED

record finish_input =
  fi_expectedVersion :: nat
  fi_idempotencyKey :: string
  fi_outcome :: finish_outcome
  fi_note :: string
  fi_evidenceRefs :: "string list"

definition outcome_text :: "finish_outcome \<Rightarrow> string" where
  "outcome_text x = (case x of NO_WRITE \<Rightarrow> ''NO_WRITE'' | OUTCOME_VERIFIED \<Rightarrow> ''VERIFIED''
     | COMPENSATED \<Rightarrow> ''COMPENSATED'' | OUTCOME_RETRY_AUTHORIZED \<Rightarrow> ''RETRY_AUTHORIZED'')"

definition finish_digest :: "recovery_env \<Rightarrow> finish_input \<Rightarrow> string" where
  "finish_digest env x = rx_digest env (rx_stringify env (JObj [(''outcome'', JStr (outcome_text (fi_outcome x))),
     (''note'', JStr (fi_note x)), (''evidenceRefs'', JArr (map JStr (fi_evidenceRefs x)))]))"

definition executions_of :: "rdb \<Rightarrow> session_row \<Rightarrow> browser_execution list" where
  "executions_of db s = filter (\<lambda>x. bx_runtimeSessionId x = Some (ss_id s)) (db_executions db)"

definition requested_by :: "rdb \<Rightarrow> browser_execution \<Rightarrow> string option" where
  "requested_by db x = (case find_by ru_id (bx_runId x) (db_runs db) of None \<Rightarrow> None | Some r \<Rightarrow> ru_requestedBy r)"

text \<open>Who may settle: an administrator; a retry also the one who requested every execution of the session.\<close>

definition may_finish :: "rdb \<Rightarrow> auth \<Rightarrow> session_row \<Rightarrow> bool \<Rightarrow> bool" where
  "may_finish db who s retrying \<longleftrightarrow> role_of db who = Some ''ADMIN''
     \<or> (retrying \<and> role_of db who \<noteq> None \<and> executions_of db s \<noteq> []
        \<and> list_all (\<lambda>x. requested_by db x = Some (au_userId who)) (executions_of db s))"

definition closure_on_record :: "recovery_env \<Rightarrow> rdb \<Rightarrow> session_row \<Rightarrow> recovery_row \<Rightarrow> bool" where
  "closure_on_record env db s r \<longleftrightarrow>
     (case List.find (\<lambda>e. Some (ev_id e) = ss_closureEvidenceId s) (db_evidence db) of
        None \<Rightarrow> False
      | Some e \<Rightarrow> ev_sessionId e = ss_id s \<and> ev_sessionFence e = ss_fencingToken s
          \<and> ev_leaseDigest e = rv_expectedLeaseDigest r \<and> ev_recoveryId e = rv_id r
          \<and> rv_closureEvidenceId r = Some (ev_id e) \<and> rv_closureVerifiedAt r \<noteq> None)"

definition epoch_closed :: "recovery_env \<Rightarrow> session_row \<Rightarrow> recovery_row \<Rightarrow> bool" where
  "epoch_closed env s r \<longleftrightarrow> ss_fencingToken s = rv_expectedSessionFence r
     \<and> rx_digest env (ss_leaseToken s) = rv_expectedLeaseDigest r \<and> ss_status s = ''CLOSED'' \<and> is_verified s
     \<and> rv_closureState r = C_VERIFIED"

definition still_running :: "rdb \<Rightarrow> session_row \<Rightarrow> agent_task option \<Rightarrow> bool" where
  "still_running db s t \<longleftrightarrow>
     (case t of None \<Rightarrow> False
      | Some t \<Rightarrow> (Some (tk_fencingToken t) \<noteq> ss_ownerFencingToken s \<and> \<not> isRevokedSessionOwner db s t)
          \<or> \<not> terminalAgent (tk_status t) \<or> \<not> terminalRun (lifecycle_of db (tk_runId t)))
     \<or> list_ex (\<lambda>x. \<not> terminalRun (lifecycle_of db (bx_runId x))) (executions_of db s)"

definition finish_refused ::
  "recovery_env \<Rightarrow> rdb \<Rightarrow> finish_input \<Rightarrow> bool \<Rightarrow> session_row \<Rightarrow> recovery_row \<Rightarrow> recovery_error option" where
  "finish_refused env db x retrying s r =
     (if rv_version r \<noteq> fi_expectedVersion x \<or> rv_writeOutcomeState r = W_RESOLVED
         \<or> (retrying \<and> rv_writeOutcomeState r \<notin> {W_UNKNOWN, W_UNASSESSED}) then Some Recovery_Changed
      else if retrying \<and> (ss_purpose s \<noteq> ''EXECUTION'' \<or> executions_of db s = []) then Some Not_Retryable
      else if \<not> epoch_closed env s r \<or> \<not> closure_on_record env db s r then Some Closure_Required
      else if still_running db s (owner_of db s) then Some Owner_Running
      else if (case owner_of db s of None \<Rightarrow> False
          | Some t \<Rightarrow> tk_recoveryStatus t \<in> Some ` {''PENDING'', ''CLOSING'', ''HITL_CLOSING'', ''RETRY_SCHEDULED''})
      then Some Owner_Recovery_Pending
      else None)"

definition resolve_owner :: "rdb \<Rightarrow> session_row \<Rightarrow> rdb" where
  "resolve_owner db s = (case owner_of db s of None \<Rightarrow> db
     | Some t \<Rightarrow> set_tasks db (\<lambda>y. tk_id y = tk_id t) (\<lambda>y. y\<lparr>tk_recoveryStatus := Some ''RESOLVED''\<rparr>))"

definition finished :: "recovery_env \<Rightarrow> auth \<Rightarrow> finish_input \<Rightarrow> bool \<Rightarrow> int \<Rightarrow> recovery_row \<Rightarrow> recovery_row" where
  "finished env who x retrying now r =
     r\<lparr>rv_writeOutcomeState := (if retrying then W_RETRY_AUTHORIZED else W_RESOLVED),
       rv_resolvedBy := Some (au_userId who), rv_resolutionKey := Some (fi_idempotencyKey x),
       rv_resolutionDigest := Some (finish_digest env x),
       rv_writeResolvedAt := (if retrying then None else Some now), rv_resolvedAt := Some now\<rparr>"

definition finishRecovery ::
  "recovery_env \<Rightarrow> rdb \<Rightarrow> auth \<Rightarrow> string \<Rightarrow> finish_input \<Rightarrow> int \<Rightarrow> recovery_error + rdb \<times> nat" where
  "finishRecovery env db who i x now =
     (let retrying = (fi_outcome x = OUTCOME_RETRY_AUTHORIZED) in
      if \<not> rx_enabled env then Inl Recovery_Disabled
      else if role_of db who = None \<or> (\<not> retrying \<and> role_of db who \<noteq> Some ''ADMIN'') then Inl Forbidden
      else case owned db who i of
        None \<Rightarrow> Inl Not_Found
      | Some r \<Rightarrow> (case session_of db (rv_sessionId r) of
          None \<Rightarrow> Inl Not_Found
        | Some s \<Rightarrow>
            if \<not> may_finish db who s retrying then Inl Forbidden
            else if rv_resolutionKey r = Some (fi_idempotencyKey x)
            then (if rv_resolutionDigest r = Some (finish_digest env x) then Inr (db, 0) else Inl Idempotency_Reused)
            else (case finish_refused env db x retrying s r of
                Some e \<Rightarrow> Inl e
              | None \<Rightarrow> (case materializeRecoveryGuards env (resolve_owner db s) s r of
                    Inl e \<Rightarrow> Inl e
                  | Inr db1 \<Rightarrow>
                      let (db2, _) = change_recovery db1 r (finished env who x retrying now);
                          guarded = (\<lambda>l. le_sessionId l = ss_id s \<and> gl_recoveryId l = Some i) in
                      Inr (set_sessions (db2\<lparr>db_leases := delete_where guarded (db_leases db2)\<rparr>)
                             (\<lambda>y. ss_id y = ss_id s \<and> ss_fencingToken y = rv_expectedSessionFence r
                                \<and> ss_closureVerifiedAt y \<noteq> None) (\<lambda>y. y\<lparr>ss_quarantinedAt := None\<rparr>),
                           count_rows guarded (db_leases db2))))))"

text \<open>\<open>note\<close> is the fixed text the code records with it.\<close>

definition authorizeRetry ::
  "recovery_env \<Rightarrow> string \<Rightarrow> rdb \<Rightarrow> auth \<Rightarrow> string \<Rightarrow> nat \<Rightarrow> string \<Rightarrow> bool \<Rightarrow> int \<Rightarrow> recovery_error + rdb \<times> nat" where
  "authorizeRetry env note db who i expectedVersion key acknowledged now =
     (if \<not> acknowledged then Inl Not_Retryable
      else finishRecovery env db who i \<lparr>fi_expectedVersion = expectedVersion, fi_idempotencyKey = key,
        fi_outcome = OUTCOME_RETRY_AUTHORIZED, fi_note = note, fi_evidenceRefs = []\<rparr> now)"

section \<open>Committing the proof of a closure\<close>

record closure_record =
  cr_evidenceId :: string
  cr_requestId :: string
  cr_method :: string
  cr_summary :: js

definition replayed :: "session_row \<Rightarrow> recovery_row \<Rightarrow> closure_record \<Rightarrow> evidence_row \<Rightarrow> bool" where
  "replayed s r p e \<longleftrightarrow> ev_sessionId e \<noteq> ss_id s \<or> ev_sessionFence e \<noteq> ss_fencingToken s
     \<or> ev_recoveryId e \<noteq> rv_id r \<or> ev_requestId e \<noteq> cr_requestId p"

definition new_evidence ::
  "recovery_env \<Rightarrow> session_row \<Rightarrow> recovery_row \<Rightarrow> closure_record \<Rightarrow> int \<Rightarrow> string \<Rightarrow> evidence_row" where
  "new_evidence env s r p now rowId =
     \<lparr>ev_id = rowId, ev_evidenceId = cr_evidenceId p, ev_recoveryId = rv_id r, ev_requestId = cr_requestId p,
      ev_sessionId = ss_id s, ev_sessionFence = ss_fencingToken s, ev_leaseDigest = rx_digest env (ss_leaseToken s),
      ev_method = cr_method p, ev_summary = cr_summary p, ev_serverVerifiedAt = now\<rparr>"

definition close_session :: "rdb \<Rightarrow> session_row \<Rightarrow> string \<Rightarrow> int \<Rightarrow> rdb option" where
  "close_session db s evidenceRow now =
     (let unproven = (\<lambda>x. same_epoch s x \<and> (ss_closureVerifiedAt x = None \<or> ss_closureEvidenceId x = None)) in
      if count_rows unproven (db_sessions db) \<noteq> 1 then None
      else Some (set_sessions db unproven
        (\<lambda>x. x\<lparr>ss_status := ''CLOSED'', ss_closedAt := Some now, ss_closureVerifiedAt := Some now,
           ss_closureEvidenceId := Some evidenceRow, ss_executionPermitExpiresAt := Some now,
           ss_identityPermit := None, ss_humanControllerUserId := None, ss_humanControlExpiresAt := None\<rparr>)))"

definition verified_by :: "string \<Rightarrow> int \<Rightarrow> recovery_row \<Rightarrow> recovery_row \<Rightarrow> recovery_row" where
  "verified_by evidenceRow now r x =
     x\<lparr>rv_closureState := C_VERIFIED, rv_closureEvidenceId := Some evidenceRow, rv_closureVerifiedAt := Some now,
       rv_nextAttemptAt := None, rv_claimToken := None, rv_claimExpiresAt := None,
       rv_resolvedAt := (if writeSettled (rv_writeOutcomeState r) then Some now else None)\<rparr>"

definition release_executions :: "rdb \<Rightarrow> session_row \<Rightarrow> rdb" where
  "release_executions db s = db\<lparr>db_executions := update_where
     (\<lambda>x. bx_runtimeSessionId x = Some (ss_id s)
        \<and> bx_status x \<in> {''ACTIVE'', ''HUMAN_CONTROL'', ''RELEASING'', ''LOST'', ''FAILED''})
     (\<lambda>x. x\<lparr>bx_status := ''RELEASED''\<rparr>) (db_executions db)\<rparr>"

definition commitEvidence ::
  "recovery_env \<Rightarrow> rdb \<Rightarrow> session_row \<Rightarrow> recovery_row \<Rightarrow> closure_record \<Rightarrow> int \<Rightarrow> string \<Rightarrow> recovery_error + rdb" where
  "commitEvidence env db s r0 p now rowId =
     (let (db1, r) = refreshRecoveryWriteOutcome env db s r0 now;
          prior = find_by ev_evidenceId (cr_evidenceId p) (db_evidence db1) in
      if (case prior of None \<Rightarrow> False | Some e \<Rightarrow> replayed s r p e) then Inl Evidence_Replayed
      else if is_verified s then Inr (fst (releaseVerifiedSessionResources env db1 (ss_id s) now))
      else (case materializeRecoveryGuards env db1 s r of
          Inl e \<Rightarrow> Inl e
        | Inr db2 \<Rightarrow>
            let e = (case prior of None \<Rightarrow> new_evidence env s r p now rowId | Some e \<Rightarrow> e);
                db3 = (if prior = None then db2\<lparr>db_evidence := db_evidence db2 @ [e]\<rparr> else db2) in
            (case close_session db3 s (ev_id e) now of
               None \<Rightarrow> Inl Epoch_Changed
             | Some db4 \<Rightarrow>
                 let db5 = set_recovery db4 (rv_id r) (\<lambda>x. next_version (verified_by (ev_id e) now r x));
                     updated = coalesce (recovery_of db5 (rv_id r)) r;
                     db6 = fst (releaseVerifiedSessionResources env db5 (ss_id s) now);
                     db7 = drop_permit (release_executions db6 s)
                       (\<lambda>q. pt_runtimeId q = ss_runtimeId s \<and> pt_recoveryId q = rv_id r) in
                 Inr (emitRecoveryChanged db7 updated))))"

section \<open>Accepting a proof\<close>

record runtime_context =
  xc_runtimeId :: string
  xc_connectionId :: string
  xc_connectionGeneration :: nat
  xc_negotiatedMinor :: nat
  xc_capabilities :: "string list"
  xc_hostInstanceId :: "string option"
  xc_daemonInstanceId :: "string option"

record runtime_proof =
  pf_evidenceId :: string
  pf_recoveryId :: string
  pf_requestId :: string
  pf_sessionId :: string
  pf_leaseToken :: string
  pf_fencingToken :: string
  pf_hostInstanceId :: string
  pf_daemonInstanceId :: string
  pf_launchIdentityVersion :: int
  pf_method :: string
  pf_networkRevoked :: bool
  pf_closureCompletedAt :: string

definition can_supply :: "runtime_context \<Rightarrow> runtime_proof \<Rightarrow> bool" where
  "can_supply c p \<longleftrightarrow> closure_capability \<in> set (xc_capabilities c) \<and> 14 \<le> xc_negotiatedMinor c \<and> pf_networkRevoked p
     \<and> truthy (xc_hostInstanceId c) \<and> truthy (xc_daemonInstanceId c)
     \<and> xc_hostInstanceId c = Some (pf_hostInstanceId p) \<and> xc_daemonInstanceId c = Some (pf_daemonInstanceId p)
     \<and> pf_method p \<in> {''LIVE_SESSION_TERMINATED'', ''IDENTIFIED_PROCESS_SET_TERMINATED'', ''LAUNCH_PREVENTED''}
     \<and> (pf_method p = ''LAUNCH_PREVENTED'' \<longrightarrow> 15 \<le> xc_negotiatedMinor c
          \<and> ''no-launch-evidence-v1'' \<in> set (xc_capabilities c))
     \<and> 1 \<le> pf_launchIdentityVersion p"

definition current_connection :: "runtime_context \<Rightarrow> runtime_row \<Rightarrow> bool" where
  "current_connection c rt \<longleftrightarrow> rt_enabled rt \<and> \<not> rt_revoked rt \<and> rt_drainState rt = ''NONE'' \<and> rt_status rt = ''ONLINE''
     \<and> rt_connectionId rt = Some (xc_connectionId c) \<and> rt_connectionGeneration rt = xc_connectionGeneration c
     \<and> rt_hostInstanceId rt = xc_hostInstanceId c \<and> rt_daemonInstanceId rt = xc_daemonInstanceId c"

definition matches_epoch :: "runtime_row \<Rightarrow> runtime_proof \<Rightarrow> session_row \<Rightarrow> bool" where
  "matches_epoch rt p s \<longleftrightarrow> ss_runtimeId s = rt_id rt \<and> ss_leaseToken s = pf_leaseToken p
     \<and> decimal (ss_fencingToken s) = pf_fencingToken p
     \<and> (truthy (ss_launchHostInstanceId s) \<longrightarrow> ss_launchHostInstanceId s = Some (pf_hostInstanceId p))"

definition matches_recovery :: "recovery_env \<Rightarrow> runtime_row \<Rightarrow> runtime_proof \<Rightarrow> session_row \<Rightarrow> recovery_row \<Rightarrow> bool" where
  "matches_recovery env rt p s r \<longleftrightarrow> rv_sessionId r = ss_id s \<and> rv_runtimeId r = rt_id rt
     \<and> rv_expectedSessionFence r = ss_fencingToken s \<and> rv_expectedLeaseDigest r = rx_digest env (pf_leaseToken p)"

definition challenge :: "command_row \<Rightarrow> js" where
  "challenge c = js_prop (cd_payload c) ''recovery''"

definition matches_challenge :: "runtime_proof \<Rightarrow> session_row \<Rightarrow> recovery_row \<Rightarrow> command_row \<Rightarrow> bool" where
  "matches_challenge p s r c \<longleftrightarrow> cd_commandType c = ''session.close'' \<and> of_session s c \<and> of_epoch s c
     \<and> js_prop (challenge c) ''recoveryId'' = JStr (rv_id r) \<and> js_prop (challenge c) ''requestId'' = JStr (pf_requestId p)"

definition launch_prevented :: "rdb \<Rightarrow> runtime_proof \<Rightarrow> session_row \<Rightarrow> command_row \<Rightarrow> bool" where
  "launch_prevented db p s c \<longleftrightarrow>
     (let identity = ss_launchIdentity s in
      js_truthy (js_prop identity ''id'') \<and> js_truthy (js_prop identity ''intentDaemonInstanceId'')
      \<and> js_strict_eq (js_prop identity ''id'') (js_prop (challenge c) ''expectedLaunchIdentity'')
      \<and> js_strict_eq (js_prop identity ''intentDaemonInstanceId'') (js_prop (challenge c) ''expectedLaunchDaemonInstanceId'')
      \<and> ss_launchHostInstanceId s = Some (pf_hostInstanceId p) \<and> ss_openedAt s = None \<and> \<not> truthy (ss_ownerTaskId s)
      \<and> count_rows (\<lambda>x. of_session s x \<and> cd_commandType x \<notin> {''session.open'', ''session.close''}) (db_commands db) = 0)"

definition audit_js :: "network_audit \<Rightarrow> js" where
  "audit_js a = JObj [(''version'', JNum 1), (''launchIdentityId'', JStr (na_launchIdentityId a)),
     (''coverage'', JStr ''ISOLATED_CONTEXT_UNTIL_CLOSE''), (''complete'', JBool (na_complete a)),
     (''requestCount'', JNum (of_int (na_requestCount a))), (''potentialWrites'', JNum (of_int (na_potentialWrites a)))]"

definition accepted_audit :: "runtime_context \<Rightarrow> runtime_proof \<Rightarrow> session_row \<Rightarrow> js \<Rightarrow> network_audit option" where
  "accepted_audit c p s v = (case closed_audit_schema v of
     None \<Rightarrow> None
   | Some a \<Rightarrow> if 21 \<le> xc_negotiatedMinor c \<and> 21 \<le> ss_protocolMinor s \<and> pf_method p = ''LIVE_SESSION_TERMINATED''
        \<and> js_prop (ss_launchIdentity s) ''id'' = JStr (na_launchIdentityId a) then Some a else None)"

text \<open>An audit that arrives after the closure enriches the evidence of that closure.\<close>

definition enrich_evidence :: "rdb \<Rightarrow> runtime_proof \<Rightarrow> session_row \<Rightarrow> recovery_row \<Rightarrow> network_audit option \<Rightarrow> rdb" where
  "enrich_evidence db p s r audit = (case audit of None \<Rightarrow> db
     | Some a \<Rightarrow> db\<lparr>db_evidence := update_where
         (\<lambda>e. truthy (ss_closureEvidenceId s) \<and> Some (ev_id e) = ss_closureEvidenceId s \<and> ev_sessionId e = ss_id s
            \<and> ev_sessionFence e = ss_fencingToken s
            \<and> ev_recoveryId e = rv_id r \<and> ev_method e = ''LIVE_SESSION_TERMINATED''
            \<and> js_prop (ev_summary e) ''closureCompletedAt'' = JStr (pf_closureCompletedAt p)
            \<and> \<not> js_truthy (js_prop (ev_summary e) ''writeAudit''))
         (\<lambda>e. e\<lparr>ev_summary := js_with (ev_summary e) ''writeAudit'' (audit_js a)\<rparr>) (db_evidence db)\<rparr>)"

definition runtime_record :: "runtime_proof \<Rightarrow> network_audit option \<Rightarrow> closure_record" where
  "runtime_record p audit = \<lparr>cr_evidenceId = pf_evidenceId p, cr_requestId = pf_requestId p, cr_method = pf_method p,
     cr_summary = JObj ([(''networkRevoked'', JBool True), (''closureCompletedAt'', JStr (pf_closureCompletedAt p))]
       @ (case audit of None \<Rightarrow> [] | Some a \<Rightarrow> [(''writeAudit'', audit_js a)]))\<rparr>"

text \<open>What a proof must answer: the connection, the epoch, the recovery and the close command it is for.\<close>

definition proof_refused ::
  "recovery_env \<Rightarrow> rdb \<Rightarrow> runtime_context \<Rightarrow> runtime_proof
   \<Rightarrow> recovery_error + session_row \<times> recovery_row \<times> command_row" where
  "proof_refused env db c p =
     (if \<not> can_supply c p then Inl Evidence_Refused
      else case find_by rt_id (xc_runtimeId c) (db_runtimes db) of None \<Rightarrow> Inl Superseded_Connection
      | Some rt \<Rightarrow> if \<not> current_connection c rt then Inl Superseded_Connection
      else (case session_of db (pf_sessionId p) of None \<Rightarrow> Inl Epoch_Changed
      | Some s \<Rightarrow> if \<not> matches_epoch rt p s then Inl Epoch_Changed
      else (case recovery_of db (pf_recoveryId p) of None \<Rightarrow> Inl Epoch_Changed
      | Some r \<Rightarrow> if \<not> matches_recovery env rt p s r then Inl Epoch_Changed
      else (case command_of db (pf_requestId p) of None \<Rightarrow> Inl No_Challenge
      | Some cmd \<Rightarrow> if \<not> matches_challenge p s r cmd then Inl No_Challenge
          else if pf_method p = ''IDENTIFIED_PROCESS_SET_TERMINATED''
             \<and> \<not> js_truthy (js_prop (challenge cmd) ''expectedLaunchIdentity'') then Inl No_Launch_Identity
          else if pf_method p = ''LAUNCH_PREVENTED'' \<and> \<not> launch_prevented db p s cmd then Inl Launch_Not_Excluded
          else Inr (s, r, cmd)))))"

definition acceptRuntimeEvidence ::
  "recovery_env \<Rightarrow> rdb \<Rightarrow> runtime_context \<Rightarrow> runtime_proof \<Rightarrow> js \<Rightarrow> int \<Rightarrow> string \<Rightarrow> recovery_error + rdb" where
  "acceptRuntimeEvidence env db c p writeAudit now rowId =
     (if \<not> rx_enabled env then Inl Recovery_Disabled
      else case proof_refused env db c p of
        Inl e \<Rightarrow> Inl e
      | Inr (s, r0, _) \<Rightarrow>
          let db1 = (if pf_method p = ''LAUNCH_PREVENTED''
                then set_recovery db (rv_id r0) (\<lambda>x. next_version (x\<lparr>rv_writeOutcomeState := W_NO_WRITE_VERIFIED\<rparr>)) else db);
              r = coalesce (recovery_of db1 (rv_id r0)) r0;
              audit = accepted_audit c p s writeAudit in
          commitEvidence env (enrich_evidence db1 p s r audit) s r (runtime_record p audit) now rowId)"

text \<open>A profile purge is forbidden to launch a browser.\<close>

definition acceptNeverLaunched ::
  "recovery_env \<Rightarrow> rdb \<Rightarrow> string \<Rightarrow> string \<Rightarrow> string \<Rightarrow> int \<Rightarrow> string \<Rightarrow> string \<Rightarrow> string \<Rightarrow> recovery_error + rdb" where
  "acceptNeverLaunched env db sid fence leaseToken now newId evidenceId rowId =
     (if \<not> rx_enabled env then Inl Recovery_Disabled
      else case session_of db sid of None \<Rightarrow> Inl Not_Found
      | Some s \<Rightarrow>
          if ss_purpose s \<noteq> ''PROFILE_PURGE'' \<or> ss_launchConnectionGeneration s = None
             \<or> decimal (ss_fencingToken s) \<noteq> fence \<or> ss_leaseToken s \<noteq> leaseToken
             \<or> count_rows (\<lambda>c. of_session s c \<and> cd_commandType c \<noteq> ''profile.purge'') (db_commands db) \<noteq> 0
          then Inl Launch_Not_Excluded
          else (case ensureRecovery env db s ''CONTROL_PLANE_NO_LAUNCH'' None False now newId of
              Inl e \<Rightarrow> Inl e
            | Inr (db1, r) \<Rightarrow> commitEvidence env db1 s r \<lparr>cr_evidenceId = evidenceId, cr_requestId = rv_id r,
                cr_method = ''CONTROL_PLANE_NO_LAUNCH'',
                cr_summary = JObj [(''purpose'', JStr ''PROFILE_PURGE'')]\<rparr> now rowId))"

text \<open>Called in the transaction of the drain service, which has checked the administrator.\<close>

definition acceptAdminDrainEvidence ::
  "recovery_env \<Rightarrow> rdb \<Rightarrow> string \<Rightarrow> string \<Rightarrow> string \<Rightarrow> string \<Rightarrow> string \<Rightarrow> string list \<Rightarrow> int \<Rightarrow> string \<Rightarrow> string
   \<Rightarrow> recovery_error + rdb" where
  "acceptAdminDrainEvidence env db sid fence digest evidenceId drainId evidenceRefs now newId rowId =
     (if \<not> rx_enabled env then Inl Recovery_Disabled
      else case session_of db sid of None \<Rightarrow> Inl Not_Found
      | Some s \<Rightarrow>
          if decimal (ss_fencingToken s) \<noteq> fence \<or> rx_digest env (ss_leaseToken s) \<noteq> digest then Inl Epoch_Changed
          else (case ensureRecovery env db s ''ADMIN_DRAIN'' None False now newId of
              Inl e \<Rightarrow> Inl e
            | Inr (db1, r) \<Rightarrow> commitEvidence env db1 s r \<lparr>cr_evidenceId = evidenceId, cr_requestId = drainId,
                cr_method = ''ADMIN_DRAIN_ATTESTATION'',
                cr_summary = JObj [(''evidenceRefs'', JArr (map JStr evidenceRefs))]\<rparr> now rowId))"

section \<open>Recording a failed attempt\<close>

record closure_failure =
  cf_sessionId :: string
  cf_fencingToken :: string
  cf_leaseToken :: string
  cf_requestId :: "string option"
  cf_errorCode :: string
  cf_claimToken :: "string option"

definition retry_delay :: "nat \<Rightarrow> int" where
  "retry_delay attempts = [5, 15, 30, 60, 120] ! min attempts 4 * 1000"

text \<open>\<open>jitter\<close> is the random number of \<open>[0, 1)\<close>.\<close>

definition next_attempt :: "nat \<Rightarrow> int \<Rightarrow> rat \<Rightarrow> int" where
  "next_attempt attempts now jitter = now + \<lfloor>of_int (retry_delay attempts) * (4 / 5 + jitter * (2 / 5))\<rfloor>"

definition fatal_codes :: "string list" where
  "fatal_codes = [''CLOSURE_UNVERIFIED'', ''LAUNCH_IDENTITY_UNAVAILABLE'', ''UNSUPPORTED_CLOSURE_EVIDENCE'']"

definition failed_attempt :: "closure_failure \<Rightarrow> int \<Rightarrow> rat \<Rightarrow> recovery_row \<Rightarrow> recovery_row" where
  "failed_attempt f now jitter r =
     (let operator = (cf_errorCode f \<in> set fatal_codes \<or> max_closure_attempts \<le> rv_attempts r) in
      r\<lparr>rv_closureState := (if operator then C_NEEDS_OPERATOR
           else if cf_errorCode f = ''RUNTIME_OFFLINE'' then C_WAITING_RUNTIME else C_RETRY_WAIT),
        rv_lastErrorCode := Some (cf_errorCode f),
        rv_nextAttemptAt := (if operator then None else Some (next_attempt (rv_attempts r) now jitter)),
        rv_claimToken := None, rv_claimExpiresAt := None\<rparr>)"

definition recordFailure ::
  "recovery_env \<Rightarrow> rdb \<Rightarrow> closure_failure \<Rightarrow> int \<Rightarrow> rat \<Rightarrow> string \<Rightarrow> recovery_error + rdb \<times> bool" where
  "recordFailure env db f now jitter newId =
     (if \<not> rx_enabled env then Inl Recovery_Disabled
      else case session_of db (cf_sessionId f) of None \<Rightarrow> Inr (db, False)
      | Some s \<Rightarrow>
          if is_verified s \<or> decimal (ss_fencingToken s) \<noteq> cf_fencingToken f \<or> ss_leaseToken s \<noteq> cf_leaseToken f
          then Inr (db, False)
          else (case ensureRecovery env db s (cf_errorCode f) None False now newId of
              Inl e \<Rightarrow> Inl e
            | Inr (db1, r) \<Rightarrow>
                if (truthy (cf_requestId f) \<and> rv_activeCommandId r \<noteq> cf_requestId f)
                   \<or> (truthy (cf_claimToken f) \<and> rv_claimToken r \<noteq> cf_claimToken f)
                   \<or> rv_closureState r = C_NEEDS_OPERATOR then Inr (db1, False)
                else let db2 = set_sessions db1 (\<lambda>x. same_epoch s x \<and> ss_closureVerifiedAt x = None)
                         (\<lambda>x. x\<lparr>ss_status := ''LOST'', ss_executionPermitExpiresAt := Some now,
                            ss_quarantinedAt := Some (coalesce (ss_quarantinedAt s) now),
                            ss_lastError := Some (cf_errorCode f)\<rparr>) in
                  Inr (fst (change_recovery db2 r (failed_attempt f now jitter)), True)))"

section \<open>The worker\<close>

definition claimable :: "int \<Rightarrow> recovery_row \<Rightarrow> bool" where
  "claimable now r \<longleftrightarrow> rv_closureState r \<in> {C_REQUESTED, C_RETRY_WAIT, C_WAITING_RUNTIME, C_CLOSING}
     \<and> rv_closureVerifiedAt r = None \<and> (case rv_nextAttemptAt r of None \<Rightarrow> True | Some t \<Rightarrow> t \<le> now) \<and> unclaimed now r"

definition claim_le :: "recovery_row \<Rightarrow> recovery_row \<Rightarrow> bool" where
  "claim_le a b = (case (rv_nextAttemptAt a, rv_nextAttemptAt b) of
     (None, Some _) \<Rightarrow> True | (Some _, None) \<Rightarrow> False
   | (None, None) \<Rightarrow> code_unit_compare (rv_id a) (rv_id b) \<le> 0
   | (Some x, Some y) \<Rightarrow> x < y \<or> x = y \<and> code_unit_compare (rv_id a) (rv_id b) \<le> 0)"

definition deferWithoutDispatch :: "rdb \<Rightarrow> recovery_row \<Rightarrow> closure_state \<Rightarrow> string \<Rightarrow> int option \<Rightarrow> rdb" where
  "deferWithoutDispatch db r state code retryAt =
     fst (change_recovery db r (\<lambda>x. x\<lparr>rv_closureState := state, rv_lastErrorCode := Some code,
       rv_nextAttemptAt := retryAt, rv_claimToken := None, rv_claimExpiresAt := None\<rparr>))"

definition can_close :: "runtime_row \<Rightarrow> bool" where
  "can_close rt \<longleftrightarrow> closure_capability \<in> set (rt_capabilities rt) \<and> truthy (rt_hostInstanceId rt) \<and> truthy (rt_daemonInstanceId rt)"

definition claim_one ::
  "rdb \<Rightarrow> recovery_row \<Rightarrow> int \<Rightarrow> string \<Rightarrow> string \<Rightarrow> recovery_error + rdb \<times> recovery_row option" where
  "claim_one db r now token newCommandId =
     (case find_by rt_id (rv_runtimeId r) (db_runtimes db) of
        None \<Rightarrow> Inr (deferWithoutDispatch db r C_WAITING_RUNTIME ''RUNTIME_OFFLINE'' (Some (now + 120000)), None)
      | Some rt \<Rightarrow>
          if rt_status rt \<noteq> ''ONLINE'' \<or> \<not> rt_enabled rt
          then Inr (deferWithoutDispatch db r C_WAITING_RUNTIME ''RUNTIME_OFFLINE'' (Some (now + 120000)), None)
          else if \<not> can_close rt
          then Inr (deferWithoutDispatch db r C_NEEDS_OPERATOR ''UNSUPPORTED_CLOSURE_EVIDENCE'' None, None)
          else (case claim_permit db \<lparr>pt_runtimeId = rv_runtimeId r, pt_recoveryId = rv_id r, pt_activeCommandId = None,
                   pt_claimToken = token, pt_claimExpiresAt = now + claim_ttl\<rparr> now of
              None \<Rightarrow> Inr (db, None)
            | Some db1 \<Rightarrow>
                let mine = (\<lambda>q. pt_runtimeId q = rv_runtimeId r \<and> pt_claimToken q = token) in
                (case session_of db1 (rv_sessionId r) of None \<Rightarrow> Inl Not_Found
                 | Some s \<Rightarrow>
                     if is_verified s \<or> ss_fencingToken s \<noteq> rv_expectedSessionFence r then Inr (drop_permit db1 mine, None)
                     else let previous = command_pending db1 (rv_activeCommandId r) now in
                     if previous = None \<and> max_closure_attempts \<le> rv_attempts r
                     then Inr (drop_permit (deferWithoutDispatch db1 r C_NEEDS_OPERATOR ''RECOVERY_ATTEMPTS_EXHAUSTED'' None) mine, None)
                     else let commandId = (case previous of None \<Rightarrow> newCommandId | Some c \<Rightarrow> cd_id c);
                         db2 = (if previous \<noteq> None then db1
                           else add_command db1 (close_command commandId s (rv_id r) now (now + 90000)));
                         db3 = db2\<lparr>db_permits := update_where mine (\<lambda>q. q\<lparr>pt_activeCommandId := Some commandId\<rparr>) (db_permits db2)\<rparr>;
                         db4 = set_recovery db3 (rv_id r)
                           (\<lambda>x. next_version (closing commandId token (now + claim_ttl) (previous \<noteq> None) x));
                         updated = coalesce (recovery_of db4 (rv_id r)) r in
                       Inr (emitRecoveryChanged (request_close db4 updated) updated, Some updated))))"

text \<open>The rows are read again one by one; \<open>fresh\<close> gives the random claim token and command id of each.\<close>

fun claim_rows ::
  "string list \<Rightarrow> int \<Rightarrow> (string \<Rightarrow> string \<times> string) \<Rightarrow> rdb \<Rightarrow> recovery_error + rdb \<times> recovery_row list" where
  "claim_rows [] now fresh db = Inr (db, [])"
| "claim_rows (i # ids) now fresh db =
     (case recovery_of db i of None \<Rightarrow> Inl Not_Found
      | Some r \<Rightarrow> (case claim_one db r now (fst (fresh i)) (snd (fresh i)) of
          Inl e \<Rightarrow> Inl e
        | Inr (db1, claimed) \<Rightarrow> (case claim_rows ids now fresh db1 of
            Inl e \<Rightarrow> Inl e
          | Inr (db2, rest) \<Rightarrow> Inr (db2, (case claimed of None \<Rightarrow> rest | Some r' \<Rightarrow> r' # rest)))))"

definition claim ::
  "rdb \<Rightarrow> nat \<Rightarrow> int \<Rightarrow> (string \<Rightarrow> string \<times> string) \<Rightarrow> recovery_error + rdb \<times> recovery_row list" where
  "claim db limit now fresh =
     claim_rows (map rv_id (take (min limit 20) (js_sort claim_le (filter (claimable now) (db_recoveries db))))) now fresh db"

text \<open>The renewal of a claim while its close is under way, and the end of its dispatch.\<close>

definition renew_claim :: "rdb \<Rightarrow> recovery_row \<Rightarrow> int \<Rightarrow> rdb" where
  "renew_claim db r now =
     (let held = (\<lambda>x. rv_id x = rv_id r \<and> rv_claimToken x = rv_claimToken r \<and> rv_closureVerifiedAt x = None) in
      if count_rows held (db_recoveries db) = 0 then db
      else db\<lparr>db_recoveries := update_where held (\<lambda>x. x\<lparr>rv_claimExpiresAt := Some (now + claim_ttl)\<rparr>) (db_recoveries db),
         db_permits := update_where (\<lambda>q. pt_runtimeId q = rv_runtimeId r \<and> pt_recoveryId q = rv_id r
             \<and> Some (pt_claimToken q) = rv_claimToken r) (\<lambda>q. q\<lparr>pt_claimExpiresAt := now + claim_ttl\<rparr>) (db_permits db)\<rparr>)"

definition release_claim :: "rdb \<Rightarrow> recovery_row \<Rightarrow> rdb" where
  "release_claim db r =
     (case (rv_activeCommandId r, rv_claimToken r) of
        (Some c, Some token) \<Rightarrow>
          if (case command_of db c of None \<Rightarrow> True | Some row \<Rightarrow> \<not> in_flight row)
          then drop_permit db (\<lambda>q. pt_runtimeId q = rv_runtimeId r \<and> pt_recoveryId q = rv_id r \<and> pt_claimToken q = token)
          else db
      | _ \<Rightarrow> db)"

end
