(* ===== verification/RecoveryInvariant.thy ===== *)
theory RecoveryInvariant
  imports SessionClosure
begin

text \<open>
  What the transactions of \<open>SessionClosure\<close> keep: the invariant \<open>recovery_inv\<close> that ties sessions,
  recoveries and closure evidence together, the order \<open>later\<close> in which they move (nothing lost, closed stays
  closed, settled stays settled), the leases that may go (\<open>leases_safe\<close>), and the lemmas for the steps that
  the transactions share: refreshing a write outcome, guarding, releasing, ensuring a recovery and committing
  a closure.
\<close>

section \<open>What is kept of the rows\<close>

definition same_session :: "session_row \<Rightarrow> session_row \<Rightarrow> bool" where
  "same_session s s' \<longleftrightarrow> ss_id s' = ss_id s \<and> ss_fencingToken s' = ss_fencingToken s
     \<and> ss_leaseToken s' = ss_leaseToken s \<and> ss_closureVerifiedAt s' = ss_closureVerifiedAt s
     \<and> ss_closureEvidenceId s' = ss_closureEvidenceId s \<and> (is_verified s \<longrightarrow> ss_status s' = ss_status s)"

definition same_evidence :: "evidence_row \<Rightarrow> evidence_row \<Rightarrow> bool" where
  "same_evidence e e' \<longleftrightarrow> ev_id e' = ev_id e \<and> ev_evidenceId e' = ev_evidenceId e \<and> ev_recoveryId e' = ev_recoveryId e
     \<and> ev_requestId e' = ev_requestId e \<and> ev_sessionId e' = ev_sessionId e \<and> ev_sessionFence e' = ev_sessionFence e
     \<and> ev_leaseDigest e' = ev_leaseDigest e"

definition recovery_key :: "recovery_row \<Rightarrow> string \<times> nat" where
  "recovery_key r = (rv_sessionId r, rv_expectedSessionFence r)"

definition session_epoch :: "session_row \<Rightarrow> string \<times> nat" where
  "session_epoch s = (ss_id s, ss_fencingToken s)"

definition closure_fields :: "recovery_row \<Rightarrow> bool \<times> int option \<times> string option" where
  "closure_fields r = (rv_closureState r = C_VERIFIED, rv_closureVerifiedAt r, rv_closureEvidenceId r)"

text \<open>A recovery row in itself: its closure columns agree, it is resolved only when closed and settled,
  and it has not been attempted too often.\<close>

definition row_ok :: "recovery_row \<Rightarrow> bool" where
  "row_ok r \<longleftrightarrow> (rv_closureState r = C_VERIFIED \<longleftrightarrow> rv_closureVerifiedAt r \<noteq> None)
     \<and> (rv_closureState r = C_VERIFIED \<longleftrightarrow> rv_closureEvidenceId r \<noteq> None)
     \<and> (rv_resolvedAt r \<noteq> None \<longrightarrow> rv_closureState r = C_VERIFIED \<and> writeSettled (rv_writeOutcomeState r))
     \<and> rv_attempts r \<le> max_closure_attempts"

definition kept_recovery :: "recovery_row \<Rightarrow> recovery_row \<Rightarrow> bool" where
  "kept_recovery r r' \<longleftrightarrow> rv_id r' = rv_id r \<and> recovery_key r' = recovery_key r \<and> rv_teamId r' = rv_teamId r
     \<and> rv_runtimeId r' = rv_runtimeId r \<and> rv_expectedLeaseDigest r' = rv_expectedLeaseDigest r
     \<and> rv_version r \<le> rv_version r'
     \<and> (writeSettled (rv_writeOutcomeState r) \<longrightarrow> writeSettled (rv_writeOutcomeState r'))
     \<and> (row_ok r \<longrightarrow> row_ok r' \<and> closure_fields r' = closure_fields r)"

definition keeps :: "rdb \<Rightarrow> rdb \<Rightarrow> bool" where
  "keeps db db' \<longleftrightarrow> list_all2 same_session (db_sessions db) (db_sessions db')
     \<and> list_all2 kept_recovery (db_recoveries db) (db_recoveries db')
     \<and> list_all2 same_evidence (db_evidence db) (db_evidence db')"

section \<open>The invariant\<close>

definition proved_by :: "recovery_env \<Rightarrow> session_row \<Rightarrow> recovery_row \<Rightarrow> evidence_row \<Rightarrow> bool" where
  "proved_by env s r e \<longleftrightarrow> ss_status s = ''CLOSED'' \<and> is_verified s \<and> ss_closureEvidenceId s = Some (ev_id e)
     \<and> ev_sessionId e = ss_id s \<and> ev_sessionFence e = ss_fencingToken s
     \<and> ev_leaseDigest e = rx_digest env (ss_leaseToken s) \<and> ev_recoveryId e = rv_id r
     \<and> recovery_key r = session_epoch s
     \<and> rv_closureState r = C_VERIFIED \<and> rv_closureEvidenceId r = Some (ev_id e)"

definition recovery_inv :: "recovery_env \<Rightarrow> rdb \<Rightarrow> bool" where
  "recovery_inv env db \<longleftrightarrow>
     distinct (map ss_id (db_sessions db)) \<and> distinct (map rv_id (db_recoveries db))
     \<and> distinct (map recovery_key (db_recoveries db)) \<and> distinct (map ev_id (db_evidence db))
     \<and> (\<forall>r\<in>set (db_recoveries db). row_ok r)
     \<and> (\<forall>s\<in>set (db_sessions db). \<not> is_verified s \<longrightarrow> ss_closureEvidenceId s = None)
     \<and> (\<forall>s\<in>set (db_sessions db). is_verified s \<longrightarrow>
          (\<exists>r\<in>set (db_recoveries db). \<exists>e\<in>set (db_evidence db). proved_by env s r e))
     \<and> (\<forall>r\<in>set (db_recoveries db). rv_closureState r = C_VERIFIED \<longrightarrow>
          (\<exists>s\<in>set (db_sessions db). \<exists>e\<in>set (db_evidence db). proved_by env s r e))
     \<and> (\<forall>e\<in>set (db_evidence db). \<exists>s\<in>set (db_sessions db).
          session_epoch s = (ev_sessionId e, ev_sessionFence e) \<and> is_verified s)"

lemma same_session_refl [simp]: "same_session s s"
  by (simp add: same_session_def)

lemma same_evidence_refl [simp]: "same_evidence e e"
  by (simp add: same_evidence_def)

lemma kept_recovery_refl [simp]: "kept_recovery r r"
  by (simp add: kept_recovery_def)

lemma same_session_verified: "same_session s s' \<Longrightarrow> is_verified s' = is_verified s"
  by (simp add: same_session_def is_verified_def)

lemma same_session_trans: "same_session a b \<Longrightarrow> same_session b c \<Longrightarrow> same_session a c"
  using same_session_verified [of a b] by (simp add: same_session_def)

lemma kept_recovery_trans: "kept_recovery a b \<Longrightarrow> kept_recovery b c \<Longrightarrow> kept_recovery a c"
  by (auto simp: kept_recovery_def)

lemma same_evidence_trans: "same_evidence a b \<Longrightarrow> same_evidence b c \<Longrightarrow> same_evidence a c"
  by (simp add: same_evidence_def)

lemma keeps_refl [simp]: "keeps db db"
  by (simp add: keeps_def list_all2_refl)

lemma list_all2_compose:
  assumes "list_all2 R xs ys" "list_all2 R ys zs" and t: "\<And>x y z. R x y \<Longrightarrow> R y z \<Longrightarrow> R x z"
  shows "list_all2 R xs zs"
proof (rule list_all2_trans [OF _ assms(1,2)])
  fix x y z assume "R x y" "R y z"
  then show "R x z" by (rule t)
qed

lemma keeps_trans: "keeps a b \<Longrightarrow> keeps b c \<Longrightarrow> keeps a c"
  unfolding keeps_def
  by (elim conjE, intro conjI)
    (erule (1) list_all2_compose, erule (1) same_session_trans kept_recovery_trans same_evidence_trans)+

lemma list_all2_update_where:
  "(\<And>x. x \<in> set xs \<Longrightarrow> P x \<Longrightarrow> R x (f x)) \<Longrightarrow> (\<And>x. R x x) \<Longrightarrow> list_all2 R xs (update_where P f xs)"
  by (auto simp: update_where_def list_all2_map2 intro!: list.rel_refl_strong)

lemma list_all2_map_eq: "list_all2 R xs ys \<Longrightarrow> (\<And>x y. R x y \<Longrightarrow> f y = f x) \<Longrightarrow> map f ys = map f xs"
  by (induction rule: list_all2_induct) auto

lemma list_all2_mem: "list_all2 R xs ys \<Longrightarrow> x \<in> set xs \<Longrightarrow> \<exists>y\<in>set ys. R x y"
  by (induction rule: list_all2_induct) auto

lemma list_all2_mem2: "list_all2 R xs ys \<Longrightarrow> y \<in> set ys \<Longrightarrow> \<exists>x\<in>set xs. R x y"
  by (induction rule: list_all2_induct) auto

lemma proved_by_keeps:
  assumes "proved_by env s r e" "same_session s s'" "kept_recovery r r'" "same_evidence e e'" "row_ok r"
  shows "proved_by env s' r' e'"
proof -
  have "closure_fields r' = closure_fields r"
    using assms(3,5) by (simp add: kept_recovery_def)
  moreover have "is_verified s' = is_verified s"
    using assms(2) by (rule same_session_verified)
  ultimately show ?thesis
    using assms by (simp add: proved_by_def same_session_def kept_recovery_def same_evidence_def closure_fields_def session_epoch_def)
qed

lemma inv_keeps:
  assumes inv: "recovery_inv env db" and k: "keeps db db'"
  shows "recovery_inv env db'"
proof -
  note S = k[unfolded keeps_def, THEN conjunct1]
    and R = k[unfolded keeps_def, THEN conjunct2, THEN conjunct1]
    and E = k[unfolded keeps_def, THEN conjunct2, THEN conjunct2]
  have keys: "map ss_id (db_sessions db') = map ss_id (db_sessions db)"
    "map rv_id (db_recoveries db') = map rv_id (db_recoveries db)"
    "map recovery_key (db_recoveries db') = map recovery_key (db_recoveries db)"
    "map ev_id (db_evidence db') = map ev_id (db_evidence db)"
    by (rule list_all2_map_eq [OF S] list_all2_map_eq [OF R] list_all2_map_eq [OF E],
        simp add: same_session_def kept_recovery_def same_evidence_def)+
  have rows: "row_ok r'" if r': "r' \<in> set (db_recoveries db')" for r'
  proof -
    obtain r where "r \<in> set (db_recoveries db)" "kept_recovery r r'" using list_all2_mem2 [OF R r'] by blast
    then show ?thesis using inv by (auto simp: recovery_inv_def kept_recovery_def)
  qed
  have open_rows: "ss_closureEvidenceId s' = None" if s': "s' \<in> set (db_sessions db')" and nv: "\<not> is_verified s'" for s'
  proof -
    obtain s where "s \<in> set (db_sessions db)" "same_session s s'" using list_all2_mem2 [OF S s'] by blast
    then show ?thesis using inv nv same_session_verified [of s s'] by (auto simp: recovery_inv_def same_session_def)
  qed
  have sessions: "\<exists>r'\<in>set (db_recoveries db'). \<exists>e'\<in>set (db_evidence db'). proved_by env s' r' e'"
    if s': "s' \<in> set (db_sessions db')" and v: "is_verified s'" for s'
  proof -
    obtain s where s: "s \<in> set (db_sessions db)" "same_session s s'" using list_all2_mem2 [OF S s'] by blast
    then obtain r e where re: "r \<in> set (db_recoveries db)" "e \<in> set (db_evidence db)" "proved_by env s r e"
      using inv v same_session_verified [of s s'] by (auto simp: recovery_inv_def)
    moreover obtain r' where "r' \<in> set (db_recoveries db')" "kept_recovery r r'" using list_all2_mem [OF R re(1)] by blast
    moreover obtain e' where "e' \<in> set (db_evidence db')" "same_evidence e e'" using list_all2_mem [OF E re(2)] by blast
    ultimately show ?thesis using s inv proved_by_keeps [of env s r e s' r' e'] by (auto simp: recovery_inv_def)
  qed
  have recoveries: "\<exists>s'\<in>set (db_sessions db'). \<exists>e'\<in>set (db_evidence db'). proved_by env s' r' e'"
    if r': "r' \<in> set (db_recoveries db')" and v: "rv_closureState r' = C_VERIFIED" for r'
  proof -
    obtain r where r: "r \<in> set (db_recoveries db)" "kept_recovery r r'" using list_all2_mem2 [OF R r'] by blast
    then have "rv_closureState r = C_VERIFIED"
      using inv v by (auto simp: recovery_inv_def kept_recovery_def closure_fields_def)
    then obtain s e where se: "s \<in> set (db_sessions db)" "e \<in> set (db_evidence db)" "proved_by env s r e"
      using inv r by (auto simp: recovery_inv_def)
    moreover obtain s' where "s' \<in> set (db_sessions db')" "same_session s s'" using list_all2_mem [OF S se(1)] by blast
    moreover obtain e' where "e' \<in> set (db_evidence db')" "same_evidence e e'" using list_all2_mem [OF E se(2)] by blast
    ultimately show ?thesis using r inv proved_by_keeps [of env s r e s' r' e'] by (auto simp: recovery_inv_def)
  qed
  have evidence: "\<exists>s'\<in>set (db_sessions db'). session_epoch s' = (ev_sessionId e', ev_sessionFence e') \<and> is_verified s'"
    if e': "e' \<in> set (db_evidence db')" for e'
  proof -
    obtain e where e: "e \<in> set (db_evidence db)" "same_evidence e e'" using list_all2_mem2 [OF E e'] by blast
    then obtain s where s: "s \<in> set (db_sessions db)" "session_epoch s = (ev_sessionId e, ev_sessionFence e)" "is_verified s"
      using inv by (auto simp: recovery_inv_def)
    moreover obtain s' where "s' \<in> set (db_sessions db')" "same_session s s'" using list_all2_mem [OF S s(1)] by blast
    ultimately show ?thesis
      using e same_session_verified [of s s'] by (auto simp: same_session_def same_evidence_def session_epoch_def)
  qed
  show ?thesis
    unfolding recovery_inv_def keys
    using inv rows open_rows sessions recoveries evidence by (auto simp: recovery_inv_def)
qed

section \<open>Progress\<close>

definition later_recovery :: "recovery_row \<Rightarrow> recovery_row \<Rightarrow> bool" where
  "later_recovery r r' \<longleftrightarrow> rv_id r' = rv_id r \<and> recovery_key r' = recovery_key r \<and> rv_version r \<le> rv_version r'
     \<and> (writeSettled (rv_writeOutcomeState r) \<longrightarrow> writeSettled (rv_writeOutcomeState r'))
     \<and> (rv_closureState r = C_VERIFIED \<longrightarrow> closure_fields r' = closure_fields r)"

definition later_session :: "session_row \<Rightarrow> session_row \<Rightarrow> bool" where
  "later_session s s' \<longleftrightarrow> session_epoch s' = session_epoch s \<and> ss_leaseToken s' = ss_leaseToken s
     \<and> (is_verified s \<longrightarrow> same_session s s')"

text \<open>No session, recovery or evidence is lost; closed stays closed and settled stays settled.\<close>

definition later :: "rdb \<Rightarrow> rdb \<Rightarrow> bool" where
  "later db db' \<longleftrightarrow> (\<forall>s\<in>set (db_sessions db). \<exists>s'\<in>set (db_sessions db'). later_session s s')
     \<and> (\<forall>r\<in>set (db_recoveries db). \<exists>r'\<in>set (db_recoveries db'). later_recovery r r')
     \<and> (\<forall>e\<in>set (db_evidence db). \<exists>e'\<in>set (db_evidence db'). same_evidence e e')"

definition lease_key :: "guarded_lease \<Rightarrow> string \<times> resource_claim" where
  "lease_key l = (le_sessionId l, le_claim l)"

text \<open>A lease may go when the closure of its session is proved, and what it guards is settled; a claim on
  a test account and an ordinary read need only the closure.\<close>

definition released_ok :: "recovery_env \<Rightarrow> rdb \<Rightarrow> string \<times> resource_claim \<Rightarrow> bool" where
  "released_ok env db k \<longleftrightarrow> (\<exists>s\<in>set (db_sessions db). \<exists>r\<in>set (db_recoveries db). \<exists>e\<in>set (db_evidence db).
     ss_id s = fst k \<and> proved_by env s r e
     \<and> (writeSettled (rv_writeOutcomeState r) \<or> rc_origin (snd k) = ''ACCOUNT_COORDINATION''
        \<or> rc_mode (snd k) = READ \<and> rc_origin (snd k) = ''NORMAL''))"

definition leases_safe :: "recovery_env \<Rightarrow> rdb \<Rightarrow> rdb \<Rightarrow> bool" where
  "leases_safe env db db' \<longleftrightarrow>
     (\<forall>k\<in>lease_key ` set (db_leases db). k \<in> lease_key ` set (db_leases db') \<or> released_ok env db' k)"

definition good :: "recovery_env \<Rightarrow> rdb \<Rightarrow> rdb \<Rightarrow> bool" where
  "good env db db' \<longleftrightarrow> recovery_inv env db' \<and> later db db' \<and> leases_safe env db db'"

lemma later_session_refl [simp]: "later_session s s"
  by (simp add: later_session_def)

lemma later_recovery_refl [simp]: "later_recovery r r"
  by (simp add: later_recovery_def)

lemma later_refl [simp]: "later db db"
  by (force simp: later_def)

lemma later_session_trans: "later_session a b \<Longrightarrow> later_session b c \<Longrightarrow> later_session a c"
  unfolding later_session_def using same_session_verified [of a b] same_session_trans [of a b c] by metis

lemma later_recovery_trans: "later_recovery a b \<Longrightarrow> later_recovery b c \<Longrightarrow> later_recovery a c"
  by (auto simp: later_recovery_def closure_fields_def)

lemma later_trans: "later a b \<Longrightarrow> later b c \<Longrightarrow> later a c"
  unfolding later_def by (meson later_session_trans later_recovery_trans same_evidence_trans)

lemma proved_by_later:
  assumes "proved_by env s r e" "later_session s s'" "later_recovery r r'" "same_evidence e e'"
  shows "proved_by env s' r' e'"
  using assms same_session_verified [of s s']
  by (simp add: proved_by_def later_session_def same_session_def later_recovery_def same_evidence_def
      closure_fields_def session_epoch_def)

lemma released_ok_later:
  assumes ok: "released_ok env db k" and l: "later db db'"
  shows "released_ok env db' k"
proof -
  obtain s r e where sre: "s \<in> set (db_sessions db)" "r \<in> set (db_recoveries db)" "e \<in> set (db_evidence db)"
      "ss_id s = fst k" "proved_by env s r e"
      "writeSettled (rv_writeOutcomeState r) \<or> rc_origin (snd k) = ''ACCOUNT_COORDINATION''
        \<or> rc_mode (snd k) = READ \<and> rc_origin (snd k) = ''NORMAL''"
    using ok by (auto simp: released_ok_def)
  obtain s' where s': "s' \<in> set (db_sessions db')" "later_session s s'" using l sre(1) by (auto simp: later_def)
  obtain r' where r': "r' \<in> set (db_recoveries db')" "later_recovery r r'" using l sre(2) by (auto simp: later_def)
  obtain e' where e': "e' \<in> set (db_evidence db')" "same_evidence e e'" using l sre(3) by (auto simp: later_def)
  have "ss_id s' = fst k"
    using sre(4) s'(2) by (simp add: later_session_def session_epoch_def)
  moreover have "writeSettled (rv_writeOutcomeState r') \<or> rc_origin (snd k) = ''ACCOUNT_COORDINATION''
        \<or> rc_mode (snd k) = READ \<and> rc_origin (snd k) = ''NORMAL''"
    using sre(6) r'(2) by (auto simp: later_recovery_def)
  ultimately show ?thesis
    unfolding released_ok_def using s'(1) r'(1) e'(1) proved_by_later [OF sre(5) s'(2) r'(2) e'(2)] by blast
qed

lemma leases_safe_trans: "leases_safe env a b \<Longrightarrow> leases_safe env b c \<Longrightarrow> later b c \<Longrightarrow> leases_safe env a c"
  unfolding leases_safe_def using released_ok_later by blast

lemma good_refl: "recovery_inv env db \<Longrightarrow> good env db db"
  by (simp add: good_def leases_safe_def)

lemma good_trans: "good env a b \<Longrightarrow> good env b c \<Longrightarrow> good env a c"
  unfolding good_def using later_trans leases_safe_trans by blast

lemma keeps_later:
  assumes "recovery_inv env db" "keeps db db'"
  shows "later db db'"
proof -
  have "later_session s s'" if "same_session s s'" for s s'
    using that by (simp add: later_session_def same_session_def session_epoch_def)
  moreover have "later_recovery r r'" if "kept_recovery r r'" "r \<in> set (db_recoveries db)" for r r'
    using that assms(1) by (auto simp: later_recovery_def kept_recovery_def recovery_inv_def)
  ultimately show ?thesis
    using assms(2) unfolding keeps_def later_def by (meson list_all2_mem)
qed

lemma good_keeps:
  assumes "recovery_inv env db" "keeps db db'" "lease_key ` set (db_leases db) \<subseteq> lease_key ` set (db_leases db')"
  shows "good env db db'"
  using assms inv_keeps keeps_later by (fastforce simp: good_def leases_safe_def)

section \<open>Rows that are current\<close>

definition current :: "rdb \<Rightarrow> recovery_row \<Rightarrow> bool" where
  "current db r \<longleftrightarrow> recovery_of db (rv_id r) = Some r"

lemma find_distinct:
  "distinct (map f xs) \<Longrightarrow> x \<in> set xs \<Longrightarrow> List.find (\<lambda>y. f y = f x) xs = Some x"
  by (induction xs) (auto simp: rev_image_eqI)

lemma current_iff: "distinct (map rv_id (db_recoveries db)) \<Longrightarrow> current db r \<longleftrightarrow> r \<in> set (db_recoveries db)"
  using find_distinct [of rv_id "db_recoveries db" r]
  by (auto simp: current_def recovery_of_def find_by_def dest: find_SomeD)

lemma current_unique:
  "recovery_inv env db \<Longrightarrow> current db r \<Longrightarrow> x \<in> set (db_recoveries db) \<Longrightarrow> rv_id x = rv_id r \<Longrightarrow> x = r"
  by (auto simp: current_iff recovery_inv_def distinct_map inj_on_def)

lemma current_ok: "recovery_inv env db \<Longrightarrow> current db r \<Longrightarrow> row_ok r"
  by (auto simp: current_iff recovery_inv_def)

lemma current_same: "db_recoveries db' = db_recoveries db \<Longrightarrow> current db' r = current db r"
  by (simp add: current_def recovery_of_def)

lemma recovery_of_current: "recovery_of db i = Some r \<Longrightarrow> current db r \<and> rv_id r = i"
  by (auto simp: current_def recovery_of_def find_by_def dest: find_SomeD)

lemma emit_tables [simp]:
  "db_sessions (emitRecoveryChanged db r) = db_sessions db" "db_recoveries (emitRecoveryChanged db r) = db_recoveries db"
  "db_evidence (emitRecoveryChanged db r) = db_evidence db" "db_leases (emitRecoveryChanged db r) = db_leases db"
  "db_permits (emitRecoveryChanged db r) = db_permits db" "db_commands (emitRecoveryChanged db r) = db_commands db"
  by (simp_all add: emitRecoveryChanged_def Let_def)

lemma recovery_of_emit: "recovery_of (emitRecoveryChanged db r) i = recovery_of db i"
  by (simp add: recovery_of_def)

lemma keeps_other:
  "db_sessions db' = db_sessions db \<Longrightarrow> db_recoveries db' = db_recoveries db \<Longrightarrow> db_evidence db' = db_evidence db
   \<Longrightarrow> keeps db db'"
  by (simp add: keeps_def list_all2_refl)

lemma keeps_set_sessions: "(\<And>x. P x \<Longrightarrow> same_session x (f x)) \<Longrightarrow> keeps db (set_sessions db P f)"
  by (simp add: keeps_def set_sessions_def list_all2_refl list_all2_update_where)

lemma keeps_update_recoveries:
  "(\<And>x. x \<in> set (db_recoveries db) \<Longrightarrow> P x \<Longrightarrow> kept_recovery x (f x)) \<Longrightarrow>
   keeps db (db\<lparr>db_recoveries := update_where P f (db_recoveries db)\<rparr>)"
  by (simp add: keeps_def list_all2_refl list_all2_update_where)

lemma next_version_fields [simp]:
  "row_ok (next_version r) = row_ok r" "closure_fields (next_version r) = closure_fields r"
  "recovery_key (next_version r) = recovery_key r" "rv_id (next_version r) = rv_id r"
  "rv_version (next_version r) = rv_version r + 1"
  "rv_writeOutcomeState (next_version r) = rv_writeOutcomeState r" "rv_teamId (next_version r) = rv_teamId r"
  "rv_runtimeId (next_version r) = rv_runtimeId r" "rv_expectedLeaseDigest (next_version r) = rv_expectedLeaseDigest r"
  by (simp_all add: next_version_def recovery_key_def row_ok_def closure_fields_def)

lemma kept_next_version: "kept_recovery r r' \<Longrightarrow> kept_recovery r (next_version r')"
  unfolding kept_recovery_def by auto

lemma keeps_set_recovery:
  "recovery_inv env db \<Longrightarrow> current db r \<Longrightarrow> kept_recovery r (f r) \<Longrightarrow> keeps db (set_recovery db (rv_id r) f)"
  unfolding set_recovery_def by (rule keeps_update_recoveries) (metis current_unique)

lemma find_update:
  "List.find (\<lambda>y. key y = i) xs = Some x \<Longrightarrow> key (f x) = i \<Longrightarrow>
   List.find (\<lambda>y. key y = i) (update_where (\<lambda>y. key y = i) f xs) = Some (f x)"
  by (induction xs) (auto simp: update_where_def split: if_splits)

lemma recovery_of_set_recovery:
  "current db r \<Longrightarrow> rv_id (f r) = rv_id r \<Longrightarrow> recovery_of (set_recovery db (rv_id r) f) (rv_id r) = Some (f r)"
  by (auto simp: current_def recovery_of_def find_by_def set_recovery_def intro!: find_update)

lemma set_recovery_tables [simp]:
  "db_sessions (set_recovery db i f) = db_sessions db" "db_evidence (set_recovery db i f) = db_evidence db"
  "db_leases (set_recovery db i f) = db_leases db" "db_permits (set_recovery db i f) = db_permits db"
  by (simp_all add: set_recovery_def)

lemma change_recovery_props:
  assumes "recovery_inv env db" "current db r" "kept_recovery r (f r)" "change_recovery db r f = (db', r')"
  shows "keeps db db'" "r' = next_version (f r)" "current db' r'" "rv_id r' = rv_id r"
    "db_leases db' = db_leases db" "db_sessions db' = db_sessions db" "db_evidence db' = db_evidence db"
proof -
  let ?g = "\<lambda>x. next_version (f x)" and ?d = "set_recovery db (rv_id r) (\<lambda>x. next_version (f x))"
  have i: "rv_id (?g r) = rv_id r"
    using assms(3) by (simp add: kept_recovery_def next_version_def)
  have now: "recovery_of ?d (rv_id r) = Some (?g r)"
    by (rule recovery_of_set_recovery [OF assms(2)]) (rule i)
  then have eqs: "r' = ?g r" "db' = emitRecoveryChanged ?d (?g r)"
    using assms(4) by (auto simp: change_recovery_def Let_def coalesce_def)
  have k: "keeps db ?d"
    by (rule keeps_set_recovery [OF assms(1,2)]) (rule kept_next_version [OF assms(3)])
  show "keeps db db'" unfolding eqs(2) by (rule keeps_trans [OF k keeps_other]) simp_all
  show "current db' r'" using now i unfolding eqs by (simp add: current_def recovery_of_emit)
  show "r' = ?g r" "rv_id r' = rv_id r" "db_leases db' = db_leases db" "db_sessions db' = db_sessions db"
    "db_evidence db' = db_evidence db"
    using i by (simp_all add: eqs del: next_version_fields)
qed

lemma recovery_of_member:
  "recovery_inv env db \<Longrightarrow> r \<in> set (db_recoveries db) \<Longrightarrow> recovery_of db (rv_id r) = Some r"
  using current_iff [of db r] by (simp add: recovery_inv_def current_def)

lemma update_where_mem: "x \<in> set xs \<Longrightarrow> (if P x then f x else x) \<in> set (update_where P f xs)"
  by (simp add: update_where_def)

lemma count_rows_zero: "count_rows P xs = 0 \<longleftrightarrow> (\<forall>x\<in>set xs. \<not> P x)"
  by (simp add: count_rows_def filter_empty_conv)

section \<open>The steps the transactions share\<close>

lemma unsettled_states: "\<not> writeSettled w \<longleftrightarrow> w \<in> {W_UNKNOWN, W_UNASSESSED}"
  by (cases w) (simp_all add: writeSettled_def)

lemma assessed_settled: "assessed_write env db s r = Some w \<Longrightarrow> writeSettled w"
  by (auto simp: assessed_write_def writeSettled_def split: if_splits)

lemma kept_assessed:
  assumes "row_ok r" "writeSettled w"
  shows "kept_recovery r (r\<lparr>rv_writeOutcomeState := w, rv_resolvedAt := (if closure_proven r then Some now else None)\<rparr>)"
  using assms by (auto simp: kept_recovery_def row_ok_def closure_fields_def recovery_key_def closure_proven_def)

lemma refresh_props:
  assumes inv: "recovery_inv env db" and cur: "current db r"
    and eq: "refreshRecoveryWriteOutcome env db s r now = (db', r')"
  shows "keeps db db'" "current db' r'" "kept_recovery r r'"
    "db_leases db' = db_leases db" "db_sessions db' = db_sessions db" "db_evidence db' = db_evidence db"
proof -
  have "keeps db db' \<and> current db' r' \<and> kept_recovery r r' \<and> db_leases db' = db_leases db
    \<and> db_sessions db' = db_sessions db \<and> db_evidence db' = db_evidence db"
  proof (cases "writeSettled (rv_writeOutcomeState r) \<or> assessed_write env db s r = None")
    case True
    then have "refreshRecoveryWriteOutcome env db s r now = (db, r)"
      by (cases "writeSettled (rv_writeOutcomeState r)") (simp_all add: refreshRecoveryWriteOutcome_def)
    then have "db' = db" "r' = r" using eq by simp_all
    then show ?thesis using cur by simp
  next
    case False
    then obtain w where w: "assessed_write env db s r = Some w" and ns: "\<not> writeSettled (rv_writeOutcomeState r)" by auto
    define g where "g = (\<lambda>x. next_version (x\<lparr>rv_writeOutcomeState := w,
        rv_resolvedAt := (if closure_proven r then Some now else None)\<rparr>))"
    define P where "P = (\<lambda>x::recovery_row. rv_id x = rv_id r \<and> rv_version x = rv_version r
        \<and> rv_writeOutcomeState x \<in> {W_UNKNOWN, W_UNASSESSED})"
    define d where "d = db\<lparr>db_recoveries := update_where P g (db_recoveries db)\<rparr>"
    have g: "kept_recovery r (g r)" unfolding g_def
      by (intro kept_next_version kept_assessed current_ok [OF inv cur] assessed_settled [OF w])
    have k: "keeps db d" unfolding d_def
      by (rule keeps_update_recoveries) (metis P_def current_unique [OF inv cur] g)
    have mem: "r \<in> set (db_recoveries db)" using inv cur current_iff by (auto simp: recovery_inv_def)
    have Pr: "P r" using ns unfolding P_def unsettled_states by simp
    have "g r \<in> set (db_recoveries d)"
      using update_where_mem [OF mem, of P g] Pr by (simp add: d_def)
    then have now: "recovery_of d (rv_id r) = Some (g r)"
      using recovery_of_member [OF inv_keeps [OF inv k]] g by (fastforce simp: kept_recovery_def)
    have "refreshRecoveryWriteOutcome env db s r now =
        (let c = coalesce (recovery_of d (rv_id r)) r in
         (if count_rows P (db_recoveries db) = 1 then emitRecoveryChanged d c else d, c))"
      unfolding refreshRecoveryWriteOutcome_def P_def g_def d_def Let_def by (simp only: ns w if_False option.case)
    then have eqs: "r' = g r" "db' = emitRecoveryChanged d (g r) \<or> db' = d"
      using eq now by (auto simp: coalesce_def Let_def)
    have "current d (g r)" using now g by (simp add: current_def kept_recovery_def)
    moreover have "keeps d (emitRecoveryChanged d (g r))" by (rule keeps_other) simp_all
    ultimately have "keeps db db'" "current db' (g r)"
      using eqs(2) k keeps_trans [OF k] current_same [of "emitRecoveryChanged d (g r)" d] by auto
    moreover have "db_leases db' = db_leases db" "db_sessions db' = db_sessions db" "db_evidence db' = db_evidence db"
      using eqs(2) by (auto simp: d_def)
    ultimately show ?thesis using g unfolding eqs(1) by blast
  qed
  then show "keeps db db'" "current db' r'" "kept_recovery r r'"
    "db_leases db' = db_leases db" "db_sessions db' = db_sessions db" "db_evidence db' = db_evidence db" by simp_all
qed

lemma image_map_if:
  "(\<And>l. key (f l) = key l) \<Longrightarrow> key ` set (map (\<lambda>l. if P l then f l else l) ls) = key ` set ls"
  by (induction ls) auto

lemma lease_key_quarantine [simp]: "lease_key ` set (quarantine_writes sid ls) = lease_key ` set ls"
  unfolding quarantine_writes_def by (rule image_map_if) (simp add: lease_key_def)

lemma lease_key_adopt:
  "lease_key ` set (update_where P (\<lambda>l. l\<lparr>gl_recoveryId := x\<rparr>) ls) = lease_key ` set ls"
  unfolding update_where_def by (rule image_map_if) (simp add: lease_key_def)

lemma adopt_props:
  "db_sessions (adopt_leases db s r) = db_sessions db" "db_recoveries (adopt_leases db s r) = db_recoveries db"
  "db_evidence (adopt_leases db s r) = db_evidence db" "db_permits (adopt_leases db s r) = db_permits db"
  "lease_key ` set (db_leases (adopt_leases db s r)) = lease_key ` set (db_leases db)"
  by (simp_all add: adopt_leases_def lease_key_adopt)

lemma guards_props:
  assumes "materializeRecoveryGuards env db s r = Inr db'"
  shows "db_sessions db' = db_sessions db" "db_recoveries db' = db_recoveries db" "db_evidence db' = db_evidence db"
    "db_permits db' = db_permits db" "lease_key ` set (db_leases db) \<subseteq> lease_key ` set (db_leases db')"
  using assms
  by (auto simp: materializeRecoveryGuards_def adopt_props split: if_splits sum.splits)


lemma session_of_member: "session_of db sid = Some s \<Longrightarrow> s \<in> set (db_sessions db) \<and> ss_id s = sid"
  by (auto simp: session_of_def find_by_def dest: find_SomeD)

lemma session_of_distinct:
  "recovery_inv env db \<Longrightarrow> s \<in> set (db_sessions db) \<Longrightarrow> session_of db (ss_id s) = Some s"
  by (simp add: session_of_def find_by_def find_distinct recovery_inv_def)

lemma recovery_forD:
  "recovery_for db s = Some r \<Longrightarrow> r \<in> set (db_recoveries db) \<and> recovery_key r = session_epoch s"
  by (auto simp: recovery_for_def recovery_key_def session_epoch_def dest: find_SomeD)

lemma verifiedRecovery_SomeE:
  assumes "verifiedRecovery env db s = Some r"
  obtains e where "List.find (\<lambda>e. Some (ev_id e) = ss_closureEvidenceId s) (db_evidence db) = Some e"
    "ev_sessionId e = ss_id s" "ev_sessionFence e = ss_fencingToken s" "ev_leaseDigest e = rx_digest env (ss_leaseToken s)"
    "recovery_for db s = Some r" "rv_id r = ev_recoveryId e" "rv_closureState r = C_VERIFIED"
    "rv_closureEvidenceId r = Some (ev_id e)" "ss_status s = ''CLOSED''" "is_verified s"
proof (cases "List.find (\<lambda>e. Some (ev_id e) = ss_closureEvidenceId s) (db_evidence db)")
  case None
  then show thesis using assms by (simp add: verifiedRecovery_def split: if_splits)
next
  case e: (Some e)
  have v: "ss_status s = ''CLOSED'' \<and> is_verified s \<and> ev_sessionId e = ss_id s \<and> ev_sessionFence e = ss_fencingToken s
      \<and> ev_leaseDigest e = rx_digest env (ss_leaseToken s)"
    using assms unfolding verifiedRecovery_def e option.case by (simp split: if_split_asm)
  have "recovery_for db s = Some r \<and> rv_id r = ev_recoveryId e \<and> rv_closureState r = C_VERIFIED
      \<and> rv_closureEvidenceId r = Some (ev_id e)"
  proof (cases "recovery_for db s")
    case None
    then show ?thesis using assms v unfolding verifiedRecovery_def e option.case None by simp
  next
    case r': (Some r')
    show ?thesis using assms v unfolding verifiedRecovery_def e option.case r' by (simp split: if_split_asm)
  qed
  then show thesis using v by (intro that [OF e]) simp_all
qed

lemma verifiedRecoveryD:
  assumes inv: "recovery_inv env db" and v: "verifiedRecovery env db s = Some r"
  shows "current db r" "\<exists>e\<in>set (db_evidence db). proved_by env s r e"
proof -
  obtain e where e: "List.find (\<lambda>e. Some (ev_id e) = ss_closureEvidenceId s) (db_evidence db) = Some e"
      "ev_sessionId e = ss_id s" "ev_sessionFence e = ss_fencingToken s"
      "ev_leaseDigest e = rx_digest env (ss_leaseToken s)" "recovery_for db s = Some r" "rv_id r = ev_recoveryId e"
      "rv_closureState r = C_VERIFIED" "rv_closureEvidenceId r = Some (ev_id e)" and s: "ss_status s = ''CLOSED''" "is_verified s"
    using verifiedRecovery_SomeE [OF v] by blast
  have r: "r \<in> set (db_recoveries db)" "recovery_key r = session_epoch s"
    using recovery_forD [OF e(5)] by simp_all
  show "current db r" using r(1) inv by (simp add: current_iff recovery_inv_def)
  show "\<exists>e\<in>set (db_evidence db). proved_by env s r e"
  proof (rule bexI [of _ e])
    show "e \<in> set (db_evidence db)" "proved_by env s r e"
      using find_SomeD [OF e(1)] e s r(2) by (simp_all add: proved_by_def)
  qed
qed

text \<open>What a release does to the other tables, and which leases it takes.\<close>

lemma settle_owner_tables [simp]:
  "db_sessions (settle_owner db s b) = db_sessions db" "db_recoveries (settle_owner db s b) = db_recoveries db"
  "db_evidence (settle_owner db s b) = db_evidence db" "db_leases (settle_owner db s b) = db_leases db"
  "db_permits (settle_owner db s b) = db_permits db"
  by (auto simp: settle_owner_def set_tasks_def Let_def split: option.split)

definition quarantined_write :: "string \<Rightarrow> guarded_lease \<Rightarrow> guarded_lease" where
  "quarantined_write sid l = (if le_sessionId l = sid \<and> rc_mode (le_claim l) = WRITE then l\<lparr>le_quarantined := True\<rparr> else l)"

lemma quarantined_write_simps [simp]:
  "le_sessionId (quarantined_write sid l) = le_sessionId l" "le_claim (quarantined_write sid l) = le_claim l"
  by (simp_all add: quarantined_write_def)

lemma release_leases_eq:
  "set (release_leases sid settled ls) =
     (if settled then {l \<in> set ls. le_sessionId l \<noteq> sid}
      else quarantined_write sid ` {l \<in> set ls. \<not> (le_sessionId l = sid
        \<and> (rc_origin (le_claim l) = ''ACCOUNT_COORDINATION'' \<or> rc_mode (le_claim l) = READ \<and> rc_origin (le_claim l) = ''NORMAL''))})"
proof -
  have q: "quarantine_writes sid = map (quarantined_write sid)"
    by (rule ext) (simp add: quarantine_writes_def quarantined_write_def)
  show ?thesis
    unfolding release_leases_def release_unsettled_def q Let_def by (auto simp: image_iff)
qed

lemma release_leases_lost:
  assumes "l \<in> set ls" "lease_key l \<notin> lease_key ` set (release_leases sid settled ls)"
  shows "le_sessionId l = sid \<and> (settled \<or> rc_origin (le_claim l) = ''ACCOUNT_COORDINATION''
     \<or> rc_mode (le_claim l) = READ \<and> rc_origin (le_claim l) = ''NORMAL'')"
proof (rule ccontr)
  assume no: "\<not> ?thesis"
  have "l \<in> set (release_leases sid settled ls) \<or> quarantined_write sid l \<in> set (release_leases sid settled ls)"
    unfolding release_leases_eq using no assms(1) by (cases settled) auto
  moreover have "lease_key (quarantined_write sid l) = lease_key l" by (simp add: lease_key_def)
  ultimately show False using assms(2) by (metis image_eqI)
qed

lemma release_good:
  assumes inv: "recovery_inv env db" and eq: "releaseVerifiedSessionResources env db sid now = (db', b)"
  shows "good env db db'" "keeps db db'"
proof -
  have "good env db db' \<and> keeps db db'"
  proof (cases "session_of db sid")
    case None
    then show ?thesis using eq good_refl [OF inv] by (simp add: releaseVerifiedSessionResources_def)
  next
    case (Some s)
    show ?thesis
    proof (cases "verifiedRecovery env db s")
      case None
      then show ?thesis using eq Some good_refl [OF inv] by (simp add: releaseVerifiedSessionResources_def)
    next
      case (Some r0)
      obtain db1 r where ref: "refreshRecoveryWriteOutcome env db s r0 now = (db1, r)" by fastforce
      note R = refresh_props [OF inv verifiedRecoveryD(1) [OF inv Some] ref]
      note s = session_of_member [OF \<open>session_of db sid = Some s\<close>]
      let ?w = "writeSettled (rv_writeOutcomeState r)"
      define db3 where "db3 = settle_owner (db1\<lparr>db_slots := delete_epoch s (db_slots db1),
          db_profileLeases := delete_epoch s (db_profileLeases db1),
          db_humanLeases := delete_where (\<lambda>i. i = sid) (db_humanLeases db1),
          db_leases := release_leases sid ?w (db_leases db1)\<rparr>) s ?w"
      have db3: "db_recoveries db3 = db_recoveries db1" "db_evidence db3 = db_evidence db1"
          "db_leases db3 = release_leases sid ?w (db_leases db)" "db_sessions db3 = db_sessions db1"
        by (simp_all add: db3_def R(4))
      obtain P q where P: "db' = set_sessions db3 P (\<lambda>x. x\<lparr>ss_identityPermit := None, ss_executionPermitExpiresAt := Some now,
          ss_humanControllerUserId := None, ss_humanControlExpiresAt := None, ss_quarantinedAt := q\<rparr>)"
        using eq unfolding releaseVerifiedSessionResources_def \<open>session_of db sid = Some s\<close> Some option.case ref Let_def
          prod.case db3_def [symmetric] by auto
      have db': "db_recoveries db' = db_recoveries db1" "db_evidence db' = db_evidence db1"
          "db_leases db' = release_leases sid ?w (db_leases db)" "keeps db3 db'"
        using db3 keeps_set_sessions [of P _ db3] unfolding P
        by (simp_all add: set_sessions_def same_session_def is_verified_def)
      have k1: "keeps db1 db'" by (rule keeps_trans [OF keeps_other db'(4)]) (simp_all add: db3)
      have k: "keeps db db'" by (rule keeps_trans [OF R(1) k1])
      have "released_ok env db' k" if k1': "k \<in> lease_key ` set (db_leases db)" and "k \<notin> lease_key ` set (db_leases db')" for k
      proof -
        obtain l where l: "l \<in> set (db_leases db)" "k = lease_key l" using k1' by auto
        then have lost: "le_sessionId l = sid \<and> (?w \<or> rc_origin (le_claim l) = ''ACCOUNT_COORDINATION''
            \<or> rc_mode (le_claim l) = READ \<and> rc_origin (le_claim l) = ''NORMAL'')"
          using release_leases_lost [of l "db_leases db" sid ?w] that db'(3) by simp
        obtain e where e: "e \<in> set (db_evidence db)" "proved_by env s r0 e"
          using verifiedRecoveryD(2) [OF inv Some] by blast
        obtain e1 where e1: "e1 \<in> set (db_evidence db1)" "same_evidence e e1"
          using R(1) list_all2_mem e(1) unfolding keeps_def by metis
        have "proved_by env s r e1"
          using proved_by_keeps [OF e(2) same_session_refl R(3) e1(2) current_ok [OF inv verifiedRecoveryD(1) [OF inv Some]]] .
        moreover have "r \<in> set (db_recoveries db1)"
          using R(2) current_iff inv_keeps [OF inv R(1)] by (auto simp: recovery_inv_def)
        ultimately have "released_ok env db1 k"
          unfolding released_ok_def using s R(5) e1(1) lost l(2) by (auto simp: lease_key_def)
        then show ?thesis by (rule released_ok_later [OF _ keeps_later [OF inv_keeps [OF inv R(1)] k1]])
      qed
      then have "leases_safe env db db'" unfolding leases_safe_def by blast
      then show ?thesis using k inv_keeps [OF inv k] keeps_later [OF inv k] by (simp add: good_def)
    qed
  qed
  then show "good env db db'" "keeps db db'" by simp_all
qed

section \<open>A new recovery, and the closure of a session\<close>

lemma later_insert:
  assumes "\<forall>s\<in>set (db_sessions db). \<exists>s'\<in>set (db_sessions db'). later_session s s'"
    "set (db_recoveries db) \<subseteq> set (db_recoveries db')" "set (db_evidence db) \<subseteq> set (db_evidence db')"
  shows "later db db'"
  using assms later_recovery_refl same_evidence_refl unfolding later_def by blast

lemma unverified_no_proof:
  assumes "recovery_inv env db" "s \<in> set (db_sessions db)" "\<not> is_verified s"
    and "r \<in> set (db_recoveries db)" "recovery_key r = session_epoch s"
  shows "rv_closureState r \<noteq> C_VERIFIED"
proof
  assume "rv_closureState r = C_VERIFIED"
  then obtain t e where t: "t \<in> set (db_sessions db)" "proved_by env t r e"
    using assms(1,4) unfolding recovery_inv_def by blast
  then have "ss_id t = ss_id s" "is_verified t" using assms(5) by (simp_all add: proved_by_def session_epoch_def)
  moreover have "inj_on ss_id (set (db_sessions db))" using assms(1) by (simp add: recovery_inv_def distinct_map)
  ultimately show False using t(1) assms(2,3) by (auto dest: inj_onD)
qed

lemma new_recovery_unverified:
  assumes "\<not> is_verified s" "ss_closureEvidenceId s = None"
  shows "row_ok (new_recovery env db s reason run observed now newId)"
    "rv_closureState (new_recovery env db s reason run observed now newId) \<noteq> C_VERIFIED"
    "rv_id (new_recovery env db s reason run observed now newId) = newId"
    "recovery_key (new_recovery env db s reason run observed now newId) = session_epoch s"
    "rv_expectedLeaseDigest (new_recovery env db s reason run observed now newId) = rx_digest env (ss_leaseToken s)"
  using assms
  by (simp_all add: new_recovery_def Let_def row_ok_def recovery_key_def session_epoch_def truthy_def max_closure_attempts_def)

lemma inv_new_recovery:
  assumes inv: "recovery_inv env db" and s: "s \<in> set (db_sessions db)" and none: "recovery_for db s = None"
    and fresh: "newId \<notin> rv_id ` set (db_recoveries db)"
    and r: "r = new_recovery env db s reason run observed now newId"
    and db': "db' = db\<lparr>db_recoveries := db_recoveries db @ [r]\<rparr>"
  shows "recovery_inv env db'" "later db db'" "current db' r" "recovery_key r = session_epoch s"
proof -
  have nokey: "recovery_key q \<noteq> session_epoch s" if "q \<in> set (db_recoveries db)" for q
    using none that by (auto simp: recovery_for_def find_None_iff recovery_key_def session_epoch_def)
  have nv: "\<not> is_verified s"
    using inv s nokey unfolding recovery_inv_def proved_by_def by blast
  then have "ss_closureEvidenceId s = None" using inv s by (simp add: recovery_inv_def)
  note new = new_recovery_unverified [OF nv this, where env = env and db = db and reason = reason and run = run
      and observed = observed and now = now and newId = newId, folded r]
  have "recovery_key r \<notin> recovery_key ` set (db_recoveries db)" using nokey new(4) by (metis imageE)
  then show inv': "recovery_inv env db'"
    using inv fresh new unfolding db' recovery_inv_def by (auto simp: ball_Un)
  show "later db db'" by (rule later_insert) (auto simp: db' intro: later_session_refl)
  show "current db' r" using inv' by (simp add: current_iff recovery_inv_def db')
  show "recovery_key r = session_epoch s" by (rule new(4))
qed

lemma update_one:
  assumes "\<And>y. y \<in> set xs \<Longrightarrow> P y \<longleftrightarrow> y = x" "x \<in> set xs"
  shows "set (update_where P f xs) = insert (f x) (set xs - {x})"
  using assms by (auto simp: update_where_def)

lemma map_update_where: "(\<And>x. key (f x) = key x) \<Longrightarrow> map key (update_where P f xs) = map key xs"
  by (induction xs) (auto simp: update_where_def)

definition closed_row :: "string \<Rightarrow> int \<Rightarrow> session_row \<Rightarrow> session_row" where
  "closed_row evidenceRow now x = x\<lparr>ss_status := ''CLOSED'', ss_closedAt := Some now, ss_closureVerifiedAt := Some now,
     ss_closureEvidenceId := Some evidenceRow, ss_executionPermitExpiresAt := Some now,
     ss_identityPermit := None, ss_humanControllerUserId := None, ss_humanControlExpiresAt := None\<rparr>"

lemma closed_row_simps [simp]:
  "ss_id (closed_row i now s) = ss_id s" "session_epoch (closed_row i now s) = session_epoch s"
  "ss_fencingToken (closed_row i now s) = ss_fencingToken s"
  "ss_leaseToken (closed_row i now s) = ss_leaseToken s" "ss_status (closed_row i now s) = ''CLOSED''"
  "ss_closureEvidenceId (closed_row i now s) = Some i" "is_verified (closed_row i now s) = (i \<noteq> [])"
  by (simp_all add: closed_row_def session_epoch_def is_verified_def truthy_def)

lemma verified_by_simps [simp]:
  "rv_id (verified_by i now r x) = rv_id x" "recovery_key (verified_by i now r x) = recovery_key x"
  "rv_closureState (verified_by i now r x) = C_VERIFIED" "rv_closureEvidenceId (verified_by i now r x) = Some i"
  "rv_version (verified_by i now r x) = rv_version x" "rv_writeOutcomeState (verified_by i now r x) = rv_writeOutcomeState x"
  by (simp_all add: verified_by_def recovery_key_def)

lemma verified_by_ok: "row_ok r \<Longrightarrow> row_ok (verified_by i now r r)"
  by (simp add: verified_by_def row_ok_def)

lemma next_version_state [simp]:
  "rv_closureState (next_version r) = rv_closureState r" "rv_closureEvidenceId (next_version r) = rv_closureEvidenceId r"
  by (simp_all add: next_version_def)

lemma inv_close:
  assumes inv: "recovery_inv env db" and s: "s \<in> set (db_sessions db)" "\<not> is_verified s"
    and r: "current db r" "recovery_key r = session_epoch s"
    and e: "e = new_evidence env s r p now rowId" "rowId \<noteq> []" "rowId \<notin> ev_id ` set (db_evidence db)"
    and P: "\<And>x. x \<in> set (db_sessions db) \<Longrightarrow> P x \<longleftrightarrow> x = s"
    and S: "db_sessions db' = update_where P (closed_row rowId now) (db_sessions db)"
    and R: "db_recoveries db' = update_where (\<lambda>x. rv_id x = rv_id r) (\<lambda>x. next_version (verified_by rowId now r x)) (db_recoveries db)"
    and E: "db_evidence db' = db_evidence db @ [e]"
  shows "recovery_inv env db'" "later db db'"
proof -
  let ?s = "closed_row rowId now s" and ?r = "next_version (verified_by rowId now r r)"
  have rmem: "r \<in> set (db_recoveries db)" using r(1) inv by (simp add: current_iff recovery_inv_def)
  have Ss: "set (db_sessions db') = insert ?s (set (db_sessions db) - {s})"
    unfolding S by (rule update_one [OF P s(1)])
  have Rs: "set (db_recoveries db') = insert ?r (set (db_recoveries db) - {r})"
    unfolding R by (rule update_one [OF _ rmem]) (use current_unique [OF inv r(1)] in blast)
  have Es: "set (db_evidence db') = insert e (set (db_evidence db))" unfolding E by simp
  have proof_of: "proved_by env ?s ?r e"
    using r(2) e(2) by (simp add: proved_by_def e(1) new_evidence_def session_epoch_def)
  have nv: "rv_closureState r \<noteq> C_VERIFIED" by (rule unverified_no_proof [OF inv s rmem r(2)])
  have maps: "map ss_id (db_sessions db') = map ss_id (db_sessions db)" "map rv_id (db_recoveries db') = map rv_id (db_recoveries db)"
    "map recovery_key (db_recoveries db') = map recovery_key (db_recoveries db)"
    unfolding S R by (rule map_update_where, simp)+
  have rows: "\<forall>q\<in>set (db_recoveries db'). row_ok q"
    unfolding Rs using inv current_ok [OF inv r(1)] by (auto simp: recovery_inv_def verified_by_ok)
  have opened: "\<forall>t\<in>set (db_sessions db'). \<not> is_verified t \<longrightarrow> ss_closureEvidenceId t = None"
    unfolding Ss using inv e(2) by (auto simp: recovery_inv_def)
  have sessions: "\<exists>q\<in>set (db_recoveries db'). \<exists>x\<in>set (db_evidence db'). proved_by env t q x"
    if t: "t \<in> set (db_sessions db')" "is_verified t" for t
  proof (cases "t = ?s")
    case True
    then show ?thesis using proof_of Rs Es by blast
  next
    case False
    then have tm: "t \<in> set (db_sessions db)" "t \<noteq> s" using t(1) Ss by auto
    then obtain q x where q: "q \<in> set (db_recoveries db)" "x \<in> set (db_evidence db)" "proved_by env t q x"
      using inv t(2) unfolding recovery_inv_def by blast
    then have "q \<noteq> r" using nv by (auto simp: proved_by_def)
    then show ?thesis using q Rs Es by blast
  qed
  have recoveries: "\<exists>t\<in>set (db_sessions db'). \<exists>x\<in>set (db_evidence db'). proved_by env t q x"
    if q: "q \<in> set (db_recoveries db')" "rv_closureState q = C_VERIFIED" for q
  proof (cases "q = ?r")
    case True
    then show ?thesis using proof_of Ss Es by blast
  next
    case False
    then have "q \<in> set (db_recoveries db)" using q(1) Rs by auto
    then obtain t x where t: "t \<in> set (db_sessions db)" "x \<in> set (db_evidence db)" "proved_by env t q x"
      using inv q(2) unfolding recovery_inv_def by blast
    then have "t \<noteq> s" using s(2) by (auto simp: proved_by_def)
    then show ?thesis using t Ss Es by blast
  qed
  have evidence: "\<exists>t\<in>set (db_sessions db'). session_epoch t = (ev_sessionId x, ev_sessionFence x) \<and> is_verified t"
    if x: "x \<in> set (db_evidence db')" for x
  proof (cases "x = e")
    case True
    then show ?thesis using e(2) by (auto simp: Ss e(1) new_evidence_def session_epoch_def)
  next
    case False
    then obtain t where t: "t \<in> set (db_sessions db)" "session_epoch t = (ev_sessionId x, ev_sessionFence x)" "is_verified t"
      using inv x Es unfolding recovery_inv_def by blast
    then have "t \<noteq> s" using s(2) by blast
    then show ?thesis using t Ss by blast
  qed
  have "distinct (map ev_id (db_evidence db'))"
    using inv e(3) by (simp add: E recovery_inv_def e(1) new_evidence_def)
  then show "recovery_inv env db'"
    using inv rows opened sessions recoveries evidence unfolding recovery_inv_def maps by blast
  have "later_session s ?s" using s(2) by (simp add: later_session_def)
  moreover have "later_recovery r ?r" using nv by (simp add: later_recovery_def)
  ultimately show "later db db'"
    unfolding later_def Ss Rs Es
    using later_session_refl later_recovery_refl same_evidence_refl by (metis Diff_iff insertI1 insertI2 singletonD)
qed

section \<open>Ensuring a recovery\<close>

lemma verified_truthy:
  "recovery_inv env db \<Longrightarrow> current db r \<Longrightarrow> rv_closureState r = C_VERIFIED \<Longrightarrow> truthy (rv_closureEvidenceId r)"
  by (fastforce simp: recovery_inv_def proved_by_def is_verified_def current_iff)

lemma kept_promoted:
  assumes "recovery_inv env db" "current db r" "must_promote r observed"
  shows "kept_recovery r (r\<lparr>rv_closureState := C_REQUESTED, rv_closureVerifiedAt := None, rv_reason := reason,
    rv_nextAttemptAt := t\<rparr>)"
proof -
  have "rv_closureState r \<noteq> C_VERIFIED"
    using assms(3) verified_truthy [OF assms(1,2)] by (auto simp: must_promote_def)
  then show ?thesis by (auto simp: kept_recovery_def row_ok_def closure_fields_def recovery_key_def)
qed

lemma guards_unless_props:
  assumes "guards_unless_observed env db s r observed = Inr db'"
  shows "db_sessions db' = db_sessions db" "db_recoveries db' = db_recoveries db" "db_evidence db' = db_evidence db"
    "lease_key ` set (db_leases db) \<subseteq> lease_key ` set (db_leases db')"
  using assms guards_props [of env db s r db'] by (auto simp: guards_unless_observed_def split: if_splits)

lemma ensure_props:
  assumes inv: "recovery_inv env db" and s: "s \<in> set (db_sessions db)" and fresh: "newId \<notin> rv_id ` set (db_recoveries db)"
    and eq: "ensureRecovery env db s reason run observed now newId = Inr (db', r)"
  shows "good env db db'" "current db' r" "recovery_key r = session_epoch s"
    "db_sessions db' = db_sessions db" "db_evidence db' = db_evidence db"
proof -
  have "good env db db' \<and> current db' r \<and> recovery_key r = session_epoch s
    \<and> db_sessions db' = db_sessions db \<and> db_evidence db' = db_evidence db"
  proof (cases "recovery_for db s")
    case (Some r0)
    obtain db1 r1 where ref: "refreshRecoveryWriteOutcome env db s r0 now = (db1, r1)" by fastforce
    have r0: "current db r0" "recovery_key r0 = session_epoch s"
      using recovery_forD [OF Some] inv by (simp_all add: current_iff recovery_inv_def)
    note R = refresh_props [OF inv r0(1) ref]
    obtain db2 where g: "guards_unless_observed env db1 s r1 observed = Inr db2"
      and res: "if must_promote r1 observed
         then change_recovery db2 r1 (\<lambda>x. x\<lparr>rv_closureState := C_REQUESTED, rv_closureVerifiedAt := None,
            rv_reason := reason, rv_nextAttemptAt := Some now\<rparr>) = (db', r)
         else db' = db2 \<and> r = r1"
      using eq unfolding ensureRecovery_def Some option.case ref Let_def prod.case
      by (auto split: if_splits sum.splits)
    note G = guards_unless_props [OF g]
    have k2: "keeps db db2" by (rule keeps_trans [OF R(1) keeps_other]) (simp_all add: G)
    note inv2 = inv_keeps [OF inv k2]
    have r1: "current db2 r1" "recovery_key r1 = session_epoch s"
      using R(2,3) r0(2) current_same [OF G(2)] by (simp_all add: kept_recovery_def)
    have lk: "lease_key ` set (db_leases db) \<subseteq> lease_key ` set (db_leases db2)" using G(4) R(4) by simp
    show ?thesis
    proof (cases "must_promote r1 observed")
      case True
      then have ch: "change_recovery db2 r1 (\<lambda>x. x\<lparr>rv_closureState := C_REQUESTED, rv_closureVerifiedAt := None,
            rv_reason := reason, rv_nextAttemptAt := Some now\<rparr>) = (db', r)" using res by simp
      note C = change_recovery_props [OF inv2 r1(1) kept_promoted [OF inv2 r1(1) True] ch]
      have "good env db db'"
        by (rule good_keeps [OF inv keeps_trans [OF k2 C(1)]]) (use lk C(5) in simp)
      moreover have "recovery_key r = session_epoch s"
        unfolding C(2) using r1(2) by (simp add: recovery_key_def next_version_def)
      ultimately show ?thesis using C(3-) G R by simp
    next
      case False
      then show ?thesis using res good_keeps [OF inv k2 lk] r1 G R by simp
    qed
  next
    case None
    obtain k run' where scope: "inferRecoveryScope env db s = Inr (k, run')"
      using eq None by (auto simp: ensureRecovery_def split: sum.splits)
    define q where "q = new_recovery env db s reason (coalesce_opt run run') observed now newId"
    define db1 where "db1 = db\<lparr>db_recoveries := db_recoveries db @ [q]\<rparr>"
    have step: "(case guards_unless_observed env db1 s q observed of
        Inl e \<Rightarrow> Inl e | Inr db2 \<Rightarrow> Inr (emitRecoveryChanged db2 q, q)) = Inr (db', r)"
      using eq unfolding ensureRecovery_def None option.case scope sum.case prod.case Let_def q_def [symmetric] db1_def [symmetric] .
    obtain db2 where g: "guards_unless_observed env db1 s q observed = Inr db2"
      using step by (cases "guards_unless_observed env db1 s q observed") simp_all
    have res: "db' = emitRecoveryChanged db2 q" "r = q" using step unfolding g by auto
    note N = inv_new_recovery [OF inv s None fresh q_def db1_def]
    note G = guards_unless_props [OF g]
    have "good env db db1" using N(1,2) by (simp add: good_def leases_safe_def db1_def)
    moreover have "good env db1 db'"
      by (rule good_keeps [OF N(1) keeps_other]) (use G in \<open>simp_all add: res\<close>)
    ultimately have "good env db db'" by (rule good_trans)
    moreover have "current db' r" using N(3) current_same [of db' db1] G(2) res by simp
    ultimately show ?thesis using N(4) G res by (simp add: db1_def)
  qed
  then show "good env db db'" "current db' r" "recovery_key r = session_epoch s"
    "db_sessions db' = db_sessions db" "db_evidence db' = db_evidence db" by simp_all
qed

section \<open>Committing a closure\<close>

lemma close_session_Some:
  assumes "close_session db s i now = Some db'"
  shows "db_sessions db' = update_where (\<lambda>x. same_epoch s x \<and> (ss_closureVerifiedAt x = None \<or> ss_closureEvidenceId x = None))
      (closed_row i now) (db_sessions db)"
    "db_recoveries db' = db_recoveries db" "db_evidence db' = db_evidence db" "db_leases db' = db_leases db"
  using assms by (auto simp: close_session_def Let_def set_sessions_def closed_row_def [abs_def] split: if_splits)

lemma commit_props:
  assumes inv: "recovery_inv env db" and s: "s \<in> set (db_sessions db)" and r0: "current db r0" "recovery_key r0 = session_epoch s"
    and fresh: "rowId \<noteq> []" "rowId \<notin> ev_id ` set (db_evidence db)"
    and eq: "commitEvidence env db s r0 p now rowId = Inr db'"
  shows "good env db db'" "\<exists>s'\<in>set (db_sessions db'). session_epoch s' = session_epoch s \<and> is_verified s'"
proof -
  obtain db1 r where ref: "refreshRecoveryWriteOutcome env db s r0 now = (db1, r)" by fastforce
  note R = refresh_props [OF inv r0(1) ref]
  note inv1 = inv_keeps [OF inv R(1)]
  have g1: "good env db db1" by (rule good_keeps [OF inv R(1)]) (simp add: R(4))
  have s1: "s \<in> set (db_sessions db1)" using s R(5) by simp
  have r: "recovery_key r = session_epoch s" using R(3) r0(2) by (simp add: kept_recovery_def)
  define prior where "prior = find_by ev_evidenceId (cr_evidenceId p) (db_evidence db1)"
  have fine: "\<not> (case prior of None \<Rightarrow> False | Some e \<Rightarrow> replayed s r p e)"
    using eq unfolding commitEvidence_def ref Let_def prod.case prior_def [symmetric] by (auto split: if_splits)
  have "good env db1 db' \<and> (\<exists>s'\<in>set (db_sessions db'). session_epoch s' = session_epoch s \<and> is_verified s')"
  proof (cases "is_verified s")
    case True
    then have "db' = fst (releaseVerifiedSessionResources env db1 (ss_id s) now)"
      using eq fine unfolding commitEvidence_def ref Let_def prod.case prior_def [symmetric] by simp
    then obtain b where rel: "releaseVerifiedSessionResources env db1 (ss_id s) now = (db', b)" by (metis prod.collapse)
    note L = release_good [OF inv1 rel]
    obtain s' where "s' \<in> set (db_sessions db')" "same_session s s'" using L(2) s1 list_all2_mem unfolding keeps_def by metis
    then show ?thesis using L(1) True same_session_verified [of s s'] by (auto simp: same_session_def session_epoch_def)
  next
    case False
    have prior: "prior = None"
    proof (rule ccontr)
      assume "prior \<noteq> None"
      then obtain e where e: "prior = Some e" by blast
      then have em: "e \<in> set (db_evidence db1)" unfolding prior_def find_by_def by (auto dest: find_SomeD)
      have "ev_sessionId e = ss_id s" "ev_sessionFence e = ss_fencingToken s" using fine e by (simp_all add: replayed_def)
      then obtain t where t: "t \<in> set (db_sessions db1)" "session_epoch t = session_epoch s" "is_verified t"
        using inv1 em unfolding recovery_inv_def session_epoch_def by metis
      have "inj_on ss_id (set (db_sessions db1))" using inv1 by (simp add: recovery_inv_def distinct_map)
      then have "t = s" using t(1,2) s1 by (simp add: session_epoch_def inj_on_def)
      then show False using t(3) False by simp
    qed
    define e where "e = new_evidence env s r p now rowId"
    have ei: "ev_id e = rowId" by (simp add: e_def new_evidence_def)
    obtain db2 db4 where g: "materializeRecoveryGuards env db1 s r = Inr db2"
      and cl: "close_session (db2\<lparr>db_evidence := db_evidence db2 @ [e]\<rparr>) s rowId now = Some db4"
      using eq fine False unfolding commitEvidence_def ref Let_def prod.case prior_def [symmetric] prior
      by (auto simp: e_def new_evidence_def split: sum.splits option.splits)
    define db5 where "db5 = set_recovery db4 (rv_id r) (\<lambda>x. next_version (verified_by rowId now r x))"
    obtain db6 b where rel: "releaseVerifiedSessionResources env db5 (ss_id s) now = (db6, b)" by fastforce
    define db7 where "db7 = drop_permit (release_executions db6 s)
        (\<lambda>q. pt_runtimeId q = ss_runtimeId s \<and> pt_recoveryId q = rv_id r)"
    have db': "db' = emitRecoveryChanged db7 (coalesce (recovery_of db5 (rv_id r)) r)"
      using eq fine False g cl ei rel
      unfolding commitEvidence_def ref Let_def prod.case prior_def [symmetric] prior db5_def db7_def
      by (simp add: e_def [symmetric])
    note G = guards_props [OF g] and C = close_session_Some [OF cl]
    have k12: "keeps db1 db2" by (rule keeps_other) (simp_all add: G)
    have cur2: "current db2 r" using R(2) current_same [OF G(2)] by simp
    have g2: "good env db1 db2" by (rule good_keeps [OF inv1 k12 G(5)])
    note inv2 = inv_keeps [OF inv1 k12]
    have P: "(same_epoch s x \<and> (ss_closureVerifiedAt x = None \<or> ss_closureEvidenceId x = None)) \<longleftrightarrow> x = s"
      if "x \<in> set (db_sessions db2)" for x
    proof -
      have "inj_on ss_id (set (db_sessions db2))" using inv2 by (simp add: recovery_inv_def distinct_map)
      then have "ss_id x = ss_id s \<longleftrightarrow> x = s" using that s1 G(1) by (auto dest: inj_onD)
      moreover have "ss_closureEvidenceId s = None" using inv1 s1 False by (simp add: recovery_inv_def)
      ultimately show ?thesis by (auto simp: same_epoch_def)
    qed
    have s2: "s \<in> set (db_sessions db2)" using s1 G(1) by simp
    have fresh2: "rowId \<notin> ev_id ` set (db_evidence db2)" using fresh(2) G(3) R(6) by simp
    have S5: "db_sessions db5 = update_where (\<lambda>x. same_epoch s x \<and> (ss_closureVerifiedAt x = None \<or> ss_closureEvidenceId x = None))
        (closed_row rowId now) (db_sessions db2)"
      "db_recoveries db5 = update_where (\<lambda>x. rv_id x = rv_id r) (\<lambda>x. next_version (verified_by rowId now r x)) (db_recoveries db2)"
      "db_evidence db5 = db_evidence db2 @ [e]" "db_leases db5 = db_leases db2"
      using C by (simp_all add: db5_def set_recovery_def)
    note I = inv_close [OF inv2 s2 False cur2 r e_def fresh(1) fresh2 P S5(1,2,3)]
    have g5: "good env db2 db5" using I S5(4) by (simp add: good_def leases_safe_def)
    note L = release_good [OF I(1) rel]
    have tables: "db_sessions db' = db_sessions db6" "db_recoveries db' = db_recoveries db6" "db_evidence db' = db_evidence db6"
      "db_leases db' = db_leases db6"
      by (simp_all add: db' db7_def drop_permit_def release_executions_def)
    have g': "good env db6 db'"
      by (rule good_keeps [OF _ keeps_other]) (use L(1) tables in \<open>simp_all add: good_def\<close>)
    have "closed_row rowId now s \<in> set (db_sessions db5)"
      unfolding S5(1) using update_one [OF P s2] by simp
    then obtain s' where "s' \<in> set (db_sessions db6)" "same_session (closed_row rowId now s) s'"
      using L(2) list_all2_mem unfolding keeps_def by metis
    then have "\<exists>s'\<in>set (db_sessions db'). session_epoch s' = session_epoch s \<and> is_verified s'"
      using same_session_verified [of "closed_row rowId now s" s'] fresh(1) tables(1)
      by (auto simp: same_session_def session_epoch_def)
    then show ?thesis using good_trans [OF g2 good_trans [OF g5 good_trans [OF L(1) g']]] by simp
  qed
  then show "good env db db'" "\<exists>s'\<in>set (db_sessions db'). session_epoch s' = session_epoch s \<and> is_verified s'"
    using good_trans [OF g1] by simp_all
qed

end
