(* ===== verification/RecoverySteps.thy ===== *)
theory RecoverySteps
  imports RecoveryInvariant
begin

text \<open>
  Every transaction of \<open>SessionClosure\<close> is \<open>good\<close>: from a state with the invariant it leads to one with the
  invariant, moves forward, and gives up only leases that may go. Steps that only change rows in place and no
  lease are \<open>quiet\<close>.
\<close>

section \<open>Every transaction keeps the invariant\<close>

lemma good_inv: "good env db db' \<Longrightarrow> recovery_inv env db'"
  by (simp add: good_def)

lemma suspend_keeps: "keeps db (suspend_session db s now)"
  unfolding suspend_session_def by (rule keeps_set_sessions) (auto simp: same_session_def is_verified_def)

lemma suspend_good: "recovery_inv env db \<Longrightarrow> good env db (suspend_session db s now)"
  by (rule good_keeps [OF _ suspend_keeps]) (simp_all add: suspend_session_def set_sessions_def)

lemma session_of_suspend:
  assumes s0: "session_of db sid = Some s0" and inv: "recovery_inv env db"
  shows "coalesce (session_of (suspend_session db s0 now) sid) s0 \<in> set (db_sessions (suspend_session db s0 now))"
proof -
  obtain s' where s': "s' \<in> set (db_sessions (suspend_session db s0 now))" "same_session s0 s'"
    using suspend_keeps [of db s0 now] session_of_member [OF s0] list_all2_mem unfolding keeps_def by metis
  then have "session_of (suspend_session db s0 now) sid = Some s'"
    using session_of_distinct [OF good_inv [OF suspend_good [OF inv]] s'(1)] session_of_member [OF s0]
    by (simp add: same_session_def)
  then show ?thesis using s'(1) by (simp add: coalesce_def)
qed

lemma request_good:
  assumes inv: "recovery_inv env db" and fresh: "newId \<notin> rv_id ` set (db_recoveries db)"
    and eq: "request env db sid reason run explicit now newId = Inr (db', r)"
  shows "good env db db'"
proof -
  obtain s0 where s0: "session_of db sid = Some s0"
    using eq by (auto simp: request_def split: if_splits option.splits)
  define healthy where "healthy = (\<not> explicit \<and> isHealthySession db s0 now)"
  define db1 where "db1 = (if \<not> healthy \<and> ss_closureVerifiedAt s0 = None then suspend_session db s0 now else db)"
  define s where "s = coalesce (session_of db1 sid) s0"
  obtain db2 where en: "ensureRecovery env db1 s reason (if truthy run then run else None) healthy now newId = Inr (db2, r)"
    and res: "db' = db2 \<or> db' = fst (releaseVerifiedSessionResources env db2 sid now)"
    using eq unfolding request_def s0 option.case Let_def healthy_def [symmetric] db1_def [symmetric] s_def [symmetric]
    by (auto split: if_splits sum.splits)
  have g1: "good env db db1" by (simp add: db1_def suspend_good [OF inv] good_refl [OF inv])
  have "s \<in> set (db_sessions db1)"
    using session_of_suspend [OF s0 inv] session_of_member [OF s0] s0 by (auto simp: s_def db1_def coalesce_def)
  moreover have "newId \<notin> rv_id ` set (db_recoveries db1)"
    using fresh by (simp add: db1_def suspend_session_def set_sessions_def)
  ultimately have g2: "good env db1 db2" using ensure_props(1) [OF good_inv [OF g1] _ _ en] by blast
  moreover have "good env db2 (fst (releaseVerifiedSessionResources env db2 sid now))"
    using release_good(1) [OF good_inv [OF g2]] by (metis prod.collapse)
  ultimately show ?thesis using res good_trans [OF g1] good_trans by metis
qed

text \<open>Changes of a recovery that is not closed.\<close>

lemma kept_open:
  assumes "rv_closureState r \<noteq> C_VERIFIED" "rv_closureState r' \<noteq> C_VERIFIED"
    and "rv_id r' = rv_id r" "recovery_key r' = recovery_key r" "rv_teamId r' = rv_teamId r" "rv_runtimeId r' = rv_runtimeId r"
    and "rv_expectedLeaseDigest r' = rv_expectedLeaseDigest r" "rv_version r' = rv_version r"
    and "rv_writeOutcomeState r' = rv_writeOutcomeState r" "rv_closureVerifiedAt r' = rv_closureVerifiedAt r"
    and "rv_closureEvidenceId r' = rv_closureEvidenceId r" "rv_resolvedAt r' = rv_resolvedAt r"
    and "rv_attempts r \<le> max_closure_attempts \<Longrightarrow> rv_attempts r' \<le> max_closure_attempts"
  shows "kept_recovery r r'"
  using assms by (simp add: kept_recovery_def row_ok_def closure_fields_def)

lemma kept_closing:
  assumes "rv_closureState r \<noteq> C_VERIFIED" "again \<or> rv_attempts r < max_closure_attempts"
  shows "kept_recovery r (closing i token t again r)"
  by (rule kept_open) (use assms in \<open>auto simp: closing_def recovery_key_def\<close>)

lemma kept_requested: "rv_closureState r \<noteq> C_VERIFIED \<Longrightarrow> kept_recovery r (requested_again now r)"
  by (rule kept_open) (auto simp: requested_again_def recovery_key_def)

lemma kept_retried: "rv_closureState r \<noteq> C_VERIFIED \<Longrightarrow> kept_recovery r ((requested_again now r)\<lparr>rv_attempts := 0\<rparr>)"
  by (rule kept_open) (auto simp: requested_again_def recovery_key_def)

lemma kept_failed: "rv_closureState r \<noteq> C_VERIFIED \<Longrightarrow> kept_recovery r (failed_attempt f now jitter r)"
  by (rule kept_open) (auto simp: failed_attempt_def Let_def recovery_key_def)

lemma kept_deferred:
  "rv_closureState r \<noteq> C_VERIFIED \<Longrightarrow> state \<noteq> C_VERIFIED \<Longrightarrow> kept_recovery r (r\<lparr>rv_closureState := state,
     rv_lastErrorCode := code, rv_nextAttemptAt := t, rv_claimToken := None, rv_claimExpiresAt := None\<rparr>)"
  by (rule kept_open) (auto simp: recovery_key_def)

lemma change_good:
  assumes "recovery_inv env db" "current db r" "kept_recovery r (f r)"
  shows "good env db (fst (change_recovery db r f))"
proof -
  obtain db' r' where c: "change_recovery db r f = (db', r')" by fastforce
  note C = change_recovery_props [OF assms c]
  show ?thesis unfolding c fst_conv by (rule good_keeps [OF assms(1) C(1)]) (simp add: C(5))
qed

lemma other_good:
  assumes "recovery_inv env db" "db_sessions db' = db_sessions db" "db_recoveries db' = db_recoveries db"
    "db_evidence db' = db_evidence db" "db_leases db' = db_leases db"
  shows "good env db db'"
  by (rule good_keeps [OF assms(1) keeps_other]) (simp_all add: assms(2-))

lemma take_permit_tables:
  "take_permit db p P f = Some db' \<Longrightarrow> db_sessions db' = db_sessions db \<and> db_recoveries db' = db_recoveries db
   \<and> db_evidence db' = db_evidence db \<and> db_leases db' = db_leases db \<and> db_commands db' = db_commands db"
  by (auto simp: take_permit_def split: option.splits if_splits)

lemma begin_close_good:
  assumes inv: "recovery_inv env db" and r: "recovery_of db rid = Some r" "rv_sessionId r = sid"
    and eq: "begin_close env db rid sid proposed t now token = Inr (db', payload)"
  shows "good env db db'"
proof -
  obtain s where s: "session_of db sid = Some s"
    using eq r by (auto simp: begin_close_def split: option.splits)
  define prior where "prior = command_pending db (rv_activeCommandId r) now"
  have ok: "close_refused env s r (prior \<noteq> None) now = None"
    using eq unfolding begin_close_def r s prod.case option.case Let_def prior_def [symmetric]
    by (cases "close_refused env s r (prior \<noteq> None) now") simp_all
  define commandId where "commandId = (case prior of None \<Rightarrow> proposed | Some c \<Rightarrow> cd_id c)"
  define permit where "permit = \<lparr>pt_runtimeId = ss_runtimeId s, pt_recoveryId = rid,
      pt_activeCommandId = Some commandId, pt_claimToken = token, pt_claimExpiresAt = now + claim_ttl\<rparr>"
  obtain db1 where p: "close_permit db permit now = Some db1"
    using eq unfolding begin_close_def r s prod.case option.case Let_def prior_def [symmetric] ok
      commandId_def [symmetric] permit_def [symmetric] by (auto split: option.splits)
  define db2 where "db2 = (if prior \<noteq> None then db1 else add_command db1
        (close_command commandId s rid now (now + max 1 (min t 90) * 1000)))"
  let ?f = "closing commandId token (now + claim_ttl) (prior \<noteq> None)"
  obtain db3 r' where ch: "change_recovery db2 r ?f = (db3, r')" by fastforce
  have db': "db' = request_close db3 r'"
    using eq unfolding begin_close_def r s prod.case option.case Let_def prior_def [symmetric] ok
      commandId_def [symmetric] permit_def [symmetric] p db2_def [symmetric] ch by simp
  have t2: "db_sessions db2 = db_sessions db" "db_recoveries db2 = db_recoveries db" "db_evidence db2 = db_evidence db"
      "db_leases db2 = db_leases db"
    using take_permit_tables [OF p [unfolded close_permit_def]] by (simp_all add: db2_def add_command_def)
  have g2: "good env db db2" by (rule other_good [OF inv]) (simp_all add: t2)
  have cur: "current db2 r" using recovery_of_current [OF r(1)] current_same [OF t2(2)] by simp
  have sm: "s \<in> set (db_sessions db2)" "ss_id s = sid" using session_of_member [OF s] t2(1) by simp_all
  have c: "ss_fencingToken s = rv_expectedSessionFence r" "\<not> is_verified s" "prior \<noteq> None \<or> rv_attempts r < max_closure_attempts"
    using ok by (auto simp: close_refused_def split: if_splits)
  have "rv_closureState r \<noteq> C_VERIFIED"
    using unverified_no_proof [OF good_inv [OF g2] sm(1) c(2), of r] cur current_iff good_inv [OF g2] sm(2) r(2) c(1)
    by (auto simp: recovery_key_def session_epoch_def recovery_inv_def)
  then have k: "kept_recovery r (?f r)" by (rule kept_closing) (rule c(3))
  have g3: "good env db2 db3" using change_good [OF good_inv [OF g2] cur, of ?f, OF k] ch by simp
  have "good env db3 db'" unfolding db' by (rule other_good [OF good_inv [OF g3]]) (simp_all add: request_close_def)
  then show ?thesis by (rule good_trans [OF good_trans [OF g2 g3]])
qed

lemma change_if_good:
  assumes inv: "recovery_inv env db"
    and k: "\<And>x. row_ok x \<Longrightarrow> P x \<Longrightarrow> kept_recovery x (f x)"
    and eq: "change_if db r P f = (db', b)"
  shows "good env db db'"
proof -
  let ?m = "\<lambda>x. rv_id x = rv_id r \<and> P x"
  let ?d = "db\<lparr>db_recoveries := update_where ?m (\<lambda>x. next_version (f x)) (db_recoveries db)\<rparr>"
  have "keeps db ?d"
    by (rule keeps_update_recoveries) (use inv k kept_next_version in \<open>auto simp: recovery_inv_def\<close>)
  then have g: "good env db ?d" by (rule good_keeps [OF inv]) simp
  have "good env ?d (emitRecoveryChanged ?d x)" for x by (rule other_good [OF good_inv [OF g]]) simp_all
  then show ?thesis using eq g good_trans [OF g] good_refl [OF inv] by (auto simp: change_if_def Let_def split: if_splits)
qed

lemma wake_good:
  assumes inv: "recovery_inv env db"
  shows "good env db (fst (wakeRuntime env db runtimeId now))"
proof -
  have "good env db (foldl (\<lambda>d r. fst (change_if d r (\<lambda>x. rv_version x = rv_version r \<and> rv_closureEvidenceId x = None)
      (requested_again now))) db rows)" for rows
  proof (rule foldl_keeps)
    show "good env db db" by (rule good_refl [OF inv])
  next
    fix d r assume g: "good env db d"
    have "good env d (fst (change_if d r (\<lambda>x. rv_version x = rv_version r \<and> rv_closureEvidenceId x = None) (requested_again now)))"
      by (rule change_if_good [OF good_inv [OF g] _ prod.collapse [symmetric]]) (auto intro: kept_requested simp: row_ok_def)
    then show "good env db (fst (change_if d r (\<lambda>x. rv_version x = rv_version r \<and> rv_closureEvidenceId x = None)
        (requested_again now)))" by (rule good_trans [OF g])
  qed
  then show ?thesis
    using good_refl [OF inv] by (auto simp: wakeRuntime_def Let_def split: option.split)
qed

lemma retry_good:
  assumes inv: "recovery_inv env db" and eq: "retry env db who i v now = Inr db'"
  shows "good env db db'"
proof -
  define P where "P = (\<lambda>x. rv_version x = v \<and> rv_closureVerifiedAt x = None \<and> unclaimed now x)"
  have k: "kept_recovery x ((requested_again now x)\<lparr>rv_attempts := 0\<rparr>)" if "row_ok x" "P x" for x
    using that by (intro kept_retried) (auto simp: row_ok_def P_def)
  have "db' = db \<or> (\<exists>r. change_if db r P (\<lambda>x. (requested_again now x)\<lparr>rv_attempts := 0\<rparr>) = (db', True))"
    using eq unfolding retry_def P_def by (auto split: if_splits option.splits prod.splits bool.splits)
  then show ?thesis using change_if_good [OF inv k] good_refl [OF inv] by blast
qed

section \<open>Settling, proofs and failures\<close>

lemma resolve_owner_tables [simp]:
  "db_sessions (resolve_owner db s) = db_sessions db" "db_recoveries (resolve_owner db s) = db_recoveries db"
  "db_evidence (resolve_owner db s) = db_evidence db" "db_leases (resolve_owner db s) = db_leases db"
  by (auto simp: resolve_owner_def set_tasks_def split: option.split)

lemma kept_finished:
  assumes "rv_closureState r = C_VERIFIED"
  shows "kept_recovery r (finished env who x retrying now r)"
  using assms by (auto simp: finished_def kept_recovery_def row_ok_def closure_fields_def recovery_key_def writeSettled_def)

lemma epoch_closed_proof:
  assumes "epoch_closed env s r" "closure_on_record env db s r" "rv_sessionId r = ss_id s"
  shows "\<exists>e\<in>set (db_evidence db). proved_by env s r e"
proof -
  obtain e where e: "List.find (\<lambda>e. Some (ev_id e) = ss_closureEvidenceId s) (db_evidence db) = Some e"
      "ev_sessionId e = ss_id s" "ev_sessionFence e = ss_fencingToken s" "ev_leaseDigest e = rv_expectedLeaseDigest r"
      "ev_recoveryId e = rv_id r" "rv_closureEvidenceId r = Some (ev_id e)"
    using assms(2) by (auto simp: closure_on_record_def split: option.splits)
  have "e \<in> set (db_evidence db)" "ss_closureEvidenceId s = Some (ev_id e)" using find_SomeD [OF e(1)] by simp_all
  then show ?thesis
    using e assms(1,3) by (auto simp: proved_by_def epoch_closed_def recovery_key_def session_epoch_def intro!: bexI [of _ e])
qed

lemma finish_good:
  assumes inv: "recovery_inv env db" and eq: "finishRecovery env db who i x now = Inr (db', n)"
  shows "good env db db'"
proof (cases "db' = db")
  case True
  then show ?thesis using good_refl [OF inv] by simp
next
  case False
  define retrying where "retrying = (fi_outcome x = OUTCOME_RETRY_AUTHORIZED)"
  obtain r where r: "owned db who i = Some r"
    using eq by (auto simp: finishRecovery_def Let_def split: if_splits option.splits)
  obtain s where s: "session_of db (rv_sessionId r) = Some s"
    using eq r by (auto simp: finishRecovery_def Let_def split: if_splits option.splits)
  have ok: "finish_refused env db x retrying s r = None"
    using eq False unfolding finishRecovery_def Let_def r s option.case retrying_def
    by (cases "finish_refused env db x (fi_outcome x = OUTCOME_RETRY_AUTHORIZED) s r") (auto split: if_splits)
  obtain db1 where g: "materializeRecoveryGuards env (resolve_owner db s) s r = Inr db1"
    using eq False ok unfolding finishRecovery_def Let_def r s option.case retrying_def
    by (cases "materializeRecoveryGuards env (resolve_owner db s) s r") (auto split: if_splits)
  let ?f = "finished env who x retrying now"
  obtain db2 r' where ch: "change_recovery db1 r ?f = (db2, r')" by fastforce
  define guarded where "guarded = (\<lambda>l::guarded_lease. le_sessionId l = ss_id s \<and> gl_recoveryId l = Some i)"
  define db3 where "db3 = db2\<lparr>db_leases := delete_where guarded (db_leases db2)\<rparr>"
  have db': "db' = set_sessions db3 (\<lambda>y. ss_id y = ss_id s \<and> ss_fencingToken y = rv_expectedSessionFence r
      \<and> ss_closureVerifiedAt y \<noteq> None) (\<lambda>y. y\<lparr>ss_quarantinedAt := None\<rparr>)"
    using eq False ok g ch unfolding finishRecovery_def Let_def r s option.case retrying_def db3_def guarded_def
    by (auto split: if_splits)
  note G = guards_props [OF g]
  have rm: "r \<in> set (db_recoveries db)" "rv_id r = i" using r by (auto simp: owned_def dest: find_SomeD)
  have sm: "s \<in> set (db_sessions db)" "ss_id s = rv_sessionId r" using session_of_member [OF s] by simp_all
  have closed: "epoch_closed env s r" "closure_on_record env db s r" using ok by (auto simp: finish_refused_def split: if_splits)
  obtain e where e: "e \<in> set (db_evidence db)" "proved_by env s r e"
    using epoch_closed_proof [OF closed] sm(2) by auto
  have g1: "good env db db1" by (rule good_keeps [OF inv keeps_other]) (use G in simp_all)
  have cur: "current db1 r" using rm(1) inv G(2) current_iff by (auto simp: recovery_inv_def current_same [of db1 db])
  have k: "kept_recovery r (?f r)" by (rule kept_finished) (use closed(1) in \<open>simp add: epoch_closed_def\<close>)
  note C = change_recovery_props [OF good_inv [OF g1] cur, of ?f, OF k ch]
  have g2: "good env db1 db2" by (rule good_keeps [OF good_inv [OF g1] C(1)]) (simp add: C(5))
  note inv2 = good_inv [OF g2]
  have k3: "keeps db2 db3" by (rule keeps_other) (simp_all add: db3_def)
  have k': "keeps db2 db'" unfolding db'
    by (rule keeps_trans [OF k3 keeps_set_sessions]) (simp add: same_session_def is_verified_def)
  have "proved_by env s r' e"
    using proved_by_later [OF e(2) later_session_refl _ same_evidence_refl, of r'] k
    unfolding C(2) by (auto simp: later_recovery_def kept_recovery_def current_ok [OF good_inv [OF g1] cur])
  moreover have "writeSettled (rv_writeOutcomeState r')" by (simp add: C(2) finished_def writeSettled_def)
  moreover have "r' \<in> set (db_recoveries db2)" using C(3) inv2 by (simp add: current_iff recovery_inv_def)
  ultimately have ok2: "released_ok env db2 k" if "fst k = ss_id s" for k
    unfolding released_ok_def using sm(1) e(1) C(6,7) G(1,3) that by auto
  have "leases_safe env db2 db'"
    unfolding leases_safe_def
  proof (intro ballI disjCI)
    fix k assume k0: "k \<in> lease_key ` set (db_leases db2)" and no: "\<not> released_ok env db' k"
    then have "fst k \<noteq> ss_id s" using ok2 released_ok_later [OF _ keeps_later [OF inv2 k']] by blast
    moreover obtain l where "l \<in> set (db_leases db2)" "k = lease_key l" using k0 by blast
    ultimately show "k \<in> lease_key ` set (db_leases db')"
      unfolding db' by (auto simp: set_sessions_def db3_def delete_where_def guarded_def lease_key_def)
  qed
  then have "good env db2 db'" using inv_keeps [OF inv2 k'] keeps_later [OF inv2 k'] by (simp add: good_def)
  then show ?thesis by (rule good_trans [OF good_trans [OF g1 g2]])
qed

lemma proof_refused_Inr:
  assumes "proof_refused env db c p = Inr (s, r, cmd)"
  shows "can_supply c p" "session_of db (pf_sessionId p) = Some s" "recovery_of db (pf_recoveryId p) = Some r"
    "command_of db (pf_requestId p) = Some cmd" "matches_challenge p s r cmd"
    "\<exists>rt. find_by rt_id (xc_runtimeId c) (db_runtimes db) = Some rt \<and> current_connection c rt \<and> matches_epoch rt p s
       \<and> matches_recovery env rt p s r"
    "pf_method p = ''IDENTIFIED_PROCESS_SET_TERMINATED'' \<Longrightarrow> js_truthy (js_prop (challenge cmd) ''expectedLaunchIdentity'')"
    "pf_method p = ''LAUNCH_PREVENTED'' \<Longrightarrow> launch_prevented db p s cmd"
  using assms by (auto simp: proof_refused_def split: if_splits option.splits)

lemma kept_prevented: "kept_recovery r (r\<lparr>rv_writeOutcomeState := W_NO_WRITE_VERIFIED\<rparr>)"
  by (auto simp: kept_recovery_def row_ok_def closure_fields_def recovery_key_def writeSettled_def)

lemma enrich_keeps: "keeps db (enrich_evidence db p s r audit)"
  by (auto simp: enrich_evidence_def keeps_def list_all2_refl same_evidence_def intro!: list_all2_update_where split: option.split)

lemma enrich_tables [simp]:
  "db_sessions (enrich_evidence db p s r audit) = db_sessions db" "db_recoveries (enrich_evidence db p s r audit) = db_recoveries db"
  "db_leases (enrich_evidence db p s r audit) = db_leases db"
  "ev_id ` set (db_evidence (enrich_evidence db p s r audit)) = ev_id ` set (db_evidence db)"
  unfolding enrich_evidence_def
  by (cases audit; simp; unfold update_where_def, rule image_map_if, simp)+

lemma runtime_evidence_good:
  assumes inv: "recovery_inv env db" and fresh: "rowId \<noteq> []" "rowId \<notin> ev_id ` set (db_evidence db)"
    and eq: "acceptRuntimeEvidence env db c p audit now rowId = Inr db'"
  shows "good env db db'"
    "\<exists>s r cmd. proof_refused env db c p = Inr (s, r, cmd)
       \<and> (\<exists>s'\<in>set (db_sessions db'). session_epoch s' = session_epoch s \<and> is_verified s')"
proof -
  obtain s r0 cmd where pr: "proof_refused env db c p = Inr (s, r0, cmd)"
    using eq by (auto simp: acceptRuntimeEvidence_def split: if_splits sum.splits)
  note P = proof_refused_Inr [OF pr]
  let ?f = "\<lambda>x. next_version (x\<lparr>rv_writeOutcomeState := W_NO_WRITE_VERIFIED\<rparr>)"
  define db1 where "db1 = (if pf_method p = ''LAUNCH_PREVENTED'' then set_recovery db (rv_id r0) ?f else db)"
  define r where "r = coalesce (recovery_of db1 (rv_id r0)) r0"
  define db2 where "db2 = enrich_evidence db1 p s r (accepted_audit c p s audit)"
  have com: "commitEvidence env db2 s r (runtime_record p (accepted_audit c p s audit)) now rowId = Inr db'"
    using eq pr unfolding acceptRuntimeEvidence_def Let_def db2_def r_def db1_def by (auto split: if_splits)
  have cur0: "current db r0" "rv_id r0 = pf_recoveryId p" using recovery_of_current [OF P(3)] by simp_all
  have k1: "keeps db db1"
    using keeps_set_recovery [OF inv cur0(1), of ?f, OF kept_next_version [OF kept_prevented]] by (simp add: db1_def)
  have key: "recovery_key r0 = session_epoch s" using P(6) by (auto simp: matches_recovery_def recovery_key_def session_epoch_def)
  have now: "recovery_of db1 (rv_id r0) = Some (if pf_method p = ''LAUNCH_PREVENTED'' then ?f r0 else r0)"
    using recovery_of_set_recovery [OF cur0(1), of ?f] cur0(1) by (simp add: db1_def current_def)
  then have r: "r = (if pf_method p = ''LAUNCH_PREVENTED'' then ?f r0 else r0)" by (simp add: r_def coalesce_def)
  have "current db1 r" using now r by (simp add: current_def)
  then have cur: "current db2 r" using current_same [of db2 db1] by (simp add: db2_def)
  have key': "recovery_key r = session_epoch s" using key r by (simp add: recovery_key_def next_version_def)
  have sm: "s \<in> set (db_sessions db2)" using session_of_member [OF P(2)] by (simp add: db2_def db1_def)
  have k2: "keeps db db2" unfolding db2_def by (rule keeps_trans [OF k1 enrich_keeps])
  have g2: "good env db db2" by (rule good_keeps [OF inv k2]) (simp add: db2_def db1_def)
  have fresh2: "rowId \<notin> ev_id ` set (db_evidence db2)" using fresh(2) by (simp add: db2_def db1_def)
  note K = commit_props [OF good_inv [OF g2] sm cur key' fresh(1) fresh2 com]
  show "good env db db'" by (rule good_trans [OF g2 K(1)])
  show "\<exists>s r cmd. proof_refused env db c p = Inr (s, r, cmd)
       \<and> (\<exists>s'\<in>set (db_sessions db'). session_epoch s' = session_epoch s \<and> is_verified s')"
    using pr K(2) by blast
qed

lemma ensured_commit_good:
  assumes inv: "recovery_inv env db" and s: "s \<in> set (db_sessions db)"
    and fresh: "newId \<notin> rv_id ` set (db_recoveries db)" "rowId \<noteq> []" "rowId \<notin> ev_id ` set (db_evidence db)"
    and en: "ensureRecovery env db s reason run False now newId = Inr (db1, r)"
    and com: "commitEvidence env db1 s r p now rowId = Inr db'"
  shows "good env db db'"
proof -
  note E = ensure_props [OF inv s fresh(1) en]
  have "good env db1 db'"
    by (rule commit_props(1) [OF good_inv [OF E(1)] _ E(2,3) fresh(2) _ com]) (use s fresh(3) E(4,5) in simp_all)
  then show ?thesis by (rule good_trans [OF E(1)])
qed

lemma never_launched_good:
  assumes inv: "recovery_inv env db"
    and fresh: "newId \<notin> rv_id ` set (db_recoveries db)" "rowId \<noteq> []" "rowId \<notin> ev_id ` set (db_evidence db)"
    and eq: "acceptNeverLaunched env db sid fence token now newId evidenceId rowId = Inr db'"
  shows "good env db db'"
proof -
  obtain s db1 r p where "session_of db sid = Some s"
      and "ensureRecovery env db s ''CONTROL_PLANE_NO_LAUNCH'' None False now newId = Inr (db1, r)"
      and "commitEvidence env db1 s r p now rowId = Inr db'"
    using eq by (auto simp: acceptNeverLaunched_def split: if_splits option.splits sum.splits)
  then show ?thesis using ensured_commit_good [OF inv _ fresh] session_of_member by blast
qed

lemma admin_drain_good:
  assumes inv: "recovery_inv env db"
    and fresh: "newId \<notin> rv_id ` set (db_recoveries db)" "rowId \<noteq> []" "rowId \<notin> ev_id ` set (db_evidence db)"
    and eq: "acceptAdminDrainEvidence env db sid fence digest evidenceId drainId refs now newId rowId = Inr db'"
  shows "good env db db'"
proof -
  obtain s db1 r p where "session_of db sid = Some s"
      and "ensureRecovery env db s ''ADMIN_DRAIN'' None False now newId = Inr (db1, r)"
      and "commitEvidence env db1 s r p now rowId = Inr db'"
    using eq by (auto simp: acceptAdminDrainEvidence_def split: if_splits option.splits sum.splits)
  then show ?thesis using ensured_commit_good [OF inv _ fresh] session_of_member by blast
qed

lemma failure_good:
  assumes inv: "recovery_inv env db" and fresh: "newId \<notin> rv_id ` set (db_recoveries db)"
    and eq: "recordFailure env db f now jitter newId = Inr (db', b)"
  shows "good env db db'"
proof (cases "db' = db")
  case True
  then show ?thesis using good_refl [OF inv] by simp
next
  case False
  obtain s where s: "session_of db (cf_sessionId f) = Some s" and nv: "\<not> is_verified s"
    using eq False by (auto simp: recordFailure_def split: if_splits option.splits)
  define db2 where "db2 = (\<lambda>d. set_sessions d (\<lambda>x. same_epoch s x \<and> ss_closureVerifiedAt x = None)
      (\<lambda>x. x\<lparr>ss_status := ''LOST'', ss_executionPermitExpiresAt := Some now,
         ss_quarantinedAt := Some (coalesce (ss_quarantinedAt s) now), ss_lastError := Some (cf_errorCode f)\<rparr>))"
  obtain db1 r where en: "ensureRecovery env db s (cf_errorCode f) None False now newId = Inr (db1, r)"
    and res: "db' = db1 \<or> db' = fst (change_recovery (db2 db1) r (failed_attempt f now jitter))"
    using eq False s nv unfolding recordFailure_def db2_def
    by (cases "ensureRecovery env db s (cf_errorCode f) None False now newId") (auto split: if_splits)
  note sm = session_of_member [OF s]
  note E = ensure_props [OF inv conjunct1 [OF sm] fresh en]
  have k: "keeps db1 (db2 db1)" unfolding db2_def by (rule keeps_set_sessions) (auto simp: same_session_def is_verified_def)
  have g2: "good env db1 (db2 db1)" by (rule good_keeps [OF good_inv [OF E(1)] k]) (simp add: db2_def set_sessions_def)
  have cur: "current (db2 db1) r" using E(2) current_same [of "db2 db1" db1] by (simp add: db2_def set_sessions_def)
  have rm: "r \<in> set (db_recoveries db1)" using E(1,2) by (simp add: good_def current_iff recovery_inv_def)
  have "rv_closureState r \<noteq> C_VERIFIED"
    by (rule unverified_no_proof [OF good_inv [OF E(1)] _ nv rm E(3)]) (use sm E(4) in simp)
  then have "good env (db2 db1) (fst (change_recovery (db2 db1) r (failed_attempt f now jitter)))"
    by (intro change_good [OF good_inv [OF g2] cur] kept_failed)
  then have "good env db (fst (change_recovery (db2 db1) r (failed_attempt f now jitter)))"
    by (rule good_trans [OF good_trans [OF E(1) g2]])
  then show ?thesis using res E(1) by blast
qed

section \<open>The worker\<close>

definition quiet :: "rdb \<Rightarrow> rdb \<Rightarrow> bool" where
  "quiet db db' \<longleftrightarrow> keeps db db' \<and> db_leases db' = db_leases db"

lemma quiet_good: "recovery_inv env db \<Longrightarrow> quiet db db' \<Longrightarrow> good env db db'"
  by (rule good_keeps) (simp_all add: quiet_def)

lemma quiet_refl [simp]: "quiet db db"
  by (simp add: quiet_def)

lemma quiet_trans: "quiet a b \<Longrightarrow> quiet b c \<Longrightarrow> quiet a c"
  using keeps_trans by (auto simp: quiet_def)

lemma quiet_inv: "recovery_inv env db \<Longrightarrow> quiet db db' \<Longrightarrow> recovery_inv env db'"
  using quiet_good good_inv by blast

lemma other_quiet:
  "db_sessions db' = db_sessions db \<Longrightarrow> db_recoveries db' = db_recoveries db \<Longrightarrow>
   db_evidence db' = db_evidence db \<Longrightarrow> db_leases db' = db_leases db \<Longrightarrow> quiet db db'"
  by (simp add: quiet_def keeps_other)

lemma change_quiet:
  assumes "recovery_inv env db" "current db r" "kept_recovery r (f r)"
  shows "quiet db (fst (change_recovery db r f))"
  using change_recovery_props(1,5) [OF assms(1,2), of f, OF assms(3) prod.collapse [symmetric]] by (simp add: quiet_def)

lemma drop_permit_quiet: "quiet db (drop_permit db P)"
  by (rule other_quiet) (simp_all add: drop_permit_def)

lemma defer_quiet:
  assumes "recovery_inv env db" "current db r" "rv_closureState r \<noteq> C_VERIFIED" "state \<noteq> C_VERIFIED"
  shows "quiet db (deferWithoutDispatch db r state code t)"
  unfolding deferWithoutDispatch_def
  by (intro change_quiet [OF assms(1,2)]) (rule kept_deferred [OF assms(3,4)])

lemma claim_one_quiet:
  assumes inv: "recovery_inv env db" and cur: "current db r" and nv: "rv_closureState r \<noteq> C_VERIFIED"
    and eq: "claim_one db r now token newCommand = Inr (db', claimed)"
  shows "quiet db db'"
proof -
  have put_off: "quiet d (deferWithoutDispatch d r C_WAITING_RUNTIME code t)"
    "quiet d (deferWithoutDispatch d r C_NEEDS_OPERATOR code t)"
    if "quiet db d" "db_recoveries d = db_recoveries db" for d code t
    using defer_quiet [OF quiet_inv [OF inv that(1)] _ nv] cur current_same [OF that(2)] by simp_all
  show ?thesis
  proof (cases "\<exists>rt. find_by rt_id (rv_runtimeId r) (db_runtimes db) = Some rt \<and> rt_status rt = ''ONLINE'' \<and> rt_enabled rt \<and> can_close rt")
    case False
    then show ?thesis using eq put_off [OF quiet_refl refl] by (auto simp: claim_one_def split: option.splits if_splits)
  next
    case True
    then obtain rt where rt: "find_by rt_id (rv_runtimeId r) (db_runtimes db) = Some rt" "rt_status rt = ''ONLINE''"
        "rt_enabled rt" "can_close rt" by blast
    define permit where "permit = \<lparr>pt_runtimeId = rv_runtimeId r, pt_recoveryId = rv_id r, pt_activeCommandId = None,
        pt_claimToken = token, pt_claimExpiresAt = now + claim_ttl\<rparr>"
    define mine where "mine = (\<lambda>q::permit_row. pt_runtimeId q = rv_runtimeId r \<and> pt_claimToken q = token)"
    show ?thesis
    proof (cases "claim_permit db permit now")
      case None
      then show ?thesis using eq rt quiet_refl by (simp add: claim_one_def permit_def)
    next
      case (Some db1)
      have t1: "db_sessions db1 = db_sessions db" "db_recoveries db1 = db_recoveries db" "db_evidence db1 = db_evidence db"
          "db_leases db1 = db_leases db"
        using take_permit_tables [OF Some [unfolded claim_permit_def]] by simp_all
      have g1: "quiet db db1" by (rule other_quiet) (simp_all add: t1)
      have cur1: "current db1 r" using cur current_same [OF t1(2)] by simp
      obtain s where s: "session_of db1 (rv_sessionId r) = Some s"
        using eq rt Some by (cases "session_of db1 (rv_sessionId r)") (auto simp: claim_one_def permit_def Let_def)
      define previous where "previous = command_pending db1 (rv_activeCommandId r) now"
      have online: "(rt_status rt \<noteq> ''ONLINE'' \<or> \<not> rt_enabled rt) = False" "(\<not> can_close rt) = False" using rt(2-4) by simp_all
      have body: "(if is_verified s \<or> ss_fencingToken s \<noteq> rv_expectedSessionFence r then Inr (drop_permit db1 mine, None)
          else if previous = None \<and> max_closure_attempts \<le> rv_attempts r
          then Inr (drop_permit (deferWithoutDispatch db1 r C_NEEDS_OPERATOR ''RECOVERY_ATTEMPTS_EXHAUSTED'' None) mine, None)
          else let commandId = (case previous of None \<Rightarrow> newCommand | Some c \<Rightarrow> cd_id c);
              db2 = (if previous \<noteq> None then db1 else add_command db1 (close_command commandId s (rv_id r) now (now + 90000)));
              db3 = db2\<lparr>db_permits := update_where mine (\<lambda>q. q\<lparr>pt_activeCommandId := Some commandId\<rparr>) (db_permits db2)\<rparr>;
              db4 = set_recovery db3 (rv_id r) (\<lambda>x. next_version (closing commandId token (now + claim_ttl) (previous \<noteq> None) x));
              updated = coalesce (recovery_of db4 (rv_id r)) r in
            Inr (emitRecoveryChanged (request_close db4 updated) updated, Some updated))
          = (Inr (db', claimed) :: recovery_error + rdb \<times> recovery_row option)"
        using eq unfolding claim_one_def rt(1) option.case online if_False permit_def [symmetric] Some s Let_def mine_def
          previous_def .
      show ?thesis
      proof (cases "is_verified s \<or> ss_fencingToken s \<noteq> rv_expectedSessionFence r")
        case True
        then show ?thesis using body quiet_trans [OF g1 drop_permit_quiet] by auto
      next
        case fit: False
        show ?thesis
        proof (cases "previous = None \<and> max_closure_attempts \<le> rv_attempts r")
          case True
          then show ?thesis
            using body fit quiet_trans [OF quiet_trans [OF g1 put_off(2) [OF g1 t1(2)]] drop_permit_quiet]
            by auto
        next
          case ok: False
          define commandId where "commandId = (case previous of None \<Rightarrow> newCommand | Some c \<Rightarrow> cd_id c)"
          define db2 where "db2 = (if previous \<noteq> None then db1 else add_command db1 (close_command commandId s (rv_id r) now (now + 90000)))"
          define db3 where "db3 = db2\<lparr>db_permits := update_where mine (\<lambda>q. q\<lparr>pt_activeCommandId := Some commandId\<rparr>) (db_permits db2)\<rparr>"
          define g where "g = (\<lambda>x. next_version (closing commandId token (now + claim_ttl) (previous \<noteq> None) x))"
          define db4 where "db4 = set_recovery db3 (rv_id r) g"
          define updated where "updated = coalesce (recovery_of db4 (rv_id r)) r"
          have db': "db' = emitRecoveryChanged (request_close db4 updated) updated"
            using body fit ok unfolding Let_def commandId_def [symmetric] db2_def [symmetric] db3_def [symmetric] g_def [symmetric]
              db4_def [symmetric] updated_def [symmetric] by simp
          have t3: "db_sessions db3 = db_sessions db" "db_recoveries db3 = db_recoveries db" "db_evidence db3 = db_evidence db"
              "db_leases db3 = db_leases db"
            using t1 by (simp_all add: db3_def db2_def add_command_def)
          have g3: "quiet db db3" by (rule other_quiet) (simp_all add: t3)
          have cur3: "current db3 r" using cur current_same [OF t3(2)] by simp
          have "kept_recovery r (g r)" unfolding g_def
            by (intro kept_next_version kept_closing [OF nv]) (use ok in auto)
          then have g4: "quiet db3 db4"
            unfolding db4_def quiet_def by (simp add: keeps_set_recovery [OF quiet_inv [OF inv g3] cur3])
          have "quiet db4 db'"
            unfolding db' by (rule other_quiet) (simp_all add: request_close_def)
          then show ?thesis by (rule quiet_trans [OF quiet_trans [OF g3 g4]])
        qed
      qed
    qed
  qed
qed

lemma quiet_open:
  assumes "recovery_inv env db" "quiet db db'" "\<And>r. recovery_of db i = Some r \<Longrightarrow> rv_closureState r \<noteq> C_VERIFIED"
    and "recovery_of db' i = Some r'"
  shows "rv_closureState r' \<noteq> C_VERIFIED"
proof -
  have "r' \<in> set (db_recoveries db')" "rv_id r' = i"
    using recovery_of_current [OF assms(4)] current_iff quiet_inv [OF assms(1,2)] by (auto simp: recovery_inv_def)
  then obtain r where r: "r \<in> set (db_recoveries db)" "kept_recovery r r'"
    using assms(2) list_all2_mem2 unfolding quiet_def keeps_def by metis
  have "rv_id r = i" using r(2) \<open>rv_id r' = i\<close> by (simp add: kept_recovery_def)
  then have "recovery_of db i = Some r" using recovery_of_member [OF assms(1) r(1)] by simp
  moreover have "row_ok r" using assms(1) r(1) by (simp add: recovery_inv_def)
  ultimately show ?thesis using assms(3) r(2) by (simp add: kept_recovery_def closure_fields_def)
qed

lemma claim_rows_quiet:
  "recovery_inv env db \<Longrightarrow> (\<And>i r. i \<in> set ids \<Longrightarrow> recovery_of db i = Some r \<Longrightarrow> rv_closureState r \<noteq> C_VERIFIED)
   \<Longrightarrow> claim_rows ids now fresh db = Inr (db', rows) \<Longrightarrow> quiet db db'"
proof (induction ids arbitrary: db db' rows)
  case Nil
  then show ?case by simp
next
  case (Cons i ids)
  obtain r where r: "recovery_of db i = Some r" using Cons.prems(3) by (auto split: option.splits)
  obtain db1 claimed where one: "claim_one db r now (fst (fresh i)) (snd (fresh i)) = Inr (db1, claimed)"
    using Cons.prems(3) r by (auto split: sum.splits)
  obtain rest where more: "claim_rows ids now fresh db1 = Inr (db', rest)"
    using Cons.prems(3) r one by (auto split: sum.splits)
  have q: "quiet db db1"
    by (rule claim_one_quiet [OF Cons.prems(1) _ _ one]) (use Cons.prems(2) [of i r] recovery_of_current [OF r] r in simp_all)
  moreover have "quiet db1 db'"
    by (rule Cons.IH [OF quiet_inv [OF Cons.prems(1) q] _ more])
      (rule quiet_open [OF Cons.prems(1) q], use Cons.prems(2) in auto)
  ultimately show ?case by (rule quiet_trans)
qed

lemma claim_good:
  assumes inv: "recovery_inv env db" and eq: "claim db limit now fresh = Inr (db', rows)"
  shows "good env db db'"
proof (rule quiet_good [OF inv claim_rows_quiet [OF inv]])
  let ?picked = "take (min limit 20) (js_sort claim_le (filter (claimable now) (db_recoveries db)))"
  show "claim_rows (map rv_id ?picked) now fresh db = Inr (db', rows)" using eq by (simp add: claim_def)
  fix i r assume i: "i \<in> set (map rv_id ?picked)" and r: "recovery_of db i = Some r"
  then obtain q where q: "q \<in> set ?picked" "rv_id q = i" by auto
  then have qm: "q \<in> set (db_recoveries db)" "claimable now q" by (auto dest: in_set_takeD)
  then have "q = r" using recovery_of_member [OF inv qm(1)] q(2) r by simp
  moreover have "row_ok q" using inv qm(1) by (simp add: recovery_inv_def)
  ultimately show "rv_closureState r \<noteq> C_VERIFIED" using qm(2) by (auto simp: claimable_def)
qed

lemma renew_good:
  assumes "recovery_inv env db"
  shows "good env db (renew_claim db r now)"
proof -
  define held where "held = (\<lambda>x::recovery_row. rv_id x = rv_id r \<and> rv_claimToken x = rv_claimToken r \<and> rv_closureVerifiedAt x = None)"
  define d where "d = db\<lparr>db_recoveries := update_where held (\<lambda>x. x\<lparr>rv_claimExpiresAt := Some (now + claim_ttl)\<rparr>) (db_recoveries db)\<rparr>"
  have "keeps db d" unfolding d_def
    by (rule keeps_update_recoveries) (auto simp: kept_recovery_def recovery_key_def row_ok_def closure_fields_def)
  then have q: "quiet db d" by (simp add: quiet_def d_def)
  have "renew_claim db r now = db \<or> quiet d (renew_claim db r now)"
    unfolding renew_claim_def Let_def held_def [symmetric] by (auto intro!: other_quiet simp: d_def)
  then show ?thesis using quiet_good [OF assms] quiet_trans [OF q] by auto
qed

lemma release_claim_good: "recovery_inv env db \<Longrightarrow> good env db (release_claim db r)"
  by (rule quiet_good) (auto simp: release_claim_def drop_permit_quiet split: option.split)

lemma quarantine_session_good:
  assumes "recovery_inv env db"
  shows "good env db (quarantineSession db sid code now)"
proof (rule good_keeps [OF assms])
  let ?P = "\<lambda>s. ss_id s = sid \<and> ss_closureVerifiedAt s = None \<and> ss_status s \<noteq> ''CLOSED''"
  have "keeps db (set_sessions db ?P f)" if "\<And>x. ?P x \<Longrightarrow> same_session x (f x)" for f
    by (rule keeps_set_sessions) (rule that)
  then show "keeps db (quarantineSession db sid code now)"
    by (auto simp: quarantineSession_def Let_def keeps_def list_all2_refl same_session_def is_verified_def set_sessions_def
        intro!: list_all2_update_where)
qed (auto simp: quarantineSession_def Let_def set_sessions_def lease_key_quarantine)

lemma release_data_good:
  assumes inv: "recovery_inv env db"
  shows "good env db (releaseCompletedSessionData env db taskId now)"
proof -
  let ?step = "\<lambda>d s. case verifiedRecovery env d s of None \<Rightarrow> d
      | Some r \<Rightarrow> fst (releaseVerifiedSessionResources env (fst (refreshRecoveryWriteOutcome env d s r now)) (ss_id s) now)"
  have step: "good env d (?step d s)" if "recovery_inv env d" for d s
  proof (cases "verifiedRecovery env d s")
    case None
    then show ?thesis using good_refl [OF that] by simp
  next
    case (Some r)
    obtain d1 r1 where ref: "refreshRecoveryWriteOutcome env d s r now = (d1, r1)" by fastforce
    note R = refresh_props [OF that verifiedRecoveryD(1) [OF that Some] ref]
    have g1: "good env d d1" by (rule good_keeps [OF that R(1)]) (simp add: R(4))
    show ?thesis
      using good_trans [OF g1 release_good(1) [OF good_inv [OF g1] prod.collapse [symmetric]]] Some ref by simp
  qed
  have "good env db (foldl ?step db xs)" for xs
    by (rule foldl_keeps) (use good_refl [OF inv] step good_inv good_trans in blast)+
  then show ?thesis
    using good_refl [OF inv] by (auto simp: releaseCompletedSessionData_def split: option.split)
qed

end
