(* ===== verification/RecoverySafety.thy ===== *)
theory RecoverySafety
  imports RecoverySteps
begin

text \<open>
  Everything the control plane does to sessions, recoveries, closure evidence and resource leases, as steps,
  and what holds of every state they reach.
\<close>

section \<open>Steps\<close>

text \<open>The identifiers drawn (\<open>newId\<close>, \<open>rowId\<close>) are new; the second transaction of \<open>prepareClose\<close> works on
  the recovery that the first one returned for the session.\<close>

inductive recovery_transaction :: "recovery_env \<Rightarrow> rdb \<Rightarrow> rdb \<Rightarrow> bool" for env where
  requested: "request env db sid reason run explicit now newId = Inr (db', r) \<Longrightarrow>
    newId \<notin> rv_id ` set (db_recoveries db) \<Longrightarrow> recovery_transaction env db db'"
| begun: "begin_close env db rid sid proposed t now token = Inr (db', payload) \<Longrightarrow>
    recovery_of db rid = Some r \<Longrightarrow> rv_sessionId r = sid \<Longrightarrow> recovery_transaction env db db'"
| woken: "recovery_transaction env db (fst (wakeRuntime env db runtimeId now))"
| retried: "retry env db who i v now = Inr db' \<Longrightarrow> recovery_transaction env db db'"
| finished_step: "finishRecovery env db who i x now = Inr (db', n) \<Longrightarrow> recovery_transaction env db db'"
| proved: "acceptRuntimeEvidence env db c p audit now rowId = Inr db' \<Longrightarrow> rowId \<noteq> [] \<Longrightarrow>
    rowId \<notin> ev_id ` set (db_evidence db) \<Longrightarrow> recovery_transaction env db db'"
| never_launched: "acceptNeverLaunched env db sid fence token now newId evidenceId rowId = Inr db' \<Longrightarrow>
    newId \<notin> rv_id ` set (db_recoveries db) \<Longrightarrow> rowId \<noteq> [] \<Longrightarrow> rowId \<notin> ev_id ` set (db_evidence db) \<Longrightarrow>
    recovery_transaction env db db'"
| drained: "acceptAdminDrainEvidence env db sid fence digest evidenceId drainId evidenceRefs now newId rowId = Inr db' \<Longrightarrow>
    newId \<notin> rv_id ` set (db_recoveries db) \<Longrightarrow> rowId \<noteq> [] \<Longrightarrow> rowId \<notin> ev_id ` set (db_evidence db) \<Longrightarrow>
    recovery_transaction env db db'"
| failed: "recordFailure env db f now jitter newId = Inr (db', b) \<Longrightarrow>
    newId \<notin> rv_id ` set (db_recoveries db) \<Longrightarrow> recovery_transaction env db db'"
| claimed: "claim db limit now fresh = Inr (db', rows) \<Longrightarrow> recovery_transaction env db db'"
| renewed: "recovery_transaction env db (renew_claim db r now)"
| let_go: "recovery_transaction env db (release_claim db r)"
| quarantined: "recovery_transaction env db (quarantineSession db sid code now)"
| completed: "recovery_transaction env db (releaseCompletedSessionData env db taskId now)"

text \<open>What the rest of the control plane may do in between: open new sessions, and change whatever is not a
  recovery, evidence, or the epoch and closure of a session. Deleting a task with its sessions is left out.\<close>

definition outside :: "rdb \<Rightarrow> rdb \<Rightarrow> bool" where
  "outside db db' \<longleftrightarrow> db_recoveries db' = db_recoveries db \<and> db_evidence db' = db_evidence db
     \<and> (\<exists>old opened. db_sessions db' = old @ opened \<and> list_all2 same_session (db_sessions db) old
        \<and> distinct (map ss_id (db_sessions db')) \<and> list_all (\<lambda>s. ss_closureVerifiedAt s = None \<and> ss_closureEvidenceId s = None) opened)"

definition recovery_move :: "recovery_env \<Rightarrow> rdb \<Rightarrow> rdb \<Rightarrow> bool" where
  "recovery_move env db db' \<longleftrightarrow> recovery_transaction env db db' \<or> outside db db'"

definition recovery_run :: "recovery_env \<Rightarrow> rdb \<Rightarrow> rdb \<Rightarrow> bool" where
  "recovery_run env = (recovery_move env)\<^sup>*\<^sup>*"

definition reachable_recovery :: "recovery_env \<Rightarrow> rdb \<Rightarrow> bool" where
  "reachable_recovery env db \<longleftrightarrow>
     (\<exists>db0. db_sessions db0 = [] \<and> db_recoveries db0 = [] \<and> db_evidence db0 = [] \<and> recovery_run env db0 db)"

lemma run_transaction: "recovery_run env db db' \<Longrightarrow> recovery_transaction env db' db'' \<Longrightarrow> recovery_run env db db''"
  unfolding recovery_run_def by (erule rtranclp.rtrancl_into_rtrancl) (simp add: recovery_move_def)

lemma run_outside: "recovery_run env db db' \<Longrightarrow> outside db' db'' \<Longrightarrow> recovery_run env db db''"
  unfolding recovery_run_def by (erule rtranclp.rtrancl_into_rtrancl) (simp add: recovery_move_def)

lemma run_refl: "recovery_run env db db"
  by (simp add: recovery_run_def)

lemma reach_transaction: "reachable_recovery env db \<Longrightarrow> recovery_transaction env db db' \<Longrightarrow> reachable_recovery env db'"
  unfolding reachable_recovery_def using run_transaction by blast

lemma transaction_good:
  assumes inv: "recovery_inv env db" and t: "recovery_transaction env db db'"
  shows "good env db db'"
  using t
proof cases
  case requested
  then show ?thesis using request_good [OF inv] by blast
next
  case begun
  then show ?thesis using begin_close_good [OF inv] by blast
next
  case woken
  then show ?thesis using wake_good [OF inv] by simp
next
  case retried
  then show ?thesis using retry_good [OF inv] by blast
next
  case finished_step
  then show ?thesis using finish_good [OF inv] by blast
next
  case proved
  then show ?thesis using runtime_evidence_good(1) [OF inv] by blast
next
  case never_launched
  then show ?thesis using never_launched_good [OF inv] by blast
next
  case drained
  then show ?thesis using admin_drain_good [OF inv] by blast
next
  case failed
  then show ?thesis using failure_good [OF inv] by blast
next
  case claimed
  then show ?thesis using claim_good [OF inv] by blast
next
  case renewed
  then show ?thesis using renew_good [OF inv] by simp
next
  case let_go
  then show ?thesis using release_claim_good [OF inv] by simp
next
  case quarantined
  then show ?thesis using quarantine_session_good [OF inv] by simp
next
  case completed
  then show ?thesis using release_data_good [OF inv] by simp
qed

lemma outside_good:
  assumes inv: "recovery_inv env db" and out: "outside db db'"
  shows "recovery_inv env db'" "later db db'"
proof -
  obtain old opened where o': "db_sessions db' = old @ opened" "list_all2 same_session (db_sessions db) old"
      "distinct (map ss_id (db_sessions db'))"
      "\<And>s. s \<in> set opened \<Longrightarrow> ss_closureVerifiedAt s = None \<and> ss_closureEvidenceId s = None"
    and eqs: "db_recoveries db' = db_recoveries db" "db_evidence db' = db_evidence db"
    using out by (auto simp: outside_def list_all_iff)
  let ?d = "db\<lparr>db_sessions := old\<rparr>"
  have k: "keeps db ?d" using o'(2) by (simp add: keeps_def list_all2_refl)
  note inv' = inv_keeps [OF inv k]
  have nv: "\<not> is_verified s" if "s \<in> set opened" for s using o'(4) [OF that] by (simp add: is_verified_def)
  show "recovery_inv env db'"
    using inv' o'(3,4) nv unfolding recovery_inv_def eqs o'(1) by (auto simp: bex_Un)
  have "later ?d db'"
    by (rule later_insert) (auto simp: o'(1) eqs intro: later_session_refl)
  then show "later db db'" by (rule later_trans [OF keeps_later [OF inv k]])
qed

lemma move_forward:
  assumes inv: "recovery_inv env db" and step: "recovery_move env db db'"
  shows "recovery_inv env db' \<and> later db db'"
proof -
  consider "recovery_transaction env db db'" | "outside db db'" using step unfolding recovery_move_def by blast
  then show ?thesis
  proof cases
    case 1
    then show ?thesis using transaction_good [OF inv] unfolding good_def by blast
  next
    case 2
    then show ?thesis using outside_good [OF inv] by blast
  qed
qed

interpretation recovery: step_system "recovery_move env" "recovery_inv env" later for env
proof unfold_locales
  show "later db db" for db by simp
  show "later a b \<Longrightarrow> later b c \<Longrightarrow> later a c" for a b c by (rule later_trans)
  show "recovery_inv env db \<Longrightarrow> recovery_move env db db' \<Longrightarrow> recovery_inv env db' \<and> later db db'" for db db'
    by (rule move_forward)
qed

lemma run_later: "recovery_run env db db' \<Longrightarrow> recovery_inv env db \<Longrightarrow> recovery_inv env db' \<and> later db db'"
  unfolding recovery_run_def by (rule recovery.run_forward)

lemma reachable_recovery_inv: "reachable_recovery env db \<Longrightarrow> recovery_inv env db"
proof -
  assume "reachable_recovery env db"
  then obtain db0 where e: "db_sessions db0 = []" "db_recoveries db0 = []" "db_evidence db0 = []" and r: "recovery_run env db0 db"
    unfolding reachable_recovery_def by blast
  have "recovery_inv env db0" using e by (simp add: recovery_inv_def)
  then show ?thesis using run_later [OF r] by blast
qed

lemma find_evidence:
  assumes "recovery_inv env db" "e \<in> set (db_evidence db)" "i = Some (ev_id e)"
  shows "List.find (\<lambda>e. Some (ev_id e) = i) (db_evidence db) = Some e"
  using find_distinct [of ev_id "db_evidence db" e] assms by (simp add: recovery_inv_def)

lemma find_recovery:
  assumes inv: "recovery_inv env db" and r: "r \<in> set (db_recoveries db)" "recovery_key r = session_epoch s"
  shows "recovery_for db s = Some r"
proof -
  have "List.find (\<lambda>q. recovery_key q = recovery_key r) (db_recoveries db) = Some r"
    using inv r(1) by (intro find_distinct) (simp_all add: recovery_inv_def)
  moreover have "(\<lambda>q. recovery_key q = recovery_key r) = (\<lambda>q. rv_sessionId q = ss_id s \<and> rv_expectedSessionFence q = ss_fencingToken s)"
    unfolding r(2) by (rule ext) (simp add: recovery_key_def session_epoch_def)
  ultimately show ?thesis by (simp add: recovery_for_def)
qed

lemma proved_found:
  assumes inv: "recovery_inv env db" and r: "r \<in> set (db_recoveries db)" and e: "e \<in> set (db_evidence db)" and p: "proved_by env s r e"
  shows "verifiedRecovery env db s = Some r"
proof -
  have "row_ok r" using inv r by (simp add: recovery_inv_def)
  then have "rv_closureVerifiedAt r \<noteq> None" using p by (simp add: row_ok_def proved_by_def)
  moreover have "recovery_for db s = Some r" using p by (intro find_recovery [OF inv r]) (simp add: proved_by_def)
  moreover have "List.find (\<lambda>e. Some (ev_id e) = ss_closureEvidenceId s) (db_evidence db) = Some e"
    using p by (intro find_evidence [OF inv e]) (simp add: proved_by_def)
  ultimately show ?thesis using p by (simp add: verifiedRecovery_def proved_by_def)
qed

section \<open>Properties\<close>

text \<open>C1: In every reachable state, whatever was requested, claimed, proved, retried or settled in whatever
  order: a recovery has at most six attempts; it is resolved only when its closure is verified and its write
  outcome settled; a verified recovery rests on one stored piece of evidence for the very epoch (session,
  fencing token, digest of the lease token) of a session that is closed; and a session with a verified
  closure always has the recovery that the release of its resources looks up.\<close>

theorem recovery_state_sound:
  assumes "reachable_recovery env db"
  shows "(\<forall>r\<in>set (db_recoveries db). rv_attempts r \<le> 6
      \<and> (rv_resolvedAt r \<noteq> None \<longrightarrow> rv_closureState r = C_VERIFIED \<and> writeSettled (rv_writeOutcomeState r))
      \<and> (rv_closureState r = C_VERIFIED \<longrightarrow>
          (\<exists>s\<in>set (db_sessions db). \<exists>e\<in>set (db_evidence db). proved_by env s r e)))
    \<and> (\<forall>s\<in>set (db_sessions db). is_verified s \<longrightarrow> (\<exists>r. verifiedRecovery env db s = Some r))"
proof (intro conjI)
  note inv = reachable_recovery_inv [OF assms]
  show "\<forall>r\<in>set (db_recoveries db). rv_attempts r \<le> 6
      \<and> (rv_resolvedAt r \<noteq> None \<longrightarrow> rv_closureState r = C_VERIFIED \<and> writeSettled (rv_writeOutcomeState r))
      \<and> (rv_closureState r = C_VERIFIED \<longrightarrow>
          (\<exists>s\<in>set (db_sessions db). \<exists>e\<in>set (db_evidence db). proved_by env s r e))"
    using inv by (auto simp: recovery_inv_def row_ok_def max_closure_attempts_def)
  show "\<forall>s\<in>set (db_sessions db). is_verified s \<longrightarrow> (\<exists>r. verifiedRecovery env db s = Some r)"
    using inv proved_found [OF inv] unfolding recovery_inv_def by blast
qed

text \<open>C7: Closed is forever: from any reachable state on, a session whose closure is verified keeps its
  epoch, its evidence and the status CLOSED, and its recovery stays verified by the same evidence; a write
  outcome that is settled never becomes unknown again; and no version number goes back.\<close>

theorem closure_permanent:
  assumes "reachable_recovery env db" "recovery_run env db db'"
  shows "(\<forall>s\<in>set (db_sessions db). is_verified s \<longrightarrow>
      (\<exists>s'\<in>set (db_sessions db'). same_session s s' \<and> ss_status s' = ''CLOSED''))
    \<and> (\<forall>r\<in>set (db_recoveries db). \<exists>r'\<in>set (db_recoveries db'). rv_id r' = rv_id r \<and> rv_version r \<le> rv_version r'
      \<and> (writeSettled (rv_writeOutcomeState r) \<longrightarrow> writeSettled (rv_writeOutcomeState r'))
      \<and> (rv_closureState r = C_VERIFIED \<longrightarrow> closure_fields r' = closure_fields r))"
proof (intro conjI ballI impI)
  note inv = reachable_recovery_inv [OF assms(1)]
  have l: "later db db'" using run_later [OF assms(2) inv] by simp
  fix s assume s: "s \<in> set (db_sessions db)" "is_verified s"
  obtain s' where "s' \<in> set (db_sessions db')" "same_session s s'"
    using l s unfolding later_def later_session_def by metis
  moreover have "ss_status s = ''CLOSED''" using inv s unfolding recovery_inv_def proved_by_def by blast
  ultimately show "\<exists>s'\<in>set (db_sessions db'). same_session s s' \<and> ss_status s' = ''CLOSED''"
    using s(2) by (auto simp: same_session_def)
next
  fix r assume "r \<in> set (db_recoveries db)"
  then show "\<exists>r'\<in>set (db_recoveries db'). rv_id r' = rv_id r \<and> rv_version r \<le> rv_version r'
      \<and> (writeSettled (rv_writeOutcomeState r) \<longrightarrow> writeSettled (rv_writeOutcomeState r'))
      \<and> (rv_closureState r = C_VERIFIED \<longrightarrow> closure_fields r' = closure_fields r)"
    using run_later [OF assms(2) reachable_recovery_inv [OF assms(1)]] unfolding later_def later_recovery_def by metis
qed

text \<open>C2: No transaction of the recovery gives up a resource lease before its browser is proved gone: when a
  lease that was held is no longer there, its session is closed by evidence of its own epoch, and either what
  the browser wrote is settled, or the lease only coordinated a test account (these end with the browser by design,
  whether they are for writing and whether or not the writes are settled), or it was an ordinary read.\<close>

theorem leases_released_after_closure:
  assumes "reachable_recovery env db" "recovery_transaction env db db'"
    and "l \<in> set (db_leases db)" "\<forall>l'\<in>set (db_leases db'). le_sessionId l' \<noteq> le_sessionId l \<or> le_claim l' \<noteq> le_claim l"
  shows "\<exists>s\<in>set (db_sessions db'). \<exists>r\<in>set (db_recoveries db'). \<exists>e\<in>set (db_evidence db').
      ss_id s = le_sessionId l \<and> proved_by env s r e
      \<and> (writeSettled (rv_writeOutcomeState r) \<or> rc_origin (le_claim l) = ''ACCOUNT_COORDINATION''
         \<or> rc_mode (le_claim l) = READ \<and> rc_origin (le_claim l) = ''NORMAL'')"
proof -
  have "leases_safe env db db'"
    using transaction_good [OF reachable_recovery_inv [OF assms(1)] assms(2)] by (simp add: good_def)
  moreover have "lease_key l \<in> lease_key ` set (db_leases db)" "lease_key l \<notin> lease_key ` set (db_leases db')"
    using assms(3,4) by (auto simp: lease_key_def)
  ultimately have "released_ok env db' (lease_key l)" unfolding leases_safe_def by blast
  then show ?thesis by (simp add: released_ok_def lease_key_def)
qed

text \<open>C15: A runtime's proof of a closure is accepted only over its current connection, from the host and
  daemon of that connection, for the epoch of the session, for the recovery of that epoch and in answer to
  the close command stored for it; a terminated process set must have been registered, a prevented launch
  must be the registered and unused one. When it is accepted the session is closed by stored evidence.\<close>

theorem runtime_evidence_accepted:
  assumes "reachable_recovery env db" "rowId \<noteq> []" "rowId \<notin> ev_id ` set (db_evidence db)"
    and "acceptRuntimeEvidence env db c p audit now rowId = Inr db'"
  shows "can_supply c p
    \<and> (\<exists>rt s r cmd. find_by rt_id (xc_runtimeId c) (db_runtimes db) = Some rt \<and> current_connection c rt
        \<and> session_of db (pf_sessionId p) = Some s \<and> matches_epoch rt p s
        \<and> recovery_of db (pf_recoveryId p) = Some r \<and> matches_recovery env rt p s r
        \<and> command_of db (pf_requestId p) = Some cmd \<and> matches_challenge p s r cmd
        \<and> (pf_method p = ''IDENTIFIED_PROCESS_SET_TERMINATED'' \<longrightarrow> js_truthy (js_prop (challenge cmd) ''expectedLaunchIdentity''))
        \<and> (pf_method p = ''LAUNCH_PREVENTED'' \<longrightarrow> launch_prevented db p s cmd)
        \<and> (\<exists>s'\<in>set (db_sessions db'). session_epoch s' = session_epoch s \<and> ss_status s' = ''CLOSED''
             \<and> verifiedRecovery env db' s' \<noteq> None))"
proof -
  note inv = reachable_recovery_inv [OF assms(1)]
  note A = runtime_evidence_good [OF inv assms(2-4)]
  obtain s r cmd s' where pr: "proof_refused env db c p = Inr (s, r, cmd)"
      and s': "s' \<in> set (db_sessions db')" "session_epoch s' = session_epoch s" "is_verified s'"
    using A(2) by blast
  note P = proof_refused_Inr [OF pr]
  obtain r' e where "r' \<in> set (db_recoveries db')" "e \<in> set (db_evidence db')" and pv: "proved_by env s' r' e"
    using good_inv [OF A(1)] s'(1,3) unfolding recovery_inv_def by blast
  then have "verifiedRecovery env db' s' = Some r'" using proved_found [OF good_inv [OF A(1)]] by blast
  then show ?thesis using P s' pv by (auto simp: proved_by_def)
qed

section \<open>One closure at a time\<close>

lemma find_append_rows:
  "List.find P (xs @ ys) = (case List.find P xs of None \<Rightarrow> List.find P ys | Some x \<Rightarrow> Some x)"
  by (induction xs) auto

definition handed_over :: "rdb \<Rightarrow> rdb \<Rightarrow> string \<Rightarrow> string \<Rightarrow> string \<Rightarrow> int \<Rightarrow> bool" where
  "handed_over db db' runtimeId rid token now \<longleftrightarrow>
     (\<forall>q\<in>set (db_permits db). pt_runtimeId q = runtimeId \<and> pt_recoveryId q \<noteq> rid \<longrightarrow>
        pt_claimExpiresAt q \<le> now \<and> \<not> permit_busy db q now)
     \<and> (\<exists>c. filter (\<lambda>q. pt_runtimeId q = runtimeId) (db_permits db') =
          [\<lparr>pt_runtimeId = runtimeId, pt_recoveryId = rid, pt_activeCommandId = Some c, pt_claimToken = token,
            pt_claimExpiresAt = now + claim_ttl\<rparr>])"

lemma filter_one:
  "distinct (map f xs) \<Longrightarrow> x \<in> set xs \<Longrightarrow> filter (\<lambda>y. f y = f x) xs = [x]"
  by (induction xs) (auto simp: filter_empty_conv rev_image_eqI)

lemma filter_update_key:
  assumes "\<And>x. P x \<Longrightarrow> key x = i" "\<And>x. P x \<Longrightarrow> key (f x) = i"
  shows "filter (\<lambda>x. key x = i) (update_where P f xs) = update_where P f (filter (\<lambda>x. key x = i) xs)"
  using assms by (induction xs) (auto simp: update_where_def)

lemma take_permit_row:
  assumes d: "distinct (map pt_runtimeId (db_permits db))" and eq: "take_permit db p P f = Some db'"
    and f: "\<And>q. pt_runtimeId (f q) = pt_runtimeId p"
  shows "\<exists>q. filter (\<lambda>q. pt_runtimeId q = pt_runtimeId p) (db_permits db') = [q] \<and> (q = p \<or> (\<exists>q0. q = f q0))"
    and "q \<in> set (db_permits db) \<Longrightarrow> pt_runtimeId q = pt_runtimeId p \<Longrightarrow> P q"
proof -
  consider (new) "filter (\<lambda>q. pt_runtimeId q = pt_runtimeId p) (db_permits db) = []" "db' = db\<lparr>db_permits := db_permits db @ [p]\<rparr>"
    | (held) q where "filter (\<lambda>q. pt_runtimeId q = pt_runtimeId p) (db_permits db) = [q]" "P q"
        "db' = db\<lparr>db_permits := update_where (\<lambda>x. pt_runtimeId x = pt_runtimeId p) f (db_permits db)\<rparr>"
  proof (cases "find_by pt_runtimeId (pt_runtimeId p) (db_permits db)")
    case None
    then have "db' = db\<lparr>db_permits := db_permits db @ [p]\<rparr>" using eq by (simp add: take_permit_def)
    then show thesis using None by (intro new) (auto simp: find_by_def find_None_iff filter_empty_conv)
  next
    case (Some q)
    then have q: "q \<in> set (db_permits db)" "pt_runtimeId q = pt_runtimeId p" unfolding find_by_def by (auto dest: find_SomeD)
    have "filter (\<lambda>y. pt_runtimeId y = pt_runtimeId p) (db_permits db) = [q]"
      using filter_one [OF d q(1)] q(2) by simp
    then show thesis using eq Some by (intro held) (auto simp: take_permit_def split: if_splits)
  qed note cases = this
  show "\<exists>q. filter (\<lambda>q. pt_runtimeId q = pt_runtimeId p) (db_permits db') = [q] \<and> (q = p \<or> (\<exists>q0. q = f q0))"
  proof (rule cases)
    assume "filter (\<lambda>q. pt_runtimeId q = pt_runtimeId p) (db_permits db) = []" "db' = db\<lparr>db_permits := db_permits db @ [p]\<rparr>"
    then show ?thesis by simp
  next
    fix q assume "filter (\<lambda>q. pt_runtimeId q = pt_runtimeId p) (db_permits db) = [q]"
      "db' = db\<lparr>db_permits := update_where (\<lambda>x. pt_runtimeId x = pt_runtimeId p) f (db_permits db)\<rparr>"
    moreover from this(1) have "pt_runtimeId q = pt_runtimeId p" by (auto dest!: filter_eq_ConsD)
    ultimately show ?thesis using f by (simp add: filter_update_key) (simp add: update_where_def, blast)
  qed
  assume q: "q \<in> set (db_permits db)" "pt_runtimeId q = pt_runtimeId p"
  show "P q"
  proof (rule cases)
    assume "filter (\<lambda>q. pt_runtimeId q = pt_runtimeId p) (db_permits db) = []"
    then show ?thesis using q by (simp add: filter_empty_conv)
  next
    fix x assume "filter (\<lambda>q. pt_runtimeId q = pt_runtimeId p) (db_permits db) = [x]" "P x"
    moreover have "q \<in> set (filter (\<lambda>q. pt_runtimeId q = pt_runtimeId p) (db_permits db))" using q by simp
    ultimately show ?thesis by simp
  qed
qed

lemma set_recovery_permits: "db_permits (set_recovery db i f) = db_permits db"
  by (simp add: set_recovery_def)

lemma change_recovery_permits: "db_permits (fst (change_recovery db r f)) = db_permits db"
  by (simp add: change_recovery_def Let_def)

text \<open>C20: A runtime closes one session at a time: when a close is begun or claimed for a recovery, every permit
  another recovery held on that runtime has expired and its close command is no longer under way, and
  afterwards the one permit of the runtime is that of this recovery, for the command it names.\<close>

theorem one_closure_per_runtime:
  assumes "distinct (map pt_runtimeId (db_permits db))"
  shows "(begin_close env db rid sid proposed t now token = Inr (db', payload) \<longrightarrow>
       (\<exists>s. session_of db sid = Some s \<and> handed_over db db' (ss_runtimeId s) rid token now))
    \<and> (claim_one db r now token proposed = Inr (db'', Some r') \<longrightarrow>
       handed_over db db'' (rv_runtimeId r) (rv_id r) token now)"
proof (intro conjI impI)
  assume eq: "begin_close env db rid sid proposed t now token = Inr (db', payload)"
  obtain r s where r: "recovery_of db rid = Some r" and s: "session_of db sid = Some s"
    using eq by (auto simp: begin_close_def split: option.splits)
  define prior where "prior = command_pending db (rv_activeCommandId r) now"
  define commandId where "commandId = (case prior of None \<Rightarrow> proposed | Some c \<Rightarrow> cd_id c)"
  define permit where "permit = \<lparr>pt_runtimeId = ss_runtimeId s, pt_recoveryId = rid,
      pt_activeCommandId = Some commandId, pt_claimToken = token, pt_claimExpiresAt = now + claim_ttl\<rparr>"
  have ok: "close_refused env s r (prior \<noteq> None) now = None"
    using eq unfolding begin_close_def r s prod.case option.case Let_def prior_def [symmetric]
    by (cases "close_refused env s r (prior \<noteq> None) now") simp_all
  obtain db1 where p: "close_permit db permit now = Some db1"
    using eq unfolding begin_close_def r s prod.case option.case Let_def prior_def [symmetric] ok
      commandId_def [symmetric] permit_def [symmetric] by (auto split: option.splits)
  have "db_permits db' = db_permits db1"
    using eq unfolding begin_close_def r s prod.case option.case Let_def prior_def [symmetric] ok
      commandId_def [symmetric] permit_def [symmetric] p
    by (auto simp: request_close_def change_recovery_def Let_def set_recovery_def add_command_def split: if_splits)
  then show "\<exists>s. session_of db sid = Some s \<and> handed_over db db' (ss_runtimeId s) rid token now"
    using s take_permit_row [OF assms p [unfolded close_permit_def]]
    by (auto simp: handed_over_def permit_def)
next
  assume eq: "claim_one db r now token proposed = Inr (db'', Some r')"
  obtain rt where rt: "find_by rt_id (rv_runtimeId r) (db_runtimes db) = Some rt"
      and online: "(rt_status rt \<noteq> ''ONLINE'' \<or> \<not> rt_enabled rt) = False" "(\<not> can_close rt) = False"
    using eq by (auto simp: claim_one_def split: option.splits if_splits)
  define permit where "permit = \<lparr>pt_runtimeId = rv_runtimeId r, pt_recoveryId = rv_id r, pt_activeCommandId = None,
      pt_claimToken = token, pt_claimExpiresAt = now + claim_ttl\<rparr>"
  obtain db1 where p: "claim_permit db permit now = Some db1"
    using eq unfolding claim_one_def rt option.case online if_False permit_def [symmetric]
    by (cases "claim_permit db permit now") simp_all
  obtain c where c: "db_permits db'' = update_where (\<lambda>q. pt_runtimeId q = rv_runtimeId r \<and> pt_claimToken q = token)
      (\<lambda>q. q\<lparr>pt_activeCommandId := Some c\<rparr>) (db_permits db1)"
    using eq unfolding claim_one_def rt option.case online if_False permit_def [symmetric] p
    by (auto simp: Let_def request_close_def set_recovery_def add_command_def split: if_splits option.splits)
  obtain a where row: "filter (\<lambda>q. pt_runtimeId q = rv_runtimeId r) (db_permits db1) = [permit\<lparr>pt_activeCommandId := a\<rparr>]"
    using take_permit_row(1) [OF assms p [unfolded claim_permit_def]] by (auto simp: permit_def)
  have "filter (\<lambda>q. pt_runtimeId q = rv_runtimeId r) (db_permits db'') = [permit\<lparr>pt_activeCommandId := Some c\<rparr>]"
    unfolding c by (subst filter_update_key) (simp_all add: row, simp add: update_where_def permit_def)
  then show "handed_over db db'' (rv_runtimeId r) (rv_id r) token now"
    using take_permit_row(2) [OF assms p [unfolded claim_permit_def]] by (auto simp: handed_over_def permit_def)
qed

text \<open>C21: A close challenge comes back as it was given: the payload of a newly begun close names the stored
  command, the recovery and the epoch of the session, so that a proof made from its fields passes the checks
  of epoch and challenge.\<close>

theorem challenge_round_trip:
  assumes "begin_close env db rid sid proposed t now token = Inr (db', payload)"
    and "recovery_of db rid = Some r" "session_of db sid = Some s" "command_pending db (rv_activeCommandId r) now = None"
    and "command_of db proposed = None"
    and "js_prop payload ''recoveryId'' = JStr (pf_recoveryId p)" "js_prop payload ''requestId'' = JStr (pf_requestId p)"
    and "js_prop payload ''sessionId'' = JStr (pf_sessionId p)" "js_prop payload ''expectedLeaseToken'' = JStr (pf_leaseToken p)"
    and "js_prop payload ''expectedFencingToken'' = JStr (pf_fencingToken p)"
  shows "session_of db' (pf_sessionId p) = Some s \<and> ss_leaseToken s = pf_leaseToken p
    \<and> decimal (ss_fencingToken s) = pf_fencingToken p
    \<and> (\<exists>r' cmd. recovery_of db' (pf_recoveryId p) = Some r' \<and> rv_id r' = rid \<and> rv_activeCommandId r' = Some (cd_id cmd)
        \<and> command_of db' (pf_requestId p) = Some cmd \<and> challenge cmd = payload \<and> matches_challenge p s r' cmd)"
proof -
  define permit where "permit = \<lparr>pt_runtimeId = ss_runtimeId s, pt_recoveryId = rid,
      pt_activeCommandId = Some proposed, pt_claimToken = token, pt_claimExpiresAt = now + claim_ttl\<rparr>"
  have ok: "close_refused env s r False now = None"
    using assms(1) unfolding begin_close_def assms(2-4) prod.case option.case Let_def
    by (cases "close_refused env s r False now") simp_all
  obtain db1 where p: "close_permit db permit now = Some db1"
    using assms(1) ok unfolding begin_close_def assms(2-4) prod.case option.case Let_def permit_def
    by (auto split: option.splits)
  define cmd where "cmd = close_command proposed s rid now (now + max 1 (min t 90) * 1000)"
  let ?f = "closing proposed token (now + claim_ttl) False"
  obtain db3 r' where ch: "change_recovery (add_command db1 cmd) r ?f = (db3, r')" by fastforce
  have db': "db' = request_close db3 r'" and pay: "payload = closePayload rid proposed s"
    using assms(1) ok p ch unfolding begin_close_def assms(2-4) prod.case option.case Let_def permit_def cmd_def by simp_all
  have tables: "db_sessions db1 = db_sessions db" "db_recoveries db1 = db_recoveries db" "db_commands db1 = db_commands db"
    using take_permit_tables [OF p [unfolded close_permit_def]] by simp_all
  have cur: "current (add_command db1 cmd) r" "rv_id r = rid"
    using recovery_of_current [OF assms(2)] tables(2) current_same [of "add_command db1 cmd" db] by (simp_all add: add_command_def)
  have now: "recovery_of (set_recovery (add_command db1 cmd) rid (\<lambda>x. next_version (?f x))) rid = Some (next_version (?f r))"
    using recovery_of_set_recovery [OF cur(1), of "\<lambda>x. next_version (?f x)"] cur(2) by (simp add: closing_def)
  have db3: "db3 = emitRecoveryChanged (set_recovery (add_command db1 cmd) rid (\<lambda>x. next_version (?f x))) r'" "r' = next_version (?f r)"
    using ch now cur(2) by (auto simp: change_recovery_def Let_def coalesce_def)
  have "js_prop payload ''recoveryId'' = JStr rid" "js_prop payload ''requestId'' = JStr proposed"
    "js_prop payload ''sessionId'' = JStr (ss_id s)" "js_prop payload ''expectedLeaseToken'' = JStr (ss_leaseToken s)"
    "js_prop payload ''expectedFencingToken'' = JStr (decimal (ss_fencingToken s))"
    unfolding pay closePayload_def by (simp_all add: coalesce_def)
  then have ids: "pf_recoveryId p = rid" "pf_requestId p = proposed" "pf_sessionId p = ss_id s"
      "pf_leaseToken p = ss_leaseToken s" "pf_fencingToken p = decimal (ss_fencingToken s)"
    using assms(6-10) by simp_all
  have sid: "ss_id s = sid" using session_of_member [OF assms(3)] by simp
  have "db_sessions db' = db_sessions db" by (simp add: db' db3 request_close_def add_command_def tables)
  then have 1: "session_of db' (pf_sessionId p) = Some s" using assms(3) by (simp add: ids sid session_of_def)
  have "recovery_of db' rid = recovery_of db3 rid" by (simp add: db' request_close_def recovery_of_def)
  then have 2: "recovery_of db' rid = Some r'" using now by (simp add: db3 recovery_of_emit)
  have "db_commands db' = db_commands db @ [cmd]" by (simp add: db' db3 request_close_def add_command_def set_recovery_def tables)
  then have 3: "command_of db' proposed = Some cmd"
    using assms(5) by (simp add: command_of_def find_by_def cmd_def close_command_def find_append_rows)
  have cmd: "challenge cmd = payload" "cd_id cmd = proposed"
    by (simp_all add: cmd_def close_command_def challenge_def pay coalesce_def)
  have rid': "rv_id r' = rid" "rv_activeCommandId r' = Some proposed" using cur(2) by (simp_all add: db3 closing_def next_version_def)
  have "matches_challenge p s r' cmd"
    unfolding matches_challenge_def cmd(1) using assms(6,7)
    by (simp add: ids rid' cmd_def close_command_def of_session_def of_epoch_def)
  then show ?thesis using 1 2 3 cmd rid' ids by auto
qed

section \<open>A session is closed\<close>

definition sample_env :: recovery_env where
  "sample_env = \<lparr>rx_enabled = True, rx_locks = False, rx_digest = (\<lambda>x. x), rx_parse_url = (\<lambda>_. None),
     rx_json = (\<lambda>_. None), rx_stringify = (\<lambda>_. []), rx_show = (\<lambda>_. []), rx_target = (\<lambda>_. None),
     rx_collate = (\<lambda>_ _. 0), rx_config = NoConfiguration\<rparr>"

definition sample_opened :: session_row where
  "sample_opened = sample_session\<lparr>ss_purpose := ''AUTHORING'', ss_ownerTaskId := None, ss_ownerFencingToken := None\<rparr>"

definition sample_lease :: guarded_lease where
  "sample_lease = \<lparr>le_sessionId = ''s'', le_claim = \<lparr>rc_rootKey = ''*'', rc_resourceKey = [], rc_mode = WRITE,
     rc_origin = ''NORMAL''\<rparr>, le_quarantined = False, gl_recoveryId = None\<rparr>"

definition sample_empty :: rdb where
  "sample_empty = sample_db\<lparr>db_sessions := [], db_tasks := [], db_runs := [], db_executions := [],
     db_runtimes := [\<lparr>rt_id = ''rt'', rt_enabled = True, rt_revoked = False, rt_drainState = ''NONE'',
       rt_status = ''ONLINE'', rt_connectionId = Some ''n'', rt_connectionGeneration = 1, rt_hostInstanceId = Some ''h'',
       rt_daemonInstanceId = Some ''d'', rt_capabilities = [''closure-evidence-v1'']\<rparr>]\<rparr>"

definition sample_started :: rdb where
  "sample_started = sample_empty\<lparr>db_sessions := [sample_opened], db_leases := [sample_lease]\<rparr>"

definition result :: "'d \<Rightarrow> 'e + 'd \<times> 'x \<Rightarrow> 'd" where
  "result d x = (case x of Inl _ \<Rightarrow> d | Inr (y, _) \<Rightarrow> y)"

definition sample_requested :: rdb where
  "sample_requested = result sample_started (request sample_env sample_started ''s'' ''EXPLICIT_CLOSE'' None True 10 ''r'')"

definition sample_closing :: rdb where
  "sample_closing = result sample_requested (begin_close sample_env sample_requested ''r'' ''s'' ''c'' 90 20 ''t'')"

definition sample_context :: runtime_context where
  "sample_context = \<lparr>xc_runtimeId = ''rt'', xc_connectionId = ''n'', xc_connectionGeneration = 1, xc_negotiatedMinor = 21,
     xc_capabilities = [''closure-evidence-v1''], xc_hostInstanceId = Some ''h'', xc_daemonInstanceId = Some ''d''\<rparr>"

definition sample_runtime_proof :: runtime_proof where
  "sample_runtime_proof = \<lparr>pf_evidenceId = ''e'', pf_recoveryId = ''r'', pf_requestId = ''c'', pf_sessionId = ''s'',
     pf_leaseToken = ''token'', pf_fencingToken = ''7'', pf_hostInstanceId = ''h'', pf_daemonInstanceId = ''d'',
     pf_launchIdentityVersion = 1, pf_method = ''LIVE_SESSION_TERMINATED'', pf_networkRevoked = True,
     pf_closureCompletedAt = ''now''\<rparr>"

definition sample_closed :: rdb where
  "sample_closed = (case acceptRuntimeEvidence sample_env sample_closing sample_context sample_runtime_proof JNull 30 ''row'' of
     Inl _ \<Rightarrow> sample_closing | Inr d \<Rightarrow> d)"

lemma Inr_result: "\<not> isl x \<Longrightarrow> x = Inr (result d x, snd (projr x))"
  by (cases x) (auto simp: result_def)

lemma sample_request:
  "request sample_env sample_started ''s'' ''EXPLICIT_CLOSE'' None True 10 ''r'' = Inr (sample_requested,
     snd (projr (request sample_env sample_started ''s'' ''EXPLICIT_CLOSE'' None True 10 ''r'')))"
proof -
  have "\<not> isl (request sample_env sample_started ''s'' ''EXPLICIT_CLOSE'' None True 10 ''r'')" by code_simp
  then show ?thesis unfolding sample_requested_def by (rule Inr_result)
qed

definition sample_payload :: js where
  "sample_payload = closePayload ''r'' ''c'' sample_opened"

lemma sample_begin: "begin_close sample_env sample_requested ''r'' ''s'' ''c'' 90 20 ''t'' = Inr (sample_closing, sample_payload)"
proof -
  have "map_sum (\<lambda>_. ()) snd (begin_close sample_env sample_requested ''r'' ''s'' ''c'' 90 20 ''t'') = Inr sample_payload"
    by code_simp
  then show ?thesis unfolding sample_closing_def by (auto simp: result_def map_sum_def split: sum.splits)
qed

lemma sample_accept:
  "acceptRuntimeEvidence sample_env sample_closing sample_context sample_runtime_proof JNull 30 ''row'' = Inr sample_closed"
proof -
  have "\<not> isl (acceptRuntimeEvidence sample_env sample_closing sample_context sample_runtime_proof JNull 30 ''row'')"
    by code_simp
  then show ?thesis unfolding sample_closed_def by (auto split: sum.splits)
qed

lemma sample_requested_row: "map_option rv_sessionId (recovery_of sample_requested ''r'') = Some ''s''"
  by code_simp

lemma sample_row_fresh: "''row'' \<notin> ev_id ` set (db_evidence sample_closing)"
proof -
  have "db_evidence sample_closing = []" by code_simp
  then show ?thesis by simp
qed

lemma sample_closing_reachable: "reachable_recovery sample_env sample_closing"
proof -
  have "outside sample_empty sample_started"
    unfolding outside_def
    by (auto simp: sample_started_def sample_empty_def sample_db_def sample_opened_def sample_session_def intro!: exI [of _ "[]"])
  then have "recovery_run sample_env sample_empty sample_started" by (rule run_outside [OF run_refl])
  moreover have "recovery_transaction sample_env sample_started sample_requested"
    by (rule requested [OF sample_request]) (simp add: sample_started_def sample_empty_def sample_db_def)
  moreover have "recovery_transaction sample_env sample_requested sample_closing"
    using begun [OF sample_begin] sample_requested_row by auto
  ultimately have "recovery_run sample_env sample_empty sample_closing" using run_transaction by blast
  then show ?thesis
    unfolding reachable_recovery_def by (rule_tac x = sample_empty in exI) (simp add: sample_empty_def sample_db_def)
qed

lemma sample_step: "recovery_transaction sample_env sample_closing sample_closed"
  by (rule proved [OF sample_accept]) (simp_all add: sample_row_fresh)

lemma sample_closed_reachable: "reachable_recovery sample_env sample_closed"
  by (rule reach_transaction [OF sample_closing_reachable sample_step])

lemma recovery_state_sound_witness:
  "\<exists>r s e q. db_recoveries sample_closed = [r] \<and> db_sessions sample_closed = [s] \<and> e \<in> set (db_evidence sample_closed)
     \<and> rv_closureState r = C_VERIFIED \<and> proved_by sample_env s r e \<and> verifiedRecovery sample_env sample_closed s = Some q"
proof -
  have "map rv_closureState (db_recoveries sample_closed) = [C_VERIFIED]" by code_simp
  then obtain r where r: "db_recoveries sample_closed = [r]" "rv_closureState r = C_VERIFIED" by (auto simp: map_eq_Cons_conv)
  have "map is_verified (db_sessions sample_closed) = [True]" by code_simp
  then obtain s where s: "db_sessions sample_closed = [s]" "is_verified s" by (auto simp: map_eq_Cons_conv)
  show ?thesis
    using recovery_state_sound [OF sample_closed_reachable] r s by auto
qed

lemma closure_permanent_witness:
  "let db = quarantineSession sample_closed ''s'' ''CODE'' 40 in
   recovery_run sample_env sample_closed db \<and> (\<exists>s\<in>set (db_sessions db). ss_status s = ''CLOSED'')"
proof -
  have run: "recovery_run sample_env sample_closed (quarantineSession sample_closed ''s'' ''CODE'' 40)"
    by (rule run_transaction [OF run_refl quarantined])
  have b: "map is_verified (db_sessions sample_closed) = [True]" by code_simp
  show ?thesis using closure_permanent [OF sample_closed_reachable run] run b by (auto simp: map_eq_Cons_conv Let_def)
qed

lemma leases_released_after_closure_witness:
  "map lease_key (db_leases sample_closing) = [lease_key sample_lease] \<and> db_leases sample_closed = []
   \<and> (\<exists>s\<in>set (db_sessions sample_closed). \<exists>r\<in>set (db_recoveries sample_closed). \<exists>e\<in>set (db_evidence sample_closed).
        ss_id s = ''s'' \<and> proved_by sample_env s r e \<and> writeSettled (rv_writeOutcomeState r))"
proof -
  have a: "map lease_key (db_leases sample_closing) = [lease_key sample_lease]" by code_simp
  then obtain l where l: "db_leases sample_closing = [l]" "lease_key l = lease_key sample_lease" by (auto simp: map_eq_Cons_conv)
  have b: "db_leases sample_closed = []" by code_simp
  show ?thesis
    using leases_released_after_closure [OF sample_closing_reachable sample_step, of l] l b a
    by (simp add: lease_key_def sample_lease_def)
qed

lemma runtime_evidence_accepted_witness:
  "\<exists>s'\<in>set (db_sessions sample_closed). ss_status s' = ''CLOSED'' \<and> verifiedRecovery sample_env sample_closed s' \<noteq> None"
  using runtime_evidence_accepted [OF sample_closing_reachable _ sample_row_fresh sample_accept] by auto

lemma one_closure_per_runtime_witness:
  "handed_over sample_requested sample_closing ''rt'' ''r'' ''t'' 20"
proof -
  have "map pt_runtimeId (db_permits sample_requested) = []" by code_simp
  then have d: "distinct (map pt_runtimeId (db_permits sample_requested))" by (simp only: distinct.simps)
  have "map_option ss_runtimeId (session_of sample_requested ''s'') = Some ''rt''" by code_simp
  then show ?thesis
    using one_closure_per_runtime [OF d, of sample_env "''r''" "''s''" "''c''" 90 20 "''t''" sample_closing sample_payload] sample_begin
    by auto
qed

lemma challenge_round_trip_witness:
  "js_prop sample_payload ''requestId'' = JStr ''c''
   \<and> (\<exists>cmd. command_of sample_closing ''c'' = Some cmd \<and> challenge cmd = sample_payload)"
proof -
  obtain r where r: "recovery_of sample_requested ''r'' = Some r"
    using sample_requested_row by auto
  have "map_option rv_activeCommandId (recovery_of sample_requested ''r'') = Some None" by code_simp
  then have p: "command_pending sample_requested (rv_activeCommandId r) 20 = None" using r by (simp add: command_pending_def)
  have "map_option ss_id (session_of sample_requested ''s'') = Some ''s''" by code_simp
  then obtain s where s: "session_of sample_requested ''s'' = Some s" by auto
  have "Option.is_none (command_of sample_requested ''c'')" by code_simp
  then have c: "command_of sample_requested ''c'' = None" by (simp add: Option.is_none_def)
  have f: "decimal 7 = ''7''" by code_simp
  have fields: "js_prop sample_payload ''recoveryId'' = JStr (pf_recoveryId sample_runtime_proof)"
    "js_prop sample_payload ''requestId'' = JStr (pf_requestId sample_runtime_proof)"
    "js_prop sample_payload ''sessionId'' = JStr (pf_sessionId sample_runtime_proof)"
    "js_prop sample_payload ''expectedLeaseToken'' = JStr (pf_leaseToken sample_runtime_proof)"
    "js_prop sample_payload ''expectedFencingToken'' = JStr (pf_fencingToken sample_runtime_proof)"
    by (simp_all add: sample_payload_def closePayload_def sample_opened_def sample_session_def sample_runtime_proof_def coalesce_def f)
  show ?thesis
    using challenge_round_trip [OF sample_begin r s p c fields] fields(2) by (auto simp: sample_runtime_proof_def)
qed

end
