(* ===== verification/AgentTasks.thy ===== *)
theory AgentTasks
  imports SessionClosure ExecutionPermit
begin

text \<open>
  The tasks of agent runtimes, \<open>apps/api/src/agent-runtime/agent-runtime-task.service.ts\<close>: a worker claims a
  task and leases it, renews the lease, reports events and progress, submits an outcome; when the lease runs out
  the control plane takes the task back, waits until the browser is closed, and retries or gives up. With
  \<open>apps/api/src/agent-runtime/execution-checkpoint.ts\<close>, which saves what an execution has done so far.

  Every public operation is a transaction on the tables of \<open>WriteAssessment\<close>; \<open>Inl\<close> is a thrown error, nothing is
  committed. The JSON the code parses in a transaction (outcomes, checkpoints, trace events, policies) is given
  parsed. The scheduling texts shown with a case and the notifications are left out.
\<close>

section \<open>Reading\<close>

datatype task_error =
    Task_Missing | Lease_Stale | Task_Terminal | Other_Completion | Completion_Taken | Run_Closed
  | Evidence_Refused evidence_error | Bindings_Refused | Request_Refused | Hitl_Disabled
  | No_Browser_Policy | Parent_Elapsed | Closure_Unproven | Event_Taken | Checkpoint_Refused

text \<open>What the service gets from elsewhere: the configured length of a lease, the checks of observation bindings, of
  account requests, the accounts a task has (slot, account and usage of its \<open>testAccounts\<close>), and the resource claims of a resumed task
  (\<open>executionResourceClaims\<close> on its parsed snapshot).\<close>

record task_env =
  te_recovery :: recovery_env
  te_leaseMs :: int
  te_bindings_ok :: "agent_task \<Rightarrow> criterion_result list \<Rightarrow> bool"
  te_references_ok :: "agent_task \<Rightarrow> string list \<Rightarrow> string list \<Rightarrow> bool"
  te_request_ok :: "agent_task \<Rightarrow> intervention_request \<Rightarrow> bool"
  te_accounts :: "agent_task \<Rightarrow> (string \<times> string \<times> string) list"
  te_claims :: "agent_task \<Rightarrow> resource_claim list"

definition attempt_of :: "rdb \<Rightarrow> agent_task \<Rightarrow> attempt_row option" where
  "attempt_of db t = find_by at_id (tk_attemptId t) (db_attempts db)"

definition execution_of :: "rdb \<Rightarrow> agent_task \<Rightarrow> browser_execution option" where
  "execution_of db t = find_by bx_attemptId (tk_attemptId t) (db_executions db)"

definition bound_session_id :: "rdb \<Rightarrow> agent_task \<Rightarrow> string option" where
  "bound_session_id db t = (case execution_of db t of None \<Rightarrow> None | Some x \<Rightarrow> bx_runtimeSessionId x)"

definition bound_session :: "rdb \<Rightarrow> agent_task \<Rightarrow> session_row option" where
  "bound_session db t = (case bound_session_id db t of None \<Rightarrow> None | Some i \<Rightarrow> session_of db i)"

definition findTask :: "rdb \<Rightarrow> string \<Rightarrow> string \<Rightarrow> (agent_task \<times> attempt_row \<times> run_row) option" where
  "findTask db teamId taskId = (case task_of db taskId of
     None \<Rightarrow> None
   | Some t \<Rightarrow> (case (attempt_of db t, run_of db t) of
       (Some a, Some r) \<Rightarrow> if ru_teamId r = teamId then Some (t, a, r) else None
     | _ \<Rightarrow> None))"

definition live_run :: "string \<Rightarrow> bool" where
  "live_run s \<longleftrightarrow> s \<in> {''QUEUED'', ''PREPARING'', ''RUNNING''}"

definition set_runs :: "rdb \<Rightarrow> (run_row \<Rightarrow> bool) \<Rightarrow> (run_row \<Rightarrow> run_row) \<Rightarrow> rdb" where
  "set_runs db P f = db\<lparr>db_runs := update_where P f (db_runs db)\<rparr>"

definition set_attempts :: "rdb \<Rightarrow> (attempt_row \<Rightarrow> bool) \<Rightarrow> (attempt_row \<Rightarrow> attempt_row) \<Rightarrow> rdb" where
  "set_attempts db P f = db\<lparr>db_attempts := update_where P f (db_attempts db)\<rparr>"

definition set_executions ::
  "rdb \<Rightarrow> (browser_execution \<Rightarrow> bool) \<Rightarrow> (browser_execution \<Rightarrow> browser_execution) \<Rightarrow> rdb" where
  "set_executions db P f = db\<lparr>db_executions := update_where P f (db_executions db)\<rparr>"

definition add_event :: "rdb \<Rightarrow> run_event \<Rightarrow> rdb" where
  "add_event db e = db\<lparr>db_runEvents := db_runEvents db @ [e]\<rparr>"

definition task_event :: "string \<Rightarrow> agent_task \<Rightarrow> run_row \<Rightarrow> string \<Rightarrow> js \<Rightarrow> run_event" where
  "task_event actor t r kind payload =
     \<lparr>vt_id = None, vt_teamId = ru_teamId r, vt_runId = tk_runId t, vt_taskId = tk_id t, vt_attemptId = tk_attemptId t,
      vt_actor = actor, vt_kind = kind, vt_payload = payload, vt_finalization = None\<rparr>"

section \<open>Leases\<close>

record credentials =
  lc_workerId :: string
  lc_leaseToken :: string
  lc_fencingToken :: string

definition requireLease :: "agent_task \<Rightarrow> credentials \<Rightarrow> int \<Rightarrow> bool" where
  "requireLease t c now \<longleftrightarrow> tk_leaseOwner t = Some (lc_workerId c) \<and> tk_leaseToken t = Some (lc_leaseToken c)
     \<and> decimal (tk_fencingToken t) = lc_fencingToken c
     \<and> (case tk_leaseExpiresAt t of None \<Rightarrow> False | Some e \<Rightarrow> now < e)"

definition leased_status :: "string \<Rightarrow> bool" where
  "leased_status s \<longleftrightarrow> s \<in> {''RUNNING'', ''WAITING_HUMAN''}"

text \<open>\<open>lockCurrentLease\<close>: the row of the task, updated under the conditions of \<open>leaseWhere\<close>.\<close>

definition lockCurrentLease :: "agent_task \<Rightarrow> credentials \<Rightarrow> int \<Rightarrow> bool" where
  "lockCurrentLease t c now \<longleftrightarrow> requireLease t c now \<and> leased_status (tk_status t)"

section \<open>The next attempt\<close>

definition next_task :: "agent_task \<Rightarrow> run_row \<Rightarrow> string \<Rightarrow> string \<Rightarrow> int \<Rightarrow> agent_task" where
  "next_task t r attemptId taskId now =
     t\<lparr>tk_id := taskId, tk_attemptId := attemptId, tk_status := ''PENDING'', tk_fencingToken := 0,
       tk_completionId := None, tk_recoveryStatus := None, tk_result := JNull, tk_leaseExpiresAt := None,
       tk_leaseLostAt := None, tk_createdAt := now, tk_deadlineAt := ru_deadlineAt r, tk_startedAt := None,
       tk_cancelRequestedAt := None, tk_leaseOwner := None, tk_leaseToken := None, tk_recoveryNextAttemptAt := None,
       tk_snapshot := (tk_snapshot t)\<lparr>sn_attemptId := attemptId\<rparr>, tk_progress := no_progress\<rparr>"

definition next_execution :: "agent_task \<Rightarrow> string \<Rightarrow> int \<Rightarrow> browser_execution" where
  "next_execution t attemptId now =
     \<lparr>bx_runId = tk_runId t, bx_attemptId = attemptId, bx_runtimeSessionId = None, bx_status = ''REQUESTED'',
      bx_allocationToken = None, bx_createdAt = now, bx_input = JObj (case sn_targetUrl (tk_snapshot t) of
        None \<Rightarrow> [] | Some u \<Rightarrow> if u = [] then [] else [(''targetUrl'', JStr u)])\<rparr>"

definition scheduleNextAttempt ::
  "rdb \<Rightarrow> agent_task \<Rightarrow> attempt_row \<Rightarrow> run_row \<Rightarrow> string \<Rightarrow> string \<Rightarrow> int \<Rightarrow> task_error + rdb" where
  "scheduleNextAttempt db t a r attemptId taskId now =
     (if \<not> sn_hasBrowser (tk_snapshot t) then Inl No_Browser_Policy
      else let number = at_number a + 1; t' = next_task t r attemptId taskId now in
        Inr (add_event (set_runs (db\<lparr>
            db_attempts := db_attempts db @ [\<lparr>at_id = attemptId, at_runId = tk_runId t, at_number = number,
              at_status = ''PENDING'', at_failureClass = None\<rparr>],
            db_tasks := db_tasks db @ [t'],
            db_executions := db_executions db @ [next_execution t attemptId now]\<rparr>)
          (\<lambda>x. ru_id x = tk_runId t) (\<lambda>x. x\<lparr>ru_currentAttemptNumber := number\<rparr>))
          (task_event ''CONTROL_PLANE'' t' r ''run.retry.queued'' JNull)))"

section \<open>Taking a task back\<close>

definition lease_expired :: "agent_task \<Rightarrow> int \<Rightarrow> bool" where
  "lease_expired t now \<longleftrightarrow> tk_status t = ''RUNNING'' \<and> (case tk_leaseExpiresAt t of None \<Rightarrow> False | Some e \<Rightarrow> e \<le> now)"

definition unusable_session :: "session_row \<Rightarrow> int \<Rightarrow> bool" where
  "unusable_session s now \<longleftrightarrow> ss_status s \<noteq> ''ACTIVE'' \<or> ss_quarantinedAt s \<noteq> None \<or> ss_closureVerifiedAt s \<noteq> None
     \<or> ss_leaseExpiresAt s \<le> now \<or> (case ss_executionPermitExpiresAt s of None \<Rightarrow> True | Some e \<Rightarrow> e \<le> now)"

definition unclaimableHumanResume :: "rdb \<Rightarrow> agent_task \<Rightarrow> int \<Rightarrow> bool" where
  "unclaimableHumanResume db t now \<longleftrightarrow> tk_status t = ''PENDING'' \<and> tk_startedAt t \<noteq> None \<and> tk_recoveryStatus t = None
     \<and> (case run_of db t of None \<Rightarrow> False
        | Some r \<Rightarrow> ru_cancelRequestedAt r = None \<and> now < ru_deadlineAt r \<and> live_run (ru_lifecycle r))
     \<and> (case bound_session db t of None \<Rightarrow> False | Some s \<Rightarrow> unusable_session s now)"

text \<open>The first half of \<open>recoverExpiredLeases\<close>: the token of the lost lease becomes worthless, the browser is quarantined.
  \<open>t\<close> is the row as it was found; it is taken back if it is still in that state.\<close>

definition lost_task :: "int \<Rightarrow> bool \<Rightarrow> agent_task \<Rightarrow> agent_task" where
  "lost_task now humanResume x =
     x\<lparr>tk_status := ''FAILED'', tk_fencingToken := tk_fencingToken x + 1, tk_leaseOwner := None, tk_leaseToken := None,
       tk_leaseExpiresAt := None, tk_leaseLostAt := Some now,
       tk_recoveryStatus := Some (if humanResume then ''HITL_CLOSING'' else ''PENDING''),
       tk_recoveryNextAttemptAt := Some now\<rparr>"

definition lose_lease :: "rdb \<Rightarrow> agent_task \<Rightarrow> int \<Rightarrow> rdb" where
  "lose_lease db t now =
     (let humanResume = (tk_status t = ''PENDING'');
          claimed = (\<lambda>x. tk_id x = tk_id t \<and> tk_fencingToken x = tk_fencingToken t
            \<and> (if humanResume then unclaimableHumanResume db x now else lease_expired x now)) in
      case (count_rows claimed (db_tasks db) = 1, run_of db t) of
        (True, Some r) \<Rightarrow>
          let db1 = set_tasks db claimed (lost_task now humanResume);
              db2 = set_attempts db1 (\<lambda>a. at_id a = tk_attemptId t)
                (\<lambda>a. a\<lparr>at_status := ''FAILED'', at_failureClass := Some ''RUNTIME_LOST''\<rparr>);
              db3 = (case bound_session_id db t of None \<Rightarrow> db2
                | Some i \<Rightarrow> set_sessions db2 (\<lambda>s. ss_id s = i \<and> ss_ownerTaskId s = Some (tk_id t)
                    \<and> ss_ownerFencingToken s = Some (tk_fencingToken t) \<and> ss_closureVerifiedAt s = None \<and> ss_status s \<noteq> ''CLOSED'')
                    (\<lambda>s. s\<lparr>ss_executionPermitExpiresAt := Some now, ss_quarantinedAt := Some now\<rparr>));
              db4 = (if humanResume then set_executions db3 (\<lambda>x. bx_attemptId x = tk_attemptId t) (\<lambda>x. x\<lparr>bx_status := ''LOST''\<rparr>)
                else db3) in
          add_event db4 (task_event ''CONTROL_PLANE'' t r ''runtime.lease_lost''
            (JObj [(''lostFencingToken'', JStr (decimal (tk_fencingToken t)))]))
      | _ \<Rightarrow> db)"

text \<open>The second half, for a task that was taken back: wait while its browser closes, then decide.\<close>

definition awaiting_recovery :: "agent_task \<Rightarrow> bool" where
  "awaiting_recovery t \<longleftrightarrow> tk_recoveryStatus t \<in> Some ` {''PENDING'', ''CLOSING'', ''HITL_CLOSING''}"

definition session_closed :: "rdb \<Rightarrow> agent_task \<Rightarrow> bool" where
  "session_closed db t = (case bound_session db t of None \<Rightarrow> False | Some s \<Rightarrow> is_verified s)"

definition bound_recovery :: "rdb \<Rightarrow> agent_task \<Rightarrow> recovery_row option" where
  "bound_recovery db t = (case bound_session db t of None \<Rightarrow> None | Some s \<Rightarrow> recovery_for db s)"

definition unknown_write :: "rdb \<Rightarrow> agent_task \<Rightarrow> bool" where
  "unknown_write db t \<longleftrightarrow> (case bound_recovery db t of None \<Rightarrow> True | Some q \<Rightarrow> \<not> writeSettled (rv_writeOutcomeState q))"

definition run_over :: "run_row \<Rightarrow> int \<Rightarrow> bool" where
  "run_over r now \<longleftrightarrow> ru_deadlineAt r \<le> now \<or> ru_cancelRequestedAt r \<noteq> None \<or> terminalRun (ru_lifecycle r)"

definition must_defer :: "rdb \<Rightarrow> agent_task \<Rightarrow> run_row \<Rightarrow> int \<Rightarrow> bool" where
  "must_defer db t r now \<longleftrightarrow> \<not> session_closed db t
     \<and> (tk_recoveryStatus t = Some ''HITL_CLOSING'' \<or> \<not> unknown_write db t) \<and> \<not> run_over r now"

definition defer_recovery :: "rdb \<Rightarrow> agent_task \<Rightarrow> int \<Rightarrow> rdb" where
  "defer_recovery db t now =
     (let humanResume = (tk_recoveryStatus t = Some ''HITL_CLOSING'') in
      set_tasks db (\<lambda>x. tk_id x = tk_id t \<and> tk_fencingToken x = tk_fencingToken t \<and> awaiting_recovery x
          \<and> (case run_of db x of None \<Rightarrow> False | Some r \<Rightarrow> ru_cancelRequestedAt r = None \<and> live_run (ru_lifecycle r)))
        (\<lambda>x. x\<lparr>tk_recoveryStatus := Some (if humanResume then ''HITL_CLOSING'' else ''CLOSING''),
           tk_recoveryNextAttemptAt := Some (now + 5000)\<rparr>))"

definition finalization_kinds :: "string list" where
  "finalization_kinds = [''executor.deadline.finalized'', ''executor.budget.finalized'',
     ''executor.stagnation.finalized'', ''executor.session.finalized'']"

definition last_finalization :: "rdb \<Rightarrow> agent_task \<Rightarrow> string \<Rightarrow> finalization option" where
  "last_finalization db t lostFence =
     (case rev (filter (\<lambda>e. vt_taskId e = tk_id t \<and> vt_attemptId e = tk_attemptId t \<and> vt_actor e = ''AGENT_RUNTIME''
             \<and> vt_kind e \<in> set finalization_kinds \<and> js_prop (vt_payload e) ''fencingToken'' = JStr lostFence) (db_runEvents db)) of
        [] \<Rightarrow> None | e # _ \<Rightarrow> vt_finalization e)"

definition recovered_outcome :: "recovery_decision \<Rightarrow> agent_outcome" where
  "recovered_outcome decision = Fatal \<lparr>fx_code = (if decision = WRITE_OUTCOME_UNKNOWN then ''WRITE_OUTCOME_UNKNOWN''
       else ''OUTCOME_SUBMISSION_UNCONFIRMED''), fx_failureClass = F_RUNTIME_LOST,
     fx_detailsReason = None\<rparr> D_BLOCKED"

text \<open>What the decision does to the leases of the session.\<close>

definition settle_leases :: "recovery_env \<Rightarrow> rdb \<Rightarrow> agent_task \<Rightarrow> int \<Rightarrow> task_error + rdb" where
  "settle_leases env db t now = (case bound_session_id db t of
     None \<Rightarrow> Inr db
   | Some i \<Rightarrow>
       if unknown_write db t then Inr (db\<lparr>db_leases := quarantine_writes i (db_leases db)\<rparr>)
       else if session_closed db t
       then (case releaseVerifiedSessionResources env db i now of
               (db', True) \<Rightarrow> Inr db' | (_, False) \<Rightarrow> Inl Closure_Unproven)
       else Inr db)"

definition finish_run :: "rdb \<Rightarrow> run_row \<Rightarrow> string \<Rightarrow> int \<Rightarrow> rdb" where
  "finish_run db r disposition now = set_runs db (\<lambda>x. ru_id x = ru_id r)
     (\<lambda>x. x\<lparr>ru_lifecycle := (if ru_deadlineAt r \<le> now then ''TIMED_OUT'' else ''COMPLETED''), ru_verdict := None,
        ru_executionDisposition := Some disposition, ru_finishedAt := Some now\<rparr>)"

definition settle_recovery ::
  "recovery_env \<Rightarrow> rdb \<Rightarrow> string \<Rightarrow> string \<Rightarrow> bool \<Rightarrow> int \<Rightarrow> string \<Rightarrow> string \<Rightarrow> task_error + rdb" where
  "settle_recovery env db teamId taskId expiredRun now newAttemptId newTaskId =
     (case findTask db teamId taskId of
        None \<Rightarrow> Inl Task_Missing
      | Some (t, a, r) \<Rightarrow>
          let lostFence = decimal (tk_fencingToken t - 1);
              pending = readFinalizationCheckpoint (last_finalization db t lostFence) lostFence;
              decision = leaseRecoveryDecision (session_closed db t) (unknown_write db t)
                (pending \<noteq> None \<or> expiredRun \<or> run_over r now) (ru_infrastructureRecoveryCount r) (at_number a) (ru_maxAttempts r) in
          if \<not> awaiting_recovery t then Inr db
          else let db1 = set_tasks db (\<lambda>x. tk_id x = taskId)
                 (\<lambda>x. x\<lparr>tk_recoveryStatus := Some (decision_name decision), tk_recoveryNextAttemptAt := None,
                    tk_result := (if pending = None then tk_result x else outcome_js (recovered_outcome decision))\<rparr>);
               db2 = (if pending = None then db1 else set_attempts db1 (\<lambda>y. at_id y = tk_attemptId t)
                 (\<lambda>y. y\<lparr>at_status := ''FAILED'', at_failureClass := Some ''RUNTIME_LOST''\<rparr>)) in
            (case settle_leases env db2 t now of
               Inl e \<Rightarrow> Inl e
             | Inr db3 \<Rightarrow>
                 (case (if decision = RETRY_SCHEDULED
                    then scheduleNextAttempt (set_runs db3 (\<lambda>x. ru_id x = ru_id r)
                        (\<lambda>x. x\<lparr>ru_infrastructureRecoveryCount := ru_infrastructureRecoveryCount x + 1,
                           ru_lifecycle := ''QUEUED'', ru_executionDisposition := Some ''RUNTIME_LOST''\<rparr>))
                      t a r newAttemptId newTaskId now
                    else if terminalRun (ru_lifecycle r) then Inr db3
                    else Inr (finish_run db3 r (if pending \<noteq> None \<or> decision = WRITE_OUTCOME_UNKNOWN then ''BLOCKED'' else ''RUNTIME_LOST'') now)) of
                    Inl e \<Rightarrow> Inl e
                  | Inr db4 \<Rightarrow> Inr (add_event db4 (task_event ''CONTROL_PLANE'' t r ''runtime.lease_recovery.completed'' JNull)))))"

section \<open>Claiming a task\<close>

record claim_input =
  ci_workerId :: string
  ci_capabilities :: "string list"
  ci_features :: "string list"
  ci_protocolMinor :: nat

definition bound_evidence_capabilities :: "string list" where
  "bound_evidence_capabilities = [''observation-contract-v2'', ''bound-evidence-v1'', ''reference-evidence-images-v1'']"

definition supports :: "claim_input \<Rightarrow> string \<Rightarrow> bool" where
  "supports ci f \<longleftrightarrow> f \<in> set (ci_features ci)"

definition supports_v3 :: "claim_input \<Rightarrow> bool" where
  "supports_v3 ci \<longleftrightarrow> 23 \<le> ci_protocolMinor ci \<and> supports ci ''business-checks-v3''"

definition unsupported_versions :: "claim_input \<Rightarrow> nat list" where
  "unsupported_versions ci = filter (\<lambda>v. \<not> list_all (supports ci) bound_evidence_capabilities \<or> (v = 3 \<and> \<not> supports_v3 ci)) [2, 3]"

definition cannot_run :: "claim_input \<Rightarrow> agent_task \<Rightarrow> bool" where
  "cannot_run ci t = (let n = sn_needs (tk_snapshot t) in
     (3 \<in> set (nd_contractVersions n) \<and> \<not> supports_v3 ci)
     \<or> (ci_protocolMinor ci < 20 \<and> nd_accountRequirements n)
     \<or> (nd_contractVersions n \<noteq> [] \<and> \<not> list_all (supports ci) bound_evidence_capabilities)
     \<or> (ci_protocolMinor ci < 26 \<and> nd_protocol26 n)
     \<or> (\<not> supports ci ''typed-checks-v1'' \<and> nd_typedChecks n))"

definition usable_session :: "session_row \<Rightarrow> int \<Rightarrow> bool" where
  "usable_session s now \<longleftrightarrow> ss_status s = ''ACTIVE'' \<and> ss_quarantinedAt s = None \<and> ss_closureVerifiedAt s = None
     \<and> now < ss_leaseExpiresAt s \<and> (case ss_executionPermitExpiresAt s of None \<Rightarrow> False | Some e \<Rightarrow> now < e)"

definition claim_candidate :: "rdb \<Rightarrow> string \<Rightarrow> claim_input \<Rightarrow> string list \<Rightarrow> int \<Rightarrow> agent_task \<Rightarrow> bool" where
  "claim_candidate db teamId ci skipped now t \<longleftrightarrow>
     tk_id t \<notin> set skipped \<and> tk_capability t \<in> set (ci_capabilities ci)
     \<and> \<not> list_ex (\<lambda>v. v \<in> set (nd_contractVersions (sn_needs (tk_snapshot t)))) (unsupported_versions ci)
     \<and> now < tk_deadlineAt t \<and> tk_recoveryStatus t \<noteq> Some ''STARTUP_CLOSING'' \<and> tk_status t = ''PENDING''
     \<and> (case run_of db t of None \<Rightarrow> False
        | Some r \<Rightarrow> ru_cancelRequestedAt r = None \<and> live_run (ru_lifecycle r) \<and> ru_teamId r = teamId)
     \<and> (case execution_of db t of None \<Rightarrow> False | Some x \<Rightarrow> bx_status x = ''ACTIVE'')
     \<and> (case bound_session db t of None \<Rightarrow> False | Some s \<Rightarrow> usable_session s now)"

datatype claim_result = No_Task | Skipped string | Claimed agent_task

text \<open>The columns a lease table does not know stay with their rows.\<close>

definition guarded_rows :: "guarded_lease list \<Rightarrow> lease list \<Rightarrow> guarded_lease list" where
  "guarded_rows old new = map (\<lambda>(l, g). \<lparr>le_sessionId = le_sessionId l, le_claim = le_claim l,
     le_quarantined = le_quarantined l, gl_recoveryId = g\<rparr>)
     (zip new (map gl_recoveryId old @ replicate (length new - length old) None))"

definition lease_row :: "guarded_lease \<Rightarrow> lease" where
  "lease_row l = \<lparr>le_sessionId = le_sessionId l, le_claim = le_claim l, le_quarantined = le_quarantined l\<rparr>"

text \<open>A resumed task whose accounts changed claims them first; a task that has to wait keeps its browser for two minutes.\<close>

definition coordinate_resumed :: "task_env \<Rightarrow> rdb \<Rightarrow> agent_task \<Rightarrow> string \<Rightarrow> int \<Rightarrow> rdb \<times> bool" where
  "coordinate_resumed te db t sid now =
     (case coordinateResumedAccounts (map lease_row (db_leases db)) sid (te_claims te t) of
        (leases, None) \<Rightarrow> (db\<lparr>db_leases := guarded_rows (db_leases db) leases\<rparr>, False)
      | (_, Some _) \<Rightarrow> (set_sessions db (\<lambda>s. ss_id s = sid \<and> ss_status s = ''ACTIVE'' \<and> ss_quarantinedAt s = None)
          (\<lambda>s. s\<lparr>ss_executionPermitExpiresAt := Some (min (tk_deadlineAt t) (now + 120000))\<rparr>), True))"

definition leased_task :: "agent_task \<Rightarrow> string \<Rightarrow> string \<Rightarrow> int \<Rightarrow> int \<Rightarrow> agent_task" where
  "leased_task t workerId token now expires =
     t\<lparr>tk_fencingToken := tk_fencingToken t + 1, tk_leaseExpiresAt := Some expires, tk_leaseOwner := Some workerId,
       tk_leaseToken := Some token, tk_startedAt := Some (coalesce (tk_startedAt t) now), tk_status := ''RUNNING''\<rparr>"

text \<open>The execution budget starts with the first claim.\<close>

definition start_budget :: "run_row \<Rightarrow> int \<Rightarrow> task_error + run_row" where
  "start_budget r now = (case ru_executionBudgetSeconds r of
     None \<Rightarrow> Inr r
   | Some seconds \<Rightarrow>
       if seconds = 0 \<or> ru_executionBudgetStartedAt r \<noteq> None then Inr r
       else (case initializeExecutionBudget now seconds (coalesce (ru_executionMaxExtensionSeconds r) 0) (ru_parentDeadlineAt r) of
           None \<Rightarrow> Inl Parent_Elapsed
         | Some (deadlineAt, hardDeadlineAt) \<Rightarrow> Inr (r\<lparr>ru_deadlineAt := deadlineAt, ru_hardDeadlineAt := hardDeadlineAt,
             ru_executionBudgetStartedAt := Some now\<rparr>)))"

definition may_own :: "agent_task \<Rightarrow> string \<Rightarrow> int \<Rightarrow> session_row \<Rightarrow> bool" where
  "may_own t sid now s \<longleftrightarrow> ss_id s = sid \<and> usable_session s now
     \<and> (ss_ownerTaskId s = None \<or> (ss_ownerTaskId s = Some (tk_id t) \<and> ss_ownerFencingToken s = Some (tk_fencingToken t)))"

definition acquire :: "task_env \<Rightarrow> rdb \<Rightarrow> claim_input \<Rightarrow> agent_task \<Rightarrow> run_row \<Rightarrow> string \<Rightarrow> int \<Rightarrow> string
   \<Rightarrow> task_error + rdb \<times> claim_result" where
  "acquire te db ci t r sid now token =
     (let expires = now + te_leaseMs te in
      case start_budget r now of
        Inl e \<Rightarrow> Inl e
      | Inr r' \<Rightarrow>
          let t' = (leased_task t (ci_workerId ci) token now expires)
                \<lparr>tk_deadlineAt := (if ru_executionBudgetStartedAt r' = ru_executionBudgetStartedAt r then tk_deadlineAt t else ru_deadlineAt r')\<rparr> in
          if \<not> (list_ex (may_own t sid now) (db_sessions db)) then Inr (db, Skipped (tk_id t))
          else let db1 = set_tasks db (\<lambda>x. tk_id x = tk_id t) (\<lambda>_. t');
              db2 = set_runs db1 (\<lambda>x. ru_id x = ru_id r) (\<lambda>_. r'\<lparr>ru_lifecycle := ''RUNNING'',
                  ru_startedAt := Some (coalesce (ru_startedAt r) now)\<rparr>);
              db3 = set_sessions db2 (may_own t sid now) (\<lambda>s. s\<lparr>ss_ownerTaskId := Some (tk_id t),
                  ss_ownerFencingToken := Some (tk_fencingToken t'),
                  ss_executionPermitExpiresAt := Some (min expires (ru_deadlineAt r'))\<rparr>);
              db4 = set_attempts db3 (\<lambda>a. at_id a = tk_attemptId t) (\<lambda>a. a\<lparr>at_status := ''RUNNING''\<rparr>) in
            Inr (add_event db4 (task_event ''AGENT_RUNTIME'' t' r ''runtime.task.claimed''
                  (JObj [(''fencingToken'', JStr (decimal (tk_fencingToken t')))])), Claimed t'))"

definition claim_once ::
  "task_env \<Rightarrow> rdb \<Rightarrow> string \<Rightarrow> claim_input \<Rightarrow> string list \<Rightarrow> int \<Rightarrow> string \<Rightarrow> task_error + rdb \<times> claim_result" where
  "claim_once te db teamId ci skipped now token =
     (case js_sort (\<lambda>a b. tk_createdAt a \<le> tk_createdAt b) (filter (claim_candidate db teamId ci skipped now) (db_tasks db)) of
        [] \<Rightarrow> Inr (db, No_Task)
      | t # _ \<Rightarrow>
          if cannot_run ci t then Inr (db, Skipped (tk_id t))
          else (case (run_of db t, bound_session_id db t) of
            (Some r, Some sid) \<Rightarrow>
              if sn_coordinationPending (tk_snapshot t)
              then (case coordinate_resumed te db t sid now of
                  (db', True) \<Rightarrow> Inr (db', Skipped (tk_id t))
                | (db', False) \<Rightarrow> (case acquire te db' ci t r sid now token of
                      Inr (db'', Claimed t') \<Rightarrow> Inr (db'', Claimed t')
                    | Inr (_, other) \<Rightarrow> Inr (db, other)
                    | Inl e \<Rightarrow> Inl e))
              else acquire te db ci t r sid now token
          | _ \<Rightarrow> Inr (db, No_Task)))"

text \<open>Up to five transactions; \<open>fresh\<close> gives the clock and the new token of each.\<close>

fun claim_task ::
  "nat \<Rightarrow> task_env \<Rightarrow> rdb \<Rightarrow> string \<Rightarrow> claim_input \<Rightarrow> string list \<Rightarrow> (nat \<Rightarrow> int \<times> string) \<Rightarrow> task_error + rdb \<times> agent_task option" where
  "claim_task 0 te db teamId ci skipped fresh = Inr (db, None)"
| "claim_task (Suc n) te db teamId ci skipped fresh =
     (case claim_once te db teamId ci skipped (fst (fresh n)) (snd (fresh n)) of
        Inl e \<Rightarrow> Inl e
      | Inr (db', No_Task) \<Rightarrow> Inr (db', None)
      | Inr (db', Claimed t) \<Rightarrow> Inr (db', Some t)
      | Inr (db', Skipped i) \<Rightarrow> claim_task n te db' teamId ci (skipped @ [i]) fresh)"

definition claim_tasks ::
  "task_env \<Rightarrow> rdb \<Rightarrow> string \<Rightarrow> claim_input \<Rightarrow> bool \<Rightarrow> (nat \<Rightarrow> int \<times> string) \<Rightarrow> task_error + rdb \<times> agent_task option" where
  "claim_tasks te db teamId ci hasModels fresh =
     (if ci_protocolMinor ci < 2 then Inl Request_Refused
      else if \<not> hasModels then Inr (db, None)
      else claim_task 5 te db teamId ci [] fresh)"

section \<open>Heartbeats\<close>

datatype directive = CONTINUE_RUN | CANCEL_RUN

definition task_cancelled :: "agent_task \<Rightarrow> run_row \<Rightarrow> int \<Rightarrow> bool" where
  "task_cancelled t r now \<longleftrightarrow> tk_cancelRequestedAt t \<noteq> None \<or> ru_cancelRequestedAt r \<noteq> None \<or> ru_deadlineAt r \<le> now
     \<or> ru_lifecycle r \<in> {''CANCELLED'', ''TIMED_OUT''} \<or> tk_status t \<in> {''CANCELLED'', ''TIMED_OUT''}"

text \<open>The effect of an extension that the run can still take.\<close>

definition extend_deadline :: "rdb \<Rightarrow> agent_task \<Rightarrow> run_row \<Rightarrow> deadline_extension \<Rightarrow> rdb" where
  "extend_deadline db t r x =
     add_event (set_tasks (set_runs db (\<lambda>q. ru_id q = ru_id r)
         (\<lambda>q. q\<lparr>ru_deadlineAt := dx_deadlineAtMs x, ru_deadlineExtendedMs := ru_deadlineExtendedMs q + dx_extendedByMs x,
            ru_deadlineExtensionCount := ru_deadlineExtensionCount q + 1\<rparr>))
       (\<lambda>y. tk_id y = tk_id t)
       (\<lambda>y. y\<lparr>tk_deadlineAt := dx_deadlineAtMs x, tk_progress := (tk_progress y)
          \<lparr>pg_lastDeadlineExtensionOperationKey := Some (dx_operationKey x),
           pg_lastDeadlineExtensionProgressKey := (case dx_progressKey x of
             None \<Rightarrow> pg_lastDeadlineExtensionProgressKey (tk_progress y)
           | Some k \<Rightarrow> if k = [] then pg_lastDeadlineExtensionProgressKey (tk_progress y) else Some k)\<rparr>\<rparr>))
       (task_event ''CONTROL_PLANE'' t r ''run.deadline.extended'' JNull)"

definition extension_for :: "agent_task \<Rightarrow> run_row \<Rightarrow> int \<Rightarrow> deadline_extension option" where
  "extension_for t r now = decideAdaptiveDeadlineExtension (tk_capability t = ''BROWSER_VERIFICATION'') (tk_progress t)
     (ru_deadlineAt r) (ru_hardDeadlineAt r) now (py_deadline (ru_executionPolicy r))"

definition heartbeat ::
  "task_env \<Rightarrow> rdb \<Rightarrow> string \<Rightarrow> string \<Rightarrow> credentials \<Rightarrow> int \<Rightarrow> task_error + rdb \<times> directive" where
  "heartbeat te db teamId taskId c now =
     (case findTask db teamId taskId of
        None \<Rightarrow> Inl Task_Missing
      | Some (t, a, r) \<Rightarrow>
          if \<not> requireLease t c now then Inl Lease_Stale
          else if task_cancelled t r now then Inr (db, CANCEL_RUN)
          else if \<not> leased_status (tk_status t) then Inl Task_Terminal
          else let expires = now + te_leaseMs te;
              db1 = set_tasks db (\<lambda>x. tk_id x = taskId) (\<lambda>x. x\<lparr>tk_leaseExpiresAt := Some expires\<rparr>);
              db2 = set_sessions db1 (\<lambda>s. ss_ownerTaskId s = Some taskId \<and> ss_ownerFencingToken s = Some (tk_fencingToken t)
                  \<and> ss_status s = ''ACTIVE'' \<and> ss_quarantinedAt s = None \<and> ss_closureVerifiedAt s = None)
                (\<lambda>s. s\<lparr>ss_executionPermitExpiresAt := Some (min expires (ru_deadlineAt r))\<rparr>) in
            Inr ((case extension_for t r now of
                None \<Rightarrow> db2
              | Some x \<Rightarrow> if dx_deadlineAtMs x \<le> ru_hardDeadlineAt r \<and> live_run (ru_lifecycle r)
                  then extend_deadline db2 t r x else db2), CONTINUE_RUN))"

end
