(* ===== verification/TaskReports.thy ===== *)
theory TaskReports
  imports AgentTasks
begin

text \<open>
  What a worker reports about the task it holds: \<open>appendEvent\<close>, \<open>recordRuntimeProgress\<close> and \<open>submitOutcome\<close> of
  \<open>apps/api/src/agent-runtime/agent-runtime-task.service.ts\<close>, and \<open>saveExecutionCheckpoint\<close> and
  \<open>persistCriterionResults\<close> of \<open>execution-checkpoint.ts\<close>.

  The payload of an event is given with what its schemas parse from it. The metrics of a task, the stored requests
  of model calls and the notifications are left out.
\<close>

section \<open>Names\<close>

fun attempt_name :: "attempt_status \<Rightarrow> string" where
  "attempt_name A_PENDING = ''PENDING''"
| "attempt_name A_RUNNING = ''RUNNING''"
| "attempt_name A_WAITING_HUMAN = ''WAITING_HUMAN''"
| "attempt_name A_SUCCEEDED = ''SUCCEEDED''"
| "attempt_name A_FAILED = ''FAILED''"
| "attempt_name A_CANCELLED = ''CANCELLED''"
| "attempt_name A_TIMED_OUT = ''TIMED_OUT''"

fun failure_name :: "failure_class \<Rightarrow> string" where
  "failure_name F_TOOL_EXECUTION = ''TOOL_EXECUTION''"
| "failure_name F_PROVIDER = ''PROVIDER''"
| "failure_name F_LIFECYCLE_PROTOCOL = ''LIFECYCLE_PROTOCOL''"
| "failure_name F_BROWSER_RUNTIME = ''BROWSER_RUNTIME''"
| "failure_name F_TIMEOUT = ''TIMEOUT''"
| "failure_name F_RUNTIME_LOST = ''RUNTIME_LOST''"
| "failure_name F_UNKNOWN = ''UNKNOWN''"

section \<open>Progress\<close>

datatype trace_kind =
    MODEL_STARTED | MODEL_COMPLETED | MODEL_FAILED | TOOL_STARTED | TOOL_COMPLETED | TOOL_FAILED
  | SEGMENT_STARTED | SEGMENT_COMPLETED

text \<open>\<open>tv_meaningful\<close> is the sequence number of a progress report that is marked meaningful.\<close>

record trace_event =
  tv_kind :: trace_kind
  tv_segmentId :: string
  tv_step :: nat
  tv_meaningful :: "nat option"
  tv_durationMs :: int
  tv_succeeded :: bool

definition traceOperationKey :: "trace_event \<Rightarrow> string" where
  "traceOperationKey e = tv_segmentId e @ '':'' @ decimal (tv_step e)"

definition meaningful_key :: "trace_event \<Rightarrow> string option" where
  "meaningful_key e = map_option (\<lambda>n. tv_segmentId e @ '':'' @ decimal n) (tv_meaningful e)"

definition started_operation :: "string \<Rightarrow> trace_event \<Rightarrow> int \<Rightarrow> task_progress \<Rightarrow> task_progress" where
  "started_operation operation e recordedAt p =
     p\<lparr>pg_activeOperation := Some operation, pg_activeOperationKey := Some (traceOperationKey e),
       pg_activeOperationStartedAt := Some recordedAt\<rparr>"

definition ended_operation :: "task_progress \<Rightarrow> task_progress" where
  "ended_operation p = p\<lparr>pg_activeOperation := None, pg_activeOperationKey := None, pg_activeOperationStartedAt := None\<rparr>"

definition meaningful_progress :: "trace_event \<Rightarrow> task_progress \<Rightarrow> task_progress" where
  "meaningful_progress e p = (case meaningful_key e of None \<Rightarrow> p | Some k \<Rightarrow> p\<lparr>pg_lastMeaningfulProgressKey := Some k\<rparr>)"

text \<open>\<open>Math.round(0.7 * a + 0.3 * d)\<close>, over the exact tenths.\<close>

definition latency_average :: "int option \<Rightarrow> int \<Rightarrow> int" where
  "latency_average average d = (case average of None \<Rightarrow> d | Some a \<Rightarrow> (7 * a + 3 * d + 5) div 10)"

definition model_ended :: "bool \<Rightarrow> trace_event \<Rightarrow> int \<Rightarrow> task_progress \<Rightarrow> task_progress" where
  "model_ended completed e recordedAt p =
     (let d = min 2147483647 (tv_durationMs e) in
      (ended_operation p)\<lparr>pg_lastModelCompletedAt := (if completed then Some recordedAt else None),
        pg_lastModelLatencyMs := Some d,
        pg_lastModelOperationKey := (if completed then Some (traceOperationKey e) else None),
        pg_modelLatencyEwmaMs := Some (latency_average (pg_modelLatencyEwmaMs p) d),
        pg_modelLatencyMaxMs := max (pg_modelLatencyMaxMs p) d\<rparr>)"

fun recordRuntimeProgress :: "trace_event \<Rightarrow> int \<Rightarrow> task_progress \<Rightarrow> task_progress" where
  "recordRuntimeProgress e recordedAt p = (case tv_kind e of
     MODEL_STARTED \<Rightarrow> started_operation ''MODEL'' e recordedAt (meaningful_progress e p)
   | MODEL_COMPLETED \<Rightarrow> model_ended True e recordedAt p
   | MODEL_FAILED \<Rightarrow> model_ended False e recordedAt p
   | TOOL_STARTED \<Rightarrow> started_operation ''TOOL'' e recordedAt p
   | TOOL_COMPLETED \<Rightarrow> ended_operation (if tv_succeeded e then meaningful_progress e p else p)
   | TOOL_FAILED \<Rightarrow> ended_operation p
   | SEGMENT_COMPLETED \<Rightarrow> ended_operation p
   | SEGMENT_STARTED \<Rightarrow> p)"

section \<open>Criterion results\<close>

definition result_key :: "result_row \<Rightarrow> string \<times> string" where
  "result_key w = (cw_attemptId w, cw_criterionId w)"

definition persist_result :: "task_snapshot \<Rightarrow> rdb \<Rightarrow> criterion_result \<Rightarrow> rdb" where
  "persist_result sn db c =
     (let key = (sn_attemptId sn, cx_criterionId c) in
      db\<lparr>db_results := (if list_ex (\<lambda>w. result_key w = key) (db_results db)
        then update_where (\<lambda>w. result_key w = key)
               (\<lambda>w. w\<lparr>cw_status := cx_status c, cw_evidenceRefs := cx_evidenceRefs c\<rparr>) (db_results db)
        else db_results db @ [\<lparr>cw_runId = sn_runId sn, cw_attemptId = sn_attemptId sn, cw_criterionId = cx_criterionId c,
               cw_status = cx_status c, cw_evidenceRefs = cx_evidenceRefs c\<rparr>])\<rparr>)"

definition persistCriterionResults :: "rdb \<Rightarrow> task_snapshot \<Rightarrow> criterion_result list \<Rightarrow> rdb" where
  "persistCriterionResults db sn criteria = foldl (persist_result sn) db criteria"

section \<open>Checkpoints\<close>

record saved_observation =
  so_criterionId :: string
  so_target :: string
  so_evidenceRefs :: "string list"

record verification_progress =
  vp_bindingIds :: "string list"
  vp_comparisonReviewIds :: "string list"
  vp_observations :: "saved_observation list"
  vp_criteria :: "criterion_result list"
  vp_evidence :: "evidence_ref list"
  vp_catalog :: "(string \<times> string) option"

record execution_checkpoint =
  ck_state :: execution_state
  ck_accounts :: "(string \<times> string \<times> string) list"
  ck_progress :: "verification_progress option"

definition state_refs :: "execution_state \<Rightarrow> string list" where
  "state_refs x = concat (map er_evidenceRefs (xs_records x)) @ concat (xs_pendingRecords x)
     @ concat (map wr_evidenceRefs (xs_writes x)) @ concat (map re_evidenceRefs (xs_readReceipts x))
     @ concat (map cc_evidenceRefs (xs_cleanupConfirmations x)) @ coalesce (xs_cleanupReview x) []"

definition attempt_evidence :: "rdb \<Rightarrow> string \<Rightarrow> string \<Rightarrow> (string \<times> string) list" where
  "attempt_evidence db runId attemptId = map (\<lambda>e. (vd_externalId e, vd_kind e))
     (filter (\<lambda>e. vd_runId e = runId \<and> vd_attemptId e = attemptId) (db_runEvidence db))"

text \<open>The observation is of a target of one of the criteria, and its evidence is stored.\<close>

definition observation_known :: "task_snapshot \<Rightarrow> (string \<times> string) list \<Rightarrow> saved_observation \<Rightarrow> bool" where
  "observation_known sn known ob \<longleftrightarrow>
     list_ex (\<lambda>c. kr_id c = so_criterionId ob \<and> so_target ob \<in> set (kr_observationTargets c)) (sn_criteria sn)
     \<and> list_all (\<lambda>i. jmap_get known i \<noteq> None) (so_evidenceRefs ob)"

definition checkpoint_cites_stored ::
  "task_snapshot \<Rightarrow> (string \<times> string) list \<Rightarrow> execution_state \<Rightarrow> verification_progress option \<Rightarrow> bool" where
  "checkpoint_cites_stored sn known x progress \<longleftrightarrow>
     list_all (\<lambda>i. jmap_get known i \<noteq> None) (state_refs x)
     \<and> (case progress of None \<Rightarrow> True | Some p \<Rightarrow>
          list_all (observation_known sn known) (vp_observations p)
          \<and> list_all (\<lambda>e. jmap_get known (ef_externalId e) = Some (proof_kind_name (ef_kind e))) (vp_evidence p)
          \<and> list_all (\<lambda>c. list_ex (\<lambda>k. kr_id k = cx_criterionId c) (sn_criteria sn)
               \<and> list_all (\<lambda>i. jmap_get known i \<noteq> None) (cx_evidenceRefs c)) (vp_criteria p))"

text \<open>A criterion may be saved as passed only with evidence of every kind it requires.\<close>

definition criterion_supported :: "task_snapshot \<Rightarrow> (string \<times> string) list \<Rightarrow> criterion_result \<Rightarrow> bool" where
  "criterion_supported sn stored r =
     (case List.find (\<lambda>c. kr_id c = cx_criterionId r) (sn_criteria sn) of
        None \<Rightarrow> False
      | Some c \<Rightarrow> cx_status r \<noteq> V_PASSED
          \<or> (list_all (\<lambda>e. proof_kind_of (snd e) \<noteq> None) stored
             \<and> missingRequiredEvidenceKinds (browserExecutionCriterion c) (cx_evidenceRefs r)
                 (map (\<lambda>e. (fst e, the (proof_kind_of (snd e)))) stored) = []))"

definition same_accounts :: "(string \<times> string \<times> string) list \<Rightarrow> (string \<times> string \<times> string) list \<Rightarrow> bool" where
  "same_accounts assigned accounts \<longleftrightarrow> length assigned = length accounts \<and> list_all (\<lambda>b. b \<in> set assigned) accounts"

definition saveExecutionCheckpoint :: "task_env \<Rightarrow> rdb \<Rightarrow> agent_task \<Rightarrow> execution_checkpoint \<Rightarrow> task_error + rdb" where
  "saveExecutionCheckpoint te db t ck =
     (let sn = tk_snapshot t;
          stored = attempt_evidence db (tk_runId t) (sn_attemptId sn);
          known = foldl (\<lambda>m (i, k). jmap_set m i k) [] stored;
          criteria = (case ck_progress ck of None \<Rightarrow> [] | Some p \<Rightarrow> vp_criteria p) in
      if (case ck_progress ck of None \<Rightarrow> False | Some p \<Rightarrow>
            vp_catalog p \<noteq> None \<and> vp_catalog p \<noteq> Some (tk_runId t, sn_attemptId sn))
      then Inl Checkpoint_Refused
      else if \<not> checkpoint_cites_stored sn known (ck_state ck) (ck_progress ck) then Inl Checkpoint_Refused
      else if \<not> list_all (criterion_supported sn stored) criteria then Inl Checkpoint_Refused
      else if \<not> same_accounts (te_accounts te t) (ck_accounts ck) then Inl Checkpoint_Refused
      else Inr (set_tasks (persistCriterionResults db sn criteria) (\<lambda>x. tk_id x = tk_id t)
        (\<lambda>x. x\<lparr>tk_executionState := Some (ck_state ck)\<rparr>)))"

section \<open>Events\<close>

text \<open>An event of a worker: its id, kind and payload, and what the payload parses to. \<open>ae_context\<close> says whether
  the archive of a model call in it is valid; \<open>ae_cooldown\<close> is the health of a model that failed.\<close>

record agent_event =
  ae_id :: string
  ae_kind :: string
  ae_payload :: js
  ae_finalization :: "finalization option"
  ae_context :: "bool option"
  ae_cooldown :: "(string \<times> cooldown) option"
  ae_checkpoint :: "execution_checkpoint option"
  ae_trace :: "trace_event option"

definition cool_down :: "rdb \<Rightarrow> agent_task \<Rightarrow> agent_event \<Rightarrow> int \<Rightarrow> rdb" where
  "cool_down db t e now = (case ae_cooldown e of
     None \<Rightarrow> db
   | Some (k, c) \<Rightarrow>
       if ae_kind e = ''agent.model.failed'' \<and> now < cl_until c \<and> cl_until c \<le> now + 30 * 60000
       then set_tasks db (\<lambda>x. tk_id x = tk_id t)
         (\<lambda>x. x\<lparr>tk_snapshot := (tk_snapshot t)\<lparr>sn_modelCooldowns := (let xs = sn_modelCooldowns (tk_snapshot t) in
              jmap_set (drop (length xs - 31) xs) k c)\<rparr>\<rparr>)
       else db)"

definition bindings_refused :: "task_env \<Rightarrow> agent_task \<Rightarrow> execution_checkpoint \<Rightarrow> bool" where
  "bindings_refused te t ck \<longleftrightarrow> nd_contractVersions (sn_needs (tk_snapshot t)) \<noteq> []
     \<and> (case ck_progress ck of None \<Rightarrow> False | Some p \<Rightarrow>
          \<not> te_references_ok te t (vp_bindingIds p) (vp_comparisonReviewIds p) \<or> \<not> te_bindings_ok te t (vp_criteria p))"

definition checkpoint_event :: "task_env \<Rightarrow> rdb \<Rightarrow> agent_task \<Rightarrow> agent_event \<Rightarrow> task_error + rdb" where
  "checkpoint_event te db t e =
     (if ae_kind e \<noteq> ''execution.checkpoint'' then Inr db
      else (case ae_checkpoint e of
          None \<Rightarrow> Inl Checkpoint_Refused
        | Some ck \<Rightarrow> if bindings_refused te t ck then Inl Bindings_Refused else saveExecutionCheckpoint te db t ck))"

definition record_progress :: "rdb \<Rightarrow> agent_task \<Rightarrow> agent_event \<Rightarrow> int \<Rightarrow> rdb" where
  "record_progress db t e recordedAt = (case ae_trace e of
     None \<Rightarrow> db
   | Some v \<Rightarrow> set_tasks db (\<lambda>x. tk_id x = tk_id t)
       (\<lambda>x. x\<lparr>tk_progress := recordRuntimeProgress v recordedAt (tk_progress x)\<rparr>))"

text \<open>An event that is already stored for the task is acknowledged and does nothing again.\<close>

definition appendEvent ::
  "task_env \<Rightarrow> rdb \<Rightarrow> string \<Rightarrow> string \<Rightarrow> credentials \<Rightarrow> agent_event \<Rightarrow> int \<Rightarrow> int \<Rightarrow> task_error + rdb" where
  "appendEvent te db teamId taskId c e now recordedAt =
     (case findTask db teamId taskId of
        None \<Rightarrow> Inl Task_Missing
      | Some (t, a, r) \<Rightarrow>
          if \<not> lockCurrentLease t c now then Inl Lease_Stale
          else if ae_kind e = ''agent.model.started'' \<and> ae_context e = Some False then Inl Request_Refused
          else (case List.find (\<lambda>v. vt_id v = Some (ae_id e)) (db_runEvents db) of
              Some v \<Rightarrow> if vt_taskId v = taskId then Inr db else Inl Event_Taken
            | None \<Rightarrow>
                let db1 = add_event db ((task_event ''AGENT_RUNTIME'' t r (ae_kind e) (ae_payload e))
                      \<lparr>vt_id := Some (ae_id e), vt_finalization := ae_finalization e\<rparr>);
                    db2 = cool_down db1 t e now in
                (case checkpoint_event te db2 t e of
                   Inl x \<Rightarrow> Inl x
                 | Inr db3 \<Rightarrow> Inr (record_progress db3 t e recordedAt))))"

section \<open>Whether a failed task may have written\<close>

text \<open>Without a recovery, only a launch that was audited and belongs to this lease makes the absence of commands
  meaningful.\<close>

definition audited_launch :: "rdb \<Rightarrow> agent_task \<Rightarrow> session_row \<Rightarrow> bool" where
  "audited_launch db t s \<longleftrightarrow> js_prop (ss_launchIdentity s) ''version'' = JNum 1 \<and> truthy (identity_id s)
     \<and> ss_launchIdentityVersion s = Some 1 \<and> truthy (ss_launchHostInstanceId s) \<and> ss_launchConnectionGeneration s \<noteq> None
     \<and> ss_ownerTaskId s = Some (tk_id t) \<and> ss_ownerFencingToken s = Some (tk_fencingToken t)
     \<and> list_ex (\<lambda>c. launch_command s c \<and> cd_status c = ''SUCCEEDED'') (db_commands db)"

definition uncertain_write :: "rdb \<Rightarrow> agent_task \<Rightarrow> bool" where
  "uncertain_write db t \<longleftrightarrow> (case bound_session db t of
     None \<Rightarrow> True
   | Some s \<Rightarrow> (case recovery_for db s of
        Some q \<Rightarrow> \<not> writeSettled (rv_writeOutcomeState q)
      | None \<Rightarrow> \<not> audited_launch db t s
          \<or> 0 < count_rows (\<lambda>c. of_session s c \<and> potential_write db s c) (db_commands db)))"

fun needs_audit :: "agent_outcome \<Rightarrow> bool" where
  "needs_audit (Verified v) \<longleftrightarrow> vf_termination v \<noteq> None"
| "needs_audit (NeedsHuman i) \<longleftrightarrow> False"
| "needs_audit (Retryable f d) \<longleftrightarrow> True"
| "needs_audit (Fatal f d) \<longleftrightarrow> True"

definition original_class :: "agent_outcome \<Rightarrow> failure_class" where
  "original_class oc = (case outcome_error oc of None \<Rightarrow> F_TOOL_EXECUTION | Some f \<Rightarrow> fx_failureClass f)"

definition unknown_write_outcome :: "agent_outcome \<Rightarrow> agent_outcome" where
  "unknown_write_outcome oc = Fatal \<lparr>fx_code = ''WRITE_OUTCOME_UNKNOWN'', fx_failureClass = original_class oc,
     fx_detailsReason = None\<rparr> D_BLOCKED"

text \<open>A verification that lost its browser is not a completed test.\<close>

fun lost_session_outcome :: "agent_outcome \<Rightarrow> agent_outcome" where
  "lost_session_outcome (Verified v) = (if vf_termination v = Some ''RUNTIME_SESSION_UNAVAILABLE''
     then Fatal \<lparr>fx_code = ''RUNTIME_SESSION_UNAVAILABLE'', fx_failureClass = F_RUNTIME_LOST, fx_detailsReason = None\<rparr>
            D_RUNTIME_LOST
     else Verified v)"
| "lost_session_outcome oc = oc"

definition audited_outcome :: "rdb \<Rightarrow> agent_task \<Rightarrow> agent_outcome \<Rightarrow> agent_outcome" where
  "audited_outcome db t oc =
     (if needs_audit oc \<and> uncertain_write db t then unknown_write_outcome oc else lost_session_outcome oc)"

section \<open>Outcomes\<close>

record outcome_input =
  oi_completionId :: string
  oi_completedAt :: int
  oi_outcome :: agent_outcome

record acknowledgement =
  ak_attemptNumber :: nat
  ak_lifecycle :: string
  ak_nextAttemptScheduled :: bool
  ak_taskStatus :: string

definition normalizeAcknowledgedTaskStatus :: "string \<Rightarrow> string" where
  "normalizeAcknowledgedTaskStatus s = (if s \<in> {''WAITING_HUMAN'', ''SUCCEEDED'', ''TIMED_OUT''} then s else ''FAILED'')"

definition completed_verification :: "agent_outcome \<Rightarrow> verification option" where
  "completed_verification oc = (case oc of Verified v \<Rightarrow> Some v | _ \<Rightarrow> None)"

definition intervention_of :: "agent_outcome \<Rightarrow> intervention_request option" where
  "intervention_of oc = (case oc of NeedsHuman i \<Rightarrow> Some i | _ \<Rightarrow> None)"

text \<open>Whether the outcome is accepted, in the order of the code.\<close>

definition outcome_refused :: "task_env \<Rightarrow> rdb \<Rightarrow> agent_task \<Rightarrow> run_row \<Rightarrow> agent_outcome \<Rightarrow> task_error option" where
  "outcome_refused te db t r oc =
     (if \<not> leased_status (tk_status t) then Some Task_Terminal
      else if ru_cancelRequestedAt r \<noteq> None \<or> ru_lifecycle r \<in> {''CANCELLED'', ''TIMED_OUT''} then Some Run_Closed
      else (case oc of
          Verified v \<Rightarrow>
            if nd_contractVersions (sn_needs (tk_snapshot t)) \<noteq> [] \<and> \<not> te_bindings_ok te t (vf_criteria v)
            then Some Bindings_Refused
            else map_option Evidence_Refused (completedOutcomeEvidenceError (tk_snapshot t) v
              (map (\<lambda>e. (vd_externalId e, vd_kind e)) (filter (\<lambda>e. vd_attemptId e = tk_attemptId t) (db_runEvidence db))))
        | NeedsHuman i \<Rightarrow>
            if \<not> te_request_ok te t i then Some Request_Refused
            else if \<not> hp_enabled (py_hitl (ru_executionPolicy r)) then Some Hitl_Disabled
            else None
        | _ \<Rightarrow> None))"

definition outcome_projection_of :: "attempt_row \<Rightarrow> run_row \<Rightarrow> agent_outcome \<Rightarrow> outcome_projection" where
  "outcome_projection_of a r oc = (let ro = runtime_outcome_of oc; policy = ru_executionPolicy r in
     projectRuntimeOutcome (int (at_number a)) ro (effectiveRetryPolicy (py_browser policy) ro (py_retry policy)))"

definition completed_task :: "string \<Rightarrow> agent_outcome \<Rightarrow> bool \<Rightarrow> outcome_projection \<Rightarrow> agent_task \<Rightarrow> agent_task" where
  "completed_task completionId oc unknownWrite pj x =
     x\<lparr>tk_completionId := Some completionId,
       tk_recoveryStatus := (if unknownWrite then Some ''WRITE_OUTCOME_UNKNOWN'' else tk_recoveryStatus x),
       tk_leaseExpiresAt := None, tk_leaseOwner := None, tk_leaseToken := None, tk_result := outcome_js oc,
       tk_status := attempt_name (op_taskStatus pj)\<rparr>"

definition persist_evidence :: "rdb \<Rightarrow> agent_task \<Rightarrow> evidence_ref list \<Rightarrow> rdb" where
  "persist_evidence db t evidence = foldl (\<lambda>d e.
     if list_ex (\<lambda>v. vd_attemptId v = tk_attemptId t \<and> vd_externalId v = ef_externalId e) (db_runEvidence d) then d
     else d\<lparr>db_runEvidence := db_runEvidence d @ [\<lparr>vd_runId = tk_runId t, vd_attemptId = tk_attemptId t,
       vd_externalId = ef_externalId e, vd_kind = proof_kind_name (ef_kind e)\<rparr>]\<rparr>) db evidence"

definition persist_verification :: "rdb \<Rightarrow> agent_task \<Rightarrow> verification option \<Rightarrow> rdb" where
  "persist_verification db t v = (case v of
     None \<Rightarrow> db
   | Some v \<Rightarrow> persist_evidence (persistCriterionResults db (tk_snapshot t) (vf_criteria v)) t (vf_evidence v))"

definition wait_expires :: "run_row \<Rightarrow> intervention_request \<Rightarrow> int \<Rightarrow> int" where
  "wait_expires r i requestedAt = (let policy = ru_executionPolicy r in
     hitlWaitDeadline (ru_deadlineAt r) (deadlinePolicyPausesHumanWait (py_deadline policy))
       (hp_timeoutSeconds (py_hitl policy)) requestedAt (ir_expiresAt i))"

definition pauses :: "run_row \<Rightarrow> bool" where
  "pauses r \<longleftrightarrow> deadlinePolicyPausesHumanWait (py_deadline (ru_executionPolicy r))"

text \<open>A task that waits for a human keeps its browser, and its clock may stop.\<close>

definition start_waiting ::
  "rdb \<Rightarrow> agent_task \<Rightarrow> run_row \<Rightarrow> intervention_request \<Rightarrow> string \<Rightarrow> int \<Rightarrow> rdb" where
  "start_waiting db t r i interventionId requestedAt =
     (let expires = wait_expires r i requestedAt;
          db1 = db\<lparr>db_interventions := db_interventions db @ [\<lparr>iv_id = interventionId, iv_runId = tk_runId t,
            iv_taskId = tk_id t, iv_attemptId = tk_attemptId t,
            iv_kind = ir_kind i, iv_status = ''PENDING'', iv_expiresAt = Some expires,
            iv_createdAt = requestedAt,
            iv_pausedExecutionRemainingMs = (if pauses r then Some (max 0 (ru_deadlineAt r - requestedAt)) else None),
            iv_controlLeaseExpiresAt = None\<rparr>]\<rparr>;
          db2 = (if pauses r then set_tasks db1 (\<lambda>x. tk_id x = tk_id t) (\<lambda>x. x\<lparr>tk_deadlineAt := expires\<rparr>) else db1);
          db3 = (case bound_session_id db t of None \<Rightarrow> db2
            | Some sid \<Rightarrow> set_sessions db2 (\<lambda>s. ss_id s = sid \<and> ss_status s \<in> {''OPENING'', ''ACTIVE'', ''HUMAN_CONTROL''})
                (\<lambda>s. s\<lparr>ss_leaseExpiresAt := expires\<rparr>)) in
      add_event db3 (task_event ''AGENT_RUNTIME'' t r ''human.intervention.requested'' JNull))"

definition outcome_run ::
  "run_row \<Rightarrow> agent_outcome \<Rightarrow> outcome_projection \<Rightarrow> int \<Rightarrow> int \<Rightarrow> run_row \<Rightarrow> run_row" where
  "outcome_run r oc pj completedAt requestedAt x =
     x\<lparr>ru_executionDisposition := map_option disposition_name (op_executionDisposition pj),
       ru_finishedAt := (if op_nextAttemptScheduled pj \<or> intervention_of oc \<noteq> None then None else Some completedAt),
       ru_lifecycle := lifecycle_name (op_lifecycle pj), ru_verdict := op_verdict pj,
       ru_deadlineAt := (case intervention_of oc of
           Some i \<Rightarrow> if pauses r then wait_expires r i requestedAt else ru_deadlineAt x
         | None \<Rightarrow> ru_deadlineAt x)\<rparr>"

fun outcome_event_kind :: "agent_outcome \<Rightarrow> string" where
  "outcome_event_kind (Verified v) = ''runtime.outcome.verification_completed''"
| "outcome_event_kind (NeedsHuman i) = ''runtime.outcome.waiting_human''"
| "outcome_event_kind (Retryable f d) = ''runtime.outcome.retryable_failure''"
| "outcome_event_kind (Fatal f d) = ''runtime.outcome.fatal_failure''"

text \<open>What accepting an outcome writes. The ids of the rows it may create are given.\<close>

record fresh_ids =
  fi_attemptId :: string
  fi_taskId :: string
  fi_interventionId :: string

definition settle_outcome ::
  "task_env \<Rightarrow> rdb \<Rightarrow> agent_task \<Rightarrow> attempt_row \<Rightarrow> run_row \<Rightarrow> outcome_input \<Rightarrow> agent_outcome \<Rightarrow> int \<Rightarrow> fresh_ids
   \<Rightarrow> task_error + rdb" where
  "settle_outcome te db t a r input oc now ids =
     (let unknownWrite = (needs_audit (oi_outcome input) \<and> uncertain_write db t);
          pj = outcome_projection_of a r oc;
          db1 = (case (unknownWrite, bound_session_id db t) of
            (True, Some sid) \<Rightarrow> db\<lparr>db_leases := map (\<lambda>l. if le_sessionId l = sid then l\<lparr>le_quarantined := True\<rparr> else l) (db_leases db)\<rparr>
          | _ \<Rightarrow> db);
          db2 = set_tasks db1 (\<lambda>x. tk_id x = tk_id t) (completed_task (oi_completionId input) oc unknownWrite pj);
          db3 = set_attempts db2 (\<lambda>y. at_id y = tk_attemptId t) (\<lambda>y. y\<lparr>at_status := attempt_name (op_attemptStatus pj),
            at_failureClass := map_option (\<lambda>f. failure_name (fx_failureClass f)) (outcome_error oc)\<rparr>);
          db4 = persist_verification db3 t (completed_verification (oi_outcome input));
          db5 = (case intervention_of oc of None \<Rightarrow> db4
            | Some i \<Rightarrow> start_waiting db4 t r i (fi_interventionId ids) now);
          db6 = set_runs db5 (\<lambda>x. ru_id x = tk_runId t) (outcome_run r oc pj (oi_completedAt input) now);
          db7 = add_event db6 (task_event ''AGENT_RUNTIME'' t r (outcome_event_kind oc) JNull) in
      (case (if op_nextAttemptScheduled pj then scheduleNextAttempt db7 t a r (fi_attemptId ids) (fi_taskId ids) now else Inr db7) of
         Inl e \<Rightarrow> Inl e
       | Inr db8 \<Rightarrow> Inr (if intervention_of oc \<noteq> None then db8
           else releaseCompletedSessionData (te_recovery te) db8 (tk_id t) now)))"

definition submitOutcome ::
  "task_env \<Rightarrow> rdb \<Rightarrow> string \<Rightarrow> string \<Rightarrow> credentials \<Rightarrow> outcome_input \<Rightarrow> int \<Rightarrow> fresh_ids
   \<Rightarrow> task_error + rdb \<times> acknowledgement" where
  "submitOutcome te db teamId taskId c input now ids =
     (case findTask db teamId taskId of
        None \<Rightarrow> Inl Task_Missing
      | Some (t, a, r) \<Rightarrow>
          if truthy (tk_completionId t)
          then if tk_completionId t \<noteq> Some (oi_completionId input) then Inl Other_Completion
               else Inr (db, \<lparr>ak_attemptNumber = at_number a, ak_lifecycle = ru_lifecycle r,
                 ak_nextAttemptScheduled = (at_number a < ru_currentAttemptNumber r),
                 ak_taskStatus = normalizeAcknowledgedTaskStatus (tk_status t)\<rparr>)
          else if \<not> lockCurrentLease t c now then Inl Lease_Stale
          else let oc = audited_outcome db t (oi_outcome input); pj = outcome_projection_of a r oc in
            (case outcome_refused te db t r (case oi_outcome input of Verified v \<Rightarrow> Verified v | _ \<Rightarrow> oc) of
               Some e \<Rightarrow> Inl e
             | None \<Rightarrow>
                 if list_ex (\<lambda>x. tk_completionId x = Some (oi_completionId input)) (db_tasks db) then Inl Completion_Taken
                 else (case settle_outcome te db t a r input oc now ids of
                     Inl e \<Rightarrow> Inl e
                   | Inr db' \<Rightarrow> Inr (db', \<lparr>ak_attemptNumber = at_number a, ak_lifecycle = lifecycle_name (op_lifecycle pj),
                       ak_nextAttemptScheduled = op_nextAttemptScheduled pj, ak_taskStatus = attempt_name (op_taskStatus pj)\<rparr>))))"

end
