(* ===== verification/RunLifecycle.thy ===== *)
theory RunLifecycle
  imports TaskReports
begin

text \<open>
  The life of a run outside its tasks: it is created and cancelled, and a human's answer resumes it
  (\<open>apps/api/src/execution-runs/execution-run.service.ts\<close>); its deadline and the wait for an answer run out
  (\<open>unified-run-cleanup.worker.ts\<close>).

  The reading of an answer that names accounts is a parameter, as are the checks of criteria that other services
  own. Notifications and the scheduling texts of a case are left out.
\<close>

section \<open>Creating a run\<close>

datatype run_error =
    Run_Missing | Invalid_Request | Other_Request | Parent_Deadline | Parent_Terminal | Not_Waiting
  | Intervention_Missing | Intervention_Over string | Intervention_Expired | Browser_Controlled

record new_run =
  nr_teamId :: string
  nr_idempotencyKey :: string
  nr_taskExecutionId :: "string option"
  nr_sourceKind :: string
  nr_request :: js
  nr_criteria :: "task_criterion list"
  nr_targetCount :: nat
  nr_comparisonCount :: nat
  nr_criteriaValid :: bool
  nr_observationV2 :: bool
  nr_needs :: task_needs
  nr_environment :: js
  nr_policy :: run_policy
  nr_hasBrowser :: bool
  nr_deadlineSeconds :: int
  nr_parentDeadlineAt :: "int option"
  nr_runId :: string
  nr_attemptId :: string
  nr_taskId :: string

text \<open>A run waits in the queue until the deadline of its task, at least five minutes; its own time starts with the first claim.\<close>

definition queue_deadline :: "new_run \<Rightarrow> int \<Rightarrow> int" where
  "queue_deadline n now = (case nr_parentDeadlineAt n of
     Some d \<Rightarrow> d | None \<Rightarrow> now + max 300 (nr_deadlineSeconds n) * 1000)"

definition max_extension :: "deadline_policy \<Rightarrow> int" where
  "max_extension p = (case p of FixedDeadline \<Rightarrow> 0 | AdaptiveDeadline a \<Rightarrow> ap_maxExtensionSeconds a)"

definition new_snapshot :: "new_run \<Rightarrow> task_snapshot" where
  "new_snapshot n = \<lparr>sn_runId = nr_runId n, sn_attemptId = nr_attemptId n,
     sn_targetUrl = js_string (js_prop (nr_environment n) ''targetUrl''), sn_hasBrowser = nr_hasBrowser n,
     sn_modelCooldowns = [], sn_criteria = map browserExecutionCriterion (nr_criteria n), sn_businessReferences = [],
     sn_needs = nr_needs n, sn_coordinationPending = False\<rparr>"

definition new_run_row :: "new_run \<Rightarrow> int \<Rightarrow> run_row" where
  "new_run_row n now = \<lparr>ru_id = nr_runId n, ru_teamId = nr_teamId n, ru_idempotencyKey = nr_idempotencyKey n,
     ru_taskExecutionId = nr_taskExecutionId n, ru_sourceKind = nr_sourceKind n, ru_request = nr_request n,
     ru_lifecycle = ''QUEUED'', ru_cancelRequestedAt = None, ru_deadlineAt = queue_deadline n now,
     ru_hardDeadlineAt = queue_deadline n now, ru_environmentSnapshot = nr_environment n, ru_requestedBy = None,
     ru_executionPolicy = nr_policy n, ru_maxAttempts = nat (rp_maxAttempts (py_retry (nr_policy n))),
     ru_currentAttemptNumber = 1, ru_infrastructureRecoveryCount = 0,
     ru_executionBudgetSeconds = Some (nr_deadlineSeconds n),
     ru_executionMaxExtensionSeconds = Some (max_extension (py_deadline (nr_policy n))), ru_executionBudgetStartedAt = None,
     ru_parentDeadlineAt = nr_parentDeadlineAt n, ru_deadlineExtendedMs = 0, ru_deadlineExtensionCount = 0,
     ru_startedAt = None, ru_finishedAt = None, ru_verdict = None, ru_executionDisposition = None\<rparr>"

definition new_task_row :: "new_run \<Rightarrow> int \<Rightarrow> agent_task" where
  "new_task_row n now = \<lparr>tk_id = nr_taskId n, tk_runId = nr_runId n, tk_attemptId = nr_attemptId n, tk_status = ''PENDING'',
     tk_fencingToken = 0, tk_completionId = None, tk_recoveryStatus = None, tk_result = JNull, tk_leaseExpiresAt = None,
     tk_leaseLostAt = None, tk_resume = JUndefined, tk_executionState = None, tk_capability = ''BROWSER_VERIFICATION'',
     tk_createdAt = now, tk_deadlineAt = queue_deadline n now, tk_startedAt = None, tk_cancelRequestedAt = None,
     tk_leaseOwner = None, tk_leaseToken = None, tk_recoveryNextAttemptAt = None, tk_snapshot = new_snapshot n,
     tk_progress = no_progress\<rparr>"

definition new_attempt_row :: "new_run \<Rightarrow> attempt_row" where
  "new_attempt_row n = \<lparr>at_id = nr_attemptId n, at_runId = nr_runId n, at_number = 1, at_status = ''PENDING'',
     at_failureClass = None\<rparr>"

definition run_event_of :: "string \<Rightarrow> string \<Rightarrow> string \<Rightarrow> string \<Rightarrow> run_event" where
  "run_event_of actor teamId runId kind = \<lparr>vt_id = None, vt_teamId = teamId, vt_runId = runId, vt_taskId = [],
     vt_attemptId = [], vt_actor = actor, vt_kind = kind, vt_payload = JNull, vt_finalization = None\<rparr>"

definition invalid_request :: "new_run \<Rightarrow> bool" where
  "invalid_request n \<longleftrightarrow> \<not> nr_criteriaValid n \<or> \<not> distinct (map kr_id (nr_criteria n)) \<or> 200 < nr_targetCount n
     \<or> 100 < nr_comparisonCount n"

definition request_refused :: "new_run \<Rightarrow> int \<Rightarrow> run_error option" where
  "request_refused n now =
     (if queue_deadline n now \<le> now then Some Parent_Deadline
      else if \<not> nr_observationV2 n \<and> nd_contractVersions (nr_needs n) \<noteq> [] then Some Invalid_Request
      else None)"

text \<open>The run of an earlier request with the same key is joined to the task; a different request may not use the key.\<close>

definition repeated_request :: "rdb \<Rightarrow> new_run \<Rightarrow> run_row \<Rightarrow> run_error + rdb \<times> string" where
  "repeated_request db n r =
     (if (nr_taskExecutionId n \<noteq> None \<and> ru_taskExecutionId r \<noteq> None \<and> ru_taskExecutionId r \<noteq> nr_taskExecutionId n)
         \<or> ru_request r \<noteq> nr_request n
      then Inl Other_Request
      else Inr (if nr_taskExecutionId n \<noteq> None
        then set_runs db (\<lambda>x. ru_id x = ru_id r \<and> ru_taskExecutionId x = None)
               (\<lambda>x. x\<lparr>ru_taskExecutionId := nr_taskExecutionId n\<rparr>)
        else db, ru_id r))"

definition create_run :: "rdb \<Rightarrow> new_run \<Rightarrow> int \<Rightarrow> run_error + rdb \<times> string" where
  "create_run db n now =
     (if invalid_request n then Inl Invalid_Request
      else (case List.find (\<lambda>r. ru_teamId r = nr_teamId n \<and> ru_idempotencyKey r = nr_idempotencyKey n) (db_runs db) of
          Some r \<Rightarrow> repeated_request db n r
        | None \<Rightarrow> (case request_refused n now of
            Some e \<Rightarrow> Inl e
          | None \<Rightarrow> Inr (add_event (db\<lparr>db_runs := db_runs db @ [new_run_row n now],
              db_attempts := db_attempts db @ [new_attempt_row n], db_tasks := db_tasks db @ [new_task_row n now],
              db_executions := db_executions db @ [\<lparr>bx_runId = nr_runId n, bx_attemptId = nr_attemptId n,
                bx_runtimeSessionId = None, bx_status = ''REQUESTED'', bx_allocationToken = None, bx_createdAt = now,
                bx_input = JObj (case sn_targetUrl (new_snapshot n) of None \<Rightarrow> [] | Some u \<Rightarrow> [(''targetUrl'', JStr u)])\<rparr>]\<rparr>)
              (task_event ''CONTROL_PLANE'' (new_task_row n now) (new_run_row n now) ''run.queued'' JNull), nr_runId n))))"

section \<open>Ending a run\<close>

definition open_status :: "string \<Rightarrow> bool" where
  "open_status s \<longleftrightarrow> s \<in> {''PENDING'', ''RUNNING'', ''WAITING_HUMAN''}"

definition ended_run :: "run_row \<Rightarrow> string \<Rightarrow> int \<Rightarrow> run_row \<Rightarrow> run_row" where
  "ended_run r lifecycle now x = x\<lparr>ru_executionDisposition := Some (if ru_startedAt r \<noteq> None then ''BLOCKED'' else ''NOT_RUN''),
     ru_finishedAt := Some now, ru_lifecycle := lifecycle, ru_verdict := None\<rparr>"

definition end_tasks :: "rdb \<Rightarrow> string \<Rightarrow> string \<Rightarrow> string option \<Rightarrow> int \<Rightarrow> rdb" where
  "end_tasks db runId status failureClass now =
     set_attempts (set_tasks db (\<lambda>t. tk_runId t = runId \<and> open_status (tk_status t))
         (\<lambda>t. t\<lparr>tk_cancelRequestedAt := Some now, tk_status := status\<rparr>))
       (\<lambda>a. at_runId a = runId \<and> open_status (at_status a))
       (\<lambda>a. a\<lparr>at_status := status, at_failureClass := (if failureClass = None then at_failureClass a else failureClass)\<rparr>)"

definition end_interventions :: "rdb \<Rightarrow> (intervention_row \<Rightarrow> bool) \<Rightarrow> string \<Rightarrow> rdb" where
  "end_interventions db P status = db\<lparr>db_interventions := update_where (\<lambda>v. P v \<and> iv_status v = ''PENDING'')
     (\<lambda>v. v\<lparr>iv_status := status\<rparr>) (db_interventions db)\<rparr>"

definition cancel_run :: "rdb \<Rightarrow> string \<Rightarrow> string \<Rightarrow> int \<Rightarrow> run_error + rdb" where
  "cancel_run db teamId i now =
     (case List.find (\<lambda>r. ru_id r = i \<and> ru_teamId r = teamId) (db_runs db) of
        None \<Rightarrow> Inl Run_Missing
      | Some r \<Rightarrow>
          if terminalRun (ru_lifecycle r) then Inr db
          else let db1 = set_runs db (\<lambda>x. ru_id x = i) (\<lambda>x. (ended_run r ''CANCELLED'' now x)\<lparr>ru_cancelRequestedAt := Some now\<rparr>);
              db2 = end_interventions (end_tasks db1 i ''CANCELLED'' None now) (\<lambda>v. iv_runId v = i) ''CANCELLED'' in
            Inr (add_event db2 (run_event_of ''CONTROL_PLANE'' teamId i ''run.cancelled'')))"

definition unfinished_run :: "string \<Rightarrow> bool" where
  "unfinished_run s \<longleftrightarrow> s \<in> {''QUEUED'', ''PREPARING'', ''RUNNING'', ''WAITING_HUMAN''}"

text \<open>\<open>r\<close> is the row as it was found.\<close>

definition expire_run :: "rdb \<Rightarrow> run_row \<Rightarrow> int \<Rightarrow> rdb" where
  "expire_run db r now =
     (let over = (\<lambda>x. ru_id x = ru_id r \<and> ru_deadlineAt x \<le> now \<and> unfinished_run (ru_lifecycle x)) in
      if count_rows over (db_runs db) \<noteq> 1 then db
      else let db1 = set_runs db over (ended_run r ''TIMED_OUT'' now);
          db2 = end_interventions (end_tasks db1 (ru_id r) ''TIMED_OUT'' (Some ''TIMEOUT'') now) (\<lambda>v. iv_runId v = ru_id r) ''EXPIRED'' in
        add_event db2 (run_event_of ''CONTROL_PLANE'' (ru_teamId r) (ru_id r) ''run.timed_out''))"

definition expired_intervention :: "intervention_row \<Rightarrow> int \<Rightarrow> intervention_row \<Rightarrow> bool" where
  "expired_intervention v now w \<longleftrightarrow> iv_id w = iv_id v \<and> (case iv_expiresAt w of None \<Rightarrow> False | Some e \<Rightarrow> e \<le> now)"

definition expire_intervention :: "rdb \<Rightarrow> intervention_row \<Rightarrow> run_row \<Rightarrow> int \<Rightarrow> rdb option" where
  "expire_intervention db v r now =
     (let cancelled = hp_cancelOnTimeout (py_hitl (ru_executionPolicy r));
          waiting = (\<lambda>x. ru_id x = iv_runId v \<and> ru_lifecycle x = ''WAITING_HUMAN'');
          expired_row = (\<lambda>w. expired_intervention v now w \<and> iv_status w = ''PENDING'') in
      if count_rows waiting (db_runs db) \<noteq> 1 then Some (end_interventions db (expired_intervention v now) ''EXPIRED'')
      else if count_rows expired_row (db_interventions db) \<noteq> 1 then None
      else let db1 = set_runs db waiting (\<lambda>x. (ended_run r (if cancelled then ''CANCELLED'' else ''COMPLETED'') now x)
              \<lparr>ru_cancelRequestedAt := (if cancelled then Some now else ru_cancelRequestedAt x)\<rparr>);
          db2 = end_interventions db1 (expired_intervention v now) ''EXPIRED'';
          db3 = set_tasks db2 (\<lambda>t. tk_id t = iv_taskId v \<and> tk_status t = ''WAITING_HUMAN'')
            (\<lambda>t. t\<lparr>tk_cancelRequestedAt := (if cancelled then Some now else None),
               tk_status := (if cancelled then ''CANCELLED'' else ''FAILED'')\<rparr>);
          db4 = set_attempts db3 (\<lambda>a. at_id a = iv_attemptId v \<and> at_status a = ''WAITING_HUMAN'')
            (\<lambda>a. a\<lparr>at_failureClass := Some ''TIMEOUT'', at_status := (if cancelled then ''CANCELLED'' else ''TIMED_OUT'')\<rparr>) in
        Some (add_event db4 \<lparr>vt_id = None, vt_teamId = ru_teamId r, vt_runId = iv_runId v, vt_taskId = iv_taskId v,
          vt_attemptId = iv_attemptId v, vt_actor = ''SYSTEM'', vt_kind = ''human.intervention.expired'', vt_payload = JNull,
          vt_finalization = None\<rparr>))"

section \<open>A human's answer\<close>

text \<open>What the answer and the parent task come to: whether the accounts of the execution change and its state with the
  new ones, the answer as stored for the agent, and of the parent whether it is over and its refreshed deadline.\<close>

record resolution_input =
  rs_valid :: bool
  rs_newState :: "execution_state option"
  rs_hadCriteria :: bool
  rs_resume :: js
  rs_parent :: "(bool \<times> int) option"

definition default_budget_seconds :: int where
  "default_budget_seconds = 1800"

definition resumed_budget :: "run_row \<Rightarrow> int" where
  "resumed_budget r = (if ru_sourceKind r = ''TASK_CASE'' then max default_budget_seconds (coalesce (ru_executionBudgetSeconds r) 0)
     else coalesce (ru_executionBudgetSeconds r) default_budget_seconds)"

definition resumed_extension :: "run_row \<Rightarrow> int" where
  "resumed_extension r = (case py_deadline (ru_executionPolicy r) of
     FixedDeadline \<Rightarrow> 0 | AdaptiveDeadline a \<Rightarrow> coalesce (ru_executionMaxExtensionSeconds r) (ap_maxExtensionSeconds a))"

definition resumed_run :: "run_row \<Rightarrow> int \<Rightarrow> int \<Rightarrow> int \<Rightarrow> run_row \<Rightarrow> run_row" where
  "resumed_run r deadlineAt hardDeadlineAt now x =
     x\<lparr>ru_executionDisposition := None, ru_deadlineAt := deadlineAt, ru_executionBudgetStartedAt := Some now,
       ru_executionBudgetSeconds := Some (resumed_budget r), ru_executionMaxExtensionSeconds := Some (resumed_extension r),
       ru_deadlineExtensionCount := 0, ru_deadlineExtendedMs := 0, ru_finishedAt := None, ru_hardDeadlineAt := hardDeadlineAt,
       ru_lifecycle := ''QUEUED'', ru_verdict := None\<rparr>"

definition resumed_task :: "resolution_input \<Rightarrow> int \<Rightarrow> agent_task \<Rightarrow> agent_task" where
  "resumed_task input deadlineAt t =
     t\<lparr>tk_completionId := None, tk_deadlineAt := deadlineAt, tk_result := JNull, tk_resume := rs_resume input,
       tk_executionState := (if rs_newState input = None then tk_executionState t else rs_newState input),
       tk_snapshot := (tk_snapshot t)\<lparr>sn_coordinationPending := (sn_coordinationPending (tk_snapshot t) \<or> rs_newState input \<noteq> None)\<rparr>,
       tk_progress := (tk_progress t)\<lparr>pg_lastDeadlineExtensionOperationKey := None,
         pg_lastDeadlineExtensionProgressKey := None\<rparr>,
       tk_status := ''PENDING''\<rparr>"

definition resumable :: "rdb \<Rightarrow> intervention_row \<Rightarrow> run_row \<Rightarrow> resolution_input \<Rightarrow> int \<Rightarrow> run_error option" where
  "resumable db v r input now =
     (if \<not> rs_valid input then Some Invalid_Request
      else if ru_lifecycle r \<noteq> ''WAITING_HUMAN'' then Some Not_Waiting
      else if (case iv_expiresAt v of None \<Rightarrow> False | Some e \<Rightarrow> e \<le> now) then Some Intervention_Expired
      else if (case iv_controlLeaseExpiresAt v of None \<Rightarrow> False | Some e \<Rightarrow> now < e) then Some Browser_Controlled
      else if (case rs_parent input of None \<Rightarrow> False | Some (over, _) \<Rightarrow> over) then Some Parent_Terminal
      else if ru_cancelRequestedAt r \<noteq> None then Some Not_Waiting
      else None)"

text \<open>The browser stays with the task when it can still be used; a lost one is left to the recovery of its lease.\<close>

definition renew_session :: "rdb \<Rightarrow> agent_task \<Rightarrow> int \<Rightarrow> int \<Rightarrow> rdb" where
  "renew_session db t deadlineAt now = (case bound_session_id db t of
     None \<Rightarrow> db
   | Some sid \<Rightarrow> set_sessions db (\<lambda>s. ss_id s = sid \<and> ss_status s = ''ACTIVE'' \<and> ss_ownerTaskId s = Some (tk_id t)
         \<and> ss_ownerFencingToken s = Some (tk_fencingToken t) \<and> now < ss_leaseExpiresAt s \<and> ss_quarantinedAt s = None
         \<and> ss_closureVerifiedAt s = None \<and> ss_closedAt s = None)
       (\<lambda>s. s\<lparr>ss_leaseExpiresAt := deadlineAt, ss_executionPermitExpiresAt := Some (min deadlineAt (now + 120000))\<rparr>))"

definition resume ::
  "rdb \<Rightarrow> intervention_row \<Rightarrow> agent_task \<Rightarrow> run_row \<Rightarrow> resolution_input \<Rightarrow> int \<Rightarrow> int \<Rightarrow> int \<Rightarrow> rdb" where
  "resume db v t r input deadlineAt hardDeadlineAt now =
     (let db1 = (case rs_parent input of
            Some (_, refreshed) \<Rightarrow> set_runs db (\<lambda>x. ru_taskExecutionId x \<noteq> None \<and> ru_taskExecutionId x = ru_taskExecutionId r)
              (\<lambda>x. x\<lparr>ru_parentDeadlineAt := Some refreshed\<rparr>)
          | None \<Rightarrow> db);
          db2 = set_runs db1 (\<lambda>x. ru_id x = ru_id r) (resumed_run r deadlineAt hardDeadlineAt now);
          db3 = end_interventions db2 (\<lambda>w. iv_id w = iv_id v) ''RESOLVED'';
          db4 = (if rs_newState input \<noteq> None \<and> rs_hadCriteria input
            then db3\<lparr>db_results := update_where (\<lambda>w. cw_attemptId w = iv_attemptId v \<and> cw_runId w = ru_id r)
                   (\<lambda>w. w\<lparr>cw_status := V_INCONCLUSIVE\<rparr>) (db_results db3)\<rparr> else db3);
          db5 = set_tasks db4 (\<lambda>x. tk_id x = iv_taskId v) (resumed_task input deadlineAt);
          db6 = set_attempts db5 (\<lambda>a. at_id a = iv_attemptId v) (\<lambda>a. a\<lparr>at_failureClass := None, at_status := ''PENDING''\<rparr>) in
      renew_session (add_event db6 (task_event ''HUMAN'' t r ''human.intervention.resolved'' JNull)) t deadlineAt now)"

definition resolveIntervention ::
  "rdb \<Rightarrow> string \<Rightarrow> string \<Rightarrow> string \<Rightarrow> resolution_input \<Rightarrow> int \<Rightarrow> run_error + rdb" where
  "resolveIntervention db teamId runId i input now =
     (case List.find (\<lambda>v. iv_id v = i \<and> iv_runId v = runId) (db_interventions db) of
        None \<Rightarrow> Inl Intervention_Missing
      | Some v \<Rightarrow> (case (find_by ru_id runId (db_runs db), task_of db (iv_taskId v)) of
          (Some r, Some t) \<Rightarrow>
            if ru_teamId r \<noteq> teamId then Inl Intervention_Missing
            else if iv_status v = ''RESOLVED'' then Inr db
            else if iv_status v \<noteq> ''PENDING'' then Inl (Intervention_Over (iv_status v))
            else (case resumable db v r input now of
                Some e \<Rightarrow> Inl e
              | None \<Rightarrow> (case initializeExecutionBudget now (resumed_budget r) (resumed_extension r) (map_option snd (rs_parent input)) of
                  None \<Rightarrow> Inl Parent_Deadline
                | Some (deadlineAt, hardDeadlineAt) \<Rightarrow> Inr (resume db v t r input deadlineAt hardDeadlineAt now)))
        | _ \<Rightarrow> Inl Intervention_Missing))"

end
