(* ===== verification/BrowserAdmission.thy ===== *)
theory BrowserAdmission
  imports RunLifecycle
begin

text \<open>
  Browsers for queued runs, \<open>apps/api/src/verification/browser-admission.service.ts\<close>: the order in which executions
  are tried, one that gets no browser (\<open>fail\<close>), and the recovery of a browser whose startup permit ran out before a
  worker claimed the task (\<open>recoverStartupExecutions\<close>). The choice of a runtime and the retry delays are left out.
\<close>

section \<open>The order of admission\<close>

record waiting_execution =
  we_id :: string
  we_runtimeId :: "string option"
  we_taskExecutionId :: "string option"

definition grouped :: "('x \<Rightarrow> string) \<Rightarrow> 'x list \<Rightarrow> (string \<times> 'x list) list" where
  "grouped key xs = foldl (\<lambda>m x. jmap_set m (key x) (coalesce (jmap_get m (key x)) [] @ [x])) [] xs"

text \<open>One item from every queue in turn, until all are empty.\<close>

function rounds :: "'x list list \<Rightarrow> 'x list" where
  "rounds qs = (if qs = [] then [] else concat (map (take 1) qs) @ rounds (filter (\<lambda>q. q \<noteq> []) (map (drop 1) qs)))"
  by pat_completeness auto
termination
proof (relation "measure (\<lambda>qs. sum_list (map length qs) + length qs)")
  fix qs :: "'x list list"
  assume "qs \<noteq> []"
  have "sum_list (map length (filter (\<lambda>q. q \<noteq> []) (map (drop 1) xs))) + length (filter (\<lambda>q. q \<noteq> []) (map (drop 1) xs))
      \<le> sum_list (map length xs)" for xs :: "'x list list"
  proof (induction xs)
    case (Cons q xs)
    then show ?case by (cases q) auto
  qed simp
  from this [of qs] \<open>qs \<noteq> []\<close>
  show "(filter (\<lambda>q. q \<noteq> []) (map (drop 1) qs), qs) \<in> measure (\<lambda>qs. sum_list (map length qs) + length qs)"
    by (cases qs) auto
qed simp

declare rounds.simps [simp del]

definition queue_key :: "waiting_execution \<Rightarrow> string" where
  "queue_key x = (case we_runtimeId x of Some r \<Rightarrow> ''runtime:'' @ r | None \<Rightarrow> ''pool:flexible'')"

definition task_key :: "waiting_execution \<Rightarrow> string" where
  "task_key x = coalesce (we_taskExecutionId x) (we_id x)"

definition fairAdmissionOrder :: "waiting_execution list \<Rightarrow> waiting_execution list" where
  "fairAdmissionOrder items =
     rounds (map (\<lambda>q. rounds (map snd (grouped task_key (snd q)))) (grouped queue_key items))"

section \<open>No browser\<close>

definition admitted_run :: "rdb \<Rightarrow> string \<Rightarrow> bool" where
  "admitted_run db runId \<longleftrightarrow> (case find_by ru_id runId (db_runs db) of
     None \<Rightarrow> False | Some r \<Rightarrow> ru_cancelRequestedAt r = None \<and> live_run (ru_lifecycle r))"

text \<open>\<open>x\<close> is the execution as it was claimed for allocation.\<close>

definition fail_admission :: "rdb \<Rightarrow> browser_execution \<Rightarrow> string \<Rightarrow> int \<Rightarrow> rdb" where
  "fail_admission db x teamId now =
     (let claimed = (\<lambda>y. bx_attemptId y = bx_attemptId x \<and> bx_allocationToken y = bx_allocationToken x
            \<and> bx_status y \<in> {''ALLOCATING'', ''WAITING_CAPACITY''} \<and> admitted_run db (bx_runId y)) in
      if count_rows claimed (db_executions db) \<noteq> 1 then db
      else let db1 = set_executions db claimed (\<lambda>y. y\<lparr>bx_status := ''FAILED''\<rparr>);
          db2 = set_tasks db1 (\<lambda>t. tk_attemptId t = bx_attemptId x \<and> tk_status t = ''PENDING'') (\<lambda>t. t\<lparr>tk_status := ''FAILED''\<rparr>);
          db3 = set_attempts db2 (\<lambda>a. at_id a = bx_attemptId x \<and> at_status a = ''PENDING'')
            (\<lambda>a. a\<lparr>at_failureClass := Some ''BROWSER_RUNTIME'', at_status := ''FAILED''\<rparr>);
          db4 = set_runs db3 (\<lambda>r. ru_id r = bx_runId x \<and> live_run (ru_lifecycle r))
            (\<lambda>r. r\<lparr>ru_executionDisposition := Some ''BROWSER_UNAVAILABLE'', ru_finishedAt := Some now,
               ru_lifecycle := ''COMPLETED'', ru_verdict := None\<rparr>) in
        add_event db4 ((run_event_of ''CONTROL_PLANE'' teamId (bx_runId x) ''browser.admission.failed'')
          \<lparr>vt_attemptId := bx_attemptId x\<rparr>))"

section \<open>A browser lost before its first use\<close>

definition unclaimed_task :: "agent_task \<Rightarrow> bool" where
  "unclaimed_task t \<longleftrightarrow> tk_status t = ''PENDING'' \<and> tk_startedAt t = None \<and> tk_fencingToken t = 0"

definition startup_due :: "agent_task \<Rightarrow> int \<Rightarrow> bool" where
  "startup_due t now \<longleftrightarrow> unclaimed_task t
     \<and> (case tk_recoveryNextAttemptAt t of None \<Rightarrow> True | Some e \<Rightarrow> e \<le> now)"

definition startup_healthy :: "session_row \<Rightarrow> int \<Rightarrow> bool" where
  "startup_healthy s now \<longleftrightarrow> ss_status s \<in> {''ACTIVE'', ''OPENING'', ''HUMAN_CONTROL''} \<and> ss_quarantinedAt s = None
     \<and> ss_closureVerifiedAt s = None \<and> now < ss_leaseExpiresAt s
     \<and> (case (if ss_status s = ''HUMAN_CONTROL'' then ss_humanControlExpiresAt s else ss_executionPermitExpiresAt s) of
          None \<Rightarrow> False | Some e \<Rightarrow> now < e)"

datatype startup_step = Not_Reserved | Healthy_Again | Needs_Operator | Reserved

text \<open>The first transaction: the task waits for the closure of \<open>sid\<close>, the session it was found with; the browser is
  quarantined unless it is well again or an operator is needed.\<close>

definition reserve_startup :: "rdb \<Rightarrow> agent_task \<Rightarrow> string \<Rightarrow> int \<Rightarrow> rdb \<times> startup_step" where
  "reserve_startup db t sid now =
     (let due = (\<lambda>x. tk_id x = tk_id t \<and> startup_due x now); retryAt = now + 90000;
          closing_task = (\<lambda>x. x\<lparr>tk_recoveryStatus := Some ''STARTUP_CLOSING'', tk_recoveryNextAttemptAt := Some retryAt\<rparr>);
          reset = (\<lambda>d. set_tasks d (\<lambda>x. tk_id x = tk_id t) (\<lambda>x. x\<lparr>tk_recoveryStatus := None, tk_recoveryNextAttemptAt := None\<rparr>)) in
      if count_rows due (db_tasks db) \<noteq> 1 then (db, Not_Reserved)
      else let db1 = set_tasks db due closing_task in
        (case session_of db1 sid of
           None \<Rightarrow> (reset db1, Healthy_Again)
         | Some s \<Rightarrow>
             if bound_session_id db1 t \<noteq> Some sid \<or> truthy (ss_ownerTaskId s) \<or> startup_healthy s now
             then (reset db1, Healthy_Again)
             else if (case recovery_for db1 s of None \<Rightarrow> False | Some q \<Rightarrow> rv_closureState q = C_NEEDS_OPERATOR)
             then (db1, Needs_Operator)
             else (set_executions (quarantineSession db1 sid ''STARTUP_PERMIT_EXPIRED'' now)
                 (\<lambda>x. bx_attemptId x = tk_attemptId t \<and> bx_runtimeSessionId x = Some sid) (\<lambda>x. x\<lparr>bx_status := ''LOST''\<rparr>), Reserved)))"

text \<open>The second transaction, after the closure: the execution waits for another browser. \<open>retryAt\<close> is the reservation.\<close>

definition recover_startup :: "recovery_env \<Rightarrow> rdb \<Rightarrow> agent_task \<Rightarrow> string \<Rightarrow> int \<Rightarrow> int \<Rightarrow> string \<Rightarrow> rdb" where
  "recover_startup env db t sid retryAt now token = (case session_of db sid of
     None \<Rightarrow> db
   | Some s \<Rightarrow>
       let reserved = (\<lambda>x. tk_id x = tk_id t \<and> unclaimed_task x \<and> tk_recoveryStatus x = Some ''STARTUP_CLOSING''
             \<and> tk_recoveryNextAttemptAt x = Some retryAt) in
       if \<not> is_verified s \<or> truthy (ss_ownerTaskId s) \<or> count_rows reserved (db_tasks db) \<noteq> 1 then db
       else let db1 = set_tasks db reserved (\<lambda>x. x\<lparr>tk_recoveryStatus := None, tk_recoveryNextAttemptAt := None\<rparr>);
           db2 = fst (releaseVerifiedSessionResources env db1 sid now);
           bound = (\<lambda>x. bx_attemptId x = tk_attemptId t \<and> bx_runtimeSessionId x = Some sid \<and> admitted_run db2 (bx_runId x)
             \<and> (case find_by ru_id (bx_runId x) (db_runs db2) of None \<Rightarrow> False | Some r \<Rightarrow> now < ru_deadlineAt r)) in
         if count_rows bound (db_executions db2) \<noteq> 1 then db2
         else (case run_of db2 t of
             None \<Rightarrow> db2
           | Some r \<Rightarrow> add_event (set_executions db2 bound
                 (\<lambda>x. x\<lparr>bx_status := ''WAITING_CAPACITY'', bx_allocationToken := Some token\<rparr>))
               (task_event ''CONTROL_PLANE'' t r ''browser.startup_recovery.ready'' JNull)))"

end
