(* ===== verification/TaskRows.thy ===== *)
theory TaskRows
  imports RecoverySafety BrowserAdmission
begin

text \<open>
  What a transaction on tasks and runs keeps of each row (\<open>rows_kept\<close>, \<open>quiet_rows\<close>), the invariant of the tables
  of tasks, attempts, runs and interventions (\<open>control_inv\<close>: a run has one open task at most, its attempts are
  numbered in order up to the limit, a pending intervention has a task that waits for it), and that taking a lost
  task back keeps it, a next attempt included.
\<close>

section \<open>Tables\<close>

lemma set_tasks_tables [simp]:
  "db_tasks (set_tasks db P f) = update_where P f (db_tasks db)" "db_attempts (set_tasks db P f) = db_attempts db"
  "db_runs (set_tasks db P f) = db_runs db" "db_interventions (set_tasks db P f) = db_interventions db"
  "db_sessions (set_tasks db P f) = db_sessions db" "db_recoveries (set_tasks db P f) = db_recoveries db"
  "db_evidence (set_tasks db P f) = db_evidence db" "db_executions (set_tasks db P f) = db_executions db"
  "db_leases (set_tasks db P f) = db_leases db" "db_runEvidence (set_tasks db P f) = db_runEvidence db"
  "db_commands (set_tasks db P f) = db_commands db" "db_runEvents (set_tasks db P f) = db_runEvents db"
  by (simp_all add: set_tasks_def)

lemma set_attempts_tables [simp]:
  "db_tasks (set_attempts db P f) = db_tasks db" "db_attempts (set_attempts db P f) = update_where P f (db_attempts db)"
  "db_runs (set_attempts db P f) = db_runs db" "db_interventions (set_attempts db P f) = db_interventions db"
  "db_sessions (set_attempts db P f) = db_sessions db" "db_recoveries (set_attempts db P f) = db_recoveries db"
  "db_evidence (set_attempts db P f) = db_evidence db" "db_executions (set_attempts db P f) = db_executions db"
  "db_leases (set_attempts db P f) = db_leases db" "db_runEvents (set_attempts db P f) = db_runEvents db"
  by (simp_all add: set_attempts_def)

lemma set_runs_tables [simp]:
  "db_tasks (set_runs db P f) = db_tasks db" "db_attempts (set_runs db P f) = db_attempts db"
  "db_runs (set_runs db P f) = update_where P f (db_runs db)" "db_interventions (set_runs db P f) = db_interventions db"
  "db_sessions (set_runs db P f) = db_sessions db" "db_recoveries (set_runs db P f) = db_recoveries db"
  "db_evidence (set_runs db P f) = db_evidence db" "db_executions (set_runs db P f) = db_executions db"
  "db_leases (set_runs db P f) = db_leases db" "db_runEvents (set_runs db P f) = db_runEvents db"
  by (simp_all add: set_runs_def)

lemma set_executions_tables [simp]:
  "db_tasks (set_executions db P f) = db_tasks db" "db_attempts (set_executions db P f) = db_attempts db"
  "db_runs (set_executions db P f) = db_runs db" "db_interventions (set_executions db P f) = db_interventions db"
  "db_sessions (set_executions db P f) = db_sessions db" "db_recoveries (set_executions db P f) = db_recoveries db"
  "db_evidence (set_executions db P f) = db_evidence db" "db_leases (set_executions db P f) = db_leases db"
  by (simp_all add: set_executions_def)

lemma add_event_tables [simp]:
  "db_tasks (add_event db e) = db_tasks db" "db_attempts (add_event db e) = db_attempts db"
  "db_runs (add_event db e) = db_runs db" "db_interventions (add_event db e) = db_interventions db"
  "db_sessions (add_event db e) = db_sessions db" "db_recoveries (add_event db e) = db_recoveries db"
  "db_evidence (add_event db e) = db_evidence db" "db_executions (add_event db e) = db_executions db"
  "db_leases (add_event db e) = db_leases db"
  by (simp_all add: add_event_def)

lemma set_sessions_tables [simp]:
  "db_tasks (set_sessions db P f) = db_tasks db" "db_attempts (set_sessions db P f) = db_attempts db"
  "db_runs (set_sessions db P f) = db_runs db" "db_interventions (set_sessions db P f) = db_interventions db"
  "db_sessions (set_sessions db P f) = update_where P f (db_sessions db)" "db_recoveries (set_sessions db P f) = db_recoveries db"
  "db_evidence (set_sessions db P f) = db_evidence db" "db_executions (set_sessions db P f) = db_executions db"
  "db_leases (set_sessions db P f) = db_leases db"
  by (simp_all add: set_sessions_def)

lemma end_interventions_tables [simp]:
  "db_tasks (end_interventions db P i) = db_tasks db" "db_attempts (end_interventions db P i) = db_attempts db"
  "db_runs (end_interventions db P i) = db_runs db"
  "db_sessions (end_interventions db P i) = db_sessions db" "db_recoveries (end_interventions db P i) = db_recoveries db"
  "db_evidence (end_interventions db P i) = db_evidence db" "db_executions (end_interventions db P i) = db_executions db"
  "db_leases (end_interventions db P i) = db_leases db"
  by (simp_all add: end_interventions_def)

lemma end_tasks_tables [simp]:
  "db_runs (end_tasks db i st fc now) = db_runs db" "db_interventions (end_tasks db i st fc now) = db_interventions db"
  "db_sessions (end_tasks db i st fc now) = db_sessions db" "db_recoveries (end_tasks db i st fc now) = db_recoveries db"
  "db_evidence (end_tasks db i st fc now) = db_evidence db" "db_executions (end_tasks db i st fc now) = db_executions db"
  "db_leases (end_tasks db i st fc now) = db_leases db"
  by (simp_all add: end_tasks_def)

section \<open>Rows\<close>

definition task_row_id :: "agent_task \<Rightarrow> string \<times> string \<times> string" where
  "task_row_id t = (tk_id t, tk_runId t, tk_attemptId t)"

text \<open>A task that will still act: it can be claimed, is worked on, waits for a human or for its recovery.\<close>

definition open_task :: "agent_task \<Rightarrow> bool" where
  "open_task t \<longleftrightarrow> open_status (tk_status t) \<or> awaiting_recovery t"

definition task_ok :: "agent_task \<Rightarrow> bool" where
  "task_ok t \<longleftrightarrow> (tk_status t \<in> {''PENDING'', ''RUNNING''} \<longrightarrow> tk_completionId t = None)
     \<and> (awaiting_recovery t \<longrightarrow> tk_status t = ''FAILED'' \<and> tk_completionId t = None)
     \<and> (tk_status t \<in> {''PENDING'', ''WAITING_HUMAN''} \<longrightarrow> tk_leaseOwner t = None)
     \<and> tk_completionId t \<noteq> Some []"

text \<open>The fence of a task never falls; while it stays the lease is the same or given up. A task that is over keeps
  its status and an accepted completion its result.\<close>

definition task_later :: "agent_task \<Rightarrow> agent_task \<Rightarrow> bool" where
  "task_later t t' \<longleftrightarrow> task_row_id t' = task_row_id t \<and> tk_fencingToken t \<le> tk_fencingToken t'
     \<and> (tk_fencingToken t' = tk_fencingToken t \<longrightarrow> tk_leaseOwner t' = None
          \<or> tk_leaseOwner t' = tk_leaseOwner t \<and> tk_leaseToken t' = tk_leaseToken t)
     \<and> (terminalAgent (tk_status t) \<longrightarrow> tk_status t' = tk_status t \<and> tk_completionId t' = tk_completionId t
          \<and> (tk_completionId t \<noteq> None \<longrightarrow> tk_result t' = tk_result t))"

definition row_step :: "agent_task \<Rightarrow> agent_task \<Rightarrow> bool" where
  "row_step t t' \<longleftrightarrow> (task_ok t \<longrightarrow> task_ok t' \<and> task_later t t' \<and> (open_task t' \<longrightarrow> open_task t))"

text \<open>A task that waits for a human goes on waiting.\<close>

definition keeps_waiting :: "agent_task \<Rightarrow> agent_task \<Rightarrow> bool" where
  "keeps_waiting t t' \<longleftrightarrow> task_row_id t' = task_row_id t \<and> (tk_status t = ''WAITING_HUMAN'' \<longrightarrow> tk_status t' = ''WAITING_HUMAN'')"

definition kept_attempt :: "attempt_row \<Rightarrow> attempt_row \<Rightarrow> bool" where
  "kept_attempt a a' \<longleftrightarrow> at_id a' = at_id a \<and> at_runId a' = at_runId a \<and> at_number a' = at_number a"

definition kept_run :: "run_row \<Rightarrow> run_row \<Rightarrow> bool" where
  "kept_run r r' \<longleftrightarrow> ru_id r' = ru_id r \<and> ru_teamId r' = ru_teamId r \<and> ru_executionPolicy r' = ru_executionPolicy r
     \<and> ru_maxAttempts r' = ru_maxAttempts r \<and> ru_currentAttemptNumber r' = ru_currentAttemptNumber r
     \<and> (ru_infrastructureRecoveryCount r \<le> 1 \<longrightarrow> ru_infrastructureRecoveryCount r' \<le> 1)"

definition rows_kept :: "rdb \<Rightarrow> rdb \<Rightarrow> bool" where
  "rows_kept db db' \<longleftrightarrow> list_all2 row_step (db_tasks db) (db_tasks db')
     \<and> list_all2 kept_attempt (db_attempts db) (db_attempts db') \<and> list_all2 kept_run (db_runs db) (db_runs db')"

lemma task_later_refl [simp]: "task_later t t"
  by (simp add: task_later_def)

lemma row_step_refl [simp]: "row_step t t"
  by (simp add: row_step_def)

lemma kept_refl [simp]: "kept_attempt a a" "kept_run r r" "keeps_waiting t t"
  by (simp_all add: kept_attempt_def kept_run_def keeps_waiting_def)

lemma terminal_not_open: "terminalAgent s \<Longrightarrow> \<not> open_status s"
  by (auto simp: terminalAgent_def open_status_def)

lemma task_later_trans: "task_later a b \<Longrightarrow> task_later b c \<Longrightarrow> task_later a c"
  unfolding task_later_def by auto

lemma row_step_trans: "row_step a b \<Longrightarrow> row_step b c \<Longrightarrow> row_step a c"
  unfolding row_step_def using task_later_trans by blast

lemma rows_kept_refl [simp]: "rows_kept db db"
  by (simp add: rows_kept_def list_all2_refl)

lemma rows_kept_trans: "rows_kept a b \<Longrightarrow> rows_kept b c \<Longrightarrow> rows_kept a c"
  unfolding rows_kept_def
  by (auto intro: list_all2_trans [of row_step row_step row_step, OF row_step_trans]
      list_all2_trans [of kept_attempt kept_attempt kept_attempt] list_all2_trans [of kept_run kept_run kept_run]
      simp: kept_attempt_def kept_run_def)

lemma rows_keptI:
  assumes "list_all2 row_step (db_tasks db) (db_tasks db')" "list_all2 kept_attempt (db_attempts db) (db_attempts db')"
    "list_all2 kept_run (db_runs db) (db_runs db')"
  shows "rows_kept db db'"
  using assms by (simp add: rows_kept_def)

lemmas rows_updated = list_all2_update_where list_all2_refl

text \<open>What a transaction does to the rows of tasks and runs when it neither opens nor resumes one.\<close>

definition quiet_rows :: "rdb \<Rightarrow> rdb \<Rightarrow> bool" where
  "quiet_rows db db' \<longleftrightarrow> rows_kept db db' \<and> list_all2 keeps_waiting (db_tasks db) (db_tasks db')
     \<and> db_interventions db' = db_interventions db"

lemma quiet_rows_refl [simp]: "quiet_rows db db"
  by (simp add: quiet_rows_def list_all2_refl)

lemma quiet_rows_trans: "quiet_rows a b \<Longrightarrow> quiet_rows b c \<Longrightarrow> quiet_rows a c"
  unfolding quiet_rows_def using rows_kept_trans
  by (auto intro: list_all2_trans [of keeps_waiting keeps_waiting keeps_waiting] simp: keeps_waiting_def)

lemma quiet_rows_same:
  "db_tasks db' = db_tasks db \<Longrightarrow> db_attempts db' = db_attempts db \<Longrightarrow> db_runs db' = db_runs db \<Longrightarrow>
   db_interventions db' = db_interventions db \<Longrightarrow> quiet_rows db db'"
  by (simp add: quiet_rows_def rows_kept_def list_all2_refl)

lemma quiet_set_tasks:
  "(\<And>t. t \<in> set (db_tasks db) \<Longrightarrow> P t \<Longrightarrow> row_step t (f t) \<and> keeps_waiting t (f t)) \<Longrightarrow> quiet_rows db (set_tasks db P f)"
  unfolding quiet_rows_def by (auto intro!: rows_keptI rows_updated)

lemma quiet_set_attempts: "(\<And>a. P a \<Longrightarrow> kept_attempt a (f a)) \<Longrightarrow> quiet_rows db (set_attempts db P f)"
  unfolding quiet_rows_def by (auto intro!: rows_keptI rows_updated)

lemma quiet_set_runs:
  "(\<And>r. r \<in> set (db_runs db) \<Longrightarrow> P r \<Longrightarrow> kept_run r (f r)) \<Longrightarrow> quiet_rows db (set_runs db P f)"
  unfolding quiet_rows_def by (auto intro!: rows_keptI rows_updated)

lemma quiet_event: "quiet_rows db (add_event db e)" "quiet_rows db (set_sessions db Q g)" "quiet_rows db (set_executions db R h)"
  by (rule quiet_rows_same; simp)+

section \<open>Losing a lease\<close>

lemma lost_row: "lease_expired x now \<or> tk_status x = ''PENDING'' \<Longrightarrow> row_step x (lost_task now h x)"
  by (auto simp: row_step_def task_ok_def task_later_def lost_task_def task_row_id_def open_task_def awaiting_recovery_def
      open_status_def lease_expired_def terminalAgent_def)

lemma lose_lease_rows: "rows_kept db (lose_lease db t now)"
proof -
  define h where "h = (tk_status t = ''PENDING'')"
  have "row_step x (lost_task now h x)" if "if h then unclaimableHumanResume db x now else lease_expired x now" for x
    using that by (intro lost_row) (auto simp: unclaimableHumanResume_def split: if_splits)
  then show ?thesis
    unfolding lose_lease_def Let_def h_def [symmetric]
    by (intro rows_keptI) (auto simp: kept_attempt_def intro!: rows_updated split: option.split bool.split)
qed

lemma lose_lease_waiting: "list_all2 keeps_waiting (db_tasks db) (db_tasks (lose_lease db t now))"
  unfolding lose_lease_def Let_def
  by (auto simp: keeps_waiting_def lost_task_def task_row_id_def unclaimableHumanResume_def lease_expired_def
      split: option.split bool.split if_splits intro!: rows_updated)

lemma lose_lease_interventions: "db_interventions (lose_lease db t now) = db_interventions db"
  by (auto simp: lose_lease_def Let_def split: option.split bool.split)

lemma lose_lease_keeps: "keeps db (lose_lease db t now)"
  unfolding lose_lease_def Let_def
  by (auto simp: keeps_def list_all2_refl same_session_def is_verified_def split: option.split bool.split
      intro!: list_all2_update_where)

lemma lose_lease_quiet: "quiet_rows db (lose_lease db t now)"
  by (simp add: quiet_rows_def lose_lease_rows lose_lease_waiting lose_lease_interventions)

lemma defer_rows: "rows_kept db (defer_recovery db t now)"
  unfolding defer_recovery_def Let_def
  by (rule rows_keptI) (auto intro!: rows_updated simp: row_step_def task_ok_def task_later_def task_row_id_def open_task_def
      awaiting_recovery_def)

lemma defer_tables [simp]:
  "db_interventions (defer_recovery db t now) = db_interventions db" "db_sessions (defer_recovery db t now) = db_sessions db"
  "db_recoveries (defer_recovery db t now) = db_recoveries db" "db_evidence (defer_recovery db t now) = db_evidence db"
  by (simp_all add: defer_recovery_def Let_def)

lemma defer_waiting: "list_all2 keeps_waiting (db_tasks db) (db_tasks (defer_recovery db t now))"
  unfolding defer_recovery_def Let_def
  by (auto simp: keeps_waiting_def task_row_id_def intro!: list_all2_update_where)

lemma defer_quiet_rows: "quiet_rows db (defer_recovery db t now)"
  by (simp add: quiet_rows_def defer_rows defer_waiting)

section \<open>Releasing the resources of a session\<close>

lemma settle_owner_rows:
  "rows_kept db (settle_owner db s b)" "list_all2 keeps_waiting (db_tasks db) (db_tasks (settle_owner db s b))"
  "db_interventions (settle_owner db s b) = db_interventions db"
proof -
  have row: "row_step x (x\<lparr>tk_recoveryStatus := Some i\<rparr>) \<and> keeps_waiting x (x\<lparr>tk_recoveryStatus := Some i\<rparr>)"
    if "i \<in> {''WRITE_OUTCOME_UNKNOWN'', ''RESOLVED''}" for x i
    using that by (auto simp: row_step_def task_ok_def task_later_def task_row_id_def open_task_def awaiting_recovery_def keeps_waiting_def)
  show "rows_kept db (settle_owner db s b)" "list_all2 keeps_waiting (db_tasks db) (db_tasks (settle_owner db s b))"
    "db_interventions (settle_owner db s b) = db_interventions db"
    unfolding settle_owner_def Let_def
    by (auto simp: row split: option.split intro!: rows_keptI rows_updated)
qed

lemma settle_owner_quiet: "quiet_rows db (settle_owner db s b)"
  using settle_owner_rows by (simp add: quiet_rows_def)

lemma emit_rows [simp]:
  "db_tasks (emitRecoveryChanged db r) = db_tasks db" "db_attempts (emitRecoveryChanged db r) = db_attempts db"
  "db_runs (emitRecoveryChanged db r) = db_runs db" "db_interventions (emitRecoveryChanged db r) = db_interventions db"
  by (simp_all add: emitRecoveryChanged_def Let_def)

lemma refresh_rows:
  "db_tasks (fst (refreshRecoveryWriteOutcome env db s r now)) = db_tasks db"
  "db_attempts (fst (refreshRecoveryWriteOutcome env db s r now)) = db_attempts db"
  "db_runs (fst (refreshRecoveryWriteOutcome env db s r now)) = db_runs db"
  "db_interventions (fst (refreshRecoveryWriteOutcome env db s r now)) = db_interventions db"
  by (simp_all add: refreshRecoveryWriteOutcome_def Let_def split: option.split)

lemma release_quiet_rows: "quiet_rows db (fst (releaseVerifiedSessionResources env db sid now))"
proof (cases "session_of db sid")
  case None
  then show ?thesis by (simp add: releaseVerifiedSessionResources_def)
next
  case s: (Some s)
  show ?thesis
  proof (cases "verifiedRecovery env db s")
    case None
    then show ?thesis using s by (simp add: releaseVerifiedSessionResources_def)
  next
    case (Some r0)
    obtain db1 r where ref: "refreshRecoveryWriteOutcome env db s r0 now = (db1, r)" by fastforce
    define db2 where "db2 = db1\<lparr>db_slots := delete_epoch s (db_slots db1), db_profileLeases := delete_epoch s (db_profileLeases db1),
        db_humanLeases := delete_where (\<lambda>i. i = sid) (db_humanLeases db1),
        db_leases := release_leases sid (writeSettled (rv_writeOutcomeState r)) (db_leases db1)\<rparr>"
    have q2: "quiet_rows db db2"
      using refresh_rows [of env db s r0 now] unfolding ref by (intro quiet_rows_same) (simp_all add: db2_def)
    obtain P f where P: "fst (releaseVerifiedSessionResources env db sid now) =
        set_sessions (settle_owner db2 s (writeSettled (rv_writeOutcomeState r))) P f"
      unfolding releaseVerifiedSessionResources_def s Some option.case ref prod.case Let_def db2_def [symmetric] by auto
    have "quiet_rows db2 (set_sessions (settle_owner db2 s (writeSettled (rv_writeOutcomeState r))) P f)"
      by (rule quiet_rows_trans [OF settle_owner_quiet quiet_rows_same]) simp_all
    then show ?thesis using quiet_rows_trans [OF q2] by (simp add: P)
  qed
qed

lemma release_data_quiet_rows: "quiet_rows db (releaseCompletedSessionData env db taskId now)"
proof -
  let ?step = "\<lambda>d s. case verifiedRecovery env d s of None \<Rightarrow> d
      | Some r \<Rightarrow> fst (releaseVerifiedSessionResources env (fst (refreshRecoveryWriteOutcome env d s r now)) (ss_id s) now)"
  have step: "quiet_rows d (?step d s)" for d s
  proof (cases "verifiedRecovery env d s")
    case (Some r)
    then show ?thesis
      using quiet_rows_trans [OF quiet_rows_same release_quiet_rows, OF refresh_rows] by simp
  qed simp
  have "quiet_rows db (foldl ?step db xs)" for xs
    by (rule foldl_keeps [where P = "quiet_rows db"]) (simp, erule quiet_rows_trans, rule step)
  then show ?thesis by (auto simp: releaseCompletedSessionData_def split: option.split)
qed

section \<open>The invariant\<close>

definition attempt_key :: "attempt_row \<Rightarrow> string \<times> nat" where
  "attempt_key a = (at_runId a, at_number a)"

text \<open>The attempt a task works on.\<close>

definition works_on :: "agent_task \<Rightarrow> attempt_row \<Rightarrow> bool" where
  "works_on t a \<longleftrightarrow> at_id a = tk_attemptId t \<and> at_runId a = tk_runId t"

definition run_ok :: "run_row \<Rightarrow> bool" where
  "run_ok r \<longleftrightarrow> ru_currentAttemptNumber r \<le> ru_maxAttempts r \<and> ru_infrastructureRecoveryCount r \<le> 1
     \<and> rp_maxAttempts (py_retry (ru_executionPolicy r)) \<le> int (ru_maxAttempts r)"

definition task_inv :: "rdb \<Rightarrow> bool" where
  "task_inv db \<longleftrightarrow>
     distinct (map tk_id (db_tasks db)) \<and> distinct (map at_id (db_attempts db)) \<and> distinct (map ru_id (db_runs db))
     \<and> distinct (map attempt_key (db_attempts db)) \<and> distinct (map tk_runId (filter open_task (db_tasks db)))
     \<and> (\<forall>t\<in>set (db_tasks db). task_ok t \<and> (\<exists>a\<in>set (db_attempts db). works_on t a))
     \<and> (\<forall>a\<in>set (db_attempts db). \<exists>r\<in>set (db_runs db). ru_id r = at_runId a \<and> 1 \<le> at_number a
          \<and> at_number a \<le> ru_currentAttemptNumber r)
     \<and> (\<forall>r\<in>set (db_runs db). run_ok r)
     \<and> (\<forall>t\<in>set (db_tasks db). \<forall>a\<in>set (db_attempts db). \<forall>r\<in>set (db_runs db).
          open_task t \<and> works_on t a \<and> ru_id r = tk_runId t \<longrightarrow> at_number a = ru_currentAttemptNumber r)"

text \<open>An intervention that is pending belongs to a task that waits, and is the only one of that task.\<close>

definition waits_for_human :: "rdb \<Rightarrow> intervention_row \<Rightarrow> bool" where
  "waits_for_human db v \<longleftrightarrow>
     (\<exists>t\<in>set (db_tasks db). task_row_id t = (iv_taskId v, iv_runId v, iv_attemptId v) \<and> tk_status t = ''WAITING_HUMAN'')"

definition pending_one :: "intervention_row \<Rightarrow> bool" where
  "pending_one v \<longleftrightarrow> iv_status v = ''PENDING''"

definition waiting_ok :: "rdb \<Rightarrow> bool" where
  "waiting_ok db \<longleftrightarrow> distinct (map iv_id (db_interventions db))
     \<and> distinct (map iv_taskId (filter pending_one (db_interventions db)))
     \<and> (\<forall>v\<in>set (db_interventions db). pending_one v \<longrightarrow> waits_for_human db v)"

lemma distinct_filter_rel:
  "list_all2 R xs ys \<Longrightarrow> (\<And>x y. R x y \<Longrightarrow> key y = key x \<and> (P y \<longrightarrow> P x)) \<Longrightarrow> distinct (map key (filter P xs)) \<Longrightarrow>
   distinct (map key (filter P ys)) \<and> key ` set (filter P ys) \<subseteq> key ` set (filter P xs)"
proof (induction rule: list_all2_induct)
  case (Cons x xs y ys)
  then have "key y = key x" "P y \<longrightarrow> P x" "distinct (map key (filter P ys))" "key ` set (filter P ys) \<subseteq> key ` set (filter P xs)"
    by (auto split: if_splits)
  then show ?case using Cons.prems(2) by (auto split: if_splits)
qed simp

lemma rows_kept_tasks:
  assumes "task_inv db" "rows_kept db db'"
  shows "list_all2 (\<lambda>t t'. task_ok t' \<and> task_later t t' \<and> (open_task t' \<longrightarrow> open_task t)) (db_tasks db) (db_tasks db')"
  by (rule list.rel_mono_strong [of row_step])
    (use assms in \<open>auto simp: rows_kept_def row_step_def task_inv_def\<close>)

lemma task_later_id: "task_later t t' \<Longrightarrow> tk_id t' = tk_id t \<and> tk_runId t' = tk_runId t \<and> tk_attemptId t' = tk_attemptId t"
  by (simp add: task_later_def task_row_id_def)

lemma rows_kept_inv:
  assumes inv: "task_inv db" and kept: "rows_kept db db'"
  shows "task_inv db'"
proof -
  note T = rows_kept_tasks [OF assms]
  have A: "list_all2 kept_attempt (db_attempts db) (db_attempts db')" and R: "list_all2 kept_run (db_runs db) (db_runs db')"
    using kept by (simp_all add: rows_kept_def)
  have maps: "map tk_id (db_tasks db') = map tk_id (db_tasks db)" "map at_id (db_attempts db') = map at_id (db_attempts db)"
      "map ru_id (db_runs db') = map ru_id (db_runs db)" "map attempt_key (db_attempts db') = map attempt_key (db_attempts db)"
    using list_all2_map_eq [OF T, of tk_id] list_all2_map_eq [OF A, of at_id] list_all2_map_eq [OF R, of ru_id]
      list_all2_map_eq [OF A, of attempt_key]
    by (simp_all add: task_later_id kept_attempt_def kept_run_def attempt_key_def)
  have runs: "distinct (map tk_runId (filter open_task (db_tasks db')))"
    using distinct_filter_rel [OF T, of tk_runId open_task] inv task_later_id by (simp add: task_inv_def)
  have old: "\<exists>t\<in>set (db_tasks db). task_ok t' \<and> task_later t t' \<and> (open_task t' \<longrightarrow> open_task t)" if "t' \<in> set (db_tasks db')" for t'
    using list_all2_mem2 [OF T that] .
  have olda: "\<exists>a\<in>set (db_attempts db). kept_attempt a a'" if "a' \<in> set (db_attempts db')" for a'
    using list_all2_mem2 [OF A that] .
  have oldr: "\<exists>r\<in>set (db_runs db). kept_run r r'" if "r' \<in> set (db_runs db')" for r'
    using list_all2_mem2 [OF R that] .
  have tasks: "task_ok t' \<and> (\<exists>a\<in>set (db_attempts db'). works_on t' a)" if t': "t' \<in> set (db_tasks db')" for t'
  proof -
    obtain t where t: "t \<in> set (db_tasks db)" "task_ok t'" "task_later t t'" using old [OF t'] by blast
    then obtain a where "a \<in> set (db_attempts db)" "works_on t a" using inv unfolding task_inv_def by blast
    then show ?thesis using list_all2_mem [OF A] t task_later_id [OF t(3)] by (fastforce simp: works_on_def kept_attempt_def)
  qed
  have attempts: "\<exists>r\<in>set (db_runs db'). ru_id r = at_runId a' \<and> 1 \<le> at_number a' \<and> at_number a' \<le> ru_currentAttemptNumber r"
    if a': "a' \<in> set (db_attempts db')" for a'
  proof -
    obtain a where a: "a \<in> set (db_attempts db)" "kept_attempt a a'" using olda [OF a'] by blast
    then obtain r where "r \<in> set (db_runs db)" "ru_id r = at_runId a" "1 \<le> at_number a" "at_number a \<le> ru_currentAttemptNumber r"
      using inv unfolding task_inv_def by blast
    then show ?thesis using list_all2_mem [OF R] a(2) by (fastforce simp: kept_run_def kept_attempt_def)
  qed
  have limits: "run_ok r'" if "r' \<in> set (db_runs db')" for r'
    using oldr [OF that] inv unfolding task_inv_def run_ok_def kept_run_def by fastforce
  have current: "at_number a' = ru_currentAttemptNumber r'"
    if mem: "t' \<in> set (db_tasks db')" "a' \<in> set (db_attempts db')" "r' \<in> set (db_runs db')"
      and op: "open_task t' \<and> works_on t' a' \<and> ru_id r' = tk_runId t'" for t' a' r'
  proof -
    obtain t a r where "t \<in> set (db_tasks db)" "task_later t t'" "open_task t" "a \<in> set (db_attempts db)" "kept_attempt a a'"
        "r \<in> set (db_runs db)" "kept_run r r'"
      using old [OF mem(1)] olda [OF mem(2)] oldr [OF mem(3)] op by blast
    moreover have "works_on t a" "ru_id r = tk_runId t"
      using calculation op task_later_id [of t t'] by (simp_all add: works_on_def kept_attempt_def kept_run_def)
    ultimately have "at_number a = ru_currentAttemptNumber r" using inv unfolding task_inv_def by blast
    then show ?thesis using \<open>kept_attempt a a'\<close> \<open>kept_run r r'\<close> by (simp add: kept_attempt_def kept_run_def)
  qed
  show ?thesis
    unfolding task_inv_def maps using inv runs tasks attempts limits current by (auto simp: task_inv_def)
qed

lemma quiet_waiting:
  assumes "quiet_rows db db'" "waiting_ok db"
  shows "waiting_ok db'"
proof -
  have "list_all2 keeps_waiting (db_tasks db) (db_tasks db')" and "db_interventions db' = db_interventions db"
    using assms(1) by (simp_all add: quiet_rows_def)
  then show ?thesis using assms(2) list_all2_mem unfolding waiting_ok_def waits_for_human_def
    by (fastforce simp: keeps_waiting_def)
qed

section \<open>The next attempt\<close>

lemma scheduled_tables:
  assumes "scheduleNextAttempt db t a r ai ti now = Inr db'"
  shows "db_tasks db' = db_tasks db @ [next_task t r ai ti now]"
    "db_attempts db' = db_attempts db @ [\<lparr>at_id = ai, at_runId = tk_runId t, at_number = at_number a + 1,
       at_status = ''PENDING'', at_failureClass = None\<rparr>]"
    "db_runs db' = update_where (\<lambda>x. ru_id x = tk_runId t) (\<lambda>x. x\<lparr>ru_currentAttemptNumber := at_number a + 1\<rparr>) (db_runs db)"
    "db_interventions db' = db_interventions db" "db_sessions db' = db_sessions db"
    "db_recoveries db' = db_recoveries db" "db_evidence db' = db_evidence db" "db_leases db' = db_leases db"
  using assms by (auto simp: scheduleNextAttempt_def Let_def split: if_splits)

lemma next_task_fields [simp]:
  "tk_id (next_task t r ai ti now) = ti" "tk_runId (next_task t r ai ti now) = tk_runId t"
  "tk_attemptId (next_task t r ai ti now) = ai" "open_task (next_task t r ai ti now)" "task_ok (next_task t r ai ti now)"
  by (simp_all add: next_task_def open_task_def open_status_def task_ok_def awaiting_recovery_def)

lemma run_unique: "task_inv db \<Longrightarrow> r \<in> set (db_runs db) \<Longrightarrow> r' \<in> set (db_runs db) \<Longrightarrow> ru_id r = ru_id r' \<Longrightarrow> r = r'"
  by (auto simp: task_inv_def distinct_map inj_on_def)

lemma schedule_inv:
  assumes inv: "task_inv db" and eq: "scheduleNextAttempt db t a r ai ti now = Inr db'"
    and r0: "r0 \<in> set (db_runs db)" "ru_id r0 = tk_runId t" "ru_currentAttemptNumber r0 = at_number a" "at_number a < ru_maxAttempts r0"
    and idle: "\<And>x. x \<in> set (db_tasks db) \<Longrightarrow> open_task x \<Longrightarrow> tk_runId x \<noteq> tk_runId t"
    and fresh: "ti \<notin> tk_id ` set (db_tasks db)" "ai \<notin> at_id ` set (db_attempts db)"
  shows "task_inv db'"
proof -
  note S = scheduled_tables [OF eq]
  let ?f = "\<lambda>x. if ru_id x = tk_runId t then x\<lparr>ru_currentAttemptNumber := at_number a + 1\<rparr> else x"
  have runs: "db_runs db' = map ?f (db_runs db)" by (simp add: S(3) update_where_def)
  have ids: "map ru_id (db_runs db') = map ru_id (db_runs db)" by (simp add: runs o_def if_distrib)
  have same: "x = r0" if "x \<in> set (db_runs db)" "ru_id x = tk_runId t" for x
    using run_unique [OF inv that(1) r0(1)] that(2) r0(2) by simp
  have numbers: "at_number x \<le> at_number a" if x: "x \<in> set (db_attempts db)" "at_runId x = tk_runId t" for x
  proof -
    obtain q where "q \<in> set (db_runs db)" "ru_id q = at_runId x" "at_number x \<le> ru_currentAttemptNumber q"
      using inv x(1) unfolding task_inv_def by blast
    then show ?thesis using same [of q] x(2) r0(3) by simp
  qed
  have keys: "(tk_runId t, Suc (at_number a)) \<notin> attempt_key ` set (db_attempts db)"
    using numbers by (force simp: attempt_key_def)
  have attempts: "\<exists>q\<in>set (db_runs db'). ru_id q = at_runId x \<and> 1 \<le> at_number x \<and> at_number x \<le> ru_currentAttemptNumber q"
    if x: "x \<in> set (db_attempts db)" for x
  proof -
    obtain q where q: "q \<in> set (db_runs db)" "ru_id q = at_runId x" "1 \<le> at_number x" "at_number x \<le> ru_currentAttemptNumber q"
      using inv x unfolding task_inv_def by blast
    then have "at_number x \<le> ru_currentAttemptNumber (?f q)" using same r0(3) by fastforce
    then show ?thesis using q by (intro bexI [of _ "?f q"]) (auto simp: runs)
  qed
  have new: "\<exists>q\<in>set (db_runs db'). ru_id q = tk_runId t \<and> at_number a + 1 \<le> ru_currentAttemptNumber q"
    using r0 by (intro bexI [of _ "?f r0"]) (auto simp: runs)
  have limits: "run_ok q" if "q \<in> set (db_runs db')" for q
    using that inv same r0(4) by (auto simp: runs task_inv_def run_ok_def split: if_splits)
  have current: "at_number x = ru_currentAttemptNumber q"
    if m: "y \<in> set (db_tasks db')" "x \<in> set (db_attempts db')" "q \<in> set (db_runs db')"
      and op: "open_task y \<and> works_on y x \<and> ru_id q = tk_runId y" for y x q
  proof (cases "tk_runId y = tk_runId t")
    case True
    then have "y = next_task t r ai ti now" using m(1) op idle by (auto simp: S(1))
    then have "at_id x = ai" using op by (simp add: works_on_def)
    then have "x \<notin> set (db_attempts db)" using fresh(2) by blast
    then have "x = \<lparr>at_id = ai, at_runId = tk_runId t, at_number = at_number a + 1, at_status = ''PENDING'',
        at_failureClass = None\<rparr>" using m(2) by (simp add: S(2))
    then have "at_number x = at_number a + 1" by simp
    then show ?thesis using m(3) op True by (auto simp: runs)
  next
    case False
    then have y: "y \<in> set (db_tasks db)" using m(1) by (auto simp: S(1))
    have "x \<in> set (db_attempts db)" using m(2) op False by (auto simp: S(2) works_on_def)
    moreover have "q \<in> set (db_runs db)" using m(3) op False by (auto simp: runs)
    ultimately show ?thesis using inv y op unfolding task_inv_def by blast
  qed
  have works: "task_ok y \<and> (\<exists>x\<in>set (db_attempts db'). works_on y x)" if y: "y \<in> set (db_tasks db')" for y
  proof (cases "y \<in> set (db_tasks db)")
    case True
    then show ?thesis using inv unfolding task_inv_def S(2) by (simp add: bex_Un)
  next
    case False
    then have "y = next_task t r ai ti now" using y by (auto simp: S(1))
    then show ?thesis by (auto simp: S(2) works_on_def)
  qed
  have open_runs: "distinct (map tk_runId (filter open_task (db_tasks db')))"
  proof -
    have "tk_runId t \<notin> tk_runId ` set (filter open_task (db_tasks db))" using idle by fastforce
    then show ?thesis using inv by (simp add: S(1) task_inv_def)
  qed
  have d: "distinct (map tk_id (db_tasks db'))" "distinct (map at_id (db_attempts db'))" "distinct (map attempt_key (db_attempts db'))"
    using inv fresh keys by (auto simp: S(1,2) task_inv_def attempt_key_def)
  have all_attempts: "\<exists>q\<in>set (db_runs db'). ru_id q = at_runId x \<and> 1 \<le> at_number x \<and> at_number x \<le> ru_currentAttemptNumber q"
    if "x \<in> set (db_attempts db')" for x
  proof (cases "x \<in> set (db_attempts db)")
    case False
    then have "at_runId x = tk_runId t \<and> at_number x = at_number a + 1" using that by (simp add: S(2))
    then show ?thesis using new by simp
  qed (rule attempts)
  have "distinct (map ru_id (db_runs db'))" using inv by (simp add: ids task_inv_def)
  then show ?thesis
    unfolding task_inv_def using d open_runs works all_attempts limits current by blast
qed

section \<open>Settling a lost task\<close>

lemma findTaskD:
  assumes inv: "task_inv db" and found: "findTask db teamId taskId = Some (t, a, r)"
  shows "t \<in> set (db_tasks db)" "tk_id t = taskId" "a \<in> set (db_attempts db)" "works_on t a"
    "r \<in> set (db_runs db)" "ru_id r = tk_runId t" "ru_teamId r = teamId"
proof -
  have t: "find_by tk_id taskId (db_tasks db) = Some t" and a: "find_by at_id (tk_attemptId t) (db_attempts db) = Some a"
    and r: "find_by ru_id (tk_runId t) (db_runs db) = Some r" "ru_teamId r = teamId"
    using found by (auto simp: findTask_def task_of_def attempt_of_def run_of_def split: option.splits if_splits)
  show "t \<in> set (db_tasks db)" "tk_id t = taskId" using t by (auto simp: find_by_def dest: find_SomeD)
  show am: "a \<in> set (db_attempts db)" using a by (auto simp: find_by_def dest: find_SomeD)
  show "r \<in> set (db_runs db)" "ru_id r = tk_runId t" "ru_teamId r = teamId"
    using r by (auto simp: find_by_def dest: find_SomeD)
  obtain x where x: "x \<in> set (db_attempts db)" "works_on t x"
    using inv \<open>t \<in> set (db_tasks db)\<close> unfolding task_inv_def by blast
  moreover have "at_id a = tk_attemptId t" using a by (auto simp: find_by_def dest: find_SomeD)
  ultimately have "x = a" using inv am by (auto simp: task_inv_def distinct_map inj_on_def works_on_def)
  then show "works_on t a" using x by simp
qed

lemma task_unique: "task_inv db \<Longrightarrow> t \<in> set (db_tasks db) \<Longrightarrow> x \<in> set (db_tasks db) \<Longrightarrow> tk_id x = tk_id t \<Longrightarrow> x = t"
  by (auto simp: task_inv_def distinct_map inj_on_def)

lemma open_unique:
  assumes "task_inv db" "t \<in> set (db_tasks db)" "x \<in> set (db_tasks db)" "open_task t" "open_task x" "tk_runId x = tk_runId t"
  shows "x = t"
proof -
  have "inj_on tk_runId (set (filter open_task (db_tasks db)))" using assms(1) by (simp add: task_inv_def distinct_map)
  then show ?thesis using assms(2-) by (simp add: inj_on_def)
qed

lemma settle_owner_exact [simp]: "db_attempts (settle_owner db s b) = db_attempts db" "db_runs (settle_owner db s b) = db_runs db"
  by (auto simp: settle_owner_def Let_def split: option.split)

lemma release_exact:
  "db_attempts (fst (releaseVerifiedSessionResources env db sid now)) = db_attempts db"
  "db_runs (fst (releaseVerifiedSessionResources env db sid now)) = db_runs db"
  unfolding releaseVerifiedSessionResources_def Let_def
  by (auto simp: refresh_rows split: option.split prod.split) (metis fst_conv refresh_rows)+

lemma settle_leases_quiet:
  assumes "settle_leases env db t now = Inr db'"
  shows "quiet_rows db db'" "db_attempts db' = db_attempts db" "db_runs db' = db_runs db"
proof -
  consider "db' = db" | sid where "db' = db\<lparr>db_leases := quarantine_writes sid (db_leases db)\<rparr>"
    | sid where "db' = fst (releaseVerifiedSessionResources env db sid now)"
    using assms by (auto simp: settle_leases_def split: option.splits if_splits prod.splits bool.splits) (metis fst_conv)
  then have "quiet_rows db db' \<and> db_attempts db' = db_attempts db \<and> db_runs db' = db_runs db"
    by cases (simp_all add: release_quiet_rows release_exact quiet_rows_same)
  then show "quiet_rows db db'" "db_attempts db' = db_attempts db" "db_runs db' = db_runs db" by simp_all
qed

lemma decision_not_awaiting: "Some (decision_name d) \<notin> Some ` {''PENDING'', ''CLOSING'', ''HITL_CLOSING''}"
  by (cases d) auto

text \<open>What every transaction achieves.\<close>

definition tasks_forward :: "rdb \<Rightarrow> rdb \<Rightarrow> bool" where
  "tasks_forward db db' \<longleftrightarrow> (\<forall>t\<in>set (db_tasks db). \<exists>t'\<in>set (db_tasks db'). task_later t t')"

definition control_inv :: "rdb \<Rightarrow> bool" where
  "control_inv db \<longleftrightarrow> task_inv db \<and> waiting_ok db"

definition advances :: "rdb \<Rightarrow> rdb \<Rightarrow> bool" where
  "advances db db' \<longleftrightarrow> control_inv db' \<and> tasks_forward db db'"

lemma tasks_forward_refl [simp]: "tasks_forward db db"
  unfolding tasks_forward_def using task_later_refl by blast

lemma tasks_forward_trans: "tasks_forward a b \<Longrightarrow> tasks_forward b c \<Longrightarrow> tasks_forward a c"
  unfolding tasks_forward_def using task_later_trans by blast

lemma advances_trans: "advances a b \<Longrightarrow> advances b c \<Longrightarrow> advances a c"
  unfolding advances_def using tasks_forward_trans by blast

lemma rows_kept_forward: "task_inv db \<Longrightarrow> rows_kept db db' \<Longrightarrow> tasks_forward db db'"
  unfolding tasks_forward_def using list_all2_mem [OF rows_kept_tasks] by blast

lemma quiet_advances: "control_inv db \<Longrightarrow> quiet_rows db db' \<Longrightarrow> advances db db'"
  using rows_kept_inv rows_kept_forward quiet_waiting by (auto simp: control_inv_def advances_def quiet_rows_def)

lemma schedule_advances:
  assumes inv: "control_inv db" and eq: "scheduleNextAttempt db t a r ai ti now = Inr db'"
    and r0: "r0 \<in> set (db_runs db)" "ru_id r0 = tk_runId t" "ru_currentAttemptNumber r0 = at_number a" "at_number a < ru_maxAttempts r0"
    and idle: "\<And>x. x \<in> set (db_tasks db) \<Longrightarrow> open_task x \<Longrightarrow> tk_runId x \<noteq> tk_runId t"
    and fresh: "ti \<notin> tk_id ` set (db_tasks db)" "ai \<notin> at_id ` set (db_attempts db)"
  shows "advances db db'"
proof -
  have sub: "set (db_tasks db) \<subseteq> set (db_tasks db')" using scheduled_tables(1) [OF eq] by auto
  have "tasks_forward db db'" using sub task_later_refl unfolding tasks_forward_def by blast
  moreover have "waiting_ok db'" using inv sub
    unfolding control_inv_def waiting_ok_def waits_for_human_def scheduled_tables(4) [OF eq] by blast
  ultimately show ?thesis using schedule_inv [OF _ eq r0 idle fresh] inv by (simp add: control_inv_def advances_def)
qed

lemma rows_kept_ids:
  "rows_kept db db' \<Longrightarrow> map at_id (db_attempts db') = map at_id (db_attempts db) \<and> map ru_id (db_runs db') = map ru_id (db_runs db)"
  unfolding rows_kept_def
  using list_all2_map_eq [of kept_attempt _ _ at_id] list_all2_map_eq [of kept_run _ _ ru_id]
  by (auto simp: kept_attempt_def kept_run_def)

lemma rows_kept_task_ids: "task_inv db \<Longrightarrow> rows_kept db db' \<Longrightarrow> map tk_id (db_tasks db') = map tk_id (db_tasks db)"
  using list_all2_map_eq [OF rows_kept_tasks, of db db' tk_id] task_later_id by blast

lemma closed_task_idle:
  assumes inv: "task_inv db" and kept: "rows_kept db db'" and t: "t \<in> set (db_tasks db)" "open_task t"
    and over: "\<And>x. x \<in> set (db_tasks db') \<Longrightarrow> tk_id x = tk_id t \<Longrightarrow> \<not> open_task x"
    and x: "x \<in> set (db_tasks db')" "open_task x"
  shows "tk_runId x \<noteq> tk_runId t"
proof
  assume run: "tk_runId x = tk_runId t"
  obtain y where y: "y \<in> set (db_tasks db)" "task_later y x" "open_task y"
    using list_all2_mem2 [OF rows_kept_tasks [OF inv kept] x(1)] x(2) by blast
  then have "y = t" using open_unique [OF inv t(1) y(1) t(2)] run task_later_id by simp
  then show False using over [OF x(1)] x(2) task_later_id [OF y(2)] by simp
qed

text \<open>The decision retries only within the limits.\<close>

lemma retry_scheduled:
  "leaseRecoveryDecision sc uw ex n k m = RETRY_SCHEDULED \<Longrightarrow> sc \<and> \<not> uw \<and> \<not> ex \<and> n = 0 \<and> k < m"
  by (auto simp: leaseRecoveryDecision_def split: if_splits)

lemma settle_recovery_advances:
  assumes inv: "control_inv db" and eq: "settle_recovery env db teamId taskId ex now ai ti = Inr db'"
    and fresh: "ti \<notin> tk_id ` set (db_tasks db)" "ai \<notin> at_id ` set (db_attempts db)"
  shows "advances db db'"
proof -
  have ti: "task_inv db" using inv by (simp add: control_inv_def)
  obtain t a r where found: "findTask db teamId taskId = Some (t, a, r)"
    using eq by (auto simp: settle_recovery_def split: option.splits)
  note F = findTaskD [OF ti found]
  define lost where "lost = decimal (tk_fencingToken t - 1)"
  define pending where "pending = readFinalizationCheckpoint (last_finalization db t lost) lost"
  define decision where "decision = leaseRecoveryDecision (session_closed db t) (unknown_write db t)
      (pending \<noteq> None \<or> ex \<or> run_over r now) (ru_infrastructureRecoveryCount r) (at_number a) (ru_maxAttempts r)"
  define db1 where "db1 = set_tasks db (\<lambda>x. tk_id x = taskId) (\<lambda>x. x\<lparr>tk_recoveryStatus := Some (decision_name decision),
      tk_recoveryNextAttemptAt := None,
      tk_result := (if pending = None then tk_result x else outcome_js (recovered_outcome decision))\<rparr>)"
  define db2 where "db2 = (if pending = None then db1 else set_attempts db1 (\<lambda>y. at_id y = tk_attemptId t)
      (\<lambda>y. y\<lparr>at_status := ''FAILED'', at_failureClass := Some ''RUNTIME_LOST''\<rparr>))"
  show ?thesis
  proof (cases "awaiting_recovery t")
    case False
    then have "db' = db" using eq by (simp add: settle_recovery_def found Let_def)
    then show ?thesis using quiet_advances [OF inv quiet_rows_refl] by simp
  next
    case waiting: True
    obtain db3 db4 where settle: "settle_leases env db2 t now = Inr db3"
      and step: "(if decision = RETRY_SCHEDULED
          then scheduleNextAttempt (set_runs db3 (\<lambda>x. ru_id x = ru_id r)
              (\<lambda>x. x\<lparr>ru_infrastructureRecoveryCount := ru_infrastructureRecoveryCount x + 1, ru_lifecycle := ''QUEUED'',
                 ru_executionDisposition := Some ''RUNTIME_LOST''\<rparr>)) t a r ai ti now
          else if terminalRun (ru_lifecycle r) then Inr db3
          else Inr (finish_run db3 r (if pending \<noteq> None \<or> decision = WRITE_OUTCOME_UNKNOWN then ''BLOCKED'' else ''RUNTIME_LOST'') now))
          = Inr db4"
      and db': "db' = add_event db4 (task_event ''CONTROL_PLANE'' t r ''runtime.lease_recovery.completed'' JNull)"
      using eq waiting unfolding settle_recovery_def found option.case prod.case Let_def lost_def [symmetric]
        pending_def [symmetric] decision_def [symmetric] db1_def [symmetric] db2_def [symmetric]
      by (auto split: sum.splits)
    have row: "row_step x (x\<lparr>tk_recoveryStatus := Some (decision_name decision), tk_recoveryNextAttemptAt := None, tk_result := q\<rparr>)
        \<and> keeps_waiting x (x\<lparr>tk_recoveryStatus := Some (decision_name decision), tk_recoveryNextAttemptAt := None, tk_result := q\<rparr>)"
      if "x \<in> set (db_tasks db)" "tk_id x = taskId" for x q
      using task_unique [OF ti F(1) that(1)] that(2) F(2) waiting decision_not_awaiting [of decision]
      by (auto simp: row_step_def task_ok_def task_later_def task_row_id_def open_task_def awaiting_recovery_def keeps_waiting_def)
    have q1: "quiet_rows db db1" unfolding db1_def by (rule quiet_set_tasks) (rule row)
    have q12: "quiet_rows db1 db2" by (auto simp: db2_def kept_attempt_def intro: quiet_set_attempts)
    have q2: "quiet_rows db db2" by (rule quiet_rows_trans [OF q1 q12])
    note L = settle_leases_quiet [OF settle]
    have q3: "quiet_rows db db3" by (rule quiet_rows_trans [OF q2 L(1)])
    have runs3: "db_runs db3 = db_runs db" by (simp add: L db2_def db1_def)
    have quiet: "quiet_rows db3 (set_runs db3 (\<lambda>x. ru_id x = ru_id r) f)" if f: "kept_run r (f r)" for f
      by (rule quiet_set_runs) (use run_unique [OF ti _ F(5)] f in \<open>auto simp: runs3\<close>)
    have "advances db db4"
    proof (cases "decision = RETRY_SCHEDULED")
      case True
      note D = retry_scheduled [OF True [unfolded decision_def]]
      let ?f = "\<lambda>x. x\<lparr>ru_infrastructureRecoveryCount := ru_infrastructureRecoveryCount x + 1, ru_lifecycle := ''QUEUED'',
          ru_executionDisposition := Some ''RUNTIME_LOST''\<rparr>"
      define db5 where "db5 = set_runs db3 (\<lambda>x. ru_id x = ru_id r) ?f"
      have q35: "quiet_rows db3 db5" unfolding db5_def by (rule quiet) (use D in \<open>simp add: kept_run_def\<close>)
      have q5: "quiet_rows db db5" by (rule quiet_rows_trans [OF q3 q35])
      have k15: "rows_kept db1 db5"
        using quiet_rows_trans [OF quiet_rows_trans [OF q12 L(1)] q35] by (simp add: quiet_rows_def)
      have inv1: "task_inv db1" using rows_kept_inv [OF ti] q1 by (simp add: quiet_rows_def)
      have r5: "?f r \<in> set (db_runs db5)"
        using update_where_mem [OF F(5), of "\<lambda>x. ru_id x = ru_id r" ?f] by (simp add: db5_def runs3)
      have k5: "rows_kept db db5" using q5 by (simp add: quiet_rows_def)
      have a5: "advances db db5" by (rule quiet_advances [OF inv q5])
      have cur: "at_number a = ru_currentAttemptNumber r"
        using ti F waiting unfolding task_inv_def open_task_def by blast
      have opened: "open_task t" using waiting by (simp add: open_task_def)
      have over: "\<not> open_task x" if m: "x \<in> set (db_tasks db5)" "tk_id x = tk_id t" for x
      proof -
        obtain y where y: "y \<in> set (db_tasks db1)" "task_later y x" "open_task x \<longrightarrow> open_task y"
          using list_all2_mem2 [OF rows_kept_tasks [OF inv1 k15] m(1)] by blast
        then have "tk_id y = taskId" using m(2) F(2) task_later_id by simp
        moreover have "tk_status y' = tk_status z \<and> tk_recoveryStatus y' = Some (decision_name decision) \<and> z \<in> set (db_tasks db) \<and> tk_id z = taskId"
          if "y' = (if tk_id z = taskId then z\<lparr>tk_recoveryStatus := Some (decision_name decision),
              tk_recoveryNextAttemptAt := None,
              tk_result := (if pending = None then tk_result z else outcome_js (recovered_outcome decision))\<rparr> else z)"
            "z \<in> set (db_tasks db)" "tk_id y' = taskId" for y' z
          using that by (cases "tk_id z = taskId") simp_all
        ultimately obtain z where z: "z \<in> set (db_tasks db)" "tk_id z = taskId" "tk_status y = tk_status z"
            "tk_recoveryStatus y = Some (decision_name decision)"
          using y(1) unfolding db1_def set_tasks_tables update_where_def set_map by blast
        then have "z = t" using task_unique [OF ti F(1)] F(2) by simp
        moreover have "tk_status t = ''FAILED''" using ti F(1) waiting by (simp add: task_inv_def task_ok_def)
        ultimately have "tk_status y = ''FAILED''" "\<not> awaiting_recovery y"
          using z(3,4) decision_not_awaiting [of decision] by (simp_all add: awaiting_recovery_def)
        then have "\<not> open_task y" by (simp add: open_task_def open_status_def)
        then show ?thesis using y(3) by blast
      qed
      show ?thesis
      proof (rule advances_trans [OF a5])
        have "control_inv db5" using a5 by (simp add: advances_def)
        then show "advances db5 db4"
        proof (rule schedule_advances [OF _ _ r5])
          show "scheduleNextAttempt db5 t a r ai ti now = Inr db4" using step True by (simp add: db5_def)
          show "tk_runId x \<noteq> tk_runId t" if "x \<in> set (db_tasks db5)" "open_task x" for x
            by (rule closed_task_idle [OF ti k5 F(1) opened over that])
          show "ti \<notin> tk_id ` set (db_tasks db5)" "ai \<notin> at_id ` set (db_attempts db5)"
            using fresh rows_kept_task_ids [OF ti k5] rows_kept_ids [OF k5] by (metis set_map)+
        qed (use F(6) cur D in simp_all)
      qed
    next
      case False
      then have "db4 = db3 \<or> (\<exists>d. db4 = finish_run db3 r d now)" using step by (auto split: if_splits)
      moreover have "quiet_rows db (finish_run db3 r d now)" for d
        unfolding finish_run_def by (rule quiet_rows_trans [OF q3 quiet]) (simp add: kept_run_def)
      ultimately show ?thesis using quiet_advances [OF inv] q3 by blast
    qed
    moreover have "quiet_rows db4 db'" by (rule quiet_rows_same) (simp_all add: db')
    ultimately show ?thesis using quiet_advances advances_trans by (metis advances_def)
  qed
qed

end
