(* ===== verification/TaskSteps.thy ===== *)
theory TaskSteps
  imports TaskRows
begin

text \<open>
  That the other transactions on tasks and runs (theories \<open>AgentTasks\<close>, \<open>TaskReports\<close>, \<open>RunLifecycle\<close>,
  \<open>BrowserAdmission\<close>) keep the invariant of \<open>TaskRows\<close>: claims, heartbeats, events, outcomes, the end and the
  creation of a run, the end of an intervention, the startup of its browser.
\<close>

section \<open>Claims and heartbeats\<close>

lemma start_budget_kept: "start_budget r now = Inr r' \<Longrightarrow> kept_run r r'"
  by (auto simp: start_budget_def kept_run_def split: option.splits if_splits)

lemma leased_row:
  "tk_status t = ''PENDING'' \<Longrightarrow> row_step t ((leased_task t w token now expires)\<lparr>tk_deadlineAt := d\<rparr>)
     \<and> keeps_waiting t ((leased_task t w token now expires)\<lparr>tk_deadlineAt := d\<rparr>)"
  by (auto simp: row_step_def task_ok_def task_later_def task_row_id_def open_task_def awaiting_recovery_def open_status_def
      keeps_waiting_def leased_task_def terminalAgent_def)

lemma acquire_quiet:
  assumes inv: "task_inv db" and t: "t \<in> set (db_tasks db)" "tk_status t = ''PENDING''" and r: "r \<in> set (db_runs db)"
    and eq: "acquire te db ci t r sid now token = Inr (db', res)"
  shows "quiet_rows db db'"
proof -
  obtain r' where r': "start_budget r now = Inr r'" using eq by (auto simp: acquire_def Let_def split: sum.splits)
  define t' where "t' = (leased_task t (ci_workerId ci) token now (now + te_leaseMs te))
      \<lparr>tk_deadlineAt := (if ru_executionBudgetStartedAt r' = ru_executionBudgetStartedAt r then tk_deadlineAt t else ru_deadlineAt r')\<rparr>"
  have row: "row_step t t' \<and> keeps_waiting t t'" unfolding t'_def by (rule leased_row [OF t(2)])
  show ?thesis
  proof (cases "list_ex (may_own t sid now) (db_sessions db)")
    case False
    then show ?thesis using eq r' by (simp add: acquire_def Let_def)
  next
    case True
    define db1 where "db1 = set_tasks db (\<lambda>x. tk_id x = tk_id t) (\<lambda>_. t')"
    define db2 where "db2 = set_runs db1 (\<lambda>x. ru_id x = ru_id r) (\<lambda>_. r'\<lparr>ru_lifecycle := ''RUNNING'',
        ru_startedAt := Some (coalesce (ru_startedAt r) now)\<rparr>)"
    have q1: "quiet_rows db db1" unfolding db1_def
    proof (rule quiet_set_tasks)
      fix x assume "x \<in> set (db_tasks db)" "tk_id x = tk_id t"
      then have "x = t" by (rule task_unique [OF inv t(1)])
      then show "row_step x t' \<and> keeps_waiting x t'" using row by simp
    qed
    have q2: "quiet_rows db1 db2" unfolding db2_def
    proof (rule quiet_set_runs)
      fix x assume "x \<in> set (db_runs db1)" "ru_id x = ru_id r"
      then have "x = r" using run_unique [OF inv _ r] by (simp add: db1_def)
      then show "kept_run x (r'\<lparr>ru_lifecycle := ''RUNNING'', ru_startedAt := Some (coalesce (ru_startedAt r) now)\<rparr>)"
        using start_budget_kept [OF r'] by (simp add: kept_run_def)
    qed
    have attempts: "quiet_rows d (set_attempts d P (\<lambda>a. a\<lparr>at_status := s\<rparr>))" for d P s
      by (rule quiet_set_attempts) (simp add: kept_attempt_def)
    obtain P f Q s e where "db' = add_event (set_attempts (set_sessions db2 P f) Q (\<lambda>a. a\<lparr>at_status := s\<rparr>)) e"
      using True eq unfolding acquire_def Let_def r' sum.case t'_def [symmetric] db1_def [symmetric] db2_def [symmetric]
      by auto
    then show ?thesis
      using quiet_rows_trans [OF quiet_rows_trans [OF q1 q2]
          quiet_rows_trans [OF quiet_event(2) quiet_rows_trans [OF attempts quiet_event(1)]]] by simp
  qed
qed

lemma coordinate_tables:
  assumes "coordinate_resumed te db t sid now = (db', b)"
  shows "db_tasks db' = db_tasks db" "db_attempts db' = db_attempts db" "db_runs db' = db_runs db"
    "db_interventions db' = db_interventions db" "db_recoveries db' = db_recoveries db" "db_evidence db' = db_evidence db"
  using assms by (auto simp: coordinate_resumed_def split: prod.splits option.splits)

lemma run_of_member: "run_of db t = Some r \<Longrightarrow> r \<in> set (db_runs db) \<and> ru_id r = tk_runId t"
  by (auto simp: run_of_def find_by_def dest: find_SomeD)

lemma claim_once_quiet:
  assumes inv: "task_inv db" and eq: "claim_once te db teamId ci skipped now token = Inr (db', res)"
  shows "quiet_rows db db'"
proof (cases "js_sort (\<lambda>a b. tk_createdAt a \<le> tk_createdAt b) (filter (claim_candidate db teamId ci skipped now) (db_tasks db))")
  case Nil
  then show ?thesis using eq by (simp add: claim_once_def)
next
  case (Cons t rest)
  then have "t \<in> set (filter (claim_candidate db teamId ci skipped now) (db_tasks db))"
    by (metis list.set_intros(1) set_js_sort)
  then have t: "t \<in> set (db_tasks db)" "tk_status t = ''PENDING''" by (auto simp: claim_candidate_def)
  note acq = acquire_quiet [of _ t _ te ci]
  show ?thesis
  proof (cases "cannot_run ci t \<or> run_of db t = None \<or> bound_session_id db t = None")
    case True
    then show ?thesis using eq by (auto simp: claim_once_def Cons split: if_splits option.splits)
  next
    case False
    then obtain r sid where r: "run_of db t = Some r" and sid: "bound_session_id db t = Some sid" and can: "\<not> cannot_run ci t"
      by auto
    have rm: "r \<in> set (db_runs db)" using run_of_member [OF r] by simp
    show ?thesis
    proof (cases "sn_coordinationPending (tk_snapshot t)")
      case pending: True
      obtain db1 b where c: "coordinate_resumed te db t sid now = (db1, b)" by fastforce
      note C = coordinate_tables [OF c]
      have q1: "quiet_rows db db1" by (rule quiet_rows_same) (simp_all add: C)
      have inv1: "task_inv db1" using rows_kept_inv [OF inv] q1 by (simp add: quiet_rows_def)
      have "db' = db1 \<or> db' = db \<or> (\<exists>x. acquire te db1 ci t r sid now token = Inr (db', x))"
        using eq can pending by (auto simp: claim_once_def Cons r sid c split: bool.splits sum.splits prod.splits claim_result.splits)
      then show ?thesis
        using q1 quiet_rows_trans [OF q1 acquire_quiet [OF inv1]] t rm C by auto
    next
      case False
      then show ?thesis using eq can acquire_quiet [OF inv t rm] by (auto simp: claim_once_def Cons r sid)
    qed
  qed
qed

lemma same_lease_row:
  "row_step x (x\<lparr>tk_leaseExpiresAt := e\<rparr>) \<and> keeps_waiting x (x\<lparr>tk_leaseExpiresAt := e\<rparr>)"
  "row_step x (x\<lparr>tk_deadlineAt := d, tk_progress := p\<rparr>) \<and> keeps_waiting x (x\<lparr>tk_deadlineAt := d, tk_progress := p\<rparr>)"
  by (simp_all add: row_step_def task_ok_def task_later_def task_row_id_def open_task_def awaiting_recovery_def keeps_waiting_def)

lemma extend_quiet: "quiet_rows db (extend_deadline db t r x)"
  unfolding extend_deadline_def
proof (rule quiet_rows_trans [OF _ quiet_event(1)], rule quiet_rows_trans [OF quiet_set_runs])
  show "kept_run q (q\<lparr>ru_deadlineAt := a, ru_deadlineExtendedMs := b, ru_deadlineExtensionCount := c\<rparr>)" for q a b c
    by (simp add: kept_run_def)
qed (rule quiet_set_tasks, rule same_lease_row)

lemma heartbeat_quiet:
  assumes eq: "heartbeat te db teamId taskId c now = Inr (db', d)"
  shows "quiet_rows db db'"
proof -
  obtain t a r where found: "findTask db teamId taskId = Some (t, a, r)"
    using eq by (auto simp: heartbeat_def split: option.splits)
  define db1 where "db1 = set_tasks db (\<lambda>x. tk_id x = taskId) (\<lambda>x. x\<lparr>tk_leaseExpiresAt := Some (now + te_leaseMs te)\<rparr>)"
  have "quiet_rows db db1" unfolding db1_def by (rule quiet_set_tasks) (rule same_lease_row)
  then have q: "quiet_rows db (set_sessions db1 P f)" for P f by (rule quiet_rows_trans) (rule quiet_event)
  have qx: "quiet_rows db (extend_deadline (set_sessions db1 P f) t r x)" for P f x
    by (rule quiet_rows_trans [OF q extend_quiet])
  show ?thesis
    using eq q qx unfolding heartbeat_def found option.case prod.case Let_def db1_def [symmetric]
    by (auto split: if_splits option.splits)
qed

section \<open>Events\<close>

lemma persist_results_tables [simp]:
  "db_tasks (persistCriterionResults db sn cs) = db_tasks db" "db_attempts (persistCriterionResults db sn cs) = db_attempts db"
  "db_runs (persistCriterionResults db sn cs) = db_runs db" "db_interventions (persistCriterionResults db sn cs) = db_interventions db"
  "db_sessions (persistCriterionResults db sn cs) = db_sessions db" "db_recoveries (persistCriterionResults db sn cs) = db_recoveries db"
  "db_evidence (persistCriterionResults db sn cs) = db_evidence db"
  by (induction cs arbitrary: db) (simp_all add: persistCriterionResults_def persist_result_def Let_def)

lemma persist_evidence_tables [simp]:
  "db_tasks (persist_evidence db t es) = db_tasks db" "db_attempts (persist_evidence db t es) = db_attempts db"
  "db_runs (persist_evidence db t es) = db_runs db" "db_interventions (persist_evidence db t es) = db_interventions db"
  "db_sessions (persist_evidence db t es) = db_sessions db" "db_recoveries (persist_evidence db t es) = db_recoveries db"
  "db_evidence (persist_evidence db t es) = db_evidence db"
  by (induction es arbitrary: db) (simp_all add: persist_evidence_def)

lemma persist_verification_tables [simp]:
  "db_tasks (persist_verification db t v) = db_tasks db" "db_attempts (persist_verification db t v) = db_attempts db"
  "db_runs (persist_verification db t v) = db_runs db" "db_interventions (persist_verification db t v) = db_interventions db"
  "db_sessions (persist_verification db t v) = db_sessions db" "db_recoveries (persist_verification db t v) = db_recoveries db"
  "db_evidence (persist_verification db t v) = db_evidence db"
  by (simp_all add: persist_verification_def split: option.split)

lemma same_work_row:
  "row_step x (x\<lparr>tk_snapshot := s\<rparr>) \<and> keeps_waiting x (x\<lparr>tk_snapshot := s\<rparr>)"
  "row_step x (x\<lparr>tk_executionState := e\<rparr>) \<and> keeps_waiting x (x\<lparr>tk_executionState := e\<rparr>)"
  "row_step x (x\<lparr>tk_progress := p\<rparr>) \<and> keeps_waiting x (x\<lparr>tk_progress := p\<rparr>)"
  by (simp_all add: row_step_def task_ok_def task_later_def task_row_id_def open_task_def awaiting_recovery_def keeps_waiting_def)

lemma checkpoint_quiet:
  assumes "saveExecutionCheckpoint te db t ck = Inr db'"
  shows "quiet_rows db db'"
proof -
  obtain cs where db': "db' = set_tasks (persistCriterionResults db (tk_snapshot t) cs) (\<lambda>x. tk_id x = tk_id t)
      (\<lambda>x. x\<lparr>tk_executionState := Some (ck_state ck)\<rparr>)"
    using assms unfolding saveExecutionCheckpoint_def Let_def by (auto split: if_splits)
  show ?thesis unfolding db'
    by (rule quiet_rows_trans [OF quiet_rows_same quiet_set_tasks]) (simp_all add: same_work_row)
qed

lemma append_quiet:
  assumes eq: "appendEvent te db teamId taskId c e now recordedAt = Inr db'"
  shows "quiet_rows db db'"
proof -
  obtain t a r where found: "findTask db teamId taskId = Some (t, a, r)"
    using eq by (auto simp: appendEvent_def split: option.splits)
  have cool: "quiet_rows d (cool_down d t e now)" for d
    by (auto simp: cool_down_def split: option.split intro!: quiet_set_tasks same_work_row)
  have progress: "quiet_rows d (record_progress d t e recordedAt)" for d
    by (auto simp: record_progress_def split: option.split intro!: quiet_set_tasks same_work_row)
  have checked: "quiet_rows d d'" if "checkpoint_event te d t e = Inr d'" for d d'
    using that checkpoint_quiet by (auto simp: checkpoint_event_def split: option.splits if_splits)
  consider "db' = db"
    | ev d' where "checkpoint_event te (cool_down (add_event db ev) t e now) t e = Inr d'" "db' = record_progress d' t e recordedAt"
    using eq unfolding appendEvent_def found option.case prod.case Let_def
    by (auto split: if_splits option.splits sum.splits)
  then show ?thesis
  proof cases
    case 2
    show ?thesis unfolding 2(2)
      by (rule quiet_rows_trans [OF quiet_event(1) quiet_rows_trans [OF cool quiet_rows_trans [OF checked [OF 2(1)] progress]]])
  qed simp
qed

section \<open>Outcomes\<close>

lemma rows_advances: "control_inv db \<Longrightarrow> rows_kept db db' \<Longrightarrow> waiting_ok db' \<Longrightarrow> advances db db'"
  using rows_kept_inv rows_kept_forward by (auto simp: control_inv_def advances_def)

lemma leased_running:
  assumes "task_ok t" "lockCurrentLease t c now"
  shows "tk_status t = ''RUNNING''"
  using assms by (auto simp: task_ok_def lockCurrentLease_def requireLease_def leased_status_def)

lemma projected_status:
  "attempt_name (op_taskStatus (projectRuntimeOutcome n ro rp)) \<in> {''SUCCEEDED'', ''WAITING_HUMAN'', ''FAILED'', ''TIMED_OUT''}"
  "op_nextAttemptScheduled (projectRuntimeOutcome n ro rp) \<Longrightarrow> n < rp_maxAttempts rp"
  "op_nextAttemptScheduled (projectRuntimeOutcome n ro rp) \<Longrightarrow>
     attempt_name (op_taskStatus (projectRuntimeOutcome n ro rp)) \<in> {''FAILED'', ''TIMED_OUT''}"
  "attempt_name (op_taskStatus (projectRuntimeOutcome n WaitingHuman rp)) = ''WAITING_HUMAN''"
  by (cases ro; auto simp: project_failure_def)+

lemma effective_max [simp]: "rp_maxAttempts (effectiveRetryPolicy p oc rp) = rp_maxAttempts rp"
  by (simp add: effectiveRetryPolicy_def)

lemma completed_row:
  assumes "tk_status x = ''RUNNING''" "i \<noteq> []"
    and "attempt_name (op_taskStatus pj) \<in> {''SUCCEEDED'', ''WAITING_HUMAN'', ''FAILED'', ''TIMED_OUT''}"
  shows "row_step x (completed_task i oc w pj x)"
  using assms unfolding row_step_def
  by (auto simp: task_ok_def task_later_def task_row_id_def open_task_def awaiting_recovery_def open_status_def
      completed_task_def terminalAgent_def)

lemma start_waiting_tables:
  shows "db_attempts (start_waiting db t r i n now) = db_attempts db" "db_runs (start_waiting db t r i n now) = db_runs db"
    "db_interventions (start_waiting db t r i n now) = db_interventions db @ [\<lparr>iv_id = n, iv_runId = tk_runId t,
            iv_taskId = tk_id t, iv_attemptId = tk_attemptId t, iv_kind = ir_kind i, iv_status = ''PENDING'',
            iv_expiresAt = Some (wait_expires r i now), iv_createdAt = now,
            iv_pausedExecutionRemainingMs = (if pauses r then Some (max 0 (ru_deadlineAt r - now)) else None),
            iv_controlLeaseExpiresAt = None\<rparr>]"
    "db_tasks (start_waiting db t r i n now) =
       update_where (\<lambda>x. pauses r \<and> tk_id x = tk_id t) (\<lambda>x. x\<lparr>tk_deadlineAt := wait_expires r i now\<rparr>) (db_tasks db)"
  unfolding start_waiting_def Let_def by (auto simp: update_where_def split: option.split)

lemma deadline_row: "row_step x (x\<lparr>tk_deadlineAt := d\<rparr>) \<and> keeps_waiting x (x\<lparr>tk_deadlineAt := d\<rparr>)"
  by (simp add: row_step_def task_ok_def task_later_def task_row_id_def open_task_def awaiting_recovery_def keeps_waiting_def)

lemma waiting_rows: "rows_kept db (start_waiting db t r i n now)"
  by (rule rows_keptI) (auto simp: start_waiting_tables deadline_row intro!: rows_updated)

lemma quiet_kept: "quiet_rows db db' \<Longrightarrow> rows_kept db db'"
  by (simp add: quiet_rows_def)

lemma settle_outcome_advances:
  assumes inv: "control_inv db" and found: "findTask db teamId taskId = Some (t, a, r)" and run: "tk_status t = ''RUNNING''"
    and id: "oi_completionId input \<noteq> []" and eq: "settle_outcome te db t a r input oc now ids = Inr db'"
    and fresh: "fi_taskId ids \<notin> tk_id ` set (db_tasks db)" "fi_attemptId ids \<notin> at_id ` set (db_attempts db)"
      "fi_interventionId ids \<notin> iv_id ` set (db_interventions db)"
  shows "advances db db'"
proof -
  have ti: "task_inv db" using inv by (simp add: control_inv_def)
  note F = findTaskD [OF ti found]
  define w where "w = (needs_audit (oi_outcome input) \<and> uncertain_write db t)"
  define pj where "pj = outcome_projection_of a r oc"
  define db1 where "db1 = (case (w, bound_session_id db t) of
      (True, Some sid) \<Rightarrow> db\<lparr>db_leases := map (\<lambda>l. if le_sessionId l = sid then l\<lparr>le_quarantined := True\<rparr> else l) (db_leases db)\<rparr>
    | _ \<Rightarrow> db)"
  define db2 where "db2 = set_tasks db1 (\<lambda>x. tk_id x = tk_id t) (completed_task (oi_completionId input) oc w pj)"
  define db3 where "db3 = set_attempts db2 (\<lambda>y. at_id y = tk_attemptId t) (\<lambda>y. y\<lparr>at_status := attempt_name (op_attemptStatus pj),
      at_failureClass := map_option (\<lambda>f. failure_name (fx_failureClass f)) (outcome_error oc)\<rparr>)"
  define db4 where "db4 = persist_verification db3 t (completed_verification (oi_outcome input))"
  define db5 where "db5 = (case intervention_of oc of None \<Rightarrow> db4 | Some i \<Rightarrow> start_waiting db4 t r i (fi_interventionId ids) now)"
  define db6 where "db6 = set_runs db5 (\<lambda>x. ru_id x = tk_runId t) (outcome_run r oc pj (oi_completedAt input) now)"
  define db7 where "db7 = add_event db6 (task_event ''AGENT_RUNTIME'' t r (outcome_event_kind oc) JNull)"
  obtain db8 where sched: "(if op_nextAttemptScheduled pj then scheduleNextAttempt db7 t a r (fi_attemptId ids) (fi_taskId ids) now
        else Inr db7) = Inr db8"
    and db': "db' = (if intervention_of oc \<noteq> None then db8 else releaseCompletedSessionData (te_recovery te) db8 (tk_id t) now)"
    using eq unfolding settle_outcome_def Let_def w_def [symmetric] pj_def [symmetric] db1_def [symmetric] db2_def [symmetric]
      db3_def [symmetric] db4_def [symmetric] db5_def [symmetric] db6_def [symmetric] db7_def [symmetric]
    by (auto split: sum.splits)
  have st: "attempt_name (op_taskStatus pj) \<in> {''SUCCEEDED'', ''WAITING_HUMAN'', ''FAILED'', ''TIMED_OUT''}"
    unfolding pj_def outcome_projection_of_def Let_def by (rule projected_status)
  have q1: "quiet_rows db db1" by (rule quiet_rows_same) (auto simp: db1_def split: option.split bool.split)
  have t1: "db_tasks db1 = db_tasks db" by (auto simp: db1_def split: option.split bool.split)
  have tasks: "x = t" if "x \<in> set (db_tasks db)" "tk_id x = tk_id t" for x
    using task_unique [OF ti F(1)] that by simp
  have k2: "rows_kept db1 db2"
    unfolding db2_def by (rule rows_keptI) (auto simp: t1 run dest: tasks intro!: rows_updated completed_row [OF _ id st])
  have k3: "rows_kept db2 db3" unfolding db3_def by (intro quiet_kept quiet_set_attempts) (simp add: kept_attempt_def)
  have k5: "rows_kept db3 db5"
    using quiet_kept [OF quiet_rows_same [of db4 db3]] rows_kept_trans [OF _ waiting_rows]
    by (auto simp: db5_def db4_def split: option.split)
  have k7: "rows_kept db5 db7"
    unfolding db7_def db6_def
    by (intro quiet_kept quiet_rows_trans [OF quiet_set_runs quiet_event(1)]) (simp add: outcome_run_def kept_run_def)
  note k17 = rows_kept_trans [OF k2 rows_kept_trans [OF k3 rows_kept_trans [OF k5 k7]]]
  have k: "rows_kept db db7" by (rule rows_kept_trans [OF quiet_kept [OF q1] k17])
  let ?c = "completed_task (oi_completionId input) oc w pj"
  define f where "f x = (if tk_id x = tk_id t then ?c x else x)" for x
  have i2: "task_inv db2" using rows_kept_inv [OF ti rows_kept_trans [OF quiet_kept [OF q1] k2]] .
  have mem2: "y \<in> f ` set (db_tasks db)" if "y \<in> set (db_tasks db2)" for y
    using that by (simp add: db2_def t1 update_where_def f_def)
  have keep7: "\<exists>y\<in>set (db_tasks db7). task_row_id y = task_row_id x \<and> tk_status y = tk_status x" if x: "x \<in> set (db_tasks db2)" for x
  proof -
    have d5: "db_tasks db7 = (case intervention_of oc of None \<Rightarrow> db_tasks db2
        | Some i \<Rightarrow> update_where (\<lambda>x. pauses r \<and> tk_id x = tk_id t) (\<lambda>x. x\<lparr>tk_deadlineAt := wait_expires r i now\<rparr>) (db_tasks db2))"
      by (simp add: db7_def db6_def db5_def db4_def db3_def start_waiting_tables split: option.split)
    show ?thesis
    proof (cases "intervention_of oc")
      case None
      then show ?thesis using x d5 by auto
    next
      case (Some i)
      let ?g = "\<lambda>x. if pauses r \<and> tk_id x = tk_id t then x\<lparr>tk_deadlineAt := wait_expires r i now\<rparr> else x"
      have "?g x \<in> set (db_tasks db7)"
        unfolding d5 Some option.case
        by (rule update_where_mem [OF x, of "\<lambda>x. pauses r \<and> tk_id x = tk_id t" "\<lambda>x. x\<lparr>tk_deadlineAt := wait_expires r i now\<rparr>"])
      moreover have "task_row_id (?g x) = task_row_id x" "tk_status (?g x) = tk_status x" by (simp_all add: task_row_id_def)
      ultimately show ?thesis by blast
    qed
  qed
  have keep: "\<exists>y\<in>set (db_tasks db7). task_row_id y = task_row_id x \<and> tk_status y = tk_status (f x)" if "x \<in> set (db_tasks db)" for x
  proof -
    have "f x \<in> set (db_tasks db2)"
      using update_where_mem [OF that, of "\<lambda>x. tk_id x = tk_id t" ?c] by (simp add: db2_def t1 f_def)
    moreover have "task_row_id (f x) = task_row_id x" by (simp add: task_row_id_def completed_task_def f_def)
    ultimately show ?thesis using keep7 [of "f x"] by simp
  qed
  have iv7: "db_interventions db7 = db_interventions (case intervention_of oc of None \<Rightarrow> db4
      | Some i \<Rightarrow> start_waiting db4 t r i (fi_interventionId ids) now)" "db_interventions db4 = db_interventions db"
    using q1 by (simp_all add: db7_def db6_def db5_def db4_def db3_def db2_def quiet_rows_def)
  have wi: "waiting_ok db" using inv by (simp add: control_inv_def)
  have not_t: "iv_taskId v \<noteq> tk_id t" if v: "v \<in> set (db_interventions db)" "pending_one v" for v
  proof
    assume eq: "iv_taskId v = tk_id t"
    obtain x where x: "x \<in> set (db_tasks db)" "task_row_id x = (iv_taskId v, iv_runId v, iv_attemptId v)" "tk_status x = ''WAITING_HUMAN''"
      using wi v unfolding waiting_ok_def waits_for_human_def by blast
    then have "x = t" using tasks eq by (simp add: task_row_id_def)
    then show False using x(3) run by simp
  qed
  have old: "waits_for_human db7 v" if v: "v \<in> set (db_interventions db)" "pending_one v" for v
  proof -
    obtain x where x: "x \<in> set (db_tasks db)" "task_row_id x = (iv_taskId v, iv_runId v, iv_attemptId v)" "tk_status x = ''WAITING_HUMAN''"
      using wi v unfolding waiting_ok_def waits_for_human_def by blast
    then have "f x = x" using not_t [OF v] by (simp add: f_def task_row_id_def)
    then show ?thesis using keep [OF x(1)] x(2,3) by (simp add: waits_for_human_def)
  qed
  have waiting7: "waiting_ok db7"
  proof (cases "intervention_of oc")
    case None
    then show ?thesis using wi old iv7 by (simp add: waiting_ok_def)
  next
    case (Some i)
    define v where "v = \<lparr>iv_id = fi_interventionId ids, iv_runId = tk_runId t,
            iv_taskId = tk_id t, iv_attemptId = tk_attemptId t, iv_kind = ir_kind i, iv_status = ''PENDING'',
            iv_expiresAt = Some (wait_expires r i now), iv_createdAt = now,
            iv_pausedExecutionRemainingMs = (if pauses r then Some (max 0 (ru_deadlineAt r - now)) else None),
            iv_controlLeaseExpiresAt = None\<rparr>"
    have v: "db_interventions db7 = db_interventions db @ [v]" "iv_id v = fi_interventionId ids" "iv_taskId v = tk_id t"
        "task_row_id t = (iv_taskId v, iv_runId v, iv_attemptId v)"
      using iv7 by (simp_all add: Some start_waiting_tables task_row_id_def v_def)
    have "runtime_outcome_of oc = WaitingHuman" using Some by (cases oc) (auto simp: intervention_of_def)
    then have "attempt_name (op_taskStatus pj) = ''WAITING_HUMAN''"
      by (simp only: pj_def outcome_projection_of_def Let_def projected_status)
    then have "waits_for_human db7 v" using keep [OF F(1)] v(4) by (simp add: waits_for_human_def completed_task_def f_def)
    moreover have "iv_taskId v \<notin> iv_taskId ` set (filter pending_one (db_interventions db))"
    proof
      assume "iv_taskId v \<in> iv_taskId ` set (filter pending_one (db_interventions db))"
      then obtain u where "u \<in> set (db_interventions db)" "pending_one u" "iv_taskId u = tk_id t" unfolding v(3) by auto
      then show False using not_t by blast
    qed
    ultimately show ?thesis using wi old fresh(3) by (auto simp: waiting_ok_def v(1,2))
  qed
  have a7: "advances db db7" by (rule rows_advances [OF inv k waiting7])
  then have inv7: "control_inv db7" by (simp add: advances_def)
  have a8: "advances db db8"
  proof (cases "op_nextAttemptScheduled pj")
    case False
    then show ?thesis using sched a7 by simp
  next
    case next_one: True
    have opened: "open_task t" by (simp add: open_task_def run open_status_def)
    have cur: "at_number a = ru_currentAttemptNumber r" using ti F opened unfolding task_inv_def by blast
    have "int (at_number a) < rp_maxAttempts (py_retry (ru_executionPolicy r))"
      using projected_status(2) [OF next_one [unfolded pj_def outcome_projection_of_def Let_def]] by simp
    moreover have "run_ok r" using ti F(5) by (simp add: task_inv_def)
    ultimately have max: "at_number a < ru_maxAttempts r" by (simp add: run_ok_def)
    have "db_runs db5 = db_runs db"
      using q1 by (auto simp: db5_def db4_def db3_def db2_def db1_def start_waiting_tables split: option.split bool.split)
    then have r7: "outcome_run r oc pj (oi_completedAt input) now r \<in> set (db_runs db7)"
      using update_where_mem [OF F(5), of "\<lambda>x. ru_id x = tk_runId t" "outcome_run r oc pj (oi_completedAt input) now"] F(6)
      by (simp add: db7_def db6_def)
    have "attempt_name (op_taskStatus pj) \<in> {''FAILED'', ''TIMED_OUT''}"
      using projected_status(3) [OF next_one [unfolded pj_def outcome_projection_of_def Let_def]]
      by (simp add: pj_def outcome_projection_of_def Let_def)
    moreover have "task_ok t" using ti F(1) by (simp add: task_inv_def)
    ultimately have over_c: "\<not> open_task (?c t)"
      using run by (auto simp: open_task_def open_status_def completed_task_def awaiting_recovery_def task_ok_def)
    have over: "\<not> open_task x" if m: "x \<in> set (db_tasks db7)" "tk_id x = tk_id t" for x
    proof -
      obtain y where y: "y \<in> set (db_tasks db2)" "task_later y x" "open_task x \<longrightarrow> open_task y"
        using list_all2_mem2 [OF rows_kept_tasks [OF i2 rows_kept_trans [OF k3 rows_kept_trans [OF k5 k7]]] m(1)] by blast
      obtain z where z: "z \<in> set (db_tasks db)" "y = f z" using mem2 [OF y(1)] by blast
      have "tk_id y = tk_id t" using task_later_id [OF y(2)] m(2) by simp
      then have "tk_id z = tk_id t" using z(2) by (simp add: completed_task_def f_def split: if_splits)
      then have "z = t" by (rule tasks [OF z(1)])
      then show ?thesis using y(3) z(2) over_c by (simp add: f_def)
    qed
    show ?thesis
    proof (rule advances_trans [OF a7], rule schedule_advances [OF inv7 _ r7])
      show "scheduleNextAttempt db7 t a r (fi_attemptId ids) (fi_taskId ids) now = Inr db8" using sched next_one by simp
      show "tk_runId x \<noteq> tk_runId t" if "x \<in> set (db_tasks db7)" "open_task x" for x
        by (rule closed_task_idle [OF ti k F(1) opened over that])
      show "fi_taskId ids \<notin> tk_id ` set (db_tasks db7)" "fi_attemptId ids \<notin> at_id ` set (db_attempts db7)"
        using fresh(1,2) rows_kept_task_ids [OF ti k] rows_kept_ids [OF k] by (metis set_map)+
    qed (use F(6) cur max in \<open>simp_all add: outcome_run_def\<close>)
  qed
  then have "control_inv db8" by (simp add: advances_def)
  then show ?thesis
    using db' a8 advances_trans [OF a8 quiet_advances [OF _ release_data_quiet_rows]] by simp
qed

section \<open>Ending and resuming a run\<close>

definition ended_status :: "string \<Rightarrow> bool" where
  "ended_status s \<longleftrightarrow> s \<in> {''CANCELLED'', ''TIMED_OUT'', ''FAILED''}"

lemma ended_row:
  assumes "open_status (tk_status x)" "ended_status s"
  shows "row_step x (x\<lparr>tk_cancelRequestedAt := c, tk_status := s\<rparr>)"
  unfolding row_step_def
proof
  assume ok: "task_ok x"
  let ?y = "x\<lparr>tk_cancelRequestedAt := c, tk_status := s\<rparr>"
  have "tk_status x \<noteq> ''FAILED''" using assms(1) by (auto simp: open_status_def)
  then have idle: "\<not> awaiting_recovery x" using ok by (auto simp: task_ok_def)
  have s: "s \<notin> {''PENDING'', ''RUNNING'', ''WAITING_HUMAN''}" using assms(2) by (auto simp: ended_status_def)
  have "task_ok ?y" using ok idle s by (simp add: task_ok_def awaiting_recovery_def)
  moreover have "task_later x ?y" using assms(1) terminal_not_open by (auto simp: task_later_def task_row_id_def)
  moreover have "\<not> open_task ?y" using s idle by (simp add: open_task_def open_status_def awaiting_recovery_def)
  ultimately show "task_ok ?y \<and> task_later x ?y \<and> (open_task ?y \<longrightarrow> open_task x)" by simp
qed

lemma end_tasks_kept: "ended_status s \<Longrightarrow> rows_kept db (end_tasks db i s fc now)"
  unfolding end_tasks_def
  by (rule rows_kept_trans [OF rows_keptI quiet_kept [OF quiet_set_attempts]])
    (auto simp: ended_row kept_attempt_def intro!: rows_updated)

lemma ended_run_kept: "kept_run x (ended_run r l now x)" "kept_run x ((ended_run r l now x)\<lparr>ru_cancelRequestedAt := c\<rparr>)"
  by (simp_all add: ended_run_def kept_run_def)

lemma pending_left:
  "distinct (map iv_taskId (filter pending_one vs)) \<Longrightarrow> s \<noteq> ''PENDING'' \<Longrightarrow>
   distinct (map iv_taskId (filter pending_one (update_where (\<lambda>v. P v \<and> iv_status v = ''PENDING'') (\<lambda>v. v\<lparr>iv_status := s\<rparr>) vs)))
   \<and> iv_taskId ` set (filter pending_one (update_where (\<lambda>v. P v \<and> iv_status v = ''PENDING'') (\<lambda>v. v\<lparr>iv_status := s\<rparr>) vs))
       \<subseteq> iv_taskId ` set (filter pending_one vs)"
  by (induction vs) (auto simp: update_where_def pending_one_def)

text \<open>Interventions end; the tasks of those that stay pending go on waiting.\<close>

lemma ended_waiting:
  assumes ok: "waiting_ok db" and s: "s \<noteq> ''PENDING''"
    and ivs: "db_interventions db' = update_where (\<lambda>v. P v \<and> iv_status v = ''PENDING'') (\<lambda>v. v\<lparr>iv_status := s\<rparr>) (db_interventions db)"
    and tasks: "\<And>v x. v \<in> set (db_interventions db) \<Longrightarrow> pending_one v \<Longrightarrow> \<not> P v \<Longrightarrow> x \<in> set (db_tasks db) \<Longrightarrow>
      task_row_id x = (iv_taskId v, iv_runId v, iv_attemptId v) \<Longrightarrow> tk_status x = ''WAITING_HUMAN'' \<Longrightarrow> x \<in> set (db_tasks db')"
  shows "waiting_ok db'"
proof -
  have "map iv_id (db_interventions db') = map iv_id (db_interventions db)" unfolding ivs by (rule map_update_where) simp
  moreover have "waits_for_human db' v" if v: "v \<in> set (db_interventions db')" "pending_one v" for v
  proof -
    have "v \<in> set (db_interventions db)" "\<not> P v"
      using v s unfolding ivs by (auto simp: update_where_def pending_one_def split: if_splits)
    then show ?thesis using ok v(2) tasks unfolding waiting_ok_def waits_for_human_def by blast
  qed
  ultimately show ?thesis using ok pending_left [OF _ s] unfolding waiting_ok_def ivs by simp
qed

lemma end_tasks_other: "x \<in> set (db_tasks db) \<Longrightarrow> tk_runId x \<noteq> i \<Longrightarrow> x \<in> set (db_tasks (end_tasks db i s fc now))"
  using update_where_mem [of x "db_tasks db" "\<lambda>t. tk_runId t = i \<and> open_status (tk_status t)"] by (auto simp: end_tasks_def)

text \<open>Cancelling a run and its deadline: all its tasks and interventions end.\<close>

lemma end_run_advances:
  assumes inv: "control_inv db" and s: "ended_status s" "u \<noteq> ''PENDING''" and f: "\<And>x. kept_run x (f x)"
  shows "advances db (add_event (end_interventions (end_tasks (set_runs db Q f) i s fc now) (\<lambda>v. iv_runId v = i) u) e)"
proof (rule rows_advances [OF inv])
  show "rows_kept db (add_event (end_interventions (end_tasks (set_runs db Q f) i s fc now) (\<lambda>v. iv_runId v = i) u) e)"
    using rows_kept_trans [OF quiet_kept [OF quiet_set_runs] end_tasks_kept [OF s(1)], of db Q f i fc now] f
    by (simp add: rows_kept_def)
  have w: "waiting_ok db" using inv by (simp add: control_inv_def)
  show "waiting_ok (add_event (end_interventions (end_tasks (set_runs db Q f) i s fc now) (\<lambda>v. iv_runId v = i) u) e)"
  proof (rule ended_waiting [OF w s(2)])
    show "db_interventions (add_event (end_interventions (end_tasks (set_runs db Q f) i s fc now) (\<lambda>v. iv_runId v = i) u) e) =
        update_where (\<lambda>v. iv_runId v = i \<and> iv_status v = ''PENDING'') (\<lambda>v. v\<lparr>iv_status := u\<rparr>) (db_interventions db)"
      by (simp add: end_interventions_def)
  next
    fix v x assume "\<not> iv_runId v = i" "x \<in> set (db_tasks db)" "task_row_id x = (iv_taskId v, iv_runId v, iv_attemptId v)"
    then show "x \<in> set (db_tasks (add_event (end_interventions (end_tasks (set_runs db Q f) i s fc now) (\<lambda>v. iv_runId v = i) u) e))"
      using end_tasks_other [of x "set_runs db Q f" i s fc now] by (simp add: task_row_id_def)
  qed
qed

lemma cancel_advances:
  assumes "control_inv db" "cancel_run db teamId i now = Inr db'"
  shows "advances db db'"
  using assms(2) end_run_advances [OF assms(1), of "''CANCELLED''" "''CANCELLED''"] ended_run_kept quiet_advances [OF assms(1) quiet_rows_refl]
  by (auto simp: cancel_run_def Let_def ended_status_def split: option.splits if_splits)

lemma expire_run_advances: "control_inv db \<Longrightarrow> advances db (expire_run db r now)"
  using end_run_advances [of db "''TIMED_OUT''" "''EXPIRED''"] ended_run_kept quiet_advances [OF _ quiet_rows_refl]
  by (auto simp: expire_run_def Let_def ended_status_def)

lemma no_interventions_end:
  assumes "control_inv db" "s \<noteq> ''PENDING''"
  shows "advances db (end_interventions db P s)"
proof (rule rows_advances [OF assms(1)])
  show "rows_kept db (end_interventions db P s)" by (rule rows_keptI) (simp_all add: list_all2_refl)
  show "waiting_ok (end_interventions db P s)"
    by (rule ended_waiting [of db s]) (use assms in \<open>simp_all add: control_inv_def end_interventions_def\<close>)
qed

text \<open>\<open>v\<close> is an intervention as it was found in an earlier state.\<close>

definition found_intervention :: "rdb \<Rightarrow> intervention_row \<Rightarrow> bool" where
  "found_intervention db v \<longleftrightarrow> (\<exists>w\<in>set (db_interventions db). iv_id w = iv_id v \<and> iv_taskId w = iv_taskId v
     \<and> iv_runId w = iv_runId v \<and> iv_attemptId w = iv_attemptId v)"

lemma other_pending:
  assumes ok: "waiting_ok db" and w: "w \<in> set (db_interventions db)" "pending_one w"
    and v: "v \<in> set (db_interventions db)" "pending_one v" "iv_id v \<noteq> iv_id w"
  shows "iv_taskId v \<noteq> iv_taskId w"
proof
  assume "iv_taskId v = iv_taskId w"
  moreover have "inj_on iv_taskId (set (filter pending_one (db_interventions db)))" using ok by (simp add: waiting_ok_def distinct_map)
  ultimately have "v = w" using w v(1,2) by (simp add: inj_on_def)
  then show False using v(3) by simp
qed

lemma count_one: "count_rows P xs = 1 \<Longrightarrow> \<exists>x\<in>set xs. P x"
  using filter_one by (auto simp: count_rows_def length_Suc_conv filter_eq_Cons_iff)

text \<open>One pending intervention ends, and its task leaves the wait.\<close>

lemma leave_wait_advances:
  assumes inv: "control_inv db" and w: "w \<in> set (db_interventions db)" "pending_one w" "\<And>v. P v \<longleftrightarrow> iv_id v = iv_id w \<and> Q v" "Q w"
    and s: "s \<noteq> ''PENDING''" and kept: "rows_kept db db'"
    and ivs: "db_interventions db' = update_where (\<lambda>v. P v \<and> iv_status v = ''PENDING'') (\<lambda>v. v\<lparr>iv_status := s\<rparr>) (db_interventions db)"
    and tasks: "\<And>x. x \<in> set (db_tasks db) \<Longrightarrow> tk_id x \<noteq> iv_taskId w \<Longrightarrow> x \<in> set (db_tasks db')"
  shows "advances db db'"
proof (rule rows_advances [OF inv kept])
  have ok: "waiting_ok db" using inv by (simp add: control_inv_def)
  show "waiting_ok db'"
  proof (rule ended_waiting [OF ok s ivs])
    fix v x assume v: "v \<in> set (db_interventions db)" "pending_one v" "\<not> P v" and x: "x \<in> set (db_tasks db)"
        "task_row_id x = (iv_taskId v, iv_runId v, iv_attemptId v)"
    have "iv_id v \<noteq> iv_id w"
    proof
      assume "iv_id v = iv_id w"
      then have "v = w" using ok v(1) w(1) by (simp add: waiting_ok_def distinct_map inj_on_def)
      then show False using v(3) w(3,4) by simp
    qed
    then have "tk_id x \<noteq> iv_taskId w" using other_pending [OF ok w(1,2) v(1,2)] x(2) by (simp add: task_row_id_def)
    then show "x \<in> set (db_tasks db')" by (rule tasks [OF x(1)])
  qed
qed

lemma expire_intervention_advances:
  assumes inv: "control_inv db" and v: "found_intervention db v" and eq: "expire_intervention db v r now = Some db'"
  shows "advances db db'"
proof -
  define cancelled where "cancelled = hp_cancelOnTimeout (py_hitl (ru_executionPolicy r))"
  let ?waiting = "\<lambda>x. ru_id x = iv_runId v \<and> ru_lifecycle x = ''WAITING_HUMAN''"
  let ?expired = "\<lambda>w. expired_intervention v now w \<and> iv_status w = ''PENDING''"
  show ?thesis
  proof (cases "count_rows ?waiting (db_runs db) = 1")
    case False
    then have "db' = end_interventions db (expired_intervention v now) ''EXPIRED''"
      using eq by (simp add: expire_intervention_def Let_def)
    then show ?thesis using no_interventions_end [OF inv] by simp
  next
    case True
    then have one: "count_rows ?expired (db_interventions db) = 1"
      using eq by (auto simp: expire_intervention_def Let_def split: if_splits)
    obtain w where w: "w \<in> set (db_interventions db)" "expired_intervention v now w" "pending_one w"
      using count_one [OF one] by (auto simp: pending_one_def)
    obtain u where u: "u \<in> set (db_interventions db)" "iv_id u = iv_id v" "iv_taskId u = iv_taskId v"
      using v by (auto simp: found_intervention_def)
    then have "u = w" using inv w by (simp add: control_inv_def waiting_ok_def distinct_map inj_on_def expired_intervention_def)
    then have task: "iv_taskId w = iv_taskId v" "iv_id w = iv_id v" using u by simp_all
    define db1 where "db1 = set_runs db ?waiting (\<lambda>x. (ended_run r (if cancelled then ''CANCELLED'' else ''COMPLETED'') now x)
        \<lparr>ru_cancelRequestedAt := (if cancelled then Some now else ru_cancelRequestedAt x)\<rparr>)"
    define db2 where "db2 = end_interventions db1 (expired_intervention v now) ''EXPIRED''"
    define db3 where "db3 = set_tasks db2 (\<lambda>t. tk_id t = iv_taskId v \<and> tk_status t = ''WAITING_HUMAN'')
        (\<lambda>t. t\<lparr>tk_cancelRequestedAt := (if cancelled then Some now else None), tk_status := (if cancelled then ''CANCELLED'' else ''FAILED'')\<rparr>)"
    obtain Q f e where db': "db' = add_event (set_attempts db3 Q f) e" and f: "\<And>a. kept_attempt a (f a)"
      using eq True one unfolding expire_intervention_def Let_def cancelled_def [symmetric] db1_def [symmetric]
        db2_def [symmetric] db3_def [symmetric] by (auto simp: kept_attempt_def)
    have k1: "rows_kept db db1" unfolding db1_def by (intro quiet_kept quiet_set_runs) (rule ended_run_kept)
    have "rows_kept db1 db2" by (rule rows_keptI) (simp_all add: db2_def list_all2_refl)
    moreover have "rows_kept db2 db3"
      unfolding db3_def
      by (rule rows_keptI) (auto intro!: rows_updated ended_row simp: open_status_def ended_status_def)
    moreover have "rows_kept db3 db'"
      unfolding db' by (intro quiet_kept quiet_rows_trans [OF quiet_set_attempts quiet_event(1)]) (rule f)
    ultimately have kept: "rows_kept db db'" using k1 rows_kept_trans by blast
    show ?thesis
    proof (rule leave_wait_advances [OF inv w(1,3) _ _ _ kept])
      show "expired_intervention v now x \<longleftrightarrow> iv_id x = iv_id w \<and> (case iv_expiresAt x of None \<Rightarrow> False | Some e \<Rightarrow> e \<le> now)" for x
        by (simp add: expired_intervention_def task)
      show "case iv_expiresAt w of None \<Rightarrow> False | Some e \<Rightarrow> e \<le> now" using w(2) by (simp add: expired_intervention_def)
      show "db_interventions db' = update_where ?expired (\<lambda>v. v\<lparr>iv_status := ''EXPIRED''\<rparr>) (db_interventions db)"
        by (simp add: db' db3_def db2_def db1_def end_interventions_def)
      show "x \<in> set (db_tasks db')" if x: "x \<in> set (db_tasks db)" "tk_id x \<noteq> iv_taskId w" for x
        using update_where_mem [OF x(1), of "\<lambda>t. tk_id t = iv_taskId v \<and> tk_status t = ''WAITING_HUMAN''"] x(2) task
        by (simp add: db' db3_def db2_def db1_def)
    qed simp
  qed
qed

lemma resumed_row:
  assumes "tk_status x = ''WAITING_HUMAN''"
  shows "row_step x (resumed_task input d x)"
  using assms unfolding row_step_def
  by (auto simp: task_ok_def task_later_def task_row_id_def open_task_def awaiting_recovery_def open_status_def resumed_task_def
      terminalAgent_def)

lemma renew_quiet: "quiet_rows db (renew_session db t d now)"
  by (simp add: renew_session_def quiet_event split: option.split)

lemma resume_advances:
  assumes inv: "control_inv db" and v: "v \<in> set (db_interventions db)" "pending_one v"
  shows "advances db (resume db v t r input d h now)"
proof -
  define db1 where "db1 = (case rs_parent input of
      Some (_, refreshed) \<Rightarrow> set_runs db (\<lambda>x. ru_taskExecutionId x \<noteq> None \<and> ru_taskExecutionId x = ru_taskExecutionId r)
        (\<lambda>x. x\<lparr>ru_parentDeadlineAt := Some refreshed\<rparr>)
    | None \<Rightarrow> db)"
  define db2 where "db2 = set_runs db1 (\<lambda>x. ru_id x = ru_id r) (resumed_run r d h now)"
  define db3 where "db3 = end_interventions db2 (\<lambda>w. iv_id w = iv_id v) ''RESOLVED''"
  define db4 where "db4 = (if rs_newState input \<noteq> None \<and> rs_hadCriteria input
      then db3\<lparr>db_results := update_where (\<lambda>w. cw_attemptId w = iv_attemptId v \<and> cw_runId w = ru_id r)
             (\<lambda>w. w\<lparr>cw_status := V_INCONCLUSIVE\<rparr>) (db_results db3)\<rparr> else db3)"
  define db5 where "db5 = set_tasks db4 (\<lambda>x. tk_id x = iv_taskId v) (resumed_task input d)"
  define db6 where "db6 = set_attempts db5 (\<lambda>a. at_id a = iv_attemptId v) (\<lambda>a. a\<lparr>at_failureClass := None, at_status := ''PENDING''\<rparr>)"
  have res: "resume db v t r input d h now = renew_session (add_event db6 (task_event ''HUMAN'' t r ''human.intervention.resolved'' JNull)) t d now"
    unfolding resume_def Let_def db1_def db2_def db3_def db4_def db5_def db6_def ..
  have ok: "waiting_ok db" "task_inv db" using inv by (simp_all add: control_inv_def)
  obtain x where x: "x \<in> set (db_tasks db)" "tk_id x = iv_taskId v" "tk_status x = ''WAITING_HUMAN''"
    using ok v by (auto simp: waiting_ok_def waits_for_human_def task_row_id_def)
  have tasks4: "db_tasks db4 = db_tasks db"
    by (simp add: db4_def db3_def db2_def db1_def split: option.split)
  have "rows_kept db db1"
    unfolding db1_def by (auto split: option.split intro!: quiet_kept quiet_set_runs simp: kept_run_def)
  moreover have "rows_kept db1 db2"
    unfolding db2_def by (intro quiet_kept quiet_set_runs) (simp add: resumed_run_def kept_run_def)
  moreover have "rows_kept db2 db4" by (rule rows_keptI) (simp_all add: db4_def db3_def list_all2_refl)
  moreover have "rows_kept db4 db5"
    unfolding db5_def
  proof (rule rows_keptI)
    have "row_step y (resumed_task input d y)" if y: "y \<in> set (db_tasks db4)" "tk_id y = iv_taskId v" for y
    proof -
      have "y = x" using task_unique [OF ok(2) x(1)] y x(2) by (simp add: tasks4)
      then show ?thesis using resumed_row x(3) by simp
    qed
    then show "list_all2 row_step (db_tasks db4) (db_tasks (set_tasks db4 (\<lambda>x. tk_id x = iv_taskId v) (resumed_task input d)))"
      by (auto intro!: rows_updated)
  qed (simp_all add: list_all2_refl)
  moreover have "rows_kept db5 (resume db v t r input d h now)"
    unfolding res db6_def
    by (intro quiet_kept quiet_rows_trans [OF quiet_set_attempts quiet_rows_trans [OF quiet_event(1) renew_quiet]])
      (simp add: kept_attempt_def)
  ultimately have kept: "rows_kept db (resume db v t r input d h now)" using rows_kept_trans by blast
  have same: "db_tasks (resume db v t r input d h now) = db_tasks db5"
      "db_interventions (resume db v t r input d h now) = db_interventions db5"
    unfolding res by (simp_all add: db6_def renew_session_def split: option.split)
  show ?thesis
  proof (rule leave_wait_advances [OF inv v, where P = "\<lambda>w. iv_id w = iv_id v" and Q = "\<lambda>_. True" and s = "''RESOLVED''"])
    show "db_interventions (resume db v t r input d h now) =
        update_where (\<lambda>w. iv_id w = iv_id v \<and> iv_status w = ''PENDING'') (\<lambda>v. v\<lparr>iv_status := ''RESOLVED''\<rparr>) (db_interventions db)"
      unfolding same by (simp add: db5_def db4_def db3_def db2_def db1_def end_interventions_def split: option.split)
    show "y \<in> set (db_tasks (resume db v t r input d h now))" if y: "y \<in> set (db_tasks db)" "tk_id y \<noteq> iv_taskId v" for y
      using update_where_mem [OF y(1), of "\<lambda>x. tk_id x = iv_taskId v" "resumed_task input d"] y(2)
      unfolding same by (simp add: db5_def tasks4)
  qed (simp_all add: kept)
qed

lemma resolve_advances:
  assumes inv: "control_inv db" and eq: "resolveIntervention db teamId runId i input now = Inr db'"
  shows "advances db db'"
proof -
  obtain v where v: "List.find (\<lambda>v. iv_id v = i \<and> iv_runId v = runId) (db_interventions db) = Some v"
    using eq by (auto simp: resolveIntervention_def split: option.splits)
  then have mem: "v \<in> set (db_interventions db)" by (auto dest: find_SomeD)
  have "db' = db \<or> iv_status v = ''PENDING'' \<and> (\<exists>t r d h. db' = resume db v t r input d h now)"
    using eq by (auto simp: resolveIntervention_def v split: option.splits if_splits)
  then show ?thesis
    using quiet_advances [OF inv quiet_rows_refl] resume_advances [OF inv mem] by (auto simp: pending_one_def)
qed

section \<open>Creating a run, and runs without a browser\<close>

lemma new_task_fields:
  "tk_id (new_task_row n now) = nr_taskId n" "tk_runId (new_task_row n now) = nr_runId n"
  "tk_attemptId (new_task_row n now) = nr_attemptId n" "task_ok (new_task_row n now)" "open_task (new_task_row n now)"
  by (simp_all add: new_task_row_def task_ok_def awaiting_recovery_def open_task_def open_status_def)

lemma create_inv:
  assumes inv: "task_inv db" and limit: "1 \<le> rp_maxAttempts (py_retry (nr_policy n))"
    and fresh: "nr_runId n \<notin> ru_id ` set (db_runs db)" "nr_attemptId n \<notin> at_id ` set (db_attempts db)"
      "nr_taskId n \<notin> tk_id ` set (db_tasks db)"
    and tables: "db_runs db' = db_runs db @ [new_run_row n now]" "db_attempts db' = db_attempts db @ [new_attempt_row n]"
      "db_tasks db' = db_tasks db @ [new_task_row n now]"
  shows "task_inv db'"
proof -
  have a: "at_runId a \<noteq> nr_runId n" if "a \<in> set (db_attempts db)" for a
    using inv fresh(1) that unfolding task_inv_def by (metis image_eqI)
  have t: "tk_runId t \<noteq> nr_runId n" if "t \<in> set (db_tasks db)" for t
    using inv a that unfolding task_inv_def works_on_def by metis
  have ok: "run_ok (new_run_row n now)" using limit by (simp add: run_ok_def new_run_row_def)
  have d: "distinct (map tk_id (db_tasks db'))" "distinct (map at_id (db_attempts db'))" "distinct (map ru_id (db_runs db'))"
    using inv fresh by (auto simp: tables task_inv_def new_task_fields new_attempt_row_def new_run_row_def)
  have keys: "distinct (map attempt_key (db_attempts db'))"
  proof -
    have "attempt_key (new_attempt_row n) \<notin> attempt_key ` set (db_attempts db)"
      using a by (fastforce simp: attempt_key_def new_attempt_row_def)
    then show ?thesis using inv by (simp add: tables task_inv_def)
  qed
  have opened: "distinct (map tk_runId (filter open_task (db_tasks db')))"
  proof -
    have "nr_runId n \<notin> tk_runId ` set (filter open_task (db_tasks db))" using t by fastforce
    then show ?thesis using inv by (simp add: tables task_inv_def new_task_fields)
  qed
  have works: "task_ok y \<and> (\<exists>x\<in>set (db_attempts db'). works_on y x)" if "y \<in> set (db_tasks db')" for y
  proof (cases "y \<in> set (db_tasks db)")
    case True
    then show ?thesis using inv by (simp add: task_inv_def tables bex_Un)
  next
    case False
    then have "y = new_task_row n now" using that by (simp add: tables)
    then show ?thesis by (simp add: tables works_on_def new_task_fields new_attempt_row_def)
  qed
  have attempts: "\<exists>q\<in>set (db_runs db'). ru_id q = at_runId x \<and> 1 \<le> at_number x \<and> at_number x \<le> ru_currentAttemptNumber q"
    if "x \<in> set (db_attempts db')" for x
  proof (cases "x \<in> set (db_attempts db)")
    case True
    then show ?thesis using inv by (simp add: task_inv_def tables bex_Un)
  next
    case False
    then have "x = new_attempt_row n" using that by (simp add: tables)
    then show ?thesis by (simp add: tables new_attempt_row_def new_run_row_def)
  qed
  have runs: "run_ok q" if "q \<in> set (db_runs db')" for q
    using that inv ok by (auto simp: tables task_inv_def)
  have current: "at_number x = ru_currentAttemptNumber q"
    if m: "y \<in> set (db_tasks db')" "x \<in> set (db_attempts db')" "q \<in> set (db_runs db')"
      and op: "open_task y \<and> works_on y x \<and> ru_id q = tk_runId y" for y x q
  proof (cases "tk_runId y = nr_runId n")
    case True
    have "x \<notin> set (db_attempts db)" using a op True by (auto simp: works_on_def)
    then have x: "x = new_attempt_row n" using m(2) by (simp add: tables)
    have "q \<notin> set (db_runs db)" using op True fresh(1) by (metis image_eqI)
    then have "q = new_run_row n now" using m(3) by (simp add: tables)
    then show ?thesis using x by (simp add: new_attempt_row_def new_run_row_def)
  next
    case False
    have "y \<in> set (db_tasks db)" using m(1) False by (auto simp: tables new_task_fields)
    moreover have "x \<in> set (db_attempts db)" using m(2) op False by (auto simp: tables works_on_def new_attempt_row_def)
    moreover have "q \<in> set (db_runs db)" using m(3) op False by (auto simp: tables new_run_row_def)
    ultimately show ?thesis using inv op unfolding task_inv_def by blast
  qed
  show ?thesis
    unfolding task_inv_def using d keys opened works attempts runs current by blast
qed

lemma create_advances:
  assumes inv: "control_inv db" and eq: "create_run db n now = Inr (db', i)" and limit: "1 \<le> rp_maxAttempts (py_retry (nr_policy n))"
    and fresh: "nr_runId n \<notin> ru_id ` set (db_runs db)" "nr_attemptId n \<notin> at_id ` set (db_attempts db)"
      "nr_taskId n \<notin> tk_id ` set (db_tasks db)"
  shows "advances db db'"
proof (cases "List.find (\<lambda>r. ru_teamId r = nr_teamId n \<and> ru_idempotencyKey r = nr_idempotencyKey n) (db_runs db)")
  case (Some r)
  then have "db' = db \<or> db' = set_runs db (\<lambda>x. ru_id x = ru_id r \<and> ru_taskExecutionId x = None)
      (\<lambda>x. x\<lparr>ru_taskExecutionId := nr_taskExecutionId n\<rparr>)"
    using eq by (auto simp: create_run_def repeated_request_def split: if_splits)
  moreover have "quiet_rows db (set_runs db (\<lambda>x. ru_id x = ru_id r \<and> ru_taskExecutionId x = None)
      (\<lambda>x. x\<lparr>ru_taskExecutionId := nr_taskExecutionId n\<rparr>))"
    by (rule quiet_set_runs) (simp add: kept_run_def)
  ultimately show ?thesis using quiet_advances [OF inv] by auto
next
  case None
  then have tables: "db_runs db' = db_runs db @ [new_run_row n now]" "db_attempts db' = db_attempts db @ [new_attempt_row n]"
      "db_tasks db' = db_tasks db @ [new_task_row n now]" "db_interventions db' = db_interventions db"
    using eq by (auto simp: create_run_def split: if_splits option.splits)
  have "task_inv db" "waiting_ok db" using inv by (simp_all add: control_inv_def)
  then have "control_inv db'"
    using create_inv [OF _ limit fresh tables(1-3)]
    by (auto simp: control_inv_def waiting_ok_def waits_for_human_def tables)
  moreover have "tasks_forward db db'" unfolding tasks_forward_def tables using task_later_refl by fastforce
  ultimately show ?thesis by (simp add: advances_def)
qed

lemma failed_row: "tk_status x = ''PENDING'' \<Longrightarrow> row_step x (x\<lparr>tk_status := ''FAILED''\<rparr>) \<and> keeps_waiting x (x\<lparr>tk_status := ''FAILED''\<rparr>)"
  by (auto simp: row_step_def task_ok_def task_later_def task_row_id_def open_task_def awaiting_recovery_def open_status_def
      keeps_waiting_def terminalAgent_def)

lemma fail_quiet: "quiet_rows db (fail_admission db x teamId now)"
proof -
  have e: "quiet_rows db (set_executions db P f)" for P f by (rule quiet_event)
  have t: "quiet_rows d (set_tasks d (\<lambda>t. tk_attemptId t = i \<and> tk_status t = ''PENDING'') (\<lambda>t. t\<lparr>tk_status := ''FAILED''\<rparr>))" for d i
    by (rule quiet_set_tasks) (simp add: failed_row)
  have a: "quiet_rows d (set_attempts d P (\<lambda>a. a\<lparr>at_failureClass := Some s, at_status := u\<rparr>))" for d P s u
    by (rule quiet_set_attempts) (simp add: kept_attempt_def)
  have r: "quiet_rows d (add_event (set_runs d P (\<lambda>r. r\<lparr>ru_executionDisposition := e, ru_finishedAt := g,
      ru_lifecycle := l, ru_verdict := v\<rparr>)) ev)" for d P e g l v ev
    by (rule quiet_rows_trans [OF quiet_set_runs quiet_event(1)]) (simp add: kept_run_def)
  show ?thesis
    unfolding fail_admission_def Let_def
    by (split if_split) (intro conjI impI quiet_rows_refl quiet_rows_trans [OF e quiet_rows_trans [OF t quiet_rows_trans [OF a r]]])
qed

lemma startup_row:
  "tk_status x = ''PENDING'' \<Longrightarrow> s \<notin> Some ` {''PENDING'', ''CLOSING'', ''HITL_CLOSING''} \<Longrightarrow>
   row_step x (x\<lparr>tk_recoveryStatus := s, tk_recoveryNextAttemptAt := e\<rparr>)
   \<and> keeps_waiting x (x\<lparr>tk_recoveryStatus := s, tk_recoveryNextAttemptAt := e\<rparr>)"
  by (simp add: row_step_def task_ok_def task_later_def task_row_id_def open_task_def awaiting_recovery_def open_status_def
      keeps_waiting_def)

lemma quarantine_quiet: "quiet_rows db (quarantineSession db sid code now)"
  by (rule quiet_rows_same) (simp_all add: quarantineSession_def Let_def)

lemma reserve_quiet:
  assumes inv: "task_inv db"
  shows "quiet_rows db (fst (reserve_startup db t sid now))"
proof (cases "count_rows (\<lambda>x. tk_id x = tk_id t \<and> startup_due x now) (db_tasks db) = 1")
  case False
  then show ?thesis by (simp add: reserve_startup_def Let_def)
next
  case True
  obtain x where x: "x \<in> set (db_tasks db)" "tk_id x = tk_id t" "tk_status x = ''PENDING''"
    using count_one [OF True] by (auto simp: startup_due_def unclaimed_task_def)
  define db1 where "db1 = set_tasks db (\<lambda>x. tk_id x = tk_id t \<and> startup_due x now)
      (\<lambda>x. x\<lparr>tk_recoveryStatus := Some ''STARTUP_CLOSING'', tk_recoveryNextAttemptAt := Some (now + 90000)\<rparr>)"
  define db2 where "db2 = set_tasks db1 (\<lambda>x. tk_id x = tk_id t) (\<lambda>x. x\<lparr>tk_recoveryStatus := None, tk_recoveryNextAttemptAt := None\<rparr>)"
  have q1: "quiet_rows db db1"
    unfolding db1_def by (rule quiet_set_tasks) (rule startup_row, auto simp: startup_due_def unclaimed_task_def)
  have "tk_status y = ''PENDING''" if y: "y \<in> set (db_tasks db1)" "tk_id y = tk_id t" for y
  proof -
    obtain z where "z \<in> set (db_tasks db)" "tk_id z = tk_id y" "tk_status z = tk_status y"
      using y(1) by (auto simp: db1_def update_where_def split: if_splits)
    moreover have "z = x" using task_unique [OF inv x(1)] calculation y(2) x(2) by simp
    ultimately show ?thesis using x(3) by simp
  qed
  then have "quiet_rows db1 db2" unfolding db2_def by (intro quiet_set_tasks startup_row) auto
  then have q2: "quiet_rows db db2" by (rule quiet_rows_trans [OF q1])
  have q3: "quiet_rows db (set_executions (quarantineSession db1 sid ''STARTUP_PERMIT_EXPIRED'' now) P f)" for P f
    by (rule quiet_rows_trans [OF q1 quiet_rows_trans [OF quarantine_quiet quiet_event(3)]])
  show ?thesis
    using True q1 q2 q3 unfolding reserve_startup_def Let_def db1_def [symmetric] db2_def [symmetric]
    by (auto split: option.split)
qed

lemma recover_startup_quiet: "quiet_rows db (recover_startup env db t sid retryAt now token)"
proof -
  define db1 where "db1 = set_tasks db (\<lambda>x. tk_id x = tk_id t \<and> unclaimed_task x \<and> tk_recoveryStatus x = Some ''STARTUP_CLOSING''
      \<and> tk_recoveryNextAttemptAt x = Some retryAt) (\<lambda>x. x\<lparr>tk_recoveryStatus := None, tk_recoveryNextAttemptAt := None\<rparr>)"
  have q1: "quiet_rows db db1"
    unfolding db1_def by (rule quiet_set_tasks) (rule startup_row, auto simp: unclaimed_task_def)
  have q2: "quiet_rows db (fst (releaseVerifiedSessionResources env db1 sid now))"
    by (rule quiet_rows_trans [OF q1 release_quiet_rows])
  have q3: "quiet_rows db (add_event (set_executions (fst (releaseVerifiedSessionResources env db1 sid now)) P f) e)" for P f e
    by (rule quiet_rows_trans [OF q2 quiet_rows_trans [OF quiet_event(3) quiet_event(1)]])
  show ?thesis
    unfolding recover_startup_def Let_def db1_def [symmetric] by (auto simp: q2 q3 split: option.split)
qed

end
