(* ===== verification/RecoveryTasks.thy ===== *)
theory RecoveryTasks
  imports TaskSteps
begin

text \<open>
  The transactions of session recovery (theory \<open>SessionClosure\<close>) keep the rows of tasks, attempts, runs and
  interventions, but for what the end of a session settles of a task that is over.
\<close>

section \<open>Transactions on sessions and recoveries only\<close>

definition same_rows :: "rdb \<Rightarrow> rdb \<Rightarrow> bool" where
  "same_rows db db' \<longleftrightarrow> db_tasks db' = db_tasks db \<and> db_attempts db' = db_attempts db \<and> db_runs db' = db_runs db
     \<and> db_interventions db' = db_interventions db"

lemma same_rows_refl [simp]: "same_rows db db"
  by (simp add: same_rows_def)

lemma same_rows_trans: "same_rows a b \<Longrightarrow> same_rows b c \<Longrightarrow> same_rows a c"
  by (simp add: same_rows_def)

lemma same_rows_quiet: "same_rows db db' \<Longrightarrow> quiet_rows db db'"
  by (simp add: same_rows_def quiet_rows_same)

lemma same_simps [simp]:
  "same_rows db (set_sessions db' P f) = same_rows db db'" "same_rows db (emitRecoveryChanged db' r) = same_rows db db'"
  "same_rows db (db'\<lparr>db_recoveries := rs\<rparr>) = same_rows db db'" "same_rows db (db'\<lparr>db_leases := ls\<rparr>) = same_rows db db'"
  "same_rows db (db'\<lparr>db_evidence := es\<rparr>) = same_rows db db'" "same_rows db (db'\<lparr>db_permits := ps\<rparr>) = same_rows db db'"
  "same_rows db (add_command db' c) = same_rows db db'" "same_rows db (drop_permit db' Q) = same_rows db db'"
  "same_rows db (set_recovery db' i g) = same_rows db db'" "same_rows db (request_close db' r) = same_rows db db'"
  "same_rows db (fst (change_recovery db' r f')) = same_rows db db'" "same_rows db (release_executions db' s) = same_rows db db'"
  "same_rows db (suspend_session db' s now) = same_rows db db'" "same_rows db (adopt_leases db' s r) = same_rows db db'"
  "same_rows db (enrich_evidence db' p s r audit) = same_rows db db'"
  by (simp_all add: same_rows_def add_command_def drop_permit_def set_recovery_def request_close_def change_recovery_def Let_def
      release_executions_def suspend_session_def adopt_leases_def enrich_evidence_def split: option.split)

lemma change_same: "change_recovery db r f = (db', r') \<Longrightarrow> same_rows db db'"
  using same_simps(11) [of db db r f] by simp

lemma refresh_same: "refreshRecoveryWriteOutcome env db s r now = (db', r') \<Longrightarrow> same_rows db db'"
  using refresh_rows [of env db s r now] by (simp add: same_rows_def)

lemma guards_same: "materializeRecoveryGuards env db s r = Inr db' \<Longrightarrow> same_rows db db'"
  by (auto simp: materializeRecoveryGuards_def split: if_splits sum.splits)

lemma guards_unless_same: "guards_unless_observed env db s r ob = Inr db' \<Longrightarrow> same_rows db db'"
  using guards_same by (auto simp: guards_unless_observed_def split: if_splits)

lemma ensure_same:
  assumes "ensureRecovery env db s reason run ob now newId = Inr (db', r)"
  shows "same_rows db db'"
proof (cases "recovery_for db s")
  case None
  then obtain q where "guards_unless_observed env (db\<lparr>db_recoveries := db_recoveries db @ [q]\<rparr>) s q ob = Inr db' \<or>
      (\<exists>d. guards_unless_observed env (db\<lparr>db_recoveries := db_recoveries db @ [q]\<rparr>) s q ob = Inr d \<and> db' = emitRecoveryChanged d q)"
    using assms by (auto simp: ensureRecovery_def Let_def split: sum.splits prod.splits)
  then show ?thesis using guards_unless_same same_rows_trans [of db "db\<lparr>db_recoveries := db_recoveries db @ [q]\<rparr>"] by auto
next
  case (Some r0)
  obtain db1 r1 where ref: "refreshRecoveryWriteOutcome env db s r0 now = (db1, r1)" by fastforce
  obtain db2 where g: "guards_unless_observed env db1 s r1 ob = Inr db2" and res: "db' = db2 \<or> same_rows db2 db'"
    using assms change_same by (cases "guards_unless_observed env db1 s r1 ob") (auto simp: ensureRecovery_def Some ref split: if_splits)
  have "same_rows db db2" by (rule same_rows_trans [OF refresh_same [OF ref] guards_unless_same [OF g]])
  then show ?thesis using res same_rows_trans by blast
qed

lemma request_quiet:
  assumes "request env db sid reason run ex now newId = Inr (db', r)"
  shows "quiet_rows db db'"
proof -
  obtain s0 where s0: "rx_enabled env" "session_of db sid = Some s0"
    using assms by (auto simp: request_def split: if_splits option.splits)
  define healthy where "healthy = (\<not> ex \<and> isHealthySession db s0 now)"
  define db1 where "db1 = (if \<not> healthy \<and> ss_closureVerifiedAt s0 = None then suspend_session db s0 now else db)"
  define s where "s = coalesce (session_of db1 sid) s0"
  define run' where "run' = (if truthy run then run else None)"
  have body: "(case ensureRecovery env db1 s reason run' healthy now newId of Inl e \<Rightarrow> Inl e
      | Inr (db2, r) \<Rightarrow> Inr (if is_verified s then fst (releaseVerifiedSessionResources env db2 sid now) else db2, r)) = Inr (db', r)"
    using assms unfolding request_def s0 option.case Let_def healthy_def [symmetric] db1_def [symmetric] s_def [symmetric]
      run'_def [symmetric] by (simp add: s0)
  obtain db2 where en: "ensureRecovery env db1 s reason run' healthy now newId = Inr (db2, r)"
    and res: "db' = (if is_verified s then fst (releaseVerifiedSessionResources env db2 sid now) else db2)"
    using body by (auto split: sum.splits)
  have "same_rows db db1" by (simp add: db1_def)
  then have "quiet_rows db db2" using same_rows_quiet same_rows_trans ensure_same [OF en] by blast
  then show ?thesis using quiet_rows_trans release_quiet_rows by (simp add: res)
qed

lemma take_permit_same: "take_permit db p P f = Some db' \<Longrightarrow> same_rows db db'"
  by (auto simp: take_permit_def split: option.splits if_splits)

lemma fst_change_same: "same_rows d db \<Longrightarrow> same_rows d (fst (change_recovery db r f))"
  by simp

lemma begin_close_same:
  assumes "begin_close env db rid sid proposed t now token = Inr (db', payload)"
  shows "same_rows db db'"
proof -
  have "same_rows db db1" if "close_permit db p now = Some db1" for p db1
    using that take_permit_same by (simp add: close_permit_def)
  then show ?thesis
    using assms by (auto simp: begin_close_def Let_def case_prod_beta split: option.splits if_splits)
qed

lemma change_if_same: "same_rows db (fst (change_if db r P f))"
  by (simp add: change_if_def Let_def)

lemma wake_same: "same_rows db (fst (wakeRuntime env db runtimeId now))"
proof -
  let ?step = "\<lambda>d r. fst (change_if d r (\<lambda>x. rv_version x = rv_version r \<and> rv_closureEvidenceId x = None) (requested_again now))"
  have "same_rows db (foldl ?step db rs)" for rs
    by (rule foldl_keeps [where P = "same_rows db"]) (simp, erule same_rows_trans, rule change_if_same)
  then show ?thesis by (simp add: wakeRuntime_def Let_def split: option.split)
qed

lemma retry_same: "retry env db who i v now = Inr db' \<Longrightarrow> same_rows db db'"
  using change_if_same by (auto simp: retry_def split: if_splits option.splits prod.splits bool.splits) (metis fst_conv)

lemma resolve_owner_quiet: "quiet_rows db (resolve_owner db s)"
proof -
  have "row_step x (x\<lparr>tk_recoveryStatus := Some ''RESOLVED''\<rparr>) \<and> keeps_waiting x (x\<lparr>tk_recoveryStatus := Some ''RESOLVED''\<rparr>)" for x
    by (simp add: row_step_def task_ok_def task_later_def task_row_id_def open_task_def awaiting_recovery_def keeps_waiting_def)
  then show ?thesis by (auto simp: resolve_owner_def split: option.split intro!: quiet_set_tasks)
qed

lemma finish_quiet:
  assumes "finishRecovery env db who i x now = Inr (db', n)"
  shows "quiet_rows db db'"
proof -
  obtain s r db1 db2 r' f ls P g where "db' = db \<or> materializeRecoveryGuards env (resolve_owner db s) s r = Inr db1
      \<and> change_recovery db1 r f = (db2, r') \<and> db' = set_sessions (db2\<lparr>db_leases := ls\<rparr>) P g"
    using assms by (fastforce simp: finishRecovery_def Let_def split: if_splits option.splits sum.splits prod.splits)
  moreover have "quiet_rows db db2" if "materializeRecoveryGuards env (resolve_owner db s) s r = Inr db1" "change_recovery db1 r f = (db2, r')"
    using quiet_rows_trans [OF resolve_owner_quiet same_rows_quiet [OF same_rows_trans [OF guards_same [OF that(1)] change_same [OF that(2)]]]] .
  moreover have "quiet_rows db2 (set_sessions (db2\<lparr>db_leases := ls\<rparr>) P g)" by (rule same_rows_quiet) simp
  ultimately show ?thesis using quiet_rows_trans quiet_rows_refl by metis
qed

lemma close_session_same: "close_session db s i now = Some db' \<Longrightarrow> same_rows db db'"
  by (auto simp: close_session_def Let_def split: if_splits)

lemma drop_same [simp]: "same_rows (drop_permit db P) db' = same_rows db db'"
  by (simp add: same_rows_def drop_permit_def)

lemma commit_quiet:
  assumes eq: "commitEvidence env db s r0 p now rowId = Inr db'"
  shows "quiet_rows db db'"
proof -
  obtain db1 r where ref: "refreshRecoveryWriteOutcome env db s r0 now = (db1, r)" by fastforce
  note one = same_rows_quiet [OF refresh_same [OF ref]]
  show ?thesis
  proof (cases "is_verified s")
    case True
    then have "db' = fst (releaseVerifiedSessionResources env db1 (ss_id s) now)"
      using eq by (simp add: commitEvidence_def ref Let_def split: if_splits)
    then show ?thesis using quiet_rows_trans [OF one release_quiet_rows] by simp
  next
    case False
    define prior where "prior = find_by ev_evidenceId (cr_evidenceId p) (db_evidence db1)"
    obtain db2 where g: "materializeRecoveryGuards env db1 s r = Inr db2"
      using eq False by (auto simp: commitEvidence_def ref Let_def split: if_splits sum.splits)
    define e where "e = (case prior of None \<Rightarrow> new_evidence env s r p now rowId | Some e \<Rightarrow> e)"
    define db3 where "db3 = (if prior = None then db2\<lparr>db_evidence := db_evidence db2 @ [e]\<rparr> else db2)"
    obtain db4 where cl: "close_session db3 s (ev_id e) now = Some db4"
      using eq False g unfolding commitEvidence_def ref Let_def prod.case prior_def [symmetric] e_def [symmetric] db3_def [symmetric]
      by (auto simp: e_def [symmetric] db3_def [symmetric] split: if_splits option.splits)
    define db5 where "db5 = set_recovery db4 (rv_id r) (\<lambda>x. next_version (verified_by (ev_id e) now r x))"
    define db6 where "db6 = fst (releaseVerifiedSessionResources env db5 (ss_id s) now)"
    have db': "same_rows db6 db'"
      using eq False g cl unfolding commitEvidence_def ref Let_def prod.case prior_def [symmetric] e_def [symmetric] db3_def [symmetric]
        db5_def [symmetric] db6_def [symmetric]
      by (auto simp: e_def [symmetric] db3_def [symmetric] db5_def [symmetric] db6_def [symmetric] split: if_splits)
    have "same_rows db1 db3" using guards_same [OF g] by (simp add: db3_def)
    then have "same_rows db1 db5" using close_session_same [OF cl] same_rows_trans unfolding db5_def same_simps(9) by blast
    then have "quiet_rows db db5" using one same_rows_quiet quiet_rows_trans by blast
    moreover have "quiet_rows db5 db6" by (simp add: db6_def release_quiet_rows)
    ultimately show ?thesis using same_rows_quiet [OF db'] quiet_rows_trans by blast
  qed
qed

lemma runtime_evidence_quiet:
  assumes "acceptRuntimeEvidence env db c p audit now rowId = Inr db'"
  shows "quiet_rows db db'"
proof -
  obtain db1 s r x where "commitEvidence env db1 s r x now rowId = Inr db'" "same_rows db db1"
    using assms by (cases "proof_refused env db c p") (auto simp: acceptRuntimeEvidence_def Let_def split: if_splits)
  then show ?thesis using commit_quiet same_rows_quiet quiet_rows_trans by blast
qed

lemma ensured_commit_quiet:
  assumes "ensureRecovery env db s reason run False now newId = Inr (db1, r)" "commitEvidence env db1 s r p now rowId = Inr db'"
  shows "quiet_rows db db'"
  using same_rows_quiet [OF ensure_same [OF assms(1)]] commit_quiet [OF assms(2)] by (rule quiet_rows_trans)

lemma never_launched_quiet: "acceptNeverLaunched env db sid fence token now newId evidenceId rowId = Inr db' \<Longrightarrow> quiet_rows db db'"
  by (auto simp: acceptNeverLaunched_def intro: ensured_commit_quiet split: if_splits option.splits sum.splits)

lemma admin_drain_quiet:
  "acceptAdminDrainEvidence env db sid fence digest evidenceId drainId refs now newId rowId = Inr db' \<Longrightarrow> quiet_rows db db'"
  by (auto simp: acceptAdminDrainEvidence_def intro: ensured_commit_quiet split: if_splits option.splits sum.splits)

lemma failure_same:
  assumes eq: "recordFailure env db f now jitter newId = Inr (db', b)"
  shows "same_rows db db'"
proof (cases "db' = db")
  case False
  then obtain s where s: "session_of db (cf_sessionId f) = Some s"
    using eq by (auto simp: recordFailure_def split: if_splits option.splits)
  then obtain db1 r where en: "ensureRecovery env db s (cf_errorCode f) None False now newId = Inr (db1, r)"
    using eq False by (cases "ensureRecovery env db s (cf_errorCode f) None False now newId") (auto simp: recordFailure_def split: if_splits)
  have "same_rows db1 db'" using eq False by (auto simp: recordFailure_def s en Let_def split: if_splits)
  then show ?thesis using ensure_same [OF en] same_rows_trans by blast
qed simp

lemma defer_same [simp]: "same_rows db (deferWithoutDispatch db' r state code t) = same_rows db db'"
  by (simp add: deferWithoutDispatch_def)

lemma claim_one_same:
  assumes "claim_one db r now token newCommandId = Inr (db', c)"
  shows "same_rows db db'"
proof -
  have "same_rows db d" if "claim_permit db p now = Some d" for d p using that take_permit_same by (simp add: claim_permit_def)
  then show ?thesis using assms by (auto simp: claim_one_def Let_def split: if_splits option.splits)
qed

lemma claim_rows_same: "claim_rows ids now fresh db = Inr (db', rows) \<Longrightarrow> same_rows db db'"
proof (induction ids arbitrary: db db' rows)
  case (Cons i ids)
  then obtain r db1 c rest where "claim_one db r now (fst (fresh i)) (snd (fresh i)) = Inr (db1, c)"
      "claim_rows ids now fresh db1 = Inr (db', rest)"
    by (auto split: option.splits sum.splits)
  then show ?case using claim_one_same Cons.IH same_rows_trans by blast
qed simp

lemma renew_same: "same_rows db (renew_claim db r now)"
  by (simp add: renew_claim_def Let_def same_rows_def)

lemma let_go_same: "same_rows db (release_claim db r)"
  by (simp add: release_claim_def split: option.split)

lemma recovery_transaction_quiet: "recovery_transaction env db db' \<Longrightarrow> quiet_rows db db'"
  by (induction rule: recovery_transaction.induct)
    (auto intro: request_quiet same_rows_quiet begin_close_same wake_same retry_same finish_quiet runtime_evidence_quiet
      never_launched_quiet admin_drain_quiet failure_same claim_rows_same renew_same let_go_same quarantine_quiet
      release_data_quiet_rows simp: claim_def)

end
