(* ===== verification/TaskSafety.thy ===== *)
theory TaskSafety
  imports RecoveryTasks
begin

text \<open>
  Everything the control plane does to the tasks of agent runtimes, as steps, and what holds of every state they
  reach: who may act on a task, how often it is tried, and what an accepted outcome fixes.
\<close>

section \<open>Steps\<close>

text \<open>The identifiers drawn are new, the completion id a worker sends is not empty and a run allows one attempt at
  least, as the schemas of the requests demand. A row that a transaction was found with (\<open>lost\<close>, \<open>wait_over\<close>) may have
  changed since. Each claim is one of the transactions of \<open>claim_task\<close>. Deleting a task is left out.\<close>

inductive control_step :: "task_env \<Rightarrow> rdb \<Rightarrow> rdb \<Rightarrow> bool" for te where
  lost: "control_step te db (lose_lease db t now)"
| deferred: "control_step te db (defer_recovery db t now)"
| settled: "settle_recovery (te_recovery te) db teamId taskId ex now ai ti = Inr db' \<Longrightarrow>
    ti \<notin> tk_id ` set (db_tasks db) \<Longrightarrow> ai \<notin> at_id ` set (db_attempts db) \<Longrightarrow> control_step te db db'"
| claimed_one: "claim_once te db teamId ci skipped now token = Inr (db', res) \<Longrightarrow> control_step te db db'"
| beaten: "heartbeat te db teamId taskId c now = Inr (db', d) \<Longrightarrow> control_step te db db'"
| reported: "appendEvent te db teamId taskId c e now recordedAt = Inr db' \<Longrightarrow> control_step te db db'"
| submitted: "submitOutcome te db teamId taskId c input now ids = Inr (db', k) \<Longrightarrow> oi_completionId input \<noteq> [] \<Longrightarrow>
    fi_taskId ids \<notin> tk_id ` set (db_tasks db) \<Longrightarrow> fi_attemptId ids \<notin> at_id ` set (db_attempts db) \<Longrightarrow>
    fi_interventionId ids \<notin> iv_id ` set (db_interventions db) \<Longrightarrow> control_step te db db'"
| created: "create_run db n now = Inr (db', i) \<Longrightarrow> 1 \<le> rp_maxAttempts (py_retry (nr_policy n)) \<Longrightarrow>
    nr_runId n \<notin> ru_id ` set (db_runs db) \<Longrightarrow> nr_attemptId n \<notin> at_id ` set (db_attempts db) \<Longrightarrow>
    nr_taskId n \<notin> tk_id ` set (db_tasks db) \<Longrightarrow> control_step te db db'"
| cancelled: "cancel_run db teamId i now = Inr db' \<Longrightarrow> control_step te db db'"
| timed_out: "control_step te db (expire_run db r now)"
| wait_over: "found_intervention db v \<Longrightarrow> expire_intervention db v r now = Some db' \<Longrightarrow> control_step te db db'"
| answered: "resolveIntervention db teamId runId i answer now = Inr db' \<Longrightarrow> control_step te db db'"
| not_admitted: "control_step te db (fail_admission db x teamId now)"
| startup_lost: "control_step te db (fst (reserve_startup db t sid now))"
| startup_over: "control_step te db (recover_startup (te_recovery te) db t sid retryAt now token)"
| recovered: "recovery_transaction (te_recovery te) db db' \<Longrightarrow> control_step te db db'"
| elsewhere: "same_rows db db' \<Longrightarrow> control_step te db db'"

definition control_run :: "task_env \<Rightarrow> rdb \<Rightarrow> rdb \<Rightarrow> bool" where
  "control_run te = (control_step te)\<^sup>*\<^sup>*"

definition reachable_control :: "task_env \<Rightarrow> rdb \<Rightarrow> bool" where
  "reachable_control te db \<longleftrightarrow> (\<exists>db0. db_tasks db0 = [] \<and> db_attempts db0 = [] \<and> db_runs db0 = [] \<and> db_interventions db0 = []
     \<and> control_run te db0 db)"

lemma submitted_advances:
  assumes inv: "control_inv db" and eq: "submitOutcome te db teamId taskId c input now ids = Inr (db', k)"
    and fresh: "oi_completionId input \<noteq> []" "fi_taskId ids \<notin> tk_id ` set (db_tasks db)"
      "fi_attemptId ids \<notin> at_id ` set (db_attempts db)" "fi_interventionId ids \<notin> iv_id ` set (db_interventions db)"
  shows "advances db db'"
proof -
  obtain t a r where found: "findTask db teamId taskId = Some (t, a, r)"
    using eq by (auto simp: submitOutcome_def split: option.splits)
  have "db' = db \<or> lockCurrentLease t c now \<and> settle_outcome te db t a r input (audited_outcome db t (oi_outcome input)) now ids = Inr db'"
    using eq by (auto simp: submitOutcome_def found Let_def split: if_splits option.splits sum.splits)
  moreover have "task_ok t" using inv findTaskD(1) [OF _ found] by (auto simp: control_inv_def task_inv_def)
  ultimately show ?thesis
    using quiet_advances [OF inv quiet_rows_refl] settle_outcome_advances [OF inv found leased_running fresh(1) _ fresh(2-)] by blast
qed

lemma step_advances:
  assumes "control_inv db" "control_step te db db'"
  shows "advances db db'"
  using assms(2)
proof cases
  case lost
  then show ?thesis using quiet_advances [OF assms(1) lose_lease_quiet] by simp
next
  case deferred
  then show ?thesis using quiet_advances [OF assms(1) defer_quiet_rows] by simp
next
  case settled
  then show ?thesis using settle_recovery_advances [OF assms(1)] by blast
next
  case claimed_one
  then show ?thesis using quiet_advances claim_once_quiet assms(1) by (auto simp: control_inv_def)
next
  case beaten
  then show ?thesis using quiet_advances [OF assms(1)] heartbeat_quiet by blast
next
  case reported
  then show ?thesis using quiet_advances [OF assms(1)] append_quiet by blast
next
  case submitted
  then show ?thesis using submitted_advances [OF assms(1)] by blast
next
  case created
  then show ?thesis using create_advances [OF assms(1)] by blast
next
  case cancelled
  then show ?thesis using cancel_advances [OF assms(1)] by blast
next
  case timed_out
  then show ?thesis using expire_run_advances [OF assms(1)] by simp
next
  case wait_over
  then show ?thesis using expire_intervention_advances [OF assms(1)] by blast
next
  case answered
  then show ?thesis using resolve_advances [OF assms(1)] by blast
next
  case not_admitted
  then show ?thesis using quiet_advances [OF assms(1) fail_quiet] by simp
next
  case startup_lost
  then show ?thesis using quiet_advances [OF assms(1) reserve_quiet] assms(1) by (simp add: control_inv_def)
next
  case startup_over
  then show ?thesis using quiet_advances [OF assms(1) recover_startup_quiet] by simp
next
  case recovered
  then show ?thesis using quiet_advances [OF assms(1) recovery_transaction_quiet] by blast
next
  case elsewhere
  then show ?thesis using quiet_advances [OF assms(1) same_rows_quiet] by blast
qed

interpretation control: step_system "control_step te" control_inv tasks_forward for te
proof unfold_locales
  show "tasks_forward db db" for db by simp
  show "tasks_forward a b \<Longrightarrow> tasks_forward b c \<Longrightarrow> tasks_forward a c" for a b c by (rule tasks_forward_trans)
  show "control_inv db \<Longrightarrow> control_step te db db' \<Longrightarrow> control_inv db' \<and> tasks_forward db db'" for db db'
    using step_advances by (simp add: advances_def)
qed

lemma control_forward: "control_run te db db' \<Longrightarrow> control_inv db \<Longrightarrow> control_inv db' \<and> tasks_forward db db'"
  unfolding control_run_def by (rule control.run_forward)

lemma reachable_control_inv: "reachable_control te db \<Longrightarrow> control_inv db"
proof -
  assume "reachable_control te db"
  then obtain db0 where e: "db_tasks db0 = []" "db_attempts db0 = []" "db_runs db0 = []" "db_interventions db0 = []"
    and r: "control_run te db0 db"
    unfolding reachable_control_def by blast
  have "control_inv db0" using e by (simp add: control_inv_def task_inv_def waiting_ok_def)
  then show ?thesis using control_forward [OF r] by blast
qed

lemma reach_step: "reachable_control te db \<Longrightarrow> control_step te db db' \<Longrightarrow> reachable_control te db'"
  unfolding reachable_control_def control_run_def by (meson rtranclp.rtrancl_into_rtrancl)

text \<open>A task of a reached state as it is found later.\<close>

lemma found_later:
  assumes "reachable_control te db" "control_run te db db'" "t \<in> set (db_tasks db)" "findTask db' teamId (tk_id t) = Some (t', a, r)"
  shows "task_later t t'" "task_ok t'" "t' \<in> set (db_tasks db')" "control_inv db'"
proof -
  have f: "control_inv db'" "tasks_forward db db'" using control_forward assms(2) reachable_control_inv [OF assms(1)] by blast+
  then have ti: "task_inv db'" by (simp add: control_inv_def)
  obtain x where x: "x \<in> set (db_tasks db')" "task_later t x" using f(2) assms(3) unfolding tasks_forward_def by blast
  note F = findTaskD [OF ti assms(4)]
  have "x = t'" using task_unique [OF ti x(1)] F task_later_id [OF x(2)] by auto
  then show "task_later t t'" "task_ok t'" "t' \<in> set (db_tasks db')" "control_inv db'"
    using x f(1) ti by (auto simp: task_inv_def)
qed

section \<open>Who may act on a task\<close>

lemma heartbeat_leased:
  assumes "heartbeat te db teamId taskId c now = Inr d"
  shows "\<exists>t a r. findTask db teamId taskId = Some (t, a, r) \<and> requireLease t c now"
  using assms by (auto simp: heartbeat_def split: option.splits if_splits)

lemma append_leased:
  assumes "appendEvent te db teamId taskId c e now recordedAt = Inr d"
  shows "\<exists>t a r. findTask db teamId taskId = Some (t, a, r) \<and> requireLease t c now"
  using assms by (auto simp: appendEvent_def lockCurrentLease_def split: option.splits if_splits)

lemma submit_leased:
  assumes "submitOutcome te db teamId taskId c input now ids = Inr (d, k)" "d \<noteq> db"
  shows "\<exists>t a r. findTask db teamId taskId = Some (t, a, r) \<and> requireLease t c now"
  using assms by (auto simp: submitOutcome_def lockCurrentLease_def split: option.splits if_splits)

lemma lease_gone:
  assumes "task_later t t'" "f < tk_fencingToken t \<or> f = tk_fencingToken t \<and> tk_leaseOwner t = None" "lc_fencingToken c = decimal f"
  shows "\<not> requireLease t' c now"
  using assms by (auto simp: task_later_def requireLease_def)

text \<open>C4: Once the lease of a task was given up or its fencing token superseded, no worker acts under that token again:
  in every later state a heartbeat and an event with it are refused, and an outcome is refused or, when the same
  completion was accepted before, acknowledged without any change.\<close>

theorem superseded_lease_refused:
  assumes "reachable_control te db" "control_run te db db'" "t \<in> set (db_tasks db)"
    and "f < tk_fencingToken t \<or> f = tk_fencingToken t \<and> tk_leaseOwner t = None" "lc_fencingToken c = decimal f"
  shows "isl (heartbeat te db' teamId (tk_id t) c now) \<and> isl (appendEvent te db' teamId (tk_id t) c e now recordedAt)
    \<and> (case submitOutcome te db' teamId (tk_id t) c input now ids of Inl _ \<Rightarrow> True | Inr (d, _) \<Rightarrow> d = db')"
proof (intro conjI)
  have gone: "\<not> requireLease t' c now" if "findTask db' teamId (tk_id t) = Some (t', a, r)" for t' a r
    by (rule lease_gone [OF found_later(1) [OF assms(1-3) that] assms(4,5)])
  show "isl (heartbeat te db' teamId (tk_id t) c now)"
  proof (cases "heartbeat te db' teamId (tk_id t) c now")
    case (Inr d)
    then show ?thesis using heartbeat_leased [OF Inr] gone by blast
  qed simp
  show "isl (appendEvent te db' teamId (tk_id t) c e now recordedAt)"
  proof (cases "appendEvent te db' teamId (tk_id t) c e now recordedAt")
    case (Inr d)
    then show ?thesis using append_leased [OF Inr] gone by blast
  qed simp
  show "case submitOutcome te db' teamId (tk_id t) c input now ids of Inl _ \<Rightarrow> True | Inr (d, _) \<Rightarrow> d = db'"
  proof (cases "submitOutcome te db' teamId (tk_id t) c input now ids")
    case (Inr x)
    then show ?thesis using submit_leased [of te db' teamId "tk_id t" c input now ids] gone by (cases x) fastforce
  qed simp
qed

text \<open>C13: A fencing token belongs to one worker and one lease token: whatever is accepted under it, now and later, comes
  with the same credentials.\<close>

theorem lease_holder_unique:
  assumes "reachable_control te db" "control_run te db db'"
    and "heartbeat te db teamId taskId c now = Inr d"
    and "heartbeat te db' teamId' taskId c' now' = Inr d' \<or> appendEvent te db' teamId' taskId c' e now' recordedAt = Inr d''"
    and "lc_fencingToken c' = lc_fencingToken c"
  shows "c' = c"
proof -
  obtain t a r where t: "findTask db teamId taskId = Some (t, a, r)" "requireLease t c now" using heartbeat_leased [OF assms(3)] by blast
  have "task_inv db" using reachable_control_inv [OF assms(1)] by (simp add: control_inv_def)
  note F = findTaskD [OF this t(1)]
  obtain t' a' r' where t': "findTask db' teamId' taskId = Some (t', a', r')" "requireLease t' c' now'"
    using assms(4)
  proof
    assume "heartbeat te db' teamId' taskId c' now' = Inr d'"
    then show ?thesis using heartbeat_leased that by blast
  next
    assume "appendEvent te db' teamId' taskId c' e now' recordedAt = Inr d''"
    then show ?thesis using append_leased that by blast
  qed
  have "findTask db' teamId' (tk_id t) = Some (t', a', r')" using t'(1) F(2) by simp
  then have "task_later t t'" by (rule found_later(1) [OF assms(1,2) F(1)])
  then show ?thesis
    using t(2) t'(2) assms(5) decimal_inject by (cases c; cases c') (auto simp: requireLease_def task_later_def)
qed

section \<open>How often a task is tried\<close>

text \<open>C3: In every state the control plane reaches: a run has at most one task that can still act; its attempts have
  different numbers, from one up to the limit of the run; at most one retry was due to lost infrastructure; a task that can
  be claimed or is worked on has no accepted completion, and one that can be claimed no lease; an intervention that is
  pending has a task that waits for it, which has no other.\<close>

theorem control_state_sound:
  assumes "reachable_control te db"
  shows "distinct (map tk_runId (filter open_task (db_tasks db))) \<and> distinct (map attempt_key (db_attempts db))
    \<and> (\<forall>a\<in>set (db_attempts db). \<exists>r\<in>set (db_runs db). ru_id r = at_runId a \<and> 1 \<le> at_number a \<and> at_number a \<le> ru_maxAttempts r)
    \<and> (\<forall>r\<in>set (db_runs db). ru_infrastructureRecoveryCount r \<le> 1)
    \<and> (\<forall>t\<in>set (db_tasks db). (tk_status t \<in> {''PENDING'', ''RUNNING''} \<longrightarrow> tk_completionId t = None)
         \<and> (tk_status t = ''PENDING'' \<longrightarrow> tk_leaseOwner t = None))
    \<and> distinct (map iv_taskId (filter pending_one (db_interventions db)))
    \<and> (\<forall>v\<in>set (db_interventions db). pending_one v \<longrightarrow> waits_for_human db v)"
proof (intro conjI)
  have inv: "task_inv db" "waiting_ok db" using reachable_control_inv [OF assms] by (simp_all add: control_inv_def)
  show "distinct (map tk_runId (filter open_task (db_tasks db)))" "distinct (map attempt_key (db_attempts db))"
    using inv(1) by (simp_all add: task_inv_def)
  show "\<forall>a\<in>set (db_attempts db). \<exists>r\<in>set (db_runs db). ru_id r = at_runId a \<and> 1 \<le> at_number a \<and> at_number a \<le> ru_maxAttempts r"
    using inv(1) unfolding task_inv_def run_ok_def by (meson le_trans)
  show "\<forall>r\<in>set (db_runs db). ru_infrastructureRecoveryCount r \<le> 1" using inv(1) by (simp add: task_inv_def run_ok_def)
  show "\<forall>t\<in>set (db_tasks db). (tk_status t \<in> {''PENDING'', ''RUNNING''} \<longrightarrow> tk_completionId t = None)
       \<and> (tk_status t = ''PENDING'' \<longrightarrow> tk_leaseOwner t = None)"
    using inv(1) by (auto simp: task_inv_def task_ok_def)
  show "distinct (map iv_taskId (filter pending_one (db_interventions db)))"
    "\<forall>v\<in>set (db_interventions db). pending_one v \<longrightarrow> waits_for_human db v"
    using inv(2) by (simp_all add: waiting_ok_def)
qed

section \<open>What an accepted outcome fixes\<close>

text \<open>C8: An accepted outcome that ends the task is final: in every later state the task has the same status, completion
  and result, and submitting the completion again, under whatever lease, is acknowledged with that status and changes nothing.\<close>

theorem completed_outcome_final:
  assumes "reachable_control te db" "control_run te db db'" "t \<in> set (db_tasks db)"
    and "tk_completionId t = Some (oi_completionId input)" "terminalAgent (tk_status t)"
  shows "(\<exists>t'\<in>set (db_tasks db'). tk_id t' = tk_id t \<and> tk_status t' = tk_status t \<and> tk_completionId t' = tk_completionId t
       \<and> tk_result t' = tk_result t)
    \<and> (case submitOutcome te db' teamId (tk_id t) c input now ids of Inl e \<Rightarrow> e = Task_Missing
       | Inr (d, k) \<Rightarrow> d = db' \<and> ak_taskStatus k = normalizeAcknowledgedTaskStatus (tk_status t))"
proof (intro conjI)
  have f: "tasks_forward db db'" using control_forward assms(2) reachable_control_inv [OF assms(1)] by blast
  then show "\<exists>t'\<in>set (db_tasks db'). tk_id t' = tk_id t \<and> tk_status t' = tk_status t \<and> tk_completionId t' = tk_completionId t
       \<and> tk_result t' = tk_result t"
    using assms(3-5) unfolding tasks_forward_def task_later_def task_row_id_def by fastforce
  show "case submitOutcome te db' teamId (tk_id t) c input now ids of Inl e \<Rightarrow> e = Task_Missing
       | Inr (d, k) \<Rightarrow> d = db' \<and> ak_taskStatus k = normalizeAcknowledgedTaskStatus (tk_status t)"
  proof (cases "findTask db' teamId (tk_id t)")
    case None
    then show ?thesis by (simp add: submitOutcome_def)
  next
    case (Some x)
    obtain t' a r where x: "x = (t', a, r)" by (cases x)
    note L = found_later [OF assms(1-3) Some [unfolded x]]
    have "tk_completionId t' = Some (oi_completionId input)" "tk_status t' = tk_status t"
      using L(1) assms(4,5) by (simp_all add: task_later_def)
    moreover from this have "truthy (tk_completionId t')" using L(2) by (cases "oi_completionId input") (auto simp: task_ok_def)
    ultimately show ?thesis by (simp add: submitOutcome_def Some x)
  qed
qed

section \<open>A run, its first worker and its outcome\<close>

definition sample_te :: task_env where
  "sample_te = \<lparr>te_recovery = sample_env, te_leaseMs = 60000, te_bindings_ok = (\<lambda>_ _. True), te_references_ok = (\<lambda>_ _ _. True),
     te_request_ok = (\<lambda>_ _. True), te_accounts = (\<lambda>_. []), te_claims = (\<lambda>_. [])\<rparr>"

definition sample_adaptive :: run_policy where
  "sample_adaptive = \<lparr>py_browser = Some WAIT, py_retry = \<lparr>rp_maxAttempts = 2, rp_retryOn = [F_PROVIDER]\<rparr>,
     py_deadline = AdaptiveDeadline \<lparr>ap_extensionStepSeconds = 60, ap_finalizationReserveSeconds = 30,
       ap_slowModelThresholdSeconds = 10, ap_maxExtensionSeconds = 600, ap_refundHumanWait = True\<rparr>,
     py_hitl = \<lparr>hp_enabled = True, hp_timeoutSeconds = 3600, hp_cancelOnTimeout = False\<rparr>\<rparr>"

definition sample_new :: new_run where
  "sample_new = \<lparr>nr_teamId = ''team'', nr_idempotencyKey = ''key'', nr_taskExecutionId = None, nr_sourceKind = ''API'',
     nr_request = JStr ''request'', nr_criteria = [\<lparr>kr_id = ''c'', kr_required = True, kr_requiredEvidenceKinds = [K_DOM],
       kr_observationTargets = []\<rparr>], nr_targetCount = 0, nr_comparisonCount = 0, nr_criteriaValid = True,
     nr_observationV2 = True, nr_needs = \<lparr>nd_contractVersions = [], nd_accountRequirements = False, nd_protocol26 = False,
       nd_typedChecks = False\<rparr>, nr_environment = JObj [], nr_policy = sample_adaptive, nr_hasBrowser = True,
     nr_deadlineSeconds = 300, nr_parentDeadlineAt = None, nr_runId = ''run'', nr_attemptId = ''a1'', nr_taskId = ''t1''\<rparr>"

definition sample_browser :: session_row where
  "sample_browser = sample_session\<lparr>ss_ownerTaskId := None, ss_ownerFencingToken := None, ss_leaseExpiresAt := 1000000,
     ss_executionPermitExpiresAt := Some 1000000\<rparr>"

definition sample_queued :: rdb where
  "sample_queued = result sample_empty (create_run sample_empty sample_new 0)"

text \<open>Elsewhere the execution gets its browser and evidence is stored.\<close>

definition sample_ready :: rdb where
  "sample_ready = sample_queued\<lparr>db_sessions := [sample_browser],
     db_executions := map (\<lambda>x. x\<lparr>bx_runtimeSessionId := Some ''s'', bx_status := ''ACTIVE''\<rparr>) (db_executions sample_queued),
     db_runEvidence := [\<lparr>vd_runId = ''run'', vd_attemptId = ''a1'', vd_externalId = ''e1'', vd_kind = ''DOM''\<rparr>]\<rparr>"

definition sample_claim :: claim_input where
  "sample_claim = \<lparr>ci_workerId = ''worker'', ci_capabilities = [''BROWSER_VERIFICATION''], ci_features = [''typed-checks-v1''],
     ci_protocolMinor = 26\<rparr>"

definition sample_running :: rdb where
  "sample_running = result sample_ready (claim_once sample_te sample_ready ''team'' sample_claim [] 100 ''lease'')"

definition sample_worker :: credentials where
  "sample_worker = \<lparr>lc_workerId = ''worker'', lc_leaseToken = ''lease'', lc_fencingToken = ''1''\<rparr>"

definition first_task :: "rdb \<Rightarrow> agent_task" where
  "first_task db = hd (db_tasks db)"

definition sample_lost :: rdb where
  "sample_lost = lose_lease sample_running (first_task sample_running) 100000"

definition sample_passed :: verification where
  "sample_passed = \<lparr>vf_verdict = V_PASSED, vf_termination = None,
     vf_criteria = [\<lparr>cx_criterionId = ''c'', cx_status = V_PASSED, cx_evidenceRefs = [''e1'']\<rparr>],
     vf_evidence = [\<lparr>ef_externalId = ''e1'', ef_kind = K_DOM\<rparr>], vf_catalog = None\<rparr>"

definition sample_input :: outcome_input where
  "sample_input = \<lparr>oi_completionId = ''done'', oi_completedAt = 200, oi_outcome = Verified sample_passed\<rparr>"

definition sample_ids :: fresh_ids where
  "sample_ids = \<lparr>fi_attemptId = ''a2'', fi_taskId = ''t2'', fi_interventionId = ''i1''\<rparr>"

definition sample_completed :: rdb where
  "sample_completed = result sample_running (submitOutcome sample_te sample_running ''team'' ''t1'' sample_worker sample_input 200 sample_ids)"

lemma sample_created: "create_run sample_empty sample_new 0 = Inr (sample_queued, ''run'')"
proof -
  have "map_sum (\<lambda>_. ()) snd (create_run sample_empty sample_new 0) = Inr ''run''" by code_simp
  then show ?thesis unfolding sample_queued_def by (auto simp: result_def map_sum_def split: sum.splits)
qed

lemma sample_claimed:
  "claim_once sample_te sample_ready ''team'' sample_claim [] 100 ''lease'' = Inr (sample_running,
     snd (projr (claim_once sample_te sample_ready ''team'' sample_claim [] 100 ''lease'')))"
proof -
  have "\<not> isl (claim_once sample_te sample_ready ''team'' sample_claim [] 100 ''lease'')" by code_simp
  then show ?thesis unfolding sample_running_def by (rule Inr_result)
qed

lemma sample_submitted:
  "submitOutcome sample_te sample_running ''team'' ''t1'' sample_worker sample_input 200 sample_ids = Inr (sample_completed,
     snd (projr (submitOutcome sample_te sample_running ''team'' ''t1'' sample_worker sample_input 200 sample_ids)))"
proof -
  have "\<not> isl (submitOutcome sample_te sample_running ''team'' ''t1'' sample_worker sample_input 200 sample_ids)" by code_simp
  then show ?thesis unfolding sample_completed_def by (rule Inr_result)
qed

lemma sample_beaten:
  "heartbeat sample_te sample_running ''team'' ''t1'' sample_worker 150 = Inr (projr (heartbeat sample_te sample_running ''team'' ''t1'' sample_worker 150))"
proof -
  have "\<not> isl (heartbeat sample_te sample_running ''team'' ''t1'' sample_worker 150)" by code_simp
  then show ?thesis by (cases "heartbeat sample_te sample_running ''team'' ''t1'' sample_worker 150") auto
qed

lemma sample_rows:
  "map (\<lambda>t. (tk_id t, tk_status t, tk_fencingToken t)) (db_tasks sample_running) = [(''t1'', ''RUNNING'', 1)]"
  "map (\<lambda>t. (tk_id t, tk_status t, tk_fencingToken t)) (db_tasks sample_lost) = [(''t1'', ''FAILED'', 2)]"
  "map (\<lambda>t. (tk_id t, tk_status t, tk_completionId t)) (db_tasks sample_completed) = [(''t1'', ''SUCCEEDED'', Some ''done'')]"
  "map at_id (db_attempts sample_running) = [''a1'']" "db_interventions sample_running = []"
  by code_simp+

lemma same_rows_ready: "same_rows sample_queued sample_ready"
  by (simp add: same_rows_def sample_ready_def)

lemma sample_running_reachable: "reachable_control sample_te sample_running"
proof -
  have "reachable_control sample_te sample_empty"
    unfolding reachable_control_def control_run_def
    by (rule exI [of _ sample_empty]) (simp add: sample_empty_def sample_db_def)
  moreover have "control_step sample_te sample_empty sample_queued"
    by (rule created [OF sample_created]) (simp_all add: sample_new_def sample_adaptive_def sample_empty_def sample_db_def)
  moreover have "control_step sample_te sample_queued sample_ready" by (rule elsewhere [OF same_rows_ready])
  moreover have "control_step sample_te sample_ready sample_running" by (rule claimed_one [OF sample_claimed])
  ultimately show ?thesis using reach_step by blast
qed

lemma sample_lost_reachable: "reachable_control sample_te sample_lost"
  unfolding sample_lost_def by (rule reach_step [OF sample_running_reachable lost])

lemma sample_completed_reachable: "reachable_control sample_te sample_completed"
proof (rule reach_step [OF sample_running_reachable submitted [OF sample_submitted]])
  have "tk_id ` set (db_tasks sample_running) = {''t1''}"
  proof -
    have "map tk_id (db_tasks sample_running) = map fst (map (\<lambda>t. (tk_id t, tk_status t, tk_fencingToken t)) (db_tasks sample_running))"
      by simp
    then have "map tk_id (db_tasks sample_running) = [''t1'']" unfolding sample_rows(1) by simp
    then show ?thesis by (metis list.set(1) list.simps(15) set_map)
  qed
  then show "fi_taskId sample_ids \<notin> tk_id ` set (db_tasks sample_running)" by (simp add: sample_ids_def)
  have "at_id ` set (db_attempts sample_running) = {''a1''}" using sample_rows(4) by (metis list.set(1) list.simps(15) set_map)
  then show "fi_attemptId sample_ids \<notin> at_id ` set (db_attempts sample_running)" by (simp add: sample_ids_def)
qed (simp_all add: sample_input_def sample_rows)

lemma control_run_refl: "control_run te db db"
  by (simp add: control_run_def)

lemma first_task_row:
  assumes "map g (db_tasks db) = [v]"
  shows "first_task db \<in> set (db_tasks db)" "g (first_task db) = v"
  using assms by (cases "db_tasks db"; simp add: first_task_def)+

definition sample_event :: agent_event where
  "sample_event = \<lparr>ae_id = ''ev'', ae_kind = ''agent.note'', ae_payload = JNull, ae_finalization = None, ae_context = None,
     ae_cooldown = None, ae_checkpoint = None, ae_trace = None\<rparr>"

lemma superseded_lease_refused_witness:
  "isl (heartbeat sample_te sample_lost ''team'' ''t1'' sample_worker 200000)
   \<and> isl (appendEvent sample_te sample_lost ''team'' ''t1'' sample_worker sample_event 200000 200000)
   \<and> (case submitOutcome sample_te sample_lost ''team'' ''t1'' sample_worker sample_input 200000 sample_ids of
        Inl _ \<Rightarrow> True | Inr (d, _) \<Rightarrow> d = sample_lost)"
proof -
  note R = first_task_row [OF sample_rows(2)]
  have id: "tk_id (first_task sample_lost) = ''t1''" using R(2) by simp
  have f: "lc_fencingToken sample_worker = decimal 1"
  proof -
    have "''1'' = decimal 1" by code_simp
    then show ?thesis by (simp add: sample_worker_def)
  qed
  show ?thesis
    by (rule superseded_lease_refused [OF sample_lost_reachable control_run_refl R(1) _ f, unfolded id]) (use R(2) in simp)
qed

lemma lease_holder_unique_witness:
  "\<exists>d c. heartbeat sample_te sample_running ''team'' ''t1'' c 150 = Inr d \<and> lc_fencingToken c = ''1'' \<and> c = sample_worker"
proof (intro exI conjI)
  show "heartbeat sample_te sample_running ''team'' ''t1'' sample_worker 150
      = Inr (projr (heartbeat sample_te sample_running ''team'' ''t1'' sample_worker 150))" by (rule sample_beaten)
  show "lc_fencingToken sample_worker = ''1''" by (simp add: sample_worker_def)
  show "sample_worker = sample_worker"
    by (rule lease_holder_unique [OF sample_running_reachable control_run_refl sample_beaten disjI1 [OF sample_beaten] refl])
qed

lemma control_state_sound_witness:
  "db_tasks sample_running \<noteq> [] \<and> distinct (map tk_runId (filter open_task (db_tasks sample_running)))
   \<and> distinct (map attempt_key (db_attempts sample_running)) \<and> list_all (\<lambda>r. ru_infrastructureRecoveryCount r \<le> 1) (db_runs sample_running)"
  using control_state_sound [OF sample_running_reachable] first_task_row(1) [OF sample_rows(1)] by (auto simp: list_all_iff)

lemma completed_outcome_final_witness:
  "(\<exists>t\<in>set (db_tasks sample_completed). tk_id t = ''t1'' \<and> tk_status t = ''SUCCEEDED'' \<and> tk_completionId t = Some ''done'')
   \<and> (case submitOutcome sample_te sample_completed ''team'' ''t1'' sample_worker sample_input 300 sample_ids of
        Inl e \<Rightarrow> e = Task_Missing | Inr (d, k) \<Rightarrow> d = sample_completed \<and> ak_taskStatus k = ''SUCCEEDED'')"
proof -
  note R = first_task_row [OF sample_rows(3)]
  have row: "tk_id (first_task sample_completed) = ''t1''" "tk_status (first_task sample_completed) = ''SUCCEEDED''"
      "tk_completionId (first_task sample_completed) = Some (oi_completionId sample_input)"
    using R(2) by (simp_all add: sample_input_def)
  have "terminalAgent (tk_status (first_task sample_completed))" unfolding row(2) by code_simp
  note T = completed_outcome_final [OF sample_completed_reachable control_run_refl R(1) row(3) this, of "''team''" sample_worker 300 sample_ids,
      unfolded row]
  have n: "normalizeAcknowledgedTaskStatus ''SUCCEEDED'' = ''SUCCEEDED''" "oi_completionId sample_input = ''done''"
    by (simp_all add: normalizeAcknowledgedTaskStatus_def sample_input_def)
  show ?thesis using T [unfolded n] by blast
qed

end
