(* ===== verification/TaskOutcomes.thy ===== *)
theory TaskOutcomes
  imports TaskSafety
begin

text \<open>
  What a single transaction on a task may do: when it is tried again, when a run gets a verdict, how its deadline moves,
  and that a repeated request for a run is the same run.
\<close>

section \<open>Another attempt\<close>

lemma quiet_ids: "quiet_rows db db' \<Longrightarrow> map tk_id (db_tasks db') = map tk_id (db_tasks db)"
  using list_all2_map_eq [of keeps_waiting "db_tasks db" "db_tasks db'" tk_id]
  by (auto simp: quiet_rows_def keeps_waiting_def task_row_id_def)

lemma update_ids: "(\<And>x. tk_id (f x) = tk_id x) \<Longrightarrow> map tk_id (update_where P f xs) = map tk_id xs"
  by (simp add: update_where_def)

text \<open>C5: A task whose lease was lost is tried again automatically only if its browser is proved closed, nothing it may
  have written is unsettled, its run is neither over nor cancelled nor past its deadline, no outcome was stored before the
  lease was lost, it is the first such retry of the run and the run has an attempt left.\<close>

theorem automatic_retry_safe:
  assumes "settle_recovery env db teamId taskId ex now ai ti = Inr db'"
    and "x \<in> set (db_tasks db')" "tk_id x \<notin> tk_id ` set (db_tasks db)"
  shows "\<exists>t a r. findTask db teamId taskId = Some (t, a, r) \<and> session_closed db t \<and> \<not> unknown_write db t
     \<and> \<not> run_over r now \<and> \<not> ex \<and> readFinalizationCheckpoint (last_finalization db t (decimal (tk_fencingToken t - 1))) (decimal (tk_fencingToken t - 1)) = None
     \<and> ru_infrastructureRecoveryCount r = 0 \<and> at_number a < ru_maxAttempts r \<and> x = next_task t r ai ti now"
proof -
  obtain t a r where found: "findTask db teamId taskId = Some (t, a, r)"
    using assms(1) by (auto simp: settle_recovery_def split: option.splits)
  define lost where "lost = decimal (tk_fencingToken t - 1)"
  define pending where "pending = readFinalizationCheckpoint (last_finalization db t lost) lost"
  define decision where "decision = leaseRecoveryDecision (session_closed db t) (unknown_write db t)
      (pending \<noteq> None \<or> ex \<or> run_over r now) (ru_infrastructureRecoveryCount r) (at_number a) (ru_maxAttempts r)"
  define db1 where "db1 = set_tasks db (\<lambda>x. tk_id x = taskId) (\<lambda>x. x\<lparr>tk_recoveryStatus := Some (decision_name decision),
      tk_recoveryNextAttemptAt := None, tk_result := (if pending = None then tk_result x else outcome_js (recovered_outcome decision))\<rparr>)"
  define db2 where "db2 = (if pending = None then db1 else set_attempts db1 (\<lambda>y. at_id y = tk_attemptId t)
      (\<lambda>y. y\<lparr>at_status := ''FAILED'', at_failureClass := Some ''RUNTIME_LOST''\<rparr>))"
  have moved: "db' \<noteq> db" using assms(2,3) by auto
  obtain db3 where db3: "settle_leases env db2 t now = Inr db3"
    using assms(1) moved unfolding settle_recovery_def found option.case prod.case Let_def lost_def [symmetric] pending_def [symmetric]
      decision_def [symmetric] db1_def [symmetric] db2_def [symmetric]
    by (auto split: if_splits sum.splits)
  define counted where "counted = set_runs db3 (\<lambda>x. ru_id x = ru_id r) (\<lambda>x. x\<lparr>ru_infrastructureRecoveryCount := ru_infrastructureRecoveryCount x + 1,
      ru_lifecycle := ''QUEUED'', ru_executionDisposition := Some ''RUNTIME_LOST''\<rparr>)"
  obtain db4 where db4: "(if decision = RETRY_SCHEDULED then scheduleNextAttempt counted t a r ai ti now
      else if terminalRun (ru_lifecycle r) then Inr db3
      else Inr (finish_run db3 r (if pending \<noteq> None \<or> decision = WRITE_OUTCOME_UNKNOWN then ''BLOCKED'' else ''RUNTIME_LOST'') now)) = Inr db4"
    and db': "db_tasks db' = db_tasks db4"
    using assms(1) moved db3 unfolding settle_recovery_def found option.case prod.case Let_def lost_def [symmetric] pending_def [symmetric]
      decision_def [symmetric] db1_def [symmetric] db2_def [symmetric]
    by (auto simp: counted_def split: if_splits sum.splits)
  have "map tk_id (db_tasks db3) = map tk_id (db_tasks db2)" by (rule quiet_ids [OF settle_leases_quiet(1) [OF db3]])
  also have "\<dots> = map tk_id (db_tasks db)" by (simp add: db2_def db1_def update_ids)
  finally have "tk_id ` set (db_tasks db3) = tk_id ` set (db_tasks db)" by (metis set_map)
  then have new: "x \<notin> set (db_tasks db3)" using assms(3) by blast
  have retry: "decision = RETRY_SCHEDULED"
  proof (rule ccontr)
    assume "decision \<noteq> RETRY_SCHEDULED"
    then have "db_tasks db4 = db_tasks db3" using db4 by (auto simp: finish_run_def split: if_splits)
    then show False using new assms(2) db' by simp
  qed
  then have x: "x = next_task t r ai ti now"
    using db4 assms(2) db' new scheduled_tables(1) [of counted t a r ai ti now db4] by (auto simp: counted_def)
  have c: "session_closed db t" "\<not> unknown_write db t" "pending = None" "\<not> ex" "\<not> run_over r now"
      "ru_infrastructureRecoveryCount r = 0" "at_number a < ru_maxAttempts r"
    using retry_scheduled [OF retry [unfolded decision_def]] by blast+
  show ?thesis
    by (intro exI [of _ t] exI [of _ a] exI [of _ r] conjI found c x c(3) [unfolded pending_def lost_def])
qed

text \<open>How an accepted outcome is recorded.\<close>

lemma released_data_runs [simp]: "db_runs (releaseCompletedSessionData env db i now) = db_runs db"
proof -
  let ?step = "\<lambda>d s. case verifiedRecovery env d s of None \<Rightarrow> d
    | Some r \<Rightarrow> fst (releaseVerifiedSessionResources env (fst (refreshRecoveryWriteOutcome env d s r now)) (ss_id s) now)"
  have "db_runs (foldl ?step db xs) = db_runs db" for xs
    by (rule foldl_keeps [where P = "\<lambda>d. db_runs d = db_runs db"]) (simp_all add: release_exact refresh_rows split: option.split)
  then show ?thesis by (auto simp: releaseCompletedSessionData_def split: option.split)
qed

lemma settle_outcome_tables:
  assumes "settle_outcome te db t a r input oc now ids = Inr db'"
  shows "\<exists>d. db_runs d = update_where (\<lambda>x. ru_id x = tk_runId t) (outcome_run r oc (outcome_projection_of a r oc) (oi_completedAt input) now) (db_runs db)
      \<and> map tk_id (db_tasks d) = map tk_id (db_tasks db)
      \<and> (\<exists>e. (if op_nextAttemptScheduled (outcome_projection_of a r oc)
             then scheduleNextAttempt d t a r (fi_attemptId ids) (fi_taskId ids) now else Inr d) = Inr e
           \<and> db_runs db' = db_runs e \<and> map tk_id (db_tasks db') = map tk_id (db_tasks e))"
proof -
  define w where "w = (needs_audit (oi_outcome input) \<and> uncertain_write db t)"
  define pj where "pj = outcome_projection_of a r oc"
  define db1 where "db1 = (case (w, bound_session_id db t) of
      (True, Some sid) \<Rightarrow> db\<lparr>db_leases := map (\<lambda>l. if le_sessionId l = sid then l\<lparr>le_quarantined := True\<rparr> else l) (db_leases db)\<rparr>
    | _ \<Rightarrow> db)"
  define db2 where "db2 = set_tasks db1 (\<lambda>x. tk_id x = tk_id t) (completed_task (oi_completionId input) oc w pj)"
  define db3 where "db3 = set_attempts db2 (\<lambda>y. at_id y = tk_attemptId t) (\<lambda>y. y\<lparr>at_status := attempt_name (op_attemptStatus pj),
      at_failureClass := map_option (\<lambda>f. failure_name (fx_failureClass f)) (outcome_error oc)\<rparr>)"
  define db4 where "db4 = persist_verification db3 t (completed_verification (oi_outcome input))"
  define db5 where "db5 = (case intervention_of oc of None \<Rightarrow> db4 | Some i \<Rightarrow> start_waiting db4 t r i (fi_interventionId ids) now)"
  define db6 where "db6 = set_runs db5 (\<lambda>x. ru_id x = tk_runId t) (outcome_run r oc pj (oi_completedAt input) now)"
  define db7 where "db7 = add_event db6 (task_event ''AGENT_RUNTIME'' t r (outcome_event_kind oc) JNull)"
  obtain e where e: "(if op_nextAttemptScheduled pj then scheduleNextAttempt db7 t a r (fi_attemptId ids) (fi_taskId ids) now else Inr db7) = Inr e"
    and db': "db' = (if intervention_of oc \<noteq> None then e else releaseCompletedSessionData (te_recovery te) e (tk_id t) now)"
    using assms unfolding settle_outcome_def Let_def w_def [symmetric] pj_def [symmetric] db1_def [symmetric] db2_def [symmetric]
      db3_def [symmetric] db4_def [symmetric] db5_def [symmetric] db6_def [symmetric] db7_def [symmetric]
    by (auto split: sum.splits)
  have "db_runs db1 = db_runs db" "db_tasks db1 = db_tasks db" by (auto simp: db1_def split: bool.split option.split)
  then have "db_runs db4 = db_runs db" "map tk_id (db_tasks db4) = map tk_id (db_tasks db)"
    by (simp_all add: db4_def db3_def db2_def update_ids completed_task_def)
  then have "db_runs db5 = db_runs db" "map tk_id (db_tasks db5) = map tk_id (db_tasks db)"
    by (auto simp: db5_def start_waiting_tables update_ids split: option.split)
  then have "db_runs db7 = update_where (\<lambda>x. ru_id x = tk_runId t) (outcome_run r oc pj (oi_completedAt input) now) (db_runs db)"
      "map tk_id (db_tasks db7) = map tk_id (db_tasks db)"
    by (simp_all add: db7_def db6_def)
  moreover have "db_runs db' = db_runs e" "map tk_id (db_tasks db') = map tk_id (db_tasks e)"
    using quiet_ids [OF release_data_quiet_rows] by (simp_all add: db')
  ultimately show ?thesis using e unfolding pj_def by blast
qed

lemma accepted_outcome:
  assumes "submitOutcome te db teamId taskId c input now ids = Inr (db', k)" "findTask db teamId taskId = Some (t, a, r)"
    and "tk_completionId t = None"
  shows "settle_outcome te db t a r input (audited_outcome db t (oi_outcome input)) now ids = Inr db'"
    "outcome_refused te db t r (case oi_outcome input of Verified v \<Rightarrow> Verified v | _ \<Rightarrow> audited_outcome db t (oi_outcome input)) = None"
  using assms by (auto simp: submitOutcome_def Let_def split: if_splits option.splits sum.splits)

lemma next_scheduled:
  "op_nextAttemptScheduled (outcome_projection_of a r oc) \<Longrightarrow> \<exists>f d. oc = Retryable f d \<and> int (at_number a) < rp_maxAttempts (py_retry (ru_executionPolicy r))
     \<and> fx_failureClass f \<in> set (rp_retryOn (py_retry (ru_executionPolicy r)))"
  by (cases oc) (auto simp: outcome_projection_of_def Let_def project_failure_def effectiveRetryPolicy_def split: if_splits)

text \<open>C9: An accepted outcome leads to another attempt only if the worker reported a failure that may be retried, nothing
  the task may have written is in doubt, and the policy of the run retries that class of failure and has an attempt left.\<close>

theorem reported_retry_safe:
  assumes "submitOutcome te db teamId taskId c input now ids = Inr (db', k)"
    and "x \<in> set (db_tasks db')" "tk_id x \<notin> tk_id ` set (db_tasks db)"
  shows "\<exists>t a r f d. findTask db teamId taskId = Some (t, a, r) \<and> oi_outcome input = Retryable f d \<and> \<not> uncertain_write db t
     \<and> int (at_number a) < rp_maxAttempts (py_retry (ru_executionPolicy r))
     \<and> fx_failureClass f \<in> set (rp_retryOn (py_retry (ru_executionPolicy r)))"
proof -
  obtain t a r where found: "findTask db teamId taskId = Some (t, a, r)"
    using assms(1) by (auto simp: submitOutcome_def split: option.splits)
  define oc where "oc = audited_outcome db t (oi_outcome input)"
  have st: "settle_outcome te db t a r input oc now ids = Inr db'"
    using assms by (auto simp: submitOutcome_def found oc_def Let_def split: if_splits option.splits sum.splits)
  obtain d e where d: "map tk_id (db_tasks d) = map tk_id (db_tasks db)"
    and e: "(if op_nextAttemptScheduled (outcome_projection_of a r oc)
       then scheduleNextAttempt d t a r (fi_attemptId ids) (fi_taskId ids) now else Inr d) = Inr e"
      "map tk_id (db_tasks db') = map tk_id (db_tasks e)"
    using settle_outcome_tables [OF st] by blast
  have "op_nextAttemptScheduled (outcome_projection_of a r oc)"
  proof (rule ccontr)
    assume "\<not> op_nextAttemptScheduled (outcome_projection_of a r oc)"
    then have "map tk_id (db_tasks db') = map tk_id (db_tasks db)" using d e by simp
    then have "tk_id ` set (db_tasks db') = tk_id ` set (db_tasks db)" by (metis set_map)
    then show False using assms(2,3) by blast
  qed
  then obtain f dp where f: "oc = Retryable f dp" "int (at_number a) < rp_maxAttempts (py_retry (ru_executionPolicy r))"
      "fx_failureClass f \<in> set (rp_retryOn (py_retry (ru_executionPolicy r)))"
    using next_scheduled by blast
  then have "oi_outcome input = Retryable f dp \<and> \<not> uncertain_write db t"
    by (cases "oi_outcome input") (auto simp: oc_def audited_outcome_def unknown_write_outcome_def split: if_splits)
  then show ?thesis using found f by blast
qed

section \<open>Verdicts\<close>

lemma snapshot_criterion:
  "jmap_get (snapshot_criteria sn) i = Some c \<Longrightarrow> \<exists>k\<in>set (sn_criteria sn). kr_id k = i \<and> c = browserExecutionCriterion k"
proof -
  have "jmap_get (foldl (\<lambda>m c. jmap_set m (kr_id c) (browserExecutionCriterion c)) [] ks) i = Some c
      \<Longrightarrow> \<exists>k\<in>set ks. kr_id k = i \<and> c = browserExecutionCriterion k" for ks
    by (induction ks rule: rev_induct) (auto split: if_splits)
  then show "jmap_get (snapshot_criteria sn) i = Some c \<Longrightarrow> ?thesis" by (simp add: snapshot_criteria_def)
qed

lemma first_error_None: "first_error check xs = None \<longleftrightarrow> (\<forall>x\<in>set xs. check x = None)"
  by (auto simp: first_error_def find_None_iff dest: find_SomeD split: option.splits)

lemma no_missing_kinds:
  "missingRequiredEvidenceKinds c cited known = [] \<longleftrightarrow> (\<forall>e\<in>set (kr_requiredEvidenceKinds c). \<exists>i\<in>set cited. (i, e) \<in> set known)"
  unfolding missingRequiredEvidenceKinds_def filter_empty_conv by force

text \<open>A criterion that is reported as passed is one of the task and has trusted evidence of every kind it asks for.\<close>

definition passed_with_evidence :: "task_snapshot \<Rightarrow> evidence_map \<Rightarrow> criterion_result \<Rightarrow> bool" where
  "passed_with_evidence sn known x \<longleftrightarrow> (\<exists>k\<in>set (sn_criteria sn). kr_id k = cx_criterionId x
     \<and> (\<forall>i\<in>set (cx_evidenceRefs x). jmap_get known i \<noteq> None)
     \<and> (cx_status x = V_PASSED \<longrightarrow> (\<forall>e\<in>set (kr_requiredEvidenceKinds (browserExecutionCriterion k)).
          \<exists>i\<in>set (cx_evidenceRefs x). (i, e) \<in> set known)))"

lemma evidence_complete:
  assumes "completedOutcomeEvidenceError sn v persisted = None"
  shows "\<forall>k\<in>set (sn_criteria sn). kr_required k \<longrightarrow> kr_id k \<in> cx_criterionId ` set (vf_criteria v)"
    "\<forall>x\<in>set (vf_criteria v). passed_with_evidence sn (trusted_evidence sn persisted) x"
    "vf_catalog v \<in> {None, Some (sn_runId sn, sn_attemptId sn)}"
proof -
  let ?known = "trusted_evidence sn persisted"
  have C: "first_error (\<lambda>c. if kr_required c \<and> kr_id c \<notin> cx_criterionId ` set (vf_criteria v)
             then Some (Missing_Criterion (kr_id c)) else None) (sn_criteria sn) = None"
      "first_error (result_error sn ?known) (vf_criteria v) = None"
    using assms unfolding completedOutcomeEvidenceError_def Let_def coalesce_opt_def by (auto split: if_splits option.splits)
  show "vf_catalog v \<in> {None, Some (sn_runId sn, sn_attemptId sn)}"
    using assms by (cases "vf_catalog v") (auto simp: completedOutcomeEvidenceError_def Let_def split: if_splits)
  show "\<forall>k\<in>set (sn_criteria sn). kr_required k \<longrightarrow> kr_id k \<in> cx_criterionId ` set (vf_criteria v)"
    using C(1) by (auto simp: first_error_None split: if_splits)
  show "\<forall>x\<in>set (vf_criteria v). passed_with_evidence sn ?known x"
  proof
    fix x assume "x \<in> set (vf_criteria v)"
    then have n: "result_error sn ?known x = None" using C(2) by (simp add: first_error_None)
    obtain c where c: "jmap_get (snapshot_criteria sn) (cx_criterionId x) = Some c"
      using n by (auto simp: result_error_def split: option.splits)
    obtain k where k: "k \<in> set (sn_criteria sn)" "kr_id k = cx_criterionId x" "c = browserExecutionCriterion k"
      using snapshot_criterion [OF c] by blast
    have "filter (\<lambda>i. jmap_get ?known i = None) (cx_evidenceRefs x) = []"
      "cx_status x = V_PASSED \<Longrightarrow> missingRequiredEvidenceKinds c (cx_evidenceRefs x) ?known = []"
      using n by (auto simp: result_error_def c Let_def split: if_splits)
    then show "passed_with_evidence sn ?known x"
      unfolding passed_with_evidence_def using k
      by (auto simp: filter_empty_conv no_missing_kinds intro!: bexI [of _ k])
  qed
qed

lemma verdict_of_outcome:
  "op_verdict (outcome_projection_of a r oc) = Some w \<Longrightarrow> \<exists>v. oc = Verified v \<and> vf_verdict v = w"
  by (cases oc) (auto simp: outcome_projection_of_def Let_def project_failure_def)

text \<open>C6: A run gets a verdict from an outcome only if the worker reported that verdict for a completed verification, no
  write is in doubt where it ended early, its browser was not lost, it reports every required criterion, what it cites
  is stored or a reference of the task, and each criterion it passes has evidence of every required kind.\<close>

theorem verdict_supported:
  assumes "submitOutcome te db teamId taskId c input now ids = Inr (db', k)" "findTask db teamId taskId = Some (t, a, r)"
    and "tk_completionId t = None" "r' \<in> set (db_runs db')" "ru_id r' = tk_runId t" "ru_verdict r' = Some w"
  shows "\<exists>v. oi_outcome input = Verified v \<and> vf_verdict v = w \<and> vf_termination v \<noteq> Some ''RUNTIME_SESSION_UNAVAILABLE''
     \<and> (vf_termination v = None \<or> \<not> uncertain_write db t)
     \<and> (\<forall>x\<in>set (sn_criteria (tk_snapshot t)). kr_required x \<longrightarrow> kr_id x \<in> cx_criterionId ` set (vf_criteria v))
     \<and> (\<forall>x\<in>set (vf_criteria v). passed_with_evidence (tk_snapshot t) (trusted_evidence (tk_snapshot t)
          (map (\<lambda>e. (vd_externalId e, vd_kind e)) (filter (\<lambda>e. vd_attemptId e = tk_attemptId t) (db_runEvidence db)))) x)"
proof -
  define oc where "oc = audited_outcome db t (oi_outcome input)"
  note A = accepted_outcome [OF assms(1-3), folded oc_def]
  obtain d e where d: "db_runs d = update_where (\<lambda>x. ru_id x = tk_runId t)
      (outcome_run r oc (outcome_projection_of a r oc) (oi_completedAt input) now) (db_runs db)"
    and e: "(if op_nextAttemptScheduled (outcome_projection_of a r oc)
       then scheduleNextAttempt d t a r (fi_attemptId ids) (fi_taskId ids) now else Inr d) = Inr e" "db_runs db' = db_runs e"
    using settle_outcome_tables [OF A(1)] by blast
  have own: "op_verdict (outcome_projection_of a r oc) = ru_verdict x" if "x \<in> set (db_runs d)" "ru_id x = tk_runId t" for x
    using that by (auto simp: d update_where_def outcome_run_def split: if_splits)
  have "op_verdict (outcome_projection_of a r oc) = Some w"
  proof (cases "op_nextAttemptScheduled (outcome_projection_of a r oc)")
    case True
    then have "db_runs e = update_where (\<lambda>x. ru_id x = tk_runId t) (\<lambda>x. x\<lparr>ru_currentAttemptNumber := at_number a + 1\<rparr>) (db_runs d)"
      using e(1) scheduled_tables(3) by simp
    then obtain x where "x \<in> set (db_runs d)" "ru_id x = tk_runId t" "ru_verdict x = Some w"
      using assms(4-6) e(2) by (auto simp: update_where_def split: if_splits)
    then show ?thesis using own by simp
  next
    case False
    then show ?thesis using e own assms(4-6) by simp
  qed
  then obtain v where v: "oc = Verified v" "vf_verdict v = w" using verdict_of_outcome by blast
  have o: "oi_outcome input = Verified v" "vf_termination v \<noteq> Some ''RUNTIME_SESSION_UNAVAILABLE''"
      "vf_termination v = None \<or> \<not> uncertain_write db t"
    using v(1) by (cases "oi_outcome input"; auto simp: oc_def audited_outcome_def unknown_write_outcome_def split: if_splits)+
  have "completedOutcomeEvidenceError (tk_snapshot t) v
      (map (\<lambda>e. (vd_externalId e, vd_kind e)) (filter (\<lambda>e. vd_attemptId e = tk_attemptId t) (db_runEvidence db))) = None"
    using A(2) by (auto simp: o outcome_refused_def split: if_splits)
  then show ?thesis using o v(2) evidence_complete by blast
qed

section \<open>Deadlines\<close>

lemma extension_within:
  assumes "decideAdaptiveDeadlineExtension b p d h now policy = Some x"
  shows "d < dx_deadlineAtMs x" "dx_deadlineAtMs x \<le> h" "dx_extendedByMs x = dx_deadlineAtMs x - d" "now < d"
    "dx_progressKey x = (if b then Some (progress_key p) else None)"
  using assms by (auto simp: decideAdaptiveDeadlineExtension_def Let_def split: deadline_policy.splits if_splits option.splits)

lemma progress_key_not_Nil: "pg_lastMeaningfulProgressKey p \<noteq> Some [] \<Longrightarrow> progress_key p \<noteq> []"
  by (auto simp: progress_key_def coalesce_def split: option.split)

lemma extended_once:
  "pg_lastDeadlineExtensionProgressKey p = Some (progress_key p) \<Longrightarrow> decideAdaptiveDeadlineExtension True p d h now policy = None"
  by (simp add: decideAdaptiveDeadlineExtension_def split: deadline_policy.split)

lemma run_after:
  assumes "task_inv db" "findTask db teamId taskId = Some (t, a, r)" "findTask db' teamId' taskId = Some (t', a', r')"
    and "db_runs db' = update_where (\<lambda>q. ru_id q = ru_id r) g (db_runs db)" "\<And>q. ru_id (g q) = ru_id q"
    and "db_tasks db' = update_where (\<lambda>y. tk_id y = tk_id t) f (db_tasks db)" "\<And>y. tk_id (f y) = tk_id y \<and> tk_runId (f y) = tk_runId y"
  shows "r' = g r" "t' = f t"
proof -
  note F = findTaskD [OF assms(1,2)]
  have t': "t' \<in> set (db_tasks db')" "tk_id t' = taskId" "r' \<in> set (db_runs db')" "ru_id r' = tk_runId t'"
    using assms(3) by (auto simp: findTask_def task_of_def run_of_def attempt_of_def find_by_def dest!: find_SomeD split: option.splits if_splits)
  obtain x where x: "x \<in> set (db_tasks db)" "tk_id x = tk_id t" "t' = f x"
    using t'(1,2) assms(6,7) F(2) by (auto simp: update_where_def split: if_splits)
  then have xt: "x = t" using task_unique [OF assms(1)] F(1) by blast
  then show "t' = f t" using x(3) by simp
  obtain q where q: "q \<in> set (db_runs db)" "ru_id q = ru_id r" "r' = g q"
    using t'(3,4) x(3) xt assms(4,5,7) F(6) by (auto simp: update_where_def split: if_splits)
  then have "q = r" using run_unique [OF assms(1)] F(5) by blast
  then show "r' = g r" using q(3) by simp
qed

text \<open>What a heartbeat that is not refused leaves behind: with \<open>beaten\<close> the lease and the permit are renewed, and the
  deadline is extended where that was decided.\<close>

definition beaten :: "task_env \<Rightarrow> rdb \<Rightarrow> agent_task \<Rightarrow> run_row \<Rightarrow> int \<Rightarrow> rdb" where
  "beaten te db t r now = set_sessions (set_tasks db (\<lambda>x. tk_id x = tk_id t) (\<lambda>x. x\<lparr>tk_leaseExpiresAt := Some (now + te_leaseMs te)\<rparr>))
     (\<lambda>s. ss_ownerTaskId s = Some (tk_id t) \<and> ss_ownerFencingToken s = Some (tk_fencingToken t)
        \<and> ss_status s = ''ACTIVE'' \<and> ss_quarantinedAt s = None \<and> ss_closureVerifiedAt s = None)
     (\<lambda>s. s\<lparr>ss_executionPermitExpiresAt := Some (min (now + te_leaseMs te) (ru_deadlineAt r))\<rparr>)"

lemma beaten_runs [simp]: "db_runs (beaten te db t r now) = db_runs db"
  by (simp add: beaten_def)

lemma heartbeat_cases:
  assumes "heartbeat te db teamId taskId c now = Inr (db', d)" "findTask db teamId taskId = Some (t, a, r)" "tk_id t = taskId"
  obtains "db' = db \<or> db' = beaten te db t r now"
    | x where "extension_for t r now = Some x" "dx_deadlineAtMs x \<le> ru_hardDeadlineAt r" "db' = extend_deadline (beaten te db t r now) t r x"
proof -
  define last where "last = (case extension_for t r now of None \<Rightarrow> beaten te db t r now
    | Some x \<Rightarrow> if dx_deadlineAtMs x \<le> ru_hardDeadlineAt r \<and> live_run (ru_lifecycle r)
        then extend_deadline (beaten te db t r now) t r x else beaten te db t r now)"
  note found = assms(2) [folded assms(3)]
  have "db' = db \<or> db' = last"
    using assms(1) unfolding assms(3) [symmetric] heartbeat_def found option.case prod.case Let_def beaten_def [symmetric] last_def [symmetric]
    by (simp split: if_splits)
  then show thesis
    using that unfolding last_def by (cases "extension_for t r now") (auto split: if_splits)
qed

lemma beaten_same_run:
  assumes "task_inv db" "findTask db teamId taskId = Some (t, a, r)" "findTask db' teamId taskId = Some (t', a', r')"
    and "db' = db \<or> db' = beaten te db t r now"
  shows "r' = r"
proof -
  note F = findTaskD [OF assms(1,2)]
  have t': "t' \<in> set (db_tasks db')" "tk_id t' = taskId" "r' \<in> set (db_runs db')" "ru_id r' = tk_runId t'"
    using assms(3) by (auto simp: findTask_def task_of_def run_of_def attempt_of_def find_by_def dest!: find_SomeD split: option.splits if_splits)
  have "db_tasks db' = db_tasks db
      \<or> db_tasks db' = update_where (\<lambda>x. tk_id x = tk_id t) (\<lambda>x. x\<lparr>tk_leaseExpiresAt := Some (now + te_leaseMs te)\<rparr>) (db_tasks db)"
    using assms(4) by (auto simp: beaten_def)
  then obtain x where x: "x \<in> set (db_tasks db)" "t' = x \<or> t' = x\<lparr>tk_leaseExpiresAt := Some (now + te_leaseMs te)\<rparr>"
    using t'(1) by (auto simp: update_where_def)
  then have "x = t" using task_unique [OF assms(1) x(1) F(1)] t'(2) F(2) by auto
  then have "tk_runId t' = tk_runId t" using x(2) by auto
  moreover have "db_runs db' = db_runs db" using assms(4) by auto
  ultimately show ?thesis using run_unique [OF assms(1) _ F(5)] F(6) t'(3,4) by simp
qed

text \<open>The rows of the task and its run after an extension.\<close>

definition extended_task :: "int \<Rightarrow> deadline_extension \<Rightarrow> agent_task \<Rightarrow> agent_task" where
  "extended_task expires x y = y\<lparr>tk_leaseExpiresAt := Some expires, tk_deadlineAt := dx_deadlineAtMs x, tk_progress := (tk_progress y)
     \<lparr>pg_lastDeadlineExtensionOperationKey := Some (dx_operationKey x),
      pg_lastDeadlineExtensionProgressKey := (case dx_progressKey x of
        None \<Rightarrow> pg_lastDeadlineExtensionProgressKey (tk_progress y)
      | Some k \<Rightarrow> if k = [] then pg_lastDeadlineExtensionProgressKey (tk_progress y) else Some k)\<rparr>\<rparr>"

definition extended_run :: "deadline_extension \<Rightarrow> run_row \<Rightarrow> run_row" where
  "extended_run x q = q\<lparr>ru_deadlineAt := dx_deadlineAtMs x, ru_deadlineExtendedMs := ru_deadlineExtendedMs q + dx_extendedByMs x,
     ru_deadlineExtensionCount := ru_deadlineExtensionCount q + 1\<rparr>"

lemma update_where_twice:
  "(\<And>y. P (g y) = P y) \<Longrightarrow> update_where P f (update_where P g xs) = update_where P (\<lambda>y. f (g y)) xs"
  by (simp add: update_where_def)

lemma extended_tables:
  "db_runs (extend_deadline (beaten te db t r now) t r x) = update_where (\<lambda>q. ru_id q = ru_id r) (extended_run x) (db_runs db)"
  "db_tasks (extend_deadline (beaten te db t r now) t r x)
     = update_where (\<lambda>y. tk_id y = tk_id t) (extended_task (now + te_leaseMs te) x) (db_tasks db)"
  unfolding extend_deadline_def beaten_def extended_run_def extended_task_def
  by (simp_all add: update_where_twice cong: option.case_cong if_cong)

text \<open>C14: A heartbeat moves the deadline of a run only forward, never past its hard deadline, only before it has passed,
  and counts the extension; after that no heartbeat extends it again until the task reports other meaningful progress.\<close>

theorem deadline_extension_bounded:
  assumes "reachable_control te db" "heartbeat te db teamId taskId c now = Inr (db', d)"
    and "findTask db teamId taskId = Some (t, a, r)" "findTask db' teamId taskId = Some (t', a', r')"
    and "tk_capability t = ''BROWSER_VERIFICATION''" "pg_lastMeaningfulProgressKey (tk_progress t) \<noteq> Some []"
  shows "r' = r \<or> ru_deadlineAt r < ru_deadlineAt r' \<and> ru_deadlineAt r' \<le> ru_hardDeadlineAt r \<and> now < ru_deadlineAt r
     \<and> ru_hardDeadlineAt r' = ru_hardDeadlineAt r \<and> ru_deadlineExtensionCount r' = ru_deadlineExtensionCount r + 1
     \<and> ru_deadlineExtendedMs r' = ru_deadlineExtendedMs r + (ru_deadlineAt r' - ru_deadlineAt r)
     \<and> tk_deadlineAt t' = ru_deadlineAt r' \<and> (\<forall>q later. extension_for t' q later = None)"
proof -
  have ti: "task_inv db" using reachable_control_inv [OF assms(1)] by (simp add: control_inv_def)
  have id: "tk_id t = taskId" using findTaskD [OF ti assms(3)] by simp
  show ?thesis
  proof (cases rule: heartbeat_cases [OF assms(2,3) id])
    case 1
    then show ?thesis using beaten_same_run [OF ti assms(3,4)] by blast
  next
    case (2 x)
    note R = run_after [OF ti assms(3,4) extended_tables(1) [of te db t r now x, folded 2(3)] _
        extended_tables(2) [of te db t r now x, folded 2(3)]]
    have r': "r' = extended_run x r" and t': "t' = extended_task (now + te_leaseMs te) x t"
      by (rule R; simp add: extended_run_def extended_task_def)+
    note X = extension_within [OF 2(1) [unfolded extension_for_def]]
    have "progress_key (tk_progress t) \<noteq> []" by (rule progress_key_not_Nil [OF assms(6)])
    then have "pg_lastDeadlineExtensionProgressKey (tk_progress t') = Some (progress_key (tk_progress t'))"
      using X(5) assms(5) by (simp add: t' extended_task_def progress_key_def)
    then have "extension_for t' q later = None" for q later
      using assms(5) extended_once by (simp add: extension_for_def t' extended_task_def)
    then show ?thesis using X 2(2) by (simp add: r' t' extended_run_def extended_task_def)
  qed
qed

section \<open>Repeated requests\<close>

lemma find_update_same:
  "(\<And>x. Q (f x) = Q x) \<Longrightarrow> List.find Q (update_where P f xs) = map_option (\<lambda>x. if P x then f x else x) (List.find Q xs)"
  by (induction xs) (auto simp: update_where_def)

lemma update_where_none: "(\<And>x. x \<in> set xs \<Longrightarrow> \<not> P x) \<Longrightarrow> update_where P f xs = xs"
  by (simp add: update_where_def map_idI)

abbreviation same_key :: "new_run \<Rightarrow> run_row \<Rightarrow> bool" where
  "same_key n r \<equiv> ru_teamId r = nr_teamId n \<and> ru_idempotencyKey r = nr_idempotencyKey n"

abbreviation unjoined :: "string \<Rightarrow> run_row \<Rightarrow> bool" where
  "unjoined i x \<equiv> ru_id x = i \<and> ru_taskExecutionId x = None"

lemma repeated_unchanged:
  assumes "ru_request q = nr_request n" "nr_taskExecutionId n \<noteq> None \<Longrightarrow> ru_taskExecutionId q = nr_taskExecutionId n"
    and "nr_taskExecutionId n \<noteq> None \<Longrightarrow> \<forall>x\<in>set (db_runs db). \<not> unjoined (ru_id q) x"
  shows "repeated_request db n q = Inr (db, ru_id q)"
proof (cases "nr_taskExecutionId n = None")
  case False
  then have "update_where (unjoined (ru_id q)) (\<lambda>x. x\<lparr>ru_taskExecutionId := nr_taskExecutionId n\<rparr>) (db_runs db) = db_runs db"
    using assms(3) by (intro update_where_none) blast
  then show ?thesis using assms(1,2) False by (simp add: repeated_request_def set_runs_def)
qed (use assms(1) in \<open>simp add: repeated_request_def\<close>)

lemma created_again:
  assumes "create_run db n now = Inr (db', i)" "nr_runId n \<notin> ru_id ` set (db_runs db)" "List.find (same_key n) (db_runs db) = None"
  shows "create_run db' n now' = Inr (db', i)"
proof -
  have ok: "\<not> invalid_request n" using assms by (auto simp: create_run_def split: if_splits)
  then have new: "db_runs db' = db_runs db @ [new_run_row n now]" "i = nr_runId n"
    using assms by (auto simp: create_run_def split: option.splits)
  have other: "ru_id x \<noteq> nr_runId n" if "x \<in> set (db_runs db)" for x using assms(2) that by (metis image_eqI)
  have "List.find (same_key n) (db_runs db') = Some (new_run_row n now)"
    using assms(3) by (simp add: new find_append_rows new_run_row_def)
  moreover have "repeated_request db' n (new_run_row n now) = Inr (db', ru_id (new_run_row n now))"
    by (rule repeated_unchanged) (use other in \<open>auto simp: new_run_row_def new(1)\<close>)
  ultimately show ?thesis using ok new(2) by (simp add: create_run_def new_run_row_def)
qed

lemma joined_again:
  assumes "repeated_request db n r = Inr (db', i)" "List.find (same_key n) (db_runs db) = Some r"
  shows "\<exists>q. List.find (same_key n) (db_runs db') = Some q \<and> repeated_request db' n q = Inr (db', i)"
proof (cases "nr_taskExecutionId n")
  case None
  then have "db' = db" using assms(1) by (auto simp: repeated_request_def split: if_splits)
  then show ?thesis using assms by blast
next
  case (Some e)
  let ?join = "\<lambda>x. x\<lparr>ru_taskExecutionId := nr_taskExecutionId n\<rparr>"
  have d: "db' = set_runs db (unjoined (ru_id r)) ?join" "i = ru_id r" "ru_request r = nr_request n"
      "ru_taskExecutionId r \<in> {None, Some e}"
    using assms(1) Some by (auto simp: repeated_request_def split: if_splits)
  define q where "q = (if unjoined (ru_id r) r then ?join r else r)"
  have "List.find (same_key n) (db_runs db') = Some q"
    using assms(2) by (simp add: d(1) find_update_same q_def)
  moreover have "repeated_request db' n q = Inr (db', ru_id q)"
    by (rule repeated_unchanged) (use d Some in \<open>auto simp: q_def update_where_def split: if_splits\<close>)
  ultimately show ?thesis using d(2) by (simp add: q_def)
qed

text \<open>C39: A request for a run that is repeated, with the key and content of an accepted one, is answered with the same run
  and changes nothing.\<close>

theorem create_run_idempotent:
  assumes "create_run db n now = Inr (db', i)" "nr_runId n \<notin> ru_id ` set (db_runs db)"
  shows "create_run db' n now' = Inr (db', i)"
proof (cases "List.find (same_key n) (db_runs db)")
  case None
  then show ?thesis by (rule created_again [OF assms])
next
  case (Some r)
  then have "\<not> invalid_request n" "repeated_request db n r = Inr (db', i)"
    using assms(1) by (auto simp: create_run_def split: if_splits)
  then show ?thesis using joined_again [OF _ Some] by (auto simp: create_run_def)
qed

section \<open>Concrete runs\<close>

text \<open>The worker of \<open>sample_running\<close> is lost and its browser proved closed without a write.\<close>

definition with_closed_browser :: "rdb \<Rightarrow> rdb" where
  "with_closed_browser db = sample_closed\<lparr>db_tasks := db_tasks db, db_attempts := db_attempts db, db_runs := db_runs db,
     db_executions := db_executions db\<rparr>"

lemma Inr_projr: "\<not> isl x \<Longrightarrow> x = Inr (projr x)"
  by (cases x) simp_all

lemma second_of: "map f xs = [v, w] \<Longrightarrow> \<exists>y\<in>set xs. f y = w"
  by (auto simp: map_eq_Cons_conv)

lemma automatic_retry_safe_witness:
  "\<exists>t a r. findTask (with_closed_browser sample_lost) ''team'' ''t1'' = Some (t, a, r)
     \<and> session_closed (with_closed_browser sample_lost) t \<and> \<not> unknown_write (with_closed_browser sample_lost) t
     \<and> ru_infrastructureRecoveryCount r = 0 \<and> at_number a < ru_maxAttempts r"
proof -
  let ?db = "with_closed_browser sample_lost"
  let ?s = "settle_recovery sample_env ?db ''team'' ''t1'' False 150000 ''a2'' ''t2''"
  have eq: "?s = Inr (projr ?s)" by (rule Inr_projr) code_simp
  have "map tk_id (db_tasks (projr ?s)) = [''t1'', ''t2'']" by code_simp
  from second_of [OF this] obtain x where x: "x \<in> set (db_tasks (projr ?s))" "tk_id x = ''t2''" by (rule bexE)
  have "map tk_id (db_tasks ?db) = [''t1'']" by code_simp
  then have "tk_id ` set (db_tasks ?db) = {''t1''}" by (metis list.set(1) list.simps(15) set_map)
  then have "tk_id x \<notin> tk_id ` set (db_tasks ?db)" by (simp add: x(2))
  from automatic_retry_safe [OF eq x(1) this] show ?thesis by blast
qed

definition sample_failure :: outcome_input where
  "sample_failure = \<lparr>oi_completionId = ''done'', oi_completedAt = 200,
     oi_outcome = Retryable \<lparr>fx_code = ''PROVIDER'', fx_failureClass = F_PROVIDER, fx_detailsReason = None\<rparr> D_PROVIDER_ERROR\<rparr>"

lemma reported_retry_safe_witness:
  "\<exists>t a r f d. findTask (with_closed_browser sample_running) ''team'' ''t1'' = Some (t, a, r) \<and> oi_outcome sample_failure = Retryable f d
     \<and> \<not> uncertain_write (with_closed_browser sample_running) t
     \<and> int (at_number a) < rp_maxAttempts (py_retry (ru_executionPolicy r))"
proof -
  let ?db = "with_closed_browser sample_running"
  let ?s = "submitOutcome sample_te ?db ''team'' ''t1'' sample_worker sample_failure 200 sample_ids"
  have eq: "?s = Inr (fst (projr ?s), snd (projr ?s))" 
  proof -
    have "\<not> isl ?s" by code_simp
    then show ?thesis by (cases ?s) auto
  qed
  have "map tk_id (db_tasks (fst (projr ?s))) = [''t1'', ''t2'']" by code_simp
  from second_of [OF this] obtain x where x: "x \<in> set (db_tasks (fst (projr ?s)))" "tk_id x = ''t2''" by (rule bexE)
  have "map tk_id (db_tasks ?db) = [''t1'']" by code_simp
  then have "tk_id ` set (db_tasks ?db) = {''t1''}" by (metis list.set(1) list.simps(15) set_map)
  then have "tk_id x \<notin> tk_id ` set (db_tasks ?db)" by (simp add: x(2))
  from reported_retry_safe [OF eq x(1) this] show ?thesis by blast
qed

lemma verdict_supported_witness:
  "\<exists>v. oi_outcome sample_input = Verified v \<and> vf_verdict v = V_PASSED \<and> vf_termination v \<noteq> Some ''RUNTIME_SESSION_UNAVAILABLE''"
proof -
  have "\<not> Option.is_none (findTask sample_running ''team'' ''t1'')" by code_simp
  then obtain t a r where f: "findTask sample_running ''team'' ''t1'' = Some (t, a, r)"
    by (cases "findTask sample_running ''team'' ''t1''") auto
  have "map_option (\<lambda>(t, a, r). (tk_completionId t, tk_runId t)) (findTask sample_running ''team'' ''t1'') = Some (None, ''run'')"
    by code_simp
  then have t: "tk_completionId t = None" "tk_runId t = ''run''" by (simp_all add: f)
  have "map (\<lambda>r. (ru_id r, ru_verdict r)) (db_runs sample_completed) = [(''run'', Some V_PASSED)]" by code_simp
  then obtain q where q: "q \<in> set (db_runs sample_completed)" "ru_id q = ''run''" "ru_verdict q = Some V_PASSED"
    by (auto simp: map_eq_Cons_conv)
  have "ru_id q = tk_runId t" using q(2) t(2) by simp
  from verdict_supported [OF sample_submitted f t(1) q(1) this q(3)] show ?thesis by blast
qed

text \<open>A model call takes so long that the third heartbeat extends the deadline.\<close>

definition sample_call :: agent_event where
  "sample_call = sample_event\<lparr>ae_kind := ''agent.model.started'', ae_trace := Some \<lparr>tv_kind = MODEL_STARTED, tv_segmentId = ''seg'',
     tv_step = 1, tv_meaningful = Some 1, tv_durationMs = 0, tv_succeeded = False\<rparr>\<rparr>"

definition sample_calling :: rdb where
  "sample_calling = projr (appendEvent sample_te sample_running ''team'' ''t1'' sample_worker sample_call 200 200)"

definition beat :: "rdb \<Rightarrow> int \<Rightarrow> rdb" where
  "beat db now = result db (heartbeat sample_te db ''team'' ''t1'' sample_worker now)"

definition sample_slow :: rdb where
  "sample_slow = beat (beat sample_calling 50000) 100000"

lemma sample_called: "appendEvent sample_te sample_running ''team'' ''t1'' sample_worker sample_call 200 200 = Inr sample_calling"
  unfolding sample_calling_def by (rule Inr_projr) code_simp

lemma beat_step:
  "\<not> isl (heartbeat sample_te db ''team'' ''t1'' sample_worker now) \<Longrightarrow>
   heartbeat sample_te db ''team'' ''t1'' sample_worker now = Inr (beat db now, snd (projr (heartbeat sample_te db ''team'' ''t1'' sample_worker now)))"
  unfolding beat_def by (rule Inr_result)

lemma sample_beats:
  "\<not> isl (heartbeat sample_te sample_calling ''team'' ''t1'' sample_worker 50000)"
  "\<not> isl (heartbeat sample_te (beat sample_calling 50000) ''team'' ''t1'' sample_worker 100000)"
  "\<not> isl (heartbeat sample_te sample_slow ''team'' ''t1'' sample_worker 150000)"
  by code_simp+

lemma sample_slow_reachable: "reachable_control sample_te sample_slow"
  unfolding sample_slow_def
  by (rule reach_step [OF reach_step [OF reach_step [OF sample_running_reachable reported [OF sample_called]]
        beaten [OF beat_step [OF sample_beats(1)]]] beaten [OF beat_step [OF sample_beats(2)]]])

definition found_run :: "rdb \<Rightarrow> (string \<times> bool \<times> int \<times> int) option" where
  "found_run db = map_option (\<lambda>(t, a, r). (tk_capability t, pg_lastMeaningfulProgressKey (tk_progress t) = Some [], ru_deadlineAt r, ru_hardDeadlineAt r))
     (findTask db ''team'' ''t1'')"

lemma sample_extended:
  "found_run sample_slow = Some (''BROWSER_VERIFICATION'', False, 300100, 900100)"
  "map_option (\<lambda>(c, k, d, h). d) (found_run (beat sample_slow 150000)) = Some 404700"
  by code_simp+

lemma deadline_extension_bounded_witness:
  "\<exists>t a r t' a' r'. findTask sample_slow ''team'' ''t1'' = Some (t, a, r) \<and> findTask (beat sample_slow 150000) ''team'' ''t1'' = Some (t', a', r')
     \<and> ru_deadlineAt r < ru_deadlineAt r' \<and> ru_deadlineAt r' \<le> ru_hardDeadlineAt r \<and> extension_for t' r' 160000 = None"
proof -
  obtain t a r where f: "findTask sample_slow ''team'' ''t1'' = Some (t, a, r)" "tk_capability t = ''BROWSER_VERIFICATION''"
      "pg_lastMeaningfulProgressKey (tk_progress t) \<noteq> Some []" "ru_deadlineAt r = 300100"
    using sample_extended(1) by (auto simp: found_run_def)
  obtain t' a' r' where f': "findTask (beat sample_slow 150000) ''team'' ''t1'' = Some (t', a', r')" "ru_deadlineAt r' = 404700"
    using sample_extended(2) by (auto simp: found_run_def)
  have "r' \<noteq> r" using f(4) f'(2) by auto
  then show ?thesis
    using deadline_extension_bounded [OF sample_slow_reachable beat_step [OF sample_beats(3)] f(1) f'(1) f(2,3)] f(1) f'(1) by blast
qed

lemma create_run_idempotent_witness: "create_run sample_queued sample_new 5 = Inr (sample_queued, ''run'')"
  by (rule create_run_idempotent [OF sample_created]) (simp add: sample_empty_def)

end
