(* ===== verification/AdmissionOrder.thy ===== *)
theory AdmissionOrder
  imports BrowserAdmission
begin

text \<open>The order in which executions get browsers: none is left out or repeated, and no pool runs ahead of another.\<close>

section \<open>Groups\<close>

definition grouping :: "('x \<Rightarrow> string) \<Rightarrow> 'x list \<Rightarrow> (string \<times> 'x list) list \<Rightarrow> bool" where
  "grouping key xs m \<longleftrightarrow> distinct (map fst m) \<and> mset (concat (map snd m)) = mset xs \<and> list_all (\<lambda>(k, q). \<forall>x\<in>set q. key x = k) m"

lemma mset_update_group:
  "mset (concat (map snd (AList.update k (coalesce (map_of m k) [] @ [x]) m))) = mset (concat (map snd m)) + {#x#}"
  by (induction m) (auto simp: coalesce_def)

lemma grouped_grouping: "grouping key xs (grouped key xs)"
proof (induction xs rule: rev_induct)
  case Nil
  then show ?case by (simp add: grouping_def grouped_def)
next
  case (snoc x xs)
  define m where "m = grouped key xs"
  have g: "grouped key (xs @ [x]) = AList.update (key x) (coalesce (map_of m (key x)) [] @ [x]) m"
    by (simp add: grouped_def m_def jmap_set_def jmap_get_def)
  have I: "distinct (map fst m)" "mset (concat (map snd m)) = mset xs" "list_all (\<lambda>(k, q). \<forall>x\<in>set q. key x = k) m"
    using snoc by (simp_all add: grouping_def m_def)
  have "\<forall>y\<in>set (coalesce (map_of m (key x)) [] @ [x]). key y = key x"
    using I(3) by (cases "map_of m (key x)") (auto simp: coalesce_def list_all_iff dest!: map_of_SomeD)
  then have "list_all (\<lambda>(k, q). \<forall>x\<in>set q. key x = k) (grouped key (xs @ [x]))"
    unfolding g by (intro list_all_update I(3)) simp
  then show ?case
    using I by (simp add: grouping_def g distinct_update mset_update_group del: mset_map)
qed

definition apart :: "('x \<Rightarrow> 'k) \<Rightarrow> 'x list \<Rightarrow> 'x list \<Rightarrow> bool" where
  "apart key p q \<longleftrightarrow> (\<forall>x\<in>set p. \<forall>y\<in>set q. key x \<noteq> key y)"

definition alike :: "('x \<Rightarrow> 'k) \<Rightarrow> 'x list \<Rightarrow> bool" where
  "alike key q \<longleftrightarrow> (\<exists>k. \<forall>x\<in>set q. key x = k)"

lemma apart_mono: "apart key p q \<Longrightarrow> set p' \<subseteq> set p \<Longrightarrow> set q' \<subseteq> set q \<Longrightarrow> apart key p' q'"
  unfolding apart_def by blast

lemma alike_mono: "alike key p \<Longrightarrow> set p' \<subseteq> set p \<Longrightarrow> alike key p'"
  unfolding alike_def by blast

lemma alikeD: "alike key q \<Longrightarrow> x \<in> set q \<Longrightarrow> y \<in> set q \<Longrightarrow> key x = key y"
  unfolding alike_def by auto

definition separated :: "('x \<Rightarrow> 'k) \<Rightarrow> 'x list list \<Rightarrow> bool" where
  "separated key qs \<longleftrightarrow> sorted_wrt (apart key) qs \<and> list_all (alike key) qs"

lemma separated_Cons: "separated key (q # qs) \<longleftrightarrow> alike key q \<and> (\<forall>p\<in>set qs. apart key q p) \<and> separated key qs"
  by (auto simp: separated_def)

lemma separated_mono:
  "separated key (map f qs) \<Longrightarrow> (\<And>q. set (g q) \<subseteq> set (f q)) \<Longrightarrow> separated key (map g qs)"
proof (induction qs)
  case (Cons q qs)
  have "apart key (g q) (g p)" if "p \<in> set qs" for p
  proof (rule apart_mono)
    show "apart key (f q) (f p)" using Cons.prems(1) that by (simp add: separated_Cons)
  qed (rule Cons.prems(2))+
  moreover have "alike key (g q)" 
    by (rule alike_mono [of key "f q"]) (use Cons.prems(1) in \<open>simp add: separated_Cons\<close>, rule Cons.prems(2))
  moreover have "separated key (map g qs)"
    by (rule Cons.IH) (use Cons.prems(1) in \<open>simp add: separated_Cons\<close>, rule Cons.prems(2))
  ultimately show ?case by (simp add: separated_Cons)
qed (simp add: separated_def)

lemma grouping_separated:
  assumes "grouping key xs m"
  shows "separated key (map snd m)"
proof -
  have "list_all (\<lambda>(k, q). \<forall>x\<in>set q. key x = k) m \<Longrightarrow> distinct (map fst m) \<Longrightarrow> separated key (map snd m)"
  proof (induction m)
    case (Cons e m)
    obtain k q where e: "e = (k, q)" by (cases e)
    have q: "\<forall>x\<in>set q. key x = k" using Cons.prems(1) by (simp add: e)
    have "apart key q p" if p: "p \<in> set (map snd m)" for p
    proof -
      obtain j where j: "(j, p) \<in> set m" using p by auto
      then have "j \<noteq> k" using Cons.prems(2) by (force simp: e)
      moreover have "\<forall>x\<in>set p. key x = j" using Cons.prems(1) j by (auto simp: list_all_iff)
      ultimately show ?thesis using q by (auto simp: apart_def)
    qed
    moreover have "alike key q" using q by (auto simp: alike_def)
    moreover have "separated key (map snd m)" using Cons by simp
    ultimately show ?case by (simp add: e separated_Cons)
  qed (simp add: separated_def)
  then show ?thesis using assms by (simp add: grouping_def)
qed

section \<open>Rounds\<close>

abbreviation first_round :: "'x list list \<Rightarrow> 'x list" where
  "first_round qs \<equiv> concat (map (take 1) qs)"

abbreviation later_rounds :: "'x list list \<Rightarrow> 'x list list" where
  "later_rounds qs \<equiv> filter (\<lambda>q. q \<noteq> []) (map (drop 1) qs)"

lemma rounds_Nil [code]: "rounds [] = []"
  by (simp add: rounds.simps)

lemma rounds_Cons [code]: "rounds (q # qs) = first_round (q # qs) @ rounds (later_rounds (q # qs))"
  by (subst rounds.simps) simp

lemma mset_round: "mset (first_round qs) + mset (concat (later_rounds qs)) = mset (concat qs)"
proof (induction qs)
  case (Cons q qs)
  then show ?case by (cases q) auto
qed simp

lemma mset_rounds: "mset (rounds qs) = mset (concat qs)"
proof (induction qs rule: rounds.induct)
  case (1 qs)
  show ?case
  proof (cases "qs = []")
    case True
    then show ?thesis by (subst rounds.simps) simp
  next
    case False
    then show ?thesis using 1 mset_round [of qs] by (subst rounds.simps) simp
  qed
qed

lemma set_rounds: "set (rounds qs) = set (concat qs)"
  using mset_rounds by (metis set_mset_mset)

definition share :: "('x \<Rightarrow> 'k) \<Rightarrow> 'k \<Rightarrow> 'x list \<Rightarrow> nat" where
  "share key k xs = length (filter (\<lambda>x. key x = k) xs)"

lemma share_append [simp]: "share key k (xs @ ys) = share key k xs + share key k ys"
  by (simp add: share_def)

lemma share_none: "(\<And>x. x \<in> set xs \<Longrightarrow> key x \<noteq> k) \<Longrightarrow> share key k xs = 0"
  by (simp add: share_def)

lemma share_one_round: "separated key qs \<Longrightarrow> share key k (first_round qs) \<le> 1"
proof (induction qs)
  case (Cons q qs)
  then have IH: "share key k (first_round qs) \<le> 1" by (simp add: separated_Cons)
  show ?case
  proof (cases q)
    case (Cons x r)
    have "share key k (first_round qs) = 0" if k: "key x = k"
    proof (rule share_none)
      fix y assume "y \<in> set (first_round qs)"
      then obtain p where "p \<in> set qs" "y \<in> set p" by (auto dest!: in_set_takeD)
      then have "key x \<noteq> key y" using Cons.prems unfolding separated_Cons apart_def Cons by auto
      then show "key y \<noteq> k" using k by simp
    qed
    then show ?thesis using IH by (auto simp: Cons share_def)
  qed (use IH in simp)
qed (simp add: share_def)

lemma share_full_round:
  "separated key qs \<Longrightarrow> q \<in> set qs \<Longrightarrow> x \<in> set q \<Longrightarrow> 1 \<le> share key (key x) (first_round qs)"
proof (induction qs)
  case (Cons p qs)
  show ?case
  proof (cases "q = p")
    case True
    then obtain y r where p: "p = y # r" using Cons.prems(3) by (cases p) auto
    have "key y = key x" using alikeD [of key p y x] Cons.prems True by (simp add: separated_Cons p)
    then show ?thesis by (simp add: p share_def)
  next
    case False
    then have "1 \<le> share key (key x) (first_round qs)" using Cons by (simp add: separated_Cons)
    then show ?thesis by simp
  qed
qed simp

lemma separated_filter: "separated key qs \<Longrightarrow> separated key (filter P qs)"
  by (auto simp: separated_def sorted_wrt_filter list_all_iff)

lemma separated_later: "separated key qs \<Longrightarrow> separated key (later_rounds qs)"
proof (rule separated_filter, rule separated_mono [of key "\<lambda>q. q"])
  show "separated key qs \<Longrightarrow> separated key (map (\<lambda>q. q) qs)" by simp
  show "set (drop 1 q) \<subseteq> set q" for q :: "'x list" by (rule set_drop_subset)
qed

text \<open>A group that still waits is at most one item behind any other.\<close>

lemma rounds_fair:
  "separated key qs \<Longrightarrow> rounds qs = ys @ zs \<Longrightarrow> z \<in> set zs \<Longrightarrow> share key k ys \<le> share key (key z) ys + 1"
proof (induction qs arbitrary: ys rule: rounds.induct)
  case (1 qs)
  have ne: "qs \<noteq> []" using 1(3,4) by (auto simp: rounds.simps)
  have split: "first_round qs @ rounds (later_rounds qs) = ys @ zs" using 1(3) ne by (simp add: rounds.simps [of qs])
  then consider us where "first_round qs = ys @ us" | us where "ys = first_round qs @ us" "rounds (later_rounds qs) = us @ zs"
    by (auto simp: append_eq_append_conv2)
  then show ?case
  proof cases
    case 1
    then have "share key k ys \<le> share key k (first_round qs)" by simp
    then show ?thesis using share_one_round [OF \<open>separated key qs\<close>, of k] by simp
  next
    case 2
    have "z \<in> set (rounds (later_rounds qs))" using 2(2) 1(4) by simp
    then obtain q where q: "q \<in> set qs" "z \<in> set (drop 1 q)" unfolding set_rounds by auto
    have "1 \<le> share key (key z) (first_round qs)" by (rule share_full_round [OF 1(2) q(1) in_set_dropD [OF q(2)]])
    moreover have "share key k us \<le> share key (key z) us + 1"
      by (rule 1(1) [OF ne separated_later [OF 1(2)] 2(2) 1(4)])
    ultimately show ?thesis using share_one_round [OF 1(2), of k] by (simp add: 2(1))
  qed
qed

section \<open>Admission\<close>

lemma task_queue: "mset (rounds (map snd (grouped task_key q))) = mset q"
  using mset_rounds [of "map snd (grouped task_key q)"] grouped_grouping [of task_key q] by (simp add: grouping_def)

lemma queues_separated: "separated queue_key (map (\<lambda>q. rounds (map snd (grouped task_key (snd q)))) (grouped queue_key items))"
proof (rule separated_mono [OF grouping_separated [OF grouped_grouping]])
  show "set (rounds (map snd (grouped task_key (snd q)))) \<subseteq> set (snd q)" for q :: "string \<times> waiting_execution list"
    using task_queue [of "snd q"] by (metis set_mset_mset order_refl)
qed

lemma admission_complete: "mset (fairAdmissionOrder items) = mset items"
proof -
  have "mset (concat (map (\<lambda>q. rounds (map snd (grouped task_key (snd q)))) m)) = mset (concat (map snd m))" for m
    by (induction m) (simp_all add: task_queue)
  then show ?thesis
    using grouped_grouping [of queue_key items] unfolding fairAdmissionOrder_def mset_rounds grouping_def by metis
qed

text \<open>C38: The order of admission tries every waiting execution exactly once, and while an execution waits for its pool of
  runtimes, no other pool is served more than one execution ahead of it: this holds after every number of tries.\<close>

theorem admission_fair:
  assumes "fairAdmissionOrder items = tried @ waiting" "x \<in> set waiting"
  shows "mset (tried @ waiting) = mset items
    \<and> length (filter (\<lambda>y. queue_key y = k) tried) \<le> length (filter (\<lambda>y. queue_key y = queue_key x) tried) + 1"
  using rounds_fair [OF queues_separated assms(1) [unfolded fairAdmissionOrder_def] assms(2)] admission_complete [of items]
  by (simp add: share_def assms(1))

definition sample_waiting :: "waiting_execution list" where
  "sample_waiting = map (\<lambda>(i, r). \<lparr>we_id = i, we_runtimeId = r, we_taskExecutionId = None\<rparr>)
     [(''a'', Some ''1''), (''b'', Some ''1''), (''c'', Some ''1''), (''d'', Some ''2''), (''e'', None)]"

lemma sample_order: "map we_id (fairAdmissionOrder sample_waiting) = [''a'', ''d'', ''e'', ''b'', ''c'']"
  by (simp add: sample_waiting_def fairAdmissionOrder_def grouped_def queue_key_def task_key_def coalesce_def jmap_set_def
      jmap_get_def rounds_Nil rounds_Cons)

lemma admission_fair_witness:
  "mset (take 4 (fairAdmissionOrder sample_waiting) @ drop 4 (fairAdmissionOrder sample_waiting)) = mset sample_waiting
   \<and> length (filter (\<lambda>y. queue_key y = ''runtime:1'') (take 4 (fairAdmissionOrder sample_waiting)))
     \<le> length (filter (\<lambda>y. queue_key y = queue_key (fairAdmissionOrder sample_waiting ! 4)) (take 4 (fairAdmissionOrder sample_waiting))) + 1"
proof (rule admission_fair)
  show "fairAdmissionOrder sample_waiting = take 4 (fairAdmissionOrder sample_waiting) @ drop 4 (fairAdmissionOrder sample_waiting)"
    by simp
  have "length (map we_id (fairAdmissionOrder sample_waiting)) = 5" unfolding sample_order by simp
  then show "fairAdmissionOrder sample_waiting ! 4 \<in> set (drop 4 (fairAdmissionOrder sample_waiting))"
    by (simp add: in_set_conv_nth exI [of _ 0])
qed

end
