(* ===== verification/JournalState.thy ===== *)
theory JournalState
  imports CleanupEvidence Observation
begin

text \<open>
  The journal an agent runtime keeps of an execution, \<open>apps/agent-runtime/src/execution-journal.ts\<close>: its state, with the
  fields of \<open>executionStateSchema\<close> (\<open>packages/agent-runtime-protocol/src/execution-state.ts\<close>) that the journal decides
  on, and the reading of requests, responses and records in what a browser reports.

  Records, writes and reads extend those of \<open>CleanupEvidence\<close>, so what the control plane checks is a part of what the
  journal holds. Text is UTF-8; \<open>js_units\<close> is the length the language reports of it.
\<close>

section \<open>Text\<close>

definition utf8_char :: "nat \<Rightarrow> string" where
  "utf8_char c = map char_of (if c < 128 then [c]
     else if c < 2048 then [192 + c div 64, 128 + c mod 64]
     else if c < 65536 then [224 + c div 4096, 128 + c div 64 mod 64, 128 + c mod 64]
     else [240 + c div 262144, 128 + c div 4096 mod 64, 128 + c div 64 mod 64, 128 + c mod 64])"

definition utf8 :: "utext \<Rightarrow> string" where
  "utf8 s = concat (map utf8_char s)"

definition char_units :: "char \<Rightarrow> nat" where
  "char_units c = (let n = of_char c :: nat in if 128 \<le> n \<and> n < 192 then 0 else if 240 \<le> n then 2 else 1)"

definition js_units :: "string \<Rightarrow> nat" where
  "js_units s = sum_list (map char_units s)"

text \<open>\<open>slice(0, n)\<close>.\<close>

fun slice_units :: "nat \<Rightarrow> string \<Rightarrow> string" where
  "slice_units n [] = []"
| "slice_units n (c # cs) = (if char_units c \<le> n then c # slice_units (n - char_units c) cs else [])"

text \<open>\<open>slice(-n)\<close> of a list.\<close>

definition last_n :: "nat \<Rightarrow> 'a list \<Rightarrow> 'a list" where
  "last_n n xs = drop (length xs - n) xs"

section \<open>The state of the journal\<close>

text \<open>\<open>jr_noted\<close>: the cleanup has a note that is not blank. \<open>jr_retainedAt\<close>: its \<open>retainedAtWriteKey\<close>.\<close>

record baseline =
  bs_readKey :: string
  bs_sequence :: int
  bs_timestamp :: "string option"

record ui_baseline =
  ub_observationId :: string
  ub_pageIdentity :: string
  ub_capturedAt :: string
  ub_values :: "string list"
  ub_evidenceRefs :: "string list"

record journal_record = execution_record +
  jr_displayType :: "string option"
  jr_initialState :: "string option"
  jr_currentState :: "string option"
  jr_baseline :: "baseline option"
  jr_uiBaseline :: "ui_baseline option"
  jr_noted :: bool
  jr_retainedAt :: "string option"

record journal_write = write_receipt +
  jw_timestamp :: "string option"
  jw_uiTypeLabel :: "string option"

record read_identity =
  ri_id :: string
  ri_type :: string
  ri_accountAliases :: "string list"

record journal_read = read_receipt +
  jd_timestamp :: "string option"
  jd_empty :: bool
  jd_identities :: "read_identity list"
  jd_namedResources :: "(string \<times> string) list"
  jd_recordStates :: "(string \<times> string) list"

record pending_record =
  pr_id :: string
  pr_type :: string
  pr_resourceUrl :: string
  pr_accountAliases :: "string list"
  pr_currentState :: string
  pr_evidenceRefs :: "string list"

record journal_review =
  jv_writeKeys :: "string list"
  jv_evidenceRefs :: "string list"

record journal_account =
  ja_slotId :: string
  ja_account :: string
  ja_aliases :: "string list"
  ja_requiredTypes :: "string list"

text \<open>A captured page, and when it was captured.\<close>

record captured_page =
  cp_observation :: observation
  cp_captureId :: string
  cp_pageIdentity :: string
  cp_from :: string
  cp_until :: string

text \<open>The last three fields are of the object in memory; the others are stored.\<close>

record execution_journal =
  jn_requestOrder :: "string list"
  jn_requestOrderTruncated :: bool
  jn_reads :: "journal_read list"
  jn_confirmations :: "cleanup_confirmation list"
  jn_accounts :: "journal_account list option"
  jn_phase :: execution_phase
  jn_account :: "string option"
  jn_absences :: "string list"
  jn_existing :: "string list"
  jn_accountAliases :: "string list"
  jn_records :: "journal_record list"
  jn_observed :: "journal_record list"
  jn_pending :: "pending_record list"
  jn_truncated :: bool
  jn_review :: "journal_review option"
  jn_writes :: "journal_write list"
  jn_ui :: "captured_page option"
  jn_uiRefs :: "string list"
  jn_pendingUiRead :: bool

definition new_journal :: execution_journal where
  "new_journal = \<lparr>jn_requestOrder = [], jn_requestOrderTruncated = False, jn_reads = [], jn_confirmations = [],
     jn_accounts = None, jn_phase = PREFLIGHT, jn_account = None, jn_absences = [], jn_existing = [],
     jn_accountAliases = [], jn_records = [], jn_observed = [], jn_pending = [], jn_truncated = False,
     jn_review = None, jn_writes = [], jn_ui = None, jn_uiRefs = [], jn_pendingUiRead = False\<rparr>"

text \<open>The limits of the schema on the lengths of the lists of a stored journal, from below (\<open>min(1)\<close>) and above.\<close>

definition refs_within :: "string list \<Rightarrow> bool" where
  "refs_within ev \<longleftrightarrow> ev \<noteq> [] \<and> length ev \<le> 20"

definition baseline_within :: "ui_baseline \<Rightarrow> bool" where
  "baseline_within b \<longleftrightarrow> ub_values b \<noteq> [] \<and> length (ub_values b) \<le> 100 \<and> refs_within (ub_evidenceRefs b)"

definition record_within :: "journal_record \<Rightarrow> bool" where
  "record_within r \<longleftrightarrow> length (er_accountAliases r) \<le> 20 \<and> refs_within (er_evidenceRefs r) \<and> pred_option baseline_within (jr_uiBaseline r)"

definition read_within :: "journal_read \<Rightarrow> bool" where
  "read_within r \<longleftrightarrow> length (re_recordKeys r) \<le> 100 \<and> length (jd_namedResources r) \<le> 100 \<and> length (jd_identities r) \<le> 100
     \<and> list_all (\<lambda>i. length (ri_accountAliases i) \<le> 20) (jd_identities r) \<and> length (re_evidenceRefs r) \<le> 20"

definition pending_within :: "pending_record \<Rightarrow> bool" where
  "pending_within p \<longleftrightarrow> length (pr_accountAliases p) \<le> 20 \<and> refs_within (pr_evidenceRefs p)"

definition review_within :: "journal_review \<Rightarrow> bool" where
  "review_within v \<longleftrightarrow> jv_writeKeys v \<noteq> [] \<and> length (jv_writeKeys v) \<le> 200 \<and> refs_within (jv_evidenceRefs v)"

definition accounts_within :: "journal_account list \<Rightarrow> bool" where
  "accounts_within bs \<longleftrightarrow> length bs \<le> 50 \<and> list_all (\<lambda>b. length (ja_aliases b) \<le> 20 \<and> length (ja_requiredTypes b) \<le> 20) bs"

definition state_within :: "execution_journal \<Rightarrow> bool" where
  "state_within j \<longleftrightarrow> length (jn_requestOrder j) \<le> 2000
     \<and> length (jn_reads j) \<le> 200 \<and> list_all read_within (jn_reads j)
     \<and> length (jn_confirmations j) \<le> 50 \<and> list_all (\<lambda>p. length (cc_evidenceRefs p) \<le> 20) (jn_confirmations j)
     \<and> pred_option accounts_within (jn_accounts j)
     \<and> length (jn_absences j) \<le> 100 \<and> length (jn_existing j) \<le> 200 \<and> length (jn_accountAliases j) \<le> 20
     \<and> length (jn_records j) \<le> 50 \<and> list_all record_within (jn_records j)
     \<and> length (jn_observed j) \<le> 100 \<and> list_all record_within (jn_observed j)
     \<and> length (jn_pending j) \<le> 50 \<and> list_all pending_within (jn_pending j)
     \<and> pred_option review_within (jn_review j)
     \<and> length (jn_writes j) \<le> 200 \<and> list_all (\<lambda>w. length (wr_evidenceRefs w) \<le> 20) (jn_writes j)"

section \<open>Values\<close>

text \<open>What the language and the platform give: \<open>new URL\<close>, \<open>JSON.parse\<close>, \<open>JSON.stringify\<close> of a defined value, \<open>String\<close>,
  \<open>Date.parse\<close> (\<open>None\<close>: not a number), \<open>Number\<close> of a text, SHA-256, and whether a text is an account by the letters and digits of Unicode
  (\<open>businessTestAccountSchema\<close>; the result is trimmed).\<close>

record journal_env =
  je_url :: url_parser
  je_json :: json_parser
  je_stringify :: "js \<Rightarrow> string"
  je_show :: "js \<Rightarrow> string"
  je_date :: "string \<Rightarrow> int option"
  je_hash :: "string \<Rightarrow> string"
  je_number :: "string \<Rightarrow> rat option"
  je_account :: "string \<Rightarrow> string option"

abbreviation resource :: "journal_env \<Rightarrow> string \<Rightarrow> string" where
  "resource env \<equiv> executionResourceUrl (je_url env)"

abbreviation matches :: "journal_env \<Rightarrow> 'w write_receipt_scheme \<Rightarrow> 'r execution_record_scheme \<Rightarrow> bool" where
  "matches env \<equiv> writeMatchesRecord (je_url env) (je_json env) (je_show env)"

abbreviation covers :: "journal_env \<Rightarrow> 'x read_receipt_scheme \<Rightarrow> 'r execution_record_scheme \<Rightarrow> bool" where
  "covers env \<equiv> completeReadCoversRecord (je_url env) (je_show env)"

definition parse_value :: "journal_env \<Rightarrow> js \<Rightarrow> js" where
  "parse_value env v = (case v of JStr s \<Rightarrow> coalesce (je_json env s) JUndefined | _ \<Rightarrow> v)"

text \<open>\<open>parse(v) ?? v\<close>.\<close>

definition parsed_or :: "journal_env \<Rightarrow> js \<Rightarrow> js" where
  "parsed_or env v = js_coalesce (parse_value env v) v"

definition request_of :: "journal_env \<Rightarrow> 'w write_receipt_scheme \<Rightarrow> js" where
  "request_of env w = js_obj (parsed_text (je_json env) (wr_request w))"

definition response_of :: "journal_env \<Rightarrow> 'w write_receipt_scheme \<Rightarrow> js" where
  "response_of env w = parsed_text (je_json env) (wr_response w)"

definition succeeded :: "journal_env \<Rightarrow> 'w write_receipt_scheme \<Rightarrow> bool" where
  "succeeded env w \<longleftrightarrow> successfulExecutionWrite (wr_status w) (response_of env w)"

text \<open>\<open>isDeepStrictEqual\<close> of two JSON values.\<close>

lemma zip_size [termination_simp]: "(x, y) \<in> set (zip xs ys) \<Longrightarrow> size x < Suc (size_list size xs)"
  using size_list_estimation [of x xs "size x" size] set_zip_leftD [of x y xs ys] by (metis less_Suc_eq_le order_refl size_list_estimation')

fun deep_equal :: "js \<Rightarrow> js \<Rightarrow> bool" where
  "deep_equal (JArr xs) (JArr ys) \<longleftrightarrow> length xs = length ys \<and> list_all (\<lambda>(x, y). deep_equal x y) (zip xs ys)"
| "deep_equal (JObj fs) (JObj gs) \<longleftrightarrow> length fs = length gs
     \<and> list_all (\<lambda>(k, v). case map_of gs k of None \<Rightarrow> False | Some w \<Rightarrow> deep_equal v w) fs"
| "deep_equal v w \<longleftrightarrow> v = w"

definition same_state :: "journal_env \<Rightarrow> string \<Rightarrow> string \<Rightarrow> bool" where
  "same_state env a b \<longleftrightarrow> deep_equal (parsed_or env (JStr a)) (parsed_or env (JStr b))"

text \<open>\<open>Date.parse(a) < Date.parse(b)\<close>; false when one of them is no date.\<close>

definition date_before :: "journal_env \<Rightarrow> string \<Rightarrow> string \<Rightarrow> bool" where
  "date_before env a b \<longleftrightarrow> (case (je_date env a, je_date env b) of (Some x, Some y) \<Rightarrow> x < y | _ \<Rightarrow> False)"

text \<open>\<open>!a || !b || Date.parse(a) < Date.parse(b)\<close>.\<close>

definition not_after :: "journal_env \<Rightarrow> string option \<Rightarrow> string option \<Rightarrow> bool" where
  "not_after env a b \<longleftrightarrow> \<not> truthy a \<or> \<not> truthy b \<or> date_before env (the a) (the b)"

definition js_number :: "js \<Rightarrow> int option" where
  "js_number v = (case v of JNum n \<Rightarrow> Some \<lfloor>n\<rfloor> | _ \<Rightarrow> None)"

section \<open>Records\<close>

text \<open>The key of a record of any kind, and its reference.\<close>

definition record_key :: "journal_env \<Rightarrow> string \<Rightarrow> string \<Rightarrow> string \<Rightarrow> string" where
  "record_key env i type url = (if url = [] then [] else resource env url) @ '':'' @ type @ '':'' @ i"

abbreviation key_of :: "journal_env \<Rightarrow> 'r execution_record_scheme \<Rightarrow> string" where
  "key_of env \<equiv> executionRecordKey (je_url env)"

abbreviation pending_key :: "journal_env \<Rightarrow> pending_record \<Rightarrow> string" where
  "pending_key env p \<equiv> record_key env (pr_id p) (pr_type p) (pr_resourceUrl p)"

definition stableRecordRef :: "journal_env \<Rightarrow> string option \<Rightarrow> string option \<Rightarrow> string \<Rightarrow> string option \<Rightarrow> string" where
  "stableRecordRef env url type i account = ''record:'' @ je_hash env (je_stringify env (JArr
     [JStr (case url of None \<Rightarrow> [] | Some u \<Rightarrow> if u = [] then [] else resource env u), JStr (coalesce type []), JStr i,
      JStr (coalesce account [])]))"

definition rejectedWrite :: "journal_env \<Rightarrow> 'w write_receipt_scheme \<Rightarrow> bool" where
  "rejectedWrite env w \<longleftrightarrow> coalesce (wr_status w) 0 \<in> {400, 401, 403, 404, 405, 409, 415, 422}
     \<or> (wr_confirmed w \<and> (case wr_status w of None \<Rightarrow> False | Some s \<Rightarrow> 200 \<le> s \<and> s < 300) \<and> \<not> succeeded env w)"

text \<open>Business responses may hold empty or malformed identities; these are no aliases.\<close>

definition accountAliases :: "journal_env \<Rightarrow> js list \<Rightarrow> string list" where
  "accountAliases env vs = js_uniq (concat (map (\<lambda>v. case v of
     JStr s \<Rightarrow> (case je_account env s of None \<Rightarrow> [] | Some a \<Rightarrow> [a]) | _ \<Rightarrow> []) vs))"

definition aliases_of :: "journal_env \<Rightarrow> js \<Rightarrow> string list" where
  "aliases_of env v = (let user = js_obj (js_prop v ''user'') in
     accountAliases env [js_prop v ''account'', js_prop user ''uuid'', js_prop user ''phone'', js_prop user ''email''])"

definition js_identifier :: "js \<Rightarrow> bool" where
  "js_identifier v \<longleftrightarrow> (case v of JStr _ \<Rightarrow> True | JNum _ \<Rightarrow> True | _ \<Rightarrow> False)"

definition list_fields :: "string list" where
  "list_fields = [''data'', ''list'', ''items'', ''records'', ''whitelists'']"

definition lists_of :: "js \<Rightarrow> js list list" where
  "lists_of v = concat (map (\<lambda>k. case js_prop (js_obj v) k of JArr xs \<Rightarrow> [xs] | _ \<Rightarrow> []) list_fields)"

text \<open>The records in a response: accounts' records, and named resources. The fuel is 9, for a depth of 8.\<close>

definition account_record :: "js \<Rightarrow> bool" where
  "account_record v \<longleftrightarrow> js_identifier (js_prop v ''id'') \<and> js_string (js_prop v ''type'') \<noteq> None \<and> js_prop v ''account'' \<noteq> JUndefined"

definition named_record :: "journal_env \<Rightarrow> js \<Rightarrow> bool" where
  "named_record env v \<longleftrightarrow> js_identifier (js_prop v ''id'') \<and> je_show env (js_prop v ''id'') \<noteq> []
     \<and> js_units (je_show env (js_prop v ''id'')) \<le> 500
     \<and> (case js_prop v ''name'' of JStr n \<Rightarrow> \<not> js_blank n \<and> js_units n \<le> 500 | _ \<Rightarrow> False) \<and> js_prop v ''account'' = JUndefined"

fun found_records :: "journal_env \<Rightarrow> nat \<Rightarrow> js \<Rightarrow> js list" where
  "found_records env 0 v = []"
| "found_records env (Suc n) (JArr vs) = concat (map (found_records env n) (take 100 vs))"
| "found_records env (Suc n) (JObj fs) =
     (if account_record (JObj fs) then [JObj fs]
      else if named_record env (JObj fs) then [JObj [(''id'', js_prop (JObj fs) ''id''), (''type'', JStr ''NAMED_RESOURCE''),
        (''resourceName'', js_prop (JObj fs) ''name''), (''config'', JObj fs)]]
      else concat (map (\<lambda>f. found_records env n (snd f)) fs))"
| "found_records env (Suc n) v = []"

fun emptyList :: "js \<Rightarrow> bool" where
  "emptyList (JArr vs) \<longleftrightarrow> vs = []"
| "emptyList (JObj fs) \<longleftrightarrow> list_ex (\<lambda>(k, c). k \<in> set list_fields \<and>
     (case c of JArr vs \<Rightarrow> vs = [] | JObj gs \<Rightarrow> emptyList (JObj gs) | _ \<Rightarrow> False)) fs"
| "emptyList v \<longleftrightarrow> False"

definition paging_parameter :: "string \<Rightarrow> bool" where
  "paging_parameter k \<longleftrightarrow> list_ex (\<lambda>w. list_ex (\<lambda>i. starts_with (drop i (to_lower k)) w) [0..<length k])
     [''page'', ''offset'', ''cursor'', ''limit'', ''size'']"

text \<open>\<open>Number(v)\<close>; \<open>None\<close> is not a number.\<close>

definition js_to_number :: "journal_env \<Rightarrow> js \<Rightarrow> rat option" where
  "js_to_number env v = (case v of JNum n \<Rightarrow> Some n | JNull \<Rightarrow> Some 0 | JBool b \<Rightarrow> Some (if b then 1 else 0)
     | JUndefined \<Rightarrow> None | JStr s \<Rightarrow> je_number env s | _ \<Rightarrow> je_number env (je_show env v))"

text \<open>Whether a list is all there is: its total says so, or the request asks for no page. \<open>new URL\<close> of a request that a
  browser reports does not fail.\<close>

definition complete_rows :: "journal_env \<Rightarrow> js \<Rightarrow> string \<Rightarrow> js list \<Rightarrow> bool" where
  "complete_rows env v url rows \<longleftrightarrow> length rows \<le> 100 \<and>
     (let total = (if js_nullish (js_prop v ''total'') then (if js_nullish (js_prop v ''totalCount'') then js_prop v ''total_count''
          else js_prop v ''totalCount'') else js_prop v ''total'') in
      if total \<noteq> JUndefined then js_to_number env total = Some (of_nat (length rows))
      else (case je_url env url of None \<Rightarrow> False | Some u \<Rightarrow> \<not> list_ex (\<lambda>p. paging_parameter (fst p)) (url_params u)))"

fun completeList :: "journal_env \<Rightarrow> string \<Rightarrow> js \<Rightarrow> bool" where
  "completeList env url (JArr vs) \<longleftrightarrow> complete_rows env (JObj []) url vs"
| "completeList env url (JObj fs) \<longleftrightarrow> (case lists_of (JObj fs) of
     [] \<Rightarrow> list_ex (\<lambda>(k, c). k \<in> {''data'', ''result''} \<and>
         (case c of JArr vs \<Rightarrow> completeList env url (JArr vs) | JObj gs \<Rightarrow> completeList env url (JObj gs) | _ \<Rightarrow> False)) fs
   | [rows] \<Rightarrow> complete_rows env (JObj fs) url rows
   | _ \<Rightarrow> False)"
| "completeList env url v \<longleftrightarrow> False"

text \<open>The rows of a list, those that are no records included. The fuel is 9.\<close>

fun listRows :: "nat \<Rightarrow> js \<Rightarrow> js list option" where
  "listRows 0 v = None"
| "listRows (Suc n) (JArr vs) = Some vs"
| "listRows (Suc n) v = (case lists_of v of
     [] \<Rightarrow> (case concat (map (\<lambda>k. case js_prop (js_obj v) k of
           JArr vs \<Rightarrow> (case listRows n (JArr vs) of None \<Rightarrow> [] | Some rows \<Rightarrow> [rows])
         | JObj fs \<Rightarrow> (case listRows n (JObj fs) of None \<Rightarrow> [] | Some rows \<Rightarrow> [rows])
         | _ \<Rightarrow> []) [''data'', ''result'']) of [rows] \<Rightarrow> Some rows | _ \<Rightarrow> None)
   | [rows] \<Rightarrow> Some rows
   | _ \<Rightarrow> None)"

text \<open>The stored evidence that the output of a command names, in order. The fuel is 9.\<close>

fun find_refs :: "string list \<Rightarrow> nat \<Rightarrow> js \<Rightarrow> string list" where
  "find_refs known 0 v = []"
| "find_refs known (Suc n) (JArr vs) = concat (map (find_refs known n) vs)"
| "find_refs known (Suc n) (JObj fs) =
     (case js_prop (JObj fs) ''id'' of JStr i \<Rightarrow> if ''artifact://'' @ i \<in> set known then [''artifact://'' @ i] else [] | _ \<Rightarrow> [])
     @ filter (\<lambda>r. r \<in> set known) (js_strings (js_prop (JObj fs) ''evidenceRefs''))
     @ (case js_prop (JObj fs) ''externalId'' of JStr i \<Rightarrow> if i \<in> set known then [i] else [] | _ \<Rightarrow> [])
     @ concat (map (\<lambda>f. find_refs known n (snd f)) fs)"
| "find_refs known (Suc n) v = []"

section \<open>Writes and what came before them\<close>

definition subject_ok :: "js \<Rightarrow> string \<Rightarrow> js \<Rightarrow> bool" where
  "subject_ok request k v \<longleftrightarrow> js_prop request k = JUndefined \<or> js_prop request k = v"

definition absence_key :: "journal_env \<Rightarrow> string \<Rightarrow> string \<Rightarrow> string \<Rightarrow> string" where
  "absence_key env url type account = resource env url @ '':'' @ type @ '':'' @ account"

definition add_absence :: "string \<Rightarrow> execution_journal \<Rightarrow> execution_journal" where
  "add_absence k j = j\<lparr>jn_absences := last_n 100 (js_uniq (jn_absences j @ [k]))\<rparr>"

definition add_existing :: "string \<Rightarrow> execution_journal \<Rightarrow> execution_journal" where
  "add_existing k j = j\<lparr>jn_existing := last_n 200 (js_uniq (jn_existing j @ [k]))\<rparr>"

text \<open>The observation of a record is its state before the run only if every write that may concern it came later.\<close>

definition write_spares :: "journal_env \<Rightarrow> journal_record \<Rightarrow> journal_write \<Rightarrow> bool" where
  "write_spares env r w \<longleftrightarrow> rejectedWrite env w \<or> er_resourceUrl r \<noteq> Some (resource env (wr_url w))
     \<or> (let request = request_of env w; identity = requestedRecordId (je_url env) (je_show env) (wr_url w) request in
        \<not> rq_conflict identity \<and> (case rq_id identity of
            Some i \<Rightarrow> i \<noteq> er_id r
          | None \<Rightarrow> (js_prop request ''type'' \<noteq> JUndefined \<and> js_prop request ''type'' \<noteq> opt_js (er_type r))
              \<or> (js_prop request ''account'' \<noteq> JUndefined \<and> \<not> account_of r (je_show env (js_prop request ''account'')))))"

definition baselinePrecedesWrites :: "journal_env \<Rightarrow> execution_journal \<Rightarrow> journal_record \<Rightarrow> bool" where
  "baselinePrecedesWrites env j r = (case jr_baseline r of
     None \<Rightarrow> False
   | Some b \<Rightarrow> \<not> jn_requestOrderTruncated j \<and> \<not> jn_truncated j
       \<and> list_all (\<lambda>w. write_spares env r w
           \<or> (case wr_sequence w of None \<Rightarrow> False | Some s \<Rightarrow> bs_sequence b < s) \<and> not_after env (bs_timestamp b) (jw_timestamp w))
         (jn_writes j))"

text \<open>The latest write that may have created the record; \<open>absence\<close>: only where it was absent before.\<close>

definition creates_record :: "journal_env \<Rightarrow> execution_journal \<Rightarrow> bool \<Rightarrow> pending_record \<Rightarrow> journal_write \<Rightarrow> bool" where
  "creates_record env j absence p w \<longleftrightarrow>
     (let request = request_of env w; created = responseRecordId (je_show env) (response_of env w) in
      wr_method w = POST \<and> resource env (wr_url w) = pr_resourceUrl p \<and> js_prop request ''type'' = JStr (pr_type p)
      \<and> (case js_prop request ''account'' of JStr a \<Rightarrow> a \<in> set (pr_accountAliases p)
           \<and> (\<not> absence \<or> pr_resourceUrl p @ '':'' @ pr_type p @ '':'' @ a \<in> set (jn_absences j)) | _ \<Rightarrow> False)
      \<and> (created = None \<or> created = Some (pr_id p)))"

definition matchingCreation :: "journal_env \<Rightarrow> execution_journal \<Rightarrow> bool \<Rightarrow> pending_record \<Rightarrow> journal_write option" where
  "matchingCreation env j absence p = List.find (creates_record env j absence p) (rev (jn_writes j))"

definition cleanup_pending :: record_cleanup where
  "cleanup_pending = \<lparr>rc_status = CLEANUP_PENDING, rc_resolution = None\<rparr>"

definition has_status :: "cleanup_status \<Rightarrow> 'r execution_record_scheme \<Rightarrow> bool" where
  "has_status s r \<longleftrightarrow> (case er_cleanup r of None \<Rightarrow> False | Some c \<Rightarrow> rc_status c = s)"

text \<open>A confirmation on the page does not outlive what happens after it.\<close>

definition ui_confirmation :: "string option \<Rightarrow> cleanup_confirmation \<Rightarrow> bool" where
  "ui_confirmation ref p \<longleftrightarrow> cc_source p = Some UI_SOURCE \<and> (\<not> truthy ref \<or> ref = Some (cc_recordRef p))"

definition invalidateUiConfirmations :: "string option \<Rightarrow> execution_journal \<Rightarrow> execution_journal" where
  "invalidateUiConfirmations ref j =
     (let owners = map cc_recordRef (filter (ui_confirmation ref) (jn_confirmations j)) in
      j\<lparr>jn_records := map (\<lambda>r. if truthy (er_recordRef r) \<and> the (er_recordRef r) \<in> set owners \<and> has_status CLEANUP_COMPLETED r
            then r\<lparr>er_cleanup := Some cleanup_pending, jr_noted := True\<rparr> else r) (jn_records j),
        jn_confirmations := filter (\<lambda>p. \<not> ui_confirmation ref p) (jn_confirmations j)\<rparr>)"

text \<open>What is read back of a stored journal: nothing of it when its schema refuses it (\<open>parsed\<close>: what the schema makes of
  it). The page seen last is not stored.\<close>

definition readExecutionState :: "execution_journal option \<Rightarrow> execution_journal" where
  "readExecutionState parsed = (case parsed of None \<Rightarrow> new_journal
     | Some j \<Rightarrow> j\<lparr>jn_ui := None, jn_uiRefs := [], jn_pendingUiRead := False\<rparr>)"

text \<open>The execution's accounts prevail over the journal's, whose aliases are kept.\<close>

definition merged_binding :: "execution_journal \<Rightarrow> journal_account \<Rightarrow> journal_account" where
  "merged_binding j b = b\<lparr>ja_aliases := js_uniq (ja_aliases b @
     (case List.find (\<lambda>old. ja_slotId old = ja_slotId b \<and> ja_account old = ja_account b) (coalesce (jn_accounts j) []) of
        None \<Rightarrow> [] | Some old \<Rightarrow> ja_aliases old))\<rparr>"

definition open_journal :: "journal_env \<Rightarrow> execution_journal option \<Rightarrow> journal_account list option \<Rightarrow> execution_journal" where
  "open_journal env parsed bindings =
     (let stored = readExecutionState parsed;
          j = stored\<lparr>jn_records := map (\<lambda>r. if er_recordRef r = None then r\<lparr>er_recordRef :=
            Some (stableRecordRef env (er_resourceUrl r) (er_type r) (er_id r) (er_account r))\<rparr> else r) (jn_records stored)\<rparr> in
      case bindings of
        Some (b # bs) \<Rightarrow> j\<lparr>jn_accounts := Some (map (merged_binding stored) (b # bs)), jn_account := None, jn_accountAliases := []\<rparr>
      | _ \<Rightarrow> j)"

text \<open>Another account from a human: what is stored is kept but for the accounts and what was found absent before.\<close>

definition accountReplacementState :: "execution_journal option \<Rightarrow> journal_account list option \<Rightarrow> string option \<Rightarrow> execution_journal" where
  "accountReplacementState parsed accounts account =
     (readExecutionState parsed)\<lparr>jn_accounts := accounts, jn_account := (if accounts = None then account else None),
        jn_accountAliases := [], jn_absences := []\<rparr>"

text \<open>What the executor sets itself: the account it was given, and that what is left of its budget is for the cleanup.\<close>

definition assign_account :: "string \<Rightarrow> execution_journal \<Rightarrow> execution_journal" where
  "assign_account account j = (if jn_account j \<noteq> Some account then j\<lparr>jn_account := Some account, jn_accountAliases := []\<rparr> else j)"

definition start_cleanup :: "execution_journal \<Rightarrow> execution_journal" where
  "start_cleanup j = j\<lparr>jn_phase := CLEANUP_PHASE\<rparr>"

end
