(* ===== verification/ExecutionJournal.thy ===== *)
theory ExecutionJournal
  imports JournalState
begin

text \<open>
  What a browser reports enters the journal: the method \<open>observe\<close> of \<open>ExecutionJournal\<close>
  (\<open>apps/agent-runtime/src/execution-journal.ts\<close>) with the methods it calls, except those on captured pages and on
  cleanup, which are in \<open>JournalUpdate\<close>.
\<close>

section \<open>Requests\<close>

text \<open>A reported request, with what the code reads of it. \<open>nq_requestJs\<close> is its body as reported.\<close>

record net_request =
  nq_url :: string
  nq_method :: string
  nq_requestId :: js
  nq_timestamp :: "string option"
  nq_status :: "int option"
  nq_requestJs :: js
  nq_response :: "string option"
  nq_cut :: bool

definition net_request_of :: "journal_env \<Rightarrow> js \<Rightarrow> net_request" where
  "net_request_of env q = \<lparr>nq_url = je_show env (js_coalesce (js_prop q ''url'') (JStr [])),
     nq_method = je_show env (js_prop q ''method''), nq_requestId = js_prop q ''requestId'',
     nq_timestamp = js_string (js_prop q ''timestamp''), nq_status = js_number (js_prop q ''status''),
     nq_requestJs = js_prop q ''requestSummary'', nq_response = js_string (js_prop q ''responseSummary''),
     nq_cut = (list_ex (\<lambda>k. js_prop q k = JBool True) [''bodyPending'', ''pending'', ''responseTruncated'', ''responseBodyTruncated'']
       \<or> js_prop q ''responseBodyOmitted'' \<noteq> JUndefined)\<rparr>"

definition summary_of :: "journal_env \<Rightarrow> js \<Rightarrow> js" where
  "summary_of env body = (if body = JUndefined then JUndefined else JStr (je_stringify env body))"

text \<open>The network log of a page, or the requests an action caused.\<close>

definition logged_request :: "journal_env \<Rightarrow> js \<Rightarrow> net_request" where
  "logged_request env e = (let r = js_obj e in
     (net_request_of env r)\<lparr>nq_requestId := js_coalesce (js_prop r ''requestId'') (js_prop r ''timestamp''),
        nq_requestJs := summary_of env (js_prop r ''requestBody''),
        nq_response := js_string (summary_of env (js_prop r ''responseBody''))\<rparr>)"

definition feedback_of :: "js \<Rightarrow> js" where
  "feedback_of output = (let root = js_obj output; result = js_obj (js_prop root ''result'') in
     js_obj (js_coalesce (js_prop result ''actionFeedback'') (js_prop root ''actionFeedback'')))"

definition requests_of :: "journal_env \<Rightarrow> js \<Rightarrow> net_request list" where
  "requests_of env output =
     (case parse_value env (js_prop (js_obj (js_prop (js_obj output) ''result'')) ''content'') of
        JArr (e # es) \<Rightarrow> map (logged_request env) (e # es)
      | _ \<Rightarrow> (case js_prop (feedback_of output) ''requests'' of
            JArr qs \<Rightarrow> map (\<lambda>q. net_request_of env (js_obj q)) qs | _ \<Rightarrow> []))"

definition request_id_like :: "string \<Rightarrow> bool" where
  "request_id_like s \<longleftrightarrow> length s = 36 \<and> list_all (\<lambda>c. hex_digit c \<or> c = CHR ''-'') s"

definition request_key :: "journal_env \<Rightarrow> js \<Rightarrow> net_request \<Rightarrow> string" where
  "request_key env command q = (case nq_requestId q of
     JStr s \<Rightarrow> if request_id_like s then ''request:'' @ s
       else je_show env (js_coalesce command (JStr ''network'')) @ '':'' @ s
   | v \<Rightarrow> je_show env (js_coalesce command (JStr ''network'')) @ '':'' @ je_show env v)"

definition request_body :: "journal_env \<Rightarrow> net_request \<Rightarrow> js" where
  "request_body env q = (case nq_response q of None \<Rightarrow> JUndefined | Some s \<Rightarrow> parse_value env (JStr s))"

definition complete_body :: "net_request \<Rightarrow> bool" where
  "complete_body q \<longleftrightarrow> \<not> nq_cut q \<and> nq_response q \<noteq> None"

definition request_ok :: "journal_env \<Rightarrow> net_request \<Rightarrow> bool" where
  "request_ok env q \<longleftrightarrow> complete_body q \<and> successfulExecutionWrite (nq_status q) (request_body env q)"

definition mutation_method :: "string \<Rightarrow> write_method option" where
  "mutation_method s = (if s = ''POST'' then Some POST else if s = ''PUT'' then Some PUT
     else if s = ''PATCH'' then Some PATCH else if s = ''DELETE'' then Some DELETE else None)"

text \<open>A segment of the URL is a word of authentication; such a request is no business mutation.\<close>

definition auth_words :: "string list" where
  "auth_words = [''oauth'', ''auth'', ''login'', ''signin'', ''sign-in'', ''token'', ''refresh'', ''session'', ''password'']"

definition auth_url :: "string \<Rightarrow> bool" where
  "auth_url url \<longleftrightarrow> list_ex (\<lambda>i. (i = 0 \<or> url ! (i - 1) = CHR ''/'')
     \<and> list_ex (\<lambda>w. let rest = drop i (to_lower url) in starts_with rest w
         \<and> (length rest = length w \<or> rest ! length w \<in> {CHR ''/'', CHR ''?'', CHR ''#''})) auth_words) [0..<length url]"

text \<open>The order in which requests were first seen; \<open>-1\<close> for one the order has no room for.\<close>

definition note_order :: "string \<Rightarrow> execution_journal \<Rightarrow> execution_journal" where
  "note_order k j = (if k \<in> set (jn_requestOrder j) then j
     else if length (jn_requestOrder j) < 2000 then j\<lparr>jn_requestOrder := jn_requestOrder j @ [k]\<rparr>
     else j\<lparr>jn_requestOrderTruncated := True\<rparr>)"

definition order_index :: "execution_journal \<Rightarrow> string \<Rightarrow> int" where
  "order_index j k = (if k \<in> set (jn_requestOrder j)
     then int (length (takeWhile (\<lambda>x. x \<noteq> k) (jn_requestOrder j))) else - 1)"

section \<open>Absence before a creation\<close>

text \<open>A complete empty list of exactly an account and a type, unless the creation was already sent.\<close>

definition single_param :: "url \<Rightarrow> string \<Rightarrow> string option" where
  "single_param u k = (case params_of u k of [v] \<Rightarrow> if v = [] then None else Some v | _ \<Rightarrow> None)"

definition creation_sent :: "journal_env \<Rightarrow> execution_journal \<Rightarrow> string \<Rightarrow> string \<Rightarrow> string \<Rightarrow> bool" where
  "creation_sent env j url account type \<longleftrightarrow> list_ex (\<lambda>w. wr_method w = POST \<and> (\<not> wr_confirmed w \<or> succeeded env w)
     \<and> resource env (wr_url w) = resource env url
     \<and> (\<not> truthy (wr_request w) \<or> subject_ok (request_of env w) ''account'' (JStr account)
          \<and> subject_ok (request_of env w) ''type'' (JStr type))) (jn_writes j)"

definition record_absence :: "journal_env \<Rightarrow> string list \<Rightarrow> net_request \<Rightarrow> execution_journal \<Rightarrow> execution_journal" where
  "record_absence env ev q j =
     (if nq_method q = ''GET'' \<and> request_ok env q \<and> emptyList (request_body env q) \<and> completeList env (nq_url q) (request_body env q)
      then (case je_url env (nq_url q) of
          None \<Rightarrow> j
        | Some u \<Rightarrow> (case (single_param u ''account'', single_param u ''type'') of
            (Some account, Some type) \<Rightarrow>
              if ev \<noteq> [] \<and> list_all (\<lambda>p. fst p \<in> set read_query_fields) (url_params u)
                 \<and> \<not> creation_sent env j (nq_url q) account type
              then add_absence (absence_key env (nq_url q) type account) j else j
          | _ \<Rightarrow> j))
      else j)"

text \<open>The last read before a creation that asked for its account, and its type or none, did not find it.\<close>

definition earlier_creation :: "journal_env \<Rightarrow> execution_journal \<Rightarrow> journal_write \<Rightarrow> js \<Rightarrow> js \<Rightarrow> int \<Rightarrow> bool" where
  "earlier_creation env j w account type s \<longleftrightarrow> list_ex (\<lambda>x. wr_key x \<noteq> wr_key w \<and> wr_method x = POST
     \<and> coalesce (wr_sequence x) (- 1) < s \<and> resource env (wr_url x) = resource env (wr_url w)
     \<and> (\<not> wr_confirmed x \<or> succeeded env x)
     \<and> subject_ok (request_of env x) ''account'' account \<and> subject_ok (request_of env x) ''type'' type) (jn_writes j)"

definition preflight_read :: "journal_env \<Rightarrow> journal_write \<Rightarrow> string \<Rightarrow> string \<Rightarrow> int \<Rightarrow> journal_read \<Rightarrow> bool" where
  "preflight_read env w account type s r \<longleftrightarrow> resource env (re_url r) = resource env (wr_url w) \<and> re_sequence r < s
     \<and> not_after env (jd_timestamp r) (jw_timestamp w)
     \<and> (case je_url env (re_url r) of None \<Rightarrow> False | Some u \<Rightarrow>
          params_of u ''account'' = [account] \<and> length (params_of u ''type'') \<le> 1
          \<and> param_allows u ''type'' (\<lambda>v. v = type) \<and> list_all (\<lambda>p. fst p \<in> set read_query_fields) (url_params u))"

definition latest_first :: "journal_read list \<Rightarrow> journal_read list" where
  "latest_first = js_sort (\<lambda>a b. re_sequence b \<le> re_sequence a)"

definition proves_absence :: "string \<Rightarrow> string \<Rightarrow> journal_read \<Rightarrow> bool" where
  "proves_absence account type r \<longleftrightarrow> re_complete r \<and> re_identitiesComplete r \<and> re_evidenceRefs r \<noteq> []
     \<and> list_all (\<lambda>i. account \<in> set (ri_accountAliases i) \<and> ri_type i \<noteq> type) (jd_identities r)"

definition inferCreationAbsence :: "journal_env \<Rightarrow> journal_write \<Rightarrow> execution_journal \<Rightarrow> execution_journal" where
  "inferCreationAbsence env w j =
     (let request = request_of env w in
      case (wr_sequence w, js_prop request ''account'', js_prop request ''type'') of
        (Some s, JStr account, JStr type) \<Rightarrow>
          if wr_method w \<noteq> POST \<or> jn_requestOrderTruncated j \<or> jn_truncated j
             \<or> earlier_creation env j w (JStr account) (JStr type) s then j
          else (case List.find (preflight_read env w account type s) (latest_first (jn_reads j)) of
              None \<Rightarrow> j
            | Some r \<Rightarrow> if proves_absence account type r then add_absence (absence_key env (wr_url w) type account) j else j)
      | _ \<Rightarrow> j)"

section \<open>Writes\<close>

definition receipt_of :: "journal_env \<Rightarrow> string \<Rightarrow> int \<Rightarrow> string list \<Rightarrow> string option \<Rightarrow> write_method \<Rightarrow> net_request \<Rightarrow> journal_write" where
  "receipt_of env k sequence ev label m q =
     \<lparr>wr_key = k, wr_sequence = Some sequence, wr_method = m, wr_url = nq_url q, wr_status = nq_status q,
      wr_confirmed = complete_body q, wr_request = map_option (slice_units 4000) (js_string (nq_requestJs q)),
      wr_response = map_option (slice_units 4000) (nq_response q), wr_evidenceRefs = ev, jw_timestamp = nq_timestamp q,
      jw_uiTypeLabel = (if truthy label then label else None)\<rparr>"

text \<open>A later report of a write replaces what was known of it, but an incomplete one does not replace a confirmed one.\<close>

definition merged_receipt :: "journal_write \<Rightarrow> journal_write \<Rightarrow> journal_write" where
  "merged_receipt old new =
     (if wr_confirmed old \<and> \<not> wr_confirmed new
      then old\<lparr>wr_evidenceRefs := last_n 20 (js_uniq (wr_evidenceRefs old @ wr_evidenceRefs new))\<rparr>
      else new\<lparr>jw_timestamp := coalesce_opt (jw_timestamp new) (jw_timestamp old),
        wr_request := coalesce_opt (wr_request new) (wr_request old), wr_response := coalesce_opt (wr_response new) (wr_response old),
        jw_uiTypeLabel := coalesce_opt (jw_uiTypeLabel new) (jw_uiTypeLabel old)\<rparr>)"

definition receipt_changed :: "journal_write \<Rightarrow> journal_write \<Rightarrow> bool" where
  "receipt_changed old new \<longleftrightarrow> wr_request old \<noteq> wr_request new \<or> wr_response old \<noteq> wr_response new
     \<or> wr_status old \<noteq> wr_status new \<or> wr_confirmed old \<noteq> wr_confirmed new"

text \<open>\<open>update_first P f\<close> changes the first element with \<open>P\<close>.\<close>

fun update_first :: "('a \<Rightarrow> bool) \<Rightarrow> ('a \<Rightarrow> 'a) \<Rightarrow> 'a list \<Rightarrow> 'a list" where
  "update_first P f [] = []"
| "update_first P f (x # xs) = (if P x then f x # xs else x # update_first P f xs)"

definition put_receipt :: "journal_write \<Rightarrow> execution_journal \<Rightarrow> execution_journal" where
  "put_receipt new j = (case List.find (\<lambda>w. wr_key w = wr_key new) (jn_writes j) of
     Some old \<Rightarrow>
       let j1 = j\<lparr>jn_writes := update_first (\<lambda>w. wr_key w = wr_key new) (\<lambda>w. merged_receipt w new) (jn_writes j)\<rparr> in
       if receipt_changed old (merged_receipt old new) then invalidateUiConfirmations None j1 else j1
   | None \<Rightarrow> invalidateUiConfirmations None (j\<lparr>jn_writes := jn_writes j @ [new]\<rparr>))"

definition trim_writes :: "execution_journal \<Rightarrow> execution_journal" where
  "trim_writes j = (if 200 < length (jn_writes j) then j\<lparr>jn_truncated := True, jn_writes := last_n 200 (jn_writes j)\<rparr> else j)"

definition record_write ::
  "journal_env \<Rightarrow> string \<Rightarrow> int \<Rightarrow> string list \<Rightarrow> string option \<Rightarrow> net_request \<Rightarrow> execution_journal \<Rightarrow> execution_journal" where
  "record_write env k sequence ev label q j = (case mutation_method (nq_method q) of
     None \<Rightarrow> j
   | Some m \<Rightarrow>
       if auth_url (nq_url q) \<or> ev = [] then j
       else let j1 = put_receipt (receipt_of env k sequence ev (if m = POST then label else None) m q) j;
           j2 = (case List.find (\<lambda>w. wr_key w = k) (jn_writes j1) of None \<Rightarrow> j1 | Some w \<Rightarrow> inferCreationAbsence env w j1);
           j3 = trim_writes j2 in
         if jn_phase j3 \<noteq> CLEANUP_PHASE then j3\<lparr>jn_phase := VERIFYING\<rparr> else j3)"

definition drop_absence :: "journal_env \<Rightarrow> net_request \<Rightarrow> execution_journal \<Rightarrow> execution_journal" where
  "drop_absence env q j =
     (if nq_method q = ''POST'' \<and> complete_body q \<and> \<not> request_ok env q
      then let request = js_obj (parse_value env (nq_requestJs q)) in
        j\<lparr>jn_absences := filter (\<lambda>k. k \<noteq> absence_key env (nq_url q) (je_show env (js_prop request ''type''))
            (je_show env (js_prop request ''account''))) (jn_absences j)\<rparr>
      else j)"

section \<open>Reads\<close>

definition identity_of :: "journal_env \<Rightarrow> js \<Rightarrow> read_identity list" where
  "identity_of env row =
     (let direct = js_obj row;
          v = (if js_prop direct ''id'' \<noteq> JUndefined then (case found_records env 9 row of [] \<Rightarrow> direct | r # _ \<Rightarrow> r) else direct);
          aliases = aliases_of env v in
      case js_prop v ''type'' of
        JStr type \<Rightarrow>
          if js_identifier (js_prop v ''id'') \<and> type \<noteq> [] \<and> js_units type \<le> 500 \<and> js_units (je_show env (js_prop v ''id'')) \<le> 500
             \<and> (aliases \<noteq> [] \<or> js_prop v ''resourceName'' \<noteq> JUndefined)
          then [\<lparr>ri_id = je_show env (js_prop v ''id''), ri_type = type, ri_accountAliases = aliases\<rparr>] else []
      | _ \<Rightarrow> [])"

definition found_key :: "journal_env \<Rightarrow> string \<Rightarrow> js \<Rightarrow> string" where
  "found_key env url v = record_key env (je_show env (js_prop v ''id''))
     (je_show env (js_coalesce (js_prop v ''type'') (JStr []))) url"

definition found_state :: "journal_env \<Rightarrow> js \<Rightarrow> string" where
  "found_state env v = je_stringify env (parsed_or env (js_prop v ''config''))"

definition read_of :: "journal_env \<Rightarrow> string \<Rightarrow> int \<Rightarrow> string list \<Rightarrow> net_request \<Rightarrow> journal_read" where
  "read_of env k sequence ev q =
     (let body = request_body env q; found = found_records env 9 body; rows = listRows 9 body;
          ids = concat (map (identity_of env) (take 100 (coalesce rows []))) in
      \<lparr>re_key = k, re_url = nq_url q, re_sequence = sequence, re_complete = completeList env (nq_url q) body,
       re_identitiesComplete = (case rows of None \<Rightarrow> False | Some vs \<Rightarrow> length vs \<le> 100 \<and> length ids = length vs),
       re_recordKeys = map (found_key env (nq_url q)) found, re_evidenceRefs = ev, jd_timestamp = nq_timestamp q,
       jd_empty = emptyList body, jd_identities = ids,
       jd_namedResources = concat (map (\<lambda>v. case js_prop v ''resourceName'' of
          JStr n \<Rightarrow> [(je_show env (js_prop v ''id''), n)] | _ \<Rightarrow> []) found),
       jd_recordStates = foldl (\<lambda>m v. if js_prop v ''config'' \<noteq> JUndefined \<and> js_units (found_state env v) \<le> 2000
          then jmap_set m (found_key env (nq_url q) v) (found_state env v) else m) [] found\<rparr>)"

definition state_differs :: "journal_env \<Rightarrow> journal_read \<Rightarrow> journal_record \<Rightarrow> bool" where
  "state_differs env r x \<longleftrightarrow> truthy (er_recordRef x)
     \<and> (case (jmap_get (jd_recordStates r) (key_of env x), jr_initialState x) of
          (Some actual, Some initial) \<Rightarrow> \<not> same_state env actual initial | _ \<Rightarrow> False)"

definition record_read :: "journal_env \<Rightarrow> string \<Rightarrow> int \<Rightarrow> string list \<Rightarrow> net_request \<Rightarrow> execution_journal \<Rightarrow> execution_journal" where
  "record_read env k sequence ev q j =
     (if nq_method q = ''GET'' \<and> ev \<noteq> [] \<and> 0 \<le> sequence
      then let r = read_of env k sequence ev q;
          seen = (case List.find (\<lambda>x. re_key x = k) (jn_reads j) of None \<Rightarrow> False
            | Some old \<Rightarrow> set (jd_recordStates old) = set (jd_recordStates r));
          j1 = (if seen then j else foldl (\<lambda>d x. if state_differs env r x then invalidateUiConfirmations (er_recordRef x) d else d)
            j (jn_records j)) in
        j1\<lparr>jn_reads := last_n 200 (filter (\<lambda>x. re_key x \<noteq> k) (jn_reads j1) @ [r])\<rparr>
      else j)"

section \<open>Records\<close>

definition learn_aliases :: "string list \<Rightarrow> execution_journal \<Rightarrow> execution_journal" where
  "learn_aliases aliases j =
     (let j1 = (case jn_account j of None \<Rightarrow> j
        | Some a \<Rightarrow> if a \<noteq> [] \<and> a \<in> set aliases then j\<lparr>jn_accountAliases := take 20 (js_uniq (jn_accountAliases j @ aliases))\<rparr> else j) in
      j1\<lparr>jn_accounts := map_option (map (\<lambda>b. if list_ex (\<lambda>a. a \<in> set aliases) (ja_account b # ja_aliases b)
        then b\<lparr>ja_aliases := take 20 (js_uniq (ja_aliases b @ aliases))\<rparr> else b)) (jn_accounts j1)\<rparr>)"

definition assigned_subject :: "execution_journal \<Rightarrow> string list \<Rightarrow> string \<Rightarrow> bool" where
  "assigned_subject j aliases type \<longleftrightarrow> coalesce (jn_accounts j) [] = []
     \<or> list_ex (\<lambda>b. list_ex (\<lambda>a. a \<in> set aliases) (ja_account b # ja_aliases b)
          \<and> (ja_requiredTypes b = [] \<or> type \<in> set (ja_requiredTypes b))) (coalesce (jn_accounts j) [])"

definition plain_record :: journal_record where
  "plain_record = \<lparr>er_id = [], er_type = None, er_recordRef = None, er_resourceUrl = None, er_resourceName = None,
     er_creationWriteKey = None, er_account = None, er_accountAliases = [], er_ownership = UNCONFIRMED, er_evidenceRefs = [],
     er_cleanup = None, jr_displayType = None, jr_initialState = None, jr_currentState = None, jr_baseline = None,
     jr_uiBaseline = None, jr_noted = False, jr_retainedAt = None\<rparr>"

definition observed_baseline ::
  "journal_env \<Rightarrow> string \<Rightarrow> int \<Rightarrow> string list \<Rightarrow> net_request \<Rightarrow> js \<Rightarrow> journal_record" where
  "observed_baseline env k sequence ev q v =
     (let aliases = aliases_of env v; i = je_show env (js_prop v ''id''); type = je_show env (js_prop v ''type'');
          account = (case aliases of [] \<Rightarrow> None | a # _ \<Rightarrow> Some a); url = resource env (nq_url q);
          st = (if js_prop v ''config'' = JUndefined then None else Some (found_state env v)) in
      plain_record\<lparr>er_id := i, er_type := Some type, er_recordRef := Some (stableRecordRef env (Some url) (Some type) i account),
        er_resourceUrl := Some url, er_account := account, er_accountAliases := aliases, er_ownership := EXISTING,
        er_evidenceRefs := ev, jr_initialState := st, jr_currentState := st,
        jr_baseline := Some \<lparr>bs_readKey = k, bs_sequence = sequence, bs_timestamp = nq_timestamp q\<rparr>\<rparr>)"

definition note_baseline :: "journal_env \<Rightarrow> journal_record \<Rightarrow> execution_journal \<Rightarrow> execution_journal" where
  "note_baseline env b j =
     (if baselinePrecedesWrites env j b \<and> \<not> list_ex (\<lambda>r. key_of env r = key_of env b) (jn_observed j)
         \<and> length (jn_observed j) < 100 \<and> js_units (coalesce (jr_initialState b) []) \<le> 2000
      then j\<lparr>jn_observed := jn_observed j @ [b]\<rparr> else j)"

definition put_pending :: "journal_env \<Rightarrow> pending_record \<Rightarrow> execution_journal \<Rightarrow> execution_journal" where
  "put_pending env p j =
     (if list_ex (\<lambda>x. pending_key env x = pending_key env p) (jn_pending j)
      then j\<lparr>jn_pending := update_first (\<lambda>x. pending_key env x = pending_key env p) (\<lambda>_. p) (jn_pending j)\<rparr>
      else if length (jn_pending j) < 50 then j\<lparr>jn_pending := jn_pending j @ [p]\<rparr> else j)"

text \<open>A record that follows a creation waits for its receipt; any other was there before.\<close>

definition place_record :: "journal_env \<Rightarrow> string list \<Rightarrow> net_request \<Rightarrow> js list \<Rightarrow> js \<Rightarrow> execution_journal \<Rightarrow> execution_journal" where
  "place_record env ev q found v j =
     (let i = je_show env (js_prop v ''id''); type = je_show env (js_prop v ''type''); k = record_key env i type (nq_url q);
          p = \<lparr>pr_id = i, pr_type = type, pr_resourceUrl = resource env (nq_url q), pr_accountAliases = aliases_of env v,
               pr_currentState = slice_units 2000 (je_stringify env (js_coalesce (parsed_or env (js_prop v ''config'')) JNull)),
               pr_evidenceRefs = ev\<rparr> in
      if k \<in> set (jn_existing j) then j
      else (case matchingCreation env j True p of
          Some w \<Rightarrow>
            if ev \<noteq> [] \<and> (responseRecordId (je_show env) (response_of env w) \<noteq> None
               \<or> length (filter (\<lambda>r. js_prop r ''type'' = JStr type
                   \<and> je_show env (js_prop (request_of env w) ''account'') \<in> set (aliases_of env r)) found) = 1)
            then put_pending env p j else add_existing k j
        | None \<Rightarrow> add_existing k j))"

definition observe_candidate ::
  "journal_env \<Rightarrow> string \<Rightarrow> int \<Rightarrow> string list \<Rightarrow> net_request \<Rightarrow> js list \<Rightarrow> execution_journal \<Rightarrow> js \<Rightarrow> execution_journal" where
  "observe_candidate env k sequence ev q found j v =
     (if js_prop v ''resourceName'' \<noteq> JUndefined then j
      else let key = record_key env (je_show env (js_prop v ''id'')) (je_show env (js_prop v ''type'')) (nq_url q);
          aliases = aliases_of env v; j1 = learn_aliases aliases j in
        if list_ex (\<lambda>r. key_of env r = key) (jn_records j1)
        then (if js_prop v ''config'' = JUndefined then j1
          else j1\<lparr>jn_records := update_first (\<lambda>r. key_of env r = key)
            (\<lambda>r. r\<lparr>jr_currentState := Some (slice_units 2000 (found_state env v))\<rparr>) (jn_records j1)\<rparr>)
        else let j2 = (if nq_method q = ''GET'' \<and> assigned_subject j1 aliases (je_show env (js_prop v ''type'')) \<and> 0 \<le> sequence
            then note_baseline env (observed_baseline env k sequence ev q v) j1 else j1) in
          place_record env ev q found v j2)"

section \<open>One request\<close>

definition observe_request :: "journal_env \<Rightarrow> js \<Rightarrow> string list \<Rightarrow> (js \<Rightarrow> string option) \<Rightarrow> execution_journal \<Rightarrow> net_request \<Rightarrow> execution_journal" where
  "observe_request env command ev label j q =
     (if nq_url q = [] then j
      else let k = request_key env command q; j1 = note_order k j; sequence = order_index j1 k;
          account = js_prop (js_obj (parse_value env (nq_requestJs q))) ''account'';
          j2 = record_write env k sequence ev (label account) q (record_absence env ev q j1) in
        if \<not> request_ok env q then drop_absence env q j2
        else let found = found_records env 9 (request_body env q) in
          foldl (observe_candidate env k sequence ev q found) (record_read env k sequence ev q j2) found)"

section \<open>Receipts that came later\<close>

definition created_record :: "journal_env \<Rightarrow> pending_record \<Rightarrow> journal_write \<Rightarrow> journal_record" where
  "created_record env p w =
     (let account = je_show env (js_prop (request_of env w) ''account'') in
      plain_record\<lparr>er_id := pr_id p, er_type := Some (pr_type p), er_resourceUrl := Some (pr_resourceUrl p),
        er_accountAliases := pr_accountAliases p, jr_currentState := Some (pr_currentState p),
        er_recordRef := Some (stableRecordRef env (Some (pr_resourceUrl p)) (Some (pr_type p)) (pr_id p) (Some account)),
        er_account := Some account, er_ownership := CREATED_THIS_RUN,
        er_evidenceRefs := last_n 20 (js_uniq (wr_evidenceRefs w @ pr_evidenceRefs p)), er_cleanup := Some cleanup_pending\<rparr>)"

text \<open>One pending record: kept, dropped, or taken over as created.\<close>

definition settle_pending :: "journal_env \<Rightarrow> execution_journal \<Rightarrow> pending_record \<Rightarrow> execution_journal" where
  "settle_pending env j p = (let keep = j\<lparr>jn_pending := jn_pending j @ [p]\<rparr> in
     case matchingCreation env j False p of
       None \<Rightarrow> keep
     | Some w \<Rightarrow>
         if \<not> wr_confirmed w then keep
         else if \<not> succeeded env w then add_existing (pending_key env p) j
         else if 50 \<le> length (jn_records j) then keep
         else j\<lparr>jn_records := jn_records j @ [created_record env p w]\<rparr>)"

definition settle_all_pending :: "journal_env \<Rightarrow> execution_journal \<Rightarrow> execution_journal" where
  "settle_all_pending env j = foldl (settle_pending env) (j\<lparr>jn_pending := []\<rparr>) (jn_pending j)"

section \<open>Named resources\<close>

definition named_identity :: "journal_env \<Rightarrow> journal_read \<Rightarrow> string \<times> string \<Rightarrow> journal_record" where
  "named_identity env r item = plain_record\<lparr>er_id := fst item, er_type := Some ''NAMED_RESOURCE'',
     er_resourceUrl := Some (resource env (re_url r)), er_resourceName := Some (snd item)\<rparr>"

text \<open>The last complete read before the write that would have shown the resource.\<close>

definition prior_read :: "journal_env \<Rightarrow> execution_journal \<Rightarrow> journal_record \<Rightarrow> journal_write \<Rightarrow> int \<Rightarrow> journal_read option" where
  "prior_read env j r w s = List.find (\<lambda>x. re_sequence x < s \<and> covers env x r \<and> not_after env (jd_timestamp x) (jw_timestamp w))
     (latest_first (jn_reads j))"

definition ambiguous_between :: "journal_env \<Rightarrow> execution_journal \<Rightarrow> journal_write \<Rightarrow> string \<Rightarrow> string \<Rightarrow> int \<Rightarrow> int \<Rightarrow> bool" where
  "ambiguous_between env j w url name a b \<longleftrightarrow> list_ex (\<lambda>x. wr_key x \<noteq> wr_key w \<and> \<not> rejectedWrite env x
     \<and> resource env (wr_url x) = url \<and> (case wr_sequence x of None \<Rightarrow> False | Some s \<Rightarrow> a < s \<and> s < b)
     \<and> (let request = request_of env x in js_prop request ''name'' = JStr name
          \<or> (js_prop request ''name'' = JUndefined \<and> rq_id (requestedRecordId (je_url env) (je_show env) (wr_url x) request) = None)))
     (jn_writes j)"

definition creates_named :: "journal_env \<Rightarrow> execution_journal \<Rightarrow> journal_read \<Rightarrow> string \<times> string \<Rightarrow> journal_write \<Rightarrow> bool" where
  "creates_named env j r item w \<longleftrightarrow>
     (let request = request_of env w; url = resource env (re_url r); created = responseRecordId (je_show env) (response_of env w) in
      wr_method w = POST \<and> wr_confirmed w \<and> response_of env w \<noteq> JUndefined \<and> succeeded env w \<and> resource env (wr_url w) = url
      \<and> (case wr_sequence w of None \<Rightarrow> False | Some s \<Rightarrow> s < re_sequence r
           \<and> \<not> (truthy (jw_timestamp w) \<and> truthy (jd_timestamp r)
                \<and> (case (je_date env (the (jw_timestamp w)), je_date env (the (jd_timestamp r))) of
                     (Some x, Some y) \<Rightarrow> y \<le> x | _ \<Rightarrow> False))
           \<and> js_prop request ''name'' = JStr (snd item) \<and> js_prop request ''account'' = JUndefined
           \<and> js_prop request ''id'' = JUndefined \<and> (created = None \<or> created = Some (fst item))
           \<and> (case prior_read env j (named_identity env r item) w s of
                None \<Rightarrow> False
              | Some p \<Rightarrow> \<not> list_ex (\<lambda>n. fst n = fst item \<or> snd n = snd item) (jd_namedResources p)
                  \<and> \<not> ambiguous_between env j w url (snd item) (re_sequence p) (re_sequence r))))"

definition renames :: "journal_env \<Rightarrow> journal_read \<Rightarrow> string \<Rightarrow> journal_record \<Rightarrow> journal_write \<Rightarrow> bool" where
  "renames env r name x w \<longleftrightarrow> wr_method w \<in> {PUT, PATCH} \<and> wr_confirmed w \<and> succeeded env w \<and> matches env w x
     \<and> (case wr_sequence w of None \<Rightarrow> False | Some s \<Rightarrow> s < re_sequence r) \<and> js_prop (request_of env w) ''name'' = JStr name"

definition see_named :: "journal_env \<Rightarrow> execution_journal \<Rightarrow> journal_read \<Rightarrow> string \<Rightarrow> journal_record \<Rightarrow> journal_record" where
  "see_named env j r name x =
     (let x1 = (if list_ex (renames env r name x) (jn_writes j) then x\<lparr>er_resourceName := Some name\<rparr> else x);
          st = jmap_get (jd_recordStates r) (key_of env x) in
      if truthy st then x1\<lparr>jr_currentState := st\<rparr> else x1)"

definition created_named :: "journal_env \<Rightarrow> journal_read \<Rightarrow> string \<times> string \<Rightarrow> journal_write \<Rightarrow> string option \<Rightarrow> journal_record" where
  "created_named env r item w st = (named_identity env r item)
     \<lparr>er_recordRef := Some (stableRecordRef env (Some (resource env (re_url r))) (Some ''NAMED_RESOURCE'') (fst item) None),
      er_creationWriteKey := Some (wr_key w), er_ownership := CREATED_THIS_RUN, jr_currentState := (if truthy st then st else None),
      er_evidenceRefs := last_n 20 (js_uniq (wr_evidenceRefs w @ re_evidenceRefs r)), er_cleanup := Some cleanup_pending\<rparr>"

definition named_baseline :: "journal_env \<Rightarrow> journal_read \<Rightarrow> string \<times> string \<Rightarrow> string \<Rightarrow> journal_record" where
  "named_baseline env r item st = (named_identity env r item)
     \<lparr>er_recordRef := Some (stableRecordRef env (Some (resource env (re_url r))) (Some ''NAMED_RESOURCE'') (fst item) None),
      er_ownership := EXISTING, jr_initialState := Some st, jr_currentState := Some st, er_evidenceRefs := re_evidenceRefs r,
      jr_baseline := Some \<lparr>bs_readKey = re_key r, bs_sequence = re_sequence r, bs_timestamp = (if truthy (jd_timestamp r) then jd_timestamp r else None)\<rparr>\<rparr>"

definition reconcile_named :: "journal_env \<Rightarrow> journal_read \<Rightarrow> execution_journal \<Rightarrow> string \<times> string \<Rightarrow> execution_journal" where
  "reconcile_named env r j item =
     (let k = key_of env (named_identity env r item); st = jmap_get (jd_recordStates r) k in
      if list_ex (\<lambda>x. key_of env x = k) (jn_records j)
      then j\<lparr>jn_records := update_first (\<lambda>x. key_of env x = k) (see_named env j r (snd item)) (jn_records j)\<rparr>
      else let claimed = (case filter (creates_named env j r item) (jn_writes j) of
            [w] \<Rightarrow> if re_identitiesComplete r \<and> length (filter (\<lambda>n. snd n = snd item) (jd_namedResources r)) = 1
                \<and> \<not> list_ex (\<lambda>x. er_creationWriteKey x = Some (wr_key w)) (jn_records j)
                \<and> k \<notin> set (jn_existing j) \<and> length (jn_records j) < 50 then Some w else None
          | _ \<Rightarrow> None) in
        (case claimed of
           Some w \<Rightarrow> j\<lparr>jn_records := jn_records j @ [created_named env r item w st]\<rparr>
         | None \<Rightarrow>
             if truthy st then
               let b = named_baseline env r item (the st) in
               if baselinePrecedesWrites env j b \<and> length (jn_observed j) < 100
                  \<and> \<not> list_ex (\<lambda>x. er_recordRef x = er_recordRef b) (jn_observed j)
               then add_existing k (j\<lparr>jn_observed := jn_observed j @ [b]\<rparr>) else j
             else j))"

definition reconcileNamedResources :: "journal_env \<Rightarrow> execution_journal \<Rightarrow> execution_journal" where
  "reconcileNamedResources env j =
     (if jn_requestOrderTruncated j \<or> jn_truncated j then j
      else foldl (\<lambda>d r. foldl (reconcile_named env r) d (jd_namedResources r)) j
        (js_sort (\<lambda>a b. re_sequence a \<le> re_sequence b) (jn_reads j)))"

section \<open>Changes of records that were there before\<close>

definition register_mutation :: "journal_env \<Rightarrow> execution_journal \<Rightarrow> journal_write \<Rightarrow> execution_journal" where
  "register_mutation env j w =
     (if wr_method w = POST \<or> rejectedWrite env w then j
      else (case filter (\<lambda>r. matches env w r \<and> baselinePrecedesWrites env j r) (jn_observed j) of
          [b] \<Rightarrow>
            if 50 \<le> length (jn_records j) \<or> list_ex (\<lambda>r. er_recordRef r = er_recordRef b) (jn_records j) then j
            else j\<lparr>jn_records := jn_records j @ [b\<lparr>er_cleanup := Some cleanup_pending, jr_noted := False, jr_retainedAt := None\<rparr>]\<rparr>
        | _ \<Rightarrow> j))"

definition registerObservedMutations :: "journal_env \<Rightarrow> execution_journal \<Rightarrow> execution_journal" where
  "registerObservedMutations env j = foldl (register_mutation env) j (jn_writes j)"

end
