(* ===== verification/JournalUpdate.thy ===== *)
theory JournalUpdate
  imports ExecutionJournal
begin

text \<open>
  Cleanup, captured pages and the plan of the model, the rest of \<open>apps/agent-runtime/src/execution-journal.ts\<close>:
  which records count as cleaned up, what a page shows of them, and which of the model's statements are accepted.
  \<open>observe\<close> and \<open>update\<close> are composed here.
\<close>

section \<open>What is left to do\<close>

definition unresolvedWrites :: "journal_env \<Rightarrow> execution_journal \<Rightarrow> journal_write list" where
  "unresolvedWrites env j = filter (\<lambda>w. \<not> rejectedWrite env w
     \<and> \<not> list_ex (\<lambda>r. er_cleanup r \<noteq> None \<and> truthy (er_resourceUrl r)
          \<and> resource env (wr_url w) = resource env (the (er_resourceUrl r))
          \<and> \<not> (wr_method w = POST \<and> er_ownership r \<noteq> CREATED_THIS_RUN) \<and> matches env w r) (jn_records j)) (jn_writes j)"

definition unresolved_keys :: "journal_env \<Rightarrow> execution_journal \<Rightarrow> string list" where
  "unresolved_keys env j = map wr_key (unresolvedWrites env j) @ (if jn_truncated j then [''history:truncated''] else [])"

definition reviewed_keys :: "execution_journal \<Rightarrow> string list" where
  "reviewed_keys j = (case jn_review j of None \<Rightarrow> [] | Some v \<Rightarrow> jv_writeKeys v)"

definition unreviewedWriteKeys :: "journal_env \<Rightarrow> execution_journal \<Rightarrow> string list" where
  "unreviewedWriteKeys env j = filter (\<lambda>k. k \<notin> set (reviewed_keys j)) (unresolved_keys env j)"

definition reconcileReview :: "journal_env \<Rightarrow> execution_journal \<Rightarrow> execution_journal" where
  "reconcileReview env j = (case jn_review j of
     None \<Rightarrow> j
   | Some v \<Rightarrow> (case filter (\<lambda>k. k \<in> set (unresolved_keys env j)) (jv_writeKeys v) of
        [] \<Rightarrow> j\<lparr>jn_review := None\<rparr>
      | remaining \<Rightarrow> j\<lparr>jn_review := Some (v\<lparr>jv_writeKeys := remaining\<rparr>)\<rparr>))"

definition pendingCleanup :: "execution_journal \<Rightarrow> journal_record list" where
  "pendingCleanup j = filter (\<lambda>r. er_cleanup r \<noteq> None \<and> \<not> has_status CLEANUP_COMPLETED r \<and> \<not> has_status CLEANUP_RETAINED r)
     (jn_records j)"

definition cleanupReserveCalls :: "journal_env \<Rightarrow> execution_journal \<Rightarrow> nat" where
  "cleanupReserveCalls env j = (let pending = length (filter (has_status CLEANUP_PENDING) (pendingCleanup j));
       open_keys = unreviewedWriteKeys env j in
     if pending \<noteq> 0 \<or> open_keys \<noteq> [] then min 24 (4 + pending * 7 + (if open_keys \<noteq> [] then 5 else 0)) else 0)"

definition blockCleanup :: "journal_env \<Rightarrow> string \<Rightarrow> execution_journal \<Rightarrow> execution_journal" where
  "blockCleanup env note j =
     (let j1 = j\<lparr>jn_phase := CLEANUP_PHASE, jn_records := map (\<lambda>r. if has_status CLEANUP_PENDING r
            then r\<lparr>er_cleanup := map_option (\<lambda>c. c\<lparr>rc_status := CLEANUP_BLOCKED\<rparr>) (er_cleanup r), jr_noted := \<not> js_blank note\<rparr> else r) (jn_records j)\<rparr>;
          keys = unreviewedWriteKeys env j1;
          ev = take 20 (js_uniq (concat (map wr_evidenceRefs (unresolvedWrites env j1)))) in
      if keys \<noteq> [] \<and> ev \<noteq> []
      then j1\<lparr>jn_review := Some \<lparr>jv_writeKeys = take 200 (js_uniq (reviewed_keys j1 @ keys)), jv_evidenceRefs = ev\<rparr>\<rparr> else j1)"

section \<open>The proof of a cleanup\<close>

definition sequence_of :: "journal_write \<Rightarrow> int" where
  "sequence_of w = coalesce (wr_sequence w) (- 1)"

definition mutations_of :: "journal_env \<Rightarrow> execution_journal \<Rightarrow> journal_record \<Rightarrow> journal_write list" where
  "mutations_of env j r = filter (\<lambda>w. matches env w r \<and> \<not> rejectedWrite env w) (jn_writes j)"

definition last_of :: "'a list \<Rightarrow> 'a option" where
  "last_of xs = (if xs = [] then None else Some (last xs))"

definition latest_mutation :: "journal_env \<Rightarrow> execution_journal \<Rightarrow> journal_record \<Rightarrow> journal_write option" where
  "latest_mutation env j r = last_of (js_sort (\<lambda>a b. sequence_of a \<le> sequence_of b) (mutations_of env j r))"

definition lists_key :: "journal_env \<Rightarrow> journal_record \<Rightarrow> journal_read \<Rightarrow> bool" where
  "lists_key env r x \<longleftrightarrow> key_of env r \<in> set (re_recordKeys x)"

definition retentionRead :: "journal_env \<Rightarrow> execution_journal \<Rightarrow> journal_record \<Rightarrow> (journal_write \<times> journal_read) option" where
  "retentionRead env j r = (if jn_requestOrderTruncated j then None else
     (case latest_mutation env j r of
        None \<Rightarrow> None
      | Some w \<Rightarrow> (case wr_sequence w of
          None \<Rightarrow> None
        | Some s \<Rightarrow>
            if \<not> wr_confirmed w \<or> wr_method w = DELETE \<or> \<not> succeeded env w then None
            else (case List.find (\<lambda>x. lists_key env r x \<or> covers env x r) (latest_first (filter (\<lambda>x.
                  resource env (re_url x) = resource env (coalesce (er_resourceUrl r) [])) (jn_reads j))) of
                None \<Rightarrow> None
              | Some x \<Rightarrow> if s < re_sequence x \<and> lists_key env r x \<and> not_after env (jw_timestamp w) (jd_timestamp x)
                  then Some (w, x) else None))))"

text \<open>The reads after a write, the latest first.\<close>

definition later_reads :: "journal_env \<Rightarrow> execution_journal \<Rightarrow> journal_write \<Rightarrow> int \<Rightarrow> journal_read list" where
  "later_reads env j w s = latest_first (filter (\<lambda>x. s < re_sequence x \<and> not_after env (jw_timestamp w) (jd_timestamp x)) (jn_reads j))"

text \<open>The read that shows a created record gone, or an existing one as it was.\<close>

definition shows_deleted :: "journal_env \<Rightarrow> journal_record \<Rightarrow> journal_read list \<Rightarrow> journal_read option" where
  "shows_deleted env r reads = (case List.find (\<lambda>x. lists_key env r x \<or> covers env x r) reads of
     None \<Rightarrow> None | Some x \<Rightarrow> if lists_key env r x then None else Some x)"

definition shows_restored :: "journal_env \<Rightarrow> journal_record \<Rightarrow> journal_write \<Rightarrow> journal_read list \<Rightarrow> journal_read option" where
  "shows_restored env r w reads = (case jr_initialState r of
     None \<Rightarrow> None
   | Some initial \<Rightarrow> (case List.find (lists_key env r) reads of
        None \<Rightarrow> None
      | Some x \<Rightarrow> (case jmap_get (jd_recordStates x) (key_of env r) of
          None \<Rightarrow> None
        | Some actual \<Rightarrow>
            if (er_resourceName r \<noteq> None \<or> deep_equal (parsed_or env (js_prop (request_of env w) ''config'')) (parsed_or env (JStr initial)))
               \<and> same_state env actual initial then Some x else None)))"

definition cleanup_read :: "journal_env \<Rightarrow> execution_journal \<Rightarrow> journal_record \<Rightarrow> journal_write \<Rightarrow> journal_read option" where
  "cleanup_read env j r w = (case wr_sequence w of
     None \<Rightarrow> None
   | Some s \<Rightarrow>
       if jn_requestOrderTruncated j \<or> \<not> wr_confirmed w \<or> \<not> succeeded env w then None
       else if wr_method w = DELETE \<and> er_ownership r = CREATED_THIS_RUN then shows_deleted env r (later_reads env j w s)
       else if er_ownership r = EXISTING \<and> wr_method w \<in> {PUT, PATCH} then shows_restored env r w (later_reads env j w s)
       else None)"

definition confirmation_of :: "journal_record \<Rightarrow> journal_write \<Rightarrow> journal_read \<Rightarrow> cleanup_confirmation" where
  "confirmation_of r w x = \<lparr>cc_recordRef = the (er_recordRef r), cc_writeKey = wr_key w, cc_readKey = re_key x, cc_source = None,
     cc_evidenceRefs = last_n 20 (js_uniq (wr_evidenceRefs w @ re_evidenceRefs x))\<rparr>"

text \<open>A record kept on purpose has to be read again after every change.\<close>

definition check_retained :: "journal_env \<Rightarrow> execution_journal \<Rightarrow> journal_record \<Rightarrow> journal_record" where
  "check_retained env j r =
     (if has_status CLEANUP_RETAINED r
         \<and> (case retentionRead env j r of None \<Rightarrow> True | Some (w, _) \<Rightarrow> jr_retainedAt r \<noteq> Some (wr_key w))
      then r\<lparr>er_cleanup := map_option (\<lambda>c. c\<lparr>rc_status := CLEANUP_PENDING\<rparr>) (er_cleanup r), jr_retainedAt := None\<rparr> else r)"

definition completed_record :: "cleanup_resolution \<Rightarrow> string list \<Rightarrow> journal_record \<Rightarrow> journal_record" where
  "completed_record how ev r = r\<lparr>er_cleanup := Some \<lparr>rc_status = CLEANUP_COMPLETED, rc_resolution = Some how\<rparr>, jr_noted := True,
     er_evidenceRefs := last_n 20 (js_uniq (er_evidenceRefs r @ ev))\<rparr>"

definition reconcile_record ::
  "journal_env \<Rightarrow> execution_journal \<Rightarrow> journal_record list \<times> cleanup_confirmation list \<Rightarrow> journal_record
   \<Rightarrow> journal_record list \<times> cleanup_confirmation list" where
  "reconcile_record env j acc r =
     (if \<not> truthy (er_recordRef r) \<or> er_cleanup r = None then (fst acc @ [r], snd acc)
      else let m = latest_mutation env j r; r1 = check_retained env j r;
          proof_read = (case m of None \<Rightarrow> None | Some w \<Rightarrow> cleanup_read env j r1 w);
          others = filter (\<lambda>p. Some (cc_recordRef p) \<noteq> er_recordRef r \<or> (proof_read = None \<and> cc_source p = Some UI_SOURCE)) (snd acc) in
        (case (m, proof_read) of
           (Some w, Some x) \<Rightarrow>
             let p = confirmation_of r1 w x in
             (fst acc @ [(completed_record (if wr_method w = DELETE then DELETED else RESTORED) (cc_evidenceRefs p) r1)\<lparr>jr_retainedAt := None\<rparr>],
              others @ [p])
         | _ \<Rightarrow>
             (fst acc @ [if m \<noteq> None \<and> has_status CLEANUP_COMPLETED r1
                 \<and> \<not> list_ex (\<lambda>p. Some (cc_recordRef p) = er_recordRef r) others
               then r1\<lparr>er_cleanup := Some cleanup_pending, jr_noted := True\<rparr> else r1], others)))"

definition reconcileCleanup :: "journal_env \<Rightarrow> execution_journal \<Rightarrow> execution_journal" where
  "reconcileCleanup env j = (let acc = foldl (reconcile_record env j) ([], jn_confirmations j) (jn_records j) in
     j\<lparr>jn_records := fst acc, jn_confirmations := snd acc\<rparr>)"

section \<open>Captured pages\<close>

definition node_by_id :: "observation \<Rightarrow> string \<Rightarrow> observed_node option" where
  "node_by_id ob i = List.find (\<lambda>n. on_nodeId n = i) (rev (ob_nodes ob))"

definition parent_node :: "observation \<Rightarrow> observed_node \<Rightarrow> observed_node option" where
  "parent_node ob n = node_by_id ob (coalesce (on_parentId n) [])"

definition is_row :: "observed_node \<Rightarrow> bool" where
  "is_row n \<longleftrightarrow> on_tag n = ''tr'' \<or> on_role n = Some ''row''"

definition is_button :: "observed_node \<Rightarrow> bool" where
  "is_button n \<longleftrightarrow> on_tag n = ''button'' \<or> on_role n = Some ''button''"

text \<open>Whether \<open>goal\<close> holds of a node or one above it, on a way that \<open>stop\<close> does not block. The loops of the code end at a
  node seen before; a fuel of one more than the nodes never runs out before that.\<close>

fun above :: "nat \<Rightarrow> observation \<Rightarrow> (observed_node \<Rightarrow> bool) \<Rightarrow> (observed_node \<Rightarrow> bool) \<Rightarrow> string list \<Rightarrow> observed_node \<Rightarrow> observed_node option" where
  "above 0 ob goal stop seen n = None"
| "above (Suc fuel) ob goal stop seen n =
     (if goal n then Some n
      else if on_nodeId n \<in> set seen \<or> stop n then None
      else (case parent_node ob n of None \<Rightarrow> None | Some p \<Rightarrow> above fuel ob goal stop (on_nodeId n # seen) p))"

definition find_above :: "observation \<Rightarrow> (observed_node \<Rightarrow> bool) \<Rightarrow> (observed_node \<Rightarrow> bool) \<Rightarrow> observed_node \<Rightarrow> observed_node option" where
  "find_above ob goal stop n = above (Suc (length (ob_nodes ob))) ob goal stop [] n"

definition node_value :: "observed_node \<Rightarrow> string list" where
  "node_value n = (case on_checked n of
     Some b \<Rightarrow> [if b then ''checked:true'' else ''checked:false'']
   | None \<Rightarrow> (case on_value n of
        Some v \<Rightarrow> [''value:'' @ utf8 v]
      | None \<Rightarrow> (case on_text n of None \<Rightarrow> [] | Some t \<Rightarrow> if u_trim t = [] then [] else [utf8 (u_trim t)])))"

definition row_values :: "observation \<Rightarrow> observed_node \<Rightarrow> string list" where
  "row_values ob row = concat (map (\<lambda>n. if on_visible n \<and> on_truncatedProperties n = []
       \<and> find_above ob (\<lambda>p. on_nodeId p = on_nodeId row) (\<lambda>p. is_button p \<and> on_checked n = None) n \<noteq> None
     then node_value n else []) (ob_nodes ob))"

definition verified_node :: "observation \<Rightarrow> observed_node \<Rightarrow> bool" where
  "verified_node ob n \<longleftrightarrow> ob_consistency ob = VERIFIED \<or> on_nodeId n \<in> set (coalesce (ob_verifiedScopeNodeIds ob) [])"

definition observed_rows :: "observation \<Rightarrow> string list list" where
  "observed_rows ob = map (row_values ob) (filter (\<lambda>n. on_visible n \<and> is_row n \<and> verified_node ob n) (ob_nodes ob))"

definition switch_words :: "string list" where
  "switch_words = [''checked:true'', ''checked:false'', utf8 [0x542f, 0x7528], utf8 [0x7981, 0x7528], utf8 [0x5f00, 0x542f],
     utf8 [0x5173, 0x95ed], ''enabled'', ''disabled'', ''on'', ''off'']"

definition known_aliases :: "journal_record \<Rightarrow> string list" where
  "known_aliases r = filter (\<lambda>a. a \<noteq> []) ((case er_account r of None \<Rightarrow> [] | Some a \<Rightarrow> [a]) @ er_accountAliases r)"

definition state_values :: "journal_record \<Rightarrow> string list \<Rightarrow> string list" where
  "state_values r vs = filter (\<lambda>v. v \<noteq> er_id r \<and> v \<notin> set (known_aliases r)) vs"

definition ambiguous_record :: "execution_journal \<Rightarrow> journal_record \<Rightarrow> bool" where
  "ambiguous_record j r \<longleftrightarrow> list_ex (\<lambda>x. er_recordRef x \<noteq> er_recordRef r \<and> er_id x = er_id r \<and> er_resourceUrl x \<noteq> er_resourceUrl r
     \<and> list_ex (\<lambda>a. a \<in> set (known_aliases r)) (known_aliases x)) (jn_observed j @ jn_records j)"

text \<open>The first readable state of a record on a page, before anything wrote to it.\<close>

definition ui_baseline_of :: "journal_env \<Rightarrow> execution_journal \<Rightarrow> captured_page \<Rightarrow> string list \<Rightarrow> string list list \<Rightarrow> journal_record \<Rightarrow> ui_baseline option" where
  "ui_baseline_of env j page ev candidates r =
     (if jr_uiBaseline r \<noteq> None \<or> list_ex (\<lambda>w. matches env w r) (jn_writes j) then jr_uiBaseline r
      else (case filter (\<lambda>vs. er_id r \<in> set vs) candidates of
          [vs] \<Rightarrow> let states = state_values r vs in
            if length (filter (\<lambda>v. to_lower v \<in> set switch_words) states) = 1 \<and> length states \<le> 100
               \<and> list_all (\<lambda>v. js_units v \<le> 500) states
            then Some \<lparr>ub_observationId = cp_captureId page, ub_pageIdentity = cp_pageIdentity page, ub_capturedAt = cp_until page,
              ub_values = states, ub_evidenceRefs = ev\<rparr> else None
        | _ \<Rightarrow> None))"

text \<open>What the network says against the restored state a page shows.\<close>

definition contradicted :: "journal_env \<Rightarrow> execution_journal \<Rightarrow> journal_record \<Rightarrow> journal_write option \<Rightarrow> bool" where
  "contradicted env j r m \<longleftrightarrow>
     (case m of None \<Rightarrow> False | Some w \<Rightarrow> wr_method w \<notin> {PUT, PATCH}
        \<or> (case jr_initialState r of None \<Rightarrow> False | Some initial \<Rightarrow> js_prop (request_of env w) ''config'' \<noteq> JUndefined
             \<and> \<not> deep_equal (parsed_or env (js_prop (request_of env w) ''config'')) (parsed_or env (JStr initial))))
     \<or> (case latest_first (filter (lists_key env r) (jn_reads j)) of
          [] \<Rightarrow> False
        | x # _ \<Rightarrow> (case (jmap_get (jd_recordStates x) (key_of env r), jr_initialState r) of
            (Some actual, Some initial) \<Rightarrow> (case m of None \<Rightarrow> True | Some w \<Rightarrow> sequence_of w < re_sequence x)
              \<and> \<not> same_state env actual initial
          | _ \<Rightarrow> False))"

definition ui_restored :: "journal_env \<Rightarrow> execution_journal \<Rightarrow> captured_page \<Rightarrow> string list list \<Rightarrow> journal_record \<Rightarrow> journal_write option \<Rightarrow> bool" where
  "ui_restored env j page candidates r m \<longleftrightarrow> er_cleanup r \<noteq> None \<and> (case jr_uiBaseline r of
     None \<Rightarrow> False
   | Some b \<Rightarrow> ub_pageIdentity b = cp_pageIdentity page
       \<and> \<not> (case (je_date env (cp_from page), je_date env (ub_capturedAt b)) of (Some x, Some y) \<Rightarrow> x \<le> y | _ \<Rightarrow> False)
       \<and> cp_captureId page \<noteq> ub_observationId b
       \<and> length (filter (\<lambda>vs. er_id r \<in> set vs \<and> state_values r vs = ub_values b) candidates) = 1
       \<and> er_ownership r = EXISTING \<and> \<not> contradicted env j r m)"

definition ui_confirmation_of :: "captured_page \<Rightarrow> string list \<Rightarrow> journal_record \<Rightarrow> journal_write option \<Rightarrow> cleanup_confirmation" where
  "ui_confirmation_of page ev r m = \<lparr>cc_recordRef = the (er_recordRef r),
     cc_writeKey = (case m of Some w \<Rightarrow> wr_key w | None \<Rightarrow> ''ui:'' @ (case jr_uiBaseline r of None \<Rightarrow> [] | Some b \<Rightarrow> ub_observationId b)),
     cc_readKey = ''ui:'' @ cp_captureId page, cc_source = Some UI_SOURCE, cc_evidenceRefs = ev\<rparr>"

text \<open>The known records: the observed ones, which have no cleanup, and those of the journal, by position.\<close>

definition known_at :: "execution_journal \<Rightarrow> nat + nat \<Rightarrow> journal_record" where
  "known_at j p = (case p of Inl i \<Rightarrow> jn_observed j ! i | Inr i \<Rightarrow> jn_records j ! i)"

definition set_known :: "nat + nat \<Rightarrow> journal_record \<Rightarrow> execution_journal \<Rightarrow> execution_journal" where
  "set_known p r j = (case p of Inl i \<Rightarrow> j\<lparr>jn_observed := (jn_observed j)[i := r]\<rparr> | Inr i \<Rightarrow> j\<lparr>jn_records := (jn_records j)[i := r]\<rparr>)"

definition observe_row :: "journal_env \<Rightarrow> captured_page \<Rightarrow> string list \<Rightarrow> bool \<Rightarrow> execution_journal \<Rightarrow> nat + nat \<Rightarrow> execution_journal" where
  "observe_row env page ev fresh j p =
     (let r = known_at j p in
      if known_aliases r = [] \<or> \<not> truthy (er_recordRef r) \<or> ambiguous_record j r then j
      else let candidates = filter (\<lambda>vs. list_ex (\<lambda>v. v \<in> set (known_aliases r)) vs) (observed_rows (cp_observation page));
          drifted = (case jr_uiBaseline r of None \<Rightarrow> False | Some b \<Rightarrow> ub_pageIdentity b = cp_pageIdentity page
            \<and> list_ex (\<lambda>vs. er_id r \<in> set vs) candidates \<and> \<not> list_ex (\<lambda>vs. state_values r vs = ub_values b) candidates);
          j1 = (if drifted then invalidateUiConfirmations (er_recordRef r) j else j);
          r1 = (known_at j1 p)\<lparr>jr_uiBaseline := ui_baseline_of env j1 page ev candidates (known_at j1 p)\<rparr>;
          j2 = set_known p r1 j1; m = last_of (mutations_of env j2 r1) in
        if \<not> fresh \<or> \<not> ui_restored env j2 page candidates r1 m then j2
        else set_known p (completed_record RESTORED ev r1)
          (j2\<lparr>jn_confirmations := filter (\<lambda>c. Some (cc_recordRef c) \<noteq> er_recordRef r1) (jn_confirmations j2)
            @ [ui_confirmation_of page ev r1 m]\<rparr>))"

definition observeUi :: "journal_env \<Rightarrow> captured_page \<Rightarrow> string list \<Rightarrow> bool \<Rightarrow> execution_journal \<Rightarrow> execution_journal" where
  "observeUi env page ev fresh j =
     (if ev = [] \<or> \<not> ob_completeWithinScope (cp_observation page) \<or> ob_truncated (cp_observation page) then j
      else foldl (observe_row env page ev fresh) j
        (map Inl [0..<length (jn_observed j)] @ map Inr [0..<length (jn_records j)]))"

text \<open>The one label selected in the form that holds the account: what a submission calls the type.\<close>

definition submittedTypeLabel :: "execution_journal \<Rightarrow> js \<Rightarrow> string option" where
  "submittedTypeLabel j account = (case (jn_ui j, account) of
     (Some page, JStr a) \<Rightarrow>
       let ob = cp_observation page; under = (\<lambda>n f. find_above ob (\<lambda>p. on_nodeId p = on_nodeId f) (\<lambda>_. False) n \<noteq> None);
           forms = filter (\<lambda>f. on_visible f \<and> (on_tag f = ''form'' \<or> on_role f = Some ''form'')
             \<and> list_ex (\<lambda>n. on_visible n \<and> map_option utf8 (on_value n) = Some a \<and> under n f) (ob_nodes ob)) (ob_nodes ob);
           labels = js_uniq (concat (map (\<lambda>f. concat (map (\<lambda>n. case on_selectedLabel n of
               Some l \<Rightarrow> if on_visible n \<and> on_selectedLabelSource n \<noteq> None \<and> l \<noteq> [] \<and> on_truncatedProperties n = [] \<and> under n f
                 then [utf8 l] else [] | None \<Rightarrow> []) (ob_nodes ob))) forms)) in
       (case labels of [l] \<Rightarrow> Some l | _ \<Rightarrow> None)
   | _ \<Rightarrow> None)"

section \<open>Observing the output of a command\<close>

record browser_command =
  bc_type :: string
  bc_payload :: js

definition read_commands :: "string list" where
  "read_commands = map (\<lambda>w. CHR ''.'' # w) [''snapshot'', ''get_text'', ''get_url'', ''get_title'', ''network'', ''errors'', ''console'',
     ''screenshot'', ''dom'', ''scroll'']"

definition search_words :: "string list" where
  "search_words = [utf8 [0x641c, 0x7d22], utf8 [0x67e5, 0x8be2], utf8 [0x5237, 0x65b0], ''search'', ''refresh'', ''reload'']"

definition fresh_ui_read :: "execution_journal \<Rightarrow> browser_command option \<Rightarrow> bool" where
  "fresh_ui_read j command \<longleftrightarrow> (case command of
     None \<Rightarrow> False
   | Some c \<Rightarrow> bc_type c = ''page.reload'' \<or>
       (bc_type c = ''page.click'' \<and> (case jn_ui j of None \<Rightarrow> False | Some page \<Rightarrow>
          (case List.find (\<lambda>n. opt_js (on_ref n) = js_prop (js_obj (js_prop (js_obj (bc_payload c)) ''target'')) ''ref'')
              (ob_nodes (cp_observation page)) of
             None \<Rightarrow> False
           | Some n \<Rightarrow> to_lower (utf8 (coalesce (coalesce_opt (on_name n) (on_text n)) [])) \<in> set search_words))))"

definition note_command :: "js \<Rightarrow> browser_command option \<Rightarrow> execution_journal \<Rightarrow> execution_journal" where
  "note_command output command j =
     (let j1 = (case command of
            Some c \<Rightarrow> if list_ex (ends_with (bc_type c)) read_commands then j
              else (invalidateUiConfirmations None j)\<lparr>jn_pendingUiRead := False\<rparr>
          | None \<Rightarrow> j) in
      if fresh_ui_read j command \<and> js_prop (js_obj output) ''status'' = JStr ''SUCCEEDED'' then j1\<lparr>jn_pendingUiRead := True\<rparr> else j1)"

definition evidence_refs_of :: "string list \<Rightarrow> js \<Rightarrow> string list" where
  "evidence_refs_of known output = last_n 8 (js_uniq (find_refs known 9 output))"

definition note_page :: "journal_env \<Rightarrow> captured_page option \<Rightarrow> string list \<Rightarrow> execution_journal \<Rightarrow> execution_journal" where
  "note_page env page ev j = (case page of
     None \<Rightarrow> j
   | Some p \<Rightarrow> (observeUi env p ev (jn_pendingUiRead j) j)\<lparr>jn_pendingUiRead := False, jn_ui := Some p, jn_uiRefs := ev\<rparr>)"

text \<open>\<open>observe\<close>; \<open>known\<close> are the stored evidence, \<open>page\<close> the captured page as it parses.\<close>

definition observe ::
  "journal_env \<Rightarrow> js \<Rightarrow> string list \<Rightarrow> browser_command option \<Rightarrow> captured_page option \<Rightarrow> execution_journal \<Rightarrow> execution_journal" where
  "observe env output known command page j =
     (let j1 = note_command output command j; ev = evidence_refs_of known output;
          j2 = foldl (observe_request env (js_prop (feedback_of output) ''commandId'') ev (submittedTypeLabel j1)) j1 (requests_of env output);
          j3 = reconcileCleanup env (registerObservedMutations env (reconcileNamedResources env (settle_all_pending env j2))) in
      reconcileReview env (note_page env page ev j3))"

text \<open>Whether the journal has to be stored again.\<close>

definition observed_change :: "execution_journal \<Rightarrow> execution_journal \<Rightarrow> bool" where
  "observed_change j j' \<longleftrightarrow> j'\<lparr>jn_ui := None, jn_uiRefs := [], jn_pendingUiRead := False\<rparr>
     \<noteq> j\<lparr>jn_ui := None, jn_uiRefs := [], jn_pendingUiRead := False\<rparr>"

end
