(* ===== verification/JournalPlan.thy ===== *)
theory JournalPlan
  imports JournalUpdate
begin

text \<open>
  What the model states about its execution: the methods \<open>update\<close>, \<open>updatePartial\<close> and \<open>createdUiRecord\<close> of
  \<open>apps/agent-runtime/src/execution-journal.ts\<close>. Every error thrown is a \<open>journal_error\<close>; what was changed before it
  stays changed. The statement is given as \<open>executionProgressSchema\<close> parses it.
\<close>

datatype journal_error =
    Account_Assignment | Ambiguous_Record | Not_A_Baseline | Observation_Missing | Baseline_Is_Existing | Initial_State_Format
  | Unknown_Record_Ref | Identity_Change | Alias_Change | Invalid_Record | Retention_Unfounded | Retention_Unread
  | Outside_Schema | Review_Unrelated | Ownership_Change | Initial_State_Change | Creation_Unproven | Blocked_Without_Note
  | Cleanup_Unproven | Submitted_Before

record record_delta =
  dl_recordRef :: "string option"
  dl_id :: "string option"
  dl_type :: "string option"
  dl_displayType :: "string option"
  dl_resourceUrl :: "string option"
  dl_account :: "string option"
  dl_accountAliases :: "string list option"
  dl_ownership :: "record_ownership option"
  dl_initialState :: "string option"
  dl_currentState :: "string option"
  dl_evidenceRefs :: "string list option"
  dl_cleanup :: "(cleanup_status \<times> bool) option"

record progress_delta =
  pd_account :: "string option"
  pd_phase :: "execution_phase option"
  pd_records :: "record_delta list"
  pd_review :: "journal_review option"

section \<open>A record shown on a page\<close>

text \<open>The texts of each verified row.\<close>

definition row_texts :: "observation \<Rightarrow> string list list" where
  "row_texts ob = map snd (foldl (\<lambda>m n. case on_text n of
       Some t \<Rightarrow> if on_visible n \<and> on_truncatedProperties n = [] \<and> t \<noteq> [] then
           (case find_above ob is_row (\<lambda>_. False) n of
              Some row \<Rightarrow> if verified_node ob row
                then jmap_set m (on_nodeId row) (coalesce (jmap_get m (on_nodeId row)) [] @ [utf8 (u_trim t)]) else m
            | None \<Rightarrow> m) else m
     | None \<Rightarrow> m) [] (ob_nodes ob))"

definition origin_of :: "journal_env \<Rightarrow> string \<Rightarrow> string option" where
  "origin_of env s = map_option url_origin (je_url env s)"

text \<open>A confirmed submission of an account and a type that were absent before.\<close>

definition ui_creation :: "journal_env \<Rightarrow> execution_journal \<Rightarrow> captured_page \<Rightarrow> record_delta \<Rightarrow> string \<Rightarrow> journal_write \<Rightarrow> (string \<times> string \<times> string) option" where
  "ui_creation env j page c i w = (case (jw_uiTypeLabel w, js_prop (request_of env w) ''account'', js_prop (request_of env w) ''type'') of
     (Some label, JStr account, JStr type) \<Rightarrow>
       if wr_method w = POST \<and> wr_confirmed w \<and> succeeded env w \<and> label \<noteq> [] \<and> dl_type c \<in> {Some label, Some type}
          \<and> absence_key env (wr_url w) type account \<in> set (jn_absences j)
          \<and> (\<not> truthy (dl_account c) \<or> dl_account c = Some account)
          \<and> origin_of env (cp_pageIdentity page) \<noteq> None \<and> origin_of env (cp_pageIdentity page) = origin_of env (wr_url w)
          \<and> length (filter (\<lambda>vs. i \<in> set vs \<and> account \<in> set vs \<and> label \<in> set vs) (row_texts (cp_observation page))) = 1
       then Some (label, account, type) else None
   | _ \<Rightarrow> None)"

definition ui_created_record :: "journal_env \<Rightarrow> execution_journal \<Rightarrow> string \<Rightarrow> journal_write \<Rightarrow> string \<times> string \<times> string \<Rightarrow> journal_record" where
  "ui_created_record env j i w subject = (case subject of (label, account, type) \<Rightarrow>
     plain_record\<lparr>er_id := i, er_type := Some type, er_resourceUrl := Some (resource env (wr_url w)), er_account := Some account,
       er_accountAliases := [account], er_ownership := CREATED_THIS_RUN,
       er_recordRef := Some (stableRecordRef env (Some (resource env (wr_url w))) (Some type) i (Some account)),
       er_evidenceRefs := last_n 20 (js_uniq (wr_evidenceRefs w @ jn_uiRefs j)), er_cleanup := Some cleanup_pending,
       jr_displayType := Some label\<rparr>)"

definition createdUiRecord :: "journal_env \<Rightarrow> execution_journal \<Rightarrow> record_delta \<Rightarrow> journal_record option" where
  "createdUiRecord env j c = (case (jn_ui j, dl_id c) of
     (Some page, Some i) \<Rightarrow>
       if i = [] \<or> jn_uiRefs j = [] \<or> \<not> ob_completeWithinScope (cp_observation page) \<or> ob_truncated (cp_observation page) then None
       else (case List.find (\<lambda>w. ui_creation env j page c i w \<noteq> None) (rev (jn_writes j)) of
           None \<Rightarrow> None
         | Some w \<Rightarrow> map_option (ui_created_record env j i w) (ui_creation env j page c i w))
   | _ \<Rightarrow> None)"

section \<open>One stated record\<close>

definition with_identity :: "journal_record \<Rightarrow> record_delta \<Rightarrow> record_delta" where
  "with_identity r c = c\<lparr>dl_recordRef := er_recordRef r, dl_type := er_type r, dl_resourceUrl := er_resourceUrl r,
     dl_account := er_account r, dl_accountAliases := Some (er_accountAliases r)\<rparr>"

definition as_baseline :: "journal_record \<Rightarrow> record_delta \<Rightarrow> record_delta" where
  "as_baseline r c = (with_identity r c)\<lparr>dl_id := Some (er_id r), dl_ownership := Some (er_ownership r),
     dl_initialState := jr_initialState r, dl_currentState := jr_currentState r\<rparr>"

text \<open>The record that is stated to be created and is on the page, unless it is known.\<close>

definition adopt_created ::
  "journal_env \<Rightarrow> execution_journal \<Rightarrow> journal_record list \<Rightarrow> record_delta \<Rightarrow> execution_journal \<times> journal_record list \<times> record_delta" where
  "adopt_created env j merged c =
     (if dl_ownership c = Some CREATED_THIS_RUN
         \<and> \<not> list_ex (\<lambda>r. dl_id c = Some (er_id r) \<and> (er_type r = dl_type c \<or> jr_displayType r = dl_type c)) merged
      then (case createdUiRecord env j c of
          Some r \<Rightarrow> (j\<lparr>jn_records := jn_records j @ [r]\<rparr>, merged @ [r], with_identity r c)
        | None \<Rightarrow> (j, merged, c))
      else (j, merged, c))"

definition observed_matches :: "journal_env \<Rightarrow> execution_journal \<Rightarrow> record_delta \<Rightarrow> journal_record list" where
  "observed_matches env j c = filter (\<lambda>r. (if dl_recordRef c \<noteq> None then er_recordRef r = dl_recordRef c else dl_id c = Some (er_id r))
     \<and> (\<not> truthy (dl_resourceUrl c) \<or> er_resourceUrl r = Some (resource env (the (dl_resourceUrl c))))
     \<and> (\<not> truthy (dl_account c) \<or> account_of r (the (dl_account c)))) (jn_observed j)"

text \<open>A record that was observed before it was changed keeps that state as its baseline.\<close>

definition adopt_baseline ::
  "journal_env \<Rightarrow> execution_journal \<Rightarrow> journal_record list \<Rightarrow> record_delta \<Rightarrow> journal_error + journal_record list \<times> record_delta" where
  "adopt_baseline env j merged c = (case observed_matches env j c of
     [] \<Rightarrow> Inr (merged, c)
   | [b] \<Rightarrow>
       if list_ex (\<lambda>r. er_recordRef r = er_recordRef b) merged then Inr (merged, c)
       else if \<not> baselinePrecedesWrites env j b then Inl Not_A_Baseline
       else if coalesce (dl_evidenceRefs c) [] = [] then Inl Observation_Missing
       else if dl_ownership c \<noteq> None \<and> dl_ownership c \<noteq> Some EXISTING then Inl Baseline_Is_Existing
       else Inr (merged @ [if dl_type c \<noteq> None \<and> dl_type c \<noteq> er_type b then b\<lparr>jr_displayType := dl_type c\<rparr> else b], as_baseline b c)
   | _ \<Rightarrow> Inl Ambiguous_Record)"

definition is_candidate :: "journal_env \<Rightarrow> record_delta \<Rightarrow> journal_record \<Rightarrow> bool" where
  "is_candidate env c r \<longleftrightarrow> (if dl_recordRef c \<noteq> None then er_recordRef r = dl_recordRef c
     else dl_id c = Some (er_id r) \<and> (dl_type c = None \<or> er_type r = dl_type c)
       \<and> (case dl_resourceUrl c of None \<Rightarrow> True | Some u \<Rightarrow> resource env (coalesce (er_resourceUrl r) []) = resource env u))"

definition identity_changed :: "record_delta \<Rightarrow> journal_record \<Rightarrow> bool" where
  "identity_changed c r \<longleftrightarrow> (dl_id c \<noteq> None \<and> dl_id c \<noteq> Some (er_id r)) \<or> (dl_type c \<noteq> None \<and> dl_type c \<noteq> er_type r)
     \<or> (dl_resourceUrl c \<noteq> None \<and> dl_resourceUrl c \<noteq> er_resourceUrl r) \<or> (dl_account c \<noteq> None \<and> dl_account c \<noteq> er_account r)
     \<or> (dl_recordRef c \<noteq> None \<and> dl_recordRef c \<noteq> er_recordRef r)"

definition same_members :: "string list \<Rightarrow> string list \<Rightarrow> bool" where
  "same_members xs ys \<longleftrightarrow> length xs = length ys \<and> list_all (\<lambda>x. count_list xs x = count_list ys x) (xs @ ys)"

text \<open>\<open>executionRecordSchema\<close> of the known record overlaid with what is stated.\<close>

definition overlaid :: "journal_record option \<Rightarrow> record_delta \<Rightarrow> journal_record option" where
  "overlaid locked c =
     (let base = coalesce locked plain_record;
          r = base\<lparr>er_id := coalesce (dl_id c) (er_id base), er_type := coalesce_opt (dl_type c) (er_type base),
            er_recordRef := coalesce_opt (dl_recordRef c) (er_recordRef base),
            er_resourceUrl := coalesce_opt (dl_resourceUrl c) (er_resourceUrl base),
            er_account := coalesce_opt (dl_account c) (er_account base),
            er_accountAliases := coalesce (dl_accountAliases c) (er_accountAliases base),
            er_ownership := coalesce (dl_ownership c) (er_ownership base),
            er_evidenceRefs := coalesce (dl_evidenceRefs c) (er_evidenceRefs base),
            er_cleanup := (case dl_cleanup c of None \<Rightarrow> er_cleanup base
              | Some (s, _) \<Rightarrow> Some \<lparr>rc_status = s, rc_resolution = None\<rparr>),
            jr_displayType := coalesce_opt (dl_displayType c) (jr_displayType base),
            jr_initialState := coalesce_opt (dl_initialState c) (jr_initialState base),
            jr_currentState := coalesce_opt (dl_currentState c) (jr_currentState base),
            jr_noted := (case dl_cleanup c of None \<Rightarrow> jr_noted base | Some (_, noted) \<Rightarrow> noted),
            jr_retainedAt := (if dl_cleanup c = None then jr_retainedAt base else None)\<rparr> in
      if (locked = None \<and> (dl_id c = None \<or> dl_ownership c = None \<or> dl_evidenceRefs c = None))
         \<or> \<not> record_within r then None else Some r)"

text \<open>Only a record the run created may be kept, with a reason, and only as it was last read.\<close>

definition checked_retention :: "journal_env \<Rightarrow> execution_journal \<Rightarrow> journal_record option \<Rightarrow> journal_record \<Rightarrow> journal_error + journal_record" where
  "checked_retention env j locked r =
     (if \<not> has_status CLEANUP_RETAINED r then Inr r
      else (case locked of
          None \<Rightarrow> Inl Retention_Unfounded
        | Some l \<Rightarrow>
            if er_ownership l \<noteq> CREATED_THIS_RUN \<or> \<not> jr_noted r then Inl Retention_Unfounded
            else (case retentionRead env j l of
                None \<Rightarrow> Inl Retention_Unread
              | Some (w, x) \<Rightarrow> Inr (r\<lparr>jr_retainedAt := Some (wr_key w),
                  er_evidenceRefs := last_n 20 (js_uniq (er_evidenceRefs r @ re_evidenceRefs x))\<rparr>))))"

definition with_ref :: "journal_env \<Rightarrow> journal_record \<Rightarrow> journal_record" where
  "with_ref env r = (if er_recordRef r = None
     then r\<lparr>er_recordRef := Some (stableRecordRef env (er_resourceUrl r) (er_type r) (er_id r) (er_account r))\<rparr> else r)"

definition merge_stated ::
  "journal_env \<Rightarrow> execution_journal \<Rightarrow> journal_record list \<Rightarrow> record_delta \<Rightarrow> journal_error + journal_record list" where
  "merge_stated env j merged c =
     (let cands = filter (is_candidate env c) merged; locked = (case cands of [] \<Rightarrow> None | r # _ \<Rightarrow> Some r) in
      if 1 < length cands then Inl Ambiguous_Record
      else if locked = None \<and> dl_ownership c = Some EXISTING
         \<and> (case dl_initialState c of None \<Rightarrow> False | Some s \<Rightarrow> je_json env s = None) then Inl Initial_State_Format
      else if dl_recordRef c \<noteq> None \<and> locked = None then Inl Unknown_Record_Ref
      else if (case locked of None \<Rightarrow> False | Some r \<Rightarrow> identity_changed c r) then Inl Identity_Change
      else if (case (locked, dl_accountAliases c) of (Some r, Some xs) \<Rightarrow> \<not> same_members xs (er_accountAliases r) | _ \<Rightarrow> False)
      then Inl Alias_Change
      else (case overlaid locked c of
          None \<Rightarrow> Inl Invalid_Record
        | Some r \<Rightarrow> (case checked_retention env j locked r of
            Inl e \<Rightarrow> Inl e
          | Inr r' \<Rightarrow> Inr (if locked = None then merged @ [with_ref env r']
              else update_first (is_candidate env c) (\<lambda>_. with_ref env r') merged))))"

definition merge_change ::
  "journal_env \<Rightarrow> execution_journal \<Rightarrow> journal_record list \<Rightarrow> record_delta \<Rightarrow> execution_journal \<times> (journal_error + journal_record list)" where
  "merge_change env j merged c = (case adopt_created env j merged c of
     (j1, merged1, c1) \<Rightarrow> (j1, case adopt_baseline env j1 merged1 c1 of
        Inl e \<Rightarrow> Inl e
      | Inr (merged2, c2) \<Rightarrow> merge_stated env j1 merged2 c2))"

fun merge_changes ::
  "journal_env \<Rightarrow> execution_journal \<Rightarrow> journal_record list \<Rightarrow> record_delta list \<Rightarrow> execution_journal \<times> (journal_error + journal_record list)" where
  "merge_changes env j merged [] = (j, Inr merged)"
| "merge_changes env j merged (c # cs) = (case merge_change env j merged c of
     (j1, Inl e) \<Rightarrow> (j1, Inl e)
   | (j1, Inr merged1) \<Rightarrow> merge_changes env j1 merged1 cs)"

section \<open>Updates\<close>

definition first_by_key :: "journal_env \<Rightarrow> execution_journal \<Rightarrow> journal_record \<Rightarrow> journal_record option" where
  "first_by_key env j r = List.find (\<lambda>x. key_of env x = key_of env r) (jn_records j)"

text \<open>What a record may say, against the records of the journal.\<close>

definition record_refused :: "journal_env \<Rightarrow> execution_journal \<Rightarrow> journal_record \<Rightarrow> journal_error option" where
  "record_refused env j r =
     (let locked = first_by_key env j r in
      if (case locked of None \<Rightarrow> False | Some l \<Rightarrow> er_ownership l \<noteq> er_ownership r) then Some Ownership_Change
      else if (case locked of None \<Rightarrow> False | Some l \<Rightarrow> jr_initialState l \<noteq> None \<and> jr_initialState l \<noteq> jr_initialState r)
      then Some Initial_State_Change
      else if er_ownership r = CREATED_THIS_RUN
         \<and> \<not> list_ex (\<lambda>x. key_of env x = key_of env r \<and> er_ownership x = CREATED_THIS_RUN) (jn_records j) then Some Creation_Unproven
      else if has_status CLEANUP_BLOCKED r \<and> \<not> jr_noted r then Some Blocked_Without_Note
      else if has_status CLEANUP_COMPLETED r \<and> \<not> (case locked of None \<Rightarrow> False | Some l \<Rightarrow> has_status CLEANUP_COMPLETED l)
         \<and> \<not> list_ex (\<lambda>p. er_recordRef r = Some (cc_recordRef p) \<and> list_ex (\<lambda>e. e \<in> set (er_evidenceRefs r)) (cc_evidenceRefs p))
              (jn_confirmations j) then Some Cleanup_Unproven
      else None)"

definition update_refused :: "journal_env \<Rightarrow> execution_journal \<Rightarrow> journal_record list \<Rightarrow> progress_delta \<Rightarrow> journal_error option" where
  "update_refused env j merged d =
     (if \<not> state_within (j\<lparr>jn_records := merged, jn_review := coalesce_opt (pd_review d) (jn_review j)\<rparr>) then Some Outside_Schema
      else if (case pd_review d of None \<Rightarrow> False | Some v \<Rightarrow> \<not> set (jv_writeKeys v) \<subseteq> set (unresolved_keys env j)) then Some Review_Unrelated
      else (case List.find (\<lambda>r. record_refused env j r \<noteq> None) merged of
          Some r \<Rightarrow> record_refused env j r
        | None \<Rightarrow> if coalesce (pd_phase d) (jn_phase j) = PREFLIGHT \<and> jn_writes j \<noteq> [] then Some Submitted_Before else None))"

definition updated_journal :: "journal_env \<Rightarrow> execution_journal \<Rightarrow> journal_record list \<Rightarrow> progress_delta \<Rightarrow> execution_journal" where
  "updated_journal env j merged d =
     j\<lparr>jn_records := merged, jn_phase := coalesce (pd_phase d) (jn_phase j), jn_review := coalesce_opt (pd_review d) (jn_review j),
       jn_existing := last_n 200 (js_uniq (jn_existing j @ map (key_of env) (filter (\<lambda>r. er_ownership r = EXISTING) merged)))\<rparr>"

definition foreign_account :: "execution_journal \<Rightarrow> string option \<Rightarrow> bool" where
  "foreign_account j account \<longleftrightarrow> account \<noteq> None \<and> account \<noteq> jn_account j
     \<and> \<not> list_ex (\<lambda>b. the account \<in> set (ja_account b # ja_aliases b)) (coalesce (jn_accounts j) [])"

text \<open>\<open>update\<close>: the journal after it, and the error it throws.\<close>

definition update :: "journal_env \<Rightarrow> progress_delta \<Rightarrow> execution_journal \<Rightarrow> execution_journal \<times> journal_error option" where
  "update env d j =
     (if foreign_account j (pd_account d) then (j, Some Account_Assignment)
      else (case merge_changes env j (jn_records j) (pd_records d) of
          (j1, Inl e) \<Rightarrow> (j1, Some e)
        | (j1, Inr merged) \<Rightarrow> (case update_refused env j1 merged d of
            Some e \<Rightarrow> (j1, Some e)
          | None \<Rightarrow> let j2 = updated_journal env j1 merged d;
                j3 = (case jn_ui j2 of None \<Rightarrow> j2 | Some page \<Rightarrow> observeUi env page (jn_uiRefs j2) False j2) in
              (reconcileReview env (reconcileCleanup env j3), None))))"

text \<open>The other fields first, then each record on its own; a record that is refused does not hold up the next.\<close>

fun update_each :: "journal_env \<Rightarrow> progress_delta \<Rightarrow> record_delta list \<Rightarrow> execution_journal \<Rightarrow> execution_journal \<times> journal_error option list" where
  "update_each env d [] j = (j, [])"
| "update_each env d (c # cs) j = (case update env \<lparr>pd_account = None, pd_phase = None, pd_records = [c], pd_review = None\<rparr> j of
     (j1, e) \<Rightarrow> (case update_each env d cs j1 of (j2, es) \<Rightarrow> (j2, e # es)))"

definition updatePartial :: "journal_env \<Rightarrow> progress_delta \<Rightarrow> execution_journal \<Rightarrow> execution_journal \<times> (journal_error + journal_error option list)" where
  "updatePartial env d j = (case update env (d\<lparr>pd_records := []\<rparr>) j of
     (j1, Some e) \<Rightarrow> (j1, Inl e)
   | (j1, None) \<Rightarrow> (case update_each env d (pd_records d) j1 of (j2, es) \<Rightarrow> (j2, Inr es)))"

section \<open>What happens to a journal\<close>

text \<open>The calls of the executor (\<open>browser-verification.executor.ts\<close>) and of a human's answer, in any order: an output of the
  browser, a statement of the model, the end of the cleanup, an account, the last part of the budget, other accounts for
  the stored journal, and the stored journal opened again. Whether the schema takes what is stored is part of an event.\<close>

datatype journal_event =
    Observed js "string list" "browser_command option" "captured_page option"
  | Stated progress_delta
  | Given_Up string
  | Assigned string
  | Budget_Low
  | Replaced bool "journal_account list option" "string option"
  | Reopened bool "journal_account list option"

definition stored_as :: "bool \<Rightarrow> execution_journal \<Rightarrow> execution_journal option" where
  "stored_as accepted j = (if accepted then Some j else None)"

fun after_event :: "journal_env \<Rightarrow> journal_event \<Rightarrow> execution_journal \<Rightarrow> execution_journal" where
  "after_event env (Observed result known command page) j = observe env result known command page j"
| "after_event env (Stated d) j = fst (updatePartial env d j)"
| "after_event env (Given_Up reason) j = blockCleanup env reason j"
| "after_event env (Assigned account) j = assign_account account j"
| "after_event env Budget_Low j = start_cleanup j"
| "after_event env (Replaced accepted accounts account) j = accountReplacementState (stored_as accepted j) accounts account"
| "after_event env (Reopened accepted bindings) j = open_journal env (stored_as accepted j) bindings"

text \<open>The schema takes nothing that is outside its limits.\<close>

fun event_possible :: "journal_event \<Rightarrow> execution_journal \<Rightarrow> bool" where
  "event_possible (Replaced accepted accounts account) j = (accepted \<longrightarrow> state_within j)"
| "event_possible (Reopened accepted bindings) j = (accepted \<longrightarrow> state_within j)"
| "event_possible e j = True"

text \<open>The record a request for another account would complain about.\<close>

definition accountRequestError :: "execution_journal \<Rightarrow> string \<Rightarrow> journal_record option" where
  "accountRequestError j i = List.find (\<lambda>r. er_id r = i \<and> er_ownership r = CREATED_THIS_RUN) (jn_records j)"

end
