(* ===== verification/JournalFacts.thy ===== *)
theory JournalFacts
  imports JournalPlan
begin

text \<open>
  What every operation of the journal leaves alone: which parts of the records it keeps, and which lists it does not touch.
  \<open>core\<close> is what nothing the browser reports changes of a record, \<open>stem\<close> what the check of a cleanup keeps of it.
\<close>

section \<open>Lists\<close>

lemma last_n_subset: "set (last_n n xs) \<subseteq> set xs"
  by (simp add: last_n_def set_drop_subset)

lemma length_last_n [simp]: "length (last_n n xs) = min n (length xs)"
  by (simp add: last_n_def)

lemma foldl_indexed:
  "P 0 s \<Longrightarrow> (\<And>i s. i < length xs \<Longrightarrow> P i s \<Longrightarrow> P (Suc i) (f s (xs ! i))) \<Longrightarrow> P (length xs) (foldl f s xs)"
proof (induction xs rule: rev_induct)
  case (snoc x xs)
  have "P (length xs) (foldl f s xs)"
  proof (rule snoc.IH [OF snoc.prems(1)])
    fix i s
    assume "i < length xs" "P i s"
    then show "P (Suc i) (f s (xs ! i))" using snoc.prems(2) [of i s] by (simp add: nth_append)
  qed
  then show ?case using snoc.prems(2) [of "length xs" "foldl f s xs"] by simp
qed simp

lemma foldl_in:
  "P s \<Longrightarrow> (\<And>s x. x \<in> set xs \<Longrightarrow> P s \<Longrightarrow> P (f s x)) \<Longrightarrow> P (foldl f s xs)"
  by (induction xs arbitrary: s) auto

lemma map_update_first: "(\<And>x. g (f x) = g x) \<Longrightarrow> map g (update_first P f xs) = map g xs"
  by (induction xs) auto

lemma length_update_first [simp]: "length (update_first P f xs) = length xs"
  by (induction xs) auto

lemma in_update_firstD: "y \<in> set (update_first P f xs) \<Longrightarrow> y \<in> set xs \<or> (\<exists>x\<in>set xs. P x \<and> y = f x)"
  by (induction xs) (auto split: if_splits)

section \<open>The parts of a record\<close>

definition core :: "journal_record \<Rightarrow> journal_record \<times> bool" where
  "core r = (r\<lparr>er_resourceName := None, er_evidenceRefs := [], er_cleanup := None, jr_displayType := None, jr_currentState := None,
     jr_uiBaseline := None, jr_noted := False, jr_retainedAt := None\<rparr>, er_cleanup r = None)"

definition stem :: "journal_record \<Rightarrow> journal_record" where
  "stem r = r\<lparr>er_evidenceRefs := [], er_cleanup := None, jr_uiBaseline := None, jr_noted := False, jr_retainedAt := None\<rparr>"

lemma core_fields:
  assumes "core r = core s"
  shows "er_id r = er_id s" "er_type r = er_type s" "er_recordRef r = er_recordRef s" "er_resourceUrl r = er_resourceUrl s"
    "er_account r = er_account s" "er_accountAliases r = er_accountAliases s" "er_ownership r = er_ownership s"
    "er_creationWriteKey r = er_creationWriteKey s" "jr_initialState r = jr_initialState s" "jr_baseline r = jr_baseline s"
    "(er_cleanup r = None) = (er_cleanup s = None)"
  using assms by (cases r; cases s; simp add: core_def)+

lemma stem_fields:
  assumes "stem r = stem s"
  shows "er_id r = er_id s" "er_type r = er_type s" "er_recordRef r = er_recordRef s" "er_resourceUrl r = er_resourceUrl s"
    "er_account r = er_account s" "er_accountAliases r = er_accountAliases s" "er_ownership r = er_ownership s"
    "er_creationWriteKey r = er_creationWriteKey s" "jr_initialState r = jr_initialState s" "er_resourceName r = er_resourceName s"
  using assms by (cases r; cases s; simp add: stem_def)+

lemma core_updates [simp]:
  "core (r\<lparr>er_resourceName := a\<rparr>) = core r" "core (r\<lparr>er_evidenceRefs := b\<rparr>) = core r"
  "core (r\<lparr>jr_displayType := c\<rparr>) = core r" "core (r\<lparr>jr_currentState := c\<rparr>) = core r" "core (r\<lparr>jr_uiBaseline := d\<rparr>) = core r"
  "core (r\<lparr>jr_noted := e\<rparr>) = core r" "core (r\<lparr>jr_retainedAt := c\<rparr>) = core r"
  by (simp_all add: core_def)

lemma core_cleanup: "(er_cleanup r = None) = (x = None) \<Longrightarrow> core (r\<lparr>er_cleanup := x\<rparr>) = core r"
  by (simp add: core_def)

lemma has_status_cleanup: "has_status s r \<Longrightarrow> er_cleanup r \<noteq> None"
  by (simp add: has_status_def split: option.splits)

lemma stem_updates [simp]:
  "stem (r\<lparr>er_cleanup := a\<rparr>) = stem r" "stem (r\<lparr>er_evidenceRefs := b\<rparr>) = stem r"
  "stem (r\<lparr>jr_uiBaseline := d\<rparr>) = stem r" "stem (r\<lparr>jr_noted := e\<rparr>) = stem r" "stem (r\<lparr>jr_retainedAt := c\<rparr>) = stem r"
  by (simp_all add: stem_def)

definition cores :: "execution_journal \<Rightarrow> (journal_record \<times> bool) list" where
  "cores j = map core (jn_records j)"

lemma cores_updates [simp]:
  "cores (j\<lparr>jn_requestOrder := a\<rparr>) = cores j" "cores (j\<lparr>jn_requestOrderTruncated := b\<rparr>) = cores j"
  "cores (j\<lparr>jn_reads := c\<rparr>) = cores j" "cores (j\<lparr>jn_confirmations := d\<rparr>) = cores j"
  "cores (j\<lparr>jn_accounts := e\<rparr>) = cores j" "cores (j\<lparr>jn_phase := f\<rparr>) = cores j"
  "cores (j\<lparr>jn_account := g\<rparr>) = cores j" "cores (j\<lparr>jn_absences := h\<rparr>) = cores j"
  "cores (j\<lparr>jn_existing := h\<rparr>) = cores j" "cores (j\<lparr>jn_accountAliases := h\<rparr>) = cores j"
  "cores (j\<lparr>jn_observed := k\<rparr>) = cores j" "cores (j\<lparr>jn_pending := l\<rparr>) = cores j"
  "cores (j\<lparr>jn_truncated := b\<rparr>) = cores j" "cores (j\<lparr>jn_review := m\<rparr>) = cores j"
  "cores (j\<lparr>jn_writes := n\<rparr>) = cores j" "cores (j\<lparr>jn_ui := p\<rparr>) = cores j"
  "cores (j\<lparr>jn_uiRefs := h\<rparr>) = cores j" "cores (j\<lparr>jn_pendingUiRead := b\<rparr>) = cores j"
  by (simp_all add: cores_def)

lemma cores_records [simp]:
  "cores (j\<lparr>jn_records := jn_records j @ rs\<rparr>) = cores j @ map core rs"
  "(\<And>r. core (f r) = core r) \<Longrightarrow> cores (j\<lparr>jn_records := map f (jn_records j)\<rparr>) = cores j"
  "(\<And>r. core (f r) = core r) \<Longrightarrow> cores (j\<lparr>jn_records := update_first P f (jn_records j)\<rparr>) = cores j"
  by (simp_all add: cores_def map_update_first)

lemma cores_length: "length (jn_records j) = length (cores j)"
  by (simp add: cores_def)

section \<open>Confirmations on pages\<close>

lemma invalidate_fields [simp]:
  "jn_requestOrder (invalidateUiConfirmations ref j) = jn_requestOrder j"
  "jn_requestOrderTruncated (invalidateUiConfirmations ref j) = jn_requestOrderTruncated j"
  "jn_reads (invalidateUiConfirmations ref j) = jn_reads j"
  "jn_phase (invalidateUiConfirmations ref j) = jn_phase j"
  "jn_absences (invalidateUiConfirmations ref j) = jn_absences j"
  "jn_existing (invalidateUiConfirmations ref j) = jn_existing j"
  "jn_accountAliases (invalidateUiConfirmations ref j) = jn_accountAliases j"
  "jn_observed (invalidateUiConfirmations ref j) = jn_observed j"
  "jn_pending (invalidateUiConfirmations ref j) = jn_pending j"
  "jn_truncated (invalidateUiConfirmations ref j) = jn_truncated j"
  "jn_review (invalidateUiConfirmations ref j) = jn_review j"
  "jn_writes (invalidateUiConfirmations ref j) = jn_writes j"
  "jn_ui (invalidateUiConfirmations ref j) = jn_ui j"
  "jn_confirmations (invalidateUiConfirmations ref j) = filter (\<lambda>p. \<not> ui_confirmation ref p) (jn_confirmations j)"
  by (simp_all add: invalidateUiConfirmations_def)

lemma invalidate_cores [simp]: "cores (invalidateUiConfirmations ref j) = cores j"
  by (auto simp: invalidateUiConfirmations_def cores_def core_cleanup dest: has_status_cleanup)

lemma invalidate_stems [simp]: "map stem (jn_records (invalidateUiConfirmations ref j)) = map stem (jn_records j)"
  by (simp add: invalidateUiConfirmations_def)

section \<open>Requests leave the records as they are\<close>

lemma order_cores [simp]: "cores (note_order k j) = cores j"
  by (simp add: note_order_def)

lemma absence_cores [simp]:
  "cores (add_absence k j) = cores j" "cores (add_existing k j) = cores j"
  "cores (record_absence env ev q j) = cores j" "cores (inferCreationAbsence env w j) = cores j"
  "cores (drop_absence env q j) = cores j"
  by (simp_all add: add_absence_def add_existing_def record_absence_def inferCreationAbsence_def drop_absence_def Let_def
      split: option.splits js.splits)

lemma write_cores [simp]: "cores (put_receipt new j) = cores j" "cores (trim_writes j) = cores j"
  "cores (record_write env k s ev label q j) = cores j"
  by (simp_all add: put_receipt_def trim_writes_def record_write_def Let_def split: option.splits)

lemma read_cores [simp]: "cores (record_read env k s ev q j) = cores j"
proof -
  have "cores (foldl (\<lambda>d x. if state_differs env r x then invalidateUiConfirmations (er_recordRef x) d else d) j xs) = cores j" for r xs
    by (rule foldl_keeps) simp_all
  then show ?thesis by (simp add: record_read_def Let_def)
qed

lemma candidate_cores [simp]: "cores (observe_candidate env k s ev q found j v) = cores j"
proof -
  have "cores (learn_aliases a d) = cores d" for a d
    by (simp add: learn_aliases_def Let_def split: option.splits)
  moreover have "cores (note_baseline env b d) = cores d" "cores (put_pending env p d) = cores d" for b p d
    by (simp_all add: note_baseline_def put_pending_def)
  ultimately show ?thesis
    by (auto simp: observe_candidate_def place_record_def Let_def split: option.splits)
qed

lemma request_cores [simp]: "cores (observe_request env c ev label j q) = cores j"
proof -
  have "cores (foldl (observe_candidate env k s ev q found) d found) = cores d" for k s found d
    by (rule foldl_keeps) simp_all
  then show ?thesis by (simp add: observe_request_def Let_def)
qed

lemma requests_cores [simp]: "cores (foldl (observe_request env c ev label) j qs) = cores j"
  by (rule foldl_keeps) simp_all

section \<open>Records are only added\<close>

text \<open>The write that created a record: a confirmed and successful submission to its resource, for its account and type or
  under the name it was created with; \<open>names_id\<close>: whose response names no other record.\<close>

definition created_by :: "journal_env \<Rightarrow> journal_write \<Rightarrow> journal_record \<Rightarrow> bool" where
  "created_by env w r \<longleftrightarrow> wr_method w = POST \<and> wr_confirmed w \<and> succeeded env w
     \<and> er_resourceUrl r = Some (resource env (wr_url w))
     \<and> (js_prop (request_of env w) ''type'' = opt_js (er_type r)
          \<and> (case js_prop (request_of env w) ''account'' of JStr a \<Rightarrow> account_of r a | _ \<Rightarrow> False)
        \<or> er_creationWriteKey r = Some (wr_key w) \<and> js_string (js_prop (request_of env w) ''name'') \<noteq> None)"

definition names_id :: "journal_env \<Rightarrow> journal_write \<Rightarrow> string \<Rightarrow> bool" where
  "names_id env w i \<longleftrightarrow> responseRecordId (je_show env) (response_of env w) \<in> {None, Some i}"

definition founded :: "journal_env \<Rightarrow> journal_write list \<Rightarrow> journal_record \<Rightarrow> bool" where
  "founded env ws r \<longleftrightarrow> truthy (er_recordRef r) \<and> er_cleanup r \<noteq> None
     \<and> (er_ownership r = EXISTING \<or> (\<exists>w\<in>set ws. created_by env w r \<and> names_id env w (er_id r)))"

definition grown :: "(journal_record \<Rightarrow> bool) \<Rightarrow> execution_journal \<Rightarrow> execution_journal \<Rightarrow> bool" where
  "grown P j j' \<longleftrightarrow> (\<exists>new. cores j' = cores j @ map core new \<and> (\<forall>r\<in>set new. P r))"

lemma grown_same [intro]: "cores j' = cores j \<Longrightarrow> grown P j j'"
  unfolding grown_def by (rule exI [of _ "[]"]) simp

lemma grown_trans [trans]: "grown P i j \<Longrightarrow> grown P j k \<Longrightarrow> grown P i k"
  unfolding grown_def
proof (elim exE conjE)
  fix a b
  assume "cores j = cores i @ map core a" "\<forall>r\<in>set a. P r" "cores k = cores j @ map core b" "\<forall>r\<in>set b. P r"
  then show "\<exists>new. cores k = cores i @ map core new \<and> (\<forall>r\<in>set new. P r)"
    by (intro exI [of _ "a @ b"]) auto
qed

lemma grown_one: "P r \<Longrightarrow> grown P j (j\<lparr>jn_records := jn_records j @ [r]\<rparr>)"
  unfolding grown_def by (rule exI [of _ "[r]"]) simp

lemma record_ref_truthy [simp]: "stableRecordRef env url type i account \<noteq> []"
  by (simp add: stableRecordRef_def)

lemma matching_creationD:
  "matchingCreation env j absence p = Some w \<Longrightarrow> w \<in> set (jn_writes j) \<and> creates_record env j absence p w"
  by (auto simp: matchingCreation_def dest: find_SomeD)

lemma created_record_founded:
  assumes "creates_record env j absence p w" and "wr_confirmed w" and "succeeded env w" and "w \<in> set ws"
  shows "founded env ws (created_record env p w)"
proof -
  obtain a where a: "js_prop (request_of env w) ''account'' = JStr a" "a \<in> set (pr_accountAliases p)"
    using assms(1) by (auto simp: creates_record_def Let_def split: js.splits)
  have "created_by env w (created_record env p w)" "names_id env w (pr_id p)"
    using assms a by (auto simp: created_by_def names_id_def creates_record_def created_record_def account_of_def Let_def opt_js_def)
  then show ?thesis
    using assms(4) by (auto simp: founded_def created_record_def Let_def)
qed

lemma settle_grown: "grown (founded env (jn_writes j)) j (settle_pending env j p)"
proof (cases "matchingCreation env j False p")
  case (Some w)
  note m = matching_creationD [OF Some]
  show ?thesis
    using m by (auto simp: settle_pending_def Some Let_def intro!: grown_one created_record_founded)
qed (auto simp: settle_pending_def Let_def)

lemma settle_writes [simp]: "jn_writes (settle_pending env j p) = jn_writes j" "jn_writes (settle_all_pending env j) = jn_writes j"
proof -
  show *: "jn_writes (settle_pending env d p) = jn_writes d" for d p
    by (simp add: settle_pending_def add_existing_def Let_def split: option.splits)
  have "jn_writes (foldl (settle_pending env) d ps) = jn_writes d" for d ps
    by (rule foldl_keeps) (simp_all add: *)
  then show "jn_writes (settle_all_pending env j) = jn_writes j" by (simp add: settle_all_pending_def)
qed

lemma settle_all_grown: "grown (founded env (jn_writes j)) j (settle_all_pending env j)"
proof -
  let ?ok = "\<lambda>d. jn_writes d = jn_writes j \<and> grown (founded env (jn_writes j)) j d"
  have "?ok (foldl (settle_pending env) (j\<lparr>jn_pending := []\<rparr>) (jn_pending j))"
  proof (rule foldl_keeps)
    show "?ok (settle_pending env d p)" if "?ok d" for d p
      using that settle_grown [of env d p] by (auto intro: grown_trans)
  qed auto
  then show ?thesis by (simp add: settle_all_pending_def)
qed

lemma named_record_founded:
  assumes "creates_named env j r item w" and "w \<in> set ws"
  shows "founded env ws (created_named env r item w st)"
proof -
  have "created_by env w (created_named env r item w st)" "names_id env w (fst item)"
    using assms(1) by (auto simp: created_by_def names_id_def creates_named_def created_named_def named_identity_def Let_def
        split: option.splits)
  then show ?thesis using assms(2) by (auto simp: founded_def created_named_def named_identity_def)
qed

lemma see_named_core [simp]: "core (see_named env j r n x) = core x"
  by (simp add: see_named_def Let_def)

lemma reconcile_named_grown: "grown (founded env (jn_writes j)) j (reconcile_named env r j item)"
proof -
  let ?k = "key_of env (named_identity env r item)"
  show ?thesis
  proof (cases "list_ex (\<lambda>x. key_of env x = ?k) (jn_records j)")
    case True
    then show ?thesis by (auto simp: reconcile_named_def Let_def)
  next
    case False
    show ?thesis
    proof (cases "filter (creates_named env j r item) (jn_writes j)")
      case (Cons w ws)
      then have w: "creates_named env j r item w" "w \<in> set (jn_writes j)"
        by (metis filter_eq_ConsD append.assoc in_set_conv_decomp)+
      show ?thesis using False Cons
        by (auto simp: reconcile_named_def Let_def split: list.splits intro!: grown_one named_record_founded w)
    qed (use False in \<open>auto simp: reconcile_named_def Let_def\<close>)
  qed
qed

lemma reconcile_named_writes [simp]: "jn_writes (reconcile_named env r j item) = jn_writes j"
  by (simp add: reconcile_named_def add_existing_def Let_def split: option.splits list.splits)

lemma named_all_grown:
  "jn_writes (reconcileNamedResources env j) = jn_writes j \<and> grown (founded env (jn_writes j)) j (reconcileNamedResources env j)"
proof -
  let ?ok = "\<lambda>d. jn_writes d = jn_writes j \<and> grown (founded env (jn_writes j)) j d"
  have one: "?ok (reconcile_named env r d item)" if "?ok d" for d r item
    using that reconcile_named_grown [of env d r item] by (auto intro: grown_trans)
  have "?ok (foldl (\<lambda>d r. foldl (reconcile_named env r) d (jd_namedResources r)) j rs)" for rs
    by (rule foldl_keeps, blast, rule foldl_keeps, assumption, rule one)
  then show ?thesis by (auto simp: reconcileNamedResources_def)
qed

text \<open>An observed record was there before the run, and nothing has to be undone for it yet.\<close>

definition watched :: "execution_journal \<Rightarrow> bool" where
  "watched j \<longleftrightarrow> (\<forall>r\<in>set (jn_observed j). er_ownership r = EXISTING \<and> truthy (er_recordRef r) \<and> er_cleanup r = None)"

lemma register_grown:
  assumes "watched j"
  shows "grown (founded env ws) j (register_mutation env j w)"
proof (cases "filter (\<lambda>r. matches env w r \<and> baselinePrecedesWrites env j r) (jn_observed j)")
  case (Cons b bs)
  then have "b \<in> set (jn_observed j)" by (metis filter_eq_ConsD append.assoc in_set_conv_decomp)
  then have "founded env ws (b\<lparr>er_cleanup := Some cleanup_pending, jr_noted := False, jr_retainedAt := None\<rparr>)"
    using assms by (auto simp: founded_def watched_def)
  then show ?thesis using Cons by (auto simp: register_mutation_def split: list.splits intro!: grown_one)
qed (auto simp: register_mutation_def)

lemma register_fields [simp]:
  "jn_observed (register_mutation env j w) = jn_observed j" "jn_writes (register_mutation env j w) = jn_writes j"
  by (simp_all add: register_mutation_def split: list.splits)

lemma register_all_grown:
  assumes "watched j"
  shows "jn_writes (registerObservedMutations env j) = jn_writes j \<and> jn_observed (registerObservedMutations env j) = jn_observed j
    \<and> grown (founded env ws) j (registerObservedMutations env j)"
proof -
  let ?ok = "\<lambda>d. jn_writes d = jn_writes j \<and> jn_observed d = jn_observed j \<and> grown (founded env ws) j d"
  have "?ok (foldl (register_mutation env) j (jn_writes j))"
  proof (rule foldl_keeps)
    show "?ok (register_mutation env d w)" if "?ok d" for d w
      using that register_grown [of d env ws w] assms by (auto simp: watched_def intro: grown_trans)
  qed auto
  then show ?thesis by (simp add: registerObservedMutations_def)
qed

section \<open>Checking the cleanup changes no record\<close>

lemma completed_core: "er_cleanup r \<noteq> None \<Longrightarrow> core (completed_record how ev r) = core r"
  by (simp add: completed_record_def core_cleanup)

lemma completed_stem [simp]: "stem (completed_record how ev r) = stem r"
  by (simp add: completed_record_def)

lemma retained_stem [simp]: "stem (check_retained env j r) = stem r"
  by (simp add: check_retained_def)

lemma retained_core [simp]: "core (check_retained env j r) = core r"
  by (simp add: check_retained_def core_cleanup)

lemma retained_cleanup: "(er_cleanup (check_retained env j r) = None) = (er_cleanup r = None)"
  by (simp add: check_retained_def)

text \<open>What the check of one record makes of it.\<close>

definition checked :: "journal_env \<Rightarrow> execution_journal \<Rightarrow> cleanup_confirmation list \<Rightarrow> journal_record \<Rightarrow> journal_record" where
  "checked env j ps r = last (fst (reconcile_record env j ([], ps) r))"

lemma reconcile_record_fst: "fst (reconcile_record env j (rs, ps) r) = rs @ [checked env j ps r]"
  by (simp add: checked_def reconcile_record_def Let_def split: option.splits)

lemma checked_stem [simp]: "stem (checked env j ps r) = stem r"
  by (simp add: checked_def reconcile_record_def Let_def split: option.splits)

lemma checked_core [simp]: "core (checked env j ps r) = core r"
  by (simp add: checked_def reconcile_record_def Let_def completed_core retained_cleanup core_cleanup split: option.splits)

lemma reconcile_fold:
  "map stem (fst (foldl (reconcile_record env j) (rs, ps) xs)) = map stem rs @ map stem xs
   \<and> map core (fst (foldl (reconcile_record env j) (rs, ps) xs)) = map core rs @ map core xs"
proof (induction xs arbitrary: rs ps)
  case (Cons x xs)
  obtain rs' ps' where a: "reconcile_record env j (rs, ps) x = (rs', ps')" by (cases "reconcile_record env j (rs, ps) x")
  then have "rs' = rs @ [checked env j ps x]" using reconcile_record_fst [of env j rs ps x] by simp
  then show ?case using Cons.IH [of rs' ps'] by (simp add: a)
qed simp

lemma reconcile_cores [simp]: "cores (reconcileCleanup env j) = cores j"
  and reconcile_stems [simp]: "map stem (jn_records (reconcileCleanup env j)) = map stem (jn_records j)"
  using reconcile_fold [of env j "[]" "jn_confirmations j" "jn_records j"]
  by (simp_all add: reconcileCleanup_def Let_def cores_def)

lemma reconcile_fields [simp]:
  "jn_requestOrder (reconcileCleanup env j) = jn_requestOrder j" "jn_requestOrderTruncated (reconcileCleanup env j) = jn_requestOrderTruncated j"
  "jn_reads (reconcileCleanup env j) = jn_reads j" "jn_phase (reconcileCleanup env j) = jn_phase j"
  "jn_absences (reconcileCleanup env j) = jn_absences j" "jn_existing (reconcileCleanup env j) = jn_existing j"
  "jn_accountAliases (reconcileCleanup env j) = jn_accountAliases j" "jn_observed (reconcileCleanup env j) = jn_observed j"
  "jn_pending (reconcileCleanup env j) = jn_pending j" "jn_truncated (reconcileCleanup env j) = jn_truncated j"
  "jn_review (reconcileCleanup env j) = jn_review j" "jn_writes (reconcileCleanup env j) = jn_writes j"
  by (simp_all add: reconcileCleanup_def Let_def)

lemma review_same [simp]: "cores (reconcileReview env j) = cores j" "jn_records (reconcileReview env j) = jn_records j"
  "jn_requestOrder (reconcileReview env j) = jn_requestOrder j" "jn_requestOrderTruncated (reconcileReview env j) = jn_requestOrderTruncated j"
  "jn_reads (reconcileReview env j) = jn_reads j" "jn_phase (reconcileReview env j) = jn_phase j"
  "jn_absences (reconcileReview env j) = jn_absences j" "jn_existing (reconcileReview env j) = jn_existing j"
  "jn_accountAliases (reconcileReview env j) = jn_accountAliases j" "jn_observed (reconcileReview env j) = jn_observed j"
  "jn_pending (reconcileReview env j) = jn_pending j" "jn_truncated (reconcileReview env j) = jn_truncated j"
  "jn_writes (reconcileReview env j) = jn_writes j" "jn_confirmations (reconcileReview env j) = jn_confirmations j"
  by (simp_all add: reconcileReview_def split: option.splits list.splits)

section \<open>Captured pages change no record either\<close>

definition shape :: "execution_journal \<Rightarrow> (journal_record \<times> bool) list \<times> (journal_record \<times> bool) list \<times> journal_record list" where
  "shape j = (map core (jn_observed j), cores j, map stem (jn_records j))"

definition rest :: "execution_journal \<Rightarrow> execution_journal" where
  "rest j = j\<lparr>jn_observed := [], jn_records := [], jn_confirmations := []\<rparr>"

lemma rest_fields:
  assumes "rest j' = rest j"
  shows "jn_requestOrder j' = jn_requestOrder j" "jn_requestOrderTruncated j' = jn_requestOrderTruncated j" "jn_reads j' = jn_reads j"
    "jn_phase j' = jn_phase j" "jn_absences j' = jn_absences j" "jn_existing j' = jn_existing j"
    "jn_accountAliases j' = jn_accountAliases j" "jn_pending j' = jn_pending j" "jn_truncated j' = jn_truncated j"
    "jn_review j' = jn_review j" "jn_writes j' = jn_writes j"
  using assms by (cases j; cases j'; simp add: rest_def)+

lemma shape_length: "shape j' = shape j \<Longrightarrow> length (jn_records j') = length (jn_records j) \<and> length (jn_observed j') = length (jn_observed j)"
  by (metis (no_types, lifting) Pair_inject cores_length length_map shape_def)

lemma invalidate_shape [simp]: "shape (invalidateUiConfirmations ref j) = shape j" "rest (invalidateUiConfirmations ref j) = rest j"
proof -
  show "shape (invalidateUiConfirmations ref j) = shape j" by (simp add: shape_def)
  show "rest (invalidateUiConfirmations ref j) = rest j" by (simp add: rest_def invalidateUiConfirmations_def Let_def)
qed

fun valid_at :: "execution_journal \<Rightarrow> nat + nat \<Rightarrow> bool" where
  "valid_at j (Inl i) \<longleftrightarrow> i < length (jn_observed j)"
| "valid_at j (Inr i) \<longleftrightarrow> i < length (jn_records j)"

lemma valid_at_shape: "shape j' = shape j \<Longrightarrow> valid_at j' p = valid_at j p"
  using shape_length [of j' j] by (cases p) auto

lemma set_known_shape:
  assumes "valid_at j p" and "core r = core (known_at j p)" and "stem r = stem (known_at j p)"
  shows "shape (set_known p r j) = shape j"
  using assms by (cases p) (auto simp: shape_def cores_def set_known_def known_at_def map_update list_update_same_conv)

lemma set_known_rest [simp]: "rest (set_known p r j) = rest j" "rest (j\<lparr>jn_confirmations := ps\<rparr>) = rest j"
  "shape (j\<lparr>jn_confirmations := ps\<rparr>) = shape j"
  by (simp_all add: rest_def set_known_def shape_def split: sum.split)

lemma known_at_set [simp]: "valid_at j p \<Longrightarrow> known_at (set_known p r j) p = r"
  by (cases p) (simp_all add: known_at_def set_known_def)

lemma known_at_confirmations [simp]: "known_at (j\<lparr>jn_confirmations := ps\<rparr>) p = known_at j p" "valid_at (j\<lparr>jn_confirmations := ps\<rparr>) p = valid_at j p"
  by (cases p; simp add: known_at_def)+


section \<open>Confirmations belong to records\<close>

text \<open>\<open>tracked\<close>: every record has a reference, a record has one confirmation at most, and a confirmation is of a record with
  a cleanup. \<open>evidenced\<close>: a record that is cleaned up, of those with \<open>Q\<close>, has one.\<close>

definition tracked :: "execution_journal \<Rightarrow> bool" where
  "tracked j \<longleftrightarrow> (\<forall>c\<in>set (cores j). truthy (er_recordRef (fst c))) \<and> distinct (map cc_recordRef (jn_confirmations j))
     \<and> (\<forall>p\<in>set (jn_confirmations j). \<exists>c\<in>set (cores j). er_recordRef (fst c) = Some (cc_recordRef p) \<and> \<not> snd c)"

definition evidenced :: "(journal_record \<Rightarrow> bool) \<Rightarrow> execution_journal \<Rightarrow> bool" where
  "evidenced Q j \<longleftrightarrow> (\<forall>r\<in>set (jn_records j). has_status CLEANUP_COMPLETED r \<and> Q (stem r)
     \<longrightarrow> (\<exists>p\<in>set (jn_confirmations j). er_recordRef r = Some (cc_recordRef p)))"

definition from_network :: "execution_journal \<Rightarrow> cleanup_confirmation set" where
  "from_network j = {p \<in> set (jn_confirmations j). cc_source p \<noteq> Some UI_SOURCE}"

lemma tracked_ref: "tracked j \<Longrightarrow> r \<in> set (jn_records j) \<Longrightarrow> truthy (er_recordRef r)"
  by (force simp: tracked_def cores_def core_def)

lemma core_fst_ref [simp]: "er_recordRef (fst (core r)) = er_recordRef r" "snd (core r) \<longleftrightarrow> er_cleanup r = None"
  by (simp_all add: core_def)

lemma tracked_filter: "tracked j \<Longrightarrow> cores j' = cores j \<Longrightarrow> jn_confirmations j' = filter F (jn_confirmations j) \<Longrightarrow> tracked j'"
  by (auto simp: tracked_def distinct_map inj_on_def)

lemma tracked_grown:
  assumes "tracked j" and "grown P j j'" and "jn_confirmations j' = jn_confirmations j" and "\<And>r. P r \<Longrightarrow> truthy (er_recordRef r)"
  shows "tracked j'"
proof -
  obtain new where "cores j' = cores j @ map core new" "\<forall>r\<in>set new. P r" using assms(2) by (auto simp: grown_def)
  then show ?thesis using assms(1,3,4) by (fastforce simp: tracked_def)
qed

definition ui_kept :: "(journal_record \<Rightarrow> bool) \<Rightarrow> execution_journal \<Rightarrow> execution_journal \<Rightarrow> bool" where
  "ui_kept Q j j' \<longleftrightarrow> shape j' = shape j \<and> rest j' = rest j \<and> tracked j' \<and> evidenced Q j' \<and> from_network j' \<subseteq> from_network j"

lemma invalidate_evidenced:
  assumes "tracked j" and "evidenced Q j"
  shows "evidenced Q (invalidateUiConfirmations ref j)"
  unfolding evidenced_def
proof (intro ballI impI)
  fix r
  assume r: "r \<in> set (jn_records (invalidateUiConfirmations ref j))" "has_status CLEANUP_COMPLETED r \<and> Q (stem r)"
  let ?owners = "map cc_recordRef (filter (ui_confirmation ref) (jn_confirmations j))"
  have k: "r \<in> set (jn_records j)" "\<not> (truthy (er_recordRef r) \<and> the (er_recordRef r) \<in> set ?owners)"
    using r by (auto simp: invalidateUiConfirmations_def Let_def has_status_def cleanup_pending_def split: if_splits)
  with r assms(2) obtain p where p: "p \<in> set (jn_confirmations j)" "er_recordRef r = Some (cc_recordRef p)"
    by (auto simp: evidenced_def)
  moreover have "\<not> ui_confirmation ref p" using k p tracked_ref [OF assms(1) k(1)] by auto
  ultimately show "\<exists>p\<in>set (jn_confirmations (invalidateUiConfirmations ref j)). er_recordRef r = Some (cc_recordRef p)" by auto
qed

lemma invalidate_kept: "ui_kept Q j d \<Longrightarrow> ui_kept Q j (invalidateUiConfirmations ref d)"
  by (auto simp: ui_kept_def invalidate_evidenced from_network_def intro: tracked_filter)

lemma set_known_confirmations [simp]: "jn_confirmations (set_known p r j) = jn_confirmations j"
  by (simp add: set_known_def split: sum.split)

lemma baseline_kept:
  assumes "ui_kept Q j d" and "valid_at d p"
  shows "ui_kept Q j (set_known p ((known_at d p)\<lparr>jr_uiBaseline := b\<rparr>) d)" (is "ui_kept Q j ?d")
proof -
  have s: "shape ?d = shape d" using assms(2) by (simp add: set_known_shape)
  then have "cores ?d = cores d" by (simp add: shape_def)
  then have "tracked ?d" using assms(1) by (auto simp: ui_kept_def intro: tracked_filter [of d _ "\<lambda>_. True"])
  moreover have "evidenced Q ?d"
    using assms by (cases p) (auto simp: ui_kept_def evidenced_def set_known_def known_at_def has_status_def
        dest!: set_update_subset_insert [THEN subsetD])
  ultimately show ?thesis using assms(1) s by (auto simp: ui_kept_def from_network_def)
qed

lemma restored_kept:
  assumes d: "ui_kept Q j d" and i: "i < length (jn_records d)" and r: "r = jn_records d ! i" "er_cleanup r \<noteq> None"
    and p: "cc_source p = Some UI_SOURCE" "er_recordRef r = Some (cc_recordRef p)"
  shows "ui_kept Q j (set_known (Inr i) (completed_record RESTORED ev r)
    (d\<lparr>jn_confirmations := filter (\<lambda>c. Some (cc_recordRef c) \<noteq> er_recordRef r) (jn_confirmations d) @ [p]\<rparr>))" (is "ui_kept Q j ?d")
proof -
  have s: "shape ?d = shape d"
    using i r by (subst set_known_shape) (simp_all add: known_at_def completed_core)
  then have c: "cores ?d = cores d" by (simp add: shape_def)
  have "core r \<in> set (cores d)" using i r by (auto simp: cores_def)
  then have "tracked ?d" using d r p unfolding ui_kept_def tracked_def c
    by (auto simp: distinct_map inj_on_def intro!: bexI [of _ "core r"])
  moreover have "evidenced Q ?d"
  proof -
    have "\<exists>q\<in>set (jn_confirmations ?d). er_recordRef x = Some (cc_recordRef q)"
      if x: "x \<in> set (jn_records ?d)" "has_status CLEANUP_COMPLETED x" "Q (stem x)" for x
    proof (cases "er_recordRef x = er_recordRef r")
      case False
      then have "x \<in> set (jn_records d)"
        using x(1) by (auto simp: set_known_def completed_record_def dest!: set_update_subset_insert [THEN subsetD])
      then obtain q where "q \<in> set (jn_confirmations d)" "er_recordRef x = Some (cc_recordRef q)"
        using d x by (auto simp: ui_kept_def evidenced_def)
      then show ?thesis using False by auto
    qed (use p in auto)
    then show ?thesis by (auto simp: evidenced_def)
  qed
  ultimately show ?thesis using d s p by (auto simp: ui_kept_def from_network_def)
qed

lemma row_kept:
  assumes k: "ui_kept Q j d" and v: "valid_at d p" and w: "watched d"
  shows "ui_kept Q j (observe_row env page ev fresh d p)"
proof -
  let ?r = "known_at d p"
  let ?cands = "filter (\<lambda>vs. list_ex (\<lambda>v. v \<in> set (known_aliases ?r)) vs) (observed_rows (cp_observation page))"
  let ?drifted = "case jr_uiBaseline ?r of None \<Rightarrow> False | Some b \<Rightarrow> ub_pageIdentity b = cp_pageIdentity page
    \<and> list_ex (\<lambda>vs. er_id ?r \<in> set vs) ?cands \<and> \<not> list_ex (\<lambda>vs. state_values ?r vs = ub_values b) ?cands"
  define d1 where "d1 = (if ?drifted then invalidateUiConfirmations (er_recordRef ?r) d else d)"
  define r1 where "r1 = (known_at d1 p)\<lparr>jr_uiBaseline := ui_baseline_of env d1 page ev ?cands (known_at d1 p)\<rparr>"
  define d2 where "d2 = set_known p r1 d1"
  have s1: "shape d1 = shape d" by (simp add: d1_def)
  have k1: "ui_kept Q j d1" using k by (simp add: d1_def invalidate_kept)
  have v1: "valid_at d1 p" using valid_at_shape [OF s1] v by simp
  have k2: "ui_kept Q j d2" unfolding d2_def r1_def by (rule baseline_kept [OF k1 v1])
  have r1: "known_at d2 p = r1" by (simp add: d2_def v1)
  have "core r1 = core (known_at d1 p)" by (simp add: r1_def)
  have restored: "ui_kept Q j (set_known p (completed_record RESTORED ev r1)
      (d2\<lparr>jn_confirmations := filter (\<lambda>c. Some (cc_recordRef c) \<noteq> er_recordRef r1) (jn_confirmations d2)
        @ [ui_confirmation_of page ev r1 m]\<rparr>))" if u: "ui_restored env d2 page ?cands r1 m" for m
  proof (cases p)
    case (Inl i)
    have "jn_observed d1 = jn_observed d" by (simp add: d1_def)
    then have "er_cleanup r1 = None" using v w Inl by (auto simp: r1_def known_at_def watched_def)
    then show ?thesis using u by (simp add: ui_restored_def)
  next
    case (Inr i)
    have "valid_at d2 p" using v1 Inr by (simp add: d2_def set_known_def)
    then have i: "i < length (jn_records d2)" "r1 = jn_records d2 ! i" using Inr r1 by (simp_all add: known_at_def)
    then have "truthy (er_recordRef r1)" using k2 by (auto simp: ui_kept_def intro: tracked_ref)
    then have ref: "er_recordRef r1 = Some (cc_recordRef (ui_confirmation_of page ev r1 m))"
      by (cases "er_recordRef r1") (auto simp: ui_confirmation_of_def)
    have "er_cleanup r1 \<noteq> None" using u by (simp add: ui_restored_def)
    from restored_kept [OF k2 i this _ ref] show ?thesis by (simp add: Inr ui_confirmation_of_def)
  qed
  show ?thesis
    unfolding observe_row_def Let_def d1_def [symmetric] r1_def [symmetric] d2_def [symmetric]
    using k k2 restored by simp
qed

lemma watched_shape: "shape d = shape j \<Longrightarrow> watched d = watched j"
proof -
  have w: "watched e \<longleftrightarrow> (\<forall>c\<in>set (fst (shape e)). er_ownership (fst c) = EXISTING \<and> truthy (er_recordRef (fst c)) \<and> snd c)" for e
    by (auto simp: watched_def shape_def core_def)
  show "shape d = shape j \<Longrightarrow> watched d = watched j" by (simp add: w)
qed

lemma ui_kept_refl: "tracked j \<Longrightarrow> evidenced Q j \<Longrightarrow> ui_kept Q j j"
  by (simp add: ui_kept_def)

lemma observeUi_kept:
  assumes "tracked j" and "evidenced Q j" and "watched j"
  shows "ui_kept Q j (observeUi env page ev fresh j)"
proof -
  let ?ps = "map Inl [0..<length (jn_observed j)] @ map Inr [0..<length (jn_records j)]"
  have "ui_kept Q j (foldl (observe_row env page ev fresh) j ?ps)"
  proof (rule foldl_in)
    show "ui_kept Q j j" using assms by (simp add: ui_kept_refl)
    fix d p
    assume p: "p \<in> set ?ps" and d: "ui_kept Q j d"
    have s: "shape d = shape j" using d by (simp add: ui_kept_def)
    show "ui_kept Q j (observe_row env page ev fresh d p)"
      using p d assms(3) by (intro row_kept) (auto simp: valid_at_shape [OF s] watched_shape [OF s])
  qed
  then show ?thesis using ui_kept_refl [OF assms(1,2)] by (simp add: observeUi_def)
qed

end
