(* ===== verification/JournalSound.thy ===== *)
theory JournalSound
  imports JournalFacts
begin

text \<open>
  The invariant of the execution journal: every confirmation of a cleanup belongs to a record and is proved by the writes
  and reads the journal holds, and a record counted as cleaned up has one. \<open>observe\<close> and \<open>blockCleanup\<close> keep it;
  \<open>update\<close> follows in \<open>JournalSafety\<close>, the limits of the lists in \<open>JournalLimits\<close>.
\<close>

section \<open>The proof of a cleanup\<close>

interpretation latest_read: comparator "\<lambda>a b. re_sequence b \<le> re_sequence (a :: journal_read)"
  by unfold_locales auto

interpretation by_sequence: comparator "\<lambda>a b. sequence_of a \<le> sequence_of b"
  by unfold_locales auto

text \<open>\<open>w\<close> is the last change of a record that the journal knows, and a read of the same page came after it.\<close>

definition last_change :: "journal_env \<Rightarrow> execution_journal \<Rightarrow> journal_record \<Rightarrow> journal_write \<Rightarrow> bool" where
  "last_change env j r w \<longleftrightarrow> w \<in> set (jn_writes j) \<and> matches env w r \<and> \<not> rejectedWrite env w
     \<and> (\<forall>v\<in>set (jn_writes j). matches env v r \<and> \<not> rejectedWrite env v \<longrightarrow> sequence_of v \<le> sequence_of w)"

definition read_after :: "journal_env \<Rightarrow> journal_write \<Rightarrow> journal_read \<Rightarrow> bool" where
  "read_after env w x \<longleftrightarrow> wr_sequence w \<noteq> None \<and> sequence_of w < re_sequence x \<and> not_after env (jw_timestamp w) (jd_timestamp x)"

text \<open>The last read that could tell shows a created record gone, or one that was there before as it was then.\<close>

definition shows_undone :: "journal_env \<Rightarrow> journal_record \<Rightarrow> journal_write \<Rightarrow> journal_read \<Rightarrow> bool" where
  "shows_undone env r w x \<longleftrightarrow>
     (er_ownership r = CREATED_THIS_RUN \<and> wr_method w = DELETE \<and> covers env x r \<and> \<not> lists_key env r x)
     \<or> (er_ownership r = EXISTING \<and> wr_method w \<in> {PUT, PATCH} \<and> lists_key env r x
        \<and> (case (jr_initialState r, jmap_get (jd_recordStates x) (key_of env r)) of
             (Some initial, Some actual) \<Rightarrow> same_state env actual initial | _ \<Rightarrow> False))"

definition proves_undone :: "journal_env \<Rightarrow> execution_journal \<Rightarrow> journal_record \<Rightarrow> cleanup_confirmation \<Rightarrow> bool" where
  "proves_undone env j r p \<longleftrightarrow> (\<exists>w x. last_change env j r w \<and> wr_confirmed w \<and> succeeded env w
     \<and> x \<in> set (jn_reads j) \<and> read_after env w x \<and> shows_undone env r w x
     \<and> (\<forall>y\<in>set (jn_reads j). read_after env w y \<and> lists_key env r y \<longrightarrow> re_sequence y \<le> re_sequence x)
     \<and> cc_writeKey p = wr_key w \<and> cc_readKey p = re_key x)"

lemma latest_mutation_last: "latest_mutation env j r = Some w \<Longrightarrow> last_change env j r w"
proof -
  let ?ms = "js_sort (\<lambda>a b. sequence_of a \<le> sequence_of b) (mutations_of env j r)"
  assume "latest_mutation env j r = Some w"
  then have w: "?ms \<noteq> []" "w = last ?ms" by (auto simp: latest_mutation_def last_of_def split: if_splits)
  then obtain vs where vs: "?ms = vs @ [w]" by (metis append_butlast_last_id)
  have "sequence_of v \<le> sequence_of w" if "v \<in> set (mutations_of env j r)" for v
  proof -
    have "v \<in> set (vs @ [w])" using that vs by (metis set_js_sort)
    moreover have "sorted_wrt (\<lambda>a b. sequence_of a \<le> sequence_of b) (vs @ [w])"
      using by_sequence.sorted_js_sort [of "mutations_of env j r"] vs by simp
    ultimately show ?thesis by (auto simp: sorted_wrt_append)
  qed
  moreover have "w \<in> set (mutations_of env j r)" using vs by (metis in_set_conv_decomp set_js_sort)
  ultimately show ?thesis by (auto simp: last_change_def mutations_of_def)
qed

lemma find_latest:
  assumes "List.find P (latest_first xs) = Some x"
  shows "x \<in> set xs \<and> P x \<and> (\<forall>y\<in>set xs. P y \<longrightarrow> re_sequence y \<le> re_sequence x)"
proof -
  obtain i where i: "i < length (latest_first xs)" "x = latest_first xs ! i" "P x" "\<forall>k<i. \<not> P (latest_first xs ! k)"
    using assms by (auto simp: find_Some_iff)
  have "re_sequence y \<le> re_sequence x" if y: "y \<in> set xs" "P y" for y
  proof -
    have "y \<in> set (latest_first xs)" using y by (simp add: latest_first_def)
    then obtain k where k: "k < length (latest_first xs)" "y = latest_first xs ! k" by (auto simp: in_set_conv_nth)
    then have "\<not> k < i" using i(4) y(2) by auto
    then show ?thesis
      using latest_read.sorted_js_sort [of xs] i k by (cases "i = k") (auto simp: latest_first_def sorted_wrt_iff_nth_less)
  qed
  moreover have "x \<in> set (latest_first xs)" using i by simp
  ultimately show ?thesis using i(3) by (simp add: latest_first_def)
qed

lemma later_reads_set:
  "wr_sequence w = Some s \<Longrightarrow> set (later_reads env j w s) = {x \<in> set (jn_reads j). read_after env w x}"
  by (auto simp: later_reads_def latest_first_def read_after_def sequence_of_def)

lemma cleanup_read_undone:
  assumes m: "latest_mutation env j r = Some w" and c: "cleanup_read env j r w = Some x"
  shows "proves_undone env j r (confirmation_of r w x)"
proof -
  obtain s where s: "wr_sequence w = Some s" "wr_confirmed w" "succeeded env w"
    using c by (auto simp: cleanup_read_def split: option.splits if_splits)
  let ?reads = "filter (\<lambda>x. s < re_sequence x \<and> not_after env (jw_timestamp w) (jd_timestamp x)) (jn_reads j)"
  have reads: "later_reads env j w s = latest_first ?reads" by (simp add: later_reads_def)
  have after: "set ?reads = {x \<in> set (jn_reads j). read_after env w x}" using s by (auto simp: read_after_def sequence_of_def)
  consider (deleted) "er_ownership r = CREATED_THIS_RUN" "wr_method w = DELETE" "shows_deleted env r (latest_first ?reads) = Some x"
    | (restored) "er_ownership r = EXISTING" "wr_method w \<in> {PUT, PATCH}" "shows_restored env r w (latest_first ?reads) = Some x"
    using c s(1) by (auto simp: cleanup_read_def reads split: if_splits)
  then have "x \<in> set ?reads \<and> shows_undone env r w x \<and> (\<forall>y\<in>set ?reads. lists_key env r y \<longrightarrow> re_sequence y \<le> re_sequence x)"
  proof cases
    case deleted
    then show ?thesis
      by (auto simp: shows_deleted_def shows_undone_def dest!: find_latest split: option.splits if_splits)
  next
    case restored
    then show ?thesis
      by (auto simp: shows_restored_def shows_undone_def dest!: find_latest split: option.splits if_splits)
  qed
  then show ?thesis
    using latest_mutation_last [OF m] s after unfolding proves_undone_def confirmation_of_def
    by (intro exI [of _ w] exI [of _ x]) auto
qed

text \<open>Which part of a record the check reads.\<close>

lemma stem_reads [simp]:
  "matches env w (stem r) = matches env w r" "covers env x (stem r) = covers env x r" "key_of env (stem r) = key_of env r"
  "lists_key env (stem r) = lists_key env r" "mutations_of env j (stem r) = mutations_of env j r"
  "latest_mutation env j (stem r) = latest_mutation env j r" "shows_undone env (stem r) = shows_undone env r"
  "last_change env j (stem r) = last_change env j r" "proves_undone env j (stem r) = proves_undone env j r"
  "er_recordRef (stem r) = er_recordRef r" "er_ownership (stem r) = er_ownership r"
proof -
  have f: "er_id (stem r) = er_id r" "er_type (stem r) = er_type r" "er_resourceUrl (stem r) = er_resourceUrl r"
    "er_resourceName (stem r) = er_resourceName r" "er_creationWriteKey (stem r) = er_creationWriteKey r"
    "account_of (stem r) = account_of r" "jr_initialState (stem r) = jr_initialState r"
    by (simp_all add: stem_def account_of_def fun_eq_iff)
  show m: "matches env w (stem r) = matches env w r" for w
    unfolding writeMatchesRecord_def request_account_ok_def f by (rule refl)
  show c: "covers env x (stem r) = covers env x r" for x
    unfolding completeReadCoversRecord_def f by (rule refl)
  show k: "key_of env (stem r) = key_of env r" unfolding executionRecordKey_def f by (rule refl)
  show l: "lists_key env (stem r) = lists_key env r" by (rule ext) (simp add: lists_key_def k)
  show mu: "mutations_of env j (stem r) = mutations_of env j r" by (simp add: mutations_of_def m)
  then show "latest_mutation env j (stem r) = latest_mutation env j r" by (simp add: latest_mutation_def)
  show o: "er_ownership (stem r) = er_ownership r" and "er_recordRef (stem r) = er_recordRef r" by (simp_all add: stem_def)
  show s: "shows_undone env (stem r) = shows_undone env r" by (intro ext) (simp add: shows_undone_def f o k l c)
  show lc: "last_change env j (stem r) = last_change env j r" by (rule ext) (simp add: last_change_def m)
  show "proves_undone env j (stem r) = proves_undone env j r" by (rule ext) (simp add: proves_undone_def lc s l)
qed

lemma undone_stem: "stem r = stem s \<Longrightarrow> proves_undone env j r = proves_undone env j s"
  by (metis stem_reads(9))

lemma undone_rest: "jn_writes d = jn_writes j \<Longrightarrow> jn_reads d = jn_reads j \<Longrightarrow> proves_undone env d r p = proves_undone env j r p"
  by (simp add: proves_undone_def last_change_def)

definition cleanup_proof :: "journal_env \<Rightarrow> execution_journal \<Rightarrow> journal_record \<Rightarrow> cleanup_confirmation option" where
  "cleanup_proof env j r = (case latest_mutation env j r of None \<Rightarrow> None
     | Some w \<Rightarrow> map_option (confirmation_of r w) (cleanup_read env j (check_retained env j r) w))"

lemma cleanup_proof_undone:
  assumes "cleanup_proof env j r = Some p"
  shows "proves_undone env j r p" and "truthy (er_recordRef r) \<Longrightarrow> er_recordRef r = Some (cc_recordRef p)"
proof -
  obtain w x where w: "latest_mutation env j r = Some w" "cleanup_read env j (check_retained env j r) w = Some x" "p = confirmation_of r w x"
    using assms by (auto simp: cleanup_proof_def split: option.splits)
  have "latest_mutation env j (check_retained env j r) = Some w"
    using w(1) stem_reads(6) [of env j r] stem_reads(6) [of env j "check_retained env j r"] by simp
  from cleanup_read_undone [OF this w(2)] have "proves_undone env j r (confirmation_of (check_retained env j r) w x)"
    using undone_stem [of "check_retained env j r" r] by simp
  then show "proves_undone env j r p" by (simp add: proves_undone_def w(3) confirmation_of_def)
  show "er_recordRef r = Some (cc_recordRef p)" if "truthy (er_recordRef r)"
    using that by (cases "er_recordRef r") (auto simp: w(3) confirmation_of_def)
qed

text \<open>What the check of one record does to the confirmations, and when it leaves the record completed.\<close>

lemma reconcile_record_snd:
  assumes "truthy (er_recordRef r)"
  shows "snd (reconcile_record env j (rs, ps) r) = (if er_cleanup r = None then ps else case cleanup_proof env j r of
     None \<Rightarrow> filter (\<lambda>p. Some (cc_recordRef p) \<noteq> er_recordRef r \<or> cc_source p = Some UI_SOURCE) ps
   | Some p \<Rightarrow> filter (\<lambda>p. Some (cc_recordRef p) \<noteq> er_recordRef r) ps @ [p])"
proof -
  have "confirmation_of (check_retained env j r) w x = confirmation_of r w x" for w x
    by (simp add: confirmation_of_def check_retained_def)
  then show ?thesis using assms
    by (simp add: reconcile_record_def cleanup_proof_def Let_def split: option.splits)
qed

lemma reconcile_record_completed:
  assumes "truthy (er_recordRef r)" and "has_status CLEANUP_COMPLETED (checked env j ps r)" and "latest_mutation env j r \<noteq> None"
  shows "\<exists>p\<in>set (snd (reconcile_record env j (rs, ps) r)). er_recordRef r = Some (cc_recordRef p)"
proof (cases "cleanup_proof env j r")
  case (Some p)
  have "er_cleanup (checked env j ps r) \<noteq> None" using assms(2) by (rule has_status_cleanup)
  then have "er_cleanup r \<noteq> None" using core_fields(11) [of "checked env j ps r" r] by simp
  then show ?thesis using Some assms(1) cleanup_proof_undone(2) [OF Some] by (auto simp: reconcile_record_snd)
next
  case None
  then show ?thesis using assms
    by (auto simp: checked_def reconcile_record_def cleanup_proof_def Let_def has_status_def cleanup_pending_def list_ex_iff
        split: option.splits if_splits)
qed

text \<open>The same for all records.\<close>

abbreviation owns :: "journal_record \<Rightarrow> cleanup_confirmation \<Rightarrow> bool" where
  "owns r p \<equiv> er_recordRef r = Some (cc_recordRef p) \<and> er_cleanup r \<noteq> None"

lemma reconcile_proofs:
  assumes "\<forall>r\<in>set xs. truthy (er_recordRef r)" and "distinct (map cc_recordRef ps)"
  shows "distinct (map cc_recordRef (snd (foldl (reconcile_record env j) ([], ps) xs)))
    \<and> (\<forall>p\<in>set (snd (foldl (reconcile_record env j) ([], ps) xs)). p \<in> set ps \<or> (\<exists>r\<in>set xs. owns r p))
    \<and> (\<forall>p\<in>set (snd (foldl (reconcile_record env j) ([], ps) xs)). cc_source p \<noteq> Some UI_SOURCE \<and> (\<exists>r\<in>set xs. owns r p) \<longrightarrow> (\<exists>r\<in>set xs. owns r p \<and> proves_undone env j r p))"
  using assms
proof (induction xs rule: rev_induct)
  case (snoc r xs)
  obtain rs qs where a: "foldl (reconcile_record env j) ([], ps) xs = (rs, qs)" by (cases "foldl (reconcile_record env j) ([], ps) xs")
  note IH = snoc.IH [unfolded a, simplified]
  have r: "truthy (er_recordRef r)" and xs: "\<forall>r\<in>set xs. truthy (er_recordRef r)" using snoc.prems by auto
  note IH = IH [OF xs snoc.prems(2)]
  let ?qs = "snd (reconcile_record env j (rs, qs) r)"
  have e: "snd (foldl (reconcile_record env j) ([], ps) (xs @ [r])) = ?qs" by (simp add: a)
  consider (Keep) "er_cleanup r = None" "?qs = qs"
    | (Drop) "er_cleanup r \<noteq> None" "?qs = filter (\<lambda>p. Some (cc_recordRef p) \<noteq> er_recordRef r \<or> cc_source p = Some UI_SOURCE) qs"
    | (Proof) p where "er_cleanup r \<noteq> None" "?qs = filter (\<lambda>p. Some (cc_recordRef p) \<noteq> er_recordRef r) qs @ [p]"
      "proves_undone env j r p" "er_recordRef r = Some (cc_recordRef p)"
    using reconcile_record_snd [OF r, of env j rs qs] cleanup_proof_undone [of env j r] r
    by (cases "er_cleanup r"; cases "cleanup_proof env j r") auto
  then show ?case
  proof cases
    case Keep
    then show ?thesis using IH by (auto simp: a)
  next
    case Drop
    have "distinct (map cc_recordRef ?qs)" using IH unfolding Drop(2) by (simp add: distinct_map inj_on_def)
    then show ?thesis using IH Drop by (auto simp: a)
  next
    case (Proof p)
    have "distinct (map cc_recordRef ?qs)" using IH Proof(4) unfolding Proof(2) by (auto simp: distinct_map inj_on_def)
    moreover have "\<forall>q\<in>set ?qs. q \<in> set ps \<or> (\<exists>x\<in>set (xs @ [r]). owns x q)"
      using IH Proof by auto
    moreover have "\<forall>q\<in>set ?qs. cc_source q \<noteq> Some UI_SOURCE \<and> (\<exists>x\<in>set (xs @ [r]). owns x q)
        \<longrightarrow> (\<exists>x\<in>set (xs @ [r]). owns x q \<and> proves_undone env j x q)"
    proof (intro ballI impI, elim conjE bexE)
      fix q x
      assume q: "q \<in> set ?qs" "cc_source q \<noteq> Some UI_SOURCE" and x: "x \<in> set (xs @ [r])"
        "er_recordRef x = Some (cc_recordRef q)" "er_cleanup x \<noteq> None"
      show "\<exists>x\<in>set (xs @ [r]). owns x q \<and> proves_undone env j x q"
      proof (cases "q = p")
        case False
        then have "q \<in> set qs" "cc_recordRef q \<noteq> cc_recordRef p" using q(1) Proof by auto
        moreover then have "x \<in> set xs" using x Proof(4) by auto
        ultimately have "\<exists>x\<in>set xs. owns x q \<and> proves_undone env j x q"
          using IH [THEN conjunct2, THEN conjunct2] q(2) x(2,3) by blast
        then show ?thesis by auto
      qed (use Proof in auto)
    qed
    ultimately show ?thesis unfolding e by (intro conjI)
  qed
qed simp

lemma reconcile_completed:
  assumes "\<forall>r\<in>set xs. truthy (er_recordRef r)" and "distinct (map er_recordRef xs)"
  shows "\<forall>r\<in>set (fst (foldl (reconcile_record env j) ([], ps) xs)). has_status CLEANUP_COMPLETED r \<and> latest_mutation env j r \<noteq> None
    \<longrightarrow> (\<exists>p\<in>set (snd (foldl (reconcile_record env j) ([], ps) xs)). er_recordRef r = Some (cc_recordRef p))"
  using assms
proof (induction xs rule: rev_induct)
  case (snoc r xs)
  obtain rs qs where a: "foldl (reconcile_record env j) ([], ps) xs = (rs, qs)" by (cases "foldl (reconcile_record env j) ([], ps) xs")
  have r: "truthy (er_recordRef r)" using snoc.prems by simp
  have "map stem rs = map stem xs" using reconcile_fold [of env j "[]" ps xs] a by simp
  then have "map er_recordRef rs = map er_recordRef xs"
    by (metis (no_types, lifting) list.map_comp map_cong stem_reads(10) comp_apply)
  then have other: "er_recordRef x \<noteq> er_recordRef r" if "x \<in> set rs" for x
  proof -
    have "er_recordRef x \<in> set (map er_recordRef xs)"
      using that \<open>map er_recordRef rs = map er_recordRef xs\<close> by (metis image_eqI list.set_map)
    then show ?thesis using snoc.prems(2) by auto
  qed
  let ?qs = "snd (reconcile_record env j (rs, qs) r)"
  have keep: "\<exists>p\<in>set ?qs. er_recordRef x = Some (cc_recordRef p)"
    if x: "x \<in> set rs" "p \<in> set qs" "er_recordRef x = Some (cc_recordRef p)" for x p
    using x other [OF x(1)] by (auto simp: reconcile_record_snd [OF r] split: option.splits)
  have new: "\<exists>p\<in>set ?qs. er_recordRef (checked env j qs r) = Some (cc_recordRef p)"
    if "has_status CLEANUP_COMPLETED (checked env j qs r)" "latest_mutation env j (checked env j qs r) \<noteq> None"
  proof -
    have s: "stem (checked env j qs r) = stem r" by simp
    then have "latest_mutation env j r \<noteq> None" using that(2) by (metis stem_reads(6))
    from reconcile_record_completed [OF r that(1) this] show ?thesis using stem_fields(3) [OF s] by simp
  qed
  show ?case using snoc keep new by (fastforce simp: a reconcile_record_fst)
qed simp

section \<open>What holds of every journal\<close>

definition proved :: "journal_env \<Rightarrow> execution_journal \<Rightarrow> bool" where
  "proved env j \<longleftrightarrow> (\<forall>p\<in>from_network j. \<exists>r\<in>set (jn_records j). owns r p \<and> proves_undone env j r p)"

definition attested :: "journal_env \<Rightarrow> execution_journal \<Rightarrow> bool" where
  "attested env j \<longleftrightarrow> (distinct (map er_recordRef (jn_records j)) \<longrightarrow> evidenced (\<lambda>r. latest_mutation env j r \<noteq> None) j)"

lemma shape_index:
  assumes "shape j' = shape j" and "r \<in> set (jn_records j)"
  shows "\<exists>r'\<in>set (jn_records j'). core r' = core r \<and> stem r' = stem r"
proof -
  obtain i where i: "i < length (jn_records j)" "r = jn_records j ! i" using assms(2) by (auto simp: in_set_conv_nth)
  have e: "map core (jn_records j') = map core (jn_records j)" "map stem (jn_records j') = map stem (jn_records j)"
    using assms(1) by (simp_all add: shape_def cores_def)
  have l: "i < length (jn_records j')" using i(1) map_eq_imp_length_eq [OF e(1)] by simp
  then have "core (jn_records j' ! i) = core r" "stem (jn_records j' ! i) = stem r"
    using i e by (metis nth_map)+
  with l show ?thesis by auto
qed

lemma shape_refs: "shape j' = shape j \<Longrightarrow> map er_recordRef (jn_records j') = map er_recordRef (jn_records j)"
proof -
  assume "shape j' = shape j"
  then have "map stem (jn_records j') = map stem (jn_records j)" by (simp add: shape_def)
  then have "map er_recordRef (map stem (jn_records j')) = map er_recordRef (map stem (jn_records j))" by simp
  then show ?thesis by (simp add: comp_def)
qed

lemma owns_cores: "tracked j \<Longrightarrow> p \<in> set (jn_confirmations j) \<Longrightarrow> \<exists>r\<in>set (jn_records j). owns r p"
proof -
  assume "tracked j" "p \<in> set (jn_confirmations j)"
  then obtain c where "c \<in> set (cores j)" "er_recordRef (fst c) = Some (cc_recordRef p)" "\<not> snd c" by (auto simp: tracked_def)
  then show ?thesis by (auto simp: cores_def)
qed

lemma proved_shape:
  assumes "shape d = shape j" and "jn_writes d = jn_writes j" and "jn_reads d = jn_reads j"
    and "\<forall>p\<in>from_network d. \<exists>r\<in>set (jn_records j). owns r p \<and> proves_undone env j r p"
  shows "proved env d"
  unfolding proved_def
proof
  fix p
  assume "p \<in> from_network d"
  then obtain r where r: "r \<in> set (jn_records j)" "owns r p" "proves_undone env j r p" using assms(4) by blast
  obtain s where s: "s \<in> set (jn_records d)" "core s = core r" "stem s = stem r" using shape_index [OF assms(1) r(1)] by auto
  have "owns s p" using r(2) core_fields [OF s(2)] by simp
  moreover have "proves_undone env d s p" using r(3) undone_stem [OF s(3)] undone_rest [OF assms(2,3)] by simp
  ultimately show "\<exists>r\<in>set (jn_records d). owns r p \<and> proves_undone env d r p" using s(1) by blast
qed

lemma latest_mutation_writes: "jn_writes d = jn_writes j \<Longrightarrow> latest_mutation env d r = latest_mutation env j r"
  by (simp add: latest_mutation_def mutations_of_def)

lemma reconcile_shape [simp]: "shape (reconcileCleanup env j) = shape j"
  by (simp add: shape_def)

lemma after_reconcile:
  assumes "tracked j"
  shows "tracked (reconcileCleanup env j) \<and> proved env (reconcileCleanup env j) \<and> attested env (reconcileCleanup env j)"
proof -
  let ?d = "reconcileCleanup env j" and ?acc = "foldl (reconcile_record env j) ([], jn_confirmations j) (jn_records j)"
  have refs: "\<forall>r\<in>set (jn_records j). truthy (er_recordRef r)" and dist: "distinct (map cc_recordRef (jn_confirmations j))"
    using assms tracked_ref by (auto simp: tracked_def)
  have d: "jn_confirmations ?d = snd ?acc" "jn_records ?d = fst ?acc" by (simp_all add: reconcileCleanup_def Let_def)
  note R = reconcile_proofs [OF refs dist, of env j]
  have own: "\<exists>r\<in>set (jn_records j). owns r p" if "p \<in> set (snd ?acc)" for p
    using R that owns_cores [OF assms] by blast
  have owned: "\<forall>p\<in>set (jn_confirmations ?d). \<exists>c\<in>set (cores ?d). er_recordRef (fst c) = Some (cc_recordRef p) \<and> \<not> snd c"
  proof
    fix p
    assume "p \<in> set (jn_confirmations ?d)"
    then obtain r where "r \<in> set (jn_records j)" "owns r p" using own [of p] unfolding d(1) by blast
    then show "\<exists>c\<in>set (cores ?d). er_recordRef (fst c) = Some (cc_recordRef p) \<and> \<not> snd c"
      by (intro bexI [of _ "core r"]) (simp_all add: cores_def [of j])
  qed
  have "distinct (map cc_recordRef (jn_confirmations ?d))" using R by (simp add: d)
  then have t: "tracked ?d" using owned assms by (simp add: tracked_def)
  have p: "proved env ?d"
    by (rule proved_shape [of _ j]) (use R own in \<open>auto simp: from_network_def d\<close>)
  have "attested env ?d" unfolding attested_def
  proof
    assume "distinct (map er_recordRef (jn_records ?d))"
    then have "distinct (map er_recordRef (jn_records j))" using shape_refs [of ?d j] by simp
    from reconcile_completed [OF refs this, of env j "jn_confirmations j"]
    show "evidenced (\<lambda>r. latest_mutation env ?d r \<noteq> None) ?d"
      by (simp add: evidenced_def d latest_mutation_writes [of ?d j])
  qed
  with t p show ?thesis by simp
qed

lemma after_page:
  assumes "tracked j" and "watched j" and "proved env j" and "attested env j"
  shows "tracked (note_page env page ev j) \<and> proved env (note_page env page ev j) \<and> attested env (note_page env page ev j)"
proof (cases page)
  case (Some p)
  let ?Q = "\<lambda>r. distinct (map er_recordRef (jn_records j)) \<and> latest_mutation env j r \<noteq> None"
  let ?d = "observeUi env p ev (jn_pendingUiRead j) j"
  have k: "ui_kept ?Q j ?d"
    by (rule observeUi_kept) (use assms in \<open>auto simp: attested_def evidenced_def\<close>)
  then have s: "shape ?d = shape j" and w: "jn_writes ?d = jn_writes j" "jn_reads ?d = jn_reads j"
    using rest_fields [of ?d j] by (auto simp: ui_kept_def)
  have "proved env ?d"
    by (rule proved_shape [OF s w]) (use assms(3) k in \<open>auto simp: proved_def ui_kept_def\<close>)
  moreover have "attested env ?d"
    using k by (simp add: attested_def evidenced_def ui_kept_def shape_refs [OF s] latest_mutation_writes [OF w(1)])
  moreover have "tracked ?d" using k by (simp add: ui_kept_def)
  ultimately show ?thesis
    by (simp add: note_page_def Some tracked_def proved_def attested_def evidenced_def from_network_def proves_undone_def
        last_change_def latest_mutation_def mutations_of_def)
qed (use assms in \<open>simp add: note_page_def\<close>)

section \<open>What the operations keep\<close>

text \<open>Once something was submitted, the execution is past its preflight.\<close>

definition started :: "execution_journal \<Rightarrow> bool" where
  "started j \<longleftrightarrow> (jn_writes j \<noteq> [] \<longrightarrow> jn_phase j \<noteq> PREFLIGHT)"

definition sound :: "execution_journal \<Rightarrow> bool" where
  "sound j \<longleftrightarrow> tracked j \<and> watched j \<and> started j"

lemma tracked_same: "tracked j \<Longrightarrow> cores j' = cores j \<Longrightarrow> jn_confirmations j' = jn_confirmations j \<Longrightarrow> tracked j'"
  by (simp add: tracked_def)

lemma invalidate_sound [simp]: "sound j \<Longrightarrow> sound (invalidateUiConfirmations ref j)"
  using tracked_filter [of j "invalidateUiConfirmations ref j"] by (auto simp: sound_def watched_def started_def)

lemma absence_fields [simp]:
  "sound j \<Longrightarrow> sound (add_absence k j)" "sound j \<Longrightarrow> sound (add_existing k j)"
  by (auto simp: sound_def add_absence_def add_existing_def tracked_def watched_def started_def)

lemma order_sound: "sound j \<Longrightarrow> sound (note_order k j)"
  by (auto simp: sound_def note_order_def tracked_def watched_def started_def)

lemma record_absence_sound: "sound j \<Longrightarrow> sound (record_absence env ev q j)"
  by (auto simp: record_absence_def split: option.splits)

lemma infer_absence:
  "inferCreationAbsence env w j = j \<or> (\<exists>k. inferCreationAbsence env w j = add_absence k j)"
  by (auto simp: inferCreationAbsence_def Let_def split: option.splits js.splits)

lemma drop_absence_sound: "sound j \<Longrightarrow> sound (drop_absence env q j)"
  by (auto simp: sound_def drop_absence_def Let_def tracked_def watched_def started_def intro: le_trans [OF length_filter_le])

lemma put_receipt_shape:
  "tracked j \<Longrightarrow> tracked (put_receipt new j)" "watched (put_receipt new j) = watched j"
proof -
  have i: "tracked j \<Longrightarrow> tracked (invalidateUiConfirmations None (j\<lparr>jn_writes := ws\<rparr>))" for ws
    by (rule tracked_filter [of j]) simp_all
  show "tracked j \<Longrightarrow> tracked (put_receipt new j)"
    using i by (auto simp: put_receipt_def Let_def intro: tracked_same split: option.splits)
qed (auto simp: put_receipt_def Let_def watched_def split: option.splits)

lemma write_sound:
  assumes "sound j"
  shows "sound (record_write env k s ev label q j)"
proof (cases "mutation_method (nq_method q)")
  case (Some m)
  define j1 where "j1 = put_receipt (receipt_of env k s ev (if m = POST then label else None) m q) j"
  define j2 where "j2 = (case List.find (\<lambda>w. wr_key w = k) (jn_writes j1) of None \<Rightarrow> j1 | Some w \<Rightarrow> inferCreationAbsence env w j1)"
  have "j2 = j1 \<or> (\<exists>x. j2 = add_absence x j1)" using infer_absence by (auto simp: j2_def split: option.splits)
  moreover have "tracked j1" "watched j1"
    using assms put_receipt_shape [where j = j] by (auto simp: sound_def j1_def)
  ultimately have "tracked j2" "watched j2" by (auto simp: add_absence_def tracked_def watched_def)
  then show ?thesis
    by (auto simp: record_write_def Some Let_def j1_def [symmetric] j2_def [symmetric] trim_writes_def sound_def tracked_def
        watched_def started_def assms [unfolded sound_def tracked_def watched_def started_def])
qed (use assms in \<open>simp add: record_write_def\<close>)

lemma read_sound:
  assumes "sound j"
  shows "sound (record_read env k s ev q j)"
proof -
  have i: "sound (foldl (\<lambda>d x. if state_differs env r x then invalidateUiConfirmations (er_recordRef x) d else d) j xs)" for r xs
    by (rule foldl_keeps) (use assms in simp_all)
  have "sound (d\<lparr>jn_reads := rs\<rparr>)" if "sound d" for d rs
    using that by (simp add: sound_def tracked_def watched_def started_def)
  then show ?thesis using i assms by (simp add: record_read_def Let_def)
qed

lemma candidate_sound:
  assumes "sound j"
  shows "sound (observe_candidate env k s ev q found j v)"
proof -
  have learn: "sound (learn_aliases a d)" if "sound d" for a d
    using that by (auto simp: learn_aliases_def Let_def sound_def tracked_def watched_def started_def split: option.splits)
  have see: "sound (d\<lparr>jn_records := update_first P (\<lambda>r. r\<lparr>jr_currentState := st\<rparr>) (jn_records d)\<rparr>)" if "sound d" for P st d
    using that by (simp add: sound_def tracked_def watched_def started_def)
  have base: "sound (note_baseline env (observed_baseline env k s ev q v) d)" if "sound d" for d
    using that by (auto simp: note_baseline_def observed_baseline_def plain_record_def Let_def sound_def tracked_def watched_def
        started_def)
  have pend: "sound (put_pending env p d)" if "sound d" for p d
    using that by (auto simp: put_pending_def sound_def tracked_def watched_def started_def)
  have place: "sound (place_record env ev q found v d)" if "sound d" for d
    using that pend by (auto simp: place_record_def Let_def split: option.splits)
  show ?thesis using assms by (auto simp: observe_candidate_def Let_def intro!: place base learn see)
qed

lemma request_sound:
  assumes "sound j"
  shows "sound (observe_request env c ev label j q)"
proof -
  have cands: "sound (foldl (observe_candidate env k s ev q found) d found)" if "sound d" for k s found d
    by (rule foldl_keeps) (use that candidate_sound in auto)
  then show ?thesis
    using assms by (auto simp: observe_request_def Let_def intro!: cands drop_absence_sound write_sound record_absence_sound order_sound read_sound)
qed

section \<open>Settling what was observed\<close>

lemma settle_sound:
  assumes "sound j"
  shows "sound (settle_all_pending env j)"
proof -
  have keep: "sound (d\<lparr>jn_pending := ps\<rparr>)" if "sound d" for d ps
    using that by (simp add: sound_def tracked_def watched_def started_def)
  have new: "sound (d\<lparr>jn_records := jn_records d @ [created_record env p w]\<rparr>)" if "sound d" for d p w
    using that by (auto simp: sound_def tracked_def watched_def started_def created_record_def Let_def)
  have "sound (foldl (settle_pending env) (j\<lparr>jn_pending := []\<rparr>) ps)" for ps
  proof (rule foldl_keeps)
    show "sound (settle_pending env d p)" if "sound d" for d p
      using that keep new by (auto simp: settle_pending_def Let_def split: option.split)
  qed (use assms keep in blast)
  then show ?thesis by (simp add: settle_all_pending_def)
qed

lemma named_sound:
  assumes "sound j"
  shows "sound (reconcileNamedResources env j)"
proof -
  have see: "sound (d\<lparr>jn_records := update_first P (see_named env d r n) (jn_records d)\<rparr>)" if "sound d" for P d r n
    using that by (simp add: sound_def tracked_def watched_def started_def)
  have new: "sound (d\<lparr>jn_records := jn_records d @ [created_named env r item w st]\<rparr>)" if "sound d" for d r item w st
    using that by (auto simp: sound_def tracked_def watched_def started_def created_named_def)
  have base: "sound (add_existing k (d\<lparr>jn_observed := jn_observed d @ [named_baseline env r item st]\<rparr>))" if "sound d" for d r item st k
    by (rule absence_fields(2)) (use that in \<open>auto simp: sound_def tracked_def watched_def started_def named_baseline_def
        named_identity_def plain_record_def\<close>)
  have one: "sound (reconcile_named env r d item)" if "sound d" for d r item
    using that see base new by (auto simp: reconcile_named_def Let_def split: list.splits option.splits)
  have "sound (foldl (\<lambda>d r. foldl (reconcile_named env r) d (jd_namedResources r)) j rs)" for rs
    by (rule foldl_keeps, rule assms, rule foldl_keeps, assumption, rule one)
  then show ?thesis using assms by (simp add: reconcileNamedResources_def)
qed

lemma register_sound:
  assumes "sound j"
  shows "sound (registerObservedMutations env j)"
proof -
  have "sound (register_mutation env d w)" if d: "sound d" for d w
  proof (cases "filter (\<lambda>r. matches env w r \<and> baselinePrecedesWrites env d r) (jn_observed d)")
    case (Cons b bs)
    then have "b \<in> set (jn_observed d)" by (metis filter_eq_ConsD append.assoc in_set_conv_decomp)
    then have "truthy (er_recordRef b)" using d by (auto simp: sound_def watched_def)
    then show ?thesis
      using d Cons by (auto simp: register_mutation_def sound_def tracked_def watched_def started_def split: list.splits)
  qed (use d in \<open>simp add: register_mutation_def\<close>)
  then have "sound (foldl (register_mutation env) j ws)" for ws by (rule foldl_keeps [where P = sound, OF assms])
  then show ?thesis by (simp add: registerObservedMutations_def)
qed

section \<open>The operations keep the journal right\<close>

text \<open>The invariant: confirmations belong to records and are proved by the writes and reads of the journal.\<close>

definition execution_ok :: "journal_env \<Rightarrow> execution_journal \<Rightarrow> bool" where
  "execution_ok env j \<longleftrightarrow> sound j \<and> proved env j \<and> attested env j"

lemma command_sound: "sound j \<Longrightarrow> sound (note_command output command j)"
  using invalidate_sound [of j None]
  by (auto simp: note_command_def Let_def sound_def tracked_def watched_def started_def split: option.splits)

lemma shape_sound:
  assumes "sound j" and "shape d = shape j" and "rest d = rest j" and "tracked d"
  shows "sound d"
proof -
  have "cores d = cores j" using assms(2) by (simp add: shape_def)
  then show ?thesis
    using assms watched_shape [OF assms(2)] shape_length [OF assms(2)] rest_fields [OF assms(3)]
    by (simp add: sound_def started_def)
qed

lemma reconcile_rest: "rest (reconcileCleanup env j) = rest j"
  by (simp add: rest_def reconcileCleanup_def Let_def)

lemma reconciled_ok: "sound j \<Longrightarrow> execution_ok env (reconcileCleanup env j)"
  using after_reconcile [of j env] shape_sound [OF _ reconcile_shape reconcile_rest, of j env]
  by (simp add: execution_ok_def sound_def)

lemma page_sound:
  assumes "sound j"
  shows "sound (note_page env page ev j)"
proof (cases page)
  case (Some p)
  have "ui_kept (\<lambda>_. False) j (observeUi env p ev (jn_pendingUiRead j) j)"
    by (rule observeUi_kept) (use assms in \<open>auto simp: sound_def evidenced_def\<close>)
  then have "sound (observeUi env p ev (jn_pendingUiRead j) j)" using shape_sound [OF assms] by (simp add: ui_kept_def)
  then show ?thesis by (simp add: note_page_def Some sound_def tracked_def watched_def started_def)
qed (use assms in \<open>simp add: note_page_def\<close>)

lemma page_ok: "execution_ok env j \<Longrightarrow> execution_ok env (note_page env page ev j)"
  using after_page [of j env page ev] page_sound [of j env page ev] by (auto simp: execution_ok_def sound_def)

lemma review_ok:
  assumes "execution_ok env j"
  shows "execution_ok env (reconcileReview env j)"
proof -
  let ?d = "reconcileReview env j"
  have "from_network ?d = from_network j" "proves_undone env ?d = proves_undone env j" "latest_mutation env ?d = latest_mutation env j"
    by (auto simp: from_network_def fun_eq_iff undone_rest [of ?d j] latest_mutation_writes [of ?d j])
  then show ?thesis using assms
    by (simp add: execution_ok_def sound_def tracked_def watched_def started_def proved_def attested_def evidenced_def)
qed

text \<open>The journal after the requests of an output, and after what follows from them.\<close>

definition after_requests :: "journal_env \<Rightarrow> js \<Rightarrow> string list \<Rightarrow> browser_command option \<Rightarrow> execution_journal \<Rightarrow> execution_journal" where
  "after_requests env output known command j = (let j1 = note_command output command j in
     foldl (observe_request env (js_prop (feedback_of output) ''commandId'') (evidence_refs_of known output) (submittedTypeLabel j1)) j1
       (requests_of env output))"

definition settled :: "journal_env \<Rightarrow> execution_journal \<Rightarrow> execution_journal" where
  "settled env j = registerObservedMutations env (reconcileNamedResources env (settle_all_pending env j))"

lemma observe_alt: "observe env output known command page j =
  reconcileReview env (note_page env page (evidence_refs_of known output)
    (reconcileCleanup env (settled env (after_requests env output known command j))))"
  by (simp add: observe_def after_requests_def settled_def Let_def)

lemma requests_sound:
  assumes "sound j"
  shows "sound (after_requests env output known command j)"
proof -
  have "sound (foldl (observe_request env c (evidence_refs_of known output) label) d (requests_of env output))" if "sound d" for d c label
    by (rule foldl_keeps) (use that request_sound in auto)
  then show ?thesis using assms by (simp add: after_requests_def Let_def command_sound)
qed

lemma settled_sound: "sound j \<Longrightarrow> sound (settled env j)"
  by (simp add: settled_def settle_sound named_sound register_sound)

lemma observe_ok:
  assumes "sound j"
  shows "execution_ok env (observe env output known command page j)"
  unfolding observe_alt using assms by (intro review_ok page_ok reconciled_ok settled_sound requests_sound)

lemma block_ok:
  assumes "execution_ok env j"
  shows "execution_ok env (blockCleanup env note j)"
proof -
  let ?f = "\<lambda>r. if has_status CLEANUP_PENDING r
    then r\<lparr>er_cleanup := map_option (\<lambda>c. c\<lparr>rc_status := CLEANUP_BLOCKED\<rparr>) (er_cleanup r), jr_noted := \<not> js_blank note\<rparr> else r"
  define d where "d = j\<lparr>jn_phase := CLEANUP_PHASE, jn_records := map ?f (jn_records j)\<rparr>"
  have f: "core (?f r) = core r" "stem (?f r) = stem r" for r by (simp_all add: core_cleanup)
  have stay: "has_status CLEANUP_COMPLETED r" if "has_status CLEANUP_COMPLETED (?f r)" for r
    using that by (cases "er_cleanup r") (auto simp: has_status_def split: if_splits)
  have c: "cores d = cores j" using f by (simp add: d_def cores_def)
  then have s: "shape d = shape j" using f by (simp add: shape_def d_def comp_def)
  have w: "jn_writes d = jn_writes j" "jn_reads d = jn_reads j" "jn_confirmations d = jn_confirmations j" by (simp_all add: d_def)
  have "sound d" using assms c
    by (simp add: execution_ok_def sound_def tracked_def watched_def started_def d_def)
  moreover have "proved env d"
    by (rule proved_shape [OF s w(1,2)]) (use assms w(3) in \<open>simp add: execution_ok_def proved_def from_network_def\<close>)
  moreover have "attested env d"
    unfolding attested_def evidenced_def
  proof (intro impI ballI)
    fix r
    assume dist: "distinct (map er_recordRef (jn_records d))" and r: "r \<in> set (jn_records d)"
      and m: "has_status CLEANUP_COMPLETED r \<and> latest_mutation env d (stem r) \<noteq> None"
    obtain r0 where r0: "r0 \<in> set (jn_records j)" "r = ?f r0" using r by (auto simp: d_def)
    have "distinct (map er_recordRef (jn_records j))" using dist shape_refs [OF s] by simp
    moreover have "has_status CLEANUP_COMPLETED r0" using stay m r0(2) by blast
    moreover have "latest_mutation env j (stem r0) \<noteq> None" using m f(2) [of r0] r0(2) latest_mutation_writes [OF w(1)] by auto
    ultimately obtain p where "p \<in> set (jn_confirmations j)" "er_recordRef r0 = Some (cc_recordRef p)"
      using assms r0(1) by (auto simp: execution_ok_def attested_def evidenced_def)
    moreover have "er_recordRef r = er_recordRef r0" using r0(2) core_fields(3) [OF f(1)] by simp
    ultimately show "\<exists>p\<in>set (jn_confirmations d). er_recordRef r = Some (cc_recordRef p)" using w(3) by auto
  qed
  ultimately have ok: "execution_ok env d" by (simp add: execution_ok_def)
  have "execution_ok env (d\<lparr>jn_review := v\<rparr>)" for v
    using ok by (simp add: execution_ok_def sound_def tracked_def watched_def started_def proved_def attested_def
        evidenced_def from_network_def proves_undone_def last_change_def latest_mutation_def mutations_of_def)
  with ok show ?thesis by (simp add: blockCleanup_def Let_def d_def)
qed

end
