(* ===== verification/JournalStatements.thy ===== *)
theory JournalStatements
  imports JournalSound
begin

text \<open>
  What a statement of the model may do to a journal: it keeps every record it does not add, what it adds as created is a
  record the page shows, and the invariant of \<open>JournalSound\<close> holds after it, accepted or not.
\<close>

lemma last_n_empty [simp]: "last_n n xs = [] \<longleftrightarrow> n = 0 \<or> xs = []"
  by (cases xs) (auto simp: last_n_def)

lemma refs_within_last [simp]: "refs_within (last_n 20 (js_uniq xs)) \<longleftrightarrow> xs \<noteq> []"
  by (simp add: refs_within_def js_uniq_def)

lemma filter_head: "filter P xs = x # ys \<Longrightarrow> x \<in> set xs \<and> P x"
  by (metis filter_eq_ConsD in_set_conv_decomp)

section \<open>A statement of the model keeps the records\<close>

text \<open>The page shows the created record with the account and the type as they were submitted.\<close>

definition shown :: "execution_journal \<Rightarrow> journal_record \<Rightarrow> journal_write \<Rightarrow> bool" where
  "shown j r w \<longleftrightarrow> (case (jn_ui j, jw_uiTypeLabel w, er_account r) of
     (Some page, Some label, Some account) \<Rightarrow>
       list_ex (\<lambda>vs. er_id r \<in> set vs \<and> account \<in> set vs \<and> label \<in> set vs) (row_texts (cp_observation page))
   | _ \<Rightarrow> False)"

definition ui_founded :: "execution_journal \<Rightarrow> journal_env \<Rightarrow> journal_record \<Rightarrow> bool" where
  "ui_founded j env r \<longleftrightarrow> truthy (er_recordRef r) \<and> er_ownership r = CREATED_THIS_RUN \<and> has_status CLEANUP_PENDING r \<and> record_within r
     \<and> (\<exists>w\<in>set (jn_writes j). created_by env w r \<and> shown j r w)"

lemma created_ui_founded:
  assumes "createdUiRecord env j c = Some r"
  shows "ui_founded j env r"
proof -
  obtain page i w s where p: "jn_ui j = Some page" "dl_id c = Some i" "jn_uiRefs j \<noteq> []" and w: "w \<in> set (jn_writes j)" "ui_creation env j page c i w = Some s"
    and r: "r = ui_created_record env j i w s"
    using assms by (auto simp: createdUiRecord_def split: option.splits if_splits dest!: find_SomeD)
  obtain label account type where s: "s = (label, account, type)" by (cases s)
  have u: "wr_method w = POST" "wr_confirmed w" "succeeded env w" "jw_uiTypeLabel w = Some label"
    "js_prop (request_of env w) ''account'' = JStr account" "js_prop (request_of env w) ''type'' = JStr type"
    "length (filter (\<lambda>vs. i \<in> set vs \<and> account \<in> set vs \<and> label \<in> set vs) (row_texts (cp_observation page))) = 1"
    using w(2) by (auto simp: ui_creation_def s split: option.splits js.splits if_splits)
  then obtain vs where "vs \<in> set (row_texts (cp_observation page))" "i \<in> set vs" "account \<in> set vs" "label \<in> set vs"
    by (auto simp: length_Suc_conv dest!: filter_head)
  then have "shown j r w" by (auto simp: shown_def p(1) u(4) r s ui_created_record_def list_ex_iff)
  moreover have "created_by env w r"
    using u by (simp add: created_by_def r s ui_created_record_def account_of_def opt_js_def)
  moreover have "record_within r" using p(3) by (simp add: r s ui_created_record_def record_within_def plain_record_def)
  ultimately show ?thesis
    using w(1) by (auto simp: ui_founded_def r s ui_created_record_def has_status_def cleanup_pending_def)
qed

text \<open>What no operation changes of a record, and what a statement may not change.\<close>

definition same_identity :: "journal_record \<Rightarrow> journal_record \<Rightarrow> bool" where
  "same_identity r s \<longleftrightarrow> er_id s = er_id r \<and> er_type s = er_type r \<and> er_resourceUrl s = er_resourceUrl r \<and> er_recordRef s = er_recordRef r
     \<and> er_account s = er_account r \<and> er_creationWriteKey s = er_creationWriteKey r
     \<and> set (er_accountAliases s) = set (er_accountAliases r)"

lemma identity_refl [simp]: "same_identity r r"
  by (simp add: same_identity_def)

lemma identity_trans: "same_identity r s \<Longrightarrow> same_identity s t \<Longrightarrow> same_identity r t"
  by (simp add: same_identity_def)

lemma identity_core: "core r = core s \<Longrightarrow> same_identity r s"
  using core_fields [of r s] by (simp add: same_identity_def)

lemma identity_key: "same_identity r s \<Longrightarrow> key_of env s = key_of env r"
  by (simp add: same_identity_def executionRecordKey_def)

lemma identity_created:
  assumes "same_identity r s"
  shows "created_by env w s = created_by env w r" "shown j s w = shown j r w"
proof -
  have "account_of s = account_of r" using assms by (simp add: same_identity_def account_of_def fun_eq_iff)
  then show "created_by env w s = created_by env w r" using assms \<open>account_of s = account_of r\<close> by (simp add: same_identity_def created_by_def split: js.split)
  show "shown j s w = shown j r w" using assms by (simp add: same_identity_def shown_def split: option.split)
qed

definition kept :: "journal_record \<Rightarrow> journal_record \<Rightarrow> bool" where
  "kept r r' \<longleftrightarrow> same_identity r r' \<and> (er_cleanup r \<noteq> None \<longrightarrow> er_cleanup r' \<noteq> None)"

lemma statement_kept_refl [simp]: "kept r r"
  by (simp add: kept_def)

lemma kept_trans: "kept r s \<Longrightarrow> kept s t \<Longrightarrow> kept r t"
  by (auto simp: kept_def intro: identity_trans)

lemma kept_ref: "kept r s \<Longrightarrow> er_recordRef s = er_recordRef r"
  by (simp add: kept_def same_identity_def)

lemma kept_list_refl [simp]: "list_all2 (kept) xs xs"
  by (simp add: list_all2_refl)

lemma kept_list_trans: "list_all2 (kept) xs ys \<Longrightarrow> list_all2 (kept) ys zs \<Longrightarrow> list_all2 (kept) xs zs"
  using list_all2_trans [of kept kept kept] kept_trans by blast

lemma same_members_set:
  assumes "same_members xs ys"
  shows "set xs = set ys"
proof -
  have "(x \<in> set xs) = (x \<in> set ys)" if "x \<in> set xs \<union> set ys" for x
    using assms that count_list_0_iff [of xs x] count_list_0_iff [of ys x] by (auto simp: same_members_def list_all_iff)
  then show ?thesis by blast
qed

definition same_aliases :: "record_delta \<Rightarrow> journal_record \<Rightarrow> bool" where
  "same_aliases c l \<longleftrightarrow> (case dl_accountAliases c of None \<Rightarrow> True | Some xs \<Rightarrow> same_members xs (er_accountAliases l))"

lemma overlaid_fields:
  assumes "overlaid (Some l) c = Some r"
  shows "er_id r = coalesce (dl_id c) (er_id l)" "er_type r = coalesce_opt (dl_type c) (er_type l)"
    "er_recordRef r = coalesce_opt (dl_recordRef c) (er_recordRef l)"
    "er_resourceUrl r = coalesce_opt (dl_resourceUrl c) (er_resourceUrl l)"
    "er_account r = coalesce_opt (dl_account c) (er_account l)" "er_creationWriteKey r = er_creationWriteKey l"
    "er_accountAliases r = coalesce (dl_accountAliases c) (er_accountAliases l)"
    "er_cleanup r = (case dl_cleanup c of None \<Rightarrow> er_cleanup l | Some (s, _) \<Rightarrow> Some \<lparr>rc_status = s, rc_resolution = None\<rparr>)"
  using assms by (auto simp: overlaid_def Let_def split: if_splits)

lemma overlaid_kept:
  assumes "overlaid (Some l) c = Some r" and "\<not> identity_changed c l" and "same_aliases c l"
  shows "kept l r"
proof -
  have id: "coalesce (dl_id c) (er_id l) = er_id l" "coalesce_opt (dl_type c) (er_type l) = er_type l"
    "coalesce_opt (dl_resourceUrl c) (er_resourceUrl l) = er_resourceUrl l" "coalesce_opt (dl_account c) (er_account l) = er_account l"
    "coalesce_opt (dl_recordRef c) (er_recordRef l) = er_recordRef l"
    using assms(2) by (auto simp: identity_changed_def coalesce_def coalesce_opt_def split: option.splits)
  have "set (coalesce (dl_accountAliases c) (er_accountAliases l)) = set (er_accountAliases l)"
    using assms(3) same_members_set by (auto simp: same_aliases_def coalesce_def split: option.splits)
  moreover have "er_cleanup l \<noteq> None \<Longrightarrow> er_cleanup r \<noteq> None" using overlaid_fields(8) [OF assms(1)] by (simp split: option.splits)
  ultimately show ?thesis by (simp add: kept_def same_identity_def overlaid_fields(1-7) [OF assms(1)] id)
qed

lemma overlaid_ref: "overlaid locked c = Some r \<Longrightarrow> er_recordRef r = coalesce_opt (dl_recordRef c) (er_recordRef (coalesce locked plain_record))"
  by (auto simp: overlaid_def Let_def split: if_splits)

lemma retention_kept: "checked_retention env j locked r = Inr r' \<Longrightarrow> kept r r' \<and> er_recordRef r' = er_recordRef r"
  by (auto simp: checked_retention_def kept_def same_identity_def split: if_splits option.splits)

lemma with_ref_kept: "truthy (er_recordRef r) \<Longrightarrow> with_ref env r = r" "er_recordRef r \<noteq> Some [] \<Longrightarrow> truthy (er_recordRef (with_ref env r))"
  by (auto simp: with_ref_def)

lemma update_first_kept:
  "(\<And>x. x \<in> set xs \<Longrightarrow> P x \<Longrightarrow> kept x y) \<Longrightarrow> list_all2 (kept) xs (update_first P (\<lambda>_. y) xs)"
  by (induction xs) auto

text \<open>A statement that is merged changes the records as \<open>kept\<close> allows and adds one record at most, none if it is about a
  known one.\<close>

lemma stated_kept:
  assumes "merge_stated env j merged c = Inr merged'" and "\<forall>r\<in>set merged. truthy (er_recordRef r)"
  shows "(\<forall>r\<in>set merged'. truthy (er_recordRef r))
    \<and> (list_all2 kept merged merged' \<or> filter (is_candidate env c) merged = [] \<and> (\<exists>r. merged' = merged @ [r]))"
proof -
  let ?cands = "filter (is_candidate env c) merged"
  define locked where "locked = (case ?cands of [] \<Rightarrow> None | r # _ \<Rightarrow> Some r)"
  obtain r r' where r: "overlaid locked c = Some r" "checked_retention env j locked r = Inr r'"
    and one: "length ?cands \<le> 1" and same: "case locked of None \<Rightarrow> dl_recordRef c = None | Some l \<Rightarrow> \<not> identity_changed c l \<and> same_aliases c l"
    and m: "merged' = (if locked = None then merged @ [with_ref env r'] else update_first (is_candidate env c) (\<lambda>_. with_ref env r') merged)"
    using assms(1) by (auto simp: merge_stated_def Let_def locked_def [symmetric] same_aliases_def split: if_splits option.splits sum.splits)
  note kr = retention_kept [OF r(2)]
  show ?thesis
  proof (cases locked)
    case None
    then have "er_recordRef r' = None" using overlaid_ref [OF r(1)] kr same by (simp add: plain_record_def)
    then have "truthy (er_recordRef (with_ref env r'))" by (intro with_ref_kept(2)) simp
    moreover have "?cands = []" using None by (simp add: locked_def split: list.splits)
    ultimately show ?thesis using m None assms(2) by auto
  next
    case (Some l)
    then obtain rest where "?cands = l # rest" by (auto simp: locked_def split: list.splits)
    then have cands: "?cands = [l]" using one by simp
    have l: "truthy (er_recordRef l)" using filter_head [OF cands] assms(2) by blast
    have k: "kept l r'" using overlaid_kept [of l c r] r(1) Some same kr kept_trans by auto
    then have t: "truthy (er_recordRef r')" using l kept_ref by simp
    have "x = l" if "x \<in> set merged" "is_candidate env c x" for x
    proof -
      have "x \<in> set ?cands" using that by simp
      then show ?thesis unfolding cands by simp
    qed
    then have "list_all2 kept merged merged'"
      using k with_ref_kept(1) [OF t] by (auto simp: m Some intro!: update_first_kept)
    moreover have "\<forall>x\<in>set merged'. truthy (er_recordRef x)"
      using assms(2) t with_ref_kept(1) [OF t] by (auto simp: m Some dest!: in_update_firstD)
    ultimately show ?thesis by simp
  qed
qed

text \<open>While statements are merged: \<open>news\<close> are the created records taken over from the page, and the records known before keep
  their place.\<close>

definition adopted :: "journal_env \<Rightarrow> execution_journal \<Rightarrow> execution_journal \<Rightarrow> journal_record list \<Rightarrow> bool" where
  "adopted env i j news \<longleftrightarrow> j = i\<lparr>jn_records := jn_records i @ news\<rparr> \<and> (\<forall>r\<in>set news. ui_founded i env r)"

definition merging :: "journal_env \<Rightarrow> execution_journal \<Rightarrow> journal_record list \<Rightarrow> journal_record list \<Rightarrow> bool" where
  "merging env i news merged \<longleftrightarrow> (\<forall>r\<in>set merged. truthy (er_recordRef r))
     \<and> (\<exists>old new. merged = old @ new \<and> list_all2 (kept) (jn_records i) old \<and> (\<forall>x\<in>set news. \<exists>y\<in>set new. kept x y))"

lemma merging_add:
  assumes "merging env i news merged" and "truthy (er_recordRef r)" and "set news' \<subseteq> insert r (set news)"
  shows "merging env i news' (merged @ [r])"
proof -
  obtain old new where o: "merged = old @ new" "list_all2 (kept) (jn_records i) old" "\<forall>x\<in>set news. \<exists>y\<in>set new. kept x y"
    using assms(1) by (auto simp: merging_def)
  have "\<exists>y\<in>set (new @ [r]). kept x y" if "x \<in> set news'" for x
    using that assms(3) o(3) by (cases "x = r") auto
  then show ?thesis using assms(1,2) o(1,2) unfolding merging_def by (intro conjI exI [of _ old] exI [of _ "new @ [r]"]) auto
qed

lemma merging_kept:
  assumes "merging env i news merged" and "list_all2 (kept) merged merged'" and "\<forall>r\<in>set merged'. truthy (er_recordRef r)"
  shows "merging env i news merged'"
proof -
  obtain old new where o: "merged = old @ new" "list_all2 (kept) (jn_records i) old" "\<forall>x\<in>set news. \<exists>y\<in>set new. kept x y"
    using assms(1) by (auto simp: merging_def)
  then obtain old' new' where n: "merged' = old' @ new'" "list_all2 (kept) old old'" "list_all2 (kept) new new'"
    using assms(2) by (auto simp: list_all2_append1)
  have "\<exists>z\<in>set new'. kept y z" if "y \<in> set new" for y
    using that n(3) by (metis in_set_conv_nth list_all2_conv_all_nth)
  then have "\<forall>x\<in>set news. \<exists>z\<in>set new'. kept x z" using o(3) kept_trans by blast
  then show ?thesis using assms(3) n(1) kept_list_trans [OF o(2) n(2)] unfolding merging_def by blast
qed

lemma adopt_created_cases:
  assumes "adopt_created env j merged c = (d, m, c1)"
  obtains (Same) "d = j" "m = merged"
  | (New) r where "createdUiRecord env j c = Some r" "d = j\<lparr>jn_records := jn_records j @ [r]\<rparr>" "m = merged @ [r]"
    "c1 = with_identity r c"
proof (cases "dl_ownership c = Some CREATED_THIS_RUN
    \<and> \<not> list_ex (\<lambda>r. dl_id c = Some (er_id r) \<and> (er_type r = dl_type c \<or> jr_displayType r = dl_type c)) merged \<and> createdUiRecord env j c \<noteq> None")
  case True
  then obtain r where r: "createdUiRecord env j c = Some r" by auto
  have "d = j\<lparr>jn_records := jn_records j @ [r]\<rparr>" "m = merged @ [r]" "c1 = with_identity r c"
    using assms r True unfolding adopt_created_def by simp_all
  with r show thesis by (rule New)
next
  case False
  have "d = j" "m = merged" using assms False unfolding adopt_created_def by (simp_all split: if_splits option.splits)
  then show thesis by (rule Same)
qed

lemma change_merging:
  assumes "merge_change env j merged c = (j1, res)" and "adopted env i j news" and "merging env i news merged" and "watched i"
  shows "\<exists>news'. adopted env i j1 news' \<and> (\<forall>m. res = Inr m \<longrightarrow> merging env i news' m)"
proof -
  obtain d m1 c1 where a: "adopt_created env j merged c = (d, m1, c1)" by (cases "adopt_created env j merged c")
  have "\<exists>news'. adopted env i d news' \<and> merging env i news' m1"
  proof (cases rule: adopt_created_cases [OF a])
    case (2 r)
    have "ui_founded i env r" using created_ui_founded [OF 2(1)] assms(2) by (simp add: adopted_def ui_founded_def shown_def)
    then have "adopted env i d (news @ [r])" "truthy (er_recordRef r)" using 2(2) assms(2) by (auto simp: adopted_def ui_founded_def)
    then show ?thesis using 2(3) merging_add [OF assms(3), of r "news @ [r]"] by auto
  qed (use assms in auto)
  then obtain news' where n: "adopted env i d news'" "merging env i news' m1" by blast
  have j1: "j1 = d" and res: "res = (case adopt_baseline env d m1 c1 of Inl e \<Rightarrow> Inl e | Inr (m2, c2) \<Rightarrow> merge_stated env d m2 c2)"
    using assms(1) by (auto simp: merge_change_def a)
  have "merging env i news' m" if m: "res = Inr m" for m
  proof -
    obtain m2 c2 where b: "adopt_baseline env d m1 c1 = Inr (m2, c2)" "merge_stated env d m2 c2 = Inr m"
      using res m by (auto split: sum.splits)
    have "m2 = m1 \<or> (\<exists>b\<in>set (jn_observed d). \<exists>t. m2 = m1 @ [b\<lparr>jr_displayType := t\<rparr>] \<or> m2 = m1 @ [b])"
      using b(1) by (auto simp: adopt_baseline_def observed_matches_def split: list.splits if_splits dest!: filter_head)
    moreover have "jn_observed d = jn_observed i" using n(1) by (simp add: adopted_def)
    ultimately have m2: "merging env i news' m2"
      using n(2) assms(4) by (auto simp: watched_def intro!: merging_add [where news = news'])
    have refs: "\<forall>r\<in>set m2. truthy (er_recordRef r)" using m2 by (simp add: merging_def)
    note st = stated_kept [OF b(2) refs]
    then consider "list_all2 (kept) m2 m" | r where "m = m2 @ [r]" by blast
    then show ?thesis
    proof cases
      case 1
      then show ?thesis using merging_kept [OF m2] st by blast
    next
      case (2 r)
      then have "truthy (er_recordRef r)" using st by simp
      then show ?thesis using merging_add [OF m2, of r news'] 2 by blast
    qed
  qed
  then show ?thesis using n(1) j1 by blast
qed

lemma changes_merging:
  assumes "merge_changes env j merged cs = (j1, res)" and "adopted env i j news" and "merging env i news merged" and "watched i"
  shows "\<exists>news'. adopted env i j1 news' \<and> (\<forall>m. res = Inr m \<longrightarrow> merging env i news' m)"
  using assms
proof (induction cs arbitrary: j merged news)
  case (Cons c cs)
  obtain d r where d: "merge_change env j merged c = (d, r)" by (cases "merge_change env j merged c")
  from change_merging [OF d Cons.prems(2-4)] obtain news' where
    n: "adopted env i d news'" "\<forall>m. r = Inr m \<longrightarrow> merging env i news' m" by blast
  show ?case
  proof (cases r)
    case (Inl e)
    then show ?thesis using n(1) Cons.prems(1) d by auto
  next
    case (Inr m)
    then show ?thesis using Cons.IH [of d m news'] n Cons.prems(1,4) d by simp
  qed
qed auto

section \<open>Accepted and refused statements\<close>

lemma merging_tracked:
  assumes "tracked i" and "merging env i news merged" and "cores d = map core merged" and "jn_confirmations d = jn_confirmations i"
  shows "tracked d"
proof -
  have "\<exists>c\<in>set (cores d). er_recordRef (fst c) = Some (cc_recordRef p) \<and> \<not> snd c" if p: "p \<in> set (jn_confirmations i)" for p
  proof -
    obtain r where r: "r \<in> set (jn_records i)" "owns r p" using owns_cores [OF assms(1) p] by blast
    obtain s where s: "s \<in> set merged" "kept r s"
      using assms(2) r(1) unfolding merging_def by (metis UnCI in_set_conv_nth list_all2_conv_all_nth set_append)
    then show ?thesis using r(2) kept_ref [OF s(2)] by (intro bexI [of _ "core s"]) (auto simp: assms(3) kept_def)
  qed
  then show ?thesis using assms by (auto simp: tracked_def merging_def)
qed

lemma adopted_grown: "adopted env i j news \<Longrightarrow> jn_confirmations j = jn_confirmations i \<and> jn_writes j = jn_writes i \<and> jn_reads j = jn_reads i
    \<and> jn_observed j = jn_observed i \<and> cores j = cores i @ map core news"
  by (simp add: adopted_def)

lemma adopted_sound: "sound i \<Longrightarrow> adopted env i j news \<Longrightarrow> sound j"
proof -
  assume i: "sound i" and a: "adopted env i j news"
  have "grown (\<lambda>r. truthy (er_recordRef r)) i j"
    using a unfolding grown_def by (intro exI [of _ news]) (auto simp: adopted_def ui_founded_def)
  then have "tracked j" using i tracked_grown [of i "\<lambda>r. truthy (er_recordRef r)" j] adopted_grown [OF a] by (simp add: sound_def)
  then show "sound j" using i a by (auto simp: sound_def watched_def started_def adopted_def)
qed

lemma not_refused:
  assumes "update_refused env j merged d = None"
  shows "state_within (j\<lparr>jn_records := merged, jn_review := coalesce_opt (pd_review d) (jn_review j)\<rparr>)" and "\<forall>r\<in>set merged. record_refused env j r = None"
    and "\<not> (coalesce (pd_phase d) (jn_phase j) = PREFLIGHT \<and> jn_writes j \<noteq> [])"
proof -
  show "state_within (j\<lparr>jn_records := merged, jn_review := coalesce_opt (pd_review d) (jn_review j)\<rparr>)" using assms by (simp add: update_refused_def split: if_splits)
  have f: "List.find (\<lambda>r. record_refused env j r \<noteq> None) merged = None"
  proof (rule ccontr)
    assume "List.find (\<lambda>r. record_refused env j r \<noteq> None) merged \<noteq> None"
    then obtain r where r: "List.find (\<lambda>r. record_refused env j r \<noteq> None) merged = Some r" by blast
    then have "record_refused env j r \<noteq> None" using find_SomeD [OF r] by simp
    then show False using assms r by (simp add: update_refused_def split: if_splits)
  qed
  then show "\<forall>r\<in>set merged. record_refused env j r = None" by (simp add: find_None_iff)
  show "\<not> (coalesce (pd_phase d) (jn_phase j) = PREFLIGHT \<and> jn_writes j \<noteq> [])"
    using assms f by (simp add: update_refused_def split: if_splits)
qed

lemma updated_sound:
  assumes i: "sound i" and a: "adopted env i j news" and m: "merging env i news merged" and ok: "update_refused env j merged d = None"
  shows "sound (updated_journal env j merged d)"
proof -
  let ?u = "updated_journal env j merged d"
  have c: "cores ?u = map core merged" by (simp add: updated_journal_def cores_def)
  have "tracked ?u"
    by (rule merging_tracked [OF _ m c]) (use i a in \<open>simp_all add: sound_def updated_journal_def adopted_def\<close>)
  moreover have "\<not> (coalesce (pd_phase d) (jn_phase j) = PREFLIGHT \<and> jn_writes j \<noteq> [])"
    using not_refused [OF ok] by simp
  ultimately show ?thesis
    using i a by (auto simp: sound_def watched_def started_def updated_journal_def adopted_def)
qed

lemma update_cases:
  assumes u: "update env d i = (j', e)" and i: "sound i"
  obtains (Refused) news where "e \<noteq> None" "adopted env i j' news"
  | (Accepted) j merged news j3 where "merge_changes env i (jn_records i) (pd_records d) = (j, Inr merged)" "e = None" "adopted env i j news" "merging env i news merged" "update_refused env j merged d = None"
      "sound (updated_journal env j merged d)" "shape j3 = shape (updated_journal env j merged d)"
      "rest j3 = rest (updated_journal env j merged d)" "tracked j3" "j' = reconcileReview env (reconcileCleanup env j3)"
proof (cases "foreign_account i (pd_account d)")
  case True
  then have "e \<noteq> None" "adopted env i j' []" using u by (auto simp: update_def adopted_def)
  then show thesis by (rule Refused)
next
  case False
  obtain j res where c: "merge_changes env i (jn_records i) (pd_records d) = (j, res)" by (cases "merge_changes env i (jn_records i) (pd_records d)")
  have m0: "merging env i [] (jn_records i)"
    using i unfolding merging_def by (intro conjI exI [of _ "jn_records i"] exI [of _ "[]"]) (auto simp: sound_def dest: tracked_ref)
  from changes_merging [OF c _ m0] obtain news where n: "adopted env i j news" "\<forall>m. res = Inr m \<longrightarrow> merging env i news m"
    using i by (auto simp: adopted_def sound_def)
  show thesis
  proof (cases res)
    case (Inl err)
    then have "e \<noteq> None" "adopted env i j' news" using u False c n(1) by (auto simp: update_def)
    then show thesis by (rule Refused)
  next
    case (Inr merged)
    note cm = c [unfolded Inr]
    show thesis
    proof (cases "update_refused env j merged d")
      case (Some err)
      have "(j', e) = (j, Some err)" using u False c Inr Some by (simp add: update_def)
      then have "e \<noteq> None" "adopted env i j' news" using n(1) by simp_all
      then show thesis by (rule Refused)
    next
      case None
      have m: "merging env i news merged" using n(2) Inr by simp
      let ?u = "updated_journal env j merged d"
      let ?j3 = "case jn_ui ?u of None \<Rightarrow> ?u | Some page \<Rightarrow> observeUi env page (jn_uiRefs ?u) False ?u"
      have s: "sound ?u" by (rule updated_sound [OF i n(1) m None])
      have "ui_kept (\<lambda>_. False) ?u (observeUi env page (jn_uiRefs ?u) False ?u)" for page
        by (rule observeUi_kept) (use s in \<open>auto simp: sound_def evidenced_def\<close>)
      then have "shape ?j3 = shape ?u" "rest ?j3 = rest ?u" "tracked ?j3"
        using s by (auto simp: ui_kept_def sound_def split: option.split)
      moreover have "e = None" "j' = reconcileReview env (reconcileCleanup env ?j3)"
        using u False c Inr None by (simp_all add: update_def Let_def)
      ultimately show thesis using Accepted [OF cm _ n(1) m None s] by blast
    qed
  qed
qed

lemma statement_ok:
  assumes u: "update env d i = (j', e)" and i: "execution_ok env i"
  shows "execution_ok env j'"
proof -
  have s: "sound i" using i by (simp add: execution_ok_def)
  show ?thesis
  proof (cases rule: update_cases [OF u s])
    case (1 news)
    note g = adopted_grown [OF 1(2)]
    have sub: "set (jn_records i) \<subseteq> set (jn_records j')" using 1(2) by (auto simp: adopted_def)
    have "proved env j'"
      unfolding proved_def
    proof
      fix p
      assume "p \<in> from_network j'"
      then have "p \<in> from_network i" using g by (simp add: from_network_def)
      then obtain r where "r \<in> set (jn_records i)" "owns r p" "proves_undone env i r p" using i by (auto simp: execution_ok_def proved_def)
      then show "\<exists>r\<in>set (jn_records j'). owns r p \<and> proves_undone env j' r p" using sub undone_rest [of j' i] g by blast
    qed
    moreover have "attested env j'"
      unfolding attested_def
    proof
      assume "distinct (map er_recordRef (jn_records j'))"
      then have "evidenced (\<lambda>r. latest_mutation env i r \<noteq> None) i" using i 1(2) by (simp add: execution_ok_def attested_def adopted_def)
      then show "evidenced (\<lambda>r. latest_mutation env j' r \<noteq> None) j'"
        using 1(2) latest_mutation_writes [of j' i env] by (auto simp: evidenced_def adopted_def ui_founded_def has_status_def split: option.splits)
    qed
    ultimately show ?thesis using adopted_sound [OF s 1(2)] by (simp add: execution_ok_def)
  next
    case (2 j merged news j3)
    have "sound j3" using shape_sound [OF 2(6-9)] .
    then show ?thesis unfolding 2(10) by (intro review_ok reconciled_ok)
  qed
qed

section \<open>One record at a time\<close>

text \<open>A created record taken over from the page is the one its statement is about, and is kept.\<close>

lemma adopted_kept:
  assumes c: "merge_change env j merged c = (j1, Inr m)" and new: "jn_records j1 \<noteq> jn_records j"
    and refs: "\<forall>r\<in>set merged. truthy (er_recordRef r)"
  obtains x x' old where "jn_records j1 = jn_records j @ [x]" "m = old @ [x']" "list_all2 kept merged old" "kept x x'"
proof -
  obtain d m1 c1 where a: "adopt_created env j merged c = (d, m1, c1)" by (cases "adopt_created env j merged c")
  have j1: "j1 = d" and res: "(case adopt_baseline env d m1 c1 of Inl e \<Rightarrow> Inl e | Inr (m2, c2) \<Rightarrow> merge_stated env d m2 c2) = Inr m"
    using c by (auto simp: merge_change_def a)
  obtain x where x: "createdUiRecord env j c = Some x" "d = j\<lparr>jn_records := jn_records j @ [x]\<rparr>" "m1 = merged @ [x]" "c1 = with_identity x c"
  proof (cases rule: adopt_created_cases [OF a])
    case 1
    then show thesis using new j1 by simp
  qed (rule that)
  have ref: "truthy (er_recordRef x)" using created_ui_founded [OF x(1)] by (simp add: ui_founded_def)
  then have c1: "dl_recordRef c1 \<noteq> None" "dl_recordRef c1 = er_recordRef x" by (auto simp: x(4) with_identity_def truthy_def split: option.splits)
  have mem: "x \<in> set m1" using x(3) by simp
  obtain m2 c2 where b: "adopt_baseline env d m1 c1 = Inr (m2, c2)" "merge_stated env d m2 c2 = Inr m"
    using res by (auto split: sum.splits)
  have same: "m2 = m1 \<and> c2 = c1"
  proof (cases "observed_matches env d c1")
    case (Cons y ys)
    then have "er_recordRef y = er_recordRef x" using filter_head [of _ "jn_observed d" y ys] c1 by (auto simp: observed_matches_def)
    then have "list_ex (\<lambda>r. er_recordRef r = er_recordRef y) m1" using mem by (auto simp: list_ex_iff)
    then show ?thesis using b(1) Cons by (cases ys) (simp_all add: adopt_baseline_def)
  qed (use b(1) in \<open>simp add: adopt_baseline_def\<close>)
  have "\<forall>r\<in>set m1. truthy (er_recordRef r)" using refs ref x(3) by simp
  from stated_kept [OF b(2)] this same have "list_all2 kept m1 m \<or> filter (is_candidate env c1) m1 = []" by blast
  moreover have "x \<in> set (filter (is_candidate env c1) m1)" using mem c1 by (simp add: is_candidate_def)
  ultimately have "list_all2 kept (merged @ [x]) m" using x(3) by (metis list.set(1) empty_iff)
  then obtain old x' where o: "m = old @ [x']" "list_all2 kept merged old" "kept x x'"
    by (auto simp: list_all2_append1 list_all2_Cons1)
  have "jn_records j1 = jn_records j @ [x]" using j1 x(2) by simp
  then show thesis using that o by blast
qed

text \<open>Statements reach the journal one record at a time.\<close>

lemma partial_induct:
  assumes "P i" and step: "\<And>j d j' e. P j \<Longrightarrow> update env d j = (j', e) \<Longrightarrow> length (pd_records d) \<le> 1 \<Longrightarrow> P j'"
  shows "P (fst (updatePartial env d i))"
proof -
  have each: "P (fst (update_each env d cs j))" if "P j" for cs j
    using that
  proof (induction cs arbitrary: j)
    case (Cons c cs)
    obtain j1 e where u: "update env \<lparr>pd_account = None, pd_phase = None, pd_records = [c], pd_review = None\<rparr> j = (j1, e)" by fastforce
    then have "P (fst (update_each env d cs j1))" using Cons step [OF Cons.prems u] by simp
    then show ?case using u by (cases "update_each env d cs j1") simp
  qed simp
  obtain j1 e where u: "update env (d\<lparr>pd_records := []\<rparr>) i = (j1, e)" by fastforce
  then have "P j1" using step [OF assms(1)] by simp
  then show ?thesis using u each [of j1 "pd_records d"]
    by (cases "update_each env d (pd_records d) j1") (simp add: updatePartial_def split: option.split)
qed

lemma rest_ui: "rest d = rest j \<Longrightarrow> jn_ui d = jn_ui j"
  by (cases d; cases j) (simp add: rest_def)

text \<open>A statement leaves what was observed of requests and of the page.\<close>

lemma accepted_fields:
  assumes "adopted env i j news" and "shape j3 = shape (updated_journal env j merged d)" and "rest j3 = rest (updated_journal env j merged d)"
    and "j' = reconcileReview env (reconcileCleanup env j3)"
  shows "cores j' = map core merged" "jn_writes j' = jn_writes i" "jn_ui j' = jn_ui i"
proof -
  have "cores j3 = map core merged" using assms(2) by (simp add: shape_def updated_journal_def cores_def)
  then show "cores j' = map core merged" by (simp add: assms(4))
  show "jn_writes j' = jn_writes i" "jn_ui j' = jn_ui i"
    using rest_fields(11) [OF assms(3)] rest_ui [OF assms(3)] assms(1)
    by (simp_all add: assms(4) adopted_def updated_journal_def reconcileReview_def reconcileCleanup_def Let_def split: option.splits list.splits)
qed

lemma update_fields:
  assumes u: "update env d i = (j', e)" and s: "sound i"
  shows "jn_writes j' = jn_writes i \<and> jn_ui j' = jn_ui i"
proof (cases rule: update_cases [OF u s])
  case (1 news)
  then show ?thesis by (simp add: adopted_def)
next
  case (2 j merged news j3)
  show ?thesis using accepted_fields(2,3) [OF 2(3,7,8,10)] by simp
qed

end
