(* ===== verification/JournalLimits.thy ===== *)
theory JournalLimits
  imports JournalStatements
begin

text \<open>
  The limits of the schema on the lists of a journal: every operation keeps them, as long as what enters the journal is
  small. What is small enough is named with each operation; \<open>JournalSafety\<close> collects it.
\<close>

section \<open>Journals within their limits\<close>

text \<open>The limits of \<open>state_within\<close> but for the number of confirmations, which follows from that of the records. A read
  that is kept cites evidence, so that what is made of it does.\<close>

definition limited :: "execution_journal \<Rightarrow> bool" where
  "limited j \<longleftrightarrow> length (jn_requestOrder j) \<le> 2000
     \<and> length (jn_reads j) \<le> 200 \<and> list_all (\<lambda>r. read_within r \<and> re_evidenceRefs r \<noteq> []) (jn_reads j)
     \<and> list_all (\<lambda>p. length (cc_evidenceRefs p) \<le> 20) (jn_confirmations j)
     \<and> pred_option accounts_within (jn_accounts j)
     \<and> length (jn_absences j) \<le> 100 \<and> length (jn_existing j) \<le> 200 \<and> length (jn_accountAliases j) \<le> 20
     \<and> length (jn_records j) \<le> 50 \<and> list_all record_within (jn_records j)
     \<and> length (jn_observed j) \<le> 100 \<and> list_all record_within (jn_observed j)
     \<and> length (jn_pending j) \<le> 50 \<and> list_all pending_within (jn_pending j)
     \<and> pred_option review_within (jn_review j)
     \<and> length (jn_writes j) \<le> 200 \<and> list_all (\<lambda>w. length (wr_evidenceRefs w) \<le> 20) (jn_writes j)
     \<and> length (jn_uiRefs j) \<le> 20"

lemma limited_within:
  assumes "limited j" and "tracked j"
  shows "state_within j"
proof -
  have "length (jn_confirmations j) = card (set (map cc_recordRef (jn_confirmations j)))"
    using assms(2) by (metis distinct_card length_map tracked_def)
  also have "Some ` set (map cc_recordRef (jn_confirmations j)) \<subseteq> (\<lambda>c. er_recordRef (fst c)) ` set (cores j)"
    using assms(2) by (force simp: tracked_def)
  then have "card (set (map cc_recordRef (jn_confirmations j))) \<le> card (set (cores j))"
    by (metis (no_types, lifting) List.finite_set card_image card_image_le card_mono finite_imageI inj_Some inj_on_subset le_trans subset_UNIV)
  also have "card (set (cores j)) \<le> length (jn_records j)" using card_length [of "cores j"] by (simp add: cores_def)
  also have "length (jn_records j) \<le> 50" using assms(1) by (simp add: limited_def)
  finally have "length (jn_confirmations j) \<le> 50" .
  moreover have "list_all read_within (jn_reads j)" using assms(1) by (auto simp: limited_def list_all_iff)
  ultimately show ?thesis using assms(1) by (simp add: state_within_def limited_def)
qed

section \<open>Lists\<close>

lemma all_last_n: "list_all P xs \<Longrightarrow> list_all P (last_n n xs)"
  using last_n_subset [of n xs] by (auto simp: list_all_iff)

lemma all_filter: "list_all P xs \<Longrightarrow> list_all P (filter Q xs)"
  by (simp add: list_all_iff)

lemma all_update_first: "list_all P xs \<Longrightarrow> (\<And>x. P x \<Longrightarrow> P (f x)) \<Longrightarrow> list_all P (update_first Q f xs)"
  by (induction xs) auto

lemma all_map: "list_all P xs \<Longrightarrow> (\<And>x. P x \<Longrightarrow> P (f x)) \<Longrightarrow> list_all P (map f xs)"
  by (induction xs) auto

lemma all_nth_update: "list_all P xs \<Longrightarrow> P x \<Longrightarrow> list_all P (xs[i := x])"
  by (auto simp: list_all_iff dest!: set_update_subset_insert [THEN subsetD])

lemma length_concat_le: "(\<And>x. length (f x) \<le> 1) \<Longrightarrow> length (concat (map f xs)) \<le> length xs"
proof (induction xs)
  case (Cons x xs)
  show ?case using Cons.IH [OF Cons.prems] Cons.prems [of x] by simp
qed simp

lemma record_within_updates [simp]:
  "record_within (r\<lparr>er_cleanup := a\<rparr>) = record_within r" "record_within (r\<lparr>er_resourceName := b\<rparr>) = record_within r"
  "record_within (r\<lparr>jr_currentState := c\<rparr>) = record_within r" "record_within (r\<lparr>jr_noted := d\<rparr>) = record_within r"
  "record_within (r\<lparr>jr_retainedAt := e\<rparr>) = record_within r"
  by (simp_all add: record_within_def)

section \<open>Requests\<close>

lemma limited_invalidate: "limited j \<Longrightarrow> limited (invalidateUiConfirmations ref j)"
  by (auto simp: limited_def invalidateUiConfirmations_def Let_def intro!: all_map all_filter)

lemma limited_absence: "limited j \<Longrightarrow> limited (add_absence k j)" "limited j \<Longrightarrow> limited (add_existing k j)"
  by (simp_all add: limited_def add_absence_def add_existing_def)

lemma limited_order: "limited j \<Longrightarrow> limited (note_order k j)"
  by (simp add: limited_def note_order_def)

lemma limited_record_absence: "limited j \<Longrightarrow> limited (record_absence env ev q j)"
  by (auto simp: record_absence_def limited_absence split: option.splits)

lemma limited_drop_absence: "limited j \<Longrightarrow> limited (drop_absence env q j)"
  by (auto simp: limited_def drop_absence_def Let_def intro: le_trans [OF length_filter_le])

text \<open>A submission: the journal is over its limit by one at most until it is trimmed.\<close>

lemma limited_put_receipt:
  assumes "limited j" and "length (wr_evidenceRefs new) \<le> 20"
  shows "limited ((put_receipt new j)\<lparr>jn_writes := []\<rparr>)" "length (jn_writes (put_receipt new j)) \<le> 201"
    "list_all (\<lambda>w. length (wr_evidenceRefs w) \<le> 20) (jn_writes (put_receipt new j))"
proof -
  have i: "limited ((invalidateUiConfirmations None (j\<lparr>jn_writes := ws\<rparr>))\<lparr>jn_writes := []\<rparr>)" for ws
    using assms(1) by (auto simp: limited_def invalidateUiConfirmations_def Let_def intro!: all_map all_filter)
  have "limited (j\<lparr>jn_writes := []\<rparr>)" using assms(1) by (simp add: limited_def)
  then show "limited ((put_receipt new j)\<lparr>jn_writes := []\<rparr>)" using i by (auto simp: put_receipt_def Let_def split: option.split)
  have w: "length (jn_writes j) \<le> 200" "list_all (\<lambda>w. length (wr_evidenceRefs w) \<le> 20) (jn_writes j)" using assms(1) by (simp_all add: limited_def)
  then show "length (jn_writes (put_receipt new j)) \<le> 201" by (auto simp: put_receipt_def Let_def split: option.split)
  have "length (wr_evidenceRefs (merged_receipt old new)) \<le> 20" for old using assms(2) by (simp add: merged_receipt_def)
  then have "list_all (\<lambda>w. length (wr_evidenceRefs w) \<le> 20) (update_first P (\<lambda>w. merged_receipt w new) (jn_writes j))" for P
    using w(2) by (intro all_update_first)
  then show "list_all (\<lambda>w. length (wr_evidenceRefs w) \<le> 20) (jn_writes (put_receipt new j))"
    using w(2) assms(2) by (auto simp: put_receipt_def Let_def split: option.split)
qed

lemma limited_write:
  assumes "limited j" and "length ev \<le> 20"
  shows "limited (record_write env k s ev label q j)"
proof (cases "mutation_method (nq_method q)")
  case (Some m)
  define j1 where "j1 = put_receipt (receipt_of env k s ev (if m = POST then label else None) m q) j"
  define j2 where "j2 = (case List.find (\<lambda>w. wr_key w = k) (jn_writes j1) of None \<Rightarrow> j1 | Some w \<Rightarrow> inferCreationAbsence env w j1)"
  have "length (wr_evidenceRefs (receipt_of env k s ev (if m = POST then label else None) m q)) \<le> 20" using assms(2) by (simp add: receipt_of_def)
  note r = limited_put_receipt [OF assms(1) this, folded j1_def]
  have "j2 = j1 \<or> (\<exists>x. j2 = add_absence x j1)" using infer_absence by (auto simp: j2_def split: option.splits)
  then have "limited (j2\<lparr>jn_writes := []\<rparr>)" "length (jn_writes j2) \<le> 201" "list_all (\<lambda>w. length (wr_evidenceRefs w) \<le> 20) (jn_writes j2)"
    using r by (auto simp: add_absence_def limited_def)
  then have "limited (trim_writes j2)" "limited ((trim_writes j2)\<lparr>jn_phase := VERIFYING\<rparr>)"
    by (auto simp: trim_writes_def limited_def intro: all_last_n)
  then show ?thesis using assms(1) by (auto simp: record_write_def Some Let_def j1_def [symmetric] j2_def [symmetric])
qed (use assms in \<open>simp add: record_write_def\<close>)

text \<open>Reads, as long as a response holds no more records than a read may list.\<close>

definition fits :: "journal_env \<Rightarrow> net_request \<Rightarrow> bool" where
  "fits env q \<longleftrightarrow> length (found_records env 9 (request_body env q)) \<le> 100"

lemma aliases_length: "length (aliases_of env v) \<le> 4"
proof -
  have "length (js_uniq xs) \<le> length xs" for xs :: "string list" by (simp add: js_uniq_def) (metis length_remdups_leq length_rev)
  moreover have "length (concat (map (\<lambda>v. case v of JStr s \<Rightarrow> (case je_account env s of None \<Rightarrow> [] | Some a \<Rightarrow> [a]) | _ \<Rightarrow> []) vs)) \<le> length vs" for vs
    by (rule length_concat_le) (simp split: js.split option.split)
  ultimately have "length (accountAliases env vs) \<le> length vs" for vs unfolding accountAliases_def using le_trans by blast
  from this [of "[_, _, _, _]"] show ?thesis by (simp add: aliases_of_def Let_def eval_nat_numeral)
qed

lemma read_of_within:
  assumes "fits env q" and "length ev \<le> 20"
  shows "read_within (read_of env k s ev q)"
proof -
  have one: "length (identity_of env row) \<le> 1" for row
    by (simp add: identity_of_def Let_def split: js.splits)
  have ids: "length (concat (map (identity_of env) (take 100 vs))) \<le> 100" for vs
    using length_concat_le [of "identity_of env" "take 100 vs", OF one] by (rule le_trans) simp
  have "length (ri_accountAliases i) \<le> 20" if i: "i \<in> set (identity_of env row)" for i row
  proof -
    obtain v where "ri_accountAliases i = aliases_of env v" using i by (auto simp: identity_of_def Let_def split: js.splits if_splits)
    then show ?thesis using aliases_length [of env v] by simp
  qed
  then have al: "list_all (\<lambda>i. length (ri_accountAliases i) \<le> 20) (concat (map (identity_of env) (take 100 vs)))" for vs
    by (auto simp: list_all_iff dest: in_set_takeD)
  have "length (concat (map (\<lambda>v. case js_prop v ''resourceName'' of JStr n \<Rightarrow> [(je_show env (js_prop v ''id''), n)] | _ \<Rightarrow> []) xs))
      \<le> length xs" for xs
    by (rule length_concat_le) (simp split: js.split)
  note named = this [THEN order_trans]
  show ?thesis
    using assms ids al unfolding read_within_def read_of_def Let_def fits_def by (simp add: named)
qed

lemma limited_read:
  assumes "limited j" and "fits env q" and "length ev \<le> 20"
  shows "limited (record_read env k s ev q j)"
proof -
  let ?r = "read_of env k s ev q"
  have i: "limited (foldl (\<lambda>d x. if state_differs env ?r x then invalidateUiConfirmations (er_recordRef x) d else d) j xs)" for xs
    by (rule foldl_keeps) (use assms(1) limited_invalidate in simp_all)
  have "limited (d\<lparr>jn_reads := last_n 200 (filter (\<lambda>x. re_key x \<noteq> k) (jn_reads d) @ [?r])\<rparr>)" if d: "limited d" "ev \<noteq> []" for d
  proof -
    have "re_evidenceRefs ?r \<noteq> []" using d(2) by (simp add: read_of_def Let_def)
    then show ?thesis using d(1) read_of_within [OF assms(2,3)] by (auto simp: limited_def intro!: all_last_n all_filter)
  qed
  then show ?thesis using i assms(1) by (simp add: record_read_def Let_def)
qed

text \<open>Records: an output that has any is backed by evidence.\<close>

lemma learn_length: "length (take n xs) \<le> n"
  by simp

lemma limited_learn:
  assumes "limited j"
  shows "limited (learn_aliases aliases j)"
proof -
  have "accounts_within (map (\<lambda>b. if list_ex (\<lambda>a. a \<in> set aliases) (ja_account b # ja_aliases b)
      then b\<lparr>ja_aliases := take 20 (js_uniq (ja_aliases b @ aliases))\<rparr> else b) bs)" if "accounts_within bs" for bs
    using that by (auto simp: accounts_within_def list_all_iff)
  then show ?thesis using assms by (auto simp: limited_def learn_aliases_def Let_def option.pred_map comp_def elim!: option.pred_mono_strong
      split: option.splits)
qed

lemma limited_pending:
  assumes "limited j" and "pending_within p"
  shows "limited (put_pending env p j)"
  using assms by (auto simp: limited_def put_pending_def intro!: all_update_first)

lemma limited_place:
  assumes "limited j" and "length ev \<le> 20"
  shows "limited (place_record env ev q found v j)"
proof -
  have "pending_within \<lparr>pr_id = i, pr_type = t, pr_resourceUrl = u, pr_accountAliases = aliases_of env v, pr_currentState = st,
      pr_evidenceRefs = ev\<rparr>" if "ev \<noteq> []" for i t u st
    using that assms(2) aliases_length [of env v] by (simp add: pending_within_def refs_within_def)
  then show ?thesis using assms(1) limited_pending limited_absence by (auto simp: place_record_def Let_def split: option.split)
qed

lemma limited_baseline:
  assumes "limited j" and "refs_within ev"
  shows "limited (note_baseline env (observed_baseline env k s ev q v) j)"
proof -
  have "record_within (observed_baseline env k s ev q v)"
    using assms(2) aliases_length [of env v] by (simp add: record_within_def observed_baseline_def Let_def plain_record_def)
  then show ?thesis using assms(1) by (simp add: limited_def note_baseline_def)
qed

lemma limited_candidate:
  assumes "limited j" and "refs_within ev"
  shows "limited (observe_candidate env k s ev q found j v)"
proof -
  have see: "limited (d\<lparr>jn_records := update_first P (\<lambda>r. r\<lparr>jr_currentState := st\<rparr>) (jn_records d)\<rparr>)" if "limited d" for P st d
    using that by (simp add: limited_def all_update_first)
  have "length ev \<le> 20" using assms(2) by (simp add: refs_within_def)
  then show ?thesis using assms see limited_place limited_baseline limited_learn by (auto simp: observe_candidate_def Let_def)
qed

lemma limited_request:
  assumes "limited j" and "fits env q" and "refs_within ev"
  shows "limited (observe_request env c ev label j q)"
proof -
  have ev: "length ev \<le> 20" using assms(3) by (simp add: refs_within_def)
  have cands: "limited (foldl (observe_candidate env k s ev q found) d found)" if "limited d" for k s found d
    by (rule foldl_keeps) (use that assms(3) limited_candidate in auto)
  show ?thesis
    using assms ev by (auto simp: observe_request_def Let_def
        intro!: cands limited_drop_absence limited_write limited_record_absence limited_order limited_read)
qed

section \<open>Settling what was observed\<close>

lemma limited_settle:
  assumes "limited j"
  shows "limited (settle_all_pending env j)"
proof -
  let ?P = "\<lambda>i d. limited d \<and> length (jn_pending d) \<le> i"
  have "?P (length (jn_pending j)) (foldl (settle_pending env) (j\<lparr>jn_pending := []\<rparr>) (jn_pending j))"
  proof (rule foldl_indexed)
    show "?P 0 (j\<lparr>jn_pending := []\<rparr>)" using assms by (simp add: limited_def)
    fix i d
    assume i: "i < length (jn_pending j)" and d: "?P i d"
    let ?p = "jn_pending j ! i"
    have p: "pending_within ?p" using assms i by (simp add: limited_def list_all_length)
    have keep: "?P (Suc i) (d\<lparr>jn_pending := jn_pending d @ [?p]\<rparr>)"
      using i d assms p by (simp add: limited_def)
    have ex: "?P (Suc i) (add_existing x d)" for x
      using d limited_absence(2) [of d x] by (simp add: add_existing_def)
    have "record_within (created_record env ?p w)" for w
      using p by (simp add: record_within_def pending_within_def refs_within_def [of "pr_evidenceRefs ?p"] created_record_def Let_def plain_record_def)
    then have new: "?P (Suc i) (d\<lparr>jn_records := jn_records d @ [created_record env ?p w]\<rparr>)" if "length (jn_records d) < 50" for w
      using d that by (simp add: limited_def)
    show "?P (Suc i) (settle_pending env d ?p)"
      using keep ex new by (simp add: settle_pending_def Let_def split: option.split)
  qed
  then show ?thesis by (simp add: settle_all_pending_def)
qed

lemma limited_named_one:
  assumes "limited j" and "re_evidenceRefs r \<noteq> []" and "length (re_evidenceRefs r) \<le> 20"
  shows "limited (reconcile_named env r j item)"
proof -
  have "record_within (see_named env d r n x) = record_within x" for d n x by (simp add: see_named_def Let_def)
  then have see: "limited (j\<lparr>jn_records := update_first P (see_named env d r n) (jn_records j)\<rparr>)" for P d n
    using assms(1) by (simp add: limited_def all_update_first)
  have "record_within (created_named env r item w st)" "record_within (named_baseline env r item t)" for w st t
    using assms(2,3) by (simp_all add: record_within_def created_named_def named_baseline_def named_identity_def plain_record_def
        refs_within_def [of "re_evidenceRefs r"])
  then have new: "length (jn_records j) < 50 \<Longrightarrow> limited (j\<lparr>jn_records := jn_records j @ [created_named env r item w st]\<rparr>)"
    and base: "length (jn_observed j) < 100 \<Longrightarrow> limited (j\<lparr>jn_observed := jn_observed j @ [named_baseline env r item t]\<rparr>)" for w st t
    using assms(1) by (simp_all add: limited_def)
  show ?thesis using assms(1) see new base limited_absence(2) by (auto simp: reconcile_named_def Let_def split: list.splits option.splits)
qed

lemma limited_named:
  assumes "limited j"
  shows "limited (reconcileNamedResources env j)"
proof -
  have one: "limited (foldl (reconcile_named env r) d items)" if "limited d" "r \<in> set (jn_reads j)" for d r items
  proof (rule foldl_keeps)
    have "re_evidenceRefs r \<noteq> []" "length (re_evidenceRefs r) \<le> 20" using assms that(2) by (auto simp: limited_def list_all_iff read_within_def)
    then show "limited (reconcile_named env r d item)" if "limited d" for d item using that limited_named_one by blast
  qed (use that in blast)
  have "limited (foldl (\<lambda>d r. foldl (reconcile_named env r) d (jd_namedResources r)) j (js_sort P (jn_reads j)))" for P
    by (rule foldl_in) (use assms one in auto)
  then show ?thesis using assms by (simp add: reconcileNamedResources_def)
qed

lemma limited_register:
  assumes "limited j"
  shows "limited (registerObservedMutations env j)"
proof -
  have "limited (register_mutation env d w)" if d: "limited d" for d w
  proof (cases "filter (\<lambda>r. matches env w r \<and> baselinePrecedesWrites env d r) (jn_observed d)")
    case (Cons b bs)
    then have "b \<in> set (jn_observed d)" using filter_head by metis
    then have "record_within b" using d by (simp add: limited_def list_all_iff)
    then show ?thesis using d Cons by (auto simp: register_mutation_def limited_def split: list.splits)
  qed (use d in \<open>simp add: register_mutation_def\<close>)
  then have "limited (foldl (register_mutation env) j ws)" for ws by (rule foldl_keeps [where P = limited, OF assms])
  then show ?thesis by (simp add: registerObservedMutations_def)
qed

section \<open>Cleanup and pages\<close>

lemma completed_within: "record_within r \<Longrightarrow> record_within (completed_record how ev r)"
  by (simp add: record_within_def completed_record_def refs_within_def [of "er_evidenceRefs r"])

lemma limited_reconcile:
  assumes "limited j"
  shows "limited (reconcileCleanup env j)"
proof -
  let ?ok = "\<lambda>acc. list_all record_within (fst acc) \<and> list_all (\<lambda>p. length (cc_evidenceRefs p) \<le> 20) (snd acc)"
  have one: "?ok (reconcile_record env j acc r)" if acc: "?ok acc" and r: "record_within r" for acc r
  proof -
    have "record_within (check_retained env j r)" using r by (simp add: check_retained_def)
    moreover have "length (cc_evidenceRefs (confirmation_of x w y)) \<le> 20" for x w y by (simp add: confirmation_of_def)
    ultimately show ?thesis using acc r completed_within
      by (auto simp: reconcile_record_def Let_def all_filter split: option.split)
  qed
  have "?ok (foldl (reconcile_record env j) ([], jn_confirmations j) (jn_records j))"
  proof (rule foldl_in)
    show "?ok ([], jn_confirmations j)" using assms by (simp add: limited_def)
    show "?ok (reconcile_record env j acc r)" if "r \<in> set (jn_records j)" "?ok acc" for acc r
      using that assms by (intro one) (auto simp: limited_def list_all_iff)
  qed
  moreover have "length (jn_records (reconcileCleanup env j)) = length (jn_records j)" by (simp add: cores_length)
  ultimately show ?thesis using assms by (simp add: limited_def reconcileCleanup_def Let_def)
qed

lemma limited_review:
  assumes "limited j"
  shows "limited (reconcileReview env j)"
proof (cases "jn_review j")
  case (Some v)
  let ?open = "filter (\<lambda>k. k \<in> set (unresolved_keys env j)) (jv_writeKeys v)"
  have "review_within (v\<lparr>jv_writeKeys := ?open\<rparr>)" if "?open \<noteq> []"
    using assms Some that by (auto simp: limited_def review_within_def intro: le_trans [OF length_filter_le])
  then show ?thesis using assms Some by (auto simp: limited_def reconcileReview_def split: list.split)
qed (use assms in \<open>simp add: reconcileReview_def\<close>)

lemma ui_baseline_within:
  assumes "record_within r" and "refs_within ev"
  shows "record_within (r\<lparr>jr_uiBaseline := ui_baseline_of env d page ev rows r\<rparr>)"
proof -
  have "pred_option baseline_within (ui_baseline_of env d page ev rows r)"
    using assms by (auto simp: ui_baseline_of_def Let_def record_within_def baseline_within_def split: list.split)
  then show ?thesis using assms(1) by (simp add: record_within_def)
qed

lemma known_within: "limited d \<Longrightarrow> valid_at d p \<Longrightarrow> record_within (known_at d p)"
  by (cases p) (simp_all add: limited_def known_at_def list_all_length)

lemma limited_set_known: "limited d \<Longrightarrow> record_within r \<Longrightarrow> limited (set_known p r d)"
  by (cases p) (simp_all add: limited_def set_known_def all_nth_update)

lemma limited_row:
  assumes d: "limited d" and v: "valid_at d p" and ev: "refs_within ev"
  shows "limited (observe_row env page ev fresh d p)"
proof -
  let ?r = "known_at d p"
  let ?cands = "filter (\<lambda>vs. list_ex (\<lambda>v. v \<in> set (known_aliases ?r)) vs) (observed_rows (cp_observation page))"
  let ?drifted = "case jr_uiBaseline ?r of None \<Rightarrow> False | Some b \<Rightarrow> ub_pageIdentity b = cp_pageIdentity page
    \<and> list_ex (\<lambda>vs. er_id ?r \<in> set vs) ?cands \<and> \<not> list_ex (\<lambda>vs. state_values ?r vs = ub_values b) ?cands"
  define d1 where "d1 = (if ?drifted then invalidateUiConfirmations (er_recordRef ?r) d else d)"
  define r1 where "r1 = (known_at d1 p)\<lparr>jr_uiBaseline := ui_baseline_of env d1 page ev ?cands (known_at d1 p)\<rparr>"
  define d2 where "d2 = set_known p r1 d1"
  have d1: "limited d1" using d limited_invalidate by (simp add: d1_def)
  have "valid_at d1 p" using v valid_at_shape [of d1 d p] by (simp add: d1_def)
  then have r1: "record_within r1" unfolding r1_def by (intro ui_baseline_within known_within d1 ev)
  then have d2: "limited d2" using d1 limited_set_known by (simp add: d2_def)
  have "limited (set_known p (completed_record RESTORED ev r1) (d2\<lparr>jn_confirmations := filter P (jn_confirmations d2)
      @ [ui_confirmation_of page ev r1 m]\<rparr>))" for P m
    by (rule limited_set_known [OF _ completed_within [OF r1]])
      (use d2 ev in \<open>simp add: limited_def all_filter ui_confirmation_of_def refs_within_def\<close>)
  then show ?thesis using d d2 unfolding observe_row_def Let_def d1_def [symmetric] r1_def [symmetric] d2_def [symmetric] by auto
qed

lemma limited_ui:
  assumes l: "limited j" and s: "sound j" and ev: "length ev \<le> 20"
  shows "limited (observeUi env page ev fresh j)"
proof (cases "ev = []")
  case False
  let ?ps = "map Inl [0..<length (jn_observed j)] @ map Inr [0..<length (jn_records j)]"
  let ?ok = "\<lambda>d. limited d \<and> ui_kept (\<lambda>_. False) j d"
  have k: "ui_kept (\<lambda>_. False) j j" using s by (auto simp: sound_def evidenced_def intro: ui_kept_refl)
  have "?ok (foldl (observe_row env page ev fresh) j ?ps)"
  proof (rule foldl_in)
    show "?ok j" using l k by simp
    fix d p
    assume p: "p \<in> set ?ps" and d: "?ok d"
    have sh: "shape d = shape j" using d by (simp add: ui_kept_def)
    have v: "valid_at d p" using p by (auto simp: valid_at_shape [OF sh])
    moreover have "watched d" using s by (simp add: sound_def watched_shape [OF sh])
    moreover have "refs_within ev" using ev False by (simp add: refs_within_def)
    ultimately show "?ok (observe_row env page ev fresh d p)" using d by (intro conjI limited_row row_kept) auto
  qed
  then show ?thesis using l by (simp add: observeUi_def)
qed (use l in \<open>simp add: observeUi_def\<close>)

lemma limited_page:
  assumes "limited j" and "sound j" and "length ev \<le> 20"
  shows "limited (note_page env page ev j)"
proof (cases page)
  case (Some p)
  have "limited (observeUi env p ev (jn_pendingUiRead j) j)" by (rule limited_ui [OF assms])
  then show ?thesis using assms(3) by (simp add: note_page_def Some limited_def)
qed (use assms in \<open>simp add: note_page_def\<close>)

section \<open>The operations\<close>

lemma evidence_length: "length (evidence_refs_of known output) \<le> 8"
  by (simp add: evidence_refs_of_def)

lemma limited_command: "limited j \<Longrightarrow> limited (note_command output command j)"
  using limited_invalidate [of j None] by (auto simp: note_command_def Let_def limited_def split: option.splits)

text \<open>An output that reports requests has stored evidence, and its responses fit.\<close>

definition output_fits :: "journal_env \<Rightarrow> js \<Rightarrow> string list \<Rightarrow> bool" where
  "output_fits env result known \<longleftrightarrow> list_all (fits env) (requests_of env result)
     \<and> (requests_of env result = [] \<or> evidence_refs_of known result \<noteq> [])"

lemma limited_observe:
  assumes l: "limited j" and s: "sound j" and f: "output_fits env result known"
  shows "limited (observe env result known command page j)"
proof -
  have c: "limited (note_command result command j)" using l by (rule limited_command)
  have "limited (foldl (observe_request env q (evidence_refs_of known result) label) (note_command result command j) (requests_of env result))" for q label
  proof (rule foldl_in)
    show "limited (observe_request env q (evidence_refs_of known result) label d x)" if x: "x \<in> set (requests_of env result)" and d: "limited d" for d x
    proof (rule limited_request [OF d])
      show "fits env x" using f x by (auto simp: output_fits_def list_all_iff)
      show "refs_within (evidence_refs_of known result)" using f x evidence_length [of known result] by (auto simp: output_fits_def refs_within_def)
    qed
  qed (rule c)
  then have "limited (after_requests env result known command j)" by (simp add: after_requests_def Let_def)
  then have "limited (settled env (after_requests env result known command j))"
    by (simp add: settled_def limited_settle limited_named limited_register)
  then have "limited (reconcileCleanup env (settled env (after_requests env result known command j)))" by (rule limited_reconcile)
  moreover have "sound (reconcileCleanup env (settled env (after_requests env result known command j)))"
    using reconciled_ok [OF settled_sound [OF requests_sound [OF s]]] by (simp add: execution_ok_def)
  ultimately show ?thesis unfolding observe_alt using evidence_length [of known result] by (intro limited_review limited_page) simp_all
qed

lemma limited_block:
  assumes "limited j"
  shows "limited (blockCleanup env reason j)"
proof -
  let ?f = "\<lambda>r. if has_status CLEANUP_PENDING r
    then r\<lparr>er_cleanup := map_option (\<lambda>c. c\<lparr>rc_status := CLEANUP_BLOCKED\<rparr>) (er_cleanup r), jr_noted := \<not> js_blank reason\<rparr> else r"
  let ?d = "j\<lparr>jn_phase := CLEANUP_PHASE, jn_records := map ?f (jn_records j)\<rparr>"
  have d: "limited ?d" using assms by (simp add: limited_def all_map)
  have "review_within \<lparr>jv_writeKeys = take 200 (js_uniq (xs @ ks)), jv_evidenceRefs = ev\<rparr>" if "ks \<noteq> []" "refs_within ev" for xs ks ev
    using that by (simp add: review_within_def js_uniq_def)
  moreover have "refs_within (take 20 ev)" if "take 20 ev \<noteq> []" for ev using that by (simp add: refs_within_def)
  ultimately show ?thesis using d by (auto simp: blockCleanup_def Let_def limited_def)
qed

text \<open>Statements, as long as no refused one leaves more records than the schema has room for.\<close>

lemma limited_update:
  assumes u: "update env d i = (j', e)" and s: "sound i" and l: "limited i" and n: "length (jn_records j') \<le> 50"
  shows "limited j'"
proof (cases rule: update_cases [OF u s])
  case (1 news)
  then have "list_all record_within news" by (auto simp: adopted_def ui_founded_def list_all_iff)
  then show ?thesis using l n 1(2) by (auto simp: adopted_def limited_def)
next
  case (2 j merged news j3)
  have w: "state_within (j\<lparr>jn_records := merged, jn_review := coalesce_opt (pd_review d) (jn_review j)\<rparr>)" using not_refused(1) [OF 2(5)] .
  have ui: "jn_uiRefs j = jn_uiRefs i" "jn_reads j = jn_reads i" using 2(3) by (simp_all add: adopted_def)
  let ?u = "updated_journal env j merged d"
  have u: "limited ?u" using w l by (simp add: limited_def state_within_def updated_journal_def ui)
  have "j' = reconcileReview env (reconcileCleanup env (case jn_ui ?u of None \<Rightarrow> ?u | Some page \<Rightarrow> observeUi env page (jn_uiRefs ?u) False ?u))"
    using assms(1) 2(1,2,5) by (auto simp: update_def Let_def split: if_splits)
  moreover have "length (jn_uiRefs ?u) \<le> 20" using u by (simp add: limited_def)
  ultimately show ?thesis using limited_ui [OF u 2(6)] u by (auto intro!: limited_review limited_reconcile split: option.split)
qed

lemma update_grows:
  assumes u: "update env d i = (j', e)" and s: "sound i"
  shows "length (jn_records i) \<le> length (jn_records j')"
proof (cases rule: update_cases [OF u s])
  case (2 j merged news j3)
  have "length (jn_records j') = length merged" using arg_cong [OF accepted_fields(1) [OF 2(3,7,8,10)], of length] by (simp add: cores_def)
  then show ?thesis using 2(4) by (auto simp: merging_def dest: list_all2_lengthD)
qed (simp add: adopted_def)

lemma limited_statement:
  assumes "execution_ok env i" and "limited i" and n: "length (jn_records (fst (updatePartial env d i))) \<le> 50"
  shows "limited (fst (updatePartial env d i))"
proof -
  let ?P = "\<lambda>j. execution_ok env j \<and> (length (jn_records j) \<le> 50 \<longrightarrow> limited j)"
  have "?P (fst (updatePartial env d i))"
  proof (rule partial_induct)
    show "?P i" using assms by simp
    show "?P j'" if j: "?P j" and u: "update env d j = (j', e)" for j d j' e
    proof -
      have s: "sound j" using j by (simp add: execution_ok_def)
      have "limited j'" if "length (jn_records j') \<le> 50"
        using limited_update [OF u s _ that] update_grows [OF u s] that j by simp
      then show ?thesis using j statement_ok [OF u] by blast
    qed
  qed
  then show ?thesis using n by simp
qed

text \<open>Opening a journal, as long as the accounts with their merged aliases are few.\<close>

lemma limited_read_state: "limited j \<Longrightarrow> limited (readExecutionState (stored_as accepted j))"
  by (simp add: readExecutionState_def stored_as_def limited_def new_journal_def)

lemma limited_open:
  assumes "limited j" and "pred_option accounts_within (jn_accounts (open_journal env (stored_as accepted j) bs))"
  shows "limited (open_journal env (stored_as accepted j) bs)"
proof -
  let ?s = "readExecutionState (stored_as accepted j)"
  let ?d = "?s\<lparr>jn_records := map (\<lambda>r. if er_recordRef r = None then r\<lparr>er_recordRef :=
            Some (stableRecordRef env (er_resourceUrl r) (er_type r) (er_id r) (er_account r))\<rparr> else r) (jn_records ?s)\<rparr>"
  have "record_within (r\<lparr>er_recordRef := x\<rparr>) = record_within r" for r x by (simp add: record_within_def)
  then have d: "limited ?d" using limited_read_state [OF assms(1), of accepted] by (simp add: limited_def all_map)
  then show ?thesis using assms(2) by (auto simp: open_journal_def Let_def limited_def split: option.splits list.splits)
qed

lemma limited_replaced: "limited j \<Longrightarrow> pred_option accounts_within accounts \<Longrightarrow> limited (accountReplacementState (stored_as accepted j) accounts account)"
  using limited_read_state [of j accepted] by (simp add: accountReplacementState_def limited_def)

lemma limited_executor: "limited j \<Longrightarrow> limited (assign_account account j)" "limited j \<Longrightarrow> limited (start_cleanup j)"
  by (simp_all add: limited_def assign_account_def start_cleanup_def)

text \<open>What may enter a journal without making it outgrow its schema.\<close>

fun sized :: "journal_env \<Rightarrow> journal_event \<Rightarrow> execution_journal \<Rightarrow> bool" where
  "sized env (Observed result known command page) j = output_fits env result known"
| "sized env (Stated d) j = (length (jn_records (fst (updatePartial env d j))) \<le> 50)"
| "sized env (Replaced accepted accounts account) j = pred_option accounts_within accounts"
| "sized env (Reopened accepted bindings) j = pred_option accounts_within (jn_accounts (open_journal env (stored_as accepted j) bindings))"
| "sized env e j = True"

lemma limited_event:
  assumes "execution_ok env i" and "limited i" and "sized env e i"
  shows "limited (after_event env e i)"
  using assms by (cases e) (auto simp: execution_ok_def [THEN iffD1] intro: limited_observe limited_statement limited_block
      limited_executor limited_replaced limited_open)

end
