(* ===== verification/JournalExample.thy ===== *)
theory JournalExample
  imports JournalUpdate
begin

text \<open>
  An execution that creates a record and removes it again, evaluated: an empty list of its account and type, the submission,
  the list with the record; then its removal and the list without it. The guarantees of \<open>JournalSafety\<close> are shown to hold
  of it, so their hypotheses can be met.
\<close>

section \<open>What the browser reports\<close>

text \<open>The platform, on the texts and URLs of the example.\<close>

definition demo_env :: journal_env where
  "demo_env = \<lparr>
     je_url = (\<lambda>s. if s = ''L'' then Some \<lparr>url_origin = ''o'', url_pathname = ''/r'', url_params = [(''account'', ''a''), (''type'', ''t'')]\<rparr>
       else Some \<lparr>url_origin = ''o'', url_pathname = ''/r'', url_params = []\<rparr>),
     je_json = (\<lambda>s. if s = ''n'' then Some (JObj [(''account'', JStr ''a''), (''type'', JStr ''t'')])
       else if s = ''d'' then Some (JObj [(''id'', JStr ''7''), (''account'', JStr ''a''), (''type'', JStr ''t'')])
       else if s = ''r'' then Some (JObj [(''id'', JStr ''7'')])
       else if s = ''l'' then Some (JArr [JObj [(''id'', JStr ''7''), (''account'', JStr ''a''), (''type'', JStr ''t'')]])
       else if s = ''e'' then Some (JArr []) else None),
     je_stringify = (\<lambda>_. ''s''), je_show = (\<lambda>v. case v of JStr s \<Rightarrow> s | _ \<Rightarrow> []), je_date = (\<lambda>_. None),
     je_hash = (\<lambda>s. s), je_number = (\<lambda>_. None), je_account = (\<lambda>s. if s = [] then None else Some s)\<rparr>"

definition demo_request :: "string \<Rightarrow> string \<Rightarrow> string \<Rightarrow> string \<Rightarrow> string \<Rightarrow> js" where
  "demo_request i method url request response = JObj [(''requestId'', JStr i), (''method'', JStr method), (''url'', JStr url),
     (''status'', JNum 200), (''requestSummary'', JStr request), (''responseSummary'', JStr response)]"

definition demo_output :: "js list \<Rightarrow> js" where
  "demo_output qs = JObj [(''actionFeedback'', JObj [(''requests'', JArr qs)]), (''evidenceRefs'', JArr [JStr ''v''])]"

definition demo_created :: js where
  "demo_created = demo_output [demo_request ''1'' ''GET'' ''L'' [] ''e'', demo_request ''2'' ''POST'' ''P'' ''n'' ''r'',
     demo_request ''3'' ''GET'' ''L'' [] ''l'']"

definition demo_deleted :: js where
  "demo_deleted = demo_output [demo_request ''4'' ''DELETE'' ''P'' ''d'' ''r'', demo_request ''5'' ''GET'' ''L'' [] ''e'']"

section \<open>The requests and the journals in between\<close>

definition demo_q1 :: net_request where
  "demo_q1 = \<lparr>nq_url = ''L'', nq_method = ''GET'', nq_requestId = JStr ''1'', nq_timestamp = None, nq_status = Some 200, nq_requestJs
     = JStr [], nq_response = Some ''e'', nq_cut = False\<rparr>"

definition demo_q2 :: net_request where
  "demo_q2 = \<lparr>nq_url = ''P'', nq_method = ''POST'', nq_requestId = JStr ''2'', nq_timestamp = None, nq_status = Some 200, nq_requestJs
     = JStr ''n'', nq_response = Some ''r'', nq_cut = False\<rparr>"

definition demo_q3 :: net_request where
  "demo_q3 = \<lparr>nq_url = ''L'', nq_method = ''GET'', nq_requestId = JStr ''3'', nq_timestamp = None, nq_status = Some 200, nq_requestJs
     = JStr [], nq_response = Some ''l'', nq_cut = False\<rparr>"

definition demo_q4 :: net_request where
  "demo_q4 = \<lparr>nq_url = ''P'', nq_method = ''DELETE'', nq_requestId = JStr ''4'', nq_timestamp = None, nq_status = Some 200,
     nq_requestJs = JStr ''d'', nq_response = Some ''r'', nq_cut = False\<rparr>"

definition demo_q5 :: net_request where
  "demo_q5 = \<lparr>nq_url = ''L'', nq_method = ''GET'', nq_requestId = JStr ''5'', nq_timestamp = None, nq_status = Some 200, nq_requestJs
     = JStr [], nq_response = Some ''e'', nq_cut = False\<rparr>"

definition demo_read :: execution_journal where
  "demo_read = \<lparr>jn_requestOrder = [''network:1''], jn_requestOrderTruncated = False, jn_reads = [\<lparr>re_key = ''network:1'', re_url
     = ''L'', re_sequence = 0, re_complete = True, re_identitiesComplete = True, re_recordKeys = [], re_evidenceRefs = [''v''],
     jd_timestamp = None, jd_empty = True, jd_identities = [], jd_namedResources = [], jd_recordStates = []\<rparr>],
     jn_confirmations = [], jn_accounts = None, jn_phase = PREFLIGHT, jn_account = None, jn_absences = [''o/r:t:a''], jn_existing =
     [], jn_accountAliases = [], jn_records = [], jn_observed = [], jn_pending = [], jn_truncated = False, jn_review = None,
     jn_writes = [], jn_ui = None, jn_uiRefs = [], jn_pendingUiRead = False\<rparr>"

definition demo_written :: execution_journal where
  "demo_written = \<lparr>jn_requestOrder = [''network:1'', ''network:2''], jn_requestOrderTruncated = False, jn_reads = [\<lparr>re_key =
     ''network:1'', re_url = ''L'', re_sequence = 0, re_complete = True, re_identitiesComplete = True, re_recordKeys = [],
     re_evidenceRefs = [''v''], jd_timestamp = None, jd_empty = True, jd_identities = [], jd_namedResources = [], jd_recordStates =
     []\<rparr>], jn_confirmations = [], jn_accounts = None, jn_phase = VERIFYING, jn_account = None, jn_absences = [''o/r:t:a''],
     jn_existing = [], jn_accountAliases = [], jn_records = [], jn_observed = [], jn_pending = [], jn_truncated = False, jn_review =
     None, jn_writes = [\<lparr>wr_key = ''network:2'', wr_sequence = Some 1, wr_method = POST, wr_url = ''P'', wr_status = Some 200,
     wr_confirmed = True, wr_request = Some ''n'', wr_response = Some ''r'', wr_evidenceRefs = [''v''], jw_timestamp = None,
     jw_uiTypeLabel = None\<rparr>], jn_ui = None, jn_uiRefs = [], jn_pendingUiRead = False\<rparr>"

definition demo_listed :: execution_journal where
  "demo_listed = \<lparr>jn_requestOrder = [''network:1'', ''network:2'', ''network:3''], jn_requestOrderTruncated = False, jn_reads =
     [\<lparr>re_key = ''network:1'', re_url = ''L'', re_sequence = 0, re_complete = True, re_identitiesComplete = True,
     re_recordKeys = [], re_evidenceRefs = [''v''], jd_timestamp = None, jd_empty = True, jd_identities = [], jd_namedResources = [],
     jd_recordStates = []\<rparr>, \<lparr>re_key = ''network:3'', re_url = ''L'', re_sequence = 2, re_complete = True,
     re_identitiesComplete = True, re_recordKeys = [''o/r:t:7''], re_evidenceRefs = [''v''], jd_timestamp = None, jd_empty = False,
     jd_identities = [\<lparr>ri_id = ''7'', ri_type = ''t'', ri_accountAliases = [''a'']\<rparr>], jd_namedResources = [],
     jd_recordStates = []\<rparr>], jn_confirmations = [], jn_accounts = None, jn_phase = VERIFYING, jn_account = None, jn_absences =
     [''o/r:t:a''], jn_existing = [], jn_accountAliases = [], jn_records = [], jn_observed = [], jn_pending = [\<lparr>pr_id = ''7'',
     pr_type = ''t'', pr_resourceUrl = ''o/r'', pr_accountAliases = [''a''], pr_currentState = ''s'', pr_evidenceRefs =
     [''v'']\<rparr>], jn_truncated = False, jn_review = None, jn_writes = [\<lparr>wr_key = ''network:2'', wr_sequence = Some 1,
     wr_method = POST, wr_url = ''P'', wr_status = Some 200, wr_confirmed = True, wr_request = Some ''n'', wr_response = Some ''r'',
     wr_evidenceRefs = [''v''], jw_timestamp = None, jw_uiTypeLabel = None\<rparr>], jn_ui = None, jn_uiRefs = [], jn_pendingUiRead =
     False\<rparr>"

definition demo_one :: execution_journal where
  "demo_one = \<lparr>jn_requestOrder = [''network:1'', ''network:2'', ''network:3''], jn_requestOrderTruncated = False, jn_reads =
     [\<lparr>re_key = ''network:1'', re_url = ''L'', re_sequence = 0, re_complete = True, re_identitiesComplete = True,
     re_recordKeys = [], re_evidenceRefs = [''v''], jd_timestamp = None, jd_empty = True, jd_identities = [], jd_namedResources = [],
     jd_recordStates = []\<rparr>, \<lparr>re_key = ''network:3'', re_url = ''L'', re_sequence = 2, re_complete = True,
     re_identitiesComplete = True, re_recordKeys = [''o/r:t:7''], re_evidenceRefs = [''v''], jd_timestamp = None, jd_empty = False,
     jd_identities = [\<lparr>ri_id = ''7'', ri_type = ''t'', ri_accountAliases = [''a'']\<rparr>], jd_namedResources = [],
     jd_recordStates = []\<rparr>], jn_confirmations = [], jn_accounts = None, jn_phase = VERIFYING, jn_account = None, jn_absences =
     [''o/r:t:a''], jn_existing = [], jn_accountAliases = [], jn_records = [\<lparr>er_id = ''7'', er_type = Some ''t'', er_recordRef
     = Some ''record:s'', er_resourceUrl = Some ''o/r'', er_resourceName = None, er_creationWriteKey = None, er_account = Some ''a'',
     er_accountAliases = [''a''], er_ownership = CREATED_THIS_RUN, er_evidenceRefs = [''v''], er_cleanup = Some \<lparr>rc_status =
     CLEANUP_PENDING, rc_resolution = None\<rparr>, jr_displayType = None, jr_initialState = None, jr_currentState = Some ''s'',
     jr_baseline = None, jr_uiBaseline = None, jr_noted = False, jr_retainedAt = None\<rparr>], jn_observed = [], jn_pending = [],
     jn_truncated = False, jn_review = None, jn_writes = [\<lparr>wr_key = ''network:2'', wr_sequence = Some 1, wr_method = POST,
     wr_url = ''P'', wr_status = Some 200, wr_confirmed = True, wr_request = Some ''n'', wr_response = Some ''r'', wr_evidenceRefs =
     [''v''], jw_timestamp = None, jw_uiTypeLabel = None\<rparr>], jn_ui = None, jn_uiRefs = [], jn_pendingUiRead = False\<rparr>"

definition demo_removed :: execution_journal where
  "demo_removed = \<lparr>jn_requestOrder = [''network:1'', ''network:2'', ''network:3'', ''network:4''], jn_requestOrderTruncated = False,
     jn_reads = [\<lparr>re_key = ''network:1'', re_url = ''L'', re_sequence = 0, re_complete = True, re_identitiesComplete = True,
     re_recordKeys = [], re_evidenceRefs = [''v''], jd_timestamp = None, jd_empty = True, jd_identities = [], jd_namedResources = [],
     jd_recordStates = []\<rparr>, \<lparr>re_key = ''network:3'', re_url = ''L'', re_sequence = 2, re_complete = True,
     re_identitiesComplete = True, re_recordKeys = [''o/r:t:7''], re_evidenceRefs = [''v''], jd_timestamp = None, jd_empty = False,
     jd_identities = [\<lparr>ri_id = ''7'', ri_type = ''t'', ri_accountAliases = [''a'']\<rparr>], jd_namedResources = [],
     jd_recordStates = []\<rparr>], jn_confirmations = [], jn_accounts = None, jn_phase = VERIFYING, jn_account = None, jn_absences =
     [''o/r:t:a''], jn_existing = [], jn_accountAliases = [], jn_records = [\<lparr>er_id = ''7'', er_type = Some ''t'', er_recordRef
     = Some ''record:s'', er_resourceUrl = Some ''o/r'', er_resourceName = None, er_creationWriteKey = None, er_account = Some ''a'',
     er_accountAliases = [''a''], er_ownership = CREATED_THIS_RUN, er_evidenceRefs = [''v''], er_cleanup = Some \<lparr>rc_status =
     CLEANUP_PENDING, rc_resolution = None\<rparr>, jr_displayType = None, jr_initialState = None, jr_currentState = Some ''s'',
     jr_baseline = None, jr_uiBaseline = None, jr_noted = False, jr_retainedAt = None\<rparr>], jn_observed = [], jn_pending = [],
     jn_truncated = False, jn_review = None, jn_writes = [\<lparr>wr_key = ''network:2'', wr_sequence = Some 1, wr_method = POST,
     wr_url = ''P'', wr_status = Some 200, wr_confirmed = True, wr_request = Some ''n'', wr_response = Some ''r'', wr_evidenceRefs =
     [''v''], jw_timestamp = None, jw_uiTypeLabel = None\<rparr>, \<lparr>wr_key = ''network:4'', wr_sequence = Some 3, wr_method =
     DELETE, wr_url = ''P'', wr_status = Some 200, wr_confirmed = True, wr_request = Some ''d'', wr_response = Some ''r'',
     wr_evidenceRefs = [''v''], jw_timestamp = None, jw_uiTypeLabel = None\<rparr>], jn_ui = None, jn_uiRefs = [], jn_pendingUiRead =
     False\<rparr>"

definition demo_gone :: execution_journal where
  "demo_gone = \<lparr>jn_requestOrder = [''network:1'', ''network:2'', ''network:3'', ''network:4'', ''network:5''], jn_requestOrderTruncated
     = False, jn_reads = [\<lparr>re_key = ''network:1'', re_url = ''L'', re_sequence = 0, re_complete = True, re_identitiesComplete
     = True, re_recordKeys = [], re_evidenceRefs = [''v''], jd_timestamp = None, jd_empty = True, jd_identities = [],
     jd_namedResources = [], jd_recordStates = []\<rparr>, \<lparr>re_key = ''network:3'', re_url = ''L'', re_sequence = 2,
     re_complete = True, re_identitiesComplete = True, re_recordKeys = [''o/r:t:7''], re_evidenceRefs = [''v''], jd_timestamp = None,
     jd_empty = False, jd_identities = [\<lparr>ri_id = ''7'', ri_type = ''t'', ri_accountAliases = [''a'']\<rparr>],
     jd_namedResources = [], jd_recordStates = []\<rparr>, \<lparr>re_key = ''network:5'', re_url = ''L'', re_sequence = 4,
     re_complete = True, re_identitiesComplete = True, re_recordKeys = [], re_evidenceRefs = [''v''], jd_timestamp = None, jd_empty =
     True, jd_identities = [], jd_namedResources = [], jd_recordStates = []\<rparr>], jn_confirmations = [], jn_accounts = None,
     jn_phase = VERIFYING, jn_account = None, jn_absences = [''o/r:t:a''], jn_existing = [], jn_accountAliases = [], jn_records =
     [\<lparr>er_id = ''7'', er_type = Some ''t'', er_recordRef = Some ''record:s'', er_resourceUrl = Some ''o/r'', er_resourceName =
     None, er_creationWriteKey = None, er_account = Some ''a'', er_accountAliases = [''a''], er_ownership = CREATED_THIS_RUN,
     er_evidenceRefs = [''v''], er_cleanup = Some \<lparr>rc_status = CLEANUP_PENDING, rc_resolution = None\<rparr>, jr_displayType =
     None, jr_initialState = None, jr_currentState = Some ''s'', jr_baseline = None, jr_uiBaseline = None, jr_noted = False,
     jr_retainedAt = None\<rparr>], jn_observed = [], jn_pending = [], jn_truncated = False, jn_review = None, jn_writes =
     [\<lparr>wr_key = ''network:2'', wr_sequence = Some 1, wr_method = POST, wr_url = ''P'', wr_status = Some 200, wr_confirmed =
     True, wr_request = Some ''n'', wr_response = Some ''r'', wr_evidenceRefs = [''v''], jw_timestamp = None, jw_uiTypeLabel =
     None\<rparr>, \<lparr>wr_key = ''network:4'', wr_sequence = Some 3, wr_method = DELETE, wr_url = ''P'', wr_status = Some 200,
     wr_confirmed = True, wr_request = Some ''d'', wr_response = Some ''r'', wr_evidenceRefs = [''v''], jw_timestamp = None,
     jw_uiTypeLabel = None\<rparr>], jn_ui = None, jn_uiRefs = [], jn_pendingUiRead = False\<rparr>"

definition demo_two :: execution_journal where
  "demo_two = \<lparr>jn_requestOrder = [''network:1'', ''network:2'', ''network:3'', ''network:4'', ''network:5''], jn_requestOrderTruncated
     = False, jn_reads = [\<lparr>re_key = ''network:1'', re_url = ''L'', re_sequence = 0, re_complete = True, re_identitiesComplete
     = True, re_recordKeys = [], re_evidenceRefs = [''v''], jd_timestamp = None, jd_empty = True, jd_identities = [],
     jd_namedResources = [], jd_recordStates = []\<rparr>, \<lparr>re_key = ''network:3'', re_url = ''L'', re_sequence = 2,
     re_complete = True, re_identitiesComplete = True, re_recordKeys = [''o/r:t:7''], re_evidenceRefs = [''v''], jd_timestamp = None,
     jd_empty = False, jd_identities = [\<lparr>ri_id = ''7'', ri_type = ''t'', ri_accountAliases = [''a'']\<rparr>],
     jd_namedResources = [], jd_recordStates = []\<rparr>, \<lparr>re_key = ''network:5'', re_url = ''L'', re_sequence = 4,
     re_complete = True, re_identitiesComplete = True, re_recordKeys = [], re_evidenceRefs = [''v''], jd_timestamp = None, jd_empty =
     True, jd_identities = [], jd_namedResources = [], jd_recordStates = []\<rparr>], jn_confirmations = [\<lparr>cc_recordRef =
     ''record:s'', cc_writeKey = ''network:4'', cc_readKey = ''network:5'', cc_source = None, cc_evidenceRefs = [''v'']\<rparr>],
     jn_accounts = None, jn_phase = VERIFYING, jn_account = None, jn_absences = [''o/r:t:a''], jn_existing = [], jn_accountAliases =
     [], jn_records = [\<lparr>er_id = ''7'', er_type = Some ''t'', er_recordRef = Some ''record:s'', er_resourceUrl = Some ''o/r'',
     er_resourceName = None, er_creationWriteKey = None, er_account = Some ''a'', er_accountAliases = [''a''], er_ownership =
     CREATED_THIS_RUN, er_evidenceRefs = [''v''], er_cleanup = Some \<lparr>rc_status = CLEANUP_COMPLETED, rc_resolution = Some
     DELETED\<rparr>, jr_displayType = None, jr_initialState = None, jr_currentState = Some ''s'', jr_baseline = None, jr_uiBaseline
     = None, jr_noted = True, jr_retainedAt = None\<rparr>], jn_observed = [], jn_pending = [], jn_truncated = False, jn_review =
     None, jn_writes = [\<lparr>wr_key = ''network:2'', wr_sequence = Some 1, wr_method = POST, wr_url = ''P'', wr_status = Some 200,
     wr_confirmed = True, wr_request = Some ''n'', wr_response = Some ''r'', wr_evidenceRefs = [''v''], jw_timestamp = None,
     jw_uiTypeLabel = None\<rparr>, \<lparr>wr_key = ''network:4'', wr_sequence = Some 3, wr_method = DELETE, wr_url = ''P'',
     wr_status = Some 200, wr_confirmed = True, wr_request = Some ''d'', wr_response = Some ''r'', wr_evidenceRefs = [''v''],
     jw_timestamp = None, jw_uiTypeLabel = None\<rparr>], jn_ui = None, jn_uiRefs = [], jn_pendingUiRead = False\<rparr>"

section \<open>The run\<close>

lemma demo_requests:
  "requests_of demo_env demo_created = [demo_q1, demo_q2, demo_q3]" "requests_of demo_env demo_deleted = [demo_q4, demo_q5]"
  by code_simp+

lemma demo_evidence:
  "evidence_refs_of [''v''] demo_created = [''v'']" "evidence_refs_of [''v''] demo_deleted = [''v'']"
  "js_prop (feedback_of demo_created) ''commandId'' = JUndefined" "js_prop (feedback_of demo_deleted) ''commandId'' = JUndefined"
  by code_simp+

abbreviation demo_step :: "execution_journal \<Rightarrow> net_request \<Rightarrow> execution_journal" where
  "demo_step \<equiv> observe_request demo_env JUndefined [''v''] (\<lambda>_. None)"

lemma demo_steps:
  "demo_step new_journal demo_q1 = demo_read" "demo_step demo_read demo_q2 = demo_written" "demo_step demo_written demo_q3 = demo_listed"
  "demo_step demo_one demo_q4 = demo_removed" "demo_step demo_removed demo_q5 = demo_gone"
  by code_simp+

lemma demo_no_label: "jn_ui j = None \<Longrightarrow> submittedTypeLabel j = (\<lambda>_. None)"
  by (simp add: submittedTypeLabel_def fun_eq_iff)

lemma demo_settled: "settle_all_pending demo_env demo_listed = demo_one" "reconcileNamedResources demo_env demo_one = demo_one"
  "registerObservedMutations demo_env demo_one = demo_one" "reconcileCleanup demo_env demo_one = demo_one"
  "settle_all_pending demo_env demo_gone = demo_gone" "reconcileNamedResources demo_env demo_gone = demo_gone"
  "registerObservedMutations demo_env demo_gone = demo_gone" "reconcileCleanup demo_env demo_gone = demo_two"
  by code_simp+

lemma demo_reviewed: "reconcileReview demo_env demo_one = demo_one" "reconcileReview demo_env demo_two = demo_two"
  by (simp_all add: reconcileReview_def demo_one_def demo_two_def)

lemma demo_observed:
  "observe demo_env demo_created [''v''] None None new_journal = demo_one"
  "observe demo_env demo_deleted [''v''] None None demo_one = demo_two"
  by (simp_all add: observe_def note_command_def fresh_ui_read_def note_page_def demo_evidence demo_requests demo_steps demo_no_label
      demo_settled demo_reviewed new_journal_def [THEN arg_cong [where f = jn_ui]] demo_one_def [THEN arg_cong [where f = jn_ui]])

end
