(* ===== verification/JournalSafety.thy ===== *)
theory JournalSafety
  imports JournalLimits JournalExample
begin

text \<open>
  What the execution journal guarantees, over every way it can go: cleanups it counts as done are proved by what the
  browser reported, what it says the run created was created by a submission it saw, facts about a record are permanent
  as long as the stored journal is read back, and the stored journal stays within its schema if what enters it is small.
\<close>

section \<open>What becomes of a journal\<close>

text \<open>One event that is possible, of those with \<open>P\<close>; an execution starts with an empty journal.\<close>

inductive journal_step :: "journal_env \<Rightarrow> (journal_event \<Rightarrow> execution_journal \<Rightarrow> bool) \<Rightarrow> execution_journal \<Rightarrow> execution_journal \<Rightarrow> bool"
  for env P where
  Event: "event_possible e j \<Longrightarrow> P e j \<Longrightarrow> journal_step env P j (after_event env e j)"

inductive_cases journal_stepE: "journal_step env P i j"

abbreviation any_event :: "journal_event \<Rightarrow> execution_journal \<Rightarrow> bool" where
  "any_event \<equiv> \<lambda>e j. True"

text \<open>The stored journal is read back.\<close>

fun read_back :: "journal_event \<Rightarrow> execution_journal \<Rightarrow> bool" where
  "read_back (Replaced accepted accounts account) j = accepted"
| "read_back (Reopened accepted bindings) j = accepted"
| "read_back e j = True"

definition journal_reachable :: "journal_env \<Rightarrow> execution_journal \<Rightarrow> bool" where
  "journal_reachable env = (journal_step env any_event)\<^sup>*\<^sup>* new_journal"

lemma step_any: "journal_step env P i j \<Longrightarrow> journal_step env any_event i j"
  by (auto elim!: journal_stepE intro: journal_step.intros)

lemma steps_any: "(journal_step env P)\<^sup>*\<^sup>* i j \<Longrightarrow> (journal_step env any_event)\<^sup>*\<^sup>* i j"
  using rtranclp_mono [of "journal_step env P" "journal_step env any_event"] step_any by blast

section \<open>Every event keeps the journal right\<close>

lemma empty_ok: "execution_ok env new_journal"
  by (simp add: execution_ok_def sound_def tracked_def watched_def started_def proved_def attested_def evidenced_def
      from_network_def new_journal_def cores_def)

text \<open>The invariant does not read the accounts, the absences and the page.\<close>

definition same_books :: "execution_journal \<Rightarrow> execution_journal \<Rightarrow> bool" where
  "same_books i j \<longleftrightarrow> jn_records j = jn_records i \<and> jn_confirmations j = jn_confirmations i \<and> jn_writes j = jn_writes i
     \<and> jn_reads j = jn_reads i \<and> jn_observed j = jn_observed i \<and> (jn_phase j = jn_phase i \<or> jn_phase j = CLEANUP_PHASE)"

lemma same_books_ok:
  assumes "execution_ok env i" and "same_books i j"
  shows "execution_ok env j"
proof -
  have f: "cores j = cores i" "jn_records j = jn_records i" "jn_confirmations j = jn_confirmations i" "jn_writes j = jn_writes i"
    "jn_reads j = jn_reads i" "jn_observed j = jn_observed i"
    using assms(2) by (simp_all add: same_books_def cores_def)
  have "started j" using assms by (auto simp: execution_ok_def sound_def started_def same_books_def)
  then have "sound j" using assms(1) by (simp add: execution_ok_def sound_def tracked_def watched_def f)
  then show ?thesis using assms(1)
    by (simp add: execution_ok_def proved_def attested_def evidenced_def from_network_def undone_rest [OF f(4,5)]
        latest_mutation_writes [OF f(4)] f)
qed

lemma open_books:
  assumes "sound j"
  shows "same_books j (open_journal env (Some j) bs)"
proof -
  have "map (\<lambda>r. if er_recordRef r = None then r\<lparr>er_recordRef :=
      Some (stableRecordRef env (er_resourceUrl r) (er_type r) (er_id r) (er_account r))\<rparr> else r) (jn_records j) = jn_records j"
    by (rule map_idI) (use assms tracked_ref in \<open>force simp: sound_def\<close>)
  then show ?thesis by (simp add: same_books_def open_journal_def readExecutionState_def Let_def split: option.split list.split)
qed

lemma open_refused: "same_books new_journal (open_journal env None bs)"
  by (simp add: same_books_def open_journal_def readExecutionState_def new_journal_def Let_def split: option.split list.split)

lemma replaced_books:
  "same_books j (accountReplacementState (Some j) accounts account)" "same_books new_journal (accountReplacementState None accounts account)"
  by (simp_all add: same_books_def accountReplacementState_def readExecutionState_def)

lemma executor_books: "same_books j (assign_account account j)" "same_books j (start_cleanup j)"
  by (simp_all add: same_books_def assign_account_def start_cleanup_def)

text \<open>What an event does: it observes, states or blocks; or it leaves the books alone, those of the journal or those of
  an empty one.\<close>

lemma event_cases:
  assumes "sound i" and "P e i"
  obtains (Observe) result known command page where "after_event env e i = observe env result known command page i"
  | (State) d where "after_event env e i = fst (updatePartial env d i)"
  | (Block) reason where "after_event env e i = blockCleanup env reason i"
  | (Same) "same_books i (after_event env e i)"
  | (Lost) "\<not> read_back e i" "same_books new_journal (after_event env e i)"
proof (cases e)
  case (Replaced accepted accounts account)
  then show thesis using Same Lost replaced_books by (cases accepted) (simp_all add: stored_as_def)
next
  case (Reopened accepted bindings)
  then show thesis using Same Lost open_books [OF assms(1)] open_refused by (cases accepted) (simp_all add: stored_as_def)
qed (use Observe State Block Same executor_books in simp_all)

lemma partial_ok: "execution_ok env i \<Longrightarrow> execution_ok env (fst (updatePartial env d i))"
  by (rule partial_induct [where P = "execution_ok env"]) (auto intro: statement_ok)

lemma event_ok:
  assumes "execution_ok env i"
  shows "execution_ok env (after_event env e i)"
proof -
  have s: "sound i" using assms by (simp add: execution_ok_def)
  show ?thesis
  proof (cases rule: event_cases [OF s TrueI, of env e])
    case 4
    then show ?thesis using same_books_ok [OF assms] by simp
  next
    case 5
    then show ?thesis using same_books_ok [OF empty_ok] by simp
  qed (use s assms observe_ok partial_ok block_ok in simp_all)
qed

lemma reachable_ok: "journal_reachable env j \<Longrightarrow> execution_ok env j"
  unfolding journal_reachable_def
  by (induction rule: rtranclp_induct) (auto simp: empty_ok elim!: journal_stepE intro: event_ok)

section \<open>Records of a journal to come\<close>

definition known_record :: "journal_env \<Rightarrow> execution_journal \<Rightarrow> string \<Rightarrow> journal_record option" where
  "known_record env j k = List.find (\<lambda>r. key_of env r = k) (jn_records j)"

text \<open>The record a key stands for keeps its identity, its ownership, its first state and its duty to be cleaned up.\<close>

definition same_facts :: "journal_record \<Rightarrow> journal_record \<Rightarrow> bool" where
  "same_facts r s \<longleftrightarrow> same_identity r s \<and> er_ownership s = er_ownership r
     \<and> (jr_initialState r \<noteq> None \<longrightarrow> jr_initialState s = jr_initialState r) \<and> (er_cleanup r \<noteq> None \<longrightarrow> er_cleanup s \<noteq> None)"

definition journal_before :: "journal_env \<Rightarrow> execution_journal \<Rightarrow> execution_journal \<Rightarrow> bool" where
  "journal_before env i j \<longleftrightarrow> (\<forall>k r. known_record env i k = Some r \<longrightarrow> (\<exists>s. known_record env j k = Some s \<and> same_facts r s))"

lemma beforeD: "journal_before env i j \<Longrightarrow> known_record env i k = Some r \<Longrightarrow> \<exists>s. known_record env j k = Some s \<and> same_facts r s"
  by (simp add: journal_before_def)

lemma find_related:
  assumes "list_all2 R xs (take (length xs) ys)" and "\<And>x y. R x y \<Longrightarrow> P y = P x" and "List.find P xs = Some x"
  shows "\<exists>y. List.find P ys = Some y \<and> R x y"
  using assms
proof (induction xs arbitrary: ys)
  case (Cons z zs)
  then obtain w ws where "ys = w # ws" by (cases ys) auto
  then show ?case using Cons by (auto split: if_splits)
qed simp

lemma core_key: "core r = core s \<Longrightarrow> key_of env r = key_of env s"
  using core_fields [of r s] by (simp add: executionRecordKey_def)

lemma cores_before:
  assumes "cores j = cores i @ new"
  shows "journal_before env i j"
proof -
  have e: "map core (take (length (jn_records i)) (jn_records j)) = map core (jn_records i)"
    using assms by (simp add: cores_def take_map [symmetric])
  have "list_all2 (=) (map core (jn_records i)) (map core (take (length (jn_records i)) (jn_records j)))"
    unfolding e by (simp add: list.rel_eq)
  then have l: "list_all2 (\<lambda>x y. core x = core y) (jn_records i) (take (length (jn_records i)) (jn_records j))"
    unfolding list.rel_map .
  show ?thesis
    unfolding journal_before_def known_record_def
  proof (intro allI impI)
    fix k r
    assume f: "List.find (\<lambda>r. key_of env r = k) (jn_records i) = Some r"
    obtain s where s: "List.find (\<lambda>r. key_of env r = k) (jn_records j) = Some s" "core r = core s"
      using find_related [OF l _ f] core_key [of _ _ env] by (metis (mono_tags, lifting))
    have "same_facts r s" using core_fields [OF s(2)] identity_core [OF s(2)] by (simp add: same_facts_def)
    then show "\<exists>s. List.find (\<lambda>r. key_of env r = k) (jn_records j) = Some s \<and> same_facts r s" using s(1) by blast
  qed
qed

lemma before_trans:
  assumes "journal_before env i j" and "journal_before env j k"
  shows "journal_before env i k"
  unfolding journal_before_def
proof (intro allI impI)
  fix x r
  assume "known_record env i x = Some r"
  then obtain s where s: "known_record env j x = Some s" "same_facts r s" using assms(1) by (auto simp: journal_before_def)
  then obtain t where t: "known_record env k x = Some t" "same_facts s t" using assms(2) by (auto simp: journal_before_def)
  have "same_facts r t" using s(2) t(2) identity_trans [of r s t] by (auto simp: same_facts_def)
  then show "\<exists>t. known_record env k x = Some t \<and> same_facts r t" using t(1) by blast
qed

lemma page_shape: "sound j \<Longrightarrow> cores (note_page env page ev j) = cores j \<and> jn_writes (note_page env page ev j) = jn_writes j"
proof (cases page)
  case (Some p)
  assume "sound j"
  then have "ui_kept (\<lambda>_. False) j (observeUi env p ev (jn_pendingUiRead j) j)"
    by (intro observeUi_kept) (auto simp: sound_def evidenced_def)
  then show ?thesis using rest_fields(11) [of "observeUi env p ev (jn_pendingUiRead j) j" j]
    by (simp add: note_page_def Some ui_kept_def shape_def)
qed (simp add: note_page_def)

lemma settled_grown:
  assumes "sound j"
  shows "grown (founded env (jn_writes j)) j (settled env j) \<and> jn_writes (settled env j) = jn_writes j"
proof -
  let ?a = "settle_all_pending env j"
  let ?b = "reconcileNamedResources env ?a"
  have b: "jn_writes ?b = jn_writes j" "grown (founded env (jn_writes j)) ?a ?b" using named_all_grown [of env ?a] by simp_all
  have "watched ?b" using assms named_sound settle_sound by (auto simp: sound_def)
  from register_all_grown [OF this, of env "jn_writes j"] have "grown (founded env (jn_writes j)) ?b (settled env j)"
    "jn_writes (settled env j) = jn_writes j" using b by (simp_all add: settled_def)
  then show ?thesis using settle_all_grown [of env j] b(2) grown_trans by blast
qed

lemma observe_grown:
  assumes s: "sound j"
  shows "grown (founded env (jn_writes (observe env output known command page j))) j (observe env output known command page j)"
proof -
  let ?j = "observe env output known command page j"
  define d where "d = after_requests env output known command j"
  have d: "sound d" unfolding d_def by (rule requests_sound [OF s])
  have "cores d = cores j"
    by (auto simp: d_def after_requests_def Let_def note_command_def split: option.splits)
  moreover note g = settled_grown [OF d, of env]
  moreover have "sound (reconcileCleanup env (settled env d))" using reconciled_ok [OF settled_sound [OF d]] by (simp add: execution_ok_def)
  note p = page_shape [OF this, of env page "evidence_refs_of known output"]
  have "cores ?j = cores (settled env d)" "jn_writes ?j = jn_writes d"
    using p g by (simp_all add: observe_alt d_def)
  ultimately show ?thesis by (simp add: grown_def)
qed

section \<open>What an event keeps, and what it may add\<close>

lemma find_in_front: "List.find P xs = Some x \<Longrightarrow> List.find P (xs @ ys) = Some x"
  by (induction xs) auto

lemma list_all2_member: "list_all2 R xs ys \<Longrightarrow> y \<in> set ys \<Longrightarrow> \<exists>x\<in>set xs. R x y"
  by (induction rule: list_all2_induct) auto

lemma find_in_back: "List.find P (xs @ ys) = Some x \<Longrightarrow> List.find P xs = None \<Longrightarrow> List.find P ys = Some x"
  by (induction xs) (auto split: if_splits)

lemma not_refused_facts:
  assumes "record_refused env j s = None" and "known_record env j (key_of env s) = Some r" and "kept r s"
  shows "same_facts r s"
  using assms by (auto simp: record_refused_def Let_def first_by_key_def known_record_def same_facts_def kept_def split: if_splits)

lemma kept_key: "kept r s \<Longrightarrow> key_of env s = key_of env r"
  by (auto simp: kept_def intro: identity_key)

lemma update_before:
  assumes u: "update env d i = (j', e)" and s: "sound i"
  shows "journal_before env i j'"
proof (cases rule: update_cases [OF u s])
  case (1 news)
  then show ?thesis using adopted_grown [OF 1(2)] by (intro cores_before) simp
next
  case (2 j merged news j3)
  let ?m = "j'\<lparr>jn_records := merged\<rparr>"
  obtain old new where o: "merged = old @ new" "list_all2 kept (jn_records i) old" using 2(4) by (auto simp: merging_def)
  have l: "list_all2 kept (jn_records i) (take (length (jn_records i)) merged)"
    using o list_all2_lengthD [OF o(2)] by simp
  have "journal_before env i ?m"
    unfolding journal_before_def
  proof (intro allI impI)
    fix k r
    assume k: "known_record env i k = Some r"
    have f: "List.find (\<lambda>x. key_of env x = k) (jn_records i) = Some r" using k by (simp add: known_record_def)
    obtain y where y: "List.find (\<lambda>x. key_of env x = k) merged = Some y" "kept r y"
      using find_related [OF l _ f] kept_key by metis
    have "y \<in> set merged" "key_of env y = k" using find_SomeD [OF y(1)] by auto
    moreover have "known_record env j k = Some r" using find_in_front [OF f] 2(3) by (simp add: known_record_def adopted_def)
    ultimately have "same_facts r y" using not_refused_facts [OF _ _ y(2)] not_refused(2) [OF 2(5)] by auto
    then show "\<exists>s. known_record env ?m k = Some s \<and> same_facts r s" using y(1) by (simp add: known_record_def)
  qed
  moreover have "journal_before env ?m j'"
    using accepted_fields(1) [OF 2(3,7,8,10)] by (intro cores_before [where new = "[]"]) (simp add: cores_def)
  ultimately show ?thesis by (rule before_trans)
qed

lemma before_refl: "journal_before env i i"
  by (simp add: journal_before_def same_facts_def)

lemma partial_before:
  assumes "execution_ok env i"
  shows "journal_before env i (fst (updatePartial env d i))"
proof -
  let ?P = "\<lambda>j. execution_ok env j \<and> journal_before env i j"
  have "?P (fst (updatePartial env d i))"
  proof (rule partial_induct)
    show "?P i" using assms before_refl by simp
    show "?P j'" if j: "?P j" and u: "update env d j = (j', e)" for j d j' e
    proof -
      have "sound j" using j by (simp add: execution_ok_def)
      then have "journal_before env j j'" by (rule update_before [OF u])
      then show ?thesis using j statement_ok [OF u] before_trans by blast
    qed
  qed
  then show ?thesis by simp
qed

lemma block_cores: "cores (blockCleanup env reason j) = cores j"
  by (simp add: blockCleanup_def Let_def cores_def core_cleanup comp_def)

text \<open>Only a stored journal that is not read back is forgotten.\<close>

lemma event_before:
  assumes "execution_ok env i" and "read_back e i"
  shows "journal_before env i (after_event env e i)"
proof -
  have s: "sound i" using assms(1) by (simp add: execution_ok_def)
  show ?thesis
  proof (cases rule: event_cases [OF s TrueI, of env e])
    case (1 result known command page)
    then show ?thesis using observe_grown [OF s, of env result known command page] by (auto simp: grown_def intro: cores_before)
  next
    case (2 d)
    then show ?thesis using partial_before [OF assms(1)] by simp
  next
    case (3 reason)
    then show ?thesis by (intro cores_before [where new = "[]"]) (simp add: block_cores)
  next
    case 4
    then show ?thesis by (intro cores_before [where new = "[]"]) (simp add: same_books_def cores_def)
  qed (use assms(2) in simp)
qed


section \<open>Where a created record comes from\<close>

text \<open>The journal holds a submission that created the record, and it was either named by the response, or no
  record was, or it is on the page.\<close>

definition created_in :: "journal_env \<Rightarrow> execution_journal \<Rightarrow> journal_record \<Rightarrow> bool" where
  "created_in env j r \<longleftrightarrow> (\<exists>w\<in>set (jn_writes j). created_by env w r \<and> (names_id env w (er_id r) \<or> shown j r w))"

lemma created_in_identity: "same_identity r s \<Longrightarrow> created_in env j r \<Longrightarrow> created_in env j s"
  using identity_created [of r s] by (auto simp: created_in_def same_identity_def)

lemma created_in_fields: "jn_writes j = jn_writes i \<Longrightarrow> jn_ui j = jn_ui i \<Longrightarrow> created_in env j r = created_in env i r"
  by (simp add: created_in_def shown_def)

text \<open>A key that is new in a journal, with a record of the run.\<close>

definition newly_created :: "journal_env \<Rightarrow> execution_journal \<Rightarrow> execution_journal \<Rightarrow> string \<Rightarrow> journal_record \<Rightarrow> bool" where
  "newly_created env i j k r \<longleftrightarrow> known_record env i k = None \<and> known_record env j k = Some r \<and> er_ownership r = CREATED_THIS_RUN"

lemma known_cores:
  assumes "known_record env j k = Some r" and "cores j = map core rs"
  obtains s where "List.find (\<lambda>x. key_of env x = k) rs = Some s" "core r = core s"
proof -
  have "list_all2 (\<lambda>x y. core x = core y) (jn_records j) rs"
    using assms(2) unfolding cores_def by (simp add: list_all2_conv_all_nth list_eq_iff_nth_eq)
  then have l: "list_all2 (\<lambda>x y. core x = core y) (jn_records j) (take (length (jn_records j)) rs)"
    by (simp add: list_all2_lengthD)
  have f: "List.find (\<lambda>x. key_of env x = k) (jn_records j) = Some r" using assms(1) by (simp add: known_record_def)
  show thesis using find_related [OF l _ f] core_key [of _ _ env] that by (metis (mono_tags, lifting))
qed

lemma observe_created:
  assumes "sound i" and "newly_created env i (observe env result known command page i) k r"
  shows "created_in env (observe env result known command page i) r"
proof -
  let ?j = "observe env result known command page i"
  obtain new where n: "cores ?j = cores i @ map core new" "\<forall>x\<in>set new. founded env (jn_writes ?j) x"
    using observe_grown [OF assms(1), of env result known command page] by (auto simp: grown_def)
  have k: "known_record env ?j k = Some r" "er_ownership r = CREATED_THIS_RUN"
    and none: "List.find (\<lambda>x. key_of env x = k) (jn_records i) = None"
    using assms(2) by (simp_all add: newly_created_def known_record_def)
  have "cores ?j = map core (jn_records i @ new)" using n(1) by (simp add: cores_def)
  from known_cores [OF k(1) this] obtain s where s: "List.find (\<lambda>x. key_of env x = k) (jn_records i @ new) = Some s" "core r = core s" .
  then have "s \<in> set new" using find_SomeD [OF find_in_back [OF s(1) none]] by simp
  moreover have "er_ownership s = CREATED_THIS_RUN" using core_fields(7) [OF s(2)] k(2) by simp
  ultimately have "created_in env ?j s" using n(2) by (auto simp: founded_def created_in_def)
  then show ?thesis using created_in_identity identity_core [OF s(2) [symmetric]] by blast
qed

lemma not_refused_claimed:
  assumes "record_refused env j r = None" and "er_ownership r = CREATED_THIS_RUN"
  shows "\<exists>x\<in>set (jn_records j). key_of env x = key_of env r \<and> er_ownership x = CREATED_THIS_RUN"
  using assms by (auto simp: record_refused_def Let_def list_ex_iff split: if_splits)

lemma founded_created: "ui_founded i env x \<Longrightarrow> created_in env i x"
  by (auto simp: ui_founded_def created_in_def)

lemma update_created:
  assumes u: "update env d i = (j', e)" and s: "sound i" and one: "length (pd_records d) \<le> 1" and n: "newly_created env i j' k r"
  shows "created_in env i r"
proof (cases rule: update_cases [OF u s])
  case (1 news)
  have j': "jn_records j' = jn_records i @ news" using 1(2) by (simp add: adopted_def)
  have "List.find (\<lambda>x. key_of env x = k) (jn_records i @ news) = Some r" "List.find (\<lambda>x. key_of env x = k) (jn_records i) = None"
    using n unfolding newly_created_def known_record_def j' by simp_all
  from find_in_back [OF this] have "r \<in> set news" by (rule find_SomeD [THEN conjunct1])
  moreover have "\<forall>x\<in>set news. ui_founded i env x" using 1(2) by (simp add: adopted_def)
  ultimately show ?thesis using founded_created by blast
next
  case (2 j merged news j3)
  have none: "List.find (\<lambda>x. key_of env x = k) (jn_records i) = None" and r: "known_record env j' k = Some r" "er_ownership r = CREATED_THIS_RUN"
    using n by (simp_all add: newly_created_def known_record_def)
  obtain y where y: "List.find (\<lambda>x. key_of env x = k) merged = Some y" "core r = core y"
    using known_cores [OF r(1) accepted_fields(1) [OF 2(3,7,8,10)]] .
  have own: "y \<in> set merged" "key_of env y = k" "er_ownership y = CREATED_THIS_RUN"
    using find_SomeD [OF y(1)] core_fields(7) [OF y(2)] r(2) by auto
  then obtain z where "z \<in> set (jn_records j)" "key_of env z = k" using not_refused_claimed not_refused(2) [OF 2(5)] by blast
  moreover have free: "key_of env z \<noteq> k" if "z \<in> set (jn_records i)" for z using none that unfolding find_None_iff by blast
  ultimately have new: "jn_records j \<noteq> jn_records i" by metis
  then obtain c where c: "pd_records d = [c]" using one 2(1) by (cases "pd_records d") auto
  have "merge_change env i (jn_records i) c = (j, Inr merged)" using 2(1) c by (auto split: prod.splits sum.splits)
  moreover have "\<forall>r\<in>set (jn_records i). truthy (er_recordRef r)" using s tracked_ref by (auto simp: sound_def)
  ultimately obtain x x' old where x: "jn_records j = jn_records i @ [x]" "merged = old @ [x']" "list_all2 kept (jn_records i) old" "kept x x'"
    using adopted_kept new by metis
  have "key_of env z \<noteq> k" if z: "z \<in> set old" for z
  proof -
    obtain z0 where z0: "z0 \<in> set (jn_records i)" "kept z0 z" using list_all2_member [OF x(3) z] by (elim bexE)
    show ?thesis using free [OF z0(1)] unfolding kept_key [OF z0(2)] .
  qed
  then have "List.find (\<lambda>x. key_of env x = k) old = None" unfolding find_None_iff by blast
  from find_in_back [OF y(1) [unfolded x(2)] this] have "y = x'" by (simp split: if_splits)
  then have "same_identity x y" using x(4) by (simp add: kept_def)
  from identity_trans [OF this identity_core [OF y(2) [symmetric]]] have "same_identity x r" .
  moreover have "created_in env i x" using 2(3) x(1) founded_created [of i env x] by (simp add: adopted_def)
  ultimately show ?thesis by (rule created_in_identity)
qed

lemma partial_created:
  assumes ok: "execution_ok env i" and n: "newly_created env i (fst (updatePartial env d i)) k r"
  shows "created_in env i r"
proof -
  let ?P = "\<lambda>j. execution_ok env j \<and> jn_writes j = jn_writes i \<and> jn_ui j = jn_ui i
    \<and> (\<forall>k r. newly_created env i j k r \<longrightarrow> created_in env i r)"
  have "?P (fst (updatePartial env d i))"
  proof (rule partial_induct)
    show "?P i" using ok by (auto simp: newly_created_def)
    show "?P j'" if j: "?P j" and u: "update env d j = (j', e)" and one: "length (pd_records d) \<le> 1" for j d j' e
    proof -
      have s: "sound j" using j by (simp add: execution_ok_def)
      have "created_in env i r" if new: "newly_created env i j' k r" for k r
      proof (cases "known_record env j k")
        case None
        then have "newly_created env j j' k r" using new by (simp add: newly_created_def)
        from update_created [OF u s one this] show ?thesis using created_in_fields [of j i] j by simp
      next
        case (Some r0)
        have f: "same_facts r0 r" using beforeD [OF update_before [OF u s] Some] new by (simp add: newly_created_def)
        then have "newly_created env i j k r0" using Some new by (simp add: newly_created_def same_facts_def)
        then have "created_in env i r0" using j by blast
        moreover have "same_identity r0 r" using f by (simp add: same_facts_def)
        ultimately show ?thesis using created_in_identity by blast
      qed
      then show ?thesis using j statement_ok [OF u] update_fields [OF u s] by simp
    qed
  qed
  then show ?thesis using n by blast
qed

lemma unknown_cores: "cores j = cores i \<Longrightarrow> known_record env i k = None \<Longrightarrow> known_record env j k = None"
  using cores_before [of i j "[]" env] by (cases "known_record env j k") (fastforce simp: journal_before_def)+

lemma event_created:
  assumes ok: "execution_ok env i" and n: "newly_created env i (after_event env e i) k r"
  shows "created_in env i r \<or> created_in env (after_event env e i) r"
proof -
  have s: "sound i" using ok by (simp add: execution_ok_def)
  have none: "known_record env i k = None" and some: "known_record env (after_event env e i) k \<noteq> None"
    using n by (simp_all add: newly_created_def)
  show ?thesis
  proof (cases rule: event_cases [OF s TrueI, of env e])
    case (1 result known command page)
    then show ?thesis using observe_created [OF s] n by simp
  next
    case (2 d)
    then show ?thesis using partial_created [OF ok] n by simp
  next
    case (3 reason)
    then show ?thesis using unknown_cores [OF block_cores none] some by simp
  next
    case 4
    then have "cores (after_event env e i) = cores i" by (simp add: same_books_def cores_def)
    from unknown_cores [OF this none] show ?thesis using some by simp
  next
    case 5
    then show ?thesis using some by (simp add: same_books_def known_record_def new_journal_def)
  qed
qed

lemma forgotten: "\<not> read_back e i \<Longrightarrow> jn_records (after_event env e i) = []"
  by (cases e) (simp_all add: stored_as_def open_journal_def accountReplacementState_def readExecutionState_def new_journal_def Let_def
      split: option.split list.split)

lemma only_record:
  "distinct (map er_recordRef rs) \<Longrightarrow> r \<in> set rs \<Longrightarrow> s \<in> set rs \<Longrightarrow> er_recordRef r = er_recordRef s \<Longrightarrow> r = s"
  by (simp add: distinct_map inj_on_def)

section \<open>A baseline without evidence\<close>

text \<open>The schema wants evidence for every record, but a record that is observed in an output without any is kept as a
  baseline all the same. From then on every statement of the model is refused.\<close>

lemma uncited_baseline_kept:
  "\<exists>b\<in>set (jn_observed (observe_request demo_env JUndefined [] (\<lambda>_. None) new_journal demo_q3)). er_evidenceRefs b = []"
  by code_simp

lemma uncited_baseline_blocks:
  assumes "journal_reachable env i" and "b \<in> set (jn_observed i)" and "er_evidenceRefs b = []"
  shows "snd (update env d i) \<noteq> None"
proof
  obtain j' e where u: "update env d i = (j', e)" by (cases "update env d i")
  assume "snd (update env d i) = None"
  then have e: "e = None" using u by simp
  have s: "sound i" using reachable_ok [OF assms(1)] by (simp add: execution_ok_def)
  show False
  proof (cases rule: update_cases [OF u s])
    case (1 news)
    then show ?thesis using e by simp
  next
    case (2 j merged news j3)
    have "jn_observed j = jn_observed i" using 2(3) by (simp add: adopted_def)
    then have "list_all record_within (jn_observed i)" using not_refused(1) [OF 2(5)] by (simp add: state_within_def)
    then have "record_within b" using assms(2) by (simp add: list_all_iff)
    then show ?thesis using assms(3) by (simp add: record_within_def refs_within_def)
  qed
qed

section \<open>The guarantees\<close>

lemma demo_fits: "output_fits demo_env demo_created [''v'']" "output_fits demo_env demo_deleted [''v'']"
  by (simp_all only: output_fits_def demo_requests demo_evidence) code_simp+

lemma demo_reachable: "journal_reachable demo_env demo_one" "journal_reachable demo_env demo_two"
  "(journal_step demo_env read_back)\<^sup>*\<^sup>* demo_one demo_two" "(journal_step demo_env (sized demo_env))\<^sup>*\<^sup>* new_journal demo_two"
proof -
  have "journal_step demo_env (sized demo_env) new_journal demo_one"
    using Event [of "Observed demo_created [''v''] None None" new_journal "sized demo_env" demo_env] by (simp add: demo_observed demo_fits)
  moreover have "journal_step demo_env (sized demo_env) demo_one demo_two"
    using Event [of "Observed demo_deleted [''v''] None None" demo_one "sized demo_env" demo_env] by (simp add: demo_observed demo_fits)
  ultimately show "(journal_step demo_env (sized demo_env))\<^sup>*\<^sup>* new_journal demo_two" by auto
  have "journal_step demo_env read_back new_journal demo_one"
    using Event [of "Observed demo_created [''v''] None None" new_journal read_back demo_env] by (simp add: demo_observed)
  moreover have "journal_step demo_env read_back demo_one demo_two"
    using Event [of "Observed demo_deleted [''v''] None None" demo_one read_back demo_env] by (simp add: demo_observed)
  ultimately have "(journal_step demo_env read_back)\<^sup>*\<^sup>* new_journal demo_one" "(journal_step demo_env read_back)\<^sup>*\<^sup>* new_journal demo_two"
    and one: "(journal_step demo_env read_back)\<^sup>*\<^sup>* demo_one demo_two"
    by auto
  then show "journal_reachable demo_env demo_one" "journal_reachable demo_env demo_two"
    by (simp_all add: journal_reachable_def steps_any)
  show "(journal_step demo_env read_back)\<^sup>*\<^sup>* demo_one demo_two" by (rule one)
qed

abbreviation demo_record :: journal_record where
  "demo_record \<equiv> hd (jn_records demo_two)"

lemma demo_facts: "demo_record \<in> set (jn_records demo_two)" "has_status CLEANUP_COMPLETED demo_record"
    "last (jn_writes demo_two) \<in> set (jn_writes demo_two)" "matches demo_env (last (jn_writes demo_two)) demo_record"
    "\<not> rejectedWrite demo_env (last (jn_writes demo_two))" "distinct (map er_recordRef (jn_records demo_two))"
    "known_record demo_env demo_two ''o/r:t:7'' = Some demo_record" "er_ownership demo_record = CREATED_THIS_RUN"
    "known_record demo_env demo_one ''o/r:t:7'' = Some (hd (jn_records demo_one))" "er_ownership (hd (jn_records demo_one)) = CREATED_THIS_RUN"
    "er_cleanup (hd (jn_records demo_one)) \<noteq> None" "jn_writes demo_two \<noteq> []"
  by code_simp+

text \<open>C10: In every journal an execution can reach, a record that is counted as cleaned up has a confirmation, provided the
  journal still holds a write that concerns it and was not rejected, and no two records share a reference.
  Unless that is of a page read again, the journal itself proves it: its last change of the record was confirmed
  and successful, a read after it shows a created record gone (by a \<open>DELETE\<close>) or a record that was there before with its
  first state (after a \<open>PUT\<close> or \<open>PATCH\<close>), and no later read lists the record.\<close>

theorem cleanup_rests_on_evidence:
  assumes "journal_reachable env j" and "r \<in> set (jn_records j)" and "has_status CLEANUP_COMPLETED r"
    and "w \<in> set (jn_writes j)" and "matches env w r" and "\<not> rejectedWrite env w" and "distinct (map er_recordRef (jn_records j))"
  shows "\<exists>p\<in>set (jn_confirmations j). er_recordRef r = Some (cc_recordRef p) \<and> (cc_source p = Some UI_SOURCE \<or> proves_undone env j r p)"
proof -
  have ok: "execution_ok env j" using assms(1) by (rule reachable_ok)
  have "w \<in> set (mutations_of env j r)" using assms(4-6) by (simp add: mutations_of_def)
  then have "latest_mutation env j r \<noteq> None" using set_js_sort [of "\<lambda>a b. sequence_of a \<le> sequence_of b" "mutations_of env j r"]
    by (auto simp: latest_mutation_def last_of_def)
  then obtain p where p: "p \<in> set (jn_confirmations j)" "er_recordRef r = Some (cc_recordRef p)"
    using ok assms(2,3,7) by (auto simp: execution_ok_def attested_def evidenced_def)
  have "proves_undone env j r p" if "cc_source p \<noteq> Some UI_SOURCE"
  proof -
    have "p \<in> from_network j" using p(1) that by (simp add: from_network_def)
    moreover have "proved env j" using ok by (simp add: execution_ok_def)
    ultimately have "\<exists>s\<in>set (jn_records j). owns s p \<and> proves_undone env j s p" unfolding proved_def by (rule bspec [rotated])
    then obtain s where s: "s \<in> set (jn_records j)" "owns s p \<and> proves_undone env j s p" by (elim bexE)
    then have "s = r" using only_record [OF assms(7) s(1) assms(2)] p(2) by simp
    then show ?thesis using s(2) by simp
  qed
  then show ?thesis using p by blast
qed

lemma cleanup_rests_on_evidence_witness:
  "\<exists>p\<in>set (jn_confirmations demo_two). er_recordRef demo_record = Some (cc_recordRef p)
    \<and> (cc_source p = Some UI_SOURCE \<or> proves_undone demo_env demo_two demo_record p)"
  by (rule cleanup_rests_on_evidence [OF demo_reachable(2) demo_facts(1-6)])

text \<open>C11: Whatever is observed, stated, replaced or restarted: when the record a journal knows under a key is said to be created
  by this run, the journal held, on its way here, a confirmed and successful submission to this record's resource, for
  this record's account and type or under a name and kept as the write that created it; the response named this record or
  none, or the page showed this record with the account and the type label submitted.\<close>

theorem ownership_established:
  assumes "journal_reachable env j" and "known_record env j k = Some r" and "er_ownership r = CREATED_THIS_RUN"
  shows "\<exists>i w. journal_reachable env i \<and> (journal_step env any_event)\<^sup>*\<^sup>* i j \<and> w \<in> set (jn_writes i)
    \<and> created_by env w r \<and> (names_id env w (er_id r) \<or> shown i r w)"
proof -
  have "\<exists>i. journal_reachable env i \<and> (journal_step env any_event)\<^sup>*\<^sup>* i j \<and> created_in env i r"
    using assms unfolding journal_reachable_def
  proof (induction arbitrary: r rule: rtranclp_induct)
    case base
    then show ?case by (simp add: known_record_def new_journal_def)
  next
    case (step i j)
    obtain e where e: "j = after_event env e i" using step.hyps(2) by (auto elim: journal_stepE)
    have ok: "execution_ok env i" using step.hyps(1) reachable_ok by (simp add: journal_reachable_def)
    have on: "(journal_step env any_event)\<^sup>*\<^sup>* new_journal j" using step.hyps by (rule rtranclp.rtrancl_into_rtrancl)
    show ?case
    proof (cases "known_record env i k")
      case None
      then have "newly_created env i (after_event env e i) k r" using step.prems e by (simp add: newly_created_def)
      from event_created [OF ok this] show ?thesis using step.hyps on e by blast
    next
      case (Some r0)
      have "jn_records j \<noteq> []" using step.prems(1) by (auto simp: known_record_def)
      then have "read_back e i" using forgotten [of e i env] e by blast
      from beforeD [OF event_before [OF ok this] Some] have f: "same_facts r0 r" using step.prems(1) e by simp
      then obtain h where "(journal_step env any_event)\<^sup>*\<^sup>* new_journal h" "(journal_step env any_event)\<^sup>*\<^sup>* h i" "created_in env h r0"
        using step.IH [OF Some] step.prems(2) by (auto simp: same_facts_def)
      then show ?thesis using created_in_identity [of r0 r] f step.hyps(2) by (meson same_facts_def rtranclp.rtrancl_into_rtrancl)
    qed
  qed
  then show ?thesis unfolding created_in_def by blast
qed

lemma ownership_established_witness:
  "\<exists>i w. journal_reachable demo_env i \<and> (journal_step demo_env any_event)\<^sup>*\<^sup>* i demo_two \<and> w \<in> set (jn_writes i)
    \<and> created_by demo_env w demo_record \<and> (names_id demo_env w (er_id demo_record) \<or> shown i demo_record w)"
  by (rule ownership_established [OF demo_reachable(2) demo_facts(7,8)])



text \<open>C40: As long as what enters a journal is small, every journal an execution reaches is within all the limits its schema
  sets for the lengths of its lists, from below and above, and past preflight once something was submitted. Small means:
  an output with requests is backed by stored evidence and none of its responses holds more than 100 records, a statement
  leaves no more than 50 records, and the accounts given are 50 at most with 20 aliases each, also when merged with
  those known.\<close>

theorem journal_within_schema:
  assumes "(journal_step env (sized env))\<^sup>*\<^sup>* new_journal j"
  shows "state_within j \<and> (jn_writes j \<noteq> [] \<longrightarrow> jn_phase j \<noteq> PREFLIGHT)"
proof -
  have "execution_ok env j \<and> limited j"
    using assms
  proof (induction rule: rtranclp_induct)
    case base
    show ?case using empty_ok by (simp add: limited_def new_journal_def)
  next
    case (step i j)
    obtain e where "j = after_event env e i" "sized env e i" using step.hyps(2) by (auto elim: journal_stepE)
    then show ?case using step.IH event_ok limited_event by blast
  qed
  then show ?thesis using limited_within [of j] by (simp add: execution_ok_def sound_def started_def)
qed

lemma journal_within_schema_witness: "state_within demo_two \<and> jn_phase demo_two \<noteq> PREFLIGHT"
  using journal_within_schema [OF demo_reachable(4)] demo_facts(12) by simp

end
