(* ===== verification/Spec2Isabelle.thy ===== *)
theory Spec2Isabelle
  imports Scheduling TaskProjection SessionPermits AcceptanceReport RuntimeTiming TokenUsage ClosureJournal ExecutionConcurrency
    BoundEvidence RecoverySafety TaskOutcomes AdmissionOrder JournalSafety
begin

text \<open>
  Devproof runs acceptance tests of web applications with agents. A control plane (\<open>apps/api\<close>) keeps
  tasks, runs, leases and sessions in a database; agent runtimes (\<open>apps/agent-runtime\<close>) claim tasks and
  decide criteria; browser runtimes (\<open>apps/browser-runtime\<close>) own the browsers; the packages hold what
  they share. This development models the logic that decides who may act on what, when a browser counts
  as gone, what may be released, what counts as evidence, and what is reported.

  \<^bold>\<open>Who may act.\<close>
  \<^item> \<open>SessionPermits\<close>: class \<open>SessionPermits\<close> of the browser runtime (\<open>session-permits.ts\<close>) as a state with one
    step per method. A revoked session is never revived, an executor with an older fencing token is shut
    out, and a command is authorised only while connected and before a deadline taken from its permit.
  \<^item> \<open>ExecutionPermit\<close>: \<open>session-permit.ts\<close>, the permits the control plane issues. Composed with the registry:
    a command carried out under a permit happens before the leases behind it run out.
  \<^item> \<open>ExecutionConcurrency\<close>: \<open>execution-concurrency.ts\<close>, \<open>account-coordination.ts\<close> and the lease rows of
    admission and release. The lease table as a transition system; its rows never conflict. The invariant is
    about the rows of admitted and manual sessions and of sessions resumed in a known environment; the guard rows of
    origin \<open>LEGACY_RECOVERY\<close>, which recovery adds for sessions that have none, and resumptions in an unknown
    environment, which conflict, are no part of it.

  \<^bold>\<open>When a browser is gone.\<close>
  \<^item> \<open>ClosureJournal\<close>: the browser runtime's durable journal of launches and closures and its write audit.
  \<^item> \<open>CleanupEvidence\<close>: the receipts of an execution and the proof that it undid what it wrote
    (\<open>execution-cleanup.ts\<close>, \<open>session-cleanup-outcome.ts\<close>).
  \<^item> \<open>WriteAssessment\<close>: the rows of the tables and the judgement of what a session may have written
    (\<open>session-write-audit.ts\<close>, \<open>session-navigation-outcome.ts\<close>, part of \<open>session-recovery.state.ts\<close>).
  \<^item> \<open>SessionRecovery\<close>, \<open>SessionClosure\<close>: the rest of \<open>session-recovery.state.ts\<close>, \<open>session-resource-cleanup.ts\<close>,
    \<open>session-recovery.service.ts\<close>, \<open>session-closure.service.ts\<close> and \<open>session-recovery.worker.ts\<close>. A
    transaction of the database is a function on the tables; a thrown error is \<open>Inl\<close> and commits nothing.
  \<^item> \<open>RecoveryInvariant\<close>, \<open>RecoverySteps\<close>, \<open>RecoverySafety\<close>: the invariant that ties sessions, recoveries and
    evidence together, the order in which they move, that every transaction keeps both, and what follows for
    the states reached by any interleaving of transactions with the rest of the control plane.

  \<^bold>\<open>What a task may do.\<close>
  \<^item> \<open>AgentOutcome\<close>: outcomes as agents report them (\<open>agent-runtime-protocol/src/index.ts\<close>), the check of the evidence
    they cite, deadline extensions, the budget of an execution (\<open>execution-budget.ts\<close>), the decision on a lost lease.
  \<^item> \<open>AgentTasks\<close>, \<open>TaskReports\<close>: \<open>agent-runtime-task.service.ts\<close> and \<open>execution-checkpoint.ts\<close>, one function on the
    tables per transaction: claim, heartbeat, event, checkpoint, outcome, loss of a lease, its recovery, next attempt.
  \<^item> \<open>RunLifecycle\<close>: runs are created, cancelled, resumed by a human (\<open>execution-run.service.ts\<close>) and expire
    (\<open>unified-run-cleanup.worker.ts\<close>). \<open>BrowserAdmission\<close>: the order of admission, its failure, and browsers lost before
    their first claim (\<open>browser-admission.service.ts\<close>).
  \<^item> \<open>TaskRows\<close>, \<open>TaskSteps\<close>, \<open>RecoveryTasks\<close>: the invariant of tasks, attempts, runs and interventions, the order in
    which they move, and that each of these transactions, and each of session recovery, keeps both. \<open>TaskSafety\<close>: the
    control plane as one transition relation, and what holds in every state it reaches. \<open>TaskOutcomes\<close>: when a task is
    retried, a run gets a verdict or more time, and a request is a repetition. \<open>AdmissionOrder\<close>: the order is fair.

  \<^bold>\<open>What counts as evidence.\<close>
  \<^item> \<open>UText\<close>, \<open>ObservationContract\<close>, \<open>Observation\<close>, \<open>BoundEvidence\<close>: normalised display text; what is to be
    observed for a criterion and its schemas (\<open>observation-contract.ts\<close>); the evaluation of a captured page
    against it (\<open>observation-evaluator.ts\<close>); and the store of an agent runtime that accepts a verdict only on
    bindings it delivered (\<open>bound-evidence.ts\<close>).

  \<^item> \<open>JournalState\<close>, \<open>ExecutionJournal\<close>, \<open>JournalUpdate\<close>, \<open>JournalPlan\<close>: the journal of an execution
    (\<open>execution-journal.ts\<close>, its schema in \<open>execution-state.ts\<close>). \<open>observe\<close> takes in what a browser reports, request by
    request; \<open>updatePartial\<close> what the model states, one \<open>update\<close> per record. What was observed decides what the run created, what was there before,
    and which cleanup is done; a statement is checked against it. The records, writes and reads extend those of
    \<open>CleanupEvidence\<close>, which judges them in the control plane. \<open>journal_event\<close> lists what happens to a journal: outputs,
    statements, the end of the cleanup, what the executor sets itself (\<open>browser-verification.executor.ts\<close>), other accounts
    from a human (\<open>account-replacement.ts\<close>), and opening the stored journal, which its schema takes or refuses; refused, it is
    replaced by an empty one. \<open>JournalFacts\<close> and \<open>JournalSound\<close>: what each operation leaves alone, and the invariant;
    \<open>JournalStatements\<close>: what a statement may do; \<open>JournalLimits\<close>: the limits of the schema, under the sizes they need;
    \<open>JournalSafety\<close>: what follows for every journal an execution reaches by any events, or by those that read the stored
    journal back, or by small ones, and the refusals a baseline without evidence leads to; \<open>JournalExample\<close>: a run, evaluated.

  \<^bold>\<open>What is reported.\<close>
  \<^item> \<open>Scheduling\<close> (\<open>task-scheduling.ts\<close>), \<open>TaskProjection\<close> (retry policy and task status, \<open>test-domain/src/index.ts\<close>),
    \<open>Acceptance\<close> and \<open>AcceptanceReport\<close> (\<open>acceptance-assessment.ts\<close>, \<open>task-acceptance-report.ts\<close>),
    \<open>TimingSweep\<close>, \<open>RuntimeTiming\<close>, \<open>TokenUsage\<close> (\<open>task-metrics.ts\<close>).

  \<^bold>\<open>Shared.\<close> \<open>Prelude\<close> has the data of the language (\<open>js\<close>: a value of unknown type; maps in insertion order;
  stable sorting), lists updated in place, and the locales the components interpret:
  \<open>keyed_store\<close>, \<open>comparator\<close>, \<open>classifier\<close>, \<open>machine\<close> with its extensions, and \<open>step_system\<close>. \<open>JsStrings\<close> has the string operations.

  \<^bold>\<open>Parameters.\<close> URL and JSON parsing, collation, SHA-256, redaction and the clock are arguments of the
  definitions (for recovery, fields of \<open>recovery_env\<close>; for tasks, of \<open>task_env\<close>, which also has the checks of bindings,
  account requests and resource claims that other services make); theorems that need something of them say so. Random
  identifiers are arguments too, new where a step draws them. The journal has its platform in \<open>journal_env\<close>, and a captured
  page is given to it as its schema parses it.

  \<^bold>\<open>Bounds.\<close> Numbers that the code keeps as JavaScript numbers are integers or rationals where the code
  stays within safe integers, and the check for safety is written out where the code makes it; times are
  milliseconds. The search for a delivered binding in a tool result is cut off where the code cuts it off,
  at a depth of 30, by a fuel of 31; a claim makes five tries, as in the code; the average latency of a model is taken
  over exact tenths; records and evidence are searched to a depth of 8, as in the code, by a fuel of 9, and the nodes above
  a node by a fuel of one more than there are nodes, which a path without repetition does not use up; every other recursion is structural or has its measure.

  \<^bold>\<open>Limits.\<close> A transaction reads the clock once. Columns that nothing modelled reads (audit events, notes,
  the expiry of a user's browser profile) are left out. Tasks and sessions are not deleted by the steps of
  \<open>RecoverySafety\<close>. The scan of the recovery worker, the delivery of wake-ups and the transport of commands
  are not modelled; they only decide which of the modelled steps is taken when. In the journal \<open>new URL\<close> does not fail on
  the URL of a reported request, notes are kept only as given or blank, and of the schema's limits on single texts none is
  checked: whether the schema takes a stored journal within the limits of its lists is left open. That the lists stay within
  them is proved for events that are \<open>sized\<close>, because the code can exceed them otherwise: an output with requests has stored
  evidence, a response holds 100 records, a statement leaves 50, and reopening leaves 20 aliases of an account. Of session
  recovery, \<open>runtime-drain.service.ts\<close> and the few other services that call \<open>releaseVerifiedSessionResources\<close> themselves are
  not among the transactions of \<open>recovery_transaction\<close>.

  \<^bold>\<open>Not modelled.\<close> The web console, controllers and data access, authentication and integrations, object
  storage and telemetry, the drivers of browsers and models, and the prompts: they are input and output
  around the logic above. Of the services that move tasks and runs the texts, metrics, archived model requests,
  notifications and the scheduling rows shown with a case are left out; of \<open>browser-admission.service.ts\<close> the choice of a
  runtime and the retry delays; of the journal its rendering for the model (\<open>modelView\<close>, \<open>cleanupNotice\<close>). \<open>task-execution.service.ts\<close> appears only by the rows it leaves.
\<close>

end
